(* ===== verification/Prelude.thy ===== *)
theory Prelude
  imports Main "HOL-Library.Word" "HOL-Library.Multiset" "HOL-Library.Monad_Syntax"
begin

unbundle bit_operations_syntax

section \<open>Shared vocabulary of the pcsc-lite development\<close>

text \<open>
  This theory fixes the machine types and the numeric constants of the C sources and collects the
  lemmas every component uses: the ``first index'' search that stands for the many
  \<^verbatim>\<open>for (i = 0; i < N; i++) if (...) break;\<close> loops over fixed arrays, flag tests and flag
  updates on status words, and list update facts.

  Conventions. The model fixes the ILP32 data model of the daemon's 32-bit targets:
  \<^verbatim>\<open>DWORD\<close> (\<^verbatim>\<open>unsigned long\<close>), \<^verbatim>\<open>SCARDHANDLE\<close>,
  \<^verbatim>\<open>SCARDCONTEXT\<close> and \<^verbatim>\<open>uint32_t\<close> are all \<open>32 word\<close>, \<^verbatim>\<open>UCHAR\<close> is \<open>8 word\<close>, and
  \<^verbatim>\<open>USHORT\<close> values are kept as bounded naturals. Return codes (\<^verbatim>\<open>LONG\<close>,
  \<^verbatim>\<open>RESPONSECODE\<close>) are only ever compared for equality, so they are integers carrying the
  numeric value the headers give them; the numeric view keeps the collisions the headers have
  (\<^verbatim>\<open>IFD_SUCCESS\<close> is \<^verbatim>\<open>SCARD_S_SUCCESS\<close>).
  A C call that may kill the process (a call or a read through a null pointer, \<^verbatim>\<open>exit\<close>) or
  never return (an endless loop) has an option result, and \<open>None\<close> is that outcome.
\<close>

subsection \<open>Machine types\<close>

type_synonym UCHAR = "8 word"
type_synonym DWORD = "32 word"
type_synonym SCARDHANDLE = "32 word"
type_synonym SCARDCONTEXT = "32 word"
type_synonym LONG = int

subsection \<open>Constants of pcsclite.h, pcscd.h, ifdhandler.h and winscard.c\<close>

abbreviation (input) SCARD_S_SUCCESS :: LONG where "SCARD_S_SUCCESS \<equiv> 0"
abbreviation (input) SCARD_F_INTERNAL_ERROR :: LONG where "SCARD_F_INTERNAL_ERROR \<equiv> 0x80100001"
abbreviation (input) SCARD_E_CANCELLED :: LONG where "SCARD_E_CANCELLED \<equiv> 0x80100002"
abbreviation (input) SCARD_E_INVALID_HANDLE :: LONG where "SCARD_E_INVALID_HANDLE \<equiv> 0x80100003"
abbreviation (input) SCARD_E_INVALID_PARAMETER :: LONG where "SCARD_E_INVALID_PARAMETER \<equiv> 0x80100004"
abbreviation (input) SCARD_E_INVALID_TARGET :: LONG where "SCARD_E_INVALID_TARGET \<equiv> 0x80100005"
abbreviation (input) SCARD_E_NO_MEMORY :: LONG where "SCARD_E_NO_MEMORY \<equiv> 0x80100006"
abbreviation (input) SCARD_E_INSUFFICIENT_BUFFER :: LONG where "SCARD_E_INSUFFICIENT_BUFFER \<equiv> 0x80100008"
abbreviation (input) SCARD_E_UNKNOWN_READER :: LONG where "SCARD_E_UNKNOWN_READER \<equiv> 0x80100009"
abbreviation (input) SCARD_E_SHARING_VIOLATION :: LONG where "SCARD_E_SHARING_VIOLATION \<equiv> 0x8010000B"
abbreviation (input) SCARD_E_NO_SMARTCARD :: LONG where "SCARD_E_NO_SMARTCARD \<equiv> 0x8010000C"
abbreviation (input) SCARD_E_PROTO_MISMATCH :: LONG where "SCARD_E_PROTO_MISMATCH \<equiv> 0x8010000F"
abbreviation (input) SCARD_E_INVALID_VALUE :: LONG where "SCARD_E_INVALID_VALUE \<equiv> 0x80100011"
abbreviation (input) SCARD_F_UNKNOWN_ERROR :: LONG where "SCARD_F_UNKNOWN_ERROR \<equiv> 0x80100014"
abbreviation (input) SCARD_E_NOT_TRANSACTED :: LONG where "SCARD_E_NOT_TRANSACTED \<equiv> 0x80100016"
abbreviation (input) SCARD_E_READER_UNAVAILABLE :: LONG where "SCARD_E_READER_UNAVAILABLE \<equiv> 0x80100017"
abbreviation (input) SCARD_E_DUPLICATE_READER :: LONG where "SCARD_E_DUPLICATE_READER \<equiv> 0x8010001B"
abbreviation (input) SCARD_E_NO_SERVICE :: LONG where "SCARD_E_NO_SERVICE \<equiv> 0x8010001D"
abbreviation (input) SCARD_E_UNSUPPORTED_FEATURE :: LONG where "SCARD_E_UNSUPPORTED_FEATURE \<equiv> 0x8010001F"
abbreviation (input) SCARD_W_UNRESPONSIVE_CARD :: LONG where "SCARD_W_UNRESPONSIVE_CARD \<equiv> 0x80100066"
abbreviation (input) SCARD_W_UNPOWERED_CARD :: LONG where "SCARD_W_UNPOWERED_CARD \<equiv> 0x80100067"
abbreviation (input) SCARD_W_RESET_CARD :: LONG where "SCARD_W_RESET_CARD \<equiv> 0x80100068"
abbreviation (input) SCARD_W_REMOVED_CARD :: LONG where "SCARD_W_REMOVED_CARD \<equiv> 0x80100069"

abbreviation (input) IFD_SUCCESS :: LONG where "IFD_SUCCESS \<equiv> 0"
abbreviation (input) IFD_ERROR_TAG :: LONG where "IFD_ERROR_TAG \<equiv> 600"
abbreviation (input) IFD_ERROR_NOT_SUPPORTED :: LONG where "IFD_ERROR_NOT_SUPPORTED \<equiv> 606"
abbreviation (input) IFD_PROTOCOL_NOT_SUPPORTED :: LONG where "IFD_PROTOCOL_NOT_SUPPORTED \<equiv> 607"
abbreviation (input) IFD_COMMUNICATION_ERROR :: LONG where "IFD_COMMUNICATION_ERROR \<equiv> 612"
abbreviation (input) IFD_NOT_SUPPORTED :: LONG where "IFD_NOT_SUPPORTED \<equiv> 614"
abbreviation (input) IFD_ICC_PRESENT :: LONG where "IFD_ICC_PRESENT \<equiv> 615"
abbreviation (input) IFD_ICC_NOT_PRESENT :: LONG where "IFD_ICC_NOT_PRESENT \<equiv> 616"
abbreviation (input) IFD_NO_SUCH_DEVICE :: LONG where "IFD_NO_SUCH_DEVICE \<equiv> 617"

abbreviation (input) IFD_POWER_UP :: DWORD where "IFD_POWER_UP \<equiv> 500"
abbreviation (input) IFD_POWER_DOWN :: DWORD where "IFD_POWER_DOWN \<equiv> 501"
abbreviation (input) IFD_RESET :: DWORD where "IFD_RESET \<equiv> 502"

abbreviation (input) IFD_HVERSION_1_0 :: DWORD where "IFD_HVERSION_1_0 \<equiv> 0x10000"
abbreviation (input) IFD_HVERSION_2_0 :: DWORD where "IFD_HVERSION_2_0 \<equiv> 0x20000"
abbreviation (input) IFD_HVERSION_3_0 :: DWORD where "IFD_HVERSION_3_0 \<equiv> 0x30000"

abbreviation (input) TAG_IFD_ATR :: DWORD where "TAG_IFD_ATR \<equiv> 0x0303"
abbreviation (input) TAG_IFD_SLOTNUM :: DWORD where "TAG_IFD_SLOTNUM \<equiv> 0x0180"
abbreviation (input) TAG_IFD_SLOT_THREAD_SAFE :: DWORD where "TAG_IFD_SLOT_THREAD_SAFE \<equiv> 0x0FAC"
abbreviation (input) TAG_IFD_THREAD_SAFE :: DWORD where "TAG_IFD_THREAD_SAFE \<equiv> 0x0FAD"
abbreviation (input) TAG_IFD_SLOTS_NUMBER :: DWORD where "TAG_IFD_SLOTS_NUMBER \<equiv> 0x0FAE"
abbreviation (input) TAG_IFD_SIMULTANEOUS_ACCESS :: DWORD where "TAG_IFD_SIMULTANEOUS_ACCESS \<equiv> 0x0FAF"
abbreviation (input) TAG_IFD_POLLING_THREAD :: DWORD where "TAG_IFD_POLLING_THREAD \<equiv> 0x0FB0"
abbreviation (input) TAG_IFD_POLLING_THREAD_KILLABLE :: DWORD where "TAG_IFD_POLLING_THREAD_KILLABLE \<equiv> 0x0FB1"

abbreviation (input) SCARD_PROTOCOL_UNDEFINED :: "'a::len word" where "SCARD_PROTOCOL_UNDEFINED \<equiv> 0"
abbreviation (input) SCARD_PROTOCOL_T0 :: "'a::len word" where "SCARD_PROTOCOL_T0 \<equiv> 1"
abbreviation (input) SCARD_PROTOCOL_T1 :: "'a::len word" where "SCARD_PROTOCOL_T1 \<equiv> 2"
abbreviation (input) SCARD_PROTOCOL_RAW :: "'a::len word" where "SCARD_PROTOCOL_RAW \<equiv> 4"
abbreviation (input) SCARD_PROTOCOL_T15 :: "'a::len word" where "SCARD_PROTOCOL_T15 \<equiv> 8"
abbreviation (input) SCARD_PROTOCOL_ANY_OLD :: DWORD where "SCARD_PROTOCOL_ANY_OLD \<equiv> 0x1000"

abbreviation (input) SCARD_SHARE_EXCLUSIVE :: DWORD where "SCARD_SHARE_EXCLUSIVE \<equiv> 1"
abbreviation (input) SCARD_SHARE_SHARED :: DWORD where "SCARD_SHARE_SHARED \<equiv> 2"
abbreviation (input) SCARD_SHARE_DIRECT :: DWORD where "SCARD_SHARE_DIRECT \<equiv> 3"

abbreviation (input) SCARD_LEAVE_CARD :: DWORD where "SCARD_LEAVE_CARD \<equiv> 0"
abbreviation (input) SCARD_RESET_CARD :: DWORD where "SCARD_RESET_CARD \<equiv> 1"
abbreviation (input) SCARD_UNPOWER_CARD :: DWORD where "SCARD_UNPOWER_CARD \<equiv> 2"
abbreviation (input) SCARD_EJECT_CARD :: DWORD where "SCARD_EJECT_CARD \<equiv> 3"

abbreviation (input) SCARD_UNKNOWN :: DWORD where "SCARD_UNKNOWN \<equiv> 1"
abbreviation (input) SCARD_ABSENT :: DWORD where "SCARD_ABSENT \<equiv> 2"
abbreviation (input) SCARD_PRESENT :: DWORD where "SCARD_PRESENT \<equiv> 4"
abbreviation (input) SCARD_SWALLOWED :: DWORD where "SCARD_SWALLOWED \<equiv> 8"
abbreviation (input) SCARD_POWERED :: DWORD where "SCARD_POWERED \<equiv> 16"
abbreviation (input) SCARD_NEGOTIABLE :: DWORD where "SCARD_NEGOTIABLE \<equiv> 32"
abbreviation (input) SCARD_SPECIFIC :: DWORD where "SCARD_SPECIFIC \<equiv> 64"

abbreviation (input) SCARD_RESET :: DWORD where "SCARD_RESET \<equiv> 1"
abbreviation (input) SCARD_INSERTED :: DWORD where "SCARD_INSERTED \<equiv> 2"
abbreviation (input) SCARD_REMOVED :: DWORD where "SCARD_REMOVED \<equiv> 4"

abbreviation (input) SCARD_NO_CONTEXT :: int where "SCARD_NO_CONTEXT \<equiv> 0"
abbreviation (input) SCARD_LAST_CONTEXT :: int where "SCARD_LAST_CONTEXT \<equiv> 1"
abbreviation (input) SCARD_EXCLUSIVE_CONTEXT :: int where "SCARD_EXCLUSIVE_CONTEXT \<equiv> -1"

abbreviation (input) SCARD_SCOPE_USER :: DWORD where "SCARD_SCOPE_USER \<equiv> 0"
abbreviation (input) SCARD_SCOPE_TERMINAL :: DWORD where "SCARD_SCOPE_TERMINAL \<equiv> 1"
abbreviation (input) SCARD_SCOPE_SYSTEM :: DWORD where "SCARD_SCOPE_SYSTEM \<equiv> 2"
abbreviation (input) SCARD_SCOPE_GLOBAL :: DWORD where "SCARD_SCOPE_GLOBAL \<equiv> 3"
abbreviation (input) PCSCLITE_SVC_IDENTITY :: DWORD where "PCSCLITE_SVC_IDENTITY \<equiv> 0x01030000"

abbreviation (input) BLOCK_STATUS_RESUME :: DWORD where "BLOCK_STATUS_RESUME \<equiv> 0xFF"
abbreviation (input) PCSCLITE_HP_BASE_PORT :: DWORD where "PCSCLITE_HP_BASE_PORT \<equiv> 0x200000"

abbreviation (input) MAX_ATR_SIZE :: nat where "MAX_ATR_SIZE \<equiv> 33"
abbreviation (input) MAX_BUFFER_SIZE :: nat where "MAX_BUFFER_SIZE \<equiv> 264"
abbreviation (input) MAX_BUFFER_SIZE_EXTENDED :: nat where "MAX_BUFFER_SIZE_EXTENDED \<equiv> 65546"
abbreviation (input) MAX_READERNAME :: nat where "MAX_READERNAME \<equiv> 100"
abbreviation (input) MAX_LIBNAME :: nat where "MAX_LIBNAME \<equiv> 100"
abbreviation (input) MAX_DEVICENAME :: nat where "MAX_DEVICENAME \<equiv> 255"
abbreviation (input) PCSCLITE_MAX_READERS_CONTEXTS :: nat where "PCSCLITE_MAX_READERS_CONTEXTS \<equiv> 16"
abbreviation (input) PCSCLITE_MAX_READER_CONTEXT_CHANNELS :: nat where "PCSCLITE_MAX_READER_CONTEXT_CHANNELS \<equiv> 16"
abbreviation (input) PCSCLITE_MAX_APPLICATION_CONTEXT_CHANNELS :: nat where "PCSCLITE_MAX_APPLICATION_CONTEXT_CHANNELS \<equiv> 16"
abbreviation (input) PCSCLITE_MAX_APPLICATIONS_CONTEXTS :: nat where "PCSCLITE_MAX_APPLICATIONS_CONTEXTS \<equiv> 256"

subsection \<open>Flags in status words\<close>

definition flag :: "'a::len word \<Rightarrow> 'a word \<Rightarrow> bool" where
  "flag w m \<longleftrightarrow> w AND m \<noteq> 0"

definition bset :: "'a::len word \<Rightarrow> 'a word \<Rightarrow> 'a word" where
  "bset m w = w OR m"

definition bclr :: "'a::len word \<Rightarrow> 'a word \<Rightarrow> 'a word" where
  "bclr m w = w AND NOT m"

text \<open>A mask with a single bit, so that a flag is one bit of the word.\<close>

lemma flag_two_power:
  "n < LENGTH('a) \<Longrightarrow> flag (w :: 'a::len word) (2 ^ n) \<longleftrightarrow> bit w n"
  by (auto simp: flag_def and_exp_eq_0_iff_not_bit)

lemma flag_0 [simp]: "\<not> flag 0 m" "\<not> flag w 0"
  by (simp_all add: flag_def)

lemma flag_bset_same [simp]: "m \<noteq> 0 \<Longrightarrow> flag (bset m w) m"
  by (simp add: flag_def bset_def word_bw_lcs and.commute)

lemma flag_bclr_same [simp]: "\<not> flag (bclr m w) m"
proof -
  have "(w AND NOT m) AND m = 0"
    by (rule bit_word_eqI) (auto simp: bit_simps)
  then show ?thesis by (simp add: flag_def bclr_def)
qed

lemma flag_bset_other [simp]: "k AND m = 0 \<Longrightarrow> flag (bset k w) m = flag w m"
  by (simp add: flag_def bset_def word_ao_dist)

lemma flag_bclr_other [simp]: "k AND m = 0 \<Longrightarrow> flag (bclr k w) m = flag w m"
proof -
  assume km: "k AND m = 0"
  have "(w AND NOT k) AND m = w AND m"
  proof (rule bit_word_eqI)
    fix n
    from km have "\<not> (bit k n \<and> bit m n)" by (metis bit_and_iff bit_0_eq bot_apply bot_bool_def)
    then show "bit ((w AND NOT k) AND m) n = bit (w AND m) n" if "n < LENGTH('a)"
      using that by (auto simp: bit_simps)
  qed
  then show ?thesis by (simp add: flag_def bclr_def)
qed

lemma flag_or: "flag w (m OR k) \<longleftrightarrow> flag w m \<or> flag w k"
  by (simp add: flag_def word_ao_dist2 or_eq_0_iff)

lemma flag_and_le: "flag (a AND b) c \<Longrightarrow> flag a c \<and> flag b c"
  unfolding flag_def by (metis and.assoc and.commute and_zero_eq)

subsection \<open>Searching fixed arrays\<close>

text \<open>
  \<open>first_index P xs\<close> is the loop \<^verbatim>\<open>for (i = 0; i < N; i++) if (P(xs[i])) break;\<close>: the index the
  loop stops at, \<open>None\<close> when it runs to \<open>N\<close>.
\<close>

fun first_index :: "('a \<Rightarrow> bool) \<Rightarrow> 'a list \<Rightarrow> nat option" where
  "first_index P [] = None"
| "first_index P (x # xs) = (if P x then Some 0 else map_option Suc (first_index P xs))"

lemma first_index_SomeD:
  "first_index P xs = Some i \<Longrightarrow> i < length xs \<and> P (xs ! i) \<and> (\<forall>j<i. \<not> P (xs ! j))"
proof (induction xs arbitrary: i)
  case (Cons x xs)
  then show ?case
    by (auto split: if_splits simp: less_Suc_eq_0_disj nth_Cons split: nat.splits)
qed simp

lemma first_index_None_iff [simp]: "first_index P xs = None \<longleftrightarrow> (\<forall>x \<in> set xs. \<not> P x)"
  by (induction xs) auto

lemma first_index_Some_eq:
  assumes "i < length xs" and "P (xs ! i)" and "\<And>j. j < i \<Longrightarrow> \<not> P (xs ! j)"
  shows "first_index P xs = Some i"
proof (cases "first_index P xs")
  case None
  with assms show ?thesis by (auto simp: nth_mem)
next
  case (Some k)
  with first_index_SomeD [OF Some] assms have "k = i"
    by (metis linorder_neqE_nat)
  with Some show ?thesis by simp
qed

lemma first_index_cong:
  "(\<And>x. x \<in> set xs \<Longrightarrow> P x = Q x) \<Longrightarrow> first_index P xs = first_index Q xs"
  by (induction xs) auto

lemma first_index_ex: "x \<in> set xs \<Longrightarrow> P x \<Longrightarrow> \<exists>i. first_index P xs = Some i"
  by (metis first_index_None_iff option.exhaust)

subsection \<open>Counting in fixed arrays\<close>

text \<open>How many elements of an array satisfy a predicate; one array cell written changes it by at most one.\<close>

definition count_if :: "('a \<Rightarrow> bool) \<Rightarrow> 'a list \<Rightarrow> nat" where
  "count_if P xs = length (filter P xs)"

lemma count_if_simps [simp]:
  "count_if P [] = 0"
  "count_if P (x # xs) = (if P x then Suc (count_if P xs) else count_if P xs)"
  by (simp_all add: count_if_def)

lemma count_if_le: "count_if P xs \<le> length xs"
  by (simp add: count_if_def)

lemma count_if_update:
  "i < length xs \<Longrightarrow>
     int (count_if P (xs[i := y])) =
     int (count_if P xs) - of_bool (P (xs ! i)) + of_bool (P y)"
proof (induction xs arbitrary: i)
  case (Cons x xs)
  then show ?case by (cases i) auto
qed simp

lemma count_if_map: "count_if P (map f xs) = count_if (P \<circ> f) xs"
  by (induction xs) auto

lemma count_if_map_cong: "(\<And>x. P (f x) = P x) \<Longrightarrow> count_if P (map f xs) = count_if P xs"
  by (induction xs) auto

lemma count_if_pos_iff: "0 < count_if P xs \<longleftrightarrow> (\<exists>x \<in> set xs. P x)"
  by (induction xs) auto

lemma count_if_less_iff: "count_if P xs < length xs \<longleftrightarrow> (\<exists>x \<in> set xs. \<not> P x)"
proof (induction xs)
  case (Cons x xs)
  then show ?case using count_if_le [of P xs] by auto
qed simp

text \<open>Updating one element of a list of records.\<close>

definition upd_at :: "nat \<Rightarrow> ('a \<Rightarrow> 'a) \<Rightarrow> 'a list \<Rightarrow> 'a list" where
  "upd_at i f xs = xs[i := f (xs ! i)]"

lemma upd_at_simps [simp]:
  "length (upd_at i f xs) = length xs"
  "i < length xs \<Longrightarrow> upd_at i f xs ! i = f (xs ! i)"
  "j \<noteq> i \<Longrightarrow> upd_at i f xs ! j = xs ! j"
  by (simp_all add: upd_at_def)

lemma upd_at_nth: "i < length xs \<Longrightarrow> upd_at i f xs ! j = (if j = i then f (xs ! i) else xs ! j)"
  by simp

lemma upd_at_upd_at [simp]: "i < length xs \<Longrightarrow> upd_at i f (upd_at i g xs) = upd_at i (\<lambda>x. f (g x)) xs"
  by (simp add: upd_at_def)

lemma upd_at_commute: "i \<noteq> j \<Longrightarrow> upd_at i f (upd_at j g xs) = upd_at j g (upd_at i f xs)"
  by (simp add: upd_at_def list_update_swap)

lemma set_upd_at: "i < length xs \<Longrightarrow> x \<in> set (upd_at i f xs) \<Longrightarrow> x = f (xs ! i) \<or> x \<in> set xs"
  unfolding upd_at_def using set_update_subset_insert by fastforce

end
