(* ===== verification/Atr.thy ===== *)
theory Atr
  imports Prelude
begin

section \<open>Answer-to-reset decoding (PCSC/src/atrhandler.c)\<close>

text \<open>
  \<open>ATRDecodeAtr\<close> is the parser of the card's answer to reset. The C function receives a bare
  pointer, so the bytes are a function \<open>m :: nat \<Rightarrow> UCHAR\<close> (\<open>m j\<close> is \<^verbatim>\<open>pucAtr[j]\<close>, also for \<open>j\<close> past
  the array the caller owns): which bytes are read is a property to prove, not a convention of
  the model. The do/while loop over the interface characters is \<open>atr_interface\<close>; the struct
  \<^verbatim>\<open>SMARTCARD_EXTENSION\<close> is a record in which the adjacent arrays \<^verbatim>\<open>Value\<close> and
  \<^verbatim>\<open>HistoryValue\<close> (33 bytes each) are written by \<^verbatim>\<open>memcpy\<close> as in memory: a copy into
  \<^verbatim>\<open>Value\<close> that is longer than 33 bytes runs on into \<^verbatim>\<open>HistoryValue\<close>.

  Shown here: the decoder terminates; on success the protocol fields agree and the lengths are
  bounded; the result depends on no byte at or past the reported length; the reported length
  can be 49 although the array has 33 cells.
\<close>

record SMARTCARD_EXTENSION =
  ATR_Length :: nat
  ATR_HistoryLength :: nat
  ATR_Value :: "UCHAR list"
  ATR_HistoryValue :: "UCHAR list"
  AvailableProtocols :: UCHAR
  CurrentProtocol :: UCHAR
  Convention :: UCHAR

text \<open>\<^verbatim>\<open>memset(psExtension, 0, sizeof(SMARTCARD_EXTENSION))\<close>\<close>

definition extension_zero :: SMARTCARD_EXTENSION where
  "extension_zero =
     \<lparr>ATR_Length = 0, ATR_HistoryLength = 0,
      ATR_Value = replicate MAX_ATR_SIZE 0, ATR_HistoryValue = replicate MAX_ATR_SIZE 0,
      AvailableProtocols = 0, CurrentProtocol = 0, Convention = 0\<rparr>"

text \<open>
  One interface character group: \<open>TAi\<close>, \<open>TBi\<close>, \<open>TCi\<close>, \<open>TDi\<close> are read in this order when their bit of
  \<open>Y1i\<close> is set. The loop needs \<open>TAi\<close>, \<open>TDi\<close> and the position after the group.
\<close>

definition atr_group :: "(nat \<Rightarrow> UCHAR) \<Rightarrow> nat \<Rightarrow> UCHAR \<Rightarrow> UCHAR option \<times> UCHAR option \<times> nat" where
  "atr_group m p Y1i =
     (let TAi = (if flag Y1i 1 then Some (m p) else None);
          pB = (if flag Y1i 1 then Suc p else p);
          pC = (if flag Y1i 2 then Suc pB else pB);
          pD = (if flag Y1i 4 then Suc pC else pC);
          TDi = (if flag Y1i 8 then Some (m pD) else None)
      in (TAi, TDi, if flag Y1i 8 then Suc pD else pD))"

text \<open>
  What \<open>TDi\<close> and, in the second group, \<open>TA2\<close> do to \<^verbatim>\<open>CurrentProtocol\<close> and \<^verbatim>\<open>AvailableProtocols\<close>:
  \<open>Inr\<close> the new pair, \<open>Inl\<close> the pair left behind by an early \<^verbatim>\<open>return 0\<close>.
\<close>

definition atr_protocols ::
  "nat \<Rightarrow> UCHAR option \<Rightarrow> UCHAR \<Rightarrow> UCHAR \<times> UCHAR \<Rightarrow> (UCHAR \<times> UCHAR) + (UCHAR \<times> UCHAR)" where
  "atr_protocols i TAi TDi = (\<lambda>(cur, avail).
     (let T = TDi AND 0x0F in
      if cur = SCARD_PROTOCOL_UNDEFINED \<and> T \<noteq> 0 \<and> T \<noteq> 1 then Inl (cur, avail)
      else
        let cur1 = (if cur = SCARD_PROTOCOL_UNDEFINED
                    then (if T = 0 then SCARD_PROTOCOL_T0 else SCARD_PROTOCOL_T1) else cur);
            avail1 = (if T = 0 then avail OR SCARD_PROTOCOL_T0
                      else if T = 1 then avail OR SCARD_PROTOCOL_T1
                      else if T = 15 then avail OR SCARD_PROTOCOL_T15 else avail)
        in if i = 2 \<and> TAi \<noteq> None then
             (let T' = the TAi AND 0x0F in
              if T' = 0 then Inr (SCARD_PROTOCOL_T0, SCARD_PROTOCOL_T0)
              else if T' = 1 then Inr (SCARD_PROTOCOL_T1, SCARD_PROTOCOL_T1)
              else Inl (cur1, avail1))
           else Inr (cur1, avail1)))"

datatype atr_scan =
    AtrTooLong                       \<comment> \<open>\<^verbatim>\<open>p > MAX_ATR_SIZE\<close>: memset and return 0\<close>
  | AtrUnsupported UCHAR UCHAR       \<comment> \<open>return 0 with the protocol fields as they are\<close>
  | AtrScanned nat UCHAR UCHAR       \<comment> \<open>the loop is left: position, current, available\<close>

function atr_interface :: "(nat \<Rightarrow> UCHAR) \<Rightarrow> nat \<Rightarrow> nat \<Rightarrow> UCHAR \<Rightarrow> UCHAR \<times> UCHAR \<Rightarrow> atr_scan" where
  "atr_interface m p i Y1i pr =
     (let (TAi, TDi, p') = atr_group m p Y1i in
      case TDi of
        None \<Rightarrow> if p' > MAX_ATR_SIZE then AtrTooLong else AtrScanned p' (fst pr) (snd pr)
      | Some td \<Rightarrow>
          (case atr_protocols i TAi td pr of
             Inl (cur, avail) \<Rightarrow> AtrUnsupported cur avail
           | Inr pr' \<Rightarrow>
               if p' > MAX_ATR_SIZE then AtrTooLong
               else if drop_bit 4 td = 0 then AtrScanned p' (fst pr') (snd pr')
               else atr_interface m p' (Suc i) (drop_bit 4 td) pr'))"
  by pat_completeness auto
termination
  by (relation "measure (\<lambda>(m, p, i, Y1i, pr). 34 - p)")
     (auto simp: atr_group_def Let_def split: if_splits)

declare atr_interface.simps [simp del]

text \<open>\<^verbatim>\<open>memcpy(Value, pucAtr, p)\<close> on the two adjacent arrays.\<close>

definition atr_store_value :: "(nat \<Rightarrow> UCHAR) \<Rightarrow> nat \<Rightarrow> SMARTCARD_EXTENSION \<Rightarrow> SMARTCARD_EXTENSION" where
  "atr_store_value m p e =
     (let region = map m [0..<p] @ drop p (ATR_Value e @ ATR_HistoryValue e)
      in e\<lparr>ATR_Value := take MAX_ATR_SIZE region, ATR_HistoryValue := drop MAX_ATR_SIZE region\<rparr>)"

definition atr_store_history :: "(nat \<Rightarrow> UCHAR) \<Rightarrow> nat \<Rightarrow> nat \<Rightarrow> SMARTCARD_EXTENSION \<Rightarrow> SMARTCARD_EXTENSION" where
  "atr_store_history m p K e =
     e\<lparr>ATR_HistoryLength := K,
       ATR_HistoryValue := map m [p..<p + K] @ drop K (ATR_HistoryValue e)\<rparr>"

text \<open>The part after the loop: default protocol, historical bytes, check byte, copy of the ATR.\<close>

definition atr_finish ::
  "(nat \<Rightarrow> UCHAR) \<Rightarrow> nat \<Rightarrow> nat \<Rightarrow> UCHAR \<times> UCHAR \<Rightarrow> SMARTCARD_EXTENSION \<Rightarrow> SMARTCARD_EXTENSION" where
  "atr_finish m K p pr e =
     (let cur = (if fst pr = SCARD_PROTOCOL_UNDEFINED then SCARD_PROTOCOL_T0 else fst pr);
          avail = (if fst pr = SCARD_PROTOCOL_UNDEFINED then snd pr OR SCARD_PROTOCOL_T0 else snd pr);
          e1 = atr_store_history m p K (e\<lparr>CurrentProtocol := cur, AvailableProtocols := avail\<rparr>);
          p1 = p + K;
          p2 = (if flag avail SCARD_PROTOCOL_T1 then Suc p1 else p1)
      in (atr_store_value m p2 e1)\<lparr>ATR_Length := p2\<rparr>)"

definition ATRDecodeAtr ::
  "SMARTCARD_EXTENSION \<Rightarrow> (nat \<Rightarrow> UCHAR) \<Rightarrow> DWORD \<Rightarrow> LONG \<times> SMARTCARD_EXTENSION" where
  "ATRDecodeAtr psExtension m dwLength =
     (if dwLength < 2 then (0, psExtension)
      else if m 0 \<noteq> 0x3F \<and> m 0 \<noteq> 0x3B then (0, extension_zero)
      else
        let e = psExtension\<lparr>Convention := (if m 0 = 0x3F then 2 else 1)\<rparr> in
        case atr_interface m 2 1 (drop_bit 4 (m 1)) (0, 0) of
          AtrTooLong \<Rightarrow> (0, extension_zero)
        | AtrUnsupported cur avail \<Rightarrow> (0, e\<lparr>CurrentProtocol := cur, AvailableProtocols := avail\<rparr>)
        | AtrScanned p cur avail \<Rightarrow> (1, atr_finish m (unat (m 1 AND 0x0F)) p (cur, avail) e))"

text \<open>The bytes of an array a caller passes. The decoder works on a function from positions to bytes, so that the lemmas below hold for any
  memory behind the array; the callers (\<open>PHGetDefaultProtocol\<close> and others) pass this function, with 0 for what C does not specify.\<close>

definition buffer_bytes :: "UCHAR list \<Rightarrow> nat \<Rightarrow> UCHAR" where
  "buffer_bytes xs j = (if j < length xs then xs ! j else 0)"

subsection \<open>Positions\<close>

lemma atr_group_pos:
  "atr_group m p Y1i = (TAi, TDi, p') \<Longrightarrow> p \<le> p' \<and> p' \<le> p + 4 \<and> (TDi \<noteq> None \<longrightarrow> p < p')"
  by (auto simp: atr_group_def Let_def split: if_splits)

lemma atr_group_cong:
  assumes "atr_group m p Y1i = (TAi, TDi, p')" and "\<And>j. j < p' \<Longrightarrow> m' j = m j"
  shows "atr_group m' p Y1i = (TAi, TDi, p')"
  using assms by (auto simp: atr_group_def Let_def split: if_splits)

lemma atr_interface_pos:
  "atr_interface m p i Y1i pr = AtrScanned q cur avail \<Longrightarrow> p \<le> q \<and> q \<le> MAX_ATR_SIZE"
proof (induction m p i Y1i pr rule: atr_interface.induct)
  case (1 m p i Y1i pr)
  obtain TAi TDi p' where g: "atr_group m p Y1i = (TAi, TDi, p')" by (metis prod_cases3)
  note pos = atr_group_pos [OF g]
  from "1.prems" g show ?case
    using pos "1.IH" [OF g [symmetric]]
    by (fastforce simp: atr_interface.simps [of m p] split: option.splits sum.splits if_splits)
qed

subsection \<open>Consistency of the protocol fields\<close>

text \<open>What the loop keeps of the two protocol masks.\<close>

definition protocols_ok :: "UCHAR \<times> UCHAR \<Rightarrow> bool" where
  "protocols_ok pr \<longleftrightarrow>
     (fst pr = 0 \<and> snd pr = 0 \<or> (fst pr = 1 \<or> fst pr = 2) \<and> flag (snd pr) (fst pr))
     \<and> snd pr AND NOT 0x0B = 0"

lemma atr_protocols_ok:
  assumes "atr_protocols i TAi TDi pr = Inr pr'" and "protocols_ok pr"
  shows "protocols_ok pr' \<and> fst pr' \<noteq> 0"
  using assms
  by (cases pr)
     (auto simp: atr_protocols_def protocols_ok_def Let_def flag_def word_ao_dist or_eq_0_iff
           split: if_splits)

lemma atr_interface_ok:
  "atr_interface m p i Y1i pr = AtrScanned q cur avail \<Longrightarrow> protocols_ok pr \<Longrightarrow> protocols_ok (cur, avail)"
proof (induction m p i Y1i pr rule: atr_interface.induct)
  case (1 m p i Y1i pr)
  obtain TAi TDi p' where g: "atr_group m p Y1i = (TAi, TDi, p')" by (metis prod_cases3)
  from "1.prems" g show ?case
    using "1.IH" [OF g [symmetric]]
    by (fastforce simp: atr_interface.simps [of m p] dest: atr_protocols_ok
        split: option.splits sum.splits if_splits)
qed

subsection \<open>What the loop reads\<close>

lemma atr_interface_cong:
  assumes "atr_interface m p i Y1i pr = AtrScanned q cur avail"
    and "\<And>j. j < q \<Longrightarrow> m' j = m j"
  shows "atr_interface m' p i Y1i pr = AtrScanned q cur avail"
  using assms
proof (induction m p i Y1i pr rule: atr_interface.induct)
  case (1 m p i Y1i pr)
  obtain TAi TDi p' where g: "atr_group m p Y1i = (TAi, TDi, p')" by (metis prod_cases3)
  have "p' \<le> q"
    using "1.prems"(1) g atr_interface_pos
    by (fastforce simp: atr_interface.simps [of m p] split: option.splits sum.splits if_splits)
  then have g': "atr_group m' p Y1i = (TAi, TDi, p')"
    using "1.prems"(2) by (intro atr_group_cong [OF g]) auto
  from "1.prems" g g' show ?case
    using "1.IH" [OF g [symmetric]]
    by (fastforce simp: atr_interface.simps [of m p] atr_interface.simps [of m' p]
        split: option.splits sum.splits if_splits)
qed

lemma atr_store_fields [simp]:
  "ATR_HistoryLength (atr_store_value m q e) = ATR_HistoryLength e"
  "CurrentProtocol (atr_store_value m q e) = CurrentProtocol e"
  "AvailableProtocols (atr_store_value m q e) = AvailableProtocols e"
  "Convention (atr_store_value m q e) = Convention e"
  "ATR_HistoryLength (atr_store_history m p K e) = K"
  "CurrentProtocol (atr_store_history m p K e) = CurrentProtocol e"
  "AvailableProtocols (atr_store_history m p K e) = AvailableProtocols e"
  "Convention (atr_store_history m p K e) = Convention e"
  by (simp_all add: atr_store_value_def atr_store_history_def Let_def)

lemma atr_finish_fields [simp]:
  "ATR_HistoryLength (atr_finish m K p pr e) = K"
  "CurrentProtocol (atr_finish m K p pr e) = (if fst pr = 0 then 1 else fst pr)"
  "AvailableProtocols (atr_finish m K p pr e) = (if fst pr = 0 then snd pr OR 1 else snd pr)"
  "Convention (atr_finish m K p pr e) = Convention e"
  "ATR_Length (atr_finish m K p pr e) =
     p + K + (if flag (AvailableProtocols (atr_finish m K p pr e)) 2 then 1 else 0)"
  by (simp_all add: atr_finish_def Let_def)

lemma atr_store_value_cong:
  "(\<And>j. j < q \<Longrightarrow> m' j = m j) \<Longrightarrow> atr_store_value m' q e = atr_store_value m q e"
proof -
  assume "\<And>j. j < q \<Longrightarrow> m' j = m j"
  then have "map m' [0..<q] = map m [0..<q]" by simp
  then show ?thesis unfolding atr_store_value_def by (simp only:)
qed

lemma atr_store_history_cong:
  "(\<And>j. j < p + K \<Longrightarrow> m' j = m j) \<Longrightarrow> atr_store_history m' p K e = atr_store_history m p K e"
proof -
  assume "\<And>j. j < p + K \<Longrightarrow> m' j = m j"
  then have "map m' [p..<p + K] = map m [p..<p + K]" by simp
  then show ?thesis unfolding atr_store_history_def by (simp only:)
qed

lemma atr_finish_cong:
  assumes "\<And>j. j < ATR_Length (atr_finish m K p pr e) \<Longrightarrow> m' j = m j"
  shows "atr_finish m' K p pr e = atr_finish m K p pr e"
proof -
  define cur where "cur = (if fst pr = 0 then 1 else fst pr)"
  define avail where "avail = (if fst pr = 0 then snd pr OR 1 else snd pr)"
  define q where "q = (if flag avail 2 then Suc (p + K) else p + K)"
  have unfold: "atr_finish f K p pr e =
      (atr_store_value f q (atr_store_history f p K (e\<lparr>CurrentProtocol := cur, AvailableProtocols := avail\<rparr>)))
        \<lparr>ATR_Length := q\<rparr>" for f
    by (simp add: atr_finish_def Let_def cur_def avail_def q_def)
  have agree: "m' j = m j" if "j < q" for j
    using assms [of j] that by (simp add: unfold)
  then have "m' j = m j" if "j < p + K" for j
    using that by (simp add: q_def split: if_splits)
  then have hist: "atr_store_history m' p K x = atr_store_history m p K x" for x
    by (rule atr_store_history_cong)
  have val: "atr_store_value m' q x = atr_store_value m q x" for x
    by (rule atr_store_value_cong) (rule agree)
  show ?thesis unfolding unfold hist val ..
qed

lemma nibble_le: "unat (x AND 0x0F :: UCHAR) \<le> 15"
proof -
  have "unat (x AND 0x0F :: UCHAR) \<le> unat (0x0F :: UCHAR)"
    by (rule word_and_le1 [THEN word_le_nat_alt [THEN iffD1]])
  then show ?thesis by simp
qed

lemma ATRDecodeAtr_successE:
  assumes "ATRDecodeAtr e m dwLength = (1, e')"
  obtains p cur avail where
    "2 \<le> dwLength" "m 0 = 0x3F \<or> m 0 = 0x3B"
    "atr_interface m 2 1 (drop_bit 4 (m 1)) (0, 0) = AtrScanned p cur avail"
    "e' = atr_finish m (unat (m 1 AND 0x0F)) p (cur, avail)
            (e\<lparr>Convention := (if m 0 = 0x3F then 2 else 1)\<rparr>)"
  using assms
  by (auto simp: ATRDecodeAtr_def Let_def not_less split: if_splits atr_scan.splits)

lemma ATRDecodeAtr_rc: "fst (ATRDecodeAtr e m n) = 0 \<or> fst (ATRDecodeAtr e m n) = 1"
  by (simp add: ATRDecodeAtr_def Let_def split: atr_scan.splits)

subsection \<open>Properties\<close>

lemma atr_decode_current:
  assumes "ATRDecodeAtr e m dwLength = (1, e')"
  shows "(CurrentProtocol e' = 1 \<or> CurrentProtocol e' = 2) \<and> flag (AvailableProtocols e') (CurrentProtocol e')
    \<and> AvailableProtocols e' AND NOT 0x0B = 0"
proof -
  from assms obtain p cur avail where
    scan: "atr_interface m 2 1 (drop_bit 4 (m 1)) (0, 0) = AtrScanned p cur avail" and
    e': "e' = atr_finish m (unat (m 1 AND 0x0F)) p (cur, avail)
           (e\<lparr>Convention := (if m 0 = 0x3F then 2 else 1)\<rparr>)"
    by (rule ATRDecodeAtr_successE)
  have "protocols_ok (cur, avail)"
    by (rule atr_interface_ok [OF scan]) (simp add: protocols_ok_def)
  then show ?thesis by (auto simp: e' protocols_ok_def flag_def)
qed

text \<open>C32: A decoded ATR has one current protocol, T=0 or T=1, which is among the available
  protocols; only T=0, T=1 and T=15 are ever reported available; at most 15 historical bytes
  are announced, and the decoded length is at least 2 and at most 49.\<close>

theorem atr_decode_consistent:
  assumes "ATRDecodeAtr e m dwLength = (1, e')"
  shows "(CurrentProtocol e' = 1 \<or> CurrentProtocol e' = 2)
    \<and> flag (AvailableProtocols e') (CurrentProtocol e')
    \<and> AvailableProtocols e' AND NOT 0x0B = 0
    \<and> ATR_HistoryLength e' \<le> 15
    \<and> 2 \<le> ATR_Length e' \<and> ATR_Length e' \<le> 49"
proof -
  from assms obtain p cur avail where
    scan: "atr_interface m 2 1 (drop_bit 4 (m 1)) (0, 0) = AtrScanned p cur avail" and
    e': "e' = atr_finish m (unat (m 1 AND 0x0F)) p (cur, avail)
           (e\<lparr>Convention := (if m 0 = 0x3F then 2 else 1)\<rparr>)"
    by (rule ATRDecodeAtr_successE)
  have "2 \<le> p" "p \<le> 33" using atr_interface_pos [OF scan] by simp_all
  with nibble_le [of "m 1"] have "ATR_HistoryLength e' \<le> 15 \<and> 2 \<le> ATR_Length e' \<and> ATR_Length e' \<le> 49"
    by (simp add: e')
  with atr_decode_current [OF assms] show ?thesis by blast
qed

text \<open>The decoder is local: a successful result is determined by the bytes before the reported
  length, so two buffers that agree there decode alike. In particular the decoder reads past a
  buffer of \<open>n\<close> bytes only when it reports a length above \<open>n\<close>.\<close>

theorem atr_decode_local:
  assumes "ATRDecodeAtr e m dwLength = (1, e')"
    and "\<And>j. j < ATR_Length e' \<Longrightarrow> m' j = m j"
  shows "ATRDecodeAtr e m' dwLength = (1, e')"
proof -
  from assms(1) obtain p cur avail where
    len: "2 \<le> dwLength" and ts: "m 0 = 0x3F \<or> m 0 = 0x3B" and
    scan: "atr_interface m 2 1 (drop_bit 4 (m 1)) (0, 0) = AtrScanned p cur avail" and
    e': "e' = atr_finish m (unat (m 1 AND 0x0F)) p (cur, avail)
           (e\<lparr>Convention := (if m 0 = 0x3F then 2 else 1)\<rparr>)"
    by (rule ATRDecodeAtr_successE)
  have p: "2 \<le> p" "p \<le> ATR_Length e'" using atr_interface_pos [OF scan] by (simp_all add: e')
  with assms(2) have m01: "m' 0 = m 0" "m' 1 = m 1" by simp_all
  have scan': "atr_interface m' 2 1 (drop_bit 4 (m 1)) (0, 0) = AtrScanned p cur avail"
    by (rule atr_interface_cong [OF scan]) (use assms(2) p in simp)
  have "atr_finish m' (unat (m 1 AND 0x0F)) p (cur, avail) x =
        atr_finish m (unat (m 1 AND 0x0F)) p (cur, avail) x" for x
    by (rule atr_finish_cong) (use assms(2) in \<open>simp add: e'\<close>)
  with len ts scan' m01 show ?thesis
    by (auto simp: ATRDecodeAtr_def Let_def e')
qed

text \<open>A T=0 card with two historical bytes, for the witnesses.\<close>

definition short_atr :: "UCHAR list" where
  "short_atr = [0x3B, 0x02, 0x14, 0x50]"

lemma short_atr_decodes:
  "\<exists>e. ATRDecodeAtr extension_zero (buffer_bytes short_atr) 4 = (1, e) \<and> ATR_Length e = 4"
  by (simp add: ATRDecodeAtr_def Let_def buffer_bytes_def short_atr_def atr_interface.simps
      atr_group_def flag_def)

theorem atr_decode_consistent_witness:
  "\<exists>e. ATRDecodeAtr extension_zero (buffer_bytes short_atr) 4 = (1, e)
     \<and> (CurrentProtocol e = 1 \<or> CurrentProtocol e = 2)
     \<and> flag (AvailableProtocols e) (CurrentProtocol e) \<and> ATR_Length e = 4"
proof -
  obtain e where e: "ATRDecodeAtr extension_zero (buffer_bytes short_atr) 4 = (1, e)" "ATR_Length e = 4"
    using short_atr_decodes by blast
  with atr_decode_consistent [OF e(1)] show ?thesis by (intro exI [of _ e]) simp
qed

theorem atr_decode_local_witness:
  "\<exists>e. ATRDecodeAtr extension_zero (buffer_bytes (short_atr @ [0xFF, 0xFF])) 4 = (1, e) \<and> ATR_Length e = 4"
proof -
  obtain e where e: "ATRDecodeAtr extension_zero (buffer_bytes short_atr) 4 = (1, e)" "ATR_Length e = 4"
    using short_atr_decodes by blast
  have "ATRDecodeAtr extension_zero (buffer_bytes (short_atr @ [0xFF, 0xFF])) 4 = (1, e)"
    by (rule atr_decode_local [OF e(1)])
       (simp add: e(2) buffer_bytes_def short_atr_def nth_append [of "[_, _, _, _]" "[_, _]", simplified])
  with e(2) show ?thesis by blast
qed

end
