(* ===== verification/Ifd.thy ===== *)
theory Ifd
  imports Atr
begin

section \<open>Reader structures and the driver wrapper (readerfactory.h, eventhandler.h, ifdwrapper.c)\<close>

text \<open>
  The structures \<^verbatim>\<open>READER_STATE\<close> and \<^verbatim>\<open>READER_CONTEXT\<close>, the table of functions of a reader
  driver, and the wrapper functions \<^verbatim>\<open>IFD...\<close> through which the daemon calls it.

  Drivers are shared libraries loaded at run time. They are parameters of the model: a driver is
  a record of functions over a state type \<open>'d\<close> (everything the driver, the reader and the card
  remember), and it sits in the reader's \<^verbatim>\<open>psFunctions\<close>. The union \<^verbatim>\<open>psFunctions\<close> is a datatype with
  one constructor per API version; calling through an entry that is not bound is \<open>None\<close>.
  The per-reader mutex around each driver call makes the call atomic, which is how it is modelled;
  the mutex object itself is an address that is copied, created and released in Reader\_Admin.
  \<^verbatim>\<open>SendHotplugSignal\<close> (a signal to the daemon's own process) is counted in \<open>hotplug\<close>.
\<close>

record SCARD_IO_HEADER =
  Protocol :: DWORD
  PciLength :: DWORD

record 'd FCT_MAP_V1 =
  v1_CreateChannel :: "DWORD \<Rightarrow> 'd \<Rightarrow> LONG \<times> 'd"
  v1_CloseChannel :: "'d \<Rightarrow> LONG \<times> 'd"
  v1_GetCapabilities :: "DWORD \<Rightarrow> UCHAR list \<Rightarrow> 'd \<Rightarrow> LONG \<times> UCHAR list \<times> 'd"
  v1_SetCapabilities :: "DWORD \<Rightarrow> UCHAR list \<Rightarrow> 'd \<Rightarrow> LONG \<times> 'd"
  v1_SetProtocolParameters :: "(DWORD \<Rightarrow> UCHAR \<Rightarrow> UCHAR \<Rightarrow> UCHAR \<Rightarrow> UCHAR \<Rightarrow> 'd \<Rightarrow> LONG \<times> 'd) option"
  v1_PowerICC :: "DWORD \<Rightarrow> 'd \<Rightarrow> LONG \<times> 'd"
  v1_TransmitToICC :: "SCARD_IO_HEADER \<Rightarrow> UCHAR list \<Rightarrow> UCHAR list \<Rightarrow> DWORD \<Rightarrow> SCARD_IO_HEADER \<Rightarrow> 'd
     \<Rightarrow> LONG \<times> UCHAR list \<times> DWORD \<times> SCARD_IO_HEADER \<times> 'd"
  v1_ICCPresence :: "'d \<Rightarrow> LONG \<times> 'd"

text \<open>The fields \<^verbatim>\<open>FctMap_V2\<close> and \<^verbatim>\<open>FctMap_V3\<close> have in common, in the same order.\<close>

record 'd FCT_MAP_V2 =
  v2_CreateChannel :: "DWORD \<Rightarrow> DWORD \<Rightarrow> 'd \<Rightarrow> LONG \<times> 'd"
  v2_CloseChannel :: "DWORD \<Rightarrow> 'd \<Rightarrow> LONG \<times> 'd"
  v2_GetCapabilities :: "DWORD \<Rightarrow> DWORD \<Rightarrow> DWORD \<Rightarrow> UCHAR list \<Rightarrow> 'd \<Rightarrow> LONG \<times> DWORD \<times> UCHAR list \<times> 'd"
  v2_SetCapabilities :: "DWORD \<Rightarrow> DWORD \<Rightarrow> DWORD \<Rightarrow> UCHAR list \<Rightarrow> 'd \<Rightarrow> LONG \<times> 'd"
  v2_SetProtocolParameters :: "(DWORD \<Rightarrow> DWORD \<Rightarrow> UCHAR \<Rightarrow> UCHAR \<Rightarrow> UCHAR \<Rightarrow> UCHAR \<Rightarrow> 'd \<Rightarrow> LONG \<times> 'd) option"
  v2_PowerICC :: "DWORD \<Rightarrow> DWORD \<Rightarrow> UCHAR list \<Rightarrow> DWORD \<Rightarrow> 'd \<Rightarrow> LONG \<times> UCHAR list \<times> DWORD \<times> 'd"
  v2_TransmitToICC :: "DWORD \<Rightarrow> SCARD_IO_HEADER \<Rightarrow> UCHAR list \<Rightarrow> UCHAR list \<Rightarrow> DWORD \<Rightarrow> SCARD_IO_HEADER \<Rightarrow> 'd
     \<Rightarrow> LONG \<times> UCHAR list \<times> DWORD \<times> SCARD_IO_HEADER \<times> 'd"
  v2_ICCPresence :: "DWORD \<Rightarrow> 'd \<Rightarrow> LONG \<times> 'd"

type_synonym 'd control_v2 = "DWORD \<Rightarrow> UCHAR list \<Rightarrow> UCHAR list \<Rightarrow> DWORD \<Rightarrow> 'd \<Rightarrow> LONG \<times> UCHAR list \<times> DWORD \<times> 'd"
type_synonym 'd control_v3 = "DWORD \<Rightarrow> DWORD \<Rightarrow> UCHAR list \<Rightarrow> UCHAR list \<Rightarrow> DWORD \<Rightarrow> DWORD \<Rightarrow> 'd \<Rightarrow> LONG \<times> UCHAR list \<times> DWORD \<times> 'd"
type_synonym 'd create_by_name = "DWORD \<Rightarrow> string \<Rightarrow> 'd \<Rightarrow> LONG \<times> 'd"

datatype 'd FCT_MAP =
    FCT_NULL
  | FCT_V1 "'d FCT_MAP_V1"
  | FCT_V2 "'d FCT_MAP_V2" "'d control_v2"
  | FCT_V3 "'d FCT_MAP_V2" "'d control_v3" "'d create_by_name"

record READER_STATE =
  readerID :: int
  readerName :: string
  readerState :: DWORD
  readerSharing :: int
  cardAtr :: "UCHAR list"
  cardAtrLength :: DWORD
  cardProtocol :: DWORD

record RDR_CLIHANDLES =
  hCard :: SCARDHANDLE
  dwEventStatus :: DWORD

text \<open>
  Pointers are addresses: \<open>vHandle\<close> (the loaded library), \<open>mMutex\<close> and \<open>pthThread\<close> are naturals with 0
  for NULL, \<open>pdwFeeds\<close> and \<open>pdwMutex\<close> are addresses of shared counters, and the pointer
  \<^verbatim>\<open>readerState\<close> into the array \<^verbatim>\<open>readerStates\<close> is an index. \<open>dwContexts\<close> (int32\_t) and
  \<open>LockCount\<close> (int) are integers; the invariants of Winscard bound the first, and the second
  grows by one per nested transaction.
\<close>

record 'd READER_CONTEXT =
  lpcReader :: string
  lpcLibrary :: string
  lpcDevice :: string
  pthThread :: nat
  pthCardEvent :: "(DWORD \<Rightarrow> 'd \<Rightarrow> LONG \<times> 'd) option"
  mMutex :: nat
  psHandles :: "RDR_CLIHANDLES list"
  psFunctions :: "'d FCT_MAP"
  vHandle :: nat
  dwVersion :: DWORD
  dwPort :: DWORD
  dwSlot :: DWORD
  dwBlockStatus :: DWORD
  dwLockId :: DWORD
  dwIdentity :: DWORD
  LockCount :: int
  dwContexts :: int
  pdwFeeds :: "nat option"
  pdwMutex :: "nat option"
  stateRef :: "nat option"

record 'd hw =
  drv :: 'd
  hotplug :: nat

definition with_drv :: "'d hw \<Rightarrow> 'd \<Rightarrow> 'd hw" where
  "with_drv h d = h\<lparr>drv := d\<rparr>"

definition SendHotplugSignal :: "'d hw \<Rightarrow> 'd hw" where
  "SendHotplugSignal h = h\<lparr>hotplug := Suc (hotplug h)\<rparr>"

text \<open>The function table a version selects.\<close>

definition functions_v1 :: "'d READER_CONTEXT \<Rightarrow> 'd FCT_MAP_V1 option" where
  "functions_v1 r = (case psFunctions r of FCT_V1 f \<Rightarrow> Some f | _ \<Rightarrow> None)"

definition functions_v2 :: "'d READER_CONTEXT \<Rightarrow> 'd FCT_MAP_V2 option" where
  "functions_v2 r = (case psFunctions r of FCT_V2 f _ \<Rightarrow> Some f | FCT_V3 f _ _ \<Rightarrow> Some f | _ \<Rightarrow> None)"

subsection \<open>The wrapper functions\<close>

definition IFDSetCapabilities ::
  "'d READER_CONTEXT \<Rightarrow> DWORD \<Rightarrow> DWORD \<Rightarrow> UCHAR list \<Rightarrow> 'd hw \<Rightarrow> (LONG \<times> 'd hw) option" where
  "IFDSetCapabilities r dwTag dwLength pucValue h =
     (if dwVersion r = IFD_HVERSION_1_0
      then do { f \<leftarrow> functions_v1 r;
                let (rv, d) = v1_SetCapabilities f dwTag pucValue (drv h);
                Some (rv, with_drv h d) }
      else do { f \<leftarrow> functions_v2 r;
                let (rv, d) = v2_SetCapabilities f (dwSlot r) dwTag dwLength pucValue (drv h);
                Some (rv, with_drv h d) })"

text \<open>\<^verbatim>\<open>ucValue[0] = rContext->dwSlot; (void)IFDSetCapabilities(rContext, TAG_IFD_SLOTNUM, 1, ucValue)\<close>,
  which every version 1.0 call does first.\<close>

definition select_slot :: "'d READER_CONTEXT \<Rightarrow> 'd hw \<Rightarrow> 'd hw option" where
  "select_slot r h =
     map_option snd (IFDSetCapabilities r TAG_IFD_SLOTNUM 1 [ucast (dwSlot r)] h)"

definition IFDSetPTS ::
  "'d READER_CONTEXT \<Rightarrow> DWORD \<Rightarrow> UCHAR \<Rightarrow> UCHAR \<Rightarrow> UCHAR \<Rightarrow> UCHAR \<Rightarrow> 'd hw \<Rightarrow> (LONG \<times> 'd hw) option" where
  "IFDSetPTS r dwProtocol ucFlags ucPTS1 ucPTS2 ucPTS3 h =
     (if dwVersion r = IFD_HVERSION_1_0
      then do { f \<leftarrow> functions_v1 r;
                case v1_SetProtocolParameters f of
                  None \<Rightarrow> Some (SCARD_E_UNSUPPORTED_FEATURE, h)
                | Some set_pp \<Rightarrow> do {
                    h1 \<leftarrow> select_slot r h;
                    let (rv, d) = set_pp dwProtocol ucFlags ucPTS1 ucPTS2 ucPTS3 (drv h1);
                    Some (rv, with_drv h1 d) } }
      else do { f \<leftarrow> functions_v2 r;
                case v2_SetProtocolParameters f of
                  None \<Rightarrow> Some (SCARD_E_UNSUPPORTED_FEATURE, h)
                | Some set_pp \<Rightarrow>
                    let (rv, d) = set_pp (dwSlot r) dwProtocol ucFlags ucPTS1 ucPTS2 ucPTS3 (drv h)
                    in Some (rv, with_drv h d) })"

definition IFDOpenIFD :: "'d READER_CONTEXT \<Rightarrow> 'd hw \<Rightarrow> (LONG \<times> 'd hw) option" where
  "IFDOpenIFD r h =
     (if dwVersion r = IFD_HVERSION_1_0
      then do { f \<leftarrow> functions_v1 r;
                let (rv, d) = v1_CreateChannel f (dwPort r) (drv h);
                Some (rv, with_drv h d) }
      else if dwVersion r = IFD_HVERSION_2_0
      then do { f \<leftarrow> functions_v2 r;
                let (rv, d) = v2_CreateChannel f (dwSlot r) (dwPort r) (drv h);
                Some (rv, with_drv h d) }
      else (case psFunctions r of
              FCT_V3 f _ by_name \<Rightarrow>
                if lpcDevice r \<noteq> []
                then let (rv, d) = by_name (dwSlot r) (lpcDevice r) (drv h) in Some (rv, with_drv h d)
                else let (rv, d) = v2_CreateChannel f (dwSlot r) (dwPort r) (drv h) in Some (rv, with_drv h d)
            | _ \<Rightarrow> None))"

text \<open>\<^verbatim>\<open>IFDCloseIFD\<close> tries five times to take the mutex and then closes the channel whether it has it or not.\<close>

definition IFDCloseIFD :: "'d READER_CONTEXT \<Rightarrow> 'd hw \<Rightarrow> (LONG \<times> 'd hw) option" where
  "IFDCloseIFD r h =
     (if dwVersion r = IFD_HVERSION_1_0
      then do { f \<leftarrow> functions_v1 r;
                let (rv, d) = v1_CloseChannel f (drv h);
                Some (rv, with_drv h d) }
      else do { f \<leftarrow> functions_v2 r;
                let (rv, d) = v2_CloseChannel f (dwSlot r) (drv h);
                Some (rv, with_drv h d) })"

definition IFDGetCapabilities ::
  "'d READER_CONTEXT \<Rightarrow> DWORD \<Rightarrow> DWORD \<Rightarrow> UCHAR list \<Rightarrow> 'd hw \<Rightarrow> (LONG \<times> DWORD \<times> UCHAR list \<times> 'd hw) option" where
  "IFDGetCapabilities r dwTag dwLength pucValue h =
     (if dwVersion r = IFD_HVERSION_1_0
      then do { f \<leftarrow> functions_v1 r;
                let (rv, val, d) = v1_GetCapabilities f dwTag pucValue (drv h);
                Some (rv, dwLength, val, with_drv h d) }
      else do { f \<leftarrow> functions_v2 r;
                let (rv, len, val, d) = v2_GetCapabilities f (dwSlot r) dwTag dwLength pucValue (drv h);
                Some (rv, len, val, with_drv h d) })"

text \<open>The presence query of \<^verbatim>\<open>IFDStatusICC\<close>.\<close>

definition icc_presence :: "'d READER_CONTEXT \<Rightarrow> 'd hw \<Rightarrow> (LONG \<times> 'd hw) option" where
  "icc_presence r h =
     (if dwVersion r = IFD_HVERSION_1_0
      then do { f \<leftarrow> functions_v1 r;
                h1 \<leftarrow> select_slot r h;
                let (rv, d) = v1_ICCPresence f (drv h1);
                Some (rv, with_drv h1 d) }
      else do { f \<leftarrow> functions_v2 r;
                let (rv, d) = v2_ICCPresence f (dwSlot r) (drv h);
                Some (rv, with_drv h d) })"

text \<open>Version 1.0 drivers report the ATR through a tag; its length comes from decoding it.\<close>

definition fetch_atr_v1 :: "'d READER_CONTEXT \<Rightarrow> UCHAR list \<Rightarrow> 'd hw \<Rightarrow> (UCHAR list \<times> DWORD \<times> 'd hw) option" where
  "fetch_atr_v1 r pucAtr h =
     do { f \<leftarrow> functions_v1 r;
          h1 \<leftarrow> select_slot r h;
          let (rv, atr, d) = v1_GetCapabilities f TAG_IFD_ATR pucAtr (drv h1);
          let (ret, ext) = ATRDecodeAtr extension_zero (buffer_bytes atr) (of_nat MAX_ATR_SIZE);
          Some (atr, if ret = 0 then 0 else of_nat (ATR_Length ext), with_drv h1 d) }"

definition IFDStatusICC ::
  "'d READER_CONTEXT \<Rightarrow> UCHAR list \<Rightarrow> DWORD \<Rightarrow> 'd hw \<Rightarrow> (LONG \<times> DWORD \<times> UCHAR list \<times> DWORD \<times> 'd hw) option" where
  "IFDStatusICC r pucAtr dwAtrLen h =
     do { (rv, h1) \<leftarrow> icc_presence r h;
          if rv = IFD_SUCCESS \<or> rv = IFD_ICC_PRESENT then
            (if dwVersion r = IFD_HVERSION_1_0
             then do { (atr, len, h2) \<leftarrow> fetch_atr_v1 r pucAtr h1;
                       Some (SCARD_S_SUCCESS, SCARD_PRESENT, atr, len, h2) }
             else Some (SCARD_S_SUCCESS, SCARD_PRESENT, pucAtr, dwAtrLen, h1))
          else if rv = IFD_ICC_NOT_PRESENT then
            Some (SCARD_S_SUCCESS, SCARD_ABSENT, pucAtr,
                  if dwVersion r = IFD_HVERSION_1_0 then 0 else dwAtrLen, h1)
          else if rv = IFD_NO_SUCH_DEVICE then
            Some (SCARD_E_READER_UNAVAILABLE, SCARD_UNKNOWN, pucAtr, dwAtrLen, SendHotplugSignal h1)
          else Some (SCARD_E_NOT_TRANSACTED, SCARD_UNKNOWN, pucAtr, dwAtrLen, h1) }"

text \<open>The driver call of \<^verbatim>\<open>IFDPowerICC\<close>; for version 2.0 and 3.0 the ATR is decoded and the result dropped.\<close>

definition power_icc ::
  "'d READER_CONTEXT \<Rightarrow> DWORD \<Rightarrow> UCHAR list \<Rightarrow> DWORD \<Rightarrow> 'd hw \<Rightarrow> (LONG \<times> UCHAR list \<times> DWORD \<times> 'd hw) option" where
  "power_icc r dwAction pucAtr dwAtrLen h =
     (if dwVersion r = IFD_HVERSION_1_0
      then do { f \<leftarrow> functions_v1 r;
                h1 \<leftarrow> select_slot r h;
                let (rv, d) = v1_PowerICC f dwAction (drv h1);
                Some (rv, pucAtr, dwAtrLen, with_drv h1 d) }
      else do { f \<leftarrow> functions_v2 r;
                let (rv, atr, len, d) = v2_PowerICC f (dwSlot r) dwAction pucAtr dwAtrLen (drv h);
                Some (rv, atr, len, with_drv h d) })"

definition IFDPowerICC ::
  "'d READER_CONTEXT \<Rightarrow> DWORD \<Rightarrow> UCHAR list \<Rightarrow> DWORD \<Rightarrow> 'd hw \<Rightarrow> (LONG \<times> UCHAR list \<times> DWORD \<times> 'd hw) option" where
  "IFDPowerICC r dwAction pucAtr dwAtrLen h =
     do { (_, dwStatus, atr, len, h1) \<leftarrow> IFDStatusICC r pucAtr dwAtrLen h;
          if flag dwStatus SCARD_ABSENT then Some (SCARD_W_REMOVED_CARD, atr, len, h1)
          else do {
            (rv, atr2, len2, h2) \<leftarrow> power_icc r dwAction atr len h1;
            if rv = IFD_NO_SUCH_DEVICE then
              Some (SCARD_E_READER_UNAVAILABLE, atr2[0 := 0], 0, SendHotplugSignal h2)
            else if rv \<noteq> IFD_SUCCESS then Some (SCARD_E_NOT_TRANSACTED, atr2[0 := 0], 0, h2)
            else if dwVersion r = IFD_HVERSION_1_0 then
              do { (_, _, atr3, len3, h3) \<leftarrow> IFDStatusICC r atr2 len2 h2;
                   Some (IFD_SUCCESS, atr3, len3, h3) }
            else Some (IFD_SUCCESS, atr2, len2, h2) } }"

definition IFDControl_v2 ::
  "'d READER_CONTEXT \<Rightarrow> UCHAR list \<Rightarrow> UCHAR list \<Rightarrow> DWORD \<Rightarrow> 'd hw \<Rightarrow> (LONG \<times> UCHAR list \<times> DWORD \<times> 'd hw) option" where
  "IFDControl_v2 r TxBuffer RxBuffer RxLength h =
     (if dwVersion r \<noteq> IFD_HVERSION_2_0 then Some (SCARD_E_UNSUPPORTED_FEATURE, RxBuffer, RxLength, h)
      else case psFunctions r of
        FCT_V2 f control \<Rightarrow>
          let (rv, rx, len, d) = control (dwSlot r) TxBuffer RxBuffer RxLength (drv h)
          in Some (if rv = IFD_SUCCESS then SCARD_S_SUCCESS else SCARD_E_NOT_TRANSACTED, rx, len, with_drv h d)
      | _ \<Rightarrow> None)"

definition IFDControl ::
  "'d READER_CONTEXT \<Rightarrow> DWORD \<Rightarrow> UCHAR list \<Rightarrow> UCHAR list \<Rightarrow> DWORD \<Rightarrow> DWORD \<Rightarrow> 'd hw
     \<Rightarrow> (LONG \<times> UCHAR list \<times> DWORD \<times> 'd hw) option" where
  "IFDControl r ControlCode TxBuffer RxBuffer RxLength BytesReturned h =
     (if dwVersion r < IFD_HVERSION_3_0 then Some (SCARD_E_UNSUPPORTED_FEATURE, RxBuffer, BytesReturned, h)
      else case psFunctions r of
        FCT_V3 f control by_name \<Rightarrow>
          let (rv, rx, len, d) = control (dwSlot r) ControlCode TxBuffer RxBuffer RxLength BytesReturned (drv h);
              h1 = with_drv h d
          in Some (if rv = IFD_SUCCESS then (SCARD_S_SUCCESS, rx, len, h1)
                   else if rv = IFD_NO_SUCH_DEVICE then (SCARD_E_READER_UNAVAILABLE, rx, len, SendHotplugSignal h1)
                   else if rv = IFD_ERROR_NOT_SUPPORTED \<or> rv = IFD_NOT_SUPPORTED
                   then (SCARD_E_UNSUPPORTED_FEATURE, rx, len, h1)
                   else (SCARD_E_NOT_TRANSACTED, rx, len, h1))
      | _ \<Rightarrow> None)"

definition IFDTransmit ::
  "'d READER_CONTEXT \<Rightarrow> SCARD_IO_HEADER \<Rightarrow> UCHAR list \<Rightarrow> UCHAR list \<Rightarrow> DWORD \<Rightarrow> SCARD_IO_HEADER \<Rightarrow> 'd hw
     \<Rightarrow> (LONG \<times> UCHAR list \<times> DWORD \<times> SCARD_IO_HEADER \<times> 'd hw) option" where
  "IFDTransmit r pioTxPci pucTxBuffer pucRxBuffer dwRxLength pioRxPci h =
     do { (rv, rx, len, pci, h1) \<leftarrow>
            (if dwVersion r = IFD_HVERSION_1_0
             then do { f \<leftarrow> functions_v1 r;
                       h0 \<leftarrow> select_slot r h;
                       let (rv, rx, len, pci, d) =
                         v1_TransmitToICC f pioTxPci pucTxBuffer pucRxBuffer dwRxLength pioRxPci (drv h0);
                       Some (rv, rx, len, pci, with_drv h0 d) }
             else do { f \<leftarrow> functions_v2 r;
                       let (rv, rx, len, pci, d) =
                         v2_TransmitToICC f (dwSlot r) pioTxPci pucTxBuffer pucRxBuffer dwRxLength pioRxPci (drv h);
                       Some (rv, rx, len, pci, with_drv h d) });
          if rv = IFD_SUCCESS then Some (SCARD_S_SUCCESS, rx, len, pci, h1)
          else if rv = IFD_NO_SUCH_DEVICE
          then Some (SCARD_E_READER_UNAVAILABLE, rx, len, pci, SendHotplugSignal h1)
          else Some (SCARD_E_NOT_TRANSACTED, rx, len, pci, h1) }"

subsection \<open>A sample driver for the witnesses\<close>

text \<open>A version 2.0 driver without state: a card is always present, answers the reset with
  \<open>short_atr\<close>, accepts every PTS and answers every command with \<^verbatim>\<open>90 00\<close>.\<close>

definition sample_atr :: "UCHAR list" where
  "sample_atr = [0x3B, 0x02, 0x14, 0x50] @ replicate 29 0"

definition sample_driver :: "unit FCT_MAP_V2" where
  "sample_driver =
     \<lparr>v2_CreateChannel = (\<lambda>lun port d. (IFD_SUCCESS, d)),
      v2_CloseChannel = (\<lambda>lun d. (IFD_SUCCESS, d)),
      v2_GetCapabilities = (\<lambda>lun tag len val d. (IFD_ERROR_TAG, len, val, d)),
      v2_SetCapabilities = (\<lambda>lun tag len val d. (IFD_ERROR_TAG, d)),
      v2_SetProtocolParameters = Some (\<lambda>lun prot fl p1 p2 p3 d. (IFD_SUCCESS, d)),
      v2_PowerICC = (\<lambda>lun act atr len d. (IFD_SUCCESS, sample_atr, 4, d)),
      v2_TransmitToICC = (\<lambda>lun pci tx rx len rpci d. (IFD_SUCCESS, [0x90, 0x00], 2, rpci, d)),
      v2_ICCPresence = (\<lambda>lun d. (IFD_ICC_PRESENT, d))\<rparr>"

definition sample_control :: "unit control_v2" where
  "sample_control lun tx rx len d = (IFD_SUCCESS, [0x90, 0x00], 2, d)"

definition sample_reader :: "unit READER_CONTEXT" where
  "sample_reader =
     \<lparr>lpcReader = ''R 00 00'', lpcLibrary = ''lib'', lpcDevice = ''dev'', pthThread = 1, pthCardEvent = None,
      mMutex = 1, psHandles = replicate 16 \<lparr>hCard = 0, dwEventStatus = 0\<rparr>,
      psFunctions = FCT_V2 sample_driver sample_control, vHandle = 1, dwVersion = IFD_HVERSION_2_0,
      dwPort = 1, dwSlot = 0, dwBlockStatus = 0, dwLockId = 0, dwIdentity = 0x10000, LockCount = 0,
      dwContexts = 0, pdwFeeds = Some 1, pdwMutex = Some 2, stateRef = Some 0\<rparr>"

definition sample_hw :: "unit hw" where
  "sample_hw = \<lparr>drv = (), hotplug = 0\<rparr>"

lemmas sample_defs = sample_atr_def sample_driver_def sample_control_def sample_reader_def sample_hw_def

end
