(* ===== verification/Prot.thy ===== *)
theory Prot
  imports Ifd
begin

section \<open>Protocol selection (PCSC/src/prothandler.c)\<close>

text \<open>
  Which transmission protocol a connection uses: the default and the available protocols come from
  the ATR, the choice from the client's preferences and the driver's answer to the PTS request.
  \<^verbatim>\<open>PHSetProtocol\<close> returns a DWORD that its callers keep in an \<^verbatim>\<open>int\<close>: a protocol bit, or one of
  the negative codes \<^verbatim>\<open>SET_PROTOCOL_WRONG_ARGUMENT\<close> and \<^verbatim>\<open>SET_PROTOCOL_PPS_FAILED\<close>.
\<close>

abbreviation (input) SET_PROTOCOL_WRONG_ARGUMENT :: int where "SET_PROTOCOL_WRONG_ARGUMENT \<equiv> -1"
abbreviation (input) SET_PROTOCOL_PPS_FAILED :: int where "SET_PROTOCOL_PPS_FAILED \<equiv> -2"

definition PHGetDefaultProtocol :: "UCHAR list \<Rightarrow> DWORD \<Rightarrow> UCHAR" where
  "PHGetDefaultProtocol pucAtr dwLength =
     (let (ok, sSmartCard) = ATRDecodeAtr extension_zero (buffer_bytes pucAtr) dwLength
      in if ok \<noteq> 0 then CurrentProtocol sSmartCard else 0)"

definition PHGetAvailableProtocols :: "UCHAR list \<Rightarrow> DWORD \<Rightarrow> UCHAR" where
  "PHGetAvailableProtocols pucAtr dwLength =
     (let (ok, sSmartCard) = ATRDecodeAtr extension_zero (buffer_bytes pucAtr) dwLength
      in if ok \<noteq> 0 then AvailableProtocols sSmartCard else 0)"

definition PHSetProtocol ::
  "'d READER_CONTEXT \<Rightarrow> DWORD \<Rightarrow> UCHAR \<Rightarrow> UCHAR \<Rightarrow> 'd hw \<Rightarrow> (int \<times> 'd hw) option" where
  "PHSetProtocol r dwPreferred ucAvailable ucDefault h =
     (if dwPreferred = 0 then Some (SET_PROTOCOL_WRONG_ARGUMENT, h)
      else if \<not> flag dwPreferred (ucast ucAvailable) then Some (SET_PROTOCOL_WRONG_ARGUMENT, h)
      else
        let pref = dwPreferred AND ucast ucAvailable in
        if \<not> flag pref SCARD_PROTOCOL_T1 \<and> \<not> flag pref SCARD_PROTOCOL_T0
        then Some (SET_PROTOCOL_WRONG_ARGUMENT, h)
        else
          let ucChosen = (if flag pref SCARD_PROTOCOL_T1 then SCARD_PROTOCOL_T1 else SCARD_PROTOCOL_T0) in
          do { (rv, h1) \<leftarrow> IFDSetPTS r ucChosen 0 0 0 0 h;
               Some (if rv = IFD_SUCCESS then uint (ucChosen :: DWORD)
                     else if rv = IFD_NOT_SUPPORTED \<or> rv = IFD_PROTOCOL_NOT_SUPPORTED then uint ucDefault
                     else SET_PROTOCOL_PPS_FAILED, h1) })"

subsection \<open>Properties\<close>

lemma PHGet_zero_or_decoded:
  "PHGetDefaultProtocol a n = 0 \<and> PHGetAvailableProtocols a n = 0
   \<or> (\<exists>e. ATRDecodeAtr extension_zero (buffer_bytes a) n = (1, e)
        \<and> PHGetDefaultProtocol a n = CurrentProtocol e \<and> PHGetAvailableProtocols a n = AvailableProtocols e)"
  using ATRDecodeAtr_rc [of extension_zero "buffer_bytes a" n]
  by (auto simp: PHGetDefaultProtocol_def PHGetAvailableProtocols_def split: prod.splits)

lemma PHSetProtocol_cases:
  assumes "PHSetProtocol r pref avail dflt h = Some (ret, h')"
  obtains "ret = -1" "h' = h" | "ret = -2"
  | (chosen) "ret = 1 \<or> ret = 2" "flag pref (ucast avail)" "flag (pref AND ucast avail) (word_of_int ret)"
      "ret = 1 \<Longrightarrow> \<not> flag (pref AND ucast avail) 2"
  | (default) "ret = uint dflt" "flag pref (ucast avail)"
  using assms unfolding PHSetProtocol_def Let_def
  by (auto simp: bind_eq_Some_conv split: if_splits)

text \<open>The negotiated protocol. With the default and available masks decoded from the same ATR,
  \<^verbatim>\<open>PHSetProtocol\<close> either reports a wrong argument without touching the driver, or a failed PPS, or
  returns T=0 or T=1, and the protocol returned is one the card offers.\<close>

theorem PHSetProtocol_available:
  assumes "PHSetProtocol r pref (PHGetAvailableProtocols a n) (PHGetDefaultProtocol a n) h = Some (ret, h')"
  shows "ret = -1 \<and> h' = h \<or> ret = -2
    \<or> (ret = 1 \<or> ret = 2) \<and> flag (ucast (PHGetAvailableProtocols a n)) (word_of_int ret :: DWORD)"
  using assms
proof (cases rule: PHSetProtocol_cases)
  case chosen
  then show ?thesis using flag_and_le by blast
next
  case default
  then obtain e where e: "ATRDecodeAtr extension_zero (buffer_bytes a) n = (1, e)"
    "PHGetDefaultProtocol a n = CurrentProtocol e" "PHGetAvailableProtocols a n = AvailableProtocols e"
    using PHGet_zero_or_decoded [of a n] by auto
  have cp: "CurrentProtocol e = 1 \<or> CurrentProtocol e = 2"
    and fl: "flag (AvailableProtocols e) (CurrentProtocol e)"
    using atr_decode_current [OF e(1)] by auto
  have b: "flag (ucast (AvailableProtocols e) :: DWORD) (2 ^ k)" if "flag (AvailableProtocols e) (2 ^ k)" "k < 8" for k
    using that by (simp add: flag_two_power bit_simps)
  from cp show ?thesis using b [of 0] b [of 1] fl default(1) by (auto simp: e)
qed simp_all

text \<open>T=1 comes first: when the driver accepts the PTS, the protocol is T=1 if the client and the
  card both have it, and otherwise T=0.\<close>

theorem PHSetProtocol_prefers_T1:
  assumes "flag (pref AND ucast avail) SCARD_PROTOCOL_T0 \<or> flag (pref AND ucast avail) SCARD_PROTOCOL_T1"
    and "IFDSetPTS r (if flag (pref AND ucast avail) SCARD_PROTOCOL_T1 then SCARD_PROTOCOL_T1 else SCARD_PROTOCOL_T0)
           0 0 0 0 h = Some (IFD_SUCCESS, h')"
  shows "PHSetProtocol r pref avail dflt h =
    Some (if flag pref SCARD_PROTOCOL_T1 \<and> flag (ucast avail :: DWORD) SCARD_PROTOCOL_T1 then 2 else 1, h')"
proof -
  have split2: "flag (a AND b) (2 ^ k) \<longleftrightarrow> flag a (2 ^ k) \<and> flag b (2 ^ k)" if "k < 32" for a b :: DWORD and k
    using that by (simp add: flag_two_power bit_simps)
  have "flag pref (ucast avail)" using assms(1) by (auto simp: flag_def)
  moreover have "pref \<noteq> 0" using assms(1) by (auto simp: flag_def)
  ultimately show ?thesis
    using assms split2 [of 1 pref "ucast avail"]
    by (auto simp: PHSetProtocol_def Let_def)
qed

text \<open>A driver without the optional entry \<^verbatim>\<open>SetProtocolParameters\<close> makes every negotiation fail:
  \<^verbatim>\<open>IFDSetPTS\<close> answers \<^verbatim>\<open>SCARD_E_UNSUPPORTED_FEATURE\<close>, which \<^verbatim>\<open>PHSetProtocol\<close> does not recognise as
  ``PTS not supported by driver'' and turns into a failed PPS instead of the card's default.\<close>

theorem PHSetProtocol_no_SetProtocolParameters:
  assumes "dwVersion r \<noteq> IFD_HVERSION_1_0" and "functions_v2 r = Some f" and "v2_SetProtocolParameters f = None"
    and "flag (pref AND ucast avail) SCARD_PROTOCOL_T0 \<or> flag (pref AND ucast avail) SCARD_PROTOCOL_T1"
  shows "PHSetProtocol r pref avail dflt h = Some (SET_PROTOCOL_PPS_FAILED, h)"
proof -
  have "flag pref (ucast avail)" "pref \<noteq> 0" using assms(4) by (auto simp: flag_def)
  with assms show ?thesis
    by (auto simp: PHSetProtocol_def IFDSetPTS_def Let_def)
qed

subsection \<open>Witnesses\<close>

theorem PHSetProtocol_available_witness:
  "PHSetProtocol sample_reader 3 (PHGetAvailableProtocols short_atr 4) (PHGetDefaultProtocol short_atr 4) sample_hw
     = Some (1, sample_hw)
   \<and> (1 = (-1 :: int) \<and> sample_hw = sample_hw \<or> 1 = (-2 :: int)
      \<or> (1 = (1 :: int) \<or> 1 = (2 :: int))
        \<and> flag (ucast (PHGetAvailableProtocols short_atr 4)) (word_of_int 1 :: DWORD))"
proof -
  have "PHGetAvailableProtocols short_atr 4 = 1" "PHGetDefaultProtocol short_atr 4 = 1"
    by (simp_all add: PHGetAvailableProtocols_def PHGetDefaultProtocol_def ATRDecodeAtr_def
        short_atr_def buffer_bytes_def atr_interface.simps atr_group_def flag_def)
  then have h: "PHSetProtocol sample_reader 3 (PHGetAvailableProtocols short_atr 4)
      (PHGetDefaultProtocol short_atr 4) sample_hw = Some (1, sample_hw)"
    by (simp add: PHSetProtocol_def flag_def IFDSetPTS_def functions_v2_def sample_defs with_drv_def)
  show ?thesis using h PHSetProtocol_available [OF h] by blast
qed

theorem PHSetProtocol_prefers_T1_witness:
  "PHSetProtocol sample_reader 3 3 1 sample_hw = Some (2, sample_hw)"
proof -
  have pts: "IFDSetPTS sample_reader 2 0 0 0 0 sample_hw = Some (0, sample_hw)"
    by (simp add: IFDSetPTS_def functions_v2_def sample_defs with_drv_def)
  show ?thesis
    using PHSetProtocol_prefers_T1 [of 3 3 sample_reader sample_hw sample_hw 1] pts by (simp add: flag_def)
qed

theorem PHSetProtocol_no_SetProtocolParameters_witness:
  "PHSetProtocol (sample_reader\<lparr>psFunctions := FCT_V2 (sample_driver\<lparr>v2_SetProtocolParameters := None\<rparr>) sample_control\<rparr>)
     3 1 1 sample_hw = Some (-2, sample_hw)"
  by (rule PHSetProtocol_no_SetProtocolParameters
        [where f = "sample_driver\<lparr>v2_SetProtocolParameters := None\<rparr>"])
     (simp_all add: functions_v2_def sample_reader_def flag_def)

end
