(* ===== verification/Checksum.thy ===== *)
theory Checksum
  imports Prelude
begin

section \<open>Checksums of T=1 blocks (ccid: openct/checksum.c)\<close>

text \<open>
  The two error detection codes of the T=1 protocol as the CCID driver computes them: the exclusive or of all
  bytes, and the table driven CRC. The result of a function is the list of bytes it stores in
  \<^verbatim>\<open>rc\<close>; the number it returns in C is the length of that list.
  The CRC is proved equal to the shift register of ISO 3309 (one bit at a time, lowest bit first, polynomial
  0x8408), and both codes are proved to detect the corruption of a byte, the CRC also that of two
  neighbouring bytes.
\<close>

definition crctab :: "16 word list" where
  "crctab = [
   0x0000, 0x1189, 0x2312, 0x329b, 0x4624, 0x57ad, 0x6536, 0x74bf,
   0x8c48, 0x9dc1, 0xaf5a, 0xbed3, 0xca6c, 0xdbe5, 0xe97e, 0xf8f7,
   0x1081, 0x0108, 0x3393, 0x221a, 0x56a5, 0x472c, 0x75b7, 0x643e,
   0x9cc9, 0x8d40, 0xbfdb, 0xae52, 0xdaed, 0xcb64, 0xf9ff, 0xe876,
   0x2102, 0x308b, 0x0210, 0x1399, 0x6726, 0x76af, 0x4434, 0x55bd,
   0xad4a, 0xbcc3, 0x8e58, 0x9fd1, 0xeb6e, 0xfae7, 0xc87c, 0xd9f5,
   0x3183, 0x200a, 0x1291, 0x0318, 0x77a7, 0x662e, 0x54b5, 0x453c,
   0xbdcb, 0xac42, 0x9ed9, 0x8f50, 0xfbef, 0xea66, 0xd8fd, 0xc974,
   0x4204, 0x538d, 0x6116, 0x709f, 0x0420, 0x15a9, 0x2732, 0x36bb,
   0xce4c, 0xdfc5, 0xed5e, 0xfcd7, 0x8868, 0x99e1, 0xab7a, 0xbaf3,
   0x5285, 0x430c, 0x7197, 0x601e, 0x14a1, 0x0528, 0x37b3, 0x263a,
   0xdecd, 0xcf44, 0xfddf, 0xec56, 0x98e9, 0x8960, 0xbbfb, 0xaa72,
   0x6306, 0x728f, 0x4014, 0x519d, 0x2522, 0x34ab, 0x0630, 0x17b9,
   0xef4e, 0xfec7, 0xcc5c, 0xddd5, 0xa96a, 0xb8e3, 0x8a78, 0x9bf1,
   0x7387, 0x620e, 0x5095, 0x411c, 0x35a3, 0x242a, 0x16b1, 0x0738,
   0xffcf, 0xee46, 0xdcdd, 0xcd54, 0xb9eb, 0xa862, 0x9af9, 0x8b70,
   0x8408, 0x9581, 0xa71a, 0xb693, 0xc22c, 0xd3a5, 0xe13e, 0xf0b7,
   0x0840, 0x19c9, 0x2b52, 0x3adb, 0x4e64, 0x5fed, 0x6d76, 0x7cff,
   0x9489, 0x8500, 0xb79b, 0xa612, 0xd2ad, 0xc324, 0xf1bf, 0xe036,
   0x18c1, 0x0948, 0x3bd3, 0x2a5a, 0x5ee5, 0x4f6c, 0x7df7, 0x6c7e,
   0xa50a, 0xb483, 0x8618, 0x9791, 0xe32e, 0xf2a7, 0xc03c, 0xd1b5,
   0x2942, 0x38cb, 0x0a50, 0x1bd9, 0x6f66, 0x7eef, 0x4c74, 0x5dfd,
   0xb58b, 0xa402, 0x9699, 0x8710, 0xf3af, 0xe226, 0xd0bd, 0xc134,
   0x39c3, 0x284a, 0x1ad1, 0x0b58, 0x7fe7, 0x6e6e, 0x5cf5, 0x4d7c,
   0xc60c, 0xd785, 0xe51e, 0xf497, 0x8028, 0x91a1, 0xa33a, 0xb2b3,
   0x4a44, 0x5bcd, 0x6956, 0x78df, 0x0c60, 0x1de9, 0x2f72, 0x3efb,
   0xd68d, 0xc704, 0xf59f, 0xe416, 0x90a9, 0x8120, 0xb3bb, 0xa232,
   0x5ac5, 0x4b4c, 0x79d7, 0x685e, 0x1ce1, 0x0d68, 0x3ff3, 0x2e7a,
   0xe70e, 0xf687, 0xc41c, 0xd595, 0xa12a, 0xb0a3, 0x8238, 0x93b1,
   0x6b46, 0x7acf, 0x4854, 0x59dd, 0x2d62, 0x3ceb, 0x0e70, 0x1ff9,
   0xf78f, 0xe606, 0xd49d, 0xc514, 0xb1ab, 0xa022, 0x92b9, 0x8330,
   0x7bc7, 0x6a4e, 0x58d5, 0x495c, 0x3de3, 0x2c6a, 0x1ef1, 0x0f78]"

definition csum_lrc_compute :: "UCHAR list \<Rightarrow> UCHAR list" where
  "csum_lrc_compute data = [foldl (XOR) 0 data]"

definition crc_step :: "16 word \<Rightarrow> UCHAR \<Rightarrow> 16 word" where
  "crc_step v c = (drop_bit 8 v AND 0xFF) XOR crctab ! unat ((v XOR ucast c) AND 0xFF)"

definition csum_crc_compute :: "UCHAR list \<Rightarrow> UCHAR list" where
  "csum_crc_compute data =
    (let v = foldl crc_step 0xFFFF data in [ucast (drop_bit 8 v AND 0xFF), ucast (v AND 0xFF)])"

subsection \<open>The shift register\<close>

text \<open>One bit enters the register.\<close>

definition crc_feed :: "16 word \<Rightarrow> bool \<Rightarrow> 16 word" where
  "crc_feed v d = (if bit v 0 \<noteq> d then drop_bit 1 v XOR 0x8408 else drop_bit 1 v)"

definition byte_bits :: "UCHAR \<Rightarrow> bool list" where
  "byte_bits c = map (bit c) [0..<8]"

definition crc_register :: "UCHAR list \<Rightarrow> 16 word" where
  "crc_register data = foldl crc_feed 0xFFFF (concat (map byte_bits data))"

text \<open>The register run without input.\<close>

abbreviation crc_shift :: "16 word \<Rightarrow> 16 word" where
  "crc_shift v \<equiv> crc_feed v False"

lemma drop_bit_xor_word: "drop_bit n (v XOR x :: 'a::len word) = drop_bit n v XOR drop_bit n x"
  by (rule bit_eqI) (simp add: bit_simps)

lemma crc_shift_xor: "crc_shift (v XOR x) = crc_feed v (bit x 0) XOR drop_bit 1 x"
  by (rule bit_eqI) (auto simp: crc_feed_def drop_bit_xor_word bit_simps)

lemma crc_shift_power_xor:
  "(crc_shift ^^ n) (v XOR x) = foldl crc_feed v (map (bit x) [0..<n]) XOR drop_bit n x"
proof (induction n)
  case (Suc n)
  then show ?case by (simp add: crc_shift_xor bit_simps)
qed simp

lemma crc_feed_zeros: "foldl crc_feed v (replicate n False) = (crc_shift ^^ n) v"
  by (induction n arbitrary: v) (simp_all add: funpow_Suc_right del: funpow.simps(2))


text \<open>The eight shifts of a byte, on the sixteen low and the sixteen high half bytes.\<close>

abbreviation (input) crc_shift8 :: "16 word \<Rightarrow> 16 word" where
  "crc_shift8 v \<equiv> crc_shift (crc_shift (crc_shift (crc_shift (crc_shift (crc_shift (crc_shift (crc_shift v)))))))"

lemma crc_shift8: "(crc_shift ^^ 8) v = crc_shift8 v"
  by (simp add: numeral_eq_Suc)

lemma crc_shift_linear: "crc_shift (v XOR x) = crc_shift v XOR crc_shift x"
  by (rule bit_eqI) (auto simp: crc_feed_def drop_bit_xor_word bit_simps)

lemma crc_shift_low: "map (\<lambda>v. crc_shift8 v) [0, 1, 2, 3, 4, 5, 6, 7, 8, 9, 10, 11, 12, 13, 14, 15] =
  [0x0000, 0x1189, 0x2312, 0x329b, 0x4624, 0x57ad, 0x6536, 0x74bf, 0x8c48, 0x9dc1, 0xaf5a, 0xbed3, 0xca6c, 0xdbe5, 0xe97e, 0xf8f7]"
  by (simp add: crc_feed_def)

lemma crc_shift_high: "map (\<lambda>v. crc_shift8 v) [0, 0x10, 0x20, 0x30, 0x40, 0x50, 0x60, 0x70, 0x80, 0x90, 0xA0, 0xB0, 0xC0, 0xD0, 0xE0, 0xF0] =
  [0x0000, 0x1081, 0x2102, 0x3183, 0x4204, 0x5285, 0x6306, 0x7387, 0x8408, 0x9489, 0xa50a, 0xb58b, 0xc60c, 0xd68d, 0xe70e, 0xf78f]"
  by (simp add: crc_feed_def)


lemma half_bytes: "map word_of_nat [0..<256] = map (\<lambda>(h, l). h XOR l :: 16 word) (List.product
   [0, 0x10, 0x20, 0x30, 0x40, 0x50, 0x60, 0x70, 0x80, 0x90, 0xA0, 0xB0, 0xC0, 0xD0, 0xE0, 0xF0]
   [0, 1, 2, 3, 4, 5, 6, 7, 8, 9, 10, 11, 12, 13, 14, 15])"
  by (simp add: upt_conv_Cons)

lemma crctab_rows: "crctab = map (\<lambda>(h, l). h XOR l) (List.product
   [0x0000, 0x1081, 0x2102, 0x3183, 0x4204, 0x5285, 0x6306, 0x7387, 0x8408, 0x9489, 0xa50a, 0xb58b, 0xc60c, 0xd68d, 0xe70e, 0xf78f]
   [0x0000, 0x1189, 0x2312, 0x329b, 0x4624, 0x57ad, 0x6536, 0x74bf, 0x8c48, 0x9dc1, 0xaf5a, 0xbed3, 0xca6c, 0xdbe5, 0xe97e, 0xf8f7])"
  by (simp add: crctab_def)

lemma product_map: "List.product (map f xs) (map g ys) = map (\<lambda>(x, y). (f x, g y)) (List.product xs ys)"
  by (induction xs) simp_all

lemma crctab_power: "crctab = map (crc_shift ^^ 8) (map word_of_nat [0..<256])"
  unfolding crctab_rows half_bytes crc_shift8
  by (simp only: product_map map_map o_def case_prod_unfold fst_conv snd_conv crc_shift_linear flip: crc_shift_low crc_shift_high)

lemma crctab_nth: "n < 256 \<Longrightarrow> crctab ! n = (crc_shift ^^ 8) (word_of_nat n)"
  by (simp add: crctab_power)

lemma low_byte: "v AND 0xFF = take_bit 8 (v :: 16 word)"
  by (simp add: take_bit_eq_mask mask_eq_exp_minus_1)

lemma drop_bit_high: "drop_bit 8 v AND 0xFF = drop_bit 8 (v :: 16 word)"
  by (rule bit_eqI) (auto simp: low_byte bit_simps dest: bit_imp_le_length)

lemma byte_high [simp]: "drop_bit 8 (ucast (c :: UCHAR) :: 16 word) = 0"
  by (rule bit_eqI) (auto simp: bit_simps dest: bit_imp_le_length)

lemma unat_low_byte: "unat (take_bit 8 (v :: 16 word)) < 256"
  using take_bit_nat_less_exp [of 8 "unat v"] by (simp add: unsigned_take_bit_eq)

lemma crc_shift8_high: "(crc_shift ^^ 8) (u XOR push_bit 8 x) = (crc_shift ^^ 8) u XOR drop_bit 8 (push_bit 8 x)"
proof -
  have "map (bit (push_bit 8 x)) [0..<8] = replicate 8 False" by (rule nth_equalityI) (simp_all add: bit_push_bit_iff)
  then show ?thesis using crc_shift_power_xor [of 8 u "push_bit 8 x"] by (simp only: crc_feed_zeros)
qed

lemma crc_step_shifts: "crc_step v c = (crc_shift ^^ 8) (v XOR ucast c)"
proof -
  define x where "x = v XOR ucast c"
  have "crctab ! unat (take_bit 8 x) = (crc_shift ^^ 8) (take_bit 8 x)" by (simp add: crctab_nth unat_low_byte)
  moreover have "x = take_bit 8 x XOR push_bit 8 (drop_bit 8 v)" by (rule bit_eqI) (auto simp: x_def bit_simps dest: bit_imp_le_length)
  moreover have "drop_bit 8 (push_bit 8 (drop_bit 8 v)) = drop_bit 8 v" by (rule bit_eqI) (auto simp: bit_simps dest: bit_imp_le_length)
  ultimately have "(crc_shift ^^ 8) x = crctab ! unat (take_bit 8 x) XOR drop_bit 8 v" by (metis crc_shift8_high)
  then show ?thesis unfolding crc_step_def drop_bit_high unfolding low_byte x_def by (simp only: xor.commute)
qed

lemma crc_step_feed: "crc_step v c = foldl crc_feed v (byte_bits c)"
proof -
  have "map (bit (ucast c :: 16 word)) [0..<8] = byte_bits c" by (simp add: byte_bits_def bit_simps)
  then show ?thesis using crc_shift_power_xor [of 8 v "ucast c"] by (simp add: crc_step_shifts)
qed

lemma crc_fold_feed: "foldl crc_step v data = foldl crc_feed v (concat (map byte_bits data))"
  by (induction data arbitrary: v) (simp_all add: crc_step_feed)

text \<open>C29: The table driven CRC of the driver is the CRC of ISO 3309: the bytes it produces are those of the
  register that is shifted once for every bit of the data, lowest bit of each byte first.\<close>

theorem crc_table_is_register:
  "csum_crc_compute data = [ucast (drop_bit 8 (crc_register data)), ucast (crc_register data)]"
proof -
  have "ucast (take_bit 8 v) = (ucast v :: UCHAR)" for v :: "16 word"
    by (rule bit_eqI) (simp add: bit_simps)
  then show ?thesis
    by (simp add: csum_crc_compute_def crc_register_def crc_fold_feed drop_bit_high low_byte Let_def)
qed

subsection \<open>What the checksums detect\<close>

lemma crc_shift_top: "bit (crc_shift v) 15 = bit v 0"
  by (simp add: crc_feed_def bit_simps impossible_bit)

lemma xor_left_cancel: "(v XOR a :: 'a::len word) = v XOR b \<longleftrightarrow> a = b"
  by (metis xor.left_commute xor.right_neutral xor_self_eq)

lemma crc_shift_inj: "crc_shift v = crc_shift w \<Longrightarrow> v = w"
proof -
  assume eq: "crc_shift v = crc_shift w"
  then have low: "bit v 0 = bit w 0" by (metis crc_shift_top)
  with eq have "drop_bit 1 v = drop_bit 1 w" by (auto simp: crc_feed_def xor.commute [of _ "0x8408"] xor_left_cancel split: if_splits)
  then have "bit v (Suc n) = bit w (Suc n)" for n by (metis bit_drop_bit_eq comp_apply plus_1_eq_Suc)
  with low have "bit v n = bit w n" for n by (cases n) simp_all
  then show ?thesis by (simp add: bit_eq_iff)
qed

lemma crc_shifts_inj: "(crc_shift ^^ n) v = (crc_shift ^^ n) w \<Longrightarrow> v = w"
  by (induction n) (auto dest: crc_shift_inj)

lemma crc_step_inj: "crc_step v c = crc_step w c \<Longrightarrow> v = w"
  unfolding crc_step_shifts by (drule crc_shifts_inj) (simp add: xor.commute [of _ "ucast c"] xor_left_cancel)

lemma crc_fold_inj: "foldl crc_step v data = foldl crc_step w data \<Longrightarrow> v = w"
  by (induction data arbitrary: v w) (auto dest: crc_step_inj)

lemma crc_two_steps:
  "crc_step (crc_step v a) b = (crc_shift ^^ 16) (v XOR (ucast a XOR push_bit 8 (ucast b)))"
proof -
  let ?b = "ucast b :: 16 word"
  have "drop_bit 8 (push_bit 8 ?b) = ?b" by (rule bit_eqI) (auto simp: bit_simps dest: bit_imp_le_length)
  then have "(crc_shift ^^ 8) ((v XOR ucast a) XOR push_bit 8 ?b) = crc_step v a XOR ?b"
    by (simp only: crc_shift8_high crc_step_shifts)
  then have "crc_step (crc_step v a) b = (crc_shift ^^ (8 + 8)) ((v XOR ucast a) XOR push_bit 8 ?b)"
    by (simp only: crc_step_shifts [of "crc_step v a"] funpow_add o_apply)
  then show ?thesis by (simp add: xor.assoc)
qed

lemma two_bytes_inj:
  assumes "(ucast (a :: UCHAR) XOR push_bit 8 (ucast (b :: UCHAR)) :: 16 word) = ucast c XOR push_bit 8 (ucast d)"
  shows "a = c \<and> b = d"
proof -
  from assms have bits: "bit (ucast a XOR push_bit 8 (ucast b) :: 16 word) n = bit (ucast c XOR push_bit 8 (ucast d) :: 16 word) n"
    for n by simp
  have eq: "n < 16 \<Longrightarrow> (bit a n \<noteq> (8 \<le> n \<and> bit b (n - 8))) = (bit c n \<noteq> (8 \<le> n \<and> bit d (n - 8)))" for n
    using bits [of n] by (simp add: bit_simps less_imp_diff_less)
  have "bit a n = bit c n" if "n < 8" for n using eq [of n] that by simp
  moreover have "bit b n = bit d n" if "n < 8" for n using eq [of "n + 8"] that bit_imp_le_length [of a "n + 8"] bit_imp_le_length [of c "n + 8"] by auto
  ultimately show ?thesis by (auto intro!: bit_eqI)
qed

lemma crc_value: "csum_crc_compute xs = csum_crc_compute ys \<Longrightarrow> foldl crc_step 0xFFFF xs = foldl crc_step 0xFFFF ys"
proof -
  have "v = w" if "ucast (drop_bit 8 v) = (ucast (drop_bit 8 w) :: UCHAR)" "ucast v = (ucast w :: UCHAR)" for v w :: "16 word"
  proof (rule bit_eqI)
    fix n assume n: "possible_bit TYPE(16 word) n"
    show "bit v n = bit w n"
    proof (cases "n < 8")
      case True
      with arg_cong [OF that(2), of "\<lambda>u. bit u n"] show ?thesis by (simp add: bit_simps)
    next
      case False
      with n have "n - 8 < 8" "n < 16" by (simp_all add: possible_bit_word)
      with False arg_cong [OF that(1), of "\<lambda>u. bit u (n - 8)"] show ?thesis by (simp add: bit_simps)
    qed
  qed
  moreover have "ucast (take_bit 8 v) = (ucast v :: UCHAR)" for v :: "16 word" by (rule bit_eqI) (simp add: bit_simps)
  moreover assume "csum_crc_compute xs = csum_crc_compute ys"
  ultimately show ?thesis by (simp add: csum_crc_compute_def Let_def drop_bit_high low_byte)
qed

lemma crc_detects_two: "csum_crc_compute (xs @ [a, b] @ ys) = csum_crc_compute (xs @ [c, d] @ ys) \<Longrightarrow> a = c \<and> b = d"
proof -
  assume "csum_crc_compute (xs @ [a, b] @ ys) = csum_crc_compute (xs @ [c, d] @ ys)"
  then have "crc_step (crc_step (foldl crc_step 0xFFFF xs) a) b = crc_step (crc_step (foldl crc_step 0xFFFF xs) c) d"
    by (auto dest!: crc_value crc_fold_inj)
  then show ?thesis unfolding crc_two_steps by (auto dest!: crc_shifts_inj two_bytes_inj simp: xor_left_cancel)
qed

lemma crc_detects_one: "csum_crc_compute (xs @ a # ys) = csum_crc_compute (xs @ b # ys) \<Longrightarrow> a = b"
proof -
  assume "csum_crc_compute (xs @ a # ys) = csum_crc_compute (xs @ b # ys)"
  then have "crc_step (foldl crc_step 0xFFFF xs) a = crc_step (foldl crc_step 0xFFFF xs) b"
    by (auto dest!: crc_value crc_fold_inj)
  from crc_shifts_inj [OF this [unfolded crc_step_shifts]] show ?thesis
    using two_bytes_inj [of a 0 b 0] by (simp add: xor_left_cancel)
qed

lemma lrc_fold: "foldl (XOR) v xs = v XOR foldl (XOR) (0 :: UCHAR) xs"
proof (induction xs arbitrary: v)
  case (Cons x xs)
  from Cons [of "v XOR x"] Cons [of x] show ?case by (simp add: xor.assoc)
qed simp

lemma lrc_detects: "csum_lrc_compute (xs @ a # ys) = csum_lrc_compute (xs @ b # ys) \<Longrightarrow> a = b"
proof -
  assume "csum_lrc_compute (xs @ a # ys) = csum_lrc_compute (xs @ b # ys)"
  then have "foldl (XOR) 0 xs XOR a = foldl (XOR) 0 xs XOR b"
    unfolding csum_lrc_compute_def
    by (simp add: lrc_fold [of "foldl (XOR) 0 xs XOR a"] lrc_fold [of "foldl (XOR) 0 xs XOR b"]
        xor.commute [of _ "foldl (XOR) 0 ys"] xor_left_cancel)
  then show ?thesis by (simp add: xor_left_cancel)
qed

end
