(* ===== verification/Ct_Buffer.thy ===== *)
theory Ct_Buffer
  imports Prelude
begin

section \<open>Byte buffers (ccid: openct/buffer.c)\<close>

text \<open>
  The buffer through which the T=1 protocol reads a command and collects a response: a piece of memory of
  \<open>ct_size\<close> bytes with a read position \<open>ct_head\<close> and a write position \<open>ct_tail\<close>. The memory belongs to the
  caller; \<open>ct_base\<close> is its contents. The contract of the buffer is the locale \<open>byte_queue\<close>; the functions of
  the file are an instance of it.
\<close>

text \<open>\<^verbatim>\<open>memcpy\<close> to position \<open>p\<close> of a memory, inside its bounds.\<close>

definition store :: "nat \<Rightarrow> 'a list \<Rightarrow> 'a list \<Rightarrow> 'a list" where
  "store p xs m = take p m @ xs @ drop (p + length xs) m"

lemma length_store [simp]: "p + length xs \<le> length m \<Longrightarrow> length (store p xs m) = length m"
  by (simp add: store_def)

lemma store_Nil [simp]: "store p [] m = m"
  by (simp add: store_def)

lemma take_store [simp]: "p + length xs \<le> length m \<Longrightarrow> n \<le> p \<Longrightarrow> take n (store p xs m) = take n m"
  by (simp add: store_def min_def)

lemma read_store: "p + length xs \<le> length m \<Longrightarrow> take (length xs) (drop p (store p xs m)) = xs"
  by (simp add: store_def)

lemma nth_store: "p + length xs \<le> length m \<Longrightarrow> i < length m \<Longrightarrow>
    store p xs m ! i = (if p \<le> i \<and> i < p + length xs then xs ! (i - p) else m ! i)"
  by (auto simp: store_def nth_append min_def)

record ct_buf =
  ct_base :: "UCHAR list"
  ct_head :: DWORD
  ct_tail :: DWORD
  ct_size :: DWORD
  ct_overrun :: DWORD

definition ct_buf_init :: "UCHAR list \<Rightarrow> DWORD \<Rightarrow> ct_buf" where
  "ct_buf_init mem len = \<lparr>ct_base = mem, ct_head = 0, ct_tail = 0, ct_size = len, ct_overrun = 0\<rparr>"

definition ct_buf_set :: "UCHAR list \<Rightarrow> DWORD \<Rightarrow> ct_buf" where
  "ct_buf_set mem len = (ct_buf_init mem len)\<lparr>ct_tail := len\<rparr>"

text \<open>The bytes copied are the second result; a caller that passes no memory ignores them.\<close>

definition ct_buf_get :: "ct_buf \<Rightarrow> DWORD \<Rightarrow> int \<times> UCHAR list \<times> ct_buf" where
  "ct_buf_get bp len =
    (if len > ct_tail bp - ct_head bp then (-1, [], bp)
     else (sint len, take (unat len) (drop (unat (ct_head bp)) (ct_base bp)), bp\<lparr>ct_head := ct_head bp + len\<rparr>))"

definition ct_buf_put :: "ct_buf \<Rightarrow> UCHAR list \<Rightarrow> int \<times> ct_buf" where
  "ct_buf_put bp mem =
    (let len = word_of_nat (length mem) in
     if len > ct_size bp - ct_tail bp then (-1, bp\<lparr>ct_overrun := 1\<rparr>)
     else (sint len, bp\<lparr>ct_base := store (unat (ct_tail bp)) mem (ct_base bp), ct_tail := ct_tail bp + len\<rparr>))"

definition ct_buf_putc :: "ct_buf \<Rightarrow> UCHAR \<Rightarrow> int \<times> ct_buf" where
  "ct_buf_putc bp byte = ct_buf_put bp [byte]"

definition ct_buf_avail :: "ct_buf \<Rightarrow> DWORD" where
  "ct_buf_avail bp = ct_tail bp - ct_head bp"

text \<open>What the pointer returned by \<^verbatim>\<open>ct_buf_head\<close> points to.\<close>

definition ct_buf_head :: "ct_buf \<Rightarrow> UCHAR list" where
  "ct_buf_head bp = drop (unat (ct_head bp)) (ct_base bp)"

subsection \<open>The contract\<close>

text \<open>A bounded queue of bytes: bytes are appended while there is room, and removed from the front.\<close>

locale byte_queue =
  fixes ok :: "'q \<Rightarrow> bool"
    and contents :: "'q \<Rightarrow> UCHAR list"
    and room :: "'q \<Rightarrow> nat"
    and put :: "'q \<Rightarrow> UCHAR list \<Rightarrow> int \<times> 'q"
    and get :: "'q \<Rightarrow> DWORD \<Rightarrow> int \<times> UCHAR list \<times> 'q"
  assumes put_fits: "ok q \<Longrightarrow> length xs \<le> room q \<Longrightarrow> length xs < 2 ^ 31 \<Longrightarrow>
      fst (put q xs) = int (length xs) \<and> ok (snd (put q xs)) \<and> contents (snd (put q xs)) = contents q @ xs
      \<and> room (snd (put q xs)) = room q - length xs"
    and put_full: "ok q \<Longrightarrow> room q < length xs \<Longrightarrow> length xs < 2 ^ 31 \<Longrightarrow>
      fst (put q xs) = -1 \<and> ok (snd (put q xs)) \<and> contents (snd (put q xs)) = contents q
      \<and> room (snd (put q xs)) = room q"
    and get_some: "ok q \<Longrightarrow> unat n \<le> length (contents q) \<Longrightarrow>
      \<exists>r q'. get q n = (r, take (unat n) (contents q), q') \<and> ok q' \<and> contents q' = drop (unat n) (contents q)
        \<and> room q' = room q"
    and get_none: "ok q \<Longrightarrow> length (contents q) < unat n \<Longrightarrow> get q n = (-1, [], q)"
begin

lemma put_iff: "ok q \<Longrightarrow> length xs < 2 ^ 31 \<Longrightarrow> 0 \<le> fst (put q xs) \<longleftrightarrow> length xs \<le> room q"
  using put_fits put_full by (metis linorder_not_le neg_0_le_iff_le not_one_le_zero of_nat_0_le_iff)

text \<open>A chain of pieces that fit ends up as their concatenation.\<close>

lemma put_chain:
  assumes "ok q" and "length (concat xss) \<le> room q" and "length (concat xss) < 2 ^ 31"
  defines "q' \<equiv> foldl (\<lambda>q xs. snd (put q xs)) q xss"
  shows "ok q' \<and> contents q' = contents q @ concat xss \<and> room q' = room q - length (concat xss)"
  using assms(1-3) unfolding q'_def
proof (induction xss arbitrary: q)
  case (Cons xs xss)
  let ?q = "snd (put q xs)"
  have q: "ok ?q" "contents ?q = contents q @ xs" "room ?q = room q - length xs"
    using put_fits [OF Cons.prems(1), of xs] Cons.prems(2,3) by auto
  from Cons.IH [OF q(1)] Cons.prems(2,3) q(2,3) show ?case by auto
qed simp

text \<open>What was put into an empty queue comes out in one piece.\<close>

lemma put_get:
  assumes "ok q" and "contents q = []" and "length xs \<le> room q" and "length xs < 2 ^ 31"
  shows "\<exists>r q'. get (snd (put q xs)) (word_of_nat (length xs)) = (r, xs, q') \<and> ok q' \<and> contents q' = []"
proof -
  have u: "unat (word_of_nat (length xs) :: DWORD) = length xs" using assms(4) by (simp add: unat_of_nat)
  from put_fits [OF assms(1,3,4)] assms(2) have "ok (snd (put q xs))" "contents (snd (put q xs)) = xs" by auto
  from get_some [OF this(1), of "word_of_nat (length xs)"] this(2) u show ?thesis by auto
qed

end

subsection \<open>The functions of buffer.c keep it\<close>

definition buf_ok :: "ct_buf \<Rightarrow> bool" where
  "buf_ok bp \<longleftrightarrow> ct_head bp \<le> ct_tail bp \<and> ct_tail bp \<le> ct_size bp \<and> unat (ct_size bp) \<le> length (ct_base bp)"

definition buf_contents :: "ct_buf \<Rightarrow> UCHAR list" where
  "buf_contents bp = take (unat (ct_buf_avail bp)) (ct_buf_head bp)"

definition buf_room :: "ct_buf \<Rightarrow> nat" where
  "buf_room bp = unat (ct_size bp - ct_tail bp)"

lemma buf_okD:
  assumes "buf_ok bp"
  shows "unat (ct_buf_avail bp) = unat (ct_tail bp) - unat (ct_head bp)"
    and "buf_room bp = unat (ct_size bp) - unat (ct_tail bp)"
    and "unat (ct_head bp) \<le> unat (ct_tail bp)" and "unat (ct_tail bp) \<le> unat (ct_size bp)"
    and "unat (ct_size bp) \<le> length (ct_base bp)"
  using assms by (simp_all add: buf_ok_def ct_buf_avail_def buf_room_def unat_sub word_le_nat_alt)

lemma length_buf_contents: "buf_ok bp \<Longrightarrow> length (buf_contents bp) = unat (ct_buf_avail bp)"
  using buf_okD [of bp] by (simp add: buf_contents_def ct_buf_head_def)

lemma buf_init_ok: "unat len \<le> length mem \<Longrightarrow> buf_ok (ct_buf_init mem len) \<and> buf_contents (ct_buf_init mem len) = []
    \<and> buf_room (ct_buf_init mem len) = unat len"
  by (simp add: buf_ok_def ct_buf_init_def buf_contents_def ct_buf_avail_def buf_room_def)

lemma buf_set_ok: "unat len \<le> length mem \<Longrightarrow> buf_ok (ct_buf_set mem len)
    \<and> buf_contents (ct_buf_set mem len) = take (unat len) mem"
  by (simp add: buf_ok_def ct_buf_set_def ct_buf_init_def buf_contents_def ct_buf_avail_def ct_buf_head_def)

lemma unat_DWORD: "unat (w :: DWORD) < 2 ^ 32"
  using unsigned_less [of w, where 'a = nat] by simp

lemma sint_small: "unat (w :: DWORD) < 2 ^ 31 \<Longrightarrow> sint w = int (unat w)"
proof -
  assume "unat w < 2 ^ 31"
  then have "int (unat w) < int (2 ^ 31)" by (simp only: of_nat_less_iff)
  then have "uint w < 2 ^ 31" by simp
  then have "signed_take_bit 31 (uint w) = uint w" using uint_ge_0 [of w] by (intro signed_take_bit_int_eq_self) linarith+
  then show ?thesis by (simp add: sint_uint)
qed

lemma put_step:
  assumes "buf_ok bp" and "length xs \<le> buf_room bp" and "length xs < 2 ^ 31"
  shows "ct_buf_put bp xs = (int (length xs), bp\<lparr>ct_base := store (unat (ct_tail bp)) xs (ct_base bp),
      ct_tail := ct_tail bp + word_of_nat (length xs)\<rparr>)"
proof -
  have u: "unat (word_of_nat (length xs) :: DWORD) = length xs" using assms(3) by (simp add: unat_of_nat)
  then have "\<not> word_of_nat (length xs) > ct_size bp - ct_tail bp" using assms(2) by (simp add: word_less_nat_alt buf_room_def)
  moreover have "sint (word_of_nat (length xs) :: DWORD) = int (length xs)" using u assms(3) by (simp add: sint_small)
  ultimately show ?thesis by (simp add: ct_buf_put_def Let_def)
qed

lemma put_tail:
  assumes "buf_ok bp" and "length xs \<le> buf_room bp" and "length xs < 2 ^ 31"
  shows "unat (ct_tail bp + word_of_nat (length xs)) = unat (ct_tail bp) + length xs"
proof -
  have u: "unat (word_of_nat (length xs) :: DWORD) = length xs" using assms(3) by (simp add: unat_of_nat)
  have "unat (ct_tail bp) + length xs \<le> unat (ct_size bp)" using buf_okD(2,4) [OF assms(1)] assms(2) by simp
  also have "\<dots> < 2 ^ 32" by (rule unat_DWORD)
  finally show ?thesis using u by (simp add: unat_word_ariths)
qed

lemma queue_put:
  assumes "buf_ok bp" and "length xs \<le> buf_room bp" and "length xs < 2 ^ 31"
  shows "fst (ct_buf_put bp xs) = int (length xs) \<and> buf_ok (snd (ct_buf_put bp xs))
    \<and> buf_contents (snd (ct_buf_put bp xs)) = buf_contents bp @ xs \<and> buf_room (snd (ct_buf_put bp xs)) = buf_room bp - length xs"
proof -
  let ?bp = "bp\<lparr>ct_base := store (unat (ct_tail bp)) xs (ct_base bp), ct_tail := ct_tail bp + word_of_nat (length xs)\<rparr>"
  note d = buf_okD [OF assms(1)] put_tail [OF assms]
  have fit: "unat (ct_tail bp) + length xs \<le> length (ct_base bp)" using d assms(2) by simp
  have ok: "buf_ok ?bp" using d fit assms(2) by (simp add: buf_ok_def word_le_nat_alt)
  have "buf_contents ?bp = take (unat (ct_tail bp) + length xs - unat (ct_head bp)) (drop (unat (ct_head bp)) (store (unat (ct_tail bp)) xs (ct_base bp)))"
    using buf_okD(1) [OF ok] d by (simp add: buf_contents_def ct_buf_head_def)
  also have "\<dots> = drop (unat (ct_head bp)) (take (unat (ct_tail bp) + length xs) (store (unat (ct_tail bp)) xs (ct_base bp)))"
    by (simp add: drop_take)
  also have "\<dots> = drop (unat (ct_head bp)) (take (unat (ct_tail bp)) (ct_base bp)) @ xs"
    using d fit by (simp add: store_def)
  also have "\<dots> = buf_contents bp @ xs" using d by (simp add: buf_contents_def ct_buf_head_def drop_take)
  finally show ?thesis using ok buf_okD(2) [OF ok] d by (simp add: put_step [OF assms])
qed

interpretation buf: byte_queue buf_ok buf_contents buf_room ct_buf_put ct_buf_get
proof
  fix bp :: ct_buf and xs :: "UCHAR list"
  assume b: "buf_ok bp" "length xs < 2 ^ 31"
  show "fst (ct_buf_put bp xs) = int (length xs) \<and> buf_ok (snd (ct_buf_put bp xs))
    \<and> buf_contents (snd (ct_buf_put bp xs)) = buf_contents bp @ xs \<and> buf_room (snd (ct_buf_put bp xs)) = buf_room bp - length xs"
    if "length xs \<le> buf_room bp" by (rule queue_put [OF b(1) that b(2)])
  have "unat (word_of_nat (length xs) :: DWORD) = length xs" using b(2) by (simp add: unat_of_nat)
  then show "fst (ct_buf_put bp xs) = -1 \<and> buf_ok (snd (ct_buf_put bp xs))
    \<and> buf_contents (snd (ct_buf_put bp xs)) = buf_contents bp \<and> buf_room (snd (ct_buf_put bp xs)) = buf_room bp"
    if "buf_room bp < length xs"
    using that b(1) by (simp add: ct_buf_put_def Let_def buf_room_def word_less_nat_alt buf_ok_def buf_contents_def ct_buf_avail_def ct_buf_head_def)
next
  fix bp :: ct_buf and n :: DWORD
  assume ok: "buf_ok bp"
  note d = buf_okD [OF ok] and len = length_buf_contents [OF ok]
  show "ct_buf_get bp n = (-1, [], bp)" if "length (buf_contents bp) < unat n"
    using that len by (simp add: ct_buf_get_def word_less_nat_alt ct_buf_avail_def)
  assume n: "unat n \<le> length (buf_contents bp)"
  let ?bp = "bp\<lparr>ct_head := ct_head bp + n\<rparr>"
  have le: "n \<le> ct_tail bp - ct_head bp" using n len by (simp add: word_le_nat_alt ct_buf_avail_def)
  have h: "unat (ct_head bp + n) = unat (ct_head bp) + unat n"
    using n len d unat_DWORD [of "ct_tail bp"] by (simp add: unat_word_ariths)
  have ok': "buf_ok ?bp" using ok h n len d by (simp add: buf_ok_def word_le_nat_alt)
  have "buf_contents ?bp = drop (unat n) (buf_contents bp)"
    using buf_okD(1) [OF ok'] d(1) h by (simp add: buf_contents_def ct_buf_head_def drop_take add.commute)
  moreover have "buf_room ?bp = buf_room bp" by (simp add: buf_room_def)
  moreover have "take (unat n) (drop (unat (ct_head bp)) (ct_base bp)) = take (unat n) (buf_contents bp)"
    using n len by (simp add: buf_contents_def ct_buf_head_def min_def)
  ultimately show "\<exists>r q'. ct_buf_get bp n = (r, take (unat n) (buf_contents bp), q') \<and> buf_ok q'
      \<and> buf_contents q' = drop (unat n) (buf_contents bp) \<and> buf_room q' = buf_room bp"
    using le ok' by (auto simp: ct_buf_get_def not_less)
qed

end
