(* ===== verification/Ccid_Usb.thy ===== *)
theory Ccid_Usb
  imports Ct_Buffer
begin

section \<open>A CCID reader and its USB port (ccid: ccid.h, ccid\_usb.c)\<close>

text \<open>
  The state the CCID driver keeps for a reader and the functions that move bytes to and from it. The model is
  the USB build of the driver (\<^verbatim>\<open>TWIN_SERIAL\<close> undefined). libusb is a parameter, the record
  \<open>'u libusb\<close>: \<open>'u\<close> is the state of the device behind it, a transfer either fails with an
  error number or delivers bytes. A read never delivers more bytes than asked for, so the model cuts what the
  parameter yields to the requested length.

  A function that reads or writes outside of a buffer has no result (\<open>None\<close>). \<open>uninit\<close> is what fresh local
  arrays contain. \<^verbatim>\<open>arrayOfSupportedDataRates\<close> is \<open>None\<close> for NULL, else the entries before the end marker 0.
\<close>

datatype errno = ENODEV | Other_errno

datatype status_t = STATUS_NO_SUCH_DEVICE | STATUS_SUCCESS | STATUS_UNSUCCESSFUL | STATUS_COMM_ERROR
  | STATUS_DEVICE_PROTOCOL_ERROR | STATUS_COMM_NAK | STATUS_SECONDARY_SLOT

record 'u libusb =
  usb_bulk_write :: "UCHAR list \<Rightarrow> 'u \<Rightarrow> errno option \<times> 'u"
  usb_bulk_read :: "nat \<Rightarrow> DWORD \<Rightarrow> 'u \<Rightarrow> (errno + UCHAR list) \<times> 'u"
  usb_control_msg :: "UCHAR \<Rightarrow> UCHAR \<Rightarrow> DWORD \<Rightarrow> UCHAR list \<Rightarrow> nat \<Rightarrow> DWORD \<Rightarrow> 'u \<Rightarrow> (errno + UCHAR list) \<times> 'u"
  usb_interrupt_read :: "DWORD \<Rightarrow> 'u \<Rightarrow> (errno + UCHAR list) \<times> 'u"

text \<open>\<^verbatim>\<open>_ccid_descriptor\<close>; the counter \<^verbatim>\<open>pbSeq\<close> points to is the field \<open>bSeq\<close>.\<close>

record 'u ccid =
  bSeq :: UCHAR
  readerID :: DWORD
  dwMaxCCIDMessageLength :: DWORD
  dwMaxIFSD :: DWORD
  dwFeatures :: DWORD
  bPINSupport :: UCHAR
  wLcdLayout :: DWORD
  dwDefaultClock :: DWORD
  dwMaxDataRate :: DWORD
  bMaxSlotIndex :: UCHAR
  bCurrentSlotIndex :: UCHAR
  arrayOfSupportedDataRates :: "DWORD list option"
  readTimeout :: DWORD
  ccid_cardProtocol :: DWORD
  bInterfaceProtocol :: int
  bNumEndpoints :: int
  dwSlotStatus :: LONG
  bVoltageSupport :: DWORD
  uninit :: "nat \<Rightarrow> UCHAR"
  usb :: 'u

abbreviation (input) ICCD_A :: int where "ICCD_A \<equiv> 1"
abbreviation (input) ICCD_B :: int where "ICCD_B \<equiv> 2"
abbreviation (input) CMD_BUF_SIZE :: nat where "CMD_BUF_SIZE \<equiv> 262"

text \<open>A local array of \<open>n\<close> bytes before anything is stored in it.\<close>

definition fresh_array :: "nat \<Rightarrow> 'u ccid \<Rightarrow> UCHAR list" where
  "fresh_array n c = map (uninit c) [0..<n]"

lemma length_fresh_array [simp]: "length (fresh_array n c) = n"
  by (simp add: fresh_array_def)

subsection \<open>Numbers in messages\<close>

definition i2dw :: "DWORD \<Rightarrow> UCHAR list" where
  "i2dw value = [ucast (value AND 0xFF), ucast (drop_bit 8 value AND 0xFF), ucast (drop_bit 16 value AND 0xFF),
    ucast (drop_bit 24 value AND 0xFF)]"

definition dw2i :: "UCHAR list \<Rightarrow> nat \<Rightarrow> DWORD" where
  "dw2i a x = push_bit 8 (push_bit 8 (push_bit 8 (ucast (a ! (x + 3))) + ucast (a ! (x + 2))) + ucast (a ! (x + 1)))
    + ucast (a ! x)"

lemma length_i2dw [simp]: "length (i2dw v) = 4"
  by (simp add: i2dw_def)

lemma byte_sum: "push_bit 8 (w :: DWORD) + ucast (b :: UCHAR) = push_bit 8 w OR ucast b"
proof (rule disjunctive_add_eq_or)
  show "push_bit 8 w AND ucast b = 0" by (rule bit_eqI) (auto simp: bit_simps dest: bit_imp_le_length)
qed

lemma ucast_byte: "bit (ucast (ucast (w AND 0xFF :: DWORD) :: UCHAR) :: DWORD) n \<longleftrightarrow> n < 8 \<and> bit w n"
proof -
  have "w AND 0xFF = take_bit 8 w" by (simp add: take_bit_eq_mask mask_eq_exp_minus_1)
  then show ?thesis by (simp only:) (auto simp: bit_simps)
qed

lemma dw2i_i2dw: "dw2i (xs @ i2dw v @ ys) (length xs) = v"
proof -
  let ?b = "\<lambda>n. ucast (ucast (drop_bit n v AND 0xFF) :: UCHAR) :: DWORD"
  have "dw2i (xs @ i2dw v @ ys) (length xs)
      = push_bit 8 (push_bit 8 (push_bit 8 (?b 24) + ?b 16) + ?b 8) + ?b 0"
    by (simp add: dw2i_def i2dw_def nth_append del: push_bit_numeral)
  also have "\<dots> = push_bit 8 (push_bit 8 (push_bit 8 (?b 24) OR ?b 16) OR ?b 8) OR ?b 0"
    by (simp only: byte_sum)
  also have "\<dots> = v"
  proof (rule bit_word_eqI)
    fix n assume "n < LENGTH(32)"
    then have n: "n < 32" by simp
    consider "n < 8" | "8 \<le> n" "n < 16" | "16 \<le> n" "n < 24" | "24 \<le> n" by linarith
    then show "bit (push_bit 8 (push_bit 8 (push_bit 8 (?b 24) OR ?b 16) OR ?b 8) OR ?b 0) n = bit v n"
      using n by cases (simp_all add: bit_or_iff bit_push_bit_iff ucast_byte bit_drop_bit_eq, arith+)
  qed
  finally show ?thesis .
qed

subsection \<open>The port\<close>

definition WriteUSB :: "'u libusb \<Rightarrow> UCHAR list \<Rightarrow> 'u ccid \<Rightarrow> status_t \<times> 'u ccid" where
  "WriteUSB lib buffer c =
    (case usb_bulk_write lib buffer (usb c) of
       (None, u) \<Rightarrow> (STATUS_SUCCESS, c\<lparr>usb := u\<rparr>)
     | (Some e, u) \<Rightarrow> (if e = ENODEV then STATUS_NO_SUCH_DEVICE else STATUS_UNSUCCESSFUL, c\<lparr>usb := u\<rparr>))"

text \<open>The loop of \<^verbatim>\<open>ReadUSB\<close>. A frame whose sequence number is below the one of the last command is a
  duplicate. The length given to the next read is the length of the duplicate frame, as in the code.\<close>

function read_again :: "'u libusb \<Rightarrow> nat \<Rightarrow> DWORD \<Rightarrow> UCHAR list \<Rightarrow> 'u ccid
    \<Rightarrow> (status_t \<times> DWORD \<times> UCHAR list \<times> 'u ccid) option" where
  "read_again lib duplicate_frame len buffer c =
    (case usb_bulk_read lib (unat len) (readTimeout c * 1000) (usb c) of
       (Inl e, u) \<Rightarrow> Some (if e = ENODEV then STATUS_NO_SUCH_DEVICE else STATUS_UNSUCCESSFUL, 0, buffer, c\<lparr>usb := u\<rparr>)
     | (Inr bytes, u) \<Rightarrow>
        let got = take (unat len) bytes; rv = word_of_nat (length got); c' = c\<lparr>usb := u\<rparr>; buffer' = store 0 got buffer in
        if length buffer < length got then None
        else if 6 \<le> length got then
          if length buffer' \<le> 6 then None
          else if int (unat (buffer' ! 6)) < int (unat (bSeq c)) - 1 then
            if 10 < duplicate_frame + 1 then Some (STATUS_UNSUCCESSFUL, rv, buffer', c')
            else read_again lib (duplicate_frame + 1) rv buffer' c'
          else Some (STATUS_SUCCESS, rv, buffer', c')
        else Some (STATUS_SUCCESS, rv, buffer', c'))"
  by pat_completeness auto

termination by (relation "measure (\<lambda>(lib, d, len, buffer, c). 10 - d)") auto

declare read_again.simps [simp del]

definition ReadUSB :: "'u libusb \<Rightarrow> DWORD \<Rightarrow> UCHAR list \<Rightarrow> 'u ccid \<Rightarrow> (status_t \<times> DWORD \<times> UCHAR list \<times> 'u ccid) option" where
  "ReadUSB lib len buffer c = read_again lib 0 len buffer c"

text \<open>The result of a control transfer: an error, or the bytes of the answer (none for a request to the device).\<close>

definition ControlUSB :: "'u libusb \<Rightarrow> UCHAR \<Rightarrow> UCHAR \<Rightarrow> DWORD \<Rightarrow> UCHAR list \<Rightarrow> DWORD \<Rightarrow> 'u ccid
    \<Rightarrow> (errno + UCHAR list) \<times> 'u ccid" where
  "ControlUSB lib requesttype request value bytes len c =
    (case usb_control_msg lib requesttype request value (if flag requesttype 0x80 then [] else take (unat len) bytes)
        (unat len) (readTimeout c * 1000) (usb c) of
       (Inl e, u) \<Rightarrow> (Inl e, c\<lparr>usb := u\<rparr>)
     | (Inr answer, u) \<Rightarrow> (Inr (take (unat len) answer), c\<lparr>usb := u\<rparr>))"

definition InterruptRead :: "'u libusb \<Rightarrow> DWORD \<Rightarrow> 'u ccid \<Rightarrow> int \<times> 'u ccid" where
  "InterruptRead lib timeout c =
    (case usb_interrupt_read lib timeout (usb c) of
       (Inl e, u) \<Rightarrow> (-1, c\<lparr>usb := u\<rparr>)
     | (Inr bytes, u) \<Rightarrow> (int (length (take 8 bytes)), c\<lparr>usb := u\<rparr>))"

text \<open>Nothing but the device behind the port changes.\<close>

definition same_reader :: "'u ccid \<Rightarrow> 'u ccid \<Rightarrow> bool" where
  "same_reader c c' \<longleftrightarrow> (\<exists>u. c' = c\<lparr>usb := u\<rparr>)"

lemma same_reader_refl [simp]: "same_reader c c"
  unfolding same_reader_def by (rule exI [of _ "usb c"]) simp

lemma same_reader_usb [simp]: "same_reader c (c\<lparr>usb := u\<rparr>)"
  by (auto simp: same_reader_def)

lemma same_reader_trans: "same_reader a b \<Longrightarrow> same_reader b c \<Longrightarrow> same_reader a c"
  by (auto simp: same_reader_def)

lemma same_reader_fields: "same_reader c c' \<Longrightarrow> bSeq c' = bSeq c \<and> readTimeout c' = readTimeout c
    \<and> dwFeatures c' = dwFeatures c \<and> bInterfaceProtocol c' = bInterfaceProtocol c \<and> uninit c' = uninit c
    \<and> bCurrentSlotIndex c' = bCurrentSlotIndex c \<and> readerID c' = readerID c"
  by (auto simp: same_reader_def)

lemma WriteUSB_same: "same_reader c (snd (WriteUSB lib buffer c))"
  by (auto simp: WriteUSB_def split: prod.splits option.splits)

lemma ControlUSB_same: "same_reader c (snd (ControlUSB lib rt r v bs n c))"
  by (auto simp: ControlUSB_def split: prod.splits sum.splits)

lemma ControlUSB_length: "fst (ControlUSB lib rt r v bs n c) = Inr answer \<Longrightarrow> length answer \<le> unat n"
  by (auto simp: ControlUSB_def split: prod.splits sum.splits)

text \<open>\<open>fits len buffer\<close>: the buffer is as large as its caller says.\<close>

definition fits :: "DWORD \<Rightarrow> UCHAR list \<Rightarrow> bool" where
  "fits len buffer \<longleftrightarrow> unat len \<le> length buffer"

lemma read_again_result:
  assumes "fits len buffer" and "7 \<le> length buffer"
  shows "\<exists>st n buffer' c'. read_again lib d len buffer c = Some (st, n, buffer', c') \<and> same_reader c c'
      \<and> n \<le> len \<and> length buffer' = length buffer \<and> st \<in> {STATUS_NO_SUCH_DEVICE, STATUS_UNSUCCESSFUL, STATUS_SUCCESS}
      \<and> (st = STATUS_SUCCESS \<longrightarrow> unat n < 6 \<or> int (unat (bSeq c)) - 1 \<le> int (unat (buffer' ! 6)))"
  using assms
proof (induction "10 - d" arbitrary: d len buffer c rule: less_induct)
  case less
  obtain r u where r: "usb_bulk_read lib (unat len) (readTimeout c * 1000) (usb c) = (r, u)" by fastforce
  show ?case
  proof (cases r)
    case (Inl e)
    with r show ?thesis by (simp add: read_again.simps [of lib d len])
  next
    case (Inr bytes)
    define got where "got = take (unat len) bytes"
    define rv where "rv = (word_of_nat (length got) :: DWORD)"
    define b where "b = store 0 got buffer"
    have len: "length got \<le> unat len" "length got \<le> length buffer" using less(2) by (auto simp: fits_def got_def)
    then have rv: "unat rv = length got" using unat_DWORD [of len] by (simp add: unat_of_nat rv_def)
    have b: "length b = length buffer" using len(2) by (simp add: b_def)
    have le: "rv \<le> len" using rv len(1) by (simp add: word_le_nat_alt)
    have step: "read_again lib d len buffer c =
       (if 6 \<le> length got \<and> int (unat (b ! 6)) < int (unat (bSeq c)) - 1 then
          if 10 < d + 1 then Some (STATUS_UNSUCCESSFUL, rv, b, c\<lparr>usb := u\<rparr>) else read_again lib (d + 1) rv b (c\<lparr>usb := u\<rparr>)
        else Some (STATUS_SUCCESS, rv, b, c\<lparr>usb := u\<rparr>))"
      unfolding read_again.simps [of lib d len buffer c, unfolded r Inr prod.case sum.case Let_def, folded got_def, folded rv_def b_def]
      using len(2) b less(3) by simp
    show ?thesis
    proof (cases "6 \<le> length got \<and> int (unat (b ! 6)) < int (unat (bSeq c)) - 1 \<and> d + 1 \<le> 10")
      case True
      have "fits rv b" using rv b len(2) by (simp add: fits_def)
      from less(1) [OF _ this, of "d + 1" "c\<lparr>usb := u\<rparr>"] True b less(3)
      obtain st n buffer' c' where rec: "read_again lib (d + 1) rv b (c\<lparr>usb := u\<rparr>) = Some (st, n, buffer', c')"
        "same_reader (c\<lparr>usb := u\<rparr>) c'" "n \<le> rv" "length buffer' = length b"
        "st \<in> {STATUS_NO_SUCH_DEVICE, STATUS_UNSUCCESSFUL, STATUS_SUCCESS}"
        "st = STATUS_SUCCESS \<longrightarrow> unat n < 6 \<or> int (unat (bSeq c)) - 1 \<le> int (unat (buffer' ! 6))" by fastforce
      have "same_reader c c'" using same_reader_trans [OF same_reader_usb rec(2)] .
      with step True rec le b show ?thesis by auto
    next
      case False
      with step b rv le show ?thesis by (auto simp: not_less not_le)
    qed
  qed
qed

end
