(* ===== verification/Ccid_Commands.thy ===== *)
theory Ccid_Commands
  imports Ccid_Usb
begin

section \<open>Commands to a CCID reader (ccid: commands.c)\<close>

text \<open>
  The functions that build the messages of the CCID protocol, send them through the port and take the answers
  apart. Output parameters are results: a function that fills \<^verbatim>\<open>rx_buffer\<close> and \<^verbatim>\<open>*rx_length\<close> takes their old
  values and returns the new ones. A buffer that may be \<^verbatim>\<open>NULL\<close> is an option. \<open>None\<close> as the whole
  result is a read or write outside of a buffer, or a loop that never ends.
\<close>

abbreviation (input) CCID_COMMAND_FAILED :: UCHAR where "CCID_COMMAND_FAILED \<equiv> 0x40"
abbreviation (input) CCID_TIME_EXTENSION :: UCHAR where "CCID_TIME_EXTENSION \<equiv> 0x80"
abbreviation (input) STATUS_OFFSET :: nat where "STATUS_OFFSET \<equiv> 7"
abbreviation (input) ERROR_OFFSET :: nat where "ERROR_OFFSET \<equiv> 8"
abbreviation (input) CHAIN_PARAMETER_OFFSET :: nat where "CHAIN_PARAMETER_OFFSET \<equiv> 9"
abbreviation (input) IFD_RESPONSE_TIMEOUT :: LONG where "IFD_RESPONSE_TIMEOUT \<equiv> 613"
abbreviation (input) IFD_PARITY_ERROR :: LONG where "IFD_PARITY_ERROR \<equiv> 699"
abbreviation (input) IFD_ERROR_INSUFFICIENT_BUFFER :: LONG where "IFD_ERROR_INSUFFICIENT_BUFFER \<equiv> 700"
abbreviation (input) CCID_CLASS_CHARACTER :: DWORD where "CCID_CLASS_CHARACTER \<equiv> 0"
abbreviation (input) CCID_CLASS_TPDU :: DWORD where "CCID_CLASS_TPDU \<equiv> 0x10000"
abbreviation (input) CCID_CLASS_SHORT_APDU :: DWORD where "CCID_CLASS_SHORT_APDU \<equiv> 0x20000"
abbreviation (input) CCID_CLASS_EXTENDED_APDU :: DWORD where "CCID_CLASS_EXTENDED_APDU \<equiv> 0x40000"
abbreviation (input) CCID_CLASS_EXCHANGE_MASK :: DWORD where "CCID_CLASS_EXCHANGE_MASK \<equiv> 0x70000"
abbreviation (input) CCID_CLASS_AUTO_VOLTAGE :: DWORD where "CCID_CLASS_AUTO_VOLTAGE \<equiv> 8"
abbreviation (input) CCID_ICC_PRESENT_ACTIVE :: UCHAR where "CCID_ICC_PRESENT_ACTIVE \<equiv> 0"
abbreviation (input) CCID_ICC_PRESENT_INACTIVE :: UCHAR where "CCID_ICC_PRESENT_INACTIVE \<equiv> 1"
abbreviation (input) CCID_ICC_ABSENT :: UCHAR where "CCID_ICC_ABSENT \<equiv> 2"

text \<open>\<open>n\<close> bytes read through a pointer.\<close>

definition read_bytes :: "UCHAR list option \<Rightarrow> DWORD \<Rightarrow> UCHAR list option" where
  "read_bytes buffer n =
    (if n = 0 then Some []
     else case buffer of None \<Rightarrow> None | Some b \<Rightarrow> if unat n \<le> length b then Some (take (unat n) b) else None)"

text \<open>\<^verbatim>\<open>(*ccid_descriptor->pbSeq)++\<close> after the number was used.\<close>

definition next_seq :: "'u ccid \<Rightarrow> 'u ccid" where
  "next_seq c = c\<lparr>bSeq := bSeq c + 1\<rparr>"

lemma next_seq_simps [simp]:
  "bSeq (next_seq c) = bSeq c + 1" "readTimeout (next_seq c) = readTimeout c" "dwFeatures (next_seq c) = dwFeatures c"
  "bInterfaceProtocol (next_seq c) = bInterfaceProtocol c" "uninit (next_seq c) = uninit c" "usb (next_seq c) = usb c"
  "bCurrentSlotIndex (next_seq c) = bCurrentSlotIndex c" "readerID (next_seq c) = readerID c"
  by (simp_all add: next_seq_def)

definition isCharLevel :: "'u ccid \<Rightarrow> bool" where
  "isCharLevel c \<longleftrightarrow> dwFeatures c AND CCID_CLASS_EXCHANGE_MASK = CCID_CLASS_CHARACTER"

subsection \<open>Sending a block\<close>

definition CCID_Transmit :: "'u libusb \<Rightarrow> DWORD \<Rightarrow> UCHAR list option \<Rightarrow> 16 word \<Rightarrow> UCHAR \<Rightarrow> 'u ccid \<Rightarrow> (LONG \<times> 'u ccid) option" where
  "CCID_Transmit lib tx_length tx_buffer rx_length bBWI c =
    (if bInterfaceProtocol c = ICCD_A then do {
       tx \<leftarrow> read_bytes tx_buffer tx_length;
       (case ControlUSB lib 0x21 0x65 0 tx tx_length c of
          (Inl e, c') \<Rightarrow> Some (IFD_COMMUNICATION_ERROR, c')
        | (Inr answer, c') \<Rightarrow> Some (IFD_SUCCESS, c'))
     }
     else if bInterfaceProtocol c = ICCD_B then do {
       tx \<leftarrow> read_bytes tx_buffer tx_length;
       (case ControlUSB lib 0x21 0x65 (push_bit 8 (ucast (if tx_buffer = None then 0x10 else rx_length))) tx tx_length c of
          (Inl e, c') \<Rightarrow> Some (IFD_COMMUNICATION_ERROR, c')
        | (Inr answer, c') \<Rightarrow> Some (IFD_SUCCESS, c'))
     }
     else
       let cmd = [0x6F] @ i2dw tx_length @ [bCurrentSlotIndex c, bSeq c, bBWI, ucast (rx_length AND 0xFF),
             ucast (drop_bit 8 rx_length AND 0xFF)];
           c1 = next_seq c in
       if CMD_BUF_SIZE < unat tx_length then Some (IFD_NOT_SUPPORTED, c1)
       else do {
         tx \<leftarrow> read_bytes tx_buffer tx_length;
         (case WriteUSB lib (cmd @ tx) c1 of (ret, c2) \<Rightarrow>
            Some (if ret = STATUS_NO_SUCH_DEVICE then IFD_NO_SUCH_DEVICE
                  else if ret \<noteq> STATUS_SUCCESS then IFD_COMMUNICATION_ERROR else IFD_SUCCESS, c2))
       })"

subsection \<open>Receiving a block\<close>

type_synonym 'u received = "LONG \<times> DWORD \<times> UCHAR list option \<times> UCHAR option \<times> 'u ccid"

text \<open>The branch of \<^verbatim>\<open>CCID_Receive\<close> after the checks of the frame: the payload is copied out.\<close>

definition copy_payload :: "DWORD \<Rightarrow> UCHAR list \<Rightarrow> DWORD \<Rightarrow> UCHAR list option \<Rightarrow> 'u ccid \<Rightarrow> 'u received option" where
  "copy_payload len cmd rx_length rx_buffer c =
    (let announced = dw2i cmd 1;
         rv = if len - 10 \<noteq> announced then IFD_COMMUNICATION_ERROR else IFD_SUCCESS;
         n = if announced \<le> rx_length then announced else rx_length;
         rv1 = if announced \<le> rx_length then rv else IFD_ERROR_INSUFFICIENT_BUFFER in
     case rx_buffer of
       None \<Rightarrow> Some (if n \<noteq> 0 then IFD_COMMUNICATION_ERROR else rv1, n, None, Some (cmd ! CHAIN_PARAMETER_OFFSET), c)
     | Some b \<Rightarrow>
         if length cmd < 10 + unat n \<or> length b < unat n then None
         else Some (rv1, n, Some (store 0 (take (unat n) (drop 10 cmd)) b), Some (cmd ! CHAIN_PARAMETER_OFFSET), c))"

text \<open>The answers \<^verbatim>\<open>CCID_Receive\<close> makes up when the user cancelled or did not enter the PIN.\<close>

definition faked_answer :: "UCHAR list \<Rightarrow> DWORD \<Rightarrow> UCHAR list option \<Rightarrow> 'u ccid \<Rightarrow> 'u received option" where
  "faked_answer sw rx_length rx_buffer c =
    (if rx_length < 2 then Some (IFD_COMMUNICATION_ERROR, rx_length, rx_buffer, None, c)
     else case rx_buffer of
       None \<Rightarrow> None
     | Some b \<Rightarrow> if length b < 2 then None else Some (IFD_SUCCESS, 2, Some (store 0 sw b), None, c))"

definition receive_failed :: "UCHAR \<Rightarrow> DWORD \<Rightarrow> UCHAR list option \<Rightarrow> 'u ccid \<Rightarrow> 'u received option" where
  "receive_failed err rx_length rx_buffer c =
    (if err = 0xEF then faked_answer [0x64, 0x01] rx_length rx_buffer c
     else if err = 0xF0 then faked_answer [0x64, 0x00] rx_length rx_buffer c
     else if err = 0xFD then Some (IFD_PARITY_ERROR, rx_length, rx_buffer, None, c)
     else Some (IFD_COMMUNICATION_ERROR, rx_length, rx_buffer, None, c))"

partial_function (option) time_request :: "'u libusb \<Rightarrow> DWORD \<Rightarrow> UCHAR list option \<Rightarrow> UCHAR list \<Rightarrow> 'u ccid \<Rightarrow> 'u received option" where
  "time_request lib rx_length rx_buffer cmd c = do {
     (ret, len, cmd1, c1) \<leftarrow> ReadUSB lib 272 cmd c;
     if ret \<noteq> STATUS_SUCCESS then
       Some (if ret = STATUS_NO_SUCH_DEVICE then IFD_NO_SUCH_DEVICE else IFD_COMMUNICATION_ERROR, rx_length, rx_buffer, None, c1)
     else if len < 8 then Some (IFD_COMMUNICATION_ERROR, rx_length, rx_buffer, None, c1)
     else if flag (cmd1 ! STATUS_OFFSET) CCID_COMMAND_FAILED then receive_failed (cmd1 ! ERROR_OFFSET) rx_length rx_buffer c1
     else if flag (cmd1 ! STATUS_OFFSET) CCID_TIME_EXTENSION then time_request lib rx_length rx_buffer cmd1 c1
     else copy_payload len cmd1 rx_length rx_buffer c1
   }"

text \<open>The branch for an ICCD reader of type B. \<open>cur\<close>: \<^verbatim>\<open>rx_buffer\<close> points to the local array \<^verbatim>\<open>rx_tmp\<close>;
  \<open>old\<close>: the length of the buffer of the caller when it was too short, so that \<^verbatim>\<open>rx_tmp\<close> replaced it. After a
  first answer \<^verbatim>\<open>rx_buffer\<close> is the buffer of the caller again.\<close>

partial_function (option) time_request_ICCD_B :: "'u libusb \<Rightarrow> DWORD \<Rightarrow> bool \<Rightarrow> DWORD option \<Rightarrow> UCHAR list \<Rightarrow> UCHAR list
    \<Rightarrow> 'u ccid \<Rightarrow> (LONG \<times> DWORD \<times> UCHAR list \<times> UCHAR option \<times> 'u ccid) option" where
  "time_request_ICCD_B lib rx_length cur old tmp ext c =
    (case ControlUSB lib 0xA1 0x6F 0 [] rx_length c of
       (Inl e, c1) \<Rightarrow> Some (IFD_COMMUNICATION_ERROR, rx_length, ext, None, c1)
     | (Inr answer, c1) \<Rightarrow>
        if length (if cur then tmp else ext) < length answer then None
        else
          let tmp1 = if cur then store 0 answer tmp else tmp;
              ext0 = if cur then ext else store 0 answer ext;
              ext1 = (case old of None \<Rightarrow> ext0
                      | Some n \<Rightarrow> store 0 (take (min (length answer) (unat n)) (if cur then tmp1 else ext0)) ext0);
              cur1 = (cur \<and> old = None);
              rx = (if cur1 then tmp1 else ext1) in
          if rx = [] then None
          else if rx ! 0 = 0x40 then if length rx \<le> 2 then None else Some (IFD_COMMUNICATION_ERROR, rx_length, ext1, None, c1)
          else if rx ! 0 = 0x80 then if length rx \<le> 2 then None else time_request_ICCD_B lib rx_length cur1 old tmp1 ext1 c1
          else if rx ! 0 \<in> {0x00, 0x01, 0x02, 0x03, 0x10} then
            if answer = [] \<or> length rx < length answer then None
            else Some (IFD_SUCCESS, word_of_nat (length answer - 1),
              (if cur1 then ext1 else store 0 (take (length answer - 1) (drop 1 ext1)) ext1),
              (if rx ! 0 = 0x00 then None else Some (rx ! 0)), c1)
          else Some (IFD_COMMUNICATION_ERROR, rx_length, ext1, None, c1))"

definition CCID_Receive :: "'u libusb \<Rightarrow> DWORD \<Rightarrow> UCHAR list option \<Rightarrow> 'u ccid \<Rightarrow> 'u received option" where
  "CCID_Receive lib rx_length rx_buffer c =
    (if bInterfaceProtocol c = ICCD_A then
       (case ControlUSB lib 0xA1 0x6F 0 [] rx_length c of
          (Inl e, c1) \<Rightarrow> Some (IFD_COMMUNICATION_ERROR, rx_length, rx_buffer, None, c1)
        | (Inr answer, c1) \<Rightarrow>
           (case rx_buffer of
              None \<Rightarrow> if answer = [] then Some (IFD_SUCCESS, rx_length, None, None, c1) else None
            | Some b \<Rightarrow> if length b < length answer then None else Some (IFD_SUCCESS, rx_length, Some (store 0 answer b), None, c1)))
     else if bInterfaceProtocol c = ICCD_B then
       let len = (if rx_buffer = None \<or> rx_length < 4 then 4 else rx_length) in do {
         (rv, n, ext, chain, c1) \<leftarrow> time_request_ICCD_B lib len (rx_buffer = None \<or> rx_length < 4)
            (if rx_buffer \<noteq> None \<and> rx_length < 4 then Some rx_length else None)
            (fresh_array 4 c) (case rx_buffer of None \<Rightarrow> [] | Some b \<Rightarrow> b) c;
         Some (rv, n, (if rx_buffer = None then None else Some ext), chain, c1)
       }
     else time_request lib rx_length rx_buffer (fresh_array (10 + CMD_BUF_SIZE) c) c)"

subsection \<open>Commands to the reader\<close>

text \<open>A message without data.\<close>

definition ccid_message :: "UCHAR \<Rightarrow> UCHAR \<Rightarrow> UCHAR \<Rightarrow> UCHAR \<Rightarrow> DWORD \<Rightarrow> 'u ccid \<Rightarrow> UCHAR list" where
  "ccid_message kind b7 b8 b9 len c = [kind] @ i2dw len @ [bCurrentSlotIndex c, bSeq c, b7, b8, b9]"

text \<open>\<^verbatim>\<open>malloc\<close> is taken to succeed.\<close>

partial_function (option) escape_again :: "'u libusb \<Rightarrow> UCHAR list \<Rightarrow> UCHAR list \<Rightarrow> DWORD \<Rightarrow> 'u ccid
    \<Rightarrow> (LONG \<times> DWORD \<times> UCHAR list \<times> 'u ccid) option" where
  "escape_again lib TxBuffer RxBuffer RxLength c =
    (case WriteUSB lib (ccid_message 0x6B 0 0 0 (word_of_nat (length TxBuffer)) c @ TxBuffer) (next_seq c) of (res, c1) \<Rightarrow>
     if res \<noteq> STATUS_SUCCESS then Some (IFD_COMMUNICATION_ERROR, RxLength, RxBuffer, c1)
     else do {
       (res, length_out, cmd_out, c2) \<leftarrow> ReadUSB lib (10 + RxLength) (fresh_array (unat (10 + RxLength)) c1) c1;
       if res = STATUS_COMM_NAK then escape_again lib TxBuffer RxBuffer RxLength c2
       else if res \<noteq> STATUS_SUCCESS \<or> length_out < 8 then Some (IFD_COMMUNICATION_ERROR, RxLength, RxBuffer, c2)
       else
         let n = (if RxLength < dw2i cmd_out 1 then RxLength else dw2i cmd_out 1) in
         if length cmd_out < 10 + unat n \<or> length RxBuffer < unat n then None
         else Some (if flag (cmd_out ! STATUS_OFFSET) CCID_COMMAND_FAILED then IFD_COMMUNICATION_ERROR else IFD_SUCCESS,
           n, store 0 (take (unat n) (drop 10 cmd_out)) RxBuffer, c2)
     })"

definition CmdEscape :: "'u libusb \<Rightarrow> UCHAR list \<Rightarrow> UCHAR list \<Rightarrow> DWORD \<Rightarrow> 'u ccid \<Rightarrow> (LONG \<times> DWORD \<times> UCHAR list \<times> 'u ccid) option" where
  "CmdEscape lib TxBuffer RxBuffer RxLength c = do {
     (rv, n, b, c1) \<leftarrow> escape_again lib TxBuffer RxBuffer RxLength (c\<lparr>readTimeout := 30\<rparr>);
     Some (rv, n, b, c1\<lparr>readTimeout := readTimeout c\<rparr>)
   }"

definition CmdPowerOff :: "'u libusb \<Rightarrow> 'u ccid \<Rightarrow> (LONG \<times> 'u ccid) option" where
  "CmdPowerOff lib c =
    (if bInterfaceProtocol c = ICCD_A then
       (case ControlUSB lib 0x21 0x63 0 [] 0 c of
          (Inl e, c1) \<Rightarrow> Some (IFD_COMMUNICATION_ERROR, c1) | (Inr answer, c1) \<Rightarrow> Some (IFD_SUCCESS, c1))
     else if bInterfaceProtocol c = ICCD_B then
       (case ControlUSB lib 0x21 0x63 0 [] 0 c of
          (Inl e, c1) \<Rightarrow> Some (IFD_COMMUNICATION_ERROR, c1)
        | (Inr answer, c1) \<Rightarrow>
           (case ControlUSB lib 0xA1 0x81 0 [] 3 c1 of
              (Inl e, c2) \<Rightarrow> Some (IFD_COMMUNICATION_ERROR, c2) | (Inr answer, c2) \<Rightarrow> Some (IFD_SUCCESS, c2)))
     else
       (case WriteUSB lib (ccid_message 0x63 0 0 0 0 c) (next_seq c) of (res, c1) \<Rightarrow>
        if res \<noteq> STATUS_SUCCESS then Some (IFD_COMMUNICATION_ERROR, c1)
        else do {
          (res, len, cmd, c2) \<leftarrow> ReadUSB lib 10 (ccid_message 0x63 0 0 0 0 c) c1;
          Some (if res \<noteq> STATUS_SUCCESS \<or> len < 8 \<or> flag (cmd ! STATUS_OFFSET) CCID_COMMAND_FAILED
                then IFD_COMMUNICATION_ERROR else IFD_SUCCESS, c2)
        }))"

partial_function (option) again_status :: "'u libusb \<Rightarrow> UCHAR list \<Rightarrow> 'u ccid \<Rightarrow> (LONG \<times> UCHAR list \<times> 'u ccid) option" where
  "again_status lib buffer c =
    (case ControlUSB lib 0xA1 0xA0 0 [] 1 c of
       (Inl e, c1) \<Rightarrow> Some (if e = ENODEV then IFD_NO_SUCH_DEVICE else IFD_COMMUNICATION_ERROR, buffer, c1)
     | (Inr answer, c1) \<Rightarrow>
        let status = (store 0 answer (fresh_array 1 c)) ! 0 in
        if flag status 0x40 then again_status lib buffer c1
        else Some (IFD_SUCCESS, buffer[7 := (if status = 0x80 then CCID_ICC_ABSENT else CCID_ICC_PRESENT_ACTIVE), 0 := status], c1))"

definition CmdGetSlotStatus :: "'u libusb \<Rightarrow> UCHAR list \<Rightarrow> 'u ccid \<Rightarrow> (LONG \<times> UCHAR list \<times> 'u ccid) option" where
  "CmdGetSlotStatus lib buffer c =
    (if bInterfaceProtocol c = ICCD_A then again_status lib buffer c
     else if bInterfaceProtocol c = ICCD_B then
       (case ControlUSB lib 0xA1 0x81 0 [] 3 c of
          (Inl e, c1) \<Rightarrow> Some (if e = ENODEV then IFD_NO_SUCH_DEVICE else IFD_COMMUNICATION_ERROR, buffer, c1)
        | (Inr answer, c1) \<Rightarrow>
           let s = (store 0 answer (fresh_array 3 c)) ! 1 AND 0x03 in
           Some (IFD_SUCCESS, buffer[7 := (if s = 0 then CCID_ICC_PRESENT_ACTIVE
               else if s = 1 then CCID_ICC_PRESENT_INACTIVE else CCID_ICC_ABSENT)], c1))
     else
       (case WriteUSB lib (ccid_message 0x65 0 0 0 0 c) (next_seq c) of (res, c1) \<Rightarrow>
        if res \<noteq> STATUS_SUCCESS then
          Some (if res = STATUS_NO_SUCH_DEVICE then IFD_NO_SUCH_DEVICE else IFD_COMMUNICATION_ERROR, buffer, c1)
        else do {
          (res, len, buffer1, c2) \<leftarrow> ReadUSB lib 10 buffer c1;
          Some (if res \<noteq> STATUS_SUCCESS \<or> len < 8 then IFD_COMMUNICATION_ERROR
                else if flag (buffer1 ! STATUS_OFFSET) CCID_COMMAND_FAILED \<and> buffer1 ! ERROR_OFFSET \<noteq> 0xFE
                then IFD_COMMUNICATION_ERROR else IFD_SUCCESS, buffer1, c2)
        }))"

definition SetParameters :: "'u libusb \<Rightarrow> UCHAR \<Rightarrow> UCHAR list \<Rightarrow> 'u ccid \<Rightarrow> (LONG \<times> 'u ccid) option" where
  "SetParameters lib protocol buffer c =
    (let cmd = ccid_message 0x61 protocol 0 0 (word_of_nat (length buffer)) c; c1 = next_seq c in
     if CMD_BUF_SIZE < length buffer then Some (IFD_NOT_SUPPORTED, c1)
     else
       (case WriteUSB lib (cmd @ buffer) c1 of (res, c2) \<Rightarrow>
        if res \<noteq> STATUS_SUCCESS then Some (IFD_COMMUNICATION_ERROR, c2)
        else do {
          (res, len, cmd1, c3) \<leftarrow> ReadUSB lib 272 (store 0 (cmd @ buffer) (fresh_array (10 + CMD_BUF_SIZE) c)) c2;
          Some (if res \<noteq> STATUS_SUCCESS \<or> len < 8 then IFD_COMMUNICATION_ERROR
                else if flag (cmd1 ! STATUS_OFFSET) CCID_COMMAND_FAILED then
                  (let e = cmd1 ! ERROR_OFFSET in
                   if e = 0 then IFD_NOT_SUPPORTED else if 1 \<le> e \<and> e \<le> 127 then IFD_SUCCESS else IFD_COMMUNICATION_ERROR)
                else IFD_SUCCESS, c3)
        }))"

subsection \<open>Powering the card\<close>

definition start_voltage :: "'u ccid \<Rightarrow> int \<Rightarrow> int" where
  "start_voltage c voltage =
    (if flag (dwFeatures c) CCID_CLASS_AUTO_VOLTAGE then 0
     else
       let v1 = (if voltage = 1 \<and> \<not> flag (bVoltageSupport c) 1 then 2 else voltage);
           v2 = (if v1 = 2 \<and> \<not> flag (bVoltageSupport c) 2 then 3 else v1) in
       (if v2 = 3 \<and> \<not> flag (bVoltageSupport c) 4 then 0 else v2))"

definition extract_atr :: "DWORD \<Rightarrow> UCHAR list \<Rightarrow> 'u ccid \<Rightarrow> (LONG \<times> DWORD \<times> UCHAR list \<times> 'u ccid) option" where
  "extract_atr nlength buffer c =
    (let announced = dw2i buffer 1; n = (if nlength < announced then nlength else announced) in
     if length buffer < 10 + unat n then None
     else Some (IFD_SUCCESS, n, store 0 (take (unat n) (drop 10 buffer)) buffer, c))"

text \<open>The readers that report a protocol error when they are in EMV mode.\<close>

definition in_EMV_mode :: "UCHAR \<Rightarrow> 'u ccid \<Rightarrow> bool" where
  "in_EMV_mode err c \<longleftrightarrow> err = 0xBB \<and> (readerID c = 0x08E64433 \<or> readerID c = 0x046A0005)"

text \<open>\<open>tries\<close> is the variable \<^verbatim>\<open>count\<close>, which is decremented by every test; \<open>cur\<close> is \<^verbatim>\<open>*nlength\<close>.\<close>

partial_function (option) power_on_again :: "'u libusb \<Rightarrow> DWORD \<Rightarrow> DWORD \<Rightarrow> UCHAR list \<Rightarrow> int \<Rightarrow> int \<Rightarrow> 'u ccid
    \<Rightarrow> (LONG \<times> DWORD \<times> UCHAR list \<times> 'u ccid) option" where
  "power_on_again lib len cur buffer voltage tries c =
    (case WriteUSB lib (ccid_message 0x62 (word_of_int voltage) 0 0 0 c) (next_seq c) of (res, c1) \<Rightarrow>
     if res \<noteq> STATUS_SUCCESS then Some (IFD_COMMUNICATION_ERROR, cur, buffer, c1)
     else do {
       (res, nlength, buffer1, c2) \<leftarrow> ReadUSB lib len buffer c1;
       if res \<noteq> STATUS_SUCCESS \<or> nlength < 8 then Some (IFD_COMMUNICATION_ERROR, nlength, buffer1, c2)
       else if flag (buffer1 ! STATUS_OFFSET) CCID_COMMAND_FAILED then
         if in_EMV_mode (buffer1 ! ERROR_OFFSET) c2 then do {
           (rv, n, res_tmp, c3) \<leftarrow> CmdEscape lib [0x1F, 0x01] (fresh_array 1 c2) 1 c2;
           if rv \<noteq> IFD_SUCCESS then Some (rv, nlength, buffer1, c3)
           else if tries \<noteq> 0 then power_on_again lib len nlength buffer1 voltage (tries - 1) c3
           else if 1 < voltage then power_on_again lib len nlength buffer1 (voltage - 1) (tries - 1) c3
           else Some (IFD_COMMUNICATION_ERROR, nlength, buffer1, c3)
         }
         else if 1 < voltage then power_on_again lib len nlength buffer1 (voltage - 1) tries c2
         else Some (IFD_COMMUNICATION_ERROR, nlength, buffer1, c2)
       else extract_atr nlength buffer1 c2
     })"

definition CmdPowerOn :: "'u libusb \<Rightarrow> DWORD \<Rightarrow> UCHAR list \<Rightarrow> int \<Rightarrow> 'u ccid \<Rightarrow> (LONG \<times> DWORD \<times> UCHAR list \<times> 'u ccid) option" where
  "CmdPowerOn lib nlength buffer voltage c =
    (if bInterfaceProtocol c = ICCD_A then do {
       (r, c1) \<leftarrow> CmdPowerOff lib c;
       if r \<noteq> IFD_SUCCESS then Some (r, nlength, buffer, c1)
       else do {
         (r, pcbuffer, c2) \<leftarrow> CmdGetSlotStatus lib (fresh_array 10 c) c1;
         if r \<noteq> IFD_SUCCESS then Some (r, nlength, buffer, c2)
         else (case ControlUSB lib 0xA1 0x62 0 [] nlength c2 of
             (Inl e, c3) \<Rightarrow> Some (IFD_COMMUNICATION_ERROR, nlength, buffer, c3)
           | (Inr answer, c3) \<Rightarrow>
               if length buffer < length answer then None
               else Some (IFD_SUCCESS, word_of_nat (length answer), store 0 answer buffer, c3))
       }
     }
     else if bInterfaceProtocol c = ICCD_B then do {
       (r, c1) \<leftarrow> CmdPowerOff lib c;
       if r \<noteq> IFD_SUCCESS then Some (r, nlength, buffer, c1)
       else (case ControlUSB lib 0x21 0x62 1 [] 0 c1 of
           (Inl e, c2) \<Rightarrow> Some (IFD_COMMUNICATION_ERROR, nlength, buffer, c2)
         | (Inr answer, c2) \<Rightarrow>
            (case ControlUSB lib 0xA1 0x6F 0 [] 34 c2 of
               (Inl e, c3) \<Rightarrow> Some (IFD_COMMUNICATION_ERROR, nlength, buffer, c3)
             | (Inr answer, c3) \<Rightarrow>
                let tmp = store 0 answer (fresh_array 34 c); r1 = word_of_nat (length answer) - 1;
                    n = (if r1 < nlength then r1 else nlength) in
                if tmp ! 0 \<noteq> 0 then Some (IFD_COMMUNICATION_ERROR, nlength, buffer, c3)
                else if 33 < unat n \<or> length buffer < unat n then None
                else Some (IFD_SUCCESS, n, store 0 (take (unat n) (drop 1 tmp)) buffer, c3)))
     }
     else power_on_again lib nlength nlength buffer (start_voltage c voltage) 1 c)"

subsection \<open>Exchanges with the card\<close>

definition CmdXfrBlockTPDU_T0 :: "'u libusb \<Rightarrow> UCHAR list \<Rightarrow> DWORD \<Rightarrow> UCHAR list \<Rightarrow> 'u ccid
    \<Rightarrow> (LONG \<times> DWORD \<times> UCHAR list \<times> 'u ccid) option" where
  "CmdXfrBlockTPDU_T0 lib tx rx_length rx_buffer c =
    (let tx_length = word_of_nat (length tx) in
     if dwMaxCCIDMessageLength c - 10 < tx_length \<and> dwMaxCCIDMessageLength c \<noteq> 263 \<or> CMD_BUF_SIZE < length tx
     then Some (IFD_COMMUNICATION_ERROR, rx_length, rx_buffer, c)
     else do {
       (rv, c1) \<leftarrow> CCID_Transmit lib tx_length (Some tx) 0 0 c;
       if rv \<noteq> IFD_SUCCESS then Some (rv, rx_length, rx_buffer, c1)
       else do {
         (rv, n, b, chain, c2) \<leftarrow> CCID_Receive lib rx_length (Some rx_buffer) c1;
         Some (rv, n, the b, c2)
       }
     })"

text \<open>The command is sent in blocks of at most \<open>local\<close> bytes; the length variable of the empty answers in between
  is not initialised.\<close>

partial_function (option) send_next_block :: "'u libusb \<Rightarrow> UCHAR list \<Rightarrow> DWORD \<Rightarrow> UCHAR \<Rightarrow> 'u ccid \<Rightarrow> (LONG \<times> UCHAR \<times> 'u ccid) option" where
  "send_next_block lib tx local_tx_length chain_parameter c = do {
     (rv, c1) \<leftarrow> CCID_Transmit lib local_tx_length (Some tx) (ucast chain_parameter) 0 c;
     if rv \<noteq> IFD_SUCCESS \<or> chain_parameter = 2 \<or> chain_parameter = 0 then Some (rv, chain_parameter, c1)
     else do {
       (rv, n, b, chain, c2) \<leftarrow> CCID_Receive lib (dw2i (fresh_array 4 c) 0) None c1;
       if rv \<noteq> IFD_SUCCESS then Some (rv, chain_parameter, c2)
       else
         let rest = drop (unat local_tx_length) tx in
         if unat local_tx_length < length rest then send_next_block lib rest local_tx_length 3 c2
         else send_next_block lib rest (word_of_nat (length rest)) 2 c2
     }
   }"

partial_function (option) receive_next_block :: "'u libusb \<Rightarrow> DWORD \<Rightarrow> UCHAR list \<Rightarrow> DWORD \<Rightarrow> bool \<Rightarrow> UCHAR \<Rightarrow> 'u ccid
    \<Rightarrow> (LONG \<times> DWORD \<times> UCHAR list \<times> 'u ccid) option" where
  "receive_next_block lib rx_length rx_buffer received_length buffer_overflow chain_parameter c = do {
     (rv, n, part, chain, c1) \<leftarrow> CCID_Receive lib (rx_length - received_length) (Some (drop (unat received_length) rx_buffer)) c;
     let overflow1 = (buffer_overflow \<or> rv = IFD_ERROR_INSUFFICIENT_BUFFER);
         buffer1 = take (unat received_length) rx_buffer @ the part;
         received1 = received_length + n;
         chain1 = (case chain of None \<Rightarrow> chain_parameter | Some p \<Rightarrow> p) in
     if rv \<noteq> IFD_SUCCESS \<and> rv \<noteq> IFD_ERROR_INSUFFICIENT_BUFFER then Some (rv, rx_length, buffer1, c1)
     else if chain1 = 1 \<or> chain1 = 3 \<or> chain1 = 0x10 then do {
       (rv, c2) \<leftarrow> CCID_Transmit lib 0 None 0x10 0 c1;
       if rv \<noteq> IFD_SUCCESS then Some (rv, rx_length, buffer1, c2)
       else receive_next_block lib rx_length buffer1 received1 overflow1 chain1 c2
     }
     else Some (IFD_SUCCESS, (if overflow1 then received1 + 1 else received1), buffer1, c1)
   }"

definition CmdXfrBlockAPDU_extended :: "'u libusb \<Rightarrow> UCHAR list \<Rightarrow> DWORD \<Rightarrow> UCHAR list \<Rightarrow> 'u ccid
    \<Rightarrow> (LONG \<times> DWORD \<times> UCHAR list \<times> 'u ccid) option" where
  "CmdXfrBlockAPDU_extended lib tx rx_length rx_buffer c =
    (let rx1 = (if bInterfaceProtocol c = ICCD_B \<and> 0x1000 < rx_length then 0x1000 else rx_length);
         tx_length = word_of_nat (length tx) :: DWORD;
         l1 = (if CMD_BUF_SIZE < unat tx_length then word_of_nat CMD_BUF_SIZE else tx_length);
         p1 = (if CMD_BUF_SIZE < unat tx_length then 1 else 0);
         l2 = (if dwMaxCCIDMessageLength c - 10 < l1 then dwMaxCCIDMessageLength c - 10 else l1);
         p2 = (if dwMaxCCIDMessageLength c - 10 < l1 then 1 else p1) in do {
       (rv, chain, c1) \<leftarrow> send_next_block lib tx l2 p2 c;
       if rv \<noteq> IFD_SUCCESS then Some (rv, rx1, rx_buffer, c1)
       else receive_next_block lib rx1 rx_buffer 0 False chain c1
     })"

subsection \<open>T=0 with a reader that exchanges characters\<close>

text \<open>The pointers and lengths the functions hand each other: \<open>t0_snd\<close> are the bytes from \<^verbatim>\<open>snd_buf\<close> on that are still
  to be sent (\<^verbatim>\<open>snd_len\<close> is their number), \<open>t0_rcv\<close> is the buffer of the caller and \<open>t0_len\<close> is
  \<^verbatim>\<open>*rcv_len\<close>, which is also the distance of \<^verbatim>\<open>rcv_buf\<close> from the start of the buffer, and
  \<open>t0_in\<close> are the \<^verbatim>\<open>in_len\<close> bytes from \<^verbatim>\<open>in_buf\<close> on.\<close>

record t0_exchange =
  t0_snd :: "UCHAR list"
  t0_rcv :: "UCHAR list"
  t0_len :: DWORD
  t0_in :: "UCHAR list"

definition T0CmdParsing :: "UCHAR list \<Rightarrow> LONG \<times> DWORD" where
  "T0CmdParsing cmd =
    (if length cmd = 4 then (IFD_SUCCESS, 2)
     else if length cmd = 5 then (IFD_SUCCESS, if cmd ! 4 \<noteq> 0 then ucast (cmd ! 4) + 2 else 256 + 2)
     else if 5 < length cmd \<and> length cmd = unat (cmd ! 4) + 5 then (IFD_SUCCESS, 2)
     else (IFD_COMMUNICATION_ERROR, 0))"

text \<open>Bytes appended to what was received; the code does not look at the size of the buffer.\<close>

definition rcv_append :: "UCHAR list \<Rightarrow> t0_exchange \<Rightarrow> t0_exchange option" where
  "rcv_append xs s =
    (if length (t0_rcv s) < unat (t0_len s) + length xs then None
     else Some (s\<lparr>t0_rcv := store (unat (t0_len s)) xs (t0_rcv s), t0_len := t0_len s + word_of_nat (length xs)\<rparr>))"

text \<open>One request for \<open>n\<close> bytes, which are stored from position \<open>p\<close> of the array on.\<close>

definition fetch :: "'u libusb \<Rightarrow> UCHAR list \<Rightarrow> DWORD \<Rightarrow> nat \<Rightarrow> UCHAR list \<Rightarrow> 'u ccid \<Rightarrow> (LONG \<times> DWORD \<times> UCHAR list \<times> 'u ccid) option" where
  "fetch lib out n p tmp c = do {
     (rv, c1) \<leftarrow> CCID_Transmit lib 0 (Some out) (ucast n) 0 c;
     if rv \<noteq> IFD_SUCCESS then Some (rv, n, tmp, c1)
     else do {
       (rv, m, b, chain, c2) \<leftarrow> CCID_Receive lib n (Some (drop p tmp)) c1;
       Some (rv, m, take p tmp @ the b, c2)
     }
   }"

definition T0ProcACK_receive :: "'u libusb \<Rightarrow> t0_exchange \<Rightarrow> DWORD \<Rightarrow> 'u ccid \<Rightarrow> (LONG \<times> t0_exchange \<times> 'u ccid) option" where
  "T0ProcACK_receive lib s remain_len c = do {
     (rv, ret_len, tmp_buf, c1) \<leftarrow>
       (if remain_len \<noteq> 0 \<and> (remain_len + 10) mod 64 = 0 then do {
          (rv, n, tmp, c1) \<leftarrow> fetch lib (t0_snd s) 1 0 (replicate 512 0) c;
          if rv \<noteq> IFD_SUCCESS then Some (rv, n, tmp, c1)
          else do {
            (rv, m, tmp1, c2) \<leftarrow> fetch lib (t0_snd s) (remain_len - 1) 1 tmp c1;
            Some (rv, m + 1, tmp1, c2)
          }
        }
        else fetch lib (t0_snd s) remain_len 0 (replicate 512 0) c);
     if rv \<noteq> IFD_SUCCESS then Some (rv, s, c1)
     else if 512 < unat remain_len then None
     else do {
       s1 \<leftarrow> rcv_append (take (unat remain_len) tmp_buf) s;
       Some (if ret_len \<noteq> remain_len then IFD_COMMUNICATION_ERROR else IFD_SUCCESS, s1, c1)
     }
   }"

definition T0ProcACK :: "'u libusb \<Rightarrow> t0_exchange \<Rightarrow> DWORD \<Rightarrow> bool \<Rightarrow> 'u ccid \<Rightarrow> (LONG \<times> t0_exchange \<times> 'u ccid) option" where
  "T0ProcACK lib s proc_len is_rcv c =
    (if is_rcv then
       if t0_in s \<noteq> [] then
         if unat proc_len \<le> length (t0_in s) then do {
           s1 \<leftarrow> rcv_append (take (unat proc_len) (t0_in s)) s;
           Some (IFD_SUCCESS, s1\<lparr>t0_in := drop (unat proc_len) (t0_in s)\<rparr>, c)
         }
         else do {
           s1 \<leftarrow> rcv_append (t0_in s) s;
           T0ProcACK_receive lib (s1\<lparr>t0_in := []\<rparr>) (proc_len - word_of_nat (length (t0_in s))) c
         }
       else T0ProcACK_receive lib s proc_len c
     else do {
       (rv, c1) \<leftarrow> CCID_Transmit lib proc_len (Some (t0_snd s)) 1 0 c;
       if rv \<noteq> IFD_SUCCESS then Some (rv, s, c1)
       else Some (IFD_SUCCESS, s\<lparr>t0_snd := drop (unat proc_len) (t0_snd s)\<rparr>, c1)
     })"

definition T0ProcSW1 :: "'u libusb \<Rightarrow> t0_exchange \<Rightarrow> 'u ccid \<Rightarrow> (LONG \<times> t0_exchange \<times> 'u ccid) option" where
  "T0ProcSW1 lib s c = do {
     s1 \<leftarrow> rcv_append [hd (t0_in s)] s;
     if tl (t0_in s) = [] then do {
       (rv, n, tmp, c1) \<leftarrow> fetch lib [] 1 0 (fresh_array 512 c) c;
       if rv \<noteq> IFD_SUCCESS then Some (rv, s1, c1)
       else do { s2 \<leftarrow> rcv_append [tmp ! 0] s1; Some (IFD_SUCCESS, s2, c1) }
     }
     else do { s2 \<leftarrow> rcv_append [t0_in s ! 1] s1; Some (IFD_SUCCESS, s2, c) }
   }"

text \<open>The loop over the procedure bytes of the card; \<open>rv\<close> is \<^verbatim>\<open>return_value\<close>, \<open>tmp\<close> is \<^verbatim>\<open>tmp_buf\<close>.\<close>

partial_function (option) procedure_bytes :: "'u libusb \<Rightarrow> UCHAR list \<Rightarrow> DWORD \<Rightarrow> bool \<Rightarrow> UCHAR list \<Rightarrow> LONG \<Rightarrow> t0_exchange \<Rightarrow> 'u ccid
    \<Rightarrow> (LONG \<times> t0_exchange \<times> 'u ccid) option" where
  "procedure_bytes lib cmd exp_len is_rcv tmp rv s c = do {
     (rv1, tmp1, s1, c1) \<leftarrow>
       (if t0_in s = [] then do {
          (rv1, n, b, chain, c1) \<leftarrow> CCID_Receive lib 1 (Some tmp) c;
          Some (rv1, the b, s\<lparr>t0_in := take (unat n) (the b)\<rparr>, c1)
        }
        else Some (rv, tmp, s, c));
     if t0_in s = [] \<and> rv1 \<noteq> IFD_SUCCESS then Some (rv1, s1, c1)
     else if t0_in s1 = [] then Some (IFD_RESPONSE_TIMEOUT, s1, c1)
     else
       let b = hd (t0_in s1); ins = cmd ! 1; s2 = s1\<lparr>t0_in := tl (t0_in s1)\<rparr> in
       if b = 0x60 then do {
         (rv2, c2) \<leftarrow> CCID_Transmit lib 0 (Some cmd) 1 0 c1;
         if rv2 \<noteq> IFD_SUCCESS then Some (rv2, s1\<lparr>t0_in := []\<rparr>, c2)
         else procedure_bytes lib cmd exp_len is_rcv tmp1 rv2 (s1\<lparr>t0_in := []\<rparr>) c2
       }
       else if b = ins \<or> b = ins XOR 1 then do {
         (rv2, s3, c2) \<leftarrow> T0ProcACK lib s2 (if is_rcv then exp_len - t0_len s2 else word_of_nat (length (t0_snd s2))) is_rcv c1;
         if t0_len s3 = exp_len then Some (rv2, s3, c2)
         else procedure_bytes lib cmd exp_len is_rcv tmp1 rv2 s3 c2
       }
       else if b = ins XOR 0xFF \<or> b = ins XOR 0xFE then do {
         (rv2, s3, c2) \<leftarrow> T0ProcACK lib s2 1 is_rcv c1;
         if rv2 \<noteq> IFD_SUCCESS then Some (rv2, s3, c2)
         else procedure_bytes lib cmd exp_len is_rcv tmp1 rv2 s3 c2
       }
       else if b AND 0xF0 = 0x60 \<or> b AND 0xF0 = 0x90 then T0ProcSW1 lib s1 c1
       else Some (rv1, s1, c1)
   }"

text \<open>The branch of \<^verbatim>\<open>CmdXfrBlockCHAR_T0\<close> for ICCD readers of type A.\<close>

definition char_T0_ICCD_A :: "'u libusb \<Rightarrow> UCHAR list \<Rightarrow> DWORD \<Rightarrow> UCHAR list \<Rightarrow> 'u ccid \<Rightarrow> (LONG \<times> DWORD \<times> UCHAR list \<times> 'u ccid) option" where
  "char_T0_ICCD_A lib out rcv_len rcv_buf c =
    (let k = (if length out = 4 then 4 else 5); rest = drop k out in
     if length out < k then None
     else do {
       (rv, c1) \<leftarrow> CCID_Transmit lib 5 (Some (take k out @ replicate (5 - k) 0)) 0 0 c;
       if rv \<noteq> IFD_SUCCESS then Some (rv, rcv_len, rcv_buf, c1)
       else do {
         (rv, pcbuffer, c2) \<leftarrow> CmdGetSlotStatus lib (fresh_array 10 c) c1;
         if rv \<noteq> IFD_SUCCESS then Some (rv, rcv_len, rcv_buf, c2)
         else do {
           (rv, status, c3) \<leftarrow>
             (if pcbuffer ! 0 \<noteq> 0x20 \<and> rest \<noteq> [] then do {
                (rv, c3) \<leftarrow> CCID_Transmit lib (word_of_nat (length rest)) (Some rest) 0 0 c2;
                if rv \<noteq> IFD_SUCCESS then Some (rv, pcbuffer, c3) else CmdGetSlotStatus lib pcbuffer c3
              }
              else Some (IFD_SUCCESS, pcbuffer, c2));
           if rv \<noteq> IFD_SUCCESS then Some (rv, rcv_len, rcv_buf, c3)
           else do {
             (rv, n, b, chain, c4) \<leftarrow> CCID_Receive lib (if status ! 0 = 0x20 \<and> 2 < rcv_len then 2 else rcv_len) (Some rcv_buf) c3;
             Some (rv, n, the b, c4)
           }
         }
       }
     })"

definition CmdXfrBlockCHAR_T0 :: "'u libusb \<Rightarrow> UCHAR list \<Rightarrow> DWORD \<Rightarrow> UCHAR list \<Rightarrow> 'u ccid
    \<Rightarrow> (LONG \<times> DWORD \<times> UCHAR list \<times> 'u ccid) option" where
  "CmdXfrBlockCHAR_T0 lib out rcv_len rcv_buf c =
    (if bInterfaceProtocol c = ICCD_A then char_T0_ICCD_A lib out rcv_len rcv_buf c
     else
       let (rv, exp_len) = T0CmdParsing out;
           cmd = (if length out = 4 then out @ [0] else take 5 out);
           ins = cmd ! 1 in
       if rv \<noteq> IFD_SUCCESS \<or> ins AND 0xF0 = 0x60 \<or> ins AND 0xF0 = 0x90 then Some (IFD_COMMUNICATION_ERROR, 0, rcv_buf, c)
       else do {
         (rv, c1) \<leftarrow> CCID_Transmit lib 5 (Some cmd) 1 0 c;
         if rv \<noteq> IFD_SUCCESS then Some (rv, 0, rcv_buf, c1)
         else do {
           (rv, s, c2) \<leftarrow> procedure_bytes lib cmd exp_len (length out = 5 \<or> length out = 4) (fresh_array 512 c) IFD_SUCCESS
              \<lparr>t0_snd = drop 5 out, t0_rcv = rcv_buf, t0_len = 0, t0_in = []\<rparr> c1;
           Some (rv, t0_len s, t0_rcv s, c2)
         }
       })"

subsection \<open>Frames\<close>

text \<open>A message of the reader: its type, the length of the data, slot, sequence number, status, error, a third byte
  and the data.\<close>

definition rdr_frame :: "UCHAR \<Rightarrow> UCHAR \<Rightarrow> UCHAR \<Rightarrow> UCHAR \<Rightarrow> UCHAR \<Rightarrow> UCHAR \<Rightarrow> UCHAR list \<Rightarrow> UCHAR list" where
  "rdr_frame kind slot sq status err chain payload =
    [kind] @ i2dw (word_of_nat (length payload)) @ [slot, sq, status, err, chain] @ payload"

lemma length_rdr_frame [simp]: "length (rdr_frame kind slot sq status err chain payload) = 10 + length payload"
  by (simp add: rdr_frame_def)


lemma frame_nth:
  assumes "m = rdr_frame kind slot sq status err chain payload @ rest"
  shows "m ! 6 = sq" and "m ! 7 = status" and "m ! 8 = err" and "m ! 9 = chain"
    and "dw2i m 1 = word_of_nat (length payload)" and "drop 10 m = payload @ rest"
proof -
  show "m ! 6 = sq" "m ! 7 = status" "m ! 8 = err" "m ! 9 = chain" "drop 10 m = payload @ rest"
    unfolding assms by (simp_all add: rdr_frame_def i2dw_def)
  show "dw2i m 1 = word_of_nat (length payload)"
    using dw2i_i2dw [of "[kind]" "word_of_nat (length payload)" "[slot, sq, status, err, chain] @ payload @ rest"]
    unfolding assms by (simp add: rdr_frame_def)
qed

lemma store_prefix: "length xs \<le> length m \<Longrightarrow> store 0 xs m = xs @ drop (length xs) m"
  by (simp add: store_def)

text \<open>The sequence number just used is never taken for that of a duplicate.\<close>

lemma seq_current: "\<not> int (unat sq) < int (unat (sq + 1 :: UCHAR)) - 1"
proof -
  have "unat (sq + 1) \<le> unat sq + 1" by (cases "unat sq + 1 < 256") (simp_all add: unat_word_ariths)
  then show ?thesis by linarith
qed

lemma ReadUSB_frame:
  assumes "usb_bulk_read lib (unat len) (readTimeout c * 1000) (usb c) = (Inr (rdr_frame kind slot sq status err chain payload), u)"
    and "10 + length payload \<le> unat len" and "unat len \<le> length buffer" and "bSeq c = sq + 1"
  shows "ReadUSB lib len buffer c = Some (STATUS_SUCCESS, word_of_nat (10 + length payload),
      rdr_frame kind slot sq status err chain payload @ drop (10 + length payload) buffer, c\<lparr>usb := u\<rparr>)"
proof -
  let ?f = "rdr_frame kind slot sq status err chain payload"
  have tk: "take (unat len) ?f = ?f" using assms(2) by simp
  have s: "store 0 ?f buffer = ?f @ drop (10 + length payload) buffer" using store_prefix [of ?f buffer] assms(2,3) by simp
  have q: "(?f @ drop (10 + length payload) buffer) ! 6 = sq" by (rule frame_nth(1) [OF refl])
  show ?thesis
    using assms seq_current [of sq] q by (simp add: ReadUSB_def read_again.simps tk s Let_def)
qed

lemma unat_small: "k < 2 ^ 32 \<Longrightarrow> unat (word_of_nat k :: DWORD) = k"
  by (simp add: unat_of_nat)

lemma receive_frame:
  assumes "usb_bulk_read lib 272 (readTimeout c * 1000) (usb c) = (Inr (rdr_frame kind slot sq status err chain payload), u)"
    and "length payload \<le> CMD_BUF_SIZE" and "bSeq c = sq + 1" and "bInterfaceProtocol c \<noteq> ICCD_A" and "bInterfaceProtocol c \<noteq> ICCD_B"
    and "\<not> flag status CCID_COMMAND_FAILED" and "\<not> flag status CCID_TIME_EXTENSION"
    and "length payload \<le> unat rx_length" and "length payload \<le> length b"
  shows "CCID_Receive lib rx_length (Some b) c = Some (IFD_SUCCESS, word_of_nat (length payload), Some (store 0 payload b), Some chain, c\<lparr>usb := u\<rparr>)"
proof -
  let ?f = "rdr_frame kind slot sq status err chain payload" and ?n = "word_of_nat (length payload) :: DWORD"
  define m where "m = ?f @ drop (10 + length payload) (fresh_array 272 c)"
  note fn = frame_nth [OF m_def]
  have u: "unat ?n = length payload" "unat (word_of_nat (10 + length payload) :: DWORD) = 10 + length payload"
    by (rule unat_small, use assms(2) in simp)+
  have r: "ReadUSB lib 272 (fresh_array 272 c) c = Some (STATUS_SUCCESS, word_of_nat (10 + length payload), m, c\<lparr>usb := u\<rparr>)"
    using ReadUSB_frame [of lib 272 c kind slot sq status err chain payload u "fresh_array 272 c"] assms(1-3) by (simp add: m_def)
  have lm: "length m = 272" using assms(2) by (simp add: m_def)
  have "\<not> (word_of_nat (10 + length payload) :: DWORD) < 8" using u(2) by (simp add: word_less_nat_alt)
  then have "CCID_Receive lib rx_length (Some b) c = copy_payload (word_of_nat (10 + length payload)) m rx_length (Some b) (c\<lparr>usb := u\<rparr>)"
    using assms(4-7) r fn by (simp add: CCID_Receive_def time_request.simps [of lib rx_length "Some b"])
  moreover have "word_of_nat (10 + length payload) - 10 = ?n" by simp
  moreover have "?n \<le> rx_length" using u(1) assms(8) by (simp add: word_le_nat_alt)
  ultimately show ?thesis
    using fn u(1) lm assms(2,9) by (simp add: copy_payload_def Let_def)
qed

lemma transmit_frame:
  assumes "bInterfaceProtocol c \<noteq> ICCD_A" and "bInterfaceProtocol c \<noteq> ICCD_B" and "unat n \<le> CMD_BUF_SIZE" and "unat n \<le> length b"
  shows "CCID_Transmit lib n (Some b) rx w c =
    (let frame = ccid_message 0x6F w (ucast (rx AND 0xFF)) (ucast (drop_bit 8 rx AND 0xFF)) n c @ take (unat n) b in
     case WriteUSB lib frame (next_seq c) of (ret, c2) \<Rightarrow>
       Some (if ret = STATUS_NO_SUCH_DEVICE then IFD_NO_SUCH_DEVICE else if ret \<noteq> STATUS_SUCCESS then IFD_COMMUNICATION_ERROR else IFD_SUCCESS, c2))"
proof -
  have "read_bytes (Some b) n = Some (take (unat n) b)" using assms(4) by (auto simp: read_bytes_def unat_eq_0 [symmetric])
  then show ?thesis using assms by (simp add: CCID_Transmit_def ccid_message_def Let_def)
qed

end
