(* ===== verification/Towitoko.thy ===== *)
theory Towitoko
  imports Complex_Main Prot Checksum Ccid_Commands
begin

section \<open>ATR and PPS helpers of the CCID driver (ccid: towitoko/atr.c, towitoko/pps.c)\<close>

text \<open>
  The driver has a parser of its own for the answer to reset of a card: \<^verbatim>\<open>ATR_InitFromArray\<close> splits it into the
  interface bytes of up to seven groups, the historical bytes and the check byte, the other functions compute
  parameters from the result. \<^verbatim>\<open>PPS_Exchange\<close> proposes protocol parameters to the card. The parameter of type
  \<^verbatim>\<open>double\<close> is a rational number.

  Shown here: a parsed ATR printed again is the bytes it was parsed from; the driver and the daemon (theory \<open>Atr\<close>) find the same
  default protocol, with one exception; the parser writes outside of its result for an ATR with eight groups.
\<close>

record interface_byte =
  ib_value :: UCHAR
  ib_present :: bool

record ATR_t =
  a_length :: nat
  a_TS :: UCHAR
  a_T0 :: UCHAR
  a_ib :: "interface_byte list list"
  a_TCK :: interface_byte
  a_pn :: nat
  a_hb :: "UCHAR list"
  a_hbn :: nat

abbreviation (input) ATR_OK :: int where "ATR_OK \<equiv> 0"
abbreviation (input) ATR_NOT_FOUND :: int where "ATR_NOT_FOUND \<equiv> 1"
abbreviation (input) ATR_MALFORMED :: int where "ATR_MALFORMED \<equiv> 2"
abbreviation (input) ATR_MAX_PROTOCOLS :: nat where "ATR_MAX_PROTOCOLS \<equiv> 7"
abbreviation (input) ATR_MAX_HISTORICAL :: nat where "ATR_MAX_HISTORICAL \<equiv> 15"
abbreviation (input) ATR_INTERFACE_BYTE_TA :: nat where "ATR_INTERFACE_BYTE_TA \<equiv> 0"
abbreviation (input) ATR_INTERFACE_BYTE_TB :: nat where "ATR_INTERFACE_BYTE_TB \<equiv> 1"
abbreviation (input) ATR_INTERFACE_BYTE_TC :: nat where "ATR_INTERFACE_BYTE_TC \<equiv> 2"
abbreviation (input) ATR_INTERFACE_BYTE_TD :: nat where "ATR_INTERFACE_BYTE_TD \<equiv> 3"
abbreviation (input) ATR_CONVENTION_DIRECT :: int where "ATR_CONVENTION_DIRECT \<equiv> 0"
abbreviation (input) ATR_CONVENTION_INVERSE :: int where "ATR_CONVENTION_INVERSE \<equiv> 1"

text \<open>\<^verbatim>\<open>memset(&atr, 0, sizeof(atr))\<close>\<close>

definition atr_zero :: ATR_t where
  "atr_zero = \<lparr>a_length = 0, a_TS = 0, a_T0 = 0,
     a_ib = replicate 7 (replicate 4 \<lparr>ib_value = 0, ib_present = False\<rparr>), a_TCK = \<lparr>ib_value = 0, ib_present = False\<rparr>,
     a_pn = 0, a_hb = replicate 15 0, a_hbn = 0\<rparr>"

definition ib :: "ATR_t \<Rightarrow> nat \<Rightarrow> nat \<Rightarrow> interface_byte" where
  "ib a i k = a_ib a ! i ! k"

definition set_ib :: "nat \<Rightarrow> nat \<Rightarrow> (interface_byte \<Rightarrow> interface_byte) \<Rightarrow> ATR_t \<Rightarrow> ATR_t" where
  "set_ib i k f a = a\<lparr>a_ib := (a_ib a)[i := (a_ib a ! i)[k := f (a_ib a ! i ! k)]]\<rparr>"

definition atr_num_ib_table :: "nat list" where
  "atr_num_ib_table = [0, 1, 1, 2, 1, 2, 2, 3, 1, 2, 2, 3, 2, 3, 3, 4]"

text \<open>One interface byte of the group \<open>pn\<close>: it is present when the bit that \<open>others\<close> leaves out is set in the last \<open>TDi\<close>. \<open>pointer\<close> is
  the position of the last byte taken.\<close>

definition take_ib :: "UCHAR \<Rightarrow> nat \<Rightarrow> UCHAR list \<Rightarrow> nat \<Rightarrow> UCHAR \<Rightarrow> nat \<times> ATR_t \<Rightarrow> nat \<times> ATR_t" where
  "take_ib others k atr_buffer pn TDi = (\<lambda>(pointer, a).
    if TDi OR others = 0xFF
    then (pointer + 1, set_ib pn k (\<lambda>_. \<lparr>ib_value = atr_buffer ! (pointer + 1), ib_present = True\<rparr>) a)
    else (pointer, set_ib pn k (\<lambda>b. b\<lparr>ib_present := False\<rparr>) a))"

text \<open>The loop. The group \<open>pn\<close> is written before \<open>pn\<close> is compared with the size of the array.\<close>

function ib_loop :: "UCHAR list \<Rightarrow> UCHAR \<Rightarrow> nat \<Rightarrow> nat \<Rightarrow> ATR_t \<Rightarrow> (int \<times> nat \<times> nat \<times> ATR_t) option" where
  "ib_loop atr_buffer TDi pointer pn a =
    (if pointer < length atr_buffer then
       if length atr_buffer \<le> pointer + atr_num_ib_table ! unat (drop_bit 4 (0xF0 AND TDi)) then Some (ATR_MALFORMED, pointer, pn, a)
       else if length (a_ib a) \<le> pn then None
       else
         let (p, a1) = take_ib 0xBF ATR_INTERFACE_BYTE_TC atr_buffer pn TDi
           (take_ib 0xDF ATR_INTERFACE_BYTE_TB atr_buffer pn TDi
             (take_ib 0xEF ATR_INTERFACE_BYTE_TA atr_buffer pn TDi (pointer, a))) in
         if TDi OR 0x7F = 0xFF then
           let TD = atr_buffer ! (p + 1);
               a2 = (set_ib pn ATR_INTERFACE_BYTE_TD (\<lambda>_. \<lparr>ib_value = TD, ib_present = True\<rparr>) a1);
               a3 = a2\<lparr>a_TCK := (a_TCK a2)\<lparr>ib_present := TD AND 0x0F \<noteq> 0\<rparr>\<rparr> in
           if ATR_MAX_PROTOCOLS \<le> pn then Some (ATR_MALFORMED, p + 1, pn, a3)
           else ib_loop atr_buffer TD (p + 1) (pn + 1) a3
         else Some (ATR_OK, p, pn, set_ib pn ATR_INTERFACE_BYTE_TD (\<lambda>b. b\<lparr>ib_present := False\<rparr>) a1)
     else Some (ATR_OK, pointer, pn, a))"
  by pat_completeness auto
termination
  by (relation "measure (\<lambda>(b, TDi, pointer, pn, a). length b - pointer)")
     (auto simp: take_ib_def split: if_splits)

declare ib_loop.simps [simp del]

definition ATR_InitFromArray :: "ATR_t \<Rightarrow> UCHAR list \<Rightarrow> (int \<times> ATR_t) option" where
  "ATR_InitFromArray atr atr_buffer =
    (if length atr_buffer < 2 then Some (ATR_MALFORMED, atr)
     else do {
       (rc, pointer, pn, a) \<leftarrow> ib_loop atr_buffer (atr_buffer ! 1) 1 0
          (atr\<lparr>a_TS := atr_buffer ! 0, a_T0 := atr_buffer ! 1, a_hbn := unat (atr_buffer ! 1 AND 0x0F),
               a_TCK := (a_TCK atr)\<lparr>ib_present := False\<rparr>\<rparr>);
       if rc \<noteq> ATR_OK then Some (rc, a)
       else
         let a1 = a\<lparr>a_pn := pn + 1\<rparr>; p = pointer + a_hbn a1 in
         if length atr_buffer \<le> p then Some (ATR_MALFORMED, a1)
         else
           let a2 = a1\<lparr>a_hb := store 0 (take (a_hbn a1) (drop (pointer + 1) atr_buffer)) (a_hb a1)\<rparr> in
           if ib_present (a_TCK a2) then
             if length atr_buffer \<le> p + 1 then Some (ATR_MALFORMED, a2)
             else Some (ATR_OK, a2\<lparr>a_TCK := (a_TCK a2)\<lparr>ib_value := atr_buffer ! (p + 1)\<rparr>, a_length := p + 2\<rparr>)
           else Some (ATR_OK, a2\<lparr>a_length := p + 1\<rparr>)
     })"

definition ATR_GetConvention :: "ATR_t \<Rightarrow> int \<Rightarrow> int \<times> int" where
  "ATR_GetConvention atr convention =
    (if a_TS atr = 0x3B then (ATR_OK, ATR_CONVENTION_DIRECT)
     else if a_TS atr = 0x3F then (ATR_OK, ATR_CONVENTION_INVERSE)
     else (ATR_MALFORMED, convention))"

datatype atr_integer = ATR_INTEGER_VALUE_FI | ATR_INTEGER_VALUE_DI | ATR_INTEGER_VALUE_II | ATR_INTEGER_VALUE_PI1
  | ATR_INTEGER_VALUE_N | ATR_INTEGER_VALUE_PI2

text \<open>\<open>None\<close> is \<^verbatim>\<open>ATR_NOT_FOUND\<close>.\<close>

definition ATR_GetIntegerValue :: "ATR_t \<Rightarrow> atr_integer \<Rightarrow> UCHAR option" where
  "ATR_GetIntegerValue atr name =
    (let found = (\<lambda>i k f. if ib_present (ib atr i k) then Some (f (ib_value (ib atr i k))) else None) in
     case name of
       ATR_INTEGER_VALUE_FI \<Rightarrow> found 0 ATR_INTERFACE_BYTE_TA (\<lambda>v. drop_bit 4 (v AND 0xF0))
     | ATR_INTEGER_VALUE_DI \<Rightarrow> found 0 ATR_INTERFACE_BYTE_TA (\<lambda>v. v AND 0x0F)
     | ATR_INTEGER_VALUE_II \<Rightarrow> found 0 ATR_INTERFACE_BYTE_TB (\<lambda>v. drop_bit 5 (v AND 0x60))
     | ATR_INTEGER_VALUE_PI1 \<Rightarrow> found 0 ATR_INTERFACE_BYTE_TB (\<lambda>v. v AND 0x1F)
     | ATR_INTEGER_VALUE_PI2 \<Rightarrow> found 1 ATR_INTERFACE_BYTE_TB (\<lambda>v. v)
     | ATR_INTEGER_VALUE_N \<Rightarrow> found 0 ATR_INTERFACE_BYTE_TC (\<lambda>v. v))"

definition atr_f_table :: "nat list" where
  "atr_f_table = [372, 372, 558, 744, 1116, 1488, 1860, 0, 0, 512, 768, 1024, 1536, 2048, 0, 0]"

definition atr_d_table :: "nat list" where
  "atr_d_table = [0, 1, 2, 4, 8, 16, 32, 64, 12, 20, 0, 0, 0, 0, 0, 0]"

definition atr_i_table :: "nat list" where
  "atr_i_table = [25, 50, 100, 0]"

datatype atr_parameter = ATR_PARAMETER_F | ATR_PARAMETER_D | ATR_PARAMETER_I | ATR_PARAMETER_P | ATR_PARAMETER_N

text \<open>Every name of a parameter is found.\<close>

definition ATR_GetParameter :: "ATR_t \<Rightarrow> atr_parameter \<Rightarrow> rat" where
  "ATR_GetParameter atr name =
    (case name of
       ATR_PARAMETER_F \<Rightarrow> (case ATR_GetIntegerValue atr ATR_INTEGER_VALUE_FI of
          Some FI \<Rightarrow> of_nat (atr_f_table ! unat FI) | None \<Rightarrow> 372)
     | ATR_PARAMETER_D \<Rightarrow> (case ATR_GetIntegerValue atr ATR_INTEGER_VALUE_DI of
          Some DI \<Rightarrow> of_nat (atr_d_table ! unat DI) | None \<Rightarrow> 1)
     | ATR_PARAMETER_I \<Rightarrow> (case ATR_GetIntegerValue atr ATR_INTEGER_VALUE_II of
          Some II \<Rightarrow> of_nat (atr_i_table ! unat II) | None \<Rightarrow> 50)
     | ATR_PARAMETER_P \<Rightarrow> (case ATR_GetIntegerValue atr ATR_INTEGER_VALUE_PI2 of
          Some PI2 \<Rightarrow> of_nat (unat PI2)
        | None \<Rightarrow> (case ATR_GetIntegerValue atr ATR_INTEGER_VALUE_PI1 of Some PI1 \<Rightarrow> of_nat (unat PI1) | None \<Rightarrow> 5))
     | ATR_PARAMETER_N \<Rightarrow> (case ATR_GetIntegerValue atr ATR_INTEGER_VALUE_N of
          Some N \<Rightarrow> of_nat (unat N) | None \<Rightarrow> 0))"

text \<open>The result is the protocol; the return code is always \<^verbatim>\<open>ATR_OK\<close>.\<close>

definition ATR_GetDefaultProtocol :: "ATR_t \<Rightarrow> int" where
  "ATR_GetDefaultProtocol atr =
    (let unset = foldl (\<lambda>protocol i. if ib_present (ib atr i ATR_INTERFACE_BYTE_TD) \<and> protocol = -1
             then uint (ib_value (ib atr i ATR_INTERFACE_BYTE_TD) AND 0x0F) else protocol) (-1) [0..<ATR_MAX_PROTOCOLS];
         specific = (if ib_present (ib atr 1 ATR_INTERFACE_BYTE_TA)
             then uint (ib_value (ib atr 1 ATR_INTERFACE_BYTE_TA) AND 0x0F) else unset) in
     if specific = -1 then 0 else specific)"

subsection \<open>Protocol and parameter selection\<close>

abbreviation (input) PPS_OK :: int where "PPS_OK \<equiv> 0"
abbreviation (input) PPS_ICC_ERROR :: int where "PPS_ICC_ERROR \<equiv> 1"
abbreviation (input) PPS_HANDSAKE_ERROR :: int where "PPS_HANDSAKE_ERROR \<equiv> 2"
abbreviation (input) PPS_MAX_LENGTH :: nat where "PPS_MAX_LENGTH \<equiv> 6"

definition PPS_HAS_PPS1 :: "UCHAR list \<Rightarrow> bool" where "PPS_HAS_PPS1 block \<longleftrightarrow> block ! 1 AND 0x10 = 0x10"
definition PPS_HAS_PPS2 :: "UCHAR list \<Rightarrow> bool" where "PPS_HAS_PPS2 block \<longleftrightarrow> block ! 1 AND 0x20 = 0x20"
definition PPS_HAS_PPS3 :: "UCHAR list \<Rightarrow> bool" where "PPS_HAS_PPS3 block \<longleftrightarrow> block ! 1 AND 0x40 = 0x40"

definition PPS_Match :: "UCHAR list \<Rightarrow> nat \<Rightarrow> UCHAR list \<Rightarrow> nat \<Rightarrow> bool" where
  "PPS_Match request len_request confirm len_confirm =
    (if len_request = len_confirm \<and> take len_request request \<noteq> take len_request confirm then False
     else if len_request < len_confirm then False
     else if PPS_HAS_PPS1 confirm \<and> confirm ! 2 \<noteq> request ! 2 then False
     else True)"

definition PPS_GetLength :: "UCHAR list \<Rightarrow> nat" where
  "PPS_GetLength block =
    3 + (if PPS_HAS_PPS1 block then 1 else 0) + (if PPS_HAS_PPS2 block then 1 else 0) + (if PPS_HAS_PPS3 block then 1 else 0)"

definition PPS_GetPCK :: "UCHAR list \<Rightarrow> nat \<Rightarrow> UCHAR" where
  "PPS_GetPCK block n = foldl (\<lambda>pck i. pck XOR block ! i) (block ! 0) [1..<n]"

text \<open>The pointer \<^verbatim>\<open>pps1\<close> is \<^verbatim>\<open>params + 2\<close>, as in the only call. The result: the return code, the parameters and the length of
  the answer, which is left alone when there is none.\<close>

definition PPS_Exchange :: "'u libusb \<Rightarrow> UCHAR list \<Rightarrow> 'u ccid \<Rightarrow> (int \<times> UCHAR list \<times> DWORD option \<times> 'u ccid) option" where
  "PPS_Exchange lib params c =
    (let len_request = PPS_GetLength params;
         params1 = params[len_request - 1 := PPS_GetPCK params (len_request - 1)] in
     do {
       (rv, c1) \<leftarrow> CCID_Transmit lib (word_of_nat len_request) (Some params1) (if isCharLevel c then 4 else 0) 0 c;
       if rv \<noteq> IFD_SUCCESS then Some (PPS_ICC_ERROR, params1, None, c1)
       else do {
         (rv, len_confirm, b, chain, c2) \<leftarrow> CCID_Receive lib (word_of_nat PPS_MAX_LENGTH) (Some (fresh_array PPS_MAX_LENGTH c1)) c1;
         if rv \<noteq> IFD_SUCCESS then Some (PPS_ICC_ERROR, params1, None, c2)
         else
           let confirm = the b;
               ret = (if PPS_Match params1 len_request confirm (unat len_confirm) then PPS_OK else PPS_HANDSAKE_ERROR);
               params2 = params1[2 := 0x11];
               params3 = (if PPS_HAS_PPS1 params2 \<and> PPS_HAS_PPS1 confirm then params2[2 := confirm ! 2] else params2) in
           Some (ret, store 0 (take (unat len_confirm) confirm) params3, Some len_confirm, c2)
       }
     })"


subsection \<open>What the parser leaves behind\<close>

text \<open>Tests of single bits in a byte.\<close>

lemma all8: "(\<forall>n<8. P n) = (P 0 \<and> P 1 \<and> P 2 \<and> P 3 \<and> P 4 \<and> P 5 \<and> P 6 \<and> P (7::nat))"
  by (simp add: numeral_eq_Suc All_less_Suc conj_ac)

lemma byte_ext_iff: "(v = (w :: UCHAR)) = (\<forall>n<8. bit v n = bit w n)"
  by (auto intro: bit_word_eqI)

lemma or_mask: 
  "(v OR 0xEF = (0xFF :: UCHAR)) = bit v 4"
  "(v OR 0xDF = (0xFF :: UCHAR)) = bit v 5"
  "(v OR 0xBF = (0xFF :: UCHAR)) = bit v 6"
  "(v OR 0x7F = (0xFF :: UCHAR)) = bit v 7"
  unfolding byte_ext_iff all8 by (simp_all add: bit_or_iff)

lemma nibble_flags:
  "flag (drop_bit 4 (v :: UCHAR)) 1 = bit v 4"
  "flag (drop_bit 4 (v :: UCHAR)) 2 = bit v 5"
  "flag (drop_bit 4 (v :: UCHAR)) 4 = bit v 6"
  "flag (drop_bit 4 (v :: UCHAR)) 8 = bit v 7"
  unfolding flag_def byte_ext_iff all8 by (simp_all add: bit_and_iff bit_drop_bit_eq)


definition atr_shape :: "ATR_t \<Rightarrow> bool" where
  "atr_shape a \<longleftrightarrow> length (a_ib a) = 7 \<and> (\<forall>g \<in> set (a_ib a). length g = 4) \<and> length (a_hb a) = 15"

lemma atr_zero_shape: "atr_shape atr_zero"
  by (simp add: atr_shape_def atr_zero_def)

lemma shape_row:
  assumes "atr_shape a" and "pn < 7"
  obtains b0 b1 b2 b3 where "a_ib a ! pn = [b0, b1, b2, b3]"
proof -
  have "length (a_ib a ! pn) = 4" using assms by (simp add: atr_shape_def)
  then show ?thesis using that by (auto simp: numeral_eq_Suc length_Suc_conv)
qed

text \<open>The three first bytes of a group.\<close>

definition row_byte :: "bool \<Rightarrow> UCHAR \<Rightarrow> interface_byte \<Rightarrow> interface_byte" where
  "row_byte there v b = (if there then \<lparr>ib_value = v, ib_present = True\<rparr> else b\<lparr>ib_present := False\<rparr>)"

lemma row_byte_simps [simp]:
  "ib_present (row_byte there v b) = there" "there \<Longrightarrow> ib_value (row_byte there v b) = v"
  by (simp_all add: row_byte_def)

lemma take_ib_row:
  assumes "a_ib a ! pn = row" and "pn < length (a_ib a)" and "k < length row"
  shows "take_ib others k buf pn TDi (pointer, a) = (pointer + of_bool (TDi OR others = 0xFF),
    a\<lparr>a_ib := (a_ib a)[pn := row[k := row_byte (TDi OR others = 0xFF) (buf ! (pointer + 1)) (row ! k)]]\<rparr>)"
  using assms by (simp add: take_ib_def set_ib_def row_byte_def)

lemma take_three:
  assumes "a_ib a ! pn = [b0, b1, b2, b3]" and "pn < length (a_ib a)"
    and "take_ib 0xBF 2 buf pn TDi (take_ib 0xDF 1 buf pn TDi (take_ib 0xEF 0 buf pn TDi (pointer, a))) = (p, a1)"
  obtains r0 r1 r2 where "a1 = a\<lparr>a_ib := (a_ib a)[pn := [r0, r1, r2, b3]]\<rparr>" and "pointer \<le> p"
    and "map ib_value (filter ib_present [r0, r1, r2]) = map ((!) buf) [pointer + 1..<p + 1]"
    and "ib_present r0 = bit TDi 4" and "ib_present r0 \<longrightarrow> ib_value r0 = buf ! (pointer + 1)"
    and "p = pointer + of_bool (bit TDi 4) + of_bool (bit TDi 5) + of_bool (bit TDi 6)"
proof -
  define ta where "ta \<longleftrightarrow> TDi OR 0xEF = 0xFF"
  define tb where "tb \<longleftrightarrow> TDi OR 0xDF = 0xFF"
  define tc where "tc \<longleftrightarrow> TDi OR 0xBF = 0xFF"
  define r0 where "r0 = row_byte ta (buf ! (pointer + 1)) b0"
  define r1 where "r1 = row_byte tb (buf ! (pointer + of_bool ta + 1)) b1"
  define r2 where "r2 = row_byte tc (buf ! (pointer + of_bool ta + of_bool tb + 1)) b2"
  have a1: "a1 = a\<lparr>a_ib := (a_ib a)[pn := [r0, r1, r2, b3]]\<rparr>" and p: "p = pointer + of_bool ta + of_bool tb + of_bool tc"
    using assms by (simp_all add: take_ib_row ta_def tb_def tc_def r0_def r1_def r2_def)
  have "map ib_value (filter ib_present [r0, r1, r2]) = map ((!) buf) [pointer + 1..<p + 1]"
    unfolding p r0_def r1_def r2_def by (cases ta; cases tb; cases tc) (simp_all add: upt_conv_Cons)
  moreover have "ib_present r0 = bit TDi 4" by (simp add: r0_def ta_def or_mask)
  moreover have "ib_present r0 \<longrightarrow> ib_value r0 = buf ! (pointer + 1)" by (simp add: r0_def)
  ultimately show ?thesis using that a1 p by (simp add: ta_def tb_def tc_def or_mask)
qed

text \<open>One round of the loop: it takes a group and ends, or goes on with the group that \<open>TDi\<close> announces.\<close>

lemma shape_update: "atr_shape a \<Longrightarrow> length row = 4 \<Longrightarrow> atr_shape (a\<lparr>a_ib := (a_ib a)[pn := row], a_TCK := t\<rparr>)"
  using set_update_subset_insert [of "a_ib a" pn row] by (fastforce simp: atr_shape_def)

lemma ib_loop_round:
  assumes "ib_loop buf TDi p pn a = Some (ATR_OK, p', pn', a')" and "atr_shape a" and "p' < length buf"
  obtains q r0 r1 r2 r3 t where "pn < 7" "p \<le> q" "p < length buf"
    "q = p + of_bool (bit TDi 4) + of_bool (bit TDi 5) + of_bool (bit TDi 6)"
    "map ib_value (filter ib_present [r0, r1, r2]) = map ((!) buf) [p + 1..<q + 1]"
    "ib_present r0 = bit TDi 4" "ib_present r0 \<longrightarrow> ib_value r0 = buf ! (p + 1)" "ib_present r3 = bit TDi 7"
    "atr_shape (a\<lparr>a_ib := (a_ib a)[pn := [r0, r1, r2, r3]], a_TCK := t\<rparr>)"
    "if bit TDi 7 then ib_value r3 = buf ! (q + 1) \<and> ib_loop buf (buf ! (q + 1)) (q + 1) (pn + 1)
         (a\<lparr>a_ib := (a_ib a)[pn := [r0, r1, r2, r3]], a_TCK := t\<rparr>) = Some (ATR_OK, p', pn', a')
     else p' = q \<and> pn' = pn \<and> a' = a\<lparr>a_ib := (a_ib a)[pn := [r0, r1, r2, r3]], a_TCK := t\<rparr>"
proof -
  note unfold = ib_loop.simps [of buf TDi p pn a]
  have lt: "p < length buf" and guard: "\<not> length buf \<le> p + atr_num_ib_table ! unat (drop_bit 4 (0xF0 AND TDi))" "\<not> length (a_ib a) \<le> pn"
    using assms by (auto simp: unfold split: if_splits)
  then have pn: "pn < 7" "pn < length (a_ib a)" using assms(2) by (simp_all add: atr_shape_def)
  obtain b0 b1 b2 b3 where row: "a_ib a ! pn = [b0, b1, b2, b3]" using shape_row [OF assms(2) pn(1)] .
  obtain q a1 where q: "take_ib 0xBF 2 buf pn TDi (take_ib 0xDF 1 buf pn TDi (take_ib 0xEF 0 buf pn TDi (p, a))) = (q, a1)"
    by (metis prod.exhaust)
  obtain r0 r1 r2 where a1: "a1 = a\<lparr>a_ib := (a_ib a)[pn := [r0, r1, r2, b3]]\<rparr>" and three: "p \<le> q"
    "map ib_value (filter ib_present [r0, r1, r2]) = map ((!) buf) [p + 1..<q + 1]"
    "ib_present r0 = bit TDi 4" "ib_present r0 \<longrightarrow> ib_value r0 = buf ! (p + 1)"
    "q = p + of_bool (bit TDi 4) + of_bool (bit TDi 5) + of_bool (bit TDi 6)"
    by (rule take_three [OF row pn(2) q])
  define TD where "TD = buf ! (q + 1)"
  define r3 where "r3 = row_byte (bit TDi 7) TD b3"
  define t where "t = (if bit TDi 7 then (a_TCK a)\<lparr>ib_present := TD AND 0x0F \<noteq> 0\<rparr> else a_TCK a)"
  have set3: "set_ib pn 3 f a1 = a\<lparr>a_ib := (a_ib a)[pn := [r0, r1, r2, f b3]]\<rparr>" for f
    using pn by (simp add: a1 set_ib_def)
  have "if bit TDi 7 then ib_value r3 = buf ! (q + 1) \<and> ib_loop buf (buf ! (q + 1)) (q + 1) (pn + 1)
         (a\<lparr>a_ib := (a_ib a)[pn := [r0, r1, r2, r3]], a_TCK := t\<rparr>) = Some (ATR_OK, p', pn', a')
     else p' = q \<and> pn' = pn \<and> a' = a\<lparr>a_ib := (a_ib a)[pn := [r0, r1, r2, r3]], a_TCK := t\<rparr>"
    using assms(1) lt guard pn
    by (auto simp: unfold q [unfolded One_nat_def] or_mask set3 Let_def r3_def t_def row_byte_def TD_def split: if_splits)
  moreover have "ib_present r3 = bit TDi 7" by (simp add: r3_def)
  moreover have "atr_shape (a\<lparr>a_ib := (a_ib a)[pn := [r0, r1, r2, r3]], a_TCK := t\<rparr>)" by (rule shape_update [OF assms(2)]) simp
  ultimately show ?thesis using that [OF pn(1) three(1) lt three(5,2,3,4)] by blast
qed

subsection \<open>Parsing and printing\<close>

definition group_bytes :: "ATR_t \<Rightarrow> nat \<Rightarrow> UCHAR list" where
  "group_bytes a i = map ib_value (filter ib_present (a_ib a ! i))"

definition atr_bytes :: "ATR_t \<Rightarrow> UCHAR list" where
  "atr_bytes a = [a_TS a, a_T0 a] @ concat (map (group_bytes a) [0..<a_pn a]) @ take (a_hbn a) (a_hb a)
     @ (if ib_present (a_TCK a) then [ib_value (a_TCK a)] else [])"

text \<open>What a finished loop has done.\<close>

definition groups_read :: "UCHAR list \<Rightarrow> nat \<Rightarrow> nat \<Rightarrow> ATR_t \<Rightarrow> nat \<Rightarrow> nat \<Rightarrow> ATR_t \<Rightarrow> bool" where
  "groups_read buf p pn a p' pn' a' \<longleftrightarrow> atr_shape a' \<and> p \<le> p' \<and> pn \<le> pn' \<and> pn' < 7
     \<and> (\<forall>i. i < pn \<or> pn' < i \<longrightarrow> a_ib a' ! i = a_ib a ! i)
     \<and> a_TS a' = a_TS a \<and> a_T0 a' = a_T0 a \<and> a_hbn a' = a_hbn a \<and> a_hb a' = a_hb a
     \<and> concat (map (group_bytes a') [pn..<pn' + 1]) = map ((!) buf) [p + 1..<p' + 1]"

lemma ib_loop_reads:
  "ib_loop buf TDi p pn a = Some (ATR_OK, p', pn', a') \<Longrightarrow> atr_shape a \<Longrightarrow> p' < length buf \<Longrightarrow> groups_read buf p pn a p' pn' a'"
proof (induction "length buf - p" arbitrary: TDi p pn a rule: less_induct)
  case less
  obtain q r0 r1 r2 r3 t where pn: "pn < 7" and le: "p \<le> q" and lt: "p < length buf"
    and bytes: "map ib_value (filter ib_present [r0, r1, r2]) = map ((!) buf) [p + 1..<q + 1]"
    and r3: "ib_present r3 = bit TDi 7" and shape: "atr_shape (a\<lparr>a_ib := (a_ib a)[pn := [r0, r1, r2, r3]], a_TCK := t\<rparr>)"
    and rest: "if bit TDi 7 then ib_value r3 = buf ! (q + 1) \<and> ib_loop buf (buf ! (q + 1)) (q + 1) (pn + 1)
         (a\<lparr>a_ib := (a_ib a)[pn := [r0, r1, r2, r3]], a_TCK := t\<rparr>) = Some (ATR_OK, p', pn', a')
     else p' = q \<and> pn' = pn \<and> a' = a\<lparr>a_ib := (a_ib a)[pn := [r0, r1, r2, r3]], a_TCK := t\<rparr>"
    by (rule ib_loop_round [OF less.prems])
  have row: "a_ib a' ! pn = [r0, r1, r2, r3]" if "a_ib a' ! pn = (a_ib a)[pn := [r0, r1, r2, r3]] ! pn"
    using that pn less.prems(2) by (simp add: atr_shape_def)
  have group: "group_bytes a' pn = map ((!) buf) [p + 1..<q + 1] @ (if bit TDi 7 then [ib_value r3] else [])"
    if "a_ib a' ! pn = [r0, r1, r2, r3]"
    unfolding bytes [symmetric] using that by (simp add: group_bytes_def r3)
  show ?case
  proof (cases "bit TDi 7")
    case False
    with rest have r: "p' = q" "pn' = pn" "a' = a\<lparr>a_ib := (a_ib a)[pn := [r0, r1, r2, r3]], a_TCK := t\<rparr>" by simp_all
    show ?thesis using pn le shape group [OF row] False unfolding groups_read_def r by (simp del: upt_Suc) simp
  next
    case True
    then have ih: "groups_read buf (q + 1) (pn + 1) (a\<lparr>a_ib := (a_ib a)[pn := [r0, r1, r2, r3]], a_TCK := t\<rparr>) p' pn' a'"
      using less.hyps [of "q + 1" "buf ! (q + 1)" "pn + 1", OF _ _ shape less.prems(3)] rest le lt by simp
    then have q: "q + 1 \<le> p'" "pn + 1 \<le> pn'" by (simp_all add: groups_read_def)
    then have "[p + 1..<p' + 1] = [p + 1..<q + 1] @ [q + 1..<p' + 1]"
      using le upt_add_eq_append [of "p + 1" "q + 1" "p' - q"] by simp
    then have split: "[p + 1..<p' + 1] = [p + 1..<q + 1] @ (q + 1) # [q + 2..<p' + 1]" "[pn..<pn' + 1] = pn # [pn + 1..<pn' + 1]"
      using q by (simp_all add: upt_conv_Cons del: upt_Suc)
    have "concat (map (group_bytes a') [pn..<pn' + 1]) = map ((!) buf) [p + 1..<p' + 1]"
      using ih group [OF row] True rest unfolding split by (simp add: groups_read_def del: upt_Suc)
    then show ?thesis using ih le by (auto simp: groups_read_def)
  qed
qed

text \<open>What the parser has done when it succeeds.\<close>

definition atr_header :: "ATR_t \<Rightarrow> UCHAR list \<Rightarrow> ATR_t" where
  "atr_header atr buf = atr\<lparr>a_TS := buf ! 0, a_T0 := buf ! 1, a_hbn := unat (buf ! 1 AND 0x0F), a_TCK := (a_TCK atr)\<lparr>ib_present := False\<rparr>\<rparr>"

lemma ATR_InitFromArray_okE:
  assumes "ATR_InitFromArray atr buf = Some (ATR_OK, a)"
  obtains p pn a1 where "ib_loop buf (buf ! 1) 1 0 (atr_header atr buf) = Some (ATR_OK, p, pn, a1)" "p + a_hbn a1 < length buf"
    "if ib_present (a_TCK a1) then p + a_hbn a1 + 1 < length buf \<and> a = a1\<lparr>a_pn := pn + 1,
          a_hb := store 0 (take (a_hbn a1) (drop (p + 1) buf)) (a_hb a1),
          a_TCK := (a_TCK a1)\<lparr>ib_value := buf ! (p + a_hbn a1 + 1)\<rparr>, a_length := p + a_hbn a1 + 2\<rparr>
        else a = a1\<lparr>a_pn := pn + 1, a_hb := store 0 (take (a_hbn a1) (drop (p + 1) buf)) (a_hb a1), a_length := p + a_hbn a1 + 1\<rparr>"
  using assms by (auto simp: ATR_InitFromArray_def atr_header_def Let_def bind_eq_Some_conv split: if_splits)

lemma map_nth_slice: "n + k \<le> length xs \<Longrightarrow> map ((!) xs) [n..<n + k] = take k (drop n xs)"
  by (rule nth_equalityI) auto

text \<open>C31: Printing a parsed ATR gives back the bytes it was parsed from: TS, T0, the interface bytes of every group, the
  historical bytes and the check byte, in this order; the parser takes no more bytes than it was given.\<close>

theorem atr_parse_print:
  assumes "ATR_InitFromArray atr atr_buffer = Some (ATR_OK, a)" and "atr_shape atr"
  shows "atr_bytes a = take (a_length a) atr_buffer \<and> a_length a \<le> length atr_buffer"
proof -
  define a0 where "a0 = atr_header atr atr_buffer"
  obtain p pn a1 where loop: "ib_loop atr_buffer (atr_buffer ! 1) 1 0 a0 = Some (ATR_OK, p, pn, a1)" and room: "p + a_hbn a1 < length atr_buffer"
    and fin: "if ib_present (a_TCK a1) then p + a_hbn a1 + 1 < length atr_buffer \<and> a = a1\<lparr>a_pn := pn + 1,
          a_hb := store 0 (take (a_hbn a1) (drop (p + 1) atr_buffer)) (a_hb a1),
          a_TCK := (a_TCK a1)\<lparr>ib_value := atr_buffer ! (p + a_hbn a1 + 1)\<rparr>, a_length := p + a_hbn a1 + 2\<rparr>
        else a = a1\<lparr>a_pn := pn + 1, a_hb := store 0 (take (a_hbn a1) (drop (p + 1) atr_buffer)) (a_hb a1), a_length := p + a_hbn a1 + 1\<rparr>"
    unfolding a0_def by (rule ATR_InitFromArray_okE [OF assms(1)])
  then have same: "group_bytes a = group_bytes a1" "a_pn a = pn + 1" "a_hbn a = a_hbn a1" "a_TS a = a_TS a1" "a_T0 a = a_T0 a1"
    by (auto simp: group_bytes_def fun_eq_iff split: if_splits)
  have "atr_shape a0" using assms(2) by (simp add: a0_def atr_header_def atr_shape_def)
  from ib_loop_reads [OF loop this] room have read: "groups_read atr_buffer 1 0 a0 p pn a1" by simp
  then have groups: "concat (map (group_bytes a1) [0..<pn + 1]) = map ((!) atr_buffer) [2..<p + 1]" and "1 \<le> p"
    and hdr: "a_TS a1 = atr_buffer ! 0" "a_T0 a1 = atr_buffer ! 1" and hb: "length (a_hb a1) = 15"
    using assms(2) by (simp_all add: groups_read_def a0_def atr_header_def atr_shape_def numeral_2_eq_2 del: upt_Suc)
  have hbn: "a_hbn a1 \<le> 15"
    using read nibble_le [of "atr_buffer ! 1"] by (simp add: groups_read_def a0_def atr_header_def)
  define h where "h = a_hbn a1"
  have hist: "take h (a_hb a) = map ((!) atr_buffer) [p + 1..<p + 1 + h]"
    using fin room hb hbn by (auto simp: h_def store_prefix map_nth_slice [of "p + 1", simplified] split: if_splits)
  have "[0..<p + 1 + h] = [0, 1] @ [2..<p + 1] @ [p + 1..<p + 1 + h]"
    using \<open>1 \<le> p\<close> upt_add_eq_append [of 0 "p + 1" h] by (simp add: upt_conv_Cons numeral_2_eq_2 del: upt_Suc)
  then have "atr_bytes a = map ((!) atr_buffer) [0..<p + 1 + h] @ (if ib_present (a_TCK a) then [ib_value (a_TCK a)] else [])"
    unfolding atr_bytes_def same hdr groups h_def [symmetric] hist by simp
  also have "\<dots> = map ((!) atr_buffer) [0..<a_length a]"
    using fin by (auto simp: h_def split: if_splits)
  also have "\<dots> = take (a_length a) atr_buffer"
    using fin room by (intro map_nth_slice [of 0, simplified]) (auto split: if_splits)
  finally show ?thesis using fin room by (auto split: if_splits)
qed

definition sample_atr :: "UCHAR list" where
  "sample_atr = [0x3B, 0x95, 0x11, 0x81, 0x21, 0x31, 0x43, 0x44, 0x30, 0x37, 0x87, 0x92]"

lemma sample_atr_parsed: "map_option (\<lambda>(rc, a). (rc, a_length a)) (ATR_InitFromArray atr_zero sample_atr) = Some (ATR_OK, 12)"
  by code_simp

theorem atr_parse_print_witness:
  "\<exists>a. ATR_InitFromArray atr_zero sample_atr = Some (ATR_OK, a) \<and> atr_bytes a = sample_atr"
proof -
  obtain a where a: "ATR_InitFromArray atr_zero sample_atr = Some (ATR_OK, a)" and "a_length a = 12"
    using sample_atr_parsed by auto
  with atr_parse_print [OF a atr_zero_shape] show ?thesis by (simp add: sample_atr_def)
qed


subsection \<open>The default protocol: driver and daemon\<close>

text \<open>The protocol mask of the daemon for a protocol number, and what its decoder finds in the groups from \<open>pn\<close> on.\<close>

definition protocol_mask :: "UCHAR \<Rightarrow> UCHAR" where
  "protocol_mask v = (if v AND 0x0F = 0 then SCARD_PROTOCOL_T0 else SCARD_PROTOCOL_T1)"

definition specific_mode :: "nat \<Rightarrow> nat \<Rightarrow> ATR_t \<Rightarrow> bool" where
  "specific_mode pn pn' a \<longleftrightarrow> pn \<le> 1 \<and> 1 < pn' \<and> ib_present (ib a 1 0)"

definition daemon_choice :: "nat \<Rightarrow> nat \<Rightarrow> ATR_t \<Rightarrow> UCHAR \<Rightarrow> UCHAR" where
  "daemon_choice pn pn' a cur =
    (if specific_mode pn pn' a then protocol_mask (ib_value (ib a 1 0))
     else if cur \<noteq> 0 then cur else if pn < pn' then protocol_mask (ib_value (ib a pn 3)) else 0)"

definition known_protocol :: "UCHAR \<Rightarrow> bool" where
  "known_protocol v \<longleftrightarrow> v AND 0x0F = 0 \<or> v AND 0x0F = 1"

lemma atr_protocols_chosen:
  assumes "atr_protocols i TAi TD pr = Inr pr'"
  shows "fst pr' = (if i = 2 \<and> TAi \<noteq> None then protocol_mask (the TAi) else if fst pr = 0 then protocol_mask TD else fst pr)
    \<and> (i = 2 \<and> TAi \<noteq> None \<longrightarrow> known_protocol (the TAi)) \<and> (fst pr = 0 \<longrightarrow> known_protocol TD) \<and> fst pr' \<noteq> 0"
  using assms by (cases pr) (auto simp: atr_protocols_def protocol_mask_def known_protocol_def Let_def split: if_splits)

lemma ib_loop_empty:
  assumes "ib_loop buf TDi p pn a = Some (ATR_OK, p', pn', a')" and "atr_shape a" and "p' < length buf" and "drop_bit 4 TDi = 0"
  shows "pn' = pn \<and> \<not> ib_present (ib a' pn 3)"
proof -
  have "\<not> bit TDi 7" using nibble_flags(4) [of TDi] assms(4) by (simp add: flag_def)
  then show ?thesis by (rule_tac ib_loop_round [OF assms(1-3)]) (use assms(2) in \<open>simp add: ib_def atr_shape_def\<close>)
qed

lemma ib_loop_agrees:
  assumes "ib_loop buf TDi p pn a = Some (ATR_OK, p', pn', a')" and "atr_shape a" and "p' < length buf"
    and "atr_interface (buffer_bytes buf) (p + 1) (pn + 1) (drop_bit 4 TDi) pr = AtrScanned q\<^sub>0 cur avail"
  shows "cur = daemon_choice pn pn' a' (fst pr)
    \<and> (specific_mode pn pn' a' \<longrightarrow> known_protocol (ib_value (ib a' 1 0)))
    \<and> (fst pr = 0 \<and> pn < pn' \<longrightarrow> known_protocol (ib_value (ib a' pn 3)))
    \<and> (\<forall>i. pn \<le> i \<and> i \<le> pn' \<longrightarrow> ib_present (ib a' i 3) = (i < pn'))"
  using assms
proof (induction "length buf - p" arbitrary: TDi p pn a pr rule: less_induct)
  case less
  obtain q r0 r1 r2 r3 t where pn: "pn < 7" and le: "p \<le> q" and lt: "p < length buf"
    and q: "q = p + of_bool (bit TDi 4) + of_bool (bit TDi 5) + of_bool (bit TDi 6)"
    and r0: "ib_present r0 = bit TDi 4" "ib_present r0 \<longrightarrow> ib_value r0 = buf ! (p + 1)"
    and r3: "ib_present r3 = bit TDi 7" and shape: "atr_shape (a\<lparr>a_ib := (a_ib a)[pn := [r0, r1, r2, r3]], a_TCK := t\<rparr>)"
    and rest: "if bit TDi 7 then ib_value r3 = buf ! (q + 1) \<and> ib_loop buf (buf ! (q + 1)) (q + 1) (pn + 1)
         (a\<lparr>a_ib := (a_ib a)[pn := [r0, r1, r2, r3]], a_TCK := t\<rparr>) = Some (ATR_OK, p', pn', a')
     else p' = q \<and> pn' = pn \<and> a' = a\<lparr>a_ib := (a_ib a)[pn := [r0, r1, r2, r3]], a_TCK := t\<rparr>"
    by (rule ib_loop_round [OF less.prems(1-3)])
  show ?case
  proof (cases "bit TDi 7")
    case False
    with rest have r: "p' = q" "pn' = pn" "a' = a\<lparr>a_ib := (a_ib a)[pn := [r0, r1, r2, r3]], a_TCK := t\<rparr>" by simp_all
    have "cur = fst pr" using less.prems(4) False
      by (simp add: atr_interface.simps [of _ "Suc p"] atr_group_def nibble_flags Let_def split: if_splits)
    then show ?thesis using False pn less.prems(2) r3
      by (auto simp: r daemon_choice_def specific_mode_def ib_def atr_shape_def)
  next
    case True
    define TD where "TD = buf ! (q + 1)"
    define a1 where "a1 = a\<lparr>a_ib := (a_ib a)[pn := [r0, r1, r2, r3]], a_TCK := t\<rparr>"
    define TA where "TA = (if bit TDi 4 then Some (buf ! (p + 1)) else None)"
    from rest True have TD: "ib_value r3 = TD" and loop: "ib_loop buf TD (q + 1) (pn + 1) a1 = Some (ATR_OK, p', pn', a')"
      by (simp_all add: TD_def a1_def)
    have shape1: "atr_shape a1" using shape by (simp add: a1_def)
    have read: "groups_read buf (q + 1) (pn + 1) a1 p' pn' a'" by (rule ib_loop_reads [OF loop shape1 less.prems(3)])
    then have q': "q + 1 < length buf" and pn': "pn < pn'" using less.prems(3) by (simp_all add: groups_read_def)
    have "a_ib a' ! pn = [r0, r1, r2, r3]" using read pn less.prems(2) by (simp add: groups_read_def a1_def atr_shape_def)
    then have row: "ib a' pn 0 = r0" "ib a' pn 3 = r3" by (simp_all add: ib_def)
    have group: "atr_group (buffer_bytes buf) (p + 1) (drop_bit 4 TDi) = (TA, Some TD, q + 2)"
      using True q' by (cases "bit TDi 4"; cases "bit TDi 5"; cases "bit TDi 6")
        (simp_all add: atr_group_def nibble_flags Let_def q TA_def TD_def buffer_bytes_def)
    obtain pr' where pr': "atr_protocols (pn + 1) TA TD pr = Inr pr'"
      and next_group: "if drop_bit 4 TD = 0 then cur = fst pr'
        else atr_interface (buffer_bytes buf) (q + 1 + 1) (pn + 1 + 1) (drop_bit 4 TD) pr' = AtrScanned q\<^sub>0 cur avail"
      using less.prems(4) group [simplified]
      by (auto simp: atr_interface.simps [of _ "Suc p"] split: sum.splits if_splits)
    have tail: "cur = daemon_choice (pn + 1) pn' a' (fst pr')
      \<and> (specific_mode (pn + 1) pn' a' \<longrightarrow> known_protocol (ib_value (ib a' 1 0)))
      \<and> (\<forall>i. pn + 1 \<le> i \<and> i \<le> pn' \<longrightarrow> ib_present (ib a' i 3) = (i < pn'))"
    proof (cases "drop_bit 4 TD = 0")
      case True
      with ib_loop_empty [OF loop shape1 less.prems(3)] next_group show ?thesis
        using le_antisym by (auto simp: daemon_choice_def specific_mode_def)
    next
      case False
      with less.hyps [OF _ loop shape1 less.prems(3), of pr'] next_group le lt show ?thesis by simp
    qed
    note chosen = atr_protocols_chosen [OF pr']
    have TA: "TA \<noteq> None \<longleftrightarrow> ib_present r0" "ib_present r0 \<Longrightarrow> the TA = ib_value r0" using r0 by (simp_all add: TA_def)
    have later: "specific_mode pn pn' a' \<longleftrightarrow> specific_mode (pn + 1) pn' a' \<or> pn = 1 \<and> ib_present r0"
      using row pn' by (cases pn) (auto simp: specific_mode_def)
    have "cur = daemon_choice pn pn' a' (fst pr)"
      using tail chosen later TA row TD pn' by (auto simp: daemon_choice_def)
    moreover have "specific_mode pn pn' a' \<longrightarrow> known_protocol (ib_value (ib a' 1 0))"
      using tail chosen later TA row by auto
    moreover have "fst pr = 0 \<longrightarrow> known_protocol (ib_value (ib a' pn 3))" using chosen by (simp add: row TD)
    moreover have "ib_present (ib a' i 3) = (i < pn')" if "pn \<le> i" "i \<le> pn'" for i
      using tail that row r3 True pn' by (cases "i = pn") auto
    ultimately show ?thesis by blast
  qed
qed


lemma uint_not_minus: "uint (w :: 'a::len word) \<noteq> -1"
  using uint_nonnegative [of w] by linarith

lemma first_td:
  assumes "\<And>i. i < 7 \<Longrightarrow> ib_present (ib a i 3) = (i < n)"
  shows "foldl (\<lambda>protocol i. if ib_present (ib a i 3) \<and> protocol = -1 then uint (ib_value (ib a i 3) AND 0x0F) else protocol) (-1) [0..<7]
    = (if n = 0 then -1 else uint (ib_value (ib a 0 3) AND 0x0F))"
proof -
  have "[0..<7] = [0, 1, 2, 3, 4, 5, 6 :: nat]" by (simp add: upt_rec)
  then show ?thesis by (simp add: assms uint_not_minus)
qed

text \<open>C30: The driver and the daemon have a decoder for the ATR each, and they find the same default protocol in every ATR that both
  accept, T=0 or T=1, provided that \<open>TA2\<close> is not the last interface byte group.\<close>

theorem default_protocol_agrees:
  assumes "ATR_InitFromArray atr_zero buf = Some (ATR_OK, a)" and "PHGetDefaultProtocol buf (word_of_nat (length buf)) \<noteq> 0"
    and "ib_present (ib a 1 ATR_INTERFACE_BYTE_TA) \<longrightarrow> ib_present (ib a 1 ATR_INTERFACE_BYTE_TD)"
  shows "ATR_GetDefaultProtocol a \<in> {0, 1} \<and> PHGetDefaultProtocol buf (word_of_nat (length buf))
    = (if ATR_GetDefaultProtocol a = 0 then SCARD_PROTOCOL_T0 else SCARD_PROTOCOL_T1)"
proof -
  let ?n = "word_of_nat (length buf) :: DWORD"
  obtain p pn a1 where loop: "ib_loop buf (buf ! 1) 1 0 (atr_header atr_zero buf) = Some (ATR_OK, p, pn, a1)"
    and room: "p + a_hbn a1 < length buf" and "a_ib a = a_ib a1"
    by (rule ATR_InitFromArray_okE [OF assms(1)]) (auto split: if_splits)
  then have ib: "ib a = ib a1" by (simp add: ib_def fun_eq_iff)
  have shape: "atr_shape (atr_header atr_zero buf)" using atr_zero_shape by (simp add: atr_shape_def atr_header_def)
  have read: "groups_read buf 1 0 (atr_header atr_zero buf) p pn a1" by (rule ib_loop_reads [OF loop shape]) (use room in simp)
  have len: "2 \<le> length buf" using read room by (simp add: groups_read_def)
  from assms(2) obtain e where dec: "ATRDecodeAtr extension_zero (buffer_bytes buf) ?n = (1, e)"
    and ph: "PHGetDefaultProtocol buf ?n = CurrentProtocol e"
    using PHGet_zero_or_decoded [of buf ?n] by blast
  obtain q cur avail where scan: "atr_interface (buffer_bytes buf) 2 1 (drop_bit 4 (buffer_bytes buf 1)) (0, 0) = AtrScanned q cur avail"
    and e: "CurrentProtocol e = (if cur = 0 then 1 else cur)"
    by (rule ATRDecodeAtr_successE [OF dec]) (auto simp: atr_finish_def atr_store_value_def atr_store_history_def Let_def)
  have agree: "cur = daemon_choice 0 pn a1 0 \<and> (specific_mode 0 pn a1 \<longrightarrow> known_protocol (ib_value (ib a1 1 0)))
    \<and> (0 < pn \<longrightarrow> known_protocol (ib_value (ib a1 0 3))) \<and> (\<forall>i \<le> pn. ib_present (ib a1 i 3) = (i < pn))"
    using ib_loop_agrees [OF loop shape, of "(0, 0)" q cur avail] scan room len by (simp add: buffer_bytes_def numeral_2_eq_2)
  have present: "ib_present (ib a1 i 3) = (i < pn)" if "i < 7" for i
    using agree read that by (cases "i \<le> pn") (auto simp: groups_read_def ib_def atr_header_def atr_zero_def)
  have td: "foldl (\<lambda>protocol i. if ib_present (ib a1 i 3) \<and> protocol = -1 then uint (ib_value (ib a1 i 3) AND 0x0F) else protocol) (-1) [0..<7]
      = (if pn = 0 then -1 else uint (ib_value (ib a1 0 3) AND 0x0F))"
    by (rule first_td) (rule present)
  have spec: "specific_mode 0 pn a1 \<longleftrightarrow> ib_present (ib a1 1 0)"
    using assms(3) agree read by (cases "1 \<le> pn") (auto simp: specific_mode_def ib groups_read_def ib_def atr_header_def atr_zero_def)
  have driver: "ATR_GetDefaultProtocol a = (if ib_present (ib a1 1 0) then uint (ib_value (ib a1 1 0) AND 0x0F)
      else if pn = 0 then 0 else uint (ib_value (ib a1 0 3) AND 0x0F))"
    unfolding ATR_GetDefaultProtocol_def ib td by (simp add: uint_not_minus Let_def)
  have choice: "CurrentProtocol e = (if ib_present (ib a1 1 0) then protocol_mask (ib_value (ib a1 1 0))
      else if pn = 0 then 1 else protocol_mask (ib_value (ib a1 0 3)))"
    using agree spec by (simp add: e daemon_choice_def protocol_mask_def)
  have known: "ib_present (ib a1 1 0) \<Longrightarrow> known_protocol (ib_value (ib a1 1 0))" "0 < pn \<Longrightarrow> known_protocol (ib_value (ib a1 0 3))"
    using agree spec by simp_all
  have masks: "uint (v AND 0x0F) \<in> {0, 1} \<and> protocol_mask v = (if uint (v AND 0x0F) = 0 then 1 else 2)" if "known_protocol v" for v
    using that by (auto simp: known_protocol_def protocol_mask_def)
  show ?thesis unfolding ph choice driver using masks [OF known(1)] masks [OF known(2)]
    by (cases "pn = 0"; cases "ib_present (ib a1 1 0)") auto
qed

theorem default_protocol_agrees_witness:
  "\<exists>a. ATR_InitFromArray atr_zero sample_atr = Some (ATR_OK, a) \<and> ATR_GetDefaultProtocol a \<in> {0, 1}
     \<and> PHGetDefaultProtocol sample_atr 12 = (if ATR_GetDefaultProtocol a = 0 then SCARD_PROTOCOL_T0 else SCARD_PROTOCOL_T1)"
proof -
  have parsed: "map_option (\<lambda>(rc, a). (rc, ib_present (ib a 1 0))) (ATR_InitFromArray atr_zero sample_atr) = Some (ATR_OK, False)"
    and ph: "PHGetDefaultProtocol sample_atr 12 \<noteq> 0"
    by code_simp+
  from parsed obtain a where "ATR_InitFromArray atr_zero sample_atr = Some (ATR_OK, a)" "\<not> ib_present (ib a 1 0)" by auto
  with default_protocol_agrees [of sample_atr a] ph show ?thesis by (simp add: sample_atr_def)
qed

text \<open>For an ATR with \<open>TA2\<close> but without \<open>TD2\<close> they disagree: the card below is in specific mode T=1, which the driver sees and the
  daemon does not.\<close>

theorem specific_mode_missed:
  "PHGetDefaultProtocol [0x3B, 0x80, 0x10, 0x81] 4 = SCARD_PROTOCOL_T0
   \<and> PHGetAvailableProtocols [0x3B, 0x80, 0x10, 0x81] 4 = SCARD_PROTOCOL_T0
   \<and> map_option (\<lambda>(rc, a). (rc, ATR_GetDefaultProtocol a)) (ATR_InitFromArray atr_zero [0x3B, 0x80, 0x10, 0x81]) = Some (ATR_OK, 1)"
  by code_simp

text \<open>The parser of the driver writes the interface bytes of an eighth group outside of its array: it compares the number of the group with
  the size of the array only after the group was written. The ATR is accepted by the daemon.\<close>

theorem eighth_group_overflow:
  "PHGetDefaultProtocol [0x3B, 0x80, 0x80, 0x80, 0x80, 0x80, 0x80, 0x80, 0x00] 9 = SCARD_PROTOCOL_T0
   \<and> ATR_InitFromArray atr_zero [0x3B, 0x80, 0x80, 0x80, 0x80, 0x80, 0x80, 0x80, 0x00] = None"
  by code_simp


subsection \<open>Protocol and parameter selection\<close>

text \<open>The check byte makes the exclusive or of a request 0.\<close>

lemma xor_fold: "foldl (\<lambda>v i. v XOR block ! i) s is = s XOR foldl (XOR) (0 :: UCHAR) (map ((!) block) is)"
proof (induction "is" arbitrary: s)
  case (Cons i "is")
  then show ?case using Cons.IH [of "s XOR block ! i"] lrc_fold [of "block ! i" "map ((!) block) is"] by (simp add: ac_simps)
qed simp

lemma PCK_is_lrc:
  assumes "0 < n" and "n \<le> length block"
  shows "PPS_GetPCK block n = foldl (XOR) 0 (take n block)"
proof -
  have "take n block = map ((!) block) (0 # [1..<n])"
    using map_nth_slice [of 0 n block] assms by (simp add: upt_conv_Cons)
  then show ?thesis using lrc_fold [of "block ! 0" "map ((!) block) [1..<n]"] by (simp add: PPS_GetPCK_def xor_fold)
qed

lemma PPS_length: "3 \<le> PPS_GetLength block \<and> PPS_GetLength block \<le> 6"
  by (simp add: PPS_GetLength_def)

lemma PPS_length_update: "1 < k \<Longrightarrow> PPS_GetLength (block[k := v]) = PPS_GetLength block"
  by (simp add: PPS_GetLength_def PPS_HAS_PPS1_def PPS_HAS_PPS2_def PPS_HAS_PPS3_def)

lemma PPS_request_checked:
  assumes "length params = 6"
  defines "n \<equiv> PPS_GetLength params"
  shows "foldl (XOR) 0 (take n (params[n - 1 := PPS_GetPCK params (n - 1)])) = 0"
proof -
  have n: "3 \<le> n" "n \<le> 6" using PPS_length n_def by auto
  then have "take n (params[n - 1 := v]) = take (n - 1) params @ [v]" for v
    using assms(1) take_Suc_conv_app_nth [of "n - 1" "params[n - 1 := v]"] by simp
  with PCK_is_lrc [of "n - 1" params] n assms(1) show ?thesis by simp
qed

text \<open>A card that answers the request with the same bytes is taken to agree; a different answer of the same length or
  a longer one is not.\<close>

lemma PPS_Match_exact:
  assumes "n \<le> len_confirm"
  shows "PPS_Match request n confirm len_confirm \<longleftrightarrow> len_confirm = n \<and> take n confirm = take n request
    \<and> (PPS_HAS_PPS1 confirm \<longrightarrow> confirm ! 2 = request ! 2)"
  using assms by (auto simp: PPS_Match_def)

text \<open>A shorter answer is not checked: the card answers a request for T=1 with a confirmation of T=0 and a wrong check byte, and
  the exchange counts as successful.\<close>

theorem PPS_short_answer_accepted:
  "PPS_Match [0xFF, 0x11, 0x95, 0x7B, 0, 0] 4 [0xFF, 0x00, 0x00, 0, 0, 0] 3"
  by code_simp

end
