(* ===== verification/T1.thy ===== *)
theory T1
  imports Checksum Ccid_Commands
begin

section \<open>The T=1 protocol (ccid: openct/proto-t1.c)\<close>

text \<open>
  Blocks, sequence numbers and error recovery of the T=1 transmission protocol as the CCID driver implements
  them. A block is NAD, PCB, LEN, the data and a checksum. \<^verbatim>\<open>t1_transceive\<close> is modelled by one turn of its loop
  (\<open>t1_react\<close>, what is done with the answer of the card) and the loop itself (\<open>t1_loop\<close>), which may run
  forever because a card can reset the retry counter again and again.
\<close>

abbreviation (input) T1_I_BLOCK :: UCHAR where "T1_I_BLOCK \<equiv> 0x00"
abbreviation (input) T1_R_BLOCK :: UCHAR where "T1_R_BLOCK \<equiv> 0x80"
abbreviation (input) T1_S_BLOCK :: UCHAR where "T1_S_BLOCK \<equiv> 0xC0"
abbreviation (input) T1_MORE_BLOCKS :: UCHAR where "T1_MORE_BLOCKS \<equiv> 0x20"
abbreviation (input) T1_EDC_ERROR :: UCHAR where "T1_EDC_ERROR \<equiv> 0x01"
abbreviation (input) T1_OTHER_ERROR :: UCHAR where "T1_OTHER_ERROR \<equiv> 0x02"
abbreviation (input) T1_S_RESPONSE :: UCHAR where "T1_S_RESPONSE \<equiv> 0x20"
abbreviation (input) T1_S_RESYNC :: UCHAR where "T1_S_RESYNC \<equiv> 0"
abbreviation (input) T1_S_IFS :: UCHAR where "T1_S_IFS \<equiv> 1"
abbreviation (input) T1_S_ABORT :: UCHAR where "T1_S_ABORT \<equiv> 2"
abbreviation (input) T1_S_WTX :: UCHAR where "T1_S_WTX \<equiv> 3"
abbreviation (input) T1_BUFFER_SIZE :: nat where "T1_BUFFER_SIZE \<equiv> 259"
abbreviation (input) SENDING :: int where "SENDING \<equiv> 0"
abbreviation (input) RECEIVING :: int where "RECEIVING \<equiv> 1"
abbreviation (input) RESYNCH :: int where "RESYNCH \<equiv> 2"
abbreviation (input) DEAD :: int where "DEAD \<equiv> 3"

text \<open>\<^verbatim>\<open>t1_state_t\<close>; the function pointer \<^verbatim>\<open>checksum\<close> is the function that yields the bytes of the checksum.\<close>

record t1_state =
  t1_lun :: int
  t1_st :: int
  t1_ns :: UCHAR
  t1_nr :: UCHAR
  t1_ifsc :: DWORD
  t1_ifsd :: DWORD
  t1_wtx :: UCHAR
  t1_retries :: DWORD
  t1_rc_bytes :: DWORD
  t1_checksum :: "UCHAR list \<Rightarrow> UCHAR list"
  t1_more :: bool
  t1_previous_block :: "UCHAR list"

datatype t1_param = IFD_PROTOCOL_RECV_TIMEOUT | IFD_PROTOCOL_T1_BLOCKSIZE | IFD_PROTOCOL_T1_CHECKSUM_CRC
  | IFD_PROTOCOL_T1_CHECKSUM_LRC | IFD_PROTOCOL_T1_IFSC | IFD_PROTOCOL_T1_IFSD | IFD_PROTOCOL_T1_STATE
  | IFD_PROTOCOL_T1_MORE

definition t1_set_defaults :: "t1_state \<Rightarrow> t1_state" where
  "t1_set_defaults t1 = t1\<lparr>t1_retries := 3, t1_ifsc := 32, t1_ifsd := 32, t1_nr := 0, t1_ns := 0, t1_wtx := 0\<rparr>"

definition t1_set_checksum :: "t1_state \<Rightarrow> t1_param \<Rightarrow> t1_state" where
  "t1_set_checksum t1 csum =
    (case csum of
       IFD_PROTOCOL_T1_CHECKSUM_LRC \<Rightarrow> t1\<lparr>t1_rc_bytes := 1, t1_checksum := csum_lrc_compute\<rparr>
     | IFD_PROTOCOL_T1_CHECKSUM_CRC \<Rightarrow> t1\<lparr>t1_rc_bytes := 2, t1_checksum := csum_crc_compute\<rparr>
     | _ \<Rightarrow> t1)"

definition t1_set_param :: "t1_state \<Rightarrow> t1_param \<Rightarrow> int \<Rightarrow> int \<times> t1_state" where
  "t1_set_param t1 type value =
    (case type of
       IFD_PROTOCOL_T1_CHECKSUM_LRC \<Rightarrow> (0, t1_set_checksum t1 type)
     | IFD_PROTOCOL_T1_CHECKSUM_CRC \<Rightarrow> (0, t1_set_checksum t1 type)
     | IFD_PROTOCOL_T1_IFSC \<Rightarrow> (0, t1\<lparr>t1_ifsc := word_of_int value\<rparr>)
     | IFD_PROTOCOL_T1_IFSD \<Rightarrow> (0, t1\<lparr>t1_ifsd := word_of_int value\<rparr>)
     | IFD_PROTOCOL_T1_STATE \<Rightarrow> (0, t1\<lparr>t1_st := value\<rparr>)
     | IFD_PROTOCOL_T1_MORE \<Rightarrow> (0, t1\<lparr>t1_more := (word_of_int value :: UCHAR) \<noteq> 0\<rparr>)
     | _ \<Rightarrow> (-1, t1))"

definition t1_init :: "t1_state \<Rightarrow> int \<Rightarrow> t1_state" where
  "t1_init t1 lun =
    (let t = t1_set_defaults t1;
         t = snd (t1_set_param t IFD_PROTOCOL_T1_CHECKSUM_LRC 0);
         t = snd (t1_set_param t IFD_PROTOCOL_T1_STATE SENDING);
         t = snd (t1_set_param t IFD_PROTOCOL_T1_MORE 0) in
     t\<lparr>t1_lun := lun\<rparr>)"

definition t1_release :: "t1_state \<Rightarrow> t1_state" where
  "t1_release t1 = t1"

subsection \<open>Blocks\<close>

definition t1_block_type :: "UCHAR \<Rightarrow> UCHAR" where
  "t1_block_type pcb =
    (if pcb AND 0xC0 = T1_R_BLOCK then T1_R_BLOCK else if pcb AND 0xC0 = T1_S_BLOCK then T1_S_BLOCK else T1_I_BLOCK)"

definition t1_seq :: "UCHAR \<Rightarrow> UCHAR" where
  "t1_seq pcb =
    (if pcb AND 0xC0 = T1_R_BLOCK then drop_bit 4 pcb AND 1 else if pcb AND 0xC0 = T1_S_BLOCK then 0 else drop_bit 6 pcb AND 1)"

definition swap_nibbles :: "DWORD \<Rightarrow> DWORD" where
  "swap_nibbles x = drop_bit 4 x OR push_bit 4 (x AND 0xF)"

definition t1_compute_checksum :: "t1_state \<Rightarrow> UCHAR list \<Rightarrow> nat \<Rightarrow> (nat \<times> UCHAR list) option" where
  "t1_compute_checksum t1 block len =
    (let rc = t1_checksum t1 (take len block) in
     if length block < len + length rc then None else Some (len + length rc, store len rc block))"

text \<open>\<open>bp\<close> is \<open>None\<close> for a null pointer. The results are the protocol state, the block, its length and the number
  of bytes taken from the buffer.\<close>

definition t1_build :: "t1_state \<Rightarrow> UCHAR list \<Rightarrow> UCHAR \<Rightarrow> UCHAR \<Rightarrow> ct_buf option
    \<Rightarrow> (t1_state \<times> UCHAR list \<times> DWORD \<times> DWORD) option" where
  "t1_build t1 block dad pcb bp =
    (let avail = (case bp of None \<Rightarrow> 0 | Some b \<Rightarrow> ct_buf_avail b);
         more = (t1_ifsc t1 < avail);
         pcb1 = (if more then pcb OR T1_MORE_BLOCKS else pcb);
         len = (if more then t1_ifsc t1 else avail);
         kind = t1_block_type pcb1;
         pcb2 = (if kind = T1_R_BLOCK then pcb1 OR push_bit 4 (t1_nr t1)
                 else if kind = T1_I_BLOCK then pcb1 OR push_bit 6 (t1_ns t1) else pcb1);
         t1' = (if kind = T1_I_BLOCK then t1\<lparr>t1_more := more\<rparr> else t1);
         data = (case bp of None \<Rightarrow> [] | Some b \<Rightarrow> take (unat len) (ct_buf_head b)) in
     if length block < 3 + unat len then None
     else do {
       (slen, block1) \<leftarrow> t1_compute_checksum t1 (store 0 ([dad, pcb2, ucast len] @ data) block) (unat len + 3);
       Some (t1'\<lparr>t1_previous_block := take 4 block1\<rparr>, block1, word_of_nat slen, len)
     })"

definition t1_rebuild :: "t1_state \<Rightarrow> UCHAR list \<Rightarrow> DWORD \<times> UCHAR list" where
  "t1_rebuild t1 block =
    (if t1_block_type (t1_previous_block t1 ! 1) = T1_R_BLOCK then (4, store 0 (t1_previous_block t1) block) else (0, block))"

definition t1_verify_checksum :: "t1_state \<Rightarrow> UCHAR list \<Rightarrow> int \<Rightarrow> bool option" where
  "t1_verify_checksum t1 rbuf len =
    (let m = len - uint (t1_rc_bytes t1) in
     if m < 0 then Some False
     else if int (length rbuf) < len then None
     else Some (take (unat (t1_rc_bytes t1)) (drop (nat m) rbuf) = take (unat (t1_rc_bytes t1)) (t1_checksum t1 (take (nat m) rbuf))))"

subsection \<open>Sending a block and receiving the answer\<close>

text \<open>The result is a negative number for an error, the length of the block received, or the error code of
  \<^verbatim>\<open>CCID_Transmit\<close>, which the callers take for a length.\<close>

definition t1_xcv_finish :: "int \<Rightarrow> t1_state \<Rightarrow> UCHAR list \<Rightarrow> DWORD \<Rightarrow> 'u ccid \<Rightarrow> int \<times> t1_state \<times> UCHAR list \<times> 'u ccid" where
  "t1_xcv_finish n t1 block oldReadTimeout c =
    (if 0 \<le> n \<and> int (unat (block ! 2)) + 3 + uint (t1_rc_bytes t1) < n then int (unat (block ! 2)) + 3 + uint (t1_rc_bytes t1) else n,
     t1, block, c\<lparr>readTimeout := oldReadTimeout\<rparr>)"

definition receive_code :: "LONG \<Rightarrow> int" where
  "receive_code n = (if n = IFD_PARITY_ERROR then -2 else -1)"

definition t1_xcv :: "'u libusb \<Rightarrow> t1_state \<Rightarrow> UCHAR list \<Rightarrow> DWORD \<Rightarrow> DWORD \<Rightarrow> 'u ccid
    \<Rightarrow> (int \<times> t1_state \<times> UCHAR list \<times> 'u ccid) option" where
  "t1_xcv lib t1 block slen rmax c =
    (let old = readTimeout c;
         c0 = (if 1 < t1_wtx t1 then c\<lparr>readTimeout := readTimeout c * ucast (t1_wtx t1)\<rparr> else c) in
     if isCharLevel c then do {
       (n, c1) \<leftarrow> CCID_Transmit lib slen (Some block) 3 (t1_wtx t1) c0;
       if n \<noteq> IFD_SUCCESS then Some (n, t1, block, c1)
       else do {
         (n, m, b, chain, c2) \<leftarrow> CCID_Receive lib 3 (Some block) c1;
         if n \<noteq> IFD_SUCCESS then Some (receive_code n, t1, the b, c2)
         else do {
           (n, c3) \<leftarrow> CCID_Transmit lib 0 b (ucast (the b ! 2) + 1) (t1_wtx t1) c2;
           if n \<noteq> IFD_SUCCESS then Some (n, t1, the b, c3)
           else do {
             (n, m, b1, chain, c4) \<leftarrow> CCID_Receive lib (ucast (the b ! 2) + 1) (Some (drop 3 (the b))) c3;
             let block1 = take 3 (the b) @ the b1 in
             if n \<noteq> IFD_SUCCESS then Some (receive_code n, t1, block1, c4)
             else Some (t1_xcv_finish (sint (m + 3)) t1 block1 old c4)
           }
         }
       }
     }
     else do {
       (n, c1) \<leftarrow> CCID_Transmit lib slen (Some block) 0 (t1_wtx t1) c0;
       let t = t1\<lparr>t1_wtx := 0\<rparr> in
       if n \<noteq> IFD_SUCCESS then Some (n, t, block, c1)
       else do {
         (n, m, b, chain, c2) \<leftarrow> CCID_Receive lib rmax (Some block) c1;
         if n \<noteq> IFD_SUCCESS then Some (receive_code n, t, the b, c2)
         else Some (t1_xcv_finish (sint m) t (the b) old c2)
       }
     })"

subsection \<open>The state machine\<close>

text \<open>The local variables of \<^verbatim>\<open>t1_transceive\<close>.\<close>

record t1_run =
  r_t1 :: t1_state
  r_sbuf :: ct_buf
  r_rbuf :: ct_buf
  r_sdata :: "UCHAR list"
  r_slen :: DWORD
  r_retries :: DWORD
  r_resyncs :: DWORD
  r_last_send :: DWORD

datatype 's turn = Again 's | Return int 's

text \<open>A block built into \<^verbatim>\<open>sdata\<close>; \<open>build_command\<close> also records the number of bytes it carries.\<close>

definition build_in :: "UCHAR \<Rightarrow> UCHAR \<Rightarrow> ct_buf option \<Rightarrow> t1_run \<Rightarrow> t1_run option" where
  "build_in dad pcb bp s = do {
     (t, block, slen, n) \<leftarrow> t1_build (r_t1 s) (r_sdata s) dad pcb bp;
     Some (s\<lparr>r_t1 := t, r_sdata := block, r_slen := slen\<rparr>)
   }"

definition build_command :: "UCHAR \<Rightarrow> t1_run \<Rightarrow> t1_run option" where
  "build_command dad s = do {
     (t, block, slen, n) \<leftarrow> t1_build (r_t1 s) (r_sdata s) dad T1_I_BLOCK (Some (r_sbuf s));
     Some (s\<lparr>r_t1 := t, r_sdata := block, r_slen := slen, r_last_send := n\<rparr>)
   }"

text \<open>The label \<^verbatim>\<open>error\<close>.\<close>

definition give_up :: "t1_run \<Rightarrow> t1_run turn" where
  "give_up s = Return (-1) (s\<lparr>r_t1 := (r_t1 s)\<lparr>t1_st := DEAD\<rparr>\<rparr>)"

text \<open>The label \<^verbatim>\<open>resync\<close>.\<close>

definition resync :: "UCHAR \<Rightarrow> t1_run \<Rightarrow> t1_run turn option" where
  "resync dad s =
    (if r_resyncs s = 0 then Some (give_up s)
     else do {
       s1 \<leftarrow> build_in dad (T1_S_BLOCK OR T1_S_RESYNC) None
         (s\<lparr>r_resyncs := r_resyncs s - 1, r_t1 := (r_t1 s)\<lparr>t1_ns := 0, t1_nr := 0\<rparr>\<rparr>);
       Some (Again (s1\<lparr>r_t1 := (r_t1 s1)\<lparr>t1_st := RESYNCH, t1_more := False\<rparr>, r_retries := 1\<rparr>))
     })"

text \<open>An R block is sent: the previous block again if it was one (rule 7.2), else a new one.\<close>

definition repeat_or_R :: "UCHAR \<Rightarrow> UCHAR \<Rightarrow> t1_run \<Rightarrow> t1_run turn option" where
  "repeat_or_R dad err s =
    (if t1_block_type (t1_previous_block (r_t1 s) ! 1) = T1_R_BLOCK then
       (case t1_rebuild (r_t1 s) (r_sdata s) of (slen, block) \<Rightarrow> Some (Again (s\<lparr>r_slen := slen, r_sdata := block\<rparr>)))
     else map_option Again (build_in dad (T1_R_BLOCK OR err) None s))"

text \<open>The reaction to an invalid block: after the last retry (rule 7.4.2) a resynchronisation.\<close>

definition ask_again :: "UCHAR \<Rightarrow> UCHAR \<Rightarrow> t1_run \<Rightarrow> t1_run turn option" where
  "ask_again dad err s = (if r_retries s = 0 then resync dad s else repeat_or_R dad err s)"

text \<open>The end of the loop body: a correct block sets the retries back.\<close>

definition splendid :: "t1_run option \<Rightarrow> t1_run turn option" where
  "splendid r = map_option (\<lambda>s. Again (s\<lparr>r_retries := t1_retries (r_t1 s)\<rparr>)) r"

definition toggle_ns :: "t1_run \<Rightarrow> t1_run" where
  "toggle_ns s = s\<lparr>r_t1 := (r_t1 s)\<lparr>t1_ns := t1_ns (r_t1 s) XOR 1\<rparr>\<rparr>"

text \<open>The block was received: its bytes leave the send buffer.\<close>

definition acknowledged :: "t1_run \<Rightarrow> t1_run" where
  "acknowledged s = (case ct_buf_get (r_sbuf s) (r_last_send s) of (r, xs, b) \<Rightarrow> toggle_ns (s\<lparr>r_sbuf := b, r_last_send := 0\<rparr>))"

definition react_R :: "UCHAR \<Rightarrow> UCHAR \<Rightarrow> t1_run \<Rightarrow> t1_run turn option" where
  "react_R dad pcb s =
    (if r_sdata s ! 2 \<noteq> 0 \<or> flag pcb 0x20 then ask_again dad T1_OTHER_ERROR s
     else if t1_seq pcb \<noteq> t1_ns (r_t1 s) \<and> \<not> t1_more (r_t1 s) then
       if t1_block_type (t1_previous_block (r_t1 s) ! 1) = T1_R_BLOCK then repeat_or_R dad T1_OTHER_ERROR s
       else if r_retries s = 0 then resync dad s else map_option Again (build_in dad (T1_R_BLOCK OR T1_OTHER_ERROR) None s)
     else if t1_st (r_t1 s) = RECEIVING then
       if t1_block_type (t1_previous_block (r_t1 s) ! 1) = T1_R_BLOCK then repeat_or_R dad 0 s
       else splendid (build_in dad T1_R_BLOCK None s)
     else
       let s1 = (if t1_seq pcb \<noteq> t1_ns (r_t1 s) then acknowledged s else s) in
       if ct_buf_avail (r_sbuf s1) = 0 then resync dad s1 else splendid (build_command dad s1))"

definition take_data :: "UCHAR \<Rightarrow> UCHAR \<Rightarrow> t1_run \<Rightarrow> t1_run turn option" where
  "take_data dad pcb s =
    (if t1_seq pcb \<noteq> t1_nr (r_t1 s) then map_option Again (build_in dad (T1_R_BLOCK OR T1_OTHER_ERROR) None s)
     else
       let s1 = s\<lparr>r_t1 := (r_t1 s)\<lparr>t1_nr := t1_nr (r_t1 s) XOR 1\<rparr>\<rparr>;
           n = unat (r_sdata s1 ! 2) in
       if length (r_sdata s1) < 3 + n then None
       else
         (case ct_buf_put (r_rbuf s1) (take n (drop 3 (r_sdata s1))) of (r, b) \<Rightarrow>
          let s2 = s1\<lparr>r_rbuf := b\<rparr> in
          if r < 0 then Some (give_up s2)
          else if \<not> flag pcb T1_MORE_BLOCKS then Some (Return (sint (ct_buf_avail b)) s2)
          else splendid (build_in dad T1_R_BLOCK None s2)))"

definition react_I :: "UCHAR \<Rightarrow> UCHAR \<Rightarrow> t1_run \<Rightarrow> t1_run turn option" where
  "react_I dad pcb s =
    (let s1 = (if t1_st (r_t1 s) = SENDING then acknowledged s else s) in
     take_data dad pcb (s1\<lparr>r_t1 := (r_t1 s1)\<lparr>t1_st := RECEIVING\<rparr>\<rparr>))"

text \<open>The answer to a request of the card carries the same type and data.\<close>

definition S_answer :: "UCHAR \<Rightarrow> UCHAR \<Rightarrow> UCHAR list \<Rightarrow> t1_run \<Rightarrow> t1_run turn option" where
  "S_answer dad pcb data s =
    splendid (build_in dad (T1_S_BLOCK OR T1_S_RESPONSE OR (pcb AND 0x0F)) (Some (snd (ct_buf_put (ct_buf_init (replicate 5 0) 5) data))) s)"

definition react_S :: "UCHAR \<Rightarrow> UCHAR \<Rightarrow> DWORD \<Rightarrow> t1_run \<Rightarrow> t1_run turn option" where
  "react_S dad pcb rcv_len s =
    (let len = r_sdata s ! 2; wrong_length = map_option Again (build_in dad (T1_R_BLOCK OR T1_OTHER_ERROR) None s);
         kind = pcb AND 0x0F; byte = r_sdata s ! 3 in
     if flag pcb T1_S_RESPONSE \<and> t1_st (r_t1 s) = RESYNCH then
       map_option Again (build_command dad (s\<lparr>r_t1 := (r_t1 s)\<lparr>t1_st := SENDING\<rparr>, r_last_send := 0, r_resyncs := 3,
         r_retries := t1_retries (r_t1 s), r_rbuf := ct_buf_init (ct_base (r_rbuf s)) rcv_len\<rparr>))
     else if flag pcb T1_S_RESPONSE then ask_again dad T1_OTHER_ERROR s
     else if kind = T1_S_RESYNC then if len \<noteq> 0 then wrong_length else resync dad s
     else if kind = T1_S_ABORT then if len \<noteq> 0 then wrong_length else S_answer dad pcb [] s
     else if kind = T1_S_IFS then
       if len \<noteq> 1 then wrong_length
       else if byte = 0 then resync dad s
       else S_answer dad pcb [byte] (s\<lparr>r_t1 := (r_t1 s)\<lparr>t1_ifsc := ucast byte\<rparr>\<rparr>)
     else if kind = T1_S_WTX then
       if len \<noteq> 1 then wrong_length else S_answer dad pcb [byte] (s\<lparr>r_t1 := (r_t1 s)\<lparr>t1_wtx := byte\<rparr>\<rparr>)
     else resync dad s)"

text \<open>One turn: what is done with the result \<open>n\<close> of \<^verbatim>\<open>t1_xcv\<close> and the block in \<^verbatim>\<open>sdata\<close>.\<close>

definition t1_react :: "DWORD \<Rightarrow> DWORD \<Rightarrow> int \<Rightarrow> t1_run \<Rightarrow> t1_run turn option" where
  "t1_react dad rcv_len n s =
    (if n = -2 then ask_again (ucast dad) T1_EDC_ERROR s
     else if n < 0 then Some (give_up s)
     else if ucast (r_sdata s ! 0) \<noteq> swap_nibbles dad \<or> r_sdata s ! 2 = 0xFF then ask_again (ucast dad) T1_OTHER_ERROR s
     else do {
       good \<leftarrow> t1_verify_checksum (r_t1 s) (r_sdata s) n;
       if \<not> good then ask_again (ucast dad) T1_EDC_ERROR s
       else
         let pcb = r_sdata s ! 1 in
         if t1_block_type pcb = T1_R_BLOCK then react_R (ucast dad) pcb s
         else if t1_block_type pcb = T1_I_BLOCK then react_I (ucast dad) pcb s
         else react_S (ucast dad) pcb rcv_len s
     })"

partial_function (option) t1_loop :: "'u libusb \<Rightarrow> DWORD \<Rightarrow> DWORD \<Rightarrow> t1_run \<Rightarrow> 'u ccid \<Rightarrow> (int \<times> t1_run \<times> 'u ccid) option" where
  "t1_loop lib dad rcv_len s c = do {
     (n, t, block, c1) \<leftarrow> t1_xcv lib (r_t1 s) (r_sdata s) (r_slen s) 259 c;
     turn \<leftarrow> t1_react dad rcv_len n (s\<lparr>r_retries := r_retries s - 1, r_t1 := t, r_sdata := block\<rparr>);
     (case turn of Return r s1 \<Rightarrow> Some (r, s1, c1) | Again s1 \<Rightarrow> t1_loop lib dad rcv_len s1 c1)
   }"

text \<open>The result: the number returned, the protocol state and the memory of the caller.\<close>

definition t1_transceive :: "'u libusb \<Rightarrow> t1_state \<Rightarrow> DWORD \<Rightarrow> UCHAR list \<Rightarrow> UCHAR list \<Rightarrow> DWORD \<Rightarrow> 'u ccid
    \<Rightarrow> (int \<times> t1_state \<times> UCHAR list \<times> 'u ccid) option" where
  "t1_transceive lib t1 dad snd_buf rcv_buf rcv_len c =
    (if snd_buf = [] \<or> t1_st t1 = DEAD then Some (-1, t1, rcv_buf, c)
     else do {
       s \<leftarrow> build_command (ucast dad) \<lparr>r_t1 = t1\<lparr>t1_st := SENDING\<rparr>, r_sbuf = ct_buf_set snd_buf (word_of_nat (length snd_buf)),
          r_rbuf = ct_buf_init rcv_buf rcv_len, r_sdata = fresh_array T1_BUFFER_SIZE c, r_slen = 0,
          r_retries = t1_retries t1, r_resyncs = 3, r_last_send = 0\<rparr>;
       (r, s1, c1) \<leftarrow> t1_loop lib dad rcv_len s c;
       Some (r, r_t1 s1, ct_base (r_rbuf s1), c1)
     })"

partial_function (option) negotiate_loop :: "'u libusb \<Rightarrow> t1_state \<Rightarrow> DWORD \<Rightarrow> DWORD \<Rightarrow> DWORD \<Rightarrow> UCHAR list \<Rightarrow> 'u ccid
    \<Rightarrow> (int \<times> t1_state \<times> 'u ccid) option" where
  "negotiate_loop lib t1 dad ifsd retries sdata c = do {
     (t, block, slen, k) \<leftarrow> t1_build t1 sdata 0 (T1_S_BLOCK OR T1_S_IFS) (Some (ct_buf_set [ucast ifsd] 1));
     (n, t2, block1, c1) \<leftarrow> t1_xcv lib t block slen 259 c;
     if retries - 1 = 0 \<or> n = -1 then Some (-1, t2\<lparr>t1_st := DEAD\<rparr>, c1)
     else if n = -2 \<or> ucast (block1 ! 3) \<noteq> ifsd \<or> ucast (block1 ! 0) \<noteq> swap_nibbles dad
     then negotiate_loop lib t2 dad ifsd (retries - 1) block1 c1
     else do {
       good \<leftarrow> t1_verify_checksum t2 block1 n;
       if \<not> good \<or> n \<noteq> 4 + uint (t1_rc_bytes t2) \<or> block1 ! 2 \<noteq> 1 \<or> block1 ! 1 \<noteq> T1_S_BLOCK OR T1_S_RESPONSE OR T1_S_IFS
       then negotiate_loop lib t2 dad ifsd (retries - 1) block1 c1
       else Some (n, t2, c1)
     }
   }"

definition t1_negotiate_ifsd :: "'u libusb \<Rightarrow> t1_state \<Rightarrow> DWORD \<Rightarrow> DWORD \<Rightarrow> 'u ccid \<Rightarrow> (int \<times> t1_state \<times> 'u ccid) option" where
  "t1_negotiate_ifsd lib t1 dad ifsd c = negotiate_loop lib t1 dad ifsd (t1_retries t1) (fresh_array T1_BUFFER_SIZE c) c"

end
