(* ===== verification/Ccid_Xfr.thy ===== *)
theory Ccid_Xfr
  imports T1
begin

section \<open>Exchanges with the card and PIN entry (ccid: commands.c)\<close>

text \<open>
  The functions of commands.c that use the T=1 protocol: the choice of the exchange level in \<^verbatim>\<open>CmdXfrBlock\<close> and
  the two commands that let the user enter a PIN on the reader. \<open>t1\<close> is the protocol state kept in the slot
  (\<^verbatim>\<open>get_ccid_slot(reader_index)->t1\<close>).
\<close>

abbreviation (input) GEMPCPINPAD :: DWORD where "GEMPCPINPAD \<equiv> 0x08E63478"
abbreviation (input) DELLSCRK :: DWORD where "DELLSCRK \<equiv> 0x413C2101"
abbreviation (input) DELLSK :: DWORD where "DELLSK \<equiv> 0x413C2100"
abbreviation (input) SPR532 :: DWORD where "SPR532 \<equiv> 0x04E6E003"
abbreviation (input) CHERRYST2000 :: DWORD where "CHERRYST2000 \<equiv> 0x046A003E"
abbreviation (input) CHERRYXX44 :: DWORD where "CHERRYXX44 \<equiv> 0x046A0010"

definition CmdXfrBlockTPDU_T1 :: "'u libusb \<Rightarrow> UCHAR list \<Rightarrow> DWORD \<Rightarrow> UCHAR list \<Rightarrow> t1_state \<Rightarrow> 'u ccid
    \<Rightarrow> (LONG \<times> DWORD \<times> UCHAR list \<times> t1_state \<times> 'u ccid) option" where
  "CmdXfrBlockTPDU_T1 lib tx rx_length rx_buffer t1 c = do {
     (ret, t, b, c1) \<leftarrow> t1_transceive lib t1 0 tx rx_buffer rx_length c;
     Some (if ret < 0 then (IFD_COMMUNICATION_ERROR, rx_length, b, t, c1) else (IFD_SUCCESS, word_of_int ret, b, t, c1))
   }"

text \<open>The exchanges that leave the T=1 state alone.\<close>

definition keep_t1 :: "t1_state \<Rightarrow> (LONG \<times> DWORD \<times> UCHAR list \<times> 'u ccid) option \<Rightarrow> (LONG \<times> DWORD \<times> UCHAR list \<times> t1_state \<times> 'u ccid) option" where
  "keep_t1 t1 r = map_option (\<lambda>(rv, n, b, c). (rv, n, b, t1, c)) r"

definition CmdXfrBlock :: "'u libusb \<Rightarrow> UCHAR list \<Rightarrow> DWORD \<Rightarrow> UCHAR list \<Rightarrow> int \<Rightarrow> t1_state \<Rightarrow> 'u ccid
    \<Rightarrow> (LONG \<times> DWORD \<times> UCHAR list \<times> t1_state \<times> 'u ccid) option" where
  "CmdXfrBlock lib tx rx_length rx_buffer protocol t1 c =
    (let class = dwFeatures c AND CCID_CLASS_EXCHANGE_MASK in
     if class = CCID_CLASS_TPDU then
       if protocol = 0 then keep_t1 t1 (CmdXfrBlockTPDU_T0 lib tx rx_length rx_buffer c)
       else if protocol = 1 then CmdXfrBlockTPDU_T1 lib tx rx_length rx_buffer t1 c
       else Some (IFD_PROTOCOL_NOT_SUPPORTED, rx_length, rx_buffer, t1, c)
     else if class = CCID_CLASS_SHORT_APDU then keep_t1 t1 (CmdXfrBlockTPDU_T0 lib tx rx_length rx_buffer c)
     else if class = CCID_CLASS_EXTENDED_APDU then keep_t1 t1 (CmdXfrBlockAPDU_extended lib tx rx_length rx_buffer c)
     else if class = CCID_CLASS_CHARACTER then
       if protocol = 0 then keep_t1 t1 (CmdXfrBlockCHAR_T0 lib tx rx_length rx_buffer c)
       else if protocol = 1 then CmdXfrBlockTPDU_T1 lib tx rx_length rx_buffer t1 c
       else Some (IFD_PROTOCOL_NOT_SUPPORTED, rx_length, rx_buffer, t1, c)
     else Some (IFD_COMMUNICATION_ERROR, rx_length, rx_buffer, t1, c))"

subsection \<open>PIN entry\<close>

text \<open>A TPDU reader with a T=1 card gets the prologue of the block with the command.\<close>

definition needs_prologue :: "'u ccid \<Rightarrow> bool" where
  "needs_prologue c \<longleftrightarrow> ccid_cardProtocol c = SCARD_PROTOCOL_T1 \<and> dwFeatures c AND CCID_CLASS_EXCHANGE_MASK = CCID_CLASS_TPDU"

definition toggle_both :: "t1_state \<Rightarrow> t1_state" where
  "toggle_both t = t\<lparr>t1_ns := t1_ns t XOR 1, t1_nr := t1_nr t XOR 1\<rparr>"

text \<open>\<open>data\<close> and \<open>teo\<close> are the offsets of \<^verbatim>\<open>abData\<close> and \<^verbatim>\<open>bTeoPrologue\<close>.\<close>

definition add_prologue :: "nat \<Rightarrow> nat \<Rightarrow> UCHAR list \<Rightarrow> t1_state \<Rightarrow> 'u ccid \<Rightarrow> (UCHAR list \<times> t1_state) option" where
  "add_prologue data teo tx t1 c =
    (if needs_prologue c then do {
       (t, block, slen, n) \<leftarrow> t1_build t1 (fresh_array T1_BUFFER_SIZE c) 0 T1_I_BLOCK
          (Some (ct_buf_set (drop data tx) (word_of_nat (length tx - data))));
       Some (store teo (take 3 block) tx, toggle_both t)
     }
     else Some (tx, t1))"

text \<open>The bytes of the PC/SC structure that are part of the CCID message.\<close>

definition select_bytes :: "(nat \<Rightarrow> bool) \<Rightarrow> UCHAR list \<Rightarrow> UCHAR list" where
  "select_bytes keep tx = map (\<lambda>b. tx ! b) (filter keep [0..<length tx])"

definition pin_header :: "UCHAR \<Rightarrow> UCHAR \<Rightarrow> 'u ccid \<Rightarrow> DWORD \<Rightarrow> UCHAR list" where
  "pin_header sq operation c len = [0x69] @ i2dw len @ [bCurrentSlotIndex c, sq, 0, 0, 0, operation]"

text \<open>The end of both functions: the message is sent with a longer timeout and the answer of the card is unwrapped.\<close>

definition pin_exchange :: "'u libusb \<Rightarrow> UCHAR list \<Rightarrow> UCHAR \<Rightarrow> UCHAR list \<Rightarrow> DWORD \<Rightarrow> UCHAR list \<Rightarrow> t1_state \<Rightarrow> 'u ccid
    \<Rightarrow> (LONG \<times> DWORD \<times> UCHAR list \<times> t1_state \<times> 'u ccid) option" where
  "pin_exchange lib cmd timeout tx RxLength RxBuffer t1 c =
    (case WriteUSB lib cmd (c\<lparr>readTimeout := max 30 (ucast timeout + 10)\<rparr>) of (res, c1) \<Rightarrow>
     if res \<noteq> STATUS_SUCCESS then Some (IFD_COMMUNICATION_ERROR, RxLength, RxBuffer, t1, c1\<lparr>readTimeout := readTimeout c\<rparr>)
     else do {
       (ret, n, b, chain, c2) \<leftarrow> CCID_Receive lib RxLength (Some RxBuffer) c1;
       let c3 = c2\<lparr>readTimeout := readTimeout c\<rparr> in
       if ret = IFD_SUCCESS \<and> needs_prologue c then
         if n = 2 then Some (ret, n, the b, toggle_both t1, c3)
         else if unat n < 4 \<or> length (the b) < unat n - 1 then None
         else Some (ret, n - 4, store 0 (take (unat n - 4) (drop 3 (the b))) (the b), t1, c3)
       else Some (ret, n, the b, t1, c3)
     })"

definition fix_verify :: "'u ccid \<Rightarrow> UCHAR list \<Rightarrow> UCHAR list" where
  "fix_verify c tx =
    (let t1 = (if tx ! 7 = 0 \<or> 7 < tx ! 7 then tx[7 := 2] else tx);
         t2 = (if readerID c = GEMPCPINPAD then t1[8 := 1, 7 := 2] else t1);
         t3 = (if readerID c = DELLSCRK \<or> readerID c = DELLSK then t2[8 := 0] else t2) in
     if readerID c = DELLSK then t3[6 := t3 ! 5, 5 := t3 ! 6] else t3)"

text \<open>The results are the return code, the length and contents of the receive buffer and the states; the corrections that the
  source makes in the command buffer of the caller are made in a copy.\<close>

definition SecurePINVerify :: "'u libusb \<Rightarrow> UCHAR list \<Rightarrow> DWORD \<Rightarrow> UCHAR list \<Rightarrow> t1_state \<Rightarrow> 'u ccid
    \<Rightarrow> (LONG \<times> DWORD \<times> UCHAR list \<times> t1_state \<times> 'u ccid) option" where
  "SecurePINVerify lib TxBuffer RxLength RxBuffer t1 c =
    (let c0 = next_seq c in
     if 19 + CMD_BUF_SIZE < length TxBuffer \<or> length TxBuffer < 19 + 4 \<or> dw2i TxBuffer 15 + 19 \<noteq> word_of_nat (length TxBuffer)
     then Some (IFD_NOT_SUPPORTED, RxLength, RxBuffer, t1, c0)
     else do {
       (tx, t) \<leftarrow> add_prologue 19 12 (fix_verify c TxBuffer) t1 c0;
       let body = select_bytes (\<lambda>b. b \<noteq> 1 \<and> \<not> (15 \<le> b \<and> b \<le> 18)) tx;
           cmd = (\<lambda>sq. pin_header sq 0 c (word_of_nat (length body + 1)) @ body) in
       if 11 + 14 + CMD_BUF_SIZE < 11 + length body then None
       else if readerID c = SPR532 \<and> tx ! 3 = 0 \<and> tx ! 15 = 4 then do {
         (rv, n, res, c1) \<leftarrow> CmdEscape lib [0x80, 0x02, 0x00] (fresh_array 1 c) 1 c0;
         if rv \<noteq> IFD_SUCCESS then Some (rv, RxLength, RxBuffer, t, c1)
         else pin_exchange lib (cmd (bSeq c1)) (tx ! 0) tx RxLength RxBuffer t (next_seq c1)
       }
       else pin_exchange lib (cmd (bSeq c)) (tx ! 0) tx RxLength RxBuffer t c0
     })"

definition fix_modify :: "'u ccid \<Rightarrow> UCHAR list \<Rightarrow> UCHAR list" where
  "fix_modify c tx =
    (let t1 = (if tx ! 10 = 0 \<or> 7 < tx ! 10 then tx[10 := 2] else tx);
         t2 = (if readerID c = SPR532 \<or> readerID c = CHERRYST2000 then t1[11 := 3, 16 := 0, 15 := 0, 14 := 0] else t1);
         t3 = (if readerID c = CHERRYXX44 then t2[11 := 3] else t2) in
     if readerID c = GEMPCPINPAD then t3[10 := 2, 11 := 3] else t3)"

definition SecurePINModify :: "'u libusb \<Rightarrow> UCHAR list \<Rightarrow> DWORD \<Rightarrow> UCHAR list \<Rightarrow> t1_state \<Rightarrow> 'u ccid
    \<Rightarrow> (LONG \<times> DWORD \<times> UCHAR list \<times> t1_state \<times> 'u ccid) option" where
  "SecurePINModify lib TxBuffer RxLength RxBuffer t1 c =
    (let c0 = next_seq c in
     if 24 + CMD_BUF_SIZE < length TxBuffer \<or> length TxBuffer < 24 + 4 \<or> dw2i TxBuffer 20 + 24 \<noteq> word_of_nat (length TxBuffer)
       \<or> 3 < TxBuffer ! 11 \<and> TxBuffer ! 11 \<noteq> 0xFF
     then Some (IFD_NOT_SUPPORTED, RxLength, RxBuffer, t1, c0)
     else do {
       (tx, t) \<leftarrow> add_prologue 24 17 (fix_modify c TxBuffer) t1 c0;
       let body = select_bytes (\<lambda>b. b \<noteq> 1 \<and> \<not> (b = 15 \<and> tx ! 11 = 0) \<and> \<not> (b = 16 \<and> tx ! 11 < 3) \<and> \<not> (20 \<le> b \<and> b \<le> 23)) tx;
           cmd0 = pin_header (bSeq c) 1 c (word_of_nat (length body + 1)) @ body;
           cmd1 = (if readerID c = SPR532 \<or> readerID c = CHERRYST2000 then cmd0[21 := 0] else cmd0);
           cmd = (if readerID c = GEMPCPINPAD then cmd1[21 := TxBuffer ! 11] else cmd1) in
       if 11 + 19 + CMD_BUF_SIZE < 11 + length body then None
       else pin_exchange lib cmd (tx ! 0) tx RxLength RxBuffer t c0
     })"

end
