(* ===== verification/C_Strings.thy ===== *)
theory C_Strings
  imports Prelude
begin

section \<open>Strings of C\<close>

text \<open>The functions of the C library on strings, which are lists without the terminating null byte; \<open>None\<close> is a null pointer.\<close>

fun strstr :: "string \<Rightarrow> string \<Rightarrow> string option" where
  "strstr needle [] = (if needle = [] then Some [] else None)"
| "strstr needle (c # cs) = (if take (length needle) (c # cs) = needle then Some (c # cs) else strstr needle cs)"

definition strchr :: "char \<Rightarrow> string \<Rightarrow> string option" where
  "strchr c s = (case dropWhile (\<lambda>x. x \<noteq> c) s of [] \<Rightarrow> None | r \<Rightarrow> Some r)"

definition strrchr :: "char \<Rightarrow> string \<Rightarrow> string option" where
  "strrchr c s = (if c \<in> set s then Some (c # rev (takeWhile (\<lambda>x. x \<noteq> c) (rev s))) else None)"

definition digit_value :: "char \<Rightarrow> nat" where
  "digit_value c =
    (let n = (of_char c :: nat) in
     if 48 \<le> n \<and> n \<le> 57 then n - 48 else if 65 \<le> n \<and> n \<le> 70 then n - 55 else if 97 \<le> n \<and> n \<le> 102 then n - 87 else 16)"

definition digits_value :: "nat \<Rightarrow> string \<Rightarrow> nat" where
  "digits_value base ds = foldl (\<lambda>v c. base * v + digit_value c) 0 ds"

definition is_space :: "char \<Rightarrow> bool" where
  "is_space c \<longleftrightarrow> (of_char c :: nat) \<in> {32, 9, 10, 11, 12, 13}"

text \<open>The sign in front of a number and what follows it.\<close>

definition take_sign :: "string \<Rightarrow> bool \<times> string" where
  "take_sign s = (case s of [] \<Rightarrow> (False, []) | c # cs \<Rightarrow> if c = CHR ''-'' then (True, cs) else if c = CHR ''+'' then (False, cs) else (False, s))"

text \<open>\<^verbatim>\<open>unsigned int\<close> of a magnitude: too large a number is the largest one.\<close>

definition to_unsigned :: "bool \<Rightarrow> nat \<Rightarrow> DWORD" where
  "to_unsigned negative n = (if 2 ^ 32 \<le> n then -1 else if negative then - word_of_nat n else word_of_nat n)"

definition has_0x :: "string \<Rightarrow> bool" where
  "has_0x s \<longleftrightarrow> take 2 s \<in> {''0x'', ''0X''}"

text \<open>The conversion \<^verbatim>\<open>%x\<close> of \<^verbatim>\<open>sscanf\<close>: the number and the rest of the input.\<close>

definition scan_x :: "string \<Rightarrow> (DWORD \<times> string) option" where
  "scan_x s =
    (let (negative, s1) = take_sign (dropWhile is_space s);
         s2 = (if has_0x s1 then drop 2 s1 else s1);
         ds = takeWhile (\<lambda>c. digit_value c < 16) s2 in
     if ds = [] then None else Some (to_unsigned negative (digits_value 16 ds), dropWhile (\<lambda>c. digit_value c < 16) s2))"

text \<open>\<^verbatim>\<open>strtoul(s, NULL, 0)\<close>\<close>

definition strtoul0 :: "string \<Rightarrow> DWORD" where
  "strtoul0 s =
    (let (negative, s1) = take_sign (dropWhile is_space s) in
     if has_0x s1 \<and> digit_value ((drop 2 s1 @ '' '') ! 0) < 16
     then to_unsigned negative (digits_value 16 (takeWhile (\<lambda>c. digit_value c < 16) (drop 2 s1)))
     else if take 1 s1 = ''0'' then to_unsigned negative (digits_value 8 (takeWhile (\<lambda>c. digit_value c < 8) s1))
     else to_unsigned negative (digits_value 10 (takeWhile (\<lambda>c. digit_value c < 10) s1)))"

text \<open>\<^verbatim>\<open>atoi\<close>; a number outside of the range of \<^verbatim>\<open>int\<close> has no result.\<close>

definition atoi :: "string \<Rightarrow> int option" where
  "atoi s =
    (let (negative, s1) = take_sign (dropWhile is_space s);
         n = int (digits_value 10 (takeWhile (\<lambda>c. digit_value c < 10) s1)); v = (if negative then - n else n) in
     if - (2 ^ 31) \<le> v \<and> v < 2 ^ 31 then Some v else None)"

text \<open>\<^verbatim>\<open>strtol(s, NULL, 16)\<close>; a number outside of the range of \<^verbatim>\<open>long\<close> is replaced by its limit.\<close>

definition strtol16 :: "string \<Rightarrow> int" where
  "strtol16 s =
    (let (negative, s1) = take_sign (dropWhile is_space s);
         s2 = (if has_0x s1 \<and> digit_value ((drop 2 s1 @ '' '') ! 0) < 16 then drop 2 s1 else s1);
         n = int (digits_value 16 (takeWhile (\<lambda>c. digit_value c < 16) s2)) in
     max (- (2 ^ 31)) (min (2 ^ 31 - 1) (if negative then - n else n)))"

text \<open>\<^verbatim>\<open>snprintf\<close> into a buffer of \<open>n\<close> bytes, and the conversion \<^verbatim>\<open>%04x\<close> of a 16 bit number.\<close>

definition snprintf :: "nat \<Rightarrow> string \<Rightarrow> string" where
  "snprintf n s = take (n - 1) s"

definition hex_digit :: "16 word \<Rightarrow> char" where
  "hex_digit w = ''0123456789abcdef'' ! unat (w AND 15)"

definition print_04x :: "16 word \<Rightarrow> string" where
  "print_04x w = [hex_digit (drop_bit 12 w), hex_digit (drop_bit 8 w), hex_digit (drop_bit 4 w), hex_digit w]"

text \<open>A number printed so is read back by \<^verbatim>\<open>%x\<close>.\<close>

lemma hex_digit_cases: "\<exists>k < 16. unat (w AND 15) = k \<and> hex_digit w = ''0123456789abcdef'' ! k"
proof -
  have "unat (w AND 15 :: 16 word) \<le> 15" using word_and_le1 [of w 15] by (simp add: word_le_nat_alt)
  then show ?thesis unfolding hex_digit_def by auto
qed

lemma all_16: "(\<forall>k < 16. P k) \<longleftrightarrow> (\<forall>k \<in> set [0..<16]. P (k :: nat))"
  by auto

lemma hex_chars: "\<forall>k < 16. digit_value (''0123456789abcdef'' ! k) = k \<and> \<not> is_space (''0123456789abcdef'' ! k)
    \<and> ''0123456789abcdef'' ! k \<notin> {CHR ''-'', CHR ''+'', CHR ''x'', CHR ''X''}"
  unfolding all_16 by (simp add: upt_rec digit_value_def is_space_def)

lemma hex_digit_facts [simp]:
  "digit_value (hex_digit w) = unat (w AND 15)" "\<not> is_space (hex_digit w)" "hex_digit w \<noteq> CHR ''-''" "hex_digit w \<noteq> CHR ''+''"
  "hex_digit w \<noteq> CHR ''x''" "hex_digit w \<noteq> CHR ''X''" "unat (w AND 15) < 16"
  using hex_digit_cases [of w] hex_chars by auto

lemma unat_nibble: "unat (drop_bit k w AND 15 :: 16 word) = unat w div 2 ^ k mod 16"
proof -
  have "(drop_bit k w AND 15 :: 16 word) = take_bit 4 (drop_bit k w)" by (simp add: take_bit_eq_mask mask_eq_exp_minus_1)
  moreover have "unat (take_bit 4 (drop_bit k w)) = take_bit 4 (drop_bit k (unat w))"
    using unsigned_less [of w, where ?'a = nat] by (simp add: unsigned_take_bit_eq unsigned_drop_bit_eq take_bit_nat_eq_self)
  ultimately show ?thesis by (simp only: take_bit_eq_mod drop_bit_eq_div) simp
qed

lemma four_nibbles: "n < 65536 \<Longrightarrow> 16 * (16 * (16 * (n div 4096 mod 16) + n div 256 mod 16) + n div 16 mod 16) + n mod 16 = (n :: nat)"
proof -
  assume "n < 65536"
  then have "n div 4096 mod 16 = n div 4096" by simp
  moreover have "n div 4096 = n div 256 div 16" "n div 256 = n div 16 div 16" by (simp_all add: div_mult2_eq [symmetric])
  moreover have "16 * (n div 256 div 16) + n div 256 mod 16 = n div 256" "16 * (n div 16 div 16) + n div 16 mod 16 = n div 16"
    "16 * (n div 16) + n mod 16 = n" by simp_all
  ultimately show ?thesis by metis
qed

lemma digits_value_04x: "digits_value 16 (print_04x w) = unat w"
proof -
  have n: "unat w < 65536" using unsigned_less [of w, where ?'a = nat] by simp
  have "unat (w AND 15) = unat w mod 16" using unat_nibble [of 0 w] by simp
  then show ?thesis
    using four_nibbles [OF n] n by (simp add: digits_value_def print_04x_def unat_nibble)
qed

lemma scan_x_04x:
  assumes "rest = [] \<or> 16 \<le> digit_value (hd rest)"
  shows "scan_x (print_04x w @ rest) = Some (ucast w, rest)"
proof -
  let ?p = "print_04x w"
  have sp: "dropWhile is_space (?p @ rest) = ?p @ rest" "take_sign (?p @ rest) = (False, ?p @ rest)" "\<not> has_0x (?p @ rest)"
    by (simp_all add: print_04x_def take_sign_def has_0x_def)
  have tw: "takeWhile (\<lambda>c. digit_value c < 16) rest = []" "dropWhile (\<lambda>c. digit_value c < 16) rest = rest"
    using assms by (cases rest; simp)+
  have ds: "takeWhile (\<lambda>c. digit_value c < 16) (?p @ rest) = ?p" "dropWhile (\<lambda>c. digit_value c < 16) (?p @ rest) = rest"
    using tw by (simp_all add: print_04x_def)
  have "to_unsigned False (unat w) = ucast w"
    using unsigned_less [of w, where ?'a = nat] by (simp add: to_unsigned_def)
  moreover have "?p \<noteq> []" by (simp add: print_04x_def)
  ultimately show ?thesis by (simp add: scan_x_def sp ds digits_value_04x)
qed

end
