(* ===== verification/Ccid_Device.thy ===== *)
theory Ccid_Device
  imports Ccid_Xfr C_Strings
begin

section \<open>Opening and closing readers (ccid: utils.c, ccid\_usb.c)\<close>

text \<open>
  The tables of the CCID driver: \<^verbatim>\<open>ReaderIndex\<close>, which gives a logical unit number its index, \<^verbatim>\<open>CcidSlots\<close> with the
  state of the card in a slot and \<^verbatim>\<open>usbDevice\<close> with the opened devices; and the functions that look up a device on the USB,
  open, describe and close it.

  All devices behind libusb are one state \<open>'u\<close>, the field \<open>usb_world\<close>; \<open>'u usb_system\<close> is libusb: \<open>port\<close> gives the
  transfers of theory \<open>Ccid_Usb\<close> for a handle, an interface and three end points. The slots of one reader share the handle, the
  counter of open slots and the sequence number: these pointers are the index of the entry they point to (\<open>nb_opened_slots\<close>,
  \<open>pbSeq\<close>). The fields \<open>bSeq\<close> and \<open>usb\<close> of the descriptor stored in an entry are not used, \<^verbatim>\<open>get_ccid_descriptor\<close> fills them in.
  The entry knows who allocated its data rates and whether they were freed meanwhile.
  The file Info.plist is a list of values for each key.
\<close>

subsection \<open>The tables\<close>

abbreviation (input) CCID_DRIVER_MAX_READERS :: nat where "CCID_DRIVER_MAX_READERS \<equiv> 16"
abbreviation (input) DEFAULT_COM_READ_TIMEOUT :: DWORD where "DEFAULT_COM_READ_TIMEOUT \<equiv> 2"
abbreviation (input) DRIVER_OPTION_CCID_EXCHANGE_AUTHORIZED :: DWORD where "DRIVER_OPTION_CCID_EXCHANGE_AUTHORIZED \<equiv> 1"
abbreviation (input) DRIVER_OPTION_GEMPC_TWIN_KEY_APDU :: DWORD where "DRIVER_OPTION_GEMPC_TWIN_KEY_APDU \<equiv> 2"
abbreviation (input) DRIVER_OPTION_USE_BOGUS_FIRMWARE :: DWORD where "DRIVER_OPTION_USE_BOGUS_FIRMWARE \<equiv> 4"
abbreviation (input) DRIVER_OPTION_RESET_ON_CLOSE :: DWORD where "DRIVER_OPTION_RESET_ON_CLOSE \<equiv> 8"
abbreviation (input) GEMCORESIMPRO :: DWORD where "GEMCORESIMPRO \<equiv> 0x08E63480"
abbreviation (input) GEMCOREPOSPRO :: DWORD where "GEMCOREPOSPRO \<equiv> 0x08E63479"
abbreviation (input) OZ776 :: DWORD where "OZ776 \<equiv> 0x0B977762"
abbreviation (input) OZ776_7772 :: DWORD where "OZ776_7772 \<equiv> 0x0B977772"
abbreviation (input) REINER_SCT :: DWORD where "REINER_SCT \<equiv> 0x0C4B0300"
abbreviation (input) BLUDRIVEII_CCID :: DWORD where "BLUDRIVEII_CCID \<equiv> 0x1B0E1078"

record CcidDesc =
  nATRLength :: nat
  pcATRBuffer :: "UCHAR list"
  bPowerFlags :: UCHAR
  slot_t1 :: t1_state
  slot_readerName :: "string option"

record 'u usbDevice =
  handle :: "int option"
  dirname :: string
  filename :: string
  dev_interface :: int
  bulk_in :: int
  bulk_out :: int
  interrupt :: int
  real_nb_opened_slots :: int
  nb_opened_slots :: nat
  real_bSeq :: UCHAR
  pbSeq :: nat
  rates_owner :: "nat option"
  rates_freed :: bool
  dev_ccid :: "'u ccid"

record 'u ccid_driver =
  ReaderIndex :: "int list"
  CcidSlots :: "CcidDesc list"
  usbDevices :: "'u usbDevice list"
  previous_reader_index :: "nat option"
  DriverOptions :: DWORD
  PowerOnVoltage :: int
  DebugInitialized :: bool
  usb_world :: 'u

subsection \<open>Logical units (utils.c)\<close>

definition InitReaderIndex :: "'u ccid_driver \<Rightarrow> 'u ccid_driver" where
  "InitReaderIndex d = d\<lparr>ReaderIndex := replicate CCID_DRIVER_MAX_READERS (-1)\<rparr>"

text \<open>\<open>None\<close> is the result -1.\<close>

definition LunToReaderIndex :: "int \<Rightarrow> 'u ccid_driver \<Rightarrow> nat option" where
  "LunToReaderIndex Lun d = first_index (\<lambda>l. Lun = l) (ReaderIndex d)"

definition GetNewReaderIndex :: "int \<Rightarrow> 'u ccid_driver \<Rightarrow> nat option \<times> 'u ccid_driver" where
  "GetNewReaderIndex Lun d =
    (if first_index (\<lambda>l. Lun = l) (ReaderIndex d) \<noteq> None then (None, d)
     else case first_index (\<lambda>l. -1 = l) (ReaderIndex d) of
         Some i \<Rightarrow> (Some i, d\<lparr>ReaderIndex := (ReaderIndex d)[i := Lun]\<rparr>)
       | None \<Rightarrow> (None, d))"

definition ReleaseReaderIndex :: "nat \<Rightarrow> 'u ccid_driver \<Rightarrow> 'u ccid_driver" where
  "ReleaseReaderIndex i d = d\<lparr>ReaderIndex := (ReaderIndex d)[i := -1]\<rparr>"

subsection \<open>libusb\<close>

record usb_endpoint =
  bmAttributes :: UCHAR
  bEndpointAddress :: UCHAR
  ep_extra :: "UCHAR list"

text \<open>An interface in its first alternate setting.\<close>

record usb_interface =
  bInterfaceNumber :: UCHAR
  bInterfaceClass :: UCHAR
  if_bInterfaceProtocol :: UCHAR
  endpoint :: "usb_endpoint list"
  extra :: "UCHAR list"

text \<open>\<open>config\<close> is \<open>None\<close> when the pointer is null, else the interfaces.\<close>

record usb_device =
  dev_filename :: string
  idVendor :: "16 word"
  idProduct :: "16 word"
  bcdDevice :: "16 word"
  config :: "usb_interface list option"

record usb_bus =
  bus_dirname :: string
  devices :: "usb_device list"

text \<open>\<open>usb_busses\<close> stands for \<^verbatim>\<open>usb_find_busses\<close>, \<^verbatim>\<open>usb_find_devices\<close> and \<^verbatim>\<open>usb_get_busses\<close>; the empty list is NULL.\<close>

record 'u usb_system =
  port :: "int \<Rightarrow> int \<Rightarrow> int \<Rightarrow> int \<Rightarrow> int \<Rightarrow> 'u libusb"
  usb_busses :: "'u \<Rightarrow> usb_bus list \<times> 'u"
  usb_open :: "usb_bus \<Rightarrow> usb_device \<Rightarrow> 'u \<Rightarrow> int option \<times> 'u"
  usb_close :: "int \<Rightarrow> 'u \<Rightarrow> 'u"
  usb_reset :: "int \<Rightarrow> 'u \<Rightarrow> 'u"
  usb_claim_interface :: "int \<Rightarrow> int \<Rightarrow> 'u \<Rightarrow> bool \<times> 'u"
  usb_release_interface :: "int \<Rightarrow> int \<Rightarrow> 'u \<Rightarrow> 'u"

definition get_ccid_descriptor :: "nat \<Rightarrow> 'u ccid_driver \<Rightarrow> 'u ccid" where
  "get_ccid_descriptor i d =
    (dev_ccid (usbDevices d ! i))\<lparr>bSeq := real_bSeq (usbDevices d ! pbSeq (usbDevices d ! i)), usb := usb_world d\<rparr>"

text \<open>What was written through the pointer.\<close>

definition put_ccid_descriptor :: "nat \<Rightarrow> 'u ccid \<Rightarrow> 'u ccid_driver \<Rightarrow> 'u ccid_driver" where
  "put_ccid_descriptor i c d =
    (let s = pbSeq (usbDevices d ! i) in
     d\<lparr>usbDevices := upd_at s (\<lambda>x. x\<lparr>real_bSeq := bSeq c\<rparr>) (upd_at i (\<lambda>x. x\<lparr>dev_ccid := c\<rparr>) (usbDevices d)),
       usb_world := usb c\<rparr>)"

text \<open>A function of theories \<open>Ccid_Usb\<close> to \<open>Ccid_Xfr\<close> applied to a reader. A transfer without a handle has no result.\<close>

definition on_port :: "'u usb_system \<Rightarrow> nat \<Rightarrow> ('u libusb \<Rightarrow> 'u ccid \<Rightarrow> ('a \<times> 'u ccid) option) \<Rightarrow> 'u ccid_driver
    \<Rightarrow> ('a \<times> 'u ccid_driver) option" where
  "on_port sys i f d =
    (let dev = usbDevices d ! i in
     case handle dev of
       None \<Rightarrow> None
     | Some h \<Rightarrow> map_option (\<lambda>(r, c). (r, put_ccid_descriptor i c d))
         (f (port sys h (dev_interface dev) (bulk_in dev) (bulk_out dev) (interrupt dev)) (get_ccid_descriptor i d)))"

subsection \<open>Describing a device\<close>

definition usb_readerID :: "usb_device \<Rightarrow> DWORD" where
  "usb_readerID dev = push_bit 16 (ucast (idVendor dev)) + ucast (idProduct dev)"

text \<open>The first interface of the CCID class or of a proprietary class from \<open>num\<close> on. Four readers put the class descriptor behind an end point; the
  source moves it for good, which here is done again by every call.\<close>

definition get_ccid_usb_interface :: "usb_device \<Rightarrow> nat \<Rightarrow> (nat \<times> usb_interface) option" where
  "get_ccid_usb_interface dev num =
    (case config dev of
       None \<Rightarrow> None
     | Some ifs \<Rightarrow>
        (case first_index (\<lambda>f. bInterfaceClass f = 0x0B \<or> bInterfaceClass f = 0xFF) (drop num ifs) of
           None \<Rightarrow> None
         | Some k \<Rightarrow>
            let f = ifs ! (num + k) in
            if usb_readerID dev \<in> {OZ776, OZ776_7772, REINER_SCT, BLUDRIVEII_CCID} \<and> extra f = [] then
              (case first_index (\<lambda>e. length (ep_extra e) = 54) (endpoint f) of
                 Some j \<Rightarrow> Some (num + k, f\<lparr>extra := ep_extra (endpoint f ! j), endpoint := (endpoint f)[j := (endpoint f ! j)\<lparr>ep_extra := []\<rparr>]\<rparr>)
               | None \<Rightarrow> Some (num + k, f))
            else Some (num + k, f)))"

lemma get_ccid_usb_interface_bound:
  assumes "get_ccid_usb_interface dev num = Some (n, f)" and "config dev = Some ifs"
  shows "num \<le> n \<and> n < length ifs"
proof -
  from assms obtain k where k: "first_index (\<lambda>f. bInterfaceClass f = 0x0B \<or> bInterfaceClass f = 0xFF) (drop num ifs) = Some k"
    and n: "n = num + k"
    by (auto simp: get_ccid_usb_interface_def Let_def split: option.splits if_splits)
  from first_index_SomeD [OF k] n show ?thesis by auto
qed

definition get_end_points :: "usb_interface \<Rightarrow> 'u usbDevice \<Rightarrow> 'u usbDevice" where
  "get_end_points f dev =
    foldl (\<lambda>x e.
       if bmAttributes e = 3 then x\<lparr>interrupt := uint (bEndpointAddress e)\<rparr>
       else if bmAttributes e \<noteq> 2 then x
       else if bEndpointAddress e AND 0x80 = 0x80 then x\<lparr>bulk_in := uint (bEndpointAddress e)\<rparr>
       else x\<lparr>bulk_out := uint (bEndpointAddress e)\<rparr>) dev (endpoint f)"

definition Bogus_firmwares :: "(16 word \<times> 16 word \<times> 16 word) list" where
  "Bogus_firmwares =
    [(0x04e6, 0xe001, 0x0516), (0x04e6, 0x5111, 0x0620), (0x04e6, 0x5115, 0x0514), (0x04e6, 0xe003, 0x0510),
     (0x0D46, 0x3001, 0x0037), (0x0D46, 0x3002, 0x0037), (0x09C3, 0x0008, 0x0203), (0x0DC3, 0x1004, 0x0502),
     (0x0DC3, 0x1102, 0x0607), (0x058F, 0x9520, 0x0102), (0x072F, 0x2200, 0x0206)]"

definition ccid_check_firmware :: "usb_device \<Rightarrow> DWORD \<Rightarrow> bool" where
  "ccid_check_firmware dev options \<longleftrightarrow>
    (\<exists>(v, p, fw) \<in> set Bogus_firmwares. idVendor dev = v \<and> idProduct dev = p \<and> bcdDevice dev < fw)
    \<and> \<not> flag options DRIVER_OPTION_USE_BOGUS_FIRMWARE"

definition get_data_rates :: "'u libusb \<Rightarrow> usb_interface \<Rightarrow> 'u ccid \<Rightarrow> DWORD list option \<times> 'u ccid" where
  "get_data_rates lib f c =
    (case ControlUSB lib 0xA1 0x03 0 [] 1024 c of
       (Inl e, c1) \<Rightarrow> (None, c1)
     | (Inr answer, c1) \<Rightarrow>
        if answer = [] \<or> length answer mod 4 \<noteq> 0 then (None, c1)
        else
          let n = length answer div 4; len = unat (extra f ! 27); m = (if n \<noteq> len \<and> len \<noteq> 0 \<and> len < n then len else n) in
          (Some (takeWhile (\<lambda>r. r \<noteq> 0) (map (\<lambda>i. dw2i answer (i * 4)) [0..<m])), c1))"

text \<open>The assignments to the descriptor of a newly opened device; \<open>extra\<close> has 54 bytes.\<close>

definition describe :: "usb_device \<Rightarrow> usb_interface \<Rightarrow> 'u ccid \<Rightarrow> 'u ccid" where
  "describe dev f c =
    c\<lparr>bSeq := 0, readerID := usb_readerID dev, dwFeatures := dw2i (extra f) 40,
      wLcdLayout := push_bit 8 (ucast (extra f ! 51)) + ucast (extra f ! 50), bPINSupport := extra f ! 52,
      dwMaxCCIDMessageLength := dw2i (extra f) 44, dwMaxIFSD := dw2i (extra f) 28, dwDefaultClock := dw2i (extra f) 10,
      dwMaxDataRate := dw2i (extra f) 23, bMaxSlotIndex := extra f ! 4, bCurrentSlotIndex := 0,
      readTimeout := DEFAULT_COM_READ_TIMEOUT, bInterfaceProtocol := uint (if_bInterfaceProtocol f),
      bNumEndpoints := int (length (endpoint f)), dwSlotStatus := IFD_ICC_PRESENT, bVoltageSupport := ucast (extra f ! 5)\<rparr>"

subsection \<open>Device names\<close>

text \<open>The number of the interface in a name made by hald, -1 when there is none. The pointer is moved behind the header and one more character before
  the search for the underscore.\<close>

definition hal_interface :: "string \<Rightarrow> int option" where
  "hal_interface s =
    (case strrchr (CHR ''/'') s of
       None \<Rightarrow> Some (-1)
     | Some q \<Rightarrow>
        if take 11 (tl q) \<noteq> ''usb_device_'' then Some (-1)
        else if drop 12 q = [] then None
        else (case strrchr (CHR ''_'') (drop 13 q) of
            None \<Rightarrow> Some (-1)
          | Some p \<Rightarrow> if take 2 (tl p) = ''if'' then atoi (drop 3 p) else Some (-1)))"

text \<open>What \<^verbatim>\<open>OpenUSBByName\<close> takes from the name: vendor and product, the directory and the file name of the device, the number of
  the interface. The error is \<open>Inl\<close>. As in the code, the search for \<^verbatim>\<open>libhal:\<close> assigns \<^verbatim>\<open>dirname\<close> again.\<close>

record device_wanted =
  device_vendor :: DWORD
  device_product :: DWORD
  want_dirname :: "string option"
  want_filename :: "string option"
  interface_number :: int

definition parse_device :: "string \<Rightarrow> (status_t + device_wanted) option" where
  "parse_device device =
    (if take 4 device \<noteq> ''usb:'' then Some (Inl STATUS_UNSUCCESSFUL)
     else case scan_x (drop 4 device) of
       None \<Rightarrow> Some (Inl STATUS_UNSUCCESSFUL)
     | Some (vendor, r) \<Rightarrow>
        if take 1 r \<noteq> ''/'' then Some (Inl STATUS_UNSUCCESSFUL)
        else case scan_x (drop 1 r) of
          None \<Rightarrow> Some (Inl STATUS_UNSUCCESSFUL)
        | Some (product, _) \<Rightarrow>
           let (dir, file, device1) = (case strstr ''libusb:'' device of
                  None \<Rightarrow> (None, None, device)
                | Some p \<Rightarrow>
                   (case strchr (CHR '':'') (drop 7 p) of
                      Some q \<Rightarrow> (Some (take (length (drop 7 p) - length q) (drop 7 p)), Some (tl q), take (length device - length q) device)
                    | None \<Rightarrow> (None, None, device)));
               dir = strstr ''libhal:'' device1 in
           (case dir of
              None \<Rightarrow> Some (Inr \<lparr>device_vendor = vendor, device_product = product, want_dirname = dir, want_filename = file, interface_number = -1\<rparr>)
            | Some p \<Rightarrow> do {
                n \<leftarrow> hal_interface p;
                Some (Inr \<lparr>device_vendor = vendor, device_product = product, want_dirname = None, want_filename = file, interface_number = n\<rparr>)
              }))"

subsection \<open>Opening a device\<close>

text \<open>The label \<^verbatim>\<open>again\<close>: CCID interfaces of the device are tried until one has the wanted number.\<close>

datatype interface_search = No_interface | Wrong_extra | Found nat usb_interface

function search_interface :: "usb_device \<Rightarrow> nat \<Rightarrow> int \<Rightarrow> interface_search" where
  "search_interface dev num wanted =
    (case get_ccid_usb_interface dev num of
       None \<Rightarrow> No_interface
     | Some (n, f) \<Rightarrow>
        if length (extra f) \<noteq> 54 then Wrong_extra
        else if 0 \<le> wanted \<and> uint (bInterfaceNumber f) \<noteq> wanted then search_interface dev (n + 1) wanted
        else Found n f)"
  by pat_completeness auto
termination
proof (relation "measure (\<lambda>(dev, num, wanted). (case config dev of None \<Rightarrow> 0 | Some ifs \<Rightarrow> length ifs) - num)", goal_cases)
  case (2 dev num wanted a n f)
  moreover from 2 obtain ifs where "config dev = Some ifs"
    by (auto simp: get_ccid_usb_interface_def split: option.splits)
  ultimately show ?case using get_ccid_usb_interface_bound by fastforce
qed simp

declare search_interface.simps [simp del]

text \<open>What the body of the innermost loop does: go on with the next device (and the number of the interface), leave all loops, or return an error.\<close>

datatype 'u open_turn = Continue int "'u ccid_driver" | Leave "'u ccid_driver" | Fail "'u ccid_driver"

definition upd_device :: "nat \<Rightarrow> ('u usbDevice \<Rightarrow> 'u usbDevice) \<Rightarrow> 'u ccid_driver \<Rightarrow> 'u ccid_driver" where
  "upd_device i f d = d\<lparr>usbDevices := upd_at i f (usbDevices d)\<rparr>"

definition with_usb :: "'u ccid_driver \<Rightarrow> 'u \<Rightarrow> 'u ccid_driver" where
  "with_usb d u = d\<lparr>usb_world := u\<rparr>"

definition same_device :: "usb_bus \<Rightarrow> usb_device \<Rightarrow> 'u usbDevice \<Rightarrow> bool" where
  "same_device bus dev x \<longleftrightarrow> handle x \<noteq> None \<and> dirname x = bus_dirname bus \<and> filename x = dev_filename dev"

text \<open>The entry for the next slot of an opened reader. \<^verbatim>\<open>bCurrentSlotIndex\<close> is a \<^verbatim>\<open>char\<close>.\<close>

definition next_slot :: "nat \<Rightarrow> nat \<Rightarrow> 'u ccid_driver \<Rightarrow> 'u ccid_driver" where
  "next_slot i previous d =
    (let x = usbDevices d ! previous; c = dev_ccid x;
         custom = (readerID c = GEMCOREPOSPRO \<or> readerID c = GEMCORESIMPRO);
         c1 = (if custom then c\<lparr>arrayOfSupportedDataRates := Some [10753, 21505, 43011, 125000], dwMaxDataRate := 125000\<rparr> else c);
         x1 = x\<lparr>dev_ccid := c1\<lparr>bCurrentSlotIndex := bCurrentSlotIndex c1 + 1, dwSlotStatus := IFD_ICC_PRESENT\<rparr>,
                rates_owner := (if custom then None else rates_owner x), rates_freed := (if custom then False else rates_freed x)\<rparr> in
     upd_device (nb_opened_slots x) (\<lambda>y. y\<lparr>real_nb_opened_slots := real_nb_opened_slots y + 1\<rparr>) (upd_device i (\<lambda>_. x1) d))"

definition multi_slot :: "usb_bus \<Rightarrow> usb_device \<Rightarrow> 'u ccid_driver \<Rightarrow> nat option" where
  "multi_slot bus dev d =
    (case previous_reader_index d of
       None \<Rightarrow> None
     | Some r \<Rightarrow>
        let x = usbDevices d ! r; c = dev_ccid x in
        if same_device bus dev x \<and> sint (bCurrentSlotIndex c) < sint (bMaxSlotIndex c) then Some r else None)"

text \<open>The entry of a device that was claimed. Its data rates are read with the new handle.\<close>

definition new_device :: "'u usb_system \<Rightarrow> nat \<Rightarrow> usb_bus \<Rightarrow> usb_device \<Rightarrow> int \<Rightarrow> usb_interface \<Rightarrow> 'u ccid_driver \<Rightarrow> 'u ccid_driver" where
  "new_device sys i bus dev h f d =
    (let x = (get_end_points f (usbDevices d ! i))
           \<lparr>handle := Some h, dirname := bus_dirname bus, filename := dev_filename dev, dev_interface := uint (bInterfaceNumber f),
            real_nb_opened_slots := 1, nb_opened_slots := i, real_bSeq := 0, pbSeq := i\<rparr>;
         lib = port sys h (dev_interface x) (bulk_in x) (bulk_out x) (interrupt x);
         (rates, c) = get_data_rates lib f ((describe dev f (dev_ccid x))\<lparr>usb := usb_world d\<rparr>) in
     with_usb (upd_device i (\<lambda>_. x\<lparr>dev_ccid := c\<lparr>arrayOfSupportedDataRates := rates\<rparr>,
         rates_owner := (if rates = None then None else Some i), rates_freed := False\<rparr>) d) (usb c))"

definition try_device :: "'u usb_system \<Rightarrow> nat \<Rightarrow> usb_bus \<Rightarrow> usb_device \<Rightarrow> int \<Rightarrow> 'u ccid_driver \<Rightarrow> 'u open_turn" where
  "try_device sys i bus dev wanted d =
    (let used = (\<exists>x \<in> set (usbDevices d). same_device bus dev x) in
     if used \<and> multi_slot bus dev d \<noteq> None then Leave (next_slot i (the (multi_slot bus dev d)) d)
     else if used \<and> wanted = -1 then Continue wanted d
     else (case usb_open sys bus dev (usb_world d) of
         (None, u) \<Rightarrow> Continue wanted (with_usb d u)
       | (Some h, u) \<Rightarrow>
          if config dev = None then Fail (with_usb d (usb_close sys h u))
          else (case search_interface dev 0 wanted of
              No_interface \<Rightarrow> Continue (-1) (with_usb d (usb_close sys h u))
            | Wrong_extra \<Rightarrow> Fail (with_usb d (usb_close sys h u))
            | Found num f \<Rightarrow>
               (case usb_claim_interface sys h (uint (bInterfaceNumber f)) u of
                  (False, u1) \<Rightarrow> Continue (-1) (with_usb d (usb_close sys h u1))
                | (True, u1) \<Rightarrow>
                   if ccid_check_firmware dev (DriverOptions d) then Fail (with_usb d (usb_close sys h u1))
                   else Leave (new_device sys i bus dev h f (with_usb d u1))))))"

text \<open>The devices of all busses.\<close>

fun try_devices :: "'u usb_system \<Rightarrow> nat \<Rightarrow> device_wanted option \<Rightarrow> DWORD \<Rightarrow> DWORD \<Rightarrow> (usb_bus \<times> usb_device) list \<Rightarrow> int
    \<Rightarrow> 'u ccid_driver \<Rightarrow> 'u open_turn" where
  "try_devices sys i w vendorID productID [] wanted d = Continue wanted d"
| "try_devices sys i w vendorID productID ((bus, dev) # rest) wanted d =
    (let named = (case w of Some r \<Rightarrow> want_dirname r \<noteq> None \<and> (want_dirname r \<noteq> Some (bus_dirname bus) \<or> want_filename r \<noteq> Some (dev_filename dev))
                  | None \<Rightarrow> False) in
     if named \<or> ucast (idVendor dev) \<noteq> vendorID \<or> ucast (idProduct dev) \<noteq> productID
     then try_devices sys i w vendorID productID rest wanted d
     else (case try_device sys i bus dev wanted d of
         Continue wanted1 d1 \<Rightarrow> try_devices sys i w vendorID productID rest wanted1 d1
       | r \<Rightarrow> r))"

text \<open>The loop over the supported readers in Info.plist; \<open>alias\<close> is the index in the three lists of values.\<close>

type_synonym plist = "string \<Rightarrow> string list"

definition LTPBundleFindValueWithKey :: "plist \<Rightarrow> string \<Rightarrow> int \<Rightarrow> string option" where
  "LTPBundleFindValueWithKey info key i = (if 0 \<le> i \<and> i < int (length (info key)) then Some (info key ! nat i) else None)"

function try_supported :: "'u usb_system \<Rightarrow> plist \<Rightarrow> nat \<Rightarrow> device_wanted option \<Rightarrow> (usb_bus \<times> usb_device) list \<Rightarrow> int \<Rightarrow> int
    \<Rightarrow> 'u ccid_driver \<Rightarrow> 'u open_turn" where
  "try_supported sys info i w devs alias wanted d =
    (case LTPBundleFindValueWithKey info ''ifdVendorID'' alias of
       None \<Rightarrow> Leave d
     | Some vendor \<Rightarrow>
        (case LTPBundleFindValueWithKey info ''ifdProductID'' alias of
           None \<Rightarrow> Leave d
         | Some product \<Rightarrow>
            if LTPBundleFindValueWithKey info ''ifdFriendlyName'' alias = None then Leave d
            else if (case w of Some r \<Rightarrow> strtoul0 vendor \<noteq> device_vendor r \<or> strtoul0 product \<noteq> device_product r | None \<Rightarrow> False)
            then try_supported sys info i w devs (alias + 1) wanted d
            else (case try_devices sys i w (strtoul0 vendor) (strtoul0 product) devs wanted d of
                Continue wanted1 d1 \<Rightarrow> try_supported sys info i w devs (alias + 1) wanted1 d1
              | r \<Rightarrow> r)))"
  by pat_completeness auto
termination
  by (relation "measure (\<lambda>(sys, info, i, w, devs, alias, wanted, d). nat (int (length (info ''ifdVendorID'')) - alias))")
     (auto simp: LTPBundleFindValueWithKey_def split: if_splits)

declare try_supported.simps [simp del]

definition first_alias :: "string \<Rightarrow> int" where
  "first_alias copyright = foldr (\<lambda>c alias. alias XOR sint (of_char c :: UCHAR)) (rev copyright) 0x1C"

text \<open>The label \<^verbatim>\<open>end\<close>, and the part of \<^verbatim>\<open>OpenUSBByName\<close> after the name was parsed.\<close>

definition end_of_open :: "nat \<Rightarrow> 'u open_turn \<Rightarrow> status_t \<times> 'u ccid_driver" where
  "end_of_open i r =
    (case r of
       Fail d \<Rightarrow> (STATUS_UNSUCCESSFUL, d)
     | Leave d \<Rightarrow> if handle (usbDevices d ! i) = None then (STATUS_NO_SUCH_DEVICE, d) else (STATUS_SUCCESS, d\<lparr>previous_reader_index := Some i\<rparr>)
     | Continue wanted d \<Rightarrow> (STATUS_NO_SUCH_DEVICE, d))"

definition find_reader :: "'u usb_system \<Rightarrow> plist \<Rightarrow> nat \<Rightarrow> device_wanted option \<Rightarrow> 'u ccid_driver \<Rightarrow> status_t \<times> 'u ccid_driver" where
  "find_reader sys info i w d =
    (let (busses, u) = usb_busses sys (usb_world d); d1 = with_usb d u in
     if busses = [] \<or> handle (usbDevices d1 ! i) \<noteq> None then (STATUS_UNSUCCESSFUL, d1)
     else if LTPBundleFindValueWithKey info ''ifdManufacturerString'' 0 = None
       \<or> LTPBundleFindValueWithKey info ''ifdProductString'' 0 = None then (STATUS_UNSUCCESSFUL, d1)
     else (case LTPBundleFindValueWithKey info ''Copyright'' 0 of
         None \<Rightarrow> (STATUS_UNSUCCESSFUL, d1)
       | Some copyright \<Rightarrow>
          end_of_open i (try_supported sys info i w (concat (map (\<lambda>bus. map (Pair bus) (devices bus)) busses)) (first_alias copyright)
            (case w of Some r \<Rightarrow> interface_number r | None \<Rightarrow> -1) d1)))"

definition OpenUSBByName :: "'u usb_system \<Rightarrow> plist \<Rightarrow> nat \<Rightarrow> string option \<Rightarrow> 'u ccid_driver \<Rightarrow> (status_t \<times> 'u ccid_driver) option" where
  "OpenUSBByName sys info i device d =
    (case device of
       None \<Rightarrow> Some (find_reader sys info i None d)
     | Some s \<Rightarrow> map_option (\<lambda>parsed. case parsed of Inl e \<Rightarrow> (e, d) | Inr w \<Rightarrow> find_reader sys info i (Some w) d) (parse_device s))"

definition OpenUSB :: "'u usb_system \<Rightarrow> plist \<Rightarrow> nat \<Rightarrow> 'u ccid_driver \<Rightarrow> (status_t \<times> 'u ccid_driver) option" where
  "OpenUSB sys info i d = OpenUSBByName sys info i None d"

subsection \<open>Closing a device\<close>

text \<open>The data rates are freed with the first slot; entries that share them keep the pointer.\<close>

definition free_rates :: "nat \<Rightarrow> 'u ccid_driver \<Rightarrow> 'u ccid_driver" where
  "free_rates i d =
    (let x = usbDevices d ! i in
     if arrayOfSupportedDataRates (dev_ccid x) \<noteq> None \<and> bCurrentSlotIndex (dev_ccid x) = 0 then
       upd_device i (\<lambda>y. y\<lparr>dev_ccid := (dev_ccid y)\<lparr>arrayOfSupportedDataRates := None\<rparr>, rates_owner := None, rates_freed := False\<rparr>)
         (d\<lparr>usbDevices := map (\<lambda>y. if rates_owner y = rates_owner x then y\<lparr>rates_freed := True\<rparr> else y) (usbDevices d)\<rparr>)
     else d)"

definition CloseUSB :: "'u usb_system \<Rightarrow> nat \<Rightarrow> 'u ccid_driver \<Rightarrow> status_t \<times> 'u ccid_driver" where
  "CloseUSB sys i d =
    (let x = usbDevices d ! i in
     case handle x of
       None \<Rightarrow> (STATUS_UNSUCCESSFUL, d)
     | Some h \<Rightarrow>
        let k = nb_opened_slots x;
            d1 = upd_device k (\<lambda>y. y\<lparr>real_nb_opened_slots := real_nb_opened_slots y - 1\<rparr>) (free_rates i d);
            d2 = (if real_nb_opened_slots (usbDevices d1 ! k) = 0 then
                    let u0 = (if flag (DriverOptions d) DRIVER_OPTION_RESET_ON_CLOSE then usb_reset sys h (usb_world d1) else usb_world d1) in
                    with_usb d1 (usb_close sys h (usb_release_interface sys h (dev_interface x) u0))
                  else d1) in
        (STATUS_SUCCESS, upd_device i (\<lambda>y. y\<lparr>handle := None, dirname := [], filename := [], dev_interface := 0\<rparr>) d2))"

end
