(* ===== verification/Ccid_Ifd.thy ===== *)
theory Ccid_Ifd
  imports Towitoko Ccid_Device
begin

section \<open>The interface of the CCID driver (ccid: ifdhandler.c, ccid.c)\<close>

text \<open>
  The functions \<^verbatim>\<open>IFDH...\<close> that the daemon calls, over the driver state of theory \<open>Ccid_Device\<close>. The results passed through
  pointers are components of the result; \<open>None\<close> as the whole result is an access outside of an array, the use of freed memory, an
  operation of C without defined result, or a command that does not end. Times and rates of type \<^verbatim>\<open>double\<close> are rational numbers,
  so that the arithmetic is exact. The model is the build with threads and without \<^verbatim>\<open>USE_USB_INTERRUPT\<close> and
  \<^verbatim>\<open>USE_COMPOSITE_AS_MULTISLOT\<close>.
\<close>

abbreviation (input) POWERFLAGS_RAZ :: UCHAR where "POWERFLAGS_RAZ \<equiv> 0"
abbreviation (input) MASK_POWERFLAGS_PUP :: UCHAR where "MASK_POWERFLAGS_PUP \<equiv> 1"
abbreviation (input) MASK_POWERFLAGS_PDWN :: UCHAR where "MASK_POWERFLAGS_PDWN \<equiv> 2"
abbreviation (input) CCID_CLASS_AUTO_PPS_PROP :: DWORD where "CCID_CLASS_AUTO_PPS_PROP \<equiv> 0x40"
abbreviation (input) CCID_CLASS_AUTO_PPS_CUR :: DWORD where "CCID_CLASS_AUTO_PPS_CUR \<equiv> 0x80"
abbreviation (input) CCID_CLASS_AUTO_IFSD :: DWORD where "CCID_CLASS_AUTO_IFSD \<equiv> 0x400"
abbreviation (input) IFD_ERROR_PTS_FAILURE :: LONG where "IFD_ERROR_PTS_FAILURE \<equiv> 605"
abbreviation (input) IFD_ERROR_POWER_ACTION :: LONG where "IFD_ERROR_POWER_ACTION \<equiv> 608"
abbreviation (input) RESP_BUF_SIZE :: nat where "RESP_BUF_SIZE \<equiv> 259"

subsection \<open>Rates and times\<close>

text \<open>Conversion of a \<^verbatim>\<open>double\<close> to \<^verbatim>\<open>unsigned int\<close> and the range of \<^verbatim>\<open>int\<close>.\<close>

definition double_to_unsigned :: "rat \<Rightarrow> DWORD option" where
  "double_to_unsigned r = (if -1 < r \<and> r < 2 ^ 32 then Some (word_of_int (max 0 \<lfloor>r\<rfloor>)) else None)"

definition c_int :: "int \<Rightarrow> int option" where
  "c_int k = (if - (2 ^ 31) \<le> k \<and> k < 2 ^ 31 then Some k else None)"

definition c_div :: "int \<Rightarrow> int \<Rightarrow> int" where
  "c_div a b = sgn a * sgn b * (\<bar>a\<bar> div \<bar>b\<bar>)"

text \<open>\<^verbatim>\<open>(unsigned int) (1000 * ccid_desc->dwDefaultClock * d / f)\<close> and the same for the default values 1 and 372, which are integers.\<close>

definition card_baudrate :: "'u ccid \<Rightarrow> rat \<Rightarrow> rat \<Rightarrow> DWORD option" where
  "card_baudrate c d f = do {
     k \<leftarrow> c_int (1000 * sint (dwDefaultClock c));
     if f = 0 then None else double_to_unsigned (of_int k * d / f)
   }"

definition default_baudrate :: "'u ccid \<Rightarrow> DWORD option" where
  "default_baudrate c = map_option (\<lambda>k. word_of_int (c_div k 372)) (c_int (1000 * sint (dwDefaultClock c)))"

definition find_baud_rate :: "DWORD \<Rightarrow> DWORD list \<Rightarrow> bool" where
  "find_baud_rate baudrate rates \<longleftrightarrow> (\<exists>r \<in> set (takeWhile (\<lambda>r. r \<noteq> 0) rates). baudrate < r + 2 \<and> r - 2 < baudrate)"

definition T0_card_timeout :: "rat \<Rightarrow> rat \<Rightarrow> int \<Rightarrow> int \<Rightarrow> int \<Rightarrow> DWORD option" where
  "T0_card_timeout f d TC1 TC2 clock =
    (if f = 0 \<or> d = 0 \<or> clock = 0 then Some 60
     else
       let k = of_int clock; EGT = 12 * f / d / k + (f / d) * of_int TC1 / k; WWT = of_int (960 * TC2) * f / k in do {
         t \<leftarrow> double_to_unsigned (261 * EGT + 6 * WWT);
         let timeout = max DEFAULT_COM_READ_TIMEOUT (t div 1000 + 1);
         t \<leftarrow> double_to_unsigned (5 * EGT + 260 * WWT);
         Some (max timeout (t div 1000 + 1))
       })"

text \<open>As in the other computations of this file the doubles of C are rationals: rounding of the double arithmetic is not modelled, the truncation to an unsigned integer and
  the integer division of the block waiting time are.\<close>

definition T1_card_timeout :: "rat \<Rightarrow> rat \<Rightarrow> int \<Rightarrow> nat \<Rightarrow> nat \<Rightarrow> int \<Rightarrow> DWORD option" where
  "T1_card_timeout f d TC1 BWI CWI clock =
    (if f = 0 \<or> d = 0 \<or> clock = 0 then Some 60
     else
       let k = of_int clock; etu = f / d / k; EGT = 12 * etu + (f / d) * of_int TC1 / k; CWT = of_int (11 + 2 ^ CWI) * etu in do {
         blocks \<leftarrow> c_int (2 ^ BWI * 960 * 372);
         t \<leftarrow> double_to_unsigned (260 * EGT + (11 * etu + of_int (c_div blocks clock)) + 260 * CWT);
         Some (t div 1000 + 1)
       })"

subsection \<open>Choosing the parameters\<close>

text \<open>The first group \<open>i \<ge> 2\<close> (\<open>i > 2\<close> in the standard) that has the interface byte \<open>k\<close>.\<close>

definition first_specific :: "nat \<Rightarrow> ATR_t \<Rightarrow> UCHAR option" where
  "first_specific k atr = map_option (\<lambda>i. ib_value (ib atr i k)) (find (\<lambda>i. ib_present (ib atr i k)) [2..<ATR_MAX_PROTOCOLS])"

definition extra_egt :: "ATR_t \<Rightarrow> 'u ccid \<Rightarrow> DWORD \<Rightarrow> ATR_t option" where
  "extra_egt atr c protocol =
    (let d = ATR_GetParameter atr ATR_PARAMETER_D; f = ATR_GetParameter atr ATR_PARAMETER_F; TC1 = ib atr 0 ATR_INTERFACE_BYTE_TC;
         patched = set_ib 0 ATR_INTERFACE_BYTE_TC (\<lambda>_. \<lparr>ib_value = 2, ib_present = True\<rparr>) atr in
     if \<not> ib_present (ib atr 0 ATR_INTERFACE_BYTE_TA) \<or> f = 0 \<or> d = 0 then Some atr
     else do {
       card \<leftarrow> card_baudrate c d f;
       default \<leftarrow> default_baudrate c;
       Some (if card \<le> default then atr
         else if ib_present TC1 \<and> (ib_value TC1 = 0 \<or> ib_value TC1 = 0xFF)
           \<and> (protocol = SCARD_PROTOCOL_T0
             \<or> protocol = SCARD_PROTOCOL_T1 \<and> (\<exists>i \<in> set [2..<ATR_MAX_PROTOCOLS]. ib_present (ib atr i ATR_INTERFACE_BYTE_TB)
                  \<and> 2 \<le> ib_value (ib atr i ATR_INTERFACE_BYTE_TB) AND 0x0F))
         then patched else atr)
     })"

text \<open>TA1 is lowered as long as the reader does not know the rate. \<open>freed\<close>: the table of rates was freed.\<close>

definition check_rate :: "bool \<Rightarrow> DWORD list \<Rightarrow> DWORD \<Rightarrow> bool option" where
  "check_rate freed rates baudrate = (if freed then None else Some (find_baud_rate baudrate rates))"

function lower_TA1 :: "bool \<Rightarrow> DWORD list \<Rightarrow> 'u ccid \<Rightarrow> ATR_t \<Rightarrow> UCHAR \<Rightarrow> UCHAR option option" where
  "lower_TA1 freed rates c atr v =
    (if 0x94 < v then
       let a = set_ib 0 ATR_INTERFACE_BYTE_TA (\<lambda>b. b\<lparr>ib_value := v - 1\<rparr>) atr in do {
         rate \<leftarrow> card_baudrate c (ATR_GetParameter a ATR_PARAMETER_D) (ATR_GetParameter a ATR_PARAMETER_F);
         ok \<leftarrow> check_rate freed rates rate;
         if ok then Some (Some (v - 1)) else lower_TA1 freed rates c atr (v - 1)
       }
     else Some None)"
  by pat_completeness auto
termination
proof (relation "measure (\<lambda>(freed, rates, c, atr, v). unat v)", goal_cases)
  case (2 freed rates c atr v)
  then have "v \<noteq> 0" by (auto simp: word_less_nat_alt)
  then show ?case by (simp add: unat_minus_one unat_gt_0)
qed simp

declare lower_TA1.simps [simp del]

text \<open>The value of PTS1 to propose, if any; \<open>Inl\<close> is the error returned.\<close>

definition propose_TA1 :: "bool \<Rightarrow> ATR_t \<Rightarrow> 'u ccid \<Rightarrow> (LONG + UCHAR option) option" where
  "propose_TA1 freed atr c =
    (let TA1 = ib atr 0 ATR_INTERFACE_BYTE_TA; d0 = ATR_GetParameter atr ATR_PARAMETER_D; f0 = ATR_GetParameter atr ATR_PARAMETER_F;
         (f, d) = (if f0 = 0 \<or> d0 = 0 then (372, 1) else (f0, d0)) in
     if \<not> ib_present TA1 then Some (Inr None)
     else do {
       card \<leftarrow> card_baudrate c d f;
       default \<leftarrow> default_baudrate c;
       if default < card \<and> card \<le> dwMaxDataRate c then
         (case arrayOfSupportedDataRates c of
            None \<Rightarrow> Some (Inr (Some (ib_value TA1)))
          | Some rates \<Rightarrow> do {
              ok \<leftarrow> check_rate freed rates card;
              Some (if ok then Inr (Some (ib_value TA1))
                else if ib_present (ib atr 1 ATR_INTERFACE_BYTE_TA) then Inl IFD_COMMUNICATION_ERROR else Inr None)
            })
       else if dwMaxDataRate c + 2 < card \<and> ib_value TA1 \<le> 0x97 then
         (case arrayOfSupportedDataRates c of
            None \<Rightarrow> Some (Inr None)
          | Some rates \<Rightarrow> map_option Inr (lower_TA1 freed rates c atr (ib_value TA1)))
       else Some (Inr None)
     })"

text \<open>The request \<^verbatim>\<open>pps\<close> before the exchange: the protocol, then PTS1 to PTS3 with their bits.\<close>

definition pps_request :: "UCHAR \<Rightarrow> UCHAR option \<Rightarrow> UCHAR option \<Rightarrow> UCHAR option \<Rightarrow> UCHAR list" where
  "pps_request protocol p1 p2 p3 =
    [0xFF, protocol OR (if p1 = None then 0 else 0x10) OR (if p2 = None then 0 else 0x20) OR (if p3 = None then 0 else 0x40),
     (case p1 of Some v \<Rightarrow> v | None \<Rightarrow> 0), (case p2 of Some v \<Rightarrow> v | None \<Rightarrow> 0), (case p3 of Some v \<Rightarrow> v | None \<Rightarrow> 0), 0]"

text \<open>The checksum that the first TCi names.\<close>

definition choose_checksum :: "ATR_t \<Rightarrow> t1_state \<Rightarrow> t1_state" where
  "choose_checksum atr t1 =
    (case first_specific ATR_INTERFACE_BYTE_TC atr of
       Some v \<Rightarrow> if v = 0 then snd (t1_set_param t1 IFD_PROTOCOL_T1_CHECKSUM_LRC 0)
                  else if v = 1 then snd (t1_set_param t1 IFD_PROTOCOL_T1_CHECKSUM_CRC 0) else t1
     | None \<Rightarrow> t1)"

subsection \<open>Setting the protocol\<close>

text \<open>The hack for the OpenPGP card compares as many bytes as the card answered; only 20 are there.\<close>

definition openpgp_atr :: "UCHAR list" where
  "openpgp_atr = [0x3B, 0xFA, 0x13, 0x00, 0xFF, 0x81, 0x31, 0x80, 0x45, 0x00, 0x31, 0xC1, 0x73, 0xC0, 0x01, 0x00, 0x00, 0x90, 0x00, 0xB1]"

definition is_openpgp :: "CcidDesc \<Rightarrow> bool option" where
  "is_openpgp slot =
    (let n = nATRLength slot; b = pcATRBuffer slot in
     if n \<le> 20 then Some (take n b = take n openpgp_atr) else if take 20 b = openpgp_atr then None else Some False)"

text \<open>The parameters for T=1 without the timeout: the seven bytes of the message.\<close>

definition T1_param :: "UCHAR list \<Rightarrow> ATR_t \<Rightarrow> CcidDesc \<Rightarrow> bool \<Rightarrow> UCHAR list option" where
  "T1_param pps atr slot inverted = do {
     bwi_cwi \<leftarrow> (case first_specific ATR_INTERFACE_BYTE_TB atr of
         None \<Rightarrow> Some 0x4D
       | Some v \<Rightarrow> map_option (\<lambda>hack. if hack then 0x75 else v) (is_openpgp slot));
     let TC1 = ib atr 0 ATR_INTERFACE_BYTE_TC;
     Some [if PPS_HAS_PPS1 pps then pps ! 2 else 0x11,
           0x10 OR (if t1_rc_bytes (slot_t1 slot) = 2 then 1 else 0) OR (if inverted then 2 else 0),
           if ib_present TC1 then ib_value TC1 else 0,
           bwi_cwi, 0,
           (case first_specific ATR_INTERFACE_BYTE_TA atr of Some v \<Rightarrow> v | None \<Rightarrow> 0x20), 0]
   }"

definition T0_param :: "UCHAR list \<Rightarrow> ATR_t \<Rightarrow> bool \<Rightarrow> UCHAR list" where
  "T0_param pps atr inverted =
    (let TC1 = ib atr 0 ATR_INTERFACE_BYTE_TC; TC2 = ib atr 1 ATR_INTERFACE_BYTE_TC in
     [if PPS_HAS_PPS1 pps then pps ! 2 else 0x11, if inverted then 2 else 0, if ib_present TC1 then ib_value TC1 else 0,
      if ib_present TC2 then ib_value TC2 else 0x0A, 0])"

text \<open>The parameters are sent to the reader and the read timeout is set.\<close>

definition send_parameters :: "'u libusb \<Rightarrow> DWORD \<Rightarrow> UCHAR list \<Rightarrow> ATR_t \<Rightarrow> CcidDesc \<Rightarrow> bool \<Rightarrow> 'u ccid \<Rightarrow> (LONG \<times> 'u ccid) option" where
  "send_parameters lib protocol pps atr slot inverted c =
    (let f = ATR_GetParameter atr ATR_PARAMETER_F; d = ATR_GetParameter atr ATR_PARAMETER_D; clock = sint (dwDefaultClock c) in
     if protocol = SCARD_PROTOCOL_T1 then do {
       param \<leftarrow> T1_param pps atr slot inverted;
       timeout \<leftarrow> T1_card_timeout f d (uint (param ! 2)) (unat (drop_bit 4 (param ! 3 AND 0xF0))) (unat (param ! 3 AND 0x0F)) clock;
       SetParameters lib 1 param (c\<lparr>readTimeout := timeout\<rparr>)
     }
     else do {
       let param = T0_param pps atr inverted;
       timeout \<leftarrow> T0_card_timeout f d (uint (param ! 2)) (uint (param ! 3)) clock;
       SetParameters lib 0 param (c\<lparr>readTimeout := timeout\<rparr>)
     })"

text \<open>IFSC and IFSD for T=1.\<close>

definition set_IFS :: "'u libusb \<Rightarrow> ATR_t \<Rightarrow> t1_state \<Rightarrow> 'u ccid \<Rightarrow> (LONG \<times> t1_state \<times> 'u ccid) option" where
  "set_IFS lib atr t1 c =
    (let t = (case first_specific ATR_INTERFACE_BYTE_TA atr of
          Some v \<Rightarrow> snd (t1_set_param t1 IFD_PROTOCOL_T1_IFSC (uint v)) | None \<Rightarrow> t1);
         ifsd = dwMaxIFSD c in do {
       (ret, t2, c1) \<leftarrow> (if flag (dwFeatures c) CCID_CLASS_AUTO_IFSD then Some (0, t, c) else t1_negotiate_ifsd lib t 0 ifsd c);
       Some (if ret < 0 then (IFD_COMMUNICATION_ERROR, t2, c1)
         else (IFD_SUCCESS, snd (t1_set_param t2 IFD_PROTOCOL_T1_IFSD (sint ifsd)), c1))
     })"

text \<open>The exchange of the request with the card where the reader leaves it to the driver, and the protocol that is used from then on: two readers
  of O2Micro stay with the default one.\<close>

definition negotiate :: "'u libusb \<Rightarrow> DWORD \<Rightarrow> UCHAR list \<Rightarrow> ATR_t \<Rightarrow> 'u ccid \<Rightarrow> (LONG \<times> DWORD \<times> UCHAR list \<times> 'u ccid) option" where
  "negotiate lib protocol pps atr c =
    (let default = ATR_GetDefaultProtocol atr in
     if flag (dwFeatures c) CCID_CLASS_AUTO_PPS_CUR \<or> ib_present (ib atr 1 ATR_INTERFACE_BYTE_TA)
       \<or> uint (pps ! 1 AND 0x0F) = default \<and> \<not> PPS_HAS_PPS1 pps
     then Some (IFD_SUCCESS, protocol, pps, c)
     else if readerID c = OZ776 \<or> readerID c = OZ776_7772 then Some (IFD_SUCCESS, word_of_int default + 1, pps, c)
     else do {
       (ret, pps1, len, c1) \<leftarrow> PPS_Exchange lib pps c;
       Some (if ret \<noteq> PPS_OK then IFD_ERROR_PTS_FAILURE else IFD_SUCCESS, protocol, pps1, c1)
     })"

text \<open>\<^verbatim>\<open>IFDHSetProtocolParameters\<close> for the slot and the descriptor of the reader; \<open>Flags\<close> selects among \<open>PTS1\<close> to \<open>PTS3\<close>.\<close>

definition finish_protocol :: "'u libusb \<Rightarrow> DWORD \<Rightarrow> UCHAR list \<Rightarrow> ATR_t \<Rightarrow> CcidDesc \<Rightarrow> 'u ccid \<Rightarrow> (LONG \<times> CcidDesc \<times> 'u ccid) option" where
  "finish_protocol lib protocol pps atr slot c =
    (let inverted = (snd (ATR_GetConvention atr (uint (uninit c 0))) = ATR_CONVENTION_INVERSE);
         TA2 = ib atr 1 ATR_INTERFACE_BYTE_TA in
     if ib_present TA2 \<and> flag (ib_value TA2) 0x10 then Some (IFD_COMMUNICATION_ERROR, slot, c)
     else do {
       (ret, c1) \<leftarrow> send_parameters lib protocol pps atr slot inverted c;
       if ret \<noteq> IFD_SUCCESS then Some (ret, slot, c1)
       else if protocol = SCARD_PROTOCOL_T1 then do {
         (ret, t, c2) \<leftarrow> set_IFS lib atr (slot_t1 slot) c1;
         Some (ret, slot\<lparr>slot_t1 := t\<rparr>, if ret = IFD_SUCCESS then c2\<lparr>ccid_cardProtocol := protocol\<rparr> else c2)
       }
       else Some (IFD_SUCCESS, slot, c1\<lparr>ccid_cardProtocol := protocol\<rparr>)
     })"

definition request_and_finish :: "'u libusb \<Rightarrow> bool \<Rightarrow> DWORD \<Rightarrow> UCHAR \<Rightarrow> UCHAR \<Rightarrow> UCHAR \<Rightarrow> UCHAR \<Rightarrow> UCHAR \<Rightarrow> ATR_t \<Rightarrow> CcidDesc \<Rightarrow> 'u ccid
    \<Rightarrow> (LONG \<times> CcidDesc \<times> 'u ccid) option" where
  "request_and_finish lib freed protocol T Flags PTS1 PTS2 PTS3 atr slot c = do {
     p1 \<leftarrow> (if flag Flags 1 then Some (Inr (Some PTS1)) else propose_TA1 freed atr c);
     (case p1 of
        Inl e \<Rightarrow> Some (e, slot, c)
      | Inr p1 \<Rightarrow> do {
          (ret, protocol1, pps, c1) \<leftarrow> negotiate lib protocol
             (pps_request T p1 (if flag Flags 2 then Some PTS2 else None) (if flag Flags 4 then Some PTS3 else None)) atr c;
          if ret \<noteq> IFD_SUCCESS then Some (ret, slot, c1) else finish_protocol lib protocol1 pps atr slot c1
        })
   }"

definition set_protocol :: "'u libusb \<Rightarrow> bool \<Rightarrow> DWORD \<Rightarrow> UCHAR \<Rightarrow> UCHAR \<Rightarrow> UCHAR \<Rightarrow> UCHAR \<Rightarrow> CcidDesc \<Rightarrow> 'u ccid
    \<Rightarrow> (LONG \<times> CcidDesc \<times> 'u ccid) option" where
  "set_protocol lib freed protocol Flags PTS1 PTS2 PTS3 slot c =
    (if flag (dwFeatures c) CCID_CLASS_AUTO_PPS_PROP then Some (IFD_SUCCESS, slot, c\<lparr>ccid_cardProtocol := protocol\<rparr>)
     else do {
       (rc, atr0) \<leftarrow> ATR_InitFromArray atr_zero (take (nATRLength slot) (pcATRBuffer slot));
       atr \<leftarrow> extra_egt atr0 c protocol;
       let T = (if protocol = SCARD_PROTOCOL_T0 then 0 else 1);
       let TA2 = ib atr 1 ATR_INTERFACE_BYTE_TA;
       if protocol \<noteq> SCARD_PROTOCOL_T0 \<and> protocol \<noteq> SCARD_PROTOCOL_T1 then Some (IFD_PROTOCOL_NOT_SUPPORTED, slot, c)
       else if ib_present TA2 \<and> T \<noteq> ib_value TA2 AND 0x0F then Some (IFD_PROTOCOL_NOT_SUPPORTED, slot, c)
       else request_and_finish lib freed protocol T Flags PTS1 PTS2 PTS3 atr
         (if protocol = SCARD_PROTOCOL_T1 then slot\<lparr>slot_t1 := choose_checksum atr (slot_t1 slot)\<rparr> else slot) c
     })"

subsection \<open>The functions of the interface\<close>

definition upd_slot :: "nat \<Rightarrow> (CcidDesc \<Rightarrow> CcidDesc) \<Rightarrow> 'u ccid_driver \<Rightarrow> 'u ccid_driver" where
  "upd_slot i f d = d\<lparr>CcidSlots := upd_at i f (CcidSlots d)\<rparr>"

text \<open>\<^verbatim>\<open>nATRLength = 0; *pcATRBuffer = 0\<close>\<close>

definition reset_atr :: "CcidDesc \<Rightarrow> CcidDesc" where
  "reset_atr s = s\<lparr>nATRLength := 0, pcATRBuffer := (pcATRBuffer s)[0 := 0]\<rparr>"

definition IFDHSetProtocolParameters :: "'u usb_system \<Rightarrow> DWORD \<Rightarrow> DWORD \<Rightarrow> UCHAR \<Rightarrow> UCHAR \<Rightarrow> UCHAR \<Rightarrow> UCHAR \<Rightarrow> 'u ccid_driver
    \<Rightarrow> (LONG \<times> 'u ccid_driver) option" where
  "IFDHSetProtocolParameters sys Lun protocol Flags PTS1 PTS2 PTS3 d =
    (case LunToReaderIndex (sint Lun) d of
       None \<Rightarrow> Some (IFD_COMMUNICATION_ERROR, d)
     | Some i \<Rightarrow> do {
         ((ret, slot), d1) \<leftarrow> on_port sys i (\<lambda>lib c. map_option (\<lambda>(r, s, c). ((r, s), c))
            (set_protocol lib (rates_freed (usbDevices d ! i)) protocol Flags PTS1 PTS2 PTS3 (CcidSlots d ! i) c)) d;
         Some (ret, upd_slot i (\<lambda>_. slot) d1)
       })"

definition IFDHSetCapabilities :: "DWORD \<Rightarrow> 'u ccid_driver \<Rightarrow> LONG \<times> 'u ccid_driver" where
  "IFDHSetCapabilities Lun d =
    (case LunToReaderIndex (sint Lun) d of None \<Rightarrow> (IFD_COMMUNICATION_ERROR, d) | Some i \<Rightarrow> (IFD_NOT_SUPPORTED, d))"

text \<open>Powering up: the return code, the number of bytes and the buffer of the answer.\<close>

definition power_up :: "int \<Rightarrow> 'u libusb \<Rightarrow> 'u ccid \<Rightarrow> ((LONG \<times> DWORD \<times> UCHAR list) \<times> 'u ccid) option" where
  "power_up voltage lib c = do {
     (ret, n, b, c1) \<leftarrow> CmdPowerOn lib (word_of_nat RESP_BUF_SIZE) (fresh_array RESP_BUF_SIZE c) voltage (c\<lparr>readTimeout := 60\<rparr>);
     let c2 = c1\<lparr>readTimeout := readTimeout c\<rparr>;
     Some ((ret, n, b), if ret \<noteq> IFD_SUCCESS then c2\<lparr>dwSlotStatus := IFD_ICC_NOT_PRESENT\<rparr> else c2)
   }"

text \<open>What is stored in the slot before the power is switched off and after it was switched on.\<close>

definition powering_down :: "CcidDesc \<Rightarrow> CcidDesc" where
  "powering_down s = (reset_atr s)\<lparr>bPowerFlags := bset MASK_POWERFLAGS_PDWN (bPowerFlags s)\<rparr>"

definition powered_up :: "nat \<Rightarrow> UCHAR list \<Rightarrow> CcidDesc \<Rightarrow> CcidDesc" where
  "powered_up i answer s = s\<lparr>bPowerFlags := bclr MASK_POWERFLAGS_PDWN (bset MASK_POWERFLAGS_PUP (bPowerFlags s)),
     nATRLength := length answer, pcATRBuffer := store 0 answer (pcATRBuffer s), slot_t1 := t1_init (slot_t1 s) (int i)\<rparr>"

definition IFDHPowerICC :: "'u usb_system \<Rightarrow> DWORD \<Rightarrow> DWORD \<Rightarrow> UCHAR list \<Rightarrow> 'u ccid_driver
    \<Rightarrow> (LONG \<times> UCHAR list \<times> DWORD \<times> 'u ccid_driver) option" where
  "IFDHPowerICC sys Lun Action Atr d =
    (case LunToReaderIndex (sint Lun) d of
       None \<Rightarrow> Some (IFD_COMMUNICATION_ERROR, Atr, 0, d)
     | Some i \<Rightarrow>
        if Action = IFD_POWER_DOWN then do {
          (ret, d1) \<leftarrow> on_port sys i CmdPowerOff (upd_slot i powering_down d);
          Some (if ret \<noteq> IFD_SUCCESS then (IFD_ERROR_POWER_ACTION, Atr, 0, d1)
            else (IFD_SUCCESS, Atr, 0, upd_slot i (\<lambda>s. s\<lparr>slot_t1 := t1_release (slot_t1 s)\<rparr>) d1))
        }
        else if Action = IFD_POWER_UP \<or> Action = IFD_RESET then do {
          ((ret, nlength, pcbuffer), d1) \<leftarrow> on_port sys i (power_up (PowerOnVoltage d)) d;
          let n = min (unat nlength) MAX_ATR_SIZE;
          if ret \<noteq> IFD_SUCCESS then Some (IFD_ERROR_POWER_ACTION, Atr, 0, d1)
          else if length Atr < n \<or> length pcbuffer < n then None
          else Some (IFD_SUCCESS, store 0 (take n pcbuffer) Atr, word_of_nat n, upd_slot i (powered_up i (take n pcbuffer)) d1)
        }
        else Some (IFD_NOT_SUPPORTED, Atr, 0, d))"

text \<open>\<open>tx\<close> are the \<^verbatim>\<open>TxLength\<close> bytes of the command. The length received is left alone when the reader is unknown.\<close>

definition IFDHTransmitToICC :: "'u usb_system \<Rightarrow> DWORD \<Rightarrow> DWORD \<Rightarrow> UCHAR list \<Rightarrow> UCHAR list \<Rightarrow> DWORD \<Rightarrow> 'u ccid_driver
    \<Rightarrow> (LONG \<times> UCHAR list \<times> DWORD \<times> 'u ccid_driver) option" where
  "IFDHTransmitToICC sys Lun protocol tx RxBuffer RxLength d =
    (case LunToReaderIndex (sint Lun) d of
       None \<Rightarrow> Some (IFD_COMMUNICATION_ERROR, RxBuffer, RxLength, d)
     | Some i \<Rightarrow> do {
         ((ret, n, b, t), d1) \<leftarrow> on_port sys i (\<lambda>lib c. map_option (\<lambda>(r, n, b, t, c). ((r, n, b, t), c))
            (CmdXfrBlock lib tx RxLength RxBuffer (sint protocol) (slot_t1 (CcidSlots d ! i)) c)) d;
         Some (ret, b, if ret = IFD_SUCCESS then n else 0, upd_slot i (\<lambda>s. s\<lparr>slot_t1 := t\<rparr>) d1)
       })"

definition at_byte :: "UCHAR list \<Rightarrow> nat \<Rightarrow> UCHAR option" where
  "at_byte xs i = (if i < length xs then Some (xs ! i) else None)"

text \<open>The commands of a Gemalto reader that need no authorisation. \<open>tx\<close> are the \<^verbatim>\<open>TxLength\<close> bytes.\<close>

definition gemalto_command :: "DWORD \<Rightarrow> UCHAR list \<Rightarrow> bool" where
  "gemalto_command ID tx \<longleftrightarrow> drop_bit 16 ID AND 0xFFFF = 0x08E6 \<and>
    (tx = [0x02] \<or> ID = 0x08E65503 \<and> length tx = 6 \<and> take 5 tx = [0x52, 0xF8, 0x04, 0x01, 0x00])"

text \<open>The MCT commands that are let through. The five bytes are read whatever the length of the command is: \<open>mem\<close> is what \<^verbatim>\<open>TxBuffer\<close> points to.\<close>

definition mct_command :: "UCHAR list \<Rightarrow> bool option" where
  "mct_command mem = do {
     cla \<leftarrow> at_byte mem 0;
     if cla \<noteq> 0x20 then Some False
     else do {
       ins \<leftarrow> at_byte mem 1;
       if ins AND 0xF0 \<noteq> 0x70 \<or> 4 < ins AND 0x0F then Some False
       else do {
         p1 \<leftarrow> at_byte mem 2;
         if p1 \<noteq> 0 then Some False
         else do {
           p2 \<leftarrow> at_byte mem 3;
           if p2 \<noteq> 0 then Some False else map_option (\<lambda>l. l = 0) (at_byte mem 4)
         }
       }
     }
   }"

text \<open>A record of the answer to \<^verbatim>\<open>CM_IOCTL_GET_FEATURE_REQUEST\<close>: the control code of a feature in big endian order.\<close>

definition feature_tlv :: "UCHAR \<Rightarrow> UCHAR list" where
  "feature_tlv tag = [tag, 4, 0x42, 0x33, 0x00, tag]"

definition features :: "'u ccid \<Rightarrow> UCHAR list" where
  "features c = (if flag (bPINSupport c) 1 then feature_tlv 0x06 else []) @ (if flag (bPINSupport c) 2 then feature_tlv 0x07 else [])
    @ feature_tlv 0x0A @ (if readerID c = 0x0D463010 then feature_tlv 0x08 else [])"

text \<open>The part of \<^verbatim>\<open>IFDHControl\<close> after the tests of its arguments: return code, receive buffer and number of bytes returned. \<open>mem\<close> begins with the
  command \<open>tx\<close>.\<close>

definition control :: "DWORD \<Rightarrow> DWORD \<Rightarrow> UCHAR list \<Rightarrow> UCHAR list \<Rightarrow> UCHAR list \<Rightarrow> DWORD \<Rightarrow> t1_state \<Rightarrow> 'u libusb \<Rightarrow> 'u ccid
    \<Rightarrow> ((LONG \<times> UCHAR list \<times> DWORD \<times> t1_state) \<times> 'u ccid) option" where
  "control options code mem tx RxBuffer RxLength t1 lib c =
    (let escape = map_option (\<lambda>(r, n, b, c1). ((r, b, n, t1), c1)) (CmdEscape lib tx RxBuffer RxLength c);
         refused = Some ((IFD_COMMUNICATION_ERROR, RxBuffer, 0, t1), c);
         pin = map_option (\<lambda>(r, n, b, t, c1). ((r, b, n, t), c1)) in
     if code = 0x42000001 then
       if flag options DRIVER_OPTION_CCID_EXCHANGE_AUTHORIZED \<or> gemalto_command (readerID c) tx then escape else refused
     else if code = 0x42000D48 then
       if RxLength < 24 then refused
       else if length RxBuffer < length (features c) then None
       else Some ((IFD_SUCCESS, store 0 (features c) RxBuffer, word_of_nat (length (features c)), t1), c)
     else if code = 0x4233000A then
       if RxLength < 4 then refused
       else if length RxBuffer < 4 then None
       else Some ((IFD_SUCCESS, store 0 [ucast (wLcdLayout c), ucast (drop_bit 8 (wLcdLayout c)), 7, 0] RxBuffer, 4, t1), c)
     else if code = 0x42330006 then pin (SecurePINVerify lib tx RxLength RxBuffer t1 c)
     else if code = 0x42330007 then pin (SecurePINModify lib tx RxLength RxBuffer t1 c)
     else if code = 0x42330008 then do {
       ok \<leftarrow> mct_command mem;
       if ok then escape else refused
     }
     else Some ((IFD_ERROR_NOT_SUPPORTED, RxBuffer, 0, t1), c))"

definition IFDHControl :: "'u usb_system \<Rightarrow> DWORD \<Rightarrow> DWORD \<Rightarrow> UCHAR list \<Rightarrow> DWORD \<Rightarrow> UCHAR list \<Rightarrow> DWORD \<Rightarrow> 'u ccid_driver
    \<Rightarrow> (LONG \<times> UCHAR list \<times> DWORD option \<times> 'u ccid_driver) option" where
  "IFDHControl sys Lun code TxBuffer TxLength RxBuffer RxLength d =
    (case LunToReaderIndex (sint Lun) d of
       None \<Rightarrow> Some (IFD_COMMUNICATION_ERROR, RxBuffer, None, d)
     | Some i \<Rightarrow>
        if length TxBuffer < unat TxLength then None
        else do {
          ((ret, b, n, t), d1) \<leftarrow> on_port sys i (control (DriverOptions d) code TxBuffer (take (unat TxLength) TxBuffer) RxBuffer RxLength
             (slot_t1 (CcidSlots d ! i))) d;
          Some (ret, b, Some (if ret \<noteq> IFD_SUCCESS then 0 else n), upd_slot i (\<lambda>s. s\<lparr>slot_t1 := t\<rparr>) d1)
        })"

text \<open>The slot status is asked for with the default timeout; \<open>status\<close> are the two low bits of \<^verbatim>\<open>bStatus\<close>.\<close>

definition ask_slot_status :: "'u libusb \<Rightarrow> 'u ccid \<Rightarrow> ((LONG \<times> UCHAR list) \<times> 'u ccid) option" where
  "ask_slot_status lib c = map_option (\<lambda>(r, b, c1). ((r, b), c1\<lparr>readTimeout := readTimeout c\<rparr>))
     (CmdGetSlotStatus lib (fresh_array 10 c) (c\<lparr>readTimeout := DEFAULT_COM_READ_TIMEOUT\<rparr>))"

definition report_presence :: "nat \<Rightarrow> UCHAR \<Rightarrow> 'u ccid_driver \<Rightarrow> LONG \<times> 'u ccid_driver" where
  "report_presence i status d =
    (let flags = bPowerFlags (CcidSlots d ! i) in
     if status = CCID_ICC_PRESENT_ACTIVE then (IFD_ICC_PRESENT, d)
     else if status = CCID_ICC_PRESENT_INACTIVE then
       if flags = POWERFLAGS_RAZ \<or> flag flags MASK_POWERFLAGS_PDWN then (IFD_ICC_PRESENT, d)
       else (IFD_ICC_NOT_PRESENT, upd_slot i (\<lambda>s. s\<lparr>bPowerFlags := POWERFLAGS_RAZ\<rparr>) d)
     else if status = CCID_ICC_ABSENT then
       (IFD_ICC_NOT_PRESENT, upd_slot i (\<lambda>s. (reset_atr s)\<lparr>bPowerFlags := POWERFLAGS_RAZ\<rparr>) d)
     else (IFD_COMMUNICATION_ERROR, d))"

definition IFDHICCPresence :: "'u usb_system \<Rightarrow> DWORD \<Rightarrow> 'u ccid_driver \<Rightarrow> (LONG \<times> 'u ccid_driver) option" where
  "IFDHICCPresence sys Lun d =
    (case LunToReaderIndex (sint Lun) d of
       None \<Rightarrow> Some (IFD_COMMUNICATION_ERROR, d)
     | Some i \<Rightarrow>
        if readerID (get_ccid_descriptor i d) = GEMCORESIMPRO then Some (dwSlotStatus (get_ccid_descriptor i d), d)
        else do {
          ((ret, pcbuffer), d1) \<leftarrow> on_port sys i ask_slot_status d;
          Some (if ret \<noteq> IFD_SUCCESS then (ret, d1) else report_presence i (pcbuffer ! 7 AND 0x03) d1)
        })"

text \<open>\<open>Value\<close> is \<open>None\<close> for a null pointer; \<open>version\<close> is \<^verbatim>\<open>CCID_VERSION\<close>, which the build sets.\<close>

definition put_value :: "UCHAR list \<Rightarrow> DWORD \<Rightarrow> UCHAR list option \<Rightarrow> (LONG \<times> DWORD \<times> UCHAR list option) option" where
  "put_value bytes Length Value =
    (case Value of
       None \<Rightarrow> if bytes = [] then Some (IFD_SUCCESS, Length, None) else None
     | Some v \<Rightarrow> if length v < length bytes then None else Some (IFD_SUCCESS, Length, Some (store 0 bytes v)))"

definition IFDHGetCapabilities :: "DWORD \<Rightarrow> DWORD \<Rightarrow> DWORD \<Rightarrow> DWORD \<Rightarrow> UCHAR list option \<Rightarrow> 'u ccid_driver
    \<Rightarrow> (LONG \<times> DWORD \<times> UCHAR list option) option" where
  "IFDHGetCapabilities version Lun Tag Length Value d =
    (case LunToReaderIndex (sint Lun) d of
       None \<Rightarrow> Some (IFD_COMMUNICATION_ERROR, Length, Value)
     | Some i \<Rightarrow>
        let slot = CcidSlots d ! i; c = get_ccid_descriptor i d;
            one = (\<lambda>b. if 1 \<le> Length then put_value [b] 1 Value else Some (IFD_SUCCESS, Length, Value));
            fixed = (\<lambda>bytes. if Value = None then Some (IFD_SUCCESS, word_of_nat (length bytes), None)
               else put_value bytes (word_of_nat (length bytes)) Value) in
        if Tag = TAG_IFD_ATR \<or> Tag = 0x90303 then
          let n = min (unat Length) (nATRLength slot) in put_value (take n (pcATRBuffer slot)) (word_of_nat n) Value
        else if Tag = TAG_IFD_SIMULTANEOUS_ACCESS then one (word_of_nat CCID_DRIVER_MAX_READERS)
        else if Tag = TAG_IFD_THREAD_SAFE then one 1
        else if Tag = TAG_IFD_SLOTS_NUMBER then one (1 + bMaxSlotIndex c)
        else if Tag = TAG_IFD_SLOT_THREAD_SAFE then one 0
        else if Tag = 0x10102 then fixed (i2dw version)
        else if Tag = 0x10100 then fixed (map of_char ''Ludovic Rousseau'' @ [0])
        else if Tag = 0x7A007 then fixed (i2dw (dwMaxCCIDMessageLength c - 10))
        else Some (IFD_ERROR_TAG, Length, Value))"

subsection \<open>Creating and closing a channel\<close>

definition set_exchange :: "DWORD \<Rightarrow> 'u ccid \<Rightarrow> 'u ccid" where
  "set_exchange class c = c\<lparr>dwFeatures := bset class (bclr CCID_CLASS_EXCHANGE_MASK (dwFeatures c))\<rparr>"

text \<open>ICCD devices are powered off, on and off again; the results are ignored.\<close>

definition power_cycle :: "'u libusb \<Rightarrow> 'u ccid \<Rightarrow> 'u ccid option" where
  "power_cycle lib c = do {
     (r, c1) \<leftarrow> CmdPowerOff lib c;
     (r, n, b, c2) \<leftarrow> CmdPowerOn lib (word_of_nat MAX_ATR_SIZE) (fresh_array MAX_ATR_SIZE c) 8 c1;
     map_option snd (CmdPowerOff lib c2)
   }"

definition ccid_open_hack_pre :: "'u libusb \<Rightarrow> 'u ccid \<Rightarrow> (unit \<times> 'u ccid) option" where
  "ccid_open_hack_pre lib c =
    (let c1 = (if readerID c = 0x076B3022 then set_exchange CCID_CLASS_TPDU c
               else if readerID c = 0x09BE0002 then c\<lparr>dwMaxIFSD := 254\<rparr>
               else if readerID c = 0x0B810200 then c\<lparr>readTimeout := 60\<rparr> else c) in
     if bInterfaceProtocol c1 = 0 then Some ((), snd (InterruptRead lib 10 c1))
     else if bInterfaceProtocol c1 = ICCD_A then map_option (Pair ()) (power_cycle lib c1)
     else if bInterfaceProtocol c1 = ICCD_B then
       map_option (Pair ()) (power_cycle lib
         (if dwFeatures c1 AND CCID_CLASS_EXCHANGE_MASK = CCID_CLASS_SHORT_APDU then set_exchange CCID_CLASS_EXTENDED_APDU c1 else c1))
     else Some ((), c1))"

text \<open>The texts for the display of a PIN pad. \<open>lang\<close> is the value of the environment variable.\<close>

definition l10n :: "string option \<Rightarrow> string list" where
  "l10n LANG =
    (let lang = (case LANG of Some s \<Rightarrow> s | None \<Rightarrow> ''en'') in
     if take 2 lang = ''fr'' then [''Entrer PIN'', ''Nouveau PIN'', ''Confirmer PIN'', ''PIN correct'', ''PIN Incorrect !'', 
        ''Delai depasse'', ''* essai restant'', ''Inserer carte'', ''Erreur carte'', ''PIN bloque'']
     else if take 2 lang = ''de'' then [''PIN eingeben'', ''Neue PIN'', ''PIN bestatigen'', ''PIN korrect'', ''Falsche PIN !'', 
        ''Zeit abgelaufen'', ''* Versuche ubrig'', ''Karte einstecken'', ''Fehler Karte'', ''PIN blockiert'']
     else if take 2 lang = ''es'' then [''Introducir PIN'', ''Nuevo PIN'', ''Confirmar PIN'', ''PIN OK'', ''PIN Incorrecto !'', 
        ''Tiempo Agotado'', ''* ensayos quedan'', ''Introducir Tarj.'', ''Error en Tarjeta'', ''PIN bloqueado'']
     else if take 2 lang = ''it'' then [''Inserire PIN'', ''Nuovo PIN'', ''Confermare PIN'', ''PIN Corretto'', ''PIN Errato !'', 
        ''Tempo scaduto'', ''* prove rimaste'', ''Inserire Carta'', ''Errore Carta'', ''PIN ostruito'']
     else if take 2 lang = ''pt'' then [''Insira PIN'', ''Novo PIN'', ''Conf. novo PIN'', ''PIN OK'', ''PIN falhou!'', 
        ''Tempo expirou'', ''* tentiv. restam'', ''Introduza cartao'', ''Erro cartao'', ''PIN bloqueado'']
     else if take 2 lang = ''nl'' then [''Inbrengen code'', ''Nieuwe code'', ''Bevestig code'', ''Code aanvaard'', ''Foute code'', 
        ''Time out'', ''* Nog Pogingen'', ''Kaart inbrengen'', ''Kaart fout'', ''Kaart blok'']
     else if take 2 lang = ''tr'' then [''PIN Giriniz'', ''Yeni PIN'', ''PIN Onayala'', ''PIN OK'', ''Yanlis PIN'', 
        ''Zaman Asimi'', ''* deneme kaldi'', ''Karti Takiniz'', ''Kart Hatasi'', ''Kart Kilitli'']
     else [''Enter PIN'', ''New PIN'', ''Confirm PIN'', ''PIN OK'', ''Incorrect PIN!'', 
        ''Time Out'', ''* retries left'', ''Insert Card'', ''Card Error'', ''PIN blocked''])"

definition pad_16 :: "string \<Rightarrow> string" where
  "pad_16 s = s @ replicate (16 - length s) (CHR '' '')"

definition l10n_message :: "string option \<Rightarrow> UCHAR list" where
  "l10n_message LANG = [0xB2, 0xA0, 0x00, 0x4D, 0x4C] @ map of_char (concat (map pad_16 (l10n LANG)))"

definition ccid_open_hack_post :: "string option \<Rightarrow> DWORD \<Rightarrow> 'u libusb \<Rightarrow> 'u ccid \<Rightarrow> (unit \<times> 'u ccid) option" where
  "ccid_open_hack_post LANG options lib c =
    (if readerID c = 0x08E63438 \<or> readerID c = 0x08E63437 then
       if flag options DRIVER_OPTION_GEMPC_TWIN_KEY_APDU then do {
         (ret, n, b, c1) \<leftarrow> CmdEscape lib [0xA0, 0x02] (fresh_array 10 c) 10 c;
         Some ((), if ret = IFD_SUCCESS then set_exchange CCID_CLASS_SHORT_APDU c1 else c1)
       }
       else Some ((), c)
     else if readerID c = GEMPCPINPAD then
       if length (l10n_message LANG) \<noteq> 165 then None
       else map_option (\<lambda>(ret, n, b, c1). ((), c1)) (CmdEscape lib (l10n_message LANG) (fresh_array 20 c) 20 c)
     else Some ((), c))"

definition init_driver :: "plist \<Rightarrow> 'u ccid_driver \<Rightarrow> 'u ccid_driver" where
  "init_driver info d =
    (let options = (case LTPBundleFindValueWithKey info ''ifdDriverOptions'' 0 of Some v \<Rightarrow> strtoul0 v | None \<Rightarrow> DriverOptions d);
         v = drop_bit 4 options AND 3 in
     (InitReaderIndex d)\<lparr>DriverOptions := options, PowerOnVoltage := (if v = 0 then 1 else if v = 1 then 2 else if v = 2 then 3 else 0),
       DebugInitialized := True\<rparr>)"

text \<open>The end of both functions that create a channel: the reader is asked for its status at most three times.\<close>

definition ask_thrice :: "'u usb_system \<Rightarrow> DWORD \<Rightarrow> 'u ccid_driver \<Rightarrow> (LONG \<times> 'u ccid_driver) option" where
  "ask_thrice sys Lun d = do {
     (r, d1) \<leftarrow> IFDHICCPresence sys Lun d;
     (r, d2) \<leftarrow> (if r = IFD_COMMUNICATION_ERROR then IFDHICCPresence sys Lun d1 else Some (r, d1));
     if r = IFD_COMMUNICATION_ERROR then IFDHICCPresence sys Lun d2 else Some (r, d2)
   }"

definition warm_up :: "'u usb_system \<Rightarrow> string option \<Rightarrow> DWORD \<Rightarrow> nat \<Rightarrow> 'u ccid_driver \<Rightarrow> (LONG \<times> 'u ccid_driver) option" where
  "warm_up sys LANG Lun i d = do {
     (u, d0) \<leftarrow> on_port sys i ccid_open_hack_pre d;
     (r, d1) \<leftarrow> ask_thrice sys Lun d0;
     if r = IFD_COMMUNICATION_ERROR then Some (IFD_COMMUNICATION_ERROR, ReleaseReaderIndex i (snd (CloseUSB sys i d1)))
     else map_option (\<lambda>(u, d2). (IFD_SUCCESS, d2)) (on_port sys i (ccid_open_hack_post LANG (DriverOptions d1)) d1)
   }"

definition create_channel :: "'u usb_system \<Rightarrow> plist \<Rightarrow> string option \<Rightarrow> DWORD \<Rightarrow> string \<Rightarrow> string option \<Rightarrow> 'u ccid_driver
    \<Rightarrow> (LONG \<times> 'u ccid_driver) option" where
  "create_channel sys info LANG Lun name device d =
    (let d0 = (if DebugInitialized d then d else init_driver info d) in
     case GetNewReaderIndex (sint Lun) d0 of
       (None, d1) \<Rightarrow> Some (IFD_COMMUNICATION_ERROR, d1)
     | (Some i, d1) \<Rightarrow> do {
         (st, d2) \<leftarrow> OpenUSBByName sys info i device
            (upd_slot i (\<lambda>s. (reset_atr s)\<lparr>bPowerFlags := POWERFLAGS_RAZ, slot_readerName := Some name\<rparr>) d1);
         if st \<noteq> STATUS_SUCCESS then
           Some (if st = STATUS_NO_SUCH_DEVICE \<and> device \<noteq> None then IFD_NO_SUCH_DEVICE else IFD_COMMUNICATION_ERROR, ReleaseReaderIndex i d2)
         else warm_up sys LANG Lun i d2
       })"

definition IFDHCreateChannelByName :: "'u usb_system \<Rightarrow> plist \<Rightarrow> string option \<Rightarrow> DWORD \<Rightarrow> string \<Rightarrow> 'u ccid_driver
    \<Rightarrow> (LONG \<times> 'u ccid_driver) option" where
  "IFDHCreateChannelByName sys info LANG Lun device d = create_channel sys info LANG Lun device (Some device) d"

definition IFDHCreateChannel :: "'u usb_system \<Rightarrow> plist \<Rightarrow> string option \<Rightarrow> DWORD \<Rightarrow> 'u ccid_driver \<Rightarrow> (LONG \<times> 'u ccid_driver) option" where
  "IFDHCreateChannel sys info LANG Lun d = create_channel sys info LANG Lun ''no name'' None d"

text \<open>\<^verbatim>\<open>memset(&CcidSlots[reader_index], 0, ...)\<close>; a null \<^verbatim>\<open>checksum\<close> is the function without bytes.\<close>

definition zero_slot :: CcidDesc where
  "zero_slot = \<lparr>nATRLength = 0, pcATRBuffer = replicate MAX_ATR_SIZE 0, bPowerFlags = 0,
     slot_t1 = \<lparr>t1_lun = 0, t1_st = 0, t1_ns = 0, t1_nr = 0, t1_ifsc = 0, t1_ifsd = 0, t1_wtx = 0, t1_retries = 0, t1_rc_bytes = 0,
       t1_checksum = (\<lambda>_. []), t1_more = False, t1_previous_block = replicate 4 0\<rparr>, slot_readerName = None\<rparr>"

definition IFDHCloseChannel :: "'u usb_system \<Rightarrow> DWORD \<Rightarrow> 'u ccid_driver \<Rightarrow> (LONG \<times> 'u ccid_driver) option" where
  "IFDHCloseChannel sys Lun d =
    (case LunToReaderIndex (sint Lun) d of
       None \<Rightarrow> Some (IFD_COMMUNICATION_ERROR, d)
     | Some i \<Rightarrow> do {
         (r, d1) \<leftarrow> on_port sys i (\<lambda>lib c. CmdPowerOff lib (c\<lparr>readTimeout := DEFAULT_COM_READ_TIMEOUT\<rparr>)) d;
         Some (IFD_SUCCESS, upd_slot i (\<lambda>_. zero_slot) (ReleaseReaderIndex i (snd (CloseUSB sys i d1))))
       })"

end
