(* ===== verification/Interfaces.thy ===== *)
theory Interfaces
  imports Prelude
begin

section \<open>Interfaces between the components\<close>

text \<open>
  Three contracts that several parts of the daemon rely on, each with the client lemmas proved once.
  \<open>handle_table\<close>: an array of card handles with 0 for a free cell, as in \<^verbatim>\<open>psHandles\<close> of a reader
  (readerfactory.c) and in \<^verbatim>\<open>hCard\<close> of an application context (winscard\_svc.c).
  \<open>reentrant_lock\<close>: a lock that its owner may take again, as the sharing lock of a reader.
  \<open>guarded_system\<close>: a state machine with an invariant every step keeps.
\<close>

subsection \<open>Tables of handles\<close>

text \<open>The handles a table holds, as a multiset.\<close>

definition live :: "SCARDHANDLE list \<Rightarrow> SCARDHANDLE multiset" where
  "live cs = filter_mset (\<lambda>c. c \<noteq> 0) (mset cs)"

lemma live_update:
  "j < length cs \<Longrightarrow> live (cs[j := x]) =
     (if x \<noteq> 0 then {#x#} else {#}) + (live cs - (if cs ! j \<noteq> 0 then {#cs ! j#} else {#}))"
  by (simp add: live_def mset_update)

lemma in_live_iff [simp]: "h \<in># live cs \<longleftrightarrow> h \<noteq> 0 \<and> h \<in> set cs"
  by (auto simp: live_def)

lemma size_live: "size (live cs) = count_if (\<lambda>c. c \<noteq> 0) cs"
  by (simp add: live_def count_if_def flip: mset_filter)

locale handle_table =
  fixes slots :: "'t \<Rightarrow> SCARDHANDLE list"
    and add :: "'t \<Rightarrow> SCARDHANDLE \<Rightarrow> LONG \<times> 't"
    and remove :: "'t \<Rightarrow> SCARDHANDLE \<Rightarrow> LONG \<times> 't"
    and full :: LONG
    and missing :: LONG
  assumes add_free: "first_index (\<lambda>c. c = 0) (slots t) = Some j \<Longrightarrow>
      fst (add t h) = SCARD_S_SUCCESS \<and> slots (snd (add t h)) = (slots t)[j := h]"
    and add_full: "first_index (\<lambda>c. c = 0) (slots t) = None \<Longrightarrow> add t h = (full, t)"
    and remove_found: "first_index (\<lambda>c. c = h) (slots t) = Some j \<Longrightarrow>
      fst (remove t h) = SCARD_S_SUCCESS \<and> slots (snd (remove t h)) = (slots t)[j := 0]"
    and remove_missing: "first_index (\<lambda>c. c = h) (slots t) = None \<Longrightarrow> remove t h = (missing, t)"
    and full_error: "full \<noteq> SCARD_S_SUCCESS"
    and missing_error: "missing \<noteq> SCARD_S_SUCCESS"
begin

lemma add_ok_iff: "fst (add t h) = SCARD_S_SUCCESS \<longleftrightarrow> 0 \<in> set (slots t)"
proof (cases "first_index (\<lambda>c. c = 0) (slots t)")
  case None
  with add_full [OF None, of h] full_error show ?thesis by auto
next
  case (Some j)
  with add_free [OF Some, of h] first_index_SomeD [OF Some] show ?thesis
    by (metis nth_mem)
qed

lemma add_ok_capacity: "fst (add t h) = SCARD_S_SUCCESS \<longleftrightarrow> size (live (slots t)) < length (slots t)"
  by (auto simp: add_ok_iff size_live count_if_less_iff)

lemma add_live:
  "fst (add t h) = SCARD_S_SUCCESS \<Longrightarrow> h \<noteq> 0 \<Longrightarrow> live (slots (snd (add t h))) = add_mset h (live (slots t))"
proof (cases "first_index (\<lambda>c. c = 0) (slots t)")
  case None
  assume "fst (add t h) = SCARD_S_SUCCESS"
  with add_full [OF None, of h] full_error show ?thesis by simp
next
  case (Some j)
  assume "h \<noteq> 0"
  with add_free [OF Some, of h] first_index_SomeD [OF Some] show ?thesis
    by (simp add: live_update)
qed

lemma add_fails: "fst (add t h) \<noteq> SCARD_S_SUCCESS \<Longrightarrow> add t h = (full, t)"
  using add_free add_full by (metis option.exhaust)

lemma remove_ok_iff: "fst (remove t h) = SCARD_S_SUCCESS \<longleftrightarrow> h \<in> set (slots t)"
proof (cases "first_index (\<lambda>c. c = h) (slots t)")
  case None
  with remove_missing [OF None] missing_error show ?thesis by auto
next
  case (Some j)
  with remove_found [OF Some] first_index_SomeD [OF Some] show ?thesis by auto
qed

lemma remove_live:
  "h \<noteq> 0 \<Longrightarrow> live (slots (snd (remove t h))) = live (slots t) - {#h#}"
proof (cases "first_index (\<lambda>c. c = h) (slots t)")
  case None
  assume "h \<noteq> 0"
  from None have "h \<notin># live (slots t)" by auto
  with remove_missing [OF None] show ?thesis by (simp add: diff_single_trivial)
next
  case (Some j)
  assume "h \<noteq> 0"
  with remove_found [OF Some] first_index_SomeD [OF Some] show ?thesis
    by (simp add: live_update)
qed

lemma remove_fails: "fst (remove t h) \<noteq> SCARD_S_SUCCESS \<Longrightarrow> remove t h = (missing, t)"
  using remove_found remove_missing by (metis option.exhaust)

text \<open>Adding a handle and removing it again leaves the same handles.\<close>

lemma add_remove:
  assumes "fst (add t h) = SCARD_S_SUCCESS" and "h \<noteq> 0"
  shows "fst (remove (snd (add t h)) h) = SCARD_S_SUCCESS
    \<and> live (slots (snd (remove (snd (add t h)) h))) = live (slots t)"
proof -
  from add_live [OF assms] have l: "live (slots (snd (add t h))) = add_mset h (live (slots t))" .
  then have "h \<in> set (slots (snd (add t h)))" by (metis in_live_iff union_single_eq_member)
  with l assms(2) show ?thesis by (simp add: remove_ok_iff remove_live)
qed

lemma slots_length [simp]:
  "length (slots (snd (add t h))) = length (slots t)"
  "length (slots (snd (remove t h))) = length (slots t)"
  using add_free [of t _ h] add_full [of t h] remove_found [of h t] remove_missing [of h t]
  by (metis length_list_update option.exhaust snd_conv)+

end

subsection \<open>Reentrant locks\<close>

text \<open>The abstract lock: free, or held by an owner to a depth of at least one.\<close>

type_synonym lock = "(SCARDHANDLE \<times> nat) option"

fun may_lock :: "lock \<Rightarrow> SCARDHANDLE \<Rightarrow> bool" where
  "may_lock None h = True"
| "may_lock (Some (own, n)) h = (own = h)"

fun lock_acquire :: "lock \<Rightarrow> SCARDHANDLE \<Rightarrow> lock" where
  "lock_acquire None h = Some (h, 1)"
| "lock_acquire (Some (own, n)) h = Some (own, Suc n)"

fun lock_release :: "lock \<Rightarrow> lock" where
  "lock_release None = None"
| "lock_release (Some (own, n)) = (if n \<le> 1 then None else Some (own, n - 1))"

locale reentrant_lock =
  fixes lock :: "'s \<Rightarrow> lock"
    and serves :: "'s \<Rightarrow> SCARDHANDLE \<Rightarrow> bool"
    and acquire :: "SCARDHANDLE \<Rightarrow> 's \<Rightarrow> LONG \<times> 's"
    and release :: "SCARDHANDLE \<Rightarrow> 's \<Rightarrow> LONG \<times> 's"
    and release_all :: "SCARDHANDLE \<Rightarrow> 's \<Rightarrow> LONG \<times> 's"
  assumes depth: "serves s h \<Longrightarrow> lock s = Some (own, n) \<Longrightarrow> 1 \<le> n"
    and acquire_ok: "serves s h \<Longrightarrow> may_lock (lock s) h \<Longrightarrow>
      fst (acquire h s) = SCARD_S_SUCCESS \<and> lock (snd (acquire h s)) = lock_acquire (lock s) h
      \<and> serves (snd (acquire h s)) h"
    and acquire_refused: "serves s h \<Longrightarrow> \<not> may_lock (lock s) h \<Longrightarrow>
      acquire h s = (SCARD_E_SHARING_VIOLATION, s)"
    and release_ok: "serves s h \<Longrightarrow> may_lock (lock s) h \<Longrightarrow>
      fst (release h s) = SCARD_S_SUCCESS \<and> lock (snd (release h s)) = lock_release (lock s)
      \<and> serves (snd (release h s)) h"
    and release_refused: "serves s h \<Longrightarrow> \<not> may_lock (lock s) h \<Longrightarrow>
      release h s = (SCARD_E_SHARING_VIOLATION, s)"
    and release_all_ok: "serves s h \<Longrightarrow> may_lock (lock s) h \<Longrightarrow>
      fst (release_all h s) = SCARD_S_SUCCESS \<and> lock (snd (release_all h s)) = None
      \<and> serves (snd (release_all h s)) h"
    and release_all_refused: "serves s h \<Longrightarrow> \<not> may_lock (lock s) h \<Longrightarrow>
      release_all h s = (SCARD_E_SHARING_VIOLATION, s)"
begin

text \<open>While somebody else holds the lock, none of the operations succeeds or changes anything.\<close>

lemma excluded:
  assumes "serves s h" and "lock s = Some (own, n)" and "own \<noteq> h"
  shows "acquire h s = (SCARD_E_SHARING_VIOLATION, s) \<and> release h s = (SCARD_E_SHARING_VIOLATION, s)
    \<and> release_all h s = (SCARD_E_SHARING_VIOLATION, s)"
  using assms acquire_refused release_refused release_all_refused by simp

lemma acquire_funpow:
  "serves s h \<Longrightarrow> may_lock (lock s) h \<Longrightarrow>
     serves (((\<lambda>s. snd (acquire h s)) ^^ n) s) h \<and> may_lock (lock (((\<lambda>s. snd (acquire h s)) ^^ n) s)) h
     \<and> lock (((\<lambda>s. snd (acquire h s)) ^^ n) s) = ((\<lambda>l. lock_acquire l h) ^^ n) (lock s)"
proof (induction n)
  case (Suc n)
  define t where "t = ((\<lambda>s. snd (acquire h s)) ^^ n) s"
  from Suc have t: "serves t h" "may_lock (lock t) h" "lock t = ((\<lambda>l. lock_acquire l h) ^^ n) (lock s)"
    unfolding t_def by blast+
  moreover have "may_lock (lock_acquire (lock t) h) h"
    using t(2) by (cases "lock t") auto
  ultimately show ?case using acquire_ok [OF t(1,2)] by (simp flip: t_def)
qed simp

lemma release_acquire: "serves s h \<Longrightarrow> may_lock (lock s) h \<Longrightarrow>
    lock (snd (release h (snd (acquire h s)))) = lock s"
proof -
  assume s: "serves s h" and m: "may_lock (lock s) h"
  note a = acquire_ok [OF s m]
  have "may_lock (lock_acquire (lock s) h) h"
    using m by (cases "lock s") auto
  with a release_ok [of "snd (acquire h s)" h]
  have "lock (snd (release h (snd (acquire h s)))) = lock_release (lock_acquire (lock s) h)" by simp
  also have "\<dots> = lock s"
    using depth [OF s] by (cases "lock s") auto
  finally show ?thesis .
qed

text \<open>A sequence of nested acquisitions is undone by as many releases.\<close>

lemma nested:
  "serves s h \<Longrightarrow> may_lock (lock s) h \<Longrightarrow>
     lock (((\<lambda>s. snd (release h s)) ^^ n) (((\<lambda>s. snd (acquire h s)) ^^ n) s)) = lock s"
proof (induction n)
  case (Suc n)
  define t where "t = ((\<lambda>s. snd (acquire h s)) ^^ n) s"
  have t: "serves t h" "may_lock (lock t) h"
    using acquire_funpow [OF Suc.prems, of n] unfolding t_def by blast+
  define u where "u = snd (release h (snd (acquire h t)))"
  have lu: "lock u = lock t" unfolding u_def by (rule release_acquire [OF t])
  have su: "serves u h"
    using acquire_ok [OF t] release_ok [of "snd (acquire h t)" h] t(2) unfolding u_def
    by (cases "lock t") auto
  have same: "serves x h \<Longrightarrow> serves y h \<Longrightarrow> lock x = lock y \<Longrightarrow> may_lock (lock x) h \<Longrightarrow>
      lock (((\<lambda>s. snd (release h s)) ^^ k) x) = lock (((\<lambda>s. snd (release h s)) ^^ k) y)" for x y k
  proof (induction k arbitrary: x y)
    case (Suc k)
    have "may_lock (lock_release (lock x)) h" using Suc.prems(4) by (cases "lock x") auto
    with Suc.prems release_ok [of x h] release_ok [of y h]
    have "lock (((\<lambda>s. snd (release h s)) ^^ k) (snd (release h x))) = lock (((\<lambda>s. snd (release h s)) ^^ k) (snd (release h y)))"
      by (intro Suc.IH) simp_all
    then show ?case by (simp add: funpow_Suc_right del: funpow.simps)
  qed simp
  have "lock (((\<lambda>s. snd (release h s)) ^^ n) u) = lock (((\<lambda>s. snd (release h s)) ^^ n) t)"
    by (rule same) (use t lu su in simp_all)
  moreover have "((\<lambda>s. snd (release h s)) ^^ Suc n) (((\<lambda>s. snd (acquire h s)) ^^ Suc n) s) =
      ((\<lambda>s. snd (release h s)) ^^ n) u"
    unfolding u_def t_def by (subst funpow_Suc_right [of n "\<lambda>s. snd (release h s)"]) simp
  ultimately show ?case using Suc by (simp only: t_def)
qed simp

end

subsection \<open>Invariants of state machines\<close>

locale guarded_system =
  fixes step :: "'s \<Rightarrow> 's \<Rightarrow> bool"
    and good :: "'s \<Rightarrow> bool"
  assumes step_good: "step s t \<Longrightarrow> good s \<Longrightarrow> good t"
begin

lemma run_good: "step\<^sup>*\<^sup>* s t \<Longrightarrow> good s \<Longrightarrow> good t"
  by (induction rule: rtranclp_induct) (auto intro: step_good)

end

end
