(* ===== verification/Ccid_Inv.thy ===== *)
theory Ccid_Inv
  imports Ccid_Ifd Interfaces
begin

section \<open>The tables of the CCID driver\<close>

text \<open>
  The invariant of the driver: an index is given to a logical unit exactly as long as a device is open there, no unit has two
  indices, the shared counters are entries of the table, and the ATR of a slot fits its buffer. Every call of the daemon keeps it, whatever the reader
  answers.
\<close>

definition shape :: "'u usbDevice \<Rightarrow> int option \<times> nat \<times> nat" where
  "shape x = (handle x, pbSeq x, nb_opened_slots x)"

definition entries_ok :: "nat option \<Rightarrow> (int option \<times> nat \<times> nat) list \<Rightarrow> bool" where
  "entries_ok previous shs \<longleftrightarrow> length shs = 16 \<and> (\<forall>r. previous = Some r \<longrightarrow> r < 16)
    \<and> (\<forall>i<16. fst (shs ! i) \<noteq> None \<longrightarrow> fst (snd (shs ! i)) < 16 \<and> snd (snd (shs ! i)) < 16)"

definition tables_ok :: "bool \<Rightarrow> int list \<Rightarrow> nat option \<Rightarrow> (int option \<times> nat \<times> nat) list \<Rightarrow> bool" where
  "tables_ok ready units previous shs \<longleftrightarrow>
    entries_ok previous shs \<and> length units = 16
    \<and> (\<forall>i<16. (fst (shs ! i) \<noteq> None) = (ready \<and> units ! i \<noteq> -1))
    \<and> (ready \<longrightarrow> (\<forall>i<16. \<forall>j<16. units ! i = units ! j \<and> units ! i \<noteq> -1 \<longrightarrow> i = j))"

definition slot_ok :: "CcidDesc \<Rightarrow> bool" where
  "slot_ok s \<longleftrightarrow> nATRLength s \<le> MAX_ATR_SIZE \<and> length (pcATRBuffer s) = MAX_ATR_SIZE"

definition driver_inv :: "'u ccid_driver \<Rightarrow> bool" where
  "driver_inv d \<longleftrightarrow> tables_ok (DebugInitialized d) (ReaderIndex d) (previous_reader_index d) (map shape (usbDevices d))
    \<and> length (CcidSlots d) = 16 \<and> (\<forall>s \<in> set (CcidSlots d). slot_ok s)"

text \<open>Everything but descriptors, counters and the world of USB is the same.\<close>

definition same_open :: "'u ccid_driver \<Rightarrow> 'u ccid_driver \<Rightarrow> bool" where
  "same_open d d' \<longleftrightarrow> ReaderIndex d' = ReaderIndex d \<and> CcidSlots d' = CcidSlots d \<and> DebugInitialized d' = DebugInitialized d
    \<and> previous_reader_index d' = previous_reader_index d \<and> map shape (usbDevices d') = map shape (usbDevices d)"

lemma same_open_refl [simp]: "same_open d d"
  by (simp add: same_open_def)

lemma same_open_trans: "same_open a b \<Longrightarrow> same_open b c \<Longrightarrow> same_open a c"
  by (simp add: same_open_def)

lemma same_open_inv: "same_open d d' \<Longrightarrow> driver_inv d' = driver_inv d"
  by (simp add: same_open_def driver_inv_def)

definition device_table_ok :: "'u ccid_driver \<Rightarrow> bool" where
  "device_table_ok d \<longleftrightarrow> entries_ok (previous_reader_index d) (map shape (usbDevices d))"

lemma same_open_devices: "same_open d d' \<Longrightarrow> device_table_ok d' = device_table_ok d"
  by (simp add: same_open_def device_table_ok_def)

lemma same_open_with_usb [simp]: "same_open d (with_usb d' u) = same_open d d'"
  by (simp add: same_open_def with_usb_def)

lemma map_shape_upd: "(\<And>x. shape (f x) = shape x) \<Longrightarrow> map shape (upd_at i f xs) = map shape xs"
  by (simp add: upd_at_def map_update) (metis list_update_id map_update)

lemma same_open_upd_device: "(\<And>x. shape (f x) = shape x) \<Longrightarrow> same_open d (upd_device i f d') = same_open d d'"
  by (simp add: same_open_def upd_device_def map_shape_upd)

lemma same_open_put: "same_open d (put_ccid_descriptor i c d)"
  by (simp add: same_open_def put_ccid_descriptor_def Let_def map_shape_upd shape_def)

lemma on_port_same: "on_port sys i f d = Some (r, d') \<Longrightarrow> same_open d d'"
  by (auto simp: on_port_def Let_def same_open_put split: option.splits)

lemma on_port_open: "on_port sys i f d = Some (r, d') \<Longrightarrow> handle (usbDevices d ! i) \<noteq> None"
  by (auto simp: on_port_def Let_def split: option.splits)

lemma upd_slot_inv: "driver_inv d \<Longrightarrow> (\<And>s. slot_ok s \<Longrightarrow> slot_ok (f s)) \<Longrightarrow> driver_inv (upd_slot i f d)"
  by (cases "i < length (CcidSlots d)")
     (auto simp: driver_inv_def upd_slot_def upd_at_def list_update_beyond dest!: set_update_subset_insert [THEN subsetD])

lemma slot_ok_simps [simp]:
  "slot_ok (s\<lparr>bPowerFlags := p\<rparr>) = slot_ok s" "slot_ok (s\<lparr>slot_t1 := t\<rparr>) = slot_ok s" "slot_ok (s\<lparr>slot_readerName := r\<rparr>) = slot_ok s"
  "slot_ok zero_slot" "slot_ok s \<Longrightarrow> slot_ok (reset_atr s)"
  by (simp_all add: slot_ok_def zero_slot_def reset_atr_def)

subsection \<open>Opening\<close>

text \<open>The device at index \<open>i\<close> was opened.\<close>

definition opened :: "nat \<Rightarrow> 'u ccid_driver \<Rightarrow> 'u ccid_driver \<Rightarrow> bool" where
  "opened i d d' \<longleftrightarrow> ReaderIndex d' = ReaderIndex d \<and> CcidSlots d' = CcidSlots d \<and> DebugInitialized d' = DebugInitialized d
    \<and> previous_reader_index d' = previous_reader_index d
    \<and> (\<exists>h k n. k < 16 \<and> n < 16 \<and> map shape (usbDevices d') = (map shape (usbDevices d))[i := (Some h, k, n)])"

definition turn_ok :: "nat \<Rightarrow> 'u ccid_driver \<Rightarrow> 'u open_turn \<Rightarrow> bool" where
  "turn_ok i d r = (case r of Continue w d' \<Rightarrow> same_open d d' | Fail d' \<Rightarrow> same_open d d' | Leave d' \<Rightarrow> same_open d d' \<or> opened i d d')"

lemma opened_trans: "same_open a b \<Longrightarrow> opened i b c \<Longrightarrow> opened i a c"
  by (auto simp: same_open_def opened_def)

lemma turn_ok_trans: "same_open a b \<Longrightarrow> turn_ok i b r \<Longrightarrow> turn_ok i a r"
  by (auto simp: turn_ok_def split: open_turn.splits intro: same_open_trans opened_trans)

lemma new_device_opened: "i < 16 \<Longrightarrow> opened i d (new_device sys i bus dev h f d)"
  by (auto simp: new_device_def opened_def with_usb_def upd_device_def upd_at_def map_update Let_def shape_def split: prod.splits
      intro!: exI [of _ h] exI [of _ i])

lemma open_entry:
  assumes "device_table_ok d" and "i < 16" and "handle (usbDevices d ! i) \<noteq> None"
  shows "pbSeq (usbDevices d ! i) < 16 \<and> nb_opened_slots (usbDevices d ! i) < 16"
  using assms unfolding device_table_ok_def entries_ok_def by (auto simp: shape_def)

lemma next_slot_opened:
  assumes "device_table_ok d" and "multi_slot bus dev d = Some r"
  shows "opened i d (next_slot i r d)"
proof -
  let ?x = "usbDevices d ! r"
  from assms have r: "r < 16" by (auto simp: multi_slot_def device_table_ok_def entries_ok_def Let_def split: option.splits if_splits)
  from assms(2) obtain h where h: "handle ?x = Some h"
    by (auto simp: multi_slot_def same_device_def Let_def split: option.splits if_splits)
  have "pbSeq ?x < 16 \<and> nb_opened_slots ?x < 16" using open_entry [OF assms(1) r] h by simp
  moreover have "map shape (usbDevices (next_slot i r d)) = (map shape (usbDevices d))[i := (Some h, pbSeq ?x, nb_opened_slots ?x)]"
    using h by (simp add: next_slot_def Let_def upd_device_def map_shape_upd upd_at_def [of i] map_update shape_def)
  moreover have "ReaderIndex (next_slot i r d) = ReaderIndex d \<and> CcidSlots (next_slot i r d) = CcidSlots d
      \<and> DebugInitialized (next_slot i r d) = DebugInitialized d \<and> previous_reader_index (next_slot i r d) = previous_reader_index d"
    by (simp add: next_slot_def Let_def upd_device_def)
  ultimately show ?thesis unfolding opened_def by blast
qed

lemma try_device_ok:
  assumes "device_table_ok d" and "i < 16"
  shows "turn_ok i d (try_device sys i bus dev wanted d)"
proof (cases "(\<exists>x \<in> set (usbDevices d). same_device bus dev x) \<and> multi_slot bus dev d \<noteq> None")
  case True
  then obtain r where "multi_slot bus dev d = Some r" by auto
  with True next_slot_opened [OF assms(1) this, of i] show ?thesis by (simp add: try_device_def turn_ok_def)
next
  case False
  have "opened i d (new_device sys i bus dev h f (with_usb d u))" for h f u
    using new_device_opened [OF assms(2), of "with_usb d u" sys bus dev h f] opened_trans [of d "with_usb d u"] by simp
  with False show ?thesis
    by (auto simp: try_device_def turn_ok_def Let_def split: prod.splits option.splits interface_search.splits bool.splits)
qed

lemma try_devices_ok: "device_table_ok d \<Longrightarrow> i < 16 \<Longrightarrow> turn_ok i d (try_devices sys i w v p devs wanted d)"
proof (induction devs arbitrary: wanted d)
  case Nil
  then show ?case by (simp add: turn_ok_def)
next
  case (Cons x devs)
  obtain bus dev where x: "x = (bus, dev)" by fastforce
  have t: "turn_ok i d (try_device sys i bus dev wanted d)" by (rule try_device_ok [OF Cons.prems])
  show ?case
  proof (cases "try_device sys i bus dev wanted d")
    case (Continue w1 d1)
    then have "same_open d d1" using t by (simp add: turn_ok_def)
    with Cons.IH [of d1 w1] Cons.IH [of d wanted] Cons.prems same_open_devices [of d d1] turn_ok_trans [OF \<open>same_open d d1\<close>] x Continue show ?thesis
      by (simp add: Let_def)
  qed (use Cons x t in \<open>auto simp: Let_def\<close>)
qed

lemma try_supported_ok: "device_table_ok d \<Longrightarrow> i < 16 \<Longrightarrow> turn_ok i d (try_supported sys info i w devs alias wanted d)"
proof (induction sys info i w devs "alias" wanted d rule: try_supported.induct)
  case (1 sys info i w devs al wanted d)
  show ?case
  proof (cases "LTPBundleFindValueWithKey info ''ifdVendorID'' al")
    case None
    then show ?thesis by (simp add: try_supported.simps [of sys info] turn_ok_def)
  next
    case V: (Some v)
    show ?thesis
    proof (cases "LTPBundleFindValueWithKey info ''ifdProductID'' al")
      case None
      with V show ?thesis by (simp add: try_supported.simps [of sys info] turn_ok_def)
    next
      case P: (Some p)
      let ?r = "try_devices sys i w (strtoul0 v) (strtoul0 p) devs wanted d"
      have t: "turn_ok i d ?r" by (rule try_devices_ok [OF 1(3,4)])
      have rec: "turn_ok i d (try_supported sys info i w devs (al + 1) w1 d1)" if "?r = Continue w1 d1"
        "\<not> (case w of Some r \<Rightarrow> strtoul0 v \<noteq> device_vendor r \<or> strtoul0 p \<noteq> device_product r | None \<Rightarrow> False)"
        "LTPBundleFindValueWithKey info ''ifdFriendlyName'' al \<noteq> None" for w1 d1
      proof -
        have s: "same_open d d1" using t that(1) by (simp add: turn_ok_def)
        then show ?thesis using 1(2) [OF V P that(3,2,1)] 1(3,4) same_open_devices [OF s] turn_ok_trans by blast
      qed
      from V P t rec 1(1) [OF V P] 1(3,4) show ?thesis
        by (simp add: try_supported.simps [of sys info] turn_ok_def split: open_turn.split) (auto simp: turn_ok_def)
    qed
  qed
qed

lemma tables_opened:
  assumes "tables_ok ready units previous shs" and "i < 16" and "ready" and "units ! i = -1" and "L \<noteq> -1" and "L \<notin> set units"
    and "k < 16" and "n < 16"
  shows "tables_ok ready (units[i := L]) (Some i) (shs[i := (Some h, k, n)])"
proof -
  have l: "length units = 16" "length shs = 16" using assms(1) by (auto simp: tables_ok_def entries_ok_def)
  then have "j < 16 \<Longrightarrow> units ! j \<noteq> L" for j using assms(6) nth_mem by metis
  then show ?thesis using assms l unfolding tables_ok_def entries_ok_def by (auto simp: nth_list_update)
qed

lemma tables_closed:
  assumes "tables_ok ready units previous shs" and "i < 16" and "ready"
  shows "tables_ok ready (units[i := -1]) previous (shs[i := (None, k, n)])"
  using assms unfolding tables_ok_def entries_ok_def by (auto simp: nth_list_update)

lemma opened_handle:
  assumes "opened i d d'" and "device_table_ok d" and "i < 16"
  shows "handle (usbDevices d' ! i) \<noteq> None"
proof -
  from assms(1) obtain h k n where m: "map shape (usbDevices d') = (map shape (usbDevices d))[i := (Some h, k, n)]"
    by (auto simp: opened_def)
  have l: "length (usbDevices d) = 16" using assms(2) by (simp add: device_table_ok_def entries_ok_def)
  with m have "length (usbDevices d') = 16" by (metis length_list_update length_map)
  with m l assms(3) have "shape (usbDevices d' ! i) = (Some h, k, n)" by (metis length_map nth_list_update_eq nth_map)
  then show ?thesis by (simp add: shape_def)
qed

text \<open>The device is open after success and nothing changed otherwise.\<close>

lemma parse_device_error: "parse_device s = Some (Inl e) \<Longrightarrow> e = STATUS_UNSUCCESSFUL"
  by (auto simp: parse_device_def Let_def bind_eq_Some_conv split: option.splits prod.splits if_splits)

lemma find_reader_effect:
  assumes "find_reader sys info i w d = (st, d')" and "device_table_ok d" and "i < 16" and "handle (usbDevices d ! i) = None"
  shows "if st = STATUS_SUCCESS then \<exists>d2. opened i d d2 \<and> d' = d2\<lparr>previous_reader_index := Some i\<rparr> else same_open d d'"
proof -
  have keep: "same_open d d1 \<Longrightarrow> handle (usbDevices d1 ! i) = None" for d1
  proof -
    assume s: "same_open d d1"
    then have "map shape (usbDevices d1) ! i = map shape (usbDevices d) ! i" by (simp add: same_open_def)
    moreover have "length (usbDevices d) = 16" using assms(2) by (simp add: device_table_ok_def entries_ok_def)
    moreover have "length (usbDevices d1) = length (usbDevices d)" using s by (metis length_map same_open_def)
    ultimately show ?thesis using assms(3,4) by (simp add: shape_def)
  qed
  have sup: "turn_ok i d (try_supported sys info i w devs al wanted (with_usb d u))" for devs al wanted u
    using try_supported_ok [of "with_usb d u" i sys info w devs al wanted] same_open_devices [of d "with_usb d u"] assms(2,3)
      turn_ok_trans [of d "with_usb d u"] by simp
  have ended: "end_of_open i r = (st, d') \<Longrightarrow> turn_ok i d r \<Longrightarrow> ?thesis" for r
    using keep opened_handle [OF _ assms(2,3)]
    by (cases r) (fastforce simp: end_of_open_def turn_ok_def split: if_splits)+
  obtain busses u where b: "usb_busses sys (usb_world d) = (busses, u)" by fastforce
  have "find_reader sys info i w d = (STATUS_UNSUCCESSFUL, with_usb d u)
      \<or> (\<exists>devs al wanted. find_reader sys info i w d = end_of_open i (try_supported sys info i w devs al wanted (with_usb d u)))"
    unfolding find_reader_def Let_def b prod.case
    by (cases "LTPBundleFindValueWithKey info ''Copyright'' 0") (simp_all only: option.case split: if_splits, blast+)
  then show ?thesis
  proof
    assume "find_reader sys info i w d = (STATUS_UNSUCCESSFUL, with_usb d u)"
    then show ?thesis using assms(1) by simp
  next
    assume "\<exists>devs al wanted. find_reader sys info i w d = end_of_open i (try_supported sys info i w devs al wanted (with_usb d u))"
    then show ?thesis using assms(1) ended sup by metis
  qed
qed

lemma OpenUSBByName_effect:
  assumes "OpenUSBByName sys info i device d = Some (st, d')" and "device_table_ok d" and "i < 16" and "handle (usbDevices d ! i) = None"
  shows "if st = STATUS_SUCCESS then \<exists>d2. opened i d d2 \<and> d' = d2\<lparr>previous_reader_index := Some i\<rparr> else same_open d d'"
proof -
  have found: "find_reader sys info i w d = (st, d') \<Longrightarrow> ?thesis" for w by (rule find_reader_effect) (use assms in simp_all)
  show ?thesis
  proof (cases device)
    case None
    then show ?thesis using assms(1) found [of None] by (simp add: OpenUSBByName_def)
  next
    case (Some s)
    then obtain p where p: "parse_device s = Some p"
      and r: "(st, d') = (case p of Inl e \<Rightarrow> (e, d) | Inr w \<Rightarrow> find_reader sys info i (Some w) d)"
      using assms(1) by (auto simp: OpenUSBByName_def)
    show ?thesis
    proof (cases p)
      case (Inl e)
      then show ?thesis using r parse_device_error [of s e] p by simp
    next
      case (Inr w)
      then show ?thesis using r found [of "Some w"] by simp
    qed
  qed
qed

subsection \<open>Every call keeps the invariant\<close>

lemma unit_index: "LunToReaderIndex L d = Some i \<Longrightarrow> driver_inv d \<Longrightarrow> i < 16 \<and> ReaderIndex d ! i = L"
  using first_index_SomeD [of "\<lambda>l. L = l" "ReaderIndex d" i] by (auto simp: LunToReaderIndex_def driver_inv_def tables_ok_def)

lemma driver_devices: "driver_inv d \<Longrightarrow> device_table_ok d"
  by (simp add: driver_inv_def tables_ok_def device_table_ok_def)

lemma open_is_ready: "driver_inv d \<Longrightarrow> i < 16 \<Longrightarrow> handle (usbDevices d ! i) \<noteq> None \<Longrightarrow> DebugInitialized d"
  by (auto simp: driver_inv_def tables_ok_def entries_ok_def shape_def)

lemma shape_free_rates: "map shape (usbDevices (free_rates i d)) = map shape (usbDevices d)"
  by (simp add: free_rates_def Let_def upd_device_def map_shape_upd shape_def)

lemma CloseUSB_shapes:
  assumes "handle (usbDevices d ! i) \<noteq> None"
  shows "\<exists>k n. map shape (usbDevices (snd (CloseUSB sys i d))) = (map shape (usbDevices d))[i := (None, k, n)]"
proof -
  define ds where "ds = usbDevices (free_rates i d)"
  obtain h where h: "handle (usbDevices d ! i) = Some h" using assms by auto
  let ?k = "nb_opened_slots (usbDevices d ! i)"
  define es where "es = upd_at ?k (\<lambda>y. y\<lparr>real_nb_opened_slots := real_nb_opened_slots y - 1\<rparr>) ds"
  have "usbDevices (snd (CloseUSB sys i d)) = upd_at i (\<lambda>y. y\<lparr>handle := None, dirname := [], filename := [], dev_interface := 0\<rparr>) es"
    using h by (simp add: CloseUSB_def Let_def upd_device_def with_usb_def ds_def es_def)
  moreover have "map shape es = map shape (usbDevices d)"
    by (simp add: es_def ds_def map_shape_upd shape_free_rates shape_def)
  ultimately show ?thesis by (auto simp: upd_at_def map_update shape_def)
qed

lemma CloseUSB_other: "ReaderIndex (snd (CloseUSB sys i d)) = ReaderIndex d \<and> CcidSlots (snd (CloseUSB sys i d)) = CcidSlots d
    \<and> DebugInitialized (snd (CloseUSB sys i d)) = DebugInitialized d
    \<and> previous_reader_index (snd (CloseUSB sys i d)) = previous_reader_index d"
  by (simp add: CloseUSB_def Let_def upd_device_def with_usb_def free_rates_def split: option.split)

lemma close_inv:
  assumes "driver_inv d" and "i < 16" and "handle (usbDevices d ! i) \<noteq> None"
  shows "driver_inv (ReleaseReaderIndex i (snd (CloseUSB sys i d)))"
proof -
  obtain k n where "map shape (usbDevices (snd (CloseUSB sys i d))) = (map shape (usbDevices d))[i := (None, k, n)]"
    using CloseUSB_shapes [OF assms(3)] by blast
  with tables_closed [of True "ReaderIndex d" "previous_reader_index d" "map shape (usbDevices d)" i k n] assms
    open_is_ready [OF assms] CloseUSB_other [of sys i d]
  show ?thesis by (simp add: driver_inv_def ReleaseReaderIndex_def)
qed

lemma on_port_inv: "on_port sys i f d = Some (r, d') \<Longrightarrow> driver_inv d \<Longrightarrow> driver_inv d'"
  using on_port_same same_open_inv by metis

lemma upd_slot_id [simp]: "upd_slot i (\<lambda>s. s) d = d"
  by (simp add: upd_slot_def upd_at_def)

lemma report_presence_slot: "\<exists>f. (\<forall>s. slot_ok s \<longrightarrow> slot_ok (f s)) \<and> snd (report_presence i status d) = upd_slot i f d"
proof -
  have "snd (report_presence i status d) \<in> {upd_slot i (\<lambda>s. s) d, upd_slot i (\<lambda>s. s\<lparr>bPowerFlags := POWERFLAGS_RAZ\<rparr>) d,
      upd_slot i (\<lambda>s. (reset_atr s)\<lparr>bPowerFlags := POWERFLAGS_RAZ\<rparr>) d}"
    by (simp add: report_presence_def Let_def)
  then show ?thesis by (elim insertE emptyE) (rule exI, rule conjI [rotated], assumption, simp)+
qed

lemma presence_cases:
  assumes "IFDHICCPresence sys Lun d = Some (rv, d')"
  shows "d' = d \<or> (\<exists>i d1 f. same_open d d1 \<and> (\<forall>s. slot_ok s \<longrightarrow> slot_ok (f s)) \<and> d' = upd_slot i f d1)"
proof (cases "d' = d")
  case False
  with assms obtain i r d1 where p: "on_port sys i ask_slot_status d = Some (r, d1)"
    and d': "d' = upd_slot i (\<lambda>s. s) d1 \<or> (\<exists>status. report_presence i status d1 = (rv, d'))"
    by (auto simp: IFDHICCPresence_def bind_eq_Some_conv split: option.splits if_splits) blast
  have "slot_ok s \<longrightarrow> slot_ok s" for s by simp
  with d' on_port_same [OF p] report_presence_slot [of i] show ?thesis by (metis snd_conv)
qed simp

lemma presence_inv: "IFDHICCPresence sys Lun d = Some (rv, d') \<Longrightarrow> driver_inv d \<Longrightarrow> driver_inv d'"
  using presence_cases [of sys Lun d rv d'] same_open_inv [of d] upd_slot_inv by metis

lemma presence_open:
  assumes "IFDHICCPresence sys Lun d = Some (rv, d')"
  shows "map shape (usbDevices d') = map shape (usbDevices d)"
  using presence_cases [OF assms] by (auto simp: same_open_def upd_slot_def)

lemma shapes_handle:
  assumes "map shape (usbDevices d') = map shape (usbDevices d)" and "driver_inv d" and "i < 16"
  shows "handle (usbDevices d' ! i) = handle (usbDevices d ! i)"
proof -
  have "length (usbDevices d) = 16" using assms(2) by (simp add: driver_inv_def tables_ok_def entries_ok_def)
  with assms(1) have "length (usbDevices d') = 16" by (metis length_map)
  with assms \<open>length (usbDevices d) = 16\<close> have "shape (usbDevices d' ! i) = shape (usbDevices d ! i)" by (metis nth_map)
  then show ?thesis by (simp add: shape_def)
qed

lemma ask_thrice_keeps:
  assumes "ask_thrice sys Lun d = Some (rv, d')" and "driver_inv d"
  shows "driver_inv d' \<and> map shape (usbDevices d') = map shape (usbDevices d)"
proof -
  from assms(1) obtain r1 d1 r2 d2 where a: "IFDHICCPresence sys Lun d = Some (r1, d1)"
    and b: "(if r1 = IFD_COMMUNICATION_ERROR then IFDHICCPresence sys Lun d1 else Some (r1, d1)) = Some (r2, d2)"
    and c: "(if r2 = IFD_COMMUNICATION_ERROR then IFDHICCPresence sys Lun d2 else Some (r2, d2)) = Some (rv, d')"
    by (auto simp: ask_thrice_def bind_eq_Some_conv)
  have k: "driver_inv y \<and> map shape (usbDevices y) = map shape (usbDevices x)"
    if "(if r = IFD_COMMUNICATION_ERROR then IFDHICCPresence sys Lun x else Some (r, x)) = Some (r', y)" "driver_inv x" for r r' x y
    using that presence_inv presence_open by (auto split: if_splits)
  from presence_inv [OF a assms(2)] presence_open [OF a] k [OF b] k [OF c] show ?thesis by simp
qed

lemma warm_up_inv:
  assumes "warm_up sys LANG Lun i d = Some (rv, d')" and "driver_inv d" and "i < 16"
  shows "driver_inv d'"
proof -
  from assms(1) obtain u d0 r d1 where a: "on_port sys i ccid_open_hack_pre d = Some (u, d0)" and b: "ask_thrice sys Lun d0 = Some (r, d1)"
    and c: "d' = ReleaseReaderIndex i (snd (CloseUSB sys i d1)) \<or> (\<exists>v. on_port sys i (ccid_open_hack_post LANG (DriverOptions d1)) d1 = Some (v, d'))"
    by (auto simp: warm_up_def bind_eq_Some_conv split: if_splits)
  note inv = ask_thrice_keeps [OF b on_port_inv [OF a assms(2)]]
  have "map shape (usbDevices d1) = map shape (usbDevices d)" using inv on_port_same [OF a] by (simp add: same_open_def)
  from shapes_handle [OF this assms(2,3)] have "handle (usbDevices d1 ! i) \<noteq> None" using on_port_open [OF a] by simp
  with close_inv [of d1 i sys] c on_port_inv inv assms(3) show ?thesis by metis
qed

lemma init_driver_inv:
  assumes "driver_inv d" and "\<not> DebugInitialized d"
  shows "driver_inv (init_driver info d)"
  using assms unfolding driver_inv_def tables_ok_def entries_ok_def
  by (auto simp: init_driver_def InitReaderIndex_def Let_def shape_def)

lemma new_index:
  assumes "GetNewReaderIndex L d = (Some i, d1)" and "driver_inv d"
  shows "i < 16" and "ReaderIndex d ! i = -1" and "L \<noteq> -1" and "L \<notin> set (ReaderIndex d)" and "d1 = d\<lparr>ReaderIndex := (ReaderIndex d)[i := L]\<rparr>"
proof -
  from assms(1) have n: "L \<notin> set (ReaderIndex d)" and f: "first_index (\<lambda>l. -1 = l) (ReaderIndex d) = Some i"
    and d1: "d1 = d\<lparr>ReaderIndex := (ReaderIndex d)[i := L]\<rparr>"
    by (auto simp: GetNewReaderIndex_def split: if_splits option.splits)
  note s = first_index_SomeD [OF f]
  show "i < 16" using s assms(2) by (simp add: driver_inv_def tables_ok_def)
  show "ReaderIndex d ! i = -1" "d1 = d\<lparr>ReaderIndex := (ReaderIndex d)[i := L]\<rparr>" "L \<notin> set (ReaderIndex d)" using s d1 n by auto
  show "L \<noteq> -1" using s n nth_mem [of i "ReaderIndex d"] by auto
qed

lemma create_channel_inv:
  assumes "create_channel sys info LANG Lun name device d = Some (rv, d')" and "driver_inv d"
  shows "driver_inv d'"
proof -
  define d0 where "d0 = (if DebugInitialized d then d else init_driver info d)"
  have inv: "driver_inv d0" and ready: "DebugInitialized d0"
    using assms(2) init_driver_inv [of d info] by (auto simp: d0_def init_driver_def Let_def)
  obtain oi d1 where g: "GetNewReaderIndex (sint Lun) d0 = (oi, d1)" by fastforce
  show ?thesis
  proof (cases oi)
    case None
    with g assms(1) inv show ?thesis
      by (auto simp: create_channel_def d0_def [symmetric] Let_def GetNewReaderIndex_def split: option.splits if_splits)
  next
    case (Some i)
    note n = new_index [OF g [unfolded Some] inv]
    define e where "e = upd_slot i (\<lambda>s. (reset_atr s)\<lparr>bPowerFlags := POWERFLAGS_RAZ, slot_readerName := Some name\<rparr>) d0"
    have e: "driver_inv e" "ReaderIndex e = ReaderIndex d0" "DebugInitialized e"
      using upd_slot_inv [OF inv, of "\<lambda>s. (reset_atr s)\<lparr>bPowerFlags := POWERFLAGS_RAZ, slot_readerName := Some name\<rparr>" i] ready
      by (simp_all add: e_def upd_slot_def)
    let ?d2 = "e\<lparr>ReaderIndex := (ReaderIndex e)[i := sint Lun]\<rparr>"
    have "upd_slot i (\<lambda>s. (reset_atr s)\<lparr>bPowerFlags := POWERFLAGS_RAZ, slot_readerName := Some name\<rparr>) d1 = ?d2"
      using n(5) by (simp add: e_def upd_slot_def)
    with assms(1) g Some obtain st d3 where o: "OpenUSBByName sys info i device ?d2 = Some (st, d3)"
      and d': "if st = STATUS_SUCCESS then warm_up sys LANG Lun i d3 = Some (rv, d') else d' = ReleaseReaderIndex i d3"
      by (auto simp: create_channel_def d0_def [symmetric] Let_def bind_eq_Some_conv split: if_splits)
    have closed: "handle (usbDevices ?d2 ! i) = None"
      using e n(1,2) by (auto simp: driver_inv_def tables_ok_def entries_ok_def shape_def)
    have dev: "device_table_ok ?d2" using driver_devices [OF e(1)] by (simp add: device_table_ok_def)
    note eff = OpenUSBByName_effect [OF o dev n(1) closed]
    show ?thesis
    proof (cases "st = STATUS_SUCCESS")
      case True
      with eff obtain h k m d4 where "k < 16" "m < 16" and "d3 = d4\<lparr>previous_reader_index := Some i\<rparr>"
        and "ReaderIndex d4 = (ReaderIndex e)[i := sint Lun]" "CcidSlots d4 = CcidSlots e" "DebugInitialized d4 = DebugInitialized e"
        and "map shape (usbDevices d4) = (map shape (usbDevices e))[i := (Some h, k, m)]"
        by (auto simp: opened_def)
      with e tables_opened [of True "ReaderIndex e" "previous_reader_index e" "map shape (usbDevices e)" i "sint Lun" k m h] n
      have "driver_inv d3" by (simp add: driver_inv_def)
      with warm_up_inv [of sys LANG Lun i d3 rv d'] d' True n(1) show ?thesis by simp
    next
      case False
      with eff have "same_open ?d2 d3" by simp
      then have "ReaderIndex (ReleaseReaderIndex i d3) = (ReaderIndex e)[i := -1]"
        by (simp add: ReleaseReaderIndex_def same_open_def)
      also have "\<dots> = ReaderIndex e" using n(2) e(2) by (metis list_update_id)
      finally have "same_open e (ReleaseReaderIndex i d3)"
        using \<open>same_open ?d2 d3\<close> by (simp add: same_open_def ReleaseReaderIndex_def)
      with False d' e(1) same_open_inv show ?thesis by auto
    qed
  qed
qed

lemma finish_protocol_slot: "finish_protocol lib p pps atr slot c = Some (rv, slot', c') \<Longrightarrow> slot_ok slot \<Longrightarrow> slot_ok slot'"
  by (auto simp: finish_protocol_def bind_eq_Some_conv Let_def split: if_splits)

lemma request_slot:
  assumes "request_and_finish lib freed p T fl a1 a2 a3 atr slot c = Some (rv, slot', c')" and "slot_ok slot"
  shows "slot_ok slot'"
proof -
  from assms(1) obtain p1 where p1: "(case p1 of Inl e \<Rightarrow> Some (e, slot, c)
      | Inr p1 \<Rightarrow> do {
          (ret, protocol1, pps, c1) \<leftarrow> negotiate lib p
             (pps_request T p1 (if flag fl 2 then Some a2 else None) (if flag fl 4 then Some a3 else None)) atr c;
          if ret \<noteq> IFD_SUCCESS then Some (ret, slot, c1) else finish_protocol lib protocol1 pps atr slot c1
        }) = Some (rv, slot', c')"
    unfolding request_and_finish_def bind_eq_Some_conv by blast
  show ?thesis
  proof (cases p1)
    case (Inl e)
    with p1 assms(2) show ?thesis by simp
  next
    case (Inr q)
    with p1 finish_protocol_slot [OF _ assms(2)] assms(2) show ?thesis by (auto simp: bind_eq_Some_conv split: if_splits)
  qed
qed

lemma set_protocol_slot:
  assumes "set_protocol lib freed p fl a1 a2 a3 slot c = Some (rv, slot', c')" and "slot_ok slot"
  shows "slot_ok slot'"
  using assms request_slot [of lib freed p] unfolding set_protocol_def bind_eq_Some_conv Let_def
  by (auto simp: bind_eq_Some_conv split: if_splits)

lemma slot_at: "driver_inv d \<Longrightarrow> i < 16 \<Longrightarrow> slot_ok (CcidSlots d ! i)"
  by (simp add: driver_inv_def)

lemma protocol_inv:
  assumes "IFDHSetProtocolParameters sys Lun p fl a1 a2 a3 d = Some (rv, d')" and "driver_inv d"
  shows "driver_inv d'"
proof (cases "LunToReaderIndex (sint Lun) d")
  case None
  with assms show ?thesis by (simp add: IFDHSetProtocolParameters_def)
next
  case (Some i)
  let ?f = "\<lambda>lib c. map_option (\<lambda>(r, s, c). ((r, s), c)) (set_protocol lib (rates_freed (usbDevices d ! i)) p fl a1 a2 a3 (CcidSlots d ! i) c)"
  from assms(1) Some obtain slot d1 where p: "on_port sys i ?f d = Some ((rv, slot), d1)" and d': "d' = upd_slot i (\<lambda>_. slot) d1"
    by (auto simp: IFDHSetProtocolParameters_def bind_eq_Some_conv)
  from p set_protocol_slot [OF _ slot_at [OF assms(2)]] unit_index [OF Some assms(2)] have "slot_ok slot"
    by (auto simp: on_port_def Let_def split: option.splits)
  with d' upd_slot_inv [OF on_port_inv [OF p assms(2)]] show ?thesis by simp
qed

lemma slot_ok_power: "slot_ok s \<Longrightarrow> slot_ok (powering_down s)" "slot_ok s \<Longrightarrow> length a \<le> MAX_ATR_SIZE \<Longrightarrow> slot_ok (powered_up i a s)"
  by (simp_all add: powering_down_def powered_up_def) (simp_all add: slot_ok_def)

lemma power_inv:
  assumes "IFDHPowerICC sys Lun Action Atr d = Some (rv, a, n, d')" and "driver_inv d"
  shows "driver_inv d'"
proof (cases "LunToReaderIndex (sint Lun) d")
  case None
  with assms show ?thesis by (simp add: IFDHPowerICC_def)
next
  case (Some i)
  consider "Action = IFD_POWER_DOWN" | "Action = IFD_POWER_UP \<or> Action = IFD_RESET" "Action \<noteq> IFD_POWER_DOWN"
    | "Action \<noteq> IFD_POWER_DOWN" "\<not> (Action = IFD_POWER_UP \<or> Action = IFD_RESET)" by blast
  then show ?thesis
  proof cases
    case 1
    with assms(1) Some obtain r d1 where p: "on_port sys i CmdPowerOff (upd_slot i powering_down d) = Some (r, d1)"
      and d': "d' = d1 \<or> d' = upd_slot i (\<lambda>s. s\<lparr>slot_t1 := t1_release (slot_t1 s)\<rparr>) d1"
      by (auto simp: IFDHPowerICC_def bind_eq_Some_conv split: if_splits)
    have "driver_inv d1" by (rule on_port_inv [OF p upd_slot_inv [OF assms(2)]]) (rule slot_ok_power)
    with d' upd_slot_inv [of d1 "\<lambda>s. s\<lparr>slot_t1 := t1_release (slot_t1 s)\<rparr>"] show ?thesis by auto
  next
    case 2
    with assms(1) Some obtain r m b d1 where p: "on_port sys i (power_up (PowerOnVoltage d)) d = Some ((r, m, b), d1)"
      by (cases "on_port sys i (power_up (PowerOnVoltage d)) d") (auto simp: IFDHPowerICC_def)
    with assms(1) Some 2 have d': "d' = d1 \<or> d' = upd_slot i (powered_up i (take (min (unat m) MAX_ATR_SIZE) b)) d1"
      by (simp add: IFDHPowerICC_def Let_def split: if_splits)
    have "slot_ok s \<Longrightarrow> slot_ok (powered_up i (take (min (unat m) MAX_ATR_SIZE) b) s)" for s by (rule slot_ok_power) simp_all
    with d' upd_slot_inv [OF on_port_inv [OF p assms(2)]] on_port_inv [OF p assms(2)] show ?thesis by blast
  next
    case 3
    with assms Some show ?thesis by (simp add: IFDHPowerICC_def)
  qed
qed

lemma transmit_inv:
  assumes "IFDHTransmitToICC sys Lun p tx b n d = Some (rv, b', n', d')" and "driver_inv d"
  shows "driver_inv d'"
proof (cases "LunToReaderIndex (sint Lun) d")
  case None
  with assms show ?thesis by (simp add: IFDHTransmitToICC_def)
next
  case (Some i)
  with assms(1) obtain x d1 t where p: "on_port sys i (\<lambda>lib c. map_option (\<lambda>(r, n, b, t, c). ((r, n, b, t), c))
      (CmdXfrBlock lib tx n b (sint p) (slot_t1 (CcidSlots d ! i)) c)) d = Some (x, d1)" and "d' = upd_slot i (\<lambda>s. s\<lparr>slot_t1 := t\<rparr>) d1"
    by (auto simp: IFDHTransmitToICC_def bind_eq_Some_conv)
  with upd_slot_inv [OF on_port_inv [OF p assms(2)], of "\<lambda>s. s\<lparr>slot_t1 := t\<rparr>"] show ?thesis by simp
qed

lemma control_inv:
  assumes "IFDHControl sys Lun code tx m b n d = Some (rv, b', n', d')" and "driver_inv d"
  shows "driver_inv d'"
proof (cases "LunToReaderIndex (sint Lun) d")
  case None
  with assms show ?thesis by (simp add: IFDHControl_def)
next
  case (Some i)
  with assms(1) obtain x d1 t
    where p: "on_port sys i (control (DriverOptions d) code tx (take (unat m) tx) b n (slot_t1 (CcidSlots d ! i))) d = Some (x, d1)" and "d' = upd_slot i (\<lambda>s. s\<lparr>slot_t1 := t\<rparr>) d1"
    by (auto simp: IFDHControl_def bind_eq_Some_conv split: if_splits)
  with upd_slot_inv [OF on_port_inv [OF p assms(2)], of "\<lambda>s. s\<lparr>slot_t1 := t\<rparr>"] show ?thesis by simp
qed

lemma close_channel_inv:
  assumes "IFDHCloseChannel sys Lun d = Some (rv, d')" and "driver_inv d"
  shows "driver_inv d'"
proof (cases "LunToReaderIndex (sint Lun) d")
  case None
  with assms show ?thesis by (simp add: IFDHCloseChannel_def)
next
  case (Some i)
  with assms(1) obtain x d1 where p: "on_port sys i (\<lambda>lib c. CmdPowerOff lib (c\<lparr>readTimeout := DEFAULT_COM_READ_TIMEOUT\<rparr>)) d = Some (x, d1)"
    and d': "d' = upd_slot i (\<lambda>_. zero_slot) (ReleaseReaderIndex i (snd (CloseUSB sys i d1)))"
    by (auto simp: IFDHCloseChannel_def bind_eq_Some_conv)
  have i: "i < 16" using unit_index [OF Some assms(2)] by simp
  have "handle (usbDevices d1 ! i) \<noteq> None"
    using shapes_handle [OF _ assms(2) i, of d1] on_port_same [OF p] on_port_open [OF p] by (simp add: same_open_def)
  from upd_slot_inv [OF close_inv [OF on_port_inv [OF p assms(2)] i this], of "\<lambda>_. zero_slot" i sys] d' show ?thesis by simp
qed

subsection \<open>The driver as a transition system\<close>

inductive ccid_call :: "'u usb_system \<Rightarrow> plist \<Rightarrow> 'u ccid_driver \<Rightarrow> 'u ccid_driver \<Rightarrow> bool" for sys info where
  create_by_name: "IFDHCreateChannelByName sys info LANG Lun device d = Some (rv, d') \<Longrightarrow> ccid_call sys info d d'"
| create: "IFDHCreateChannel sys info LANG Lun d = Some (rv, d') \<Longrightarrow> ccid_call sys info d d'"
| close: "IFDHCloseChannel sys Lun d = Some (rv, d') \<Longrightarrow> ccid_call sys info d d'"
| protocol: "IFDHSetProtocolParameters sys Lun p fl a1 a2 a3 d = Some (rv, d') \<Longrightarrow> ccid_call sys info d d'"
| power: "IFDHPowerICC sys Lun Action Atr d = Some (rv, a, n, d') \<Longrightarrow> ccid_call sys info d d'"
| transmit: "IFDHTransmitToICC sys Lun p tx b n d = Some (rv, b', n', d') \<Longrightarrow> ccid_call sys info d d'"
| control: "IFDHControl sys Lun code tx m b n d = Some (rv, b', n', d') \<Longrightarrow> ccid_call sys info d d'"
| presence: "IFDHICCPresence sys Lun d = Some (rv, d') \<Longrightarrow> ccid_call sys info d d'"
| capabilities: "IFDHSetCapabilities Lun d = (rv, d') \<Longrightarrow> ccid_call sys info d d'"

lemma ccid_call_inv: "ccid_call sys info d d' \<Longrightarrow> driver_inv d \<Longrightarrow> driver_inv d'"
  by (induction rule: ccid_call.induct)
     (auto simp: IFDHCreateChannelByName_def IFDHCreateChannel_def IFDHSetCapabilities_def split: option.splits
       intro: create_channel_inv close_channel_inv protocol_inv power_inv transmit_inv control_inv presence_inv)

interpretation ccid: guarded_system "ccid_call sys info" driver_inv for sys :: "'u usb_system" and info
  by unfold_locales (rule ccid_call_inv)

text \<open>The static data when the library is loaded.\<close>

definition loaded_driver :: "'u usbDevice \<Rightarrow> 'u \<Rightarrow> 'u ccid_driver" where
  "loaded_driver unused u = \<lparr>ReaderIndex = replicate 16 0, CcidSlots = replicate 16 zero_slot, usbDevices = replicate 16 (unused\<lparr>handle := None\<rparr>),
     previous_reader_index = None, DriverOptions = 0, PowerOnVoltage = 1, DebugInitialized = False, usb_world = u\<rparr>"

text \<open>C17: Whatever the daemon calls and the readers answer, the tables of the CCID driver stay consistent from the moment it is loaded: a logical unit has
  an index exactly as long as a device is open at that index, two units never share an index, the pointers to shared counters stay within the
  table, and the stored ATR is never longer than its buffer.\<close>

theorem driver_tables_consistent:
  assumes "(ccid_call sys info)\<^sup>*\<^sup>* (loaded_driver unused u) d"
  shows "driver_inv d"
proof -
  have "driver_inv (loaded_driver unused u)"
    by (simp add: driver_inv_def loaded_driver_def tables_ok_def entries_ok_def shape_def)
  with ccid.run_good assms show ?thesis by blast
qed

end
