(* ===== verification/Ccid_Calls.thy ===== *)
theory Ccid_Calls
  imports Ccid_Inv
begin

section \<open>What the daemon gets from the CCID driver\<close>

text \<open>
  Properties of the calls of theory \<open>Ccid_Ifd\<close>: the ATR that is reported, a card that was exchanged between two polls, commands that are
  refused, errors and lengths, and the timeouts computed from an ATR. The witnesses use a sample reader behind a sample bus.
\<close>

subsection \<open>A sample reader\<close>

text \<open>The state of the device: the last message, the status byte it answers with and the ATR of its card.\<close>

type_synonym sample_world = "UCHAR list \<times> UCHAR \<times> UCHAR list"

definition sample_port :: "sample_world libusb" where
  "sample_port = \<lparr>usb_bulk_write = (\<lambda>m (last, status, atr). (None, (m, status, atr))),
     usb_bulk_read = (\<lambda>len timeout (last, status, atr). (Inr (rdr_frame 0x81 0 (last ! 6) status 0 0 (if last ! 0 = 0x62 then atr else [])),
       (last, status, atr))),
     usb_control_msg = (\<lambda>rt r v bytes n t w. (Inl Other_errno, w)), usb_interrupt_read = (\<lambda>t w. (Inl Other_errno, w))\<rparr>"

definition sample_interface :: usb_interface where
  "sample_interface = \<lparr>bInterfaceNumber = 0, bInterfaceClass = 0x0B, if_bInterfaceProtocol = 0,
     endpoint = [\<lparr>bmAttributes = 2, bEndpointAddress = 0x01, ep_extra = []\<rparr>, \<lparr>bmAttributes = 2, bEndpointAddress = 0x82, ep_extra = []\<rparr>,
       \<lparr>bmAttributes = 3, bEndpointAddress = 0x83, ep_extra = []\<rparr>],
     extra = [54, 33, 0x10, 1, 0, 7, 3, 0, 0, 0, 0xA0, 0x0F, 0, 0, 0xA0, 0x0F, 0, 0, 0, 0, 0x2A, 0, 0, 0x2A, 0, 0, 0, 0, 254, 0, 0, 0,
       0, 0, 0, 0, 0, 0, 0, 0, 0x30, 2, 1, 0, 0x0F, 1, 0, 0, 0, 0, 0, 0, 0, 1]\<rparr>"

definition sample_usb :: "sample_world usb_system" where
  "sample_usb = \<lparr>port = (\<lambda>h i bi bo ir. sample_port),
     usb_busses = (\<lambda>w. ([\<lparr>bus_dirname = ''001'', devices = [\<lparr>dev_filename = ''002'', idVendor = 0x08E6, idProduct = 0x3437, bcdDevice = 0x0200,
        config = Some [sample_interface]\<rparr>]\<rparr>], w)),
     usb_open = (\<lambda>bus dev w. (Some 7, w)), usb_close = (\<lambda>h w. w), usb_reset = (\<lambda>h w. w),
     usb_claim_interface = (\<lambda>h n w. (True, w)), usb_release_interface = (\<lambda>h n w. w)\<rparr>"

text \<open>The text of the copyright is one that selects the first entry.\<close>

definition sample_plist :: plist where
  "sample_plist key = (if key = ''ifdVendorID'' then [''0x08E6''] else if key = ''ifdProductID'' then [''0x3437'']
     else if key = ''ifdFriendlyName'' then [''GemPC Twin''] else if key = ''ifdManufacturerString'' \<or> key = ''ifdProductString'' then [''CCID'']
     else if key = ''Copyright'' then [[CHR 0x1C]] else [])"

definition unused_device :: "sample_world \<Rightarrow> sample_world usbDevice" where
  "unused_device u = \<lparr>handle = None, dirname = [], filename = [], dev_interface = 0, bulk_in = 0, bulk_out = 0, interrupt = 0,
     real_nb_opened_slots = 0, nb_opened_slots = 0, real_bSeq = 0, pbSeq = 0, rates_owner = None, rates_freed = False,
     dev_ccid = \<lparr>bSeq = 0, ccid.readerID = 0, dwMaxCCIDMessageLength = 0, dwMaxIFSD = 0, dwFeatures = 0, bPINSupport = 0, wLcdLayout = 0,
       dwDefaultClock = 0, dwMaxDataRate = 0, bMaxSlotIndex = 0, bCurrentSlotIndex = 0, arrayOfSupportedDataRates = None, readTimeout = 0,
       ccid_cardProtocol = 0, bInterfaceProtocol = 0, bNumEndpoints = 0, dwSlotStatus = 0, bVoltageSupport = 0, uninit = (\<lambda>i. 0xAA), usb = u\<rparr>\<rparr>"

definition sample_start :: "sample_world ccid_driver" where
  "sample_start = loaded_driver (unused_device ([], 1, [0x3B, 0x00])) ([], 1, [0x3B, 0x00])"

text \<open>The driver with the sample reader open as logical unit 0.\<close>

definition sample_open :: "UCHAR \<Rightarrow> sample_world ccid_driver" where
  "sample_open status = \<lparr>ReaderIndex = 0 # replicate 15 (-1), CcidSlots = replicate 16 zero_slot,
     usbDevices = (unused_device ([], status, [0x3B, 0x00]))\<lparr>handle := Some 7\<rparr> # replicate 15 (unused_device ([], status, [0x3B, 0x00])),
     previous_reader_index = Some 0, DriverOptions = 0, PowerOnVoltage = 1, DebugInitialized = True, usb_world = ([], status, [0x3B, 0x00])\<rparr>"

lemma replicate_16: "replicate 16 x = x # replicate 15 x"
  by (simp add: numeral_eq_Suc)

lemmas sample_simps = sample_usb_def sample_plist_def sample_port_def sample_interface_def unused_device_def LTPBundleFindValueWithKey_def
  first_alias_def with_usb_def strtoul0_def take_sign_def has_0x_def digit_value_def digits_value_def to_unsigned_def is_space_def
  upd_device_def upd_at_def upd_slot_def get_ccid_descriptor_def put_ccid_descriptor_def on_port_def LunToReaderIndex_def

lemmas transfer_simps = ReadUSB_def read_again.simps store_def rdr_frame_def i2dw_def fresh_array_def upt_rec next_seq_def ccid_message_def
  flag_def WriteUSB_def ControlUSB_def InterruptRead_def

lemma sample_parse: "parse_device ''usb:08e6/3437:libusb:001:002'' = Some (Inr \<lparr>device_vendor = 0x08e6, device_product = 0x3437,
    want_dirname = None, want_filename = Some ''002'', interface_number = -1\<rparr>)"
  by (simp add: parse_device_def strchr_def scan_x_def sample_simps)

lemma sample_search: "search_interface \<lparr>dev_filename = ''002'', idVendor = 0x08E6, idProduct = 0x3437, bcdDevice = 0x0200,
        config = Some [sample_interface]\<rparr> 0 (-1) = Found 0 sample_interface"
  by (simp add: search_interface.simps get_ccid_usb_interface_def usb_readerID_def sample_interface_def)

lemma sample_opened: "map_option fst (IFDHCreateChannelByName sample_usb sample_plist None 0 ''usb:08e6/3437:libusb:001:002'' sample_start)
    = Some IFD_SUCCESS"
  by (simp add: IFDHCreateChannelByName_def create_channel_def sample_start_def loaded_driver_def init_driver_def InitReaderIndex_def
      GetNewReaderIndex_def OpenUSBByName_def sample_parse find_reader_def sample_simps try_supported.simps try_device_def same_device_def
      sample_search [unfolded sample_interface_def] ccid_check_firmware_def Bogus_firmwares_def new_device_def Let_def get_end_points_def
      get_data_rates_def end_of_open_def replicate_16 transfer_simps report_presence_def warm_up_def ccid_open_hack_pre_def describe_def
      usb_readerID_def ask_thrice_def IFDHICCPresence_def ask_slot_status_def CmdGetSlotStatus_def ccid_open_hack_post_def)

theorem driver_tables_consistent_witness:
  "\<exists>d. IFDHCreateChannelByName sample_usb sample_plist None 0 ''usb:08e6/3437:libusb:001:002'' sample_start = Some (IFD_SUCCESS, d) \<and> driver_inv d"
proof -
  obtain d where d: "IFDHCreateChannelByName sample_usb sample_plist None 0 ''usb:08e6/3437:libusb:001:002'' sample_start = Some (IFD_SUCCESS, d)"
    using sample_opened by auto
  then have "(ccid_call sample_usb sample_plist)\<^sup>*\<^sup>* sample_start d" by (meson create_by_name r_into_rtranclp)
  from driver_tables_consistent [OF this [unfolded sample_start_def]] d show ?thesis by blast
qed

subsection \<open>The answer to reset\<close>

lemma LunToReaderIndex_cong: "same_open d d' \<Longrightarrow> LunToReaderIndex L d' = LunToReaderIndex L d"
  by (simp add: same_open_def LunToReaderIndex_def)

lemma LunToReaderIndex_upd_slot [simp]: "LunToReaderIndex L (upd_slot i f d) = LunToReaderIndex L d"
  by (simp add: upd_slot_def LunToReaderIndex_def)

lemma CcidSlots_upd_slot: "i < length (CcidSlots d) \<Longrightarrow> CcidSlots (upd_slot i f d) ! i = f (CcidSlots d ! i)"
  by (simp add: upd_slot_def upd_at_def)

text \<open>A successful power up in detail.\<close>

lemma power_up_success:
  assumes "IFDHPowerICC sys Lun Action Atr d = Some (IFD_SUCCESS, a, n, d')" and "Action = IFD_POWER_UP \<or> Action = IFD_RESET" and "driver_inv d"
  obtains i d1 b where "LunToReaderIndex (sint Lun) d = Some i" and "i < 16" and "same_open d d1" and "length b = unat n" and "unat n \<le> MAX_ATR_SIZE"
    and "a = store 0 b Atr" and "length b \<le> length Atr" and "d' = upd_slot i (powered_up i b) d1"
proof -
  from assms(1) obtain i where i: "LunToReaderIndex (sint Lun) d = Some i" by (cases "LunToReaderIndex (sint Lun) d") (auto simp: IFDHPowerICC_def)
  with assms(1,2) obtain r m b d1 where p: "on_port sys i (power_up (PowerOnVoltage d)) d = Some ((r, m, b), d1)"
    by (cases "on_port sys i (power_up (PowerOnVoltage d)) d") (auto simp: IFDHPowerICC_def)
  let ?k = "min (unat m) MAX_ATR_SIZE"
  from assms(1,2) i p have r: "?k \<le> length Atr" "?k \<le> length b" "a = store 0 (take ?k b) Atr" "n = word_of_nat ?k"
      "d' = upd_slot i (powered_up i (take ?k b)) d1"
    by (auto simp: IFDHPowerICC_def Let_def split: if_splits)
  have n: "unat n = ?k" unfolding r(4) by (rule unat_small) simp
  show ?thesis
  proof (rule that [of i d1 "take ?k b"])
    show "LunToReaderIndex (sint Lun) d = Some i" by fact
    show "i < 16" using unit_index [OF i assms(3)] by simp
    show "same_open d d1" by (rule on_port_same [OF p])
    show "length (take ?k b) = unat n" "length (take ?k b) \<le> length Atr" using r(1,2) n by simp_all
    show "unat n \<le> MAX_ATR_SIZE" using n by simp
    show "a = store 0 (take ?k b) Atr" "d' = upd_slot i (powered_up i (take ?k b)) d1" by fact+
  qed
qed

text \<open>C27: The ATR that a power up or reset returns has at most 33 bytes and is the one the driver reports from then on: a later request for it, with a buffer that is
  large enough, yields exactly the same bytes and the same length.\<close>

theorem atr_is_remembered:
  assumes "IFDHPowerICC sys Lun Action Atr d = Some (IFD_SUCCESS, a, n, d')" and "Action = IFD_POWER_UP \<or> Action = IFD_RESET" and "driver_inv d"
    and "n \<le> Length" and "unat n \<le> length Value"
  shows "n \<le> 33 \<and> IFDHGetCapabilities version Lun TAG_IFD_ATR Length (Some Value) d' = Some (IFD_SUCCESS, n, Some (store 0 (take (unat n) a) Value))"
proof -
  from assms(1-3) obtain i d1 b where i: "LunToReaderIndex (sint Lun) d = Some i" "i < 16" and s: "same_open d d1"
    and b: "length b = unat n" "unat n \<le> MAX_ATR_SIZE" "length b \<le> length Atr" and a: "a = store 0 b Atr" and d': "d' = upd_slot i (powered_up i b) d1"
    by (rule power_up_success)
  have inv: "driver_inv d1" using s same_open_inv assms(3) by blast
  let ?s = "CcidSlots d1 ! i"
  have slot: "CcidSlots d' ! i = powered_up i b ?s" unfolding d' by (rule CcidSlots_upd_slot) (use inv i(2) in \<open>simp add: driver_inv_def\<close>)
  have "length (pcATRBuffer ?s) = 33" using slot_at [OF inv i(2)] by (simp add: slot_ok_def)
  then have ATR: "nATRLength (CcidSlots d' ! i) = unat n" "take (unat n) (pcATRBuffer (CcidSlots d' ! i)) = b"
    using slot b by (simp_all add: powered_up_def store_def)
  have lun: "LunToReaderIndex (sint Lun) d' = Some i" using i(1) LunToReaderIndex_cong [OF s] by (simp add: d')
  have m: "min (unat Length) (unat n) = unat n" using assms(4) by (simp add: word_le_nat_alt)
  have "take (unat n) a = b" using a b by (simp add: store_def)
  moreover have "n \<le> 33" using b(2) by (simp add: word_le_nat_alt)
  ultimately show ?thesis
    using ATR lun m b(1) assms(5) by (simp add: IFDHGetCapabilities_def put_value_def Let_def)
qed

lemma sample_open_inv: "driver_inv (sample_open status)"
  by (simp add: driver_inv_def sample_open_def tables_ok_def entries_ok_def shape_def unused_device_def nth_Cons split: nat.split)

lemma sample_power:
  "map_option (\<lambda>(rv, a, n, d). (rv, take (unat n) a, n, bPowerFlags (CcidSlots d ! 0)))
     (IFDHPowerICC sample_usb 0 IFD_POWER_UP (replicate 33 0) (sample_open 0)) = Some (IFD_SUCCESS, [0x3B, 0x00], 2, 1)"
  by (simp add: IFDHPowerICC_def sample_open_def sample_simps power_up_def CmdPowerOn_def power_on_again.simps start_voltage_def transfer_simps
      extract_atr_def dw2i_def powered_up_def zero_slot_def replicate_16 bset_def bclr_def Let_def)

theorem atr_is_remembered_witness:
  "\<exists>a d. IFDHPowerICC sample_usb 0 IFD_POWER_UP (replicate 33 0) (sample_open 0) = Some (IFD_SUCCESS, a, 2, d)
     \<and> IFDHGetCapabilities 0 0 TAG_IFD_ATR 33 (Some (replicate 33 0)) d = Some (IFD_SUCCESS, 2, Some (store 0 [0x3B, 0x00] (replicate 33 0)))"
proof -
  from sample_power obtain a d where p: "IFDHPowerICC sample_usb 0 IFD_POWER_UP (replicate 33 0) (sample_open 0) = Some (IFD_SUCCESS, a, 2, d)"
    and a: "take 2 a = [0x3B, 0x00]" by auto
  have "unat (2 :: DWORD) = 2" "(2 :: DWORD) \<le> 33" by simp_all
  with atr_is_remembered [OF p _ sample_open_inv, of 33 "replicate 33 0" 0] p a show ?thesis by auto
qed

subsection \<open>Cards that come and go\<close>

text \<open>The reader, when asked, answers with the slot status \<open>status\<close>, after which the driver is in the state \<open>d'\<close>.\<close>

definition slot_reports :: "'u usb_system \<Rightarrow> DWORD \<Rightarrow> UCHAR \<Rightarrow> 'u ccid_driver \<Rightarrow> 'u ccid_driver \<Rightarrow> bool" where
  "slot_reports sys Lun status d d' \<longleftrightarrow>
    (\<exists>i b. LunToReaderIndex (sint Lun) d = Some i \<and> ccid.readerID (get_ccid_descriptor i d) \<noteq> GEMCORESIMPRO
      \<and> on_port sys i ask_slot_status d = Some ((IFD_SUCCESS, b), d') \<and> b ! 7 AND 3 = status)"

lemma presence_reported: "slot_reports sys Lun status d d' \<Longrightarrow> LunToReaderIndex (sint Lun) d = Some i
    \<Longrightarrow> IFDHICCPresence sys Lun d = Some (report_presence i status d')"
  by (auto simp: slot_reports_def IFDHICCPresence_def)

lemma slot_reports_same: "slot_reports sys Lun status d d' \<Longrightarrow> same_open d d'"
  by (auto simp: slot_reports_def dest: on_port_same)

lemma powered_flags: "bclr 2 (bset 1 (f :: UCHAR)) \<noteq> 0" "\<not> flag (bclr 2 (bset 1 (f :: UCHAR))) 2"
proof -
  have "flag (bclr 2 (bset 1 f)) 1" by simp
  then show "bclr 2 (bset 1 f) \<noteq> 0" by (metis flag_0(1))
qed simp

text \<open>A card that was powered up and is then found without power was taken out and put back, or exchanged, between two polls: the driver reports it as
  absent once, so that the daemon notices, and as present from the next poll on.\<close>

theorem exchanged_card_noticed:
  assumes "IFDHPowerICC sys Lun Action Atr d0 = Some (IFD_SUCCESS, a, n, d)" and "Action = IFD_POWER_UP \<or> Action = IFD_RESET" and "driver_inv d0"
    and "slot_reports sys Lun CCID_ICC_PRESENT_INACTIVE d d1"
  shows "\<exists>d2. IFDHICCPresence sys Lun d = Some (IFD_ICC_NOT_PRESENT, d2)
    \<and> (\<forall>d3. slot_reports sys Lun CCID_ICC_PRESENT_INACTIVE d2 d3 \<longrightarrow> IFDHICCPresence sys Lun d2 = Some (IFD_ICC_PRESENT, d3))"
proof -
  from assms(1-3) obtain i e b where i: "LunToReaderIndex (sint Lun) d0 = Some i" "i < 16" and e: "same_open d0 e" and d: "d = upd_slot i (powered_up i b) e"
    by (rule power_up_success)
  have len: "length (CcidSlots e) = 16" using same_open_inv [OF e] assms(3) by (simp add: driver_inv_def)
  have lun: "LunToReaderIndex (sint Lun) d = Some i" using LunToReaderIndex_cong [OF e] i(1) by (simp add: d)
  have s1: "CcidSlots d1 = CcidSlots d" using slot_reports_same [OF assms(4)] by (simp add: same_open_def)
  have "CcidSlots d1 ! i = powered_up i b (CcidSlots e ! i)" unfolding s1 d by (rule CcidSlots_upd_slot) (use len i(2) in simp)
  then have flags: "bPowerFlags (CcidSlots d1 ! i) \<noteq> 0" "\<not> flag (bPowerFlags (CcidSlots d1 ! i)) 2"
    by (simp_all add: powered_up_def powered_flags)
  define d2 where "d2 = upd_slot i (\<lambda>s. s\<lparr>bPowerFlags := POWERFLAGS_RAZ\<rparr>) d1"
  have first: "IFDHICCPresence sys Lun d = Some (IFD_ICC_NOT_PRESENT, d2)"
    using presence_reported [OF assms(4) lun] flags by (simp add: report_presence_def d2_def Let_def)
  have "length (CcidSlots d1) = 16" using s1 len by (simp add: d upd_slot_def upd_at_def)
  then have f2: "bPowerFlags (CcidSlots d2 ! i) = 0" unfolding d2_def by (subst CcidSlots_upd_slot) (use i(2) in simp_all)
  have lun2: "LunToReaderIndex (sint Lun) d2 = Some i"
    using lun LunToReaderIndex_cong [OF slot_reports_same [OF assms(4)]] by (simp add: d2_def)
  have "IFDHICCPresence sys Lun d2 = Some (IFD_ICC_PRESENT, d3)" if r: "slot_reports sys Lun CCID_ICC_PRESENT_INACTIVE d2 d3" for d3
  proof -
    have "CcidSlots d3 = CcidSlots d2" using slot_reports_same [OF r] by (simp add: same_open_def)
    with presence_reported [OF r lun2] f2 show ?thesis by (simp add: report_presence_def)
  qed
  with first show ?thesis by blast
qed

lemmas power_simps = IFDHPowerICC_def sample_open_def sample_simps power_up_def CmdPowerOn_def power_on_again.simps start_voltage_def transfer_simps
  extract_atr_def dw2i_def powered_up_def zero_slot_def replicate_16 bset_def bclr_def Let_def

lemma sample_exchange:
  "\<exists>a n d d1. IFDHPowerICC sample_usb 0 IFD_POWER_UP (replicate 33 0) (sample_open 1) = Some (IFD_SUCCESS, a, n, d)
    \<and> slot_reports sample_usb 0 1 d d1"
proof -
  have "(case IFDHPowerICC sample_usb 0 IFD_POWER_UP (replicate 33 0) (sample_open 1) of
      Some (rv, a, n, d) \<Rightarrow> rv = 0 \<and> LunToReaderIndex 0 d = Some 0 \<and> ccid.readerID (get_ccid_descriptor 0 d) = 0
        \<and> (case on_port sample_usb 0 ask_slot_status d of Some ((r, b), d1) \<Rightarrow> r = 0 \<and> b ! 7 AND 3 = 1 | None \<Rightarrow> False)
    | None \<Rightarrow> False)"
    by (simp add: power_simps ask_slot_status_def CmdGetSlotStatus_def)
  then show ?thesis by (auto simp: slot_reports_def split: option.splits)
qed

theorem exchanged_card_noticed_witness:
  "\<exists>a n d d2. IFDHPowerICC sample_usb 0 IFD_POWER_UP (replicate 33 0) (sample_open 1) = Some (IFD_SUCCESS, a, n, d)
    \<and> IFDHICCPresence sample_usb 0 d = Some (IFD_ICC_NOT_PRESENT, d2)"
proof -
  from sample_exchange obtain a n d d1 where p: "IFDHPowerICC sample_usb 0 IFD_POWER_UP (replicate 33 0) (sample_open 1) = Some (IFD_SUCCESS, a, n, d)"
    and r: "slot_reports sample_usb 0 1 d d1" by blast
  from exchanged_card_noticed [OF p _ sample_open_inv r] p show ?thesis by blast
qed

subsection \<open>Errors\<close>

text \<open>A call that fails gives the daemon no data: a power action that fails returns an ATR of length 0 and leaves the buffer alone, an exchange or a control
  command that fails returns the length 0. The one exception is an unknown logical unit, where exchange and control leave the length as it was.\<close>

theorem failed_calls_return_nothing:
  "(IFDHPowerICC sys Lun Action Atr d = Some (rv, a, n, d') \<and> rv \<noteq> IFD_SUCCESS \<longrightarrow> n = 0 \<and> a = Atr)
   \<and> (IFDHTransmitToICC sys Lun p tx rx RxLength d = Some (rv, b, m, d') \<and> rv \<noteq> IFD_SUCCESS
       \<longrightarrow> m = 0 \<or> LunToReaderIndex (sint Lun) d = None \<and> m = RxLength)
   \<and> (IFDHControl sys Lun code tx TxLength rx RxLength d = Some (rv, b, k, d') \<and> rv \<noteq> IFD_SUCCESS
       \<longrightarrow> k = Some 0 \<or> LunToReaderIndex (sint Lun) d = None \<and> k = None)"
proof (intro conjI impI)
  assume "IFDHPowerICC sys Lun Action Atr d = Some (rv, a, n, d') \<and> rv \<noteq> IFD_SUCCESS"
  then show "n = 0" "a = Atr" by (auto simp: IFDHPowerICC_def bind_eq_Some_conv Let_def split: option.splits if_splits)
next
  assume "IFDHTransmitToICC sys Lun p tx rx RxLength d = Some (rv, b, m, d') \<and> rv \<noteq> IFD_SUCCESS"
  then show "m = 0 \<or> LunToReaderIndex (sint Lun) d = None \<and> m = RxLength"
    by (auto simp: IFDHTransmitToICC_def bind_eq_Some_conv split: option.splits)
next
  assume "IFDHControl sys Lun code tx TxLength rx RxLength d = Some (rv, b, k, d') \<and> rv \<noteq> IFD_SUCCESS"
  then show "k = Some 0 \<or> LunToReaderIndex (sint Lun) d = None \<and> k = None"
    by (auto simp: IFDHControl_def bind_eq_Some_conv split: option.splits if_splits)
qed

text \<open>An application cannot send vendor commands to a reader unless the configuration of the driver allows it: without the option, a command that is not one of the two
  known ones of a Gemalto reader is answered with an error and no data, and nothing is sent to the reader.\<close>

theorem escape_needs_permission:
  assumes "LunToReaderIndex (sint Lun) d = Some i" and "handle (usbDevices d ! i) \<noteq> None" and "unat TxLength \<le> length tx"
    and "\<not> flag (DriverOptions d) DRIVER_OPTION_CCID_EXCHANGE_AUTHORIZED"
    and "\<not> gemalto_command (ccid.readerID (get_ccid_descriptor i d)) (take (unat TxLength) tx)"
  shows "\<exists>d'. IFDHControl sys Lun 0x42000001 tx TxLength rx RxLength d = Some (IFD_COMMUNICATION_ERROR, rx, Some 0, d')
    \<and> usb_world d' = usb_world d \<and> same_open d d'"
proof -
  obtain h where h: "handle (usbDevices d ! i) = Some h" using assms(2) by auto
  have "IFDHControl sys Lun 0x42000001 tx TxLength rx RxLength d = Some (IFD_COMMUNICATION_ERROR, rx, Some 0,
      upd_slot i (\<lambda>s. s\<lparr>slot_t1 := slot_t1 (CcidSlots d ! i)\<rparr>) (put_ccid_descriptor i (get_ccid_descriptor i d) d))" (is "_ = Some (_, _, _, ?d)")
    using assms(1,3-5) h by (simp add: IFDHControl_def on_port_def control_def Let_def)
  moreover have "CcidSlots ?d = CcidSlots d"
    by (simp add: upd_slot_def upd_at_def put_ccid_descriptor_def Let_def)
  then have "same_open d ?d" using same_open_put [of d i "get_ccid_descriptor i d"] by (simp add: same_open_def upd_slot_def)
  moreover have "usb_world ?d = usb_world d" by (simp add: upd_slot_def put_ccid_descriptor_def get_ccid_descriptor_def Let_def)
  ultimately show ?thesis by blast
qed

theorem failed_calls_return_nothing_witness:
  "IFDHControl sample_usb 1 0 [] 0 [] 0 (sample_open 0) = Some (IFD_COMMUNICATION_ERROR, [], None, sample_open 0)
    \<and> (None :: DWORD option) \<noteq> Some 0 \<and> LunToReaderIndex (sint (1 :: DWORD)) (sample_open 0) = None"
proof -
  have l: "LunToReaderIndex (sint (1 :: DWORD)) (sample_open 0) = None" by (simp add: LunToReaderIndex_def sample_open_def)
  then have "IFDHControl sample_usb 1 0 [] 0 [] 0 (sample_open 0) = Some (IFD_COMMUNICATION_ERROR, [], None, sample_open 0)"
    by (simp add: IFDHControl_def)
  with l failed_calls_return_nothing [of sample_usb 1 0 "[]" "sample_open 0" IFD_COMMUNICATION_ERROR "[]" 0 "sample_open 0" 0 "[]" "[]" 0 "[]" 0 0 0 None]
  show ?thesis by simp
qed

theorem escape_needs_permission_witness:
  "\<exists>d'. IFDHControl sample_usb 0 0x42000001 [0x80, 0x02] 2 (replicate 8 0) 8 (sample_open 0) = Some (IFD_COMMUNICATION_ERROR, replicate 8 0, Some 0, d')
    \<and> usb_world d' = ([], 0, [0x3B, 0x00])"
proof -
  have "LunToReaderIndex (sint (0 :: DWORD)) (sample_open 0) = Some 0" "handle (usbDevices (sample_open 0) ! 0) \<noteq> None"
    "\<not> flag (DriverOptions (sample_open 0)) 1" "ccid.readerID (get_ccid_descriptor 0 (sample_open 0)) = 0"
    by (simp_all add: LunToReaderIndex_def sample_open_def get_ccid_descriptor_def unused_device_def)
  with escape_needs_permission [of 0 "sample_open 0" 0 2 "[0x80, 0x02]" sample_usb "replicate 8 0" 8]
  show ?thesis by (auto simp: gemalto_command_def sample_open_def)
qed

subsection \<open>Timeouts\<close>

text \<open>The time in milliseconds that the exchange of a block may take by the rules of T=1: 260 characters to the card, the block waiting time and 260 characters from
  the card.\<close>

definition T1_time :: "rat \<Rightarrow> rat \<Rightarrow> int \<Rightarrow> nat \<Rightarrow> nat \<Rightarrow> int \<Rightarrow> rat" where
  "T1_time f d TC1 BWI CWI clock =
    (let etu = f / d / of_int clock in
     260 * (12 * etu + of_int TC1 * etu) + (11 * etu + 2 ^ BWI * 960 * 372 / of_int clock) + 260 * ((11 + 2 ^ CWI) * etu))"

lemma double_to_unsigned_ok:
  assumes "0 \<le> r" and "r < 2 ^ 32"
  obtains t where "double_to_unsigned r = Some t" and "r < of_nat (unat t) + 1" and "of_nat (unat t) \<le> r"
proof -
  have "0 \<le> \<lfloor>r\<rfloor>" "\<lfloor>r\<rfloor> < 2 ^ 32" using assms by (simp_all add: floor_less_iff)
  then have "uint (word_of_int \<lfloor>r\<rfloor> :: DWORD) = \<lfloor>r\<rfloor>" by (simp add: uint_word_of_int)
  then have "of_nat (unat (word_of_int \<lfloor>r\<rfloor> :: DWORD)) = (of_int \<lfloor>r\<rfloor> :: rat)" by (metis of_int_of_nat_eq uint_nat)
  then show ?thesis using assms \<open>0 \<le> \<lfloor>r\<rfloor>\<close> floor_correct [of r]
    by (intro that [of "word_of_int \<lfloor>r\<rfloor>"]) (simp_all add: double_to_unsigned_def)
qed

lemma rounded_up:
  fixes t :: DWORD
  shows "unat t < 1000 * unat (t div 1000 + 1)" and "1000 * unat (t div 1000 + 1) \<le> unat t + 1000"
proof -
  have "unat (t div 1000) = unat t div 1000" by (simp add: unat_div_distrib)
  moreover have "unat t < 4294967296" using unat_DWORD [of t] by simp
  then have "unat t div 1000 < 4294967295" by linarith
  ultimately have "unat (t div 1000 + 1) = unat t div 1000 + 1" by (simp add: unat_word_ariths)
  then show "unat t < 1000 * unat (t div 1000 + 1)" and "1000 * unat (t div 1000 + 1) \<le> unat t + 1000" by linarith+
qed

lemma T1_time_bounds:
  assumes "0 < f" "f \<le> 2048" "1 \<le> d" "0 \<le> TC1" "TC1 \<le> 255" "BWI \<le> 12" "CWI \<le> 15" "1000 \<le> clock"
  shows "0 \<le> T1_time f d TC1 BWI CWI clock" and "T1_time f d TC1 BWI CWI clock < 2 ^ 31"
proof -
  define etu where "etu = f / d / of_int clock"
  have k: "1000 \<le> (of_int clock :: rat)" using assms(8) by (metis of_int_le_iff of_int_numeral)
  have "f / d \<le> 2048" using assms(1-3) by (simp add: pos_divide_le_eq)
  then have "f / d / of_int clock \<le> 2048 / 1000" using assms(1,3) k by (intro frac_le) simp_all
  then have "etu \<le> 2048 / 1000" by (simp only: etu_def)
  moreover have "0 < etu" using assms(1,3) k by (simp add: etu_def)
  ultimately have e: "0 < etu" "etu \<le> 3" by simp_all
  have b: "(2 :: rat) ^ BWI \<le> 2 ^ 12" "(2 :: rat) ^ CWI \<le> 2 ^ 15" using assms(6,7) by (intro power_increasing; simp)+
  have tc: "0 \<le> (of_int TC1 :: rat)" "(of_int TC1 :: rat) \<le> 255" using assms(4,5) by simp_all
  have p: "0 \<le> of_int TC1 * etu" using tc e by simp
  have p2: "of_int TC1 * etu \<le> 255 * 3" by (intro mult_mono) (use tc e in simp_all)
  define C where "C = (11 + 2 ^ CWI) * etu"
  have c: "0 \<le> C" using e by (simp add: C_def)
  have c2: "C \<le> (11 + 2 ^ 15) * 3" unfolding C_def by (intro mult_mono) (use b(2) e in simp_all)
  define W where "W = 2 ^ BWI * 960 * 372 / (of_int clock :: rat)"
  have w: "0 \<le> W" using k by (simp add: W_def)
  have w2: "W \<le> 2 ^ 12 * 960 * 372 / 1000" unfolding W_def using b(1) k by (intro frac_le) simp_all
  have "T1_time f d TC1 BWI CWI clock = 260 * (12 * etu + of_int TC1 * etu) + (11 * etu + W) + 260 * C"
    by (simp only: T1_time_def Let_def etu_def W_def C_def)
  with p p2 c c2 w w2 e show "0 \<le> T1_time f d TC1 BWI CWI clock" "T1_time f d TC1 BWI CWI clock < 2 ^ 31"
    by simp_all
qed

text \<open>C33: The read timeout computed for a T=1 card is the time the ATR gives the card, rounded up to seconds, except for the fraction of a millisecond that the integer
  division in the block waiting time loses. For every ATR with a block waiting integer of at most 12, a bit rate divisor \<^verbatim>\<open>d\<close> of at least 1 and a clock
  of at least 1 MHz it is at most a second longer than that time and less than a millisecond shorter; it is longer whenever the division is exact. It can be
  shorter: with \<open>f = 372\<close>, \<open>d = 1\<close>, \<open>TC1 = 7\<close>, \<open>BWI = 1\<close>, \<open>CWI = 7\<close> at 1000 kHz
  the card may take 16000.092 ms and the timeout is 16 s. For a larger block waiting integer, which the ATR can contain, the computation overflows and has no
  result.\<close>

theorem T1_timeout_follows_card:
  assumes "0 < f" "f \<le> 2048" "1 \<le> d" "0 \<le> TC1" "TC1 \<le> 255" "CWI \<le> 15" "1000 \<le> clock"
  shows "(BWI \<le> 12 \<longrightarrow> (\<exists>t. T1_card_timeout f d TC1 BWI CWI clock = Some t
        \<and> 1000 * of_nat (unat t) \<le> T1_time f d TC1 BWI CWI clock + 1000 \<and> T1_time f d TC1 BWI CWI clock < 1000 * of_nat (unat t) + 1
        \<and> (clock dvd 2 ^ BWI * 960 * 372 \<longrightarrow> T1_time f d TC1 BWI CWI clock < 1000 * of_nat (unat t))))
    \<and> (13 \<le> BWI \<longrightarrow> T1_card_timeout f d TC1 BWI CWI clock = None)"
proof (intro conjI impI)
  assume w: "13 \<le> BWI"
  have "(2 :: int) ^ 13 \<le> 2 ^ BWI" using w by (intro power_increasing) simp_all
  then have "c_int (2 ^ BWI * 960 * 372) = None" by (simp add: c_int_def)
  then show "T1_card_timeout f d TC1 BWI CWI clock = None" using assms by (simp add: T1_card_timeout_def Let_def)
next
  assume w: "BWI \<le> 12"
  define blocks :: int where "blocks = 2 ^ BWI * 960 * 372"
  define x where "x = T1_time f d TC1 BWI CWI clock"
  have "(2 :: int) ^ BWI \<le> 2 ^ 12" using w by (intro power_increasing) simp_all
  then have "blocks < 2 ^ 31" by (simp add: blocks_def)
  moreover have "0 \<le> blocks" by (simp add: blocks_def)
  ultimately have blocks: "c_int blocks = Some blocks" "0 \<le> blocks" by (simp_all add: c_int_def)
  have k: "0 < (of_int clock :: rat)" using assms(7) by simp
  define q where "q = blocks div clock"
  have q: "c_div blocks clock = q" using assms(7) blocks(2) by (simp add: c_div_def q_def sgn_if)
  have "(of_int blocks :: rat) = of_int (q * clock + blocks mod clock)" by (simp add: q_def)
  moreover have "0 \<le> (of_int (blocks mod clock) :: rat)" "of_int (blocks mod clock) < (of_int clock :: rat)" using assms(7) by simp_all
  ultimately have frac: "of_int q \<le> of_int blocks / (of_int clock :: rat)" "of_int blocks / (of_int clock :: rat) < of_int q + 1"
    using k by (simp_all add: pos_le_divide_eq pos_divide_less_eq distrib_right)
  define y where "y = x - of_int blocks / of_int clock + of_int q"
  have y: "y \<le> x" "x < y + 1" using frac by (simp_all add: y_def)
  have exact: "x = y" if "clock dvd blocks"
  proof -
    have "of_int blocks = (of_int q * of_int clock :: rat)" using that by (metis q_def dvd_div_mult_self of_int_mult)
    with k show ?thesis by (simp add: y_def)
  qed
  have rest: "0 \<le> x - of_int blocks / of_int clock"
    using assms(1,3,4) k by (simp add: x_def T1_time_def blocks_def Let_def)
  have "0 \<le> q" using blocks(2) assms(7) by (simp add: q_def pos_imp_zdiv_nonneg_iff)
  with rest have "0 \<le> y" by (simp add: y_def)
  moreover have "y < 2 ^ 32" using y(1) T1_time_bounds(2) [OF assms(1-5) w assms(6,7)] by (simp add: x_def)
  ultimately obtain t where t: "double_to_unsigned y = Some t" "y < of_nat (unat t) + 1" "of_nat (unat t) \<le> y" by (rule double_to_unsigned_ok)
  have "T1_card_timeout f d TC1 BWI CWI clock = Some (t div 1000 + 1)"
  proof -
    have "260 * (12 * (f / d / of_int clock) + f / d * of_int TC1 / of_int clock) + (11 * (f / d / of_int clock) + of_int q)
        + 260 * (of_int (11 + 2 ^ CWI) * (f / d / of_int clock)) = y"
      by (simp add: y_def x_def T1_time_def blocks_def Let_def)
    with t(1) blocks(1) q assms(1,3,7) show ?thesis by (simp add: T1_card_timeout_def Let_def blocks_def)
  qed
  moreover have "y < 1000 * of_nat (unat (t div 1000 + 1))"
  proof -
    have "unat t + 1 \<le> 1000 * unat (t div 1000 + 1)" using rounded_up [of t] by simp
    then have "of_nat (unat t + 1) \<le> (of_nat (1000 * unat (t div 1000 + 1)) :: rat)" by (simp only: of_nat_le_iff)
    with t(2) show ?thesis by simp
  qed
  moreover have "1000 * of_nat (unat (t div 1000 + 1)) \<le> y + 1000"
  proof -
    have "1000 * unat (t div 1000 + 1) \<le> unat t + 1000" by (rule rounded_up)
    then have "(of_nat (1000 * unat (t div 1000 + 1)) :: rat) \<le> of_nat (unat t + 1000)" by (simp only: of_nat_le_iff)
    with t(3) show ?thesis by simp
  qed
  ultimately show "\<exists>t. T1_card_timeout f d TC1 BWI CWI clock = Some t
      \<and> 1000 * of_nat (unat t) \<le> T1_time f d TC1 BWI CWI clock + 1000 \<and> T1_time f d TC1 BWI CWI clock < 1000 * of_nat (unat t) + 1
      \<and> (clock dvd 2 ^ BWI * 960 * 372 \<longrightarrow> T1_time f d TC1 BWI CWI clock < 1000 * of_nat (unat t))"
    using y exact unfolding x_def [symmetric] blocks_def [symmetric] by (intro exI [of _ "t div 1000 + 1"]) auto
qed

lemma shortfall_timeout: "T1_card_timeout 372 1 7 1 7 1000 = Some 16"
proof -
  have "\<lfloor>3999963 / 250 :: rat\<rfloor> = 15999" by (simp add: floor_eq_iff)
  then show ?thesis by (simp add: T1_card_timeout_def double_to_unsigned_def c_int_def c_div_def)
qed

theorem T1_timeout_follows_card_witness:
  "(\<exists>t. T1_card_timeout 372 1 0 4 13 4000 = Some t \<and> T1_time 372 1 0 4 13 4000 < 1000 * of_nat (unat t) + 1)
    \<and> T1_card_timeout 372 1 0 13 13 4000 = None
    \<and> T1_card_timeout 372 1 7 1 7 1000 = Some 16 \<and> 1000 * 16 < T1_time 372 1 7 1 7 1000"
proof -
  have "1000 * 16 < T1_time 372 1 7 1 7 1000" by (simp add: T1_time_def)
  moreover have "\<exists>t. T1_card_timeout 372 1 0 4 13 4000 = Some t \<and> T1_time 372 1 0 4 13 4000 < 1000 * of_nat (unat t) + 1"
    using T1_timeout_follows_card [of 372 1 0 13 4000 4] by auto
  moreover have "T1_card_timeout 372 1 0 13 13 4000 = None"
    using T1_timeout_follows_card [of 372 1 0 13 4000 13] by simp
  ultimately show ?thesis using shortfall_timeout by blast
qed

end
