(* ===== verification/Reader_Factory.thy ===== *)
theory Reader_Factory
  imports Prot Interfaces
begin

section \<open>The daemon state and the reader table (readerfactory.c, winscard\_svc.c, eventhandler.c statics)\<close>

text \<open>
  \<open>'d pcscd\<close> gathers the static variables of the daemon: the reader table
  \<^verbatim>\<open>sReadersContexts\<close> with its counter (readerfactory.c), the public reader states and the list of
  clients waiting for an event (eventhandler.c), the application contexts \<^verbatim>\<open>psContext\<close>
  (winscard\_svc.c), the heap cells that the pointers \<^verbatim>\<open>pdwFeeds\<close> and \<^verbatim>\<open>pdwMutex\<close> share, the
  position in the sequence of values \<^verbatim>\<open>rand()\<close> yields, the drivers' state, the log of the event
  messages sent to clients, the log of the libraries closed with \<^verbatim>\<open>dlclose\<close>, what \<^verbatim>\<open>SHMMessageSend\<close>
  reports for each client socket and what uninitialised buffers on the stack hold (both depend on
  the environment only). File descriptors, \<^verbatim>\<open>int32_t\<close> in one place and \<^verbatim>\<open>uint32_t\<close> in another, are
  words. A \<^verbatim>\<open>PREADER_CONTEXT\<close> is an index into the table.

  This theory holds the part of readerfactory.c that the card operations use: lookups, the sharing
  lock, the handle table of a reader and the pending events. The lookups that return a pointer
  through an argument have a sum as result: \<open>Inl\<close> an error code, \<open>Inr\<close> the index.
\<close>

record psContext_t =
  ctx_hContext :: SCARDCONTEXT
  ctx_hCard :: "SCARDHANDLE list"
  ctx_dwClientID :: DWORD
  ctx_protocol_major :: int
  ctx_protocol_minor :: int

record 'd pcscd =
  sReadersContexts :: "'d READER_CONTEXT list"
  dwNumReadersContexts :: DWORD
  readerStates :: "READER_STATE list"
  ClientsWaitingForEvent :: "DWORD list"
  psContext :: "psContext_t list"
  cells :: "nat \<Rightarrow> DWORD"
  next_cell :: nat
  rand_stream :: "nat \<Rightarrow> nat"
  rand_pos :: nat
  machine :: "'d hw"
  signalled :: "(DWORD \<times> LONG) list"
  send_result :: "DWORD \<Rightarrow> LONG"
  stack_bytes :: "nat \<Rightarrow> UCHAR"
  dl_closed :: "nat list"

definition rctx :: "'d pcscd \<Rightarrow> nat \<Rightarrow> 'd READER_CONTEXT" where
  "rctx w i = sReadersContexts w ! i"

definition upd_rctx :: "nat \<Rightarrow> ('d READER_CONTEXT \<Rightarrow> 'd READER_CONTEXT) \<Rightarrow> 'd pcscd \<Rightarrow> 'd pcscd" where
  "upd_rctx i f w = w\<lparr>sReadersContexts := upd_at i f (sReadersContexts w)\<rparr>"

text \<open>\<^verbatim>\<open>rContext->readerState\<close>: reading or writing through the null pointer is \<open>None\<close>.\<close>

definition rstate :: "'d pcscd \<Rightarrow> nat \<Rightarrow> READER_STATE option" where
  "rstate w i = map_option (\<lambda>k. readerStates w ! k) (stateRef (rctx w i))"

definition upd_rstate :: "nat \<Rightarrow> (READER_STATE \<Rightarrow> READER_STATE) \<Rightarrow> 'd pcscd \<Rightarrow> 'd pcscd option" where
  "upd_rstate i f w =
     map_option (\<lambda>k. w\<lparr>readerStates := upd_at k f (readerStates w)\<rparr>) (stateRef (rctx w i))"

text \<open>An uninitialised local buffer of \<open>n\<close> bytes.\<close>

definition uninit :: "nat \<Rightarrow> 'd pcscd \<Rightarrow> UCHAR list" where
  "uninit n w = map (stack_bytes w) [0..<n]"

definition with_machine :: "'d pcscd \<Rightarrow> 'd hw \<Rightarrow> 'd pcscd" where
  "with_machine w h = w\<lparr>machine := h\<rparr>"

subsection \<open>Lookups\<close>

definition RFReaderInfo :: "'d pcscd \<Rightarrow> string option \<Rightarrow> LONG + nat" where
  "RFReaderInfo w lpcName =
     (case lpcName of
        None \<Rightarrow> Inl SCARD_E_UNKNOWN_READER
      | Some name \<Rightarrow>
          (case first_index (\<lambda>r. vHandle r \<noteq> 0 \<and> lpcReader r = name) (sReadersContexts w) of
             None \<Rightarrow> Inl SCARD_E_UNKNOWN_READER
           | Some i \<Rightarrow> Inr i))"

text \<open>\<^verbatim>\<open>lpcStripReader[tmplen - 6] = 0\<close>: the name without the reader and slot numbers. The names of loaded readers are written by
  \<^verbatim>\<open>RFSetReaderName\<close>, which ends them with the two numbers in six characters; for a shorter one C would write before the array, here the name becomes empty.\<close>

definition strip_reader :: "string \<Rightarrow> string" where
  "strip_reader name = take (length name - 6) name"

definition RFReaderInfoNamePort :: "'d pcscd \<Rightarrow> DWORD \<Rightarrow> string \<Rightarrow> LONG + nat" where
  "RFReaderInfoNamePort w port name =
     (case first_index (\<lambda>r. vHandle r \<noteq> 0 \<and> name = strip_reader (lpcReader r) \<and> port = dwPort r)
             (sReadersContexts w) of
        None \<Rightarrow> Inl SCARD_E_INVALID_VALUE
      | Some i \<Rightarrow> Inr i)"

definition identity_part :: "DWORD \<Rightarrow> DWORD" where
  "identity_part d = push_bit 16 (drop_bit 16 d)"

definition RFReaderInfoById :: "'d pcscd \<Rightarrow> DWORD \<Rightarrow> LONG + nat" where
  "RFReaderInfoById w ident =
     (case first_index (\<lambda>r. identity_part ident = dwIdentity r) (sReadersContexts w) of
        None \<Rightarrow> Inl SCARD_E_INVALID_VALUE
      | Some i \<Rightarrow> Inr i)"

definition RFFindReaderHandle :: "'d pcscd \<Rightarrow> SCARDHANDLE \<Rightarrow> LONG" where
  "RFFindReaderHandle w h =
     (if \<exists>r \<in> set (sReadersContexts w). vHandle r \<noteq> 0 \<and> h \<in> hCard ` set (psHandles r)
      then SCARD_S_SUCCESS else SCARD_E_INVALID_HANDLE)"

definition RFCheckReaderStatus :: "'d pcscd \<Rightarrow> nat \<Rightarrow> LONG" where
  "RFCheckReaderStatus w i =
     (case rstate w i of
        None \<Rightarrow> SCARD_E_READER_UNAVAILABLE
      | Some s \<Rightarrow> if flag (readerState s) SCARD_UNKNOWN then SCARD_E_READER_UNAVAILABLE else SCARD_S_SUCCESS)"

subsection \<open>The sharing lock\<close>

definition RFCheckSharing :: "'d pcscd \<Rightarrow> DWORD \<Rightarrow> LONG" where
  "RFCheckSharing w h =
     (case RFReaderInfoById w h of
        Inl rv \<Rightarrow> rv
      | Inr i \<Rightarrow> if dwLockId (rctx w i) = 0 \<or> dwLockId (rctx w i) = h
                 then SCARD_S_SUCCESS else SCARD_E_SHARING_VIOLATION)"

definition RFLockSharing :: "DWORD \<Rightarrow> 'd pcscd \<Rightarrow> LONG \<times> 'd pcscd" where
  "RFLockSharing h w =
     (let rv = RFCheckSharing w h in
      case RFReaderInfoById w h of
        Inl e \<Rightarrow> (rv, w)
      | Inr i \<Rightarrow> (rv, if rv = SCARD_S_SUCCESS
                       then upd_rctx i (\<lambda>r. r\<lparr>LockCount := LockCount r + 1, dwLockId := h\<rparr>) w else w))"

definition unlock_once :: "'d READER_CONTEXT \<Rightarrow> 'd READER_CONTEXT" where
  "unlock_once r =
     (let n = (if LockCount r > 0 then LockCount r - 1 else LockCount r)
      in if n = 0 then r\<lparr>LockCount := n, dwLockId := 0\<rparr> else r\<lparr>LockCount := n\<rparr>)"

definition RFUnlockSharing :: "DWORD \<Rightarrow> 'd pcscd \<Rightarrow> LONG \<times> 'd pcscd" where
  "RFUnlockSharing h w =
     (case RFReaderInfoById w h of
        Inl rv \<Rightarrow> (rv, w)
      | Inr i \<Rightarrow>
          let rv = RFCheckSharing w h
          in (rv, if rv = SCARD_S_SUCCESS then upd_rctx i unlock_once w else w))"

definition RFUnlockAllSharing :: "DWORD \<Rightarrow> 'd pcscd \<Rightarrow> LONG \<times> 'd pcscd" where
  "RFUnlockAllSharing h w =
     (case RFReaderInfoById w h of
        Inl rv \<Rightarrow> (rv, w)
      | Inr i \<Rightarrow>
          let rv = RFCheckSharing w h
          in (rv, if rv = SCARD_S_SUCCESS then upd_rctx i (\<lambda>r. r\<lparr>LockCount := 0, dwLockId := 0\<rparr>) w else w))"

subsection \<open>Handles of a reader\<close>

text \<open>\<^verbatim>\<open>SYS_RandomInt\<close> (sys\_unix.c) scales a value of \<^verbatim>\<open>rand()\<close> to the interval; the double
  arithmetic of the C expression is idealised to exact arithmetic.\<close>

definition RAND_MAX :: nat where "RAND_MAX = 2147483647"

definition SYS_RandomInt :: "nat \<Rightarrow> nat \<Rightarrow> (nat \<Rightarrow> nat) \<Rightarrow> nat \<Rightarrow> nat" where
  "SYS_RandomInt fStart fEnd stream pos =
     ((stream pos mod (RAND_MAX + 1)) * (fEnd - fStart)) div RAND_MAX + fStart"

text \<open>
  The search for an unused handle. The inner loop runs over all handle cells of the loaded
  readers in order; on a collision it draws a new value and \<^verbatim>\<open>continue\<close>s with the next cell.
  Nothing leaves the two for loops early, so the loop variable is
  \<^verbatim>\<open>PCSCLITE_MAX_READERS_CONTEXTS\<close> afterwards and the outer \<^verbatim>\<open>while (1)\<close> is left after one pass.
\<close>

fun scan_handles :: "(nat \<Rightarrow> nat) \<Rightarrow> DWORD \<Rightarrow> SCARDHANDLE list \<Rightarrow> nat \<Rightarrow> nat \<Rightarrow> nat \<times> nat" where
  "scan_handles stream ident [] randHandle pos = (randHandle, pos)"
| "scan_handles stream ident (c # cs) randHandle pos =
     (if ident + of_nat randHandle = c
      then scan_handles stream ident cs (SYS_RandomInt 10 65000 stream pos) (Suc pos)
      else scan_handles stream ident cs randHandle pos)"

definition handle_cells :: "'d pcscd \<Rightarrow> SCARDHANDLE list" where
  "handle_cells w = concat (map (\<lambda>r. map hCard (psHandles r)) (filter (\<lambda>r. vHandle r \<noteq> 0) (sReadersContexts w)))"

definition RFCreateReaderHandle :: "nat \<Rightarrow> 'd pcscd \<Rightarrow> SCARDHANDLE \<times> 'd pcscd" where
  "RFCreateReaderHandle i w =
     (let ident = dwIdentity (rctx w i);
          (randHandle, pos) =
            scan_handles (rand_stream w) ident (handle_cells w)
              (SYS_RandomInt 10 65000 (rand_stream w) (rand_pos w)) (Suc (rand_pos w))
      in (ident + of_nat randHandle, w\<lparr>rand_pos := pos\<rparr>))"

definition RFDestroyReaderHandle :: "SCARDHANDLE \<Rightarrow> LONG" where
  "RFDestroyReaderHandle h = SCARD_S_SUCCESS"

definition RFAddReaderHandle :: "'d READER_CONTEXT \<Rightarrow> SCARDHANDLE \<Rightarrow> LONG \<times> 'd READER_CONTEXT" where
  "RFAddReaderHandle r h =
     (case first_index (\<lambda>c. hCard c = 0) (psHandles r) of
        None \<Rightarrow> (SCARD_E_INSUFFICIENT_BUFFER, r)
      | Some j \<Rightarrow> (SCARD_S_SUCCESS, r\<lparr>psHandles := (psHandles r)[j := \<lparr>hCard = h, dwEventStatus = 0\<rparr>]\<rparr>))"

definition RFRemoveReaderHandle :: "'d READER_CONTEXT \<Rightarrow> SCARDHANDLE \<Rightarrow> LONG \<times> 'd READER_CONTEXT" where
  "RFRemoveReaderHandle r h =
     (case first_index (\<lambda>c. hCard c = h) (psHandles r) of
        None \<Rightarrow> (SCARD_E_INVALID_HANDLE, r)
      | Some j \<Rightarrow> (SCARD_S_SUCCESS, r\<lparr>psHandles := (psHandles r)[j := \<lparr>hCard = 0, dwEventStatus = 0\<rparr>]\<rparr>))"

definition RFSetReaderEventState :: "'d READER_CONTEXT \<Rightarrow> DWORD \<Rightarrow> 'd READER_CONTEXT" where
  "RFSetReaderEventState r dwEvent =
     (let r1 = r\<lparr>psHandles := map (\<lambda>c. if hCard c \<noteq> 0 then c\<lparr>dwEventStatus := dwEvent\<rparr> else c) (psHandles r)\<rparr>
      in if dwEvent = SCARD_REMOVED then r1\<lparr>dwLockId := 0, LockCount := 0\<rparr> else r1)"

definition RFCheckReaderEventState :: "'d READER_CONTEXT \<Rightarrow> SCARDHANDLE \<Rightarrow> LONG" where
  "RFCheckReaderEventState r h =
     (case first_index (\<lambda>c. hCard c = h) (psHandles r) of
        None \<Rightarrow> SCARD_E_INVALID_HANDLE
      | Some j \<Rightarrow>
          let ev = dwEventStatus (psHandles r ! j)
          in if ev = SCARD_REMOVED then SCARD_W_REMOVED_CARD
             else if ev = SCARD_RESET then SCARD_W_RESET_CARD
             else if ev = 0 then SCARD_S_SUCCESS else SCARD_E_INVALID_VALUE)"

text \<open>The loop of \<^verbatim>\<open>RFClearReaderEventState\<close> never breaks, so the index test after it always
  reports an invalid handle; the callers ignore the code.\<close>

definition RFClearReaderEventState :: "'d READER_CONTEXT \<Rightarrow> SCARDHANDLE \<Rightarrow> LONG \<times> 'd READER_CONTEXT" where
  "RFClearReaderEventState r h =
     (SCARD_E_INVALID_HANDLE,
      r\<lparr>psHandles := map (\<lambda>c. if hCard c = h then c\<lparr>dwEventStatus := 0\<rparr> else c) (psHandles r)\<rparr>)"

definition RFUnblockContext :: "SCARDCONTEXT \<Rightarrow> 'd pcscd \<Rightarrow> LONG \<times> 'd pcscd" where
  "RFUnblockContext hContext w =
     (SCARD_S_SUCCESS,
      w\<lparr>sReadersContexts := map (\<lambda>r. r\<lparr>dwBlockStatus := hContext\<rparr>) (sReadersContexts w)\<rparr>)"

definition RFUnblockReader :: "'d READER_CONTEXT \<Rightarrow> LONG \<times> 'd READER_CONTEXT" where
  "RFUnblockReader r = (SCARD_S_SUCCESS, r\<lparr>dwBlockStatus := BLOCK_STATUS_RESUME\<rparr>)"

subsection \<open>Accessor laws\<close>

lemma upd_rctx_fields [simp]:
  "readerStates (upd_rctx i f w) = readerStates w"
  "dwNumReadersContexts (upd_rctx i f w) = dwNumReadersContexts w"
  "ClientsWaitingForEvent (upd_rctx i f w) = ClientsWaitingForEvent w"
  "psContext (upd_rctx i f w) = psContext w"
  "cells (upd_rctx i f w) = cells w"
  "next_cell (upd_rctx i f w) = next_cell w"
  "rand_stream (upd_rctx i f w) = rand_stream w"
  "rand_pos (upd_rctx i f w) = rand_pos w"
  "machine (upd_rctx i f w) = machine w"
  "signalled (upd_rctx i f w) = signalled w"
  "send_result (upd_rctx i f w) = send_result w"
  "length (sReadersContexts (upd_rctx i f w)) = length (sReadersContexts w)"
  by (simp_all add: upd_rctx_def)

lemma rctx_upd_rctx [simp]:
  "i < length (sReadersContexts w) \<Longrightarrow> rctx (upd_rctx i f w) i = f (rctx w i)"
  "j \<noteq> i \<Longrightarrow> rctx (upd_rctx i f w) j = rctx w j"
  by (simp_all add: rctx_def upd_rctx_def)

lemma with_machine_fields [simp]:
  "sReadersContexts (with_machine w h) = sReadersContexts w"
  "readerStates (with_machine w h) = readerStates w"
  "rctx (with_machine w h) i = rctx w i"
  "rstate (with_machine w h) i = rstate w i"
  "psContext (with_machine w h) = psContext w"
  "machine (with_machine w h) = h"
  "rand_stream (with_machine w h) = rand_stream w"
  "rand_pos (with_machine w h) = rand_pos w"
  "ClientsWaitingForEvent (with_machine w h) = ClientsWaitingForEvent w"
  "signalled (with_machine w h) = signalled w"
  "dwNumReadersContexts (with_machine w h) = dwNumReadersContexts w"
  "cells (with_machine w h) = cells w"
  by (simp_all add: with_machine_def rctx_def rstate_def)

lemma upd_rstate_Some:
  "upd_rstate i f w = Some w' \<longleftrightarrow>
     (\<exists>k. stateRef (rctx w i) = Some k \<and> w' = w\<lparr>readerStates := upd_at k f (readerStates w)\<rparr>)"
  by (auto simp: upd_rstate_def)

lemma upd_rstate_frame:
  assumes "upd_rstate i f w = Some w'"
  shows "sReadersContexts w' = sReadersContexts w" "psContext w' = psContext w" "machine w' = machine w"
    "rand_stream w' = rand_stream w" "rand_pos w' = rand_pos w" "rctx w' = rctx w"
    "length (readerStates w') = length (readerStates w)"
  using assms by (auto simp: upd_rstate_Some rctx_def)

text \<open>Lookups by identity, by name and by handle are unchanged by updates that keep the fields they read.\<close>

lemma first_index_map: "first_index P (map f xs) = first_index (\<lambda>x. P (f x)) xs"
  by (induction xs) auto

lemma map_upd_at_same: "(\<And>r. f (g r) = f r) \<Longrightarrow> map f (upd_at i g xs) = map f xs"
  unfolding upd_at_def by (metis list_update_beyond list_update_id map_update not_le nth_map length_map)

lemma RFReaderInfoById_cong:
  "map dwIdentity (sReadersContexts w') = map dwIdentity (sReadersContexts w) \<Longrightarrow>
     RFReaderInfoById w' h = RFReaderInfoById w h"
  by (simp add: RFReaderInfoById_def flip: first_index_map [where P = "\<lambda>x. identity_part h = x" and f = dwIdentity])

lemma RFReaderInfoById_upd_rctx [simp]:
  "(\<And>r. dwIdentity (f r) = dwIdentity r) \<Longrightarrow> RFReaderInfoById (upd_rctx i f w) h = RFReaderInfoById w h"
  by (rule RFReaderInfoById_cong) (simp add: upd_rctx_def map_upd_at_same)

lemma RFReaderInfoById_with_machine [simp]: "RFReaderInfoById (with_machine w m) h = RFReaderInfoById w h"
  by (simp add: RFReaderInfoById_def)

lemma RFReaderInfoById_Inr:
  "RFReaderInfoById w h = Inr i \<Longrightarrow> i < length (sReadersContexts w) \<and> dwIdentity (rctx w i) = identity_part h"
  by (auto simp: RFReaderInfoById_def rctx_def dest!: first_index_SomeD split: option.splits)

lemma RFReaderInfo_Inr:
  "RFReaderInfo w nm = Inr i \<Longrightarrow>
     i < length (sReadersContexts w) \<and> vHandle (rctx w i) \<noteq> 0 \<and> nm = Some (lpcReader (rctx w i))"
  by (auto simp: RFReaderInfo_def rctx_def dest!: first_index_SomeD split: option.splits)

subsection \<open>Identities\<close>

text \<open>The identity \<^verbatim>\<open>(dwContext + 1) << IDENTITY_SHIFT\<close> of the reader in slot \<open>i\<close>.\<close>

definition slot_identity :: "nat \<Rightarrow> DWORD" where
  "slot_identity i = push_bit 16 (of_nat (Suc i))"

lemma unat_slot_identity: "i < 16 \<Longrightarrow> unat (slot_identity i) = Suc i * 65536"
  by (simp add: slot_identity_def push_bit_eq_mult unat_word_ariths unat_of_nat mod_less)

lemma slot_identity_inj: "i < 16 \<Longrightarrow> j < 16 \<Longrightarrow> slot_identity i = slot_identity j \<longleftrightarrow> i = j"
  by (metis nat.inject mult_cancel2 unat_slot_identity zero_neq_numeral)

lemma slot_identity_nonzero [simp]: "i < 16 \<Longrightarrow> slot_identity i \<noteq> 0"
  using unat_slot_identity by fastforce

lemma identity_part_unat: "identity_part d = of_nat (unat d div 65536 * 65536)"
  by (simp add: identity_part_def push_bit_eq_mult drop_bit_eq_div word_arith_nat_div)

lemma unat_handle:
  "i < 16 \<Longrightarrow> n < 65536 \<Longrightarrow> unat (slot_identity i + of_nat n) = Suc i * 65536 + n"
  by (simp add: unat_word_ariths unat_slot_identity unat_of_nat)

lemma identity_part_handle [simp]:
  "i < 16 \<Longrightarrow> n < 65536 \<Longrightarrow> identity_part (slot_identity i + of_nat n) = slot_identity i"
proof -
  assume a: "i < 16" "n < 65536"
  then have "unat (slot_identity i + of_nat n) div 65536 = Suc i"
    by (simp only: unat_handle) simp
  moreover have "of_nat (Suc i * 65536) = (of_nat (unat (slot_identity i)) :: DWORD)"
    using a by (simp only: unat_slot_identity)
  ultimately show ?thesis by (simp only: identity_part_unat) simp
qed

text \<open>Every slot of the table carries its own identity or none.\<close>

definition identities_ok :: "'d pcscd \<Rightarrow> bool" where
  "identities_ok w \<longleftrightarrow> length (sReadersContexts w) = 16
     \<and> (\<forall>i<16. dwIdentity (rctx w i) = 0 \<or> dwIdentity (rctx w i) = slot_identity i)"

lemma RFReaderInfoById_handle:
  assumes "identities_ok w" and "i < 16" and "dwIdentity (rctx w i) = slot_identity i"
    and "identity_part h = slot_identity i"
  shows "RFReaderInfoById w h = Inr i"
proof -
  have "first_index (\<lambda>r. identity_part h = dwIdentity r) (sReadersContexts w) = Some i"
  proof (rule first_index_Some_eq)
    show "i < length (sReadersContexts w)" using assms by (simp add: identities_ok_def)
    show "identity_part h = dwIdentity (sReadersContexts w ! i)" using assms by (simp add: rctx_def)
    fix j assume "j < i"
    then have "dwIdentity (rctx w j) = 0 \<or> dwIdentity (rctx w j) = slot_identity j" "slot_identity i \<noteq> slot_identity j"
      using assms(1,2) slot_identity_inj [of i j] by (auto simp: identities_ok_def)
    with assms(2,4) show "identity_part h \<noteq> dwIdentity (sReadersContexts w ! j)"
      by (auto simp: rctx_def)
  qed
  then show ?thesis by (simp add: RFReaderInfoById_def)
qed

subsection \<open>Random handles\<close>

lemma SYS_RandomInt_bounds:
  "lo \<le> hi \<Longrightarrow> lo \<le> SYS_RandomInt lo hi st p \<and> SYS_RandomInt lo hi st p \<le> hi"
proof -
  assume le: "lo \<le> hi"
  have "st p mod (RAND_MAX + 1) \<le> RAND_MAX"
    using mod_less_divisor [of "RAND_MAX + 1" "st p"] by linarith
  then have "st p mod (RAND_MAX + 1) * (hi - lo) div RAND_MAX \<le> RAND_MAX * (hi - lo) div RAND_MAX"
    by (intro div_le_mono mult_le_mono1)
  also have "\<dots> = hi - lo" by (simp add: RAND_MAX_def)
  finally show ?thesis using le by (simp add: SYS_RandomInt_def)
qed

lemma scan_handles_bounds:
  "10 \<le> n \<Longrightarrow> n \<le> 65000 \<Longrightarrow> scan_handles st ident cs n p = (n', p') \<Longrightarrow> 10 \<le> n' \<and> n' \<le> 65000"
proof (induction cs arbitrary: n p)
  case (Cons c cs)
  then show ?case using SYS_RandomInt_bounds [of 10 65000 st p] by (auto split: if_splits)
qed simp

lemma scan_handles_no_collision:
  "ident + of_nat n \<notin> set cs \<Longrightarrow> scan_handles st ident cs n p = (n, p)"
  by (induction cs) auto

lemma RFCreateReaderHandle_shape:
  assumes "RFCreateReaderHandle i w = (h, w')"
  obtains n where "10 \<le> n" "n \<le> 65000" "h = dwIdentity (rctx w i) + of_nat n" "\<exists>p. w' = w\<lparr>rand_pos := p\<rparr>"
proof -
  obtain n p where sc: "scan_handles (rand_stream w) (dwIdentity (rctx w i)) (handle_cells w)
      (SYS_RandomInt 10 65000 (rand_stream w) (rand_pos w)) (Suc (rand_pos w)) = (n, p)"
    by fastforce
  with SYS_RandomInt_bounds [of 10 65000] scan_handles_bounds [OF _ _ sc]
  have "10 \<le> n" "n \<le> 65000" by simp_all
  with assms sc that show ?thesis by (auto simp: RFCreateReaderHandle_def Let_def)
qed

subsection \<open>The handle table of a reader\<close>

interpretation reader_handles:
  handle_table "\<lambda>r. map hCard (psHandles r)" RFAddReaderHandle RFRemoveReaderHandle
    SCARD_E_INSUFFICIENT_BUFFER SCARD_E_INVALID_HANDLE
  by unfold_locales
     (auto simp: RFAddReaderHandle_def RFRemoveReaderHandle_def first_index_map map_update
           simp del: first_index_None_iff)

lemma RFAddReaderHandle_frame:
  "dwContexts (snd (RFAddReaderHandle r h)) = dwContexts r"
  "dwLockId (snd (RFAddReaderHandle r h)) = dwLockId r"
  "LockCount (snd (RFAddReaderHandle r h)) = LockCount r"
  "dwIdentity (snd (RFAddReaderHandle r h)) = dwIdentity r"
  "vHandle (snd (RFAddReaderHandle r h)) = vHandle r"
  "stateRef (snd (RFAddReaderHandle r h)) = stateRef r"
  "psFunctions (snd (RFAddReaderHandle r h)) = psFunctions r"
  "dwVersion (snd (RFAddReaderHandle r h)) = dwVersion r"
  "lpcReader (snd (RFAddReaderHandle r h)) = lpcReader r"
  by (simp_all add: RFAddReaderHandle_def split: option.splits)

lemma RFRemoveReaderHandle_frame:
  "dwContexts (snd (RFRemoveReaderHandle r h)) = dwContexts r"
  "dwLockId (snd (RFRemoveReaderHandle r h)) = dwLockId r"
  "LockCount (snd (RFRemoveReaderHandle r h)) = LockCount r"
  "dwIdentity (snd (RFRemoveReaderHandle r h)) = dwIdentity r"
  "vHandle (snd (RFRemoveReaderHandle r h)) = vHandle r"
  "stateRef (snd (RFRemoveReaderHandle r h)) = stateRef r"
  "psFunctions (snd (RFRemoveReaderHandle r h)) = psFunctions r"
  "dwVersion (snd (RFRemoveReaderHandle r h)) = dwVersion r"
  "lpcReader (snd (RFRemoveReaderHandle r h)) = lpcReader r"
  by (simp_all add: RFRemoveReaderHandle_def split: option.splits)

lemma RFSetReaderEventState_frame:
  "dwContexts (RFSetReaderEventState r e) = dwContexts r"
  "dwIdentity (RFSetReaderEventState r e) = dwIdentity r"
  "vHandle (RFSetReaderEventState r e) = vHandle r"
  "stateRef (RFSetReaderEventState r e) = stateRef r"
  "psFunctions (RFSetReaderEventState r e) = psFunctions r"
  "dwVersion (RFSetReaderEventState r e) = dwVersion r"
  "lpcReader (RFSetReaderEventState r e) = lpcReader r"
  "map hCard (psHandles (RFSetReaderEventState r e)) = map hCard (psHandles r)"
  by (simp_all add: RFSetReaderEventState_def Let_def comp_def if_distrib cong: if_cong)

lemma RFClearReaderEventState_frame:
  "dwContexts (snd (RFClearReaderEventState r h)) = dwContexts r"
  "dwIdentity (snd (RFClearReaderEventState r h)) = dwIdentity r"
  "dwLockId (snd (RFClearReaderEventState r h)) = dwLockId r"
  "LockCount (snd (RFClearReaderEventState r h)) = LockCount r"
  "vHandle (snd (RFClearReaderEventState r h)) = vHandle r"
  "stateRef (snd (RFClearReaderEventState r h)) = stateRef r"
  "psFunctions (snd (RFClearReaderEventState r h)) = psFunctions r"
  "dwVersion (snd (RFClearReaderEventState r h)) = dwVersion r"
  "lpcReader (snd (RFClearReaderEventState r h)) = lpcReader r"
  "map hCard (psHandles (snd (RFClearReaderEventState r h))) = map hCard (psHandles r)"
  by (simp_all add: RFClearReaderEventState_def comp_def if_distrib cong: if_cong)

lemmas handle_frames [simp] =
  RFAddReaderHandle_frame RFRemoveReaderHandle_frame RFSetReaderEventState_frame RFClearReaderEventState_frame

subsection \<open>The sharing lock refines the reentrant lock\<close>

definition lock_of :: "'d READER_CONTEXT \<Rightarrow> lock" where
  "lock_of r = (if dwLockId r = 0 then None else Some (dwLockId r, nat (LockCount r)))"

text \<open>A consistent lock: no owner and depth 0, or an owner and a positive depth.\<close>

definition lock_ok :: "'d READER_CONTEXT \<Rightarrow> bool" where
  "lock_ok r \<longleftrightarrow> 0 \<le> LockCount r \<and> (dwLockId r = 0 \<longleftrightarrow> LockCount r = 0)"

text \<open>Handle \<open>h\<close> belongs to the reader in slot \<open>i\<close>, whose lock is consistent.\<close>

definition lock_client :: "nat \<Rightarrow> 'd pcscd \<Rightarrow> SCARDHANDLE \<Rightarrow> bool" where
  "lock_client i w h \<longleftrightarrow> RFReaderInfoById w h = Inr i \<and> h \<noteq> 0 \<and> lock_ok (rctx w i)"

lemma RFCheckSharing_lock:
  "RFReaderInfoById w h = Inr i \<Longrightarrow> RFCheckSharing w h =
     (if may_lock (lock_of (rctx w i)) h then SCARD_S_SUCCESS else SCARD_E_SHARING_VIOLATION)"
  by (auto simp: RFCheckSharing_def lock_of_def)

lemma unlock_once_fields [simp]:
  "dwIdentity (unlock_once r) = dwIdentity r" "dwContexts (unlock_once r) = dwContexts r"
  "psHandles (unlock_once r) = psHandles r" "vHandle (unlock_once r) = vHandle r"
  "stateRef (unlock_once r) = stateRef r" "psFunctions (unlock_once r) = psFunctions r"
  "dwVersion (unlock_once r) = dwVersion r" "lpcReader (unlock_once r) = lpcReader r"
  by (simp_all add: unlock_once_def Let_def)

lemma unlock_once_lock:
  "lock_ok r \<Longrightarrow> lock_ok (unlock_once r) \<and> lock_of (unlock_once r) = lock_release (lock_of r)"
  by (auto simp: lock_ok_def lock_of_def unlock_once_def Let_def nat_diff_distrib)

interpretation sharing_lock:
  reentrant_lock "\<lambda>w. lock_of (rctx w i)" "lock_client i" RFLockSharing RFUnlockSharing RFUnlockAllSharing
  for i :: nat
proof
  fix s :: "'a pcscd" and h own n
  assume c: "lock_client i s h"
  then have id: "RFReaderInfoById s h = Inr i" and h: "h \<noteq> 0" and ok: "lock_ok (rctx s i)"
    and i: "i < length (sReadersContexts s)"
    using RFReaderInfoById_Inr by (auto simp: lock_client_def)
  note check = RFCheckSharing_lock [OF id]
  show "lock_of (rctx s i) = Some (own, n) \<Longrightarrow> 1 \<le> n"
    using ok by (auto simp: lock_of_def lock_ok_def split: if_splits)
  {
    assume m: "may_lock (lock_of (rctx s i)) h"
    show "fst (RFLockSharing h s) = SCARD_S_SUCCESS
        \<and> lock_of (rctx (snd (RFLockSharing h s)) i) = lock_acquire (lock_of (rctx s i)) h
        \<and> lock_client i (snd (RFLockSharing h s)) h"
      using m id h ok i check
      by (auto simp: RFLockSharing_def Let_def lock_client_def lock_of_def lock_ok_def nat_add_distrib)
    show "fst (RFUnlockSharing h s) = SCARD_S_SUCCESS
        \<and> lock_of (rctx (snd (RFUnlockSharing h s)) i) = lock_release (lock_of (rctx s i))
        \<and> lock_client i (snd (RFUnlockSharing h s)) h"
      using m id h i check unlock_once_lock [OF ok]
      by (simp add: RFUnlockSharing_def Let_def lock_client_def)
    show "fst (RFUnlockAllSharing h s) = SCARD_S_SUCCESS
        \<and> lock_of (rctx (snd (RFUnlockAllSharing h s)) i) = None
        \<and> lock_client i (snd (RFUnlockAllSharing h s)) h"
      using m id h i check
      by (simp add: RFUnlockAllSharing_def Let_def lock_client_def lock_of_def lock_ok_def)
  }
  assume "\<not> may_lock (lock_of (rctx s i)) h"
  then show "RFLockSharing h s = (SCARD_E_SHARING_VIOLATION, s)"
    "RFUnlockSharing h s = (SCARD_E_SHARING_VIOLATION, s)"
    "RFUnlockAllSharing h s = (SCARD_E_SHARING_VIOLATION, s)"
    using id check by (simp_all add: RFLockSharing_def RFUnlockSharing_def RFUnlockAllSharing_def Let_def)
qed

subsection \<open>A sample daemon for the witnesses\<close>

definition empty_reader :: "'d READER_CONTEXT" where
  "empty_reader =
     \<lparr>lpcReader = [], lpcLibrary = [], lpcDevice = [], pthThread = 0, pthCardEvent = None,
      mMutex = 0, psHandles = replicate 16 \<lparr>hCard = 0, dwEventStatus = 0\<rparr>,
      psFunctions = FCT_NULL, vHandle = 0, dwVersion = 0, dwPort = 0, dwSlot = 0, dwBlockStatus = 0,
      dwLockId = 0, dwIdentity = 0, LockCount = 0, dwContexts = 0, pdwFeeds = None, pdwMutex = None,
      stateRef = None\<rparr>"

definition empty_state :: READER_STATE where
  "empty_state = \<lparr>readerID = 0, readerName = [], readerState = 0, readerSharing = 0,
     cardAtr = replicate 33 0, cardAtrLength = 0, cardProtocol = 0\<rparr>"

definition sample_state :: READER_STATE where
  "sample_state = \<lparr>readerID = 100, readerName = ''R 00 00'', readerState = 0x34, readerSharing = 0,
     cardAtr = sample_atr, cardAtrLength = 4, cardProtocol = 0\<rparr>"

definition empty_context :: psContext_t where
  "empty_context = \<lparr>ctx_hContext = 0, ctx_hCard = replicate 16 0, ctx_dwClientID = 0,
     ctx_protocol_major = 0, ctx_protocol_minor = 0\<rparr>"

text \<open>One reader in slot 0 with a powered card, 15 free slots, no client.\<close>

definition sample_daemon :: "unit pcscd" where
  "sample_daemon =
     \<lparr>sReadersContexts = sample_reader # replicate 15 empty_reader, dwNumReadersContexts = 1,
      readerStates = sample_state # replicate 15 empty_state, ClientsWaitingForEvent = [],
      psContext = replicate 256 empty_context, cells = (\<lambda>_. 1), next_cell = 3,
      rand_stream = (\<lambda>_. 0), rand_pos = 0, machine = sample_hw, signalled = [],
      send_result = (\<lambda>_. 0), stack_bytes = (\<lambda>_. 0), dl_closed = []\<rparr>"

lemma rctx_sample: "rctx sample_daemon 0 = sample_reader" "i \<noteq> 0 \<Longrightarrow> i < 16 \<Longrightarrow> rctx sample_daemon i = empty_reader"
  by (simp_all add: rctx_def sample_daemon_def nth_Cons')

lemma identities_sample: "identities_ok sample_daemon"
proof -
  have "dwIdentity (rctx sample_daemon i) = 0 \<or> dwIdentity (rctx sample_daemon i) = slot_identity i" if "i < 16" for i
    using that by (cases "i = 0")
      (simp_all add: rctx_sample sample_reader_def empty_reader_def slot_identity_def)
  then show ?thesis by (simp add: identities_ok_def sample_daemon_def)
qed

subsection \<open>Properties\<close>

text \<open>The handle table of a reader has room for 16 handles: a handle is added exactly while fewer
  are connected, the table then holds it in addition to the others, and removing it again
  succeeds and restores the handles held before.\<close>

theorem reader_handle_table:
  assumes "length (psHandles r) = 16" and "h \<noteq> 0"
  shows "(fst (RFAddReaderHandle r h) = SCARD_S_SUCCESS \<longleftrightarrow> size (live (map hCard (psHandles r))) < 16)
    \<and> (fst (RFAddReaderHandle r h) = SCARD_S_SUCCESS \<longrightarrow>
         live (map hCard (psHandles (snd (RFAddReaderHandle r h)))) = add_mset h (live (map hCard (psHandles r)))
         \<and> fst (RFRemoveReaderHandle (snd (RFAddReaderHandle r h)) h) = SCARD_S_SUCCESS
         \<and> live (map hCard (psHandles (snd (RFRemoveReaderHandle (snd (RFAddReaderHandle r h)) h))))
             = live (map hCard (psHandles r)))"
  using assms reader_handles.add_ok_capacity [of r h] reader_handles.add_live [of r h]
    reader_handles.add_remove [of r h] by simp

theorem reader_handle_table_witness:
  "fst (RFAddReaderHandle sample_reader 0x1000A) = SCARD_S_SUCCESS
   \<and> live (map hCard (psHandles (snd (RFAddReaderHandle sample_reader 0x1000A)))) = {#0x1000A#}"
proof -
  have l: "live (map hCard (psHandles sample_reader)) = {#}"
    by (simp add: sample_reader_def live_def numeral_eq_Suc)
  show ?thesis
    using reader_handle_table [of sample_reader "0x1000A"] l by (simp add: sample_reader_def)
qed

text \<open>C4: The sharing lock of a reader is a reentrant lock: \<^verbatim>\<open>RFLockSharing\<close>, \<^verbatim>\<open>RFUnlockSharing\<close> and
  \<^verbatim>\<open>RFUnlockAllSharing\<close> on the fields \<^verbatim>\<open>dwLockId\<close> and \<^verbatim>\<open>LockCount\<close> compute the abstract operations
  for the owner (or for anyone while it is free) and refuse everybody else without any effect.\<close>

theorem sharing_lock_refinement:
  assumes "lock_client i w h"
  shows "(if may_lock (lock_of (rctx w i)) h
     then fst (RFLockSharing h w) = SCARD_S_SUCCESS
        \<and> lock_of (rctx (snd (RFLockSharing h w)) i) = lock_acquire (lock_of (rctx w i)) h
        \<and> fst (RFUnlockSharing h w) = SCARD_S_SUCCESS
        \<and> lock_of (rctx (snd (RFUnlockSharing h w)) i) = lock_release (lock_of (rctx w i))
        \<and> fst (RFUnlockAllSharing h w) = SCARD_S_SUCCESS
        \<and> lock_of (rctx (snd (RFUnlockAllSharing h w)) i) = None
     else RFLockSharing h w = (SCARD_E_SHARING_VIOLATION, w)
        \<and> RFUnlockSharing h w = (SCARD_E_SHARING_VIOLATION, w)
        \<and> RFUnlockAllSharing h w = (SCARD_E_SHARING_VIOLATION, w))"
  using assms sharing_lock.acquire_ok [of i w h] sharing_lock.release_ok [of i w h]
    sharing_lock.release_all_ok [of i w h] sharing_lock.acquire_refused [of i w h]
    sharing_lock.release_refused [of i w h] sharing_lock.release_all_refused [of i w h] by simp

lemma lock_client_sample: "lock_client 0 sample_daemon 0x1000A"
proof -
  have "identity_part 0x1000A = slot_identity 0"
    using identity_part_handle [of 0 10] by (simp add: slot_identity_def)
  then have "RFReaderInfoById sample_daemon 0x1000A = Inr 0"
    by (intro RFReaderInfoById_handle identities_sample)
       (simp_all add: rctx_sample sample_reader_def slot_identity_def)
  then show ?thesis by (simp add: lock_client_def rctx_sample lock_ok_def sample_reader_def)
qed

theorem sharing_lock_refinement_witness:
  "lock_of (rctx (snd (RFLockSharing 0x1000A sample_daemon)) 0) = Some (0x1000A, 1)"
proof -
  have "lock_of (rctx sample_daemon 0) = None"
    by (simp add: rctx_sample lock_of_def sample_reader_def)
  then show ?thesis using sharing_lock_refinement [OF lock_client_sample] by simp
qed

text \<open>Locking is properly nested: after any number of successful \<^verbatim>\<open>RFLockSharing\<close> calls of one
  handle, as many \<^verbatim>\<open>RFUnlockSharing\<close> calls bring the lock back to where it was.\<close>

theorem sharing_lock_nested:
  assumes "lock_client i w h" and "may_lock (lock_of (rctx w i)) h"
  shows "lock_of (rctx (((\<lambda>w. snd (RFUnlockSharing h w)) ^^ n) (((\<lambda>w. snd (RFLockSharing h w)) ^^ n) w)) i)
    = lock_of (rctx w i)"
  by (rule sharing_lock.nested [OF assms])

theorem sharing_lock_nested_witness:
  "lock_of (rctx (((\<lambda>w. snd (RFUnlockSharing 0x1000A w)) ^^ 5)
     (((\<lambda>w. snd (RFLockSharing 0x1000A w)) ^^ 5) sample_daemon)) 0) = None"
proof -
  have "lock_of (rctx sample_daemon 0) = None"
    by (simp add: rctx_sample lock_of_def sample_reader_def)
  then show ?thesis using sharing_lock_nested [OF lock_client_sample, of 5] by simp
qed

text \<open>A new handle leads back to its reader: whatever \<^verbatim>\<open>rand()\<close> yields, the handle
  \<^verbatim>\<open>RFCreateReaderHandle\<close> makes for a loaded reader is not 0, and \<^verbatim>\<open>RFReaderInfoById\<close> finds exactly
  that reader again; only the position of the random generator changes.\<close>

theorem created_handle_roundtrip:
  assumes "identities_ok w" and "i < 16" and "dwIdentity (rctx w i) = slot_identity i"
    and "RFCreateReaderHandle i w = (h, w')"
  shows "h \<noteq> 0 \<and> RFReaderInfoById w' h = Inr i \<and> sReadersContexts w' = sReadersContexts w"
proof -
  from assms(4) obtain n where n: "10 \<le> n" "n \<le> 65000" "h = slot_identity i + of_nat n"
    and w': "\<exists>p. w' = w\<lparr>rand_pos := p\<rparr>"
    by (rule RFCreateReaderHandle_shape) (simp add: assms(3))
  have part: "identity_part h = slot_identity i" using assms(2) n by simp
  then have "h \<noteq> 0" using assms(2) slot_identity_nonzero [of i] by (auto simp: identity_part_def)
  moreover have "RFReaderInfoById w h = Inr i"
    by (rule RFReaderInfoById_handle [OF assms(1-3) part])
  ultimately show ?thesis using w' by (auto simp: RFReaderInfoById_def)
qed

theorem created_handle_roundtrip_witness:
  "\<exists>h w'. RFCreateReaderHandle 0 sample_daemon = (h, w') \<and> h \<noteq> 0 \<and> RFReaderInfoById w' h = Inr 0"
proof -
  obtain h w' where c: "RFCreateReaderHandle 0 sample_daemon = (h, w')" by fastforce
  have "dwIdentity (rctx sample_daemon 0) = slot_identity 0"
    by (simp add: rctx_sample sample_reader_def slot_identity_def)
  from created_handle_roundtrip [OF identities_sample _ this c] c show ?thesis by auto
qed

text \<open>Handles need not be unique. The loop that should restart after a collision only continues
  with the next cell, so a value drawn after a collision is not compared with the cells
  already passed: with the handles \<open>0x1FDE8\<close> and \<open>0x1000A\<close> connected to the reader, the draws 10 and
  65000 produce \<open>0x1FDE8\<close> a second time.\<close>

definition two_clients :: "unit pcscd" where
  "two_clients = sample_daemon\<lparr>
     sReadersContexts := sample_reader\<lparr>psHandles := \<lparr>hCard = 0x1FDE8, dwEventStatus = 0\<rparr>
         # \<lparr>hCard = 0x1000A, dwEventStatus = 0\<rparr> # replicate 14 \<lparr>hCard = 0, dwEventStatus = 0\<rparr>\<rparr>
       # replicate 15 empty_reader,
     rand_stream := (\<lambda>p. if p = 0 then 0 else RAND_MAX)\<rparr>"

theorem created_handle_not_unique:
  "fst (RFCreateReaderHandle 0 two_clients) = 0x1FDE8
   \<and> 0x1FDE8 \<in> hCard ` set (psHandles (rctx two_clients 0))"
proof -
  have cells: "handle_cells two_clients = 0x1FDE8 # 0x1000A # replicate 14 0"
    by (simp add: handle_cells_def two_clients_def sample_reader_def empty_reader_def)
  have r: "dwIdentity (rctx two_clients 0) = 0x10000" "rand_stream two_clients = (\<lambda>p. if p = 0 then 0 else RAND_MAX)"
    "rand_pos two_clients = 0"
    by (simp_all add: two_clients_def rctx_def sample_reader_def sample_daemon_def)
  have "fst (RFCreateReaderHandle 0 two_clients) = 0x1FDE8"
    by (simp add: RFCreateReaderHandle_def cells r SYS_RandomInt_def RAND_MAX_def
        scan_handles_no_collision)
  then show ?thesis by (simp add: two_clients_def rctx_def sample_reader_def)
qed

end
