(* ===== verification/Event_Handler.thy ===== *)
theory Event_Handler
  imports Reader_Factory
begin

section \<open>The polling thread of a reader and the event list (PCSC/src/eventhandler.c)\<close>

text \<open>
  Every loaded reader has a thread that polls the card's presence, powers a new card, publishes the
  status word of the reader and tells the handles and the waiting clients about changes.
  \<^verbatim>\<open>EHStatusHandlerThread\<close> is modelled as its start and one iteration of its \<^verbatim>\<open>while (1)\<close> loop;
  the two local variables that survive an iteration are the record \<open>poll_thread\<close>, and \<open>poll_run\<close>
  iterates the loop until the thread exits. One iteration is the unit of interleaving with the client
  threads. \<^verbatim>\<open>SYS_USleep\<close> has no effect on the state.
\<close>

subsection \<open>Waiting clients\<close>

text \<open>\<^verbatim>\<open>MSGSignalClient\<close> is in winscard\_svc.c; it sends a message carrying \<open>rv\<close> and returns the
  result of \<^verbatim>\<open>SHMMessageSend\<close>.\<close>

definition MSGSignalClient :: "DWORD \<Rightarrow> LONG \<Rightarrow> 'd pcscd \<Rightarrow> LONG \<times> 'd pcscd" where
  "MSGSignalClient filedes rv w = (send_result w filedes, w\<lparr>signalled := signalled w @ [(filedes, rv)]\<rparr>)"

definition EHRegisterClientForEvent :: "DWORD \<Rightarrow> 'd pcscd \<Rightarrow> LONG \<times> 'd pcscd" where
  "EHRegisterClientForEvent filedes w =
     (SCARD_S_SUCCESS, w\<lparr>ClientsWaitingForEvent := ClientsWaitingForEvent w @ [filedes]\<rparr>)"

text \<open>\<^verbatim>\<open>list_locate\<close> gives the first position or -1, and \<^verbatim>\<open>list_delete_at\<close> refuses positions beyond the list.\<close>

definition EHUnregisterClientForEvent :: "DWORD \<Rightarrow> 'd pcscd \<Rightarrow> LONG \<times> 'd pcscd" where
  "EHUnregisterClientForEvent filedes w =
     (case first_index (\<lambda>x. x = filedes) (ClientsWaitingForEvent w) of
        None \<Rightarrow> (SCARD_F_INTERNAL_ERROR, w)
      | Some pos \<Rightarrow> (SCARD_S_SUCCESS, w\<lparr>ClientsWaitingForEvent :=
            take pos (ClientsWaitingForEvent w) @ drop (Suc pos) (ClientsWaitingForEvent w)\<rparr>))"

definition EHSignalEventToClients :: "'d pcscd \<Rightarrow> LONG \<times> 'd pcscd" where
  "EHSignalEventToClients w =
     (let (rv, w1) = fold (\<lambda>filedes (rv, v). MSGSignalClient filedes SCARD_S_SUCCESS v)
                       (ClientsWaitingForEvent w) (SCARD_S_SUCCESS, w)
      in (rv, w1\<lparr>ClientsWaitingForEvent := []\<rparr>))"

subsection \<open>Reader states\<close>

definition zero_state :: "READER_STATE \<Rightarrow> READER_STATE" where
  "zero_state s = s\<lparr>readerName := [], cardAtr := replicate MAX_ATR_SIZE 0, readerID := 0, readerState := 0,
     readerSharing := 0, cardAtrLength := 0, cardProtocol := SCARD_PROTOCOL_UNDEFINED\<rparr>"

definition EHInitializeEventStructures :: "'d pcscd \<Rightarrow> LONG \<times> 'd pcscd" where
  "EHInitializeEventStructures w =
     (SCARD_S_SUCCESS, w\<lparr>readerStates := map zero_state (readerStates w), ClientsWaitingForEvent := []\<rparr>)"

text \<open>The bit patterns of the status word, in the order of the assignments in the code.\<close>

definition status_powered :: "DWORD \<Rightarrow> DWORD" where
  "status_powered s = bclr SCARD_UNKNOWN (bclr SCARD_SWALLOWED (bclr SCARD_SPECIFIC
     (bset SCARD_NEGOTIABLE (bset SCARD_POWERED (bclr SCARD_ABSENT (bset SCARD_PRESENT s))))))"

definition status_swallowed :: "DWORD \<Rightarrow> DWORD" where
  "status_swallowed s = bclr SCARD_UNKNOWN (bclr SCARD_SPECIFIC (bclr SCARD_NEGOTIABLE
     (bclr SCARD_POWERED (bset SCARD_SWALLOWED (bclr SCARD_ABSENT (bset SCARD_PRESENT s))))))"

definition status_absent :: "DWORD \<Rightarrow> DWORD" where
  "status_absent s = bclr SCARD_SPECIFIC (bclr SCARD_SWALLOWED (bclr SCARD_NEGOTIABLE
     (bclr SCARD_POWERED (bclr SCARD_PRESENT (bclr SCARD_UNKNOWN (bset SCARD_ABSENT s))))))"

definition status_unknown :: "DWORD \<Rightarrow> DWORD" where
  "status_unknown s = bset SCARD_UNKNOWN (bclr SCARD_SWALLOWED (bclr SCARD_SPECIFIC
     (bclr SCARD_NEGOTIABLE (bclr SCARD_POWERED (bclr SCARD_PRESENT (bclr SCARD_ABSENT s))))))"

definition incrementEventCounter :: "READER_STATE \<Rightarrow> READER_STATE" where
  "incrementEventCounter s =
     (let counter = (drop_bit 16 (readerState s) AND 0xFFFF) + 1
      in s\<lparr>readerState := (readerState s AND 0xFFFF) + push_bit 16 counter\<rparr>)"

text \<open>\<^verbatim>\<open>IFDStatusICC\<close> on the public state: the ATR buffer is \<^verbatim>\<open>readerState->cardAtr\<close>, and the length
  it reports is stored in \<^verbatim>\<open>cardAtrLength\<close>.\<close>

definition poll_icc :: "nat \<Rightarrow> 'd pcscd \<Rightarrow> (LONG \<times> DWORD \<times> 'd pcscd) option" where
  "poll_icc i w =
     do { s \<leftarrow> rstate w i;
          (rv, dwStatus, atr, dwAtrLen, h) \<leftarrow> IFDStatusICC (rctx w i) (cardAtr s) (cardAtrLength s) (machine w);
          w1 \<leftarrow> upd_rstate i (\<lambda>s. s\<lparr>cardAtr := atr, cardAtrLength := dwAtrLen\<rparr>) (with_machine w h);
          Some (rv, dwStatus, w1) }"

text \<open>\<^verbatim>\<open>IFDPowerICC(rContext, dwAction, rContext->readerState->cardAtr, &dwAtrLen)\<close>.\<close>

definition ifd_power :: "nat \<Rightarrow> DWORD \<Rightarrow> DWORD \<Rightarrow> 'd pcscd \<Rightarrow> (LONG \<times> DWORD \<times> 'd pcscd) option" where
  "ifd_power i dwAction dwAtrLen w =
     do { s \<leftarrow> rstate w i;
          (rv, atr, len, h) \<leftarrow> IFDPowerICC (rctx w i) dwAction (cardAtr s) dwAtrLen (machine w);
          w1 \<leftarrow> upd_rstate i (\<lambda>s. s\<lparr>cardAtr := atr\<rparr>) (with_machine w h);
          Some (rv, len, w1) }"

text \<open>Powering a new card: \<^verbatim>\<open>dwAtrLen = MAX_ATR_SIZE\<close>, the power-up, and the protocol unset.\<close>

definition power_up_card :: "nat \<Rightarrow> 'd pcscd \<Rightarrow> (LONG \<times> 'd pcscd) option" where
  "power_up_card i w =
     do { (rv, len, w1) \<leftarrow> ifd_power i IFD_POWER_UP (of_nat MAX_ATR_SIZE) w;
          w2 \<leftarrow> upd_rstate i (\<lambda>s. s\<lparr>cardAtrLength := len, cardProtocol := SCARD_PROTOCOL_UNDEFINED\<rparr>) w1;
          Some (rv, w2) }"

subsection \<open>The polling thread\<close>

record poll_thread =
  dwReaderSharing :: int
  dwCurrentState :: DWORD

definition EHStatusHandlerThread_start :: "nat \<Rightarrow> 'd pcscd \<Rightarrow> (poll_thread \<times> 'd pcscd) option" where
  "EHStatusHandlerThread_start i w =
     do { (_, dwStatus, w1) \<leftarrow> poll_icc i w;
          (dwStatus1, cur, w2) \<leftarrow>
            (if flag dwStatus SCARD_PRESENT
             then do { (rv, v) \<leftarrow> power_up_card i w1;
                       Some (if rv = IFD_SUCCESS then status_powered dwStatus else status_swallowed dwStatus,
                             SCARD_PRESENT, v) }
             else do { v \<leftarrow> upd_rstate i (\<lambda>s. s\<lparr>cardAtrLength := 0, cardProtocol := SCARD_PROTOCOL_UNDEFINED\<rparr>) w1;
                       Some (status_absent dwStatus, SCARD_ABSENT, v) });
          w3 \<leftarrow> upd_rstate i (\<lambda>s. s\<lparr>readerState := dwStatus1, readerSharing := dwContexts (rctx w2 i)\<rparr>) w2;
          Some (\<lparr>dwReaderSharing = dwContexts (rctx w2 i), dwCurrentState = cur\<rparr>, snd (EHSignalEventToClients w3)) }"

definition poll_error :: "nat \<Rightarrow> 'd pcscd \<Rightarrow> 'd pcscd option" where
  "poll_error i w =
     do { w1 \<leftarrow> upd_rstate i (\<lambda>s. s\<lparr>readerState := status_unknown (readerState s), cardAtrLength := 0,
                cardProtocol := SCARD_PROTOCOL_UNDEFINED\<rparr>) w;
          Some (snd (EHSignalEventToClients w1)) }"

definition poll_removed :: "nat \<Rightarrow> 'd pcscd \<Rightarrow> 'd pcscd option" where
  "poll_removed i w =
     do { w1 \<leftarrow> upd_rstate i (\<lambda>s. incrementEventCounter (s\<lparr>cardAtrLength := 0,
                cardProtocol := SCARD_PROTOCOL_UNDEFINED, readerState := status_absent (readerState s)\<rparr>))
                (upd_rctx i (\<lambda>r. RFSetReaderEventState r SCARD_REMOVED) w);
          Some (snd (EHSignalEventToClients w1)) }"

definition poll_inserted :: "nat \<Rightarrow> 'd pcscd \<Rightarrow> 'd pcscd option" where
  "poll_inserted i w =
     do { (rv, w1) \<leftarrow> power_up_card i w;
          w2 \<leftarrow> upd_rstate i (\<lambda>s. incrementEventCounter
                  (if rv = IFD_SUCCESS then s\<lparr>readerState := status_powered (readerState s)\<rparr>
                   else s\<lparr>readerState := status_swallowed (readerState s), cardAtrLength := 0\<rparr>)) w1;
          Some (snd (EHSignalEventToClients w2)) }"

text \<open>What the iteration does with the card, up to line 476.\<close>

definition poll_card :: "nat \<Rightarrow> DWORD \<Rightarrow> 'd pcscd \<Rightarrow> (DWORD \<times> 'd pcscd) option" where
  "poll_card i cur w =
     do { (rv, dwStatus, w1) \<leftarrow> poll_icc i w;
          (cur1, w2) \<leftarrow> (if rv \<noteq> SCARD_S_SUCCESS
                         then map_option (\<lambda>v. (SCARD_UNKNOWN, v)) (poll_error i w1) else Some (cur, w1));
          if flag dwStatus SCARD_ABSENT then
            (if cur1 = SCARD_PRESENT \<or> cur1 = SCARD_UNKNOWN
             then map_option (\<lambda>v. (SCARD_ABSENT, v)) (poll_removed i w2) else Some (cur1, w2))
          else if flag dwStatus SCARD_PRESENT then
            (if cur1 = SCARD_ABSENT \<or> cur1 = SCARD_UNKNOWN
             then map_option (\<lambda>v. (SCARD_PRESENT, v)) (poll_inserted i w2) else Some (cur1, w2))
          else Some (cur1, w2) }"

text \<open>Passing a change of the sharing count on (lines 481 to 486).\<close>

definition poll_sharing :: "nat \<Rightarrow> int \<Rightarrow> 'd pcscd \<Rightarrow> (int \<times> 'd pcscd) option" where
  "poll_sharing i sharing w =
     (if sharing \<noteq> dwContexts (rctx w i)
      then do { w1 \<leftarrow> upd_rstate i (\<lambda>s. s\<lparr>readerSharing := dwContexts (rctx w i)\<rparr>) w;
                Some (dwContexts (rctx w i), snd (EHSignalEventToClients w1)) }
      else Some (sharing, w))"

text \<open>The driver's own wait function, if it has one (lines 488 to 497).\<close>

definition poll_wait :: "nat \<Rightarrow> 'd pcscd \<Rightarrow> 'd pcscd" where
  "poll_wait i w =
     (case pthCardEvent (rctx w i) of
        None \<Rightarrow> w
      | Some card_event \<Rightarrow>
          with_machine w (with_drv (machine w) (snd (card_event (dwSlot (rctx w i)) (drv (machine w))))))"

text \<open>One iteration; the boolean says that the thread has exited.\<close>

definition EHStatusHandlerThread_loop :: "nat \<Rightarrow> poll_thread \<Rightarrow> 'd pcscd \<Rightarrow> (bool \<times> poll_thread \<times> 'd pcscd) option" where
  "EHStatusHandlerThread_loop i t w =
     do { (cur, w1) \<leftarrow> poll_card i (dwCurrentState t) w;
          (sharing, w2) \<leftarrow> poll_sharing i (dwReaderSharing t) w1;
          let w3 = poll_wait i w2;
          let t1 = \<lparr>dwReaderSharing = sharing, dwCurrentState = cur\<rparr>;
          if dwLockId (rctx w3 i) = 0xFFFF
          then Some (True, t1, upd_rctx i (\<lambda>r. r\<lparr>dwLockId := 0\<rparr>) (snd (EHSignalEventToClients w3)))
          else Some (False, t1, w3) }"

text \<open>The whole loop, when no other thread interferes: \<open>None\<close> also when it never exits.\<close>

partial_function (option) poll_run :: "nat \<Rightarrow> poll_thread \<Rightarrow> 'd pcscd \<Rightarrow> 'd pcscd option" where
  "poll_run i t w =
     do { (exited, t1, w1) \<leftarrow> EHStatusHandlerThread_loop i t w;
          if exited then Some w1 else poll_run i t1 w1 }"

subsection \<open>Starting and stopping the thread\<close>

text \<open>\<open>(create, tid)\<close> is the result of \<^verbatim>\<open>SYS_ThreadCreate\<close>.
  Both \<^verbatim>\<open>readerName\<close> and \<^verbatim>\<open>lpcReader\<close> hold \<^verbatim>\<open>MAX_READERNAME\<close> characters, so \<^verbatim>\<open>strlcpy\<close> copies the name
  up to 99 characters.\<close>

definition EHSpawnEventHandler ::
  "nat \<Rightarrow> (DWORD \<Rightarrow> 'd \<Rightarrow> LONG \<times> 'd) option \<Rightarrow> int \<times> nat \<Rightarrow> 'd pcscd \<Rightarrow> (LONG \<times> 'd pcscd) option" where
  "EHSpawnEventHandler i card_event thread w =
     do { (rv, dwStatus, ucAtr, dwAtrLen, h) \<leftarrow> IFDStatusICC (rctx w i) (uninit MAX_ATR_SIZE w) 0 (machine w);
          let w1 = with_machine w h;
          if rv \<noteq> SCARD_S_SUCCESS then Some (SCARD_F_UNKNOWN_ERROR, w1)
          else case first_index (\<lambda>s. readerID s = 0) (readerStates w1) of
            None \<Rightarrow> Some (SCARD_F_INTERNAL_ERROR, w1)
          | Some k \<Rightarrow> do {
              w2 \<leftarrow> upd_rstate i (\<lambda>s. s\<lparr>readerName := take (MAX_READERNAME - 1) (lpcReader (rctx w1 i)),
                       cardAtr := take (unat dwAtrLen) ucAtr @ drop (unat dwAtrLen) (cardAtr s),
                       readerID := int k + 100, readerState := dwStatus,
                       readerSharing := dwContexts (rctx w1 i), cardAtrLength := dwAtrLen,
                       cardProtocol := SCARD_PROTOCOL_UNDEFINED\<rparr>)
                     (upd_rctx i (\<lambda>r. r\<lparr>stateRef := Some k\<rparr>) w1);
              let (create, tid) = thread;
              Some (if create \<noteq> 0 then SCARD_E_NO_MEMORY else SCARD_S_SUCCESS,
                    upd_rctx i (\<lambda>r. r\<lparr>pthCardEvent := card_event, pthThread := tid\<rparr>) w2) } }"

text \<open>\<open>join cancelled\<close> stands for what the polling thread still does until \<^verbatim>\<open>SYS_ThreadJoin\<close> returns,
  \<open>cancelled\<close> telling whether \<^verbatim>\<open>SYS_ThreadCancel\<close> was called; \<open>None\<close> when it never ends.\<close>

definition EHDestroyEventHandler ::
  "(bool \<Rightarrow> 'd pcscd \<Rightarrow> 'd pcscd option) \<Rightarrow> nat \<Rightarrow> 'd pcscd \<Rightarrow> (LONG \<times> 'd pcscd) option" where
  "EHDestroyEventHandler join i w =
     (case rstate w i of
        None \<Rightarrow> Some (SCARD_S_SUCCESS, w)
      | Some s \<Rightarrow>
          if readerName s = [] then Some (SCARD_S_SUCCESS, w)
          else do {
            let w1 = upd_rctx i (\<lambda>r. r\<lparr>dwLockId := 0xFFFF\<rparr>) w;
            (rv, dwGetSize, ucGetData, h) \<leftarrow>
               IFDGetCapabilities (rctx w1 i) TAG_IFD_POLLING_THREAD_KILLABLE 1 (uninit 1 w) (machine w1);
            w2 \<leftarrow> join (rv = IFD_SUCCESS \<and> dwGetSize = 1 \<and> ucGetData ! 0 \<noteq> 0) (with_machine w1 h);
            w3 \<leftarrow> upd_rstate i zero_state w2;
            Some (SCARD_S_SUCCESS, upd_rctx i (\<lambda>r. r\<lparr>pthThread := 0\<rparr>) w3) })"

subsection \<open>What the operations leave alone\<close>

lemma fold_signal:
  "\<exists>rv'. fold (\<lambda>fd (rv, v). MSGSignalClient fd SCARD_S_SUCCESS v) xs (rv, w)
     = (rv', w\<lparr>signalled := signalled w @ map (\<lambda>fd. (fd, SCARD_S_SUCCESS)) xs\<rparr>)"
proof (induction xs arbitrary: rv w)
  case (Cons x xs)
  from Cons.IH [of "send_result w x" "w\<lparr>signalled := signalled w @ [(x, SCARD_S_SUCCESS)]\<rparr>"]
  show ?case by (simp add: MSGSignalClient_def)
qed simp

lemma EHSignal_eq:
  "snd (EHSignalEventToClients w) =
     w\<lparr>signalled := signalled w @ map (\<lambda>fd. (fd, SCARD_S_SUCCESS)) (ClientsWaitingForEvent w),
       ClientsWaitingForEvent := []\<rparr>"
  using fold_signal [of "ClientsWaitingForEvent w" SCARD_S_SUCCESS w]
  by (auto simp: EHSignalEventToClients_def)

lemma EHSignal_frame [simp]:
  "sReadersContexts (snd (EHSignalEventToClients w)) = sReadersContexts w"
  "readerStates (snd (EHSignalEventToClients w)) = readerStates w"
  "rctx (snd (EHSignalEventToClients w)) = rctx w"
  "rstate (snd (EHSignalEventToClients w)) = rstate w"
  "psContext (snd (EHSignalEventToClients w)) = psContext w"
  "machine (snd (EHSignalEventToClients w)) = machine w"
  "ClientsWaitingForEvent (snd (EHSignalEventToClients w)) = []"
  "signalled (snd (EHSignalEventToClients w)) =
     signalled w @ map (\<lambda>fd. (fd, SCARD_S_SUCCESS)) (ClientsWaitingForEvent w)"
  by (simp_all add: EHSignal_eq rctx_def rstate_def fun_eq_iff)

text \<open>The card operations write nothing of the daemon's tables but the reader's own public state.\<close>

definition same_tables :: "'d pcscd \<Rightarrow> 'd pcscd \<Rightarrow> bool" where
  "same_tables w w' \<longleftrightarrow> sReadersContexts w' = sReadersContexts w \<and> psContext w' = psContext w
     \<and> length (readerStates w') = length (readerStates w)"

lemma same_tables_refl [simp]: "same_tables w w"
  and same_tables_trans: "same_tables u v \<Longrightarrow> same_tables v w \<Longrightarrow> same_tables u w"
  by (auto simp: same_tables_def)

lemma same_tables_upd_rstate: "upd_rstate i f w = Some w' \<Longrightarrow> same_tables w w'"
  by (simp add: same_tables_def upd_rstate_frame)

lemma same_tables_with_machine [simp]:
  "same_tables (with_machine w h) w' = same_tables w w'" "same_tables w (with_machine w' h) = same_tables w w'"
  by (simp_all add: same_tables_def)

lemma same_tables_signal [simp]: "same_tables w (snd (EHSignalEventToClients w')) = same_tables w w'"
  by (simp add: same_tables_def EHSignal_eq)

lemma same_tables_poll_wait [simp]: "same_tables w (poll_wait i w)"
  by (simp add: poll_wait_def split: option.split)

lemma same_tables_poll_icc: "poll_icc i w = Some (rv, st, w') \<Longrightarrow> same_tables w w'"
  by (auto simp: poll_icc_def bind_eq_Some_conv dest!: same_tables_upd_rstate intro: same_tables_trans)

lemma same_tables_ifd_power: "ifd_power i a l w = Some (rv, len, w') \<Longrightarrow> same_tables w w'"
  by (auto simp: ifd_power_def bind_eq_Some_conv dest!: same_tables_upd_rstate intro: same_tables_trans)

lemma same_tables_power_up: "power_up_card i w = Some (rv, w') \<Longrightarrow> same_tables w w'"
  by (auto simp: power_up_card_def bind_eq_Some_conv
      dest!: same_tables_upd_rstate same_tables_ifd_power intro: same_tables_trans)

lemma same_tables_poll_error: "poll_error i w = Some w' \<Longrightarrow> same_tables w w'"
  by (auto simp: poll_error_def bind_eq_Some_conv
      dest!: same_tables_upd_rstate intro: same_tables_trans)

lemma same_tables_poll_inserted: "poll_inserted i w = Some w' \<Longrightarrow> same_tables w w'"
  by (auto simp: poll_inserted_def bind_eq_Some_conv dest!: same_tables_upd_rstate same_tables_power_up
      intro: same_tables_trans)

lemma same_tables_poll_sharing: "poll_sharing i n w = Some (m, w') \<Longrightarrow> same_tables w w' \<and> m = dwContexts (rctx w i)"
  by (auto simp: poll_sharing_def bind_eq_Some_conv split: if_splits
      dest!: same_tables_upd_rstate intro: same_tables_trans)

lemmas same_tables_intros =
  same_tables_poll_icc same_tables_ifd_power same_tables_power_up same_tables_poll_error
  same_tables_poll_inserted

lemma same_tables_rctx: "same_tables w w' \<Longrightarrow> rctx w' = rctx w"
  by (simp add: same_tables_def rctx_def fun_eq_iff)

text \<open>An iteration changes the reader table at most by marking the handles of its own reader.\<close>

lemma poll_removed_tables:
  "poll_removed i w = Some w' \<Longrightarrow> same_tables (upd_rctx i (\<lambda>r. RFSetReaderEventState r SCARD_REMOVED) w) w'"
  by (auto simp: poll_removed_def bind_eq_Some_conv
      dest!: same_tables_upd_rstate intro: same_tables_trans)

lemma poll_card_tables:
  assumes "poll_card i cur w = Some (cur', w')"
  shows "same_tables w w' \<or> same_tables (upd_rctx i (\<lambda>r. RFSetReaderEventState r SCARD_REMOVED) w) w' \<and> cur' = SCARD_ABSENT"
proof -
  obtain rv st w1 where p: "poll_icc i w = Some (rv, st, w1)"
    using assms by (auto simp: poll_card_def bind_eq_Some_conv)
  obtain c w2 where e: "(if rv \<noteq> SCARD_S_SUCCESS then map_option (\<lambda>v. (SCARD_UNKNOWN, v)) (poll_error i w1)
      else Some (cur, w1)) = Some (c, w2)"
    using assms p by (auto simp: poll_card_def bind_eq_Some_conv)
  have w2: "same_tables w w2"
    using same_tables_poll_icc [OF p] e by (auto split: if_splits dest!: same_tables_poll_error intro: same_tables_trans)
  have rest: "w' = w2 \<or> poll_removed i w2 = Some w' \<and> cur' = SCARD_ABSENT \<or> poll_inserted i w2 = Some w'"
    using assms p e by (auto simp: poll_card_def split: if_splits)
  have "sReadersContexts (upd_rctx i (\<lambda>r. RFSetReaderEventState r SCARD_REMOVED) w2)
      = sReadersContexts (upd_rctx i (\<lambda>r. RFSetReaderEventState r SCARD_REMOVED) w)"
    using w2 by (simp add: upd_rctx_def same_tables_def)
  with w2 have "same_tables (upd_rctx i (\<lambda>r. RFSetReaderEventState r SCARD_REMOVED) w) w'"
    if "poll_removed i w2 = Some w'"
    using poll_removed_tables [OF that] by (simp add: same_tables_def)
  with rest w2 show ?thesis by (blast intro: same_tables_trans same_tables_poll_inserted)
qed

subsection \<open>The public state of a reader\<close>

text \<open>The reader in slot \<open>i\<close> has a public state.\<close>

definition state_valid :: "'d pcscd \<Rightarrow> nat \<Rightarrow> bool" where
  "state_valid w i \<longleftrightarrow> (\<exists>k < length (readerStates w). stateRef (rctx w i) = Some k)"

lemma state_valid_rstate: "state_valid w i \<Longrightarrow> \<exists>s. rstate w i = Some s"
  by (auto simp: state_valid_def rstate_def)

lemma state_valid_cong: "same_tables w w' \<Longrightarrow> state_valid w' i = state_valid w i"
  by (simp add: state_valid_def same_tables_def rctx_def)

lemma state_valid_upd_rctx [simp]:
  "(\<And>r. stateRef (f r) = stateRef r) \<Longrightarrow> i < length (sReadersContexts w) \<Longrightarrow>
     state_valid (upd_rctx i f w) j = state_valid w j"
  by (cases "j = i") (simp_all add: state_valid_def)

lemma rstate_upd_rctx [simp]:
  "(\<And>r. stateRef (f r) = stateRef r) \<Longrightarrow> i < length (sReadersContexts w) \<Longrightarrow> rstate (upd_rctx i f w) j = rstate w j"
  by (cases "j = i") (simp_all add: rstate_def)

lemma upd_rstate_rstate:
  "upd_rstate i f w = Some w' \<Longrightarrow> state_valid w i \<Longrightarrow> rstate w' i = map_option f (rstate w i)"
  by (auto simp: upd_rstate_Some rstate_def state_valid_def rctx_def)

lemma upd_rstate_defined: "state_valid w i \<Longrightarrow> \<exists>w'. upd_rstate i f w = Some w'"
  by (auto simp: upd_rstate_def state_valid_def)

lemma upd_rstate_clients:
  "upd_rstate i f w = Some w' \<Longrightarrow> ClientsWaitingForEvent w' = ClientsWaitingForEvent w \<and> signalled w' = signalled w"
  by (auto simp: upd_rstate_Some)

lemma poll_icc_rstate:
  assumes "poll_icc i w = Some (rv, st, w')" and "state_valid w i" and "rstate w i = Some s"
  shows "\<exists>a l. rstate w' i = Some (s\<lparr>cardAtr := a, cardAtrLength := l\<rparr>)"
  using assms upd_rstate_rstate
  by (fastforce simp: poll_icc_def bind_eq_Some_conv state_valid_def)

lemma power_up_rstate:
  assumes "power_up_card i w = Some (rv, w')" and "state_valid w i" and "rstate w i = Some s"
  shows "\<exists>a l. rstate w' i = Some (s\<lparr>cardAtr := a, cardAtrLength := l, cardProtocol := SCARD_PROTOCOL_UNDEFINED\<rparr>)"
proof -
  from assms obtain len w1 where 1: "ifd_power i IFD_POWER_UP (of_nat MAX_ATR_SIZE) w = Some (rv, len, w1)"
    and 2: "upd_rstate i (\<lambda>s. s\<lparr>cardAtrLength := len, cardProtocol := SCARD_PROTOCOL_UNDEFINED\<rparr>) w1 = Some w'"
    by (auto simp: power_up_card_def bind_eq_Some_conv)
  have v: "state_valid w1 i" using assms(2) same_tables_ifd_power [OF 1] by (simp add: state_valid_cong)
  from 1 assms(2,3) have "\<exists>a. rstate w1 i = Some (s\<lparr>cardAtr := a\<rparr>)"
    using upd_rstate_rstate by (fastforce simp: ifd_power_def bind_eq_Some_conv state_valid_def)
  with upd_rstate_rstate [OF 2 v] show ?thesis by auto
qed

subsection \<open>The status word\<close>

text \<open>A status word says exactly one of unknown, absent, present.\<close>

definition one_status :: "DWORD \<Rightarrow> bool" where
  "one_status s \<longleftrightarrow> (flag s SCARD_UNKNOWN \<and> \<not> flag s SCARD_ABSENT \<and> \<not> flag s SCARD_PRESENT)
     \<or> (\<not> flag s SCARD_UNKNOWN \<and> flag s SCARD_ABSENT \<and> \<not> flag s SCARD_PRESENT)
     \<or> (\<not> flag s SCARD_UNKNOWN \<and> \<not> flag s SCARD_ABSENT \<and> flag s SCARD_PRESENT)"

lemma status_flags [simp]:
  "flag (status_powered s) SCARD_PRESENT" "\<not> flag (status_powered s) SCARD_ABSENT"
  "\<not> flag (status_powered s) SCARD_UNKNOWN" "\<not> flag (status_powered s) SCARD_SWALLOWED"
  "flag (status_powered s) SCARD_POWERED"
  "flag (status_swallowed s) SCARD_PRESENT" "\<not> flag (status_swallowed s) SCARD_ABSENT"
  "\<not> flag (status_swallowed s) SCARD_UNKNOWN" "flag (status_swallowed s) SCARD_SWALLOWED"
  "\<not> flag (status_swallowed s) SCARD_POWERED"
  "\<not> flag (status_absent s) SCARD_PRESENT" "flag (status_absent s) SCARD_ABSENT"
  "\<not> flag (status_absent s) SCARD_UNKNOWN" "\<not> flag (status_absent s) SCARD_POWERED"
  "\<not> flag (status_unknown s) SCARD_PRESENT" "\<not> flag (status_unknown s) SCARD_ABSENT"
  "flag (status_unknown s) SCARD_UNKNOWN" "\<not> flag (status_unknown s) SCARD_POWERED"
  by (simp_all add: status_powered_def status_swallowed_def status_absent_def status_unknown_def)

lemma one_status_patterns [simp]:
  "one_status (status_powered s)" "one_status (status_swallowed s)" "one_status (status_absent s)"
  "one_status (status_unknown s)"
  by (simp_all add: one_status_def)

lemma unat_take_16: "unat (take_bit 16 (w :: DWORD)) = unat w mod 65536"
  by (subst unsigned_take_bit_eq) (simp add: take_bit_eq_mod)

lemma unat_drop_16: "unat (drop_bit 16 (w :: DWORD)) = unat w div 65536"
  by (subst unat_drop_bit_eq) (simp add: drop_bit_eq_div)

lemma and_0xFFFF: "(w :: DWORD) AND 0xFFFF = of_nat (unat w mod 65536)"
proof -
  have "(0xFFFF :: DWORD) = mask 16" by (simp add: mask_eq_exp_minus_1)
  then have "w AND 0xFFFF = take_bit 16 w" by (simp add: take_bit_eq_mask)
  also have "\<dots> = of_nat (unat (take_bit 16 w))" by simp
  also have "unat (take_bit 16 w) = unat w mod 65536" by (rule unat_take_16)
  finally show ?thesis .
qed

lemma incrementEventCounter_unat:
  "unat (readerState (incrementEventCounter s)) =
     (unat (readerState s) div 65536 + 1) mod 65536 * 65536 + unat (readerState s) mod 65536"
proof -
  define n where "n = unat (readerState s)"
  have n: "n < 4294967296" using unsigned_less [of "readerState s"] by (simp add: n_def)
  then have d: "n div 65536 < 65536" by simp
  have dr: "unat (drop_bit 16 (readerState s)) = n div 65536" by (simp only: unat_drop_16 n_def)
  have e: "readerState (incrementEventCounter s) = of_nat (n mod 65536) + of_nat ((n div 65536 + 1) * 65536)"
    using d by (simp add: incrementEventCounter_def Let_def and_0xFFFF dr push_bit_eq_mult mult.commute distrib_left
        flip: n_def del: mod_mult_div_eq)
  have m: "(a * 65536) mod 4294967296 = (a mod 65536) * 65536" for a :: nat
    using mult_mod_left [of a 65536 65536] by simp
  have "(n mod 65536 + (n div 65536 + 1) * 65536) mod 4294967296
      = (n mod 65536 + ((n div 65536 + 1) mod 65536) * 65536) mod 4294967296"
    by (metis m mod_add_right_eq)
  also have "\<dots> = n mod 65536 + ((n div 65536 + 1) mod 65536) * 65536"
  proof (rule mod_less)
    have "n mod 65536 < 65536" "(n div 65536 + 1) mod 65536 < 65536" by simp_all
    then show "n mod 65536 + (n div 65536 + 1) mod 65536 * 65536 < 4294967296" by linarith
  qed
  finally show ?thesis by (simp only: e of_nat_add [symmetric] unat_of_nat) (simp add: n_def)
qed

lemma incrementEventCounter_flag [simp]:
  "m < 65536 \<Longrightarrow> flag (readerState (incrementEventCounter s)) m = flag (readerState s) m"
proof -
  assume m: "m < 65536"
  then have "unat m < 65536" by (simp add: word_less_nat_alt)
  then have m16: "take_bit 16 m = m" by (simp only: word_unat_eq_iff unat_take_16 mod_less)
  have "unat (take_bit 16 (readerState (incrementEventCounter s))) = unat (take_bit 16 (readerState s))"
    by (simp only: unat_take_16) (simp add: incrementEventCounter_unat)
  then have "take_bit 16 (readerState (incrementEventCounter s)) = take_bit 16 (readerState s)"
    by (simp add: word_unat_eq_iff)
  then have "readerState (incrementEventCounter s) AND m = readerState s AND m"
  proof -
    assume eq: "take_bit 16 (readerState (incrementEventCounter s)) = take_bit 16 (readerState s)"
    have "bit (take_bit 16 (readerState (incrementEventCounter s))) n = bit (take_bit 16 (readerState s)) n"
      "bit m n \<Longrightarrow> n < 16" for n
      using eq m16 by (simp, metis bit_take_bit_iff)
    then show ?thesis by (intro bit_word_eqI) (auto simp: bit_simps)
  qed
  then show ?thesis by (simp add: flag_def)
qed

lemma one_status_increment [simp]: "one_status (readerState (incrementEventCounter s)) = one_status (readerState s)"
  by (simp add: one_status_def)

lemma incrementEventCounter_fields [simp]:
  "cardAtrLength (incrementEventCounter s) = cardAtrLength s" "cardProtocol (incrementEventCounter s) = cardProtocol s"
  "cardAtr (incrementEventCounter s) = cardAtr s" "readerID (incrementEventCounter s) = readerID s"
  "readerSharing (incrementEventCounter s) = readerSharing s"
  by (simp_all add: incrementEventCounter_def Let_def)

subsection \<open>One iteration\<close>

lemma poll_card_one_status:
  assumes "poll_card i cur w = Some (cur', w')" and "i < length (sReadersContexts w)" and "state_valid w i"
    and "rstate w i = Some s" and "one_status (readerState s)"
  shows "\<exists>s'. rstate w' i = Some s' \<and> one_status (readerState s')"
proof -
  obtain rv st w1 where p: "poll_icc i w = Some (rv, st, w1)"
    using assms(1) by (auto simp: poll_card_def bind_eq_Some_conv)
  obtain c w2 where e: "(if rv \<noteq> SCARD_S_SUCCESS then map_option (\<lambda>v. (SCARD_UNKNOWN, v)) (poll_error i w1)
      else Some (cur, w1)) = Some (c, w2)"
    using assms(1) p by (auto simp: poll_card_def bind_eq_Some_conv)
  have v1: "state_valid w1 i" and len1: "i < length (sReadersContexts w1)"
    using assms(2,3) same_tables_poll_icc [OF p] state_valid_cong by (auto simp: same_tables_def)
  have s1: "\<exists>s1. rstate w1 i = Some s1 \<and> one_status (readerState s1)"
    using poll_icc_rstate [OF p assms(3,4)] assms(5) by auto
  have t2: "same_tables w1 w2" and s2: "\<exists>s2. rstate w2 i = Some s2 \<and> one_status (readerState s2)"
    using e s1 v1 by (auto split: if_splits simp: poll_error_def bind_eq_Some_conv
        dest: upd_rstate_rstate same_tables_upd_rstate)
  have v2: "state_valid w2 i" and len2: "i < length (sReadersContexts w2)"
    using t2 v1 len1 state_valid_cong by (auto simp: same_tables_def)
  have removed: "\<exists>s'. rstate w' i = Some s' \<and> one_status (readerState s')" if "poll_removed i w2 = Some w'"
    using that s2 v2 len2 upd_rstate_rstate by (fastforce simp: poll_removed_def bind_eq_Some_conv)
  have inserted: "\<exists>s'. rstate w' i = Some s' \<and> one_status (readerState s')" if ins: "poll_inserted i w2 = Some w'"
  proof -
    from ins obtain rv' w3 where p3: "power_up_card i w2 = Some (rv', w3)"
      by (auto simp: poll_inserted_def bind_eq_Some_conv)
    have v3: "state_valid w3 i" using v2 same_tables_power_up [OF p3] by (simp add: state_valid_cong)
    obtain s3 where s3: "rstate w3 i = Some s3"
      using power_up_rstate [OF p3 v2] s2 by auto
    then show ?thesis
      using ins p3 v3 upd_rstate_rstate by (fastforce simp: poll_inserted_def bind_eq_Some_conv)
  qed
  have "w' = w2 \<or> poll_removed i w2 = Some w' \<or> poll_inserted i w2 = Some w'"
    using assms(1) p e by (auto simp: poll_card_def split: if_splits)
  with s2 removed inserted show ?thesis by blast
qed

text \<open>The steps of an iteration that returns.\<close>

lemma loop_cases:
  assumes "EHStatusHandlerThread_loop i t w = Some (exited, t', w')" and "i < length (sReadersContexts w)"
  obtains w1 w2 where "poll_card i (dwCurrentState t) w = Some (dwCurrentState t', w1)"
    "poll_sharing i (dwReaderSharing t) w1 = Some (dwReaderSharing t', w2)"
    "exited \<longleftrightarrow> dwLockId (rctx w1 i) = 0xFFFF"
    "sReadersContexts w' = (if exited then upd_at i (\<lambda>r. r\<lparr>dwLockId := 0\<rparr>) (sReadersContexts w1) else sReadersContexts w1)"
    "rctx w' i = (if exited then (rctx w1 i)\<lparr>dwLockId := 0\<rparr> else rctx w1 i)"
    "rstate w' i = rstate w2 i" "psContext w' = psContext w" "length (readerStates w') = length (readerStates w)"
proof -
  from assms(1) obtain w1 w2 where p: "poll_card i (dwCurrentState t) w = Some (dwCurrentState t', w1)"
    and sh: "poll_sharing i (dwReaderSharing t) w1 = Some (dwReaderSharing t', w2)"
    and rest: "(exited, w') = (if dwLockId (rctx (poll_wait i w2) i) = 0xFFFF
        then (True, upd_rctx i (\<lambda>r. r\<lparr>dwLockId := 0\<rparr>) (snd (EHSignalEventToClients (poll_wait i w2))))
        else (False, poll_wait i w2))"
    by (auto simp: EHStatusHandlerThread_loop_def bind_eq_Some_conv Let_def split: if_splits)
  have wait: "same_tables w2 (poll_wait i w2)" "rstate (poll_wait i w2) = rstate w2"
    by (simp_all add: poll_wait_def fun_eq_iff split: option.splits)
  have t12: "same_tables w1 w2" using same_tables_poll_sharing [OF sh] by simp
  with wait have r: "sReadersContexts (poll_wait i w2) = sReadersContexts w1" "rctx (poll_wait i w2) = rctx w1"
    "psContext (poll_wait i w2) = psContext w1" "length (readerStates (poll_wait i w2)) = length (readerStates w1)"
    using same_tables_rctx by (auto simp: same_tables_def)
  have t1: "length (sReadersContexts w1) = length (sReadersContexts w)" "psContext w1 = psContext w"
    "length (readerStates w1) = length (readerStates w)"
    using poll_card_tables [OF p] by (auto simp: same_tables_def)
  have st: "rstate w' i = rstate w2 i"
    using rest r t1 wait assms(2) by (auto split: if_splits)
  show thesis
    by (rule that [OF p sh _ _ _ st])
       (use rest r t1 assms(2) in \<open>auto simp: upd_rctx_def rctx_def split: if_splits\<close>)
qed

lemma poll_sharing_rstate:
  assumes "poll_sharing i n w = Some (m, w')" and "state_valid w i" and "rstate w i = Some s"
  shows "\<exists>q. rstate w' i = Some (s\<lparr>readerSharing := q\<rparr>)"
proof (cases "n = dwContexts (rctx w i)")
  case True
  with assms show ?thesis by (cases s) (auto simp: poll_sharing_def)
next
  case False
  with assms show ?thesis using upd_rstate_rstate by (fastforce simp: poll_sharing_def bind_eq_Some_conv)
qed

lemma drop_bset [simp]: "drop_bit 16 m = 0 \<Longrightarrow> drop_bit 16 (bset m w) = drop_bit 16 (w :: DWORD)"
  by (simp add: bset_def drop_bit_or)

lemma drop_bclr [simp]: "drop_bit 16 m = 0 \<Longrightarrow> drop_bit 16 (bclr m w) = drop_bit 16 (w :: DWORD)"
proof -
  assume "drop_bit 16 m = 0"
  then have "\<not> bit m (16 + n)" for n by (metis bit_0_eq bit_drop_bit_eq bot_apply bot_bool_def comp_apply)
  then show ?thesis by (intro bit_word_eqI) (auto simp: bclr_def bit_simps dest: bit_imp_le_length)
qed

lemma status_absent_counter: "unat (status_absent s) div 65536 = unat s div 65536"
proof -
  have "drop_bit 16 (status_absent s) = drop_bit 16 s" unfolding status_absent_def by simp
  then show ?thesis by (metis unat_drop_16)
qed

text \<open>The event set for a reader is what the next check of each connected handle finds.\<close>

lemma set_event:
  assumes "h \<noteq> 0" and "h \<in> hCard ` set (psHandles r)"
  shows "RFCheckReaderEventState (RFSetReaderEventState r ev) h =
    (if ev = SCARD_REMOVED then SCARD_W_REMOVED_CARD else if ev = SCARD_RESET then SCARD_W_RESET_CARD
     else if ev = 0 then SCARD_S_SUCCESS else SCARD_E_INVALID_VALUE)"
proof -
  define f where "f = (\<lambda>c :: RDR_CLIHANDLES. if hCard c \<noteq> 0 then c\<lparr>dwEventStatus := ev\<rparr> else c)"
  have cards: "hCard (f c) = hCard c" for c by (simp add: f_def)
  from assms(2) obtain c where "c \<in> set (psHandles r)" "hCard c = h" by auto
  then obtain j where j: "first_index (\<lambda>c. hCard c = h) (psHandles r) = Some j"
    using first_index_ex by fastforce
  then have "first_index (\<lambda>c. hCard c = h) (map f (psHandles r)) = Some j"
    by (simp add: first_index_map cards)
  moreover have "dwEventStatus (map f (psHandles r) ! j) = ev"
    using first_index_SomeD [OF j] assms(1) by (simp add: f_def)
  moreover have "psHandles (RFSetReaderEventState r ev) = map f (psHandles r)"
    by (simp add: RFSetReaderEventState_def f_def Let_def)
  ultimately show ?thesis by (simp add: RFCheckReaderEventState_def)
qed

lemma removed_lock [simp]:
  "dwLockId (RFSetReaderEventState r SCARD_REMOVED) = 0" "LockCount (RFSetReaderEventState r SCARD_REMOVED) = 0"
  by (simp_all add: RFSetReaderEventState_def)

text \<open>The whole effect of an iteration that sees the card vanish.\<close>

lemma loop_removed:
  assumes "EHStatusHandlerThread_loop i t w = Some (exited, t', w')"
    and cur: "dwCurrentState t = SCARD_PRESENT \<or> dwCurrentState t = SCARD_UNKNOWN"
    and i: "i < length (sReadersContexts w)" and v: "state_valid w i" and s: "rstate w i = Some s"
    and icc: "IFDStatusICC (rctx w i) (cardAtr s) (cardAtrLength s) (machine w)
          = Some (SCARD_S_SUCCESS, SCARD_ABSENT, a, l, m)"
  shows "\<not> exited \<and> rctx w' i = RFSetReaderEventState (rctx w i) SCARD_REMOVED \<and> dwCurrentState t' = SCARD_ABSENT
    \<and> (\<exists>q. rstate w' i = Some ((incrementEventCounter (s\<lparr>cardAtr := a, cardAtrLength := 0,
              cardProtocol := SCARD_PROTOCOL_UNDEFINED, readerState := status_absent (readerState s)\<rparr>))\<lparr>readerSharing := q\<rparr>))
    \<and> ClientsWaitingForEvent w' = []
    \<and> signalled w' = signalled w @ map (\<lambda>fd. (fd, SCARD_S_SUCCESS)) (ClientsWaitingForEvent w)"
proof -
  have vm: "state_valid (with_machine w m) i" using v by (simp add: state_valid_def)
  obtain w1 where w1: "upd_rstate i (\<lambda>s. s\<lparr>cardAtr := a, cardAtrLength := l\<rparr>) (with_machine w m) = Some w1"
    using upd_rstate_defined [OF vm] by blast
  then have t1: "same_tables w w1" and r1: "rstate w1 i = Some (s\<lparr>cardAtr := a, cardAtrLength := l\<rparr>)"
    and c1: "ClientsWaitingForEvent w1 = ClientsWaitingForEvent w" "signalled w1 = signalled w"
    using same_tables_upd_rstate [OF w1] upd_rstate_rstate [OF w1 vm] s upd_rstate_clients [OF w1]
    by simp_all
  have poll: "poll_icc i w = Some (SCARD_S_SUCCESS, SCARD_ABSENT, w1)"
    using icc w1 s by (simp add: poll_icc_def)
  define u where "u = upd_rctx i (\<lambda>r. RFSetReaderEventState r SCARD_REMOVED) w1"
  have i1: "i < length (sReadersContexts w1)" using t1 i by (simp add: same_tables_def)
  have vu: "state_valid u i" and ru: "rstate u i = rstate w1 i"
    and cu: "rctx u i = RFSetReaderEventState (rctx w i) SCARD_REMOVED"
    using v i1 t1 state_valid_cong [OF t1] same_tables_rctx [OF t1] by (simp_all add: u_def)
  obtain w2 where w2: "upd_rstate i (\<lambda>s. incrementEventCounter (s\<lparr>cardAtrLength := 0,
                cardProtocol := SCARD_PROTOCOL_UNDEFINED, readerState := status_absent (readerState s)\<rparr>)) u = Some w2"
    using upd_rstate_defined [OF vu] by blast
  then have "poll_removed i w1 = Some (snd (EHSignalEventToClients w2))" by (simp add: poll_removed_def u_def)
  then have card: "poll_card i (dwCurrentState t) w = Some (SCARD_ABSENT, snd (EHSignalEventToClients w2))"
    using poll cur by (auto simp: poll_card_def flag_def)
  obtain sh w3 where w3: "poll_sharing i (dwReaderSharing t) (snd (EHSignalEventToClients w2)) = Some (sh, w3)"
    using assms(1) card by (auto simp: EHStatusHandlerThread_loop_def bind_eq_Some_conv)
  have c2: "rctx w2 i = rctx u i" "rstate w2 i = map_option (\<lambda>s. incrementEventCounter (s\<lparr>cardAtrLength := 0,
      cardProtocol := SCARD_PROTOCOL_UNDEFINED, readerState := status_absent (readerState s)\<rparr>)) (rstate u i)"
    "ClientsWaitingForEvent w2 = ClientsWaitingForEvent w" "signalled w2 = signalled w" "state_valid w2 i"
    using upd_rstate_frame [OF w2] upd_rstate_rstate [OF w2 vu] upd_rstate_clients [OF w2] c1 vu
      state_valid_cong [OF same_tables_upd_rstate [OF w2]] by (simp_all add: u_def)
  have v2: "state_valid (snd (EHSignalEventToClients w2)) i" using c2(5) by (simp add: state_valid_def)
  have c3: "rctx w3 i = rctx u i" "ClientsWaitingForEvent w3 = []"
    "signalled w3 = signalled w @ map (\<lambda>fd. (fd, SCARD_S_SUCCESS)) (ClientsWaitingForEvent w)"
    using w3 c2 same_tables_rctx [OF conjunct1 [OF same_tables_poll_sharing [OF w3]]]
    by (auto simp: poll_sharing_def bind_eq_Some_conv upd_rstate_clients split: if_splits dest: upd_rstate_clients)
  have w': "\<not> exited" "w' = poll_wait i w3" "dwCurrentState t' = SCARD_ABSENT"
    using assms(1) card w3 c3 cu
    by (auto simp: EHStatusHandlerThread_loop_def Let_def poll_wait_def split: option.splits)
  have pw: "rctx (poll_wait i w3) i = rctx w3 i" "rstate (poll_wait i w3) i = rstate w3 i"
    "ClientsWaitingForEvent (poll_wait i w3) = ClientsWaitingForEvent w3" "signalled (poll_wait i w3) = signalled w3"
    by (simp_all add: poll_wait_def with_machine_def rctx_def rstate_def split: option.split)
  have "\<exists>q. rstate w3 i = Some ((incrementEventCounter (s\<lparr>cardAtr := a, cardAtrLength := 0,
              cardProtocol := SCARD_PROTOCOL_UNDEFINED, readerState := status_absent (readerState s)\<rparr>))\<lparr>readerSharing := q\<rparr>)"
    by (rule poll_sharing_rstate [OF w3 v2]) (simp add: c2 ru r1)
  with w' pw c3 cu show ?thesis by simp
qed

subsection \<open>Ending the thread\<close>

lemma poll_card_rctx:
  assumes "poll_card i cur w = Some (cur', w')" and "i < length (sReadersContexts w)"
  shows "length (sReadersContexts w') = length (sReadersContexts w)
    \<and> (rctx w' i = rctx w i \<or> rctx w' i = RFSetReaderEventState (rctx w i) SCARD_REMOVED)"
proof (cases "same_tables w w'")
  case True
  then show ?thesis using same_tables_rctx [OF True] by (simp add: same_tables_def)
next
  case False
  then have t: "same_tables (upd_rctx i (\<lambda>r. RFSetReaderEventState r SCARD_REMOVED) w) w'"
    using poll_card_tables [OF assms(1)] by blast
  from same_tables_rctx [OF t] t assms(2) show ?thesis by (simp add: same_tables_def)
qed

lemma loop_no_request:
  assumes "EHStatusHandlerThread_loop i t w = Some (exited, t', w')"
    and "i < length (sReadersContexts w)" and "dwLockId (rctx w i) \<noteq> 0xFFFF"
  shows "\<not> exited \<and> dwLockId (rctx w' i) \<noteq> 0xFFFF \<and> i < length (sReadersContexts w')"
proof -
  from assms(1,2) obtain w1 where p: "poll_card i (dwCurrentState t) w = Some (dwCurrentState t', w1)"
    and e: "exited \<longleftrightarrow> dwLockId (rctx w1 i) = 0xFFFF"
    and w': "rctx w' i = (if exited then (rctx w1 i)\<lparr>dwLockId := 0\<rparr> else rctx w1 i)"
      "sReadersContexts w' = (if exited then upd_at i (\<lambda>r. r\<lparr>dwLockId := 0\<rparr>) (sReadersContexts w1) else sReadersContexts w1)"
    by (rule loop_cases)
  have "dwLockId (rctx w1 i) \<noteq> 0xFFFF" "length (sReadersContexts w1) = length (sReadersContexts w)"
    using poll_card_rctx [OF p assms(2)] assms(3) by auto
  with e w' assms(2) show ?thesis by simp
qed

text \<open>A reader with the function table of its version: every call of the wrapper returns, and so does an iteration.\<close>

definition has_driver :: "'d READER_CONTEXT \<Rightarrow> bool" where
  "has_driver r \<longleftrightarrow> (if dwVersion r = IFD_HVERSION_1_0 then functions_v1 r \<noteq> None else functions_v2 r \<noteq> None)"

lemma has_driver_cong: "psFunctions r' = psFunctions r \<Longrightarrow> dwVersion r' = dwVersion r \<Longrightarrow> has_driver r' = has_driver r"
  by (simp add: has_driver_def functions_v1_def functions_v2_def)

lemma IFDStatusICC_returns: "has_driver r \<Longrightarrow> \<exists>rv st a l h'. IFDStatusICC r atr len h = Some (rv, st, a, l, h')"
  by (auto simp: has_driver_def IFDStatusICC_def icc_presence_def fetch_atr_v1_def select_slot_def IFDSetCapabilities_def Let_def
      split: if_splits prod.splits)

lemma power_icc_returns: "has_driver r \<Longrightarrow> \<exists>rv a l h'. power_icc r act atr len h = Some (rv, a, l, h')"
  by (auto simp: has_driver_def power_icc_def select_slot_def IFDSetCapabilities_def Let_def split: if_splits prod.splits)

lemma IFDPowerICC_returns:
  assumes "has_driver r"
  shows "\<exists>rv a l h'. IFDPowerICC r act atr len h = Some (rv, a, l, h')"
proof -
  obtain rv st a l h1 where 1: "IFDStatusICC r atr len h = Some (rv, st, a, l, h1)" using IFDStatusICC_returns [OF assms] by metis
  obtain rv2 a2 l2 h2 where 2: "power_icc r act a l h1 = Some (rv2, a2, l2, h2)" using power_icc_returns [OF assms] by metis
  obtain rv3 st3 a3 l3 h3 where 3: "IFDStatusICC r a2 l2 h2 = Some (rv3, st3, a3, l3, h3)" using IFDStatusICC_returns [OF assms] by metis
  from 1 2 3 show ?thesis by (simp add: IFDPowerICC_def)
qed

lemma poll_icc_returns: "state_valid w i \<Longrightarrow> has_driver (rctx w i) \<Longrightarrow> \<exists>rv st w'. poll_icc i w = Some (rv, st, w')"
proof -
  assume v: "state_valid w i" and d: "has_driver (rctx w i)"
  obtain s where s: "rstate w i = Some s" using state_valid_rstate [OF v] by blast
  obtain rv st a l h where i: "IFDStatusICC (rctx w i) (cardAtr s) (cardAtrLength s) (machine w) = Some (rv, st, a, l, h)"
    using IFDStatusICC_returns [OF d] by metis
  have "state_valid (with_machine w h) i" using v by (simp add: state_valid_def)
  from upd_rstate_defined [OF this, of "\<lambda>s. s\<lparr>cardAtr := a, cardAtrLength := l\<rparr>"] s i show ?thesis by (auto simp: poll_icc_def)
qed

lemma ifd_power_returns: "state_valid w i \<Longrightarrow> has_driver (rctx w i) \<Longrightarrow> \<exists>rv l w'. ifd_power i act len w = Some (rv, l, w')"
proof -
  assume v: "state_valid w i" and d: "has_driver (rctx w i)"
  obtain s where s: "rstate w i = Some s" using state_valid_rstate [OF v] by blast
  obtain rv a l h where i: "IFDPowerICC (rctx w i) act (cardAtr s) len (machine w) = Some (rv, a, l, h)"
    using IFDPowerICC_returns [OF d] by metis
  have "state_valid (with_machine w h) i" using v by (simp add: state_valid_def)
  from upd_rstate_defined [OF this, of "\<lambda>s. s\<lparr>cardAtr := a\<rparr>"] s i show ?thesis by (auto simp: ifd_power_def)
qed

lemma power_up_returns: "state_valid w i \<Longrightarrow> has_driver (rctx w i) \<Longrightarrow> \<exists>rv w'. power_up_card i w = Some (rv, w')"
proof -
  assume v: "state_valid w i" and d: "has_driver (rctx w i)"
  obtain rv l w1 where 1: "ifd_power i IFD_POWER_UP (of_nat MAX_ATR_SIZE) w = Some (rv, l, w1)" using ifd_power_returns [OF v d] by metis
  have "state_valid w1 i" using v same_tables_ifd_power [OF 1] by (simp add: state_valid_cong)
  from upd_rstate_defined [OF this, of "\<lambda>s. s\<lparr>cardAtrLength := l, cardProtocol := SCARD_PROTOCOL_UNDEFINED\<rparr>"] 1 show ?thesis
    by (auto simp: power_up_card_def)
qed

lemma poll_steps_return:
  assumes "state_valid w i" and "has_driver (rctx w i)" and "i < length (sReadersContexts w)"
  shows "\<exists>w'. poll_error i w = Some w'" and "\<exists>w'. poll_removed i w = Some w'" and "\<exists>w'. poll_inserted i w = Some w'"
    and "\<exists>m w'. poll_sharing i n w = Some (m, w')"
proof -
  show "\<exists>w'. poll_error i w = Some w'"
    using upd_rstate_defined [OF assms(1), of "\<lambda>s. s\<lparr>readerState := status_unknown (readerState s), cardAtrLength := 0,
                cardProtocol := SCARD_PROTOCOL_UNDEFINED\<rparr>"] by (auto simp: poll_error_def)
  have "state_valid (upd_rctx i (\<lambda>r. RFSetReaderEventState r SCARD_REMOVED) w) i" using assms by simp
  from upd_rstate_defined [OF this, of "\<lambda>s. incrementEventCounter (s\<lparr>cardAtrLength := 0,
                cardProtocol := SCARD_PROTOCOL_UNDEFINED, readerState := status_absent (readerState s)\<rparr>)"]
  show "\<exists>w'. poll_removed i w = Some w'" by (auto simp: poll_removed_def)
  obtain rv w1 where p: "power_up_card i w = Some (rv, w1)" using power_up_returns [OF assms(1,2)] by blast
  have "state_valid w1 i" using assms(1) same_tables_power_up [OF p] by (simp add: state_valid_cong)
  from upd_rstate_defined [OF this, of "\<lambda>s. incrementEventCounter
                  (if rv = IFD_SUCCESS then s\<lparr>readerState := status_powered (readerState s)\<rparr>
                   else s\<lparr>readerState := status_swallowed (readerState s), cardAtrLength := 0\<rparr>)"] p
  show "\<exists>w'. poll_inserted i w = Some w'" by (auto simp: poll_inserted_def)
  show "\<exists>m w'. poll_sharing i n w = Some (m, w')"
    using upd_rstate_defined [OF assms(1), of "\<lambda>s. s\<lparr>readerSharing := dwContexts (rctx w i)\<rparr>"]
    by (cases "n = dwContexts (rctx w i)") (auto simp: poll_sharing_def)
qed

lemma same_tables_driver:
  "same_tables w w' \<Longrightarrow> (state_valid w' i \<and> has_driver (rctx w' i) \<and> i < length (sReadersContexts w'))
     = (state_valid w i \<and> has_driver (rctx w i) \<and> i < length (sReadersContexts w))"
  using state_valid_cong [of w w' i] same_tables_rctx [of w w'] by (simp add: same_tables_def)

lemma removed_driver:
  "i < length (sReadersContexts w) \<Longrightarrow> has_driver (rctx (upd_rctx i (\<lambda>r. RFSetReaderEventState r e) w) i) = has_driver (rctx w i)"
  by (rule has_driver_cong) simp_all

lemma poll_card_returns:
  assumes "state_valid w i" and "has_driver (rctx w i)" and "i < length (sReadersContexts w)"
  shows "\<exists>cur' w'. poll_card i cur w = Some (cur', w') \<and> state_valid w' i \<and> has_driver (rctx w' i) \<and> i < length (sReadersContexts w')"
proof -
  obtain rv st w1 where 1: "poll_icc i w = Some (rv, st, w1)" using poll_icc_returns [OF assms(1,2)] by metis
  have c1: "state_valid w1 i \<and> has_driver (rctx w1 i) \<and> i < length (sReadersContexts w1)"
    using same_tables_driver [OF same_tables_poll_icc [OF 1]] assms by blast
  obtain c w2 where 2: "(if rv \<noteq> SCARD_S_SUCCESS then map_option (\<lambda>v. (SCARD_UNKNOWN, v)) (poll_error i w1) else Some (cur, w1)) = Some (c, w2)"
    using poll_steps_return(1) [of w1 i] c1 by fastforce
  then have "same_tables w1 w2" by (auto split: if_splits dest!: same_tables_poll_error)
  then have c2: "state_valid w2 i" "has_driver (rctx w2 i)" "i < length (sReadersContexts w2)"
    using same_tables_driver [of w1 w2 i] c1 by blast+
  note r = poll_steps_return [OF c2]
  have "\<exists>cur' w'. poll_card i cur w = Some (cur', w')"
    using 1 2 r(2,3) by (auto simp: poll_card_def)
  then obtain cur' w' where p: "poll_card i cur w = Some (cur', w')" by blast
  have u: "state_valid (upd_rctx i (\<lambda>r. RFSetReaderEventState r SCARD_REMOVED) w) i"
    "has_driver (rctx (upd_rctx i (\<lambda>r. RFSetReaderEventState r SCARD_REMOVED) w) i)"
    "i < length (sReadersContexts (upd_rctx i (\<lambda>r. RFSetReaderEventState r SCARD_REMOVED) w))"
    using assms removed_driver [OF assms(3)] by simp_all
  have "state_valid w' i \<and> has_driver (rctx w' i) \<and> i < length (sReadersContexts w')"
    using poll_card_tables [OF p] same_tables_driver [of w w' i] assms u
      same_tables_driver [of "upd_rctx i (\<lambda>r. RFSetReaderEventState r SCARD_REMOVED) w" w' i] by blast
  with p show ?thesis by blast
qed

lemma loop_returns:
  assumes "state_valid w i" and "has_driver (rctx w i)" and "i < length (sReadersContexts w)"
  shows "\<exists>ex t' w'. EHStatusHandlerThread_loop i t w = Some (ex, t', w') \<and> state_valid w' i \<and> has_driver (rctx w' i)
    \<and> i < length (sReadersContexts w')"
proof -
  obtain cur w1 where 1: "poll_card i (dwCurrentState t) w = Some (cur, w1)" "state_valid w1 i" "has_driver (rctx w1 i)"
    "i < length (sReadersContexts w1)" using poll_card_returns [OF assms] by metis
  obtain sh w2 where 2: "poll_sharing i (dwReaderSharing t) w1 = Some (sh, w2)" using poll_steps_return(4) [OF 1(2-4)] by blast
  have "same_tables w1 (poll_wait i w2)"
    using same_tables_poll_sharing [OF 2] same_tables_poll_wait [of w2 i] by (blast intro: same_tables_trans)
  then have 3: "state_valid (poll_wait i w2) i" "has_driver (rctx (poll_wait i w2) i)" "i < length (sReadersContexts (poll_wait i w2))"
    using same_tables_driver [of w1 "poll_wait i w2" i] 1 by blast+
  have "has_driver ((rctx (poll_wait i w2) i)\<lparr>dwLockId := 0\<rparr>)" using 3(2) has_driver_cong [of "(rctx (poll_wait i w2) i)\<lparr>dwLockId := 0\<rparr>"] by simp
  with 1 2 3 show ?thesis by (auto simp: EHStatusHandlerThread_loop_def Let_def state_valid_def)
qed

text \<open>The thread after a number of iterations, or when it has exited.\<close>

fun poll_steps :: "nat \<Rightarrow> nat \<Rightarrow> poll_thread \<Rightarrow> 'd pcscd \<Rightarrow> (bool \<times> poll_thread \<times> 'd pcscd) option" where
  "poll_steps 0 i t w = Some (False, t, w)"
| "poll_steps (Suc n) i t w =
     do { (exited, t1, w1) \<leftarrow> EHStatusHandlerThread_loop i t w;
          if exited then Some (True, t1, w1) else poll_steps n i t1 w1 }"

lemma poll_goes_on:
  assumes "state_valid w i" and "has_driver (rctx w i)" and "i < length (sReadersContexts w)" and "dwLockId (rctx w i) \<noteq> 0xFFFF"
  shows "\<exists>t' w'. poll_steps n i t w = Some (False, t', w')"
  using assms
proof (induction n arbitrary: t w)
  case (Suc n)
  obtain ex t1 w1 where l: "EHStatusHandlerThread_loop i t w = Some (ex, t1, w1)" and c: "state_valid w1 i" "has_driver (rctx w1 i)"
    "i < length (sReadersContexts w1)" using loop_returns [OF Suc.prems(1-3)] by metis
  from loop_no_request [OF l Suc.prems(3,4)] Suc.IH [OF c] l show ?case by auto
qed simp

text \<open>What is left of the thread when it is joined: a cancelled thread ends at once, in a state that \<open>kill\<close> stands for, another one runs on.\<close>

definition thread_ends :: "('d pcscd \<Rightarrow> 'd pcscd option) \<Rightarrow> nat \<Rightarrow> poll_thread \<Rightarrow> bool \<Rightarrow> 'd pcscd \<Rightarrow> 'd pcscd option" where
  "thread_ends kill i t cancelled w = (if cancelled then kill w else poll_run i t w)"

text \<open>Without a request in \<^verbatim>\<open>dwLockId\<close> the loop does not end.\<close>

lemma poll_run_needs_request:
  assumes "poll_run i t w = Some w'" and "i < length (sReadersContexts w)"
  shows "dwLockId (rctx w i) = 0xFFFF"
proof -
  have "i < length (sReadersContexts w) \<longrightarrow> dwLockId (rctx w i) = 0xFFFF"
  proof (rule poll_run.raw_induct [OF _ assms(1)], intro impI, rule ccontr)
    fix run i t and w w' :: "'a pcscd"
    assume IH: "\<And>i t w w'. run i t w = Some w' \<Longrightarrow> i < length (sReadersContexts w) \<longrightarrow> dwLockId (rctx w i) = 0xFFFF"
      and body: "do { (exited, t1, w1) \<leftarrow> EHStatusHandlerThread_loop i t w;
            if exited then Some w1 else run i t1 w1 } = Some w'"
      and i: "i < length (sReadersContexts w)" and no: "dwLockId (rctx w i) \<noteq> 0xFFFF"
    from body obtain ex t1 w1 where l: "EHStatusHandlerThread_loop i t w = Some (ex, t1, w1)"
      and r: "(if ex then Some w1 else run i t1 w1) = Some w'"
      by (auto simp: bind_eq_Some_conv)
    from loop_no_request [OF l i no] r IH [of i t1 w1 w'] show False by simp
  qed
  with assms(2) show ?thesis by simp
qed

subsection \<open>Properties\<close>

text \<open>C15: The status word of a reader always says exactly one of unknown, absent and present: every
  iteration of the polling thread keeps it so, whatever the driver reports and whether the thread
  stays or exits.\<close>

theorem poll_keeps_one_status:
  assumes "EHStatusHandlerThread_loop i t w = Some (exited, t', w')"
    and "i < length (sReadersContexts w)" and "state_valid w i"
    and "rstate w i = Some s" and "one_status (readerState s)"
  shows "\<exists>s'. rstate w' i = Some s' \<and> one_status (readerState s')"
proof -
  from assms(1,2) obtain w1 w2 where p: "poll_card i (dwCurrentState t) w = Some (dwCurrentState t', w1)"
    and sh: "poll_sharing i (dwReaderSharing t) w1 = Some (dwReaderSharing t', w2)"
    and w': "rstate w' i = rstate w2 i"
    by (rule loop_cases)
  obtain s1 where s1: "rstate w1 i = Some s1" "one_status (readerState s1)"
    using poll_card_one_status [OF p assms(2-5)] by blast
  have "state_valid w1 i"
    using poll_card_tables [OF p] assms(2,3) state_valid_cong by fastforce
  with poll_sharing_rstate [OF sh _ s1(1)] s1(2) w' show ?thesis by auto
qed

text \<open>The event counter in the upper half of the status word counts modulo \<open>2^16\<close>, and the sixteen
  status bits below it do not change.\<close>

theorem event_counter:
  "unat (readerState (incrementEventCounter s)) div 65536 = (unat (readerState s) div 65536 + 1) mod 65536
   \<and> unat (readerState (incrementEventCounter s)) mod 65536 = unat (readerState s) mod 65536"
  by (simp add: incrementEventCounter_unat)

text \<open>C14: A card removal reaches everybody. When the driver reports the card absent and the thread last saw a
  card, one iteration marks every connected handle of the reader as removed, so that every later check
  of its event state answers \<^verbatim>\<open>SCARD_W_REMOVED_CARD\<close>; it releases the sharing lock, forgets the ATR and
  the protocol, counts one event, and answers every waiting client exactly once.\<close>

theorem removal_reaches_everybody:
  assumes "EHStatusHandlerThread_loop i t w = Some (exited, t', w')" and "dwCurrentState t = SCARD_PRESENT"
    and "i < length (sReadersContexts w)" and "state_valid w i" and "rstate w i = Some s"
    and "IFDStatusICC (rctx w i) (cardAtr s) (cardAtrLength s) (machine w) = Some (SCARD_S_SUCCESS, SCARD_ABSENT, a, l, m)"
  shows "(\<forall>h. h \<noteq> 0 \<longrightarrow> h \<in> hCard ` set (psHandles (rctx w i)) \<longrightarrow>
        RFCheckReaderEventState (rctx w' i) h = SCARD_W_REMOVED_CARD)
    \<and> dwLockId (rctx w' i) = 0 \<and> LockCount (rctx w' i) = 0 \<and> dwCurrentState t' = SCARD_ABSENT
    \<and> (\<exists>s'. rstate w' i = Some s' \<and> flag (readerState s') SCARD_ABSENT \<and> cardAtrLength s' = 0 \<and> cardProtocol s' = 0
         \<and> unat (readerState s') div 65536 = (unat (readerState s) div 65536 + 1) mod 65536)
    \<and> ClientsWaitingForEvent w' = []
    \<and> signalled w' = signalled w @ map (\<lambda>fd. (fd, SCARD_S_SUCCESS)) (ClientsWaitingForEvent w)"
proof -
  from loop_removed [OF assms(1) _ assms(3-6)] assms(2)
  have r: "rctx w' i = RFSetReaderEventState (rctx w i) SCARD_REMOVED" "dwCurrentState t' = SCARD_ABSENT"
    and s: "\<exists>q. rstate w' i = Some ((incrementEventCounter (s\<lparr>cardAtr := a, cardAtrLength := 0,
              cardProtocol := SCARD_PROTOCOL_UNDEFINED, readerState := status_absent (readerState s)\<rparr>))\<lparr>readerSharing := q\<rparr>)"
    and c: "ClientsWaitingForEvent w' = []"
      "signalled w' = signalled w @ map (\<lambda>fd. (fd, SCARD_S_SUCCESS)) (ClientsWaitingForEvent w)"
    by auto
  have "unat (readerState (incrementEventCounter (x\<lparr>readerState := status_absent y\<rparr>))) div 65536
      = (unat y div 65536 + 1) mod 65536" for x y
    by (simp add: incrementEventCounter_unat status_absent_counter)
  with r s c show ?thesis by (auto simp: set_event)
qed

text \<open>C34: Stopping a polling thread works while the card stays as it is, with a driver that does not report its thread as killable (a killable thread is cancelled, and then nobody
  gives the lock back): \<^verbatim>\<open>EHDestroyEventHandler\<close> asks for it through
  \<^verbatim>\<open>dwLockId = 0xFFFF\<close>, the thread ends with its next iteration and gives the lock back, and the public
  state is free for another reader.\<close>

theorem stop_polling_thread:
  assumes "i < length (sReadersContexts w)" and "state_valid w i" and "rstate w i = Some s" and "readerName s \<noteq> []"
    and "IFDGetCapabilities ((rctx w i)\<lparr>dwLockId := 0xFFFF\<rparr>) TAG_IFD_POLLING_THREAD_KILLABLE 1 (uninit 1 w) (machine w)
           = Some (rv, n, d, h)"
    and "IFDStatusICC ((rctx w i)\<lparr>dwLockId := 0xFFFF\<rparr>) (cardAtr s) (cardAtrLength s) h
           = Some (SCARD_S_SUCCESS, dwCurrentState t, a, l, m)"
    and "dwCurrentState t = SCARD_PRESENT \<or> dwCurrentState t = SCARD_ABSENT"
    and "\<not> (rv = IFD_SUCCESS \<and> n = 1 \<and> d ! 0 \<noteq> 0)"
  shows "\<exists>w'. EHDestroyEventHandler (thread_ends kill i t) i w = Some (SCARD_S_SUCCESS, w')
    \<and> dwLockId (rctx w' i) = 0 \<and> pthThread (rctx w' i) = 0
    \<and> (\<exists>s'. rstate w' i = Some s' \<and> readerName s' = [] \<and> readerID s' = 0 \<and> readerState s' = 0 \<and> cardAtrLength s' = 0)"
proof -
  define w1 where "w1 = with_machine (upd_rctx i (\<lambda>r. r\<lparr>dwLockId := 0xFFFF\<rparr>) w) h"
  have c1: "rctx w1 i = (rctx w i)\<lparr>dwLockId := 0xFFFF\<rparr>" "i < length (sReadersContexts w1)" "state_valid w1 i"
    "rstate w1 i = Some s" "machine w1 = h"
    using assms(1-3) by (simp_all add: w1_def state_valid_def)
  have vm: "state_valid (with_machine w1 m) i" using c1(3) by (simp add: state_valid_def)
  obtain w2 where w2: "upd_rstate i (\<lambda>s. s\<lparr>cardAtr := a, cardAtrLength := l\<rparr>) (with_machine w1 m) = Some w2"
    using upd_rstate_defined [OF vm] by blast
  then have card: "poll_card i (dwCurrentState t) w1 = Some (dwCurrentState t, w2)"
    using assms(6,7) c1 by (auto simp: poll_card_def poll_icc_def flag_def)
  have t2: "same_tables w1 w2" using same_tables_upd_rstate [OF w2] by simp
  have v2: "state_valid w2 i" using state_valid_cong [OF t2] c1(3) by simp
  obtain sh w3 where w3: "poll_sharing i (dwReaderSharing t) w2 = Some (sh, w3)"
    using upd_rstate_defined [OF v2, of "\<lambda>s. s\<lparr>readerSharing := dwContexts (rctx w2 i)\<rparr>"]
    by (cases "dwReaderSharing t = dwContexts (rctx w2 i)") (auto simp: poll_sharing_def)
  have t3: "same_tables w1 (poll_wait i w3)"
    using t2 same_tables_poll_sharing [OF w3] by (auto simp: poll_wait_def intro: same_tables_trans split: option.split)
  define w4 where "w4 = upd_rctx i (\<lambda>r. r\<lparr>dwLockId := 0\<rparr>) (snd (EHSignalEventToClients (poll_wait i w3)))"
  have "EHStatusHandlerThread_loop i t w1
      = Some (True, \<lparr>dwReaderSharing = sh, dwCurrentState = dwCurrentState t\<rparr>, w4)"
    using card w3 same_tables_rctx [OF t3] c1(1) by (simp add: EHStatusHandlerThread_loop_def Let_def w4_def)
  then have run: "poll_run i t w1 = Some w4" by (simp add: poll_run.simps)
  have c4: "i < length (sReadersContexts w4)" "state_valid w4 i" "dwLockId (rctx w4 i) = 0"
    using t3 c1 state_valid_cong [OF t3] by (simp_all add: w4_def same_tables_def state_valid_def)
  then obtain s4 w5 where s4: "rstate w4 i = Some s4" and w5: "upd_rstate i zero_state w4 = Some w5"
    using state_valid_rstate upd_rstate_defined by blast
  have "thread_ends kill i t (rv = IFD_SUCCESS \<and> n = 1 \<and> d ! 0 \<noteq> 0) w1 = Some w4"
    using run assms(8) by (simp only: thread_ends_def if_False)
  then have "EHDestroyEventHandler (thread_ends kill i t) i w
      = Some (SCARD_S_SUCCESS, upd_rctx i (\<lambda>r. r\<lparr>pthThread := 0\<rparr>) w5)"
    using assms(1,3-5) w5 by (simp add: EHDestroyEventHandler_def Let_def w1_def)
  moreover have "rstate w5 i = Some (zero_state s4)" "rctx w5 = rctx w4" "length (sReadersContexts w5) = length (sReadersContexts w4)"
    using upd_rstate_rstate [OF w5 c4(2)] s4 upd_rstate_frame [OF w5] by simp_all
  ultimately show ?thesis using c4 by (simp add: zero_state_def)
qed

text \<open>C35: The request to stop can get lost. When the card is removed between the request and the next
  iteration, marking the handles as removed also resets \<^verbatim>\<open>dwLockId\<close> to 0: after any number of iterations the thread is still
  polling, because it never sees the request, and \<^verbatim>\<open>EHDestroyEventHandler\<close> never returns from the join. The driver must not report
  the thread as killable; then it is not cancelled.\<close>

theorem stop_request_lost:
  assumes "i < length (sReadersContexts w)" and "state_valid w i" and "rstate w i = Some s" and "readerName s \<noteq> []"
    and "IFDGetCapabilities ((rctx w i)\<lparr>dwLockId := 0xFFFF\<rparr>) TAG_IFD_POLLING_THREAD_KILLABLE 1 (uninit 1 w) (machine w)
           = Some (rv, n, d, h)"
    and "IFDStatusICC ((rctx w i)\<lparr>dwLockId := 0xFFFF\<rparr>) (cardAtr s) (cardAtrLength s) h
           = Some (SCARD_S_SUCCESS, SCARD_ABSENT, a, l, m)"
    and "dwCurrentState t = SCARD_PRESENT" and "\<not> (rv = IFD_SUCCESS \<and> n = 1 \<and> d ! 0 \<noteq> 0)" and "has_driver (rctx w i)"
  shows "(\<forall>k. \<exists>t' w'. poll_steps k i t (with_machine (upd_rctx i (\<lambda>r. r\<lparr>dwLockId := 0xFFFF\<rparr>) w) h) = Some (False, t', w'))
    \<and> EHDestroyEventHandler (thread_ends kill i t) i w = None"
proof -
  define w1 where "w1 = with_machine (upd_rctx i (\<lambda>r. r\<lparr>dwLockId := 0xFFFF\<rparr>) w) h"
  have c1: "rctx w1 i = (rctx w i)\<lparr>dwLockId := 0xFFFF\<rparr>" "i < length (sReadersContexts w1)" "state_valid w1 i"
    "rstate w1 i = Some s" "machine w1 = h"
    using assms(1-3) by (simp_all add: w1_def state_valid_def)
  have d1: "has_driver (rctx w1 i)" using assms(9) has_driver_cong [of "rctx w1 i" "rctx w i"] c1(1) by simp
  obtain ex t2 w2 where l: "EHStatusHandlerThread_loop i t w1 = Some (ex, t2, w2)" and c2: "state_valid w2 i" "has_driver (rctx w2 i)"
    "i < length (sReadersContexts w2)" using loop_returns [OF c1(3) d1 c1(2)] by metis
  have w2: "\<not> ex" "dwLockId (rctx w2 i) = 0"
    using loop_removed [OF l _ c1(2-4), of a l m] assms(6,7) c1(1,5) by simp_all
  have "\<exists>t' w'. poll_steps k i t w1 = Some (False, t', w')" for k
    using l w2 poll_goes_on [OF c2] by (cases k) auto
  moreover have "poll_run i t2 w2 = None"
    using poll_run_needs_request [of i t2 w2] w2(2) c2(3) by (cases "poll_run i t2 w2") auto
  with l w2(1) have "poll_run i t w1 = None" by (simp add: poll_run.simps)
  then have "thread_ends kill i t (rv = IFD_SUCCESS \<and> n = 1 \<and> d ! 0 \<noteq> 0) w1 = None"
    using assms(8) by (simp only: thread_ends_def if_False)
  then have "EHDestroyEventHandler (thread_ends kill i t) i w = None"
    using assms(1,3-5) by (simp add: EHDestroyEventHandler_def Let_def w1_def)
  ultimately show ?thesis unfolding w1_def by blast
qed

subsection \<open>Witnesses\<close>

text \<open>The sample daemon after its card was pulled out: the handle \<open>0x1000A\<close> is connected and holds the
  lock, and client 7 waits for an event.\<close>

definition pulled_reader :: "unit READER_CONTEXT" where
  "pulled_reader = sample_reader\<lparr>
     psFunctions := FCT_V2 (sample_driver\<lparr>v2_ICCPresence := (\<lambda>lun d. (IFD_ICC_NOT_PRESENT, d))\<rparr>) sample_control,
     psHandles := \<lparr>hCard = 0x1000A, dwEventStatus = 0\<rparr> # replicate 15 \<lparr>hCard = 0, dwEventStatus = 0\<rparr>,
     dwLockId := 0x1000A, LockCount := 1, dwContexts := 1\<rparr>"

definition pulled_daemon :: "unit pcscd" where
  "pulled_daemon = sample_daemon\<lparr>sReadersContexts := pulled_reader # replicate 15 empty_reader,
     ClientsWaitingForEvent := [7]\<rparr>"

lemma pulled_facts:
  "0 < length (sReadersContexts pulled_daemon)" "state_valid pulled_daemon 0"
  "rctx pulled_daemon 0 = pulled_reader" "rstate pulled_daemon 0 = Some sample_state"
  "machine pulled_daemon = sample_hw"
  by (simp_all add: pulled_daemon_def state_valid_def rstate_def rctx_def sample_daemon_def pulled_reader_def
      sample_reader_def)

lemma sample_facts:
  "0 < length (sReadersContexts sample_daemon)" "state_valid sample_daemon 0"
  "rctx sample_daemon 0 = sample_reader" "rstate sample_daemon 0 = Some sample_state" "machine sample_daemon = sample_hw"
  by (simp_all add: state_valid_def rstate_def rctx_def sample_daemon_def sample_reader_def)

lemma pulled_status:
  "IFDStatusICC pulled_reader (cardAtr sample_state) (cardAtrLength sample_state) sample_hw
     = Some (SCARD_S_SUCCESS, SCARD_ABSENT, sample_atr, 4, sample_hw)"
  "IFDStatusICC (pulled_reader\<lparr>dwLockId := 0xFFFF\<rparr>) (cardAtr sample_state) (cardAtrLength sample_state) sample_hw
     = Some (SCARD_S_SUCCESS, SCARD_ABSENT, sample_atr, 4, sample_hw)"
  "IFDGetCapabilities (pulled_reader\<lparr>dwLockId := 0xFFFF\<rparr>) TAG_IFD_POLLING_THREAD_KILLABLE 1 b sample_hw
     = Some (IFD_ERROR_TAG, 1, b, sample_hw)"
  by (simp_all add: pulled_reader_def sample_state_def IFDStatusICC_def IFDGetCapabilities_def icc_presence_def
      functions_v2_def sample_reader_def sample_driver_def with_drv_def sample_hw_def)

lemma sample_status:
  "IFDStatusICC sample_reader (cardAtr sample_state) (cardAtrLength sample_state) sample_hw
     = Some (SCARD_S_SUCCESS, SCARD_PRESENT, sample_atr, 4, sample_hw)"
  "IFDStatusICC (sample_reader\<lparr>dwLockId := 0xFFFF\<rparr>) (cardAtr sample_state) (cardAtrLength sample_state) sample_hw
     = Some (SCARD_S_SUCCESS, SCARD_PRESENT, sample_atr, 4, sample_hw)"
  "IFDGetCapabilities (sample_reader\<lparr>dwLockId := 0xFFFF\<rparr>) TAG_IFD_POLLING_THREAD_KILLABLE 1 b sample_hw
     = Some (IFD_ERROR_TAG, 1, b, sample_hw)"
  by (simp_all add: sample_state_def IFDStatusICC_def IFDGetCapabilities_def icc_presence_def
      functions_v2_def sample_reader_def sample_driver_def with_drv_def sample_hw_def)

text \<open>An iteration on the pulled daemon returns.\<close>

lemma pulled_loop:
  "\<exists>ex t' w'. EHStatusHandlerThread_loop 0 \<lparr>dwReaderSharing = 1, dwCurrentState = SCARD_PRESENT\<rparr> pulled_daemon = Some (ex, t', w')"
proof -
  have "state_valid (with_machine pulled_daemon sample_hw) 0" using pulled_facts(2) by (simp add: state_valid_def)
  from upd_rstate_defined [OF this] obtain w1
    where "upd_rstate 0 (\<lambda>s. s\<lparr>cardAtr := sample_atr, cardAtrLength := 4\<rparr>) (with_machine pulled_daemon sample_hw) = Some w1"
    by blast
  then have w1: "poll_icc 0 pulled_daemon = Some (SCARD_S_SUCCESS, SCARD_ABSENT, w1)"
    using pulled_facts(3-5) pulled_status(1) by (simp add: poll_icc_def)
  have v1: "state_valid w1 0" "0 < length (sReadersContexts w1)"
    using same_tables_poll_icc [OF w1] pulled_facts state_valid_cong by (auto simp: same_tables_def)
  then have "state_valid (upd_rctx 0 (\<lambda>r. RFSetReaderEventState r SCARD_REMOVED) w1) 0" by simp
  from upd_rstate_defined [OF this, of "\<lambda>s. incrementEventCounter (s\<lparr>cardAtrLength := 0,
      cardProtocol := SCARD_PROTOCOL_UNDEFINED, readerState := status_absent (readerState s)\<rparr>)"]
  obtain w2 where w2: "poll_removed 0 w1 = Some w2"
    by (auto simp: poll_removed_def)
  then have v2: "state_valid w2 0"
    using poll_removed_tables [OF w2] v1 state_valid_cong by fastforce
  have "\<exists>n v. poll_sharing 0 1 w2 = Some (n, v)"
    using upd_rstate_defined [OF v2, of "\<lambda>s. s\<lparr>readerSharing := dwContexts (rctx w2 0)\<rparr>"]
    by (cases "dwContexts (rctx w2 0) = 1") (auto simp: poll_sharing_def)
  with w1 w2 show ?thesis
    by (auto simp: EHStatusHandlerThread_loop_def poll_card_def flag_def Let_def)
qed

theorem removal_reaches_everybody_witness:
  "\<exists>ex t' w'. EHStatusHandlerThread_loop 0 \<lparr>dwReaderSharing = 1, dwCurrentState = SCARD_PRESENT\<rparr> pulled_daemon
      = Some (ex, t', w')
    \<and> RFCheckReaderEventState (rctx w' 0) 0x1000A = SCARD_W_REMOVED_CARD
    \<and> dwLockId (rctx w' 0) = 0 \<and> signalled w' = [(7, SCARD_S_SUCCESS)]"
proof -
  obtain ex t' w' where l: "EHStatusHandlerThread_loop 0 \<lparr>dwReaderSharing = 1, dwCurrentState = SCARD_PRESENT\<rparr>
      pulled_daemon = Some (ex, t', w')" using pulled_loop by blast
  have "0x1000A \<in> hCard ` set (psHandles pulled_reader)" by (simp add: pulled_reader_def)
  moreover have "signalled pulled_daemon = []" "ClientsWaitingForEvent pulled_daemon = [7]"
    by (simp_all add: pulled_daemon_def sample_daemon_def)
  ultimately have "RFCheckReaderEventState (rctx w' 0) 0x1000A = SCARD_W_REMOVED_CARD
    \<and> dwLockId (rctx w' 0) = 0 \<and> signalled w' = [(7, SCARD_S_SUCCESS)]"
    using removal_reaches_everybody [OF l _ pulled_facts(1,2,4)] pulled_status(1) pulled_facts(3,5) by simp
  with l show ?thesis by blast
qed

lemma sample_one_status: "one_status (readerState sample_state)"
  by (simp add: one_status_def flag_def sample_state_def)

theorem poll_keeps_one_status_witness:
  "\<exists>ex t' w' s'. EHStatusHandlerThread_loop 0 \<lparr>dwReaderSharing = 1, dwCurrentState = SCARD_PRESENT\<rparr> pulled_daemon
      = Some (ex, t', w') \<and> rstate w' 0 = Some s' \<and> one_status (readerState s')"
proof -
  obtain ex t' w' where l: "EHStatusHandlerThread_loop 0 \<lparr>dwReaderSharing = 1, dwCurrentState = SCARD_PRESENT\<rparr>
      pulled_daemon = Some (ex, t', w')" using pulled_loop by blast
  from poll_keeps_one_status [OF l pulled_facts(1,2,4) sample_one_status] l show ?thesis by blast
qed

theorem stop_polling_thread_witness:
  "\<exists>w'. EHDestroyEventHandler (thread_ends (\<lambda>_. None) 0 \<lparr>dwReaderSharing = 0, dwCurrentState = SCARD_PRESENT\<rparr>) 0 sample_daemon
      = Some (SCARD_S_SUCCESS, w') \<and> dwLockId (rctx w' 0) = 0 \<and> pthThread (rctx w' 0) = 0"
proof -
  have "readerName sample_state \<noteq> []" by (simp add: sample_state_def)
  from stop_polling_thread [OF sample_facts(1,2,4) this, of IFD_ERROR_TAG 1 _ sample_hw
      "\<lparr>dwReaderSharing = 0, dwCurrentState = SCARD_PRESENT\<rparr>" sample_atr 4 sample_hw "\<lambda>_. None"]
  show ?thesis using sample_facts(3,5) sample_status(2,3) by auto
qed

lemma pulled_driver: "has_driver pulled_reader"
  by (simp add: pulled_reader_def has_driver_def functions_v2_def sample_reader_def)

theorem stop_request_lost_witness:
  "EHDestroyEventHandler (thread_ends Some 0 \<lparr>dwReaderSharing = 1, dwCurrentState = SCARD_PRESENT\<rparr>) 0 pulled_daemon = None"
proof -
  have "readerName sample_state \<noteq> []" by (simp add: sample_state_def)
  from stop_request_lost [OF pulled_facts(1,2,4) this, of IFD_ERROR_TAG 1 _ sample_hw sample_atr 4 sample_hw
      "\<lparr>dwReaderSharing = 1, dwCurrentState = SCARD_PRESENT\<rparr>" Some]
  show ?thesis using pulled_facts(3,5) pulled_status(2,3) pulled_driver by simp
qed

end
