(* ===== verification/Winscard.thy ===== *)
theory Winscard
  imports Event_Handler
begin

section \<open>The card operations (PCSC/src/winscard.c)\<close>

text \<open>
  The server side of the PC/SC interface. Every function of the file is a function on the daemon
  state; a result \<open>None\<close> means that the C call does not return (a null pointer is used, or a loop does not
  end). Results that C passes through pointers are components of the returned tuple.

  \<^verbatim>\<open>SCardConnect\<close> and \<^verbatim>\<open>SCardDisconnect\<close> may wait until another client gives up the lock of
  the reader. Each is split at that point: \<open>connect_enter\<close> and \<open>disconnect_enter\<close> do what comes before
  the wait, \<open>connect_finish\<close> and \<open>disconnect_finish\<close> what comes after it. The functions with the C
  names join both parts for a caller that nobody else interferes with; then a wait never ends.
  Logging and profiling have no effect on the state and are left out.
\<close>

subsection \<open>Contexts\<close>

text \<open>\<open>out\<close> says that \<^verbatim>\<open>phContext\<close> is not NULL.\<close>

definition SCardEstablishContext :: "DWORD \<Rightarrow> bool \<Rightarrow> 'd pcscd \<Rightarrow> LONG \<times> SCARDCONTEXT \<times> 'd pcscd" where
  "SCardEstablishContext dwScope out w =
     (if \<not> out then (SCARD_E_INVALID_PARAMETER, 0, w)
      else if dwScope \<noteq> SCARD_SCOPE_USER \<and> dwScope \<noteq> SCARD_SCOPE_TERMINAL
         \<and> dwScope \<noteq> SCARD_SCOPE_SYSTEM \<and> dwScope \<noteq> SCARD_SCOPE_GLOBAL
      then (SCARD_E_INVALID_VALUE, 0, w)
      else (SCARD_S_SUCCESS,
            PCSCLITE_SVC_IDENTITY + of_nat (SYS_RandomInt 1 65535 (rand_stream w) (rand_pos w)),
            w\<lparr>rand_pos := Suc (rand_pos w)\<rparr>))"

definition SCardReleaseContext :: "SCARDCONTEXT \<Rightarrow> LONG" where
  "SCardReleaseContext hContext = SCARD_S_SUCCESS"

definition SCardSetTimeout :: "SCARDCONTEXT \<Rightarrow> DWORD \<Rightarrow> LONG" where
  "SCardSetTimeout hContext dwTimeout = SCARD_E_UNSUPPORTED_FEATURE"

text \<open>The functions that only exist on the client side.\<close>

definition SCardGetStatusChange :: "SCARDCONTEXT \<Rightarrow> DWORD \<Rightarrow> LONG" where
  "SCardGetStatusChange hContext dwTimeout = SCARD_S_SUCCESS"

definition SCardListReaders :: "SCARDCONTEXT \<Rightarrow> LONG" where
  "SCardListReaders hContext = SCARD_S_SUCCESS"

definition SCardCancel :: "SCARDCONTEXT \<Rightarrow> LONG" where
  "SCardCancel hContext = SCARD_S_SUCCESS"

subsection \<open>Protocol selection, used by connect and reconnect\<close>

definition select_protocol :: "nat \<Rightarrow> DWORD \<Rightarrow> DWORD \<Rightarrow> 'd pcscd \<Rightarrow> (LONG \<times> 'd pcscd) option" where
  "select_protocol i dwShareMode dwPreferredProtocols w =
     do { s \<leftarrow> rstate w i;
          if flag dwPreferredProtocols SCARD_PROTOCOL_RAW
          then do { v \<leftarrow> upd_rstate i (\<lambda>s. s\<lparr>cardProtocol := SCARD_PROTOCOL_RAW\<rparr>) w; Some (SCARD_S_SUCCESS, v) }
          else if dwShareMode \<noteq> SCARD_SHARE_DIRECT then
            (if cardProtocol s = SCARD_PROTOCOL_UNDEFINED then
               do { let ucDefault = PHGetDefaultProtocol (cardAtr s) (cardAtrLength s);
                    let ucAvailable = PHGetAvailableProtocols (cardAtr s) (cardAtrLength s);
                    let pref = (if flag dwPreferredProtocols SCARD_PROTOCOL_ANY_OLD
                                then SCARD_PROTOCOL_T0 OR SCARD_PROTOCOL_T1 else dwPreferredProtocols);
                    (ret, h) \<leftarrow> PHSetProtocol (rctx w i) pref ucAvailable ucDefault (machine w);
                    let w1 = with_machine w h;
                    if ret = SET_PROTOCOL_PPS_FAILED then Some (SCARD_W_UNRESPONSIVE_CARD, w1)
                    else if ret = SET_PROTOCOL_WRONG_ARGUMENT then Some (SCARD_E_PROTO_MISMATCH, w1)
                    else do { v \<leftarrow> upd_rstate i (\<lambda>s. s\<lparr>cardProtocol := word_of_int ret\<rparr>) w1;
                              Some (SCARD_S_SUCCESS, v) } }
             else if \<not> flag dwPreferredProtocols (cardProtocol s) then Some (SCARD_E_PROTO_MISMATCH, w)
             else Some (SCARD_S_SUCCESS, w))
          else do { v \<leftarrow> upd_rstate i (\<lambda>s. s\<lparr>cardProtocol := SCARD_PROTOCOL_UNDEFINED\<rparr>) w; Some (SCARD_S_SUCCESS, v) } }"

text \<open>The protocols a shared or exclusive connection must name one of.\<close>

definition protocols_named :: "DWORD \<Rightarrow> bool" where
  "protocols_named p \<longleftrightarrow> flag p SCARD_PROTOCOL_T0 \<or> flag p SCARD_PROTOCOL_T1 \<or> flag p SCARD_PROTOCOL_RAW
     \<or> flag p SCARD_PROTOCOL_ANY_OLD"

subsection \<open>Connect\<close>

text \<open>Up to the wait: an error code, or the reader. \<open>out\<close> says that the two result pointers are not NULL.\<close>

definition connect_enter :: "string option \<Rightarrow> bool \<Rightarrow> DWORD \<Rightarrow> DWORD \<Rightarrow> 'd pcscd \<Rightarrow> LONG + nat" where
  "connect_enter szReader out dwShareMode dwPreferredProtocols w =
     (if szReader = None \<or> \<not> out then Inl SCARD_E_INVALID_PARAMETER
      else if dwShareMode \<noteq> SCARD_SHARE_DIRECT \<and> \<not> protocols_named dwPreferredProtocols
      then Inl SCARD_E_PROTO_MISMATCH
      else if dwShareMode \<noteq> SCARD_SHARE_EXCLUSIVE \<and> dwShareMode \<noteq> SCARD_SHARE_SHARED
           \<and> dwShareMode \<noteq> SCARD_SHARE_DIRECT
      then Inl SCARD_E_INVALID_VALUE
      else case RFReaderInfo w szReader of
        Inl rv \<Rightarrow> Inl rv
      | Inr i \<Rightarrow>
          let rv = RFCheckReaderStatus w i in
          if rv \<noteq> SCARD_S_SUCCESS then Inl rv
          else if dwContexts (rctx w i) = SCARD_EXCLUSIVE_CONTEXT then Inl SCARD_E_SHARING_VIOLATION
          else Inr i)"

text \<open>The presence check after the wait (lines 332 to 356).\<close>

definition connect_present :: "DWORD \<Rightarrow> READER_STATE \<Rightarrow> LONG" where
  "connect_present dwShareMode s =
     (if dwShareMode \<noteq> SCARD_SHARE_DIRECT then
        (if \<not> flag (readerState s) SCARD_PRESENT then SCARD_E_NO_SMARTCARD
         else if flag (readerState s) SCARD_SWALLOWED then SCARD_W_UNPOWERED_CARD
         else SCARD_S_SUCCESS)
      else SCARD_S_SUCCESS)"

text \<open>The sharing mode and the handle (lines 444 to 508); the result is the code and the handle.\<close>

definition connect_share :: "nat \<Rightarrow> DWORD \<Rightarrow> 'd pcscd \<Rightarrow> (LONG \<times> SCARDHANDLE \<times> 'd pcscd) option" where
  "connect_share i dwShareMode w =
     (let (h, w1) = RFCreateReaderHandle i w in
      if dwShareMode = SCARD_SHARE_EXCLUSIVE \<and> dwContexts (rctx w1 i) \<noteq> SCARD_NO_CONTEXT
      then Some (SCARD_E_SHARING_VIOLATION, 0, w1)
      else
        let w2 = (if dwShareMode = SCARD_SHARE_EXCLUSIVE
                  then snd (RFLockSharing h (upd_rctx i (\<lambda>r. r\<lparr>dwContexts := SCARD_EXCLUSIVE_CONTEXT\<rparr>) w1))
                  else upd_rctx i (\<lambda>r. r\<lparr>dwContexts := dwContexts r + 1\<rparr>) w1);
            (rv, r) = RFAddReaderHandle (rctx w2 i) h;
            w3 = upd_rctx i (\<lambda>_. r) w2
        in if rv \<noteq> SCARD_S_SUCCESS
           then Some (SCARD_F_INTERNAL_ERROR, 0,
                  upd_rctx i (\<lambda>r. if dwContexts r = SCARD_EXCLUSIVE_CONTEXT then r\<lparr>dwContexts := SCARD_NO_CONTEXT\<rparr>
                                  else if dwContexts r > SCARD_NO_CONTEXT then r\<lparr>dwContexts := dwContexts r - 1\<rparr>
                                  else r) w3)
           else do { w4 \<leftarrow> upd_rstate i (\<lambda>s. s\<lparr>readerSharing := dwContexts (rctx w3 i)\<rparr>) w3;
                     Some (SCARD_S_SUCCESS, h, w4) })"

text \<open>After the wait. \<open>act\<close> is what \<^verbatim>\<open>*pdwActiveProtocol\<close> held before the call; it is written when a
  protocol has been selected.\<close>

definition connect_finish ::
  "nat \<Rightarrow> DWORD \<Rightarrow> DWORD \<Rightarrow> DWORD \<Rightarrow> 'd pcscd \<Rightarrow> (LONG \<times> SCARDHANDLE \<times> DWORD \<times> 'd pcscd) option" where
  "connect_finish i dwShareMode dwPreferredProtocols act w =
     (case rstate w i of
        None \<Rightarrow> Some (SCARD_E_NO_SMARTCARD, 0, act, w)
      | Some s \<Rightarrow>
          let rv = connect_present dwShareMode s in
          if rv \<noteq> SCARD_S_SUCCESS then Some (rv, 0, act, w)
          else do {
            (rv1, w1) \<leftarrow> select_protocol i dwShareMode dwPreferredProtocols w;
            if rv1 \<noteq> SCARD_S_SUCCESS then Some (rv1, 0, act, w1)
            else do {
              s1 \<leftarrow> rstate w1 i;
              (rv2, h, w2) \<leftarrow> connect_share i dwShareMode w1;
              Some (rv2, h, cardProtocol s1, w2) } })"

definition SCardConnect ::
  "string option \<Rightarrow> bool \<Rightarrow> DWORD \<Rightarrow> DWORD \<Rightarrow> DWORD \<Rightarrow> 'd pcscd
     \<Rightarrow> (LONG \<times> SCARDHANDLE \<times> DWORD \<times> 'd pcscd) option" where
  "SCardConnect szReader out dwShareMode dwPreferredProtocols act w =
     (case connect_enter szReader out dwShareMode dwPreferredProtocols w of
        Inl rv \<Rightarrow> Some (rv, 0, act, w)
      | Inr i \<Rightarrow> if dwLockId (rctx w i) \<noteq> 0 then None
                 else connect_finish i dwShareMode dwPreferredProtocols act w)"

subsection \<open>Resetting the card, used by reconnect, disconnect and the end of a transaction\<close>

definition reset_power :: "nat \<Rightarrow> DWORD \<Rightarrow> 'd pcscd \<Rightarrow> (LONG \<times> 'd pcscd) option" where
  "reset_power i dwDisposition w =
     do { s \<leftarrow> rstate w i;
          (rv, dwAtrLen, w1) \<leftarrow>
            (if dwDisposition = SCARD_RESET_CARD then ifd_power i IFD_RESET (cardAtrLength s) w
             else do { (_, len, v) \<leftarrow> ifd_power i IFD_POWER_DOWN (cardAtrLength s) w;
                       ifd_power i IFD_POWER_UP len v });
          w2 \<leftarrow> upd_rstate i (\<lambda>s. s\<lparr>cardAtrLength := dwAtrLen, cardProtocol := SCARD_PROTOCOL_UNDEFINED\<rparr>) w1;
          Some (rv, w2) }"

definition status_reset_failed :: "DWORD \<Rightarrow> DWORD" where
  "status_reset_failed s =
     bclr SCARD_UNKNOWN (bclr SCARD_SPECIFIC (bclr SCARD_NEGOTIABLE (bclr SCARD_POWERED (bset SCARD_SWALLOWED
       (if flag s SCARD_ABSENT then bclr SCARD_PRESENT s else bset SCARD_PRESENT s)))))"

definition reset_card :: "nat \<Rightarrow> DWORD \<Rightarrow> 'd pcscd \<Rightarrow> (LONG \<times> 'd pcscd) option" where
  "reset_card i dwDisposition w =
     do { (rv, w1) \<leftarrow> reset_power i dwDisposition w;
          w2 \<leftarrow> upd_rstate i (\<lambda>s. if rv = SCARD_S_SUCCESS then s\<lparr>readerState := status_powered (readerState s)\<rparr>
                                   else s\<lparr>readerState := status_reset_failed (readerState s), cardAtrLength := 0\<rparr>)
                 (upd_rctx i (\<lambda>r. RFSetReaderEventState r SCARD_RESET) w1);
          Some (rv, w2) }"

text \<open>The CTBCS eject command; what it answers is only logged.\<close>

definition eject_card :: "nat \<Rightarrow> 'd pcscd \<Rightarrow> (LONG \<times> 'd pcscd) option" where
  "eject_card i w =
     do { (rv, _, _, h) \<leftarrow> IFDControl_v2 (rctx w i) [0x20, 0x15, ucast ((dwSlot (rctx w i) AND 0xFFFF) + 1), 0, 0]
                             (uninit MAX_BUFFER_SIZE w) 2 (machine w);
          Some (rv, with_machine w h) }"

definition disposition_ok :: "DWORD \<Rightarrow> bool" where
  "disposition_ok d \<longleftrightarrow> d = SCARD_LEAVE_CARD \<or> d = SCARD_UNPOWER_CARD \<or> d = SCARD_RESET_CARD \<or> d = SCARD_EJECT_CARD"

subsection \<open>Reconnect\<close>

definition reconnect_enter :: "SCARDHANDLE \<Rightarrow> DWORD \<Rightarrow> DWORD \<Rightarrow> DWORD \<Rightarrow> bool \<Rightarrow> 'd pcscd \<Rightarrow> LONG + nat" where
  "reconnect_enter h dwShareMode dwPreferredProtocols dwInitialization out w =
     (if h = 0 then Inl SCARD_E_INVALID_HANDLE
      else if dwInitialization \<noteq> SCARD_LEAVE_CARD \<and> dwInitialization \<noteq> SCARD_RESET_CARD
           \<and> dwInitialization \<noteq> SCARD_UNPOWER_CARD
      then Inl SCARD_E_INVALID_VALUE
      else if dwShareMode \<noteq> SCARD_SHARE_SHARED \<and> dwShareMode \<noteq> SCARD_SHARE_EXCLUSIVE
           \<and> dwShareMode \<noteq> SCARD_SHARE_DIRECT
      then Inl SCARD_E_INVALID_VALUE
      else if dwShareMode \<noteq> SCARD_SHARE_DIRECT \<and> \<not> protocols_named dwPreferredProtocols
      then Inl SCARD_E_PROTO_MISMATCH
      else if \<not> out then Inl SCARD_E_INVALID_PARAMETER
      else case RFReaderInfoById w h of
        Inl rv \<Rightarrow> Inl rv
      | Inr i \<Rightarrow>
          if RFCheckReaderStatus w i \<noteq> SCARD_S_SUCCESS then Inl (RFCheckReaderStatus w i)
          else if RFFindReaderHandle w h \<noteq> SCARD_S_SUCCESS then Inl (RFFindReaderHandle w h)
          else if RFCheckSharing w h \<noteq> SCARD_S_SUCCESS then Inl (RFCheckSharing w h)
          else Inr i)"

text \<open>
  The reset (lines 572 to 681). The code of the power-up is overwritten by the event state in line 602, so the branch
  for a failed reset (lines 642 to 652) is never taken and a failure shows only as an empty ATR. The
  result is \<open>Some rv\<close> when the function returns \<open>rv\<close> here.
\<close>

definition reconnect_reset :: "nat \<Rightarrow> SCARDHANDLE \<Rightarrow> DWORD \<Rightarrow> 'd pcscd \<Rightarrow> (LONG option \<times> 'd pcscd) option" where
  "reconnect_reset i h dwInitialization w =
     do { (_, w1) \<leftarrow> reset_power i dwInitialization w;
          let ev = RFCheckReaderEventState (rctx w1 i) h;
          if ev = SCARD_W_RESET_CARD then Some (None, w1)
          else if ev = SCARD_W_REMOVED_CARD then Some (Some SCARD_W_REMOVED_CARD, w1)
          else if ev \<noteq> SCARD_S_SUCCESS then Some (Some SCARD_F_INTERNAL_ERROR, w1)
          else do {
            w2 \<leftarrow> upd_rstate i (\<lambda>s. s\<lparr>readerState := status_powered (readerState s)\<rparr>)
                   (upd_rctx i (\<lambda>r. RFSetReaderEventState r SCARD_RESET) w1);
            s \<leftarrow> rstate w2 i;
            if cardAtrLength s > 0 then Some (None, w2)
            else do {
              (_, dwStatus, _, _, m) \<leftarrow> IFDStatusICC (rctx w2 i) (uninit MAX_ATR_SIZE w2) 0 (machine w2);
              Some (Some (if flag dwStatus SCARD_PRESENT then SCARD_W_UNRESPONSIVE_CARD else SCARD_E_NO_SMARTCARD),
                    with_machine w2 m) } } }"

text \<open>The sharing mode (lines 757 to 806).\<close>

definition reconnect_share :: "nat \<Rightarrow> SCARDHANDLE \<Rightarrow> DWORD \<Rightarrow> 'd pcscd \<Rightarrow> LONG \<times> 'd pcscd" where
  "reconnect_share i h dwShareMode w =
     (if dwShareMode = SCARD_SHARE_EXCLUSIVE then
        (if dwContexts (rctx w i) = SCARD_EXCLUSIVE_CONTEXT then (SCARD_S_SUCCESS, w)
         else if dwContexts (rctx w i) = SCARD_LAST_CONTEXT
         then (SCARD_S_SUCCESS, snd (RFLockSharing h (upd_rctx i (\<lambda>r. r\<lparr>dwContexts := SCARD_EXCLUSIVE_CONTEXT\<rparr>) w)))
         else (SCARD_E_SHARING_VIOLATION, w))
      else if dwShareMode = SCARD_SHARE_SHARED \<or> dwShareMode = SCARD_SHARE_DIRECT then
        (if dwContexts (rctx w i) \<noteq> SCARD_EXCLUSIVE_CONTEXT then (SCARD_S_SUCCESS, w)
         else (SCARD_S_SUCCESS, upd_rctx i (\<lambda>r. r\<lparr>dwContexts := SCARD_LAST_CONTEXT\<rparr>) (snd (RFUnlockSharing h w))))
      else (SCARD_E_INVALID_VALUE, w))"

definition SCardReconnect ::
  "SCARDHANDLE \<Rightarrow> DWORD \<Rightarrow> DWORD \<Rightarrow> DWORD \<Rightarrow> bool \<Rightarrow> DWORD \<Rightarrow> 'd pcscd \<Rightarrow> (LONG \<times> DWORD \<times> 'd pcscd) option" where
  "SCardReconnect h dwShareMode dwPreferredProtocols dwInitialization out act w =
     (case reconnect_enter h dwShareMode dwPreferredProtocols dwInitialization out w of
        Inl rv \<Rightarrow> Some (rv, act, w)
      | Inr i \<Rightarrow> do {
          (early, w1) \<leftarrow> (if dwInitialization = SCARD_RESET_CARD \<or> dwInitialization = SCARD_UNPOWER_CARD
                            then reconnect_reset i h dwInitialization w else Some (None, w));
          case early of
            Some rv \<Rightarrow> Some (rv, act, w1)
          | None \<Rightarrow> do {
              (rv1, w2) \<leftarrow> select_protocol i dwShareMode dwPreferredProtocols w1;
              if rv1 \<noteq> SCARD_S_SUCCESS then Some (rv1, act, w2)
              else do {
                s \<leftarrow> rstate w2 i;
                let (rv2, w3) = reconnect_share i h dwShareMode w2;
                if rv2 \<noteq> SCARD_S_SUCCESS then Some (rv2, cardProtocol s, w3)
                else do {
                  let w4 = upd_rctx i (\<lambda>r. snd (RFClearReaderEventState r h)) w3;
                  w5 \<leftarrow> upd_rstate i (\<lambda>s. s\<lparr>readerSharing := dwContexts (rctx w4 i)\<rparr>) w4;
                  Some (SCARD_S_SUCCESS, cardProtocol s, w5) } } } })"

subsection \<open>Disconnect\<close>

definition disconnect_enter :: "SCARDHANDLE \<Rightarrow> DWORD \<Rightarrow> 'd pcscd \<Rightarrow> LONG + nat" where
  "disconnect_enter h dwDisposition w =
     (if h = 0 then Inl SCARD_E_INVALID_HANDLE
      else case RFReaderInfoById w h of
        Inl rv \<Rightarrow> Inl rv
      | Inr i \<Rightarrow>
          if RFFindReaderHandle w h \<noteq> SCARD_S_SUCCESS then Inl (RFFindReaderHandle w h)
          else if \<not> disposition_ok dwDisposition then Inl SCARD_E_INVALID_VALUE
          else Inr i)"

text \<open>Whether the call waits for the lock.\<close>

definition disconnect_waits :: "nat \<Rightarrow> SCARDHANDLE \<Rightarrow> DWORD \<Rightarrow> 'd pcscd \<Rightarrow> bool" where
  "disconnect_waits i h dwDisposition w \<longleftrightarrow>
     dwDisposition \<noteq> SCARD_LEAVE_CARD \<and> dwLockId (rctx w i) \<noteq> 0 \<and> dwLockId (rctx w i) \<noteq> h"

text \<open>One connection less (lines 982 to 993).\<close>

definition drop_connection :: "'d READER_CONTEXT \<Rightarrow> 'd READER_CONTEXT" where
  "drop_connection r =
     (if dwContexts r = SCARD_EXCLUSIVE_CONTEXT then r\<lparr>dwContexts := SCARD_NO_CONTEXT\<rparr>
      else r\<lparr>dwContexts := (if dwContexts r - 1 < 0 then 0 else dwContexts r - 1)\<rparr>)"

definition disconnect_finish :: "nat \<Rightarrow> SCARDHANDLE \<Rightarrow> DWORD \<Rightarrow> 'd pcscd \<Rightarrow> (LONG \<times> 'd pcscd) option" where
  "disconnect_finish i h dwDisposition w =
     (if stateRef (rctx w i) = None then Some (SCARD_E_NO_SMARTCARD, w)
      else
        let (rv, w1) = RFUnlockAllSharing h w in
        if rv \<noteq> SCARD_S_SUCCESS then Some (rv, w1)
        else do {
          w2 \<leftarrow> (if dwDisposition = SCARD_RESET_CARD \<or> dwDisposition = SCARD_UNPOWER_CARD
                  then map_option snd (reset_card i dwDisposition w1)
                  else if dwDisposition = SCARD_EJECT_CARD then map_option snd (eject_card i w1)
                  else Some w1);
          let w3 = upd_rctx i (\<lambda>r. drop_connection (snd (RFRemoveReaderHandle r h))) w2;
          w4 \<leftarrow> upd_rstate i (\<lambda>s. s\<lparr>readerSharing := dwContexts (rctx w3 i)\<rparr>) w3;
          Some (SCARD_S_SUCCESS, w4) })"

definition SCardDisconnect :: "SCARDHANDLE \<Rightarrow> DWORD \<Rightarrow> 'd pcscd \<Rightarrow> (LONG \<times> 'd pcscd) option" where
  "SCardDisconnect h dwDisposition w =
     (case disconnect_enter h dwDisposition w of
        Inl rv \<Rightarrow> Some (rv, w)
      | Inr i \<Rightarrow> if disconnect_waits i h dwDisposition w then None
                 else disconnect_finish i h dwDisposition w)"

subsection \<open>Transactions\<close>

text \<open>Reader usable, handle known, no event pending: the checks most operations make.\<close>

definition reader_guard :: "nat \<Rightarrow> SCARDHANDLE \<Rightarrow> 'd pcscd \<Rightarrow> LONG" where
  "reader_guard i h w =
     (if RFCheckReaderStatus w i \<noteq> SCARD_S_SUCCESS then RFCheckReaderStatus w i
      else if RFFindReaderHandle w h \<noteq> SCARD_S_SUCCESS then RFFindReaderHandle w h
      else RFCheckReaderEventState (rctx w i) h)"

definition SCardBeginTransaction :: "SCARDHANDLE \<Rightarrow> 'd pcscd \<Rightarrow> LONG \<times> 'd pcscd" where
  "SCardBeginTransaction h w =
     (if h = 0 then (SCARD_E_INVALID_HANDLE, w)
      else case RFReaderInfoById w h of
        Inl rv \<Rightarrow> (rv, w)
      | Inr i \<Rightarrow> if reader_guard i h w \<noteq> SCARD_S_SUCCESS then (reader_guard i h w, w) else RFLockSharing h w)"

definition SCardEndTransaction :: "SCARDHANDLE \<Rightarrow> DWORD \<Rightarrow> 'd pcscd \<Rightarrow> (LONG \<times> 'd pcscd) option" where
  "SCardEndTransaction h dwDisposition w =
     (if h = 0 then Some (SCARD_E_INVALID_HANDLE, w)
      else if \<not> disposition_ok dwDisposition then Some (SCARD_E_INVALID_VALUE, w)
      else case RFReaderInfoById w h of
        Inl rv \<Rightarrow> Some (rv, w)
      | Inr i \<Rightarrow>
          if RFFindReaderHandle w h \<noteq> SCARD_S_SUCCESS then Some (RFFindReaderHandle w h, w)
          else if RFCheckReaderEventState (rctx w i) h \<noteq> SCARD_S_SUCCESS
          then Some (RFCheckReaderEventState (rctx w i) h, w)
          else do {
            (rv, w1) \<leftarrow> (if dwDisposition = SCARD_RESET_CARD \<or> dwDisposition = SCARD_UNPOWER_CARD
                           then reset_card i dwDisposition w
                           else if dwDisposition = SCARD_EJECT_CARD then eject_card i w
                           else Some (SCARD_S_SUCCESS, w));
            Some (rv, snd (RFUnlockSharing h w1)) })"

definition SCardCancelTransaction :: "SCARDHANDLE \<Rightarrow> 'd pcscd \<Rightarrow> LONG \<times> 'd pcscd" where
  "SCardCancelTransaction h w =
     (if h = 0 then (SCARD_E_INVALID_HANDLE, w)
      else case RFReaderInfoById w h of
        Inl rv \<Rightarrow> (rv, w)
      | Inr i \<Rightarrow>
          if RFFindReaderHandle w h \<noteq> SCARD_S_SUCCESS then (RFFindReaderHandle w h, w)
          else if RFCheckReaderEventState (rctx w i) h \<noteq> SCARD_S_SUCCESS then (RFCheckReaderEventState (rctx w i) h, w)
          else RFUnlockSharing h w)"

subsection \<open>Status\<close>

text \<open>The results of \<^verbatim>\<open>SCardStatus\<close>; \<open>None\<close> is a NULL pointer. The name buffer is filled by
  \<^verbatim>\<open>strncpy\<close>, of which the string is kept.\<close>

record status_args =
  mszReaderNames :: "string option"
  pcchReaderLen :: "DWORD option"
  pdwState :: "DWORD option"
  pdwProtocol :: "DWORD option"
  pbAtr :: "UCHAR list option"
  pcbAtrLen :: "DWORD option"

definition status_name :: "string \<Rightarrow> LONG \<Rightarrow> status_args \<Rightarrow> (LONG + LONG) \<times> status_args" where
  "status_name name rv a =
     (case mszReaderNames a of
        Some _ \<Rightarrow>
          (case pcchReaderLen a of
             None \<Rightarrow> (Inl SCARD_E_INVALID_PARAMETER, a)
           | Some n \<Rightarrow>
               if n \<ge> of_nat (length name)
               then (Inr rv, a\<lparr>pcchReaderLen := Some (of_nat (length name)), mszReaderNames := Some name\<rparr>)
               else (Inr SCARD_E_INSUFFICIENT_BUFFER, a\<lparr>pcchReaderLen := Some (of_nat (length name))\<rparr>))
      | None \<Rightarrow> (Inr rv, a\<lparr>pcchReaderLen := map_option (\<lambda>_. of_nat (length name)) (pcchReaderLen a)\<rparr>))"

definition status_atr :: "READER_STATE \<Rightarrow> LONG \<Rightarrow> status_args \<Rightarrow> LONG \<times> status_args" where
  "status_atr s rv a =
     (case pbAtr a of
        Some buf \<Rightarrow>
          (case pcbAtrLen a of
             None \<Rightarrow> (SCARD_E_INVALID_PARAMETER, a)
           | Some n \<Rightarrow>
               if n \<ge> cardAtrLength s
               then (rv, a\<lparr>pcbAtrLen := Some (cardAtrLength s),
                           pbAtr := Some (take (unat (cardAtrLength s)) (cardAtr s) @ drop (unat (cardAtrLength s)) buf)\<rparr>)
               else (SCARD_E_INSUFFICIENT_BUFFER, a\<lparr>pcbAtrLen := Some (cardAtrLength s)\<rparr>))
      | None \<Rightarrow> (rv, a\<lparr>pcbAtrLen := map_option (\<lambda>_. cardAtrLength s) (pcbAtrLen a)\<rparr>))"

definition SCardStatus :: "SCARDHANDLE \<Rightarrow> status_args \<Rightarrow> 'd pcscd \<Rightarrow> (LONG \<times> status_args) option" where
  "SCardStatus h a w =
     (if h = 0 then Some (SCARD_E_INVALID_HANDLE, a)
      else case RFReaderInfoById w h of
        Inl rv \<Rightarrow> Some (rv, a)
      | Inr i \<Rightarrow>
          if length (lpcReader (rctx w i)) > MAX_BUFFER_SIZE then Some (SCARD_F_INTERNAL_ERROR, a)
          else do {
            s \<leftarrow> rstate w i;
            if cardAtrLength s > of_nat MAX_ATR_SIZE then Some (SCARD_F_INTERNAL_ERROR, a)
            else if RFCheckReaderEventState (rctx w i) h \<noteq> SCARD_S_SUCCESS
            then Some (RFCheckReaderEventState (rctx w i) h, a)
            else if RFCheckReaderStatus w i \<noteq> SCARD_S_SUCCESS then Some (RFCheckReaderStatus w i, a)
            else case status_name (lpcReader (rctx w i)) SCARD_S_SUCCESS a of
              (Inl rv, a1) \<Rightarrow> Some (rv, a1)
            | (Inr rv, a1) \<Rightarrow>
                Some (status_atr s rv (a1\<lparr>pdwState := map_option (\<lambda>_. readerState s) (pdwState a1),
                                         pdwProtocol := map_option (\<lambda>_. cardProtocol s) (pdwProtocol a1)\<rparr>)) })"

subsection \<open>Talking to the reader and the card\<close>

text \<open>\<open>send\<close> is \<open>None\<close> for a NULL pointer; its length is \<^verbatim>\<open>cbSendLength\<close>. The result carries
  \<^verbatim>\<open>*lpBytesReturned\<close> and the receive buffer.\<close>

definition SCardControl ::
  "SCARDHANDLE \<Rightarrow> DWORD \<Rightarrow> UCHAR list option \<Rightarrow> UCHAR list \<Rightarrow> DWORD \<Rightarrow> 'd pcscd
     \<Rightarrow> (LONG \<times> DWORD \<times> UCHAR list \<times> 'd pcscd) option" where
  "SCardControl h dwControlCode send recv cbRecvLength w =
     (if h = 0 then Some (SCARD_E_INVALID_HANDLE, 0, recv, w)
      else if RFCheckSharing w h \<noteq> SCARD_S_SUCCESS then Some (RFCheckSharing w h, 0, recv, w)
      else case RFReaderInfoById w h of
        Inl rv \<Rightarrow> Some (rv, 0, recv, w)
      | Inr i \<Rightarrow>
          let r = rctx w i; tx = (case send of None \<Rightarrow> [] | Some b \<Rightarrow> b) in
          if dwVersion r = IFD_HVERSION_2_0 \<and> tx = [] then Some (SCARD_E_INVALID_PARAMETER, 0, recv, w)
          else if reader_guard i h w \<noteq> SCARD_S_SUCCESS then Some (reader_guard i h w, 0, recv, w)
          else if dwVersion r = IFD_HVERSION_2_0
          then do { (rv, rx, len, m) \<leftarrow> IFDControl_v2 r tx recv cbRecvLength (machine w);
                    Some (rv, len, rx, with_machine w m) }
          else if dwVersion r = IFD_HVERSION_3_0
          then do { (rv, rx, len, m) \<leftarrow> IFDControl r dwControlCode tx recv cbRecvLength 0 (machine w);
                    Some (rv, len, rx, with_machine w m) }
          else Some (SCARD_E_UNSUPPORTED_FEATURE, 0, recv, w))"

text \<open>The checks \<^verbatim>\<open>SCardGetAttrib\<close>, \<^verbatim>\<open>SCardSetAttrib\<close> and \<^verbatim>\<open>SCardTransmit\<close> share, in their order.\<close>

definition card_guard :: "SCARDHANDLE \<Rightarrow> 'd pcscd \<Rightarrow> LONG + nat" where
  "card_guard h w =
     (if RFCheckSharing w h \<noteq> SCARD_S_SUCCESS then Inl (RFCheckSharing w h)
      else case RFReaderInfoById w h of
        Inl rv \<Rightarrow> Inl rv
      | Inr i \<Rightarrow> if reader_guard i h w \<noteq> SCARD_S_SUCCESS then Inl (reader_guard i h w) else Inr i)"

definition attrib_code :: "LONG \<Rightarrow> LONG" where
  "attrib_code rv = (if rv = IFD_SUCCESS then SCARD_S_SUCCESS
     else if rv = IFD_ERROR_TAG then SCARD_E_UNSUPPORTED_FEATURE else SCARD_E_NOT_TRANSACTED)"

definition SCardGetAttrib ::
  "SCARDHANDLE \<Rightarrow> DWORD \<Rightarrow> UCHAR list \<Rightarrow> DWORD \<Rightarrow> 'd pcscd \<Rightarrow> (LONG \<times> DWORD \<times> UCHAR list \<times> 'd pcscd) option" where
  "SCardGetAttrib h dwAttrId pbAttr cbAttrLen w =
     (if h = 0 then Some (SCARD_E_INVALID_HANDLE, cbAttrLen, pbAttr, w)
      else case card_guard h w of
        Inl rv \<Rightarrow> Some (rv, cbAttrLen, pbAttr, w)
      | Inr i \<Rightarrow> do { (rv, len, val, m) \<leftarrow> IFDGetCapabilities (rctx w i) dwAttrId cbAttrLen pbAttr (machine w);
                      Some (attrib_code rv, len, val, with_machine w m) })"

definition SCardSetAttrib ::
  "SCARDHANDLE \<Rightarrow> DWORD \<Rightarrow> UCHAR list \<Rightarrow> DWORD \<Rightarrow> 'd pcscd \<Rightarrow> (LONG \<times> 'd pcscd) option" where
  "SCardSetAttrib h dwAttrId pbAttr cbAttrLen w =
     (if h = 0 then Some (SCARD_E_INVALID_HANDLE, w)
      else case card_guard h w of
        Inl rv \<Rightarrow> Some (rv, w)
      | Inr i \<Rightarrow> do { (rv, m) \<leftarrow> IFDSetCapabilities (rctx w i) dwAttrId cbAttrLen pbAttr (machine w);
                      Some (attrib_code rv, with_machine w m) })"

text \<open>\<^verbatim>\<open>for (i = 0; prot != 1; i++) prot >>= 1;\<close>\<close>

partial_function (option) protocol_number :: "DWORD \<Rightarrow> DWORD \<Rightarrow> DWORD option" where
  "protocol_number prot i = (if prot = 1 then Some i else protocol_number (drop_bit 1 prot) (i + 1))"

definition send_protocol :: "DWORD \<Rightarrow> READER_STATE \<Rightarrow> DWORD option" where
  "send_protocol p s =
     (if p = SCARD_PROTOCOL_T1 then Some 1
      else if p = SCARD_PROTOCOL_RAW then Some SCARD_PROTOCOL_RAW
      else if p = SCARD_PROTOCOL_ANY_OLD then protocol_number (cardProtocol s) 0
      else Some 0)"

text \<open>The driver call (lines 1631 to 1640).\<close>

definition transmit_call ::
  "nat \<Rightarrow> SCARD_IO_HEADER \<Rightarrow> DWORD \<Rightarrow> UCHAR list \<Rightarrow> UCHAR list \<Rightarrow> DWORD \<Rightarrow> SCARD_IO_HEADER \<Rightarrow> 'd pcscd
     \<Rightarrow> (LONG \<times> UCHAR list \<times> DWORD \<times> SCARD_IO_HEADER \<times> 'd hw) option" where
  "transmit_call i pci prot tx rx dwRxLength recvPci w =
     (if Protocol pci = SCARD_PROTOCOL_RAW \<and> dwVersion (rctx w i) = IFD_HVERSION_2_0
      then do { (rv, rx1, len, m) \<leftarrow> IFDControl_v2 (rctx w i) tx rx dwRxLength (machine w);
                Some (rv, rx1, len, recvPci, m) }
      else IFDTransmit (rctx w i) \<lparr>Protocol = prot, PciLength = PciLength pci\<rparr> tx rx dwRxLength recvPci (machine w))"

text \<open>Pointers are options: \<open>None\<close> is NULL. The result: the code, \<^verbatim>\<open>*pcbRecvLength\<close> (when there is one), the
  receive header and the receive buffer.\<close>

record transmit_out =
  recvLength :: "DWORD option"
  ioRecvPci :: "SCARD_IO_HEADER option"
  recvBuffer :: "UCHAR list option"

definition SCardTransmit ::
  "SCARDHANDLE \<Rightarrow> SCARD_IO_HEADER option \<Rightarrow> UCHAR list option \<Rightarrow> transmit_out \<Rightarrow> 'd pcscd
     \<Rightarrow> (LONG \<times> transmit_out \<times> 'd pcscd) option" where
  "SCardTransmit h pioSendPci pbSendBuffer out w =
     (case recvLength out of
        None \<Rightarrow> Some (SCARD_E_INVALID_PARAMETER, out, w)
      | Some dwRxLength \<Rightarrow>
          let out0 = out\<lparr>recvLength := Some 0\<rparr> in
          if h = 0 then Some (SCARD_E_INVALID_HANDLE, out0, w)
          else case (pbSendBuffer, recvBuffer out, pioSendPci) of
            (Some tx, Some rx, Some pci) \<Rightarrow>
              if dwRxLength < 2 then Some (SCARD_E_INSUFFICIENT_BUFFER, out0, w)
              else (case card_guard h w of
                Inl rv \<Rightarrow> Some (rv, out0, w)
              | Inr i \<Rightarrow> do {
                  s \<leftarrow> rstate w i;
                  if Protocol pci \<noteq> SCARD_PROTOCOL_RAW \<and> flag (readerState s) SCARD_ABSENT
                  then Some (SCARD_E_NO_SMARTCARD, out0, w)
                  else if Protocol pci \<noteq> SCARD_PROTOCOL_RAW \<and> Protocol pci \<noteq> SCARD_PROTOCOL_ANY_OLD
                       \<and> Protocol pci \<noteq> cardProtocol s
                  then Some (SCARD_E_PROTO_MISMATCH, out0, w)
                  else do {
                    prot \<leftarrow> send_protocol (Protocol pci) s;
                    recvPci \<leftarrow> ioRecvPci out;
                    (rv, rx1, len, pci1, m) \<leftarrow> transmit_call i pci prot tx rx dwRxLength recvPci w;
                    let out1 = out0\<lparr>ioRecvPci := Some pci1, recvBuffer := Some rx1\<rparr>;
                    Some (if rv \<noteq> SCARD_S_SUCCESS then (rv, out1, with_machine w m)
                          else if dwRxLength < len then (SCARD_E_INSUFFICIENT_BUFFER, out1, with_machine w m)
                          else (SCARD_S_SUCCESS, out1\<lparr>recvLength := Some len\<rparr>, with_machine w m)) } })
          | _ \<Rightarrow> Some (SCARD_E_INVALID_PARAMETER, out0, w))"

subsection \<open>Which parts of the daemon an operation touches\<close>

text \<open>Only slot \<open>i\<close> of the reader table (and public states and the drivers) may differ.\<close>

definition touches :: "nat \<Rightarrow> 'd pcscd \<Rightarrow> 'd pcscd \<Rightarrow> bool" where
  "touches i w w' \<longleftrightarrow> (\<forall>j. j \<noteq> i \<longrightarrow> rctx w' j = rctx w j)
     \<and> length (sReadersContexts w') = length (sReadersContexts w)
     \<and> length (readerStates w') = length (readerStates w) \<and> psContext w' = psContext w"

lemma touches_refl [simp]: "touches i w w"
  and touches_trans: "touches i u v \<Longrightarrow> touches i v w \<Longrightarrow> touches i u w"
  by (auto simp: touches_def)

lemma same_tables_touches: "same_tables w w' \<Longrightarrow> touches i w w'"
  by (simp add: touches_def same_tables_def rctx_def)

lemma touches_upd_rctx [simp]:
  "touches i w (upd_rctx i f w') = touches i w w'" "touches i (upd_rctx i f w) w' = touches i w w'"
  by (simp_all add: touches_def)

lemma touches_len: "touches i w w' \<Longrightarrow> length (sReadersContexts w') = length (sReadersContexts w)"
  by (simp add: touches_def)

lemma same_tables_select_protocol: "select_protocol i m p w = Some (rv, w') \<Longrightarrow> same_tables w w'"
  by (auto simp: select_protocol_def bind_eq_Some_conv Let_def split: if_splits
      dest!: same_tables_upd_rstate)

lemma same_tables_reset_power: "reset_power i d w = Some (rv, w') \<Longrightarrow> same_tables w w'"
  by (auto simp: reset_power_def bind_eq_Some_conv split: if_splits
      dest!: same_tables_upd_rstate same_tables_ifd_power intro: same_tables_trans)

lemma same_tables_eject_card: "eject_card i w = Some (rv, w') \<Longrightarrow> same_tables w w'"
  by (auto simp: eject_card_def bind_eq_Some_conv)

lemma reset_card_rctx:
  assumes "reset_card i d w = Some (rv, w')" and "i < length (sReadersContexts w)"
  shows "touches i w w' \<and> rctx w' i = RFSetReaderEventState (rctx w i) SCARD_RESET"
proof -
  from assms(1) obtain w1 g where p: "reset_power i d w = Some (rv, w1)"
    and u: "upd_rstate i g (upd_rctx i (\<lambda>r. RFSetReaderEventState r SCARD_RESET) w1) = Some w'"
    by (auto simp: reset_card_def bind_eq_Some_conv)
  have t1: "same_tables w w1" by (rule same_tables_reset_power [OF p])
  have t2: "same_tables (upd_rctx i (\<lambda>r. RFSetReaderEventState r SCARD_RESET) w1) w'"
    by (rule same_tables_upd_rstate [OF u])
  have "touches i w w'"
    using same_tables_touches [OF t1, of i] same_tables_touches [OF t2, of i] by (auto intro: touches_trans)
  moreover have "rctx w' i = RFSetReaderEventState (rctx w i) SCARD_RESET"
    using same_tables_rctx [OF t1] same_tables_rctx [OF t2] t1 assms(2) by (simp add: same_tables_def)
  ultimately show ?thesis by simp
qed

text \<open>The lock operations on the reader a handle belongs to.\<close>

lemma RFLockSharing_eq:
  "RFReaderInfoById w h = Inr i \<Longrightarrow> RFLockSharing h w =
     (if dwLockId (rctx w i) = 0 \<or> dwLockId (rctx w i) = h
      then (SCARD_S_SUCCESS, upd_rctx i (\<lambda>r. r\<lparr>LockCount := LockCount r + 1, dwLockId := h\<rparr>) w)
      else (SCARD_E_SHARING_VIOLATION, w))"
  by (simp add: RFLockSharing_def RFCheckSharing_def)

lemma RFUnlockSharing_eq:
  "RFReaderInfoById w h = Inr i \<Longrightarrow> RFUnlockSharing h w =
     (if dwLockId (rctx w i) = 0 \<or> dwLockId (rctx w i) = h
      then (SCARD_S_SUCCESS, upd_rctx i unlock_once w) else (SCARD_E_SHARING_VIOLATION, w))"
  by (simp add: RFUnlockSharing_def RFCheckSharing_def)

lemma RFUnlockAllSharing_eq:
  "RFReaderInfoById w h = Inr i \<Longrightarrow> RFUnlockAllSharing h w =
     (if dwLockId (rctx w i) = 0 \<or> dwLockId (rctx w i) = h
      then (SCARD_S_SUCCESS, upd_rctx i (\<lambda>r. r\<lparr>LockCount := 0, dwLockId := 0\<rparr>) w)
      else (SCARD_E_SHARING_VIOLATION, w))"
  by (simp add: RFUnlockAllSharing_def RFCheckSharing_def)

subsection \<open>Invariants\<close>

text \<open>How many handles are connected to a reader.\<close>

definition connected :: "'d READER_CONTEXT \<Rightarrow> nat" where
  "connected r = count_if (\<lambda>c. hCard c \<noteq> 0) (psHandles r)"

text \<open>The sharing count: -1 for one exclusive connection, else the number of connections.\<close>

definition share_ok :: "'d READER_CONTEXT \<Rightarrow> bool" where
  "share_ok r \<longleftrightarrow> (dwContexts r = SCARD_EXCLUSIVE_CONTEXT \<and> connected r = 1) \<or> dwContexts r = int (connected r)"

text \<open>Slot \<open>i\<close> of the reader table: its identity, the handles in it, which carry that identity, and the sharing count, which is -1 or at most
  the number of handles. A slot with a public state has its identity, even after a failed start of its reader.\<close>

definition reader_inv :: "nat \<Rightarrow> 'd READER_CONTEXT \<Rightarrow> bool" where
  "reader_inv i r \<longleftrightarrow> length (psHandles r) = PCSCLITE_MAX_READER_CONTEXT_CHANNELS
     \<and> (dwIdentity r = 0 \<or> dwIdentity r = slot_identity i)
     \<and> (vHandle r \<noteq> 0 \<longrightarrow> dwIdentity r = slot_identity i)
     \<and> (stateRef r \<noteq> None \<longrightarrow> dwIdentity r = slot_identity i)
     \<and> SCARD_EXCLUSIVE_CONTEXT \<le> dwContexts r \<and> dwContexts r \<le> int (connected r)
     \<and> (\<forall>h \<in> hCard ` set (psHandles r). h \<noteq> 0 \<longrightarrow> identity_part h = slot_identity i)"

definition daemon_inv :: "'d pcscd \<Rightarrow> bool" where
  "daemon_inv w \<longleftrightarrow> length (sReadersContexts w) = PCSCLITE_MAX_READERS_CONTEXTS \<and> (\<forall>i<16. reader_inv i (rctx w i))"

definition sharing_inv :: "'d pcscd \<Rightarrow> bool" where
  "sharing_inv w \<longleftrightarrow> (\<forall>i<16. share_ok (rctx w i))"

lemma daemon_inv_identities: "daemon_inv w \<Longrightarrow> identities_ok w"
  by (auto simp: daemon_inv_def reader_inv_def identities_ok_def)

lemma daemon_inv_touches:
  "daemon_inv w \<Longrightarrow> touches i w w' \<Longrightarrow> reader_inv i (rctx w' i) \<Longrightarrow> daemon_inv w'"
  unfolding daemon_inv_def touches_def by metis

lemma sharing_inv_touches:
  "sharing_inv w \<Longrightarrow> touches i w w' \<Longrightarrow> share_ok (rctx w' i) \<Longrightarrow> sharing_inv w'"
  unfolding sharing_inv_def touches_def by metis

text \<open>Both invariants see of a reader only the handles, the count, the identity and the library.\<close>

lemma hCard_set_eq: "map hCard xs = map hCard ys \<Longrightarrow> hCard ` set xs = hCard ` set ys"
  by (metis list.set_map)

lemma connected_live: "connected r = size (live (map hCard (psHandles r)))"
  by (simp add: connected_def size_live count_if_map comp_def)

lemma connected_cong: "map hCard (psHandles r') = map hCard (psHandles r) \<Longrightarrow> connected r' = connected r"
  by (simp add: connected_live)

lemma reader_inv_cong:
  "map hCard (psHandles r') = map hCard (psHandles r) \<Longrightarrow> dwIdentity r' = dwIdentity r \<Longrightarrow> vHandle r' = vHandle r
   \<Longrightarrow> stateRef r' = stateRef r \<Longrightarrow> dwContexts r' = dwContexts r \<Longrightarrow> reader_inv i r' = reader_inv i r"
  using hCard_set_eq [of "psHandles r'" "psHandles r"] map_eq_imp_length_eq [of hCard "psHandles r'" hCard "psHandles r"]
    connected_cong [of r' r]
  by (simp add: reader_inv_def)

lemma connected_pos: "h \<in> hCard ` set (psHandles r) \<Longrightarrow> h \<noteq> 0 \<Longrightarrow> 0 < connected r"
  by (force simp: connected_def count_if_def length_greater_0_conv filter_empty_conv simp del: length_greater_0_conv)

lemma share_ok_cong:
  "map hCard (psHandles r') = map hCard (psHandles r) \<Longrightarrow> dwContexts r' = dwContexts r \<Longrightarrow> share_ok r' = share_ok r"
  using connected_cong [of r' r] by (auto simp: share_ok_def)

text \<open>A connected handle belongs to the reader its identity names.\<close>

lemma handle_reader:
  assumes "daemon_inv w" and "RFFindReaderHandle w h = SCARD_S_SUCCESS" and "RFReaderInfoById w h = Inr i" and "h \<noteq> 0"
  shows "i < 16 \<and> h \<in> hCard ` set (psHandles (rctx w i)) \<and> vHandle (rctx w i) \<noteq> 0 \<and> dwIdentity (rctx w i) = slot_identity i"
proof -
  have len: "length (sReadersContexts w) = 16" using assms(1) by (simp add: daemon_inv_def)
  from assms(2) obtain r where r: "r \<in> set (sReadersContexts w)" "vHandle r \<noteq> 0" "h \<in> hCard ` set (psHandles r)"
    by (auto simp: RFFindReaderHandle_def split: if_splits)
  then obtain j where j: "j < 16" "r = rctx w j" using len by (auto simp: in_set_conv_nth rctx_def)
  have inv: "reader_inv j (rctx w j)" using assms(1) j(1) by (simp add: daemon_inv_def)
  then have id: "dwIdentity (rctx w j) = slot_identity j" "identity_part h = slot_identity j"
    using r j assms(4) by (auto simp: reader_inv_def)
  have "RFReaderInfoById w h = Inr j"
    by (rule RFReaderInfoById_handle [OF daemon_inv_identities [OF assms(1)] j(1) id])
  with assms(3) have "j = i" by simp
  with r j id show ?thesis by simp
qed

subsection \<open>Connecting\<close>

text \<open>The table of a reader gets one handle more, the others keep their place.\<close>

lemma add_handle:
  assumes "RFAddReaderHandle r h = (SCARD_S_SUCCESS, r')" and "h \<noteq> 0"
  shows "connected r' = Suc (connected r)" and "h \<in> hCard ` set (psHandles r')"
    and "hCard ` set (psHandles r') \<subseteq> insert h (hCard ` set (psHandles r))"
    and "length (psHandles r') = length (psHandles r)"
proof -
  from assms(1) obtain j where j: "first_index (\<lambda>c. hCard c = 0) (psHandles r) = Some j"
    and r': "r' = r\<lparr>psHandles := (psHandles r)[j := \<lparr>hCard = h, dwEventStatus = 0\<rparr>]\<rparr>"
    by (auto simp: RFAddReaderHandle_def split: option.splits)
  have jl: "j < length (psHandles r)" "hCard (psHandles r ! j) = 0" using first_index_SomeD [OF j] by auto
  then have "\<lparr>hCard = h, dwEventStatus = 0\<rparr> \<in> set (psHandles r')" by (simp add: r' set_update_memI)
  then show "h \<in> hCard ` set (psHandles r')" by force
  show "hCard ` set (psHandles r') \<subseteq> insert h (hCard ` set (psHandles r))"
    using set_update_subset_insert [of "psHandles r" j] by (force simp: r')
  have "int (connected r') = int (connected r) + 1"
    using count_if_update [OF jl(1), of "\<lambda>c. hCard c \<noteq> 0"] jl(2) assms(2) by (simp add: connected_def r')
  then show "connected r' = Suc (connected r)" by linarith
  show "length (psHandles r') = length (psHandles r)" by (simp add: r')
qed

lemma add_handle_full:
  "RFAddReaderHandle r h = (rv, r') \<Longrightarrow> rv \<noteq> SCARD_S_SUCCESS \<Longrightarrow>
     r' = r \<and> connected r = length (psHandles r)"
proof -
  assume a: "RFAddReaderHandle r h = (rv, r')" "rv \<noteq> SCARD_S_SUCCESS"
  then have "fst (RFAddReaderHandle r h) \<noteq> SCARD_S_SUCCESS" by simp
  with reader_handles.add_ok_capacity [of r h] reader_handles.add_fails [of r h] a(1) count_if_le
  show ?thesis by (metis connected_live fst_conv length_map linorder_neqE_nat not_le size_live snd_conv)
qed

text \<open>The reader before the handle is added: the connection is counted, and an exclusive one locks the reader.\<close>

definition counted :: "DWORD \<Rightarrow> SCARDHANDLE \<Rightarrow> 'd READER_CONTEXT \<Rightarrow> 'd READER_CONTEXT" where
  "counted dwShareMode h r =
     (if dwShareMode = SCARD_SHARE_EXCLUSIVE
      then if dwLockId r = 0 \<or> dwLockId r = h
           then r\<lparr>dwContexts := SCARD_EXCLUSIVE_CONTEXT, LockCount := LockCount r + 1, dwLockId := h\<rparr>
           else r\<lparr>dwContexts := SCARD_EXCLUSIVE_CONTEXT\<rparr>
      else r\<lparr>dwContexts := dwContexts r + 1\<rparr>)"

lemma counted_fields [simp]:
  "psHandles (counted m h r) = psHandles r" "dwIdentity (counted m h r) = dwIdentity r"
  "vHandle (counted m h r) = vHandle r" "stateRef (counted m h r) = stateRef r"
  "connected (counted m h r) = connected r"
  "dwContexts (counted m h r) = (if m = SCARD_SHARE_EXCLUSIVE then SCARD_EXCLUSIVE_CONTEXT else dwContexts r + 1)"
  by (simp_all add: counted_def connected_def)

text \<open>The outcomes of \<open>connect_share\<close> on a loaded reader.\<close>

lemma connect_share_cases:
  assumes "connect_share i m w = Some (rv, h, w')" and "daemon_inv w" and "i < 16"
    and "dwIdentity (rctx w i) = slot_identity i"
  obtains (exclusive) "rv = SCARD_E_SHARING_VIOLATION" "m = SCARD_SHARE_EXCLUSIVE" "h = 0"
        "dwContexts (rctx w i) \<noteq> SCARD_NO_CONTEXT" "touches i w w'" "rctx w' i = rctx w i"
    | (full) "rv = SCARD_F_INTERNAL_ERROR" "h = 0" "touches i w w'" "connected (rctx w i) = 16"
        "m = SCARD_SHARE_EXCLUSIVE \<Longrightarrow> dwContexts (rctx w i) = SCARD_NO_CONTEXT"
        "psHandles (rctx w' i) = psHandles (rctx w i)" "dwIdentity (rctx w' i) = dwIdentity (rctx w i)"
        "vHandle (rctx w' i) = vHandle (rctx w i)" "stateRef (rctx w' i) = stateRef (rctx w i)"
        "dwContexts (rctx w' i) = SCARD_NO_CONTEXT \<or> dwContexts (rctx w' i) = dwContexts (rctx w i)"
        "m \<noteq> SCARD_SHARE_EXCLUSIVE \<Longrightarrow> 0 \<le> dwContexts (rctx w i) \<Longrightarrow> dwContexts (rctx w' i) = dwContexts (rctx w i)"
    | (ok) "rv = SCARD_S_SUCCESS" "h \<noteq> 0" "identity_part h = slot_identity i" "touches i w w'"
        "RFAddReaderHandle (counted m h (rctx w i)) h = (SCARD_S_SUCCESS, rctx w' i)"
        "m = SCARD_SHARE_EXCLUSIVE \<Longrightarrow> dwContexts (rctx w i) = SCARD_NO_CONTEXT"
proof -
  obtain h0 w1 where c: "RFCreateReaderHandle i w = (h0, w1)" by fastforce
  from c obtain n where n: "10 \<le> n" "n \<le> 65000" "h0 = slot_identity i + of_nat n" "\<exists>p. w1 = w\<lparr>rand_pos := p\<rparr>"
    by (rule RFCreateReaderHandle_shape) (simp add: assms(4))
  have t1: "same_tables w w1" using n(4) by (auto simp: same_tables_def)
  have r1: "rctx w1 = rctx w" by (rule same_tables_rctx [OF t1])
  have len: "length (sReadersContexts w1) = 16" using t1 assms(2) by (simp add: same_tables_def daemon_inv_def)
  have part: "identity_part h0 = slot_identity i" using n assms(3) by simp
  then have h0: "h0 \<noteq> 0" using assms(3) slot_identity_nonzero [of i] by (auto simp: identity_part_def)
  have ids: "identities_ok w1" using daemon_inv_identities [OF assms(2)] r1 t1 by (simp add: identities_ok_def same_tables_def)
  have find: "RFReaderInfoById w1 h0 = Inr i"
    by (rule RFReaderInfoById_handle [OF ids assms(3) _ part]) (simp add: r1 assms(4))
  show thesis
  proof (cases "m = SCARD_SHARE_EXCLUSIVE \<and> dwContexts (rctx w1 i) \<noteq> SCARD_NO_CONTEXT")
    case True
    with assms(1) c have "rv = SCARD_E_SHARING_VIOLATION" "h = 0" "w' = w1" by (auto simp: connect_share_def)
    with True r1 same_tables_touches [OF t1] show thesis by (auto intro: exclusive)
  next
    case False
    define w2 where "w2 = (if m = SCARD_SHARE_EXCLUSIVE
        then snd (RFLockSharing h0 (upd_rctx i (\<lambda>r. r\<lparr>dwContexts := SCARD_EXCLUSIVE_CONTEXT\<rparr>) w1))
        else upd_rctx i (\<lambda>r. r\<lparr>dwContexts := dwContexts r + 1\<rparr>) w1)"
    have find2: "RFReaderInfoById (upd_rctx i (\<lambda>r. r\<lparr>dwContexts := SCARD_EXCLUSIVE_CONTEXT\<rparr>) w1) h0 = Inr i"
      using find by simp
    have r2: "rctx w2 i = counted m h0 (rctx w i)"
      using len assms(3) r1 by (simp add: w2_def counted_def RFLockSharing_eq [OF find2])
    have tt: "touches i w w2"
      using same_tables_touches [OF t1, of i] unfolding w2_def RFLockSharing_eq [OF find2] by simp
    obtain rv2 r where add: "RFAddReaderHandle (rctx w2 i) h0 = (rv2, r)" by fastforce
    have l2: "i < length (sReadersContexts w2)" using tt assms(2,3) by (simp add: touches_def daemon_inv_def)
    show thesis
    proof (cases "rv2 = SCARD_S_SUCCESS")
      case True
      from assms(1) c False True add obtain w4 where h: "rv = SCARD_S_SUCCESS" "h = h0"
        and u: "upd_rstate i (\<lambda>s. s\<lparr>readerSharing := dwContexts (rctx (upd_rctx i (\<lambda>_. r) w2) i)\<rparr>) (upd_rctx i (\<lambda>_. r) w2) = Some w'"
        by (auto simp: connect_share_def Let_def bind_eq_Some_conv simp flip: w2_def)
      have "rctx w' i = r" using upd_rstate_frame(6) [OF u] l2 by simp
      moreover have "touches i w w'"
        using tt same_tables_touches [OF same_tables_upd_rstate [OF u], of i] by (auto intro: touches_trans)
      ultimately show thesis using h h0 part add r2 True False r1 by (intro ok) auto
    next
      case no: False
      from add_handle_full [OF add no] have full': "r = rctx w2 i" "connected (rctx w2 i) = length (psHandles (rctx w2 i))" by auto
      from assms(1) c False no add have h: "rv = SCARD_F_INTERNAL_ERROR" "h = 0"
        and w': "w' = upd_rctx i (\<lambda>r. if dwContexts r = SCARD_EXCLUSIVE_CONTEXT then r\<lparr>dwContexts := SCARD_NO_CONTEXT\<rparr>
            else if dwContexts r > SCARD_NO_CONTEXT then r\<lparr>dwContexts := dwContexts r - 1\<rparr> else r) (upd_rctx i (\<lambda>_. r) w2)"
        by (auto simp: connect_share_def Let_def bind_eq_Some_conv simp flip: w2_def)
      have "length (psHandles (rctx w i)) = 16" "SCARD_EXCLUSIVE_CONTEXT \<le> dwContexts (rctx w i)"
        using assms(2,3) by (simp_all add: daemon_inv_def reader_inv_def)
      then show thesis
        using h w' full' r2 l2 tt False r1 by (intro full) (auto intro: touches_trans)
    qed
  qed
qed

lemma reader_inv_add:
  assumes "RFAddReaderHandle (counted m h r) h = (SCARD_S_SUCCESS, r')" and "h \<noteq> 0" and "identity_part h = slot_identity i"
    and "reader_inv i r" and "m = SCARD_SHARE_EXCLUSIVE \<Longrightarrow> dwContexts r = SCARD_NO_CONTEXT"
  shows "reader_inv i r'"
proof -
  let ?c = "counted m h r"
  have f: "dwIdentity r' = dwIdentity ?c" "vHandle r' = vHandle ?c" "stateRef r' = stateRef ?c" "dwContexts r' = dwContexts ?c"
    using RFAddReaderHandle_frame(1,4,5,6) [of ?c h] assms(1) by simp_all
  have c: "connected r' = Suc (connected r)" using add_handle(1) [OF assms(1,2)] by simp
  have "dwContexts r' \<le> int (connected r') \<and> SCARD_EXCLUSIVE_CONTEXT \<le> dwContexts r'"
    using f(4) c assms(4,5) by (auto simp: reader_inv_def counted_def)
  moreover have "identity_part k = slot_identity i" if "k \<in> hCard ` set (psHandles r')" "k \<noteq> 0" for k
    using subsetD [OF add_handle(3) [OF assms(1,2)] that(1)] that(2) assms(3,4) unfolding reader_inv_def by auto
  ultimately show ?thesis using assms(4) add_handle(4) [OF assms(1,2)] f unfolding reader_inv_def by simp
qed

lemma connect_share_inv:
  assumes "connect_share i m w = Some (rv, h, w')" and "daemon_inv w" and "i < 16"
    and "dwIdentity (rctx w i) = slot_identity i"
  shows "touches i w w' \<and> reader_inv i (rctx w' i)
    \<and> (share_ok (rctx w i) \<longrightarrow> dwContexts (rctx w i) \<noteq> SCARD_EXCLUSIVE_CONTEXT \<longrightarrow> share_ok (rctx w' i))"
proof -
  have inv: "reader_inv i (rctx w i)" using assms(2,3) by (simp add: daemon_inv_def)
  from assms show ?thesis
  proof (cases rule: connect_share_cases)
    case exclusive
    with inv show ?thesis by simp
  next
    case full
    have "connected (rctx w' i) = 16"
      using full connected_cong by metis
    moreover from this have "reader_inv i (rctx w' i)" using inv full by (auto simp: reader_inv_def)
    ultimately show ?thesis using full by (cases "m = SCARD_SHARE_EXCLUSIVE") (auto simp: share_ok_def)
  next
    case ok
    have c: "connected (rctx w' i) = Suc (connected (rctx w i))"
      using add_handle(1) [OF ok(5,2)] by simp
    have d: "dwContexts (rctx w' i) = dwContexts (counted m h (rctx w i))"
      using ok(5) by (metis RFAddReaderHandle_frame(1) snd_conv)
    have "reader_inv i (rctx w' i)"
      by (rule reader_inv_add [OF ok(5,2,3) inv ok(6)])
    with c d ok show ?thesis by (auto simp: share_ok_def)
  qed
qed

text \<open>The steps of a connect that got past the checks.\<close>

lemma connect_finish_inv:
  assumes "connect_finish i m p act w = Some (rv, h, act', w')" and "daemon_inv w" and "i < 16"
    and "dwIdentity (rctx w i) = slot_identity i"
  shows "daemon_inv w' \<and> touches i w w'
    \<and> (share_ok (rctx w i) \<longrightarrow> dwContexts (rctx w i) \<noteq> SCARD_EXCLUSIVE_CONTEXT \<longrightarrow> share_ok (rctx w' i))"
proof -
  have "w' = w \<or> (\<exists>rv1 w1. select_protocol i m p w = Some (rv1, w1)
      \<and> (w' = w1 \<or> connect_share i m w1 = Some (rv, h, w')))"
    using assms(1) by (auto simp: connect_finish_def Let_def bind_eq_Some_conv split: option.splits if_splits)
  then consider "w' = w" | rv1 w1 where "select_protocol i m p w = Some (rv1, w1)" "w' = w1"
    | rv1 w1 where "select_protocol i m p w = Some (rv1, w1)" "connect_share i m w1 = Some (rv, h, w')" by blast
  then show ?thesis
  proof cases
    case 1
    with assms show ?thesis by simp
  next
    case 2
    note t = same_tables_select_protocol [OF 2(1)]
    from t assms(2,3) 2 show ?thesis
      using same_tables_touches [OF t, of i] same_tables_rctx [OF t]
      by (simp add: daemon_inv_def same_tables_def)
  next
    case 3
    note t = same_tables_select_protocol [OF 3(1)]
    have r: "rctx w1 = rctx w" by (rule same_tables_rctx [OF t])
    have inv1: "daemon_inv w1" using assms(2) r t by (simp add: daemon_inv_def same_tables_def)
    note c = connect_share_inv [OF 3(2) inv1 assms(3), unfolded r, OF assms(4)]
    show ?thesis
      using c same_tables_touches [OF t, of i] daemon_inv_touches [OF inv1] by (auto intro: touches_trans)
  qed
qed

lemma connect_enter_Inr:
  assumes "connect_enter nm out m p w = Inr i" and "daemon_inv w"
  shows "i < 16 \<and> vHandle (rctx w i) \<noteq> 0 \<and> dwIdentity (rctx w i) = slot_identity i
    \<and> dwContexts (rctx w i) \<noteq> SCARD_EXCLUSIVE_CONTEXT \<and> (\<exists>s. rstate w i = Some s)"
proof -
  have "RFReaderInfo w nm = Inr i" and c: "dwContexts (rctx w i) \<noteq> SCARD_EXCLUSIVE_CONTEXT"
    and s: "RFCheckReaderStatus w i = SCARD_S_SUCCESS"
    using assms(1) by (auto simp: connect_enter_def Let_def split: if_splits sum.splits)
  from RFReaderInfo_Inr [OF this(1)] assms(2) have "i < 16" "vHandle (rctx w i) \<noteq> 0"
    by (simp_all add: daemon_inv_def)
  moreover from this assms(2) have "dwIdentity (rctx w i) = slot_identity i"
    by (auto simp: daemon_inv_def reader_inv_def)
  moreover have "\<exists>s. rstate w i = Some s" using s by (auto simp: RFCheckReaderStatus_def split: option.splits)
  ultimately show ?thesis using c by simp
qed

lemma SCardConnect_inv:
  assumes "SCardConnect nm out m p act w = Some (rv, h, act', w')" and "daemon_inv w"
  shows "daemon_inv w' \<and> (sharing_inv w \<longrightarrow> sharing_inv w')"
proof (cases "connect_enter nm out m p w")
  case (Inl e)
  with assms show ?thesis by (simp add: SCardConnect_def)
next
  case (Inr i)
  with assms(1) have f: "connect_finish i m p act w = Some (rv, h, act', w')"
    by (auto simp: SCardConnect_def split: if_splits)
  from connect_enter_Inr [OF Inr assms(2)] have i: "i < 16" "dwIdentity (rctx w i) = slot_identity i"
    "dwContexts (rctx w i) \<noteq> SCARD_EXCLUSIVE_CONTEXT" by auto
  note c = connect_finish_inv [OF f assms(2) i(1,2)]
  from c i have "sharing_inv w \<Longrightarrow> share_ok (rctx w' i)" by (auto simp: sharing_inv_def)
  with c show ?thesis using sharing_inv_touches by blast
qed

subsection \<open>Disconnecting\<close>

lemma remove_handle:
  assumes "h \<in> hCard ` set (psHandles r)" and "h \<noteq> 0"
  defines "r' \<equiv> snd (RFRemoveReaderHandle r h)"
  shows "Suc (connected r') = connected r" and "hCard ` set (psHandles r') \<subseteq> insert 0 (hCard ` set (psHandles r))"
    and "length (psHandles r') = length (psHandles r)"
proof -
  from assms(1) obtain c where "c \<in> set (psHandles r)" "hCard c = h" by auto
  then obtain j where j: "first_index (\<lambda>c. hCard c = h) (psHandles r) = Some j"
    using first_index_ex by fastforce
  then have r': "r' = r\<lparr>psHandles := (psHandles r)[j := \<lparr>hCard = 0, dwEventStatus = 0\<rparr>]\<rparr>"
    by (simp add: r'_def RFRemoveReaderHandle_def)
  have jl: "j < length (psHandles r)" "hCard (psHandles r ! j) = h" using first_index_SomeD [OF j] by auto
  have "int (connected r') = int (connected r) - 1"
    using count_if_update [OF jl(1), of "\<lambda>c. hCard c \<noteq> 0"] jl(2) assms(2) by (simp add: connected_def r')
  then show "Suc (connected r') = connected r" by linarith
  show "hCard ` set (psHandles r') \<subseteq> insert 0 (hCard ` set (psHandles r))"
    using set_update_subset_insert [of "psHandles r" j] by (force simp: r')
  show "length (psHandles r') = length (psHandles r)" by (simp add: r')
qed

lemma drop_connection_fields [simp]:
  "psHandles (drop_connection r) = psHandles r" "dwIdentity (drop_connection r) = dwIdentity r"
  "vHandle (drop_connection r) = vHandle r" "stateRef (drop_connection r) = stateRef r"
  "dwLockId (drop_connection r) = dwLockId r" "LockCount (drop_connection r) = LockCount r"
  "connected (drop_connection r) = connected r" "psFunctions (drop_connection r) = psFunctions r"
  "dwVersion (drop_connection r) = dwVersion r" "lpcReader (drop_connection r) = lpcReader r"
  by (simp_all add: drop_connection_def connected_def)

lemma disconnected_reader:
  assumes "h \<in> hCard ` set (psHandles r)" and "h \<noteq> 0"
  shows "reader_inv i r \<Longrightarrow> reader_inv i (drop_connection (snd (RFRemoveReaderHandle r h)))"
    and "share_ok r \<Longrightarrow> share_ok (drop_connection (snd (RFRemoveReaderHandle r h)))"
proof -
  note r = remove_handle [OF assms]
  show "reader_inv i (drop_connection (snd (RFRemoveReaderHandle r h)))" if inv: "reader_inv i r"
  proof -
    let ?r = "snd (RFRemoveReaderHandle r h)"
    have "SCARD_EXCLUSIVE_CONTEXT \<le> dwContexts (drop_connection ?r) \<and> dwContexts (drop_connection ?r) \<le> int (connected ?r)"
      using inv r(1) by (auto simp: reader_inv_def drop_connection_def)
    with inv r(2,3) show ?thesis by (auto simp: reader_inv_def dest: subsetD)
  qed
  show "share_ok (drop_connection (snd (RFRemoveReaderHandle r h)))" if "share_ok r"
    using that r(1) by (auto simp: share_ok_def drop_connection_def connected_def)
qed

text \<open>What a successful disconnect does to its reader.\<close>

lemma disconnect_finish_cases:
  assumes "disconnect_finish i h d w = Some (rv, w')" and "i < length (sReadersContexts w)"
    and "RFReaderInfoById w h = Inr i"
  obtains (refused) "w' = w" "rv = SCARD_E_NO_SMARTCARD \<or> rv = SCARD_E_SHARING_VIOLATION"
    | (finished) r where "rv = SCARD_S_SUCCESS" "touches i w w'" "dwLockId (rctx w i) = 0 \<or> dwLockId (rctx w i) = h"
        "r = (rctx w i)\<lparr>LockCount := 0, dwLockId := 0\<rparr> \<or>
         r = RFSetReaderEventState ((rctx w i)\<lparr>LockCount := 0, dwLockId := 0\<rparr>) SCARD_RESET"
        "d = SCARD_RESET_CARD \<or> d = SCARD_UNPOWER_CARD \<Longrightarrow>
           r = RFSetReaderEventState ((rctx w i)\<lparr>LockCount := 0, dwLockId := 0\<rparr>) SCARD_RESET"
        "rctx w' i = drop_connection (snd (RFRemoveReaderHandle r h))"
proof (cases "stateRef (rctx w i) = None \<or> \<not> (dwLockId (rctx w i) = 0 \<or> dwLockId (rctx w i) = h)")
  case True
  with assms(1) have "w' = w" "rv = SCARD_E_NO_SMARTCARD \<or> rv = SCARD_E_SHARING_VIOLATION"
    by (auto simp: disconnect_finish_def RFUnlockAllSharing_eq [OF assms(3)] split: if_splits)
  then show thesis by (rule refused)
next
  case False
  define w1 where "w1 = upd_rctx i (\<lambda>r. r\<lparr>LockCount := 0, dwLockId := 0\<rparr>) w"
  have unlock: "RFUnlockAllSharing h w = (SCARD_S_SUCCESS, w1)"
    using False by (simp add: RFUnlockAllSharing_eq [OF assms(3)] w1_def)
  have r1: "rctx w1 i = (rctx w i)\<lparr>LockCount := 0, dwLockId := 0\<rparr>" and l1: "i < length (sReadersContexts w1)"
    using assms(2) by (simp_all add: w1_def)
  from assms(1) False unlock obtain w2 where rv: "rv = SCARD_S_SUCCESS"
    and mid: "(if d = SCARD_RESET_CARD \<or> d = SCARD_UNPOWER_CARD then map_option snd (reset_card i d w1)
          else if d = SCARD_EJECT_CARD then map_option snd (eject_card i w1) else Some w1) = Some w2"
    and u: "upd_rstate i (\<lambda>s. s\<lparr>readerSharing := dwContexts (rctx (upd_rctx i (\<lambda>r. drop_connection (snd (RFRemoveReaderHandle r h))) w2) i)\<rparr>)
          (upd_rctx i (\<lambda>r. drop_connection (snd (RFRemoveReaderHandle r h))) w2) = Some w'"
    by (auto simp: disconnect_finish_def Let_def bind_eq_Some_conv)
  have t2: "touches i w1 w2"
    and r2: "rctx w2 i = rctx w1 i \<and> \<not> (d = SCARD_RESET_CARD \<or> d = SCARD_UNPOWER_CARD)
        \<or> rctx w2 i = RFSetReaderEventState (rctx w1 i) SCARD_RESET"
    using mid l1 reset_card_rctx same_tables_eject_card same_tables_touches same_tables_rctx
    by (fastforce split: if_splits)+
  have "rctx w' i = drop_connection (snd (RFRemoveReaderHandle (rctx w2 i) h))"
    using upd_rstate_frame(6) [OF u] l1 touches_len [OF t2] by simp
  moreover have "touches i w w'"
    using t2 same_tables_touches [OF same_tables_upd_rstate [OF u], of i] by (auto simp: w1_def intro: touches_trans)
  ultimately show thesis
    using rv r1 r2 False by (intro finished [of "rctx w2 i"]) auto
qed

lemma disconnect_finish_inv:
  assumes "disconnect_finish i h d w = Some (rv, w')" and "daemon_inv w" and "i < 16"
    and "RFReaderInfoById w h = Inr i" and "h \<in> hCard ` set (psHandles (rctx w i))" and "h \<noteq> 0"
  shows "daemon_inv w' \<and> touches i w w' \<and> (share_ok (rctx w i) \<longrightarrow> share_ok (rctx w' i))"
proof -
  have len: "i < length (sReadersContexts w)" using assms(2,3) by (simp add: daemon_inv_def)
  from assms(1) len assms(4) show ?thesis
  proof (cases rule: disconnect_finish_cases)
    case refused
    with assms(2) show ?thesis by simp
  next
    case (finished r)
    have m: "map hCard (psHandles r) = map hCard (psHandles (rctx w i))"
      and f: "dwIdentity r = dwIdentity (rctx w i)" "vHandle r = vHandle (rctx w i)" "dwContexts r = dwContexts (rctx w i)"
        "stateRef r = stateRef (rctx w i)"
      using finished(4) by auto
    have h: "h \<in> hCard ` set (psHandles r)" using assms(5) hCard_set_eq [OF m] by simp
    have "reader_inv i r"
      using reader_inv_cong [OF m f(1,2,4,3)] assms(2,3) by (simp add: daemon_inv_def)
    then have "reader_inv i (rctx w' i)" using disconnected_reader(1) [OF h assms(6)] finished(6) by simp
    moreover have "share_ok (rctx w i) \<Longrightarrow> share_ok (rctx w' i)"
      using disconnected_reader(2) [OF h assms(6)] share_ok_cong [OF m f(3)] finished(6) by simp
    ultimately show ?thesis using finished(2) daemon_inv_touches [OF assms(2)] by blast
  qed
qed

lemma disconnect_enter_Inr:
  assumes "disconnect_enter h d w = Inr i" and "daemon_inv w"
  shows "i < 16 \<and> RFReaderInfoById w h = Inr i \<and> h \<noteq> 0 \<and> h \<in> hCard ` set (psHandles (rctx w i))"
proof -
  have "RFReaderInfoById w h = Inr i" "RFFindReaderHandle w h = SCARD_S_SUCCESS" "h \<noteq> 0"
    using assms(1) by (auto simp: disconnect_enter_def split: if_splits sum.splits)
  then show ?thesis using handle_reader [OF assms(2)] by blast
qed

lemma SCardDisconnect_inv:
  assumes "SCardDisconnect h d w = Some (rv, w')" and "daemon_inv w"
  shows "daemon_inv w' \<and> (sharing_inv w \<longrightarrow> sharing_inv w')"
proof (cases "disconnect_enter h d w")
  case (Inl e)
  with assms show ?thesis by (simp add: SCardDisconnect_def)
next
  case (Inr i)
  with assms(1) have f: "disconnect_finish i h d w = Some (rv, w')"
    by (auto simp: SCardDisconnect_def split: if_splits)
  from disconnect_enter_Inr [OF Inr assms(2)]
  have i: "i < 16" "RFReaderInfoById w h = Inr i" "h \<in> hCard ` set (psHandles (rctx w i))" "h \<noteq> 0" by auto
  note c = disconnect_finish_inv [OF f assms(2) i]
  from c i(1) have "sharing_inv w \<Longrightarrow> share_ok (rctx w' i)" by (auto simp: sharing_inv_def)
  with c show ?thesis using sharing_inv_touches by blast
qed

subsection \<open>Reconnecting\<close>

lemma reconnect_enter_Inr:
  assumes "reconnect_enter h m p d out w = Inr i" and "daemon_inv w"
  shows "i < 16 \<and> RFReaderInfoById w h = Inr i \<and> h \<noteq> 0 \<and> h \<in> hCard ` set (psHandles (rctx w i))"
proof -
  have "RFReaderInfoById w h = Inr i" "RFFindReaderHandle w h = SCARD_S_SUCCESS" "h \<noteq> 0"
    using assms(1) by (auto simp: reconnect_enter_def split: if_splits sum.splits)
  then show ?thesis using handle_reader [OF assms(2)] by blast
qed

lemma reconnect_reset_rctx:
  assumes "reconnect_reset i h d w = Some (early, w')" and "i < length (sReadersContexts w)"
  shows "touches i w w' \<and> (rctx w' i = rctx w i \<or> rctx w' i = RFSetReaderEventState (rctx w i) SCARD_RESET)"
proof -
  from assms(1) obtain rv w1 where p: "reset_power i d w = Some (rv, w1)"
    by (auto simp: reconnect_reset_def bind_eq_Some_conv)
  have t1: "same_tables w w1" by (rule same_tables_reset_power [OF p])
  let ?u = "upd_rctx i (\<lambda>r. RFSetReaderEventState r SCARD_RESET) w1"
  have "w' = w1 \<or> (\<exists>g. same_tables ?u w')"
    using assms(1) p same_tables_upd_rstate [of i _ ?u]
    by (auto simp: reconnect_reset_def bind_eq_Some_conv Let_def split: if_splits)
  then show ?thesis
    using same_tables_touches [OF t1, of i] same_tables_rctx [OF t1] t1 assms(2)
      same_tables_touches [of ?u w' i] same_tables_rctx [of ?u w'] touches_trans [of i w w1 w']
    by (auto simp: same_tables_def)
qed

lemma reconnect_share_inv:
  assumes "reconnect_share i h m w = (rv, w')" and "i < length (sReadersContexts w)" and "RFReaderInfoById w h = Inr i"
  shows "touches i w w' \<and> psHandles (rctx w' i) = psHandles (rctx w i) \<and> dwIdentity (rctx w' i) = dwIdentity (rctx w i)
    \<and> vHandle (rctx w' i) = vHandle (rctx w i) \<and> stateRef (rctx w' i) = stateRef (rctx w i)
    \<and> dwContexts (rctx w' i) \<in> {dwContexts (rctx w i), SCARD_EXCLUSIVE_CONTEXT, SCARD_LAST_CONTEXT}
    \<and> (share_ok (rctx w i) \<longrightarrow> share_ok (rctx w' i))"
proof -
  have find: "RFReaderInfoById (upd_rctx i (\<lambda>r. r\<lparr>dwContexts := SCARD_EXCLUSIVE_CONTEXT\<rparr>) w) h = Inr i"
    using assms(3) by simp
  show ?thesis
    using assms(1,2)
    by (auto simp: reconnect_share_def RFLockSharing_eq [OF find] RFUnlockSharing_eq [OF assms(3)]
        share_ok_def connected_def split: if_splits)
qed

text \<open>Everything before the sharing mode keeps the handles and the count of the reader.\<close>

definition same_clients :: "nat \<Rightarrow> 'd pcscd \<Rightarrow> 'd pcscd \<Rightarrow> bool" where
  "same_clients i w w' \<longleftrightarrow> touches i w w' \<and> map hCard (psHandles (rctx w' i)) = map hCard (psHandles (rctx w i))
     \<and> dwIdentity (rctx w' i) = dwIdentity (rctx w i) \<and> vHandle (rctx w' i) = vHandle (rctx w i)
     \<and> dwContexts (rctx w' i) = dwContexts (rctx w i) \<and> stateRef (rctx w' i) = stateRef (rctx w i)"

lemma same_clients_refl [simp]: "same_clients i w w"
  and same_clients_trans: "same_clients i u v \<Longrightarrow> same_clients i v w \<Longrightarrow> same_clients i u w"
  by (auto simp: same_clients_def intro: touches_trans)

lemma same_tables_clients: "same_tables w w' \<Longrightarrow> same_clients i w w'"
  by (simp add: same_clients_def same_tables_touches same_tables_rctx)

lemma same_clients_inv:
  assumes "same_clients i w w'" and "daemon_inv w" and "i < 16"
  shows "daemon_inv w' \<and> (sharing_inv w \<longrightarrow> sharing_inv w') \<and> share_ok (rctx w' i) = share_ok (rctx w i)"
proof -
  have t: "touches i w w'" using assms(1) by (simp add: same_clients_def)
  have "reader_inv i (rctx w' i)"
    using assms by (simp add: same_clients_def daemon_inv_def cong: reader_inv_cong)
  moreover have s: "share_ok (rctx w' i) = share_ok (rctx w i)"
    using assms(1) by (intro share_ok_cong) (simp_all add: same_clients_def)
  ultimately show ?thesis
    using t assms(2,3) daemon_inv_touches sharing_inv_touches by (metis sharing_inv_def)
qed

lemma RFReaderInfoById_clients: "same_clients i w w' \<Longrightarrow> RFReaderInfoById w' h = RFReaderInfoById w h"
proof (rule RFReaderInfoById_cong, rule nth_equalityI)
  assume s: "same_clients i w w'"
  then show "length (map dwIdentity (sReadersContexts w')) = length (map dwIdentity (sReadersContexts w))"
    by (simp add: same_clients_def touches_def)
  fix j assume "j < length (map dwIdentity (sReadersContexts w'))"
  with s show "map dwIdentity (sReadersContexts w') ! j = map dwIdentity (sReadersContexts w) ! j"
    by (cases "j = i") (simp_all add: same_clients_def touches_def rctx_def)
qed

lemma SCardReconnect_inv:
  assumes "SCardReconnect h m p d out act w = Some (rv, act', w')" and "daemon_inv w"
  shows "daemon_inv w' \<and> (sharing_inv w \<longrightarrow> sharing_inv w')"
proof (cases "reconnect_enter h m p d out w")
  case (Inl e)
  with assms show ?thesis by (simp add: SCardReconnect_def)
next
  case (Inr i)
  from reconnect_enter_Inr [OF Inr assms(2)] have i: "i < 16" and id: "RFReaderInfoById w h = Inr i"
    and h: "h \<noteq> 0" "h \<in> hCard ` set (psHandles (rctx w i))" by auto
  have len: "i < length (sReadersContexts w)" using assms(2) i by (simp add: daemon_inv_def)
  from assms(1) Inr obtain early w1 where e: "(if d = SCARD_RESET_CARD \<or> d = SCARD_UNPOWER_CARD
      then reconnect_reset i h d w else Some (None, w)) = Some (early, w1)"
    by (auto simp: SCardReconnect_def bind_eq_Some_conv)
  have s1: "same_clients i w w1"
    using e reconnect_reset_rctx [OF _ len] by (fastforce simp: same_clients_def split: if_splits)
  have "w' = w1 \<or> (\<exists>rv2 w2. select_protocol i m p w1 = Some (rv2, w2)
      \<and> (w' = w2 \<or> (\<exists>rv3 w3. reconnect_share i h m w2 = (rv3, w3)
          \<and> (w' = w3 \<or> (\<exists>f. upd_rstate i f (upd_rctx i (\<lambda>r. snd (RFClearReaderEventState r h)) w3) = Some w')))))"
  proof (cases early)
    case (Some x)
    with assms(1) Inr e show ?thesis by (simp add: SCardReconnect_def)
  next
    case None
    with assms(1) Inr e obtain rv2 w2 where sel: "select_protocol i m p w1 = Some (rv2, w2)"
      and rest: "(if rv2 \<noteq> SCARD_S_SUCCESS then Some (rv2, act, w2)
              else do {
                s \<leftarrow> rstate w2 i;
                let (rv2, w3) = reconnect_share i h m w2;
                if rv2 \<noteq> SCARD_S_SUCCESS then Some (rv2, cardProtocol s, w3)
                else do {
                  let w4 = upd_rctx i (\<lambda>r. snd (RFClearReaderEventState r h)) w3;
                  w5 \<leftarrow> upd_rstate i (\<lambda>s. s\<lparr>readerSharing := dwContexts (rctx w4 i)\<rparr>) w4;
                  Some (SCARD_S_SUCCESS, cardProtocol s, w5) } }) = Some (rv, act', w')"
      by (auto simp: SCardReconnect_def bind_eq_Some_conv)
    obtain rv3 w3 where sh: "reconnect_share i h m w2 = (rv3, w3)" by fastforce
    from rest sh have "w' = w2 \<or> w' = w3 \<or> (\<exists>f. upd_rstate i f (upd_rctx i (\<lambda>r. snd (RFClearReaderEventState r h)) w3) = Some w')"
      by (auto simp: bind_eq_Some_conv Let_def split: if_splits)
    with sel sh show ?thesis by blast
  qed
  then consider "w' = w1" | rv2 w2 where "select_protocol i m p w1 = Some (rv2, w2)" "w' = w2"
    | rv2 w2 rv3 w3 where "select_protocol i m p w1 = Some (rv2, w2)" "reconnect_share i h m w2 = (rv3, w3)"
        "w' = w3 \<or> (\<exists>f. upd_rstate i f (upd_rctx i (\<lambda>r. snd (RFClearReaderEventState r h)) w3) = Some w')"
    by blast
  then show ?thesis
  proof cases
    case 1
    with same_clients_inv [OF s1 assms(2) i] show ?thesis by simp
  next
    case 2
    have "same_clients i w w2"
      using s1 same_tables_clients [OF same_tables_select_protocol [OF 2(1)]] by (rule same_clients_trans)
    from same_clients_inv [OF this assms(2) i] 2 show ?thesis by simp
  next
    case 3
    have s2: "same_clients i w w2"
      using s1 same_tables_clients [OF same_tables_select_protocol [OF 3(1)]] by (rule same_clients_trans)
    note inv2 = same_clients_inv [OF s2 assms(2) i]
    have len2: "i < length (sReadersContexts w2)" using inv2 i by (simp add: daemon_inv_def)
    have id2: "RFReaderInfoById w2 h = Inr i" using RFReaderInfoById_clients [OF s2] id by simp
    note r = reconnect_share_inv [OF 3(2) len2 id2]
    have len3: "i < length (sReadersContexts w3)" using r len2 by (simp add: touches_def)
    have "map hCard (psHandles (rctx w2 i)) = map hCard (psHandles (rctx w i))" using s2 by (simp add: same_clients_def)
    then have c: "0 < connected (rctx w i)" "connected (rctx w2 i) = connected (rctx w i)"
      using connected_pos [OF h(2,1)] connected_cong by blast+
    have "connected (rctx w3 i) = connected (rctx w2 i)" using r by (simp add: connected_def)
    moreover have "reader_inv i (rctx w2 i)" using inv2 i by (simp add: daemon_inv_def)
    ultimately have inv3: "reader_inv i (rctx w3 i)" using r c by (auto simp: reader_inv_def)
    have d3: "daemon_inv w3" using daemon_inv_touches [of w2 i w3] inv2 r inv3 by blast
    have sh3: "sharing_inv w \<longrightarrow> sharing_inv w3"
      using sharing_inv_touches [of w2 i w3] inv2 r i by (auto simp: sharing_inv_def)
    have s4: "same_clients i w3 w'"
      using 3(3)
    proof
      assume "\<exists>f. upd_rstate i f (upd_rctx i (\<lambda>r. snd (RFClearReaderEventState r h)) w3) = Some w'"
      then obtain f where u: "upd_rstate i f (upd_rctx i (\<lambda>r. snd (RFClearReaderEventState r h)) w3) = Some w'" ..
      have "same_clients i w3 (upd_rctx i (\<lambda>r. snd (RFClearReaderEventState r h)) w3)"
        using len3 by (simp add: same_clients_def)
      then show ?thesis using same_tables_clients [OF same_tables_upd_rstate [OF u]] by (rule same_clients_trans)
    qed simp
    from same_clients_inv [OF s4 d3 i] sh3 show ?thesis by simp
  qed
qed

subsection \<open>Transactions keep the clients\<close>

lemma unlock_clients:
  "i < length (sReadersContexts w) \<Longrightarrow> same_clients i w (upd_rctx i unlock_once w)"
  "i < length (sReadersContexts w) \<Longrightarrow>
     same_clients i w (upd_rctx i (\<lambda>r. r\<lparr>LockCount := LockCount r + 1, dwLockId := h\<rparr>) w)"
  by (simp_all add: same_clients_def)

lemma RFReaderInfoById_len: "RFReaderInfoById w h = Inr i \<Longrightarrow> i < length (sReadersContexts w)"
  using RFReaderInfoById_Inr by blast

lemma begin_clients: "SCardBeginTransaction h w = (rv, w') \<Longrightarrow> \<exists>i. (i < length (sReadersContexts w) \<or> w' = w) \<and> same_clients i w w'"
  by (auto simp: SCardBeginTransaction_def RFLockSharing_eq split: if_splits sum.splits
      dest!: RFReaderInfoById_len intro: unlock_clients)

lemma cancel_clients: "SCardCancelTransaction h w = (rv, w') \<Longrightarrow> \<exists>i. (i < length (sReadersContexts w) \<or> w' = w) \<and> same_clients i w w'"
  by (auto simp: SCardCancelTransaction_def RFUnlockSharing_eq split: if_splits sum.splits
      dest!: RFReaderInfoById_len intro: unlock_clients)

lemma end_clients:
  assumes "SCardEndTransaction h d w = Some (rv, w')"
  shows "\<exists>i. (i < length (sReadersContexts w) \<or> w' = w) \<and> same_clients i w w'"
proof (cases "w' = w")
  case False
  with assms obtain i w1 rv1 where id: "RFReaderInfoById w h = Inr i"
    and m: "(if d = SCARD_RESET_CARD \<or> d = SCARD_UNPOWER_CARD then reset_card i d w
        else if d = SCARD_EJECT_CARD then eject_card i w else Some (SCARD_S_SUCCESS, w)) = Some (rv1, w1)"
    and w': "w' = snd (RFUnlockSharing h w1)"
    by (auto simp: SCardEndTransaction_def bind_eq_Some_conv split: if_splits sum.splits)
  have len: "i < length (sReadersContexts w)" by (rule RFReaderInfoById_len [OF id])
  have s1: "same_clients i w w1"
    using m reset_card_rctx [OF _ len] same_tables_clients same_tables_eject_card
    by (fastforce simp: same_clients_def split: if_splits)
  have id1: "RFReaderInfoById w1 h = Inr i" using RFReaderInfoById_clients [OF s1] id by simp
  have "same_clients i w1 w'"
    using w' unlock_clients(1) [OF RFReaderInfoById_len [OF id1]] by (simp add: RFUnlockSharing_eq [OF id1])
  with s1 len show ?thesis by (blast intro: same_clients_trans)
qed auto

lemma clients_inv:
  assumes "\<exists>i. (i < length (sReadersContexts w) \<or> w' = w) \<and> same_clients i w w'" and "daemon_inv w"
  shows "daemon_inv w' \<and> (sharing_inv w \<longrightarrow> sharing_inv w')"
proof (cases "w' = w")
  case False
  with assms obtain i where "i < 16" "same_clients i w w'" by (auto simp: daemon_inv_def)
  with same_clients_inv [OF _ assms(2)] show ?thesis by blast
qed (use assms in simp)

end
