(* ===== verification/Reader_Admin.thy ===== *)
theory Reader_Admin
  imports Winscard C_Strings
begin

section \<open>Adding and removing readers (PCSC/src/readerfactory.c)\<close>

text \<open>
  The part of readerfactory.c that changes which readers exist: reader names, loading of drivers,
  \<^verbatim>\<open>RFAddReader\<close> with its slots, \<^verbatim>\<open>RFRemoveReader\<close>, and the operations on all readers.
  What lies outside the sources is the record \<open>'d system\<close>, an argument of the operations: what \<^verbatim>\<open>dlopen\<close>
  returns (0 for NULL), the symbols a library exports, the results of \<^verbatim>\<open>SYS_ThreadCreate\<close>, what the polling
  thread of a reader still does until \<^verbatim>\<open>SYS_ThreadJoin\<close> returns, and the function at an address.
  The counters \<^verbatim>\<open>pdwFeeds\<close> and \<^verbatim>\<open>pdwMutex\<close> point to cells that readers share; a \<^verbatim>\<open>malloc\<close>
  takes the next unused address and does not fail (the code does not check it).
\<close>

subsection \<open>The environment\<close>

text \<open>The symbols of a driver. \<^verbatim>\<open>IFDHControl\<close> is one symbol that versions 2.0 and 3.0 call with different
  arguments.\<close>

record 'd exports =
  IO_Create_Channel :: "(DWORD \<Rightarrow> 'd \<Rightarrow> LONG \<times> 'd) option"
  IO_Close_Channel :: "('d \<Rightarrow> LONG \<times> 'd) option"
  IFD_Get_Capabilities :: "(DWORD \<Rightarrow> UCHAR list \<Rightarrow> 'd \<Rightarrow> LONG \<times> UCHAR list \<times> 'd) option"
  IFD_Set_Capabilities :: "(DWORD \<Rightarrow> UCHAR list \<Rightarrow> 'd \<Rightarrow> LONG \<times> 'd) option"
  IFD_Set_Protocol_Parameters :: "(DWORD \<Rightarrow> UCHAR \<Rightarrow> UCHAR \<Rightarrow> UCHAR \<Rightarrow> UCHAR \<Rightarrow> 'd \<Rightarrow> LONG \<times> 'd) option"
  IFD_Power_ICC :: "(DWORD \<Rightarrow> 'd \<Rightarrow> LONG \<times> 'd) option"
  IFD_Transmit_to_ICC :: "(SCARD_IO_HEADER \<Rightarrow> UCHAR list \<Rightarrow> UCHAR list \<Rightarrow> DWORD \<Rightarrow> SCARD_IO_HEADER \<Rightarrow> 'd
     \<Rightarrow> LONG \<times> UCHAR list \<times> DWORD \<times> SCARD_IO_HEADER \<times> 'd) option"
  IFD_Is_ICC_Present :: "('d \<Rightarrow> LONG \<times> 'd) option"
  IFDHCreateChannel :: "(DWORD \<Rightarrow> DWORD \<Rightarrow> 'd \<Rightarrow> LONG \<times> 'd) option"
  IFDHCloseChannel :: "(DWORD \<Rightarrow> 'd \<Rightarrow> LONG \<times> 'd) option"
  IFDHGetCapabilities :: "(DWORD \<Rightarrow> DWORD \<Rightarrow> DWORD \<Rightarrow> UCHAR list \<Rightarrow> 'd \<Rightarrow> LONG \<times> DWORD \<times> UCHAR list \<times> 'd) option"
  IFDHSetCapabilities :: "(DWORD \<Rightarrow> DWORD \<Rightarrow> DWORD \<Rightarrow> UCHAR list \<Rightarrow> 'd \<Rightarrow> LONG \<times> 'd) option"
  IFDHSetProtocolParameters :: "(DWORD \<Rightarrow> DWORD \<Rightarrow> UCHAR \<Rightarrow> UCHAR \<Rightarrow> UCHAR \<Rightarrow> UCHAR \<Rightarrow> 'd \<Rightarrow> LONG \<times> 'd) option"
  IFDHPowerICC :: "(DWORD \<Rightarrow> DWORD \<Rightarrow> UCHAR list \<Rightarrow> DWORD \<Rightarrow> 'd \<Rightarrow> LONG \<times> UCHAR list \<times> DWORD \<times> 'd) option"
  IFDHTransmitToICC :: "(DWORD \<Rightarrow> SCARD_IO_HEADER \<Rightarrow> UCHAR list \<Rightarrow> UCHAR list \<Rightarrow> DWORD \<Rightarrow> SCARD_IO_HEADER \<Rightarrow> 'd
     \<Rightarrow> LONG \<times> UCHAR list \<times> DWORD \<times> SCARD_IO_HEADER \<times> 'd) option"
  IFDHICCPresence :: "(DWORD \<Rightarrow> 'd \<Rightarrow> LONG \<times> 'd) option"
  IFDHControl :: "('d control_v2 \<times> 'd control_v3) option"
  IFDHCreateChannelByName :: "'d create_by_name option"

record 'd system =
  dlopen :: "string \<Rightarrow> nat"
  dlsym :: "nat \<Rightarrow> 'd exports"
  thread_create :: "nat \<Rightarrow> int \<times> nat"
  thread_join :: "nat \<Rightarrow> bool \<Rightarrow> 'd pcscd \<Rightarrow> 'd pcscd option"
  function_at :: "UCHAR list \<Rightarrow> (DWORD \<Rightarrow> 'd \<Rightarrow> LONG \<times> 'd) option"

subsection \<open>Loading and binding drivers\<close>

definition RFLoadReader :: "'d system \<Rightarrow> nat \<Rightarrow> 'd pcscd \<Rightarrow> LONG \<times> 'd pcscd" where
  "RFLoadReader sys i w =
     (if vHandle (rctx w i) \<noteq> 0 then (SCARD_S_SUCCESS, w)
      else let lib = dlopen sys (lpcLibrary (rctx w i))
           in (if lib = 0 then SCARD_F_UNKNOWN_ERROR else SCARD_S_SUCCESS, upd_rctx i (\<lambda>r. r\<lparr>vHandle := lib\<rparr>) w))"

text \<open>The tables of addresses; a missing mandatory symbol ends the daemon (\<open>None\<close>).\<close>

definition bind_v1 :: "'d exports \<Rightarrow> 'd FCT_MAP_V1 option" where
  "bind_v1 x =
     do { create \<leftarrow> IO_Create_Channel x; close \<leftarrow> IO_Close_Channel x;
          get \<leftarrow> IFD_Get_Capabilities x; set \<leftarrow> IFD_Set_Capabilities x; power \<leftarrow> IFD_Power_ICC x;
          transmit \<leftarrow> IFD_Transmit_to_ICC x; presence \<leftarrow> IFD_Is_ICC_Present x;
          Some \<lparr>v1_CreateChannel = create, v1_CloseChannel = close, v1_GetCapabilities = get, v1_SetCapabilities = set,
            v1_SetProtocolParameters = IFD_Set_Protocol_Parameters x, v1_PowerICC = power,
            v1_TransmitToICC = transmit, v1_ICCPresence = presence\<rparr> }"

definition bind_v2 :: "'d exports \<Rightarrow> 'd FCT_MAP_V2 option" where
  "bind_v2 x =
     do { create \<leftarrow> IFDHCreateChannel x; close \<leftarrow> IFDHCloseChannel x;
          get \<leftarrow> IFDHGetCapabilities x; set \<leftarrow> IFDHSetCapabilities x; power \<leftarrow> IFDHPowerICC x;
          transmit \<leftarrow> IFDHTransmitToICC x; presence \<leftarrow> IFDHICCPresence x;
          Some \<lparr>v2_CreateChannel = create, v2_CloseChannel = close, v2_GetCapabilities = get, v2_SetCapabilities = set,
            v2_SetProtocolParameters = IFDHSetProtocolParameters x, v2_PowerICC = power,
            v2_TransmitToICC = transmit, v2_ICCPresence = presence\<rparr> }"

definition driver_version :: "'d exports \<Rightarrow> DWORD option" where
  "driver_version x =
     (if IO_Create_Channel x = None \<and> IFDHCreateChannel x = None \<and> IFDHCreateChannelByName x = None then None
      else if IO_Create_Channel x \<noteq> None then Some IFD_HVERSION_1_0
      else if IFDHCreateChannelByName x \<noteq> None then Some IFD_HVERSION_3_0
      else Some IFD_HVERSION_2_0)"

definition RFBindFunctions :: "'d system \<Rightarrow> nat \<Rightarrow> 'd pcscd \<Rightarrow> (LONG \<times> 'd pcscd) option" where
  "RFBindFunctions sys i w =
     do { let x = dlsym sys (vHandle (rctx w i));
          version \<leftarrow> driver_version x;
          table \<leftarrow>
            (if version = IFD_HVERSION_1_0 then map_option FCT_V1 (bind_v1 x)
             else if version = IFD_HVERSION_2_0
             then do { f \<leftarrow> bind_v2 x; (control, _) \<leftarrow> IFDHControl x; Some (FCT_V2 f control) }
             else do { f \<leftarrow> bind_v2 x; by_name \<leftarrow> IFDHCreateChannelByName x; (_, control) \<leftarrow> IFDHControl x;
                       Some (FCT_V3 f control by_name) });
          Some (SCARD_S_SUCCESS, upd_rctx i (\<lambda>r. r\<lparr>dwVersion := version, psFunctions := table\<rparr>) w) }"

definition RFUnBindFunctions :: "nat \<Rightarrow> 'd pcscd \<Rightarrow> LONG \<times> 'd pcscd" where
  "RFUnBindFunctions i w = (SCARD_S_SUCCESS, upd_rctx i (\<lambda>r. r\<lparr>psFunctions := FCT_NULL\<rparr>) w)"

definition RFUnloadReader :: "nat \<Rightarrow> 'd pcscd \<Rightarrow> (LONG \<times> 'd pcscd) option" where
  "RFUnloadReader i w =
     do { feeds \<leftarrow> pdwFeeds (rctx w i);
          let w1 = (if cells w feeds = 1 then w\<lparr>dl_closed := dl_closed w @ [vHandle (rctx w i)]\<rparr> else w);
          Some (SCARD_S_SUCCESS, upd_rctx i (\<lambda>r. r\<lparr>vHandle := 0\<rparr>) w1) }"

definition RFInitializeReader :: "'d system \<Rightarrow> nat \<Rightarrow> 'd pcscd \<Rightarrow> (LONG \<times> 'd pcscd) option" where
  "RFInitializeReader sys i w =
     (let (rv, w1) = RFLoadReader sys i w in
      if rv \<noteq> SCARD_S_SUCCESS then Some (rv, w1)
      else do {
        (rv2, w2) \<leftarrow> RFBindFunctions sys i w1;
        if rv2 \<noteq> SCARD_S_SUCCESS then do { (_, w3) \<leftarrow> RFUnloadReader i w2; Some (rv2, w3) }
        else do {
          (rv3, h) \<leftarrow> IFDOpenIFD (rctx w2 i) (machine w2);
          let w3 = with_machine w2 h;
          if rv3 \<noteq> IFD_SUCCESS
          then do { (_, w4) \<leftarrow> RFUnloadReader i (snd (RFUnBindFunctions i w3));
                    Some (if rv3 = IFD_NO_SUCH_DEVICE then SCARD_E_UNKNOWN_READER else SCARD_E_INVALID_TARGET, w4) }
          else Some (SCARD_S_SUCCESS, w3) } })"

definition RFUnInitializeReader :: "nat \<Rightarrow> 'd pcscd \<Rightarrow> (LONG \<times> 'd pcscd) option" where
  "RFUnInitializeReader i w =
     do { (_, h) \<leftarrow> IFDCloseIFD (rctx w i) (machine w);
          (_, w1) \<leftarrow> RFUnloadReader i (snd (RFUnBindFunctions i (with_machine w h)));
          Some (SCARD_S_SUCCESS, w1) }"

subsection \<open>Reader names\<close>

text \<open>The conversion \<^verbatim>\<open>%02X\<close> of \<^verbatim>\<open>printf\<close>.\<close>

fun hex_digits :: "nat \<Rightarrow> string" where
  "hex_digits n = (if n < 16 then [''0123456789ABCDEF'' ! n] else hex_digits (n div 16) @ [''0123456789ABCDEF'' ! (n mod 16)])"

declare hex_digits.simps [simp del]

definition fmt02X :: "nat \<Rightarrow> string" where
  "fmt02X n = (if n < 16 then CHR ''0'' # hex_digits n else hex_digits n)"

text \<open>A capability of one byte.\<close>

definition get_capability :: "nat \<Rightarrow> DWORD \<Rightarrow> 'd pcscd \<Rightarrow> (LONG \<times> DWORD \<times> UCHAR \<times> 'd pcscd) option" where
  "get_capability i tag w =
     do { (rv, len, val, h) \<leftarrow> IFDGetCapabilities (rctx w i) tag 1 (uninit 1 w) (machine w);
          Some (rv, len, val ! 0, with_machine w h) }"

text \<open>The locals \<^verbatim>\<open>parent\<close>, \<^verbatim>\<open>currentDigit\<close>, \<^verbatim>\<open>supportedChannels\<close> and \<^verbatim>\<open>usedDigits\<close> of \<^verbatim>\<open>RFSetReaderName\<close>.\<close>

record name_scan =
  scan_parent :: int
  scan_digit :: int
  scan_channels :: int
  scan_used :: "bool list"

definition scan_start :: name_scan where
  "scan_start = \<lparr>scan_parent = -1, scan_digit = -1, scan_channels = 0,
     scan_used = replicate PCSCLITE_MAX_READERS_CONTEXTS False\<rparr>"

text \<open>One round of the loop over the readers; writing outside \<^verbatim>\<open>usedDigits\<close> is \<open>None\<close>.\<close>

definition scan_reader :: "string \<Rightarrow> DWORD \<Rightarrow> nat \<Rightarrow> name_scan \<Rightarrow> 'd pcscd \<Rightarrow> (name_scan \<times> 'd pcscd) option" where
  "scan_reader libraryName port i s w =
     (let r = rctx w i in
      if vHandle r \<noteq> 0 \<and> lpcLibrary r = libraryName
      then do {
        (ret, len, tagValue, w1) \<leftarrow> get_capability i TAG_IFD_SIMULTANEOUS_ACCESS w;
        let channels = (if ret = IFD_SUCCESS \<and> len = 1 \<and> tagValue > 1 then uint tagValue else 1);
        if dwPort r AND 0xFFFF0000 = PCSCLITE_HP_BASE_PORT \<and> dwPort r \<noteq> port \<or> channels > 1
        then let d = strtol16 (drop (length (lpcReader r) - 5) (lpcReader r)) in
             if 0 \<le> d \<and> d < int PCSCLITE_MAX_READERS_CONTEXTS
             then Some (s\<lparr>scan_parent := int i, scan_digit := d, scan_channels := channels,
                          scan_used := (scan_used s)[nat d := True]\<rparr>, w1)
             else None
        else Some (s\<lparr>scan_channels := channels\<rparr>, w1) }
      else Some (s, w))"

fun scan_readers :: "string \<Rightarrow> DWORD \<Rightarrow> nat list \<Rightarrow> name_scan \<Rightarrow> 'd pcscd \<Rightarrow> (name_scan \<times> 'd pcscd) option" where
  "scan_readers libraryName port [] s w = Some (s, w)"
| "scan_readers libraryName port (i # is) s w =
     do { (s1, w1) \<leftarrow> scan_reader libraryName port i s w; scan_readers libraryName port is s1 w1 }"

definition RFSetReaderName ::
  "nat \<Rightarrow> string \<Rightarrow> string \<Rightarrow> DWORD \<Rightarrow> DWORD \<Rightarrow> 'd pcscd \<Rightarrow> (int \<times> 'd pcscd) option" where
  "RFSetReaderName i name libraryName port slot w =
     do { (s, w1) \<leftarrow> (if slot = 0 \<and> dwNumReadersContexts w \<noteq> 0
                      then scan_readers libraryName port [0..<PCSCLITE_MAX_READERS_CONTEXTS] scan_start w
                      else Some (scan_start, w));
          case (if scan_digit s \<noteq> -1 then first_index Not (scan_used s) else Some 0) of
            None \<Rightarrow> Some (-2, w1)
          | Some n \<Rightarrow>
              if scan_digit s \<noteq> -1 \<and> int n \<ge> scan_channels s then Some (-2, w1)
              else Some (scan_parent s, upd_rctx i (\<lambda>r. r\<lparr>
                     lpcReader := take (MAX_READERNAME - 1) (name @ '' '' @ fmt02X n @ '' '' @ fmt02X (unat slot)),
                     dwSlot := push_bit 16 (of_nat n) + slot\<rparr>) w1) }"

subsection \<open>Removing readers\<close>

text \<open>The fields reset at the end of a removal; the name and the library stay in the slot.\<close>

definition clear_slot :: "'d READER_CONTEXT \<Rightarrow> 'd READER_CONTEXT" where
  "clear_slot r = r\<lparr>lpcDevice := [], dwVersion := 0, dwPort := 0, mMutex := 0, dwBlockStatus := 0, dwContexts := 0,
     dwSlot := 0, dwLockId := 0, LockCount := 0, vHandle := 0, dwIdentity := 0, stateRef := None,
     psHandles := map (\<lambda>c. c\<lparr>hCard := 0\<rparr>) (psHandles r)\<rparr>"

definition cell_add :: "nat \<Rightarrow> DWORD \<Rightarrow> 'd pcscd \<Rightarrow> 'd pcscd" where
  "cell_add a d w = w\<lparr>cells := (cells w)(a := cells w a + d)\<rparr>"

text \<open>Taking a reader out of its mutex and its library: the counters, which are freed at 0.\<close>

definition release_counters :: "nat \<Rightarrow> nat \<Rightarrow> nat \<Rightarrow> 'd pcscd \<Rightarrow> 'd pcscd" where
  "release_counters i m f w =
     (let w1 = cell_add m (-1) w;
          w2 = (if cells w1 m = 0 then upd_rctx i (\<lambda>r. r\<lparr>pdwMutex := None\<rparr>) w1 else w1);
          w3 = cell_add f (-1) w2
      in if cells w3 f = 0 then upd_rctx i (\<lambda>r. r\<lparr>pdwFeeds := None\<rparr>) w3 else w3)"

text \<open>The body of the loop; the first component is the result of an early return.\<close>

definition remove_one :: "'d system \<Rightarrow> nat \<Rightarrow> 'd pcscd \<Rightarrow> (LONG option \<times> 'd pcscd) option" where
  "remove_one sys i w =
     do { (_, w1) \<leftarrow> EHDestroyEventHandler (thread_join sys i) i w;
          (rv, w2) \<leftarrow> RFUnInitializeReader i w1;
          if rv \<noteq> SCARD_S_SUCCESS then Some (Some rv, w2)
          else case (pdwMutex (rctx w2 i), pdwFeeds (rctx w2 i)) of
            (Some m, Some f) \<Rightarrow>
              let w3 = upd_rctx i clear_slot (release_counters i m f w2);
                  w4 = w3\<lparr>dwNumReadersContexts := dwNumReadersContexts w3 - 1\<rparr>
              in Some (None, snd (EHSignalEventToClients w4))
          | _ \<Rightarrow> Some (Some SCARD_E_INVALID_VALUE, w2) }"

partial_function (option) remove_readers ::
  "'d system \<Rightarrow> string \<Rightarrow> DWORD \<Rightarrow> 'd pcscd \<Rightarrow> (LONG \<times> 'd pcscd) option" where
  "remove_readers sys name port w =
     (case RFReaderInfoNamePort w port name of
        Inl _ \<Rightarrow> Some (SCARD_S_SUCCESS, w)
      | Inr i \<Rightarrow> do {
          (early, w1) \<leftarrow> remove_one sys i w;
          case early of Some rv \<Rightarrow> Some (rv, w1) | None \<Rightarrow> remove_readers sys name port w1 })"

definition RFRemoveReader :: "'d system \<Rightarrow> string option \<Rightarrow> DWORD \<Rightarrow> 'd pcscd \<Rightarrow> (LONG \<times> 'd pcscd) option" where
  "RFRemoveReader sys lpcName port w =
     (case lpcName of None \<Rightarrow> Some (SCARD_E_INVALID_VALUE, w) | Some name \<Rightarrow> remove_readers sys name port w)"

subsection \<open>Adding readers\<close>

definition duplicate_reader :: "string \<Rightarrow> DWORD \<Rightarrow> 'd pcscd \<Rightarrow> bool" where
  "duplicate_reader name port w \<longleftrightarrow> dwNumReadersContexts w \<noteq> 0
     \<and> (\<exists>r \<in> set (sReadersContexts w). vHandle r \<noteq> 0 \<and> name = strip_reader (lpcReader r) \<and> port = dwPort r)"

text \<open>The new context of slot \<open>i\<close>, before a driver is loaded.\<close>

definition new_slot :: "nat \<Rightarrow> string \<Rightarrow> string \<Rightarrow> DWORD \<Rightarrow> 'd READER_CONTEXT \<Rightarrow> 'd READER_CONTEXT" where
  "new_slot i lib dev port r = r\<lparr>lpcLibrary := take (MAX_LIBNAME - 1) lib, lpcDevice := take (MAX_DEVICENAME - 1) dev,
     dwVersion := 0, dwPort := port, mMutex := 0, dwBlockStatus := 0, dwContexts := 0, pthThread := 0, dwLockId := 0,
     LockCount := 0, vHandle := 0, pdwFeeds := None, pdwMutex := None, dwIdentity := slot_identity i, stateRef := None,
     psHandles := map (\<lambda>c. c\<lparr>hCard := 0\<rparr>) (psHandles r)\<rparr>"

text \<open>What a clone takes from the reader \<open>p\<close> with the same driver.\<close>

definition clone_reader :: "nat \<Rightarrow> nat \<Rightarrow> 'd pcscd \<Rightarrow> 'd pcscd option" where
  "clone_reader p i w =
     do { feeds \<leftarrow> pdwFeeds (rctx w p);
          let w1 = upd_rctx i (\<lambda>r. r\<lparr>pdwFeeds := Some feeds, vHandle := vHandle (rctx w p), mMutex := mMutex (rctx w p),
                     pdwMutex := pdwMutex (rctx w p)\<rparr>) (cell_add feeds 1 w);
          (rv, len, safe, w2) \<leftarrow> get_capability p TAG_IFD_THREAD_SAFE w1;
          if rv = IFD_SUCCESS \<and> len = 1 \<and> safe = 1
          then Some (upd_rctx i (\<lambda>r. r\<lparr>mMutex := 0, pdwMutex := None\<rparr>) w2)
          else do { m \<leftarrow> pdwMutex (rctx w2 i); Some (cell_add m 1 w2) } }"

text \<open>A counter with value 1, and a mutex, at fresh addresses.\<close>

definition new_cell :: "'d pcscd \<Rightarrow> 'd pcscd" where
  "new_cell w = w\<lparr>cells := (cells w)(next_cell w := 1), next_cell := Suc (next_cell w)\<rparr>"

definition own_counters :: "nat \<Rightarrow> 'd pcscd \<Rightarrow> 'd pcscd" where
  "own_counters i w =
     (let w1 = (if pdwFeeds (rctx w i) = None
                then upd_rctx i (\<lambda>r. r\<lparr>pdwFeeds := Some (next_cell w)\<rparr>) (new_cell w) else w);
          w2 = (if mMutex (rctx w1 i) = 0
                then upd_rctx i (\<lambda>r. r\<lparr>mMutex := Suc (next_cell w1)\<rparr>) (w1\<lparr>next_cell := Suc (next_cell w1)\<rparr>) else w1)
      in if pdwMutex (rctx w2 i) = None
         then upd_rctx i (\<lambda>r. r\<lparr>pdwMutex := Some (next_cell w2)\<rparr>) (new_cell w2) else w2)"

text \<open>The polling function of the driver, if it has one, and the polling thread.\<close>

definition start_polling :: "'d system \<Rightarrow> nat \<Rightarrow> 'd pcscd \<Rightarrow> (LONG \<times> 'd pcscd) option" where
  "start_polling sys i w =
     do { (rv, len, val, h) \<leftarrow> IFDGetCapabilities (rctx w i) TAG_IFD_POLLING_THREAD 4 [0, 0, 0, 0] (machine w);
          EHSpawnEventHandler i (if rv \<noteq> SCARD_S_SUCCESS \<or> len \<noteq> 4 then None else function_at sys val)
            (thread_create sys i) (with_machine w h) }"

text \<open>Counting the reader in, initialising it and starting its thread; when that fails the readers of
  that name and port are removed.\<close>

definition start_reader :: "'d system \<Rightarrow> string \<Rightarrow> DWORD \<Rightarrow> nat \<Rightarrow> 'd pcscd \<Rightarrow> (LONG \<times> 'd pcscd) option" where
  "start_reader sys name port i w =
     do { (rv, w1) \<leftarrow> RFInitializeReader sys i (w\<lparr>dwNumReadersContexts := dwNumReadersContexts w + 1\<rparr>);
          if rv \<noteq> SCARD_S_SUCCESS
          then do { (_, w2) \<leftarrow> RFRemoveReader sys (Some name) port w1; Some (rv, w2) }
          else do {
            (rv2, w2) \<leftarrow> start_polling sys i w1;
            if rv2 \<noteq> SCARD_S_SUCCESS
            then do { (_, w3) \<leftarrow> RFRemoveReader sys (Some name) port w2; Some (rv2, w3) }
            else Some (SCARD_S_SUCCESS, w2) } }"

text \<open>The context of a further slot \<open>j\<close>, in slot \<open>b\<close> of the table, of the reader in \<open>a\<close>.\<close>

definition copy_slot :: "nat \<Rightarrow> nat \<Rightarrow> nat \<Rightarrow> string \<Rightarrow> string \<Rightarrow> 'd READER_CONTEXT \<Rightarrow> 'd READER_CONTEXT \<Rightarrow> 'd READER_CONTEXT" where
  "copy_slot j a b lib dev ra r = r\<lparr>lpcReader := take (length (lpcReader ra) - 2) (lpcReader ra) @ fmt02X j,
     lpcLibrary := take (MAX_LIBNAME - 1) lib, lpcDevice := take (MAX_DEVICENAME - 1) dev,
     dwVersion := dwVersion ra, dwPort := dwPort ra, vHandle := vHandle ra, mMutex := mMutex ra, pdwMutex := pdwMutex ra,
     dwSlot := dwSlot ra + of_nat j, pdwFeeds := pdwFeeds ra, dwBlockStatus := 0, dwContexts := 0, dwLockId := 0,
     LockCount := 0, stateRef := None, dwIdentity := slot_identity b,
     psHandles := map (\<lambda>c. c\<lparr>hCard := 0\<rparr>) (psHandles r)\<rparr>"

definition slot_mutex :: "nat \<Rightarrow> nat \<Rightarrow> 'd pcscd \<Rightarrow> 'd pcscd option" where
  "slot_mutex a b w =
     do { (rv, len, safe, w1) \<leftarrow> get_capability a TAG_IFD_SLOT_THREAD_SAFE w;
          if rv = IFD_SUCCESS \<and> len = 1 \<and> safe = 1
          then let w2 = upd_rctx b (\<lambda>r. r\<lparr>mMutex := Suc (next_cell w1)\<rparr>) (w1\<lparr>next_cell := Suc (next_cell w1)\<rparr>)
               in Some (upd_rctx b (\<lambda>r. r\<lparr>pdwMutex := Some (next_cell w2)\<rparr>) (new_cell w2))
          else do { m \<leftarrow> pdwMutex (rctx w1 b); Some (cell_add m 1 w1) } }"

text \<open>Adding slot \<open>j\<close>; the first component is the result of an early return.\<close>

definition add_slot ::
  "'d system \<Rightarrow> string \<Rightarrow> DWORD \<Rightarrow> string \<Rightarrow> string \<Rightarrow> nat \<Rightarrow> nat \<Rightarrow> 'd pcscd \<Rightarrow> (LONG option \<times> 'd pcscd) option" where
  "add_slot sys name port lib dev a j w =
     (case first_index (\<lambda>r. vHandle r = 0) (sReadersContexts w) of
        None \<Rightarrow> do { (_, w1) \<leftarrow> RFRemoveReader sys (Some name) port w; Some (Some SCARD_E_NO_MEMORY, w1) }
      | Some b \<Rightarrow> do {
          let w1 = upd_rctx b (copy_slot j a b lib dev (rctx w a)) w;
          feeds \<leftarrow> pdwFeeds (rctx w1 b);
          w2 \<leftarrow> slot_mutex a b (cell_add feeds 1 w1);
          (rv, w3) \<leftarrow> start_reader sys name port b w2;
          Some (if rv = SCARD_S_SUCCESS then None else Some rv, w3) })"

fun add_slots ::
  "'d system \<Rightarrow> string \<Rightarrow> DWORD \<Rightarrow> string \<Rightarrow> string \<Rightarrow> nat \<Rightarrow> nat list \<Rightarrow> 'd pcscd \<Rightarrow> (LONG \<times> 'd pcscd) option" where
  "add_slots sys name port lib dev a [] w = Some (SCARD_S_SUCCESS, w)"
| "add_slots sys name port lib dev a (j # js) w =
     do { (early, w1) \<leftarrow> add_slot sys name port lib dev a j w;
          case early of Some rv \<Rightarrow> Some (rv, w1) | None \<Rightarrow> add_slots sys name port lib dev a js w1 }"

text \<open>The whole of \<^verbatim>\<open>RFAddReader\<close> for arguments that are not NULL.\<close>

definition add_reader :: "'d system \<Rightarrow> string \<Rightarrow> DWORD \<Rightarrow> string \<Rightarrow> string \<Rightarrow> 'd pcscd \<Rightarrow> (LONG \<times> 'd pcscd) option" where
  "add_reader sys name port lib dev w =
     (if length name > MAX_READERNAME - 7 \<or> length lib \<ge> MAX_LIBNAME \<or> length dev \<ge> MAX_DEVICENAME
      then Some (SCARD_E_INVALID_VALUE, w)
      else if duplicate_reader name port w then Some (SCARD_E_DUPLICATE_READER, w)
      else case first_index (\<lambda>r. vHandle r = 0) (sReadersContexts w) of
        None \<Rightarrow> Some (SCARD_E_NO_MEMORY, w)
      | Some i \<Rightarrow> do {
          (parent, w1) \<leftarrow> RFSetReaderName i name lib port 0 w;
          if parent < -1 then Some (SCARD_E_NO_MEMORY, w1)
          else do {
            let w2 = upd_rctx i (new_slot i lib dev port) w1;
            w3 \<leftarrow> (if 0 \<le> parent \<and> parent < int PCSCLITE_MAX_READERS_CONTEXTS then clone_reader (nat parent) i w2 else Some w2);
            (rv, w4) \<leftarrow> start_reader sys name port i (own_counters i w3);
            if rv \<noteq> SCARD_S_SUCCESS then Some (rv, w4)
            else do {
              (rv2, len, slots, w5) \<leftarrow> get_capability i TAG_IFD_SLOTS_NUMBER w4;
              if rv2 \<noteq> IFD_SUCCESS \<or> len \<noteq> 1 \<or> slots = 0 \<or> slots = 1 then Some (SCARD_S_SUCCESS, w5)
              else add_slots sys name port lib dev i [1..<unat slots] w5 } } })"

definition RFAddReader ::
  "'d system \<Rightarrow> string option \<Rightarrow> DWORD \<Rightarrow> string option \<Rightarrow> string option \<Rightarrow> 'd pcscd \<Rightarrow> (LONG \<times> 'd pcscd) option" where
  "RFAddReader sys lpcName port lib dev w =
     (case (lpcName, lib, dev) of
        (Some n, Some l, Some d) \<Rightarrow> add_reader sys n port l d w
      | _ \<Rightarrow> Some (SCARD_E_INVALID_VALUE, w))"

subsection \<open>All readers\<close>

text \<open>\<open>mem\<close> is what the allocated memory holds; only two fields are initialised.\<close>

definition RFAllocateReaderSpace :: "'d READER_CONTEXT list \<Rightarrow> 'd pcscd \<Rightarrow> LONG \<times> 'd pcscd" where
  "RFAllocateReaderSpace mem w =
     EHInitializeEventStructures (w\<lparr>sReadersContexts := map (\<lambda>r. r\<lparr>vHandle := 0, stateRef := None\<rparr>) mem\<rparr>)"

text \<open>A loop over slots whose body may not return.\<close>

fun for_slots :: "(nat \<Rightarrow> 'd pcscd \<Rightarrow> 'd pcscd option) \<Rightarrow> nat list \<Rightarrow> 'd pcscd \<Rightarrow> 'd pcscd option" where
  "for_slots body [] w = Some w"
| "for_slots body (i # is) w = do { w1 \<leftarrow> body i w; for_slots body is w1 }"

text \<open>The boolean says that the daemon exits.\<close>

definition RFCleanupReaders :: "'d system \<Rightarrow> bool \<Rightarrow> 'd pcscd \<Rightarrow> (bool \<times> 'd pcscd) option" where
  "RFCleanupReaders sys shouldExit w =
     map_option (\<lambda>w1. (shouldExit, w1))
       (for_slots (\<lambda>i v. if vHandle (rctx v i) \<noteq> 0
                         then map_option snd (RFRemoveReader sys (Some (strip_reader (lpcReader (rctx v i)))) (dwPort (rctx v i)) v)
                         else Some v) [0..<PCSCLITE_MAX_READERS_CONTEXTS] w)"

definition RFSuspendAllReaders :: "'d system \<Rightarrow> 'd pcscd \<Rightarrow> 'd pcscd option" where
  "RFSuspendAllReaders sys =
     for_slots (\<lambda>i v. if vHandle (rctx v i) \<noteq> 0
                      then do { (_, v1) \<leftarrow> EHDestroyEventHandler (thread_join sys i) i v;
                                (_, h) \<leftarrow> IFDCloseIFD (rctx v1 i) (machine v1);
                                Some (with_machine v1 h) }
                      else Some v) [0..<PCSCLITE_MAX_READERS_CONTEXTS]"

text \<open>The result of \<^verbatim>\<open>IFDOpenIFD\<close> is only logged. \<^verbatim>\<open>initFlag\<close> is 0 at the start of every round.\<close>

definition RFAwakeAllReaders :: "'d system \<Rightarrow> 'd pcscd \<Rightarrow> 'd pcscd option" where
  "RFAwakeAllReaders sys =
     for_slots (\<lambda>i v. if vHandle (rctx v i) \<noteq> 0 \<and> pthThread (rctx v i) = 0
        then do { v1 \<leftarrow> (if \<exists>j \<in> set [0..<i]. vHandle (rctx v j) = vHandle (rctx v i) \<and> dwPort (rctx v j) = dwPort (rctx v i)
                         then Some v
                         else do { (_, h) \<leftarrow> IFDOpenIFD (rctx v i) (machine v); Some (with_machine v h) });
                  (_, v2) \<leftarrow> EHSpawnEventHandler i None (thread_create sys i) v1;
                  Some (upd_rctx i (\<lambda>r. RFSetReaderEventState r SCARD_RESET) v2) }
        else Some v) [0..<PCSCLITE_MAX_READERS_CONTEXTS]"

subsection \<open>Serial readers from the configuration file\<close>

text \<open>An entry of the list \<^verbatim>\<open>DBGetReaderList\<close> builds from the file; the list and its result are arguments,
  \<open>None\<close> for a list that is NULL.\<close>

record SerialReader =
  pcFriendlyname :: string
  dwChannelId :: DWORD
  pcLibpath :: string
  pcDevicename :: string

text \<open>The loop \<^verbatim>\<open>for (j = 0; j < s[j]; j++) crc += s[j];\<close> over a string with its terminating zero; \<^verbatim>\<open>char\<close> is signed.\<close>

definition schar :: "char \<Rightarrow> int" where
  "schar c = (let n = of_char c :: int in if n < 128 then n else n - 256)"

fun crc_string :: "nat \<Rightarrow> string \<Rightarrow> int" where
  "crc_string j [] = 0"
| "crc_string j (c # cs) = (if int j < schar c then schar c + crc_string (Suc j) cs else 0)"

definition crc_entry :: "SerialReader \<Rightarrow> int" where
  "crc_entry e = crc_string 0 (pcFriendlyname e) + crc_string 0 (pcLibpath e) + crc_string 0 (pcDevicename e)"

definition crc_list :: "SerialReader list \<Rightarrow> int" where
  "crc_list es = sum_list (map crc_entry es)"

definition add_entry :: "'d system \<Rightarrow> SerialReader \<Rightarrow> 'd pcscd \<Rightarrow> 'd pcscd option" where
  "add_entry sys e w =
     map_option snd (RFAddReader sys (Some (pcFriendlyname e)) (dwChannelId e) (Some (pcLibpath e)) (Some (pcDevicename e)) w)"

fun add_entries :: "'d system \<Rightarrow> SerialReader list \<Rightarrow> 'd pcscd \<Rightarrow> 'd pcscd option" where
  "add_entries sys [] w = Some w"
| "add_entries sys (e # es) w = do { w1 \<leftarrow> add_entry sys e w; add_entries sys es w1 }"

text \<open>The result is the return value, \<^verbatim>\<open>ConfigFileCRC\<close> and the state.\<close>

definition RFStartSerialReaders ::
  "'d system \<Rightarrow> int \<times> SerialReader list option \<Rightarrow> int \<Rightarrow> 'd pcscd \<Rightarrow> (int \<times> int \<times> 'd pcscd) option" where
  "RFStartSerialReaders sys conf ConfigFileCRC w =
     (case snd conf of
        None \<Rightarrow> Some (fst conf, ConfigFileCRC, w)
      | Some es \<Rightarrow> map_option (\<lambda>w1. (fst conf, ConfigFileCRC + crc_list es, w1)) (add_entries sys es w))"

text \<open>One round of the inner loop of \<^verbatim>\<open>RFReCheckReaderConf\<close>. The code compares entry \<open>i\<close> of the list with the name in slot
  \<open>i\<close> of the reader table, and the port of slot \<open>i\<close> with that of entry \<open>r\<close>; reading beyond the table or
  the list is \<open>None\<close> (the port of the entry that ends the list is not initialised).\<close>

definition recheck_slot ::
  "'d system \<Rightarrow> SerialReader list \<Rightarrow> nat \<Rightarrow> nat \<Rightarrow> bool \<Rightarrow> 'd pcscd \<Rightarrow> (bool \<times> 'd pcscd) option" where
  "recheck_slot sys es i r present w =
     (if vHandle (rctx w r) = 0 then Some (present, w)
      else if i \<ge> length (sReadersContexts w) then None
      else if pcFriendlyname (es ! i) \<noteq> strip_reader (lpcReader (rctx w i)) then Some (present, w)
      else if r \<ge> length es then None
      else if dwChannelId (es ! r) \<noteq> dwPort (rctx w i) then Some (present, w)
      else do {
        (rv, _, _, _, h) \<leftarrow> IFDStatusICC (rctx w r) (uninit MAX_ATR_SIZE w) 0 (machine w);
        if rv \<noteq> SCARD_S_SUCCESS
        then do { (_, w1) \<leftarrow> RFRemoveReader sys (Some (pcFriendlyname (es ! i))) (dwChannelId (es ! r)) (with_machine w h);
                  Some (True, w1) }
        else Some (True, with_machine w h) })"

fun recheck_slots ::
  "'d system \<Rightarrow> SerialReader list \<Rightarrow> nat \<Rightarrow> nat list \<Rightarrow> bool \<Rightarrow> 'd pcscd \<Rightarrow> (bool \<times> 'd pcscd) option" where
  "recheck_slots sys es i [] present w = Some (present, w)"
| "recheck_slots sys es i (r # rs) present w =
     do { (p, w1) \<leftarrow> recheck_slot sys es i r present w; recheck_slots sys es i rs p w1 }"

fun recheck_entries :: "'d system \<Rightarrow> SerialReader list \<Rightarrow> nat list \<Rightarrow> 'd pcscd \<Rightarrow> 'd pcscd option" where
  "recheck_entries sys es [] w = Some w"
| "recheck_entries sys es (i # is) w =
     do { (present, w1) \<leftarrow> recheck_slots sys es i [0..<PCSCLITE_MAX_READERS_CONTEXTS] False w;
          w2 \<leftarrow> (if present then Some w1 else add_entry sys (es ! i) w1);
          recheck_entries sys es is w2 }"

definition RFReCheckReaderConf :: "'d system \<Rightarrow> SerialReader list option \<Rightarrow> int \<Rightarrow> 'd pcscd \<Rightarrow> 'd pcscd option" where
  "RFReCheckReaderConf sys conf ConfigFileCRC w =
     (case conf of
        None \<Rightarrow> Some w
      | Some es \<Rightarrow> if crc_list es \<noteq> ConfigFileCRC then Some w else recheck_entries sys es [0..<length es] w)"

subsection \<open>What the polling thread does to its reader\<close>

text \<open>The thread of reader \<open>i\<close> changes in the reader table only the lock and the events of the handles of its reader.\<close>

definition thread_effect :: "nat \<Rightarrow> 'd pcscd \<Rightarrow> 'd pcscd \<Rightarrow> bool" where
  "thread_effect i w w' \<longleftrightarrow> touches i w w'
     \<and> map hCard (psHandles (rctx w' i)) = map hCard (psHandles (rctx w i))
     \<and> rctx w' i = (rctx w i)\<lparr>dwLockId := dwLockId (rctx w' i), LockCount := LockCount (rctx w' i),
         psHandles := psHandles (rctx w' i)\<rparr>"

lemma READER_CONTEXT_self [simp]: "r\<lparr>dwLockId := dwLockId r, LockCount := LockCount r, psHandles := psHandles r\<rparr> = r"
  by (cases r) simp

lemma thread_effect_refl [simp]: "thread_effect i w w"
  by (simp add: thread_effect_def)

lemma thread_effect_trans:
  assumes "thread_effect i u v" and "thread_effect i v w"
  shows "thread_effect i u w"
proof -
  have "rctx w i = (rctx u i)\<lparr>dwLockId := dwLockId (rctx w i), LockCount := LockCount (rctx w i), psHandles := psHandles (rctx w i)\<rparr>"
    using assms unfolding thread_effect_def by (cases "rctx u i", cases "rctx v i", cases "rctx w i") simp
  with assms show ?thesis unfolding thread_effect_def by (metis touches_trans)
qed

lemma thread_effect_fields:
  assumes "thread_effect i w w'"
  shows "vHandle (rctx w' i) = vHandle (rctx w i)" "lpcReader (rctx w' i) = lpcReader (rctx w i)"
    "dwPort (rctx w' i) = dwPort (rctx w i)" "psFunctions (rctx w' i) = psFunctions (rctx w i)"
    "dwVersion (rctx w' i) = dwVersion (rctx w i)" "pdwFeeds (rctx w' i) = pdwFeeds (rctx w i)"
    "pdwMutex (rctx w' i) = pdwMutex (rctx w i)" "stateRef (rctx w' i) = stateRef (rctx w i)"
    "dwIdentity (rctx w' i) = dwIdentity (rctx w i)" "dwContexts (rctx w' i) = dwContexts (rctx w i)"
  using assms unfolding thread_effect_def by (cases "rctx w i", cases "rctx w' i", simp)+

lemma thread_effect_clients: "thread_effect i w w' \<Longrightarrow> same_clients i w w'"
  using thread_effect_fields [of i w w'] by (simp add: thread_effect_def same_clients_def)

lemma same_tables_effect: "same_tables w w' \<Longrightarrow> thread_effect i w w'"
  by (simp add: thread_effect_def same_tables_touches same_tables_rctx)

lemma event_effect: "thread_effect i w (upd_rctx i (\<lambda>r. RFSetReaderEventState r e) w)" if "i < length (sReadersContexts w)"
  using that unfolding thread_effect_def RFSetReaderEventState_def Let_def
  by (cases "rctx w i") (simp add: comp_def)

lemma unlock_effect: "thread_effect i w (upd_rctx i (\<lambda>r. r\<lparr>dwLockId := l\<rparr>) w)" if "i < length (sReadersContexts w)"
  using that unfolding thread_effect_def by (cases "rctx w i") simp

lemma poll_card_effect:
  assumes "poll_card i cur w = Some (cur', w')" and "i < length (sReadersContexts w)"
  shows "thread_effect i w w'"
  using poll_card_tables [OF assms(1)] same_tables_effect event_effect [OF assms(2)] thread_effect_trans by blast

lemma loop_effect:
  assumes "EHStatusHandlerThread_loop i t w = Some (exited, t', w')" and "i < length (sReadersContexts w)"
  shows "thread_effect i w w'"
proof -
  obtain w1 w2 where p: "poll_card i (dwCurrentState t) w = Some (dwCurrentState t', w1)"
    and s: "sReadersContexts w' = (if exited then upd_at i (\<lambda>r. r\<lparr>dwLockId := 0\<rparr>) (sReadersContexts w1) else sReadersContexts w1)"
    and f: "psContext w' = psContext w" "length (readerStates w') = length (readerStates w)"
    by (rule loop_cases [OF assms])
  have e: "thread_effect i w w1" by (rule poll_card_effect [OF p assms(2)])
  then have f1: "psContext w1 = psContext w" "length (readerStates w1) = length (readerStates w)" "i < length (sReadersContexts w1)"
    using assms(2) by (auto simp: thread_effect_def touches_def)
  let ?v = "if exited then upd_rctx i (\<lambda>r. r\<lparr>dwLockId := 0\<rparr>) w1 else w1"
  have "thread_effect i w1 ?v" using unlock_effect [OF f1(3)] by simp
  moreover have "same_tables ?v w'" using s f f1 by (simp add: same_tables_def upd_rctx_def)
  ultimately show ?thesis using e same_tables_effect thread_effect_trans by blast
qed

lemma poll_run_effect:
  assumes "poll_run i t w = Some w'" and "i < length (sReadersContexts w)"
  shows "thread_effect i w w'"
proof -
  have "i < length (sReadersContexts w) \<longrightarrow> thread_effect i w w'"
  proof (rule poll_run.raw_induct [OF _ assms(1)], intro impI)
    fix run i t and w w' :: "'a pcscd"
    assume IH: "\<And>i t w w'. run i t w = Some w' \<Longrightarrow> i < length (sReadersContexts w) \<longrightarrow> thread_effect i w w'"
      and body: "do { (exited, t1, w1) \<leftarrow> EHStatusHandlerThread_loop i t w;
            if exited then Some w1 else run i t1 w1 } = Some w'"
      and i: "i < length (sReadersContexts w)"
    from body obtain ex t1 w1 where l: "EHStatusHandlerThread_loop i t w = Some (ex, t1, w1)"
      and r: "(if ex then Some w1 else run i t1 w1) = Some w'"
      by (auto simp: bind_eq_Some_conv)
    have e: "thread_effect i w w1" by (rule loop_effect [OF l i])
    then have "i < length (sReadersContexts w1)" using i by (simp add: thread_effect_def touches_def)
    with r e IH [of i t1 w1 w'] show "thread_effect i w w'" by (auto split: if_splits intro: thread_effect_trans)
  qed
  with assms(2) show ?thesis by simp
qed

text \<open>What the operations rely on: a join that returns leaves the effect of the thread; and every join returns.\<close>

definition joins_sound :: "'d system \<Rightarrow> bool" where
  "joins_sound sys \<longleftrightarrow> (\<forall>i c w w'. i < length (sReadersContexts w) \<longrightarrow> thread_join sys i c w = Some w' \<longrightarrow> thread_effect i w w')"

definition joins_return :: "'d system \<Rightarrow> bool" where
  "joins_return sys \<longleftrightarrow> (\<forall>i c w. thread_join sys i c w \<noteq> None)"

subsection \<open>Loading and removing keep the rest of the table\<close>

text \<open>Like \<open>same_clients\<close>, but a driver may be loaded or unloaded.\<close>

definition same_handles :: "nat \<Rightarrow> 'd pcscd \<Rightarrow> 'd pcscd \<Rightarrow> bool" where
  "same_handles i w w' \<longleftrightarrow> touches i w w' \<and> map hCard (psHandles (rctx w' i)) = map hCard (psHandles (rctx w i))
     \<and> dwIdentity (rctx w' i) = dwIdentity (rctx w i) \<and> dwContexts (rctx w' i) = dwContexts (rctx w i)
     \<and> lpcReader (rctx w' i) = lpcReader (rctx w i) \<and> dwPort (rctx w' i) = dwPort (rctx w i)"

lemma same_handles_refl [simp]: "same_handles i w w"
  and same_handles_trans [trans]: "same_handles i u v \<Longrightarrow> same_handles i v w \<Longrightarrow> same_handles i u w"
  by (auto simp: same_handles_def intro: touches_trans)

lemma same_handles_len: "same_handles i w w' \<Longrightarrow> length (sReadersContexts w') = length (sReadersContexts w)"
  by (simp add: same_handles_def touches_def)

lemma effect_handles: "thread_effect i w w' \<Longrightarrow> same_handles i w w'"
  using thread_effect_fields [of i w w'] by (simp add: thread_effect_def same_handles_def)

lemma same_tables_handles: "same_tables w w' \<Longrightarrow> same_handles i w w'"
  by (rule effect_handles [OF same_tables_effect])

text \<open>The fields that loading, unloading and the polling thread write.\<close>

lemma upd_rctx_beyond: "\<not> i < length (sReadersContexts w) \<Longrightarrow> upd_rctx i f w = w"
  by (cases w) (simp add: upd_rctx_def upd_at_def list_update_beyond)

lemma same_handles_upd [simp]:
  assumes "\<And>r. psHandles (f r) = psHandles r" "\<And>r. dwIdentity (f r) = dwIdentity r" "\<And>r. dwContexts (f r) = dwContexts r"
    "\<And>r. lpcReader (f r) = lpcReader r" "\<And>r. dwPort (f r) = dwPort r"
  shows "same_handles i w (upd_rctx i f w') = same_handles i w w'" "same_handles i (upd_rctx i f w') w = same_handles i w' w"
  using assms by (cases "i < length (sReadersContexts w')"; simp add: same_handles_def upd_rctx_beyond)+

lemma same_handles_fields [simp]:
  "same_handles i w (w'\<lparr>dl_closed := x\<rparr>) = same_handles i w w'" "same_handles i (w\<lparr>dl_closed := x\<rparr>) w' = same_handles i w w'"
  "same_handles i w (w'\<lparr>dwNumReadersContexts := n\<rparr>) = same_handles i w w'"
  "same_handles i (w\<lparr>dwNumReadersContexts := n\<rparr>) w' = same_handles i w w'"
  "same_handles i w (with_machine w' h) = same_handles i w w'" "same_handles i (with_machine w h) w' = same_handles i w w'"
  by (simp_all add: same_handles_def touches_def with_machine_def rctx_def)

lemma RFLoadReader_handles: "RFLoadReader sys i w = (rv, w') \<Longrightarrow> same_handles i w w'"
  by (auto simp: RFLoadReader_def Let_def split: if_splits)

lemma RFBindFunctions_handles: "RFBindFunctions sys i w = Some (rv, w') \<Longrightarrow> same_handles i w w'"
  by (auto simp: RFBindFunctions_def Let_def bind_eq_Some_conv split: if_splits)

lemma RFUnloadReader_handles: "RFUnloadReader i w = Some (rv, w') \<Longrightarrow> same_handles i w w'"
  by (auto simp: RFUnloadReader_def Let_def bind_eq_Some_conv split: if_splits)

lemma RFUnBindFunctions_handles [simp]: "same_handles i (snd (RFUnBindFunctions i w)) w' = same_handles i w w'"
  by (simp add: RFUnBindFunctions_def)

lemma RFInitializeReader_handles: "RFInitializeReader sys i w = Some (rv, w') \<Longrightarrow> same_handles i w w'"
  by (auto simp: RFInitializeReader_def Let_def bind_eq_Some_conv split: if_splits prod.splits
      dest!: RFLoadReader_handles RFBindFunctions_handles RFUnloadReader_handles intro: same_handles_trans)

lemma RFUnInitializeReader_handles: "RFUnInitializeReader i w = Some (rv, w') \<Longrightarrow> same_handles i w w'"
  by (auto simp: RFUnInitializeReader_def bind_eq_Some_conv dest!: RFUnloadReader_handles)

lemma EHSpawnEventHandler_handles: "EHSpawnEventHandler i f th w = Some (rv, w') \<Longrightarrow> same_handles i w w'"
  by (cases th) (auto simp: EHSpawnEventHandler_def Let_def bind_eq_Some_conv split: if_splits option.splits
      dest!: same_tables_upd_rstate same_tables_handles [where i = i])

lemma EHDestroyEventHandler_handles:
  assumes "EHDestroyEventHandler join i w = Some (rv, w')" and "i < length (sReadersContexts w)"
    and "\<And>c u v. i < length (sReadersContexts u) \<Longrightarrow> join c u = Some v \<Longrightarrow> thread_effect i u v"
  shows "same_handles i w w'"
proof (cases "rstate w i = None \<or> (\<exists>s. rstate w i = Some s \<and> readerName s = [])")
  case True
  with assms(1) show ?thesis by (auto simp: EHDestroyEventHandler_def)
next
  case False
  then obtain s where s: "rstate w i = Some s" "readerName s \<noteq> []" by auto
  let ?u = "upd_rctx i (\<lambda>r. r\<lparr>dwLockId := 0xFFFF\<rparr>) w"
  from assms(1) s obtain c h w2 w3 where "join c (with_machine ?u h) = Some w2" and u: "upd_rstate i zero_state w2 = Some w3"
    and w': "w' = upd_rctx i (\<lambda>r. r\<lparr>pthThread := 0\<rparr>) w3"
    by (auto simp: EHDestroyEventHandler_def Let_def bind_eq_Some_conv)
  with assms(2,3) have e: "thread_effect i (with_machine ?u h) w2" by simp
  have "same_handles i w (with_machine ?u h)" by simp
  also have "same_handles i (with_machine ?u h) w2" by (rule effect_handles [OF e])
  also have "same_handles i w2 w3" by (rule same_tables_handles [OF same_tables_upd_rstate [OF u]])
  also have "same_handles i w3 w'" by (simp add: w')
  finally show ?thesis .
qed

text \<open>Both invariants survive a change of the driver of a reader that has its identity.\<close>

lemma same_handles_inv:
  assumes "same_handles i w w'" and "daemon_inv w" and "i < 16"
    and "vHandle (rctx w' i) \<noteq> 0 \<or> stateRef (rctx w' i) \<noteq> None \<Longrightarrow> dwIdentity (rctx w i) = slot_identity i"
  shows "daemon_inv w' \<and> (sharing_inv w \<longrightarrow> sharing_inv w')"
proof -
  let ?r = "rctx w i" and ?r' = "rctx w' i"
  have h: "map hCard (psHandles ?r') = map hCard (psHandles ?r)" "dwIdentity ?r' = dwIdentity ?r" "dwContexts ?r' = dwContexts ?r"
    and t: "touches i w w'" using assms(1) by (simp_all add: same_handles_def)
  have "reader_inv i ?r" using assms(2,3) by (simp add: daemon_inv_def)
  moreover have "length (psHandles ?r') = length (psHandles ?r)" using h(1) by (metis length_map)
  ultimately have "reader_inv i ?r'"
    using h assms(4) hCard_set_eq [OF h(1)] connected_cong [OF h(1)] unfolding reader_inv_def by metis
  moreover have "share_ok ?r' = share_ok ?r" using h by (intro share_ok_cong)
  ultimately show ?thesis
    using t assms(2,3) daemon_inv_touches sharing_inv_touches by (metis sharing_inv_def)
qed

text \<open>A slot that nobody uses.\<close>

definition idle_slot :: "nat \<Rightarrow> 'd READER_CONTEXT \<Rightarrow> bool" where
  "idle_slot i r \<longleftrightarrow> length (psHandles r) = 16 \<and> (\<forall>c \<in> set (psHandles r). hCard c = 0) \<and> dwContexts r = 0
     \<and> (dwIdentity r = slot_identity i \<or> dwIdentity r = 0 \<and> vHandle r = 0 \<and> stateRef r = None)"

lemma idle_slot_inv: "idle_slot i r \<Longrightarrow> reader_inv i r \<and> share_ok r"
  by (auto simp: idle_slot_def reader_inv_def share_ok_def connected_def count_if_def)

lemma idle_slot_daemon:
  "idle_slot i (rctx w' i) \<Longrightarrow> touches i w w' \<Longrightarrow> daemon_inv w \<Longrightarrow> daemon_inv w' \<and> (sharing_inv w \<longrightarrow> sharing_inv w')"
  using idle_slot_inv daemon_inv_touches sharing_inv_touches by metis

lemma touches_fields [simp]:
  "touches i w (cell_add a d w') = touches i w w'" "touches i w (w'\<lparr>dwNumReadersContexts := n\<rparr>) = touches i w w'"
  "touches i w (snd (EHSignalEventToClients w')) = touches i w w'"
  by (simp_all add: touches_def cell_add_def rctx_def)

lemma cell_add_fields [simp]:
  "sReadersContexts (cell_add a d w) = sReadersContexts w" "rctx (cell_add a d w) i = rctx w i" "machine (cell_add a d w) = machine w"
  "readerStates (cell_add a d w) = readerStates w" "psContext (cell_add a d w) = psContext w"
  "dwNumReadersContexts (cell_add a d w) = dwNumReadersContexts w" "next_cell (cell_add a d w) = next_cell w"
  by (simp_all add: cell_add_def rctx_def)

lemma release_counters_frame:
  "touches i w (release_counters i m f w)" "psHandles (rctx (release_counters i m f w) i) = psHandles (rctx w i)"
  "length (sReadersContexts (release_counters i m f w)) = length (sReadersContexts w)"
  "dwNumReadersContexts (release_counters i m f w) = dwNumReadersContexts w"
  by (cases "i < length (sReadersContexts w)"; simp add: release_counters_def Let_def upd_rctx_beyond)+

lemma RFUnInitializeReader_effect:
  assumes "RFUnInitializeReader i w = Some (rv, w')" and "i < length (sReadersContexts w)"
  shows "rv = SCARD_S_SUCCESS \<and> vHandle (rctx w' i) = 0 \<and> pdwMutex (rctx w' i) = pdwMutex (rctx w i)
    \<and> pdwFeeds (rctx w' i) = pdwFeeds (rctx w i) \<and> pdwFeeds (rctx w i) \<noteq> None \<and> dwNumReadersContexts w' = dwNumReadersContexts w"
proof -
  from assms(1) obtain h where u: "RFUnloadReader i (snd (RFUnBindFunctions i (with_machine w h))) = Some (0, w')" and "rv = SCARD_S_SUCCESS"
    by (auto simp: RFUnInitializeReader_def RFUnloadReader_def bind_eq_Some_conv)
  with assms(2) show ?thesis
    by (auto simp: RFUnloadReader_def RFUnBindFunctions_def bind_eq_Some_conv rctx_def upd_rctx_def Let_def)
qed

text \<open>One removal: the slot is cleared, or it only lost its driver and the loop ends with an error.\<close>

lemma remove_one_cases:
  assumes "remove_one sys i w = Some (early, w')" and "i < length (sReadersContexts w)" and "joins_sound sys"
  obtains (cleared) "early = None" "touches i w w'" "vHandle (rctx w' i) = 0" "dwIdentity (rctx w' i) = 0" "dwContexts (rctx w' i) = 0"
      "stateRef (rctx w' i) = None"
      "length (psHandles (rctx w' i)) = length (psHandles (rctx w i))" "\<forall>c \<in> set (psHandles (rctx w' i)). hCard c = 0"
    | (stuck) "early = Some SCARD_E_INVALID_VALUE" "same_handles i w w'" "vHandle (rctx w' i) = 0"
proof -
  from assms(1) obtain rv0 w1 rv w2 where d: "EHDestroyEventHandler (thread_join sys i) i w = Some (rv0, w1)"
    and u: "RFUnInitializeReader i w1 = Some (rv, w2)"
    by (auto simp: remove_one_def bind_eq_Some_conv)
  have h1: "same_handles i w w1"
    by (rule EHDestroyEventHandler_handles [OF d assms(2)]) (use assms(3) in \<open>auto simp: joins_sound_def\<close>)
  then have len: "i < length (sReadersContexts w1)" using assms(2) by (simp add: same_handles_len)
  have h2: "same_handles i w w2" using h1 RFUnInitializeReader_handles [OF u] by (rule same_handles_trans)
  note e = RFUnInitializeReader_effect [OF u len]
  have len2: "i < length (sReadersContexts w2)" using assms(2) h2 by (simp add: same_handles_len)
  show thesis
  proof (cases "pdwMutex (rctx w2 i)")
    case None
    with assms(1) d u e h2 show thesis by (intro stuck) (auto simp: remove_one_def)
  next
    case (Some m)
    from e obtain f where f: "pdwFeeds (rctx w2 i) = Some f" by auto
    let ?v = "release_counters i m f w2"
    have rv: "rv = SCARD_S_SUCCESS" using e by simp
    have w': "early = None" "sReadersContexts w' = sReadersContexts (upd_rctx i clear_slot ?v)" "psContext w' = psContext ?v"
      "length (readerStates w') = length (readerStates ?v)"
      using assms(1) by (auto simp: remove_one_def Let_def d u rv Some f)
    have t2: "touches i w ?v" using h2 release_counters_frame(1) [of i w2 m f] touches_trans by (auto simp: same_handles_def)
    have "touches i ?v w'" using w' by (simp add: touches_def rctx_def upd_rctx_def)
    moreover have "rctx w' i = clear_slot (rctx ?v i)"
      using w' len2 by (simp add: rctx_def upd_rctx_def release_counters_frame)
    moreover have "length (psHandles (rctx w2 i)) = length (psHandles (rctx w i))"
      using h2 by (metis same_handles_def length_map)
    ultimately show thesis using t2 w'(1)
      by (intro cleared) (auto simp: clear_slot_def release_counters_frame intro: touches_trans)
  qed
qed

lemma remove_one_inv:
  assumes "remove_one sys i w = Some (early, w')" and "joins_sound sys" and "daemon_inv w" and "i < 16"
    and "vHandle (rctx w i) \<noteq> 0"
  shows "daemon_inv w' \<and> (sharing_inv w \<longrightarrow> sharing_inv w')"
proof -
  have len: "i < length (sReadersContexts w)" using assms by (simp add: daemon_inv_def)
  from assms(1) len assms(2) show ?thesis
  proof (cases rule: remove_one_cases)
    case cleared
    have "length (psHandles (rctx w i)) = 16" using assms(3,4) by (simp add: daemon_inv_def reader_inv_def)
    with cleared have "idle_slot i (rctx w' i)" by (simp add: idle_slot_def)
    from idle_slot_daemon [OF this cleared(2) assms(3)] show ?thesis .
  next
    case stuck
    have "dwIdentity (rctx w i) = slot_identity i" using assms(3-5) by (auto simp: daemon_inv_def reader_inv_def)
    with same_handles_inv [OF stuck(2) assms(3,4)] show ?thesis by simp
  qed
qed

lemma NamePort_Inr:
  "RFReaderInfoNamePort w port name = Inr i \<Longrightarrow> i < length (sReadersContexts w) \<and> vHandle (rctx w i) \<noteq> 0
     \<and> strip_reader (lpcReader (rctx w i)) = name \<and> dwPort (rctx w i) = port"
  by (auto simp: RFReaderInfoNamePort_def rctx_def split: option.splits dest!: first_index_SomeD)

lemma NamePort_Inl:
  "RFReaderInfoNamePort w port name = Inl e \<Longrightarrow> e = SCARD_E_INVALID_VALUE
     \<and> (\<forall>r \<in> set (sReadersContexts w). \<not> (vHandle r \<noteq> 0 \<and> name = strip_reader (lpcReader r) \<and> port = dwPort r))"
  by (auto simp: RFReaderInfoNamePort_def split: option.splits)

lemma remove_readers_inv:
  assumes "remove_readers sys name port w = Some (rv, w')" and "joins_sound sys" and "daemon_inv w"
  shows "daemon_inv w' \<and> (sharing_inv w \<longrightarrow> sharing_inv w')"
proof -
  have "joins_sound sys \<longrightarrow> daemon_inv w \<longrightarrow> daemon_inv (snd (rv, w')) \<and> (sharing_inv w \<longrightarrow> sharing_inv (snd (rv, w')))"
  proof (rule remove_readers.raw_induct [OF _ assms(1)], intro impI)
    fix run :: "'a system \<Rightarrow> string \<Rightarrow> DWORD \<Rightarrow> 'a pcscd \<Rightarrow> (LONG \<times> 'a pcscd) option" and sys name port w res
    assume IH: "\<And>sys name port w res. run sys name port w = Some res \<Longrightarrow> joins_sound sys \<longrightarrow> daemon_inv w \<longrightarrow>
        daemon_inv (snd res) \<and> (sharing_inv w \<longrightarrow> sharing_inv (snd res))"
      and body: "(case RFReaderInfoNamePort w port name of Inl x \<Rightarrow> Some (SCARD_S_SUCCESS, w)
         | Inr i \<Rightarrow> remove_one sys i w \<bind> (\<lambda>(early, w1). case early of None \<Rightarrow> run sys name port w1 | Some rv \<Rightarrow> Some (rv, w1))) = Some res"
      and js: "joins_sound sys" and inv: "daemon_inv w"
    show "daemon_inv (snd res) \<and> (sharing_inv w \<longrightarrow> sharing_inv (snd res))"
    proof (cases "RFReaderInfoNamePort w port name")
      case (Inl e)
      with body inv show ?thesis by auto
    next
      case (Inr i)
      then have i: "i < 16" "vHandle (rctx w i) \<noteq> 0" using NamePort_Inr inv by (fastforce simp: daemon_inv_def)+
      from body Inr obtain early w1 where r: "remove_one sys i w = Some (early, w1)"
        and rest: "(case early of None \<Rightarrow> run sys name port w1 | Some rv \<Rightarrow> Some (rv, w1)) = Some res"
        by (auto simp: bind_eq_Some_conv)
      from remove_one_inv [OF r js inv i] rest IH [of sys name port w1 res] js show ?thesis
        by (cases early) auto
    qed
  qed
  with assms show ?thesis by simp
qed

subsection \<open>Removal ends\<close>

text \<open>A loaded reader has its counters and the function table of its version.\<close>

definition driver_bound :: "'d READER_CONTEXT \<Rightarrow> bool" where
  "driver_bound r \<longleftrightarrow> pdwFeeds r \<noteq> None \<and> pdwMutex r \<noteq> None \<and> has_driver r"

definition drivers_bound :: "'d pcscd \<Rightarrow> bool" where
  "drivers_bound w \<longleftrightarrow> (\<forall>r \<in> set (sReadersContexts w). vHandle r \<noteq> 0 \<longrightarrow> driver_bound r)"

definition named_reader :: "string \<Rightarrow> DWORD \<Rightarrow> 'd READER_CONTEXT \<Rightarrow> bool" where
  "named_reader name port r \<longleftrightarrow> vHandle r \<noteq> 0 \<and> strip_reader (lpcReader r) = name \<and> dwPort r = port"

definition loaded :: "'d pcscd \<Rightarrow> nat" where
  "loaded w = count_if (\<lambda>r. vHandle r \<noteq> 0) (sReadersContexts w)"

lemma IFDGetCapabilities_returns: "driver_bound r \<Longrightarrow> IFDGetCapabilities r tag len val h \<noteq> None"
  by (auto simp: driver_bound_def has_driver_def IFDGetCapabilities_def split: if_splits prod.splits)

lemma IFDCloseIFD_returns: "driver_bound r \<Longrightarrow> IFDCloseIFD r h \<noteq> None"
  by (auto simp: driver_bound_def has_driver_def IFDCloseIFD_def split: if_splits prod.splits)

lemma driver_bound_cong:
  "psFunctions r' = psFunctions r \<Longrightarrow> dwVersion r' = dwVersion r \<Longrightarrow> pdwFeeds r' = pdwFeeds r \<Longrightarrow> pdwMutex r' = pdwMutex r \<Longrightarrow>
    driver_bound r' = driver_bound r"
  using has_driver_cong [of r' r] by (simp add: driver_bound_def)

lemma EHDestroyEventHandler_returns:
  assumes "joins_sound sys" and "joins_return sys" and "i < length (sReadersContexts w)" and "driver_bound (rctx w i)"
  shows "\<exists>w'. EHDestroyEventHandler (thread_join sys i) i w = Some (SCARD_S_SUCCESS, w') \<and> driver_bound (rctx w' i)"
proof (cases "rstate w i = None \<or> (\<exists>s. rstate w i = Some s \<and> readerName s = [])")
  case True
  with assms(4) show ?thesis by (auto simp: EHDestroyEventHandler_def)
next
  case False
  then obtain s where s: "rstate w i = Some s" "readerName s \<noteq> []" by auto
  let ?u = "upd_rctx i (\<lambda>r. r\<lparr>dwLockId := 0xFFFF\<rparr>) w"
  have b: "driver_bound (rctx ?u i)" using assms(3,4) driver_bound_cong [of "rctx ?u i" "rctx w i"] by simp
  obtain rv len val h where g: "IFDGetCapabilities (rctx ?u i) TAG_IFD_POLLING_THREAD_KILLABLE 1 (uninit 1 w) (machine ?u) = Some (rv, len, val, h)"
    using IFDGetCapabilities_returns [OF b] by (metis not_None_eq prod_cases4)
  obtain w2 where j: "thread_join sys i (rv = IFD_SUCCESS \<and> len = 1 \<and> val ! 0 \<noteq> 0) (with_machine ?u h) = Some w2"
    using assms(2) unfolding joins_return_def by (metis option.exhaust)
  then have e: "thread_effect i (with_machine ?u h) w2" using assms(1,3) by (auto simp: joins_sound_def)
  note f = thread_effect_fields [OF e]
  have "stateRef (rctx w2 i) = stateRef (rctx w i)" using f(8) assms(3) by simp
  moreover have "stateRef (rctx w i) \<noteq> None" using s by (auto simp: rstate_def)
  ultimately obtain w3 where z: "upd_rstate i zero_state w2 = Some w3" by (auto simp: upd_rstate_def)
  have "driver_bound (rctx w2 i)" using b f by (simp cong: driver_bound_cong)
  moreover have "rctx w3 = rctx w2" by (rule same_tables_rctx [OF same_tables_upd_rstate [OF z]])
  moreover have "i < length (sReadersContexts w3)"
    using same_tables_upd_rstate [OF z] e assms(3) by (simp add: same_tables_def thread_effect_def touches_def)
  ultimately have "driver_bound (rctx (upd_rctx i (\<lambda>r. r\<lparr>pthThread := 0\<rparr>) w3) i)"
    using driver_bound_cong [of "(rctx w3 i)\<lparr>pthThread := 0\<rparr>" "rctx w3 i"] by simp
  moreover have "EHDestroyEventHandler (thread_join sys i) i w = Some (SCARD_S_SUCCESS, upd_rctx i (\<lambda>r. r\<lparr>pthThread := 0\<rparr>) w3)"
    using s g j z by (simp add: EHDestroyEventHandler_def Let_def)
  ultimately show ?thesis by blast
qed

lemma RFUnInitializeReader_returns:
  assumes "i < length (sReadersContexts w)" and "driver_bound (rctx w i)"
  shows "\<exists>w'. RFUnInitializeReader i w = Some (SCARD_S_SUCCESS, w')"
proof -
  obtain rv h where c: "IFDCloseIFD (rctx w i) (machine w) = Some (rv, h)"
    using IFDCloseIFD_returns [OF assms(2)] by (metis not_None_eq prod.exhaust)
  have "pdwFeeds (rctx w i) \<noteq> None" using assms(2) by (simp add: driver_bound_def)
  then show ?thesis using c assms(1)
    by (auto simp: RFUnInitializeReader_def RFUnloadReader_def RFUnBindFunctions_def bind_eq_Some_conv)
qed

lemma remove_one_returns:
  assumes "joins_sound sys" and "joins_return sys" and "i < length (sReadersContexts w)" and "driver_bound (rctx w i)"
  shows "\<exists>w'. remove_one sys i w = Some (None, w')"
proof -
  from EHDestroyEventHandler_returns [OF assms]
  obtain w1 where d: "EHDestroyEventHandler (thread_join sys i) i w = Some (SCARD_S_SUCCESS, w1)" and b: "driver_bound (rctx w1 i)" by blast
  have "same_handles i w w1"
    by (rule EHDestroyEventHandler_handles [OF d assms(3)]) (use assms(1) in \<open>auto simp: joins_sound_def\<close>)
  then have len: "i < length (sReadersContexts w1)" using assms(3) by (simp add: same_handles_len)
  from RFUnInitializeReader_returns [OF this b] obtain w2 where u: "RFUnInitializeReader i w1 = Some (SCARD_S_SUCCESS, w2)" by blast
  from RFUnInitializeReader_effect [OF u len] b
  obtain m f where "pdwMutex (rctx w2 i) = Some m" "pdwFeeds (rctx w2 i) = Some f"
    by (auto simp: driver_bound_def)
  then show ?thesis using d u by (simp add: remove_one_def Let_def)
qed

lemma touches_table:
  "touches i w w' \<Longrightarrow> sReadersContexts w' = (sReadersContexts w)[i := rctx w' i]"
proof (rule nth_equalityI)
  fix j assume t: "touches i w w'" and "j < length (sReadersContexts w')"
  then show "sReadersContexts w' ! j = (sReadersContexts w)[i := rctx w' i] ! j"
    by (cases "j = i") (simp_all add: touches_def rctx_def)
qed (simp add: touches_def)

lemma remove_readers_returns:
  assumes "joins_sound sys" and "joins_return sys" and "drivers_bound w"
  shows "\<exists>w'. remove_readers sys name port w = Some (SCARD_S_SUCCESS, w')
    \<and> RFReaderInfoNamePort w' port name = Inl SCARD_E_INVALID_VALUE
    \<and> length (sReadersContexts w') = length (sReadersContexts w)
    \<and> (\<forall>j < length (sReadersContexts w). if named_reader name port (rctx w j)
          then vHandle (rctx w' j) = 0 \<and> (\<forall>c \<in> set (psHandles (rctx w' j)). hCard c = 0) else rctx w' j = rctx w j)"
  using assms(3)
proof (induction "loaded w" arbitrary: w rule: less_induct)
  case less
  show ?case
  proof (cases "RFReaderInfoNamePort w port name")
    case (Inl e)
    have "\<not> named_reader name port (rctx w j)" if "j < length (sReadersContexts w)" for j
      using NamePort_Inl [OF Inl] nth_mem [OF that] unfolding named_reader_def rctx_def by blast
    with NamePort_Inl [OF Inl] Inl show ?thesis by (simp add: remove_readers.simps [of sys name port w])
  next
    case (Inr i)
    note n = NamePort_Inr [OF Inr]
    then have i: "i < length (sReadersContexts w)" and nr: "named_reader name port (rctx w i)" by (simp_all add: named_reader_def)
    then have "driver_bound (rctx w i)" using less.prems n by (auto simp: drivers_bound_def rctx_def)
    from remove_one_returns [OF assms(1,2) i this] obtain w1 where r: "remove_one sys i w = Some (None, w1)" by blast
    from r i assms(1) have t: "touches i w w1" and z: "vHandle (rctx w1 i) = 0" "\<forall>c \<in> set (psHandles (rctx w1 i)). hCard c = 0"
      by (cases rule: remove_one_cases; simp)+
    note tab = touches_table [OF t]
    have "int (loaded w1) = int (loaded w) - 1"
      using count_if_update [OF i, of "\<lambda>r. vHandle r \<noteq> 0" "rctx w1 i"] n z unfolding loaded_def tab by (simp flip: rctx_def)
    moreover have "drivers_bound w1"
      using less.prems z set_update_subset_insert [of "sReadersContexts w" i "rctx w1 i"] by (auto simp: drivers_bound_def tab)
    ultimately obtain w' where w': "remove_readers sys name port w1 = Some (SCARD_S_SUCCESS, w')"
      "RFReaderInfoNamePort w' port name = Inl SCARD_E_INVALID_VALUE" "length (sReadersContexts w') = length (sReadersContexts w1)"
      "\<forall>j < length (sReadersContexts w1). if named_reader name port (rctx w1 j)
          then vHandle (rctx w' j) = 0 \<and> (\<forall>c \<in> set (psHandles (rctx w' j)). hCard c = 0) else rctx w' j = rctx w1 j"
      using less.hyps [of w1] by auto
    have ni: "\<not> named_reader name port (rctx w1 i)" using z by (simp add: named_reader_def)
    have frame: "length (sReadersContexts w1) = length (sReadersContexts w)" "\<And>j. j \<noteq> i \<Longrightarrow> rctx w1 j = rctx w j"
      using t by (simp_all add: touches_def)
    have "if named_reader name port (rctx w j)
          then vHandle (rctx w' j) = 0 \<and> (\<forall>c \<in> set (psHandles (rctx w' j)). hCard c = 0) else rctx w' j = rctx w j"
      if j: "j < length (sReadersContexts w)" for j
    proof (cases "j = i")
      case True
      with w'(4) i ni nr z frame show ?thesis by simp
    next
      case False
      with w'(4) j frame show ?thesis by metis
    qed
    moreover have "remove_readers sys name port w = Some (SCARD_S_SUCCESS, w')"
      using Inr r w'(1) by (simp add: remove_readers.simps [of sys name port w])
    ultimately show ?thesis using w' frame by auto
  qed
qed

subsection \<open>Adding keeps the rest of the table\<close>

lemma get_capability_machine: "get_capability i tag w = Some (rv, len, v, w') \<Longrightarrow> \<exists>h. w' = with_machine w h"
  by (auto simp: get_capability_def bind_eq_Some_conv)

lemma same_handles_cells [simp]:
  "same_handles i w (cell_add a d w') = same_handles i w w'" "same_handles i (cell_add a d w) w' = same_handles i w w'"
  "same_handles i w (new_cell w') = same_handles i w w'" "same_handles i (new_cell w) w' = same_handles i w w'"
  "same_handles i w (w'\<lparr>next_cell := n\<rparr>) = same_handles i w w'" "same_handles i (w\<lparr>next_cell := n\<rparr>) w' = same_handles i w w'"
  by (simp_all add: same_handles_def touches_def cell_add_def new_cell_def rctx_def)

lemma own_counters_handles: "same_handles i w (own_counters i w)"
  by (simp add: own_counters_def Let_def)

lemma clone_reader_handles: "clone_reader p i w = Some w' \<Longrightarrow> same_handles i w w'"
  by (auto simp: clone_reader_def Let_def bind_eq_Some_conv split: if_splits dest!: get_capability_machine)

lemma slot_mutex_handles: "slot_mutex a b w = Some w' \<Longrightarrow> same_handles b w w'"
  by (auto simp: slot_mutex_def Let_def bind_eq_Some_conv split: if_splits dest!: get_capability_machine)

lemma start_polling_handles: "start_polling sys i w = Some (rv, w') \<Longrightarrow> same_handles i w w'"
  by (auto simp: start_polling_def bind_eq_Some_conv dest!: EHSpawnEventHandler_handles)

text \<open>A reader that could be started has a driver; nothing else of the table has changed.\<close>

lemma upd_rctx_vHandle: "(\<And>r. vHandle (f r) = vHandle r) \<Longrightarrow> vHandle (rctx (upd_rctx i f w) j) = vHandle (rctx w j)"
  by (cases "j = i"; cases "i < length (sReadersContexts w)") (simp_all add: upd_rctx_beyond)

lemma RFInitializeReader_loaded:
  "RFInitializeReader sys i w = Some (SCARD_S_SUCCESS, w') \<Longrightarrow> i < length (sReadersContexts w) \<Longrightarrow> vHandle (rctx w' i) \<noteq> 0"
  by (auto simp: RFInitializeReader_def RFLoadReader_def RFBindFunctions_def Let_def bind_eq_Some_conv upd_rctx_vHandle
      split: if_splits)

lemma EHSpawnEventHandler_vHandle: "EHSpawnEventHandler i f th w = Some (rv, w') \<Longrightarrow> vHandle (rctx w' j) = vHandle (rctx w j)"
  by (cases th) (auto simp: EHSpawnEventHandler_def Let_def bind_eq_Some_conv upd_rctx_vHandle split: if_splits option.splits
      dest!: same_tables_upd_rstate same_tables_rctx)

lemma start_polling_vHandle: "start_polling sys i w = Some (rv, w') \<Longrightarrow> vHandle (rctx w' j) = vHandle (rctx w j)"
  by (auto simp: start_polling_def bind_eq_Some_conv dest!: EHSpawnEventHandler_vHandle [where j = j])

lemma start_reader_cases:
  assumes "start_reader sys name port i w = Some (rv, w')"
  obtains (started) "rv = SCARD_S_SUCCESS" "same_handles i w w'" "i < length (sReadersContexts w) \<longrightarrow> vHandle (rctx w' i) \<noteq> 0"
    | (failed) w1 rv1 where "rv \<noteq> SCARD_S_SUCCESS" "same_handles i w w1" "RFRemoveReader sys (Some name) port w1 = Some (rv1, w')"
proof -
  from assms obtain rv1 w1 where init: "RFInitializeReader sys i (w\<lparr>dwNumReadersContexts := dwNumReadersContexts w + 1\<rparr>) = Some (rv1, w1)"
    by (auto simp: start_reader_def bind_eq_Some_conv)
  have h1: "same_handles i w w1" using RFInitializeReader_handles [OF init] by simp
  show thesis
  proof (cases "rv1 = SCARD_S_SUCCESS")
    case False
    with assms init h1 failed show thesis by (auto simp: start_reader_def bind_eq_Some_conv)
  next
    case True
    with assms init obtain rv2 w2 where p: "start_polling sys i w1 = Some (rv2, w2)"
      by (auto simp: start_reader_def bind_eq_Some_conv)
    have h2: "same_handles i w w2" using h1 start_polling_handles [OF p] by (rule same_handles_trans)
    show thesis
    proof (cases "rv2 = SCARD_S_SUCCESS")
      case False
      with assms init True p h2 failed show thesis by (auto simp: start_reader_def bind_eq_Some_conv)
    next
      case ok: True
      have "vHandle (rctx w2 i) \<noteq> 0" if "i < length (sReadersContexts w)"
        using RFInitializeReader_loaded [of sys i _ w1] init True that start_polling_vHandle [OF p, of i] by simp
      with assms init True p ok h2 started show thesis by (auto simp: start_reader_def)
    qed
  qed
qed

lemma RFRemoveReader_inv:
  assumes "RFRemoveReader sys n port w = Some (rv, w')" and "joins_sound sys" and "daemon_inv w"
  shows "daemon_inv w' \<and> (sharing_inv w \<longrightarrow> sharing_inv w')"
  using assms remove_readers_inv by (fastforce simp: RFRemoveReader_def split: option.splits)

lemma start_reader_inv:
  assumes "start_reader sys name port i w = Some (rv, w')" and "joins_sound sys" and "daemon_inv w" and "i < 16"
    and "dwIdentity (rctx w i) = slot_identity i"
  shows "daemon_inv w' \<and> (sharing_inv w \<longrightarrow> sharing_inv w')"
  using assms(1)
proof (cases rule: start_reader_cases)
  case started
  from same_handles_inv [OF started(2) assms(3,4)] assms(5) show ?thesis by simp
next
  case (failed w1 rv1)
  from same_handles_inv [OF failed(2) assms(3,4)] assms(5) have "daemon_inv w1 \<and> (sharing_inv w \<longrightarrow> sharing_inv w1)" by simp
  with RFRemoveReader_inv [OF failed(3) assms(2)] show ?thesis by blast
qed

lemma with_machine_same [simp]: "with_machine (with_machine w h) h' = with_machine w h'" "with_machine w (machine w) = w"
  by (simp_all add: with_machine_def)

lemma scan_reader_machine: "scan_reader lib port i s w = Some (s', w') \<Longrightarrow> \<exists>h. w' = with_machine w h"
  by (auto simp: scan_reader_def Let_def bind_eq_Some_conv split: if_splits dest!: get_capability_machine)
     (metis with_machine_same(2))+

lemma bind_pairD: "(m \<bind> (\<lambda>(a, b). f a b)) = Some r \<Longrightarrow> \<exists>a b. m = Some (a, b) \<and> f a b = Some r"
  by (auto simp: bind_eq_Some_conv)

lemma scan_readers_machine: "scan_readers lib port is s w = Some (s', w') \<Longrightarrow> \<exists>h. w' = with_machine w h"
proof (induction "is" arbitrary: s w)
  case Nil
  then show ?case by simp (metis with_machine_same(2))
next
  case (Cons i "is")
  then show ?case by (fastforce simp: bind_eq_Some_conv dest!: scan_reader_machine)
qed

text \<open>\<^verbatim>\<open>RFSetReaderName\<close> writes the name and the slot number of the new reader, or nothing.\<close>

lemma RFSetReaderName_cases:
  assumes "RFSetReaderName i name lib port slot w = Some (parent, w')"
  obtains (refused) h where "parent = -2" "w' = with_machine w h"
    | (named) s h n where "if slot = 0 \<and> dwNumReadersContexts w \<noteq> 0
            then scan_readers lib port [0..<16] scan_start w = Some (s, with_machine w h) else s = scan_start \<and> with_machine w h = w"
        "parent = scan_parent s"
        "if scan_digit s \<noteq> -1 then first_index Not (scan_used s) = Some n \<and> int n < scan_channels s else n = 0"
        "w' = upd_rctx i (\<lambda>r. r\<lparr>lpcReader := take 99 (name @ '' '' @ fmt02X n @ '' '' @ fmt02X (unat slot)),
            dwSlot := push_bit 16 (of_nat n) + slot\<rparr>) (with_machine w h)"
proof -
  from assms obtain s w1 where s: "(if slot = 0 \<and> dwNumReadersContexts w \<noteq> 0 then scan_readers lib port [0..<16] scan_start w
      else Some (scan_start, w)) = Some (s, w1)"
    and rest: "(case (if scan_digit s \<noteq> -1 then first_index Not (scan_used s) else Some 0) of None \<Rightarrow> Some (-2, w1)
          | Some n \<Rightarrow> if scan_digit s \<noteq> -1 \<and> int n \<ge> scan_channels s then Some (-2, w1)
              else Some (scan_parent s, upd_rctx i (\<lambda>r. r\<lparr>lpcReader := take (MAX_READERNAME - 1) (name @ '' '' @ fmt02X n @ '' '' @ fmt02X (unat slot)),
                     dwSlot := push_bit 16 (of_nat n) + slot\<rparr>) w1)) = Some (parent, w')"
    using bind_pairD [OF assms [unfolded RFSetReaderName_def]] by blast
  obtain h where h: "w1 = with_machine w h" "if slot = 0 \<and> dwNumReadersContexts w \<noteq> 0
      then scan_readers lib port [0..<16] scan_start w = Some (s, with_machine w h) else s = scan_start \<and> with_machine w h = w"
    using s scan_readers_machine [of lib port "[0..<16]" scan_start w s w1] by (auto split: if_splits) (metis with_machine_same(2))+
  show thesis
  proof (cases "if scan_digit s \<noteq> -1 then first_index Not (scan_used s) else Some 0")
    case None
    then show thesis using rest h(1) by (intro refused [of h]) (simp_all split: option.splits del: first_index_None_iff)
  next
    case (Some n)
    show thesis
    proof (cases "scan_digit s \<noteq> -1 \<and> int n \<ge> scan_channels s")
      case True
      with rest Some h(1) show thesis by (intro refused [of h]) simp_all
    next
      case False
      with rest Some h show thesis by (intro named [of s h n]) (auto split: if_splits)
    qed
  qed
qed

lemma RFSetReaderName_clients:
  assumes "RFSetReaderName i name lib port slot w = Some (parent, w')" and "i < length (sReadersContexts w)"
  shows "touches i w w' \<and> psHandles (rctx w' i) = psHandles (rctx w i) \<and> same_clients i w w'"
  using assms(1)
proof (cases rule: RFSetReaderName_cases)
  case (refused h)
  then show ?thesis using same_tables_touches [of w w' i] by (simp add: same_clients_def)
next
  case (named s h n)
  have "touches i w (with_machine w h)" by (rule same_tables_touches) simp
  with named(4) assms(2) show ?thesis by (simp add: same_clients_def)
qed

lemma first_free:
  assumes "first_index (\<lambda>r. vHandle r = 0) (sReadersContexts w) = Some b" and "daemon_inv w"
  shows "b < 16" "b < length (sReadersContexts w)" "vHandle (rctx w b) = 0" "length (psHandles (rctx w b)) = 16"
  using first_index_SomeD [OF assms(1)] assms(2) by (auto simp: daemon_inv_def reader_inv_def rctx_def)

lemma add_slot_inv:
  assumes "add_slot sys name port lib dev a j w = Some (early, w')" and "joins_sound sys" and "daemon_inv w"
  shows "daemon_inv w' \<and> (sharing_inv w \<longrightarrow> sharing_inv w')"
proof (cases "first_index (\<lambda>r. vHandle r = 0) (sReadersContexts w)")
  case None
  with assms show ?thesis
    by (auto simp: add_slot_def bind_eq_Some_conv simp del: first_index_None_iff dest!: RFRemoveReader_inv)
next
  case (Some b)
  note f = first_free [OF Some assms(3)]
  let ?w1 = "upd_rctx b (copy_slot j a b lib dev (rctx w a)) w"
  from assms(1) Some obtain feeds w2 rv where m: "slot_mutex a b (cell_add feeds 1 ?w1) = Some w2"
    and s: "start_reader sys name port b w2 = Some (rv, w')"
    by (auto simp: add_slot_def Let_def bind_eq_Some_conv)
  have "idle_slot b (rctx ?w1 b)" using f by (auto simp: idle_slot_def copy_slot_def)
  then have w1: "daemon_inv ?w1 \<and> (sharing_inv w \<longrightarrow> sharing_inv ?w1)" by (rule idle_slot_daemon [OF _ _ assms(3)]) simp
  have id: "dwIdentity (rctx ?w1 b) = slot_identity b" using f by (simp add: copy_slot_def)
  have h: "same_handles b ?w1 w2" using slot_mutex_handles [OF m] by simp
  from same_handles_inv [OF h _ f(1)] w1 id have w2: "daemon_inv w2 \<and> (sharing_inv w \<longrightarrow> sharing_inv w2)" by simp
  have "dwIdentity (rctx w2 b) = slot_identity b" using h id by (simp add: same_handles_def)
  from start_reader_inv [OF s assms(2) _ f(1) this] w2 show ?thesis by simp
qed

lemma add_slots_inv:
  assumes "add_slots sys name port lib dev a js w = Some (rv, w')" and "joins_sound sys" and "daemon_inv w"
  shows "daemon_inv w' \<and> (sharing_inv w \<longrightarrow> sharing_inv w')"
  using assms
proof (induction js arbitrary: w)
  case (Cons j js)
  from Cons.prems(1) obtain early w1 where a: "add_slot sys name port lib dev a j w = Some (early, w1)"
    and rest: "(case early of Some rv \<Rightarrow> Some (rv, w1) | None \<Rightarrow> add_slots sys name port lib dev a js w1) = Some (rv, w')"
    by (auto simp: bind_eq_Some_conv)
  from add_slot_inv [OF a Cons.prems(2,3)] rest Cons.IH [of w1] Cons.prems(2) show ?case by (cases early) auto
qed simp

text \<open>The steps of an addition that gets as far as a free slot and a name.\<close>

lemma add_reader_cases:
  assumes "add_reader sys name port lib dev w = Some (rv, w')" and "daemon_inv w"
  obtains (refused) "rv \<noteq> SCARD_S_SUCCESS" "w' = w"
    | (unnamed) i parent where "rv \<noteq> SCARD_S_SUCCESS" "i < 16" "same_clients i w w'" "RFSetReaderName i name lib port 0 w = Some (parent, w')"
    | (started) i parent w1 w3 rv1 w4 where "length name \<le> 93" "first_index (\<lambda>r. vHandle r = 0) (sReadersContexts w) = Some i"
        "RFSetReaderName i name lib port 0 w = Some (parent, w1)" "same_handles i (upd_rctx i (new_slot i lib dev port) w1) w3"
        "start_reader sys name port i w3 = Some (rv1, w4)"
        "rv1 \<noteq> SCARD_S_SUCCESS \<and> rv = rv1 \<and> w' = w4
         \<or> rv1 = SCARD_S_SUCCESS \<and> (\<exists>h js. w' = with_machine w4 h \<and> rv = SCARD_S_SUCCESS
             \<or> add_slots sys name port lib dev i js (with_machine w4 h) = Some (rv, w'))"
proof (cases "length name > 93 \<or> length lib \<ge> 100 \<or> length dev \<ge> 255 \<or> duplicate_reader name port w")
  case True
  with assms(1) show thesis by (intro refused) (auto simp: add_reader_def split: if_splits)
next
  case ok: False
  show thesis
  proof (cases "first_index (\<lambda>r. vHandle r = 0) (sReadersContexts w)")
    case None
    with ok assms(1) show thesis by (intro refused) (auto simp: add_reader_def simp del: first_index_None_iff)
  next
    case (Some i)
    note f = first_free [OF Some assms(2)]
    from ok Some assms(1) obtain parent w1 where n: "RFSetReaderName i name lib port 0 w = Some (parent, w1)"
      by (auto simp: add_reader_def bind_eq_Some_conv)
    note c = RFSetReaderName_clients [OF n f(2)]
    show thesis
    proof (cases "parent < -1")
      case True
      with ok Some n c f(1) assms(1) show thesis by (intro unnamed) (auto simp: add_reader_def)
    next
      case False
      let ?w2 = "upd_rctx i (new_slot i lib dev port) w1"
      from False ok Some n assms(1) obtain v rv1 w4 where
        v: "(if 0 \<le> parent \<and> parent < 16 then clone_reader (nat parent) i ?w2 else Some ?w2) = Some v"
        and s: "start_reader sys name port i (own_counters i v) = Some (rv1, w4)"
        and rest: "(if rv1 \<noteq> SCARD_S_SUCCESS then Some (rv1, w4)
            else do {
              (rv2, len, slots, w5) \<leftarrow> get_capability i TAG_IFD_SLOTS_NUMBER w4;
              if rv2 \<noteq> IFD_SUCCESS \<or> len \<noteq> 1 \<or> slots = 0 \<or> slots = 1 then Some (SCARD_S_SUCCESS, w5)
              else add_slots sys name port lib dev i [1..<unat slots] w5 }) = Some (rv, w')"
        by (auto simp: add_reader_def Let_def bind_eq_Some_conv)
      have "same_handles i ?w2 v" using v by (auto split: if_splits dest: clone_reader_handles)
      then have h: "same_handles i ?w2 (own_counters i v)" using own_counters_handles by (rule same_handles_trans)
      show thesis
      proof (rule started [OF _ Some n h s])
        show "rv1 \<noteq> SCARD_S_SUCCESS \<and> rv = rv1 \<and> w' = w4
         \<or> rv1 = SCARD_S_SUCCESS \<and> (\<exists>h js. w' = with_machine w4 h \<and> rv = SCARD_S_SUCCESS
             \<or> add_slots sys name port lib dev i js (with_machine w4 h) = Some (rv, w'))"
          using rest by (fastforce simp: bind_eq_Some_conv split: if_splits dest!: get_capability_machine)
      qed (use ok in simp)
    qed
  qed
qed

lemma add_reader_inv:
  assumes "add_reader sys name port lib dev w = Some (rv, w')" and "joins_sound sys" and "daemon_inv w"
  shows "daemon_inv w' \<and> (sharing_inv w \<longrightarrow> sharing_inv w')"
  using assms(1,3)
proof (cases rule: add_reader_cases)
  case refused
  then show ?thesis using assms(3) by simp
next
  case (unnamed i parent)
  from same_clients_inv [OF unnamed(3) assms(3) unnamed(2)] show ?thesis by simp
next
  case (started i parent w1 w3 rv1 w4)
  note f = first_free [OF started(2) assms(3)]
  note c = RFSetReaderName_clients [OF started(3) f(2)]
  let ?w2 = "upd_rctx i (new_slot i lib dev port) w1"
  have len: "i < length (sReadersContexts w1)" using c f by (simp add: touches_def)
  have "idle_slot i (rctx ?w2 i)" using f c len by (auto simp: idle_slot_def new_slot_def)
  then have w2: "daemon_inv ?w2 \<and> (sharing_inv w \<longrightarrow> sharing_inv ?w2)"
    by (rule idle_slot_daemon [OF _ _ assms(3)]) (simp add: c)
  have id: "dwIdentity (rctx ?w2 i) = slot_identity i" using len by (simp add: new_slot_def)
  from same_handles_inv [OF started(4) _ f(1)] w2 id have w3: "daemon_inv w3 \<and> (sharing_inv w \<longrightarrow> sharing_inv w3)" by simp
  have "dwIdentity (rctx w3 i) = slot_identity i" using started(4) id by (simp add: same_handles_def)
  from start_reader_inv [OF started(5) assms(2) _ f(1) this] w3
  have w4: "daemon_inv w4 \<and> (sharing_inv w \<longrightarrow> sharing_inv w4)" by simp
  have m: "daemon_inv (with_machine w4 h) = daemon_inv w4" "sharing_inv (with_machine w4 h) = sharing_inv w4" for h
    by (simp_all add: daemon_inv_def sharing_inv_def)
  from started(6) w4 m add_slots_inv [OF _ assms(2)] show ?thesis by blast
qed

text \<open>An added slot leaves the loaded readers as they are.\<close>

lemma add_slot_frame:
  assumes "add_slot sys name port lib dev a j w = Some (None, w')"
  shows "\<exists>b. touches b w w' \<and> vHandle (rctx w b) = 0"
proof (cases "first_index (\<lambda>r. vHandle r = 0) (sReadersContexts w)")
  case None
  with assms show ?thesis by (auto simp: add_slot_def bind_eq_Some_conv simp del: first_index_None_iff)
next
  case (Some b)
  let ?w1 = "upd_rctx b (copy_slot j a b lib dev (rctx w a)) w"
  from assms Some obtain feeds w2 where m: "slot_mutex a b (cell_add feeds 1 ?w1) = Some w2"
    and s: "start_reader sys name port b w2 = Some (SCARD_S_SUCCESS, w')"
    by (auto simp: add_slot_def Let_def bind_eq_Some_conv split: if_splits)
  have "same_handles b w2 w'" using s by (cases rule: start_reader_cases) simp_all
  then have "same_handles b ?w1 w'" using slot_mutex_handles [OF m] same_handles_trans by simp
  then have "touches b w w'" by (simp add: same_handles_def)
  moreover have "vHandle (rctx w b) = 0" using first_index_SomeD [OF Some] by (simp add: rctx_def)
  ultimately show ?thesis by blast
qed

lemma add_slots_frame:
  assumes "add_slots sys name port lib dev a js w = Some (SCARD_S_SUCCESS, w')"
  shows "length (sReadersContexts w') = length (sReadersContexts w) \<and> (\<forall>k. vHandle (rctx w k) \<noteq> 0 \<longrightarrow> rctx w' k = rctx w k)"
  using assms
proof (induction js arbitrary: w)
  case (Cons j js)
  from Cons.prems(1) obtain early w1 where a: "add_slot sys name port lib dev a j w = Some (early, w1)"
    and rest: "(case early of Some rv \<Rightarrow> Some (rv, w1) | None \<Rightarrow> add_slots sys name port lib dev a js w1) = Some (SCARD_S_SUCCESS, w')"
    by (auto simp: bind_eq_Some_conv)
  have "early \<noteq> Some SCARD_S_SUCCESS"
    using a by (auto simp: add_slot_def Let_def bind_eq_Some_conv split: if_splits option.splits)
  with rest have none: "early = None" "add_slots sys name port lib dev a js w1 = Some (SCARD_S_SUCCESS, w')"
    by (cases early; simp)+
  from add_slot_frame a none obtain b where "touches b w w1" "vHandle (rctx w b) = 0" by blast
  then have "length (sReadersContexts w1) = length (sReadersContexts w)" "\<And>k. vHandle (rctx w k) \<noteq> 0 \<Longrightarrow> rctx w1 k = rctx w k"
    unfolding touches_def by metis+
  with Cons.IH [OF none(2)] show ?case by simp
qed simp

subsection \<open>Names\<close>

lemma fmt02X_digit: "n < 16 \<Longrightarrow> fmt02X n = [CHR ''0'', ''0123456789ABCDEF'' ! n]"
  by (simp add: fmt02X_def hex_digits.simps)

lemma strtol16_fmt02X: "strtol16 (fmt02X n @ CHR '' '' # xs) = int n" if "n < 16"
proof -
  have "n \<in> set [0..<16]" using that by simp
  then show ?thesis
    unfolding fmt02X_digit [OF that]
    by (simp add: upt_rec) (elim disjE; simp add: strtol16_def take_sign_def has_0x_def digit_value_def digits_value_def is_space_def)
qed

text \<open>The name of the reader with digit \<open>n\<close>, and the digit and the name read back from it.\<close>

lemma reader_name_parts:
  assumes "length name \<le> 93" and "n < 16"
  shows "take 99 (name @ '' '' @ fmt02X n @ '' '' @ fmt02X (unat (0 :: DWORD))) = name @ '' '' @ fmt02X n @ '' 00''"
    "strip_reader (name @ '' '' @ fmt02X n @ '' 00'') = name"
    "strtol16 (drop (length (name @ '' '' @ fmt02X n @ '' 00'') - 5) (name @ '' '' @ fmt02X n @ '' 00'')) = int n"
proof -
  have z: "fmt02X (unat (0 :: DWORD)) = ''00''" by (simp add: fmt02X_digit)
  show "take 99 (name @ '' '' @ fmt02X n @ '' '' @ fmt02X (unat (0 :: DWORD))) = name @ '' '' @ fmt02X n @ '' 00''"
    using assms unfolding z by (simp add: fmt02X_digit)
  show "strip_reader (name @ '' '' @ fmt02X n @ '' 00'') = name"
    using assms by (simp add: strip_reader_def fmt02X_digit)
  have "drop (length (name @ '' '' @ fmt02X n @ '' 00'') - 5) (name @ '' '' @ fmt02X n @ '' 00'') = fmt02X n @ CHR '' '' # ''00''"
    using assms by (simp add: fmt02X_digit)
  then show "strtol16 (drop (length (name @ '' '' @ fmt02X n @ '' 00'') - 5) (name @ '' '' @ fmt02X n @ '' 00'')) = int n"
    by (simp only: strtol16_fmt02X [OF assms(2)])
qed

definition name_digit :: "string \<Rightarrow> int" where
  "name_digit s = strtol16 (drop (length s - 5) s)"

lemma scan_reader_cases:
  assumes "scan_reader lib port i s w = Some (s', w')"
  obtains (other) c where "s' = s \<or> s' = s\<lparr>scan_channels := c\<rparr>"
      "\<not> (vHandle (rctx w i) \<noteq> 0 \<and> lpcLibrary (rctx w i) = lib \<and> dwPort (rctx w i) AND 0xFFFF0000 = PCSCLITE_HP_BASE_PORT
          \<and> dwPort (rctx w i) \<noteq> port)"
    | (sibling) c where "0 \<le> name_digit (lpcReader (rctx w i))" "name_digit (lpcReader (rctx w i)) < 16"
      "s' = s\<lparr>scan_parent := int i, scan_digit := name_digit (lpcReader (rctx w i)), scan_channels := c,
         scan_used := (scan_used s)[nat (name_digit (lpcReader (rctx w i))) := True]\<rparr>"
proof (cases "vHandle (rctx w i) \<noteq> 0 \<and> lpcLibrary (rctx w i) = lib")
  case False
  with assms show thesis by (intro other) (auto simp: scan_reader_def Let_def)
next
  case True
  with assms obtain ret len v w1 where g: "get_capability i TAG_IFD_SIMULTANEOUS_ACCESS w = Some (ret, len, v, w1)"
    by (auto simp: scan_reader_def Let_def bind_eq_Some_conv)
  let ?c = "if ret = IFD_SUCCESS \<and> len = 1 \<and> v > 1 then uint v else 1"
  show thesis
  proof (cases "dwPort (rctx w i) AND 0xFFFF0000 = PCSCLITE_HP_BASE_PORT \<and> dwPort (rctx w i) \<noteq> port \<or> ?c > 1")
    case False
    with assms True g show thesis by (intro other [of ?c]) (auto simp: scan_reader_def Let_def)
  next
    case hp: True
    with assms True g show thesis
      by (intro sibling [of ?c]) (auto simp: scan_reader_def Let_def name_digit_def split: if_splits)
  qed
qed

lemma scan_reader_used:
  assumes "scan_reader lib port i s w = Some (s', w')"
  shows "length (scan_used s') = length (scan_used s)
    \<and> (\<forall>k < length (scan_used s). scan_used s ! k \<longrightarrow> scan_used s' ! k) \<and> (scan_digit s \<noteq> -1 \<longrightarrow> scan_digit s' \<noteq> -1)"
  using assms
proof (cases rule: scan_reader_cases)
  case (sibling c)
  have "(scan_used s)[j := True] ! k" if "k < length (scan_used s)" "scan_used s ! k" for j k
    using that by (cases "j = k") simp_all
  with sibling show ?thesis by auto
qed auto

lemma scan_readers_used:
  "scan_readers lib port is s w = Some (s', w') \<Longrightarrow> length (scan_used s') = length (scan_used s)
    \<and> (\<forall>k < length (scan_used s). scan_used s ! k \<longrightarrow> scan_used s' ! k) \<and> (scan_digit s \<noteq> -1 \<longrightarrow> scan_digit s' \<noteq> -1)"
proof (induction "is" arbitrary: s w)
  case (Cons i "is")
  then obtain s1 w1 where a: "scan_reader lib port i s w = Some (s1, w1)" and b: "scan_readers lib port is s1 w1 = Some (s', w')"
    by (auto simp: bind_eq_Some_conv)
  from scan_reader_used [OF a] Cons.IH [OF b] show ?case by auto
qed simp

text \<open>The readers \<^verbatim>\<open>RFSetReaderName\<close> has to tell the new one from: loaded from the same library, on another hotplug port.\<close>

definition hotplug_sibling :: "string \<Rightarrow> DWORD \<Rightarrow> 'd READER_CONTEXT \<Rightarrow> bool" where
  "hotplug_sibling lib port r \<longleftrightarrow> vHandle r \<noteq> 0 \<and> lpcLibrary r = lib
     \<and> dwPort r AND 0xFFFF0000 = PCSCLITE_HP_BASE_PORT \<and> dwPort r \<noteq> port"

lemma scan_reader_marks:
  assumes "scan_reader lib port i s w = Some (s', w')" and "hotplug_sibling lib port (rctx w i)" and "length (scan_used s) = 16"
  shows "0 \<le> name_digit (lpcReader (rctx w i)) \<and> name_digit (lpcReader (rctx w i)) < 16
    \<and> scan_used s' ! nat (name_digit (lpcReader (rctx w i))) \<and> scan_digit s' \<noteq> -1"
  using assms(1) by (cases rule: scan_reader_cases) (use assms(2,3) in \<open>auto simp: hotplug_sibling_def\<close>)

lemma scan_readers_marks:
  assumes "scan_readers lib port is s w = Some (s', w')" and "j \<in> set is" and "hotplug_sibling lib port (rctx w j)"
    and "length (scan_used s) = 16"
  shows "0 \<le> name_digit (lpcReader (rctx w j)) \<and> name_digit (lpcReader (rctx w j)) < 16
    \<and> scan_used s' ! nat (name_digit (lpcReader (rctx w j))) \<and> scan_digit s' \<noteq> -1"
  using assms
proof (induction "is" arbitrary: s w)
  case (Cons i "is")
  then obtain s1 w1 where a: "scan_reader lib port i s w = Some (s1, w1)" and b: "scan_readers lib port is s1 w1 = Some (s', w')"
    by (auto simp: bind_eq_Some_conv)
  have r: "rctx w1 j = rctx w j" using scan_reader_machine [OF a] by auto
  have len: "length (scan_used s1) = 16" using scan_reader_used [OF a] Cons.prems(4) by simp
  show ?case
  proof (cases "j = i")
    case True
    with scan_reader_marks [OF a] Cons.prems(3,4)
    have m: "0 \<le> name_digit (lpcReader (rctx w j))" "name_digit (lpcReader (rctx w j)) < 16"
      "scan_used s1 ! nat (name_digit (lpcReader (rctx w j)))" "scan_digit s1 \<noteq> -1" by simp_all
    with scan_readers_used [OF b] len show ?thesis by simp
  next
    case False
    with Cons.IH [OF b] Cons.prems r len show ?thesis by simp
  qed
qed simp

lemma RFSetReaderName_name:
  assumes "RFSetReaderName i name lib port 0 w = Some (parent, w')" and "parent \<noteq> -2" and "length name \<le> 93"
    and "i < length (sReadersContexts w)"
  shows "\<exists>n < 16. lpcReader (rctx w' i) = name @ '' '' @ fmt02X n @ '' 00''"
  using assms(1)
proof (cases rule: RFSetReaderName_cases)
  case (refused h)
  with assms(2) show ?thesis by simp
next
  case (named s h n)
  have "length (scan_used s) = 16"
    using named(1) scan_readers_used [of lib port "[0..<16]" scan_start w s] by (auto simp: scan_start_def split: if_splits)
  then have "n < 16" using named(3) by (auto split: if_splits dest!: first_index_SomeD)
  with named(4) assms(3,4) reader_name_parts(1) [OF assms(3) \<open>n < 16\<close>] show ?thesis by auto
qed

subsection \<open>The operations on all readers\<close>

lemma for_slots_inv:
  assumes "for_slots body is w = Some w'" and "daemon_inv w" and "\<forall>i \<in> set is. i < 16"
    and "\<And>i v v'. i < 16 \<Longrightarrow> body i v = Some v' \<Longrightarrow> daemon_inv v \<Longrightarrow> daemon_inv v' \<and> (sharing_inv v \<longrightarrow> sharing_inv v')"
  shows "daemon_inv w' \<and> (sharing_inv w \<longrightarrow> sharing_inv w')"
  using assms(1-3)
proof (induction "is" arbitrary: w)
  case (Cons i "is")
  then obtain w1 where b: "body i w = Some w1" and f: "for_slots body is w1 = Some w'" by (auto simp: bind_eq_Some_conv)
  from assms(4) [OF _ b] Cons.IH [OF f] Cons.prems show ?case by simp
qed simp

lemma loaded_identity: "daemon_inv w \<Longrightarrow> i < 16 \<Longrightarrow> vHandle (rctx w i) \<noteq> 0 \<Longrightarrow> dwIdentity (rctx w i) = slot_identity i"
  by (auto simp: daemon_inv_def reader_inv_def)

lemma RFCleanupReaders_inv:
  assumes "RFCleanupReaders sys e w = Some (b, w')" and "joins_sound sys" and "daemon_inv w"
  shows "daemon_inv w' \<and> (sharing_inv w \<longrightarrow> sharing_inv w')"
proof (rule for_slots_inv [OF _ assms(3)])
  show "for_slots (\<lambda>i v. if vHandle (rctx v i) \<noteq> 0
        then map_option snd (RFRemoveReader sys (Some (strip_reader (lpcReader (rctx v i)))) (dwPort (rctx v i)) v)
        else Some v) [0..<16] w = Some w'"
    using assms(1) by (simp add: RFCleanupReaders_def)
qed (auto split: if_splits dest: RFRemoveReader_inv [OF _ assms(2)])

lemma RFSuspendAllReaders_inv:
  assumes "RFSuspendAllReaders sys w = Some w'" and "joins_sound sys" and "daemon_inv w"
  shows "daemon_inv w' \<and> (sharing_inv w \<longrightarrow> sharing_inv w')"
proof (rule for_slots_inv [OF assms(1) [unfolded RFSuspendAllReaders_def] assms(3)])
  fix i and v v' :: "'a pcscd"
  assume i: "i < 16" and inv: "daemon_inv v"
    and b: "(if vHandle (rctx v i) \<noteq> 0
        then do { (_, v1) \<leftarrow> EHDestroyEventHandler (thread_join sys i) i v;
                  (_, h) \<leftarrow> IFDCloseIFD (rctx v1 i) (machine v1);
                  Some (with_machine v1 h) }
        else Some v) = Some v'"
  show "daemon_inv v' \<and> (sharing_inv v \<longrightarrow> sharing_inv v')"
  proof (cases "vHandle (rctx v i) = 0")
    case False
    with b obtain rv v1 where d: "EHDestroyEventHandler (thread_join sys i) i v = Some (rv, v1)" and v': "\<exists>h. v' = with_machine v1 h"
      by (auto simp: bind_eq_Some_conv)
    have "same_handles i v v1"
      by (rule EHDestroyEventHandler_handles [OF d]) (use assms(2) i inv in \<open>auto simp: joins_sound_def daemon_inv_def\<close>)
    then have "same_handles i v v'" using v' by auto
    from same_handles_inv [OF this inv i] loaded_identity [OF inv i False] show ?thesis by simp
  qed (use b inv in simp)
qed simp

lemma RFAwakeAllReaders_inv:
  assumes "RFAwakeAllReaders sys w = Some w'" and "daemon_inv w"
  shows "daemon_inv w' \<and> (sharing_inv w \<longrightarrow> sharing_inv w')"
proof (rule for_slots_inv [OF assms(1) [unfolded RFAwakeAllReaders_def] assms(2)])
  fix i and v v' :: "'a pcscd"
  assume i: "i < 16" and inv: "daemon_inv v"
    and b: "(if vHandle (rctx v i) \<noteq> 0 \<and> pthThread (rctx v i) = 0
        then do { v1 \<leftarrow> (if \<exists>j \<in> set [0..<i]. vHandle (rctx v j) = vHandle (rctx v i) \<and> dwPort (rctx v j) = dwPort (rctx v i)
                         then Some v
                         else do { (_, h) \<leftarrow> IFDOpenIFD (rctx v i) (machine v); Some (with_machine v h) });
                  (_, v2) \<leftarrow> EHSpawnEventHandler i None (thread_create sys i) v1;
                  Some (upd_rctx i (\<lambda>r. RFSetReaderEventState r SCARD_RESET) v2) }
        else Some v) = Some v'"
  show "daemon_inv v' \<and> (sharing_inv v \<longrightarrow> sharing_inv v')"
  proof (cases "vHandle (rctx v i) \<noteq> 0 \<and> pthThread (rctx v i) = 0")
    case True
    with b obtain h rv v2 where s: "EHSpawnEventHandler i None (thread_create sys i) (with_machine v h) = Some (rv, v2)"
      and v': "v' = upd_rctx i (\<lambda>r. RFSetReaderEventState r SCARD_RESET) v2"
      by (auto simp: bind_eq_Some_conv split: if_splits) (metis with_machine_same(2))
    have h2: "same_handles i v v2" using EHSpawnEventHandler_handles [OF s] by simp
    then have "i < length (sReadersContexts v2)" using i inv same_handles_len by (fastforce simp: daemon_inv_def)
    from effect_handles [OF event_effect [OF this]] h2 v' have "same_handles i v v'" by (blast intro: same_handles_trans)
    from same_handles_inv [OF this inv i] loaded_identity [OF inv i] True show ?thesis by simp
  qed (use b inv in auto)
qed simp

lemma add_entry_inv:
  assumes "add_entry sys e w = Some w'" and "joins_sound sys" and "daemon_inv w"
  shows "daemon_inv w' \<and> (sharing_inv w \<longrightarrow> sharing_inv w')"
  using assms add_reader_inv by (fastforce simp: add_entry_def RFAddReader_def)

lemma RFStartSerialReaders_inv:
  assumes "RFStartSerialReaders sys conf crc w = Some (rv, crc', w')" and "joins_sound sys" and "daemon_inv w"
  shows "daemon_inv w' \<and> (sharing_inv w \<longrightarrow> sharing_inv w')"
proof -
  have "daemon_inv u' \<and> (sharing_inv u \<longrightarrow> sharing_inv u')" if "add_entries sys es u = Some u'" "daemon_inv u" for es and u u' :: "'a pcscd"
    using that
  proof (induction es arbitrary: u)
    case (Cons e es)
    then obtain u1 where a: "add_entry sys e u = Some u1" and b: "add_entries sys es u1 = Some u'" by (auto simp: bind_eq_Some_conv)
    from add_entry_inv [OF a assms(2) Cons.prems(2)] Cons.IH [OF b] show ?case by blast
  qed simp
  with assms show ?thesis by (fastforce simp: RFStartSerialReaders_def split: option.splits)
qed

lemma machine_inv [simp]: "daemon_inv (with_machine w h) = daemon_inv w" "sharing_inv (with_machine w h) = sharing_inv w"
  by (simp_all add: daemon_inv_def sharing_inv_def)

lemma recheck_slot_inv:
  assumes "recheck_slot sys es i r p w = Some (p', w')" and "joins_sound sys" and "daemon_inv w"
  shows "daemon_inv w' \<and> (sharing_inv w \<longrightarrow> sharing_inv w')"
proof -
  have "w' = w \<or> (\<exists>h. w' = with_machine w h) \<or> (\<exists>h n port rv. RFRemoveReader sys n port (with_machine w h) = Some (rv, w'))"
    using assms(1) unfolding recheck_slot_def by (fastforce simp: bind_eq_Some_conv split: if_splits)
  with RFRemoveReader_inv [OF _ assms(2)] assms(3) show ?thesis by fastforce
qed

lemma RFReCheckReaderConf_inv:
  assumes "RFReCheckReaderConf sys conf crc w = Some w'" and "joins_sound sys" and "daemon_inv w"
  shows "daemon_inv w' \<and> (sharing_inv w \<longrightarrow> sharing_inv w')"
proof -
  have slots: "daemon_inv u' \<and> (sharing_inv u \<longrightarrow> sharing_inv u')" if "recheck_slots sys es i rs p u = Some (p', u')" "daemon_inv u"
    for es i rs p p' and u u' :: "'a pcscd"
    using that
  proof (induction rs arbitrary: p u)
    case (Cons r rs)
    then obtain p1 u1 where a: "recheck_slot sys es i r p u = Some (p1, u1)" and b: "recheck_slots sys es i rs p1 u1 = Some (p', u')"
      by (auto simp: bind_eq_Some_conv)
    from recheck_slot_inv [OF a assms(2) Cons.prems(2)] Cons.IH [OF b] show ?case by blast
  qed simp
  have "daemon_inv u' \<and> (sharing_inv u \<longrightarrow> sharing_inv u')" if "recheck_entries sys es is u = Some u'" "daemon_inv u"
    for es "is" and u u' :: "'a pcscd"
    using that
  proof (induction "is" arbitrary: u)
    case (Cons i "is")
    then obtain p u1 u2 where a: "recheck_slots sys es i [0..<16] False u = Some (p, u1)"
      and e: "(if p then Some u1 else add_entry sys (es ! i) u1) = Some u2" and b: "recheck_entries sys es is u2 = Some u'"
      by (auto simp: bind_eq_Some_conv)
    have "daemon_inv u1 \<and> (sharing_inv u \<longrightarrow> sharing_inv u1)" by (rule slots [OF a Cons.prems(2)])
    moreover from this e have "daemon_inv u2 \<and> (sharing_inv u1 \<longrightarrow> sharing_inv u2)"
      using add_entry_inv [OF _ assms(2)] by (auto split: if_splits)
    ultimately show ?case using Cons.IH [OF b] by blast
  qed simp
  with assms show ?thesis by (fastforce simp: RFReCheckReaderConf_def split: option.splits if_splits)
qed

subsection \<open>Properties\<close>

text \<open>Plugging readers in and out keeps the daemon consistent: whenever \<^verbatim>\<open>RFAddReader\<close> or \<^verbatim>\<open>RFRemoveReader\<close> returns, with
  success or an error, handles still carry the identity of their slot and the sharing counts are right.
  The polling threads are only assumed to do what the polling loop does.\<close>

theorem reader_changes_keep_invariants:
  assumes "joins_sound sys" and "daemon_inv w" and "sharing_inv w"
  shows "(\<forall>name port lib dev rv w'. RFAddReader sys name port lib dev w = Some (rv, w') \<longrightarrow> daemon_inv w' \<and> sharing_inv w')
    \<and> (\<forall>name port rv w'. RFRemoveReader sys name port w = Some (rv, w') \<longrightarrow> daemon_inv w' \<and> sharing_inv w')"
proof (intro conjI allI impI; (elim conjE)?)
  fix name port lib dev rv w' assume a: "RFAddReader sys name port lib dev w = Some (rv, w')"
  then have "w' = w \<or> (\<exists>n l d. add_reader sys n port l d w = Some (rv, w'))"
    by (auto simp: RFAddReader_def split: option.splits)
  with add_reader_inv assms show "daemon_inv w'" "sharing_inv w'" by blast+
next
  fix name port rv w' assume "RFRemoveReader sys name port w = Some (rv, w')"
  from RFRemoveReader_inv [OF this assms(1,2)] assms(3) show "daemon_inv w'" "sharing_inv w'" by blast+
qed

text \<open>C12: Removing a reader ends and is complete: if the polling threads stop when asked and every loaded reader has its
  driver, \<^verbatim>\<open>RFRemoveReader\<close> returns success, no reader of that name and port is left, all slots of the
  removed reader have lost their driver and their handles, and every other reader is as before.\<close>

theorem remove_reader_complete:
  assumes "joins_sound sys" and "joins_return sys" and "drivers_bound w"
  shows "\<exists>w'. RFRemoveReader sys (Some name) port w = Some (SCARD_S_SUCCESS, w')
    \<and> RFReaderInfoNamePort w' port name = Inl SCARD_E_INVALID_VALUE
    \<and> (\<forall>j < length (sReadersContexts w). if named_reader name port (rctx w j)
          then vHandle (rctx w' j) = 0 \<and> (\<forall>c \<in> set (psHandles (rctx w' j)). hCard c = 0) else rctx w' j = rctx w j)"
  using remove_readers_returns [OF assms, of name port] by (auto simp: RFRemoveReader_def)

text \<open>C13: Adding a reader makes it available and disturbs nobody: a successful \<^verbatim>\<open>RFAddReader\<close> happens only when no reader of that name and port
  was loaded; afterwards the search by name and port finds a slot that was free before, the first free one, with the new reader in it, its own identity and no handle
  connected, and all readers loaded before are unchanged. The number of readers must not be 0 while one is loaded, because the check for duplicates is skipped then.\<close>

theorem add_reader_found:
  assumes "RFAddReader sys (Some name) port (Some lib) (Some dev) w = Some (SCARD_S_SUCCESS, w')" and "daemon_inv w"
    and "dwNumReadersContexts w = 0 \<Longrightarrow> \<forall>j < 16. vHandle (rctx w j) = 0"
  shows "RFReaderInfoNamePort w port name = Inl SCARD_E_INVALID_VALUE
    \<and> (\<exists>i < 16. first_index (\<lambda>r. vHandle r = 0) (sReadersContexts w) = Some i \<and> RFReaderInfoNamePort w' port name = Inr i
       \<and> named_reader name port (rctx w' i) \<and> dwIdentity (rctx w' i) = slot_identity i \<and> connected (rctx w' i) = 0
       \<and> (\<forall>j. vHandle (rctx w j) \<noteq> 0 \<longrightarrow> rctx w' j = rctx w j))"
proof -
  have "add_reader sys name port lib dev w = Some (SCARD_S_SUCCESS, w')" using assms(1) by (simp add: RFAddReader_def)
  from this assms(2) show ?thesis
  proof (cases rule: add_reader_cases)
    case refused
    then show ?thesis by simp
  next
    case (unnamed i parent)
    then show ?thesis by simp
  next
    case (started i parent w1 w3 rv1 w4)
    note f = first_free [OF started(2) assms(2)]
    note c = RFSetReaderName_clients [OF started(3) f(2)]
    let ?w2 = "upd_rctx i (new_slot i lib dev port) w1"
    have len: "i < length (sReadersContexts w1)" using c f by (simp add: touches_def)
    have rv1: "rv1 = SCARD_S_SUCCESS" using started(6) by auto
    from started(5) rv1 have h4: "same_handles i w3 w4" "i < length (sReadersContexts w3) \<longrightarrow> vHandle (rctx w4 i) \<noteq> 0"
      by (cases rule: start_reader_cases; simp)+
    have h: "same_handles i ?w2 w4" using started(4) h4(1) by (rule same_handles_trans)
    have l3: "i < length (sReadersContexts w3)" using same_handles_len [OF started(4)] len by simp
    have t: "touches i w w4" using h c by (auto simp: same_handles_def intro: touches_trans)
    have "parent \<noteq> -2"
    proof
      assume "parent = -2"
      with started(2,3,5,6) assms(1) show False using rv1 by (auto simp: RFAddReader_def add_reader_def split: if_splits)
    qed
    from RFSetReaderName_name [OF started(3) this started(1) f(2)] obtain n where "n < 16"
      "lpcReader (rctx w1 i) = name @ '' '' @ fmt02X n @ '' 00''" by blast
    then have "strip_reader (lpcReader (rctx w4 i)) = name" "dwPort (rctx w4 i) = port"
      using h len reader_name_parts(2) [OF started(1)] by (simp_all add: same_handles_def new_slot_def)
    with h4(2) l3 have nr: "named_reader name port (rctx w4 i)" by (simp add: named_reader_def)
    have "connected (rctx w4 i) = connected (rctx ?w2 i)" using h by (intro connected_cong) (simp add: same_handles_def)
    also have "\<dots> = 0" using len by (simp add: connected_def new_slot_def count_if_def filter_map)
    finally have z: "connected (rctx w4 i) = 0" .
    have rest: "length (sReadersContexts w') = length (sReadersContexts w4)" "\<And>k. vHandle (rctx w4 k) \<noteq> 0 \<Longrightarrow> rctx w' k = rctx w4 k"
      using started(6) rv1 add_slots_frame by fastforce+
    have w'i: "rctx w' i = rctx w4 i" using nr by (intro rest(2)) (simp add: named_reader_def)
    have "rctx w' j = rctx w j" if "vHandle (rctx w j) \<noteq> 0" for j
    proof -
      have "j \<noteq> i" using that f(3) by auto
      then have "rctx w4 j = rctx w j" using t by (simp add: touches_def)
      with rest(2) that show ?thesis by metis
    qed
    then have frame: "\<forall>j. vHandle (rctx w j) \<noteq> 0 \<longrightarrow> rctx w' j = rctx w j" by blast
    have l16: "length (sReadersContexts w) = 16" "length (sReadersContexts w') = 16"
      using assms(2) rest(1) t by (simp_all add: touches_def daemon_inv_def)
    have fresh: "\<not> (vHandle (rctx w j) \<noteq> 0 \<and> name = strip_reader (lpcReader (rctx w j)) \<and> port = dwPort (rctx w j))" if "j < 16" for j
    proof -
      have "\<not> duplicate_reader name port w" using assms(1) by (auto simp: RFAddReader_def add_reader_def split: if_splits)
      moreover have "rctx w j \<in> set (sReadersContexts w)" using that l16 by (simp add: rctx_def)
      ultimately show ?thesis using assms(3) that by (auto simp: duplicate_reader_def)
    qed
    have none: "RFReaderInfoNamePort w port name = Inl SCARD_E_INVALID_VALUE"
    proof (cases "RFReaderInfoNamePort w port name")
      case (Inl rv)
      then show ?thesis by (simp add: RFReaderInfoNamePort_def split: option.splits)
    next
      case (Inr k)
      from NamePort_Inr [OF Inr] fresh [of k] l16 show ?thesis by (simp add: named_reader_def)
    qed
    let ?P = "\<lambda>r :: 'a READER_CONTEXT. vHandle r \<noteq> 0 \<and> name = strip_reader (lpcReader r) \<and> port = dwPort r"
    have "rctx w' i \<in> set (sReadersContexts w')" using l16 f(1) unfolding rctx_def by simp
    then obtain k where k: "first_index ?P (sReadersContexts w') = Some k"
      using first_index_ex [of "rctx w' i" "sReadersContexts w'" ?P] nr w'i by (auto simp: named_reader_def)
    note fk = first_index_SomeD [OF k]
    have "k = i"
    proof (rule ccontr)
      assume "k \<noteq> i"
      moreover have "?P (sReadersContexts w' ! i)" using nr w'i by (auto simp: named_reader_def rctx_def)
      moreover have "\<not> i < k" using calculation(2) fk by blast
      ultimately have ki: "k < i" by simp
      have "vHandle (rctx w k) \<noteq> 0" using first_index_SomeD [OF started(2)] ki by (simp add: rctx_def)
      with frame have "rctx w k = sReadersContexts w' ! k" by (simp add: rctx_def)
      with fk fresh [of k] ki f(1) show False by simp
    qed
    with k have "RFReaderInfoNamePort w' port name = Inr i" by (simp add: RFReaderInfoNamePort_def)
    moreover have "dwIdentity (rctx w4 i) = slot_identity i" using h len by (simp add: same_handles_def new_slot_def)
    ultimately show ?thesis using f(1) started(2) nr z w'i none frame by auto
  qed
qed

text \<open>Readers of one hotplug driver get different names: the name \<^verbatim>\<open>RFSetReaderName\<close> writes differs
  from the name of every loaded reader of the same library on another hotplug port.\<close>

theorem reader_name_fresh:
  assumes "RFSetReaderName i name lib port 0 w = Some (parent, w')" and "parent \<noteq> -2" and "length name \<le> 93" and "i < length (sReadersContexts w)"
    and "dwNumReadersContexts w \<noteq> 0" and "j < 16" and "hotplug_sibling lib port (rctx w j)"
  shows "lpcReader (rctx w' i) \<noteq> lpcReader (rctx w j)"
  using assms(1)
proof (cases rule: RFSetReaderName_cases)
  case (refused h)
  with assms(2) show ?thesis by simp
next
  case (named s h n)
  have s0: "scan_readers lib port [0..<16] scan_start w = Some (s, with_machine w h)" using named(1) assms(5) by simp
  have u0: "length (scan_used scan_start) = 16" by (simp add: scan_start_def)
  from scan_readers_marks [OF s0 _ assms(7) u0] assms(6)
  have m: "0 \<le> name_digit (lpcReader (rctx w j))" "name_digit (lpcReader (rctx w j)) < 16"
    "scan_used s ! nat (name_digit (lpcReader (rctx w j)))" "scan_digit s \<noteq> -1" by simp_all
  have len: "length (scan_used s) = 16" using scan_readers_used [OF s0] u0 by simp
  have "first_index Not (scan_used s) = Some n" using named(3) m(4) by simp
  from first_index_SomeD [OF this] len m have n: "n < 16" "name_digit (lpcReader (rctx w j)) \<noteq> int n" by auto
  have "lpcReader (rctx w' i) = name @ '' '' @ fmt02X n @ '' 00''"
    using named(4) assms(3,4) reader_name_parts(1) [OF assms(3) n(1)] by simp
  then have "name_digit (lpcReader (rctx w' i)) = int n"
    using reader_name_parts(3) [OF assms(3) n(1)] by (simp only: name_digit_def)
  with n(2) show ?thesis by auto
qed

lemma RFUnloadReader_effect:
  "RFUnloadReader i w = Some (rv, w') \<Longrightarrow> i < length (sReadersContexts w) \<Longrightarrow>
     vHandle (rctx w' i) = 0 \<and> dwNumReadersContexts w' = dwNumReadersContexts w"
  by (auto simp: RFUnloadReader_def Let_def bind_eq_Some_conv rctx_def upd_rctx_def)

lemma RFBindFunctions_effect:
  "RFBindFunctions sys i w = Some (rv, w') \<Longrightarrow> rv = SCARD_S_SUCCESS \<and> dwNumReadersContexts w' = dwNumReadersContexts w
     \<and> length (sReadersContexts w') = length (sReadersContexts w)"
  by (auto simp: RFBindFunctions_def Let_def bind_eq_Some_conv)

lemma RFInitializeReader_failed:
  assumes "RFInitializeReader sys i w = Some (rv, w')" and "rv \<noteq> SCARD_S_SUCCESS" and "i < length (sReadersContexts w)"
  shows "vHandle (rctx w' i) = 0 \<and> dwNumReadersContexts w' = dwNumReadersContexts w"
proof -
  obtain rv1 w1 where l: "RFLoadReader sys i w = (rv1, w1)" by fastforce
  then have l1: "dwNumReadersContexts w1 = dwNumReadersContexts w" "i < length (sReadersContexts w1)"
    "rv1 \<noteq> SCARD_S_SUCCESS \<longrightarrow> vHandle (rctx w1 i) = 0"
    using assms(3) by (auto simp: RFLoadReader_def Let_def split: if_splits)
  show ?thesis
  proof (cases "rv1 = SCARD_S_SUCCESS")
    case False
    with assms(1) l l1 show ?thesis by (simp add: RFInitializeReader_def)
  next
    case True
    with assms(1) l obtain rv2 w2 where b: "RFBindFunctions sys i w1 = Some (rv2, w2)"
      by (auto simp: RFInitializeReader_def bind_eq_Some_conv)
    note b2 = RFBindFunctions_effect [OF b]
    from assms(1,2) l True b b2 obtain h rv4 where "RFUnloadReader i (snd (RFUnBindFunctions i (with_machine w2 h))) = Some (rv4, w')"
      by (auto simp: RFInitializeReader_def Let_def bind_eq_Some_conv split: if_splits)
    from RFUnloadReader_effect [OF this] b2 l1 show ?thesis by (simp add: RFUnBindFunctions_def)
  qed
qed

text \<open>A reader that cannot be started stays counted: \<^verbatim>\<open>RFInitializeReader\<close> takes the driver away from the slot when it fails, so
  that the \<^verbatim>\<open>RFRemoveReader\<close> that should undo the addition does not find the slot, and
  \<^verbatim>\<open>dwNumReadersContexts\<close> has grown by one although no reader was added.\<close>

theorem failed_start_stays_counted:
  assumes "RFInitializeReader sys i (w\<lparr>dwNumReadersContexts := dwNumReadersContexts w + 1\<rparr>) = Some (rv, w1)" and "rv \<noteq> SCARD_S_SUCCESS"
    and "i < length (sReadersContexts w)" and "\<forall>j < length (sReadersContexts w). j \<noteq> i \<longrightarrow> \<not> named_reader name port (rctx w j)"
  shows "start_reader sys name port i w = Some (rv, w1) \<and> vHandle (rctx w1 i) = 0 \<and> dwNumReadersContexts w1 = dwNumReadersContexts w + 1"
proof -
  let ?u = "w\<lparr>dwNumReadersContexts := dwNumReadersContexts w + 1\<rparr>"
  have e: "vHandle (rctx w1 i) = 0 \<and> dwNumReadersContexts w1 = dwNumReadersContexts w + 1"
    using RFInitializeReader_failed [OF assms(1,2)] assms(3) by simp
  have h: "same_handles i w w1" using RFInitializeReader_handles [OF assms(1)] by simp
  have "\<not> named_reader name port (rctx w1 j)" if "j < length (sReadersContexts w1)" for j
    using that e h assms(4) by (cases "j = i") (auto simp: named_reader_def same_handles_def touches_def)
  then have "\<forall>r \<in> set (sReadersContexts w1). \<not> (vHandle r \<noteq> 0 \<and> name = strip_reader (lpcReader r) \<and> port = dwPort r)"
    by (metis in_set_conv_nth named_reader_def rctx_def)
  then have "RFReaderInfoNamePort w1 port name = Inl SCARD_E_INVALID_VALUE"
    by (simp add: RFReaderInfoNamePort_def split: option.split)
  then have "RFRemoveReader sys (Some name) port w1 = Some (SCARD_S_SUCCESS, w1)"
    by (simp add: RFRemoveReader_def remove_readers.simps [of sys name port w1])
  with assms(1,2) e show ?thesis by (simp add: start_reader_def)
qed

subsection \<open>Witnesses\<close>

text \<open>A system where every library is the sample driver and the polling threads end at once; \<open>open\<close> is what opening
  a channel returns.\<close>

definition sample_exports :: "LONG \<Rightarrow> unit exports" where
  "sample_exports open = \<lparr>IO_Create_Channel = None, IO_Close_Channel = None, IFD_Get_Capabilities = None, IFD_Set_Capabilities = None,
     IFD_Set_Protocol_Parameters = None, IFD_Power_ICC = None, IFD_Transmit_to_ICC = None, IFD_Is_ICC_Present = None,
     IFDHCreateChannel = Some (\<lambda>lun port d. (open, d)), IFDHCloseChannel = Some (v2_CloseChannel sample_driver),
     IFDHGetCapabilities = Some (v2_GetCapabilities sample_driver), IFDHSetCapabilities = Some (v2_SetCapabilities sample_driver),
     IFDHSetProtocolParameters = v2_SetProtocolParameters sample_driver, IFDHPowerICC = Some (v2_PowerICC sample_driver),
     IFDHTransmitToICC = Some (v2_TransmitToICC sample_driver), IFDHICCPresence = Some (v2_ICCPresence sample_driver),
     IFDHControl = Some (sample_control, \<lambda>lun code tx rx len ret d. (IFD_SUCCESS, rx, 0, d)), IFDHCreateChannelByName = None\<rparr>"

definition sample_system :: "LONG \<Rightarrow> unit system" where
  "sample_system open = \<lparr>dlopen = (\<lambda>_. 7), dlsym = (\<lambda>_. sample_exports open), thread_create = (\<lambda>_. (0, 9)),
     thread_join = (\<lambda>i c w. Some w), function_at = (\<lambda>_. None)\<rparr>"

lemma sample_system_joins: "joins_sound (sample_system x)" "joins_return (sample_system x)"
  by (simp_all add: joins_sound_def joins_return_def sample_system_def)

lemma sample_drivers: "drivers_bound sample_daemon"
  by (simp add: has_driver_def drivers_bound_def sample_daemon_def driver_bound_def functions_v2_def sample_reader_def empty_reader_def)

theorem remove_reader_complete_witness:
  "\<exists>w'. RFRemoveReader (sample_system 0) (Some ''R'') 1 sample_daemon = Some (SCARD_S_SUCCESS, w') \<and> vHandle (rctx w' 0) = 0"
proof -
  have n: "named_reader ''R'' 1 (rctx sample_daemon 0)"
    by (simp add: named_reader_def rctx_sample sample_reader_def strip_reader_def)
  have len: "0 < length (sReadersContexts sample_daemon)" by (simp add: sample_daemon_def)
  from remove_reader_complete [OF sample_system_joins sample_drivers, of 0 "''R''" 1] n len show ?thesis
    by (metis (no_types, lifting))
qed

text \<open>The daemon before any reader is known.\<close>

definition bare_daemon :: "unit pcscd" where
  "bare_daemon = sample_daemon\<lparr>sReadersContexts := empty_reader # replicate 15 empty_reader, dwNumReadersContexts := 0,
     readerStates := empty_state # replicate 15 empty_state\<rparr>"

lemma bare_facts [simp]:
  "i < 16 \<Longrightarrow> rctx bare_daemon i = empty_reader" "length (sReadersContexts bare_daemon) = 16" "dwNumReadersContexts bare_daemon = 0"
  "machine bare_daemon = sample_hw" "first_index (\<lambda>r. vHandle r = 0) (sReadersContexts bare_daemon) = Some 0"
  by (simp_all add: bare_daemon_def rctx_def empty_reader_def sample_daemon_def nth_Cons')

lemma bare_inv: "daemon_inv bare_daemon" "sharing_inv bare_daemon"
  by (simp_all add: daemon_inv_def sharing_inv_def reader_inv_def share_ok_def connected_def empty_reader_def count_if_def)

lemma sample_bind:
  "driver_version (sample_exports x) = Some IFD_HVERSION_2_0"
  "bind_v2 (sample_exports x) = Some (sample_driver\<lparr>v2_CreateChannel := \<lambda>lun port d. (x, d)\<rparr>)"
  "IFDHControl (sample_exports x) = Some (sample_control, \<lambda>lun code tx rx len ret d. (IFD_SUCCESS, rx, 0, d))"
  by (simp_all add: driver_version_def bind_v2_def sample_exports_def sample_driver_def)

lemma sample_init:
  assumes "i < length (sReadersContexts w)" and "vHandle (rctx w i) = 0"
  shows "RFInitializeReader (sample_system 0) i w = Some (SCARD_S_SUCCESS, upd_rctx i (\<lambda>r. r\<lparr>dwVersion := IFD_HVERSION_2_0,
      psFunctions := FCT_V2 (sample_driver\<lparr>v2_CreateChannel := \<lambda>lun port d. (0, d)\<rparr>) sample_control\<rparr>) (upd_rctx i (\<lambda>r. r\<lparr>vHandle := 7\<rparr>) w))"
  using assms by (simp add: RFInitializeReader_def RFLoadReader_def RFBindFunctions_def sample_system_def sample_bind IFDOpenIFD_def
      functions_v2_def with_drv_def with_machine_def)

lemma sample_polling:
  assumes "i < length (sReadersContexts w)" and "dwVersion (rctx w i) = IFD_HVERSION_2_0"
    and "psFunctions (rctx w i) = FCT_V2 (sample_driver\<lparr>v2_CreateChannel := c\<rparr>) sample_control"
    and "first_index (\<lambda>s. readerID s = 0) (readerStates w) = Some k"
  shows "\<exists>w'. start_polling (sample_system 0) i w = Some (SCARD_S_SUCCESS, w') \<and> dwVersion (rctx w' i) = IFD_HVERSION_2_0
    \<and> psFunctions (rctx w' i) = FCT_V2 (sample_driver\<lparr>v2_CreateChannel := c\<rparr>) sample_control"
proof -
  have m: "readerStates (with_machine v h) = readerStates v" for v :: "unit pcscd" and h by (simp add: with_machine_def)
  show ?thesis
    using assms by (simp add: start_polling_def EHSpawnEventHandler_def IFDGetCapabilities_def IFDStatusICC_def icc_presence_def
        functions_v2_def sample_driver_def sample_system_def Let_def upd_rstate_def m)
       (simp add: rctx_def upd_rctx_def)
qed

lemma bare_add:
  assumes "length name \<le> 93" and "length lib < MAX_LIBNAME" and "length dev < MAX_DEVICENAME"
  shows "\<exists>w'. RFAddReader (sample_system 0) (Some name) port (Some lib) (Some dev) bare_daemon = Some (SCARD_S_SUCCESS, w')"
proof -
  let ?w2 = "upd_rctx 0 (new_slot 0 lib dev port) (upd_rctx 0 (\<lambda>r. r\<lparr>lpcReader := take 99 (name @ '' '' @ fmt02X 0 @ '' '' @ fmt02X 0),
      dwSlot := push_bit 16 (of_nat 0) + 0\<rparr>) bare_daemon)"
  let ?w3 = "own_counters 0 ?w2"
  let ?u = "?w3\<lparr>dwNumReadersContexts := dwNumReadersContexts ?w3 + 1\<rparr>"
  have s: "same_handles 0 ?w2 ?w3" by (rule own_counters_handles)
  have len: "0 < length (sReadersContexts ?u)" using same_handles_len [OF s] by simp
  have vh: "vHandle (rctx ?u 0) = 0"
    by (simp add: own_counters_def Let_def new_slot_def rctx_def upd_rctx_def bare_daemon_def new_cell_def)
  have rs: "readerStates ?u = readerStates bare_daemon"
    by (simp add: own_counters_def Let_def new_cell_def)
  note init = sample_init [OF len vh]
  let ?v = "upd_rctx 0 (\<lambda>r. r\<lparr>dwVersion := IFD_HVERSION_2_0,
      psFunctions := FCT_V2 (sample_driver\<lparr>v2_CreateChannel := \<lambda>lun port d. (0, d)\<rparr>) sample_control\<rparr>) (upd_rctx 0 (\<lambda>r. r\<lparr>vHandle := 7\<rparr>) ?u)"
  have "\<exists>w'. start_polling (sample_system 0) 0 ?v = Some (SCARD_S_SUCCESS, w') \<and> dwVersion (rctx w' 0) = IFD_HVERSION_2_0
    \<and> psFunctions (rctx w' 0) = FCT_V2 (sample_driver\<lparr>v2_CreateChannel := \<lambda>lun port d. (0, d)\<rparr>) sample_control"
    using len rs by (intro sample_polling [where k = 0]) (simp_all add: bare_daemon_def empty_state_def)
  then obtain w4 where p: "start_polling (sample_system 0) 0 ?v = Some (SCARD_S_SUCCESS, w4)" "dwVersion (rctx w4 0) = IFD_HVERSION_2_0"
    "psFunctions (rctx w4 0) = FCT_V2 (sample_driver\<lparr>v2_CreateChannel := \<lambda>lun port d. (0, d)\<rparr>) sample_control" by blast
  have start: "start_reader (sample_system 0) name port 0 ?w3 = Some (SCARD_S_SUCCESS, w4)"
    using init p(1) by (simp add: start_reader_def)
  have cap: "\<exists>len v w5. get_capability 0 TAG_IFD_SLOTS_NUMBER w4 = Some (IFD_ERROR_TAG, len, v, w5)"
    using p(2,3) by (simp add: get_capability_def IFDGetCapabilities_def functions_v2_def sample_driver_def)
  have named: "RFSetReaderName 0 name lib port 0 bare_daemon = Some (-1, upd_rctx 0 (\<lambda>r. r\<lparr>lpcReader :=
      take 99 (name @ '' '' @ fmt02X 0 @ '' '' @ fmt02X 0), dwSlot := push_bit 16 (of_nat 0) + 0\<rparr>) bare_daemon)"
    by (simp add: RFSetReaderName_def scan_start_def)
  have "add_reader (sample_system 0) name port lib dev bare_daemon
      = (do { (rv, w4) \<leftarrow> start_reader (sample_system 0) name port 0 ?w3;
              if rv \<noteq> SCARD_S_SUCCESS then Some (rv, w4)
              else do {
                (rv2, len, slots, w5) \<leftarrow> get_capability 0 TAG_IFD_SLOTS_NUMBER w4;
                if rv2 \<noteq> IFD_SUCCESS \<or> len \<noteq> 1 \<or> slots = 0 \<or> slots = 1 then Some (SCARD_S_SUCCESS, w5)
                else add_slots (sample_system 0) name port lib dev 0 [1..<unat slots] w5 } })"
    using assms by (simp add: add_reader_def duplicate_reader_def named)
  then show ?thesis using start cap by (auto simp: RFAddReader_def)
qed

theorem add_reader_found_witness:
  "\<exists>w' i. RFAddReader (sample_system 0) (Some ''R'') 1 (Some ''lib'') (Some []) bare_daemon = Some (SCARD_S_SUCCESS, w')
     \<and> RFReaderInfoNamePort w' 1 ''R'' = Inr i \<and> named_reader ''R'' 1 (rctx w' i) \<and> connected (rctx w' i) = 0"
proof -
  obtain w' where a: "RFAddReader (sample_system 0) (Some ''R'') 1 (Some ''lib'') (Some []) bare_daemon = Some (SCARD_S_SUCCESS, w')"
    using bare_add [of "''R''" "''lib''" "[]" 1] by auto
  have "\<forall>j < 16. vHandle (rctx bare_daemon j) = 0" by (simp add: empty_reader_def)
  with add_reader_found [OF a bare_inv(1)] a show ?thesis by blast
qed

theorem reader_changes_keep_invariants_witness:
  "\<exists>w'. RFAddReader (sample_system 0) (Some ''R'') 1 (Some ''lib'') (Some []) bare_daemon = Some (SCARD_S_SUCCESS, w')
     \<and> daemon_inv w' \<and> sharing_inv w'"
proof -
  obtain w' where a: "RFAddReader (sample_system 0) (Some ''R'') 1 (Some ''lib'') (Some []) bare_daemon = Some (SCARD_S_SUCCESS, w')"
    using bare_add [of "''R''" "''lib''" "[]" 1] by auto
  with reader_changes_keep_invariants [OF sample_system_joins(1) bare_inv] show ?thesis by blast
qed

theorem failed_start_stays_counted_witness:
  "\<exists>w1. start_reader (sample_system IFD_COMMUNICATION_ERROR) ''R'' 1 0 (upd_rctx 0 (\<lambda>r. r\<lparr>pdwFeeds := Some 1\<rparr>) bare_daemon)
     = Some (SCARD_E_INVALID_TARGET, w1) \<and> dwNumReadersContexts w1 = 1"
proof -
  let ?w = "upd_rctx 0 (\<lambda>r. r\<lparr>pdwFeeds := Some 1\<rparr>) bare_daemon"
  have "\<exists>w1. RFInitializeReader (sample_system IFD_COMMUNICATION_ERROR) 0 (?w\<lparr>dwNumReadersContexts := dwNumReadersContexts ?w + 1\<rparr>)
      = Some (SCARD_E_INVALID_TARGET, w1)"
    by (simp add: RFInitializeReader_def RFLoadReader_def RFBindFunctions_def sample_system_def sample_bind IFDOpenIFD_def
      functions_v2_def with_drv_def RFUnloadReader_def RFUnBindFunctions_def rctx_def upd_rctx_def bare_daemon_def empty_reader_def
      with_machine_def Let_def)
  then obtain w1 where i: "RFInitializeReader (sample_system IFD_COMMUNICATION_ERROR) 0 (?w\<lparr>dwNumReadersContexts := dwNumReadersContexts ?w + 1\<rparr>)
      = Some (SCARD_E_INVALID_TARGET, w1)" by blast
  have "\<forall>j < length (sReadersContexts ?w). j \<noteq> 0 \<longrightarrow> \<not> named_reader ''R'' 1 (rctx ?w j)"
    by (simp add: named_reader_def empty_reader_def)
  from failed_start_stays_counted [OF i _ _ this] show ?thesis by auto
qed

text \<open>A hotplug reader is there when a second one is named.\<close>

theorem reader_name_fresh_witness:
  "\<exists>w'. RFSetReaderName 1 ''R'' ''lib'' 0x200001 0 (upd_rctx 0 (\<lambda>r. r\<lparr>dwPort := 0x200000,
       psFunctions := FCT_V2 (sample_driver\<lparr>v2_GetCapabilities := \<lambda>lun tag len val d. (IFD_SUCCESS, 1, [2], d)\<rparr>) sample_control\<rparr>) sample_daemon)
     = Some (0, w') \<and> lpcReader (rctx w' 1) = ''R 01 00'' \<and> lpcReader (rctx w' 1) \<noteq> lpcReader (rctx sample_daemon 0)"
proof -
  let ?w = "upd_rctx 0 (\<lambda>r. r\<lparr>dwPort := 0x200000,
       psFunctions := FCT_V2 (sample_driver\<lparr>v2_GetCapabilities := \<lambda>lun tag len val d. (IFD_SUCCESS, 1, [2], d)\<rparr>) sample_control\<rparr>) sample_daemon"
  have empty: "rctx (with_machine ?w h) i = empty_reader" if "0 < i" "i < 16" for i h
    using that by (simp add: rctx_sample)
  have other: "scan_reader ''lib'' port i s u = Some (s, u)" if "rctx u i = empty_reader" for port i s and u :: "unit pcscd"
    using that by (simp add: scan_reader_def Let_def empty_reader_def)
  have others: "scan_readers ''lib'' port is s u = Some (s, u)" if "\<forall>i \<in> set is. rctx u i = empty_reader" for port "is" s and u :: "unit pcscd"
    using that by (induction "is") (simp_all add: other)
  have d: "strtol16 (drop (length ''R 00 00'' - 5) ''R 00 00'') = 0" by (simp add: strtol16_def take_sign_def has_0x_def digit_value_def digits_value_def is_space_def)
  have r0: "rctx ?w 0 = sample_reader\<lparr>dwPort := 0x200000,
       psFunctions := FCT_V2 (sample_driver\<lparr>v2_GetCapabilities := \<lambda>lun tag len val d. (IFD_SUCCESS, 1, [2], d)\<rparr>) sample_control\<rparr>"
    by (simp add: rctx_def upd_rctx_def sample_daemon_def)
  have num: "dwNumReadersContexts sample_daemon = 1" by (simp add: sample_daemon_def)
  have free: "first_index Not (replicate 15 False) = Some 0" by (simp add: numeral_eq_Suc)
  have used: "(scan_used scan_start)[0 := True] = True # replicate 15 False"
    by (simp add: scan_start_def numeral_eq_Suc)
  have "\<exists>h. get_capability 0 TAG_IFD_SIMULTANEOUS_ACCESS ?w = Some (IFD_SUCCESS, 1, 2, with_machine ?w h)"
    unfolding get_capability_def r0 by (simp add: IFDGetCapabilities_def functions_v2_def sample_reader_def) blast
  then have "\<exists>h. scan_reader ''lib'' 0x200001 0 scan_start ?w = Some (scan_start\<lparr>scan_parent := 0, scan_digit := 0, scan_channels := 2,
      scan_used := True # replicate 15 False\<rparr>, with_machine ?w h)"
    using d used unfolding scan_reader_def r0 by (auto simp: Let_def sample_reader_def)
  then obtain h where first: "scan_reader ''lib'' 0x200001 0 scan_start ?w = Some (scan_start\<lparr>scan_parent := 0, scan_digit := 0, scan_channels := 2,
      scan_used := True # replicate 15 False\<rparr>, with_machine ?w h)" by blast
  have "[0..<16] = 0 # [Suc 0..<16]" by (simp add: upt_conv_Cons)
  then have "scan_readers ''lib'' 0x200001 [0..<16] scan_start ?w = Some (scan_start\<lparr>scan_parent := 0, scan_digit := 0, scan_channels := 2,
      scan_used := True # replicate 15 False\<rparr>, with_machine ?w h)"
    using first others [of "[Suc 0..<16]" "with_machine ?w h"] empty [where h = h] by simp
  then have n: "RFSetReaderName 1 ''R'' ''lib'' 0x200001 0 ?w = Some (0, upd_rctx 1 (\<lambda>r. r\<lparr>
      lpcReader := ''R 01 00'', dwSlot := push_bit 16 (of_nat 1) + 0\<rparr>) (with_machine ?w h))"
    by (simp add: RFSetReaderName_def num free fmt02X_digit)
  have "hotplug_sibling ''lib'' 0x200001 (rctx ?w 0)"
    by (simp add: hotplug_sibling_def rctx_def upd_rctx_def sample_daemon_def sample_reader_def)
  from reader_name_fresh [OF n _ _ _ _ _ this] n show ?thesis
    by (simp add: sample_daemon_def rctx_def upd_rctx_def sample_reader_def)
qed

end
