(* ===== verification/Hotplug.thy ===== *)
theory Hotplug
  imports Ccid_Calls Reader_Admin
begin

section \<open>Hotplugging of USB readers (hotplug\_libusb.c)\<close>

text \<open>
  The thread of the daemon that looks for USB readers. It reads from the bundles which devices have a driver, compares the devices on the busses with
  the readers it knows, adds new ones and removes those that are gone, with the functions of theory \<open>Reader_Admin\<close>. The state is the table
  \<^verbatim>\<open>readerTracker\<close>, the entries of \<^verbatim>\<open>driverTracker\<close> in use and the daemon. What libusb finds is a parameter, so are
  the directory of the bundles and the serial number of a device: none, unreadable, or a string.

  Shown here: the names it gives to devices are understood by the CCID driver, which however ignores the place of the device; a scan keeps the table in step with the
  busses and readers that stay plugged keep their entry.
\<close>

datatype reader_status = READER_ABSENT | READER_PRESENT | READER_FAILED

record readerTracker =
  rt_status :: reader_status
  bus_device :: string
  fullName :: "string option"

record driverTracker =
  manuID :: int
  productID :: int
  bundleName :: "string option"
  libraryPath :: "string option"
  dt_readerName :: "string option"
  ifdCapabilities :: int

record 'd hotplug =
  readers :: "readerTracker list"
  drivers :: "driverTracker list"
  AraKiriHotPlug :: bool
  hp_daemon :: "'d pcscd"

abbreviation (input) BUS_DEVICE_STRSIZE :: nat where "BUS_DEVICE_STRSIZE \<equiv> 256"

subsection \<open>The drivers\<close>

definition empty_driver :: driverTracker where
  "empty_driver = \<lparr>manuID = 0, productID = 0, bundleName = None, libraryPath = None, dt_readerName = None, ifdCapabilities = 0\<rparr>"

definition or_old :: "'a option \<Rightarrow> ('a \<Rightarrow> 'b) \<Rightarrow> 'b \<Rightarrow> 'b" where
  "or_old v f old = (case v of Some s \<Rightarrow> f s | None \<Rightarrow> old)"

text \<open>One entry of a bundle read into \<open>x\<close>: values that are missing leave the old ones. \<open>path\<close> is the directory of the library.\<close>

definition read_entry :: "string \<Rightarrow> string \<Rightarrow> plist \<Rightarrow> int \<Rightarrow> driverTracker \<Rightarrow> driverTracker" where
  "read_entry path name info al x =
    (let value = LTPBundleFindValueWithKey info in
     x\<lparr>bundleName := Some name,
       manuID := or_old (value ''ifdVendorID'' al) strtol16 (manuID x),
       productID := or_old (value ''ifdProductID'' al) strtol16 (productID x),
       dt_readerName := or_old (value ''ifdFriendlyName'' al) Some (dt_readerName x),
       libraryPath := or_old (value ''CFBundleExecutable'' 0) (\<lambda>s. Some (path @ ''/'' @ name @ ''/Contents/Linux/'' @ s)) (libraryPath x),
       ifdCapabilities := or_old (value ''ifdCapabilities'' 0) strtol16 (ifdCapabilities x)\<rparr>)"

text \<open>The array beyond the entries in use is \<open>next\<close> and then zero. An entry without a name stays the next one.\<close>

function read_bundle :: "string \<Rightarrow> string \<Rightarrow> plist \<Rightarrow> int \<Rightarrow> driverTracker list \<times> driverTracker \<Rightarrow> driverTracker list \<times> driverTracker" where
  "read_bundle path name info al (found, nxt) =
    (if LTPBundleFindValueWithKey info ''ifdVendorID'' al = None then (found, nxt)
     else let x = read_entry path name info al nxt in
       if dt_readerName x = None then read_bundle path name info (al + 1) (found, x)
       else read_bundle path name info (al + 1) (found @ [x], empty_driver))"
  by pat_completeness auto
termination
  by (relation "measure (\<lambda>(path, name, info, al, s). nat (int (length (info ''ifdVendorID'')) - al))")
     (auto simp: LTPBundleFindValueWithKey_def split: if_splits)

declare read_bundle.simps [simp del]

text \<open>\<open>dir\<close> are the entries of the directory, \<open>None\<close> when it cannot be opened. The result of the source is -1, 0 or 1.\<close>

definition HPReadBundleValues :: "string \<Rightarrow> (string \<times> plist) list option \<Rightarrow> int \<times> driverTracker list" where
  "HPReadBundleValues path dir =
    (case dir of
       None \<Rightarrow> (-1, [])
     | Some es \<Rightarrow>
        let found = fst (foldl (\<lambda>s (name, info). if strstr ''.bundle'' name \<noteq> None then read_bundle path name info 0 s else s) ([], empty_driver) es) in
        (if found = [] then 0 else 1, found))"

subsection \<open>Adding and removing\<close>

definition deviceName :: "usb_device \<Rightarrow> string \<Rightarrow> string" where
  "deviceName dev place = snprintf MAX_DEVICENAME (''usb:'' @ print_04x (idVendor dev) @ ''/'' @ print_04x (idProduct dev) @ '':libusb:'' @ place)"

text \<open>The place of a device: the string \<^verbatim>\<open>bus_device\<close>.\<close>

definition place_of :: "usb_bus \<Rightarrow> usb_device \<Rightarrow> string" where
  "place_of bus dev = snprintf BUS_DEVICE_STRSIZE (bus_dirname bus @ '':'' @ dev_filename dev)"

type_synonym serial_numbers = "usb_bus \<Rightarrow> usb_device \<Rightarrow> string option option"

definition full_name :: "string \<Rightarrow> string option option \<Rightarrow> string" where
  "full_name name serial =
    (case serial of Some (Some s) \<Rightarrow> snprintf MAX_READERNAME (name @ '' ('' @ s @ '')'') | _ \<Rightarrow> name)"

text \<open>The name of the driver is copied by \<^verbatim>\<open>strdup\<close>, which needs a string.\<close>

definition HPAddHotPluggable :: "'d system \<Rightarrow> serial_numbers \<Rightarrow> usb_bus \<Rightarrow> usb_device \<Rightarrow> driverTracker \<Rightarrow> 'd hotplug \<Rightarrow> 'd hotplug option" where
  "HPAddHotPluggable sys serials bus dev driver h =
    (case first_index (\<lambda>r. fullName r = None) (readers h) of
       None \<Rightarrow> Some h
     | Some i \<Rightarrow> do {
         name \<leftarrow> dt_readerName driver;
         let full = full_name name (serials bus dev);
         (rv, w) \<leftarrow> RFAddReader sys (Some full) (PCSCLITE_HP_BASE_PORT + word_of_nat i) (libraryPath driver) (Some (deviceName dev (place_of bus dev)))
            (hp_daemon h);
         Some (h\<lparr>readers := (readers h)[i := \<lparr>rt_status = (if rv = SCARD_S_SUCCESS then READER_PRESENT else READER_FAILED),
             bus_device = place_of bus dev, fullName = Some full\<rparr>], hp_daemon := w\<rparr>)
       })"

definition HPRemoveHotPluggable :: "'d system \<Rightarrow> nat \<Rightarrow> 'd hotplug \<Rightarrow> 'd hotplug option" where
  "HPRemoveHotPluggable sys i h = do {
     (rv, w) \<leftarrow> RFRemoveReader sys (fullName (readers h ! i)) (PCSCLITE_HP_BASE_PORT + word_of_nat i) (hp_daemon h);
     Some (h\<lparr>readers := (readers h)[i := \<lparr>rt_status = READER_ABSENT, bus_device = [], fullName = None\<rparr>], hp_daemon := w\<rparr>)
   }"

subsection \<open>Scanning the busses\<close>

definition supported_by :: "usb_device \<Rightarrow> driverTracker \<Rightarrow> bool" where
  "supported_by dev driver \<longleftrightarrow> libraryPath driver \<noteq> None \<and> uint (idVendor dev) = manuID driver \<and> uint (idProduct dev) = productID driver"

text \<open>A device with a driver for it: known readers are marked, others are added.\<close>

definition roll_call :: "'d system \<Rightarrow> serial_numbers \<Rightarrow> usb_bus \<times> usb_device \<times> driverTracker \<Rightarrow> 'd hotplug \<Rightarrow> 'd hotplug option" where
  "roll_call sys serials = (\<lambda>(bus, dev, driver) h.
     if \<not> supported_by dev driver then Some h
     else case first_index (\<lambda>r. bus_device r = place_of bus dev) (readers h) of
         Some j \<Rightarrow> Some (h\<lparr>readers := upd_at j (\<lambda>r. r\<lparr>rt_status := READER_PRESENT\<rparr>) (readers h)\<rparr>)
       | None \<Rightarrow> HPAddHotPluggable sys serials bus dev driver h)"

text \<open>A loop that stops where a call does not return.\<close>

fun run_all :: "('a \<Rightarrow> 's \<Rightarrow> 's option) \<Rightarrow> 'a list \<Rightarrow> 's \<Rightarrow> 's option" where
  "run_all f [] s = Some s"
| "run_all f (x # xs) s = Option.bind (f x s) (run_all f xs)"

definition sweep :: "'d system \<Rightarrow> nat \<Rightarrow> 'd hotplug \<Rightarrow> 'd hotplug option" where
  "sweep sys i h =
    (if rt_status (readers h ! i) = READER_ABSENT \<and> fullName (readers h ! i) \<noteq> None then HPRemoveHotPluggable sys i h else Some h)"

definition candidates :: "usb_bus list \<Rightarrow> driverTracker list \<Rightarrow> (usb_bus \<times> usb_device \<times> driverTracker) list" where
  "candidates busses drvs = concat (map (\<lambda>bus. concat (map (\<lambda>dev. map (\<lambda>driver. (bus, dev, driver)) drvs) (devices bus))) busses)"

definition clear_rollcall :: "'d hotplug \<Rightarrow> 'd hotplug" where
  "clear_rollcall h = h\<lparr>readers := map (\<lambda>r. r\<lparr>rt_status := READER_ABSENT\<rparr>) (readers h)\<rparr>"

text \<open>The result tells whether the thread ended, which it does after \<^verbatim>\<open>HPStopHotPluggables\<close>.\<close>

definition HPRescanUsbBus :: "'d system \<Rightarrow> serial_numbers \<Rightarrow> usb_bus list \<Rightarrow> 'd hotplug \<Rightarrow> (bool \<times> 'd hotplug) option" where
  "HPRescanUsbBus sys serials busses h = do {
     h1 \<leftarrow> run_all (roll_call sys serials) (candidates busses (drivers h)) (clear_rollcall h);
     h2 \<leftarrow> run_all (sweep sys) [0..<16] h1;
     Some (AraKiriHotPlug h, if AraKiriHotPlug h then h2\<lparr>drivers := []\<rparr> else h2)
   }"

subsection \<open>The thread\<close>

text \<open>The time in seconds between two scans, 0 when the thread waits for requests instead.\<close>

definition polling_period :: "driverTracker list \<Rightarrow> int \<Rightarrow> int" where
  "polling_period drvs force =
    (if (\<exists>x \<in> set drvs. libraryPath x \<noteq> None \<and> even (ifdCapabilities x)) \<and> force < 1 then 1 else force)"

definition HPEstablishUSBNotifications_start :: "'d system \<Rightarrow> serial_numbers \<Rightarrow> usb_bus list \<Rightarrow> int \<Rightarrow> 'd hotplug
    \<Rightarrow> (bool \<times> int \<times> 'd hotplug) option" where
  "HPEstablishUSBNotifications_start sys serials busses force h =
     map_option (\<lambda>(ended, h1). (ended, polling_period (drivers h1) force, h1)) (HPRescanUsbBus sys serials busses h)"

text \<open>One turn of the loop: when the thread polls, another scan; else a request also checks the serial readers (\<open>conf\<close> and \<open>crc\<close> are the configuration).\<close>

definition HPEstablishUSBNotifications_loop :: "'d system \<Rightarrow> serial_numbers \<Rightarrow> usb_bus list \<Rightarrow> SerialReader list option \<Rightarrow> int \<Rightarrow> int \<Rightarrow> 'd hotplug
    \<Rightarrow> (bool \<times> 'd hotplug) option" where
  "HPEstablishUSBNotifications_loop sys serials busses conf crc period h = do {
     (ended, h1) \<leftarrow> HPRescanUsbBus sys serials busses h;
     if ended \<or> period \<noteq> 0 then Some (ended \<or> AraKiriHotPlug h1, h1)
     else do {
       w \<leftarrow> RFReCheckReaderConf sys conf crc (hp_daemon h1);
       Some (False, h1\<lparr>hp_daemon := w\<rparr>)
     }
   }"

text \<open>The result tells whether the thread is started: for every value that is not 0.\<close>

definition HPSearchHotPluggables :: "string \<Rightarrow> (string \<times> plist) list option \<Rightarrow> 'd hotplug \<Rightarrow> bool \<times> 'd hotplug" where
  "HPSearchHotPluggables path dir h =
    (let (rv, drvs) = HPReadBundleValues path dir in
     (rv \<noteq> 0, h\<lparr>readers := replicate 16 \<lparr>rt_status = READER_ABSENT, bus_device = [], fullName = None\<rparr>, drivers := drvs\<rparr>))"

definition HPStopHotPluggables :: "'d hotplug \<Rightarrow> 'd hotplug" where
  "HPStopHotPluggables h = h\<lparr>AraKiriHotPlug := True\<rparr>"

subsection \<open>Names that the driver understands\<close>

lemma colon_not_hex: "16 \<le> digit_value (CHR '':'')" "16 \<le> digit_value (CHR ''/'')"
  by (simp_all add: digit_value_def)

lemma length_04x: "length (print_04x w) = 4"
  by (simp add: print_04x_def)

lemma strstr_None_iff: "needle \<noteq> [] \<Longrightarrow> strstr needle s = None \<longleftrightarrow> (\<forall>p r. s \<noteq> p @ needle @ r)"
proof (induction s)
  case (Cons c s)
  have "(\<exists>p r. c # s = p @ needle @ r) \<longleftrightarrow> take (length needle) (c # s) = needle \<or> (\<exists>p r. s = p @ needle @ r)"
  proof
    assume "\<exists>p r. c # s = p @ needle @ r"
    then obtain p r where "c # s = p @ needle @ r" by blast
    then show "take (length needle) (c # s) = needle \<or> (\<exists>p r. s = p @ needle @ r)" by (cases p) auto
  next
    assume "take (length needle) (c # s) = needle \<or> (\<exists>p r. s = p @ needle @ r)"
    then show "\<exists>p r. c # s = p @ needle @ r"
      by (metis append_Cons append_Nil append_take_drop_id)
  qed
  with Cons show ?case by (simp only: strstr.simps split: if_split) blast
qed simp

lemma strstr_take: "needle \<noteq> [] \<Longrightarrow> strstr needle s = None \<Longrightarrow> strstr needle (take n s) = None"
  unfolding strstr_None_iff by (metis append.assoc append_take_drop_id)

text \<open>The driver finds vendor and product in a name, and that no directory is wanted.\<close>

lemma parse_vendor_product:
  assumes "name = ''usb:'' @ print_04x v @ ''/'' @ print_04x p @ '':libusb:'' @ place" and "strstr ''libhal:'' name = None"
  shows "\<exists>f. parse_device name
    = Some (Inr \<lparr>device_vendor = ucast v, device_product = ucast p, want_dirname = None, want_filename = f, interface_number = -1\<rparr>)"
proof -
  let ?r = "CHR ''/'' # print_04x p @ '':libusb:'' @ place"
  have v: "scan_x (drop 4 name) = Some (ucast v, ?r)"
    using scan_x_04x [of ?r v] colon_not_hex(2) unfolding assms(1) by simp
  have p: "scan_x (drop 1 ?r) = Some (ucast p, '':libusb:'' @ place)"
    using scan_x_04x [of "'':libusb:'' @ place" p] colon_not_hex(1) by simp
  have u: "take 4 name = ''usb:''" "take 1 ?r = ''/''" unfolding assms(1) by simp_all
  obtain d f k where c: "(case strstr ''libusb:'' name of
                  None \<Rightarrow> (None, None, name)
                | Some p \<Rightarrow>
                   (case strchr (CHR '':'') (drop 7 p) of
                      Some q \<Rightarrow> (Some (take (length (drop 7 p) - length q) (drop 7 p)), Some (tl q), take (length name - length q) name)
                    | None \<Rightarrow> (None, None, name))) = (d, f, k)" by (rule prod_cases3)
  then have "k = name \<or> (\<exists>n. k = take n name)" by (auto split: option.splits)
  then have k: "strstr ''libhal:'' k = None" using assms(2) strstr_take [of "''libhal:''" name] by auto
  show ?thesis
    unfolding parse_device_def u v p c Let_def option.case prod.case k by (simp only: not_True_eq_False if_False simp_thms) blast
qed

text \<open>Without a directory the file name does not matter.\<close>

definition same_wish :: "device_wanted option \<Rightarrow> device_wanted option \<Rightarrow> bool" where
  "same_wish a b \<longleftrightarrow> (\<exists>x y. a = Some x \<and> b = Some y \<and> device_vendor x = device_vendor y \<and> device_product x = device_product y
     \<and> want_dirname x = None \<and> want_dirname y = None \<and> interface_number x = interface_number y)"

lemma try_devices_wish: "same_wish a b \<Longrightarrow> try_devices sys i a v p devs wanted d = try_devices sys i b v p devs wanted d"
  by (induction devs arbitrary: wanted d)
     (auto simp: same_wish_def Let_def split: open_turn.splits)

lemma try_supported_wish: "same_wish a b \<Longrightarrow> try_supported sys info i a devs al wanted d = try_supported sys info i b devs al wanted d"
proof (induction sys info i a devs al wanted d rule: try_supported.induct)
  case (1 sys info i a devs al wanted d)
  from 1(3) have c: "(case a of Some r \<Rightarrow> V \<noteq> device_vendor r \<or> P \<noteq> device_product r | None \<Rightarrow> False)
      = (case b of Some r \<Rightarrow> V \<noteq> device_vendor r \<or> P \<noteq> device_product r | None \<Rightarrow> False)" for V P
    by (auto simp: same_wish_def)
  show ?case
  proof (cases "LTPBundleFindValueWithKey info ''ifdVendorID'' al")
    case None
    then show ?thesis by (simp add: try_supported.simps [of sys info])
  next
    case V: (Some v)
    show ?thesis
    proof (cases "LTPBundleFindValueWithKey info ''ifdProductID'' al")
      case None
      with V show ?thesis by (simp add: try_supported.simps [of sys info])
    next
      case P: (Some p)
      show ?thesis
        unfolding try_supported.simps [of sys info i a devs al] try_supported.simps [of sys info i b devs al] V P option.case
          c [of "strtoul0 v" "strtoul0 p"] try_devices_wish [OF 1(3)]
        using 1(1,2) [OF V P, unfolded c [of "strtoul0 v" "strtoul0 p"] try_devices_wish [OF 1(3)]] 1(3)
        by (simp split: open_turn.split)
    qed
  qed
qed

text \<open>The name under which the daemon announces a USB reader tells vendor, product and the place of the device on the bus. The driver reads back vendor and product
  but not the place: it behaves the same for two readers of the same model, whatever their places are, and opens the first free one it finds.\<close>

theorem place_of_reader_ignored:
  assumes "\<forall>q \<in> {place1, place2}. length q \<le> 233 \<and> strstr ''libhal:'' (deviceName dev q) = None"
  shows "(\<exists>w. parse_device (deviceName dev place1) = Some (Inr w) \<and> device_vendor w = ucast (idVendor dev) \<and> device_product w = ucast (idProduct dev)
      \<and> want_dirname w = None)
    \<and> OpenUSBByName sys info i (Some (deviceName dev place1)) d = OpenUSBByName sys info i (Some (deviceName dev place2)) d"
proof -
  have n: "deviceName dev q = ''usb:'' @ print_04x (idVendor dev) @ ''/'' @ print_04x (idProduct dev) @ '':libusb:'' @ q" if "q \<in> {place1, place2}" for q
    using assms that unfolding deviceName_def snprintf_def by (intro take_all) (auto simp: length_04x)
  from assms have q: "strstr ''libhal:'' (deviceName dev place1) = None" "strstr ''libhal:'' (deviceName dev place2) = None" by simp_all
  obtain f1 where p1: "parse_device (deviceName dev place1) = Some (Inr \<lparr>device_vendor = ucast (idVendor dev), device_product = ucast (idProduct dev),
      want_dirname = None, want_filename = f1, interface_number = -1\<rparr>)" (is "_ = Some (Inr ?w1)")
    using parse_vendor_product [OF n q(1)] by auto
  obtain f2 where p2: "parse_device (deviceName dev place2) = Some (Inr \<lparr>device_vendor = ucast (idVendor dev), device_product = ucast (idProduct dev),
      want_dirname = None, want_filename = f2, interface_number = -1\<rparr>)" (is "_ = Some (Inr ?w2)")
    using parse_vendor_product [OF n q(2)] by auto
  have w: "same_wish (Some ?w1) (Some ?w2)" by (simp add: same_wish_def)
  have "find_reader sys info i (Some ?w1) d = find_reader sys info i (Some ?w2) d"
    unfolding find_reader_def try_supported_wish [OF w] option.case device_wanted.select_convs by (rule refl)
  then show ?thesis by (simp add: OpenUSBByName_def p1 p2)
qed

subsection \<open>A scan follows the busses\<close>

lemma run_all_inv:
  assumes "run_all f xs s = Some s'" and "I {} s"
    and "\<And>x S s s'. x \<in> set xs \<Longrightarrow> I S s \<Longrightarrow> f x s = Some s' \<Longrightarrow> I (insert x S) s'"
  shows "I (set xs) s'"
proof -
  have "run_all f ys s = Some s' \<Longrightarrow> I S s \<Longrightarrow> set ys \<subseteq> set xs \<Longrightarrow> I (S \<union> set ys) s'" for ys S s
  proof (induction ys arbitrary: S s)
    case (Cons y ys)
    from Cons.prems(1) obtain s1 where "f y s = Some s1" "run_all f ys s1 = Some s'" by (auto simp: bind_eq_Some_conv)
    with Cons.IH [of s1 "insert y S"] Cons.prems(2,3) assms(3) show ?case by simp
  qed simp
  from this [of xs s "{}"] assms(1,2) show ?thesis by simp
qed

text \<open>The places of the readers in the table, and the places of devices that have a driver.\<close>

definition tracked :: "'d hotplug \<Rightarrow> string set" where
  "tracked h = {bus_device r | r. r \<in> set (readers h) \<and> fullName r \<noteq> None}"

definition places :: "(usb_bus \<times> usb_device \<times> driverTracker) set \<Rightarrow> string set" where
  "places S = {place_of bus dev | bus dev driver. (bus, dev, driver) \<in> S \<and> supported_by dev driver}"

definition plugged :: "usb_bus list \<Rightarrow> driverTracker list \<Rightarrow> string set" where
  "plugged busses drvs = places (set (candidates busses drvs))"

text \<open>Entries in use have a place, different entries different ones.\<close>

definition tracker_ok :: "'d hotplug \<Rightarrow> bool" where
  "tracker_ok h \<longleftrightarrow> length (readers h) = 16 \<and> (\<forall>i < 16. fullName (readers h ! i) = None \<longleftrightarrow> bus_device (readers h ! i) = [])
    \<and> (\<forall>i < 16. \<forall>j < 16. bus_device (readers h ! i) = bus_device (readers h ! j) \<and> bus_device (readers h ! i) \<noteq> [] \<longrightarrow> i = j)"

lemma tracked_iff: "tracker_ok h \<Longrightarrow> p \<in> tracked h \<longleftrightarrow> (\<exists>i < 16. fullName (readers h ! i) \<noteq> None \<and> bus_device (readers h ! i) = p)"
  unfolding tracked_def tracker_ok_def by (auto simp: in_set_conv_nth)

lemma place_of_not_empty: "place_of bus dev \<noteq> []"
  by (simp add: place_of_def snprintf_def)

text \<open>What holds while the devices in \<open>S\<close> were looked at: those with a driver have an entry or the table is full, old entries stay, an
  entry is marked when its device was found.\<close>

definition called :: "'d hotplug \<Rightarrow> (usb_bus \<times> usb_device \<times> driverTracker) set \<Rightarrow> 'd hotplug \<Rightarrow> bool" where
  "called h S h1 \<longleftrightarrow> tracker_ok h1 \<and> drivers h1 = drivers h \<and> tracked h1 \<subseteq> tracked h \<union> places S
    \<and> (\<forall>i < 16. fullName (readers h ! i) \<noteq> None \<longrightarrow> fullName (readers h1 ! i) = fullName (readers h ! i)
         \<and> bus_device (readers h1 ! i) = bus_device (readers h ! i))
    \<and> (\<forall>i < 16. rt_status (readers h1 ! i) \<noteq> READER_ABSENT \<longleftrightarrow> bus_device (readers h1 ! i) \<in> places S)
    \<and> (places S \<subseteq> tracked h1 \<or> (\<forall>i < 16. fullName (readers h1 ! i) \<noteq> None))"

lemma places_insert: "places (insert (bus, dev, driver) S) = (if supported_by dev driver then insert (place_of bus dev) (places S) else places S)"
  unfolding places_def by auto

lemma HPAddHotPluggable_effect:
  assumes "HPAddHotPluggable sys serials bus dev driver h = Some h'"
  shows "h' = h \<and> (\<forall>r \<in> set (readers h). fullName r \<noteq> None)
    \<or> (\<exists>i rv name w. i < length (readers h) \<and> fullName (readers h ! i) = None \<and> rv \<noteq> READER_ABSENT
        \<and> h' = h\<lparr>readers := (readers h)[i := \<lparr>rt_status = rv, bus_device = place_of bus dev, fullName = Some name\<rparr>], hp_daemon := w\<rparr>)"
proof (cases "first_index (\<lambda>r. fullName r = None) (readers h)")
  case None
  then have "h' = h" using assms unfolding HPAddHotPluggable_def None by simp
  moreover have "\<forall>r \<in> set (readers h). fullName r \<noteq> None" using None by simp
  ultimately show ?thesis by blast
next
  case (Some i)
  then have "i < length (readers h)" "fullName (readers h ! i) = None" by (auto dest: first_index_SomeD)
  moreover from assms obtain name rv w where "h' = h\<lparr>readers := (readers h)[i := \<lparr>rt_status = (if rv = SCARD_S_SUCCESS then READER_PRESENT
      else READER_FAILED), bus_device = place_of bus dev, fullName = Some name\<rparr>], hp_daemon := w\<rparr>"
    unfolding HPAddHotPluggable_def Some by (auto simp: bind_eq_Some_conv Let_def)
  ultimately show ?thesis
    by (intro disjI2 exI [of _ i] exI [of _ "if rv = SCARD_S_SUCCESS then READER_PRESENT else READER_FAILED"] exI [of _ name] exI [of _ w]) simp
qed

lemma tracker_okD:
  assumes "tracker_ok h"
  shows "length (readers h) = 16" "i < 16 \<Longrightarrow> fullName (readers h ! i) = None \<longleftrightarrow> bus_device (readers h ! i) = []"
    "i < 16 \<Longrightarrow> j < 16 \<Longrightarrow> bus_device (readers h ! i) = bus_device (readers h ! j) \<Longrightarrow> bus_device (readers h ! i) \<noteq> [] \<Longrightarrow> i = j"
  using assms by (auto simp: tracker_ok_def)

lemma called_known:
  assumes "called h S h1" and "j < 16" and "bus_device (readers h1 ! j) = place_of bus dev" and "supported_by dev driver"
  shows "called h (insert (bus, dev, driver) S) (h1\<lparr>readers := upd_at j (\<lambda>r. r\<lparr>rt_status := READER_PRESENT\<rparr>) (readers h1)\<rparr>)"
    (is "called h _ ?h2")
proof -
  have ok: "tracker_ok h1" using assms(1) by (simp add: called_def)
  have s: "bus_device (readers ?h2 ! i) = bus_device (readers h1 ! i)" "fullName (readers ?h2 ! i) = fullName (readers h1 ! i)"
    "rt_status (readers ?h2 ! i) = (if i = j then READER_PRESENT else rt_status (readers h1 ! i))" for i
    using tracker_okD(1) [OF ok] assms(2) by (simp_all add: upd_at_nth)
  have ok2: "tracker_ok ?h2" using ok unfolding tracker_ok_def s by (simp, blast)
  have t: "tracked ?h2 = tracked h1" unfolding set_eq_iff tracked_iff [OF ok] tracked_iff [OF ok2] s by blast
  have "place_of bus dev \<in> tracked h1"
    using assms(2,3) tracker_okD(2) [OF ok assms(2)] place_of_not_empty by (auto simp: tracked_iff [OF ok])
  moreover have "(if i = j then READER_PRESENT else rt_status (readers h1 ! i)) \<noteq> READER_ABSENT
      \<longleftrightarrow> bus_device (readers h1 ! i) \<in> insert (place_of bus dev) (places S)" if "i < 16" for i
  proof (cases "i = j")
    case False
    then have "bus_device (readers h1 ! i) \<noteq> place_of bus dev"
      using tracker_okD(3) [OF ok that assms(2)] unfolding assms(3) by (metis place_of_not_empty)
    moreover have "rt_status (readers h1 ! i) \<noteq> READER_ABSENT \<longleftrightarrow> bus_device (readers h1 ! i) \<in> places S"
      using assms(1) that by (simp add: called_def)
    ultimately show ?thesis using False by simp
  qed (simp add: assms(3))
  ultimately show ?thesis
    using assms(1) ok2 unfolding called_def t s places_insert if_P [OF assms(4)] by (simp, blast)
qed

lemma called_full:
  assumes "called h S h1" and "\<forall>r \<in> set (readers h1). fullName r \<noteq> None" and "\<forall>r \<in> set (readers h1). bus_device r \<noteq> place_of bus dev"
    and "supported_by dev driver"
  shows "called h (insert (bus, dev, driver) S) h1"
proof -
  have "tracker_ok h1" using assms(1) by (simp add: called_def)
  then have "\<forall>i < 16. readers h1 ! i \<in> set (readers h1)" by (auto simp: tracker_ok_def)
  with assms show ?thesis by (auto simp: called_def places_insert)
qed

lemma called_new:
  assumes "called h S h1" and "j < 16" and "fullName (readers h1 ! j) = None" and "\<forall>r \<in> set (readers h1). bus_device r \<noteq> place_of bus dev"
    and "supported_by dev driver" and "rv \<noteq> READER_ABSENT"
  shows "called h (insert (bus, dev, driver) S)
    (h1\<lparr>readers := (readers h1)[j := \<lparr>rt_status = rv, bus_device = place_of bus dev, fullName = Some name\<rparr>], hp_daemon := w\<rparr>)"
    (is "called h _ ?h2")
proof -
  have ok: "tracker_ok h1" using assms(1) by (simp add: called_def)
  note l = tracker_okD(1) [OF ok]
  have s: "readers ?h2 ! i = (if i = j then \<lparr>rt_status = rv, bus_device = place_of bus dev, fullName = Some name\<rparr> else readers h1 ! i)" for i
    using assms(2) l by simp
  have n: "\<forall>i < 16. place_of bus dev \<noteq> bus_device (readers h1 ! i)" using assms(4) l by (metis nth_mem)
  have e: "bus_device (readers h1 ! j) = []" using tracker_okD(2) [OF ok assms(2)] assms(3) by simp
  have ok2: "tracker_ok ?h2"
    unfolding tracker_ok_def s using ok n place_of_not_empty by (auto simp: tracker_ok_def)
  have t: "tracked ?h2 = insert (place_of bus dev) (tracked h1)"
  proof (rule set_eqI)
    fix p
    have "p \<in> tracked ?h2 \<longleftrightarrow> (\<exists>i < 16. (i = j \<or> fullName (readers h1 ! i) \<noteq> None) \<and> (if i = j then place_of bus dev else bus_device (readers h1 ! i)) = p)"
      unfolding tracked_iff [OF ok2] s by (simp only: if_distrib [of fullName] if_distrib [of bus_device] readerTracker.select_convs) auto
    also have "\<dots> \<longleftrightarrow> p \<in> insert (place_of bus dev) (tracked h1)"
      unfolding insert_iff tracked_iff [OF ok] using assms(2,3) by metis
    finally show "p \<in> tracked ?h2 \<longleftrightarrow> p \<in> insert (place_of bus dev) (tracked h1)" .
  qed
  have "fullName (readers h ! j) = None" using assms(1,2,3) unfolding called_def by metis
  then show ?thesis
    using assms ok2 n unfolding called_def t s places_insert by (auto simp: assms(5))
qed

lemma roll_call_called:
  assumes "called h S h1" and "roll_call sys serials x h1 = Some h2"
  shows "called h (insert x S) h2"
proof -
  obtain bus dev driver where x: "x = (bus, dev, driver)" by (cases x)
  have l: "length (readers h1) = 16" using assms(1) by (simp add: called_def tracker_ok_def)
  consider (unsupported) "\<not> supported_by dev driver"
    | (known) j where "supported_by dev driver" "first_index (\<lambda>r. bus_device r = place_of bus dev) (readers h1) = Some j"
    | (new) "supported_by dev driver" "first_index (\<lambda>r. bus_device r = place_of bus dev) (readers h1) = None" by (meson option.exhaust)
  then show ?thesis
  proof cases
    case unsupported
    with assms x show ?thesis by (simp add: roll_call_def called_def places_insert)
  next
    case (known j)
    then have "j < 16" "bus_device (readers h1 ! j) = place_of bus dev" using l by (auto dest: first_index_SomeD)
    with called_known [OF assms(1) this known(1)] known assms(2) x show ?thesis by (simp add: roll_call_def)
  next
    case new
    then have n: "\<forall>r \<in> set (readers h1). bus_device r \<noteq> place_of bus dev" by simp
    have "HPAddHotPluggable sys serials bus dev driver h1 = Some h2"
      using assms(2) new(1) unfolding x roll_call_def prod.case new(2) option.case by simp
    from HPAddHotPluggable_effect [OF this] called_full [OF assms(1) _ n new(1)] called_new [OF assms(1) _ _ n new(1)] l x
    show ?thesis by auto
  qed
qed

lemma clear_called: "tracker_ok h \<Longrightarrow> called h {} (clear_rollcall h)"
  by (auto simp: called_def clear_rollcall_def tracker_ok_def tracked_def places_def)

text \<open>If the table is full, it holds 16 places.\<close>

lemma finite_places: "finite S \<Longrightarrow> finite (places S)"
  by (rule finite_subset [of _ "(\<lambda>(bus, dev, driver). place_of bus dev) ` S"]) (auto simp: places_def intro: rev_image_eqI)

lemma called_room:
  assumes "called h S h1" and "finite S" and "card (tracked h \<union> places S) \<le> 16"
  shows "places S \<subseteq> tracked h1"
proof (cases "\<forall>i < 16. fullName (readers h1 ! i) \<noteq> None")
  case True
  from assms(1) have ok: "tracker_ok h1" and sub: "tracked h1 \<subseteq> tracked h \<union> places S" by (simp_all add: called_def)
  let ?f = "\<lambda>i. bus_device (readers h1 ! i)"
  have "tracked h1 = ?f ` {..<16}" unfolding set_eq_iff tracked_iff [OF ok] using True by (metis (mono_tags, lifting) imageE imageI lessThan_iff)
  moreover have "inj_on ?f {..<16}" using tracker_okD(2,3) [OF ok] True unfolding inj_on_def by (metis lessThan_iff)
  ultimately have "card (tracked h1) = 16" by (simp add: card_image)
  moreover have "finite (tracked h \<union> places S)" using finite_places [OF assms(2)] by (simp add: tracked_def)
  ultimately show ?thesis using card_seteq [OF _ sub] assms(3) by auto
next
  case False
  with assms(1) show ?thesis unfolding called_def by blast
qed

text \<open>The sweep removes the entries whose device was not found.\<close>

definition swept :: "'d hotplug \<Rightarrow> nat set \<Rightarrow> 'd hotplug \<Rightarrow> bool" where
  "swept h1 S h2 \<longleftrightarrow> drivers h2 = drivers h1 \<and> length (readers h2) = 16
    \<and> (\<forall>i < 16. readers h2 ! i = (if i \<in> S \<and> rt_status (readers h1 ! i) = READER_ABSENT \<and> fullName (readers h1 ! i) \<noteq> None
         then \<lparr>rt_status = READER_ABSENT, bus_device = [], fullName = None\<rparr> else readers h1 ! i))"

lemma sweep_swept: "i < 16 \<Longrightarrow> swept h1 S h2 \<Longrightarrow> sweep sys i h2 = Some h3 \<Longrightarrow> swept h1 (insert i S) h3"
proof -
  assume i: "i < 16" and s: "swept h1 S h2" and w: "sweep sys i h2 = Some h3"
  let ?E = "\<lparr>rt_status = READER_ABSENT, bus_device = [], fullName = None\<rparr>"
  from w have "drivers h3 = drivers h2 \<and> readers h3
      = (if rt_status (readers h2 ! i) = READER_ABSENT \<and> fullName (readers h2 ! i) \<noteq> None then (readers h2)[i := ?E] else readers h2)"
    by (auto simp: sweep_def HPRemoveHotPluggable_def bind_eq_Some_conv split: if_splits)
  then show ?thesis using i s unfolding swept_def
    by (cases "rt_status (readers h2 ! i) = READER_ABSENT \<and> fullName (readers h2 ! i) \<noteq> None") (auto simp: nth_list_update split: if_splits)
qed

text \<open>The state after a scan, entry by entry.\<close>

lemma scan_cases:
  assumes "HPRescanUsbBus sys serials busses h = Some (ended, h')" and "tracker_ok h"
  obtains h1 where "called h (set (candidates busses (drivers h))) h1" "length (readers h') = 16"
    "\<And>i. i < 16 \<Longrightarrow> readers h' ! i = (if bus_device (readers h1 ! i) \<in> plugged busses (drivers h) \<or> fullName (readers h1 ! i) = None then readers h1 ! i
        else \<lparr>rt_status = READER_ABSENT, bus_device = [], fullName = None\<rparr>)"
proof -
  let ?C = "candidates busses (drivers h)"
  from assms(1) obtain h1 h2 where r: "run_all (roll_call sys serials) ?C (clear_rollcall h) = Some h1"
    and s: "run_all (sweep sys) [0..<16] h1 = Some h2" and h': "readers h' = readers h2"
    by (auto simp: HPRescanUsbBus_def bind_eq_Some_conv split: if_splits)
  have c: "called h (set ?C) h1" using run_all_inv [where I = "called h", OF r clear_called [OF assms(2)]] roll_call_called by blast
  then have "swept h1 {} h1" by (simp add: swept_def called_def tracker_ok_def)
  from run_all_inv [where I = "swept h1", OF s this] have "swept h1 (set [0..<16]) h2" by (simp add: sweep_swept)
  moreover have "rt_status (readers h1 ! i) \<noteq> READER_ABSENT \<longleftrightarrow> bus_device (readers h1 ! i) \<in> plugged busses (drivers h)" if "i < 16" for i
    using c that by (simp add: called_def plugged_def)
  ultimately show thesis by (intro that [OF c]) (auto simp: swept_def h')
qed

text \<open>C23: A scan of the busses brings the table of readers in step with them: afterwards every reader in the table is a device on a bus that has a driver; a reader that
  stays plugged keeps its entry and so its port and name; and when old and new readers fit into the table, all devices with a driver are in it.\<close>

theorem scan_follows_busses:
  assumes "HPRescanUsbBus sys serials busses h = Some (ended, h')" and "tracker_ok h"
  shows "tracker_ok h' \<and> tracked h' \<subseteq> plugged busses (drivers h)
    \<and> (\<forall>i < 16. bus_device (readers h ! i) \<in> plugged busses (drivers h)
         \<longrightarrow> bus_device (readers h' ! i) = bus_device (readers h ! i) \<and> fullName (readers h' ! i) = fullName (readers h ! i))
    \<and> (card (tracked h \<union> plugged busses (drivers h)) \<le> 16 \<longrightarrow> tracked h' = plugged busses (drivers h))"
proof -
  let ?P = "plugged busses (drivers h)"
  obtain h1 where c: "called h (set (candidates busses (drivers h))) h1" and l: "length (readers h') = 16"
    and e: "\<And>i. i < 16 \<Longrightarrow> readers h' ! i = (if bus_device (readers h1 ! i) \<in> ?P \<or> fullName (readers h1 ! i) = None then readers h1 ! i
        else \<lparr>rt_status = READER_ABSENT, bus_device = [], fullName = None\<rparr>)"
    using scan_cases [OF assms] by blast
  from c have ok: "tracker_ok h1" by (simp add: called_def)
  have ok2: "tracker_ok h'" unfolding tracker_ok_def using l ok [unfolded tracker_ok_def] by (simp add: e) blast
  have t: "p \<in> tracked h' \<longleftrightarrow> p \<in> tracked h1 \<and> p \<in> ?P" for p
    unfolding tracked_iff [OF ok] tracked_iff [OF ok2] using e by fastforce
  have n: "[] \<notin> ?P" using place_of_not_empty [symmetric] by (auto simp: plugged_def places_def)
  have keep: "readers h' ! i = readers h1 ! i \<and> bus_device (readers h1 ! i) = bus_device (readers h ! i)
      \<and> fullName (readers h1 ! i) = fullName (readers h ! i)" if "i < 16" "bus_device (readers h ! i) \<in> ?P" for i
  proof -
    have "fullName (readers h ! i) \<noteq> None" using tracker_okD(2) [OF assms(2) that(1)] that(2) n by metis
    with c that e show ?thesis unfolding called_def by metis
  qed
  have "?P \<subseteq> tracked h1" if "card (tracked h \<union> ?P) \<le> 16"
    using called_room [OF c] that by (simp add: plugged_def)
  with ok2 t keep show ?thesis by auto
qed

subsection \<open>Samples\<close>

text \<open>Two names of the sample reader that differ in its place.\<close>

definition sample_device :: usb_device where
  "sample_device = \<lparr>dev_filename = ''002'', idVendor = 0x08E6, idProduct = 0x3437, bcdDevice = 0x0200, config = Some [sample_interface]\<rparr>"

theorem place_of_reader_ignored_witness:
  "OpenUSBByName sample_usb sample_plist 0 (Some (deviceName sample_device ''001:003'')) sample_start
     = OpenUSBByName sample_usb sample_plist 0 (Some (deviceName sample_device ''001:002'')) sample_start"
proof -
  have "\<forall>q \<in> {''001:002'', ''001:003''}. length q \<le> 233 \<and> strstr ''libhal:'' (deviceName sample_device q) = None"
    by (simp add: deviceName_def snprintf_def print_04x_def hex_digit_def sample_device_def)
  from place_of_reader_ignored [OF this, of sample_usb sample_plist 0 sample_start] show ?thesis by simp
qed

text \<open>The first scan of a daemon without readers finds the sample reader.\<close>

definition sample_tracker :: "unit hotplug" where
  "sample_tracker = \<lparr>readers = replicate 16 \<lparr>rt_status = READER_ABSENT, bus_device = [], fullName = None\<rparr>,
     drivers = [\<lparr>manuID = 0x08E6, productID = 0x3437, bundleName = Some ''ccid.bundle'', libraryPath = Some ''libccid.so'',
       dt_readerName = Some ''GemPC Twin'', ifdCapabilities = 1\<rparr>],
     AraKiriHotPlug = False, hp_daemon = bare_daemon\<rparr>"

definition sample_busses :: "usb_bus list" where
  "sample_busses = [\<lparr>bus_dirname = ''001'', devices = [sample_device]\<rparr>]"

lemma sample_scan: "\<exists>h'. HPRescanUsbBus (sample_system 0) (\<lambda>bus dev. None) sample_busses sample_tracker = Some (False, h')"
proof -
  let ?bus = "\<lparr>bus_dirname = ''001'', devices = [sample_device]\<rparr>"
  let ?drv = "drivers sample_tracker ! 0"
  let ?c = "clear_rollcall sample_tracker"
  have l: "length (deviceName sample_device (place_of ?bus sample_device)) < MAX_DEVICENAME" by (simp add: deviceName_def snprintf_def)
  obtain w where a: "RFAddReader (sample_system 0) (Some ''GemPC Twin'') 0x200000 (Some ''libccid.so'')
      (Some (deviceName sample_device (place_of ?bus sample_device))) bare_daemon = Some (SCARD_S_SUCCESS, w)"
    using bare_add [of "''GemPC Twin''" "''libccid.so''" _ "0x200000"] l by auto
  let ?h1 = "?c\<lparr>readers := (readers ?c)[0 := \<lparr>rt_status = READER_PRESENT, bus_device = place_of ?bus sample_device, fullName = Some ''GemPC Twin''\<rparr>],
      hp_daemon := w\<rparr>"
  have c: "candidates sample_busses (drivers sample_tracker) = [(?bus, sample_device, ?drv)]"
    by (simp add: candidates_def sample_busses_def sample_tracker_def)
  have n: "first_index (\<lambda>r. bus_device r = place_of ?bus sample_device) (readers ?c) = None"
    using place_of_not_empty [of ?bus sample_device] by (simp add: sample_tracker_def clear_rollcall_def)
  have f: "first_index (\<lambda>r. fullName r = None) (readers ?c) = Some 0"
    by (simp add: sample_tracker_def clear_rollcall_def replicate_16)
  have s: "supported_by sample_device ?drv" "dt_readerName ?drv = Some ''GemPC Twin''" "libraryPath ?drv = Some ''libccid.so''" "hp_daemon ?c = bare_daemon"
    by (simp_all add: supported_by_def sample_tracker_def sample_device_def clear_rollcall_def)
  have "roll_call (sample_system 0) (\<lambda>bus dev. None) (?bus, sample_device, ?drv) ?c = Some ?h1"
    using a s unfolding roll_call_def prod.case n option.case HPAddHotPluggable_def f by (simp add: full_name_def)
  moreover have r: "run_all (sweep (sample_system 0)) is ?h1 = Some ?h1" if "set is \<subseteq> {..<16}" for "is"
    using that by (induction "is") (auto simp: sweep_def sample_tracker_def clear_rollcall_def replicate_16 nth_Cons split: nat.splits)
  moreover have "run_all (sweep (sample_system 0)) [0..<16] ?h1 = Some ?h1" by (rule r) auto
  moreover have "\<not> AraKiriHotPlug sample_tracker" by (simp add: sample_tracker_def)
  ultimately show ?thesis by (simp add: HPRescanUsbBus_def c del: upt.simps)
qed

theorem scan_follows_busses_witness:
  "\<exists>h'. HPRescanUsbBus (sample_system 0) (\<lambda>bus dev. None) sample_busses sample_tracker = Some (False, h') \<and> tracker_ok h'
     \<and> tracked h' = {''001:002''}"
proof -
  obtain h' where s: "HPRescanUsbBus (sample_system 0) (\<lambda>bus dev. None) sample_busses sample_tracker = Some (False, h')" using sample_scan by blast
  have ok: "tracker_ok sample_tracker" by (simp add: tracker_ok_def sample_tracker_def)
  have p: "plugged sample_busses (drivers sample_tracker) = {''001:002''}"
    by (auto simp: plugged_def places_def candidates_def sample_busses_def sample_tracker_def sample_device_def supported_by_def place_of_def snprintf_def)
  have "tracked sample_tracker = {}" by (simp add: tracked_def sample_tracker_def)
  with scan_follows_busses [OF s ok] s show ?thesis unfolding p by simp
qed

end
