(* ===== verification/Card_Sharing.thy ===== *)
theory Card_Sharing
  imports Winscard
begin

section \<open>Sharing, exclusivity and transactions of the card operations\<close>

text \<open>
  What clients can rely on when several of them use a reader: the bookkeeping of connections, the
  exclusion by exclusive connections and by transactions, the notification of resets, and the places where
  the code of winscard.c does not keep these promises.
\<close>

subsection \<open>A sample session\<close>

lemma sample_inv: "daemon_inv sample_daemon" "sharing_inv sample_daemon"
proof -
  have "reader_inv 0 sample_reader" "share_ok sample_reader"
    by (simp_all add: reader_inv_def share_ok_def connected_def sample_reader_def slot_identity_def count_if_def)
  moreover have "reader_inv i (empty_reader :: unit READER_CONTEXT)" "share_ok (empty_reader :: unit READER_CONTEXT)" for i
    by (simp_all add: reader_inv_def share_ok_def connected_def empty_reader_def count_if_def)
  ultimately have "reader_inv i (rctx sample_daemon i) \<and> share_ok (rctx sample_daemon i)" if "i < 16" for i
    using that by (cases "i = 0") (simp_all add: rctx_sample)
  then show "daemon_inv sample_daemon" "sharing_inv sample_daemon"
    by (simp_all add: daemon_inv_def sharing_inv_def sample_daemon_def)
qed

text \<open>Sessions on the sample reader with the clients \<open>0x1000A\<close> and \<open>0x1FDE8\<close>: the parameters are the handles
  connected, the protocol in use, how often \<^verbatim>\<open>rand()\<close> was called, \<^verbatim>\<open>readerSharing\<close>, \<^verbatim>\<open>dwContexts\<close>,
  \<^verbatim>\<open>dwLockId\<close> and \<^verbatim>\<open>LockCount\<close>.\<close>

definition handle_array :: "SCARDHANDLE list \<Rightarrow> RDR_CLIHANDLES list" where
  "handle_array hs = map (\<lambda>h. \<lparr>hCard = h, dwEventStatus = 0\<rparr>) hs @ replicate (16 - length hs) \<lparr>hCard = 0, dwEventStatus = 0\<rparr>"

definition session_reader :: "SCARDHANDLE list \<Rightarrow> int \<Rightarrow> DWORD \<Rightarrow> int \<Rightarrow> unit READER_CONTEXT" where
  "session_reader hs c l n = sample_reader\<lparr>psHandles := handle_array hs, dwContexts := c, dwLockId := l, LockCount := n\<rparr>"

definition session_state :: "DWORD \<Rightarrow> int \<Rightarrow> READER_STATE" where
  "session_state prot q = sample_state\<lparr>cardProtocol := prot, readerSharing := q\<rparr>"

text \<open>Two clients: the first has a context without handles, the second owns the handle \<^verbatim>\<open>0x1000A\<close>.\<close>

definition context_of :: "SCARDCONTEXT \<Rightarrow> SCARDHANDLE list \<Rightarrow> DWORD \<Rightarrow> psContext_t" where
  "context_of hc hs fd = \<lparr>ctx_hContext = hc, ctx_hCard = hs @ replicate (16 - length hs) 0, ctx_dwClientID = fd,
     ctx_protocol_major = 4, ctx_protocol_minor = 0\<rparr>"

lemma context_of_fields [simp]:
  "ctx_hContext (context_of hc hs fd) = hc" "ctx_hCard (context_of hc hs fd) = hs @ replicate (16 - length hs) 0"
  "ctx_dwClientID (context_of hc hs fd) = fd"
  by (simp_all add: context_of_def)

definition session_clients :: "psContext_t list" where
  "session_clients = context_of 0x1030001 [] 5 # context_of 0x1030002 [0x1000A] 6 # replicate 254 empty_context"

definition session :: "SCARDHANDLE list \<Rightarrow> DWORD \<Rightarrow> nat \<Rightarrow> int \<Rightarrow> int \<Rightarrow> DWORD \<Rightarrow> int \<Rightarrow> unit pcscd" where
  "session hs prot p q c l n = sample_daemon\<lparr>
     sReadersContexts := session_reader hs c l n # replicate 15 empty_reader,
     readerStates := session_state prot q # replicate 15 empty_state, psContext := session_clients,
     rand_stream := (\<lambda>_. RAND_MAX), rand_pos := p\<rparr>"

abbreviation (input) one :: "SCARDHANDLE list" where "one \<equiv> [0x1000A]"
abbreviation (input) two :: "SCARDHANDLE list" where "two \<equiv> [0x1000A, 0x1FDE8]"

lemma handle_array_simps [simp]:
  "length hs \<le> 16 \<Longrightarrow> length (handle_array hs) = 16"
  "map hCard (handle_array hs) = hs @ replicate (16 - length hs) 0"
  by (simp_all add: handle_array_def comp_def)

lemma session_reader_fields [simp]:
  "psHandles (session_reader hs c l n) = handle_array hs" "dwContexts (session_reader hs c l n) = c"
  "dwLockId (session_reader hs c l n) = l" "LockCount (session_reader hs c l n) = n"
  "dwIdentity (session_reader hs c l n) = slot_identity 0" "vHandle (session_reader hs c l n) = 1"
  "stateRef (session_reader hs c l n) = Some 0" "lpcReader (session_reader hs c l n) = ''R 00 00''"
  "dwVersion (session_reader hs c l n) = IFD_HVERSION_2_0" "dwSlot (session_reader hs c l n) = 0"
  "psFunctions (session_reader hs c l n) = FCT_V2 sample_driver sample_control"
  by (simp_all add: session_reader_def sample_reader_def slot_identity_def)

lemma session_facts [simp]:
  "rctx (session hs prot p q c l n) 0 = session_reader hs c l n"
  "rstate (session hs prot p q c l n) 0 = Some (session_state prot q)" "state_valid (session hs prot p q c l n) 0"
  "length (sReadersContexts (session hs prot p q c l n)) = 16" "machine (session hs prot p q c l n) = sample_hw"
  "i \<noteq> 0 \<Longrightarrow> i < 16 \<Longrightarrow> rctx (session hs prot p q c l n) i = empty_reader"
  by (simp_all add: session_def rctx_def rstate_def state_valid_def sample_daemon_def nth_Cons')

lemma session_state_fields [simp]:
  "cardProtocol (session_state prot q) = prot" "readerState (session_state prot q) = 0x34"
  "cardAtr (session_state prot q) = sample_atr" "cardAtrLength (session_state prot q) = 4"
  by (simp_all add: session_state_def sample_state_def)

lemma client_identity: "identity_part 0x1000A = slot_identity 0" "identity_part 0x1FDE8 = slot_identity 0"
  using identity_part_handle [of 0 10] identity_part_handle [of 0 65000] by (simp_all add: slot_identity_def)

lemma session_connected [simp]: "0 \<notin> set hs \<Longrightarrow> connected (session_reader hs c l n) = length hs"
proof -
  assume "0 \<notin> set hs"
  then have "filter (\<lambda>c. c \<noteq> 0) (hs @ replicate (16 - length hs) 0) = hs" by (auto intro: filter_True)
  then show ?thesis by (simp add: connected_live size_live count_if_def)
qed

lemma session_inv:
  assumes "hs = one \<or> hs = two" and "-1 \<le> c" and "c \<le> int (length hs)"
  shows "daemon_inv (session hs prot p q c l n)"
proof -
  have "hCard ` set (handle_array hs) = set hs \<union> {0}"
    using assms by (auto simp: handle_array_def image_Un)
  then have "reader_inv 0 (session_reader hs c l n)"
    using assms by (auto simp: reader_inv_def client_identity)
  moreover have "reader_inv i (empty_reader :: unit READER_CONTEXT)" for i
    by (simp add: reader_inv_def connected_def count_if_def empty_reader_def)
  ultimately have "reader_inv i (rctx (session hs prot p q c l n) i)" if "i < 16" for i
    using that by (cases "i = 0") simp_all
  then show ?thesis by (simp add: daemon_inv_def)
qed

lemma session_sharing:
  assumes "hs = one \<and> (c = 1 \<or> c = -1) \<or> hs = two \<and> c = 2"
  shows "sharing_inv (session hs prot p q c l n)"
proof -
  have "share_ok (empty_reader :: unit READER_CONTEXT)" by (simp add: share_ok_def connected_def empty_reader_def count_if_def)
  moreover have "share_ok (session_reader hs c l n)" using assms by (auto simp: share_ok_def)
  ultimately have "share_ok (rctx (session hs prot p q c l n) i)" if "i < 16" for i
    using that by (cases "i = 0") simp_all
  then show ?thesis by (simp add: sharing_inv_def)
qed

lemma session_handle [simp]:
  "RFReaderInfoById (session hs prot p q c l n) 0x1000A = Inr 0" "RFReaderInfoById (session hs prot p q c l n) 0x1FDE8 = Inr 0"
  "h \<in> set hs \<Longrightarrow> RFFindReaderHandle (session hs prot p q c l n) h = SCARD_S_SUCCESS"
  "RFReaderInfo (session hs prot p q c l n) (Some ''R 00 00'') = Inr 0"
  "RFCheckReaderStatus (session hs prot p q c l n) 0 = SCARD_S_SUCCESS"
proof -
  have id: "identities_ok (session hs prot p q c l n)"
  proof -
    have "dwIdentity (rctx (session hs prot p q c l n) i) = 0 \<or> dwIdentity (rctx (session hs prot p q c l n) i) = slot_identity i"
      if "i < 16" for i using that by (cases "i = 0") (simp_all add: empty_reader_def)
    then show ?thesis by (simp add: identities_ok_def)
  qed
  show "RFReaderInfoById (session hs prot p q c l n) 0x1000A = Inr 0"
    by (rule RFReaderInfoById_handle [OF id _ _ client_identity(1)]) simp_all
  show "RFReaderInfoById (session hs prot p q c l n) 0x1FDE8 = Inr 0"
    by (rule RFReaderInfoById_handle [OF id _ _ client_identity(2)]) simp_all
  show "RFCheckReaderStatus (session hs prot p q c l n) 0 = SCARD_S_SUCCESS"
    by (simp add: RFCheckReaderStatus_def flag_def)
  show "RFReaderInfo (session hs prot p q c l n) (Some ''R 00 00'') = Inr 0"
    by (simp add: RFReaderInfo_def session_def)
  show "RFFindReaderHandle (session hs prot p q c l n) h = SCARD_S_SUCCESS" if "h \<in> set hs"
  proof -
    have "h \<in> hCard ` set (handle_array hs)" using that by (force simp: handle_array_def)
    then show ?thesis by (simp add: RFFindReaderHandle_def session_def)
  qed
qed

lemma first_index_append: "first_index P xs = Some j \<Longrightarrow> first_index P (xs @ ys) = Some j"
  by (induction xs arbitrary: j) auto

lemma session_events [simp]:
  "h \<in> set hs \<Longrightarrow> RFCheckReaderEventState (session_reader hs c l n) h = SCARD_S_SUCCESS"
proof -
  assume "h \<in> set hs"
  then obtain j where j: "first_index (\<lambda>x. x = h) hs = Some j" using first_index_ex [of h hs "\<lambda>x. x = h"] by blast
  have "first_index (\<lambda>c. hCard c = h) (handle_array hs) = Some j"
    unfolding handle_array_def by (rule first_index_append) (use j in \<open>simp add: first_index_map\<close>)
  moreover have "dwEventStatus (handle_array hs ! j) = 0"
    using first_index_SomeD [OF j] by (simp add: handle_array_def nth_append)
  ultimately show ?thesis by (simp add: RFCheckReaderEventState_def)
qed

text \<open>The second client gets the handle \<open>0x1FDE8\<close>.\<close>

lemma session_create:
  "RFCreateReaderHandle 0 (session one prot p q c l n) = (0x1FDE8, session one prot (Suc p) q c l n)"
proof -
  have cells: "handle_cells (session one prot p q c l n) = 0x1000A # replicate 15 0"
    by (simp add: handle_cells_def session_def empty_reader_def)
  have "rand_stream (session one prot p q c l n) = (\<lambda>_. RAND_MAX)" "rand_pos (session one prot p q c l n) = p"
    by (simp_all add: session_def)
  moreover have "(session one prot p q c l n)\<lparr>rand_pos := Suc p\<rparr> = session one prot (Suc p) q c l n"
    by (simp add: session_def)
  ultimately show ?thesis
    by (simp add: RFCreateReaderHandle_def cells SYS_RandomInt_def RAND_MAX_def scan_handles_no_collision slot_identity_def)
qed

lemma upd_at_Cons [simp]: "upd_at 0 f (x # xs) = f x # xs"
  by (simp add: upd_at_def)

lemma session_upd_rctx:
  "(\<And>r. r = session_reader hs c l n \<Longrightarrow> f r = session_reader hs' c' l' n') \<Longrightarrow>
     upd_rctx 0 f (session hs prot p q c l n) = session hs' prot p q c' l' n'"
  by (simp add: session_def upd_rctx_def)

lemma session_upd_rstate:
  "f (session_state prot q) = session_state prot' q' \<Longrightarrow>
     upd_rstate 0 f (session hs prot p q c l n) = Some (session hs prot' p q' c l n)"
  by (simp add: upd_rstate_def) (simp add: session_def sample_daemon_def)

lemma session_state_sharing [simp]: "(session_state prot q)\<lparr>readerSharing := q'\<rparr> = session_state prot q'"
  "(session_state prot q)\<lparr>cardProtocol := prot'\<rparr> = session_state prot' q"
  by (simp_all add: session_state_def)

text \<open>Counting the second connection, shared or direct.\<close>

lemma session_connect_share:
  assumes "m \<noteq> SCARD_SHARE_EXCLUSIVE"
  shows "connect_share 0 m (session one prot p q c l n)
    = Some (SCARD_S_SUCCESS, 0x1FDE8, session two prot (Suc p) (c + 1) (c + 1) l n)"
proof -
  have "session_reader one (c + 1) l n = (session_reader one c l n)\<lparr>dwContexts := c + 1\<rparr>" for c
    by (simp add: session_reader_def)
  then have c: "upd_rctx 0 (\<lambda>r. r\<lparr>dwContexts := dwContexts r + 1\<rparr>) (session one prot (Suc p) q c l n)
      = session one prot (Suc p) q (c + 1) l n"
    by (intro session_upd_rctx) (simp add: session_reader_def)
  have "handle_array one = \<lparr>hCard = 0x1000A, dwEventStatus = 0\<rparr> # \<lparr>hCard = 0, dwEventStatus = 0\<rparr> # replicate 14 \<lparr>hCard = 0, dwEventStatus = 0\<rparr>"
    by (simp add: handle_array_def numeral_eq_Suc)
  then have a: "RFAddReaderHandle (session_reader one (c + 1) l n) 0x1FDE8 = (SCARD_S_SUCCESS, session_reader two (c + 1) l n)"
    by (simp add: RFAddReaderHandle_def) (simp add: session_reader_def handle_array_def)
  have u: "upd_rctx 0 (\<lambda>_. session_reader two (c + 1) l n) (session one prot (Suc p) q (c + 1) l n)
      = session two prot (Suc p) q (c + 1) l n"
    by (intro session_upd_rctx) simp
  show ?thesis
    using assms by (simp add: connect_share_def session_create c a u Let_def session_upd_rstate)
qed

subsection \<open>Connections are counted\<close>

text \<open>The bookkeeping of connections is an invariant. In every reader slot the handles carry the identity of
  the slot, and \<^verbatim>\<open>dwContexts\<close> is -1 with exactly one handle (exclusive) or the number of handles;
  every card operation that returns keeps this, whatever its arguments and its result code.\<close>

theorem card_operations_keep_invariants:
  assumes "daemon_inv w" and "sharing_inv w"
  shows "(SCardConnect nm out m p act w = Some (rv, h, act', w') \<longrightarrow> daemon_inv w' \<and> sharing_inv w')
    \<and> (SCardReconnect h m p d out act w = Some (rv, act', w') \<longrightarrow> daemon_inv w' \<and> sharing_inv w')
    \<and> (SCardDisconnect h d w = Some (rv, w') \<longrightarrow> daemon_inv w' \<and> sharing_inv w')
    \<and> (SCardBeginTransaction h w = (rv, w') \<longrightarrow> daemon_inv w' \<and> sharing_inv w')
    \<and> (SCardEndTransaction h d w = Some (rv, w') \<longrightarrow> daemon_inv w' \<and> sharing_inv w')
    \<and> (SCardCancelTransaction h w = (rv, w') \<longrightarrow> daemon_inv w' \<and> sharing_inv w')"
  using assms SCardConnect_inv [of nm out m p act w rv h act' w'] SCardReconnect_inv [of h m p d out act w rv act' w']
    SCardDisconnect_inv [of h d w rv w'] clients_inv [OF begin_clients [of h w rv w'] assms(1)]
    clients_inv [OF end_clients [of h d w rv w'] assms(1)] clients_inv [OF cancel_clients [of h w rv w'] assms(1)]
  by blast

text \<open>Counting the connection leaves the protocol of the public state alone.\<close>

lemma upd_at_field: "(\<And>x. f (g x) = f x) \<Longrightarrow> f (upd_at k g xs ! j) = f (xs ! j)"
  by (cases "j = k"; cases "k < length xs") (simp_all add: upd_at_def list_update_beyond)

lemma upd_sharing_protocol:
  assumes "upd_rstate i (\<lambda>s. s\<lparr>readerSharing := q\<rparr>) w = Some w'"
  shows "map_option cardProtocol (rstate w' j) = map_option cardProtocol (rstate w j)"
proof -
  from assms obtain k where w': "w' = w\<lparr>readerStates := upd_at k (\<lambda>s. s\<lparr>readerSharing := q\<rparr>) (readerStates w)\<rparr>"
    by (auto simp: upd_rstate_Some)
  have "cardProtocol (upd_at k (\<lambda>s. s\<lparr>readerSharing := q\<rparr>) xs ! n) = cardProtocol (xs ! n)" for xs :: "READER_STATE list" and n
    by (rule upd_at_field) simp
  then show ?thesis by (simp add: w' rstate_def rctx_def option.map_comp comp_def)
qed

lemma rstate_lock [simp]: "rstate (snd (RFLockSharing h w)) j = rstate w j"
  by (auto simp: RFLockSharing_def Let_def split: sum.splits dest!: RFReaderInfoById_len)

lemma RFCreateReaderHandle_world: "RFCreateReaderHandle i w = (h, w') \<Longrightarrow> \<exists>p. w' = w\<lparr>rand_pos := p\<rparr>"
  by (auto simp: RFCreateReaderHandle_def Let_def split: prod.splits)

lemma connect_share_protocol:
  assumes "connect_share i m w = Some (SCARD_S_SUCCESS, h, w')" and "i < length (sReadersContexts w)"
  shows "map_option cardProtocol (rstate w' i) = map_option cardProtocol (rstate w i)"
proof -
  obtain h0 w1 where c: "RFCreateReaderHandle i w = (h0, w1)" by fastforce
  then have w1: "rstate w1 i = rstate w i" "length (sReadersContexts w1) = length (sReadersContexts w)"
    using RFCreateReaderHandle_world [OF c] by (auto simp: rstate_def rctx_def)
  define w2 where "w2 = (if m = SCARD_SHARE_EXCLUSIVE
        then snd (RFLockSharing h0 (upd_rctx i (\<lambda>r. r\<lparr>dwContexts := SCARD_EXCLUSIVE_CONTEXT\<rparr>) w1))
        else upd_rctx i (\<lambda>r. r\<lparr>dwContexts := dwContexts r + 1\<rparr>) w1)"
  have len: "length (sReadersContexts w2) = length (sReadersContexts w)"
    by (auto simp: w2_def RFLockSharing_def Let_def w1 split: sum.splits)
  have r2: "rstate w2 i = rstate w i" using w1 assms(2) by (simp add: w2_def)
  obtain rv r where add: "RFAddReaderHandle (rctx w2 i) h0 = (rv, r)" by fastforce
  then have ref: "stateRef r = stateRef (rctx w2 i)" by (metis RFAddReaderHandle_frame(6) snd_conv)
  from assms(1) c add obtain q where u: "upd_rstate i (\<lambda>s. s\<lparr>readerSharing := q\<rparr>) (upd_rctx i (\<lambda>_. r) w2) = Some w'"
    by (auto simp: connect_share_def Let_def bind_eq_Some_conv simp flip: w2_def split: if_splits)
  have "rstate (upd_rctx i (\<lambda>_. r) w2) i = rstate w2 i"
    using ref len assms(2) by (simp add: rstate_def)
  with upd_sharing_protocol [OF u, of i] r2 show ?thesis by simp
qed

text \<open>What a successful connect does.\<close>

lemma SCardConnect_effect:
  assumes "SCardConnect (Some nm) True m p act w = Some (SCARD_S_SUCCESS, h, prot, w')" and "daemon_inv w"
  shows "\<exists>i. RFReaderInfo w (Some nm) = Inr i \<and> h \<noteq> 0 \<and> RFReaderInfoById w' h = Inr i
    \<and> RFFindReaderHandle w' h = SCARD_S_SUCCESS
    \<and> live (map hCard (psHandles (rctx w' i))) = add_mset h (live (map hCard (psHandles (rctx w i))))
    \<and> map_option cardProtocol (rstate w' i) = Some prot
    \<and> (m \<noteq> SCARD_SHARE_EXCLUSIVE \<longrightarrow> dwContexts (rctx w' i) = dwContexts (rctx w i) + 1)
    \<and> (m = SCARD_SHARE_EXCLUSIVE \<longrightarrow> dwContexts (rctx w i) = SCARD_NO_CONTEXT
         \<and> dwContexts (rctx w' i) = SCARD_EXCLUSIVE_CONTEXT \<and> dwLockId (rctx w' i) = h)"
proof -
  obtain i where e: "connect_enter (Some nm) True m p w = Inr i"
    using assms(1) by (auto simp: SCardConnect_def connect_enter_def RFReaderInfo_def RFCheckReaderStatus_def Let_def
        split: sum.splits option.splits if_splits)
  then have info: "RFReaderInfo w (Some nm) = Inr i"
    by (auto simp: connect_enter_def Let_def split: if_splits sum.splits)
  from connect_enter_Inr [OF e assms(2)] have i: "i < 16" "dwIdentity (rctx w i) = slot_identity i" by auto
  have lock: "dwLockId (rctx w i) = 0" and f: "connect_finish i m p act w = Some (SCARD_S_SUCCESS, h, prot, w')"
    using assms(1) e by (auto simp: SCardConnect_def split: if_splits)
  from f obtain w1 s1 where sel: "select_protocol i m p w = Some (SCARD_S_SUCCESS, w1)"
    and s1: "rstate w1 i = Some s1" "prot = cardProtocol s1" and sh: "connect_share i m w1 = Some (SCARD_S_SUCCESS, h, w')"
    by (auto simp: connect_finish_def Let_def bind_eq_Some_conv connect_present_def split: option.splits if_splits)
  note t = same_tables_select_protocol [OF sel]
  have r: "rctx w1 = rctx w" by (rule same_tables_rctx [OF t])
  have inv1: "daemon_inv w1" using assms(2) r t by (simp add: daemon_inv_def same_tables_def)
  have inv': "daemon_inv w'" using SCardConnect_inv [OF assms] by simp
  have prot: "map_option cardProtocol (rstate w' i) = Some prot"
    using connect_share_protocol [OF sh] inv1 i s1 by (simp add: daemon_inv_def)
  have id1: "dwIdentity (rctx w1 i) = slot_identity i" using i r by simp
  from sh inv1 i(1) id1 show ?thesis
  proof (cases rule: connect_share_cases)
    case ok
    let ?r0 = "counted m h (rctx w1 i)"
    have add: "fst (RFAddReaderHandle ?r0 h) = SCARD_S_SUCCESS" "snd (RFAddReaderHandle ?r0 h) = rctx w' i" using ok by auto
    have live: "live (map hCard (psHandles (rctx w' i))) = add_mset h (live (map hCard (psHandles (rctx w i))))"
      using reader_handles.add_live [OF add(1) ok(2)] add(2) r by simp
    have "vHandle (rctx w' i) \<noteq> 0" "dwIdentity (rctx w' i) = slot_identity i"
      using add(2) connect_enter_Inr [OF e assms(2)] r by (metis RFAddReaderHandle_frame(4,5) counted_fields(2,3))+
    moreover have "rctx w' i \<in> set (sReadersContexts w')" using inv' i(1) by (auto simp: daemon_inv_def rctx_def)
    moreover have "h \<in> hCard ` set (psHandles (rctx w' i))" using add_handle(2) [OF ok(5,2)] .
    ultimately have find: "RFFindReaderHandle w' h = SCARD_S_SUCCESS" "RFReaderInfoById w' h = Inr i"
      using RFReaderInfoById_handle [OF daemon_inv_identities [OF inv'] i(1) _ ok(3)]
      by (auto simp: RFFindReaderHandle_def)
    have "dwContexts (rctx w' i) = dwContexts ?r0" "dwLockId (rctx w' i) = dwLockId ?r0"
      using RFAddReaderHandle_frame(1,2) [of ?r0 h] add(2) by simp_all
    moreover have "dwLockId ?r0 = h" if "m = SCARD_SHARE_EXCLUSIVE" using that lock r by (simp add: counted_def)
    ultimately show ?thesis using info ok find live prot r by (intro exI [of _ i]) auto
  qed simp_all
qed

text \<open>C10: A successful connect gives the client what it asked for: the handle is new to the reader's table, leads
  back to the reader named, and is known as connected; the protocol reported is the one the reader
  now uses; a shared or direct connection counts one more. An exclusive connection is made only where the sharing count is 0, sets it to -1
  and owns the reader's lock; where the count was exact before, its handle is the only one connected to the reader.\<close>

theorem connect_success:
  assumes "SCardConnect (Some nm) True m p act w = Some (SCARD_S_SUCCESS, h, prot, w')" and "daemon_inv w"
  shows "\<exists>i. RFReaderInfo w (Some nm) = Inr i \<and> h \<noteq> 0 \<and> RFReaderInfoById w' h = Inr i
    \<and> RFFindReaderHandle w' h = SCARD_S_SUCCESS
    \<and> live (map hCard (psHandles (rctx w' i))) = add_mset h (live (map hCard (psHandles (rctx w i))))
    \<and> map_option cardProtocol (rstate w' i) = Some prot
    \<and> (m \<noteq> SCARD_SHARE_EXCLUSIVE \<longrightarrow> dwContexts (rctx w' i) = dwContexts (rctx w i) + 1)
    \<and> (m = SCARD_SHARE_EXCLUSIVE \<longrightarrow> dwContexts (rctx w i) = SCARD_NO_CONTEXT
         \<and> dwContexts (rctx w' i) = SCARD_EXCLUSIVE_CONTEXT \<and> dwLockId (rctx w' i) = h
         \<and> (share_ok (rctx w i) \<longrightarrow> live (map hCard (psHandles (rctx w' i))) = {#h#}))"
proof -
  from SCardConnect_effect [OF assms] obtain i where e: "RFReaderInfo w (Some nm) = Inr i \<and> h \<noteq> 0 \<and> RFReaderInfoById w' h = Inr i
    \<and> RFFindReaderHandle w' h = SCARD_S_SUCCESS
    \<and> live (map hCard (psHandles (rctx w' i))) = add_mset h (live (map hCard (psHandles (rctx w i))))
    \<and> map_option cardProtocol (rstate w' i) = Some prot
    \<and> (m \<noteq> SCARD_SHARE_EXCLUSIVE \<longrightarrow> dwContexts (rctx w' i) = dwContexts (rctx w i) + 1)
    \<and> (m = SCARD_SHARE_EXCLUSIVE \<longrightarrow> dwContexts (rctx w i) = SCARD_NO_CONTEXT
         \<and> dwContexts (rctx w' i) = SCARD_EXCLUSIVE_CONTEXT \<and> dwLockId (rctx w' i) = h)" ..
  moreover from e have "live (map hCard (psHandles (rctx w i))) = {#}" if "m = SCARD_SHARE_EXCLUSIVE" "share_ok (rctx w i)"
    using that by (simp add: share_ok_def connected_live)
  ultimately show ?thesis by auto
qed

subsection \<open>Exclusion\<close>

text \<open>C9: Nobody connects to a reader that is connected exclusively: whatever the arguments, the call fails and
  leaves the daemon as it is.\<close>

theorem exclusive_excludes:
  assumes "RFReaderInfo w nm = Inr i" and "dwContexts (rctx w i) = SCARD_EXCLUSIVE_CONTEXT"
  shows "\<exists>rv. rv \<noteq> SCARD_S_SUCCESS \<and> SCardConnect nm out m p act w = Some (rv, 0, act, w)"
  using assms by (auto simp: SCardConnect_def connect_enter_def RFCheckReaderStatus_def Let_def)

text \<open>C2: A transaction excludes the other clients: while another handle holds the reader's lock, transmitting,
  control and attribute commands, beginning or cancelling a transaction, reconnecting and disconnecting with
  \<^verbatim>\<open>SCARD_LEAVE_CARD\<close> fail without any effect on the daemon, the reader or the card. Disconnecting with any other disposition either fails in the same
  way or waits for the lock, which is the result \<open>None\<close> of a call whose wait condition holds, and so does a new connection to the reader. (Ending a transaction is not
  excluded, and reading the status has no effect.)\<close>

theorem transaction_excludes:
  assumes "RFReaderInfoById w h = Inr i" and "h \<noteq> 0" and "dwLockId (rctx w i) \<noteq> 0" and "dwLockId (rctx w i) \<noteq> h"
  shows "(\<exists>rv out'. rv \<noteq> SCARD_S_SUCCESS \<and> SCardTransmit h pci tx out w = Some (rv, out', w))
    \<and> SCardControl h c tx rx n w = Some (SCARD_E_SHARING_VIOLATION, 0, rx, w)
    \<and> SCardGetAttrib h a buf n w = Some (SCARD_E_SHARING_VIOLATION, n, buf, w)
    \<and> SCardSetAttrib h a buf n w = Some (SCARD_E_SHARING_VIOLATION, w)
    \<and> (\<exists>rv. rv \<noteq> SCARD_S_SUCCESS \<and> SCardBeginTransaction h w = (rv, w))
    \<and> (\<exists>rv. rv \<noteq> SCARD_S_SUCCESS \<and> SCardCancelTransaction h w = (rv, w))
    \<and> (\<exists>rv. rv \<noteq> SCARD_S_SUCCESS \<and> SCardReconnect h m p d ptr act w = Some (rv, act, w))
    \<and> (\<exists>rv. rv \<noteq> SCARD_S_SUCCESS \<and> SCardDisconnect h SCARD_LEAVE_CARD w = Some (rv, w))
    \<and> ((\<exists>rv. rv \<noteq> SCARD_S_SUCCESS \<and> SCardDisconnect h d' w = Some (rv, w))
       \<or> SCardDisconnect h d' w = None \<and> disconnect_enter h d' w = Inr i \<and> disconnect_waits i h d' w)
    \<and> (RFReaderInfo w nm = Inr i \<longrightarrow>
         (\<exists>rv. rv \<noteq> SCARD_S_SUCCESS \<and> SCardConnect nm out2 m p act w = Some (rv, 0, act, w))
         \<or> SCardConnect nm out2 m p act w = None \<and> connect_enter nm out2 m p w = Inr i)"
proof -
  have check: "RFCheckSharing w h = SCARD_E_SHARING_VIOLATION" using assms by (simp add: RFCheckSharing_def)
  have guard: "card_guard h w = Inl SCARD_E_SHARING_VIOLATION" by (simp add: card_guard_def check)
  have transmit: "\<exists>rv out'. rv \<noteq> SCARD_S_SUCCESS \<and> SCardTransmit h pci tx out w = Some (rv, out', w)"
    using assms(2) guard by (auto simp: SCardTransmit_def Let_def split: option.splits)
  have rec: "\<exists>rv. rv \<noteq> SCARD_S_SUCCESS \<and> SCardReconnect h m p d ptr act w = Some (rv, act, w)"
    using assms check by (auto simp: SCardReconnect_def reconnect_enter_def)
  have lock: "RFLockSharing h w = (SCARD_E_SHARING_VIOLATION, w)" "RFUnlockSharing h w = (SCARD_E_SHARING_VIOLATION, w)"
    "RFUnlockAllSharing h w = (SCARD_E_SHARING_VIOLATION, w)"
    using assms by (simp_all add: RFLockSharing_eq RFUnlockSharing_eq RFUnlockAllSharing_eq)
  have leave: "\<exists>rv. rv \<noteq> SCARD_S_SUCCESS \<and> SCardDisconnect h SCARD_LEAVE_CARD w = Some (rv, w)"
    using assms lock by (auto simp: SCardDisconnect_def disconnect_enter_def disconnect_waits_def disposition_ok_def
        disconnect_finish_def)
  have dis: "(\<exists>rv. rv \<noteq> SCARD_S_SUCCESS \<and> SCardDisconnect h d' w = Some (rv, w))
      \<or> SCardDisconnect h d' w = None \<and> disconnect_enter h d' w = Inr i \<and> disconnect_waits i h d' w"
  proof (cases "d' = SCARD_LEAVE_CARD \<or> \<not> disposition_ok d' \<or> RFFindReaderHandle w h \<noteq> SCARD_S_SUCCESS")
    case True
    with leave assms show ?thesis by (auto simp: SCardDisconnect_def disconnect_enter_def)
  next
    case False
    with assms show ?thesis by (simp add: SCardDisconnect_def disconnect_enter_def disconnect_waits_def)
  qed
  have con: "(\<exists>rv. rv \<noteq> SCARD_S_SUCCESS \<and> SCardConnect nm out2 m p act w = Some (rv, 0, act, w))
         \<or> SCardConnect nm out2 m p act w = None \<and> connect_enter nm out2 m p w = Inr i" if "RFReaderInfo w nm = Inr i"
    using that assms(3) by (auto simp: SCardConnect_def connect_enter_def Let_def)
  show ?thesis
    using assms check guard transmit rec lock leave dis con
    by (auto simp: SCardControl_def SCardGetAttrib_def SCardSetAttrib_def SCardBeginTransaction_def SCardCancelTransaction_def)
qed

text \<open>Ending a transaction does not check who holds the lock: a connected client without a transaction of its own can call
  \<^verbatim>\<open>SCardEndTransaction\<close> with a reset while another client \<open>own\<close> is in a transaction. The card is
  reset, the owner of the transaction finds its handle invalidated by the reset although it
  still holds the lock.\<close>

theorem end_transaction_resets_locked_card:
  assumes "SCardEndTransaction h SCARD_RESET_CARD w = Some (rv, w')" and "RFReaderInfoById w h = Inr i" and "h \<noteq> 0"
    and "RFFindReaderHandle w h = SCARD_S_SUCCESS" and "RFCheckReaderEventState (rctx w i) h = SCARD_S_SUCCESS"
    and "dwLockId (rctx w i) = own" and "own \<noteq> 0" and "own \<noteq> h" and "own \<in> hCard ` set (psHandles (rctx w i))"
  shows "RFCheckReaderEventState (rctx w' i) own = SCARD_W_RESET_CARD \<and> dwLockId (rctx w' i) = own
    \<and> (\<exists>w1. reset_card i SCARD_RESET_CARD w = Some (rv, w1))"
proof -
  have len: "i < length (sReadersContexts w)" by (rule RFReaderInfoById_len [OF assms(2)])
  from assms(1-5) obtain w1 where r: "reset_card i SCARD_RESET_CARD w = Some (rv, w1)" and w': "w' = snd (RFUnlockSharing h w1)"
    by (auto simp: SCardEndTransaction_def disposition_ok_def bind_eq_Some_conv)
  note r1 = reset_card_rctx [OF r len]
  have "same_clients i w w1" using r1 by (auto simp: same_clients_def)
  then have id1: "RFReaderInfoById w1 h = Inr i" using RFReaderInfoById_clients assms(2) by metis
  have lock: "dwLockId (rctx w1 i) = own" using r1 assms(6) by (simp add: RFSetReaderEventState_def)
  then have "w' = w1" using w' assms(7,8) by (simp add: RFUnlockSharing_eq [OF id1])
  with r r1 lock set_event [OF assms(7,9)] show ?thesis by auto
qed

subsection \<open>Disconnecting\<close>

text \<open>A disconnect that got past its checks undoes the connection of its handle, whatever the disposition.\<close>

lemma SCardDisconnect_undoes:
  assumes "SCardDisconnect h d w' = Some (rv, w'')" and "disconnect_enter h d w' = Inr i" and "i < length (sReadersContexts w')"
    and "stateRef (rctx w' i) \<noteq> None" and "dwLockId (rctx w' i) = 0 \<or> dwLockId (rctx w' i) = h" and "h \<noteq> 0"
  shows "rv = SCARD_S_SUCCESS \<and> live (map hCard (psHandles (rctx w'' i))) = live (map hCard (psHandles (rctx w' i))) - {#h#}
    \<and> dwContexts (rctx w'' i) = dwContexts (drop_connection (rctx w' i)) \<and> dwLockId (rctx w'' i) = 0"
proof -
  have find: "RFReaderInfoById w' h = Inr i" using assms(2) by (auto simp: disconnect_enter_def split: if_splits sum.splits)
  have f: "disconnect_finish i h d w' = Some (rv, w'')"
    using assms(1,2) by (auto simp: SCardDisconnect_def split: if_splits)
  have rv: "rv = SCARD_S_SUCCESS"
    using f assms(4,5) by (auto simp: disconnect_finish_def RFUnlockAllSharing_eq [OF find] bind_eq_Some_conv Let_def)
  from f assms(3) find show ?thesis
  proof (cases rule: disconnect_finish_cases)
    case refused
    with rv show ?thesis by simp
  next
    case (finished r)
    have m: "map hCard (psHandles r) = map hCard (psHandles (rctx w' i))" "dwContexts r = dwContexts (rctx w' i)" "dwLockId r = 0"
      using finished(4) by (auto simp: RFSetReaderEventState_def)
    have "live (map hCard (psHandles (snd (RFRemoveReaderHandle r h)))) = live (map hCard (psHandles r)) - {#h#}"
      by (rule reader_handles.remove_live [OF assms(6)])
    with finished(6) m rv show ?thesis by (simp add: drop_connection_def)
  qed
qed

text \<open>C11: Connecting and disconnecting is a round trip: disconnecting a new connection does not wait, whatever the disposition; it returns when the card is
  left (with a reset, a power cycle or an eject it depends on the driver), and then it succeeds with every disposition,
  the reader again holds exactly the handles it held before, the sharing count is the old one and
  the lock is free.\<close>

theorem connect_disconnect_roundtrip:
  assumes "SCardConnect (Some nm) True m p act w = Some (SCARD_S_SUCCESS, h, prot, w')" and "daemon_inv w" and "sharing_inv w"
    and "RFReaderInfo w (Some nm) = Inr i" and "disposition_ok d"
  shows "disconnect_enter h d w' = Inr i \<and> \<not> disconnect_waits i h d w'
    \<and> (d = SCARD_LEAVE_CARD \<longrightarrow> SCardDisconnect h d w' \<noteq> None)
    \<and> (SCardDisconnect h d w' = Some (rv, w'') \<longrightarrow> rv = SCARD_S_SUCCESS
         \<and> live (map hCard (psHandles (rctx w'' i))) = live (map hCard (psHandles (rctx w i)))
         \<and> dwContexts (rctx w'' i) = dwContexts (rctx w i) \<and> dwLockId (rctx w'' i) = 0)"
proof -
  have e: "connect_enter (Some nm) True m p w = Inr i"
    using assms(1,4) by (auto simp: SCardConnect_def connect_enter_def RFCheckReaderStatus_def Let_def
        split: sum.splits option.splits if_splits)
  from connect_enter_Inr [OF e assms(2)] obtain s where i: "i < 16" "dwIdentity (rctx w i) = slot_identity i"
    "vHandle (rctx w i) \<noteq> 0" "dwContexts (rctx w i) \<noteq> SCARD_EXCLUSIVE_CONTEXT" and s: "rstate w i = Some s" by auto
  have lock: "dwLockId (rctx w i) = 0" and f: "connect_finish i m p act w = Some (SCARD_S_SUCCESS, h, prot, w')"
    using assms(1) e by (auto simp: SCardConnect_def split: if_splits)
  from f obtain w1 where sel: "select_protocol i m p w = Some (SCARD_S_SUCCESS, w1)"
    and sh: "connect_share i m w1 = Some (SCARD_S_SUCCESS, h, w')"
    by (auto simp: connect_finish_def Let_def bind_eq_Some_conv connect_present_def split: option.splits if_splits)
  note t = same_tables_select_protocol [OF sel]
  have r: "rctx w1 = rctx w" by (rule same_tables_rctx [OF t])
  have inv1: "daemon_inv w1" using assms(2) r t by (simp add: daemon_inv_def same_tables_def)
  have inv': "daemon_inv w'" using SCardConnect_inv [OF assms(1,2)] by simp
  from sh inv1 i(1) i(2) [folded r] show ?thesis
  proof (cases rule: connect_share_cases)
    case ok
    let ?r0 = "counted m h (rctx w i)"
    have add: "fst (RFAddReaderHandle ?r0 h) = SCARD_S_SUCCESS" "rctx w' i = snd (RFAddReaderHandle ?r0 h)" using ok r by auto
    have h: "h \<in> hCard ` set (psHandles (rctx w' i))" using add_handle(2) [OF ok(5,2)] .
    have idn: "dwIdentity (rctx w' i) = slot_identity i" "vHandle (rctx w' i) \<noteq> 0" using i add(2) by simp_all
    have find: "RFReaderInfoById w' h = Inr i"
      by (rule RFReaderInfoById_handle [OF daemon_inv_identities [OF inv'] i(1) idn(1) ok(3)])
    have "rctx w' i \<in> set (sReadersContexts w')" using inv' i(1) by (auto simp: daemon_inv_def rctx_def)
    with h idn have "RFFindReaderHandle w' h = SCARD_S_SUCCESS" by (auto simp: RFFindReaderHandle_def)
    with find ok(2) assms(5) have enter: "disconnect_enter h d w' = Inr i" by (simp add: disconnect_enter_def)
    have ref: "stateRef (rctx w' i) \<noteq> None" using s add(2) by (auto simp: rstate_def)
    have lk: "dwLockId (rctx w' i) = 0 \<or> dwLockId (rctx w' i) = h" using lock add(2) by (simp add: counted_def)
    then have nw: "\<not> disconnect_waits i h d w'" by (auto simp: disconnect_waits_def)
    have len': "i < length (sReadersContexts w')" using inv' i(1) by (simp add: daemon_inv_def)
    have "SCardDisconnect h SCARD_LEAVE_CARD w' \<noteq> None" if "d = SCARD_LEAVE_CARD"
      using enter nw that ref lk len' by (auto simp: SCardDisconnect_def disconnect_finish_def RFUnlockAllSharing_eq [OF find] upd_rstate_def)
    moreover have "live (map hCard (psHandles (rctx w' i))) = add_mset h (live (map hCard (psHandles (rctx w i))))"
      using reader_handles.add_live [OF add(1) ok(2)] add(2) by simp
    moreover have "0 \<le> dwContexts (rctx w i)" using assms(3) i by (auto simp: sharing_inv_def share_ok_def)
    then have "dwContexts (drop_connection (rctx w' i)) = dwContexts (rctx w i)"
      using add(2) ok(6) r by (auto simp: drop_connection_def)
    ultimately show ?thesis
      using enter nw SCardDisconnect_undoes [OF _ enter len' ref lk ok(2), of rv w''] by auto
  qed simp_all
qed

lemma first_index_update_other:
  "\<not> P (xs ! j) \<Longrightarrow> \<not> P y \<Longrightarrow> first_index P (xs[j := y]) = first_index P xs"
proof (induction xs arbitrary: j)
  case (Cons x xs)
  then show ?case by (cases j) auto
qed simp

lemma remove_other_event:
  assumes "h' \<noteq> h" and "h' \<noteq> 0"
  shows "RFCheckReaderEventState (drop_connection (snd (RFRemoveReaderHandle r h))) h' = RFCheckReaderEventState r h'"
proof (cases "first_index (\<lambda>c. hCard c = h) (psHandles r)")
  case None
  then show ?thesis by (simp add: RFRemoveReaderHandle_def RFCheckReaderEventState_def del: first_index_None_iff split: option.split)
next
  case (Some j)
  have j: "hCard (psHandles r ! j) = h" using first_index_SomeD [OF Some] by simp
  have same: "first_index (\<lambda>c. hCard c = h') ((psHandles r)[j := \<lparr>hCard = 0, dwEventStatus = 0\<rparr>])
      = first_index (\<lambda>c. hCard c = h') (psHandles r)"
    by (rule first_index_update_other) (use j assms in simp_all)
  have "(psHandles r)[j := \<lparr>hCard = 0, dwEventStatus = 0\<rparr>] ! k = psHandles r ! k"
    if "first_index (\<lambda>c. hCard c = h') (psHandles r) = Some k" for k
    using first_index_SomeD [OF that] j assms by (cases "k = j") auto
  with Some same show ?thesis
    by (simp add: RFRemoveReaderHandle_def RFCheckReaderEventState_def del: first_index_None_iff split: option.split)
qed

text \<open>C16: A client that disconnects with a reset tells the others: every other handle connected to the reader finds
  \<^verbatim>\<open>SCARD_W_RESET_CARD\<close> at its next operation, and transmitting through it is refused until it
  reconnects.\<close>

theorem disconnect_reset_notifies:
  assumes "SCardDisconnect h d w = Some (SCARD_S_SUCCESS, w')" and "d = SCARD_RESET_CARD \<or> d = SCARD_UNPOWER_CARD"
    and "daemon_inv w" and "RFReaderInfoById w h = Inr i" and "h' \<noteq> h" and "h' \<noteq> 0"
    and "h' \<in> hCard ` set (psHandles (rctx w i))"
  shows "RFCheckReaderEventState (rctx w' i) h' = SCARD_W_RESET_CARD
    \<and> (\<exists>rv. rv \<noteq> SCARD_S_SUCCESS \<and> card_guard h' w' = Inl rv)"
proof -
  from assms(1,4) have enter: "disconnect_enter h d w = Inr i"
    by (auto simp: SCardDisconnect_def disconnect_enter_def RFFindReaderHandle_def split: if_splits sum.splits)
  have h: "RFFindReaderHandle w h = SCARD_S_SUCCESS" "h \<noteq> 0"
    using enter by (auto simp: disconnect_enter_def split: if_splits sum.splits)
  from handle_reader [OF assms(3) h(1) assms(4) h(2)] have i: "i < 16" "dwIdentity (rctx w i) = slot_identity i" by auto
  then have len: "i < length (sReadersContexts w)" using assms(3) by (simp add: daemon_inv_def)
  have f: "disconnect_finish i h d w = Some (SCARD_S_SUCCESS, w')"
    using assms(1) enter by (auto simp: SCardDisconnect_def split: if_splits)
  from f len assms(4)
  have ev: "RFCheckReaderEventState (rctx w' i) h' = SCARD_W_RESET_CARD \<and> dwIdentity (rctx w' i) = slot_identity i"
  proof (cases rule: disconnect_finish_cases)
    case (finished r)
    have "h' \<in> hCard ` set (psHandles ((rctx w i)\<lparr>LockCount := 0, dwLockId := 0\<rparr>))" using assms(7) by simp
    from set_event [OF assms(6) this, of SCARD_RESET] finished(5,6) assms(2) i(2)
    show ?thesis by (simp add: remove_other_event [OF assms(5,6)])
  qed simp
  have "identity_part h' = slot_identity i" using assms(3,6,7) i(1) by (auto simp: daemon_inv_def reader_inv_def)
  then have "RFReaderInfoById w' h' = Inr i"
    using RFReaderInfoById_handle [OF daemon_inv_identities i(1)] SCardDisconnect_inv [OF assms(1,3)] ev by blast
  with ev show ?thesis by (auto simp: card_guard_def reader_guard_def)
qed

subsection \<open>Transmitting\<close>

text \<open>The search for the protocol number ends for every protocol but 0, with the position of the highest bit.\<close>

theorem protocol_number_highest_bit:
  assumes "prot \<noteq> 0"
  shows "\<exists>n. protocol_number prot i = Some (i + of_nat n) \<and> drop_bit n prot = 1 \<and> n < 32"
  using assms
proof (induction "unat prot" arbitrary: prot i rule: less_induct)
  case less
  show ?case
  proof (cases "prot = 1")
    case True
    then show ?thesis by (subst protocol_number.simps) (intro exI [of _ 0], simp)
  next
    case False
    have half: "unat (drop_bit 1 prot) = unat prot div 2" by (subst unat_drop_bit_eq) (simp add: drop_bit_eq_div)
    have "unat prot \<noteq> 0" "unat prot \<noteq> 1" using less.prems False by (simp_all add: word_unat_eq_iff)
    then have "unat prot \<ge> 2" by simp
    then have pos: "0 < unat prot div 2" "unat prot div 2 < unat prot" by simp_all
    then have "unat (drop_bit 1 prot) < unat prot" "drop_bit 1 prot \<noteq> 0"
      unfolding word_unat_eq_iff [of "drop_bit 1 prot"] half by simp_all
    from less.hyps [OF this, of "i + 1"] obtain n where n: "protocol_number (drop_bit 1 prot) (i + 1) = Some (i + 1 + of_nat n)"
      "drop_bit n (drop_bit 1 prot) = 1" by blast
    then have d: "drop_bit (Suc n) prot = 1" by simp
    then have "Suc n < 32" proof -
      have "bit (drop_bit (Suc n) prot) 0" by (simp only: d) simp
      then show ?thesis using bit_imp_le_length [of prot "Suc n"] by (simp only: bit_drop_bit_eq comp_apply) simp
    qed
    then show ?thesis using n False d by (subst protocol_number.simps) (auto intro!: exI [of _ "Suc n"] simp: ac_simps)
  qed
qed

lemma protocol_number_nonzero: "protocol_number prot i = Some n \<Longrightarrow> prot \<noteq> 0"
proof (rule protocol_number.raw_induct [where P = "\<lambda>prot i n. prot \<noteq> 0"])
  fix f and prot i :: DWORD and n
  assume IH: "\<And>prot i n. f prot i = Some n \<Longrightarrow> prot \<noteq> 0"
    and b: "(if prot = 1 then Some i else f (drop_bit 1 prot) (i + 1)) = Some n"
  show "prot \<noteq> 0"
    using b IH [of "drop_bit 1 prot" "i + 1" n] by (auto split: if_splits)
qed

text \<open>Transmitting with the old protocol constant on a reader whose protocol is undefined, as it is after every reset and
  after a direct connection, never returns: the loop that looks for the protocol bit shifts 0
  forever.\<close>

theorem transmit_any_old_hangs:
  assumes "card_guard h w = Inr i" and "h \<noteq> 0" and "rstate w i = Some s" and "\<not> flag (readerState s) SCARD_ABSENT"
    and "cardProtocol s = SCARD_PROTOCOL_UNDEFINED" and "recvLength out = Some n" and "2 \<le> n" and "recvBuffer out = Some rx"
  shows "SCardTransmit h (Some \<lparr>Protocol = SCARD_PROTOCOL_ANY_OLD, PciLength = k\<rparr>) (Some tx) out w = None"
proof -
  have "protocol_number 0 0 = None"
    using protocol_number_nonzero [of 0 0] by (cases "protocol_number 0 0") auto
  moreover have "\<not> n < 2" using assms(7) by (simp add: not_less)
  ultimately show ?thesis using assms by (simp add: SCardTransmit_def Let_def send_protocol_def)
qed

text \<open>Transmitting is safe in what it reports: a successful call names at most as many received bytes as the client has
  room for, was made through a connected handle without pending events, on a lock that is free or
  owned, to a card that is not absent (raw access aside) with the protocol in use; and every
  failing call reports no received bytes.\<close>

theorem transmit_reports:
  assumes "SCardTransmit h (Some pci) (Some tx) out w = Some (rv, out', w')" and "recvLength out = Some n"
  shows "if rv = SCARD_S_SUCCESS
    then \<exists>i s len. card_guard h w = Inr i \<and> rstate w i = Some s \<and> recvLength out' = Some len \<and> len \<le> n
         \<and> (Protocol pci = SCARD_PROTOCOL_RAW \<or> \<not> flag (readerState s) SCARD_ABSENT
             \<and> (Protocol pci = SCARD_PROTOCOL_ANY_OLD \<or> Protocol pci = cardProtocol s))
    else recvLength out' = Some 0"
proof -
  consider (early) "rv \<noteq> SCARD_S_SUCCESS" "out' = out\<lparr>recvLength := Some 0\<rparr>"
    | (call) i s rx1 len pci1 m rv1 where "card_guard h w = Inr i" "rstate w i = Some s"
        "Protocol pci = SCARD_PROTOCOL_RAW \<or> \<not> flag (readerState s) SCARD_ABSENT
             \<and> (Protocol pci = SCARD_PROTOCOL_ANY_OLD \<or> Protocol pci = cardProtocol s)"
        "(rv, out', w') = (let out1 = out\<lparr>recvLength := Some 0, ioRecvPci := Some pci1, recvBuffer := Some rx1\<rparr> in
            if rv1 \<noteq> SCARD_S_SUCCESS then (rv1, out1, with_machine w m)
            else if n < len then (SCARD_E_INSUFFICIENT_BUFFER, out1, with_machine w m)
            else (SCARD_S_SUCCESS, out1\<lparr>recvLength := Some len\<rparr>, with_machine w m))"
  proof (cases "h = 0 \<or> recvBuffer out = None \<or> n < 2")
    case True
    with assms show thesis by (intro early) (auto simp: SCardTransmit_def Let_def split: option.splits if_splits)
  next
    case False
    then obtain rx where rx: "recvBuffer out = Some rx" by auto
    show thesis
    proof (cases "card_guard h w")
      case (Inl e)
      then have "e \<noteq> SCARD_S_SUCCESS"
        by (auto simp: card_guard_def RFReaderInfoById_def split: if_splits sum.splits option.splits)
      with assms Inl False rx show thesis by (intro early) (auto simp: SCardTransmit_def Let_def)
    next
      case (Inr i)
      obtain s where s: "rstate w i = Some s"
        using assms Inr False rx by (auto simp: SCardTransmit_def Let_def bind_eq_Some_conv)
      show thesis
      proof (cases "Protocol pci = SCARD_PROTOCOL_RAW \<or> \<not> flag (readerState s) SCARD_ABSENT
             \<and> (Protocol pci = SCARD_PROTOCOL_ANY_OLD \<or> Protocol pci = cardProtocol s)")
        case no: False
        with assms Inr False rx s show thesis
          by (intro early) (auto simp: SCardTransmit_def Let_def split: if_splits)
      next
        case True
        then have skip: "\<not> (Protocol pci \<noteq> SCARD_PROTOCOL_RAW \<and> flag (readerState s) SCARD_ABSENT)"
          "\<not> (Protocol pci \<noteq> SCARD_PROTOCOL_RAW \<and> Protocol pci \<noteq> SCARD_PROTOCOL_ANY_OLD \<and> Protocol pci \<noteq> cardProtocol s)"
          by auto
        from assms Inr False rx s skip obtain rv1 rx1 len pci1 m
          where e: "Some (let out1 = out\<lparr>recvLength := Some 0, ioRecvPci := Some pci1, recvBuffer := Some rx1\<rparr> in
            if rv1 \<noteq> SCARD_S_SUCCESS then (rv1, out1, with_machine w m)
            else if n < len then (SCARD_E_INSUFFICIENT_BUFFER, out1, with_machine w m)
            else (SCARD_S_SUCCESS, out1\<lparr>recvLength := Some len\<rparr>, with_machine w m)) = Some (rv, out', w')"
          by (fastforce simp: SCardTransmit_def Let_def bind_eq_Some_conv)
        show thesis by (rule call [OF Inr s True e [THEN option.inject [THEN iffD1], symmetric]])
      qed
    qed
  qed
  then show ?thesis
  proof cases
    case early
    then show ?thesis by simp
  next
    case call
    then show ?thesis by (auto simp: Let_def split: if_splits)
  qed
qed

subsection \<open>Where exclusivity and protocols are lost\<close>

text \<open>C36: Exclusivity is not checked again after waiting for the lock. A client that is waiting in
  \<^verbatim>\<open>SCardConnect\<close> for another's transaction to end gets its connection although the
  owner of the transaction has made its connection exclusive in the meantime; the count then says
  that nobody is connected while two handles are.\<close>

theorem connect_after_wait_breaks_exclusivity:
  assumes "connect_finish i SCARD_SHARE_SHARED p act w = Some (SCARD_S_SUCCESS, h, prot, w')" and "daemon_inv w" and "i < 16"
    and "dwIdentity (rctx w i) = slot_identity i"
    and "share_ok (rctx w i)" and "dwContexts (rctx w i) = SCARD_EXCLUSIVE_CONTEXT"
  shows "dwContexts (rctx w' i) = SCARD_NO_CONTEXT \<and> connected (rctx w' i) = 2"
proof -
  from assms(1) obtain w1 where sel: "select_protocol i SCARD_SHARE_SHARED p w = Some (SCARD_S_SUCCESS, w1)"
    and sh: "connect_share i SCARD_SHARE_SHARED w1 = Some (SCARD_S_SUCCESS, h, w')"
    by (auto simp: connect_finish_def Let_def bind_eq_Some_conv connect_present_def split: option.splits if_splits)
  note t = same_tables_select_protocol [OF sel]
  have r: "rctx w1 = rctx w" by (rule same_tables_rctx [OF t])
  have inv1: "daemon_inv w1" using assms(2) r t by (simp add: daemon_inv_def same_tables_def)
  from sh inv1 assms(3) assms(4) [folded r] show ?thesis
  proof (cases rule: connect_share_cases)
    case ok
    have "connected (rctx w' i) = Suc (connected (rctx w i))" using add_handle(1) [OF ok(5,2)] r by simp
    moreover have "rctx w' i = snd (RFAddReaderHandle (counted SCARD_SHARE_SHARED h (rctx w i)) h)" using ok(5) r by simp
    ultimately show ?thesis using assms(5,6) by (auto simp: share_ok_def)
  qed simp_all
qed

text \<open>A second client that connects with the old constant for any protocol is refused: the constant is
  expanded only while the protocol is still open; afterwards it is compared as a mask with the protocol in
  use, which it never matches.\<close>

theorem second_connect_any_old_refused:
  assumes "connect_enter nm True m SCARD_PROTOCOL_ANY_OLD w = Inr i" and "dwLockId (rctx w i) = 0" and "rstate w i = Some s"
    and "m \<noteq> SCARD_SHARE_DIRECT" and "connect_present m s = SCARD_S_SUCCESS"
    and "cardProtocol s = SCARD_PROTOCOL_T0 \<or> cardProtocol s = SCARD_PROTOCOL_T1"
  shows "SCardConnect nm True m SCARD_PROTOCOL_ANY_OLD act w = Some (SCARD_E_PROTO_MISMATCH, 0, act, w)"
  using assms by (auto simp: SCardConnect_def connect_finish_def select_protocol_def flag_def)

text \<open>A direct connection without raw protocol takes the protocol away from everybody else: afterwards the protocol
  of the reader is undefined, and a client that negotiated T=0 or T=1 before and transmits with it gets
  \<^verbatim>\<open>SCARD_E_PROTO_MISMATCH\<close>.\<close>

theorem direct_connect_drops_protocol:
  assumes "SCardConnect (Some nm) True SCARD_SHARE_DIRECT p act w = Some (SCARD_S_SUCCESS, h, prot, w')" and "daemon_inv w"
    and "\<not> flag p SCARD_PROTOCOL_RAW" and "RFReaderInfo w (Some nm) = Inr i" and "state_valid w i"
    and "card_guard own w' = Inr i" and "own \<noteq> 0" and "2 \<le> n" and "t = SCARD_PROTOCOL_T0 \<or> t = SCARD_PROTOCOL_T1"
    and "rstate w' i = Some s'" and "\<not> flag (readerState s') SCARD_ABSENT"
  shows "SCardTransmit own (Some \<lparr>Protocol = t, PciLength = k\<rparr>) (Some tx)
           \<lparr>recvLength = Some n, ioRecvPci = Some rpci, recvBuffer = Some rx\<rparr> w'
       = Some (SCARD_E_PROTO_MISMATCH, \<lparr>recvLength = Some 0, ioRecvPci = Some rpci, recvBuffer = Some rx\<rparr>, w')"
proof -
  have e: "connect_enter (Some nm) True SCARD_SHARE_DIRECT p w = Inr i"
    using assms(1,4) by (auto simp: SCardConnect_def connect_enter_def RFCheckReaderStatus_def Let_def
        split: sum.splits option.splits if_splits)
  from connect_enter_Inr [OF e assms(2)] obtain s where i: "i < 16" and s: "rstate w i = Some s" by auto
  have f: "connect_finish i SCARD_SHARE_DIRECT p act w = Some (SCARD_S_SUCCESS, h, prot, w')"
    using assms(1) e by (auto simp: SCardConnect_def split: if_splits)
  from f s obtain w1 where sel: "select_protocol i SCARD_SHARE_DIRECT p w = Some (SCARD_S_SUCCESS, w1)"
    and sh: "connect_share i SCARD_SHARE_DIRECT w1 = Some (SCARD_S_SUCCESS, h, w')"
    by (auto simp: connect_finish_def Let_def bind_eq_Some_conv connect_present_def split: if_splits)
  from sel assms(3) s have "upd_rstate i (\<lambda>s. s\<lparr>cardProtocol := SCARD_PROTOCOL_UNDEFINED\<rparr>) w = Some w1"
    by (auto simp: select_protocol_def bind_eq_Some_conv)
  from upd_rstate_rstate [OF this assms(5)] s have "map_option cardProtocol (rstate w1 i) = Some SCARD_PROTOCOL_UNDEFINED"
    by simp
  moreover have "i < length (sReadersContexts w1)"
    using same_tables_select_protocol [OF sel] i assms(2) by (simp add: same_tables_def daemon_inv_def)
  ultimately have "cardProtocol s' = SCARD_PROTOCOL_UNDEFINED"
    using connect_share_protocol [OF sh] assms(10) by auto
  moreover have "\<not> n < 2" using assms(8) by (simp add: not_less)
  ultimately show ?thesis using assms(6,7,9-11) by (auto simp: SCardTransmit_def)
qed

subsection \<open>Witnesses\<close>

text \<open>The schedule that breaks exclusivity: client \<open>0x1000A\<close> is in a transaction, a second client enters
  \<^verbatim>\<open>SCardConnect\<close> and waits, the first reconnects exclusively and gives up its two locks.\<close>

lemma session_select:
  "m \<noteq> SCARD_SHARE_DIRECT \<Longrightarrow> select_protocol 0 m SCARD_PROTOCOL_T0 (session hs SCARD_PROTOCOL_T0 p q c l n)
     = Some (SCARD_S_SUCCESS, session hs SCARD_PROTOCOL_T0 p q c l n)"
  "select_protocol 0 SCARD_SHARE_DIRECT SCARD_PROTOCOL_T0 (session hs prot p q c l n)
     = Some (SCARD_S_SUCCESS, session hs SCARD_PROTOCOL_UNDEFINED p q c l n)"
  by (simp_all add: select_protocol_def flag_def session_upd_rstate)

lemma named_T0: "protocols_named SCARD_PROTOCOL_T0" by (simp add: protocols_named_def flag_def)

lemma session_enter:
  "m = SCARD_SHARE_SHARED \<or> m = SCARD_SHARE_DIRECT \<or> m = SCARD_SHARE_EXCLUSIVE \<Longrightarrow> c \<noteq> -1 \<Longrightarrow>
     connect_enter (Some ''R 00 00'') True m SCARD_PROTOCOL_T0 (session hs prot p q c l n) = Inr 0"
  by (auto simp: connect_enter_def named_T0)

lemma session_finish:
  "connect_finish 0 SCARD_SHARE_SHARED SCARD_PROTOCOL_T0 act (session one SCARD_PROTOCOL_T0 p q c l n)
     = Some (SCARD_S_SUCCESS, 0x1FDE8, SCARD_PROTOCOL_T0, session two SCARD_PROTOCOL_T0 (Suc p) (c + 1) (c + 1) l n)"
  "connect_finish 0 SCARD_SHARE_DIRECT SCARD_PROTOCOL_T0 act (session one prot p q c l n)
     = Some (SCARD_S_SUCCESS, 0x1FDE8, SCARD_PROTOCOL_UNDEFINED, session two SCARD_PROTOCOL_UNDEFINED (Suc p) (c + 1) (c + 1) l n)"
  by (simp_all add: connect_finish_def connect_present_def session_select session_connect_share flag_def)

lemma session_connect:
  "SCardConnect (Some ''R 00 00'') True SCARD_SHARE_SHARED SCARD_PROTOCOL_T0 act (session one SCARD_PROTOCOL_T0 0 1 1 0 0)
     = Some (SCARD_S_SUCCESS, 0x1FDE8, SCARD_PROTOCOL_T0, session two SCARD_PROTOCOL_T0 1 2 2 0 0)"
  "SCardConnect (Some ''R 00 00'') True SCARD_SHARE_DIRECT SCARD_PROTOCOL_T0 act (session one SCARD_PROTOCOL_T0 0 1 1 0 0)
     = Some (SCARD_S_SUCCESS, 0x1FDE8, SCARD_PROTOCOL_UNDEFINED, session two SCARD_PROTOCOL_UNDEFINED 1 2 2 0 0)"
  by (simp_all add: SCardConnect_def session_enter session_finish)

lemma session_lock_steps:
  "upd_rctx 0 (\<lambda>r. r\<lparr>LockCount := LockCount r + 1, dwLockId := l'\<rparr>) (session hs prot p q c l n) = session hs prot p q c l' (n + 1)"
  "upd_rctx 0 (\<lambda>r. r\<lparr>dwContexts := c'\<rparr>) (session hs prot p q c l n) = session hs prot p q c' l n"
  "upd_rctx 0 unlock_once (session hs prot p q c l 2) = session hs prot p q c l 1"
  "upd_rctx 0 unlock_once (session hs prot p q c l 1) = session hs prot p q c 0 0"
  "upd_rctx 0 (\<lambda>r. snd (RFClearReaderEventState r h)) (session hs prot p q c l n) = session hs prot p q c l n"
  by (rule session_upd_rctx, simp add: session_reader_def unlock_once_def RFClearReaderEventState_def handle_array_def)+

lemma race_schedule:
  "connect_enter (Some ''R 00 00'') True SCARD_SHARE_SHARED SCARD_PROTOCOL_T0 (session one SCARD_PROTOCOL_T0 0 1 1 0x1000A 1) = Inr 0"
  "SCardReconnect 0x1000A SCARD_SHARE_EXCLUSIVE SCARD_PROTOCOL_T0 SCARD_LEAVE_CARD True 0 (session one SCARD_PROTOCOL_T0 0 1 1 0x1000A 1)
     = Some (SCARD_S_SUCCESS, SCARD_PROTOCOL_T0, session one SCARD_PROTOCOL_T0 0 (-1) (-1) 0x1000A 2)"
  "SCardEndTransaction 0x1000A SCARD_LEAVE_CARD (session one SCARD_PROTOCOL_T0 0 (-1) (-1) 0x1000A 2)
     = Some (SCARD_S_SUCCESS, session one SCARD_PROTOCOL_T0 0 (-1) (-1) 0x1000A 1)"
  "SCardEndTransaction 0x1000A SCARD_LEAVE_CARD (session one SCARD_PROTOCOL_T0 0 (-1) (-1) 0x1000A 1)
     = Some (SCARD_S_SUCCESS, session one SCARD_PROTOCOL_T0 0 (-1) (-1) 0 0)"
proof -
  let ?w = "session one SCARD_PROTOCOL_T0 0 1 1 0x1000A 1"
  show "connect_enter (Some ''R 00 00'') True SCARD_SHARE_SHARED SCARD_PROTOCOL_T0 ?w = Inr 0"
    by (simp add: session_enter)
  have "RFCheckSharing ?w 0x1000A = SCARD_S_SUCCESS" by (simp add: RFCheckSharing_def)
  then have enter: "reconnect_enter 0x1000A SCARD_SHARE_EXCLUSIVE SCARD_PROTOCOL_T0 SCARD_LEAVE_CARD True ?w = Inr 0"
    by (simp add: reconnect_enter_def named_T0)
  have lock: "RFLockSharing 0x1000A (session one SCARD_PROTOCOL_T0 0 1 (-1) 0x1000A 1)
      = (SCARD_S_SUCCESS, session one SCARD_PROTOCOL_T0 0 1 (-1) 0x1000A 2)"
    using session_lock_steps(1) [of "0x1000A" one SCARD_PROTOCOL_T0 0 1 "-1" "0x1000A" 1]
    by (simp add: RFLockSharing_eq [OF session_handle(1)])
  have share: "reconnect_share 0 0x1000A SCARD_SHARE_EXCLUSIVE ?w = (SCARD_S_SUCCESS, session one SCARD_PROTOCOL_T0 0 1 (-1) 0x1000A 2)"
    by (simp add: reconnect_share_def session_lock_steps(2) lock)
  show "SCardReconnect 0x1000A SCARD_SHARE_EXCLUSIVE SCARD_PROTOCOL_T0 SCARD_LEAVE_CARD True 0 ?w
     = Some (SCARD_S_SUCCESS, SCARD_PROTOCOL_T0, session one SCARD_PROTOCOL_T0 0 (-1) (-1) 0x1000A 2)"
    by (simp add: SCardReconnect_def enter session_select share session_lock_steps(5) session_upd_rstate Let_def)
  show "SCardEndTransaction 0x1000A SCARD_LEAVE_CARD (session one SCARD_PROTOCOL_T0 0 (-1) (-1) 0x1000A 2)
     = Some (SCARD_S_SUCCESS, session one SCARD_PROTOCOL_T0 0 (-1) (-1) 0x1000A 1)"
    by (simp add: SCardEndTransaction_def disposition_ok_def RFUnlockSharing_eq [OF session_handle(1)] session_lock_steps(3))
  show "SCardEndTransaction 0x1000A SCARD_LEAVE_CARD (session one SCARD_PROTOCOL_T0 0 (-1) (-1) 0x1000A 1)
     = Some (SCARD_S_SUCCESS, session one SCARD_PROTOCOL_T0 0 (-1) (-1) 0 0)"
    by (simp add: SCardEndTransaction_def disposition_ok_def RFUnlockSharing_eq [OF session_handle(1)] session_lock_steps(4))
qed

theorem connect_after_wait_breaks_exclusivity_witness:
  "\<exists>(w0 :: unit pcscd) w1 w2 w3 w4. connect_enter (Some ''R 00 00'') True SCARD_SHARE_SHARED SCARD_PROTOCOL_T0 w0 = Inr 0
     \<and> dwLockId (rctx w0 0) = 0x1000A
     \<and> SCardReconnect 0x1000A SCARD_SHARE_EXCLUSIVE SCARD_PROTOCOL_T0 SCARD_LEAVE_CARD True 0 w0 = Some (SCARD_S_SUCCESS, SCARD_PROTOCOL_T0, w1)
     \<and> SCardEndTransaction 0x1000A SCARD_LEAVE_CARD w1 = Some (SCARD_S_SUCCESS, w2)
     \<and> SCardEndTransaction 0x1000A SCARD_LEAVE_CARD w2 = Some (SCARD_S_SUCCESS, w3)
     \<and> dwLockId (rctx w3 0) = 0
     \<and> connect_finish 0 SCARD_SHARE_SHARED SCARD_PROTOCOL_T0 0 w3 = Some (SCARD_S_SUCCESS, 0x1FDE8, SCARD_PROTOCOL_T0, w4)
     \<and> dwContexts (rctx w4 0) = SCARD_NO_CONTEXT \<and> connected (rctx w4 0) = 2"
proof -
  have inv: "daemon_inv (session one SCARD_PROTOCOL_T0 0 (-1) (-1) 0 0)" by (simp add: session_inv)
  have "share_ok (rctx (session one SCARD_PROTOCOL_T0 0 (-1) (-1) 0 0) 0)" by (simp add: share_ok_def)
  from connect_after_wait_breaks_exclusivity [OF session_finish(1) inv _ _ this]
  have "dwContexts (rctx (session two SCARD_PROTOCOL_T0 1 0 0 0 0) 0) = SCARD_NO_CONTEXT
      \<and> connected (rctx (session two SCARD_PROTOCOL_T0 1 0 0 0 0) 0) = 2" by simp
  then show ?thesis
    using race_schedule session_finish(1) [of 0 0 "-1" "-1" 0 0]
    by (intro exI [of _ "session one SCARD_PROTOCOL_T0 0 1 1 0x1000A 1"] exI [of _ "session one SCARD_PROTOCOL_T0 0 (-1) (-1) 0x1000A 2"]
        exI [of _ "session one SCARD_PROTOCOL_T0 0 (-1) (-1) 0x1000A 1"] exI [of _ "session one SCARD_PROTOCOL_T0 0 (-1) (-1) 0 0"]
        exI [of _ "session two SCARD_PROTOCOL_T0 1 0 0 0 0"]) simp
qed

theorem card_operations_keep_invariants_witness:
  "SCardReconnect 0x1000A SCARD_SHARE_EXCLUSIVE SCARD_PROTOCOL_T0 SCARD_LEAVE_CARD True 0 (session one SCARD_PROTOCOL_T0 0 1 1 0x1000A 1)
     = Some (SCARD_S_SUCCESS, SCARD_PROTOCOL_T0, session one SCARD_PROTOCOL_T0 0 (-1) (-1) 0x1000A 2)
   \<and> sharing_inv (session one SCARD_PROTOCOL_T0 0 (-1) (-1) 0x1000A 2)"
proof -
  have "daemon_inv (session one SCARD_PROTOCOL_T0 0 1 1 0x1000A 1)" "sharing_inv (session one SCARD_PROTOCOL_T0 0 1 1 0x1000A 1)"
    by (simp_all add: session_inv session_sharing)
  from card_operations_keep_invariants [OF this] race_schedule(2) show ?thesis by blast
qed

theorem connect_success_witness:
  "RFReaderInfoById (session two SCARD_PROTOCOL_T0 1 2 2 0 0) 0x1FDE8 = Inr 0
   \<and> live (map hCard (psHandles (session_reader two 2 0 0))) = add_mset 0x1FDE8 (live (map hCard (psHandles (session_reader one 1 0 0))))"
proof -
  have "daemon_inv (session one SCARD_PROTOCOL_T0 0 1 1 0 0)" by (simp add: session_inv)
  from connect_success [OF session_connect(1) this] show ?thesis by auto
qed

theorem exclusive_excludes_witness:
  "\<exists>rv. rv \<noteq> SCARD_S_SUCCESS \<and> SCardConnect (Some ''R 00 00'') True SCARD_SHARE_SHARED SCARD_PROTOCOL_T0 0
      (session one SCARD_PROTOCOL_T0 0 (-1) (-1) 0 0) = Some (rv, 0, 0, session one SCARD_PROTOCOL_T0 0 (-1) (-1) 0 0)"
  by (rule exclusive_excludes [of _ _ 0]) simp_all

theorem transaction_excludes_witness:
  "\<exists>rv out'. rv \<noteq> SCARD_S_SUCCESS \<and> SCardTransmit 0x1FDE8 (Some \<lparr>Protocol = SCARD_PROTOCOL_T0, PciLength = 8\<rparr>) (Some [0, 0xA4, 0, 0])
      \<lparr>recvLength = Some 258, ioRecvPci = Some \<lparr>Protocol = 0, PciLength = 8\<rparr>, recvBuffer = Some []\<rparr>
      (session two SCARD_PROTOCOL_T0 0 2 2 0x1000A 1) = Some (rv, out', session two SCARD_PROTOCOL_T0 0 2 2 0x1000A 1)"
  using transaction_excludes [of "session two SCARD_PROTOCOL_T0 0 2 2 0x1000A 1" "0x1FDE8" 0] by simp

text \<open>Resetting the sample card succeeds.\<close>

lemma session_power:
  "IFDPowerICC (session_reader hs c l n) a sample_atr len sample_hw = Some (IFD_SUCCESS, sample_atr, 4, sample_hw)"
  by (simp add: IFDPowerICC_def IFDStatusICC_def icc_presence_def power_icc_def functions_v2_def sample_driver_def
      with_drv_def sample_hw_def flag_def)

lemma session_with_machine: "with_machine (session hs prot p q c l n) sample_hw = session hs prot p q c l n"
  by (simp add: with_machine_def session_def sample_daemon_def)

lemma session_reset_power:
  "reset_power 0 SCARD_RESET_CARD (session hs prot p q c l n) = Some (IFD_SUCCESS, session hs SCARD_PROTOCOL_UNDEFINED p q c l n)"
proof -
  have "ifd_power 0 IFD_RESET 4 (session hs prot p q c l n) = Some (IFD_SUCCESS, 4, session hs prot p q c l n)"
    by (simp add: ifd_power_def session_power session_with_machine)
       (simp add: session_upd_rstate session_state_def sample_state_def)
  moreover have "upd_rstate 0 (\<lambda>s. s\<lparr>cardAtrLength := 4, cardProtocol := SCARD_PROTOCOL_UNDEFINED\<rparr>) (session hs prot p q c l n)
      = Some (session hs SCARD_PROTOCOL_UNDEFINED p q c l n)"
    by (rule session_upd_rstate) (simp add: session_state_def sample_state_def)
  ultimately show ?thesis by (simp add: reset_power_def)
qed

lemma session_reset_card: "\<exists>w'. reset_card 0 SCARD_RESET_CARD (session hs prot p q c l n) = Some (SCARD_S_SUCCESS, w')"
proof -
  let ?u = "upd_rctx 0 (\<lambda>r. RFSetReaderEventState r SCARD_RESET) (session hs SCARD_PROTOCOL_UNDEFINED p q c l n)"
  have "state_valid ?u 0" by simp
  from upd_rstate_defined [OF this, of "\<lambda>s. s\<lparr>readerState := status_powered (readerState s)\<rparr>"] show ?thesis
    by (auto simp: reset_card_def session_reset_power)
qed

lemma session_end_reset:
  "\<exists>w'. SCardEndTransaction 0x1FDE8 SCARD_RESET_CARD (session two prot p q c l n) = Some (SCARD_S_SUCCESS, w')"
  using session_reset_card [of two prot p q c l n] by (auto simp: SCardEndTransaction_def disposition_ok_def)

theorem end_transaction_resets_locked_card_witness:
  "\<exists>rv w'. SCardEndTransaction 0x1FDE8 SCARD_RESET_CARD (session two SCARD_PROTOCOL_T0 0 2 2 0x1000A 1) = Some (rv, w')
    \<and> RFCheckReaderEventState (rctx w' 0) 0x1000A = SCARD_W_RESET_CARD \<and> dwLockId (rctx w' 0) = 0x1000A"
proof -
  obtain w' where e: "SCardEndTransaction 0x1FDE8 SCARD_RESET_CARD (session two SCARD_PROTOCOL_T0 0 2 2 0x1000A 1) = Some (SCARD_S_SUCCESS, w')"
    using session_end_reset by blast
  have "0x1000A \<in> hCard ` set (handle_array two)" by (simp add: handle_array_def)
  with end_transaction_resets_locked_card [OF e, of 0 "0x1000A"]
  have "RFCheckReaderEventState (rctx w' 0) 0x1000A = SCARD_W_RESET_CARD \<and> dwLockId (rctx w' 0) = 0x1000A"
    by simp
  with e show ?thesis by blast
qed

lemma session_disconnect_reset:
  "\<exists>w'. SCardDisconnect 0x1FDE8 SCARD_RESET_CARD (session two prot p q 2 0 0) = Some (SCARD_S_SUCCESS, w')"
proof -
  have unlock: "RFUnlockAllSharing 0x1FDE8 (session two prot p q 2 0 0) = (SCARD_S_SUCCESS, session two prot p q 2 0 0)"
    using session_upd_rctx [of two 2 0 0 "\<lambda>r. r\<lparr>LockCount := 0, dwLockId := 0\<rparr>" two 2 0 0 prot p q]
    by (simp add: RFUnlockAllSharing_eq [OF session_handle(2)] session_reader_def)
  obtain w1 where w1: "reset_card 0 SCARD_RESET_CARD (session two prot p q 2 0 0) = Some (SCARD_S_SUCCESS, w1)"
    using session_reset_card by blast
  have r1: "touches 0 (session two prot p q 2 0 0) w1" "rctx w1 0 = RFSetReaderEventState (session_reader two 2 0 0) SCARD_RESET"
    using reset_card_rctx [OF w1] by simp_all
  let ?u = "upd_rctx 0 (\<lambda>r. drop_connection (snd (RFRemoveReaderHandle r 0x1FDE8))) w1"
  have "stateRef (rctx ?u 0) = Some 0" using r1 by (simp add: touches_def)
  then obtain w2 where "upd_rstate 0 (\<lambda>s. s\<lparr>readerSharing := dwContexts (rctx ?u 0)\<rparr>) ?u = Some w2"
    by (auto simp: upd_rstate_def)
  then have "SCardDisconnect 0x1FDE8 SCARD_RESET_CARD (session two prot p q 2 0 0) = Some (SCARD_S_SUCCESS, w2)"
    using unlock w1 by (simp add: SCardDisconnect_def disconnect_enter_def disposition_ok_def disconnect_waits_def
        disconnect_finish_def)
  then show ?thesis by blast
qed

theorem connect_disconnect_roundtrip_witness:
  "\<exists>w''. SCardDisconnect 0x1FDE8 SCARD_RESET_CARD (session two SCARD_PROTOCOL_T0 1 2 2 0 0) = Some (SCARD_S_SUCCESS, w'')
    \<and> dwContexts (rctx w'' 0) = 1 \<and> live (map hCard (psHandles (rctx w'' 0))) = {#0x1000A#}"
proof -
  have inv: "daemon_inv (session one SCARD_PROTOCOL_T0 0 1 1 0 0)" "sharing_inv (session one SCARD_PROTOCOL_T0 0 1 1 0 0)"
    by (simp_all add: session_inv session_sharing)
  obtain w'' where d: "SCardDisconnect 0x1FDE8 SCARD_RESET_CARD (session two SCARD_PROTOCOL_T0 1 2 2 0 0) = Some (SCARD_S_SUCCESS, w'')"
    using session_disconnect_reset by blast
  have "live (map hCard (psHandles (session_reader one 1 0 0))) = {#0x1000A#}" by (simp add: live_def)
  moreover have "disposition_ok SCARD_RESET_CARD" by (simp add: disposition_ok_def)
  ultimately show ?thesis
    using connect_disconnect_roundtrip [OF session_connect(1) inv, of 0 SCARD_RESET_CARD SCARD_S_SUCCESS w''] d by auto
qed

theorem disconnect_reset_notifies_witness:
  "\<exists>w'. SCardDisconnect 0x1FDE8 SCARD_RESET_CARD (session two SCARD_PROTOCOL_T0 0 2 2 0 0) = Some (SCARD_S_SUCCESS, w')
    \<and> RFCheckReaderEventState (rctx w' 0) 0x1000A = SCARD_W_RESET_CARD"
proof -
  obtain w' where d: "SCardDisconnect 0x1FDE8 SCARD_RESET_CARD (session two SCARD_PROTOCOL_T0 0 2 2 0 0) = Some (SCARD_S_SUCCESS, w')"
    using session_disconnect_reset by blast
  have "daemon_inv (session two SCARD_PROTOCOL_T0 0 2 2 0 0)" by (simp add: session_inv)
  moreover have "0x1000A \<in> hCard ` set (handle_array two)" by (simp add: handle_array_def)
  ultimately show ?thesis
    using disconnect_reset_notifies [OF d, of 0 "0x1000A"] d by auto
qed

theorem protocol_number_highest_bit_witness:
  "\<exists>n. protocol_number SCARD_PROTOCOL_T1 0 = Some (0 + of_nat n) \<and> drop_bit n SCARD_PROTOCOL_T1 = (1 :: DWORD) \<and> n < 32"
  by (rule protocol_number_highest_bit) simp

lemma session_guard:
  "h = 0x1000A \<or> h = 0x1FDE8 \<Longrightarrow> h \<in> set hs \<Longrightarrow> l = 0 \<or> l = h \<Longrightarrow> card_guard h (session hs prot p q c l n) = Inr 0"
  by (auto simp: card_guard_def reader_guard_def RFCheckSharing_def)

theorem transmit_any_old_hangs_witness:
  "SCardTransmit 0x1000A (Some \<lparr>Protocol = SCARD_PROTOCOL_ANY_OLD, PciLength = 8\<rparr>) (Some [0, 0xA4, 0, 0])
      \<lparr>recvLength = Some 258, ioRecvPci = Some \<lparr>Protocol = 0, PciLength = 8\<rparr>, recvBuffer = Some []\<rparr>
      (session one SCARD_PROTOCOL_UNDEFINED 0 1 1 0 0) = None"
  by (rule transmit_any_old_hangs [of _ _ 0 "session_state SCARD_PROTOCOL_UNDEFINED 1" _ 258 "[]"])
     (simp_all add: session_guard flag_def)

theorem transmit_reports_witness:
  "\<exists>out' w'. SCardTransmit 0x1000A (Some \<lparr>Protocol = SCARD_PROTOCOL_T0, PciLength = 8\<rparr>) (Some [0, 0xA4, 0, 0])
      \<lparr>recvLength = Some 258, ioRecvPci = Some \<lparr>Protocol = 0, PciLength = 8\<rparr>, recvBuffer = Some []\<rparr>
      (session one SCARD_PROTOCOL_T0 0 1 1 0 0) = Some (SCARD_S_SUCCESS, out', w')
    \<and> (\<exists>len. recvLength out' = Some len \<and> len \<le> 258)"
proof -
  have "\<exists>out' w'. SCardTransmit 0x1000A (Some \<lparr>Protocol = SCARD_PROTOCOL_T0, PciLength = 8\<rparr>) (Some [0, 0xA4, 0, 0])
      \<lparr>recvLength = Some 258, ioRecvPci = Some \<lparr>Protocol = 0, PciLength = 8\<rparr>, recvBuffer = Some []\<rparr>
      (session one SCARD_PROTOCOL_T0 0 1 1 0 0) = Some (SCARD_S_SUCCESS, out', w')"
    by (simp add: SCardTransmit_def session_guard flag_def send_protocol_def transmit_call_def IFDTransmit_def
        functions_v2_def sample_driver_def Let_def)
  then show ?thesis using transmit_reports [of "0x1000A"] by fastforce
qed

theorem second_connect_any_old_refused_witness:
  "SCardConnect (Some ''R 00 00'') True SCARD_SHARE_SHARED SCARD_PROTOCOL_ANY_OLD 0 (session one SCARD_PROTOCOL_T0 0 1 1 0 0)
     = Some (SCARD_E_PROTO_MISMATCH, 0, 0, session one SCARD_PROTOCOL_T0 0 1 1 0 0)"
  by (rule second_connect_any_old_refused [of _ _ _ 0 "session_state SCARD_PROTOCOL_T0 1"])
     (simp_all add: connect_enter_def protocols_named_def flag_def connect_present_def)

theorem direct_connect_drops_protocol_witness:
  "SCardTransmit 0x1000A (Some \<lparr>Protocol = SCARD_PROTOCOL_T0, PciLength = 8\<rparr>) (Some [0, 0xA4, 0, 0])
      \<lparr>recvLength = Some 258, ioRecvPci = Some \<lparr>Protocol = 0, PciLength = 8\<rparr>, recvBuffer = Some []\<rparr>
      (session two SCARD_PROTOCOL_UNDEFINED 1 2 2 0 0)
   = Some (SCARD_E_PROTO_MISMATCH, \<lparr>recvLength = Some 0, ioRecvPci = Some \<lparr>Protocol = 0, PciLength = 8\<rparr>, recvBuffer = Some []\<rparr>,
       session two SCARD_PROTOCOL_UNDEFINED 1 2 2 0 0)"
  by (rule direct_connect_drops_protocol [OF session_connect(2), where s' = "session_state SCARD_PROTOCOL_UNDEFINED 2" and i = 0]) (simp_all add: session_inv session_guard flag_def)

end
