(* ===== verification/Svc.thy ===== *)
theory Svc
  imports Card_Sharing
begin

section \<open>Serving clients (PCSC/src/winscard\_svc.c)\<close>

text \<open>
  Every client has an application context, a slot of \<^verbatim>\<open>psContext\<close>, and a thread that reads its
  requests, calls the card operations and writes the replies. A request is a value of the datatype \<open>request\<close>
  with the fields of the message structure the handler reads; a message of a wrong length, a closed
  connection and an unknown command are requests of their own. \<open>serve\<close> is the \<^verbatim>\<open>switch\<close> of
  \<^verbatim>\<open>ContextThread\<close>; its result is a reply or the end of the thread, and \<open>None\<close> when the handler does not return.
  Reading and writing the socket is not modelled, except that a failed write ends the thread.
\<close>

definition pctx :: "'d pcscd \<Rightarrow> nat \<Rightarrow> psContext_t" where
  "pctx w k = psContext w ! k"

definition upd_pctx :: "nat \<Rightarrow> (psContext_t \<Rightarrow> psContext_t) \<Rightarrow> 'd pcscd \<Rightarrow> 'd pcscd" where
  "upd_pctx k f w = w\<lparr>psContext := upd_at k f (psContext w)\<rparr>"

subsection \<open>Contexts and their handles\<close>

definition ContextsInitialize :: "'d pcscd \<Rightarrow> int \<times> 'd pcscd" where
  "ContextsInitialize w = (1, w\<lparr>psContext := replicate PCSCLITE_MAX_APPLICATIONS_CONTEXTS empty_context\<rparr>)"

text \<open>\<open>create\<close> is the result of \<^verbatim>\<open>SYS_ThreadCreate\<close>; the second component is \<^verbatim>\<open>*pdwClientID\<close> afterwards.\<close>

definition CreateContextThread :: "DWORD \<Rightarrow> int \<Rightarrow> 'd pcscd \<Rightarrow> LONG \<times> DWORD \<times> 'd pcscd" where
  "CreateContextThread dwClientID create w =
     (case first_index (\<lambda>c. ctx_dwClientID c = 0) (psContext w) of
        None \<Rightarrow> (SCARD_F_INTERNAL_ERROR, dwClientID, w)
      | Some k \<Rightarrow>
          if create \<noteq> 0 then (SCARD_E_NO_MEMORY, 0, upd_pctx k (\<lambda>c. c\<lparr>ctx_dwClientID := 0\<rparr>) w)
          else (SCARD_S_SUCCESS, 0, upd_pctx k (\<lambda>c. c\<lparr>ctx_dwClientID := dwClientID\<rparr>) w))"

definition MSGAddContext :: "SCARDCONTEXT \<Rightarrow> nat \<Rightarrow> 'd pcscd \<Rightarrow> LONG \<times> 'd pcscd" where
  "MSGAddContext hContext k w = (SCARD_S_SUCCESS, upd_pctx k (\<lambda>c. c\<lparr>ctx_hContext := hContext\<rparr>) w)"

text \<open>The handle arrays, as operations on one context.\<close>

definition add_card :: "psContext_t \<Rightarrow> SCARDHANDLE \<Rightarrow> LONG \<times> psContext_t" where
  "add_card c h =
     (case first_index (\<lambda>x. x = 0) (ctx_hCard c) of
        None \<Rightarrow> (SCARD_F_INTERNAL_ERROR, c)
      | Some j \<Rightarrow> (SCARD_S_SUCCESS, c\<lparr>ctx_hCard := (ctx_hCard c)[j := h]\<rparr>))"

definition remove_card :: "psContext_t \<Rightarrow> SCARDHANDLE \<Rightarrow> LONG \<times> psContext_t" where
  "remove_card c h =
     (case first_index (\<lambda>x. x = h) (ctx_hCard c) of
        None \<Rightarrow> (SCARD_E_INVALID_VALUE, c)
      | Some j \<Rightarrow> (SCARD_S_SUCCESS, c\<lparr>ctx_hCard := (ctx_hCard c)[j := 0]\<rparr>))"

definition MSGAddHandle :: "SCARDCONTEXT \<Rightarrow> SCARDHANDLE \<Rightarrow> nat \<Rightarrow> 'd pcscd \<Rightarrow> LONG \<times> 'd pcscd" where
  "MSGAddHandle hContext h k w =
     (if ctx_hContext (pctx w k) = hContext
      then let (rv, c) = add_card (pctx w k) h in (rv, upd_pctx k (\<lambda>_. c) w)
      else (SCARD_E_INVALID_VALUE, w))"

definition MSGRemoveHandle :: "SCARDHANDLE \<Rightarrow> nat \<Rightarrow> 'd pcscd \<Rightarrow> LONG \<times> 'd pcscd" where
  "MSGRemoveHandle h k w = (let (rv, c) = remove_card (pctx w k) h in (rv, upd_pctx k (\<lambda>_. c) w))"

definition MSGCheckHandleAssociation :: "SCARDHANDLE \<Rightarrow> nat \<Rightarrow> 'd pcscd \<Rightarrow> LONG" where
  "MSGCheckHandleAssociation h k w = (if h \<in> set (ctx_hCard (pctx w k)) then 0 else -1)"

text \<open>One round of the loop of \<^verbatim>\<open>MSGRemoveContext\<close> for handle \<open>h\<close> in cell \<open>j\<close>: \<open>Inl rv\<close> when the function returns
  \<open>rv\<close> here. All result pointers of the status call are NULL.\<close>

definition no_status :: status_args where
  "no_status = \<lparr>mszReaderNames = None, pcchReaderLen = None, pdwState = None, pdwProtocol = None, pbAtr = None, pcbAtrLen = None\<rparr>"

definition release_card :: "nat \<Rightarrow> nat \<Rightarrow> 'd pcscd \<Rightarrow> (LONG option \<times> 'd pcscd) option" where
  "release_card k j w =
     (let h = ctx_hCard (pctx w k) ! j in
      if h = 0 then Some (None, w)
      else case RFReaderInfoById w h of
        Inl rv \<Rightarrow> Some (Some rv, w)
      | Inr i \<Rightarrow> do {
          let dwLockId0 = dwLockId (rctx w i);
          let w1 = upd_rctx i (\<lambda>r. r\<lparr>dwLockId := 0\<rparr>) w;
          rv \<leftarrow> (if h \<noteq> dwLockId0 then Some SCARD_W_REMOVED_CARD else map_option fst (SCardStatus h no_status w1));
          (_, w2) \<leftarrow> SCardDisconnect h (if rv = SCARD_W_RESET_CARD \<or> rv = SCARD_W_REMOVED_CARD
                                         then SCARD_LEAVE_CARD else SCARD_RESET_CARD) w1;
          Some (None, upd_pctx k (\<lambda>c. c\<lparr>ctx_hCard := (ctx_hCard c)[j := 0]\<rparr>) w2) })"

fun release_cards :: "nat \<Rightarrow> nat list \<Rightarrow> 'd pcscd \<Rightarrow> (LONG option \<times> 'd pcscd) option" where
  "release_cards k [] w = Some (None, w)"
| "release_cards k (j # js) w =
     do { (early, w1) \<leftarrow> release_card k j w;
          case early of Some rv \<Rightarrow> Some (Some rv, w1) | None \<Rightarrow> release_cards k js w1 }"

definition MSGRemoveContext :: "SCARDCONTEXT \<Rightarrow> nat \<Rightarrow> 'd pcscd \<Rightarrow> (LONG \<times> 'd pcscd) option" where
  "MSGRemoveContext hContext k w =
     (if ctx_hContext (pctx w k) = hContext
      then do { (early, w1) \<leftarrow> release_cards k [0..<PCSCLITE_MAX_APPLICATION_CONTEXT_CHANNELS] w;
                case early of
                  Some rv \<Rightarrow> Some (rv, w1)
                | None \<Rightarrow> Some (SCARD_S_SUCCESS, upd_pctx k (\<lambda>c. c\<lparr>ctx_hContext := 0\<rparr>) w1) }
      else Some (SCARD_E_INVALID_VALUE, w))"

definition MSGCleanupClient :: "nat \<Rightarrow> 'd pcscd \<Rightarrow> 'd pcscd option" where
  "MSGCleanupClient k w =
     do { w1 \<leftarrow> (if ctx_hContext (pctx w k) \<noteq> 0 then map_option snd (MSGRemoveContext (ctx_hContext (pctx w k)) k w)
                   else Some w);
          Some (upd_pctx k (\<lambda>c. c\<lparr>ctx_dwClientID := 0, ctx_protocol_major := 0, ctx_protocol_minor := 0\<rparr>) w1) }"

subsection \<open>Requests and replies\<close>

abbreviation (input) PROTOCOL_VERSION_MAJOR :: int where "PROTOCOL_VERSION_MAJOR \<equiv> 4"
abbreviation (input) PROTOCOL_VERSION_MINOR :: int where "PROTOCOL_VERSION_MINOR \<equiv> 0"

text \<open>The last argument of some requests is the \<^verbatim>\<open>rv\<close> field as the client sent it: handlers that find the
  handle not associated send the structure back unchanged.\<close>

datatype request =
    Client_Died
  | Wrong_Length
  | Unknown_Command nat
  | Version int int
  | Get_Readers_State
  | Wait_Reader_State_Change
  | Stop_Waiting_Reader_State_Change
  | Establish_Context DWORD
  | Release_Context SCARDCONTEXT
  | Connect SCARDCONTEXT string DWORD DWORD DWORD
  | Reconnect SCARDHANDLE DWORD DWORD DWORD
  | Disconnect SCARDHANDLE DWORD LONG
  | Begin_Transaction SCARDHANDLE LONG
  | End_Transaction SCARDHANDLE DWORD LONG
  | Cancel_Transaction SCARDHANDLE LONG
  | Cancel SCARDCONTEXT
  | Status SCARDHANDLE string DWORD DWORD DWORD "UCHAR list" DWORD LONG
  | Transmit SCARDHANDLE SCARD_IO_HEADER SCARD_IO_HEADER DWORD DWORD "UCHAR list option"
  | Control SCARDHANDLE DWORD DWORD DWORD "UCHAR list option"
  | Get_Attrib SCARDHANDLE DWORD "UCHAR list" DWORD
  | Set_Attrib SCARDHANDLE DWORD "UCHAR list" DWORD

datatype reply =
    No_Reply
  | Version_Reply LONG int int
  | States_Reply "READER_STATE list"
  | Code_Reply LONG
  | Context_Reply LONG SCARDCONTEXT
  | Connect_Reply LONG SCARDHANDLE DWORD
  | Reconnect_Reply LONG DWORD
  | Status_Reply LONG status_args
  | Transmit_Reply LONG transmit_out
  | Control_Reply LONG DWORD "UCHAR list"
  | Attrib_Reply LONG DWORD "UCHAR list"

datatype outcome = Reply reply | Exit

subsection \<open>The handlers\<close>

text \<open>An uninitialised \<^verbatim>\<open>DWORD\<close> on the stack.\<close>

definition uninit_dword :: "'d pcscd \<Rightarrow> DWORD" where
  "uninit_dword w = ucast (stack_bytes w 0) + push_bit 8 (ucast (stack_bytes w 1))
     + push_bit 16 (ucast (stack_bytes w 2)) + push_bit 24 (ucast (stack_bytes w 3))"

definition serve_version :: "nat \<Rightarrow> int \<Rightarrow> int \<Rightarrow> 'd pcscd \<Rightarrow> outcome \<times> 'd pcscd" where
  "serve_version k major minor w =
     (let rv = (if major > PROTOCOL_VERSION_MAJOR \<or> major = PROTOCOL_VERSION_MAJOR \<and> minor > PROTOCOL_VERSION_MINOR
                then SCARD_E_NO_SERVICE else SCARD_S_SUCCESS)
      in (Reply (Version_Reply rv PROTOCOL_VERSION_MAJOR PROTOCOL_VERSION_MINOR),
          upd_pctx k (\<lambda>c. c\<lparr>ctx_protocol_major := major, ctx_protocol_minor := minor\<rparr>) w))"

definition serve_establish :: "nat \<Rightarrow> DWORD \<Rightarrow> 'd pcscd \<Rightarrow> outcome \<times> 'd pcscd" where
  "serve_establish k dwScope w =
     (let (rv, hContext, w1) = SCardEstablishContext dwScope True w in
      if rv = SCARD_S_SUCCESS
      then let (rv1, w2) = MSGAddContext hContext k w1 in (Reply (Context_Reply rv1 hContext), w2)
      else (Reply (Context_Reply rv hContext), w1))"

definition serve_release :: "nat \<Rightarrow> SCARDCONTEXT \<Rightarrow> 'd pcscd \<Rightarrow> (outcome \<times> 'd pcscd) option" where
  "serve_release k hContext w =
     (if SCardReleaseContext hContext = SCARD_S_SUCCESS
      then do { (rv, w1) \<leftarrow> MSGRemoveContext hContext k w; Some (Reply (Code_Reply rv), w1) }
      else Some (Reply (Code_Reply (SCardReleaseContext hContext)), w))"

text \<open>After \<^verbatim>\<open>SCardConnect\<close>: the new handle is entered in the context.\<close>

definition serve_connected ::
  "nat \<Rightarrow> SCARDCONTEXT \<Rightarrow> LONG \<times> SCARDHANDLE \<times> DWORD \<times> 'd pcscd \<Rightarrow> outcome \<times> 'd pcscd" where
  "serve_connected k hContext result =
     (case result of (rv, h, act, w) \<Rightarrow>
        if rv = SCARD_S_SUCCESS
        then let (rv1, w1) = MSGAddHandle hContext h k w in (Reply (Connect_Reply rv1 h act), w1)
        else (Reply (Connect_Reply rv h act), w))"

definition serve_disconnect :: "nat \<Rightarrow> SCARDHANDLE \<Rightarrow> DWORD \<Rightarrow> LONG \<Rightarrow> 'd pcscd \<Rightarrow> (outcome \<times> 'd pcscd) option" where
  "serve_disconnect k h d rv0 w =
     (if MSGCheckHandleAssociation h k w = 0
      then do { (rv, w1) \<leftarrow> SCardDisconnect h d w;
                if rv = SCARD_S_SUCCESS
                then let (rv1, w2) = MSGRemoveHandle h k w1 in Some (Reply (Code_Reply rv1), w2)
                else Some (Reply (Code_Reply rv), w1) }
      else Some (Reply (Code_Reply rv0), w))"

definition serve_cancel :: "SCARDCONTEXT \<Rightarrow> 'd pcscd \<Rightarrow> outcome \<times> 'd pcscd" where
  "serve_cancel hContext w =
     (let fd = (case first_index (\<lambda>c. ctx_hContext c = hContext) (psContext w) of
                  None \<Rightarrow> 0 | Some k \<Rightarrow> ctx_dwClientID (pctx w k))
      in if fd \<noteq> 0 then let (rv, w1) = MSGSignalClient fd SCARD_E_CANCELLED w in (Reply (Code_Reply rv), w1)
         else (Reply (Code_Reply SCARD_E_INVALID_VALUE), w))"

definition serve_status ::
  "nat \<Rightarrow> SCARDHANDLE \<Rightarrow> status_args \<Rightarrow> DWORD \<Rightarrow> DWORD \<Rightarrow> LONG \<Rightarrow> 'd pcscd \<Rightarrow> (outcome \<times> 'd pcscd) option" where
  "serve_status k h a cchReaderLen cbAtrLen rv0 w =
     (if MSGCheckHandleAssociation h k w = 0
      then if cchReaderLen > of_nat MAX_READERNAME \<or> cbAtrLen > of_nat MAX_ATR_SIZE
           then Some (Reply (Status_Reply SCARD_E_INSUFFICIENT_BUFFER a), w)
           else do { (rv, a1) \<leftarrow> SCardStatus h a w; Some (Reply (Status_Reply rv a1), w) }
      else Some (Reply (Status_Reply rv0 a), w))"

text \<open>\<open>body\<close> holds the \<^verbatim>\<open>cbSendLength\<close> bytes that follow the request, and is \<open>None\<close> when the client dies
  while they are read.\<close>

definition serve_transmit ::
  "nat \<Rightarrow> SCARDHANDLE \<Rightarrow> SCARD_IO_HEADER \<Rightarrow> SCARD_IO_HEADER \<Rightarrow> DWORD \<Rightarrow> DWORD \<Rightarrow> UCHAR list option \<Rightarrow> 'd pcscd
     \<Rightarrow> (outcome \<times> 'd pcscd) option" where
  "serve_transmit k h sendPci recvPci cbSendLength cbRecvLength body w =
     (if MSGCheckHandleAssociation h k w \<noteq> 0 then Some (Exit, w)
      else if cbRecvLength > of_nat MAX_BUFFER_SIZE_EXTENDED \<or> cbSendLength > of_nat MAX_BUFFER_SIZE_EXTENDED
      then Some (Exit, w)
      else case body of
        None \<Rightarrow> Some (Exit, w)
      | Some tx \<Rightarrow> do {
          (rv, out, w1) \<leftarrow> SCardTransmit h (Some sendPci) (Some tx)
             \<lparr>recvLength = Some cbRecvLength, ioRecvPci = Some recvPci,
              recvBuffer = Some (uninit MAX_BUFFER_SIZE_EXTENDED w)\<rparr> w;
          Some (Reply (Transmit_Reply rv out), w1) })"

definition serve_control ::
  "nat \<Rightarrow> SCARDHANDLE \<Rightarrow> DWORD \<Rightarrow> DWORD \<Rightarrow> DWORD \<Rightarrow> UCHAR list option \<Rightarrow> 'd pcscd \<Rightarrow> (outcome \<times> 'd pcscd) option" where
  "serve_control k h dwControlCode cbSendLength cbRecvLength body w =
     (if MSGCheckHandleAssociation h k w \<noteq> 0 then Some (Exit, w)
      else if cbRecvLength > of_nat MAX_BUFFER_SIZE_EXTENDED \<or> cbSendLength > of_nat MAX_BUFFER_SIZE_EXTENDED
      then Some (Exit, w)
      else case body of
        None \<Rightarrow> Some (Exit, w)
      | Some tx \<Rightarrow> do {
          (rv, n, rx, w1) \<leftarrow> SCardControl h dwControlCode (Some tx) (uninit MAX_BUFFER_SIZE_EXTENDED w) cbRecvLength w;
          Some (Reply (Control_Reply rv n rx), w1) })"

text \<open>The \<^verbatim>\<open>switch\<close>. The name of the command is logged first, read from an array of 22 strings without a
  check of the index: a command number beyond it is undefined behaviour, the value \<open>None\<close>.\<close>

fun serve :: "nat \<Rightarrow> request \<Rightarrow> 'd pcscd \<Rightarrow> (outcome \<times> 'd pcscd) option" where
  "serve k Client_Died w = Some (Exit, w)"
| "serve k Wrong_Length w = Some (Exit, w)"
| "serve k (Unknown_Command n) w = (if n < 22 then Some (Exit, w) else None)"
| "serve k (Version major minor) w = Some (serve_version k major minor w)"
| "serve k Get_Readers_State w = Some (Reply (States_Reply (readerStates w)), w)"
| "serve k Wait_Reader_State_Change w =
     Some (Reply No_Reply, snd (EHRegisterClientForEvent (ctx_dwClientID (pctx w k)) w))"
| "serve k Stop_Waiting_Reader_State_Change w =
     (let (rv, w1) = EHUnregisterClientForEvent (ctx_dwClientID (pctx w k)) w in Some (Reply (Code_Reply rv), w1))"
| "serve k (Establish_Context dwScope) w = Some (serve_establish k dwScope w)"
| "serve k (Release_Context hContext) w = serve_release k hContext w"
| "serve k (Connect hContext szReader m p act) w =
     map_option (serve_connected k hContext) (SCardConnect (Some szReader) True m p act w)"
| "serve k (Reconnect h m p d) w =
     (if MSGCheckHandleAssociation h k w \<noteq> 0 then Some (Exit, w)
      else do { (rv, act, w1) \<leftarrow> SCardReconnect h m p d True (uninit_dword w) w;
                Some (Reply (Reconnect_Reply rv act), w1) })"
| "serve k (Disconnect h d rv0) w = serve_disconnect k h d rv0 w"
| "serve k (Begin_Transaction h rv0) w =
     (if MSGCheckHandleAssociation h k w = 0
      then let (rv, w1) = SCardBeginTransaction h w in Some (Reply (Code_Reply rv), w1)
      else Some (Reply (Code_Reply rv0), w))"
| "serve k (End_Transaction h d rv0) w =
     (if MSGCheckHandleAssociation h k w = 0
      then do { (rv, w1) \<leftarrow> SCardEndTransaction h d w; Some (Reply (Code_Reply rv), w1) }
      else Some (Reply (Code_Reply rv0), w))"
| "serve k (Cancel_Transaction h rv0) w =
     (if MSGCheckHandleAssociation h k w = 0
      then let (rv, w1) = SCardCancelTransaction h w in Some (Reply (Code_Reply rv), w1)
      else Some (Reply (Code_Reply rv0), w))"
| "serve k (Cancel hContext) w = Some (serve_cancel hContext w)"
| "serve k (Status h names cchReaderLen st prot atr cbAtrLen rv0) w =
     serve_status k h \<lparr>mszReaderNames = Some names, pcchReaderLen = Some cchReaderLen, pdwState = Some st,
       pdwProtocol = Some prot, pbAtr = Some atr, pcbAtrLen = Some cbAtrLen\<rparr> cchReaderLen cbAtrLen rv0 w"
| "serve k (Transmit h sendPci recvPci cbSendLength cbRecvLength body) w =
     serve_transmit k h sendPci recvPci cbSendLength cbRecvLength body w"
| "serve k (Control h code cbSendLength cbRecvLength body) w = serve_control k h code cbSendLength cbRecvLength body w"
| "serve k (Get_Attrib h attr buf n) w =
     (if MSGCheckHandleAssociation h k w \<noteq> 0 \<or> n > of_nat MAX_BUFFER_SIZE then Some (Exit, w)
      else do { (rv, len, val, w1) \<leftarrow> SCardGetAttrib h attr buf n w; Some (Reply (Attrib_Reply rv len val), w1) })"
| "serve k (Set_Attrib h attr buf n) w =
     (if MSGCheckHandleAssociation h k w \<noteq> 0 \<or> n > of_nat MAX_BUFFER_SIZE then Some (Exit, w)
      else do { (rv, w1) \<leftarrow> SCardSetAttrib h attr buf n w; Some (Reply (Attrib_Reply rv n buf), w1) })"

text \<open>One turn of the loop of \<^verbatim>\<open>ContextThread\<close>: the request is served, the reply written if there is one (\<open>sent\<close>
  tells whether that worked), and the thread cleans up after the client when it ends. The boolean says that it goes on.\<close>

definition ContextThread :: "nat \<Rightarrow> request \<Rightarrow> bool \<Rightarrow> 'd pcscd \<Rightarrow> (bool \<times> outcome \<times> 'd pcscd) option" where
  "ContextThread k req sent w =
     do { (res, w1) \<leftarrow> serve k req w;
          if res = Exit \<or> res \<noteq> Reply No_Reply \<and> \<not> sent then do { w2 \<leftarrow> MSGCleanupClient k w1; Some (False, res, w2) }
          else Some (True, res, w1) }"

subsection \<open>Contexts and readers do not interfere\<close>

lemma upd_pctx_fields [simp]:
  "sReadersContexts (upd_pctx k f w) = sReadersContexts w" "readerStates (upd_pctx k f w) = readerStates w"
  "rctx (upd_pctx k f w) i = rctx w i" "rstate (upd_pctx k f w) i = rstate w i"
  "length (psContext (upd_pctx k f w)) = length (psContext w)" "machine (upd_pctx k f w) = machine w"
  "ClientsWaitingForEvent (upd_pctx k f w) = ClientsWaitingForEvent w"
  "RFReaderInfoById (upd_pctx k f w) h = RFReaderInfoById w h"
  "RFFindReaderHandle (upd_pctx k f w) h = RFFindReaderHandle w h"
  "k < length (psContext w) \<Longrightarrow> pctx (upd_pctx k f w) k = f (pctx w k)"
  "j \<noteq> k \<Longrightarrow> pctx (upd_pctx k f w) j = pctx w j"
  by (simp_all add: upd_pctx_def rctx_def rstate_def pctx_def RFReaderInfoById_def RFFindReaderHandle_def)

lemma upd_pctx_inv [simp]: "daemon_inv (upd_pctx k f w) = daemon_inv w" "sharing_inv (upd_pctx k f w) = sharing_inv w"
  by (simp_all add: daemon_inv_def sharing_inv_def)

lemma upd_rctx_pctx [simp]: "pctx (upd_rctx i f w) k = pctx w k" "pctx (with_machine w h) k = pctx w k"
  by (simp_all add: pctx_def)

interpretation client_handles:
  handle_table ctx_hCard add_card remove_card SCARD_F_INTERNAL_ERROR SCARD_E_INVALID_VALUE
  by unfold_locales (auto simp: add_card_def remove_card_def simp del: first_index_None_iff)

text \<open>The card operations leave the contexts of the clients alone.\<close>

lemma touches_psContext: "touches i w w' \<Longrightarrow> psContext w' = psContext w"
  by (simp add: touches_def)

lemma SCardConnect_psContext:
  assumes "SCardConnect nm out m p act w = Some (rv, h, act', w')" and "daemon_inv w"
  shows "psContext w' = psContext w"
proof (cases "connect_enter nm out m p w")
  case (Inl e)
  with assms show ?thesis by (simp add: SCardConnect_def)
next
  case (Inr i)
  with assms(1) have f: "connect_finish i m p act w = Some (rv, h, act', w')"
    by (auto simp: SCardConnect_def split: if_splits)
  from connect_enter_Inr [OF Inr assms(2)] have i: "i < 16" "dwIdentity (rctx w i) = slot_identity i" by auto
  from connect_finish_inv [OF f assms(2) i] touches_psContext show ?thesis by blast
qed

lemma SCardDisconnect_psContext:
  assumes "SCardDisconnect h d w = Some (rv, w')"
  shows "psContext w' = psContext w"
proof (cases "disconnect_enter h d w")
  case (Inl e)
  with assms show ?thesis by (simp add: SCardDisconnect_def)
next
  case (Inr i)
  with assms have f: "disconnect_finish i h d w = Some (rv, w')"
    by (auto simp: SCardDisconnect_def split: if_splits)
  have id: "RFReaderInfoById w h = Inr i" using Inr by (auto simp: disconnect_enter_def split: if_splits sum.splits)
  from f RFReaderInfoById_len [OF id] id show ?thesis
    by (cases rule: disconnect_finish_cases) (simp_all add: touches_psContext)
qed

subsection \<open>Releasing a context\<close>

lemma release_card_cases:
  assumes "release_card k j w = Some (early, w')"
  obtains (free) "ctx_hCard (pctx w k) ! j = 0" "early = None" "w' = w"
    | (gone) rv where "ctx_hCard (pctx w k) ! j \<noteq> 0" "RFReaderInfoById w (ctx_hCard (pctx w k) ! j) = Inl rv" "early = Some rv" "w' = w"
    | (released) i d rv w2 where "ctx_hCard (pctx w k) ! j \<noteq> 0" "RFReaderInfoById w (ctx_hCard (pctx w k) ! j) = Inr i"
        "early = None" "SCardDisconnect (ctx_hCard (pctx w k) ! j) d (upd_rctx i (\<lambda>r. r\<lparr>dwLockId := 0\<rparr>) w) = Some (rv, w2)"
        "dwLockId (rctx w i) \<noteq> ctx_hCard (pctx w k) ! j \<Longrightarrow> d = SCARD_LEAVE_CARD"
        "w' = upd_pctx k (\<lambda>c. c\<lparr>ctx_hCard := (ctx_hCard c)[j := 0]\<rparr>) w2"
  using assms by (auto simp: release_card_def Let_def bind_eq_Some_conv split: if_splits sum.splits)

lemma release_card_psContext:
  assumes "release_card k j w = Some (None, w')" and "j < length (ctx_hCard (pctx w k))" and "k < length (psContext w)"
  shows "ctx_hCard (pctx w' k) = (ctx_hCard (pctx w k))[j := 0] \<and> ctx_hContext (pctx w' k) = ctx_hContext (pctx w k)
    \<and> length (psContext w') = length (psContext w)"
  using assms(1)
proof (cases rule: release_card_cases)
  case (released i d rv w2)
  have "psContext w2 = psContext w" using SCardDisconnect_psContext [OF released(4)] by simp
  with released assms(3) show ?thesis by (simp add: pctx_def upd_pctx_def)
next
  case free
  then show ?thesis using assms(2) list_update_id [of "ctx_hCard (pctx w k)" j] by simp
qed simp

lemma release_cards_clears:
  assumes "release_cards k js w = Some (None, w')" and "\<forall>j \<in> set js. j < length (ctx_hCard (pctx w k))" and "k < length (psContext w)"
  shows "(\<forall>j \<in> set js. ctx_hCard (pctx w' k) ! j = 0)
    \<and> (\<forall>j < length (ctx_hCard (pctx w k)). ctx_hCard (pctx w k) ! j = 0 \<longrightarrow> ctx_hCard (pctx w' k) ! j = 0)
    \<and> length (ctx_hCard (pctx w' k)) = length (ctx_hCard (pctx w k)) \<and> length (psContext w') = length (psContext w)"
  using assms
proof (induction k js w rule: release_cards.induct)
  case (2 k j js w)
  from "2.prems"(1) obtain w1 where r: "release_card k j w = Some (None, w1)" and rs: "release_cards k js w1 = Some (None, w')"
    by (auto simp: bind_eq_Some_conv split: option.splits)
  note c = release_card_psContext [OF r _ "2.prems"(3)]
  have "(\<forall>j \<in> set js. ctx_hCard (pctx w' k) ! j = 0)
    \<and> (\<forall>j < length (ctx_hCard (pctx w1 k)). ctx_hCard (pctx w1 k) ! j = 0 \<longrightarrow> ctx_hCard (pctx w' k) ! j = 0)
    \<and> length (ctx_hCard (pctx w' k)) = length (ctx_hCard (pctx w1 k)) \<and> length (psContext w') = length (psContext w1)"
    using "2.IH" [OF r refl refl rs] "2.prems" c by simp
  then show ?case using c "2.prems"(2) by (auto simp: nth_list_update split: if_splits)
qed simp

text \<open>Ending early is always an error.\<close>

lemma release_cards_error: "release_cards k js w = Some (Some rv, w') \<Longrightarrow> rv \<noteq> SCARD_S_SUCCESS"
proof (induction k js w rule: release_cards.induct)
  case (2 k j js w)
  then obtain e w1 where r: "release_card k j w = Some (e, w1)" by (auto simp: bind_eq_Some_conv)
  show ?case
  proof (cases e)
    case None
    with r "2.prems" have "release_cards k js w1 = Some (Some rv, w')" by simp
    from "2.IH" [OF r refl None this] show ?thesis .
  next
    case (Some x)
    with r "2.prems" have "release_card k j w = Some (Some rv, w1)" by simp
    then show ?thesis
      by (cases rule: release_card_cases) (auto simp: RFReaderInfoById_def split: option.splits)
  qed
qed simp

lemma unlock_same_clients: "i < length (sReadersContexts w) \<Longrightarrow> same_clients i w (upd_rctx i (\<lambda>r. r\<lparr>dwLockId := 0\<rparr>) w)"
  by (simp add: same_clients_def)

lemma release_card_inv:
  assumes "release_card k j w = Some (early, w')" and "daemon_inv w"
  shows "daemon_inv w' \<and> (sharing_inv w \<longrightarrow> sharing_inv w')"
  using assms(1)
proof (cases rule: release_card_cases)
  case (released i d rv w2)
  have len: "i < length (sReadersContexts w)" by (rule RFReaderInfoById_len [OF released(2)])
  with assms(2) have i: "i < 16" by (simp add: daemon_inv_def)
  note u = same_clients_inv [OF unlock_same_clients [OF len] assms(2) i]
  from SCardDisconnect_inv [OF released(4)] u released(6) show ?thesis by simp
qed (use assms in simp_all)

lemma release_cards_inv:
  assumes "release_cards k js w = Some (early, w')" and "daemon_inv w"
  shows "daemon_inv w' \<and> (sharing_inv w \<longrightarrow> sharing_inv w')"
  using assms
proof (induction k js w rule: release_cards.induct)
  case (2 k j js w)
  from "2.prems"(1) obtain e1 w1 where r: "release_card k j w = Some (e1, w1)"
    by (auto simp: bind_eq_Some_conv)
  note c = release_card_inv [OF r "2.prems"(2)]
  show ?case
  proof (cases e1)
    case None
    with r "2.prems"(1) have "release_cards k js w1 = Some (early, w')" by simp
    from "2.IH" [OF r refl None this] c show ?thesis by blast
  next
    case (Some x)
    with r "2.prems"(1) c show ?thesis by simp
  qed
qed simp

lemma MSGRemoveContext_inv:
  assumes "MSGRemoveContext hc k w = Some (rv, w')" and "daemon_inv w"
  shows "daemon_inv w' \<and> (sharing_inv w \<longrightarrow> sharing_inv w')"
proof (cases "ctx_hContext (pctx w k) = hc")
  case True
  with assms(1) obtain e w1 where r: "release_cards k [0..<16] w = Some (e, w1)"
    and w': "w' = w1 \<or> w' = upd_pctx k (\<lambda>c. c\<lparr>ctx_hContext := 0\<rparr>) w1"
    by (auto simp: MSGRemoveContext_def bind_eq_Some_conv split: option.splits)
  from release_cards_inv [OF r assms(2)] w' show ?thesis by auto
qed (use assms in \<open>simp add: MSGRemoveContext_def\<close>)

lemma MSGCleanupClient_inv:
  assumes "MSGCleanupClient k w = Some w'" and "daemon_inv w"
  shows "daemon_inv w' \<and> (sharing_inv w \<longrightarrow> sharing_inv w')"
  using assms MSGRemoveContext_inv by (fastforce simp: MSGCleanupClient_def bind_eq_Some_conv split: if_splits)

subsection \<open>Every request keeps the invariants\<close>

lemma world_inv: "sReadersContexts w' = sReadersContexts w \<Longrightarrow> daemon_inv w' = daemon_inv w \<and> sharing_inv w' = sharing_inv w"
  by (simp add: daemon_inv_def sharing_inv_def rctx_def)

lemma transmit_tables: "SCardTransmit h pci tx out w = Some (rv, out', w') \<Longrightarrow> sReadersContexts w' = sReadersContexts w"
proof (cases "recvLength out")
  case (Some n)
  assume t: "SCardTransmit h pci tx out w = Some (rv, out', w')"
  show ?thesis
  proof (cases "h = 0 \<or> tx = None \<or> recvBuffer out = None \<or> pci = None \<or> n < 2")
    case True
    with t Some show ?thesis by (auto simp: SCardTransmit_def Let_def split: option.splits if_splits)
  next
    case False
    then obtain b rx q where c: "tx = Some b" "recvBuffer out = Some rx" "pci = Some q" by auto
    show ?thesis
    proof (cases "card_guard h w")
      case (Inl e)
      with t Some False c show ?thesis by (auto simp: SCardTransmit_def Let_def)
    next
      case (Inr i)
      with t Some False c obtain s where s: "rstate w i = Some s"
        by (auto simp: SCardTransmit_def Let_def bind_eq_Some_conv)
      with t Some False c Inr show ?thesis
        by (auto simp: SCardTransmit_def Let_def bind_eq_Some_conv split: if_splits)
    qed
  qed
qed (simp add: SCardTransmit_def)

lemma control_tables: "SCardControl h c tx rx n w = Some (rv, len, rx', w') \<Longrightarrow> sReadersContexts w' = sReadersContexts w"
  by (auto simp: SCardControl_def Let_def bind_eq_Some_conv split: if_splits sum.splits)

lemma attrib_tables:
  "SCardGetAttrib h a buf n w = Some (rv, len, val, w') \<Longrightarrow> sReadersContexts w' = sReadersContexts w"
  "SCardSetAttrib h a buf n w = Some (rv, w') \<Longrightarrow> sReadersContexts w' = sReadersContexts w"
  by (auto simp: SCardGetAttrib_def SCardSetAttrib_def bind_eq_Some_conv split: if_splits sum.splits)

lemma event_tables:
  "sReadersContexts (snd (EHRegisterClientForEvent fd w)) = sReadersContexts w"
  "sReadersContexts (snd (EHUnregisterClientForEvent fd w)) = sReadersContexts w"
  "sReadersContexts (snd (MSGSignalClient fd rv w)) = sReadersContexts w"
  by (simp_all add: EHRegisterClientForEvent_def EHUnregisterClientForEvent_def MSGSignalClient_def split: option.split)

lemma msg_inv [simp]:
  "daemon_inv (snd (MSGAddHandle hc h k w)) = daemon_inv w" "sharing_inv (snd (MSGAddHandle hc h k w)) = sharing_inv w"
  "daemon_inv (snd (MSGRemoveHandle h k w)) = daemon_inv w" "sharing_inv (snd (MSGRemoveHandle h k w)) = sharing_inv w"
  by (simp_all add: MSGAddHandle_def MSGRemoveHandle_def split: prod.split)

lemma serve_connected_inv:
  "serve_connected k hc (rv, h, act, w) = (res, w') \<Longrightarrow> daemon_inv w' = daemon_inv w \<and> sharing_inv w' = sharing_inv w"
  using msg_inv(1,2) [of hc h k w]
  by (auto simp: serve_connected_def simp del: msg_inv split: if_splits prod.splits)

lemma serve_simple_tables:
  "serve_version k a b w = (res, w') \<Longrightarrow> sReadersContexts w' = sReadersContexts w"
  "serve_establish k sc w = (res, w') \<Longrightarrow> sReadersContexts w' = sReadersContexts w"
  "serve_cancel hc w = (res, w') \<Longrightarrow> sReadersContexts w' = sReadersContexts w"
  "serve_status k h args n l rv0 w = Some (res, w') \<Longrightarrow> sReadersContexts w' = sReadersContexts w"
  "serve_transmit k h p1 p2 n l body w = Some (res, w') \<Longrightarrow> sReadersContexts w' = sReadersContexts w"
  "serve_control k h code n l body w = Some (res, w') \<Longrightarrow> sReadersContexts w' = sReadersContexts w"
  by (auto simp: serve_version_def serve_establish_def SCardEstablishContext_def MSGAddContext_def serve_cancel_def
      MSGSignalClient_def serve_status_def serve_transmit_def serve_control_def Let_def bind_eq_Some_conv
      split: if_splits option.splits prod.splits dest: transmit_tables control_tables)

lemma serve_inv:
  assumes "serve k req w = Some (res, w')" and "daemon_inv w"
  shows "daemon_inv w' \<and> (sharing_inv w \<longrightarrow> sharing_inv w')"
proof (cases req)
  case (Release_Context hc)
  with assms show ?thesis
    by (auto simp: serve_release_def SCardReleaseContext_def bind_eq_Some_conv dest: MSGRemoveContext_inv)
next
  case (Connect hc nm m p act)
  with assms(1) obtain rv h act' w1 where c: "SCardConnect (Some nm) True m p act w = Some (rv, h, act', w1)"
    and s: "serve_connected k hc (rv, h, act', w1) = (res, w')" by auto
  from SCardConnect_inv [OF c assms(2)] serve_connected_inv [OF s] show ?thesis by simp
next
  case (Reconnect h m p d)
  with assms show ?thesis by (auto simp: bind_eq_Some_conv split: if_splits dest: SCardReconnect_inv)
next
  case (Disconnect h d rv0)
  with assms(1) have "w' = w \<or> (\<exists>rv w1. SCardDisconnect h d w = Some (rv, w1) \<and> (w' = w1 \<or> w' = snd (MSGRemoveHandle h k w1)))"
    by (auto simp: serve_disconnect_def bind_eq_Some_conv split: if_splits prod.splits)
  with assms(2) SCardDisconnect_inv show ?thesis by (metis msg_inv(3,4))
next
  case (Begin_Transaction h rv0)
  with assms show ?thesis
    by (auto split: if_splits prod.splits dest: clients_inv [OF begin_clients])
next
  case (End_Transaction h d rv0)
  with assms show ?thesis
    by (auto simp: bind_eq_Some_conv split: if_splits dest: clients_inv [OF end_clients])
next
  case (Cancel_Transaction h rv0)
  with assms show ?thesis
    by (auto split: if_splits prod.splits dest: clients_inv [OF cancel_clients])
next
  case Wait_Reader_State_Change
  with assms show ?thesis using world_inv [OF event_tables(1)] by auto
next
  case Stop_Waiting_Reader_State_Change
  with assms(1) have "w' = snd (EHUnregisterClientForEvent (ctx_dwClientID (pctx w k)) w)"
    by (auto split: prod.splits)
  with assms(2) show ?thesis using world_inv [OF event_tables(2)] by auto
qed (use assms in \<open>auto simp: bind_eq_Some_conv split: if_splits
      dest!: serve_simple_tables attrib_tables dest: world_inv\<close>)

text \<open>The daemon serves any client without losing track of connections: every turn of a client thread that returns, whatever
  the client sends, whether the reply can be written, and with the cleanup when the client is gone, keeps
  the reader tables and the sharing counts consistent.\<close>

theorem client_thread_keeps_invariants:
  assumes "ContextThread k req sent w = Some (goes_on, res, w')" and "daemon_inv w" and "sharing_inv w"
  shows "daemon_inv w' \<and> sharing_inv w'"
proof -
  from assms(1) obtain w1 where s: "serve k req w = Some (res, w1)"
    and w': "w' = w1 \<or> MSGCleanupClient k w1 = Some w'"
    by (auto simp: ContextThread_def bind_eq_Some_conv split: if_splits)
  from serve_inv [OF s assms(2)] assms(3) w' MSGCleanupClient_inv show ?thesis by blast
qed

subsection \<open>Handles belong to clients\<close>

text \<open>The handle a request is about.\<close>

fun request_handle :: "request \<Rightarrow> SCARDHANDLE option" where
  "request_handle (Reconnect h m p d) = Some h"
| "request_handle (Disconnect h d rv0) = Some h"
| "request_handle (Begin_Transaction h rv0) = Some h"
| "request_handle (End_Transaction h d rv0) = Some h"
| "request_handle (Cancel_Transaction h rv0) = Some h"
| "request_handle (Status h names n st prot atr l rv0) = Some h"
| "request_handle (Transmit h p1 p2 n l body) = Some h"
| "request_handle (Control h code n l body) = Some h"
| "request_handle (Get_Attrib h attr buf n) = Some h"
| "request_handle (Set_Attrib h attr buf n) = Some h"
| "request_handle _ = None"

text \<open>What the cleanup after a client leaves alone: the other contexts, and every reader that no handle of the client leads to.\<close>

definition elsewhere_same :: "nat \<Rightarrow> 'd pcscd \<Rightarrow> 'd pcscd \<Rightarrow> bool" where
  "elsewhere_same k w w' \<longleftrightarrow> length (psContext w') = length (psContext w)
     \<and> map dwIdentity (sReadersContexts w') = map dwIdentity (sReadersContexts w)
     \<and> set (ctx_hCard (pctx w' k)) \<subseteq> insert 0 (set (ctx_hCard (pctx w k)))
     \<and> (\<forall>j. j \<noteq> k \<longrightarrow> pctx w' j = pctx w j)
     \<and> (\<forall>i. (\<forall>c \<in> set (ctx_hCard (pctx w k)). c \<noteq> 0 \<longrightarrow> RFReaderInfoById w c \<noteq> Inr i) \<longrightarrow> rctx w' i = rctx w i)"

lemma elsewhere_refl [simp]: "elsewhere_same k w w"
  by (auto simp: elsewhere_same_def)

lemma elsewhere_trans:
  assumes "elsewhere_same k u v" and "elsewhere_same k v w"
  shows "elsewhere_same k u w"
proof -
  have i: "RFReaderInfoById v = RFReaderInfoById u" using assms(1) RFReaderInfoById_cong by (auto simp: elsewhere_same_def fun_eq_iff)
  have "rctx w i = rctx u i" if "\<forall>c \<in> set (ctx_hCard (pctx u k)). c \<noteq> 0 \<longrightarrow> RFReaderInfoById u c \<noteq> Inr i" for i
  proof -
    have "\<forall>c \<in> set (ctx_hCard (pctx v k)). c \<noteq> 0 \<longrightarrow> RFReaderInfoById v c \<noteq> Inr i"
      using that assms(1) i by (auto simp: elsewhere_same_def)
    with that assms show ?thesis by (simp add: elsewhere_same_def)
  qed
  with assms show ?thesis unfolding elsewhere_same_def by auto
qed

lemma elsewhere_pctx:
  "k < length (psContext w) \<Longrightarrow> set (ctx_hCard (f (pctx w k))) \<subseteq> insert 0 (set (ctx_hCard (pctx w k))) \<Longrightarrow> elsewhere_same k w (upd_pctx k f w)"
  by (simp add: elsewhere_same_def)

lemma release_card_elsewhere:
  assumes "release_card k j w = Some (early, w')" and "j < length (ctx_hCard (pctx w k))" and "k < length (psContext w)"
  shows "elsewhere_same k w w'"
  using assms(1)
proof (cases rule: release_card_cases)
  case (released i d rv w2)
  let ?h = "ctx_hCard (pctx w k) ! j" and ?u = "upd_rctx i (\<lambda>r. r\<lparr>dwLockId := 0\<rparr>) w"
  have len: "i < length (sReadersContexts w)" by (rule RFReaderInfoById_len [OF released(2)])
  have t: "touches i ?u w2 \<and> dwIdentity (rctx w2 i) = dwIdentity (rctx ?u i)"
  proof (cases "disconnect_enter ?h d ?u")
    case (Inl e)
    with released(4) show ?thesis by (simp add: SCardDisconnect_def)
  next
    case (Inr m)
    have id: "RFReaderInfoById ?u ?h = Inr i" using released(2) by simp
    then have "m = i" using Inr by (auto simp: disconnect_enter_def split: if_splits sum.splits)
    with released(4) Inr have f: "disconnect_finish i ?h d ?u = Some (rv, w2)" by (auto simp: SCardDisconnect_def split: if_splits)
    have "i < length (sReadersContexts ?u)" using len by simp
    from f this id show ?thesis by (cases rule: disconnect_finish_cases) auto
  qed
  have tw: "touches i w w2" using t touches_trans [of i w ?u w2] by simp
  have ps: "psContext w2 = psContext w" using tw by (rule touches_psContext)
  have idi: "dwIdentity (rctx w2 i) = dwIdentity (rctx w i)" using t len by simp
  have "map dwIdentity (sReadersContexts w2) = map dwIdentity (sReadersContexts w)"
  proof (rule nth_equalityI)
    fix m assume "m < length (map dwIdentity (sReadersContexts w2))"
    with tw idi show "map dwIdentity (sReadersContexts w2) ! m = map dwIdentity (sReadersContexts w) ! m"
      by (cases "m = i") (simp_all add: touches_def rctx_def)
  qed (use tw in \<open>simp add: touches_def\<close>)
  moreover have "rctx w2 m = rctx w m" if "\<forall>c \<in> set (ctx_hCard (pctx w k)). c \<noteq> 0 \<longrightarrow> RFReaderInfoById w c \<noteq> Inr m" for m
    using that released(1,2) assms(2) tw by (auto simp: touches_def)
  ultimately have "elsewhere_same k w w2" using ps by (auto simp: elsewhere_same_def pctx_def)
  moreover have "set ((ctx_hCard (pctx w2 k))[j := 0]) \<subseteq> insert 0 (set (ctx_hCard (pctx w2 k)))" by (rule set_update_subset_insert)
  then have "elsewhere_same k w2 w'" unfolding released(6) using assms(3) ps by (intro elsewhere_pctx) simp_all
  ultimately show ?thesis by (rule elsewhere_trans)
qed simp_all

lemma release_cards_elsewhere:
  assumes "release_cards k js w = Some (early, w')" and "\<forall>j \<in> set js. j < length (ctx_hCard (pctx w k))" and "k < length (psContext w)"
  shows "elsewhere_same k w w'"
  using assms
proof (induction k js w rule: release_cards.induct)
  case (2 k j js w)
  from "2.prems"(1) obtain e w1 where r: "release_card k j w = Some (e, w1)"
    and rest: "(case e of Some rv \<Rightarrow> Some (Some rv, w1) | None \<Rightarrow> release_cards k js w1) = Some (early, w')"
    by (auto simp: bind_eq_Some_conv)
  have s: "elsewhere_same k w w1" using release_card_elsewhere [OF r] "2.prems" by simp
  show ?case
  proof (cases e)
    case None
    note c = release_card_psContext [OF r [unfolded None] _ "2.prems"(3)]
    have "elsewhere_same k w1 w'"
      by (rule "2.IH" [OF r refl None]) (use rest None c "2.prems" in simp_all)
    with s show ?thesis by (rule elsewhere_trans)
  next
    case (Some x)
    with rest s show ?thesis by simp
  qed
qed simp

lemma MSGCleanupClient_elsewhere:
  assumes "MSGCleanupClient k w = Some w'" and "length (ctx_hCard (pctx w k)) = 16" and "k < length (psContext w)"
  shows "elsewhere_same k w w'"
proof -
  from assms(1) obtain w1 where w1: "w1 = w \<or> (\<exists>rv. MSGRemoveContext (ctx_hContext (pctx w k)) k w = Some (rv, w1))"
    and w': "w' = upd_pctx k (\<lambda>c. c\<lparr>ctx_dwClientID := 0, ctx_protocol_major := 0, ctx_protocol_minor := 0\<rparr>) w1"
    by (auto simp: MSGCleanupClient_def bind_eq_Some_conv split: if_splits)
  have s: "elsewhere_same k w w1"
  proof (cases "w1 = w")
    case False
    with w1 obtain e w2 where r: "release_cards k [0..<16] w = Some (e, w2)"
      and v: "w1 = w2 \<or> w1 = upd_pctx k (\<lambda>c. c\<lparr>ctx_hContext := 0\<rparr>) w2"
      by (auto simp: MSGRemoveContext_def bind_eq_Some_conv split: option.splits)
    have s2: "elsewhere_same k w w2" by (rule release_cards_elsewhere [OF r]) (use assms in simp_all)
    then have "k < length (psContext w2)" using assms(3) by (simp add: elsewhere_same_def)
    then have "elsewhere_same k w (upd_pctx k (\<lambda>c. c\<lparr>ctx_hContext := 0\<rparr>) w2)"
      by (rule elsewhere_trans [OF s2 elsewhere_pctx]) auto
    with v s2 show ?thesis by auto
  qed simp
  moreover have "k < length (psContext w1)" using s assms(3) by (simp add: elsewhere_same_def)
  then have "elsewhere_same k w1 w'" unfolding w' by (intro elsewhere_pctx) auto
  ultimately show ?thesis by (rule elsewhere_trans)
qed

text \<open>C5: A client can only use its own handles: a request for a handle that is not in the client's context
  changes nothing when it is served. When it is answered and the answer can be sent, the thread goes on in the same state. Otherwise (a foreign handle in a reconnect, a
  transmit, a control or an attribute request ends the thread) the client is thrown out, by the cleanup of its own session, which leaves the contexts of the
  other clients as they are, and every reader to which none of its own handles leads.\<close>

theorem foreign_handle_no_effect:
  assumes "request_handle req = Some h" and "h \<notin> set (ctx_hCard (pctx w k))"
    and "k < length (psContext w)" and "length (ctx_hCard (pctx w k)) = 16"
  shows "\<exists>res. serve k req w = Some (res, w)
    \<and> (res \<noteq> Exit \<and> sent \<longrightarrow> ContextThread k req sent w = Some (True, res, w))
    \<and> (\<forall>goes_on res' w'. ContextThread k req sent w = Some (goes_on, res', w') \<longrightarrow>
         res' = res \<and> (goes_on \<and> w' = w \<or> \<not> goes_on \<and> (res = Exit \<or> \<not> sent) \<and> MSGCleanupClient k w = Some w')
         \<and> (\<forall>j. j \<noteq> k \<longrightarrow> pctx w' j = pctx w j)
         \<and> (\<forall>i. (\<forall>c \<in> set (ctx_hCard (pctx w k)). c \<noteq> 0 \<longrightarrow> RFReaderInfoById w c \<noteq> Inr i) \<longrightarrow> rctx w' i = rctx w i))"
proof -
  have "\<exists>res. serve k req w = Some (res, w) \<and> res \<noteq> Reply No_Reply"
    using assms(1,2)
    by (cases req) (auto simp: MSGCheckHandleAssociation_def serve_disconnect_def serve_status_def serve_transmit_def
        serve_control_def)
  then obtain res where s: "serve k req w = Some (res, w)" "res \<noteq> Reply No_Reply" by blast
  have "res' = res \<and> (goes_on \<and> w' = w \<or> \<not> goes_on \<and> (res = Exit \<or> \<not> sent) \<and> MSGCleanupClient k w = Some w') \<and> elsewhere_same k w w'"
    if "ContextThread k req sent w = Some (goes_on, res', w')" for goes_on res' w'
    using that s MSGCleanupClient_elsewhere [OF _ assms(4,3)]
    by (auto simp: ContextThread_def bind_eq_Some_conv split: if_splits)
  then show ?thesis using s by (intro exI [of _ res]) (auto simp: ContextThread_def elsewhere_same_def)
qed

text \<open>The handle table of a client: a handle is entered while fewer than 16 are there, it is then recognised as the
  client's, and removing it gives the earlier handles back.\<close>

theorem client_handle_table:
  assumes "k < length (psContext w)" and "length (ctx_hCard (pctx w k)) = 16" and "h \<noteq> 0" and "ctx_hContext (pctx w k) = hc"
  shows "(fst (MSGAddHandle hc h k w) = SCARD_S_SUCCESS \<longleftrightarrow> size (live (ctx_hCard (pctx w k))) < 16)
    \<and> (fst (MSGAddHandle hc h k w) = SCARD_S_SUCCESS \<longrightarrow>
         MSGCheckHandleAssociation h k (snd (MSGAddHandle hc h k w)) = 0
         \<and> fst (MSGRemoveHandle h k (snd (MSGAddHandle hc h k w))) = SCARD_S_SUCCESS
         \<and> live (ctx_hCard (pctx (snd (MSGRemoveHandle h k (snd (MSGAddHandle hc h k w)))) k)) = live (ctx_hCard (pctx w k)))"
proof -
  let ?c = "pctx w k"
  have add: "fst (MSGAddHandle hc h k w) = fst (add_card ?c h)" "pctx (snd (MSGAddHandle hc h k w)) k = snd (add_card ?c h)"
    "length (psContext (snd (MSGAddHandle hc h k w))) = length (psContext w)"
    using assms(1,4) by (simp_all add: MSGAddHandle_def split: prod.split)
  then have rem: "fst (MSGRemoveHandle h k (snd (MSGAddHandle hc h k w))) = fst (remove_card (snd (add_card ?c h)) h)"
    "pctx (snd (MSGRemoveHandle h k (snd (MSGAddHandle hc h k w)))) k = snd (remove_card (snd (add_card ?c h)) h)"
    using assms(1) by (simp_all add: MSGRemoveHandle_def split: prod.split)
  have "h \<in> set (ctx_hCard (snd (add_card ?c h)))" if "fst (add_card ?c h) = SCARD_S_SUCCESS"
    using client_handles.add_live [OF that assms(3)] in_live_iff [of h "ctx_hCard (snd (add_card ?c h))"] by simp
  then show ?thesis
    using client_handles.add_ok_capacity [of ?c h] client_handles.add_remove [of ?c h] assms(2,3) add rem
    by (simp add: MSGCheckHandleAssociation_def)
qed

text \<open>Releasing a context gives everything back: after a successful release no handle is left in the context
  and its identifier is cleared.\<close>

theorem release_context_clears:
  assumes "MSGRemoveContext hc k w = Some (SCARD_S_SUCCESS, w')" and "k < length (psContext w)"
    and "length (ctx_hCard (pctx w k)) = 16"
  shows "ctx_hCard (pctx w' k) = replicate 16 0 \<and> ctx_hContext (pctx w' k) = 0"
proof -
  from assms(1) obtain e w1 where r0: "release_cards k [0..<16] w = Some (e, w1)"
    and rest: "(case e of Some rv \<Rightarrow> Some (rv, w1)
        | None \<Rightarrow> Some (SCARD_S_SUCCESS, upd_pctx k (\<lambda>c. c\<lparr>ctx_hContext := 0\<rparr>) w1)) = Some (SCARD_S_SUCCESS, w')"
    by (auto simp: MSGRemoveContext_def bind_eq_Some_conv split: if_splits)
  have "e = None" using rest r0 release_cards_error [of k "[0..<16]" w _ w1] by (cases e) auto
  then have r: "release_cards k [0..<16] w = Some (None, w1)" and w': "w' = upd_pctx k (\<lambda>c. c\<lparr>ctx_hContext := 0\<rparr>) w1"
    using r0 rest by auto
  have "\<forall>j \<in> set [0..<16]. j < length (ctx_hCard (pctx w k))" using assms(3) by simp
  from release_cards_clears [OF r this assms(2)]
  have z: "\<forall>j<16. ctx_hCard (pctx w1 k) ! j = 0" "length (ctx_hCard (pctx w1 k)) = 16" "k < length (psContext w1)"
    using assms by auto
  then have "ctx_hCard (pctx w1 k) = replicate 16 0" by (intro nth_equalityI) auto
  with z w' show ?thesis by simp
qed

subsection \<open>Where clients are not kept apart\<close>

text \<open>C37: Releasing a context breaks the transactions of others: when a client that has a handle on a reader releases its context while
  another handle \<open>own\<close> holds that reader's lock, the lock is gone afterwards and anybody may start a
  transaction.\<close>

theorem release_context_breaks_lock:
  assumes "MSGRemoveContext hc k w = Some (SCARD_S_SUCCESS, w')" and "daemon_inv w" and "k < length (psContext w)"
    and "ctx_hCard (pctx w k) = h # replicate 15 0" and "h \<noteq> 0" and "RFReaderInfoById w h = Inr i"
    and "dwLockId (rctx w i) = own" and "own \<noteq> 0" and "own \<noteq> h"
  shows "dwLockId (rctx w' i) = 0"
proof -
  from assms(1) obtain e w1 where r: "release_cards k [0..<16] w = Some (e, w1)"
    and w': "sReadersContexts w' = sReadersContexts w1"
    by (auto simp: MSGRemoveContext_def bind_eq_Some_conv split: if_splits option.splits)
  have upt: "[0..<16] = 0 # [Suc 0..<16]" by (simp add: upt_conv_Cons)
  from r obtain e0 w0 where c: "release_card k 0 w = Some (e0, w0)"
    and rest: "(case e0 of Some rv \<Rightarrow> Some (Some rv, w0) | None \<Rightarrow> release_cards k [Suc 0..<16] w0) = Some (e, w1)"
    by (auto simp: upt bind_eq_Some_conv)
  have idle: "release_cards k js v = Some (e, v') \<Longrightarrow> \<forall>j \<in> set js. ctx_hCard (pctx v k) ! j = 0 \<Longrightarrow> v' = v" for js v v' e
    by (induction k js v rule: release_cards.induct) (auto simp: release_card_def Let_def bind_eq_Some_conv)
  from c show ?thesis
  proof (cases rule: release_card_cases)
    case free
    with assms(4,5) show ?thesis by simp
  next
    case (gone rv)
    with assms(4,6) show ?thesis by simp
  next
    case (released j d rv w2)
    have hd: "ctx_hCard (pctx w k) ! 0 = h" by (simp add: assms(4))
    then have j: "j = i" using released(2) assms(6) by simp
    have d: "d = SCARD_LEAVE_CARD" using released(5) hd j assms(7,9) by simp
    let ?u = "upd_rctx i (\<lambda>r. r\<lparr>dwLockId := 0\<rparr>) w"
    have len: "i < length (sReadersContexts w)" by (rule RFReaderInfoById_len [OF assms(6)])
    have dis: "SCardDisconnect h SCARD_LEAVE_CARD ?u = Some (rv, w2)" using released(4) hd j d by simp
    have "dwLockId (rctx w2 i) = 0"
    proof (cases "disconnect_enter h SCARD_LEAVE_CARD ?u")
      case (Inl x)
      with dis len show ?thesis by (auto simp: SCardDisconnect_def)
    next
      case (Inr x)
      then have x: "x = i" using assms(6) by (auto simp: disconnect_enter_def split: if_splits sum.splits)
      with dis Inr have f: "disconnect_finish i h SCARD_LEAVE_CARD ?u = Some (rv, w2)"
        by (auto simp: SCardDisconnect_def split: if_splits)
      have id: "RFReaderInfoById ?u h = Inr i" using assms(6) by simp
      from f _ id show ?thesis
        by (cases rule: disconnect_finish_cases) (use len in \<open>auto simp: RFSetReaderEventState_def Let_def\<close>)
    qed
    moreover have p2: "psContext w2 = psContext w" using SCardDisconnect_psContext [OF dis] by simp
    moreover have "w1 = w0"
    proof (rule idle)
      show "release_cards k [Suc 0..<16] w0 = Some (e, w1)" using rest released(3) by simp
      have "ctx_hCard (pctx w0 k) = (h # replicate 15 0)[0 := 0]"
        using released(6) p2 assms(3,4) by (simp add: pctx_def upd_pctx_def)
      then show "\<forall>j \<in> set [Suc 0..<16]. ctx_hCard (pctx w0 k) ! j = 0" by (auto simp: nth_Cons')
    qed
    ultimately show ?thesis using released(6) w' by (simp add: rctx_def)
  qed
qed

text \<open>A connection can end up without an owner: when the context number in a connect request is not the
  client's, the connection is made all the same, the client only gets an error, and the handle is
  entered in no context, so that nobody can disconnect it.\<close>

theorem connect_without_owner:
  assumes "SCardConnect (Some nm) True m p act w = Some (SCARD_S_SUCCESS, h, prot, w1)" and "daemon_inv w"
    and "ctx_hContext (pctx w k) \<noteq> hc" and "\<forall>c \<in> set (psContext w). h \<notin> set (ctx_hCard c)"
  shows "\<exists>w'. serve k (Connect hc nm m p act) w = Some (Reply (Connect_Reply SCARD_E_INVALID_VALUE h prot), w')
    \<and> RFFindReaderHandle w' h = SCARD_S_SUCCESS
    \<and> (\<forall>c \<in> set (psContext w'). h \<notin> set (ctx_hCard c))"
proof -
  have ctx: "psContext w1 = psContext w" by (rule SCardConnect_psContext [OF assms(1,2)])
  have find: "RFFindReaderHandle w1 h = SCARD_S_SUCCESS"
    using SCardConnect_effect [OF assms(1,2)] by blast
  have "MSGAddHandle hc h k w1 = (SCARD_E_INVALID_VALUE, w1)"
    using assms(3) ctx by (simp add: MSGAddHandle_def pctx_def)
  then show ?thesis using assms(1,4) ctx find by (simp add: serve_connected_def)
qed

text \<open>C38: A new client can inherit the handles of a dead one: the cleanup stops at the first handle whose reader is
  gone, keeps the remaining handles in the context, and frees the context for the next client, which
  then passes the check that protects handles.\<close>

theorem dead_clients_handles_inherited:
  assumes "k < length (psContext w)" and "ctx_hContext (pctx w k) \<noteq> 0" and "ctx_hCard (pctx w k) = h1 # h2 # hs"
    and "h1 \<noteq> 0" and "RFReaderInfoById w h1 = Inl rv" and "\<forall>j < k. ctx_dwClientID (pctx w j) \<noteq> 0" and "fd \<noteq> 0"
  shows "\<exists>w' w''. MSGCleanupClient k w = Some w' \<and> CreateContextThread fd 0 w' = (SCARD_S_SUCCESS, 0, w'')
    \<and> ctx_dwClientID (pctx w'' k) = fd \<and> MSGCheckHandleAssociation h2 k w'' = 0"
proof -
  have upt: "[0..<16] = 0 # [Suc 0..<16]" by (simp add: upt_conv_Cons)
  have r: "release_card k 0 w = Some (Some rv, w)" using assms(3-5) by (simp add: release_card_def)
  then have "MSGRemoveContext (ctx_hContext (pctx w k)) k w = Some (rv, w)"
    by (simp add: MSGRemoveContext_def upt)
  then have cl: "MSGCleanupClient k w = Some (upd_pctx k (\<lambda>c. c\<lparr>ctx_dwClientID := 0, ctx_protocol_major := 0, ctx_protocol_minor := 0\<rparr>) w)"
    using assms(2) by (simp add: MSGCleanupClient_def)
  let ?v = "upd_pctx k (\<lambda>c. c\<lparr>ctx_dwClientID := 0, ctx_protocol_major := 0, ctx_protocol_minor := 0\<rparr>) w"
  have "first_index (\<lambda>c. ctx_dwClientID c = 0) (psContext ?v) = Some k"
  proof (rule first_index_Some_eq)
    show "ctx_dwClientID (psContext ?v ! k) = 0" using assms(1) by (simp add: upd_pctx_def)
    show "ctx_dwClientID (psContext ?v ! j) \<noteq> 0" if "j < k" for j
      using that assms(6) by (simp add: upd_pctx_def pctx_def)
  qed (simp add: assms(1))
  then have "CreateContextThread fd 0 ?v = (SCARD_S_SUCCESS, 0, upd_pctx k (\<lambda>c. c\<lparr>ctx_dwClientID := fd\<rparr>) ?v)"
    by (simp add: CreateContextThread_def)
  with cl assms(1,3) show ?thesis by (simp add: MSGCheckHandleAssociation_def)
qed

text \<open>A dead client stays in the list of waiting clients: ending its thread does not take its descriptor out,
  and the next event is sent to that descriptor, whoever has it by then.\<close>

theorem dead_client_still_waiting:
  assumes "ContextThread k Client_Died sent w = Some (goes_on, res, w')" and "ctx_hContext (pctx w k) = 0"
    and "fd \<in> set (ClientsWaitingForEvent w)"
  shows "\<not> goes_on \<and> (fd, SCARD_S_SUCCESS) \<in> set (signalled (snd (EHSignalEventToClients w')))"
  using assms by (auto simp: ContextThread_def MSGCleanupClient_def)

subsection \<open>Witnesses\<close>

text \<open>The session with the client of context 0 owning \<open>0x1FDE8\<close> and that of context 1 \<open>0x1000A\<close>.\<close>

definition served :: "unit pcscd \<Rightarrow> unit pcscd" where
  "served w = w\<lparr>psContext := context_of 0x1030001 [0x1FDE8] 5 # context_of 0x1030002 [0x1000A] 6 # replicate 254 empty_context\<rparr>"

lemma served_pctx [simp]:
  "pctx (served w) 0 = context_of 0x1030001 [0x1FDE8] 5" "pctx (served w) (Suc 0) = context_of 0x1030002 [0x1000A] 6"
  "length (psContext (served w)) = 256" "rctx (served w) i = rctx w i" "rstate (served w) i = rstate w i"
  "RFReaderInfoById (served w) h = RFReaderInfoById w h" "RFFindReaderHandle (served w) h = RFFindReaderHandle w h"
  "sReadersContexts (served w) = sReadersContexts w"
  by (simp_all add: served_def pctx_def rctx_def rstate_def RFReaderInfoById_def RFFindReaderHandle_def)

lemma served_inv: "daemon_inv (served w) = daemon_inv w" "sharing_inv (served w) = sharing_inv w"
  by (simp_all add: daemon_inv_def sharing_inv_def)

theorem foreign_handle_no_effect_witness:
  "\<exists>res. ContextThread 0 (End_Transaction 0x1000A SCARD_RESET_CARD 0) True (served (session two SCARD_PROTOCOL_T0 0 2 2 0x1000A 1))
     = Some (True, res, served (session two SCARD_PROTOCOL_T0 0 2 2 0x1000A 1))"
proof -
  let ?w = "served (session two SCARD_PROTOCOL_T0 0 2 2 0x1000A 1)"
  have "serve 0 (End_Transaction 0x1000A SCARD_RESET_CARD 0) ?w = Some (Reply (Code_Reply 0), ?w)"
    by (simp add: MSGCheckHandleAssociation_def)
  moreover from foreign_handle_no_effect [where k = 0 and w = ?w and req = "End_Transaction 0x1000A SCARD_RESET_CARD 0" and h = "0x1000A" and sent = True]
  obtain res where "serve 0 (End_Transaction 0x1000A SCARD_RESET_CARD 0) ?w = Some (res, ?w)"
    "res \<noteq> Exit \<longrightarrow> ContextThread 0 (End_Transaction 0x1000A SCARD_RESET_CARD 0) True ?w = Some (True, res, ?w)"
    by (auto simp del: serve.simps)
  ultimately show ?thesis by (metis option.inject outcome.distinct(1) prod.inject)
qed

theorem client_thread_keeps_invariants_witness:
  "ContextThread 0 (Begin_Transaction 0x1000A 0) True (served (session two SCARD_PROTOCOL_T0 0 2 2 0 0))
     = Some (True, Reply (Code_Reply 0), served (session two SCARD_PROTOCOL_T0 0 2 2 0 0))
   \<and> sharing_inv (served (session two SCARD_PROTOCOL_T0 0 2 2 0 0))"
proof -
  have t: "ContextThread 0 (Begin_Transaction 0x1000A 0) True (served (session two SCARD_PROTOCOL_T0 0 2 2 0 0))
     = Some (True, Reply (Code_Reply 0), served (session two SCARD_PROTOCOL_T0 0 2 2 0 0))"
    by (simp add: ContextThread_def MSGCheckHandleAssociation_def)
  have "daemon_inv (served (session two SCARD_PROTOCOL_T0 0 2 2 0 0))" "sharing_inv (served (session two SCARD_PROTOCOL_T0 0 2 2 0 0))"
    by (simp_all add: served_inv session_inv session_sharing)
  from client_thread_keeps_invariants [OF t this] t show ?thesis by blast
qed

theorem client_handle_table_witness:
  "fst (MSGAddHandle 0x1030001 0x1000A 0 (served (session two SCARD_PROTOCOL_T0 0 2 2 0 0))) = SCARD_S_SUCCESS"
proof -
  have "size (live ([0x1FDE8] @ replicate 15 0)) < 16" by (simp add: size_live count_if_def)
  with client_handle_table [of 0 "served (session two SCARD_PROTOCOL_T0 0 2 2 0 0)" "0x1000A" "0x1030001"]
  show ?thesis by simp
qed

text \<open>Releasing the context of the second client while the first is in a transaction.\<close>

lemma served_psContext [simp]: "psContext (served w) = context_of 0x1030001 [0x1FDE8] 5 # context_of 0x1030002 [0x1000A] 6 # replicate 254 empty_context"
  by (simp add: served_def)

lemma release_idle:
  "\<forall>j \<in> set js. ctx_hCard (pctx w k) ! j = 0 \<Longrightarrow> release_cards k js w = Some (None, w)"
  by (induction js) (simp_all add: release_card_def)

lemma served_release:
  "\<exists>w'. MSGRemoveContext 0x1030001 0 (served (session two SCARD_PROTOCOL_T0 0 2 2 l n)) = Some (SCARD_S_SUCCESS, w')"
  if "l \<noteq> 0x1FDE8"
proof -
  let ?w = "served (session two SCARD_PROTOCOL_T0 0 2 2 l n)"
  let ?u = "upd_rctx 0 (\<lambda>r. r\<lparr>dwLockId := 0\<rparr>) ?w"
  have id: "RFReaderInfoById ?u 0x1FDE8 = Inr 0" by simp
  have "rctx ?u 0 \<in> set (sReadersContexts ?u)" unfolding rctx_def by (rule nth_mem) simp
  moreover have "vHandle (rctx ?u 0) \<noteq> 0" "0x1FDE8 \<in> hCard ` set (psHandles (rctx ?u 0))"
    by (simp_all add: handle_array_def)
  ultimately have find: "RFFindReaderHandle ?u 0x1FDE8 = SCARD_S_SUCCESS"
    unfolding RFFindReaderHandle_def by (metis (no_types, lifting))
  let ?v = "upd_rctx 0 (\<lambda>r. drop_connection (snd (RFRemoveReaderHandle r 0x1FDE8))) (upd_rctx 0 (\<lambda>r. r\<lparr>LockCount := 0, dwLockId := 0\<rparr>) ?u)"
  have "stateRef (rctx ?v 0) = Some 0" by simp
  then obtain w2 where "upd_rstate 0 (\<lambda>s. s\<lparr>readerSharing := dwContexts (rctx ?v 0)\<rparr>) ?v = Some w2"
    by (auto simp: upd_rstate_def)
  then have dis: "SCardDisconnect 0x1FDE8 SCARD_LEAVE_CARD ?u = Some (SCARD_S_SUCCESS, w2)"
    using find by (simp add: SCardDisconnect_def disconnect_enter_def disposition_ok_def disconnect_waits_def
        disconnect_finish_def RFUnlockAllSharing_eq [OF id])
  let ?w3 = "upd_pctx 0 (\<lambda>c. c\<lparr>ctx_hCard := (ctx_hCard c)[0 := 0]\<rparr>) w2"
  have r: "release_card 0 0 ?w = Some (None, ?w3)"
    using dis that by (simp add: release_card_def Let_def)
  have "psContext w2 = psContext ?w" using SCardDisconnect_psContext [OF dis] by simp
  then have "ctx_hCard (pctx ?w3 0) = 0 # replicate 15 0" by (simp add: pctx_def upd_pctx_def)
  then have "\<forall>j \<in> set [Suc 0..<16]. ctx_hCard (pctx ?w3 0) ! j = 0" by (auto simp: nth_Cons')
  from release_idle [OF this] r show ?thesis by (simp add: MSGRemoveContext_def upt_conv_Cons)
qed

theorem release_context_breaks_lock_witness:
  "\<exists>w'. MSGRemoveContext 0x1030001 0 (served (session two SCARD_PROTOCOL_T0 0 2 2 0x1000A 1)) = Some (SCARD_S_SUCCESS, w')
    \<and> dwLockId (rctx (served (session two SCARD_PROTOCOL_T0 0 2 2 0x1000A 1)) 0) = 0x1000A \<and> dwLockId (rctx w' 0) = 0"
proof -
  obtain w' where r: "MSGRemoveContext 0x1030001 0 (served (session two SCARD_PROTOCOL_T0 0 2 2 0x1000A 1)) = Some (SCARD_S_SUCCESS, w')"
    using served_release [of "0x1000A" 1] by auto
  have "daemon_inv (served (session two SCARD_PROTOCOL_T0 0 2 2 0x1000A 1))" by (simp add: served_inv session_inv)
  from release_context_breaks_lock [OF r this, of "0x1FDE8" 0 "0x1000A"] r show ?thesis by simp
qed

theorem release_context_clears_witness:
  "\<exists>w'. MSGRemoveContext 0x1030001 0 (served (session two SCARD_PROTOCOL_T0 0 2 2 0 0)) = Some (SCARD_S_SUCCESS, w')
    \<and> ctx_hCard (pctx w' 0) = replicate 16 0"
proof -
  obtain w' where r: "MSGRemoveContext 0x1030001 0 (served (session two SCARD_PROTOCOL_T0 0 2 2 0 0)) = Some (SCARD_S_SUCCESS, w')"
    using served_release [of 0 0] by auto
  from release_context_clears [OF r] r show ?thesis by simp
qed

theorem connect_without_owner_witness:
  "\<exists>w'. serve 0 (Connect 7 ''R 00 00'' SCARD_SHARE_SHARED SCARD_PROTOCOL_T0 0) (session one SCARD_PROTOCOL_T0 0 1 1 0 0)
      = Some (Reply (Connect_Reply SCARD_E_INVALID_VALUE 0x1FDE8 SCARD_PROTOCOL_T0), w')
    \<and> RFFindReaderHandle w' 0x1FDE8 = SCARD_S_SUCCESS \<and> (\<forall>c \<in> set (psContext w'). 0x1FDE8 \<notin> set (ctx_hCard c))"
proof (rule connect_without_owner [OF session_connect(1)])
  show "daemon_inv (session one SCARD_PROTOCOL_T0 0 1 1 0 0)" by (simp add: session_inv)
qed (simp_all add: pctx_def session_def session_clients_def empty_context_def)

text \<open>A context with a handle of a removed reader (identity 5) and one of the sample reader.\<close>

theorem dead_clients_handles_inherited_witness:
  "\<exists>w' w''. MSGCleanupClient 0 (sample_daemon\<lparr>psContext := [context_of 0x1030001 [0x5000A, 0x1FDE8] 5]\<rparr>) = Some w'
    \<and> CreateContextThread 8 0 w' = (SCARD_S_SUCCESS, 0, w'')
    \<and> ctx_dwClientID (pctx w'' 0) = 8 \<and> MSGCheckHandleAssociation 0x1FDE8 0 w'' = 0"
proof (rule dead_clients_handles_inherited)
  have "identity_part 0x5000A = slot_identity 4" using identity_part_handle [of 4 10] by (simp add: slot_identity_def)
  then have "identity_part 0x5000A \<noteq> 0x10000" "identity_part 0x5000A \<noteq> 0" by (simp_all add: slot_identity_def)
  then show "RFReaderInfoById (sample_daemon\<lparr>psContext := [context_of 0x1030001 [0x5000A, 0x1FDE8] 5]\<rparr>) 0x5000A = Inl SCARD_E_INVALID_VALUE"
    by (simp add: RFReaderInfoById_def sample_daemon_def sample_reader_def empty_reader_def split: option.split)
qed (simp_all add: pctx_def)

theorem dead_client_still_waiting_witness:
  "(7, SCARD_S_SUCCESS) \<in> set (signalled (snd (EHSignalEventToClients
     (upd_pctx 0 (\<lambda>c. c\<lparr>ctx_dwClientID := 0, ctx_protocol_major := 0, ctx_protocol_minor := 0\<rparr>) pulled_daemon))))"
proof -
  have c: "ctx_hContext (pctx pulled_daemon 0) = 0"
    by (simp add: pctx_def pulled_daemon_def sample_daemon_def empty_context_def)
  then have "ContextThread 0 Client_Died True pulled_daemon = Some (False, Exit,
      upd_pctx 0 (\<lambda>c. c\<lparr>ctx_dwClientID := 0, ctx_protocol_major := 0, ctx_protocol_minor := 0\<rparr>) pulled_daemon)"
    by (simp add: ContextThread_def MSGCleanupClient_def)
  from dead_client_still_waiting [OF this c, of 7] show ?thesis by (simp add: pulled_daemon_def)
qed

end
