(* ===== verification/Transport.thy ===== *)
theory Transport
  imports Prelude
begin

section \<open>Messages over sockets (PCSC/src/winscard\_msg.c, winscard\_msg\_srv.c)\<close>

text \<open>
  Client and daemon exchange byte strings over a stream socket that does not block: the functions of this file write and read whole messages with
  \<^verbatim>\<open>select\<close>, \<^verbatim>\<open>write\<close> and \<^verbatim>\<open>read\<close> and give up after a timeout. The operating system is a parameter, the record \<open>'s fd_system\<close> for the calls on
  one descriptor and \<open>'s sockets\<close> for the set-up. A loop that does not end and a \<^verbatim>\<open>long\<close> (32 bits) that overflows are \<open>None\<close>.
\<close>

record timeval =
  tv_sec :: int
  tv_usec :: int

datatype selected = Ready | Not_Set | Expired | Select_Interrupted | Select_Error
datatype written = Wrote nat | Write_Again | Write_Error
datatype got = Got "UCHAR list" | Read_Again | Read_Error

text \<open>\<open>select_fd\<close> gets the direction (\<open>True\<close> for writing) and the time to wait; \<open>daemon_there\<close> is \<^verbatim>\<open>SCardCheckDaemonAvailability\<close> in the client
  library and \<open>None\<close> in the daemon (\<^verbatim>\<open>PCSCD\<close> defined). Interrupted calls and full or empty sockets are \<open>Write_Again\<close> and \<open>Read_Again\<close>.\<close>

record 's fd_system =
  clock :: "'s \<Rightarrow> timeval"
  select_fd :: "bool \<Rightarrow> timeval \<Rightarrow> 's \<Rightarrow> selected \<times> 's"
  write_fd :: "UCHAR list \<Rightarrow> 's \<Rightarrow> written \<times> 's"
  read_fd :: "nat \<Rightarrow> 's \<Rightarrow> got \<times> 's"
  daemon_there :: "('s \<Rightarrow> bool \<times> 's) option"

definition long32 :: "int \<Rightarrow> int option" where
  "long32 x = (if - (2 ^ 31) \<le> x \<and> x < 2 ^ 31 then Some x else None)"

definition time_sub :: "timeval \<Rightarrow> timeval \<Rightarrow> int option" where
  "time_sub a b =
    (let sec = tv_sec a - tv_sec b; usec = tv_usec a - tv_usec b;
         (sec1, usec1) = (if usec < 0 then (sec - 1, usec + 1000000) else (sec, usec)) in
     do { x \<leftarrow> long32 (sec1 * 1000000); long32 (x + usec1) })"

text \<open>The time that is left, as the loops compute it: \<open>None\<close> in the inner option when it is used up.\<close>

definition remaining :: "int \<Rightarrow> timeval \<Rightarrow> timeval \<Rightarrow> int option option" where
  "remaining timeOut start now = do {
     delta \<leftarrow> time_sub now start;
     limit \<leftarrow> long32 (timeOut * 1000);
     if delta > limit then Some None else map_option Some (long32 (limit - delta))
   }"

definition to_timeval :: "int \<Rightarrow> timeval" where
  "to_timeval delta = (let sec = sgn delta * (\<bar>delta\<bar> div 1000000) in \<lparr>tv_sec = sec, tv_usec = delta - sec * 1000000\<rparr>)"

subsection \<open>Sending\<close>

text \<open>One turn of the loop: the end of the call, or what remains to be written.\<close>

definition send_once :: "'s fd_system \<Rightarrow> int \<Rightarrow> timeval \<Rightarrow> UCHAR list \<Rightarrow> 's \<Rightarrow> ((int \<times> 's) + (UCHAR list \<times> 's)) option" where
  "send_once sys timeOut start buffer s = do {
     left \<leftarrow> remaining timeOut start (clock sys s);
     Some (case left of
        None \<Rightarrow> Inl (-1, s)
      | Some delta \<Rightarrow>
         (case select_fd sys True (to_timeval delta) s of
            (Ready, s1) \<Rightarrow>
              (case write_fd sys buffer s1 of
                 (Wrote n, s2) \<Rightarrow> if n = 0 then Inl (-1, s2) else Inr (drop n buffer, s2)
               | (Write_Again, s2) \<Rightarrow> Inr (buffer, s2)
               | (Write_Error, s2) \<Rightarrow> Inl (-1, s2))
          | (Select_Interrupted, s1) \<Rightarrow> Inr (buffer, s1)
          | (r, s1) \<Rightarrow> Inl (-1, s1)))
   }"

partial_function (option) send_loop :: "'s fd_system \<Rightarrow> int \<Rightarrow> timeval \<Rightarrow> UCHAR list \<Rightarrow> 's \<Rightarrow> (int \<times> 's) option" where
  "send_loop sys timeOut start buffer s =
    (if buffer = [] then Some (0, s)
     else do {
       r \<leftarrow> send_once sys timeOut start buffer s;
       (case r of Inl y \<Rightarrow> Some y | Inr (rest, s1) \<Rightarrow> send_loop sys timeOut start rest s1)
     })"

definition SHMMessageSend :: "'s fd_system \<Rightarrow> UCHAR list \<Rightarrow> int \<Rightarrow> 's \<Rightarrow> (int \<times> 's) option" where
  "SHMMessageSend sys buffer timeOut s = send_loop sys timeOut (clock sys s) buffer s"

subsection \<open>Receiving\<close>

text \<open>\<open>n\<close> bytes remain to be read. One turn ends the call, or yields bytes to append to the buffer of the caller.\<close>

definition receive_expired :: "'s fd_system \<Rightarrow> 's \<Rightarrow> bool \<times> 's" where
  "receive_expired sys s = (case daemon_there sys of None \<Rightarrow> (False, s) | Some check \<Rightarrow> check s)"

definition receive_once :: "'s fd_system \<Rightarrow> int \<Rightarrow> timeval \<Rightarrow> nat \<Rightarrow> 's \<Rightarrow> (bool \<times> UCHAR list \<times> 's) option" where
  "receive_once sys timeOut start n s = do {
     left \<leftarrow> remaining timeOut start (clock sys s);
     Some (case left of
        None \<Rightarrow> (False, [], s)
      | Some delta \<Rightarrow>
         (case select_fd sys False (to_timeval delta) s of
            (Ready, s1) \<Rightarrow>
              (case read_fd sys n s1 of
                 (Got bs, s2) \<Rightarrow> (bs \<noteq> [], bs, s2)
               | (Read_Again, s2) \<Rightarrow> (True, [], s2)
               | (Read_Error, s2) \<Rightarrow> (False, [], s2))
          | (Expired, s1) \<Rightarrow> (let (there, s2) = receive_expired sys s1 in (there, [], s2))
          | (Select_Interrupted, s1) \<Rightarrow> (True, [], s1)
          | (r, s1) \<Rightarrow> (False, [], s1)))
   }"

partial_function (option) receive_loop :: "'s fd_system \<Rightarrow> int \<Rightarrow> timeval \<Rightarrow> nat \<Rightarrow> UCHAR list \<Rightarrow> 's \<Rightarrow> (int \<times> UCHAR list \<times> 's) option" where
  "receive_loop sys timeOut start n got_so_far s =
    (if n = 0 then Some (0, got_so_far, s)
     else do {
       (goes_on, bs, s1) \<leftarrow> receive_once sys timeOut start n s;
       if goes_on then receive_loop sys timeOut start (n - length bs) (got_so_far @ bs) s1 else Some (-1, got_so_far @ bs, s1)
     })"

definition SHMMessageReceive_bytes :: "'s fd_system \<Rightarrow> nat \<Rightarrow> int \<Rightarrow> 's \<Rightarrow> (int \<times> UCHAR list \<times> 's) option" where
  "SHMMessageReceive_bytes sys n timeOut s = receive_loop sys timeOut (clock sys s) n [] s"

subsection \<open>Messages with a header\<close>

definition le32 :: "DWORD \<Rightarrow> UCHAR list" where
  "le32 w = [ucast w, ucast (drop_bit 8 w), ucast (drop_bit 16 w), ucast (drop_bit 24 w)]"

fun from_le32 :: "UCHAR list \<Rightarrow> DWORD" where
  "from_le32 (a # b # c # d # _) = ucast a OR push_bit 8 (ucast b) OR push_bit 16 (ucast c) OR push_bit 24 (ucast d)"
| "from_le32 _ = 0"

definition rxHeader :: "DWORD \<Rightarrow> DWORD \<Rightarrow> UCHAR list" where
  "rxHeader size0 command = le32 size0 @ le32 command"

text \<open>The result of sending the header is overwritten by that of sending the data.\<close>

definition SHMMessageSendWithHeader_bytes :: "'s fd_system \<Rightarrow> DWORD \<Rightarrow> UCHAR list \<Rightarrow> int \<Rightarrow> 's \<Rightarrow> (int \<times> 's) option" where
  "SHMMessageSendWithHeader_bytes sys command data timeOut s = do {
     (ret, s1) \<leftarrow> SHMMessageSend sys (rxHeader (word_of_nat (length data)) command) timeOut s;
     SHMMessageSend sys data timeOut s1
   }"

subsection \<open>Connections\<close>

text \<open>The calls that set up sockets: descriptors are integers, negative results are errors.\<close>

record 's sockets =
  socket :: "'s \<Rightarrow> int \<times> 's"
  connect_socket :: "int \<Rightarrow> 's \<Rightarrow> int \<times> 's"
  set_nonblocking :: "int \<Rightarrow> 's \<Rightarrow> int \<times> 's"
  SYS_CloseFile :: "int \<Rightarrow> 's \<Rightarrow> 's"
  SYS_RemoveFile :: "'s \<Rightarrow> 's"
  bind_socket :: "int \<Rightarrow> 's \<Rightarrow> int \<times> 's"
  listen_socket :: "int \<Rightarrow> 's \<Rightarrow> int \<times> 's"
  SYS_Chmod :: "'s \<Rightarrow> 's"
  accept_socket :: "int \<Rightarrow> 's \<Rightarrow> int \<times> 's"
  select_common :: "int \<Rightarrow> 's \<Rightarrow> selected \<times> 's"

text \<open>The second component is \<^verbatim>\<open>*pdwClientID\<close>, which is set before the connection is made.\<close>

definition SHMClientSetupSession_sockets :: "'s sockets \<Rightarrow> 's \<Rightarrow> int \<times> int option \<times> 's" where
  "SHMClientSetupSession_sockets sys s =
    (let (fd, s1) = socket sys s in
     if fd < 0 then (-1, None, s1)
     else let (rc, s2) = connect_socket sys fd s1 in
       if rc < 0 then (-1, Some fd, SYS_CloseFile sys fd s2)
       else let (rc, s3) = set_nonblocking sys fd s2 in
         if rc < 0 then (-1, Some fd, SYS_CloseFile sys fd s3) else (0, Some fd, s3))"

definition SHMClientCloseSession_sockets :: "'s sockets \<Rightarrow> int \<Rightarrow> 's \<Rightarrow> int \<times> 's" where
  "SHMClientCloseSession_sockets sys fd s = (0, SYS_CloseFile sys fd s)"

definition SHMCleanupSharedSegment :: "'s sockets \<Rightarrow> int \<Rightarrow> 's \<Rightarrow> 's" where
  "SHMCleanupSharedSegment sys fd s = SYS_RemoveFile sys (SYS_CloseFile sys fd s)"

text \<open>The daemon: the new value of the static variable \<^verbatim>\<open>commonSocket\<close> is part of the result.\<close>

definition SHMInitializeCommonSegment :: "'s sockets \<Rightarrow> 's \<Rightarrow> int \<times> int \<times> 's" where
  "SHMInitializeCommonSegment sys s =
    (let (fd, s1) = socket sys s in
     if fd < 0 then (-1, fd, s1)
     else let (rc, s2) = bind_socket sys fd (SYS_RemoveFile sys s1) in
       if rc < 0 then (-1, fd, SHMCleanupSharedSegment sys fd s2)
       else let (rc, s3) = listen_socket sys fd s2 in
         if rc < 0 then (-1, fd, SHMCleanupSharedSegment sys fd s3) else (0, fd, SYS_Chmod sys s3))"

definition SHMProcessCommonChannelRequest :: "'s sockets \<Rightarrow> int \<Rightarrow> 's \<Rightarrow> int \<times> int option \<times> 's" where
  "SHMProcessCommonChannelRequest sys commonSocket s =
    (let (fd, s1) = accept_socket sys commonSocket s in if fd < 0 then (-1, None, s1) else (0, Some fd, s1))"

definition SHMProcessEventsServer :: "'s sockets \<Rightarrow> int \<Rightarrow> 's \<Rightarrow> int \<times> int option \<times> 's" where
  "SHMProcessEventsServer sys commonSocket s =
    (case select_common sys commonSocket s of
       (Select_Interrupted, s1) \<Rightarrow> (-2, None, s1)
     | (Select_Error, s1) \<Rightarrow> (-1, None, s1)
     | (Expired, s1) \<Rightarrow> (2, None, s1)
     | (Not_Set, s1) \<Rightarrow> (-1, None, s1)
     | (Ready, s1) \<Rightarrow> SHMProcessCommonChannelRequest sys commonSocket s1)"

subsection \<open>What a stream socket does\<close>

text \<open>\<open>accepts sys out\<close>: the bytes that \<^verbatim>\<open>write\<close> reports are appended to the stream \<open>out\<close>, nothing else is. \<open>delivers sys inp\<close>: \<open>inp\<close> is the
  stream of bytes that are still to come, of which \<^verbatim>\<open>read\<close> takes a beginning.\<close>

definition accepts :: "'s fd_system \<Rightarrow> ('s \<Rightarrow> UCHAR list) \<Rightarrow> bool" where
  "accepts sys out \<longleftrightarrow>
     (\<forall>t s r s1. select_fd sys True t s = (r, s1) \<longrightarrow> out s1 = out s)
   \<and> (\<forall>bs s r s1. write_fd sys bs s = (r, s1) \<longrightarrow> out s1 = out s @ (case r of Wrote n \<Rightarrow> take n bs | _ \<Rightarrow> []))"

definition delivers :: "'s fd_system \<Rightarrow> ('s \<Rightarrow> UCHAR list) \<Rightarrow> bool" where
  "delivers sys inp \<longleftrightarrow>
     (\<forall>t s r s1. select_fd sys False t s = (r, s1) \<longrightarrow> inp s1 = inp s)
   \<and> (\<forall>n s r s1. read_fd sys n s = (r, s1) \<longrightarrow> (case r of Got bs \<Rightarrow> length bs \<le> n \<and> inp s = bs @ inp s1 | _ \<Rightarrow> inp s1 = inp s))
   \<and> (\<forall>s r s1. receive_expired sys s = (r, s1) \<longrightarrow> inp s1 = inp s)"

lemma send_once_stream:
  assumes "accepts sys out" and "send_once sys timeOut start buffer s = Some r"
  shows "case r of Inl (rv, s1) \<Rightarrow> rv = -1 \<and> out s1 = out s | Inr (rest, s1) \<Rightarrow> \<exists>p. rest = drop p buffer \<and> out s1 = out s @ take p buffer"
proof -
  note acc = assms(1) [unfolded accepts_def]
  obtain left where l: "remaining timeOut start (clock sys s) = Some left" using assms(2) by (auto simp: send_once_def bind_eq_Some_conv)
  show ?thesis
  proof (cases left)
    case None
    with assms(2) l show ?thesis by (auto simp: send_once_def)
  next
    case (Some delta)
    obtain x s1 where sel: "select_fd sys True (to_timeval delta) s = (x, s1)" by fastforce
    obtain w s2 where wr: "write_fd sys buffer s1 = (w, s2)" by fastforce
    have o: "out s1 = out s" "out s2 = out s1 @ (case w of Wrote n \<Rightarrow> take n buffer | _ \<Rightarrow> [])" using acc sel wr by blast+
    show ?thesis using assms(2) l Some sel wr o
      by (cases x; cases w) (auto simp: send_once_def, (rule exI [of _ 0], simp)+)
  qed
qed

lemma send_loop_stream:
  assumes "accepts sys out" and "send_loop sys timeOut start buffer s = Some y"
  shows "\<exists>p. out (snd y) = out s @ take p buffer \<and> (fst y = 0 \<longrightarrow> out (snd y) = out s @ buffer) \<and> fst y \<in> {0, -1}"
proof (rule send_loop.raw_induct [OF _ assms(2), where P = "\<lambda>sys' t st buf s y. sys' = sys \<longrightarrow>
    (\<exists>p. out (snd y) = out s @ take p buf \<and> (fst y = 0 \<longrightarrow> out (snd y) = out s @ buf) \<and> fst y \<in> {0, -1})", rule_format])
  show "sys = sys" ..
next
  fix loop sys' t st buf and y :: "int \<times> 'a" and s :: 'a
  assume IH: "\<And>sys' t st buf s y. loop sys' t st buf s = Some y \<Longrightarrow> sys' = sys \<Longrightarrow>
      \<exists>p. out (snd y) = out s @ take p buf \<and> (fst y = 0 \<longrightarrow> out (snd y) = out s @ buf) \<and> fst y \<in> {0, -1}"
    and run: "(if buf = [] then Some (0, s)
      else do {
        r \<leftarrow> send_once sys' t st buf s;
        (case r of Inl y \<Rightarrow> Some y | Inr (rest, s1) \<Rightarrow> loop sys' t st rest s1)
      }) = Some y" and sys: "sys' = sys"
  show "\<exists>p. out (snd y) = out s @ take p buf \<and> (fst y = 0 \<longrightarrow> out (snd y) = out s @ buf) \<and> fst y \<in> {0, -1}"
  proof (cases "buf = []")
    case True
    with run show ?thesis by auto
  next
    case False
    with run sys obtain r where o: "send_once sys t st buf s = Some r" by (auto simp: bind_eq_Some_conv)
    note st = send_once_stream [OF assms(1) o]
    show ?thesis
    proof (cases r)
      case (Inl z)
      with run sys False o st show ?thesis by (cases z) (auto intro: exI [of _ 0])
    next
      case (Inr z)
      obtain rest s1 where z: "z = (rest, s1)" by fastforce
      with st Inr obtain p where p: "rest = drop p buf" "out s1 = out s @ take p buf" by auto
      from run sys False o Inr z have "loop sys t st rest s1 = Some y" by simp
      from IH [OF this refl] obtain q where
        "out (snd y) = out s1 @ take q rest" "fst y = 0 \<longrightarrow> out (snd y) = out s1 @ rest" "fst y \<in> {0, -1}" by blast
      with p show ?thesis by (intro exI [of _ "p + q"]) (simp add: take_add)
    qed
  qed
qed

lemma receive_once_stream:
  assumes "delivers sys inp" and "receive_once sys timeOut start n s = Some (goes_on, bs, s1)"
  shows "inp s = bs @ inp s1 \<and> length bs \<le> n \<and> (\<not> goes_on \<longrightarrow> bs = [])"
proof -
  note del = assms(1) [unfolded delivers_def]
  obtain left where l: "remaining timeOut start (clock sys s) = Some left" using assms(2) by (auto simp: receive_once_def bind_eq_Some_conv)
  show ?thesis
  proof (cases left)
    case None
    with assms(2) l show ?thesis by (auto simp: receive_once_def)
  next
    case (Some delta)
    obtain x s2 where sel: "select_fd sys False (to_timeval delta) s = (x, s2)" by fastforce
    obtain g s3 where rd: "read_fd sys n s2 = (g, s3)" by fastforce
    obtain there s4 where ex: "receive_expired sys s2 = (there, s4)" by fastforce
    have o: "inp s2 = inp s" "case g of Got bs \<Rightarrow> length bs \<le> n \<and> inp s2 = bs @ inp s3 | _ \<Rightarrow> inp s3 = inp s2" "inp s4 = inp s2"
      using del sel rd ex by blast+
    show ?thesis using assms(2) l Some sel rd ex o
      by (cases x; cases g) (auto simp: receive_once_def)
  qed
qed

lemma receive_loop_stream:
  assumes "delivers sys inp" and "receive_loop sys timeOut start n got_so_far s = Some y"
  shows "\<exists>bs. fst (snd y) = got_so_far @ bs \<and> inp s = bs @ inp (snd (snd y)) \<and> length bs \<le> n \<and> (fst y = 0 \<longrightarrow> length bs = n) \<and> fst y \<in> {0, -1}"
proof (rule receive_loop.raw_induct [OF _ assms(2), where P = "\<lambda>sys' t st n g s y. sys' = sys \<longrightarrow>
    (\<exists>bs. fst (snd y) = g @ bs \<and> inp s = bs @ inp (snd (snd y)) \<and> length bs \<le> n \<and> (fst y = 0 \<longrightarrow> length bs = n) \<and> fst y \<in> {0, -1})", rule_format])
  show "sys = sys" ..
next
  fix loop sys' t st n g and y :: "int \<times> UCHAR list \<times> 'a" and s :: 'a
  assume IH: "\<And>sys' t st n g s y. loop sys' t st n g s = Some y \<Longrightarrow> sys' = sys \<Longrightarrow>
      \<exists>bs. fst (snd y) = g @ bs \<and> inp s = bs @ inp (snd (snd y)) \<and> length bs \<le> n \<and> (fst y = 0 \<longrightarrow> length bs = n) \<and> fst y \<in> {0, -1}"
    and run: "(if n = 0 then Some (0, g, s)
      else do {
        (goes_on, bs, s1) \<leftarrow> receive_once sys' t st n s;
        if goes_on then loop sys' t st (n - length bs) (g @ bs) s1 else Some (-1, g @ bs, s1)
      }) = Some y" and sys: "sys' = sys"
  show "\<exists>bs. fst (snd y) = g @ bs \<and> inp s = bs @ inp (snd (snd y)) \<and> length bs \<le> n \<and> (fst y = 0 \<longrightarrow> length bs = n) \<and> fst y \<in> {0, -1}"
  proof (cases "n = 0")
    case True
    with run show ?thesis by auto
  next
    case False
    with run sys obtain goes_on bs s1 where o: "receive_once sys t st n s = Some (goes_on, bs, s1)" by (auto simp: bind_eq_Some_conv)
    note st = receive_once_stream [OF assms(1) o]
    show ?thesis
    proof (cases goes_on)
      case True
      with run sys False o have "loop sys t st (n - length bs) (g @ bs) s1 = Some y" by simp
      from IH [OF this refl] obtain cs where "fst (snd y) = (g @ bs) @ cs" "inp s1 = cs @ inp (snd (snd y))" "length cs \<le> n - length bs"
        "fst y = 0 \<longrightarrow> length cs = n - length bs" "fst y \<in> {0, -1}" by blast
      with st show ?thesis by (intro exI [of _ "bs @ cs"]) auto
    next
      case stop: False
      with run sys False o st show ?thesis by auto
    qed
  qed
qed

subsection \<open>A message arrives as it was sent\<close>

lemma from_le32_le32 [simp]: "from_le32 (le32 w @ xs) = w"
proof (rule bit_word_eqI)
  fix n assume "n < LENGTH(32)"
  then consider "n < 8" | "8 \<le> n" "n < 16" | "16 \<le> n" "n < 24" | "24 \<le> n" "n < 32" by fastforce
  then show "bit (from_le32 (le32 w @ xs)) n = bit w n"
    by cases (auto simp: le32_def bit_simps)
qed

lemma length_le32 [simp]: "length (le32 w) = 4"
  by (simp add: le32_def)

lemma length_rxHeader [simp]: "length (rxHeader a b) = 8"
  by (simp add: rxHeader_def)

lemma header_fields: "from_le32 (take 4 (rxHeader a b)) = a" "from_le32 (drop 4 (rxHeader a b)) = b"
  using from_le32_le32 [of a "[]"] from_le32_le32 [of b "[]"] by (simp_all add: rxHeader_def)

lemma send_stream:
  assumes "accepts sys out" and "SHMMessageSend sys buffer timeOut s = Some (rv, s1)"
  shows "\<exists>p. out s1 = out s @ take p buffer" "rv = 0 \<Longrightarrow> out s1 = out s @ buffer" "rv \<in> {0, -1}"
  using send_loop_stream [OF assms(1) assms(2) [unfolded SHMMessageSend_def]] by auto

lemma receive_stream:
  assumes "delivers sys inp" and "SHMMessageReceive_bytes sys n timeOut s = Some (rv, bs, s1)"
  shows "inp s = bs @ inp s1" "length bs \<le> n" "rv = 0 \<Longrightarrow> length bs = n" "rv \<in> {0, -1}"
  using receive_loop_stream [OF assms(1) assms(2) [unfolded SHMMessageReceive_bytes_def]] by auto

subsection \<open>Timeouts\<close>

text \<open>A system whose clock advances with every call of \<^verbatim>\<open>select\<close>, by a second more than asked for at most; the other calls take up to a second.
  Times are microseconds.\<close>

definition micros :: "timeval \<Rightarrow> int" where
  "micros t = tv_sec t * 1000000 + tv_usec t"

definition valid_time :: "timeval \<Rightarrow> bool" where
  "valid_time t \<longleftrightarrow> 0 \<le> tv_usec t \<and> tv_usec t < 1000000"

definition passes :: "'s fd_system \<Rightarrow> 's \<Rightarrow> 's \<Rightarrow> bool" where
  "passes sys s s1 \<longleftrightarrow> micros (clock sys s) \<le> micros (clock sys s1) \<and> micros (clock sys s1) \<le> micros (clock sys s) + 1000000"

definition timely :: "'s fd_system \<Rightarrow> bool" where
  "timely sys \<longleftrightarrow> (\<forall>s. valid_time (clock sys s))
   \<and> (\<forall>w t s r s1. select_fd sys w t s = (r, s1) \<longrightarrow> micros (clock sys s) < micros (clock sys s1) \<and> micros (clock sys s1) \<le> micros (clock sys s) + max 0 (micros t) + 1000000)
   \<and> (\<forall>bs s r s1. write_fd sys bs s = (r, s1) \<longrightarrow> passes sys s s1)
   \<and> (\<forall>n s r s1. read_fd sys n s = (r, s1) \<longrightarrow> passes sys s s1)
   \<and> (\<forall>s r s1. receive_expired sys s = (r, s1) \<longrightarrow> passes sys s s1)"

lemma time_sub_micros:
  assumes "valid_time a" and "valid_time b" and "0 \<le> micros a - micros b" and "micros a - micros b < 2 ^ 31"
  shows "time_sub a b = Some (micros a - micros b)"
proof -
  obtain x y where a: "a = \<lparr>tv_sec = x, tv_usec = y\<rparr>" by (cases a)
  obtain u v where b: "b = \<lparr>tv_sec = u, tv_usec = v\<rparr>" by (cases b)
  show ?thesis using assms unfolding a b
    by (auto simp: time_sub_def micros_def valid_time_def long32_def Let_def)
qed

lemma to_timeval_micros: "micros (to_timeval d) = d"
  by (simp add: micros_def to_timeval_def Let_def)

text \<open>The time since the start of the call, which the loops keep below the timeout and three seconds.\<close>

definition spent :: "'s fd_system \<Rightarrow> timeval \<Rightarrow> 's \<Rightarrow> int" where
  "spent sys start s = micros (clock sys s) - micros start"

definition in_time :: "'s fd_system \<Rightarrow> int \<Rightarrow> timeval \<Rightarrow> 's \<Rightarrow> bool" where
  "in_time sys timeOut start s \<longleftrightarrow> timely sys \<and> valid_time start \<and> 0 \<le> timeOut \<and> timeOut \<le> 2000000
     \<and> 0 \<le> spent sys start s \<and> spent sys start s \<le> timeOut * 1000 + 3000000"

lemma remaining_timely:
  assumes "in_time sys timeOut start s"
  shows "remaining timeOut start (clock sys s) =
    Some (if timeOut * 1000 < spent sys start s then None else Some (timeOut * 1000 - spent sys start s))"
proof -
  have "time_sub (clock sys s) start = Some (spent sys start s)"
    unfolding spent_def by (rule time_sub_micros) (use assms in \<open>auto simp: in_time_def timely_def spent_def\<close>)
  then show ?thesis using assms by (auto simp: remaining_def long32_def in_time_def)
qed

lemma select_time:
  assumes "in_time sys timeOut start s" and "spent sys start s \<le> timeOut * 1000"
    and "select_fd sys w (to_timeval (timeOut * 1000 - spent sys start s)) s = (r, s1)"
  shows "spent sys start s < spent sys start s1" "spent sys start s1 \<le> timeOut * 1000 + 1000000"
proof -
  let ?d = "timeOut * 1000 - spent sys start s"
  have m: "micros (to_timeval ?d) = ?d" by (rule to_timeval_micros)
  have "micros (clock sys s) < micros (clock sys s1) \<and> micros (clock sys s1) \<le> micros (clock sys s) + max 0 (micros (to_timeval ?d)) + 1000000"
    using assms(1,3) unfolding in_time_def timely_def by blast
  then show "spent sys start s < spent sys start s1" "spent sys start s1 \<le> timeOut * 1000 + 1000000"
    unfolding m using assms(2) by (auto simp: spent_def)
qed

lemma send_once_time:
  assumes "in_time sys timeOut start s"
  shows "\<exists>r. send_once sys timeOut start buffer s = Some r
    \<and> (\<forall>rest s1. r = Inr (rest, s1) \<longrightarrow> in_time sys timeOut start s1 \<and> spent sys start s < spent sys start s1)"
proof (cases "timeOut * 1000 < spent sys start s")
  case True
  then show ?thesis by (simp add: send_once_def remaining_timely [OF assms])
next
  case False
  let ?d = "timeOut * 1000 - spent sys start s"
  obtain x s1 where sel: "select_fd sys True (to_timeval ?d) s = (x, s1)" by fastforce
  obtain w s2 where wr: "write_fd sys buffer s1 = (w, s2)" by fastforce
  note t1 = select_time [OF assms _ sel]
  have "passes sys s1 s2" using assms wr unfolding in_time_def timely_def by blast
  then have t2: "spent sys start s1 \<le> spent sys start s2" "spent sys start s2 \<le> spent sys start s1 + 1000000" by (auto simp: passes_def spent_def)
  have "in_time sys timeOut start s1" "in_time sys timeOut start s2" "spent sys start s < spent sys start s1" "spent sys start s < spent sys start s2"
    using assms t1 t2 False by (auto simp: in_time_def)
  then show ?thesis using sel wr False
    by (cases x; cases w) (auto simp: send_once_def remaining_timely [OF assms])
qed

lemma receive_once_time:
  assumes "in_time sys timeOut start s"
  shows "\<exists>goes_on bs s1. receive_once sys timeOut start n s = Some (goes_on, bs, s1)
    \<and> (goes_on \<longrightarrow> in_time sys timeOut start s1 \<and> spent sys start s < spent sys start s1)"
proof (cases "timeOut * 1000 < spent sys start s")
  case True
  then show ?thesis by (auto simp: receive_once_def remaining_timely [OF assms])
next
  case False
  let ?d = "timeOut * 1000 - spent sys start s"
  obtain x s1 where sel: "select_fd sys False (to_timeval ?d) s = (x, s1)" by fastforce
  obtain g s2 where rd: "read_fd sys n s1 = (g, s2)" by fastforce
  obtain there s3 where ex: "receive_expired sys s1 = (there, s3)" by fastforce
  note t1 = select_time [OF assms _ sel]
  have "passes sys s1 s2" "passes sys s1 s3" using assms rd ex unfolding in_time_def timely_def by blast+
  then have t2: "spent sys start s1 \<le> spent sys start s2" "spent sys start s2 \<le> spent sys start s1 + 1000000"
    "spent sys start s1 \<le> spent sys start s3" "spent sys start s3 \<le> spent sys start s1 + 1000000" by (auto simp: passes_def spent_def)
  have "in_time sys timeOut start s1" "in_time sys timeOut start s2" "in_time sys timeOut start s3"
    "spent sys start s < spent sys start s1" "spent sys start s < spent sys start s2" "spent sys start s < spent sys start s3"
    using assms t1 t2 False by (auto simp: in_time_def)
  then show ?thesis using sel rd ex False
    by (cases x; cases g) (auto simp: receive_once_def remaining_timely [OF assms])
qed

lemma send_loop_returns:
  "in_time sys timeOut start s \<Longrightarrow> \<exists>y. send_loop sys timeOut start buffer s = Some y"
proof (induction "nat (timeOut * 1000 + 3000001 - spent sys start s)" arbitrary: s buffer rule: less_induct)
  case less
  show ?case
  proof (cases "buffer = []")
    case True
    then show ?thesis by (simp add: send_loop.simps)
  next
    case False
    from send_once_time [OF less.prems, of buffer] obtain r where o: "send_once sys timeOut start buffer s = Some r"
      and r: "\<And>rest s1. r = Inr (rest, s1) \<Longrightarrow> in_time sys timeOut start s1 \<and> spent sys start s < spent sys start s1" by blast
    show ?thesis
    proof (cases r)
      case (Inl y)
      with False o show ?thesis by (simp add: send_loop.simps)
    next
      case (Inr z)
      obtain rest s1 where z: "z = (rest, s1)" by fastforce
      have "in_time sys timeOut start s1" "spent sys start s < spent sys start s1" using r Inr z by auto
      then obtain y where "send_loop sys timeOut start rest s1 = Some y"
        using less.hyps [of s1 rest] less.prems by (auto simp: in_time_def)
      with False o Inr z show ?thesis by (simp add: send_loop.simps [of _ _ _ buffer])
    qed
  qed
qed

lemma receive_loop_returns:
  "in_time sys timeOut start s \<Longrightarrow> \<exists>y. receive_loop sys timeOut start n g s = Some y"
proof (induction "nat (timeOut * 1000 + 3000001 - spent sys start s)" arbitrary: s n g rule: less_induct)
  case less
  from receive_once_time [OF less.prems, of n] obtain goes_on bs s1 where o: "receive_once sys timeOut start n s = Some (goes_on, bs, s1)"
    and r: "goes_on \<Longrightarrow> in_time sys timeOut start s1 \<and> spent sys start s < spent sys start s1" by blast
  show ?case
  proof (cases "n = 0 \<or> \<not> goes_on")
    case True
    with o show ?thesis by (auto simp: receive_loop.simps)
  next
    case False
    then obtain y where "receive_loop sys timeOut start (n - length bs) (g @ bs) s1 = Some y"
      using less.hyps [of s1 "n - length bs" "g @ bs"] less.prems r by (auto simp: in_time_def)
    with False o show ?thesis by (cases y) (simp add: receive_loop.simps [of _ _ _ n])
  qed
qed

lemma starts_in_time:
  assumes "timely sys" and "0 \<le> timeOut" and "timeOut \<le> 2000000"
  shows "in_time sys timeOut (clock sys s) s"
  using assms by (auto simp: in_time_def spent_def timely_def)

subsection \<open>The service of the transport\<close>

text \<open>A message whose header was sent completely arrives as it was sent, in whatever pieces the socket takes and delivers it: the receiver reads
  the size and the command from the header and then exactly the data, and what follows on the stream is untouched.\<close>

theorem message_arrives:
  assumes "accepts csys out" and "delivers dsys inp" and "length data < 2 ^ 32"
    and "SHMMessageSend csys (rxHeader (word_of_nat (length data)) command) t s = Some (0, s1)"
    and "SHMMessageSendWithHeader_bytes csys command data t s = Some (0, s2)"
    and "out s @ inp d = out s2 @ rest"
    and "SHMMessageReceive_bytes dsys 8 t1 d = Some (0, h, d1)"
    and "SHMMessageReceive_bytes dsys (unat (from_le32 (take 4 h))) t2 d1 = Some (0, bs, d2)"
  shows "from_le32 (drop 4 h) = command \<and> bs = data \<and> inp d2 = rest"
proof -
  let ?h = "rxHeader (word_of_nat (length data)) command"
  have "SHMMessageSend csys data t s1 = Some (0, s2)" using assms(4,5) by (simp add: SHMMessageSendWithHeader_bytes_def)
  with assms(1,4) have "out s2 = out s @ ?h @ data" using send_stream(2) by fastforce
  with assms(6) have stream: "inp d = ?h @ data @ rest" by simp
  note r1 = receive_stream [OF assms(2,7)] and r2 = receive_stream [OF assms(2,8)]
  have h: "h = ?h" "inp d1 = data @ rest" using stream r1(1,3) by (auto simp: append_eq_append_conv)
  have "unat (from_le32 (take 4 h)) = length data" using assms(3) by (simp add: h header_fields unat_of_nat)
  with r2(1,3) h(2) have "bs = data" "inp d2 = rest" by (auto simp: append_eq_append_conv)
  then show ?thesis by (simp add: h header_fields)
qed

text \<open>C22: Sending and receiving always end, for any timeout up to 2000 seconds and whatever the peer does, as long as the clock runs.\<close>

theorem transfers_end:
  assumes "timely sys" and "0 \<le> timeOut" and "timeOut \<le> 2000000"
  shows "(\<exists>rv s1. SHMMessageSend sys buffer timeOut s = Some (rv, s1))
    \<and> (\<exists>rv s1. SHMMessageSendWithHeader_bytes sys command buffer timeOut s = Some (rv, s1))
    \<and> (\<exists>rv bs s1. SHMMessageReceive_bytes sys n timeOut s = Some (rv, bs, s1))"
proof -
  have send: "\<exists>y. SHMMessageSend sys bs timeOut s = Some y" for bs s
    unfolding SHMMessageSend_def by (rule send_loop_returns [OF starts_in_time [OF assms]])
  have receive: "\<exists>y. SHMMessageReceive_bytes sys n timeOut s = Some y"
    unfolding SHMMessageReceive_bytes_def by (rule receive_loop_returns [OF starts_in_time [OF assms]])
  obtain rv s1 where "SHMMessageSend sys (rxHeader (word_of_nat (length buffer)) command) timeOut s = Some (rv, s1)" using send by fastforce
  moreover obtain rv' s2 where "SHMMessageSend sys buffer timeOut s1 = Some (rv', s2)" using send by fastforce
  ultimately show ?thesis using send [of buffer s] receive by (fastforce simp: SHMMessageSendWithHeader_bytes_def)
qed

subsection \<open>Witnesses\<close>

text \<open>A pipe that takes and delivers three bytes at a time.\<close>

record pipe =
  pipe_bytes :: "UCHAR list"
  pipe_time :: int

definition pipe_system :: "pipe fd_system" where
  "pipe_system = \<lparr>clock = \<lambda>s. \<lparr>tv_sec = pipe_time s div 1000000, tv_usec = pipe_time s mod 1000000\<rparr>,
     select_fd = \<lambda>_ _ s. (Ready, s\<lparr>pipe_time := pipe_time s + 1\<rparr>),
     write_fd = \<lambda>bs s. (Wrote 3, s\<lparr>pipe_bytes := pipe_bytes s @ take 3 bs\<rparr>),
     read_fd = \<lambda>n s. (Got (take (min 3 n) (pipe_bytes s)), s\<lparr>pipe_bytes := drop (min 3 n) (pipe_bytes s)\<rparr>), daemon_there = None\<rparr>"

lemma pipe_stream: "accepts pipe_system pipe_bytes" "delivers pipe_system pipe_bytes"
  by (auto simp: accepts_def delivers_def pipe_system_def receive_expired_def)

lemma pipe_timely: "timely pipe_system"
  by (auto simp: timely_def pipe_system_def micros_def valid_time_def passes_def receive_expired_def)

lemma pipe_spent: "spent pipe_system start s = pipe_time s - micros start"
  by (simp add: spent_def pipe_system_def micros_def)

lemma pipe_send:
  assumes "valid_time start" and "timeOut \<le> 2000000"
  shows "0 \<le> pipe_time s - micros start \<Longrightarrow> pipe_time s - micros start + int (length buffer) \<le> timeOut * 1000
    \<Longrightarrow> \<exists>s1. send_loop pipe_system timeOut start buffer s = Some (0, s1) \<and> pipe_time s1 \<le> pipe_time s + int (length buffer)"
proof (induction "length buffer" arbitrary: buffer s rule: less_induct)
  case less
  show ?case
  proof (cases "buffer = []")
    case True
    then show ?thesis by (simp add: send_loop.simps)
  next
    case False
    then have len: "length (drop 3 buffer) < length buffer" by (cases buffer) auto
    let ?s = "s\<lparr>pipe_bytes := pipe_bytes s @ take 3 buffer, pipe_time := pipe_time s + 1\<rparr>"
    have it: "in_time pipe_system timeOut start s" using less.prems assms pipe_timely by (simp add: in_time_def pipe_spent)
    have once: "send_once pipe_system timeOut start buffer s = Some (Inr (drop 3 buffer, ?s))"
      using less.prems unfolding send_once_def remaining_timely [OF it] pipe_spent by (simp add: pipe_system_def)
    have "0 \<le> pipe_time ?s - micros start" "pipe_time ?s - micros start + int (length (drop 3 buffer)) \<le> timeOut * 1000"
      using less.prems len by auto
    from less.hyps [OF len this] obtain s1 where "send_loop pipe_system timeOut start (drop 3 buffer) ?s = Some (0, s1)"
      "pipe_time s1 \<le> pipe_time ?s + int (length (drop 3 buffer))" by blast
    moreover from this(2) len have "pipe_time s1 \<le> pipe_time s + int (length buffer)" by (simp del: length_drop)
    ultimately show ?thesis using once False by (simp add: send_loop.simps [of _ _ _ buffer])
  qed
qed

lemma pipe_receive:
  assumes "valid_time start" and "timeOut \<le> 2000000"
  shows "0 \<le> pipe_time s - micros start \<Longrightarrow> pipe_time s - micros start + int n \<le> timeOut * 1000 \<Longrightarrow> n \<le> length (pipe_bytes s)
    \<Longrightarrow> \<exists>bs s1. receive_loop pipe_system timeOut start n g s = Some (0, bs, s1)"
proof (induction n arbitrary: g s rule: less_induct)
  case (less n)
  show ?case
  proof (cases "n = 0")
    case True
    then show ?thesis by (simp add: receive_loop.simps)
  next
    case False
    let ?k = "min 3 n"
    let ?s = "s\<lparr>pipe_bytes := drop ?k (pipe_bytes s), pipe_time := pipe_time s + 1\<rparr>"
    have it: "in_time pipe_system timeOut start s" using less.prems assms pipe_timely by (simp add: in_time_def pipe_spent)
    have once: "receive_once pipe_system timeOut start n s = Some (True, take ?k (pipe_bytes s), ?s)"
      using less.prems False unfolding receive_once_def remaining_timely [OF it] pipe_spent by (cases "pipe_bytes s") (auto simp: pipe_system_def)
    have "\<exists>bs s1. receive_loop pipe_system timeOut start (n - ?k) (g @ take ?k (pipe_bytes s)) ?s = Some (0, bs, s1)"
      by (rule less.IH) (use less.prems False in auto)
    with once False less.prems show ?thesis by (simp add: receive_loop.simps [of _ _ _ n] min_absorb2)
  qed
qed

lemma pipe_clock: "valid_time (clock pipe_system s)" "micros (clock pipe_system s) = pipe_time s"
  by (simp_all add: pipe_system_def valid_time_def micros_def)

lemma pipe_sends: "length b < 1000 \<Longrightarrow> \<exists>s1. SHMMessageSend pipe_system b 1000 s = Some (0, s1)"
  using pipe_send [OF pipe_clock(1) [of s], of 1000 s b] by (auto simp: SHMMessageSend_def pipe_clock)

lemma pipe_receives: "n \<le> length (pipe_bytes s) \<Longrightarrow> n < 1000 \<Longrightarrow> \<exists>bs s1. SHMMessageReceive_bytes pipe_system n 1000 s = Some (0, bs, s1)"
  using pipe_receive [OF pipe_clock(1) [of s], of 1000 s n] by (auto simp: SHMMessageReceive_bytes_def pipe_clock)

text \<open>The header of a message of five bytes, then the bytes.\<close>

theorem message_arrives_witness:
  "\<exists>s2 h d1 bs d2. SHMMessageSendWithHeader_bytes pipe_system 4 [1, 2, 3, 4, 5] 1000 \<lparr>pipe_bytes = [], pipe_time = 0\<rparr> = Some (0, s2)
    \<and> SHMMessageReceive_bytes pipe_system 8 1000 s2 = Some (0, h, d1) \<and> SHMMessageReceive_bytes pipe_system 5 1000 d1 = Some (0, bs, d2)
    \<and> from_le32 (drop 4 h) = 4 \<and> bs = [1, 2, 3, 4, 5] \<and> pipe_bytes d2 = []"
proof -
  let ?s = "\<lparr>pipe_bytes = [], pipe_time = 0\<rparr>" and ?data = "[1, 2, 3, 4, 5] :: UCHAR list"
  let ?h = "rxHeader (word_of_nat (length ?data)) 4"
  obtain s1 where s1: "SHMMessageSend pipe_system ?h 1000 ?s = Some (0, s1)" using pipe_sends [of ?h ?s] by auto
  obtain s2 where s2: "SHMMessageSend pipe_system ?data 1000 s1 = Some (0, s2)" using pipe_sends [of ?data s1] by auto
  have bytes: "pipe_bytes s2 = ?h @ ?data" using send_stream(2) [OF pipe_stream(1) s1] send_stream(2) [OF pipe_stream(1) s2] by simp
  obtain h d1 where h: "SHMMessageReceive_bytes pipe_system 8 1000 s2 = Some (0, h, d1)" using pipe_receives [of 8 s2] bytes by auto
  have hh: "h = ?h" "pipe_bytes d1 = ?data"
    using receive_stream(1) [OF pipe_stream(2) h] receive_stream(3) [OF pipe_stream(2) h refl] length_rxHeader unfolding bytes
    by (metis append_eq_append_conv)+
  have n: "unat (from_le32 (take 4 h)) = 5" by (simp add: hh(1) header_fields)
  obtain bs d2 where d2: "SHMMessageReceive_bytes pipe_system 5 1000 d1 = Some (0, bs, d2)" using pipe_receives [of 5 d1] hh(2) by auto
  have w: "SHMMessageSendWithHeader_bytes pipe_system 4 ?data 1000 ?s = Some (0, s2)" using s1 s2 by (simp add: SHMMessageSendWithHeader_bytes_def)
  have "length ?data < 2 ^ 32" "pipe_bytes ?s @ pipe_bytes s2 = pipe_bytes s2 @ []" by simp_all
  from message_arrives [OF pipe_stream this(1) s1 w this(2) h d2 [folded n]] w h d2 show ?thesis by auto
qed

theorem transfers_end_witness:
  "\<exists>rv bs s1. SHMMessageReceive_bytes pipe_system 100 120000 \<lparr>pipe_bytes = [1, 2], pipe_time = 0\<rparr> = Some (rv, bs, s1)"
  using transfers_end [OF pipe_timely, of 120000] by simp

end
