(* ===== verification/Wire.thy ===== *)
theory Wire
  imports Svc Transport
begin

section \<open>The messages as bytes (PCSC/src/winscard\_msg.h)\<close>

text \<open>
  Requests travel as a header, a C structure and, for exchanges with card or reader, the bytes to send. \<open>send_request\<close> writes what the functions of
  winscard\_clnt.c write, \<open>receive_request\<close> reads what \<^verbatim>\<open>ContextThread\<close> reads; the values in between are those of the datatype \<open>request\<close> that
  \<open>Clnt\<close> and \<open>Svc\<close> work on. Integers are little-endian. \<open>junk\<close> stands for the fields that the client does not initialise and for
  those that no request value has, because the daemon does not read them. A character array is read up
  to the first null byte, or the end of the structure.
\<close>

subsection \<open>Fields\<close>

definition bytes_of :: "string \<Rightarrow> UCHAR list" where
  "bytes_of s = map (\<lambda>c. word_of_nat (of_char c)) s"

definition char_field :: "nat \<Rightarrow> string \<Rightarrow> UCHAR list" where
  "char_field n s = take n (bytes_of s @ replicate n 0)"

definition word_at :: "nat \<Rightarrow> UCHAR list \<Rightarrow> DWORD" where
  "word_at n b = from_le32 (drop n b)"

definition string_at :: "nat \<Rightarrow> UCHAR list \<Rightarrow> string" where
  "string_at n b = map (\<lambda>x. char_of (unat x)) (takeWhile (\<lambda>x. x \<noteq> 0) (drop n b))"

abbreviation (input) le32i :: "int \<Rightarrow> UCHAR list" where "le32i x \<equiv> le32 (word_of_int x)"

subsection \<open>Commands and structures\<close>

fun request_command :: "request \<Rightarrow> DWORD" where
  "request_command (Version _ _) = 0x11"
| "request_command Get_Readers_State = 0x12"
| "request_command Wait_Reader_State_Change = 0x13"
| "request_command Stop_Waiting_Reader_State_Change = 0x14"
| "request_command (Establish_Context _) = 0x01"
| "request_command (Release_Context _) = 0x02"
| "request_command (Connect _ _ _ _ _) = 0x04"
| "request_command (Reconnect _ _ _ _) = 0x05"
| "request_command (Disconnect _ _ _) = 0x06"
| "request_command (Begin_Transaction _ _) = 0x07"
| "request_command (End_Transaction _ _ _) = 0x08"
| "request_command (Transmit _ _ _ _ _ _) = 0x09"
| "request_command (Control _ _ _ _ _) = 0x0A"
| "request_command (Status _ _ _ _ _ _ _ _) = 0x0B"
| "request_command (Cancel _) = 0x0D"
| "request_command (Cancel_Transaction _ _) = 0x0E"
| "request_command (Get_Attrib _ _ _ _) = 0x0F"
| "request_command (Set_Attrib _ _ _ _) = 0x10"
| "request_command (Unknown_Command n) = word_of_nat n"
| "request_command Client_Died = 0"
| "request_command Wrong_Length = 0"

fun request_struct :: "DWORD \<Rightarrow> request \<Rightarrow> UCHAR list" where
  "request_struct junk (Version major minor) = le32i major @ le32i minor @ le32 0"
| "request_struct junk Wait_Reader_State_Change = le32 junk @ le32 junk"
| "request_struct junk Stop_Waiting_Reader_State_Change = le32 junk @ le32 junk"
| "request_struct junk (Establish_Context dwScope) = le32 dwScope @ le32 0 @ le32 0"
| "request_struct junk (Release_Context h) = le32 h @ le32 0"
| "request_struct junk (Connect h name m p act) = le32 h @ char_field MAX_READERNAME name @ le32 m @ le32 p @ le32 0 @ le32 act @ le32 0"
| "request_struct junk (Reconnect h m p d) = le32 h @ le32 m @ le32 p @ le32 d @ le32 junk @ le32 0"
| "request_struct junk (Disconnect h d rv) = le32 h @ le32 d @ le32i rv"
| "request_struct junk (Begin_Transaction h rv) = le32 h @ le32i rv"
| "request_struct junk (End_Transaction h d rv) = le32 h @ le32 d @ le32i rv"
| "request_struct junk (Cancel_Transaction h rv) = le32 h @ le32i rv"
| "request_struct junk (Cancel h) = le32 h @ le32 0"
| "request_struct junk (Status h names len st prot atr atrLen rv) =
     le32 h @ char_field MAX_READERNAME names @ le32 len @ le32 st @ le32 prot @ atr @ [0, 0, 0] @ le32 atrLen @ le32i rv"
| "request_struct junk (Transmit h sp rp m n _) =
     le32 h @ le32 (Protocol sp) @ le32 (PciLength sp) @ le32 m @ le32 (Protocol rp) @ le32 (PciLength rp) @ le32 n @ le32 0"
| "request_struct junk (Control h code m n _) = le32 h @ le32 code @ le32 m @ le32 n @ le32 junk @ le32 junk"
| "request_struct junk (Get_Attrib h attr buf len) = le32 h @ le32 attr @ buf @ le32 len @ le32 0x8010001D"
| "request_struct junk (Set_Attrib h attr buf len) = le32 h @ le32 attr @ buf @ le32 len @ le32 0x8010001D"
| "request_struct junk _ = []"

text \<open>The bytes that follow the structure.\<close>

fun request_tail :: "request \<Rightarrow> UCHAR list option" where
  "request_tail (Transmit _ _ _ _ _ body) = body"
| "request_tail (Control _ _ _ _ body) = body"
| "request_tail _ = None"

definition struct_size :: "nat \<Rightarrow> nat option" where
  "struct_size command = map_of
     [(0x01, 12), (0x02, 8), (0x04, 124), (0x05, 24), (0x06, 12), (0x07, 8), (0x08, 12), (0x09, 32), (0x0A, 24), (0x0B, 160), (0x0D, 8), (0x0E, 8),
      (0x0F, 280), (0x10, 280), (0x11, 12), (0x12, 0), (0x13, 8), (0x14, 8)] command"

definition parse_struct :: "nat \<Rightarrow> UCHAR list \<Rightarrow> request" where
  "parse_struct command b =
    (if command = 0x01 then Establish_Context (word_at 0 b)
     else if command = 0x02 then Release_Context (word_at 0 b)
     else if command = 0x04 then Connect (word_at 0 b) (string_at 4 b) (word_at 104 b) (word_at 108 b) (word_at 116 b)
     else if command = 0x05 then Reconnect (word_at 0 b) (word_at 4 b) (word_at 8 b) (word_at 12 b)
     else if command = 0x06 then Disconnect (word_at 0 b) (word_at 4 b) (uint (word_at 8 b))
     else if command = 0x07 then Begin_Transaction (word_at 0 b) (uint (word_at 4 b))
     else if command = 0x08 then End_Transaction (word_at 0 b) (word_at 4 b) (uint (word_at 8 b))
     else if command = 0x09 then Transmit (word_at 0 b) \<lparr>Protocol = word_at 4 b, PciLength = word_at 8 b\<rparr>
       \<lparr>Protocol = word_at 16 b, PciLength = word_at 20 b\<rparr> (word_at 12 b) (word_at 24 b) None
     else if command = 0x0A then Control (word_at 0 b) (word_at 4 b) (word_at 8 b) (word_at 12 b) None
     else if command = 0x0B then Status (word_at 0 b) (string_at 4 b) (word_at 104 b) (word_at 108 b) (word_at 112 b) (take 33 (drop 116 b))
       (word_at 152 b) (uint (word_at 156 b))
     else if command = 0x0D then Cancel (word_at 0 b)
     else if command = 0x0E then Cancel_Transaction (word_at 0 b) (uint (word_at 4 b))
     else if command = 0x0F then Get_Attrib (word_at 0 b) (word_at 4 b) (take 264 (drop 8 b)) (word_at 272 b)
     else if command = 0x10 then Set_Attrib (word_at 0 b) (word_at 4 b) (take 264 (drop 8 b)) (word_at 272 b)
     else if command = 0x11 then Version (sint (word_at 0 b)) (sint (word_at 4 b))
     else if command = 0x12 then Get_Readers_State
     else if command = 0x13 then Wait_Reader_State_Change
     else Stop_Waiting_Reader_State_Change)"

subsection \<open>Both ends\<close>

definition send_request :: "'s fd_system \<Rightarrow> DWORD \<Rightarrow> request \<Rightarrow> int \<Rightarrow> 's \<Rightarrow> (int \<times> 's) option" where
  "send_request sys junk req timeOut s = do {
     (rv, s1) \<leftarrow> SHMMessageSendWithHeader_bytes sys (request_command req) (request_struct junk req) timeOut s;
     (case request_tail req of
        None \<Rightarrow> Some (rv, s1)
      | Some body \<Rightarrow> if rv = -1 then Some (-1, s1) else SHMMessageSend sys body timeOut s1)
   }"

text \<open>The bytes to send of an exchange; too many of them are not read, the thread ends. The thread looks up the handle before it reads them, \<open>serve\<close>
  afterwards: it ends either way when the handle is not one of the client.\<close>

definition receive_body :: "'s fd_system \<Rightarrow> int \<Rightarrow> request \<Rightarrow> 's \<Rightarrow> (request \<times> 's) option" where
  "receive_body sys timeOut req s =
    (case req of
       Transmit h sp rp m n _ \<Rightarrow>
         if unat m > MAX_BUFFER_SIZE_EXTENDED \<or> unat n > MAX_BUFFER_SIZE_EXTENDED then Some (req, s)
         else do {
           (rv, bs, s1) \<leftarrow> SHMMessageReceive_bytes sys (unat m) timeOut s;
           Some (Transmit h sp rp m n (if rv = -1 then None else Some bs), s1)
         }
     | Control h code m n _ \<Rightarrow>
         if unat m > MAX_BUFFER_SIZE_EXTENDED \<or> unat n > MAX_BUFFER_SIZE_EXTENDED then Some (req, s)
         else do {
           (rv, bs, s1) \<leftarrow> SHMMessageReceive_bytes sys (unat m) timeOut s;
           Some (Control h code m n (if rv = -1 then None else Some bs), s1)
         }
     | _ \<Rightarrow> Some (req, s))"

definition receive_request :: "'s fd_system \<Rightarrow> int \<Rightarrow> 's \<Rightarrow> (request \<times> 's) option" where
  "receive_request sys timeOut s = do {
     (rv, h, s1) \<leftarrow> SHMMessageReceive_bytes sys 8 timeOut s;
     if rv = -1 then Some (Client_Died, s1)
     else
       let size0 = unat (word_at 0 h); command = unat (word_at 4 h) in
       (case struct_size command of
          None \<Rightarrow> Some (Unknown_Command command, s1)
        | Some n \<Rightarrow>
            if command = 0x12 then Some (Get_Readers_State, s1)
            else if size0 \<noteq> n then Some (Wrong_Length, s1)
            else do {
              (rv, b, s2) \<leftarrow> SHMMessageReceive_bytes sys n timeOut s1;
              if rv = -1 then Some (Client_Died, s2) else receive_body sys timeOut (parse_struct command b) s2
            })
   }"

subsection \<open>Structures are read as they were written\<close>

text \<open>The requests that the client library sends.\<close>

definition int_field :: "int \<Rightarrow> bool" where
  "int_field x \<longleftrightarrow> 0 \<le> x \<and> x < 2 ^ 32"

definition name_ok :: "string \<Rightarrow> bool" where
  "name_ok s \<longleftrightarrow> length s < MAX_READERNAME \<and> CHR 0x00 \<notin> set s"

definition name_sent :: "string \<Rightarrow> bool" where
  "name_sent s \<longleftrightarrow> length s \<le> MAX_READERNAME \<and> CHR 0x00 \<notin> set s"

definition body_ok :: "DWORD \<Rightarrow> DWORD \<Rightarrow> UCHAR list option \<Rightarrow> bool" where
  "body_ok m n body \<longleftrightarrow> unat m \<le> MAX_BUFFER_SIZE_EXTENDED \<and> unat n \<le> MAX_BUFFER_SIZE_EXTENDED \<and> (\<exists>bs. body = Some bs \<and> length bs = unat m)"

fun well_formed :: "request \<Rightarrow> bool" where
  "well_formed (Version a b) \<longleftrightarrow> - (2 ^ 31) \<le> a \<and> a < 2 ^ 31 \<and> - (2 ^ 31) \<le> b \<and> b < 2 ^ 31"
| "well_formed (Connect _ name _ _ _) \<longleftrightarrow> name_sent name"
| "well_formed (Disconnect _ _ rv) \<longleftrightarrow> int_field rv"
| "well_formed (Begin_Transaction _ rv) \<longleftrightarrow> int_field rv"
| "well_formed (End_Transaction _ _ rv) \<longleftrightarrow> int_field rv"
| "well_formed (Cancel_Transaction _ rv) \<longleftrightarrow> int_field rv"
| "well_formed (Status _ names _ _ _ atr _ rv) \<longleftrightarrow> name_ok names \<and> length atr = MAX_ATR_SIZE \<and> int_field rv"
| "well_formed (Transmit _ _ _ m n body) \<longleftrightarrow> body_ok m n body"
| "well_formed (Control _ _ m n body) \<longleftrightarrow> body_ok m n body"
| "well_formed (Get_Attrib _ _ buf _) \<longleftrightarrow> length buf = MAX_BUFFER_SIZE"
| "well_formed (Set_Attrib _ _ buf _) \<longleftrightarrow> length buf = MAX_BUFFER_SIZE"
| "well_formed Client_Died \<longleftrightarrow> False"
| "well_formed Wrong_Length \<longleftrightarrow> False"
| "well_formed (Unknown_Command _) \<longleftrightarrow> False"
| "well_formed _ \<longleftrightarrow> True"

text \<open>What the daemon understands. A name that fills the field of \<^verbatim>\<open>connect_struct\<close> has no null byte there; the daemon reads on in the fields behind it.\<close>

fun heard :: "request \<Rightarrow> request" where
  "heard (Connect h name m p act) =
     Connect h (if length name = MAX_READERNAME then name @ string_at 0 (le32 m @ le32 p @ le32 0) else name) m p act"
| "heard req = req"

lemma heard_cases: "heard req = (case req of Connect h name m p act \<Rightarrow>
    Connect h (if length name = MAX_READERNAME then name @ string_at 0 (le32 m @ le32 p @ le32 0) else name) m p act | _ \<Rightarrow> req)"
  by (cases req) simp_all

lemma word_at_le32: "word_at 0 (le32 w @ xs) = w" "word_at 0 (le32 w) = w"
  using from_le32_le32 [of w "[]"] by (simp_all add: word_at_def)

lemma word_at_skip: "length xs \<le> n \<Longrightarrow> word_at n (xs @ ys) = word_at (n - length xs) ys"
  by (simp add: word_at_def)

lemma word_at_Cons: "0 < n \<Longrightarrow> word_at n (x # xs) = word_at (n - 1) xs"
  by (simp add: word_at_def drop_Cons')

lemma length_char_field [simp]: "length (char_field n s) = n"
  by (simp add: char_field_def bytes_of_def)

lemma char_byte [simp]: "char_of (unat (word_of_nat (of_char c) :: UCHAR)) = c"
proof -
  have "char_of (of_char c mod 256 :: nat) = c" using char_of_mod_256 [of "of_char c :: nat"] by simp
  then show ?thesis by (simp add: unat_of_nat)
qed

lemma byte_nonzero: "c \<noteq> CHR 0x00 \<Longrightarrow> (word_of_nat (of_char c) :: UCHAR) \<noteq> 0"
proof
  assume "(word_of_nat (of_char c) :: UCHAR) = 0" and "c \<noteq> CHR 0x00"
  then show False using char_byte [of c] by (simp add: char_of_def)
qed

lemma string_at_bytes:
  assumes "CHR 0x00 \<notin> set s"
  shows "string_at 0 (bytes_of s @ 0 # xs) = s"
  using assms
proof (induction s)
  case (Cons c s)
  then show ?case using byte_nonzero [of c] by (auto simp: string_at_def bytes_of_def)
qed (simp add: string_at_def bytes_of_def)

lemma string_at_more: "CHR 0x00 \<notin> set s \<Longrightarrow> string_at 0 (bytes_of s @ xs) = s @ string_at 0 xs"
proof (induction s)
  case (Cons c s)
  then show ?case using byte_nonzero [of c] by (auto simp: string_at_def bytes_of_def)
qed (simp add: bytes_of_def)

lemma string_at_field:
  assumes "name_ok s"
  shows "string_at 0 (char_field MAX_READERNAME s @ xs) = s"
proof -
  have len: "length (bytes_of s) = length s" by (simp add: bytes_of_def)
  have n: "length s < 100" "CHR 0x00 \<notin> set s" using assms by (simp_all add: name_ok_def)
  obtain k where k: "100 - length s = Suc k" using n by (metis Suc_diff_Suc)
  have "char_field MAX_READERNAME s @ xs = bytes_of s @ 0 # replicate k 0 @ xs"
    using n len k by (simp add: char_field_def take_append)
  then show ?thesis using string_at_bytes [OF n(2)] by simp
qed

lemma string_at_full:
  assumes "CHR 0x00 \<notin> set s" and "length s = MAX_READERNAME"
  shows "string_at 0 (char_field MAX_READERNAME s @ xs) = s @ string_at 0 xs"
proof -
  have "char_field MAX_READERNAME s = bytes_of s" using assms(2) by (simp add: char_field_def bytes_of_def)
  then show ?thesis using string_at_more [OF assms(1)] by simp
qed

lemma string_at_zero: "string_at 0 (le32 m @ le32 p @ le32 0 @ xs) = string_at 0 (le32 m @ le32 p @ le32 0)"
  by (simp add: string_at_def le32_def takeWhile_append)

lemma string_at_skip: "length xs \<le> n \<Longrightarrow> string_at n (xs @ ys) = string_at (n - length xs) ys"
  by (simp add: string_at_def)

lemma int_field_word [simp]: "int_field x \<Longrightarrow> uint (word_of_int x :: DWORD) = x"
  by (simp add: int_field_def uint_word_of_int)

lemma signed_field: "- (2 ^ 31) \<le> x \<Longrightarrow> x < 2 ^ 31 \<Longrightarrow> sint (word_of_int x :: DWORD) = x"
  by (simp add: sint_sbintrunc' signed_take_bit_int_eq_self)

lemmas parse_simps = word_at_le32 word_at_skip word_at_Cons string_at_skip string_at_field signed_field

lemma struct_length: "well_formed req \<Longrightarrow> struct_size (unat (request_command req)) = Some (length (request_struct junk req))"
  by (cases req) (simp_all add: struct_size_def)

lemma parse_connect:
  assumes "name_sent name"
  shows "parse_struct 0x04 (request_struct junk (Connect h name m p act)) = heard (Connect h name m p act)"
proof (cases "length name = MAX_READERNAME")
  case True
  with assms have "string_at 0 (char_field MAX_READERNAME name @ xs) = name @ string_at 0 xs" for xs
    by (simp add: name_sent_def string_at_full)
  with True string_at_zero [of m p] show ?thesis by (simp add: parse_struct_def parse_simps)
next
  case False
  with assms have "name_ok name" by (simp add: name_sent_def name_ok_def)
  with False show ?thesis by (simp add: parse_struct_def parse_simps)
qed

lemma parse_request:
  assumes "well_formed req" and "request_tail req = None"
  shows "parse_struct (unat (request_command req)) (request_struct junk req) = heard req"
proof (cases "\<exists>h name m p act. req = Connect h name m p act")
  case True
  with assms parse_connect show ?thesis by (auto simp del: request_struct.simps)
next
  case False
  with assms show ?thesis by (cases req) (simp_all add: parse_struct_def parse_simps)
qed

lemma parse_exchange:
  "parse_struct 0x09 (request_struct junk (Transmit h sp rp m n body)) = Transmit h sp rp m n None"
  "parse_struct 0x0A (request_struct junk (Control h code m n body)) = Control h code m n None"
  by (simp_all add: parse_struct_def parse_simps)

subsection \<open>A request arrives\<close>

fun drop_body :: "request \<Rightarrow> request" where
  "drop_body (Transmit h sp rp m n _) = Transmit h sp rp m n None"
| "drop_body (Control h code m n _) = Control h code m n None"
| "drop_body req = heard req"

definition request_bytes :: "DWORD \<Rightarrow> request \<Rightarrow> UCHAR list" where
  "request_bytes junk req = rxHeader (word_of_nat (length (request_struct junk req))) (request_command req) @ request_struct junk req
     @ (case request_tail req of None \<Rightarrow> [] | Some body \<Rightarrow> body)"

lemma send_request_stream:
  assumes "accepts csys out"
    and "SHMMessageSend csys (rxHeader (word_of_nat (length (request_struct junk req))) (request_command req)) t s = Some (0, s1)"
    and "send_request csys junk req t s = Some (0, s2)"
  shows "out s2 = out s @ request_bytes junk req"
proof -
  from assms(2,3) obtain rv s3 where st: "SHMMessageSend csys (request_struct junk req) t s1 = Some (rv, s3)"
    and rest: "(case request_tail req of None \<Rightarrow> Some (rv, s3) | Some body \<Rightarrow> if rv = -1 then Some (-1, s3) else SHMMessageSend csys body t s3) = Some (0, s2)"
    by (auto simp: send_request_def SHMMessageSendWithHeader_bytes_def bind_eq_Some_conv)
  have rv: "rv = 0" using rest send_stream(3) [OF assms(1) st] by (auto split: option.splits if_splits)
  have "out s2 = out s3 @ (case request_tail req of None \<Rightarrow> [] | Some body \<Rightarrow> body)"
    using rest rv send_stream(2) [OF assms(1), of _ t s3 0 s2] by (auto split: option.splits)
  then show ?thesis using send_stream(2) [OF assms(1,2)] send_stream(2) [OF assms(1) st rv] by (simp add: request_bytes_def)
qed

lemma receive_exact:
  assumes "delivers sys inp" and "SHMMessageReceive_bytes sys (length bs) t s = Some (rv, b, s1)" and "inp s = bs @ rest" and "rv \<noteq> -1"
  shows "b = bs" "inp s1 = rest"
  using receive_stream(1,3,4) [OF assms(1,2)] assms(3,4) by (auto simp: append_eq_append_conv)

lemma receive_body_exact:
  assumes "delivers sys inp" and "well_formed req" and "inp s = (case request_tail req of None \<Rightarrow> [] | Some body \<Rightarrow> body) @ rest"
    and "receive_body sys t (drop_body req) s = Some (req1, s1)"
  shows "req1 = heard req \<and> inp s1 = rest \<or> request_tail req \<noteq> None \<and> req1 = drop_body req"
proof (cases "request_tail req")
  case None
  with assms have "receive_body sys t (heard req) s = Some (req1, s1)" by (cases req) (auto simp: body_ok_def)
  with None assms(2,3) show ?thesis by (cases req) (auto simp: receive_body_def body_ok_def)
next
  case (Some body)
  consider (transmit) h sp rp m n where "req = Transmit h sp rp m n (Some body)" | (control) h code m n where "req = Control h code m n (Some body)"
    using Some by (cases req) auto
  then show ?thesis
  proof cases
    case transmit
    with assms(2) have ok: "\<not> unat m > MAX_BUFFER_SIZE_EXTENDED" "\<not> unat n > MAX_BUFFER_SIZE_EXTENDED" "length body = unat m" by (auto simp: body_ok_def)
    with assms(4) transmit obtain rv bs where r: "SHMMessageReceive_bytes sys (length body) t s = Some (rv, bs, s1)"
      and q: "req1 = Transmit h sp rp m n (if rv = -1 then None else Some bs)" by (auto simp: receive_body_def bind_eq_Some_conv)
    show ?thesis using q transmit receive_exact [OF assms(1) r, of rest] assms(3) by auto
  next
    case control
    with assms(2) have ok: "\<not> unat m > MAX_BUFFER_SIZE_EXTENDED" "\<not> unat n > MAX_BUFFER_SIZE_EXTENDED" "length body = unat m" by (auto simp: body_ok_def)
    with assms(4) control obtain rv bs where r: "SHMMessageReceive_bytes sys (length body) t s = Some (rv, bs, s1)"
      and q: "req1 = Control h code m n (if rv = -1 then None else Some bs)" by (auto simp: receive_body_def bind_eq_Some_conv)
    show ?thesis using q control receive_exact [OF assms(1) r, of rest] assms(3) by auto
  qed
qed

lemma parse_drop_body: "well_formed req \<Longrightarrow> parse_struct (unat (request_command req)) (request_struct junk req) = drop_body req"
  using parse_request [of req junk] parse_exchange by (cases req) (auto simp: body_ok_def)

lemma struct_small: "well_formed req \<Longrightarrow> length (request_struct junk req) \<le> 280"
  by (cases req) simp_all

text \<open>C8: If the client library could send a request as a whole over a stream socket (its header too, the result of which \<^verbatim>\<open>SHMMessageSendWithHeader\<close> ignores),
  then what the thread of the daemon reads is the same request, field by field, with the bytes that follow it, and the stream is left at the next message; unless the
  daemon gives up waiting for the rest. One request is heard differently: in \<^verbatim>\<open>SCardConnect\<close> a reader name of exactly \<^verbatim>\<open>MAX_READERNAME\<close> characters, which the client accepts,
  is read on into the fields behind it.\<close>

theorem request_arrives:
  assumes "accepts csys out" and "delivers dsys inp" and "well_formed req"
    and "SHMMessageSend csys (rxHeader (word_of_nat (length (request_struct junk req))) (request_command req)) t s = Some (0, s1)"
    and "send_request csys junk req t s = Some (0, s2)"
    and "out s @ inp d = out s2 @ rest"
    and "receive_request dsys t1 d = Some (req1, d1)"
  shows "req1 = (case req of Connect h name m p act \<Rightarrow>
            Connect h (if length name = MAX_READERNAME then name @ string_at 0 (le32 m @ le32 p @ le32 0) else name) m p act | _ \<Rightarrow> req) \<and> inp d1 = rest
    \<or> req1 = Client_Died \<or> request_tail req \<noteq> None \<and> req1 = drop_body req"
proof -
  let ?st = "request_struct junk req" and ?cmd = "unat (request_command req)"
  let ?h = "rxHeader (word_of_nat (length ?st)) (request_command req)"
  let ?tail = "case request_tail req of None \<Rightarrow> [] | Some body \<Rightarrow> body"
  have stream: "inp d = ?h @ ?st @ ?tail @ rest"
    using send_request_stream [OF assms(1,4,5)] assms(6) by (simp add: request_bytes_def)
  have n: "struct_size ?cmd = Some (length ?st)" "length ?st \<le> 280" using struct_length [OF assms(3)] struct_small [OF assms(3)] by simp_all
  from assms(7) obtain rv h d2 where h: "SHMMessageReceive_bytes dsys (length ?h) t1 d = Some (rv, h, d2)"
    by (auto simp: receive_request_def bind_eq_Some_conv)
  show ?thesis
  proof (cases "rv = -1")
    case True
    with assms(7) h show ?thesis by (auto simp: receive_request_def)
  next
    case False
    note hh = receive_exact [OF assms(2) h stream False]
    have f: "unat (word_at 0 h) = length ?st" "word_at 4 h = request_command req"
      using n(2) by (simp_all add: hh(1) rxHeader_def word_at_le32 word_at_skip unat_of_nat)
    show ?thesis
    proof (cases "?cmd = 0x12")
      case True
      then have "req = Get_Readers_State" using assms(3) by (cases req) simp_all
      then show ?thesis using assms(7) h False f n hh(2) by (auto simp: receive_request_def)
    next
      case other: False
      with assms(7) h False f n obtain rv2 b d3 where b: "SHMMessageReceive_bytes dsys (length ?st) t1 d2 = Some (rv2, b, d3)"
        and r: "(if rv2 = -1 then Some (Client_Died, d3) else receive_body dsys t1 (parse_struct ?cmd b) d3) = Some (req1, d1)"
        by (auto simp: receive_request_def bind_eq_Some_conv)
      show ?thesis
      proof (cases "rv2 = -1")
        case False
        note bb = receive_exact [OF assms(2) b hh(2) False]
        have "receive_body dsys t1 (drop_body req) d3 = Some (req1, d1)" using r False bb(1) parse_drop_body [OF assms(3)] by simp
        from receive_body_exact [OF assms(2,3) bb(2) this] show ?thesis unfolding heard_cases by blast
      qed (use r in auto)
    qed
  qed
qed

text \<open>Through the pipe that takes three bytes at a time.\<close>

theorem request_arrives_witness:
  "\<exists>s2 d1. send_request pipe_system 0 (Begin_Transaction 0x1000A 0) 1000 \<lparr>pipe_bytes = [], pipe_time = 0\<rparr> = Some (0, s2)
    \<and> receive_request pipe_system 1000 s2 = Some (Begin_Transaction 0x1000A 0, d1) \<and> pipe_bytes d1 = []"
proof -
  let ?s = "\<lparr>pipe_bytes = [], pipe_time = 0\<rparr>" and ?req = "Begin_Transaction 0x1000A 0"
  let ?st = "request_struct 0 ?req" and ?h = "rxHeader (word_of_nat (length (request_struct 0 ?req))) (request_command ?req)"
  obtain s1 where s1: "SHMMessageSend pipe_system ?h 1000 ?s = Some (0, s1)" using pipe_sends [of ?h ?s] by auto
  obtain s2 where s2: "SHMMessageSend pipe_system ?st 1000 s1 = Some (0, s2)" using pipe_sends [of ?st s1] by auto
  have send: "send_request pipe_system 0 ?req 1000 ?s = Some (0, s2)"
    using s1 s2 by (simp add: send_request_def SHMMessageSendWithHeader_bytes_def)
  have bytes: "pipe_bytes s2 = ?h @ ?st @ []" using send_request_stream [OF pipe_stream(1) s1 send] by (simp add: request_bytes_def)
  obtain h d1 where h: "SHMMessageReceive_bytes pipe_system (length ?h) 1000 s2 = Some (0, h, d1)"
    using pipe_receives [of 8 s2] by (auto simp: bytes)
  note hh = receive_exact [OF pipe_stream(2) h bytes, simplified]
  obtain b d2 where b: "SHMMessageReceive_bytes pipe_system (length ?st) 1000 d1 = Some (0, b, d2)"
    using pipe_receives [of 8 d1] by (auto simp: hh(2))
  have bb: "b = ?st" using receive_exact(1) [OF pipe_stream(2) b, of "[]"] hh(2) by simp
  have f: "unat (word_at 0 h) = 8" "unat (word_at 4 h) = 7"
    by (simp_all add: hh(1) rxHeader_def word_at_le32 word_at_skip)
  have "parse_struct 7 ?st = ?req" using parse_request [of ?req 0] by (simp add: int_field_def)
  then have receive: "receive_request pipe_system 1000 s2 = Some (?req, d2)"
    using h b f bb by (simp add: receive_request_def struct_size_def receive_body_def)
  have "pipe_bytes ?s @ pipe_bytes s2 = pipe_bytes s2 @ []" by simp
  from request_arrives [OF pipe_stream _ s1 send this receive] send receive show ?thesis by (auto simp: int_field_def)
qed

end
