(* ===== verification/Ccid_Serial.thy ===== *)
theory Ccid_Serial
  imports Ccid_Device
begin

section \<open>Readers on a serial port (ccid: ccid\_serial.c)\<close>

text \<open>
  The serial build of the driver (\<^verbatim>\<open>TWIN_SERIAL\<close> defined): the frames of GemPC Twin readers, the read buffer of a port, the table
  \<^verbatim>\<open>serialDevice\<close> and the functions that open and close a port. The calls of the system are a parameter, the record
  \<open>'s serial_port\<close>, descriptors are integers. Pointers into the table are indices, \<open>None\<close> is NULL; the names of devices are allocated: \<open>device_names\<close> is the
  heap, in which a freed name is \<open>None\<close>. The fields \<open>bSeq\<close>, \<open>uninit\<close> and \<open>usb\<close> of a descriptor are not used: \<^verbatim>\<open>pbSeq\<close> points to a
  \<open>ser_real_bSeq\<close>. \<open>fresh\<close> is what new arrays contain. A call that does not return, or uses memory that it may not use, is \<open>None\<close>.
\<close>

abbreviation (input) GEMPCTWIN_MAXBUF :: nat where "GEMPCTWIN_MAXBUF \<equiv> 548"
abbreviation (input) SYNC :: UCHAR where "SYNC \<equiv> 0x03"
abbreviation (input) CTRL_ACK :: UCHAR where "CTRL_ACK \<equiv> 0x06"
abbreviation (input) CTRL_NAK :: UCHAR where "CTRL_NAK \<equiv> 0x15"
abbreviation (input) RDR_to_PC_NotifySlotChange :: UCHAR where "RDR_to_PC_NotifySlotChange \<equiv> 0x50"
abbreviation (input) GEMPCTWIN :: DWORD where "GEMPCTWIN \<equiv> 0x08E63437"
abbreviation (input) GEMPCPINPAD :: DWORD where "GEMPCPINPAD \<equiv> 0x08E63478"

subsection \<open>Ports\<close>

record termios =
  c_iflag :: DWORD
  c_oflag :: DWORD
  c_cflag :: DWORD
  c_lflag :: DWORD
  c_speed :: nat
  c_cc :: "UCHAR list"

text \<open>\<open>sp_select\<close> gets the seconds to wait and returns -1 (error), 0 (timeout) or 1; \<open>sp_read\<close> returns \<open>None\<close> for an error.\<close>

record 's serial_port =
  sp_open :: "string \<Rightarrow> 's \<Rightarrow> int \<times> 's"
  sp_close :: "int \<Rightarrow> 's \<Rightarrow> 's"
  sp_write :: "int \<Rightarrow> UCHAR list \<Rightarrow> 's \<Rightarrow> int \<times> 's"
  sp_select :: "int \<Rightarrow> DWORD \<Rightarrow> 's \<Rightarrow> int \<times> 's"
  sp_read :: "int \<Rightarrow> nat \<Rightarrow> 's \<Rightarrow> UCHAR list option \<times> 's"
  sp_get_signals :: "int \<Rightarrow> 's \<Rightarrow> DWORD option \<times> 's"
  sp_set_signals :: "int \<Rightarrow> DWORD \<Rightarrow> 's \<Rightarrow> 's"
  sp_tcflush :: "int \<Rightarrow> 's \<Rightarrow> 's"
  sp_tcgetattr :: "int \<Rightarrow> 's \<Rightarrow> termios option \<times> 's"
  sp_tcsetattr :: "int \<Rightarrow> termios \<Rightarrow> 's \<Rightarrow> bool \<times> 's"

record serial_device =
  ser_fd :: int
  ser_device :: "nat option"
  ser_real_nb_opened_slots :: int
  ser_nb_opened_slots :: "nat option"
  ser_echo :: bool
  ser_buffer :: "UCHAR list"
  ser_offset :: int
  ser_offset_last :: int
  ser_real_bSeq :: UCHAR
  ser_pbSeq :: "nat option"
  ser_ccid :: "unit ccid"

record 's serial_driver =
  serialDevice :: "serial_device list"
  ser_previous :: "nat option"
  device_names :: "string option list"
  serial_world :: 's

definition upd_serial :: "nat \<Rightarrow> (serial_device \<Rightarrow> serial_device) \<Rightarrow> 's serial_driver \<Rightarrow> 's serial_driver" where
  "upd_serial i f d = d\<lparr>serialDevice := upd_at i f (serialDevice d)\<rparr>"

definition upd_ser_ccid :: "nat \<Rightarrow> (unit ccid \<Rightarrow> unit ccid) \<Rightarrow> 's serial_driver \<Rightarrow> 's serial_driver" where
  "upd_ser_ccid i f = upd_serial i (\<lambda>x. x\<lparr>ser_ccid := f (ser_ccid x)\<rparr>)"

definition with_world :: "'s serial_driver \<Rightarrow> 's \<Rightarrow> 's serial_driver" where
  "with_world d s = d\<lparr>serial_world := s\<rparr>"

definition get_ccid_descriptor_serial :: "nat \<Rightarrow> 's serial_driver \<Rightarrow> unit ccid" where
  "get_ccid_descriptor_serial i d = ser_ccid (serialDevice d ! i)"

subsection \<open>Sending\<close>

definition serial_frame :: "UCHAR list \<Rightarrow> UCHAR list" where
  "serial_frame message = (let b = [SYNC, CTRL_ACK] @ message in b @ [foldl (XOR) 0 b])"

definition WriteSerial :: "'s serial_port \<Rightarrow> nat \<Rightarrow> UCHAR list \<Rightarrow> 's serial_driver \<Rightarrow> status_t \<times> 's serial_driver" where
  "WriteSerial sys i message d =
    (if GEMPCTWIN_MAXBUF - 3 < length message then (STATUS_UNSUCCESSFUL, d)
     else let (n, s) = sp_write sys (ser_fd (serialDevice d ! i)) (serial_frame message) (serial_world d) in
       (if n \<noteq> int (length message + 3) then STATUS_UNSUCCESSFUL else STATUS_SUCCESS, with_world d s))"

subsection \<open>Receiving\<close>

text \<open>\<open>buffer\<close> is the buffer of the port, \<open>already\<close> the number of bytes in it. The result is -1 or the number of bytes.\<close>

partial_function (option) read_chunk :: "'s serial_port \<Rightarrow> int \<Rightarrow> DWORD \<Rightarrow> int \<Rightarrow> nat \<Rightarrow> UCHAR list \<Rightarrow> 's \<Rightarrow> (int \<times> UCHAR list \<times> 's) option" where
  "read_chunk sys fd timeout min_length already buffer s =
    (if min_length \<le> int already then Some (int already, buffer, s)
     else
       let i = fst (sp_select sys fd timeout s); s1 = snd (sp_select sys fd timeout s); r = sp_read sys fd (length buffer - already) s1 in
       if i = -1 \<or> i = 0 then Some (-1, buffer, s1)
       else (case fst r of
           None \<Rightarrow> Some (-1, buffer, snd r)
         | Some bs \<Rightarrow>
            let got = take (length buffer - already) bs in
            read_chunk sys fd timeout min_length (already + length got) (store already got buffer) (snd r)))"

definition ReadChunk :: "'s serial_port \<Rightarrow> nat \<Rightarrow> int \<Rightarrow> 's serial_driver \<Rightarrow> (int \<times> 's serial_driver) option" where
  "ReadChunk sys i min_length d =
    (let x = serialDevice d ! i in do {
       (rv, buffer, s) \<leftarrow> read_chunk sys (ser_fd x) (readTimeout (ser_ccid x)) min_length 0 (ser_buffer x) (serial_world d);
       Some (rv, with_world (upd_serial i (\<lambda>x. x\<lparr>ser_buffer := buffer\<rparr>) d) s)
     })"

text \<open>The second result is what was written to the buffer of the caller, which has room for \<open>room\<close> bytes.\<close>

definition get_bytes :: "'s serial_port \<Rightarrow> nat \<Rightarrow> nat \<Rightarrow> int \<Rightarrow> 's serial_driver \<Rightarrow> (status_t \<times> UCHAR list \<times> 's serial_driver) option" where
  "get_bytes sys i room n d =
    (let x = serialDevice d ! i; available = drop (nat (ser_offset x)) (ser_buffer x); present = ser_offset_last x - ser_offset x in
     if ser_offset x + n \<le> ser_offset_last x then
       if n < 0 \<or> int room < n \<or> int (length available) < n then None
       else Some (STATUS_SUCCESS, take (nat n) available, upd_serial i (\<lambda>x. x\<lparr>ser_offset := ser_offset x + n\<rparr>) d)
     else if int room < present \<or> int (length available) < present then None
     else do {
       (rv, d1) \<leftarrow> ReadChunk sys i (n - present) d;
       if rv < 0 then Some (STATUS_COMM_ERROR, take (nat present) available, d1)
       else if int room < n then None
       else Some (STATUS_SUCCESS, take (nat present) available @ take (nat (n - present)) (ser_buffer (serialDevice d1 ! i)),
         upd_serial i (\<lambda>x. x\<lparr>ser_offset := n - present, ser_offset_last := rv\<rparr>) d1)
     })"

text \<open>The labels of \<^verbatim>\<open>ReadSerial\<close>. \<open>serial_read\<close> holds its variable \<^verbatim>\<open>echo\<close> and its arguments; \<open>Restart\<close> is a jump to \<^verbatim>\<open>start\<close>. The checksum is only
  computed for a message to the log.\<close>

record serial_read =
  echo :: bool
  read_length :: DWORD
  read_buffer :: "UCHAR list"

datatype turn = Restart | Return status_t

definition one_byte :: "'s serial_port \<Rightarrow> nat \<Rightarrow> 's serial_driver \<Rightarrow> (UCHAR \<Rightarrow> 's serial_driver \<Rightarrow> (turn \<times> serial_read \<times> 's serial_driver) option)
    \<Rightarrow> serial_read \<Rightarrow> (turn \<times> serial_read \<times> 's serial_driver) option" where
  "one_byte sys i d f r = do {
     (rv, bs, d1) \<leftarrow> get_bytes sys i 1 1 d;
     if rv \<noteq> STATUS_SUCCESS then Some (Return rv, r, d1) else f (bs ! 0) d1
   }"

definition serial_slot_change :: "'s serial_port \<Rightarrow> nat \<Rightarrow> serial_read \<Rightarrow> 's serial_driver \<Rightarrow> (turn \<times> serial_read \<times> 's serial_driver) option" where
  "serial_slot_change sys i r d = one_byte sys i d (\<lambda>c d1. Some (Restart, r, d1)) r"

definition serial_nak :: "'s serial_port \<Rightarrow> nat \<Rightarrow> serial_read \<Rightarrow> 's serial_driver \<Rightarrow> (turn \<times> serial_read \<times> 's serial_driver) option" where
  "serial_nak sys i r d =
     one_byte sys i d (\<lambda>c d1. Some (Return (if c \<noteq> SYNC XOR CTRL_NAK then STATUS_COMM_ERROR else STATUS_COMM_NAK), r, d1)) r"

definition serial_lrc :: "'s serial_port \<Rightarrow> nat \<Rightarrow> DWORD \<Rightarrow> serial_read \<Rightarrow> 's serial_driver \<Rightarrow> (turn \<times> serial_read \<times> 's serial_driver) option" where
  "serial_lrc sys i to_read r d = one_byte sys i d (\<lambda>lrc d1.
     if echo r then Some (Restart, r\<lparr>echo := False\<rparr>, d1) else Some (Return STATUS_SUCCESS, r\<lparr>read_length := to_read\<rparr>, d1)) r"

definition serial_ack :: "'s serial_port \<Rightarrow> nat \<Rightarrow> serial_read \<Rightarrow> 's serial_driver \<Rightarrow> (turn \<times> serial_read \<times> 's serial_driver) option" where
  "serial_ack sys i r d = do {
     (rv, bs, d1) \<leftarrow> get_bytes sys i (length (read_buffer r)) 5 d;
     let r1 = r\<lparr>read_buffer := store 0 bs (read_buffer r)\<rparr>;
     if rv \<noteq> STATUS_SUCCESS then Some (Return rv, r1, d1)
     else do {
       let to_read = 10 + dw2i (read_buffer r1) 1;
       (rv, bs, d2) \<leftarrow> get_bytes sys i (length (read_buffer r1) - 5) (sint to_read - 5) d1;
       let r2 = r1\<lparr>read_buffer := store 5 bs (read_buffer r1)\<rparr>;
       if rv \<noteq> STATUS_SUCCESS then Some (Return rv, r2, d2)
       else serial_lrc sys i to_read r2 d2
     }
   }"

definition serial_sync :: "'s serial_port \<Rightarrow> nat \<Rightarrow> serial_read \<Rightarrow> 's serial_driver \<Rightarrow> (turn \<times> serial_read \<times> 's serial_driver) option" where
  "serial_sync sys i r d = one_byte sys i d (\<lambda>c d1.
     if c = CTRL_ACK then serial_ack sys i r d1
     else if c = CTRL_NAK then serial_nak sys i r d1
     else Some (Return STATUS_COMM_ERROR, r, d1)) r"

definition serial_start :: "'s serial_port \<Rightarrow> nat \<Rightarrow> serial_read \<Rightarrow> 's serial_driver \<Rightarrow> (turn \<times> serial_read \<times> 's serial_driver) option" where
  "serial_start sys i r d = one_byte sys i d (\<lambda>c d1.
     if c = RDR_to_PC_NotifySlotChange then serial_slot_change sys i r d1
     else if c = SYNC then serial_sync sys i r d1
     else if 0x80 \<le> c then Some (Restart, r, d1)
     else Some (Return STATUS_COMM_ERROR, r, d1)) r"

partial_function (option) serial_loop :: "'s serial_port \<Rightarrow> nat \<Rightarrow> serial_read \<Rightarrow> 's serial_driver \<Rightarrow> (status_t \<times> serial_read \<times> 's serial_driver) option" where
  "serial_loop sys i r d = do {
     (t, r1, d1) \<leftarrow> serial_start sys i r d;
     (case t of Restart \<Rightarrow> serial_loop sys i r1 d1 | Return st \<Rightarrow> Some (st, r1, d1))
   }"

definition ReadSerial :: "'s serial_port \<Rightarrow> nat \<Rightarrow> DWORD \<Rightarrow> UCHAR list \<Rightarrow> 's serial_driver \<Rightarrow> (status_t \<times> DWORD \<times> UCHAR list \<times> 's serial_driver) option" where
  "ReadSerial sys i len buffer d = do {
     (st, r, d1) \<leftarrow> serial_loop sys i \<lparr>echo = ser_echo (serialDevice d ! i), read_length = len, read_buffer = buffer\<rparr> d;
     Some (st, read_length r, read_buffer r, d1)
   }"

subsection \<open>Commands to the reader (commands.c)\<close>

definition serial_seq :: "nat \<Rightarrow> 's serial_driver \<Rightarrow> (UCHAR \<times> 's serial_driver) option" where
  "serial_seq i d = do {
     p \<leftarrow> ser_pbSeq (serialDevice d ! i);
     Some (ser_real_bSeq (serialDevice d ! p), upd_serial p (\<lambda>x. x\<lparr>ser_real_bSeq := ser_real_bSeq x + 1\<rparr>) d)
   }"

partial_function (option) escape_serial :: "'s serial_port \<Rightarrow> nat \<Rightarrow> UCHAR list \<Rightarrow> UCHAR list \<Rightarrow> DWORD \<Rightarrow> (nat \<Rightarrow> UCHAR) \<Rightarrow> 's serial_driver
    \<Rightarrow> (LONG \<times> DWORD \<times> UCHAR list \<times> 's serial_driver) option" where
  "escape_serial sys i TxBuffer RxBuffer RxLength fresh d = do {
     (seq, d1) \<leftarrow> serial_seq i d;
     let cmd_in = [0x6B] @ i2dw (word_of_nat (length TxBuffer)) @ [bCurrentSlotIndex (get_ccid_descriptor_serial i d), seq, 0, 0, 0] @ TxBuffer;
     let w = WriteSerial sys i cmd_in d1;
     if fst w \<noteq> STATUS_SUCCESS then Some (IFD_COMMUNICATION_ERROR, RxLength, RxBuffer, snd w)
     else do {
       (res, length_out, cmd_out, d2) \<leftarrow> ReadSerial sys i (10 + RxLength) (map fresh [0..<unat (10 + RxLength)]) (snd w);
       if res = STATUS_COMM_NAK then escape_serial sys i TxBuffer RxBuffer RxLength fresh d2
       else if res \<noteq> STATUS_SUCCESS \<or> length_out < 8 then Some (IFD_COMMUNICATION_ERROR, RxLength, RxBuffer, d2)
       else
         let n = (if RxLength < dw2i cmd_out 1 then RxLength else dw2i cmd_out 1) in
         if length cmd_out < 10 + unat n \<or> length RxBuffer < unat n then None
         else Some (if flag (cmd_out ! STATUS_OFFSET) CCID_COMMAND_FAILED then IFD_COMMUNICATION_ERROR else IFD_SUCCESS,
           n, store 0 (take (unat n) (drop 10 cmd_out)) RxBuffer, d2)
     }
   }"

definition CmdEscape_serial :: "'s serial_port \<Rightarrow> nat \<Rightarrow> UCHAR list \<Rightarrow> UCHAR list \<Rightarrow> DWORD \<Rightarrow> (nat \<Rightarrow> UCHAR) \<Rightarrow> 's serial_driver
    \<Rightarrow> (LONG \<times> DWORD \<times> UCHAR list \<times> 's serial_driver) option" where
  "CmdEscape_serial sys i TxBuffer RxBuffer RxLength fresh d = do {
     let old = readTimeout (get_ccid_descriptor_serial i d);
     (rv, n, b, d1) \<leftarrow> escape_serial sys i TxBuffer RxBuffer RxLength fresh (upd_ser_ccid i (\<lambda>c. c\<lparr>readTimeout := 30\<rparr>) d);
     Some (rv, n, b, upd_ser_ccid i (\<lambda>c. c\<lparr>readTimeout := old\<rparr>) d1)
   }"

subsection \<open>Opening and closing a port\<close>

definition SerialTwinDataRates :: "DWORD list" where
  "SerialTwinDataRates = [10753, 14337, 15625, 17204, 20833, 21505, 23438, 25806, 28674, 31250, 32258, 34409, 39063, 41667,
     43011, 46875, 52083, 53763, 57348, 62500, 64516, 68817, 71685, 78125, 83333, 86022, 93750, 104167, 107527,
     114695, 125000, 129032, 143369, 156250, 166667, 172043, 215054, 229391, 250000, 344086]"

definition SerialExtendedDataRates :: "DWORD list" where
  "SerialExtendedDataRates = SerialTwinDataRates @ [500000]"

definition SerialCustomDataRates :: "DWORD list" where
  "SerialCustomDataRates = [10753, 21505, 43011, 125000]"

definition to_lower :: "char \<Rightarrow> char" where
  "to_lower c = (let n = (of_char c :: nat) in if 65 \<le> n \<and> n \<le> 90 then char_of (n + 32) else c)"

definition strcasecmp_eq :: "string \<Rightarrow> string \<Rightarrow> bool" where
  "strcasecmp_eq a b \<longleftrightarrow> map to_lower a = map to_lower b"

text \<open>A string in the heap; a freed one must not be read.\<close>

definition name_of :: "'s serial_driver \<Rightarrow> nat \<Rightarrow> string option" where
  "name_of d a = (if a < length (device_names d) then device_names d ! a else None)"

fun already_used :: "'s serial_driver \<Rightarrow> string \<Rightarrow> serial_device list \<Rightarrow> bool option" where
  "already_used d dev_name [] = Some False"
| "already_used d dev_name (x # xs) =
    (case ser_device x of
       None \<Rightarrow> already_used d dev_name xs
     | Some a \<Rightarrow> do { name \<leftarrow> name_of d a; if name = dev_name then Some True else already_used d dev_name xs })"

definition serial_readerID :: "string \<Rightarrow> DWORD" where
  "serial_readerID reader_name =
    (if strcasecmp_eq reader_name ''GemCorePOSPro'' then GEMCOREPOSPRO
     else if strcasecmp_eq reader_name ''GemCoreSIMPro'' then GEMCORESIMPRO
     else if strcasecmp_eq reader_name ''GemPCPinPad'' then GEMPCPINPAD
     else GEMPCTWIN)"

text \<open>The entry that can be shared by another slot.\<close>

definition reusable :: "'s serial_driver \<Rightarrow> string \<Rightarrow> nat option option" where
  "reusable d dev_name =
    (case ser_previous d of
       None \<Rightarrow> Some None
     | Some p \<Rightarrow>
        let x = serialDevice d ! p; c = ser_ccid x in
        (case ser_device x of
           None \<Rightarrow> Some None
         | Some a \<Rightarrow> do {
             name \<leftarrow> name_of d a;
             Some (if name = dev_name \<and> sint (bCurrentSlotIndex c) < sint (bMaxSlotIndex c) then Some p else None)
           }))"

definition secondary_slot :: "nat \<Rightarrow> nat \<Rightarrow> DWORD \<Rightarrow> 's serial_driver \<Rightarrow> 's serial_driver option" where
  "secondary_slot i p reader d = do {
     let x = serialDevice d ! p;
     let d1 = upd_serial i (\<lambda>_. x) d;
     k \<leftarrow> ser_nb_opened_slots x;
     let d2 = upd_serial k (\<lambda>y. y\<lparr>ser_real_nb_opened_slots := ser_real_nb_opened_slots y + 1\<rparr>) d1;
     Some (upd_ser_ccid i (\<lambda>c. (if reader = GEMCOREPOSPRO \<or> reader = GEMCORESIMPRO
         then c\<lparr>arrayOfSupportedDataRates := Some SerialCustomDataRates, dwMaxDataRate := 125000\<rparr>
         else c\<lparr>arrayOfSupportedDataRates := Some SerialTwinDataRates, dwMaxDataRate := 344086\<rparr>)
       \<lparr>bCurrentSlotIndex := bCurrentSlotIndex c + 1\<rparr>) d2)
   }"

text \<open>The values of a new entry, first those common to all readers.\<close>

definition first_slot :: "nat \<Rightarrow> DWORD \<Rightarrow> serial_device \<Rightarrow> serial_device" where
  "first_slot i reader x =
    x\<lparr>ser_real_bSeq := 0, ser_pbSeq := Some i, ser_real_nb_opened_slots := 1, ser_nb_opened_slots := Some i,
      ser_offset := 0, ser_offset_last := 0, ser_echo := reader \<noteq> GEMCOREPOSPRO \<and> reader \<noteq> GEMCORESIMPRO,
      ser_ccid := (ser_ccid x)\<lparr>bCurrentSlotIndex := 0, dwMaxCCIDMessageLength := 271, dwMaxIFSD := 254, dwFeatures := 0x00010230,
        dwDefaultClock := 4000, readerID := reader, bPINSupport := (if reader = GEMPCPINPAD then 3 else 0),
        dwMaxDataRate := (if reader = GEMPCTWIN then 344086 else 500000),
        bMaxSlotIndex := (if reader = GEMCOREPOSPRO then 4 else if reader = GEMCORESIMPRO then 1 else 0),
        arrayOfSupportedDataRates := Some (if reader = GEMPCTWIN then SerialTwinDataRates else SerialExtendedDataRates),
        dwSlotStatus := IFD_ICC_PRESENT, bVoltageSupport := 7\<rparr>\<rparr>"

definition set_ccid_descriptor :: "nat \<Rightarrow> string \<Rightarrow> string \<Rightarrow> 's serial_driver \<Rightarrow> (status_t \<times> 's serial_driver) option" where
  "set_ccid_descriptor i reader_name dev_name d = do {
     let reader = serial_readerID reader_name;
     used \<leftarrow> already_used d dev_name (serialDevice d);
     if used then do {
       r \<leftarrow> reusable d dev_name;
       (case r of
          None \<Rightarrow> Some (STATUS_UNSUCCESSFUL, d)
        | Some p \<Rightarrow> do {
            d1 \<leftarrow> secondary_slot i p reader d;
            Some (STATUS_SECONDARY_SLOT, d1\<lparr>ser_previous := Some i\<rparr>)
          })
     }
     else Some (STATUS_SUCCESS, (upd_serial i (first_slot i reader) d)\<lparr>ser_previous := Some i\<rparr>)
   }"

text \<open>A name that is freed twice has no result.\<close>

definition CloseSerial :: "'s serial_port \<Rightarrow> nat \<Rightarrow> 's serial_driver \<Rightarrow> (status_t \<times> 's serial_driver) option" where
  "CloseSerial sys i d =
    (let x = serialDevice d ! i in
     case ser_device x of
       None \<Rightarrow> Some (STATUS_UNSUCCESSFUL, d)
     | Some a \<Rightarrow> do {
         k \<leftarrow> ser_nb_opened_slots x;
         let d1 = upd_serial k (\<lambda>y. y\<lparr>ser_real_nb_opened_slots := ser_real_nb_opened_slots y - 1\<rparr>) d;
         if ser_real_nb_opened_slots (serialDevice d1 ! k) = 0 then do {
           name \<leftarrow> name_of d a;
           Some (STATUS_SUCCESS,
             (upd_serial i (\<lambda>y. y\<lparr>ser_fd := -1, ser_device := None\<rparr>) (with_world d1 (sp_close sys (ser_fd x) (serial_world d1))))
               \<lparr>device_names := (device_names d1)[a := None]\<rparr>)
         }
         else Some (STATUS_SUCCESS, d1)
       })"

text \<open>The plug and play string of the reader is suppressed; errors are ignored.\<close>

definition inhibit_pnp :: "'s serial_port \<Rightarrow> int \<Rightarrow> 's \<Rightarrow> 's" where
  "inhibit_pnp sys fd s =
    (case sp_get_signals sys fd s of (None, s1) \<Rightarrow> s1 | (Some flags, s1) \<Rightarrow> sp_set_signals sys fd (flags AND NOT 4) s1)"

definition raw_mode :: "termios \<Rightarrow> termios" where
  "raw_mode t = t\<lparr>c_iflag := 0x1 OR 0x4, c_oflag := 0, c_cflag := 0x30 OR 0x40 OR 0x80 OR 0x800, c_lflag := 0, c_speed := 115200\<rparr>"

definition close_fd :: "'s serial_port \<Rightarrow> nat \<Rightarrow> 's serial_driver \<Rightarrow> 's serial_driver" where
  "close_fd sys i d =
     upd_serial i (\<lambda>x. x\<lparr>ser_fd := -1\<rparr>) (with_world d (sp_close sys (ser_fd (serialDevice d ! i)) (serial_world d)))"

text \<open>The attributes of the port: failing to set them closes the descriptor and leaves the rest of the entry.\<close>

definition configure :: "'s serial_port \<Rightarrow> nat \<Rightarrow> 's serial_driver \<Rightarrow> bool \<times> 's serial_driver" where
  "configure sys i d =
    (let fd = ser_fd (serialDevice d ! i) in
     case sp_tcgetattr sys fd (sp_tcflush sys fd (serial_world d)) of
       (None, s) \<Rightarrow> (False, close_fd sys i (with_world d s))
     | (Some t, s) \<Rightarrow>
        (case sp_tcsetattr sys fd (raw_mode t) s of
           (False, s1) \<Rightarrow> (False, close_fd sys i (with_world d s1)) | (True, s1) \<Rightarrow> (True, with_world d s1)))"

text \<open>Two commands to the reader: for its firmware, which the caller terminates by a null byte, and for its notifications.\<close>

definition greet :: "'s serial_port \<Rightarrow> nat \<Rightarrow> (nat \<Rightarrow> UCHAR) \<Rightarrow> 's serial_driver \<Rightarrow> (status_t \<times> 's serial_driver) option" where
  "greet sys i fresh d = do {
     (rv, rx_length, rx_buffer, d1) \<leftarrow> CmdEscape_serial sys i [0x02] (map fresh [0..<50]) 50 fresh
        (upd_ser_ccid i (\<lambda>c. c\<lparr>readTimeout := 2\<rparr>) d);
     if rv \<noteq> IFD_SUCCESS then map_option (\<lambda>(_, d2). (STATUS_UNSUCCESSFUL, d2)) (CloseSerial sys i d1)
     else if 50 \<le> unat rx_length then None
     else do {
       (rv, rx_length, rx_buffer, d2) \<leftarrow> CmdEscape_serial sys i [0x01, 0x01, 0x01] (map fresh [0..<50]) 50 fresh
          (upd_ser_ccid i (\<lambda>c. c\<lparr>readTimeout := DEFAULT_COM_READ_TIMEOUT\<rparr>) d1);
       if rv \<noteq> IFD_SUCCESS then map_option (\<lambda>(_, d3). (STATUS_UNSUCCESSFUL, d3)) (CloseSerial sys i d2)
       else Some (STATUS_SUCCESS, d2)
     }
   }"

definition open_port :: "'s serial_port \<Rightarrow> nat \<Rightarrow> string \<Rightarrow> (nat \<Rightarrow> UCHAR) \<Rightarrow> 's serial_driver \<Rightarrow> (status_t \<times> 's serial_driver) option" where
  "open_port sys i dev_name fresh d =
    (let (fd, s) = sp_open sys dev_name (serial_world d); d1 = upd_serial i (\<lambda>x. x\<lparr>ser_fd := fd\<rparr>) (with_world d s) in
     if fd = -1 then Some (STATUS_UNSUCCESSFUL, d1)
     else
       let d2 = with_world d1 (inhibit_pnp sys fd s);
           d3 = (upd_serial i (\<lambda>x. x\<lparr>ser_device := Some (length (device_names d2))\<rparr>) d2)\<lparr>device_names := device_names d2 @ [Some dev_name]\<rparr>;
           (ok, d4) = configure sys i d3 in
       if \<not> ok then Some (STATUS_UNSUCCESSFUL, d4) else greet sys i fresh d4)"

text \<open>The name is \<^verbatim>\<open>device:reader\<close>; the reader is a GemPC Twin when it is not given.\<close>

definition split_name :: "string \<Rightarrow> string \<times> string" where
  "split_name name =
    (case strchr (CHR '':'') name of
       None \<Rightarrow> (name, ''GemPCTwin'')
     | Some r \<Rightarrow> (takeWhile (\<lambda>c. c \<noteq> CHR '':'') name, take 200 (tl r)))"

definition OpenSerialByName :: "'s serial_port \<Rightarrow> nat \<Rightarrow> string \<Rightarrow> (nat \<Rightarrow> UCHAR) \<Rightarrow> 's serial_driver \<Rightarrow> (status_t \<times> 's serial_driver) option" where
  "OpenSerialByName sys i name fresh d = do {
     let (dev_name, reader_name) = split_name name;
     (ret, d1) \<leftarrow> set_ccid_descriptor i reader_name dev_name d;
     if ret = STATUS_UNSUCCESSFUL then Some (STATUS_UNSUCCESSFUL, d1)
     else if ret = STATUS_SECONDARY_SLOT then Some (STATUS_SUCCESS, d1)
     else open_port sys i dev_name fresh d1
   }"

function decimal :: "nat \<Rightarrow> string" where
  "decimal n = (if n < 10 then [char_of (48 + n)] else decimal (n div 10) @ [char_of (48 + n mod 10)])"
  by pat_completeness auto

termination by (relation "measure id") auto

definition OpenSerial :: "'s serial_port \<Rightarrow> nat \<Rightarrow> int \<Rightarrow> (nat \<Rightarrow> UCHAR) \<Rightarrow> 's serial_driver \<Rightarrow> (status_t \<times> 's serial_driver) option" where
  "OpenSerial sys i channel fresh d =
    (let port_no = (if channel = 0x0103F8 then 1 else if channel = 0x0102F8 then 2 else if channel = 0x0103E8 then 3
                    else if channel = 0x0102E8 then 4 else channel) in
     if port_no < 0 then Some (STATUS_UNSUCCESSFUL, d)
     else OpenSerialByName sys i (''/dev/pcsc/'' @ decimal (nat port_no)) fresh d)"

end
