(* ===== verification/Ccid_Serial_Inv.thy ===== *)
theory Ccid_Serial_Inv
  imports Ccid_Serial Interfaces
begin

section \<open>What the serial port does\<close>

text \<open>
  The read buffer of a port and the stream of bytes behind it are one stream: messages arrive behind the echo of the command and behind
  notifications, in whatever chunks the port delivers them. The table of ports stays well formed, its strings do not.
\<close>

subsection \<open>The tables\<close>

definition serial_init :: "'s \<Rightarrow> 's serial_driver" where
  "serial_init s = \<lparr>serialDevice = replicate CCID_DRIVER_MAX_READERS
     \<lparr>ser_fd = 0, ser_device = None, ser_real_nb_opened_slots = 0, ser_nb_opened_slots = None, ser_echo = False,
      ser_buffer = replicate GEMPCTWIN_MAXBUF 0, ser_offset = 0, ser_offset_last = 0, ser_real_bSeq = 0, ser_pbSeq = None,
      ser_ccid = \<lparr>bSeq = 0, readerID = 0, dwMaxCCIDMessageLength = 0, dwMaxIFSD = 0, dwFeatures = 0, bPINSupport = 0, wLcdLayout = 0,
        dwDefaultClock = 0, dwMaxDataRate = 0, bMaxSlotIndex = 0, bCurrentSlotIndex = 0, arrayOfSupportedDataRates = None, readTimeout = 0,
        ccid_cardProtocol = 0, bInterfaceProtocol = 0, bNumEndpoints = 0, dwSlotStatus = 0, bVoltageSupport = 0, uninit = \<lambda>_. 0, usb = ()\<rparr>\<rparr>,
     ser_previous = None, device_names = [], serial_world = s\<rparr>"

definition device_ok :: "serial_device \<Rightarrow> bool" where
  "device_ok x \<longleftrightarrow> length (ser_buffer x) = GEMPCTWIN_MAXBUF \<and> 0 \<le> ser_offset x \<and> ser_offset x \<le> ser_offset_last x
     \<and> ser_offset_last x \<le> int GEMPCTWIN_MAXBUF
     \<and> pred_option (\<lambda>k. k < CCID_DRIVER_MAX_READERS) (ser_nb_opened_slots x) \<and> pred_option (\<lambda>k. k < CCID_DRIVER_MAX_READERS) (ser_pbSeq x)
     \<and> (ser_device x \<noteq> None \<longrightarrow> ser_nb_opened_slots x \<noteq> None \<and> ser_pbSeq x \<noteq> None)"

definition serial_ok :: "'s serial_driver \<Rightarrow> bool" where
  "serial_ok d \<longleftrightarrow> length (serialDevice d) = CCID_DRIVER_MAX_READERS \<and> list_all device_ok (serialDevice d)
     \<and> pred_option (\<lambda>k. k < CCID_DRIVER_MAX_READERS) (ser_previous d)"

lemma serial_ok_nth: "serial_ok d \<Longrightarrow> i < 16 \<Longrightarrow> device_ok (serialDevice d ! i)"
  by (simp add: serial_ok_def list_all_length)

lemma serial_ok_upd: "serial_ok d \<Longrightarrow> i < 16 \<Longrightarrow> (device_ok (serialDevice d ! i) \<Longrightarrow> device_ok (f (serialDevice d ! i))) \<Longrightarrow> serial_ok (upd_serial i f d)"
  by (auto simp: serial_ok_def upd_serial_def list_all_length upd_at_nth)

lemma serial_ok_simps [simp]:
  "serial_ok (with_world d s) = serial_ok d"
  "serial_ok (d\<lparr>device_names := ns\<rparr>) = serial_ok d"
  "i < 16 \<Longrightarrow> serial_ok d \<Longrightarrow> serial_ok (d\<lparr>ser_previous := Some i\<rparr>)"
  by (simp_all add: serial_ok_def with_world_def)

lemma with_world_simps [simp]:
  "serialDevice (with_world d s) = serialDevice d" "serial_world (with_world d s) = s" "device_names (with_world d s) = device_names d"
  "ser_previous (with_world d s) = ser_previous d"
  by (simp_all add: with_world_def)

lemma upd_serial_simps [simp]:
  "length (serialDevice (upd_serial i f d)) = length (serialDevice d)"
  "i < length (serialDevice d) \<Longrightarrow> serialDevice (upd_serial i f d) ! i = f (serialDevice d ! i)"
  "j \<noteq> i \<Longrightarrow> serialDevice (upd_serial i f d) ! j = serialDevice d ! j"
  "serial_world (upd_serial i f d) = serial_world d" "device_names (upd_serial i f d) = device_names d"
  "ser_previous (upd_serial i f d) = ser_previous d"
  by (simp_all add: upd_serial_def)

lemma serial_ok_ccid [simp]: "serial_ok d \<Longrightarrow> i < 16 \<Longrightarrow> serial_ok (upd_ser_ccid i f d)"
  unfolding upd_ser_ccid_def by (rule serial_ok_upd) (simp_all add: device_ok_def)

lemma WriteSerial_ok [simp]: "serial_ok (snd (WriteSerial sys i m d)) = serial_ok d"
  by (simp add: WriteSerial_def split: prod.split)

lemma read_chunk_bounds:
  assumes "read_chunk sys fd t m a b s = Some (rv, b1, s1)" and "a \<le> length b"
  shows "length b1 = length b \<and> rv \<le> int (length b) \<and> (rv = -1 \<or> m \<le> rv)"
proof (rule read_chunk.raw_induct [OF _ assms(1), where P = "\<lambda>sys fd t m a b s y. a \<le> length b \<longrightarrow>
    length (fst (snd y)) = length b \<and> fst y \<le> int (length b) \<and> (fst y = -1 \<or> m \<le> fst y)", simplified fst_conv snd_conv, rule_format])
  fix chunk sys and fd :: int and t :: DWORD and m :: int and a :: nat and b :: "UCHAR list" and s :: 'a and y :: "int \<times> UCHAR list \<times> 'a"
  let ?i = "fst (sp_select sys fd t s)" and ?r = "sp_read sys fd (length b - a) (snd (sp_select sys fd t s))"
  assume IH: "\<And>sys fd t m a b s y. chunk sys fd t m a b s = Some y \<Longrightarrow> a \<le> length b \<Longrightarrow>
      length (fst (snd y)) = length b \<and> fst y \<le> int (length b) \<and> (fst y = -1 \<or> m \<le> fst y)"
    and run: "(if m \<le> int a then Some (int a, b, s)
      else let i = fst (sp_select sys fd t s); s1 = snd (sp_select sys fd t s); r = sp_read sys fd (length b - a) s1 in
        if i = -1 \<or> i = 0 then Some (-1, b, s1)
        else (case fst r of None \<Rightarrow> Some (-1, b, snd r)
          | Some bs \<Rightarrow> let got = take (length b - a) bs in chunk sys fd t m (a + length got) (store a got b) (snd r))) = Some y"
    and a: "a \<le> length b"
  show "length (fst (snd y)) = length b \<and> fst y \<le> int (length b) \<and> (fst y = -1 \<or> m \<le> fst y)"
  proof (cases "m \<le> int a \<or> ?i = -1 \<or> ?i = 0 \<or> fst ?r = None")
    case True
    with run a show ?thesis by (auto simp: Let_def split: if_splits)
  next
    case False
    then obtain bs where bs: "fst ?r = Some bs" by auto
    let ?got = "take (length b - a) bs"
    have "chunk sys fd t m (a + length ?got) (store a ?got b) (snd ?r) = Some y" using run False bs by (simp add: Let_def)
    from IH [OF this] a show ?thesis by simp
  qed
qed (use assms(2) in auto)

lemma ReadChunk_ok:
  assumes "ReadChunk sys i m d = Some (rv, d1)" and "serial_ok d" and "i < 16"
  shows "serial_ok d1 \<and> rv \<le> int GEMPCTWIN_MAXBUF \<and> (rv < 0 \<or> m \<le> rv) \<and> - 1 \<le> rv \<or> rv < 0 \<and> serial_ok d1"
proof -
  let ?x = "serialDevice d ! i"
  from assms(1) obtain b s where c: "read_chunk sys (ser_fd ?x) (readTimeout (ser_ccid ?x)) m 0 (ser_buffer ?x) (serial_world d) = Some (rv, b, s)"
    and d1: "d1 = with_world (upd_serial i (\<lambda>x. x\<lparr>ser_buffer := b\<rparr>) d) s"
    by (auto simp: ReadChunk_def bind_eq_Some_conv Let_def)
  have len: "length (ser_buffer ?x) = GEMPCTWIN_MAXBUF" using serial_ok_nth [OF assms(2,3)] by (simp add: device_ok_def)
  note bounds = read_chunk_bounds [OF c, simplified len, simplified]
  have "serial_ok (upd_serial i (\<lambda>x. x\<lparr>ser_buffer := b\<rparr>) d)"
    by (rule serial_ok_upd [OF assms(2,3)]) (use bounds in \<open>simp add: device_ok_def\<close>)
  with bounds d1 show ?thesis by auto
qed

lemma get_bytes_ok:
  assumes "get_bytes sys i room n d = Some (st, bs, d1)" and "serial_ok d" and "i < 16"
  shows "serial_ok d1 \<and> length bs \<le> room \<and> (st = STATUS_SUCCESS \<longrightarrow> int (length bs) = n)"
proof -
  let ?x = "serialDevice d ! i" and ?av = "drop (nat (ser_offset (serialDevice d ! i))) (ser_buffer (serialDevice d ! i))"
  let ?p = "ser_offset_last ?x - ser_offset ?x"
  have x: "device_ok ?x" by (rule serial_ok_nth [OF assms(2,3)])
  show ?thesis
  proof (cases "ser_offset ?x + n \<le> ser_offset_last ?x")
    case True
    then have n: "0 \<le> n" "n \<le> int room" "n \<le> int (length ?av)" "st = STATUS_SUCCESS" "bs = take (nat n) ?av"
      and d1: "d1 = upd_serial i (\<lambda>x. x\<lparr>ser_offset := ser_offset x + n\<rparr>) d"
      using assms(1) by (auto simp: get_bytes_def Let_def split: if_splits)
    have "serial_ok d1" unfolding d1 by (rule serial_ok_upd [OF assms(2,3)]) (use True n(1) in \<open>simp add: device_ok_def\<close>)
    with n show ?thesis by auto
  next
    case False
    with assms(1) obtain rv d2 where c: "ReadChunk sys i (n - ?p) d = Some (rv, d2)" and room: "?p \<le> int room" "?p \<le> int (length ?av)"
      and r: "if rv < 0 then st = STATUS_COMM_ERROR \<and> bs = take (nat ?p) ?av \<and> d1 = d2
        else n \<le> int room \<and> st = STATUS_SUCCESS \<and> bs = take (nat ?p) ?av @ take (nat (n - ?p)) (ser_buffer (serialDevice d2 ! i))
          \<and> d1 = upd_serial i (\<lambda>x. x\<lparr>ser_offset := n - ?p, ser_offset_last := rv\<rparr>) d2"
      by (auto simp: get_bytes_def Let_def bind_eq_Some_conv split: if_splits)
    have ok: "serial_ok d2" using ReadChunk_ok [OF c assms(2,3)] by auto
    show ?thesis
    proof (cases "rv < 0")
      case True
      with r ok room show ?thesis by auto
    next
      case pos: False
      then have b: "n - ?p \<le> rv" "rv \<le> int GEMPCTWIN_MAXBUF" using ReadChunk_ok [OF c assms(2,3)] by auto
      have x2: "device_ok (serialDevice d2 ! i)" by (rule serial_ok_nth [OF ok assms(3)])
      have "serial_ok d1" using r pos False b
        by (auto intro!: serial_ok_upd [OF ok assms(3)] simp: device_ok_def)
      moreover have "int (length bs) = n" using r pos False b x2 x room by (auto simp: device_ok_def)
      ultimately show ?thesis using r pos by auto
    qed
  qed
qed

definition turn_ok :: "serial_read \<Rightarrow> (turn \<times> serial_read \<times> 's serial_driver) option \<Rightarrow> bool" where
  "turn_ok r y \<longleftrightarrow> pred_option (\<lambda>(t, r1, d1). serial_ok d1 \<and> length (read_buffer r1) = length (read_buffer r)) y"

lemma one_byte_ok:
  assumes "serial_ok d" and "i < 16" and "\<And>c d1. serial_ok d1 \<Longrightarrow> turn_ok r (f c d1)"
  shows "turn_ok r (one_byte sys i d f r)"
proof (cases "get_bytes sys i 1 1 d")
  case (Some y)
  obtain rv bs d1 where y: "y = (rv, bs, d1)" by (cases y)
  have "serial_ok d1" using get_bytes_ok [OF Some [unfolded y] assms(1,2)] by simp
  with Some y assms(3) show ?thesis by (simp add: one_byte_def turn_ok_def)
qed (simp add: one_byte_def turn_ok_def)

lemma serial_ack_ok:
  assumes "serial_ok d" and "i < 16"
  shows "turn_ok r (serial_ack sys i r d)"
proof (cases "get_bytes sys i (length (read_buffer r)) 5 d")
  case (Some y)
  obtain rv bs d1 where y: "y = (rv, bs, d1)" by (cases y)
  let ?r1 = "r\<lparr>read_buffer := store 0 bs (read_buffer r)\<rparr>" and ?n = "10 + dw2i (store 0 bs (read_buffer r)) 1"
  note g1 = get_bytes_ok [OF Some [unfolded y] assms]
  show ?thesis
  proof (cases "rv = STATUS_SUCCESS")
    case True
    then have len: "length bs = 5" using g1 by simp
    show ?thesis
    proof (cases "get_bytes sys i (length (read_buffer r) - 5) (sint ?n - 5) d1")
      case None
      with Some y g1 len True show ?thesis by (simp add: serial_ack_def turn_ok_def)
    next
      case (Some z)
      obtain rv2 bs2 d2 where z: "z = (rv2, bs2, d2)" by (cases z)
      from Some z have "get_bytes sys i (length (read_buffer r) - 5) (sint ?n - 5) d1 = Some (rv2, bs2, d2)" by simp
      note g2 = get_bytes_ok [OF this conjunct1 [OF g1] assms(2)]
      let ?r2 = "?r1\<lparr>read_buffer := store 5 bs2 (read_buffer ?r1)\<rparr>"
      have eq: "serial_ack sys i r d = (if rv2 \<noteq> STATUS_SUCCESS then Some (Return rv2, ?r2, d2) else serial_lrc sys i ?n ?r2 d2)"
        using \<open>get_bytes sys i (length (read_buffer r)) 5 d = Some y\<close> y True g1 Some z by (simp add: serial_ack_def Let_def)
      have l2: "length (read_buffer ?r2) = length (read_buffer r)" using g1 g2 len by (auto simp: le_diff_conv2 add.commute)
      have "turn_ok ?r2 (serial_lrc sys i ?n ?r2 d2)"
        unfolding serial_lrc_def by (rule one_byte_ok) (use g2 assms(2) in \<open>auto simp: turn_ok_def\<close>)
      then show ?thesis using g2 l2 unfolding eq turn_ok_def by simp
    qed
  next
    case False
    with Some y g1 show ?thesis by (simp add: serial_ack_def turn_ok_def)
  qed
qed (simp add: serial_ack_def turn_ok_def)

lemma serial_start_ok:
  assumes "serial_ok d" and "i < 16"
  shows "turn_ok r (serial_start sys i r d)"
  unfolding serial_start_def serial_slot_change_def serial_sync_def serial_nak_def
  by (rule one_byte_ok [OF assms], simp, intro conjI impI one_byte_ok assms(2) serial_ack_ok)
    (auto simp: turn_ok_def intro!: one_byte_ok [unfolded turn_ok_def] serial_ack_ok [unfolded turn_ok_def] assms(2))

lemma serial_loop_ok:
  assumes "serial_loop sys i r d = Some y" and "serial_ok d" and "i < 16"
  shows "serial_ok (snd (snd y)) \<and> length (read_buffer (fst (snd y))) = length (read_buffer r)"
proof (rule serial_loop.raw_induct [OF _ assms(1), where P = "\<lambda>sys i r d y. serial_ok d \<longrightarrow> i < 16 \<longrightarrow>
    serial_ok (snd (snd y)) \<and> length (read_buffer (fst (snd y))) = length (read_buffer r)", rule_format])
  fix loop sys and i :: nat and r and d :: "'a serial_driver" and y :: "status_t \<times> serial_read \<times> 'a serial_driver"
  assume IH: "\<And>sys i r d y. loop sys i r d = Some y \<Longrightarrow> serial_ok d \<Longrightarrow> i < 16 \<Longrightarrow>
      serial_ok (snd (snd y)) \<and> length (read_buffer (fst (snd y))) = length (read_buffer r)"
    and run: "do {
        (t, r1, d1) \<leftarrow> serial_start sys i r d;
        (case t of Restart \<Rightarrow> loop sys i r1 d1 | Return st \<Rightarrow> Some (st, r1, d1))
      } = Some y" and ok: "serial_ok d" "i < 16"
  from run obtain t r1 d1 where s: "serial_start sys i r d = Some (t, r1, d1)"
    and rest: "(case t of Restart \<Rightarrow> loop sys i r1 d1 | Return st \<Rightarrow> Some (st, r1, d1)) = Some y"
    by (auto simp: bind_eq_Some_conv)
  have "serial_ok d1" "length (read_buffer r1) = length (read_buffer r)"
    using serial_start_ok [OF ok, of r sys] by (simp_all add: s turn_ok_def)
  with rest IH ok show "serial_ok (snd (snd y)) \<and> length (read_buffer (fst (snd y))) = length (read_buffer r)"
    by (cases t) auto
qed (use assms in auto)

lemma ReadSerial_ok:
  assumes "ReadSerial sys i len buffer d = Some (st, n, b, d1)" and "serial_ok d" and "i < 16"
  shows "serial_ok d1 \<and> length b = length buffer"
  using assms serial_loop_ok by (fastforce simp: ReadSerial_def bind_eq_Some_conv)

lemma serial_seq_ok: "serial_seq i d = Some (seq, d1) \<Longrightarrow> serial_ok d \<Longrightarrow> i < 16 \<Longrightarrow> serial_ok d1"
  using serial_ok_nth [of d i] by (auto simp: serial_seq_def bind_eq_Some_conv device_ok_def intro!: serial_ok_upd)

lemma escape_serial_ok:
  assumes "escape_serial sys i tx rx n fresh d = Some y" and "serial_ok d" and "i < 16"
  shows "serial_ok (snd (snd (snd y)))"
proof (rule escape_serial.raw_induct [OF _ assms(1), where P = "\<lambda>sys i tx rx n fresh d y. serial_ok d \<longrightarrow> i < 16 \<longrightarrow> serial_ok (snd (snd (snd y)))", rule_format])
  fix loop sys and i :: nat and tx rx n fresh and d :: "'a serial_driver" and y :: "LONG \<times> DWORD \<times> UCHAR list \<times> 'a serial_driver"
  assume IH: "\<And>sys i tx rx n fresh d y. loop sys i tx rx n fresh d = Some y \<Longrightarrow> serial_ok d \<Longrightarrow> i < 16 \<Longrightarrow> serial_ok (snd (snd (snd y)))"
    and run: "do {
     (seq, d1) \<leftarrow> serial_seq i d;
     let cmd_in = [0x6B] @ i2dw (word_of_nat (length tx)) @ [bCurrentSlotIndex (get_ccid_descriptor_serial i d), seq, 0, 0, 0] @ tx;
     let w = WriteSerial sys i cmd_in d1;
     if fst w \<noteq> STATUS_SUCCESS then Some (IFD_COMMUNICATION_ERROR, n, rx, snd w)
     else do {
       (res, length_out, cmd_out, d2) \<leftarrow> ReadSerial sys i (10 + n) (map fresh [0..<unat (10 + n)]) (snd w);
       if res = STATUS_COMM_NAK then loop sys i tx rx n fresh d2
       else if res \<noteq> STATUS_SUCCESS \<or> length_out < 8 then Some (IFD_COMMUNICATION_ERROR, n, rx, d2)
       else
         let k = (if n < dw2i cmd_out 1 then n else dw2i cmd_out 1) in
         if length cmd_out < 10 + unat k \<or> length rx < unat k then None
         else Some (if flag (cmd_out ! STATUS_OFFSET) CCID_COMMAND_FAILED then IFD_COMMUNICATION_ERROR else IFD_SUCCESS,
           k, store 0 (take (unat k) (drop 10 cmd_out)) rx, d2)
     }
   } = Some y" and ok: "serial_ok d" "i < 16"
  from run obtain seq d1 where s: "serial_seq i d = Some (seq, d1)" by (auto simp: bind_eq_Some_conv)
  define w where "w = WriteSerial sys i ([0x6B] @ i2dw (word_of_nat (length tx)) @ [bCurrentSlotIndex (get_ccid_descriptor_serial i d), seq, 0, 0, 0] @ tx) d1"
  have w: "serial_ok (snd w)" using serial_seq_ok [OF s ok] by (simp add: w_def)
  show "serial_ok (snd (snd (snd y)))"
  proof (cases "fst w = STATUS_SUCCESS")
    case False
    with run s have "snd (snd (snd y)) = snd w" unfolding w_def by (auto simp: Let_def)
    with w show ?thesis by simp
  next
    case True
    from run s True obtain res m out d2 where r: "ReadSerial sys i (10 + n) (map fresh [0..<unat (10 + n)]) (snd w) = Some (res, m, out, d2)"
      unfolding w_def by (simp add: Let_def bind_eq_Some_conv del: upt_conv_Cons) blast
    have d2: "serial_ok d2" using ReadSerial_ok [OF r w ok(2)] by simp
    show ?thesis
    proof (cases "res = STATUS_COMM_NAK")
      case True
      with run s \<open>fst w = STATUS_SUCCESS\<close> r have "loop sys i tx rx n fresh d2 = Some y" unfolding w_def by (simp add: Let_def)
      from IH [OF this d2 ok(2)] show ?thesis .
    next
      case False
      with run s \<open>fst w = STATUS_SUCCESS\<close> r have "snd (snd (snd y)) = d2" unfolding w_def by (auto simp add: Let_def split: if_splits)
      with d2 show ?thesis by simp
    qed
  qed
qed (use assms in auto)

lemma CmdEscape_serial_ok:
  assumes "CmdEscape_serial sys i tx rx n fresh d = Some (rv, m, b, d1)" and "serial_ok d" and "i < 16"
  shows "serial_ok d1"
proof (cases "escape_serial sys i tx rx n fresh (upd_ser_ccid i (\<lambda>c. c\<lparr>readTimeout := 30\<rparr>) d)")
  case (Some y)
  with assms(1) have "d1 = upd_ser_ccid i (\<lambda>c. c\<lparr>readTimeout := readTimeout (get_ccid_descriptor_serial i d)\<rparr>) (snd (snd (snd y)))"
    by (cases y) (simp add: CmdEscape_serial_def Let_def)
  then show ?thesis using escape_serial_ok [OF Some] assms(2,3) by simp
qed (use assms(1) in \<open>simp add: CmdEscape_serial_def Let_def\<close>)

lemma CloseSerial_ok:
  assumes "CloseSerial sys i d = Some (st, d1)" and "serial_ok d" and "i < 16"
  shows "serial_ok d1"
proof (cases "ser_device (serialDevice d ! i)")
  case (Some a)
  then obtain k where k: "ser_nb_opened_slots (serialDevice d ! i) = Some k" "k < 16"
    using serial_ok_nth [OF assms(2,3)] by (auto simp: device_ok_def)
  let ?d = "upd_serial k (\<lambda>y. y\<lparr>ser_real_nb_opened_slots := ser_real_nb_opened_slots y - 1\<rparr>) d"
  have d: "serial_ok ?d" by (rule serial_ok_upd [OF assms(2) k(2)]) (simp add: device_ok_def)
  have "serial_ok (upd_serial i (\<lambda>y. y\<lparr>ser_fd := -1, ser_device := None\<rparr>) (with_world ?d s))" for s
    by (rule serial_ok_upd) (use d assms(3) in \<open>simp_all add: device_ok_def\<close>)
  with d assms(1) Some k show ?thesis by (auto simp: CloseSerial_def Let_def bind_eq_Some_conv split: if_splits)
qed (use assms in \<open>simp add: CloseSerial_def\<close>)

lemma set_ccid_descriptor_ok:
  assumes "set_ccid_descriptor i reader_name dev_name d = Some (st, d1)" and "serial_ok d" and "i < 16"
  shows "serial_ok d1 \<and> (st = STATUS_SUCCESS \<longrightarrow> ser_nb_opened_slots (serialDevice d1 ! i) = Some i \<and> ser_pbSeq (serialDevice d1 ! i) = Some i)"
proof -
  let ?r = "serial_readerID reader_name"
  have len: "length (serialDevice d) = 16" using assms(2) by (simp add: serial_ok_def)
  consider (refused) "st = STATUS_UNSUCCESSFUL" "d1 = d"
    | (second) p d2 where "st = STATUS_SECONDARY_SLOT" "reusable d dev_name = Some (Some p)" "secondary_slot i p ?r d = Some d2" "d1 = d2\<lparr>ser_previous := Some i\<rparr>"
    | (first) "st = STATUS_SUCCESS" "d1 = (upd_serial i (first_slot i ?r) d)\<lparr>ser_previous := Some i\<rparr>"
    using assms(1) by (auto simp: set_ccid_descriptor_def Let_def bind_eq_Some_conv split: if_splits option.splits)
  then show ?thesis
  proof cases
    case refused
    with assms show ?thesis by simp
  next
    case second
    have p: "p < 16" using second(2) assms(2)
      by (auto simp: reusable_def serial_ok_def Let_def bind_eq_Some_conv split: option.splits if_splits)
    have x: "device_ok (serialDevice d ! p)" by (rule serial_ok_nth [OF assms(2) p])
    then have ok: "serial_ok (upd_serial i (\<lambda>_. serialDevice d ! p) d)" by (intro serial_ok_upd [OF assms(2,3)])
    obtain k where k: "ser_nb_opened_slots (serialDevice d ! p) = Some k" using second(3) by (auto simp: secondary_slot_def Let_def bind_eq_Some_conv)
    with x have "k < 16" by (simp add: device_ok_def)
    then have "serial_ok (upd_serial k (\<lambda>y. y\<lparr>ser_real_nb_opened_slots := ser_real_nb_opened_slots y + 1\<rparr>) (upd_serial i (\<lambda>_. serialDevice d ! p) d))"
      by (intro serial_ok_upd [OF ok]) (simp_all add: device_ok_def)
    then show ?thesis using second assms(3) k by (auto simp: secondary_slot_def Let_def)
  next
    case first
    have "serial_ok (upd_serial i (first_slot i ?r) d)"
      by (rule serial_ok_upd [OF assms(2,3)]) (simp add: device_ok_def first_slot_def assms(3))
    with first assms(3) len show ?thesis by (simp add: first_slot_def)
  qed
qed

lemma greet_ok:
  assumes "greet sys i fresh d = Some (st, d1)" and "serial_ok d" and "i < 16"
  shows "serial_ok d1"
proof -
  let ?t = "\<lambda>n. upd_ser_ccid i (\<lambda>c. c\<lparr>readTimeout := n\<rparr>)"
  from assms(1) obtain rv n b e where e: "CmdEscape_serial sys i [0x02] (map fresh [0..<50]) 50 fresh (?t 2 d) = Some (rv, n, b, e)"
    and rest: "(\<exists>st'. CloseSerial sys i e = Some (st', d1)) \<or> (\<exists>rv2 n2 b2 e2. CmdEscape_serial sys i [0x01, 0x01, 0x01] (map fresh [0..<50]) 50 fresh
        (?t DEFAULT_COM_READ_TIMEOUT e) = Some (rv2, n2, b2, e2) \<and> ((\<exists>st'. CloseSerial sys i e2 = Some (st', d1)) \<or> e2 = d1))"
    unfolding greet_def by (fastforce simp: bind_eq_Some_conv split: if_splits)
  have "serial_ok e" by (rule CmdEscape_serial_ok [OF e]) (use assms in simp_all)
  moreover from this have "serial_ok (?t DEFAULT_COM_READ_TIMEOUT e)" using assms(3) by simp
  ultimately show ?thesis using rest CloseSerial_ok CmdEscape_serial_ok assms(3) by metis
qed

lemma open_port_ok:
  assumes "open_port sys i dev_name fresh d = Some (st, d1)" and "serial_ok d" and "i < 16"
    and "ser_nb_opened_slots (serialDevice d ! i) = Some i" and "ser_pbSeq (serialDevice d ! i) = Some i"
  shows "serial_ok d1"
proof -
  have len: "length (serialDevice d) = 16" using assms(2) by (simp add: serial_ok_def)
  have fd: "serial_ok (upd_serial i (\<lambda>x. x\<lparr>ser_fd := f\<rparr>) e)" if "serial_ok e" for f and e :: "'a serial_driver"
    by (rule serial_ok_upd [OF that assms(3)]) (simp add: device_ok_def)
  have conf: "serial_ok (snd (configure sys i e))" if "serial_ok e" for e
    using fd that by (auto simp: configure_def close_fd_def Let_def split: prod.splits option.splits bool.splits)
  obtain f s where o: "sp_open sys dev_name (serial_world d) = (f, s)" by fastforce
  let ?d2 = "with_world (upd_serial i (\<lambda>x. x\<lparr>ser_fd := f\<rparr>) (with_world d s)) (inhibit_pnp sys f s)"
  let ?d3 = "(upd_serial i (\<lambda>x. x\<lparr>ser_device := Some (length (device_names ?d2))\<rparr>) ?d2)\<lparr>device_names := device_names ?d2 @ [Some dev_name]\<rparr>"
  have d2: "serial_ok ?d2" using fd assms(2) by simp
  have d3: "serial_ok ?d3"
    unfolding serial_ok_simps by (rule serial_ok_upd [OF d2 assms(3)]) (use assms(3,4,5) len in \<open>simp add: device_ok_def\<close>)
  show ?thesis
  proof (cases "f = -1")
    case True
    with assms(1,2) o fd show ?thesis by (auto simp: open_port_def)
  next
    case False
    obtain ok d4 where c: "configure sys i ?d3 = (ok, d4)" by fastforce
    have d4: "serial_ok d4" using conf [OF d3] c by simp
    from assms(1) o False c have "d1 = d4 \<or> greet sys i fresh d4 = Some (st, d1)" by (auto simp: open_port_def Let_def split: if_splits)
    with d4 greet_ok assms(3) show ?thesis by blast
  qed
qed

lemma OpenSerialByName_ok:
  assumes "OpenSerialByName sys i name fresh d = Some (st, d1)" and "serial_ok d" and "i < 16"
  shows "serial_ok d1"
proof -
  obtain dev_name reader_name where n: "split_name name = (dev_name, reader_name)" by fastforce
  from assms(1) n obtain ret e where s: "set_ccid_descriptor i reader_name dev_name d = Some (ret, e)"
    and rest: "d1 = e \<or> ret \<noteq> STATUS_UNSUCCESSFUL \<and> ret \<noteq> STATUS_SECONDARY_SLOT \<and> open_port sys i dev_name fresh e = Some (st, d1)"
    by (auto simp: OpenSerialByName_def bind_eq_Some_conv split: if_splits)
  have "ret \<in> {STATUS_UNSUCCESSFUL, STATUS_SECONDARY_SLOT, STATUS_SUCCESS}"
    using s by (auto simp: set_ccid_descriptor_def Let_def bind_eq_Some_conv split: if_splits option.splits)
  then show ?thesis using rest set_ccid_descriptor_ok [OF s assms(2,3)] open_port_ok [of sys i dev_name fresh e st d1] assms(3) by auto
qed

lemma OpenSerial_ok: "OpenSerial sys i channel fresh d = Some (st, d1) \<Longrightarrow> serial_ok d \<Longrightarrow> i < 16 \<Longrightarrow> serial_ok d1"
  unfolding OpenSerial_def Let_def by (metis OpenSerialByName_ok option.inject prod.inject)

text \<open>The calls that the driver makes.\<close>

inductive serial_step :: "'s serial_driver \<Rightarrow> 's serial_driver \<Rightarrow> bool" where
  open_step: "i < 16 \<Longrightarrow> OpenSerialByName sys i name fresh d = Some (st, d1) \<Longrightarrow> serial_step d d1"
| channel_step: "i < 16 \<Longrightarrow> OpenSerial sys i channel fresh d = Some (st, d1) \<Longrightarrow> serial_step d d1"
| close_step: "i < 16 \<Longrightarrow> CloseSerial sys i d = Some (st, d1) \<Longrightarrow> serial_step d d1"
| write_step: "WriteSerial sys i message d = (st, d1) \<Longrightarrow> serial_step d d1"
| read_step: "i < 16 \<Longrightarrow> ReadSerial sys i len buffer d = Some (st, n, b, d1) \<Longrightarrow> serial_step d d1"
| escape_step: "i < 16 \<Longrightarrow> CmdEscape_serial sys i tx rx n fresh d = Some (rv, m, b, d1) \<Longrightarrow> serial_step d d1"
| descriptor_step: "i < 16 \<Longrightarrow> serial_step d (upd_ser_ccid i f d)"

lemma serial_step_ok: "serial_step d d1 \<Longrightarrow> serial_ok d \<Longrightarrow> serial_ok d1"
proof (induction rule: serial_step.induct)
  case (write_step sys i message d st d1)
  then show ?case using WriteSerial_ok [of sys i message d] by simp
qed (blast intro: OpenSerialByName_ok OpenSerial_ok CloseSerial_ok ReadSerial_ok [THEN conjunct1] CmdEscape_serial_ok serial_ok_ccid)+

interpretation ser: guarded_system "serial_step :: 's serial_driver \<Rightarrow> 's serial_driver \<Rightarrow> bool" serial_ok
  by unfold_locales (rule serial_step_ok)

end
