(* ===== verification/Serial_Frames.thy ===== *)
theory Serial_Frames
  imports Ccid_Serial_Inv
begin

section \<open>Frames on the serial line\<close>

text \<open>
  \<open>line sys fd inp\<close>: \<open>inp\<close> is the stream of bytes that the line still delivers; while there are any, \<^verbatim>\<open>select\<close> reports them and \<^verbatim>\<open>read\<close>
  takes some. \<open>ready\<close>: what the next calls read, first from the buffer of the port and then from the line.
\<close>

definition line :: "'s serial_port \<Rightarrow> int \<Rightarrow> ('s \<Rightarrow> UCHAR list) \<Rightarrow> bool" where
  "line sys fd inp \<longleftrightarrow>
     (\<forall>t s i s1. sp_select sys fd t s = (i, s1) \<longrightarrow> inp s1 = inp s \<and> (inp s \<noteq> [] \<longrightarrow> i \<noteq> -1 \<and> i \<noteq> 0))
   \<and> (\<forall>n s r s1. sp_read sys fd n s = (r, s1) \<longrightarrow> inp s \<noteq> [] \<longrightarrow> 0 < n
        \<longrightarrow> (\<exists>bs. r = Some bs \<and> bs \<noteq> [] \<and> length bs \<le> n \<and> inp s = bs @ inp s1))"

definition available :: "('s \<Rightarrow> UCHAR list) \<Rightarrow> nat \<Rightarrow> 's serial_driver \<Rightarrow> UCHAR list" where
  "available inp i d =
    (let x = serialDevice d ! i in take (nat (ser_offset_last x - ser_offset x)) (drop (nat (ser_offset x)) (ser_buffer x)) @ inp (serial_world d))"

definition ready :: "'s serial_port \<Rightarrow> ('s \<Rightarrow> UCHAR list) \<Rightarrow> nat \<Rightarrow> UCHAR list \<Rightarrow> 's serial_driver \<Rightarrow> bool" where
  "ready sys inp i bs d \<longleftrightarrow> serial_ok d \<and> i < CCID_DRIVER_MAX_READERS \<and> line sys (ser_fd (serialDevice d ! i)) inp \<and> available inp i d = bs"

lemma read_chunk_line:
  assumes "line sys fd inp"
  shows "a \<le> m \<Longrightarrow> m \<le> length b \<Longrightarrow> m - a \<le> length (inp s) \<Longrightarrow>
    \<exists>n b1 s1. read_chunk sys fd t (int m) a b s = Some (int n, b1, s1) \<and> m \<le> n \<and> n \<le> length b1 \<and> length b1 = length b
      \<and> take n b1 @ inp s1 = take a b @ inp s"
proof (induction "m - a" arbitrary: a b s rule: less_induct)
  case less
  show ?case
  proof (cases "m \<le> a")
    case True
    with less.prems show ?thesis by (simp add: read_chunk.simps)
  next
    case False
    obtain i s1 where sel: "sp_select sys fd t s = (i, s1)" by fastforce
    obtain r s2 where rd: "sp_read sys fd (length b - a) s1 = (r, s2)" by fastforce
    have inp: "inp s \<noteq> []" "0 < length b - a" using less.prems False by auto
    have i: "inp s1 = inp s" "i \<noteq> -1" "i \<noteq> 0" using assms sel inp unfolding line_def by blast+
    with assms rd inp obtain bs where bs: "r = Some bs" "bs \<noteq> []" "length bs \<le> length b - a" "inp s = bs @ inp s2"
      unfolding line_def by metis
    let ?b = "store a bs b"
    have fits: "a + length bs \<le> length b" using bs(3) less.prems False by linarith
    show ?thesis
    proof (cases "m \<le> a + length bs")
      case True
      then have "read_chunk sys fd t (int m) a b s = Some (int (a + length bs), ?b, s2)"
        using False sel rd i bs fits by (simp add: read_chunk.simps [of _ _ _ _ a] read_chunk.simps [of _ _ _ _ "a + length bs"])
      moreover have "take (a + length bs) ?b = take a b @ bs" using fits by (simp add: store_def)
      ultimately show ?thesis using fits True bs(4) by (intro exI [of _ "a + length bs"] exI [of _ ?b] exI [of _ s2]) simp
    next
      case more: False
      have "length bs > 0" using bs(2) by simp
      then have "m - (a + length bs) < m - a" using False by linarith
      moreover have "a + length bs \<le> m" "m \<le> length ?b" "m - (a + length bs) \<le> length (inp s2)" using more less.prems bs(4) fits by auto
      ultimately obtain n b1 s3 where
        c: "read_chunk sys fd t (int m) (a + length bs) ?b s2 = Some (int n, b1, s3)" "m \<le> n" "n \<le> length b1" "length b1 = length ?b"
          "take n b1 @ inp s3 = take (a + length bs) ?b @ inp s2"
        using less.hyps [of "a + length bs" ?b s2] by blast
      have "read_chunk sys fd t (int m) a b s = read_chunk sys fd t (int m) (a + length bs) ?b s2"
        using False sel rd i bs fits by (simp add: read_chunk.simps [of _ _ _ _ a])
      moreover have "take (a + length bs) ?b = take a b @ bs" using fits by (simp add: store_def)
      ultimately show ?thesis using c fits bs(4) by auto
    qed
  qed
qed

lemma split_prefix:
  assumes "take m xs @ ys = bs @ rest" and "length bs \<le> m" and "m \<le> length xs"
  shows "bs = take (length bs) xs" "rest = take (m - length bs) (drop (length bs) xs) @ ys"
proof -
  from assms obtain us where us: "take m xs = bs @ us" "rest = us @ ys" by (auto simp: append_eq_append_conv2 dest: arg_cong [where f = length])
  have "take (length bs) (take m xs) = bs" "drop (length bs) (take m xs) = us" unfolding us(1) by simp_all
  moreover have "take (length bs) (take m xs) = take (length bs) xs" using assms(2) by (simp add: min_def)
  ultimately show "bs = take (length bs) xs" "rest = take (m - length bs) (drop (length bs) xs) @ ys"
    using us(2) by (simp_all add: drop_take)
qed

text \<open>A request for \<open>n\<close> bytes gets the next \<open>n\<close> bytes.\<close>

lemma get_bytes_ready:
  assumes "ready sys inp i (bs @ rest) d" and "length bs \<le> room" and "length bs \<le> GEMPCTWIN_MAXBUF"
  shows "\<exists>d1. get_bytes sys i room (int (length bs)) d = Some (STATUS_SUCCESS, bs, d1) \<and> ready sys inp i rest d1"
proof -
  let ?x = "serialDevice d ! i" and ?n = "length bs"
  define off where "off = nat (ser_offset ?x)"
  define lst where "lst = nat (ser_offset_last ?x)"
  have ok: "serial_ok d" "i < 16" and ln: "line sys (ser_fd ?x) inp"
    and av: "take (nat (ser_offset_last ?x - ser_offset ?x)) (drop (nat (ser_offset ?x)) (ser_buffer ?x)) @ inp (serial_world d) = bs @ rest"
    using assms(1) by (simp_all add: ready_def available_def Let_def)
  have x: "device_ok ?x" by (rule serial_ok_nth [OF ok])
  have len: "length (serialDevice d) = 16" using ok by (simp add: serial_ok_def)
  have o: "ser_offset ?x = int off" "ser_offset_last ?x = int lst" "off \<le> lst" "lst \<le> 548" "length (ser_buffer ?x) = 548"
    using x unfolding device_ok_def off_def lst_def by (auto simp: nat_le_iff intro: nat_mono)
  have av': "take (lst - off) (drop off (ser_buffer ?x)) @ inp (serial_world d) = bs @ rest" using av o by (simp add: nat_diff_distrib')
  have same: "ready sys inp i rest d1" if g: "get_bytes sys i room (int ?n) d = Some (STATUS_SUCCESS, bs, d1)"
    and f: "ser_fd (serialDevice d1 ! i) = ser_fd ?x" and a: "available inp i d1 = rest" for d1
    using get_bytes_ok [OF g ok] f a ln ok(2) by (simp add: ready_def)
  show ?thesis
  proof (cases "off + ?n \<le> lst")
    case True
    let ?d = "upd_serial i (\<lambda>x. x\<lparr>ser_offset := ser_offset x + int ?n\<rparr>) d"
    have b: "bs = take ?n (drop off (ser_buffer ?x))" and r: "rest = take (lst - off - ?n) (drop (off + ?n) (ser_buffer ?x)) @ inp (serial_world d)"
      using split_prefix [OF av'] True o by (simp_all add: add.commute)
    have g: "get_bytes sys i room (int ?n) d = Some (STATUS_SUCCESS, bs, ?d)"
      using True o assms(2) b by (simp add: get_bytes_def Let_def)
    have "available inp i ?d = rest" using r o ok(2) len True by (simp add: available_def Let_def nat_diff_distrib' nat_add_distrib diff_diff_left)
    with same [OF g] len ok(2) g show ?thesis by simp
  next
    case False
    define p where "p = lst - off"
    have p: "p < ?n" "length (take p (drop off (ser_buffer ?x))) = p" using False o by (auto simp: p_def)
    have b1: "take p (drop off (ser_buffer ?x)) = take p bs" "inp (serial_world d) = drop p bs @ rest"
      using arg_cong [OF av', of "take p"] arg_cong [OF av', of "drop p"] p by (simp_all add: p_def [symmetric])
    have "?n - p \<le> length (ser_buffer ?x)" "?n - p - 0 \<le> length (inp (serial_world d))" using b1(2) p assms(3) o by simp_all
    from read_chunk_line [OF ln _ this, of "readTimeout (ser_ccid ?x)"]
    obtain n b s1 where c: "read_chunk sys (ser_fd ?x) (readTimeout (ser_ccid ?x)) (int (?n - p)) 0 (ser_buffer ?x) (serial_world d) = Some (int n, b, s1)"
      "?n - p \<le> n" "n \<le> length b" "length b = 548" "take n b @ inp s1 = inp (serial_world d)"
      unfolding o(5) by auto
    let ?d1 = "with_world (upd_serial i (\<lambda>x. x\<lparr>ser_buffer := b\<rparr>) d) s1"
    let ?d = "upd_serial i (\<lambda>x. x\<lparr>ser_offset := int ?n - int p, ser_offset_last := int n\<rparr>) ?d1"
    have ch: "ReadChunk sys i (int ?n - int p) d = Some (int n, ?d1)" using c(1) p by (simp add: ReadChunk_def Let_def of_nat_diff)
    have tk: "take (?n - p) b = drop p bs" "drop (?n - p) (take n b) @ inp s1 = rest"
    proof -
      have "take (?n - p) b @ drop (?n - p) (take n b) @ inp s1 = drop p bs @ rest"
        using c(2,5) b1(2) by (metis append_assoc append_take_drop_id min.absorb1 take_take)
      then show "take (?n - p) b = drop p bs" "drop (?n - p) (take n b) @ inp s1 = rest"
        using c(2,3) by (auto simp: append_eq_append_conv)
    qed
    have g: "get_bytes sys i room (int ?n) d = Some (STATUS_SUCCESS, bs, ?d)"
    proof -
      have "ser_offset_last ?x - ser_offset ?x = int p" using o by (simp add: p_def of_nat_diff)
      then show ?thesis
        using False o assms(2) p ch b1(1) tk(1) len ok(2)
        by (simp add: get_bytes_def Let_def nat_diff_distrib')
    qed
    have "available inp i ?d = rest"
      using tk(2) len ok(2) c(2) p by (simp add: available_def Let_def nat_diff_distrib' drop_take)
    with same [OF g] g len ok(2) show ?thesis by simp
  qed
qed

lemma one_byte_ready:
  assumes "ready sys inp i (c # rest) d"
  shows "\<exists>d1. (\<forall>f r. one_byte sys i d f r = f c d1) \<and> ready sys inp i rest d1"
proof -
  from get_bytes_ready [of sys inp i "[c]" rest d 1] assms obtain d1 where
    "get_bytes sys i 1 1 d = Some (STATUS_SUCCESS, [c], d1)" "ready sys inp i rest d1" by auto
  then show ?thesis by (intro exI [of _ d1]) (simp add: one_byte_def)
qed

subsection \<open>Messages and notifications\<close>

text \<open>What a reader sends beside the messages: requests for more time (T=0) and movements of the card.\<close>

datatype notification = Time_Request UCHAR | Slot_Change UCHAR

fun notification_ok :: "notification \<Rightarrow> bool" where
  "notification_ok (Time_Request c) \<longleftrightarrow> 0x80 \<le> c"
| "notification_ok (Slot_Change _) \<longleftrightarrow> True"

fun notification_bytes :: "notification \<Rightarrow> UCHAR list" where
  "notification_bytes (Time_Request c) = [c]"
| "notification_bytes (Slot_Change c) = [RDR_to_PC_NotifySlotChange, c]"

definition notified :: "notification list \<Rightarrow> UCHAR list" where
  "notified ns = concat (map notification_bytes ns)"

text \<open>A CCID message tells its length in the second to fifth byte.\<close>

definition ccid_message_ok :: "UCHAR list \<Rightarrow> bool" where
  "ccid_message_ok m \<longleftrightarrow> length m = 10 + unat (dw2i m 1) \<and> length m \<le> GEMPCTWIN_MAXBUF - 3"

definition framed :: "UCHAR list \<Rightarrow> UCHAR \<Rightarrow> UCHAR list" where
  "framed m lrc = [SYNC, CTRL_ACK] @ m @ [lrc]"

lemma serial_frame_framed: "serial_frame m = framed m (foldl (XOR) 0 ([SYNC, CTRL_ACK] @ m))"
  by (simp add: serial_frame_def framed_def)

lemma start_notification:
  assumes "ready sys inp i (notification_bytes n @ rest) d" and "notification_ok n"
  shows "\<exists>d1. ready sys inp i rest d1 \<and> serial_start sys i r d = Some (Restart, r, d1)"
proof (cases n)
  case (Time_Request c)
  with assms one_byte_ready [of sys inp i c rest d] obtain d1 where d1: "\<And>f r. one_byte sys i d f r = f c d1" "ready sys inp i rest d1"
    by auto
  have "c \<noteq> 0x50" "c \<noteq> 0x03" "0x80 \<le> c" using assms(2) Time_Request by (auto simp: word_le_nat_alt)
  with d1 show ?thesis by (simp add: serial_start_def)
next
  case (Slot_Change c)
  with assms one_byte_ready [of sys inp i "0x50" "c # rest" d] obtain d1 where d1: "\<And>f r. one_byte sys i d f r = f 0x50 d1" "ready sys inp i (c # rest) d1"
    by auto
  from one_byte_ready [OF d1(2)] obtain d2 where d2: "\<And>f r. one_byte sys i d1 f r = f c d2" "ready sys inp i rest d2" by auto
  with d1 show ?thesis by (simp add: serial_start_def serial_slot_change_def)
qed

lemma loop_notified:
  assumes "ready sys inp i (notified ns @ rest) d" and "list_all notification_ok ns"
  shows "\<exists>d1. ready sys inp i rest d1 \<and> serial_loop sys i r d = serial_loop sys i r d1"
  using assms
proof (induction ns arbitrary: d)
  case (Cons n ns)
  from start_notification [of sys inp i n "notified ns @ rest" d r] Cons.prems obtain d1 where
    d1: "ready sys inp i (notified ns @ rest) d1" "serial_start sys i r d = Some (Restart, r, d1)" by (auto simp: notified_def)
  from Cons.IH [OF d1(1)] Cons.prems(2) obtain d2 where "ready sys inp i rest d2" "serial_loop sys i r d1 = serial_loop sys i r d2" by auto
  with d1(2) show ?case by (auto simp: serial_loop.simps [of _ _ _ d])
qed (auto simp: notified_def)

lemma dw2i_prefix: "x + 3 < n \<Longrightarrow> length a = n \<Longrightarrow> dw2i (store 0 a b) x = dw2i a x"
  by (simp add: dw2i_def store_def nth_append)

lemma dw2i_take: "x + 3 < n \<Longrightarrow> dw2i (take n a) x = dw2i a x"
  by (simp add: dw2i_def)

lemma store_store: "length a \<le> length b \<Longrightarrow> n \<le> length a \<Longrightarrow> store n (drop n a) (store 0 (take n a) b) = store 0 a b"
  by (simp add: store_def min_def)

lemma start_message:
  assumes "ready sys inp i (framed m lrc @ rest) d" and "ccid_message_ok m" and "length m \<le> length (read_buffer r)"
  shows "\<exists>d1. ready sys inp i rest d1 \<and> serial_start sys i r d =
    (if echo r then Some (Restart, r\<lparr>read_buffer := store 0 m (read_buffer r), echo := False\<rparr>, d1)
     else Some (Return STATUS_SUCCESS, r\<lparr>read_buffer := store 0 m (read_buffer r), read_length := word_of_nat (length m)\<rparr>, d1))"
proof -
  let ?b = "read_buffer r" and ?h = "take 5 m" and ?t = "drop 5 m"
  have m: "length m = 10 + unat (dw2i m 1)" "10 \<le> length m" "length m \<le> 545" using assms(2) by (simp_all add: ccid_message_ok_def)
  have size: "10 + dw2i m 1 = word_of_nat (length m)" using m(1) by simp
  have "framed m lrc @ rest = 3 # 6 # ?h @ ?t @ lrc # rest" by (simp add: framed_def)
  with assms(1) have r0: "ready sys inp i (3 # 6 # ?h @ ?t @ lrc # rest) d" by simp
  from one_byte_ready [OF r0] obtain d1 where d1: "\<And>f r. one_byte sys i d f r = f 3 d1" "ready sys inp i (6 # ?h @ ?t @ lrc # rest) d1" by auto
  from one_byte_ready [OF d1(2)] obtain d2 where d2: "\<And>f r. one_byte sys i d1 f r = f 6 d2" "ready sys inp i (?h @ ?t @ lrc # rest) d2" by auto
  from get_bytes_ready [OF d2(2), of "length ?b"] m assms(3) obtain d3 where
    d3: "get_bytes sys i (length ?b) 5 d2 = Some (STATUS_SUCCESS, ?h, d3)" "ready sys inp i (?t @ lrc # rest) d3" by auto
  have "length ?t \<le> length ?b - 5" "length ?t \<le> GEMPCTWIN_MAXBUF" using m(3) assms(3) by simp_all
  from get_bytes_ready [OF d3(2) this] obtain d4 where
    d4: "get_bytes sys i (length ?b - 5) (int (length ?t)) d3 = Some (STATUS_SUCCESS, ?t, d4)" "ready sys inp i (lrc # rest) d4" by blast
  from one_byte_ready [OF d4(2)] obtain d5 where d5: "\<And>f r. one_byte sys i d4 f r = f lrc d5" "ready sys inp i rest d5" by auto
  have n: "10 + dw2i (store 0 ?h ?b) 1 = word_of_nat (length m)"
    using dw2i_prefix [of 1 5 ?h ?b] dw2i_take [of 1 5 m] m(2) size by simp
  have s: "sint (word_of_nat (length m) :: DWORD) - 5 = int (length ?t)"
  proof -
    have "sint (word_of_int (int (length m)) :: DWORD) = int (length m)"
      using m(3) by (simp add: sint_sbintrunc' signed_take_bit_int_eq_self del: of_int_of_nat_eq)
    then show ?thesis using m(2) by simp
  qed
  have l: "length (store 0 ?h ?b) = length ?b" using m(2) assms(3) by simp
  have st: "store 5 ?t (store 0 ?h ?b) = store 0 m ?b" using store_store [OF assms(3), of 5] m(2) by simp
  have "serial_start sys i r d = serial_lrc sys i (word_of_nat (length m)) (r\<lparr>read_buffer := store 0 m ?b\<rparr>) d4"
    unfolding serial_start_def d1(1) serial_sync_def by (simp add: d2(1) serial_ack_def d3(1) Let_def n [unfolded One_nat_def] l s d4(1) [simplified] st)
  with d5 show ?thesis by (auto simp: serial_lrc_def)
qed

text \<open>The message behind the echo of the command, with any checksums.\<close>

definition echoed :: "bool \<Rightarrow> notification list \<Rightarrow> UCHAR list \<Rightarrow> UCHAR \<Rightarrow> UCHAR list" where
  "echoed e ns command lrc = (if e then notified ns @ framed command lrc else [])"

lemma read_message:
  assumes "ready sys inp i (echoed (ser_echo (serialDevice d ! i)) ns1 command l1 @ notified ns2 @ framed m l2 @ rest) d"
    and "list_all notification_ok ns1" and "list_all notification_ok ns2" and "ccid_message_ok command" and "ccid_message_ok m"
    and "length command \<le> length buffer" and "length m \<le> length buffer"
  shows "\<exists>b d1. ReadSerial sys i len buffer d = Some (STATUS_SUCCESS, word_of_nat (length m), b, d1) \<and> take (length m) b = m \<and> ready sys inp i rest d1"
proof -
  let ?e = "ser_echo (serialDevice d ! i)"
  have plain: "\<exists>b d1. serial_loop sys i r d0 = Some (STATUS_SUCCESS, b, d1) \<and> read_length b = word_of_nat (length m) \<and> take (length m) (read_buffer b) = m \<and> ready sys inp i rest d1"
    if r0: "ready sys inp i (notified ns2 @ framed m l2 @ rest) d0" and e: "\<not> echo r" and l: "length m \<le> length (read_buffer r)" for r d0
  proof -
    from loop_notified [OF r0 assms(3)] obtain d1 where d1: "ready sys inp i (framed m l2 @ rest) d1" "serial_loop sys i r d0 = serial_loop sys i r d1" by blast
    from start_message [OF d1(1) assms(5) l] e obtain d2 where "ready sys inp i rest d2"
      "serial_start sys i r d1 = Some (Return STATUS_SUCCESS, r\<lparr>read_buffer := store 0 m (read_buffer r), read_length := word_of_nat (length m)\<rparr>, d2)" by auto
    moreover have "take (length m) (store 0 m (read_buffer r)) = m" by (simp add: store_def)
    ultimately show ?thesis using d1(2) by (simp add: serial_loop.simps [of _ _ _ d1])
  qed
  let ?r = "\<lparr>echo = ?e, read_length = len, read_buffer = buffer\<rparr>"
  have "\<exists>b d1. serial_loop sys i ?r d = Some (STATUS_SUCCESS, b, d1) \<and> read_length b = word_of_nat (length m) \<and> take (length m) (read_buffer b) = m \<and> ready sys inp i rest d1"
  proof (cases ?e)
    case False
    with assms(1,7) show ?thesis by (intro plain) (simp_all add: echoed_def)
  next
    case True
    with assms(1) have "ready sys inp i (notified ns1 @ framed command l1 @ notified ns2 @ framed m l2 @ rest) d" by (simp add: echoed_def)
    from loop_notified [OF this assms(2)] obtain d1 where d1: "ready sys inp i (framed command l1 @ notified ns2 @ framed m l2 @ rest) d1"
      "serial_loop sys i ?r d = serial_loop sys i ?r d1" by blast
    let ?r1 = "?r\<lparr>read_buffer := store 0 command buffer, echo := False\<rparr>"
    from start_message [OF d1(1) assms(4), of ?r] True assms(6) obtain d2 where d2: "ready sys inp i (notified ns2 @ framed m l2 @ rest) d2"
      "serial_start sys i ?r d1 = Some (Restart, ?r1, d2)" by auto
    have "serial_loop sys i ?r d = serial_loop sys i ?r1 d2" using d1(2) d2(2) by (simp add: serial_loop.simps [of _ _ _ d1])
    moreover have "\<exists>b d1. serial_loop sys i ?r1 d2 = Some (STATUS_SUCCESS, b, d1) \<and> read_length b = word_of_nat (length m)
        \<and> take (length m) (read_buffer b) = m \<and> ready sys inp i rest d1"
      by (rule plain [OF d2(1)]) (use assms(6,7) in simp_all)
    ultimately show ?thesis by simp
  qed
  then show ?thesis by (auto simp: ReadSerial_def)
qed

subsection \<open>What the driver may rely on\<close>

text \<open>C24: \<^verbatim>\<open>ReadSerial\<close> returns exactly the message of the reader, behind the echo of a command written by \<^verbatim>\<open>WriteSerial\<close> (where the reader echoes)
  and any notifications before and after it, in whatever chunks the line delivers the bytes; the bytes behind the message stay for the next call.\<close>

theorem serial_message_arrives:
  assumes "ready sys inp i (stream @ notified ns2 @ serial_frame m @ rest) d"
    and "stream = (if ser_echo (serialDevice d ! i) then notified ns1 @ serial_frame command else [])"
    and "list_all notification_ok ns1" and "list_all notification_ok ns2" and "ccid_message_ok command" and "ccid_message_ok m"
    and "length command \<le> length buffer" and "length m \<le> length buffer"
  shows "\<exists>b d1. ReadSerial sys i len buffer d = Some (STATUS_SUCCESS, word_of_nat (length m), b, d1) \<and> take (length m) b = m \<and> available inp i d1 = rest"
proof -
  let ?l = "\<lambda>m. foldl (XOR) 0 ([SYNC, CTRL_ACK] @ m)"
  have "stream = echoed (ser_echo (serialDevice d ! i)) ns1 command (?l command)" unfolding assms(2) by (simp add: echoed_def serial_frame_framed)
  with assms(1) have "ready sys inp i (echoed (ser_echo (serialDevice d ! i)) ns1 command (?l command) @ notified ns2 @ framed m (?l m) @ rest) d"
    by (simp only: serial_frame_framed)
  from read_message [OF this assms(3-8), of len] show ?thesis unfolding ready_def by blast
qed

text \<open>The checksum is not checked: a message with any last byte is taken for a good one.\<close>

theorem any_checksum_accepted:
  assumes "ready sys inp i (framed m lrc @ rest) d" and "\<not> ser_echo (serialDevice d ! i)" and "ccid_message_ok m" and "length m \<le> length buffer"
  shows "\<exists>b d1. ReadSerial sys i len buffer d = Some (STATUS_SUCCESS, word_of_nat (length m), b, d1) \<and> take (length m) b = m"
  using read_message [of sys inp i d "[]" m lrc "[]" m lrc rest buffer len] assms by (auto simp: echoed_def notified_def)

text \<open>C25: In every sequence of calls the read positions of every port stay inside its buffer and the pointers of its entry inside the table.\<close>

theorem serial_tables_consistent:
  assumes "serial_step\<^sup>*\<^sup>* (serial_init s) d" and "i < CCID_DRIVER_MAX_READERS"
  shows "device_ok (serialDevice d ! i)"
proof -
  have "serial_ok (serial_init s)" by (simp add: serial_ok_def serial_init_def device_ok_def list_all_length)
  from ser.run_good [OF assms(1) this] show ?thesis using assms(2) by (rule serial_ok_nth)
qed

text \<open>C26: Two slots of a reader share the name of their port. When the first one is closed before the second, its entry keeps the name that is freed with
  the second: the next attempt to open any port reads freed memory.\<close>

theorem closed_slot_keeps_freed_name:
  assumes "serial_ok d" and "i < CCID_DRIVER_MAX_READERS" and "j < CCID_DRIVER_MAX_READERS" and "i \<noteq> j"
    and "ser_device (serialDevice d ! i) = Some a" and "ser_device (serialDevice d ! j) = Some a" and "a < length (device_names d)"
    and "ser_nb_opened_slots (serialDevice d ! i) = Some k" and "ser_nb_opened_slots (serialDevice d ! j) = Some k"
    and "ser_real_nb_opened_slots (serialDevice d ! k) = 2" and "\<forall>p < i. ser_device (serialDevice d ! p) = None"
    and "CloseSerial sys i d = Some (st1, d1)" and "CloseSerial sys j d1 = Some (st2, d2)"
  shows "OpenSerialByName sys l name fresh d2 = None"
proof -
  have len: "length (serialDevice d) = 16" and k: "k < 16"
    using assms(1,8) serial_ok_nth [OF assms(1,2)] by (simp_all add: serial_ok_def device_ok_def)
  let ?dec = "upd_serial k (\<lambda>y. y\<lparr>ser_real_nb_opened_slots := ser_real_nb_opened_slots y - 1\<rparr>)"
  have d1: "d1 = ?dec d" using assms(5,8,10,12) len k by (simp add: CloseSerial_def Let_def)
  have same: "ser_device (serialDevice d1 ! p) = ser_device (serialDevice d ! p)" "ser_nb_opened_slots (serialDevice d1 ! p) = ser_nb_opened_slots (serialDevice d ! p)" for p
    using d1 len k by (cases "p = k"; simp)+
  have one: "ser_real_nb_opened_slots (serialDevice d1 ! k) = 1" using d1 len k assms(10) by simp
  from assms(13) have d2: "\<exists>s. d2 = (upd_serial j (\<lambda>y. y\<lparr>ser_fd := -1, ser_device := None\<rparr>) (with_world (?dec d1) s))\<lparr>device_names := (device_names d1)[a := None]\<rparr>"
    using same assms(6,9) one len k d1 by (auto simp: CloseSerial_def Let_def bind_eq_Some_conv)
  have dev: "ser_device (serialDevice d2 ! p) = (if p = j then None else ser_device (serialDevice d ! p))" for p
    using d2 same len k d1 assms(3) by (cases "p = k"; cases "p = j") auto
  have "name_of d2 a = None" using d2 d1 assms(7) by (auto simp: name_of_def)
  moreover have "drop i (serialDevice d2) = serialDevice d2 ! i # drop (Suc i) (serialDevice d2)"
    using d2 d1 len assms(2) by (auto simp: Cons_nth_drop_Suc)
  ultimately have rest: "already_used d2 n (drop i (serialDevice d2)) = None" for n using dev assms(4,5) by simp
  have skip: "\<forall>x \<in> set xs. ser_device x = None \<Longrightarrow> already_used d2 n (xs @ ys) = already_used d2 n ys" for xs ys n
    by (induction xs) auto
  have "\<forall>x \<in> set (take i (serialDevice d2)). ser_device x = None"
    using dev assms(11) by (auto simp: in_set_conv_nth)
  from skip [OF this, of _ "drop i (serialDevice d2)"] rest have "already_used d2 n (serialDevice d2) = None" for n by simp
  then show ?thesis by (simp add: OpenSerialByName_def set_ccid_descriptor_def Let_def split: prod.split)
qed

subsection \<open>Witnesses\<close>

text \<open>A reader that echoes what it gets, reports the card and answers with an empty message; the line delivers three bytes at a time.\<close>

abbreviation (input) sample_message :: "UCHAR list" where "sample_message \<equiv> [0x83, 0, 0, 0, 0, 0, 1, 0, 0, 0]"

definition sample_port :: "UCHAR list serial_port" where
  "sample_port = \<lparr>sp_open = \<lambda>_ s. (0, s), sp_close = \<lambda>_ s. s,
     sp_write = \<lambda>_ bs s. (int (length bs), s @ bs @ notified [Slot_Change 3] @ serial_frame sample_message),
     sp_select = \<lambda>_ _ s. (if s = [] then 0 else 1, s), sp_read = \<lambda>_ n s. (Some (take (min 3 n) s), drop (min 3 n) s),
     sp_get_signals = \<lambda>_ s. (None, s), sp_set_signals = \<lambda>_ _ s. s, sp_tcflush = \<lambda>_ s. s, sp_tcgetattr = \<lambda>_ s. (None, s),
     sp_tcsetattr = \<lambda>_ _ s. (True, s)\<rparr>"

lemma sample_line: "line sample_port fd (\<lambda>s. s)"
  by (auto simp: line_def sample_port_def)

definition sample_serial :: "UCHAR list serial_driver" where
  "sample_serial = upd_serial 0 (first_slot 0 GEMPCTWIN) (serial_init [])"

lemma init_ok: "serial_ok (serial_init s)"
  by (simp add: serial_ok_def serial_init_def device_ok_def list_all_length)

lemma sample_ready: "ready sample_port (\<lambda>s. s) 0 bs (with_world sample_serial bs)"
proof -
  have "serial_ok sample_serial" unfolding sample_serial_def by (rule serial_ok_upd [OF init_ok]) (simp_all add: device_ok_def first_slot_def)
  then show ?thesis using sample_line by (simp add: ready_def available_def Let_def sample_serial_def first_slot_def serial_init_def)
qed

theorem serial_message_arrives_witness:
  "\<exists>d1 b d2. WriteSerial sample_port 0 [0x6B, 0, 0, 0, 0, 0, 1, 0, 0, 0] sample_serial = (STATUS_SUCCESS, d1)
    \<and> ReadSerial sample_port 0 60 (replicate 60 0) d1 = Some (STATUS_SUCCESS, 10, b, d2) \<and> take (length sample_message) b = sample_message"
proof -
  let ?c = "[0x6B, 0, 0, 0, 0, 0, 1, 0, 0, 0] :: UCHAR list"
  let ?s = "serial_frame ?c @ notified [Slot_Change 3] @ serial_frame sample_message"
  have w: "WriteSerial sample_port 0 ?c sample_serial = (STATUS_SUCCESS, with_world sample_serial ?s)"
    by (simp add: WriteSerial_def sample_port_def sample_serial_def serial_init_def serial_frame_def)
  have ok: "ccid_message_ok ?c" "ccid_message_ok sample_message" by (simp_all add: ccid_message_ok_def dw2i_def)
  have r: "ready sample_port (\<lambda>s. s) 0 (serial_frame ?c @ notified [Slot_Change 3] @ serial_frame sample_message @ []) (with_world sample_serial ?s)"
    using sample_ready [of ?s] by simp
  have e: "serial_frame ?c = (if ser_echo (serialDevice (with_world sample_serial ?s) ! 0) then notified [] @ serial_frame ?c else [])"
    by (simp add: sample_serial_def first_slot_def serial_init_def notified_def)
  from serial_message_arrives [OF r e _ _ ok, of "replicate 60 0" 60] w show ?thesis by auto
qed

theorem any_checksum_accepted_witness:
  "\<exists>b d1. ReadSerial sample_port 0 60 (replicate 60 0) (with_world (upd_serial 0 (first_slot 0 GEMCORESIMPRO) (serial_init [])) (framed sample_message 0xFF))
    = Some (STATUS_SUCCESS, 10, b, d1) \<and> take (length sample_message) b = sample_message"
proof -
  let ?d = "upd_serial 0 (first_slot 0 GEMCORESIMPRO) (serial_init [])"
  have "serial_ok ?d" by (rule serial_ok_upd [OF init_ok]) (simp_all add: device_ok_def first_slot_def)
  then have r: "ready sample_port (\<lambda>s. s) 0 (framed sample_message 0xFF @ []) (with_world ?d (framed sample_message 0xFF))"
    using sample_line by (simp add: ready_def available_def Let_def first_slot_def serial_init_def)
  have e: "\<not> ser_echo (serialDevice (with_world ?d (framed sample_message 0xFF)) ! 0)" by (simp add: first_slot_def serial_init_def)
  have "ccid_message_ok sample_message" by (simp add: ccid_message_ok_def dw2i_def)
  from any_checksum_accepted [OF r e this, of "replicate 60 0" 60] show ?thesis by simp
qed

theorem serial_tables_consistent_witness:
  "\<exists>d1. CloseSerial sample_port 3 (serial_init []) = Some (STATUS_UNSUCCESSFUL, d1) \<and> device_ok (serialDevice d1 ! 15)"
proof -
  have c: "CloseSerial sample_port 3 (serial_init []) = Some (STATUS_UNSUCCESSFUL, serial_init [])" by (simp add: CloseSerial_def serial_init_def)
  have "serial_step (serial_init []) (serial_init ([] :: UCHAR list))" by (rule close_step [OF _ c]) simp
  then have "serial_step\<^sup>*\<^sup>* (serial_init []) (serial_init ([] :: UCHAR list))" by (rule r_into_rtranclp)
  from serial_tables_consistent [OF this, of 15] c show ?thesis by simp
qed

lemma already_used_first: "xs \<noteq> [] \<Longrightarrow> ser_device (xs ! 0) = Some a \<Longrightarrow> name_of d a = Some n \<Longrightarrow> already_used d n xs = Some True"
  by (cases xs) simp_all

text \<open>A GemCore POS Pro on port COM1 whose second slot is opened.\<close>

theorem closed_slot_keeps_freed_name_witness:
  "\<exists>d d1 d2. set_ccid_descriptor 1 ''GemCorePOSPro'' ''COM1''
      ((upd_serial 0 (\<lambda>x. (first_slot 0 GEMCOREPOSPRO x)\<lparr>ser_device := Some 0\<rparr>) (serial_init []))\<lparr>ser_previous := Some 0, device_names := [Some ''COM1'']\<rparr>)
      = Some (STATUS_SECONDARY_SLOT, d)
    \<and> CloseSerial sample_port 0 d = Some (STATUS_SUCCESS, d1) \<and> CloseSerial sample_port 1 d1 = Some (STATUS_SUCCESS, d2)
    \<and> OpenSerialByName sample_port 2 ''COM2'' (\<lambda>_. 0) d2 = None"
proof -
  let ?d0 = "(upd_serial 0 (\<lambda>x. (first_slot 0 GEMCOREPOSPRO x)\<lparr>ser_device := Some 0\<rparr>) (serial_init ([] :: UCHAR list)))\<lparr>ser_previous := Some 0, device_names := [Some ''COM1'']\<rparr>"
  have "serial_ok (upd_serial 0 (\<lambda>x. (first_slot 0 GEMCOREPOSPRO x)\<lparr>ser_device := Some 0\<rparr>) (serial_init ([] :: UCHAR list)))"
    by (rule serial_ok_upd [OF init_ok]) (simp_all add: device_ok_def first_slot_def)
  then have ok0: "serial_ok ?d0" by (auto simp: serial_ok_def)
  have len: "length (serialDevice (serial_init ([] :: UCHAR list))) = 16" by (simp add: serial_init_def)
  have used: "already_used ?d0 ''COM1'' (serialDevice ?d0) = Some True"
    by (rule already_used_first [of _ 0]) (use len in \<open>simp_all add: name_of_def upd_serial_def upd_at_def flip: length_greater_0_conv\<close>)
  obtain d where d: "set_ccid_descriptor 1 ''GemCorePOSPro'' ''COM1'' ?d0 = Some (STATUS_SECONDARY_SLOT, d)"
    and f: "ser_device (serialDevice d ! 0) = Some 0" "ser_device (serialDevice d ! 1) = Some 0" "0 < length (device_names d)"
      "ser_nb_opened_slots (serialDevice d ! 0) = Some 0" "ser_nb_opened_slots (serialDevice d ! 1) = Some 0" "ser_real_nb_opened_slots (serialDevice d ! 0) = 2"
      "device_names d = [Some ''COM1'']"
    unfolding set_ccid_descriptor_def used Let_def
    by (simp add: reusable_def secondary_slot_def Let_def name_of_def upd_ser_ccid_def len first_slot_def)
  have ok: "serial_ok d" using set_ccid_descriptor_ok [OF d ok0] by simp
  then have l: "length (serialDevice d) = 16" by (simp add: serial_ok_def)
  obtain d1 where c1: "CloseSerial sample_port 0 d = Some (STATUS_SUCCESS, d1)"
    and d1: "d1 = upd_serial 0 (\<lambda>y. y\<lparr>ser_real_nb_opened_slots := ser_real_nb_opened_slots y - 1\<rparr>) d" using f l by (simp add: CloseSerial_def Let_def)
  obtain d2 where c2: "CloseSerial sample_port 1 d1 = Some (STATUS_SUCCESS, d2)" using f l by (simp add: CloseSerial_def Let_def d1 name_of_def)
  from closed_slot_keeps_freed_name [OF ok _ _ _ f(1-6) _ c1 c2, of 2 "''COM2''"] d c1 c2 show ?thesis by auto
qed

end
