(* ===== verification/Clnt.thy ===== *)
theory Clnt
  imports Svc
begin

section \<open>The client library (PCSC/src/winscard\_clnt.c)\<close>

text \<open>
  The library that applications are linked with. It keeps a table of contexts with the handles of each one, asks the daemon for the states of the
  readers, and sends a request for every call. Requests and replies are the datatypes of theory \<open>Svc\<close>. The system is a parameter, a value of
  \<open>'s clnt_system\<close> on an outside world \<open>'s\<close> in which daemon and other clients go on: the socket file, process numbers,
  sessions, messages, memory. A reply of another kind than expected has bytes that this model does not interpret: \<open>None\<close>.

  A call is one step, since it holds the mutex of its context, which is always allocated; the second look-up after the mutex was taken finds what the first
  one found. Only \<^verbatim>\<open>SCardCancel\<close> works without the mutex: \<open>cancelled\<close> tells whether another thread called it during a wait.
\<close>

abbreviation (input) SCARD_E_TIMEOUT :: LONG where "SCARD_E_TIMEOUT \<equiv> 0x8010000A"
abbreviation (input) SCARD_F_COMM_ERROR :: LONG where "SCARD_F_COMM_ERROR \<equiv> 0x80100013"
abbreviation (input) SCARD_E_NO_READERS_AVAILABLE :: LONG where "SCARD_E_NO_READERS_AVAILABLE \<equiv> 0x8010002E"
abbreviation (input) BLOCK_STATUS_RESUME :: DWORD where "BLOCK_STATUS_RESUME \<equiv> 0x00FF"
abbreviation (input) BLOCK_STATUS_BLOCKING :: DWORD where "BLOCK_STATUS_BLOCKING \<equiv> 0x00FA"
abbreviation (input) PCSCLITE_READ_TIMEOUT :: int where "PCSCLITE_READ_TIMEOUT \<equiv> 120000"
abbreviation (input) PCSCLITE_MAX_APPLICATION_CONTEXTS :: nat where "PCSCLITE_MAX_APPLICATION_CONTEXTS \<equiv> 16"
abbreviation (input) SCARD_AUTOALLOCATE :: DWORD where "SCARD_AUTOALLOCATE \<equiv> -1"
abbreviation (input) INFINITE :: DWORD where "INFINITE \<equiv> 0xFFFFFFFF"

record channel_map =
  chan_hCard :: SCARDHANDLE
  chan_readerName :: "string option"

record context_map =
  map_dwClientID :: DWORD
  map_hContext :: SCARDCONTEXT
  contextBlockStatus :: DWORD
  psChannelMap :: "channel_map list"

text \<open>The static variables; \<open>clnt_states\<close> is the copy of the states of the readers.\<close>

record 's clnt =
  psContextMap :: "context_map list"
  isExecuted :: bool
  daemon_ctime :: int
  daemon_pid :: int
  client_pid :: int
  clnt_states :: "READER_STATE list"
  outside :: 's

record 's clnt_system =
  stat_socket :: "'s \<Rightarrow> int option"
  GetDaemonPid :: "'s \<Rightarrow> int"
  getpid :: "'s \<Rightarrow> int"
  SHMClientSetupSession :: "'s \<Rightarrow> DWORD option \<times> 's"
  SHMClientCloseSession :: "DWORD \<Rightarrow> 's \<Rightarrow> 's"
  SHMMessageSendWithHeader :: "DWORD \<Rightarrow> request \<Rightarrow> 's \<Rightarrow> bool \<times> 's"
  SHMMessageReceive :: "DWORD \<Rightarrow> int \<Rightarrow> 's \<Rightarrow> reply option \<times> 's"
  receive_data :: "DWORD \<Rightarrow> 's \<Rightarrow> bool \<times> 's"
  malloc :: "nat \<Rightarrow> 's \<Rightarrow> (nat \<Rightarrow> UCHAR) option"
  gettimeofday :: "'s \<Rightarrow> int"
  cancelled :: "SCARDCONTEXT \<Rightarrow> 's \<Rightarrow> bool"
  garbage :: "'s \<Rightarrow> DWORD"

subsection \<open>Contexts and handles\<close>

definition empty_map :: context_map where
  "empty_map = \<lparr>map_dwClientID = 0, map_hContext = 0, contextBlockStatus = BLOCK_STATUS_RESUME,
     psChannelMap = replicate PCSCLITE_MAX_APPLICATION_CONTEXT_CHANNELS \<lparr>chan_hCard = 0, chan_readerName = None\<rparr>\<rparr>"

definition upd_map :: "nat \<Rightarrow> (context_map \<Rightarrow> context_map) \<Rightarrow> 's clnt \<Rightarrow> 's clnt" where
  "upd_map i f c = c\<lparr>psContextMap := upd_at i f (psContextMap c)\<rparr>"

definition SCardGetContextIndiceTH :: "SCARDCONTEXT \<Rightarrow> 's clnt \<Rightarrow> nat option" where
  "SCardGetContextIndiceTH hContext c = first_index (\<lambda>m. hContext = map_hContext m \<and> hContext \<noteq> 0) (psContextMap c)"

definition SCardGetContextIndice :: "SCARDCONTEXT \<Rightarrow> 's clnt \<Rightarrow> nat option" where
  "SCardGetContextIndice hContext c = SCardGetContextIndiceTH hContext c"

definition SCardAddContext :: "SCARDCONTEXT \<Rightarrow> DWORD \<Rightarrow> 's clnt \<Rightarrow> LONG \<times> 's clnt" where
  "SCardAddContext hContext dwClientID c =
    (case first_index (\<lambda>m. map_hContext m = 0) (psContextMap c) of
       None \<Rightarrow> (SCARD_E_NO_MEMORY, c)
     | Some i \<Rightarrow> (SCARD_S_SUCCESS, upd_map i (\<lambda>m. m\<lparr>map_hContext := hContext, map_dwClientID := dwClientID, contextBlockStatus := BLOCK_STATUS_RESUME\<rparr>) c))"

definition SCardCleanContext :: "'s clnt_system \<Rightarrow> nat \<Rightarrow> 's clnt \<Rightarrow> LONG \<times> 's clnt" where
  "SCardCleanContext sys i c = (SCARD_S_SUCCESS,
     (upd_map i (\<lambda>_. empty_map) c)\<lparr>outside := SHMClientCloseSession sys (map_dwClientID (psContextMap c ! i)) (outside c)\<rparr>)"

definition SCardRemoveContext :: "'s clnt_system \<Rightarrow> SCARDCONTEXT \<Rightarrow> 's clnt \<Rightarrow> LONG \<times> 's clnt" where
  "SCardRemoveContext sys hContext c =
    (case SCardGetContextIndiceTH hContext c of None \<Rightarrow> (SCARD_E_INVALID_HANDLE, c) | Some i \<Rightarrow> SCardCleanContext sys i c)"

text \<open>The channels of one context.\<close>

definition add_channel :: "string \<Rightarrow> context_map \<Rightarrow> SCARDHANDLE \<Rightarrow> LONG \<times> context_map" where
  "add_channel name m h =
    (case first_index (\<lambda>x. chan_hCard x = 0) (psChannelMap m) of
       None \<Rightarrow> (SCARD_E_NO_MEMORY, m)
     | Some j \<Rightarrow> (SCARD_S_SUCCESS, m\<lparr>psChannelMap := (psChannelMap m)[j := \<lparr>chan_hCard = h, chan_readerName = Some name\<rparr>]\<rparr>))"

definition remove_channel :: "context_map \<Rightarrow> SCARDHANDLE \<Rightarrow> LONG \<times> context_map" where
  "remove_channel m h =
    (case first_index (\<lambda>x. chan_hCard x = h) (psChannelMap m) of
       None \<Rightarrow> (SCARD_E_INVALID_HANDLE, m)
     | Some j \<Rightarrow> (SCARD_S_SUCCESS, m\<lparr>psChannelMap := (psChannelMap m)[j := \<lparr>chan_hCard = 0, chan_readerName = None\<rparr>]\<rparr>))"

definition SCardAddHandle :: "SCARDHANDLE \<Rightarrow> nat \<Rightarrow> string \<Rightarrow> 's clnt \<Rightarrow> LONG \<times> 's clnt" where
  "SCardAddHandle h i name c = (let (rv, m) = add_channel name (psContextMap c ! i) h in (rv, upd_map i (\<lambda>_. m) c))"

definition SCardGetIndicesFromHandleTH :: "SCARDHANDLE \<Rightarrow> 's clnt \<Rightarrow> (nat \<times> nat) option" where
  "SCardGetIndicesFromHandleTH h c =
    (case first_index (\<lambda>m. map_hContext m \<noteq> 0 \<and> (\<exists>x \<in> set (psChannelMap m). chan_hCard x = h)) (psContextMap c) of
       None \<Rightarrow> None
     | Some i \<Rightarrow> map_option (Pair i) (first_index (\<lambda>x. chan_hCard x = h) (psChannelMap (psContextMap c ! i))))"

definition SCardGetIndicesFromHandle :: "SCARDHANDLE \<Rightarrow> 's clnt \<Rightarrow> (nat \<times> nat) option" where
  "SCardGetIndicesFromHandle h c = (if h = 0 then None else SCardGetIndicesFromHandleTH h c)"

definition SCardRemoveHandle :: "SCARDHANDLE \<Rightarrow> 's clnt \<Rightarrow> LONG \<times> 's clnt" where
  "SCardRemoveHandle h c =
    (case SCardGetIndicesFromHandle h c of
       None \<Rightarrow> (SCARD_E_INVALID_HANDLE, c)
     | Some (i, j) \<Rightarrow> let (rv, m) = remove_channel (psContextMap c ! i) h in (rv, upd_map i (\<lambda>_. m) c))"

subsection \<open>Talking to the daemon\<close>

definition clean_contexts :: "'s clnt_system \<Rightarrow> 's clnt \<Rightarrow> 's clnt" where
  "clean_contexts sys c =
     foldl (\<lambda>c i. if map_hContext (psContextMap c ! i) \<noteq> 0 then snd (SCardCleanContext sys i c) else c) c [0..<PCSCLITE_MAX_APPLICATION_CONTEXTS]"

definition SCardCheckDaemonAvailability :: "'s clnt_system \<Rightarrow> 's clnt \<Rightarrow> LONG \<times> 's clnt" where
  "SCardCheckDaemonAvailability sys c =
    (case stat_socket sys (outside c) of
       None \<Rightarrow> (SCARD_E_NO_SERVICE, c)
     | Some ctime \<Rightarrow>
        if daemon_ctime c \<noteq> 0 \<and> ctime > daemon_ctime c \<and> GetDaemonPid sys (outside c) \<noteq> daemon_pid c
          \<or> client_pid c \<noteq> 0 \<and> client_pid c \<noteq> getpid sys (outside c)
        then (SCARD_E_INVALID_HANDLE, (clean_contexts sys c)\<lparr>daemon_ctime := 0, client_pid := 0\<rparr>)
        else (SCARD_S_SUCCESS, c\<lparr>daemon_ctime := ctime, daemon_pid := GetDaemonPid sys (outside c), client_pid := getpid sys (outside c)\<rparr>))"

text \<open>A request and its reply, or the error of the call.\<close>

definition ask :: "'s clnt_system \<Rightarrow> DWORD \<Rightarrow> request \<Rightarrow> 's clnt \<Rightarrow> (LONG + reply) \<times> 's clnt" where
  "ask sys fd req c =
    (let (sent, s) = SHMMessageSendWithHeader sys fd req (outside c) in
     if \<not> sent then (Inl SCARD_E_NO_SERVICE, c\<lparr>outside := s\<rparr>)
     else let (r, s1) = SHMMessageReceive sys fd PCSCLITE_READ_TIMEOUT s in
       (case r of None \<Rightarrow> Inl SCARD_F_COMM_ERROR | Some reply \<Rightarrow> Inr reply, c\<lparr>outside := s1\<rparr>))"

definition ask_in :: "'s clnt_system \<Rightarrow> nat \<Rightarrow> request \<Rightarrow> 's clnt \<Rightarrow> (LONG + reply) \<times> 's clnt" where
  "ask_in sys i req c = ask sys (map_dwClientID (psContextMap c ! i)) req c"

text \<open>A request whose reply has only a return code: \<open>Inl\<close> when there was none.\<close>

definition ask_code :: "'s clnt_system \<Rightarrow> nat \<Rightarrow> request \<Rightarrow> 's clnt \<Rightarrow> ((LONG + LONG) \<times> 's clnt) option" where
  "ask_code sys i req c =
    (case ask_in sys i req c of
       (Inl e, c1) \<Rightarrow> Some (Inl e, c1)
     | (Inr (Code_Reply rv), c1) \<Rightarrow> Some (Inr rv, c1)
     | _ \<Rightarrow> None)"

definition getReaderStates :: "'s clnt_system \<Rightarrow> nat \<Rightarrow> 's clnt \<Rightarrow> (LONG \<times> 's clnt) option" where
  "getReaderStates sys i c =
    (case ask_in sys i Get_Readers_State c of
       (Inl e, c1) \<Rightarrow> Some (e, c1)
     | (Inr (States_Reply rs), c1) \<Rightarrow> Some (SCARD_S_SUCCESS, c1\<lparr>clnt_states := rs\<rparr>)
     | _ \<Rightarrow> None)"

text \<open>The beginning of most calls: is the daemon there, and is the context or the handle known? \<open>Inl\<close> is the value the call returns.\<close>

definition open_context :: "'s clnt_system \<Rightarrow> SCARDCONTEXT \<Rightarrow> 's clnt \<Rightarrow> (LONG + nat) \<times> 's clnt" where
  "open_context sys hContext c =
    (let (rv, c1) = SCardCheckDaemonAvailability sys c in
     if rv \<noteq> SCARD_S_SUCCESS then (Inl rv, c1)
     else case SCardGetContextIndice hContext c1 of None \<Rightarrow> (Inl SCARD_E_INVALID_HANDLE, c1) | Some i \<Rightarrow> (Inr i, c1))"

definition open_handle :: "'s clnt_system \<Rightarrow> SCARDHANDLE \<Rightarrow> 's clnt \<Rightarrow> (LONG + nat \<times> nat) \<times> 's clnt" where
  "open_handle sys h c =
    (let (rv, c1) = SCardCheckDaemonAvailability sys c in
     if rv \<noteq> SCARD_S_SUCCESS then (Inl rv, c1)
     else case SCardGetIndicesFromHandle h c1 of None \<Rightarrow> (Inl SCARD_E_INVALID_HANDLE, c1) | Some ij \<Rightarrow> (Inr ij, c1))"

text \<open>The reader of a channel in the fresh copy of the states; with a NULL name it is never found.\<close>

definition find_state :: "nat \<Rightarrow> nat \<Rightarrow> 's clnt \<Rightarrow> nat option" where
  "find_state i j c =
    (case chan_readerName (psChannelMap (psContextMap c ! i) ! j) of
       None \<Rightarrow> None
     | Some r \<Rightarrow> first_index (\<lambda>s. r = readerName s) (clnt_states c))"

definition synchronize :: "'s clnt_system \<Rightarrow> nat \<Rightarrow> nat \<Rightarrow> 's clnt \<Rightarrow> ((LONG + nat) \<times> 's clnt) option" where
  "synchronize sys i j c = do {
     (rv, c1) \<leftarrow> getReaderStates sys i c;
     Some (if rv \<noteq> SCARD_S_SUCCESS then Inl rv
       else (case find_state i j c1 of None \<Rightarrow> Inl SCARD_E_READER_UNAVAILABLE | Some k \<Rightarrow> Inr k), c1)
   }"

text \<open>Both together, with the indices of context, channel and reader.\<close>

definition open_card :: "'s clnt_system \<Rightarrow> SCARDHANDLE \<Rightarrow> 's clnt \<Rightarrow> ((LONG + nat \<times> nat \<times> nat) \<times> 's clnt) option" where
  "open_card sys h c =
    (case open_handle sys h c of
       (Inl e, c1) \<Rightarrow> Some (Inl e, c1)
     | (Inr (i, j), c1) \<Rightarrow> do {
         (r, c2) \<leftarrow> synchronize sys i j c1;
         Some (case r of Inl e \<Rightarrow> Inl e | Inr k \<Rightarrow> Inr (i, j, k), c2)
       })"

subsection \<open>Contexts\<close>

text \<open>The label \<^verbatim>\<open>again\<close>: until the daemon gives a context number that is not in use here. The result has \<^verbatim>\<open>*phContext\<close>.\<close>

partial_function (option) establish_again :: "'s clnt_system \<Rightarrow> DWORD \<Rightarrow> DWORD \<Rightarrow> 's clnt \<Rightarrow> (LONG \<times> SCARDCONTEXT \<times> 's clnt) option" where
  "establish_again sys dwScope fd c =
    (case ask sys fd (Establish_Context dwScope) c of
       (Inl e, c1) \<Rightarrow> Some (e, 0, c1)
     | (Inr r, c1) \<Rightarrow>
        (case r of
           Context_Reply rv hContext \<Rightarrow>
             if rv \<noteq> SCARD_S_SUCCESS then Some (rv, 0, c1)
             else if SCardGetContextIndiceTH hContext c1 \<noteq> None then establish_again sys dwScope fd c1
             else let (rv1, c2) = SCardAddContext hContext fd c1 in Some (rv1, hContext, c2)
         | _ \<Rightarrow> None))"

definition SCardEstablishContextTH :: "'s clnt_system \<Rightarrow> DWORD \<Rightarrow> bool \<Rightarrow> 's clnt \<Rightarrow> (LONG \<times> SCARDCONTEXT \<times> 's clnt) option" where
  "SCardEstablishContextTH sys dwScope phContext c =
    (if \<not> phContext then Some (SCARD_E_INVALID_PARAMETER, 0, c)
     else let c0 = (if isExecuted c then c else c\<lparr>psContextMap := replicate PCSCLITE_MAX_APPLICATION_CONTEXTS empty_map\<rparr>) in
       if first_index (\<lambda>m. map_dwClientID m = 0) (psContextMap c0) = None then Some (SCARD_E_NO_MEMORY, 0, c0)
       else case SHMClientSetupSession sys (outside c0) of
         (None, s) \<Rightarrow> Some (SCARD_E_NO_SERVICE, 0, c0\<lparr>outside := s\<rparr>)
       | (Some fd, s) \<Rightarrow>
          (case ask sys fd (Version PROTOCOL_VERSION_MAJOR PROTOCOL_VERSION_MINOR) (c0\<lparr>outside := s\<rparr>) of
             (Inl e, c1) \<Rightarrow> Some (e, 0, c1)
           | (Inr (Version_Reply rv major minor), c1) \<Rightarrow>
               if rv \<noteq> SCARD_S_SUCCESS then Some (rv, 0, c1) else establish_again sys dwScope fd (c1\<lparr>isExecuted := True\<rparr>)
           | _ \<Rightarrow> None))"

definition SCardEstablishContext_clnt :: "'s clnt_system \<Rightarrow> DWORD \<Rightarrow> bool \<Rightarrow> 's clnt \<Rightarrow> (LONG \<times> SCARDCONTEXT \<times> 's clnt) option" where
  "SCardEstablishContext_clnt sys dwScope phContext c =
    (let (rv, c1) = SCardCheckDaemonAvailability sys c;
         (rv1, c2) = (if rv = SCARD_E_INVALID_HANDLE then SCardCheckDaemonAvailability sys c1 else (rv, c1)) in
     if rv1 \<noteq> SCARD_S_SUCCESS then Some (rv1, 0, c2) else SCardEstablishContextTH sys dwScope phContext c2)"

definition SCardReleaseContext_clnt :: "'s clnt_system \<Rightarrow> SCARDCONTEXT \<Rightarrow> 's clnt \<Rightarrow> (LONG \<times> 's clnt) option" where
  "SCardReleaseContext_clnt sys hContext c =
    (case SCardGetContextIndice hContext c of
       None \<Rightarrow> Some (SCARD_E_INVALID_HANDLE, c)
     | Some i \<Rightarrow>
        let (rv, c1) = SCardCheckDaemonAvailability sys c in
        if rv \<noteq> SCARD_S_SUCCESS then Some (rv, snd (SCardRemoveContext sys hContext c1))
        else case SCardGetContextIndice hContext c1 of
          None \<Rightarrow> Some (SCARD_E_INVALID_HANDLE, c1)
        | Some i \<Rightarrow> do {
            (r, c2) \<leftarrow> ask_code sys i (Release_Context hContext) c1;
            Some (case r of Inl e \<Rightarrow> (e, c2) | Inr rv \<Rightarrow> (rv, snd (SCardRemoveContext sys hContext c2)))
          })"

definition SCardIsValidContext_clnt :: "'s clnt_system \<Rightarrow> SCARDCONTEXT \<Rightarrow> 's clnt \<Rightarrow> LONG \<times> 's clnt" where
  "SCardIsValidContext_clnt sys hContext c =
    (case open_context sys hContext c of (Inl e, c1) \<Rightarrow> (e, c1) | (Inr i, c1) \<Rightarrow> (SCARD_S_SUCCESS, c1))"

definition SCardSetTimeout_clnt :: "SCARDCONTEXT \<Rightarrow> DWORD \<Rightarrow> LONG" where
  "SCardSetTimeout_clnt hContext dwTimeout = SCARD_S_SUCCESS"

text \<open>The session for the request is a new one and closed afterwards.\<close>

definition SCardCancel_clnt :: "'s clnt_system \<Rightarrow> SCARDCONTEXT \<Rightarrow> 's clnt \<Rightarrow> (LONG \<times> 's clnt) option" where
  "SCardCancel_clnt sys hContext c =
    (case SCardGetContextIndice hContext c of
       None \<Rightarrow> Some (SCARD_E_INVALID_HANDLE, c)
     | Some i \<Rightarrow>
        let c1 = upd_map i (\<lambda>m. m\<lparr>contextBlockStatus := BLOCK_STATUS_RESUME\<rparr>) c in
        (case SHMClientSetupSession sys (outside c1) of
           (None, s) \<Rightarrow> Some (SCARD_E_NO_SERVICE, c1\<lparr>outside := s\<rparr>)
         | (Some fd, s) \<Rightarrow>
            let close = (\<lambda>rv c2. Some (rv, c2\<lparr>outside := SHMClientCloseSession sys fd (outside c2)\<rparr>)) in
            (case ask sys fd (Cancel hContext) (c1\<lparr>outside := s\<rparr>) of
               (Inl e, c2) \<Rightarrow> close e c2
             | (Inr (Code_Reply rv), c2) \<Rightarrow> close rv c2
             | _ \<Rightarrow> None)))"

subsection \<open>Connections\<close>

text \<open>\<open>pointers\<close>: \<^verbatim>\<open>phCard\<close> and \<^verbatim>\<open>pdwActiveProtocol\<close> are not NULL; \<open>act\<close> is \<^verbatim>\<open>*pdwActiveProtocol\<close>. The name is copied into an array of
  \<^verbatim>\<open>MAX_READERNAME\<close> bytes, where one of exactly that length is not terminated.\<close>

definition SCardConnect_clnt :: "'s clnt_system \<Rightarrow> SCARDCONTEXT \<Rightarrow> string option \<Rightarrow> DWORD \<Rightarrow> DWORD \<Rightarrow> bool \<Rightarrow> DWORD \<Rightarrow> 's clnt
    \<Rightarrow> (LONG \<times> SCARDHANDLE \<times> DWORD \<times> 's clnt) option" where
  "SCardConnect_clnt sys hContext szReader m p pointers act c =
    (if \<not> pointers then Some (SCARD_E_INVALID_PARAMETER, 0, act, c)
     else case szReader of
       None \<Rightarrow> Some (SCARD_E_UNKNOWN_READER, 0, act, c)
     | Some name \<Rightarrow>
        if length name > MAX_READERNAME then Some (SCARD_E_INVALID_VALUE, 0, act, c)
        else case open_context sys hContext c of
          (Inl e, c1) \<Rightarrow> Some (e, 0, act, c1)
        | (Inr i, c1) \<Rightarrow>
           (case ask_in sys i (Connect hContext name m p 0) c1 of
              (Inl e, c2) \<Rightarrow> Some (e, 0, act, c2)
            | (Inr (Connect_Reply rv h act1), c2) \<Rightarrow>
                if rv = SCARD_S_SUCCESS then let (rv1, c3) = SCardAddHandle h i name c2 in Some (rv1, h, act1, c3)
                else Some (rv, h, act1, c2)
            | _ \<Rightarrow> None))"

text \<open>The loops of \<^verbatim>\<open>SCardReconnect\<close> and \<^verbatim>\<open>SCardBeginTransaction\<close>, which repeat the request while another application has the card.\<close>

partial_function (option) reconnect_loop :: "'s clnt_system \<Rightarrow> nat \<Rightarrow> request \<Rightarrow> DWORD \<Rightarrow> 's clnt \<Rightarrow> (LONG \<times> DWORD \<times> 's clnt) option" where
  "reconnect_loop sys i req act c =
    (case ask_in sys i req c of
       (Inl e, c1) \<Rightarrow> Some (e, act, c1)
     | (Inr r, c1) \<Rightarrow>
        (case r of
           Reconnect_Reply rv act1 \<Rightarrow> if rv = SCARD_E_SHARING_VIOLATION then reconnect_loop sys i req act c1 else Some (rv, act1, c1)
         | _ \<Rightarrow> None))"

definition SCardReconnect_clnt :: "'s clnt_system \<Rightarrow> SCARDHANDLE \<Rightarrow> DWORD \<Rightarrow> DWORD \<Rightarrow> DWORD \<Rightarrow> DWORD option \<Rightarrow> 's clnt
    \<Rightarrow> (LONG \<times> DWORD option \<times> 's clnt) option" where
  "SCardReconnect_clnt sys h m p d pdwActiveProtocol c =
    (case pdwActiveProtocol of
       None \<Rightarrow> Some (SCARD_E_INVALID_PARAMETER, None, c)
     | Some act \<Rightarrow> do {
         (r, c1) \<leftarrow> open_card sys h c;
         (case r of
            Inl e \<Rightarrow> Some (e, Some act, c1)
          | Inr (i, j, k) \<Rightarrow> do {
              (rv, act1, c2) \<leftarrow> reconnect_loop sys i (Reconnect h m p d) act c1;
              Some (rv, Some act1, c2)
            })
       })"

partial_function (option) begin_loop :: "'s clnt_system \<Rightarrow> nat \<Rightarrow> SCARDHANDLE \<Rightarrow> LONG \<Rightarrow> 's clnt \<Rightarrow> (LONG \<times> 's clnt) option" where
  "begin_loop sys i h rv0 c = do {
     (r, c1) \<leftarrow> ask_code sys i (Begin_Transaction h rv0) c;
     (case r of
        Inl e \<Rightarrow> Some (e, c1)
      | Inr rv \<Rightarrow> if rv = SCARD_E_SHARING_VIOLATION then begin_loop sys i h rv c1 else Some (rv, c1))
   }"

definition SCardBeginTransaction_clnt :: "'s clnt_system \<Rightarrow> SCARDHANDLE \<Rightarrow> 's clnt \<Rightarrow> (LONG \<times> 's clnt) option" where
  "SCardBeginTransaction_clnt sys h c = do {
     (r, c1) \<leftarrow> open_card sys h c;
     (case r of Inl e \<Rightarrow> Some (e, c1) | Inr (i, j, k) \<Rightarrow> begin_loop sys i h SCARD_S_SUCCESS c1)
   }"

text \<open>The handle is forgotten whatever the daemon replies.\<close>

definition SCardDisconnect_clnt :: "'s clnt_system \<Rightarrow> SCARDHANDLE \<Rightarrow> DWORD \<Rightarrow> 's clnt \<Rightarrow> (LONG \<times> 's clnt) option" where
  "SCardDisconnect_clnt sys h d c =
    (case open_handle sys h c of
       (Inl e, c1) \<Rightarrow> Some (e, c1)
     | (Inr (i, j), c1) \<Rightarrow> do {
         (r, c2) \<leftarrow> ask_code sys i (Disconnect h d SCARD_S_SUCCESS) c1;
         Some (case r of Inl e \<Rightarrow> (e, c2) | Inr rv \<Rightarrow> (rv, snd (SCardRemoveHandle h c2)))
       })"

definition either :: "(LONG + LONG) \<Rightarrow> LONG" where
  "either r = (case r of Inl e \<Rightarrow> e | Inr rv \<Rightarrow> rv)"

text \<open>After the reply the call sleeps for a short random time.\<close>

definition SCardEndTransaction_clnt :: "'s clnt_system \<Rightarrow> SCARDHANDLE \<Rightarrow> DWORD \<Rightarrow> 's clnt \<Rightarrow> (LONG \<times> 's clnt) option" where
  "SCardEndTransaction_clnt sys h d c = do {
     (r, c1) \<leftarrow> open_card sys h c;
     (case r of
        Inl e \<Rightarrow> Some (e, c1)
      | Inr (i, j, k) \<Rightarrow> map_option (map_prod either id) (ask_code sys i (End_Transaction h d SCARD_S_SUCCESS) c1))
   }"

text \<open>The field \<^verbatim>\<open>rv\<close> of the request is not initialised.\<close>

definition SCardCancelTransaction_clnt :: "'s clnt_system \<Rightarrow> SCARDHANDLE \<Rightarrow> 's clnt \<Rightarrow> (LONG \<times> 's clnt) option" where
  "SCardCancelTransaction_clnt sys h c = do {
     (r, c1) \<leftarrow> open_card sys h c;
     (case r of
        Inl e \<Rightarrow> Some (e, c1)
      | Inr (i, j, k) \<Rightarrow> map_option (map_prod either id) (ask_code sys i (Cancel_Transaction h (uint (garbage sys (outside c1)))) c1))
   }"

subsection \<open>Memory of the caller\<close>

text \<open>A pointer argument: NULL, memory of the caller, or memory that the call allocated for it.\<close>

datatype 'a buf = Null | Mem "'a list" | Allocated "'a list"

text \<open>Writing at the beginning; \<open>None\<close> when it goes beyond the end.\<close>

definition put :: "'a list \<Rightarrow> 'a buf \<Rightarrow> 'a buf option" where
  "put xs b =
    (case b of
       Null \<Rightarrow> Some Null
     | Mem m \<Rightarrow> if length xs \<le> length m then Some (Mem (xs @ drop (length xs) m)) else None
     | Allocated m \<Rightarrow> if length xs \<le> length m then Some (Allocated (xs @ drop (length xs) m)) else None)"

text \<open>\<open>len\<close> is the length that the caller gives, \<open>n\<close> the one that is needed. The result is the usable length with the buffer.\<close>

definition get_buffer :: "'s clnt_system \<Rightarrow> (UCHAR \<Rightarrow> 'a) \<Rightarrow> DWORD \<Rightarrow> DWORD \<Rightarrow> 'a buf \<Rightarrow> 's clnt \<Rightarrow> LONG + DWORD \<times> 'a buf" where
  "get_buffer sys conv len n b c =
    (if len = SCARD_AUTOALLOCATE then
       (case malloc sys (unat n) (outside c) of
          None \<Rightarrow> Inl SCARD_E_NO_MEMORY
        | Some content \<Rightarrow> if b = Null then Inl SCARD_E_INVALID_PARAMETER else Inr (n, Allocated (map (conv \<circ> content) [0..<unat n])))
     else Inr (len, b))"

definition strncpy_bytes :: "string \<Rightarrow> nat \<Rightarrow> string" where
  "strncpy_bytes s n = take n (s @ replicate n (CHR 0x00))"

subsection \<open>Status\<close>

record status_call =
  st_name :: "char buf"
  st_nameLen :: "DWORD option"
  st_state :: "DWORD option"
  st_protocol :: "DWORD option"
  st_atr :: "UCHAR buf"
  st_atrLen :: "DWORD option"

text \<open>The part after the reply. Without pointers for both lengths these share one local variable.\<close>

definition status_out :: "'s clnt_system \<Rightarrow> string \<Rightarrow> READER_STATE \<Rightarrow> LONG \<Rightarrow> DWORD \<Rightarrow> DWORD \<Rightarrow> status_call \<Rightarrow> 's clnt \<Rightarrow> (LONG \<times> status_call) option" where
  "status_out sys name s rv dwReaderLen dwAtrLen a c =
    (let nameLen = word_of_nat (length name + 1); atrLen = cardAtrLength s;
         a1 = a\<lparr>st_nameLen := map_option (\<lambda>_. nameLen) (st_nameLen a), st_atrLen := map_option (\<lambda>_. atrLen) (st_atrLen a),
           st_state := map_option (\<lambda>_. readerState s) (st_state a), st_protocol := map_option (\<lambda>_. cardProtocol s) (st_protocol a)\<rparr>;
         needed = (if st_nameLen a = None \<and> st_atrLen a = None then atrLen else nameLen) in
     case get_buffer sys (\<lambda>b. char_of (unat b)) dwReaderLen needed (st_name a) c of
       Inl e \<Rightarrow> Some (e, a1)
     | Inr (n, b) \<Rightarrow> do {
         b1 \<leftarrow> put (strncpy_bytes name (if b = Null then 0 else unat n)) b;
         let rv1 = (if b \<noteq> Null \<and> n < needed then SCARD_E_INSUFFICIENT_BUFFER else rv);
         let a2 = a1\<lparr>st_name := b1\<rparr>;
         (case get_buffer sys id dwAtrLen atrLen (st_atr a) c of
            Inl e \<Rightarrow> Some (e, a2)
          | Inr (m, q) \<Rightarrow>
             let k = unat (min atrLen m) in
             if q \<noteq> Null \<and> length (cardAtr s) < k then None
             else do {
               q1 \<leftarrow> put (take k (cardAtr s)) q;
               Some (if q \<noteq> Null \<and> m < atrLen then SCARD_E_INSUFFICIENT_BUFFER else rv1, a2\<lparr>st_atr := q1\<rparr>)
             })
       })"

definition SCardStatus_clnt :: "'s clnt_system \<Rightarrow> SCARDHANDLE \<Rightarrow> status_call \<Rightarrow> 's clnt \<Rightarrow> (LONG \<times> status_call \<times> 's clnt) option" where
  "SCardStatus_clnt sys h a c =
    (let len = (\<lambda>p. case p of Some n \<Rightarrow> n | None \<Rightarrow> garbage sys (outside c)); zero = map_option (\<lambda>_. 0);
         a0 = a\<lparr>st_nameLen := zero (st_nameLen a), st_atrLen := zero (st_atrLen a), st_state := zero (st_state a), st_protocol := zero (st_protocol a)\<rparr> in do {
       (r, c1) \<leftarrow> open_card sys h c;
       (case r of
          Inl e \<Rightarrow> Some (e, a0, c1)
        | Inr (i, j, k) \<Rightarrow>
           (case ask_in sys i (Status h [] (word_of_nat MAX_READERNAME) 0 0 (replicate MAX_ATR_SIZE 0) (word_of_nat MAX_ATR_SIZE) 0) c1 of
              (Inl e, c2) \<Rightarrow> Some (e, a0, c2)
            | (Inr (Status_Reply rv reply), c2) \<Rightarrow>
                if rv \<noteq> SCARD_S_SUCCESS \<and> rv \<noteq> SCARD_E_INSUFFICIENT_BUFFER then Some (rv, a0, c2)
                else do {
                  name \<leftarrow> chan_readerName (psChannelMap (psContextMap c2 ! i) ! j);
                  (rv1, a1) \<leftarrow> status_out sys name (clnt_states c2 ! k) rv (len (st_nameLen a)) (len (st_atrLen a)) a0 c2;
                  Some (rv1, a1, c2)
                }
            | _ \<Rightarrow> None))
     })"

subsection \<open>Data for card and reader\<close>

text \<open>The send buffer holds \<open>cbSendLength\<close> bytes at least, the receive buffer has room for what the daemon sends. The bytes of the answer come in a
  message of their own.\<close>

definition SCardControl_clnt :: "'s clnt_system \<Rightarrow> SCARDHANDLE \<Rightarrow> DWORD \<Rightarrow> UCHAR list \<Rightarrow> DWORD \<Rightarrow> UCHAR buf \<Rightarrow> DWORD \<Rightarrow> DWORD option \<Rightarrow> 's clnt
    \<Rightarrow> (LONG \<times> UCHAR buf \<times> DWORD option \<times> 's clnt) option" where
  "SCardControl_clnt sys h code tx cbSendLength rx cbRecvLength lpBytesReturned c =
    (let zero = map_option (\<lambda>_. 0) lpBytesReturned in do {
       (r, c1) \<leftarrow> open_card sys h c;
       (case r of
          Inl e \<Rightarrow> Some (e, rx, zero, c1)
        | Inr (i, j, k) \<Rightarrow>
           if unat cbSendLength > MAX_BUFFER_SIZE_EXTENDED \<or> unat cbRecvLength > MAX_BUFFER_SIZE_EXTENDED
           then Some (SCARD_E_INSUFFICIENT_BUFFER, rx, zero, c1)
           else if length tx < unat cbSendLength then None
           else (case ask_in sys i (Control h code cbSendLength cbRecvLength (Some (take (unat cbSendLength) tx))) c1 of
              (Inl e, c2) \<Rightarrow> Some (e, rx, zero, c2)
            | (Inr (Control_Reply rv n answer), c2) \<Rightarrow>
                if rv \<noteq> SCARD_S_SUCCESS then Some (rv, rx, map_option (\<lambda>_. n) lpBytesReturned, c2)
                else let (arrived, s) = receive_data sys (map_dwClientID (psContextMap c2 ! i)) (outside c2); c3 = c2\<lparr>outside := s\<rparr> in
                  if \<not> arrived then Some (SCARD_E_NO_SERVICE, rx, zero, c3)
                  else if rx = Null \<and> n \<noteq> 0 then None
                  else do {
                    rx1 \<leftarrow> put (take (unat n) answer) rx;
                    Some (rv, rx1, map_option (\<lambda>_. n) lpBytesReturned, c3)
                  }
            | _ \<Rightarrow> None))
     })"

text \<open>\<^verbatim>\<open>SCardGetSetAttrib\<close>: the result has the buffer and \<^verbatim>\<open>*pcbAttrLen\<close>.\<close>

definition attrib_request :: "bool \<Rightarrow> SCARDHANDLE \<Rightarrow> DWORD \<Rightarrow> UCHAR buf \<Rightarrow> DWORD \<Rightarrow> request option" where
  "attrib_request wr h attr b len =
    (if \<not> wr then Some (Get_Attrib h attr (replicate MAX_BUFFER_SIZE 0) len)
     else case b of
       Mem m \<Rightarrow> if unat len \<le> length m then Some (Set_Attrib h attr (take (unat len) m @ replicate (MAX_BUFFER_SIZE - unat len) 0) len) else None
     | _ \<Rightarrow> None)"

definition SCardGetSetAttrib :: "'s clnt_system \<Rightarrow> SCARDHANDLE \<Rightarrow> bool \<Rightarrow> DWORD \<Rightarrow> UCHAR buf \<Rightarrow> DWORD \<Rightarrow> 's clnt
    \<Rightarrow> (LONG \<times> UCHAR buf \<times> DWORD \<times> 's clnt) option" where
  "SCardGetSetAttrib sys h wr attr b len c = do {
     (r, c1) \<leftarrow> open_card sys h c;
     (case r of
        Inl e \<Rightarrow> Some (e, b, len, c1)
      | Inr (i, j, k) \<Rightarrow>
         if unat len > MAX_BUFFER_SIZE then Some (SCARD_E_INSUFFICIENT_BUFFER, b, len, c1)
         else do {
           req \<leftarrow> attrib_request wr h attr b len;
           (case ask_in sys i req c1 of
              (Inl e, c2) \<Rightarrow> Some (e, b, len, c2)
            | (Inr (Attrib_Reply rv n val), c2) \<Rightarrow>
                if rv \<noteq> SCARD_S_SUCCESS \<or> wr then Some (rv, b, len, c2)
                else do {
                  b1 \<leftarrow> put (take (unat (min len n)) val) b;
                  Some (if len < n then SCARD_E_INSUFFICIENT_BUFFER else rv, b1, min len n, c2)
                }
            | _ \<Rightarrow> None)
         })
   }"

definition SCardGetAttrib_clnt :: "'s clnt_system \<Rightarrow> SCARDHANDLE \<Rightarrow> DWORD \<Rightarrow> UCHAR buf \<Rightarrow> DWORD option \<Rightarrow> 's clnt
    \<Rightarrow> (LONG \<times> UCHAR buf \<times> DWORD option \<times> 's clnt) option" where
  "SCardGetAttrib_clnt sys h attr pbAttr pcbAttrLen c =
    (let call = (\<lambda>b n. map_option (\<lambda>(rv, b1, n1, c1). (rv, b1, Some n1, c1)) (SCardGetSetAttrib sys h False attr b n c)) in
     case pcbAttrLen of
       None \<Rightarrow> Some (SCARD_E_INVALID_PARAMETER, pbAttr, None, c)
     | Some len \<Rightarrow>
        if len = SCARD_AUTOALLOCATE then
          if pbAttr = Null then Some (SCARD_E_INVALID_PARAMETER, pbAttr, Some len, c)
          else (case malloc sys MAX_BUFFER_SIZE (outside c) of
             None \<Rightarrow> Some (SCARD_E_NO_MEMORY, pbAttr, Some (word_of_nat MAX_BUFFER_SIZE), c)
           | Some content \<Rightarrow> call (Allocated (map content [0..<MAX_BUFFER_SIZE])) (word_of_nat MAX_BUFFER_SIZE))
        else call pbAttr (if pbAttr = Null then word_of_nat MAX_BUFFER_SIZE else len))"

definition SCardSetAttrib_clnt :: "'s clnt_system \<Rightarrow> SCARDHANDLE \<Rightarrow> DWORD \<Rightarrow> UCHAR list option \<Rightarrow> DWORD \<Rightarrow> 's clnt \<Rightarrow> (LONG \<times> 's clnt) option" where
  "SCardSetAttrib_clnt sys h attr pbAttr cbAttrLen c =
    (case pbAttr of
       None \<Rightarrow> Some (SCARD_E_INVALID_PARAMETER, c)
     | Some m \<Rightarrow> if cbAttrLen = 0 then Some (SCARD_E_INVALID_PARAMETER, c)
         else map_option (\<lambda>(rv, b, n, c1). (rv, c1)) (SCardGetSetAttrib sys h True attr (Mem m) cbAttrLen c))"

text \<open>The part of \<^verbatim>\<open>SCardTransmit\<close> after the tests of the pointers: return code, receive header, receive buffer and its length.\<close>

definition transmit_card :: "'s clnt_system \<Rightarrow> nat \<Rightarrow> SCARDHANDLE \<Rightarrow> SCARD_IO_HEADER \<Rightarrow> UCHAR list \<Rightarrow> DWORD \<Rightarrow> SCARD_IO_HEADER option \<Rightarrow> UCHAR list
    \<Rightarrow> DWORD \<Rightarrow> 's clnt \<Rightarrow> (LONG \<times> SCARD_IO_HEADER option \<times> UCHAR list \<times> DWORD \<times> 's clnt) option" where
  "transmit_card sys i h pioSendPci tx cbSendLength pioRecvPci rx len c =
    (if unat cbSendLength > MAX_BUFFER_SIZE_EXTENDED \<or> unat len > MAX_BUFFER_SIZE_EXTENDED
     then Some (SCARD_E_INSUFFICIENT_BUFFER, pioRecvPci, rx, len, c)
     else if length tx < unat cbSendLength then None
     else let pci = (case pioRecvPci of Some p \<Rightarrow> p | None \<Rightarrow> \<lparr>Protocol = SCARD_PROTOCOL_T0 OR SCARD_PROTOCOL_T1, PciLength = 8\<rparr>) in
       (case ask_in sys i (Transmit h pioSendPci pci cbSendLength len (Some (take (unat cbSendLength) tx))) c of
          (Inl e, c1) \<Rightarrow> Some (e, pioRecvPci, rx, len, c1)
        | (Inr (Transmit_Reply rv out), c1) \<Rightarrow> do {
            n \<leftarrow> recvLength out;
            pci1 \<leftarrow> ioRecvPci out;
            if rv \<noteq> SCARD_S_SUCCESS then Some (rv, pioRecvPci, rx, n, c1)
            else do {
              answer \<leftarrow> recvBuffer out;
              let (arrived, s) = receive_data sys (map_dwClientID (psContextMap c1 ! i)) (outside c1);
              let c2 = c1\<lparr>outside := s\<rparr>;
              if \<not> arrived then Some (SCARD_E_NO_SERVICE, pioRecvPci, rx, len, c2)
              else if length rx < unat n then None
              else Some (rv, map_option (\<lambda>_. pci1) pioRecvPci, take (unat n) answer @ drop (unat n) rx, n, c2)
            }
          }
        | _ \<Rightarrow> None))"

definition SCardTransmit_clnt :: "'s clnt_system \<Rightarrow> SCARDHANDLE \<Rightarrow> SCARD_IO_HEADER option \<Rightarrow> UCHAR list option \<Rightarrow> DWORD \<Rightarrow> SCARD_IO_HEADER option
    \<Rightarrow> UCHAR list option \<Rightarrow> DWORD option \<Rightarrow> 's clnt \<Rightarrow> (LONG \<times> SCARD_IO_HEADER option \<times> UCHAR list option \<times> DWORD option \<times> 's clnt) option" where
  "SCardTransmit_clnt sys h pioSendPci pbSendBuffer cbSendLength pioRecvPci pbRecvBuffer pcbRecvLength c =
    (case (pbSendBuffer, pbRecvBuffer, pcbRecvLength, pioSendPci) of
       (Some tx, Some rx, Some len, Some pci) \<Rightarrow>
         let (rv, c1) = SCardCheckDaemonAvailability sys c in
         if rv \<noteq> SCARD_S_SUCCESS then Some (rv, pioRecvPci, pbRecvBuffer, pcbRecvLength, c1)
         else (case SCardGetIndicesFromHandle h c1 of
             None \<Rightarrow> Some (SCARD_E_INVALID_HANDLE, pioRecvPci, pbRecvBuffer, Some 0, c1)
           | Some (i, j) \<Rightarrow> do {
               (r, c2) \<leftarrow> synchronize sys i j c1;
               (case r of
                  Inl e \<Rightarrow> Some (e, pioRecvPci, pbRecvBuffer, pcbRecvLength, c2)
                | Inr k \<Rightarrow> map_option (\<lambda>(rv, p, rx1, n, c3). (rv, p, Some rx1, Some n, c3))
                    (transmit_card sys i h pci tx cbSendLength pioRecvPci rx len c2))
             })
     | _ \<Rightarrow> Some (SCARD_E_INVALID_PARAMETER, pioRecvPci, pbRecvBuffer, pcbRecvLength, c))"

subsection \<open>Lists of readers\<close>

text \<open>A multi-string: the names of the readers in use, each one terminated, and a final null byte.\<close>

definition multi_string :: "READER_STATE list \<Rightarrow> string" where
  "multi_string rs = concat (map (\<lambda>s. readerName s @ [CHR 0x00]) (filter (\<lambda>s. readerID s \<noteq> 0) rs)) @ [CHR 0x00]"

definition SCardListReaders_clnt :: "'s clnt_system \<Rightarrow> SCARDCONTEXT \<Rightarrow> char buf \<Rightarrow> DWORD option \<Rightarrow> 's clnt
    \<Rightarrow> (LONG \<times> char buf \<times> DWORD option \<times> 's clnt) option" where
  "SCardListReaders_clnt sys hContext mszReaders pcchReaders c =
    (case pcchReaders of
       None \<Rightarrow> Some (SCARD_E_INVALID_PARAMETER, mszReaders, None, c)
     | Some len \<Rightarrow>
        (case open_context sys hContext c of
           (Inl e, c1) \<Rightarrow> Some (e, mszReaders, Some len, c1)
         | (Inr i, c1) \<Rightarrow> do {
             (rv, c2) \<leftarrow> getReaderStates sys i c1;
             let names = multi_string (clnt_states c2);
             let n = word_of_nat (length names);
             if rv \<noteq> SCARD_S_SUCCESS then Some (rv, mszReaders, Some 0, c2)
             else if n = 1 then Some (SCARD_E_NO_READERS_AVAILABLE, mszReaders, Some n, c2)
             else (case get_buffer sys (\<lambda>b. char_of (unat b)) len n mszReaders c2 of
                 Inl e \<Rightarrow> Some (e, mszReaders, Some n, c2)
               | Inr (len1, b) \<Rightarrow>
                  if b \<noteq> Null \<and> len1 < n then Some (SCARD_E_INSUFFICIENT_BUFFER, mszReaders, Some n, c2)
                  else map_option (\<lambda>b1. (SCARD_S_SUCCESS, b1, Some n, c2)) (put names b))
           }))"

text \<open>\<^verbatim>\<open>*pcchGroups\<close> is read without a test for NULL.\<close>

definition ReaderGroup :: string where
  "ReaderGroup = ''SCard$DefaultReaders'' @ [CHR 0x00, CHR 0x00]"

definition SCardListReaderGroups_clnt :: "'s clnt_system \<Rightarrow> SCARDCONTEXT \<Rightarrow> char buf \<Rightarrow> DWORD option \<Rightarrow> 's clnt
    \<Rightarrow> (LONG \<times> char buf \<times> DWORD option \<times> 's clnt) option" where
  "SCardListReaderGroups_clnt sys hContext mszGroups pcchGroups c =
    (case open_context sys hContext c of
       (Inl e, c1) \<Rightarrow> Some (e, mszGroups, pcchGroups, c1)
     | (Inr i, c1) \<Rightarrow> do {
         len \<leftarrow> pcchGroups;
         let n = word_of_nat (length ReaderGroup);
         (case get_buffer sys (\<lambda>b. char_of (unat b)) len n mszGroups c1 of
            Inl e \<Rightarrow> Some (e, mszGroups, Some n, c1)
          | Inr (len1, b) \<Rightarrow>
             if b \<noteq> Null \<and> len1 < n then Some (SCARD_E_INSUFFICIENT_BUFFER, mszGroups, Some n, c1)
             else map_option (\<lambda>b1. (SCARD_S_SUCCESS, b1, Some n, c1)) (put ReaderGroup b))
       })"

definition SCardFreeMemory_clnt :: "'s clnt_system \<Rightarrow> SCARDCONTEXT \<Rightarrow> 's clnt \<Rightarrow> LONG \<times> 's clnt" where
  "SCardFreeMemory_clnt sys hContext c =
    (case open_context sys hContext c of (Inl e, c1) \<Rightarrow> (e, c1) | (Inr i, c1) \<Rightarrow> (SCARD_S_SUCCESS, c1))"

subsection \<open>Waiting for changes\<close>

abbreviation (input) SCARD_STATE_UNAWARE :: DWORD where "SCARD_STATE_UNAWARE \<equiv> 0"
abbreviation (input) SCARD_STATE_IGNORE :: DWORD where "SCARD_STATE_IGNORE \<equiv> 0x1"
abbreviation (input) SCARD_STATE_CHANGED :: DWORD where "SCARD_STATE_CHANGED \<equiv> 0x2"
abbreviation (input) SCARD_STATE_UNKNOWN :: DWORD where "SCARD_STATE_UNKNOWN \<equiv> 0x4"
abbreviation (input) SCARD_STATE_UNAVAILABLE :: DWORD where "SCARD_STATE_UNAVAILABLE \<equiv> 0x8"
abbreviation (input) SCARD_STATE_EMPTY :: DWORD where "SCARD_STATE_EMPTY \<equiv> 0x10"
abbreviation (input) SCARD_STATE_PRESENT :: DWORD where "SCARD_STATE_PRESENT \<equiv> 0x20"
abbreviation (input) SCARD_STATE_ATRMATCH :: DWORD where "SCARD_STATE_ATRMATCH \<equiv> 0x40"
abbreviation (input) SCARD_STATE_EXCLUSIVE :: DWORD where "SCARD_STATE_EXCLUSIVE \<equiv> 0x80"
abbreviation (input) SCARD_STATE_INUSE :: DWORD where "SCARD_STATE_INUSE \<equiv> 0x100"
abbreviation (input) SCARD_STATE_MUTE :: DWORD where "SCARD_STATE_MUTE \<equiv> 0x200"

record READERSTATE =
  szReader :: "string option"
  dwCurrentState :: DWORD
  dwEventState :: DWORD
  cbAtr :: DWORD
  rgbAtr :: "UCHAR list"

text \<open>The event word under construction together with \<^verbatim>\<open>dwBreakFlag\<close>. \<open>cur\<close> is what the application believes, \<open>st\<close> the
  state of the reader.\<close>

type_synonym event = "DWORD \<times> bool"

definition changed_if :: "bool \<Rightarrow> event \<Rightarrow> event" where
  "changed_if p = (\<lambda>(e, b). if p then (bset SCARD_STATE_CHANGED e, True) else (e, b))"

definition clear_bits :: "DWORD list \<Rightarrow> DWORD \<Rightarrow> DWORD" where
  "clear_bits bits e = foldl (\<lambda>e m. bclr m e) e bits"

definition ev_returned :: "DWORD \<Rightarrow> event \<Rightarrow> event" where
  "ev_returned cur = (\<lambda>(e, b). if flag cur SCARD_STATE_UNKNOWN then (bclr SCARD_STATE_UNKNOWN (bset SCARD_STATE_CHANGED e), True) else (e, b))"

definition counter :: "DWORD \<Rightarrow> DWORD" where
  "counter w = drop_bit 16 w AND 0xFFFF"

definition ev_counter :: "DWORD \<Rightarrow> DWORD \<Rightarrow> event \<Rightarrow> event" where
  "ev_counter cur st eb =
    (if cur AND 0xFFFF0000 \<noteq> 0 then
       let (e, b) = changed_if (counter st \<noteq> counter cur) eb in (e AND 0xFFFF OR push_bit 16 (counter st), b)
     else eb)"

definition ev_state :: "DWORD \<Rightarrow> DWORD \<Rightarrow> event \<Rightarrow> event" where
  "ev_state cur st = (\<lambda>(e, b).
     if flag st SCARD_UNKNOWN then changed_if (\<not> flag cur SCARD_STATE_UNAVAILABLE) (SCARD_STATE_UNAVAILABLE, b)
     else if flag cur SCARD_STATE_UNAVAILABLE then changed_if True (bclr SCARD_STATE_UNAVAILABLE e, b) else (e, b))"

definition ev_card :: "DWORD \<Rightarrow> DWORD \<Rightarrow> event \<Rightarrow> event" where
  "ev_card cur st = (\<lambda>(e, b).
     if flag st SCARD_ABSENT then
       changed_if (flag cur SCARD_STATE_PRESENT)
         (clear_bits [SCARD_STATE_PRESENT, SCARD_STATE_UNAWARE, SCARD_STATE_IGNORE, SCARD_STATE_UNKNOWN, SCARD_STATE_UNAVAILABLE,
            SCARD_STATE_ATRMATCH, SCARD_STATE_MUTE, SCARD_STATE_INUSE] (bset SCARD_STATE_EMPTY e), b)
     else if flag st SCARD_PRESENT then
       let (e1, b1) = changed_if (flag cur SCARD_STATE_EMPTY)
         (clear_bits [SCARD_STATE_EMPTY, SCARD_STATE_UNAWARE, SCARD_STATE_IGNORE, SCARD_STATE_UNKNOWN, SCARD_STATE_UNAVAILABLE,
            SCARD_STATE_MUTE] (bset SCARD_STATE_PRESENT e), b) in
       if flag st SCARD_SWALLOWED then changed_if (\<not> flag cur SCARD_STATE_MUTE) (bset SCARD_STATE_MUTE e1, b1)
       else changed_if (flag cur SCARD_STATE_MUTE) (e1, b1)
     else (e, b))"

definition ev_sharing :: "DWORD \<Rightarrow> DWORD \<Rightarrow> int \<Rightarrow> event \<Rightarrow> event" where
  "ev_sharing cur st sharing = (\<lambda>(e, b).
     if sharing = -1 then changed_if (flag cur SCARD_STATE_INUSE) (bclr SCARD_STATE_INUSE (bset SCARD_STATE_EXCLUSIVE e), b)
     else if 1 \<le> sharing then
       if flag st SCARD_PRESENT then changed_if (flag cur SCARD_STATE_EXCLUSIVE) (bclr SCARD_STATE_EXCLUSIVE (bset SCARD_STATE_INUSE e), b) else (e, b)
     else if sharing = 0 then
       changed_if (flag cur SCARD_STATE_INUSE \<or> flag cur SCARD_STATE_EXCLUSIVE) (bclr SCARD_STATE_EXCLUSIVE (bclr SCARD_STATE_INUSE e), b)
     else (e, b))"

definition reader_event :: "DWORD \<Rightarrow> DWORD \<Rightarrow> int \<Rightarrow> DWORD \<Rightarrow> event" where
  "reader_event cur st sharing e =
     changed_if (cur = SCARD_STATE_UNAWARE) (ev_sharing cur st sharing (ev_card cur st (ev_state cur st (ev_counter cur st (ev_returned cur (e, False))))))"

text \<open>The ATR that is handed out; \<open>None\<close> when the announced length is beyond the arrays.\<close>

definition hand_out_atr :: "READER_STATE \<Rightarrow> READERSTATE \<Rightarrow> READERSTATE option" where
  "hand_out_atr s r =
    (if flag (readerState s) SCARD_PRESENT then
       let n = unat (cardAtrLength s) in
       if length (cardAtr s) < n \<or> length (rgbAtr r) < n then None
       else Some (r\<lparr>cbAtr := cardAtrLength s, rgbAtr := take n (cardAtr s) @ drop n (rgbAtr r)\<rparr>)
     else Some (r\<lparr>cbAtr := 0\<rparr>))"

definition to_lower :: "char \<Rightarrow> char" where
  "to_lower c = (let n = (of_char c :: nat) in if 65 \<le> n \<and> n \<le> 90 then char_of (n + 32) else c)"

definition PnP_name :: string where
  "PnP_name = [CHR 0x5C, CHR 0x5C] @ ''?PnP?'' @ [CHR 0x5C] @ ''Notification''"

definition count_readers :: "READER_STATE list \<Rightarrow> nat" where
  "count_readers rs = length (filter (\<lambda>s. readerID s \<noteq> 0) rs)"

text \<open>One element of \<^verbatim>\<open>rgReaderStates\<close>; the result has the number of readers last seen and whether something changed.\<close>

definition check_reader :: "READER_STATE list \<Rightarrow> nat \<Rightarrow> READERSTATE \<Rightarrow> (READERSTATE \<times> nat \<times> bool) option" where
  "check_reader states known r = do {
     name \<leftarrow> szReader r;
     (case first_index (\<lambda>s. name = readerName s) states of
        None \<Rightarrow>
          if map to_lower name = map to_lower PnP_name then
            if count_readers states \<noteq> known
            then Some (r\<lparr>dwEventState := bset SCARD_STATE_CHANGED (dwEventState r)\<rparr>, count_readers states, True)
            else Some (r, known, False)
          else let (e, b) = changed_if (\<not> flag (dwCurrentState r) SCARD_STATE_UNKNOWN) (SCARD_STATE_UNKNOWN OR SCARD_STATE_UNAVAILABLE, False) in
            Some (r\<lparr>dwEventState := e\<rparr>, known, b)
      | Some k \<Rightarrow> do {
          let s = states ! k;
          let eb = reader_event (dwCurrentState r) (readerState s) (readerSharing s) (dwEventState r);
          r1 \<leftarrow> hand_out_atr s r;
          Some (r1\<lparr>dwEventState := fst eb\<rparr>, known, snd eb)
        })
   }"

text \<open>One pass over the array. The first component is the value to return when the daemon is gone.\<close>

fun status_pass :: "'s clnt_system \<Rightarrow> READERSTATE list \<Rightarrow> nat \<Rightarrow> 's clnt \<Rightarrow> (LONG option \<times> READERSTATE list \<times> nat \<times> bool \<times> 's clnt) option" where
  "status_pass sys [] known c = Some (None, [], known, False, c)"
| "status_pass sys (r # rs) known c =
    (let (rv, c1) = SCardCheckDaemonAvailability sys c in
     if rv \<noteq> SCARD_S_SUCCESS then Some (Some rv, r # rs, known, False, c1)
     else do {
       (r1, known1, b) \<leftarrow> (if flag (dwCurrentState r) SCARD_STATE_IGNORE then Some (r, known, False) else check_reader (clnt_states c1) known r);
       (e, rs1, known2, b2, c2) \<leftarrow> status_pass sys rs known1 c1;
       Some (e, r1 # rs1, known2, b \<or> b2, c2)
     })"

text \<open>The wait between two passes: the value to return, or the time that is left. Times are milliseconds, the clock counts microseconds in a \<^verbatim>\<open>long\<close>.\<close>

definition wait_reply :: "'s clnt_system \<Rightarrow> nat \<Rightarrow> int \<Rightarrow> 's clnt \<Rightarrow> ((LONG + LONG) \<times> 's clnt) option" where
  "wait_reply sys i dwTime c =
    (let m = psContextMap c ! i; fd = map_dwClientID m; (sent, s) = SHMMessageSendWithHeader sys fd Wait_Reader_State_Change (outside c) in
     if \<not> sent then Some (Inl SCARD_E_NO_SERVICE, c\<lparr>outside := s\<rparr>)
     else let (r, s1) = SHMMessageReceive sys fd dwTime s;
              c1 = (if cancelled sys (map_hContext m) s1 then upd_map i (\<lambda>m. m\<lparr>contextBlockStatus := BLOCK_STATUS_RESUME\<rparr>) c else c)\<lparr>outside := s1\<rparr> in
       (case r of
          Some (Code_Reply rv) \<Rightarrow> Some (Inr rv, c1)
        | Some _ \<Rightarrow> None
        | None \<Rightarrow>
           let (sent, s2) = SHMMessageSendWithHeader sys fd Stop_Waiting_Reader_State_Change s1 in
           if \<not> sent then Some (Inl SCARD_E_NO_SERVICE, c1\<lparr>outside := s2\<rparr>)
           else let (r2, s3) = SHMMessageReceive sys fd dwTime s2 in
             (case r2 of
                None \<Rightarrow> Some (Inl SCARD_E_NO_SERVICE, c1\<lparr>outside := s3\<rparr>)
              | Some (Code_Reply rv) \<Rightarrow> Some (Inr rv, c1\<lparr>outside := s3\<rparr>)
              | Some _ \<Rightarrow> None)))"

definition wait_change :: "'s clnt_system \<Rightarrow> nat \<Rightarrow> DWORD \<Rightarrow> int \<Rightarrow> 's clnt \<Rightarrow> ((LONG + int) \<times> 's clnt) option" where
  "wait_change sys i dwTimeout dwTime c = do {
     (r, c1) \<leftarrow> wait_reply sys i dwTime c;
     (case r of
        Inl e \<Rightarrow> Some (Inl e, c1)
      | Inr rv \<Rightarrow>
         if rv \<noteq> SCARD_S_SUCCESS then Some (Inl rv, c1)
         else do {
           (rv, c2) \<leftarrow> getReaderStates sys i c1;
           let diff = gettimeofday sys (outside c2) - gettimeofday sys (outside c);
           let left = dwTime - sgn diff * (\<bar>diff\<bar> div 1000);
           if rv \<noteq> SCARD_S_SUCCESS then Some (Inl rv, c2)
           else if dwTimeout = INFINITE then Some (Inr dwTime, c2)
           else if diff < - (2 ^ 31) \<or> 2 ^ 31 \<le> diff then None
           else Some (if left \<le> 0 then Inl SCARD_E_TIMEOUT else Inr left, c2)
         })
   }"

partial_function (option) status_loop :: "'s clnt_system \<Rightarrow> nat \<Rightarrow> DWORD \<Rightarrow> int \<Rightarrow> READERSTATE list \<Rightarrow> nat \<Rightarrow> 's clnt \<Rightarrow> (LONG \<times> READERSTATE list \<times> 's clnt) option" where
  "status_loop sys i dwTimeout dwTime rs known c = do {
     (e, rs1, known1, b, c1) \<leftarrow> status_pass sys rs known c;
     (case e of
        Some rv \<Rightarrow> Some (rv, rs1, c1)
      | None \<Rightarrow>
         if contextBlockStatus (psContextMap c1 ! i) = BLOCK_STATUS_RESUME then Some (SCARD_E_CANCELLED, rs1, c1)
         else if b then Some (SCARD_S_SUCCESS, rs1, c1)
         else do {
           (r, c2) \<leftarrow> wait_change sys i dwTimeout dwTime c1;
           (case r of Inl rv \<Rightarrow> Some (rv, rs1, c2) | Inr left \<Rightarrow> status_loop sys i dwTimeout left rs1 known1 c2)
         })
   }"

text \<open>\<^verbatim>\<open>cReaders\<close> is the length of the array; \<open>rgReaderStates\<close> is \<open>None\<close> for NULL.\<close>

definition SCardGetStatusChange_clnt :: "'s clnt_system \<Rightarrow> SCARDCONTEXT \<Rightarrow> DWORD \<Rightarrow> READERSTATE list option \<Rightarrow> nat \<Rightarrow> 's clnt
    \<Rightarrow> (LONG \<times> READERSTATE list option \<times> 's clnt) option" where
  "SCardGetStatusChange_clnt sys hContext dwTimeout rgReaderStates cReaders c =
    (if cReaders > PCSCLITE_MAX_READERS_CONTEXTS then Some (SCARD_E_INVALID_PARAMETER, rgReaderStates, c)
     else case rgReaderStates of
       None \<Rightarrow> Some (if cReaders > 0 then SCARD_E_INVALID_PARAMETER else SCARD_S_SUCCESS, None, c)
     | Some rs \<Rightarrow>
        if length rs \<noteq> cReaders then None
        else if \<exists>r \<in> set rs. szReader r = None then Some (SCARD_E_INVALID_VALUE, Some rs, c)
        else if \<forall>r \<in> set rs. flag (dwCurrentState r) SCARD_STATE_IGNORE then Some (SCARD_S_SUCCESS, Some rs, c)
        else case open_context sys hContext c of
          (Inl e, c1) \<Rightarrow> Some (e, Some rs, c1)
        | (Inr i, c1) \<Rightarrow> do {
            (rv, c2) \<leftarrow> getReaderStates sys i c1;
            if rv \<noteq> SCARD_S_SUCCESS then Some (rv, Some rs, c2)
            else map_option (\<lambda>(rv, rs1, c3). (rv, Some rs1, c3))
              (status_loop sys i dwTimeout (if dwTimeout = INFINITE then 60000 else sint dwTimeout)
                (map (\<lambda>r. r\<lparr>dwEventState := 0\<rparr>) rs) (count_readers (clnt_states c2))
                (upd_map i (\<lambda>m. m\<lparr>contextBlockStatus := BLOCK_STATUS_BLOCKING\<rparr>) c2))
          })"

end
