(* ===== verification/Clnt_Events.thy ===== *)
theory Clnt_Events
  imports Clnt
begin

section \<open>The events that the client library reports\<close>

text \<open>
  \<^verbatim>\<open>SCardGetStatusChange\<close> compares what the application believes with the states of the readers. This theory computes the new event word flag by flag
  and shows that a reported word is stable, that changes of reader and card are announced, and which announcement gets lost.
\<close>

lemma event_snd [simp]:
  "snd (changed_if p eb) \<longleftrightarrow> snd eb \<or> p"
  "snd (ev_returned cur eb) \<longleftrightarrow> snd eb \<or> flag cur SCARD_STATE_UNKNOWN"
  "snd (ev_counter cur st eb) \<longleftrightarrow> snd eb \<or> cur AND 0xFFFF0000 \<noteq> 0 \<and> counter st \<noteq> counter cur"
  "snd (ev_state cur st eb) \<longleftrightarrow> snd eb \<or> flag st SCARD_UNKNOWN \<noteq> flag cur SCARD_STATE_UNAVAILABLE"
  "snd (ev_card cur st eb) \<longleftrightarrow> snd eb \<or> (if flag st SCARD_ABSENT then flag cur SCARD_STATE_PRESENT
        else flag st SCARD_PRESENT \<and> (flag cur SCARD_STATE_EMPTY \<or> flag st SCARD_SWALLOWED \<noteq> flag cur SCARD_STATE_MUTE))"
  "snd (ev_sharing cur st sh eb) \<longleftrightarrow> snd eb \<or> (if sh = -1 then flag cur SCARD_STATE_INUSE
        else if 1 \<le> sh then flag st SCARD_PRESENT \<and> flag cur SCARD_STATE_EXCLUSIVE
        else sh = 0 \<and> (flag cur SCARD_STATE_INUSE \<or> flag cur SCARD_STATE_EXCLUSIVE))"
  by (cases eb; simp add: changed_if_def ev_returned_def ev_counter_def ev_state_def ev_card_def ev_sharing_def Let_def split: prod.split; blast?)+

lemma event_break:
  "snd (reader_event cur st sh e) \<longleftrightarrow> cur = 0 \<or> flag cur SCARD_STATE_UNKNOWN \<or> cur AND 0xFFFF0000 \<noteq> 0 \<and> counter st \<noteq> counter cur
     \<or> (flag st SCARD_UNKNOWN \<noteq> flag cur SCARD_STATE_UNAVAILABLE)
     \<or> (if flag st SCARD_ABSENT then flag cur SCARD_STATE_PRESENT
        else flag st SCARD_PRESENT \<and> (flag cur SCARD_STATE_EMPTY \<or> flag st SCARD_SWALLOWED \<noteq> flag cur SCARD_STATE_MUTE))
     \<or> (if sh = -1 then flag cur SCARD_STATE_INUSE
        else if 1 \<le> sh then flag st SCARD_PRESENT \<and> flag cur SCARD_STATE_EXCLUSIVE
        else sh = 0 \<and> (flag cur SCARD_STATE_INUSE \<or> flag cur SCARD_STATE_EXCLUSIVE))"
  unfolding reader_event_def event_snd snd_conv by blast

lemma event_fst [simp]:
  "k AND SCARD_STATE_CHANGED = 0 \<Longrightarrow> flag (fst (changed_if p eb)) k = flag (fst eb) k"
  "flag (fst (changed_if p eb)) SCARD_STATE_CHANGED \<longleftrightarrow> p \<or> flag (fst eb) SCARD_STATE_CHANGED"
  by (cases eb; simp add: changed_if_def and.commute)+

lemma counter_masks: "(0xFFFF :: DWORD) = mask 16" "(0xFFFF0000 :: DWORD) = push_bit 16 (mask 16)"
  by (simp_all add: mask_eq_exp_minus_1 push_bit_eq_mult)

lemma bit_counter: "bit (counter w) n \<longleftrightarrow> n < 16 \<and> bit w (n + 16)"
  by (auto simp: counter_def counter_masks bit_simps add.commute dest: bit_imp_le_length)

lemma low_bits: "k AND 0xFFFF0000 = 0 \<Longrightarrow> bit (k :: DWORD) n \<Longrightarrow> n < 16"
proof (rule ccontr)
  assume k: "k AND 0xFFFF0000 = 0" "bit k n" "\<not> n < 16"
  then have n: "n < 32" "16 \<le> n" using bit_imp_le_length [of k n] by simp_all
  have "bit (k AND push_bit 16 (mask 16)) n" using k(2) n by (auto simp: bit_simps)
  then show False using k(1) by (simp add: counter_masks)
qed

lemma low_flag: "k AND 0xFFFF0000 = 0 \<Longrightarrow> flag (e AND 0xFFFF OR push_bit 16 (counter st)) k = flag e (k :: DWORD)"
proof -
  assume k: "k AND 0xFFFF0000 = 0"
  have "(e AND 0xFFFF OR push_bit 16 (counter st)) AND k = e AND k"
    by (rule bit_word_eqI) (auto simp: counter_masks bit_simps dest: low_bits [OF k])
  then show ?thesis by (simp add: flag_def)
qed

lemma counter_put: "counter (e AND 0xFFFF OR push_bit 16 (counter st)) = counter st"
  by (rule bit_word_eqI) (auto simp: bit_counter counter_masks bit_simps)

lemma counter_low:
  assumes "k AND 0xFFFF0000 = 0"
  shows "counter (bset k e) = counter e" "counter (bclr k e) = counter e"
proof -
  have "\<not> bit k (n + 16)" for n using low_bits [OF assms, of "n + 16"] by auto
  then show "counter (bset k e) = counter e" "counter (bclr k e) = counter e"
    by (auto simp: bit_counter bset_def bclr_def bit_simps intro!: bit_word_eqI)
qed

lemma counter_nonzero: "w AND 0xFFFF0000 \<noteq> 0 \<longleftrightarrow> counter w \<noteq> 0"
proof -
  have "(w AND 0xFFFF0000) = push_bit 16 (counter w)"
    by (rule bit_word_eqI) (auto simp: bit_counter counter_masks bit_simps)
  moreover have "push_bit 16 (counter w) = 0 \<longleftrightarrow> counter w = 0"
  proof
    assume p: "push_bit 16 (counter w) = 0"
    show "counter w = 0"
    proof (rule bit_word_eqI)
      fix n assume "n < LENGTH(32)"
      have "bit (push_bit 16 (counter w)) (n + 16) = bit (counter w) n" if "n < 16" using that by (simp add: bit_simps)
      then show "bit (counter w) n = bit 0 n" using p by (auto simp: bit_counter)
    qed
  qed simp
  ultimately show ?thesis by simp
qed

lemma counter_changed [simp]: "counter (fst (changed_if p eb)) = counter (fst eb)"
  by (cases eb) (simp add: changed_if_def counter_low)

text \<open>The flags as numbers.\<close>

lemma flag_numerals [simp]:
  "k AND SCARD_STATE_UNAVAILABLE = 0 \<Longrightarrow> \<not> flag SCARD_STATE_UNAVAILABLE k"
  "flag SCARD_STATE_UNAVAILABLE SCARD_STATE_UNAVAILABLE"
  by (simp_all add: flag_def and.commute)

text \<open>The bits of the new event word, whatever earlier passes left in it. Only the bit for exclusive use can be a leftover.\<close>

lemma event_flags:
  fixes cur st sh e
  defines "E \<equiv> fst (reader_event cur st sh e)"
  assumes "one_status st" and "-1 \<le> sh"
  shows "flag E SCARD_STATE_UNKNOWN = False" "flag E SCARD_STATE_UNAVAILABLE = flag st SCARD_UNKNOWN" "flag E SCARD_STATE_EMPTY = flag st SCARD_ABSENT"
    "flag E SCARD_STATE_PRESENT = flag st SCARD_PRESENT" "flag E SCARD_STATE_MUTE = (flag st SCARD_PRESENT \<and> flag st SCARD_SWALLOWED)"
    "flag E SCARD_STATE_INUSE = (1 \<le> sh \<and> flag st SCARD_PRESENT)"
    "flag E SCARD_STATE_EXCLUSIVE \<Longrightarrow> sh = -1 \<or> 1 \<le> sh \<and> flag st SCARD_ABSENT" "sh = -1 \<Longrightarrow> flag E SCARD_STATE_EXCLUSIVE"
proof -
  define e1 where "e1 = ev_counter cur st (ev_returned cur (e, False))"
  have E: "E = fst (changed_if (cur = 0) (ev_sharing cur st sh (ev_card cur st (ev_state cur st e1))))"
    by (simp add: E_def e1_def reader_event_def)
  obtain e2 b where eb: "e1 = (e2, b)" by fastforce
  consider "flag st SCARD_UNKNOWN" "\<not> flag st SCARD_ABSENT" "\<not> flag st SCARD_PRESENT"
    | "\<not> flag st SCARD_UNKNOWN" "flag st SCARD_ABSENT" "\<not> flag st SCARD_PRESENT"
    | "\<not> flag st SCARD_UNKNOWN" "\<not> flag st SCARD_ABSENT" "flag st SCARD_PRESENT" using assms(2) by (auto simp: one_status_def)
  note cases3 = this
  consider "sh = -1" | "sh = 0" | "1 \<le> sh" using assms(3) by linarith
  note sharing = this
  define x where "x = ev_state cur st (e2, b)"
  have u: "flag st SCARD_UNKNOWN \<Longrightarrow> flag (fst x) k = flag SCARD_STATE_UNAVAILABLE k" if "k AND SCARD_STATE_CHANGED = 0" for k
    using that by (simp add: x_def ev_state_def)
  define y where "y = ev_card cur st x"
  obtain x1 xb where x: "x = (x1, xb)" by fastforce
  have y: "flag (fst y) SCARD_STATE_UNKNOWN = False \<and> flag (fst y) SCARD_STATE_UNAVAILABLE = flag st SCARD_UNKNOWN
    \<and> flag (fst y) SCARD_STATE_EMPTY = flag st SCARD_ABSENT \<and> flag (fst y) SCARD_STATE_PRESENT = flag st SCARD_PRESENT
    \<and> flag (fst y) SCARD_STATE_MUTE = (flag st SCARD_PRESENT \<and> flag st SCARD_SWALLOWED)
    \<and> (flag st SCARD_UNKNOWN \<or> flag st SCARD_ABSENT \<longrightarrow> \<not> flag (fst y) SCARD_STATE_INUSE)
    \<and> (flag st SCARD_UNKNOWN \<longrightarrow> \<not> flag (fst y) SCARD_STATE_EXCLUSIVE)"
  proof (cases rule: cases3)
    case 1
    then show ?thesis using u by (simp add: y_def ev_card_def split: prod.split)
  next
    case 2
    then show ?thesis by (simp add: y_def x ev_card_def clear_bits_def)
  next
    case 3
    then show ?thesis by (simp add: y_def x ev_card_def clear_bits_def changed_if_def)
  qed
  obtain y1 yb where yy: "y = (y1, yb)" by fastforce
  have E': "E = fst (changed_if (cur = 0) (ev_sharing cur st sh (y1, yb)))" by (simp add: E eb x_def [symmetric] y_def [symmetric] yy)
  have s: "flag E k = flag y1 k" if "k AND SCARD_STATE_CHANGED = 0" "k AND SCARD_STATE_INUSE = 0" "k AND SCARD_STATE_EXCLUSIVE = 0" for k
    using that unfolding E' by (simp add: ev_sharing_def and.commute)
  show "flag E SCARD_STATE_UNKNOWN = False" "flag E SCARD_STATE_UNAVAILABLE = flag st SCARD_UNKNOWN" "flag E SCARD_STATE_EMPTY = flag st SCARD_ABSENT"
    "flag E SCARD_STATE_PRESENT = flag st SCARD_PRESENT" "flag E SCARD_STATE_MUTE = (flag st SCARD_PRESENT \<and> flag st SCARD_SWALLOWED)"
    using y yy s by simp_all
  show "flag E SCARD_STATE_INUSE = (1 \<le> sh \<and> flag st SCARD_PRESENT)"
    unfolding E' using y yy by (cases rule: sharing; cases rule: cases3; simp add: ev_sharing_def)
  show "sh = -1 \<or> 1 \<le> sh \<and> flag st SCARD_ABSENT" if "flag E SCARD_STATE_EXCLUSIVE"
    using that unfolding E' using y yy by (cases rule: sharing; cases rule: cases3; simp add: ev_sharing_def)
  show "flag E SCARD_STATE_EXCLUSIVE" if "sh = -1"
    using that unfolding E' by (simp add: ev_sharing_def)
qed

text \<open>The counter of the new word is 0 or the one of the reader, when the word had no counter before or gets one.\<close>

lemma event_word_counter:
  assumes "cur AND 0xFFFF0000 = 0 \<Longrightarrow> counter e = 0"
  shows "counter (fst (reader_event cur st sh e)) \<in> {0, counter st}"
    and "cur AND 0xFFFF0000 = 0 \<Longrightarrow> counter (fst (reader_event cur st sh e)) = 0"
proof -
  define e1 where "e1 = ev_counter cur st (ev_returned cur (e, False))"
  have c: "counter (bset k e) = counter e" "counter (bclr k e) = counter e" if "k AND 0xFFFF0000 = 0" for k e
    using counter_low [OF that] by simp_all
  have ret: "counter (fst (ev_returned cur (e, False))) = counter e" by (simp add: ev_returned_def c)
  have step1: "counter (fst e1) = counter st" if "cur AND 0xFFFF0000 \<noteq> 0"
    using that by (cases "ev_returned cur (e, False)") (simp add: e1_def ev_counter_def changed_if_def counter_put split: prod.split)
  have step0: "counter (fst e1) = 0" if "cur AND 0xFFFF0000 = 0"
    using that ret assms by (simp add: e1_def ev_counter_def)
  have unavailable: "counter SCARD_STATE_UNAVAILABLE = 0" by (simp add: counter_def)
  have step2: "counter (fst (ev_state cur st e1)) \<in> {0, counter (fst e1)}"
    by (cases e1) (auto simp: ev_state_def changed_if_def c unavailable)
  have step3: "counter (fst (ev_sharing cur st sh (ev_card cur st x))) = counter (fst x)" for x
    by (cases x) (auto simp: ev_sharing_def ev_card_def clear_bits_def changed_if_def c Let_def)
  have E: "reader_event cur st sh e = changed_if (cur = 0) (ev_sharing cur st sh (ev_card cur st (ev_state cur st e1)))"
    by (simp add: e1_def reader_event_def)
  show "counter (fst (reader_event cur st sh e)) \<in> {0, counter st}"
    using step0 step1 step2 unfolding E counter_changed step3 by (cases "cur AND 0xFFFF0000 = 0") auto
  show "cur AND 0xFFFF0000 = 0 \<Longrightarrow> counter (fst (reader_event cur st sh e)) = 0"
    using step0 step2 unfolding E counter_changed step3 by auto
qed

text \<open>The event words that a call can have when it starts a pass: 0, as the words are cleared before the loop, and what passes without a change leave, over whatever
  states of the reader; a reader that is gone and that the application knows to be gone leaves a fixed word.\<close>

inductive pass_word :: "DWORD \<Rightarrow> DWORD \<Rightarrow> bool" for cur where
  first: "pass_word cur 0"
| again: "pass_word cur e \<Longrightarrow> \<not> snd (reader_event cur st sh e) \<Longrightarrow> pass_word cur (fst (reader_event cur st sh e))"
| gone: "pass_word cur e \<Longrightarrow> flag cur SCARD_STATE_UNKNOWN \<Longrightarrow> pass_word cur (SCARD_STATE_UNKNOWN OR SCARD_STATE_UNAVAILABLE)"

lemma pass_word_counter: "pass_word cur e \<Longrightarrow> cur AND 0xFFFF0000 = 0 \<Longrightarrow> counter e = 0"
proof (induction rule: pass_word.induct)
  case (again e st sh)
  then show ?case using event_word_counter(2) by simp
qed (simp_all add: counter_def)

text \<open>These are the words of the loop: a pass over a reader with a name starts with such a word and, when nothing changed, ends with one.\<close>

lemma pass_word_loop:
  assumes "check_reader states known r = Some (r', known', False)" and "pass_word (dwCurrentState r) (dwEventState r)"
  shows "pass_word (dwCurrentState r') (dwEventState r') \<and> dwCurrentState r' = dwCurrentState r"
proof -
  obtain name where n: "szReader r = Some name" using assms(1) by (auto simp: check_reader_def bind_eq_Some_conv)
  show ?thesis
  proof (cases "first_index (\<lambda>s. name = readerName s) states")
    case None
    with assms n pass_word.gone [OF assms(2)] show ?thesis
      by (auto simp: check_reader_def changed_if_def simp del: first_index_None_iff split: if_splits)
  next
    case (Some k)
    let ?E = "reader_event (dwCurrentState r) (readerState (states ! k)) (readerSharing (states ! k)) (dwEventState r)"
    from Some assms(1) n obtain r1 where h: "hand_out_atr (states ! k) r = Some r1" and r': "r' = r1\<lparr>dwEventState := fst ?E\<rparr>" "\<not> snd ?E"
      by (auto simp: check_reader_def bind_eq_Some_conv Let_def)
    have "dwCurrentState r1 = dwCurrentState r" using h by (auto simp: hand_out_atr_def Let_def split: if_splits)
    with r' pass_word.again [OF assms(2) r'(2)] show ?thesis by simp
  qed
qed

text \<open>C19: An application that hands the reported event word back as its current state is not woken up as long as the reader does not change, in whatever pass of
  the first call the word was reported, and in no pass of the next call.\<close>

theorem status_event_stable:
  assumes "one_status st" and "-1 \<le> sharing" and "pass_word cur e"
  shows "\<not> snd (reader_event (fst (reader_event cur st sharing e)) st sharing e')"
proof -
  let ?E = "fst (reader_event cur st sharing e)"
  note f = event_flags [OF assms(1,2), of cur e]
  have one: "flag st SCARD_UNKNOWN \<or> flag st SCARD_ABSENT \<or> flag st SCARD_PRESENT" using assms(1) by (auto simp: one_status_def)
  have "?E \<noteq> 0" using f one by (metis flag_0(1))
  moreover have "\<not> (?E AND 0xFFFF0000 \<noteq> 0 \<and> counter st \<noteq> counter ?E)"
    using event_word_counter(1) [of cur e st sharing] pass_word_counter [OF assms(3)] by (auto simp: counter_nonzero)
  moreover have "\<not> (flag ?E SCARD_STATE_EXCLUSIVE \<and> (sharing = 0 \<or> 1 \<le> sharing \<and> flag st SCARD_PRESENT))"
    using f(7) assms(1) by (auto simp: one_status_def)
  ultimately show ?thesis unfolding event_break f(1-6) using assms(1,2) by (auto simp: one_status_def)
qed

text \<open>Announced changes: the bit \<^verbatim>\<open>SCARD_STATE_CHANGED\<close>.\<close>

lemma changed_flag:
  assumes "\<not> (flag cur SCARD_STATE_UNAVAILABLE \<and> flag st SCARD_UNKNOWN)" and "snd (reader_event cur st sh e)"
  shows "flag (fst (reader_event cur st sh e)) SCARD_STATE_CHANGED"
proof -
  define e1 where "e1 = ev_counter cur st (ev_returned cur (e, False))"
  have bits: "flag (clear_bits bits e) SCARD_STATE_CHANGED = flag e SCARD_STATE_CHANGED" if "\<forall>k \<in> set bits. k AND SCARD_STATE_CHANGED = 0" for bits e
    using that by (induction bits arbitrary: e) (simp_all add: clear_bits_def)
  have low: "flag (e AND 0xFFFF OR push_bit 16 (counter w)) SCARD_STATE_CHANGED = flag e SCARD_STATE_CHANGED" for e w
    by (rule low_flag) simp
  have one: "snd e1 \<longrightarrow> flag (fst e1) SCARD_STATE_CHANGED"
    by (simp add: low e1_def ev_counter_def ev_returned_def changed_if_def Let_def)
  have two: "snd (ev_state cur st e1) \<longrightarrow> flag (fst (ev_state cur st e1)) SCARD_STATE_CHANGED"
    using one assms(1) by (cases e1) (auto simp: ev_state_def changed_if_def)
  have three: "snd (ev_sharing cur st sh (ev_card cur st x)) \<longrightarrow> flag (fst (ev_sharing cur st sh (ev_card cur st x))) SCARD_STATE_CHANGED"
    if "snd x \<longrightarrow> flag (fst x) SCARD_STATE_CHANGED" for x
    using that by (cases x) (simp add: ev_sharing_def ev_card_def changed_if_def bits Let_def)
  show ?thesis using three [OF two] assms(2) unfolding reader_event_def e1_def [symmetric] event_fst(2) event_snd(1) by blast
qed

subsection \<open>What an application is told\<close>

text \<open>C18: A card that is inserted, removed or found mute, and a reader that breaks or works again, is always reported, in whatever pass of the call it is noticed:
  the wait ends, the reader is marked as changed, and the flags for unavailable, present, empty and mute tell the new state and nothing of
  the states that earlier passes saw. The application believes what an earlier call reported, in whatever pass.\<close>

theorem status_change_reported:
  assumes "one_status old" and "-1 \<le> sharing" and "one_status new" and "-1 \<le> sharing1"
    and "flag old SCARD_UNKNOWN \<noteq> flag new SCARD_UNKNOWN \<or> flag old SCARD_PRESENT \<noteq> flag new SCARD_PRESENT
      \<or> flag new SCARD_PRESENT \<and> flag old SCARD_SWALLOWED \<noteq> flag new SCARD_SWALLOWED"
    and "pass_word c e" and "pass_word (fst (reader_event c old sharing e)) e'"
  shows "let cur = fst (reader_event c old sharing e); E = reader_event cur new sharing1 e' in
      snd E \<and> flag (fst E) SCARD_STATE_CHANGED \<and> flag (fst E) SCARD_STATE_UNAVAILABLE = flag new SCARD_UNKNOWN
      \<and> flag (fst E) SCARD_STATE_PRESENT = flag new SCARD_PRESENT \<and> flag (fst E) SCARD_STATE_EMPTY = flag new SCARD_ABSENT
      \<and> flag (fst E) SCARD_STATE_MUTE = (flag new SCARD_PRESENT \<and> flag new SCARD_SWALLOWED)"
proof -
  let ?c = "fst (reader_event c old sharing e)"
  note f = event_flags [OF assms(1,2), of c e]
  note g = event_flags [OF assms(3,4), of ?c e']
  have b: "snd (reader_event ?c new sharing1 e')" unfolding event_break f(1-6) using assms(1,3,5) by (auto simp: one_status_def)
  show ?thesis
  proof (cases "flag old SCARD_UNKNOWN \<and> flag new SCARD_UNKNOWN")
    case True
    then show ?thesis using assms(1,3,5) by (auto simp: one_status_def)
  next
    case False
    then have "flag (fst (reader_event ?c new sharing1 e')) SCARD_STATE_CHANGED" using b changed_flag [of ?c new sharing1 e'] f(2) by blast
    then show ?thesis using b g(2-5) unfolding Let_def by blast
  qed
qed

lemma lost_reader:
  assumes "szReader r = Some name" and "\<forall>s \<in> set states. readerName s \<noteq> name" and "map to_lower name \<noteq> map to_lower PnP_name"
  obtains e where "check_reader states known r = Some (r\<lparr>dwEventState := e\<rparr>, known, \<not> flag (dwCurrentState r) SCARD_STATE_UNKNOWN)"
    and "flag e SCARD_STATE_UNKNOWN" and "flag e SCARD_STATE_UNAVAILABLE"
    and "flag e SCARD_STATE_CHANGED = (\<not> flag (dwCurrentState r) SCARD_STATE_UNKNOWN)"
proof (rule that)
  let ?e = "if flag (dwCurrentState r) SCARD_STATE_UNKNOWN then SCARD_STATE_UNKNOWN OR SCARD_STATE_UNAVAILABLE
    else bset SCARD_STATE_CHANGED (SCARD_STATE_UNKNOWN OR SCARD_STATE_UNAVAILABLE)"
  have "first_index (\<lambda>s. name = readerName s) states = None" using assms(2) by auto
  then show "check_reader states known r = Some (r\<lparr>dwEventState := ?e\<rparr>, known, \<not> flag (dwCurrentState r) SCARD_STATE_UNKNOWN)"
    using assms by (simp add: check_reader_def changed_if_def del: first_index_None_iff)
  show "flag ?e SCARD_STATE_UNKNOWN" "flag ?e SCARD_STATE_UNAVAILABLE" "flag ?e SCARD_STATE_CHANGED = (\<not> flag (dwCurrentState r) SCARD_STATE_UNKNOWN)"
    by (simp_all add: flag_def bset_def)
qed

lemma returned_reader:
  "flag cur SCARD_STATE_UNKNOWN \<Longrightarrow> snd (reader_event cur st sharing 0)"
  by (simp add: event_break)

text \<open>The announcement that is lost.\<close>

lemma returned_unknown_unannounced:
  "let (e, b) = reader_event (SCARD_STATE_UNKNOWN OR SCARD_STATE_UNAVAILABLE) SCARD_UNKNOWN 0 0 in b \<and> \<not> flag e SCARD_STATE_CHANGED"
  by (simp add: reader_event_def ev_returned_def ev_counter_def ev_state_def ev_card_def ev_sharing_def changed_if_def flag_def bset_def bclr_def)

theorem status_event_stable_witness:
  "\<not> snd (reader_event (fst (reader_event SCARD_STATE_UNAWARE 0x34 1 0)) 0x34 1 0)"
  using status_event_stable [of "0x34" 1 SCARD_STATE_UNAWARE 0 0] pass_word.first by (simp add: one_status_def flag_def)

text \<open>A card is pulled in the second pass of a call: the first one saw it in the reader.\<close>

theorem status_change_reported_witness:
  "let cur = fst (reader_event 0 0x34 0 0); e = fst (reader_event cur 0x34 0 0) in
     flag e SCARD_STATE_PRESENT \<and> flag (fst (reader_event cur SCARD_ABSENT 0 e)) SCARD_STATE_CHANGED
     \<and> \<not> flag (fst (reader_event cur SCARD_ABSENT 0 e)) SCARD_STATE_PRESENT"
proof -
  let ?cur = "fst (reader_event 0 0x34 0 0)"
  let ?e = "fst (reader_event ?cur 0x34 0 0)"
  have st: "one_status 0x34" "one_status SCARD_ABSENT" "flag (0x34 :: DWORD) SCARD_PRESENT" "\<not> flag SCARD_ABSENT SCARD_PRESENT"
    by (simp_all add: one_status_def flag_def)
  have "\<not> snd (reader_event ?cur 0x34 0 0)" unfolding event_break event_flags(1-6) [OF st(1), of 0, simplified]
    by (simp add: reader_event_def ev_returned_def ev_counter_def ev_state_def ev_card_def ev_sharing_def changed_if_def clear_bits_def flag_def bset_def bclr_def counter_def)
  then have "pass_word ?cur ?e" by (rule pass_word.again [OF pass_word.first])
  from status_change_reported [OF st(1) _ st(2) _ _ pass_word.first this, of 0] st(3,4) event_flags(4) [OF st(1), of 0 ?cur 0]
  show ?thesis by (simp add: Let_def)
qed

end
