(* ===== verification/Clnt_Inv.thy ===== *)
theory Clnt_Inv
  imports Clnt
begin

section \<open>The table of contexts in the client library\<close>

text \<open>
  The table of contexts stays well formed under all calls, whatever the daemon answers. The channels of one context are a \<open>handle_table\<close>, the
  calls of an application on the library a \<open>guarded_system\<close>.
\<close>

subsection \<open>Channels\<close>

definition map_handles :: "context_map \<Rightarrow> SCARDHANDLE list" where
  "map_handles m = map chan_hCard (psChannelMap m)"

interpretation channels:
  handle_table map_handles "add_channel name" remove_channel SCARD_E_NO_MEMORY SCARD_E_INVALID_HANDLE for name
  by unfold_locales
     (auto simp: map_handles_def add_channel_def remove_channel_def first_index_map map_update simp del: first_index_None_iff)

lemma handles_fields [simp]:
  "map_handles (m\<lparr>contextBlockStatus := b\<rparr>) = map_handles m" "map_handles (m\<lparr>map_hContext := x\<rparr>) = map_handles m"
  "map_handles (m\<lparr>map_dwClientID := d\<rparr>) = map_handles m"
  "map_handles empty_map = replicate 16 0"
  by (simp_all add: map_handles_def empty_map_def)

lemma channel_fields [simp]:
  "map_hContext (snd (add_channel name m h)) = map_hContext m" "map_dwClientID (snd (add_channel name m h)) = map_dwClientID m"
  "map_hContext (snd (remove_channel m h)) = map_hContext m" "map_dwClientID (snd (remove_channel m h)) = map_dwClientID m"
  by (simp_all add: add_channel_def remove_channel_def split: option.split)

subsection \<open>The invariant\<close>

text \<open>Every context has all its channels, a handle comes with the name of its reader, only open contexts have handles, and no two contexts have
  the same number.\<close>

definition map_ok :: "context_map \<Rightarrow> bool" where
  "map_ok m \<longleftrightarrow> length (psChannelMap m) = PCSCLITE_MAX_APPLICATION_CONTEXT_CHANNELS
     \<and> (\<forall>x \<in> set (psChannelMap m). chan_hCard x \<noteq> 0 \<longrightarrow> chan_readerName x \<noteq> None)
     \<and> (map_hContext m = 0 \<longrightarrow> (\<forall>x \<in> set (psChannelMap m). chan_hCard x = 0))"

definition open_maps :: "context_map list \<Rightarrow> SCARDCONTEXT multiset" where
  "open_maps ms = live (map map_hContext ms)"

definition table_ok :: "context_map list \<Rightarrow> bool" where
  "table_ok ms \<longleftrightarrow> length ms = PCSCLITE_MAX_APPLICATION_CONTEXTS \<and> (\<forall>m \<in> set ms. map_ok m)
     \<and> (\<forall>i<length ms. \<forall>j<length ms. map_hContext (ms ! i) \<noteq> 0 \<longrightarrow> map_hContext (ms ! i) = map_hContext (ms ! j) \<longrightarrow> i = j)"

lemma empty_map_ok [simp]: "map_ok empty_map"
  by (simp add: map_ok_def empty_map_def)

lemma empty_table_ok [simp]: "table_ok (replicate PCSCLITE_MAX_APPLICATION_CONTEXTS empty_map)"
  by (auto simp: table_ok_def empty_map_def map_ok_def)

lemma table_length: "table_ok ms \<Longrightarrow> length ms = 16"
  by (simp add: table_ok_def)

lemma table_nth: "table_ok ms \<Longrightarrow> i < 16 \<Longrightarrow> map_ok (ms ! i)"
  by (simp add: table_ok_def)

lemma table_update:
  assumes "table_ok ms" and "i < 16" and "map_ok m"
    and "map_hContext m \<noteq> 0 \<longrightarrow> (\<forall>j<16. j \<noteq> i \<longrightarrow> map_hContext (ms ! j) \<noteq> map_hContext m)"
  shows "table_ok (ms[i := m])"
proof -
  have n: "length ms = 16" using assms(1) by (rule table_length)
  have "\<forall>x \<in> set (ms[i := m]). map_ok x" using assms(1,3) set_update_subset_insert [of ms i m] by (auto simp: table_ok_def)
  moreover have "a = b" if "a < 16" "b < 16" "map_hContext (ms[i := m] ! a) \<noteq> 0" "map_hContext (ms[i := m] ! a) = map_hContext (ms[i := m] ! b)" for a b
    using that assms(1,2,4) n by (cases "a = i"; cases "b = i") (auto simp: table_ok_def)
  ultimately show ?thesis using n by (simp add: table_ok_def)
qed

lemma table_same_context:
  assumes "table_ok ms" and "i < 16" and "map_ok m" and "map_hContext m = map_hContext (ms ! i)"
  shows "table_ok (ms[i := m])"
  by (rule table_update [OF assms(1-3)]) (use assms in \<open>auto simp: table_ok_def\<close>)

lemma upd_map_list: "i < length (psContextMap c) \<Longrightarrow> psContextMap (upd_map i f c) = (psContextMap c)[i := f (psContextMap c ! i)]"
  by (simp add: upd_map_def upd_at_def)

lemma block_ok: "map_ok m \<Longrightarrow> map_ok (m\<lparr>contextBlockStatus := b\<rparr>)"
  by (simp add: map_ok_def)

lemma add_channel_ok: "map_ok m \<Longrightarrow> map_hContext m \<noteq> 0 \<Longrightarrow> map_ok (snd (add_channel name m h))"
  by (auto simp: add_channel_def map_ok_def dest!: subsetD [OF set_update_subset_insert] split: option.split)

lemma remove_channel_ok: "map_ok m \<Longrightarrow> map_ok (snd (remove_channel m h))"
  by (auto simp: remove_channel_def map_ok_def dest!: subsetD [OF set_update_subset_insert] split: option.split)

lemma block_table [simp]:
  assumes "table_ok (psContextMap c)" and "i < 16"
  shows "table_ok (psContextMap (upd_map i (\<lambda>m. m\<lparr>contextBlockStatus := b\<rparr>) c))"
proof -
  have "map_ok ((psContextMap c ! i)\<lparr>contextBlockStatus := b\<rparr>)" using assms by (intro block_ok table_nth)
  with table_same_context [OF assms this] show ?thesis using assms by (simp add: upd_map_list table_length)
qed

subsection \<open>Operations on the table\<close>

lemma context_index:
  assumes "SCardGetContextIndiceTH h c = Some i" and "table_ok (psContextMap c)"
  shows "i < 16" "map_hContext (psContextMap c ! i) = h" "h \<noteq> 0"
  using assms first_index_SomeD [OF assms(1) [unfolded SCardGetContextIndiceTH_def]] by (auto simp: table_ok_def)

lemma context_unused: "SCardGetContextIndiceTH h c = None \<Longrightarrow> h \<noteq> 0 \<Longrightarrow> m \<in> set (psContextMap c) \<Longrightarrow> map_hContext m \<noteq> h"
  by (auto simp: SCardGetContextIndiceTH_def)

lemma handle_indices:
  assumes "SCardGetIndicesFromHandle h c = Some (i, j)"
  shows "i < length (psContextMap c)" "map_hContext (psContextMap c ! i) \<noteq> 0" "h \<noteq> 0"
    "first_index (\<lambda>x. chan_hCard x = h) (psChannelMap (psContextMap c ! i)) = Some j"
  using assms by (auto simp: SCardGetIndicesFromHandle_def SCardGetIndicesFromHandleTH_def dest!: first_index_SomeD split: option.splits if_splits)

lemma clean_context_ok:
  assumes "table_ok (psContextMap c)" and "i < 16"
  shows "table_ok (psContextMap (snd (SCardCleanContext sys i c)))"
  using table_update [OF assms empty_map_ok] assms
  by (simp add: SCardCleanContext_def upd_map_list table_length empty_map_def)

lemma remove_context_ok:
  assumes "table_ok (psContextMap c)"
  shows "table_ok (psContextMap (snd (SCardRemoveContext sys h c)))"
  using assms clean_context_ok [OF assms context_index(1)]
  by (auto simp: SCardRemoveContext_def split: option.split)

lemma add_context_ok:
  assumes "SCardAddContext h fd c = (rv, c1)" and "table_ok (psContextMap c)" and "SCardGetContextIndiceTH h c = None"
  shows "table_ok (psContextMap c1)"
proof (cases "first_index (\<lambda>m. map_hContext m = 0) (psContextMap c)")
  case None
  with assms show ?thesis by (simp add: SCardAddContext_def del: first_index_None_iff)
next
  case (Some i)
  let ?m = "(psContextMap c ! i)\<lparr>map_hContext := h, map_dwClientID := fd, contextBlockStatus := BLOCK_STATUS_RESUME\<rparr>"
  have i: "i < 16" "map_hContext (psContextMap c ! i) = 0" using first_index_SomeD [OF Some] assms(2) by (auto simp: table_ok_def)
  have "map_ok ?m" using table_nth [OF assms(2) i(1)] i(2) by (simp add: map_ok_def)
  moreover have "map_hContext ?m \<noteq> 0 \<longrightarrow> (\<forall>j<16. j \<noteq> i \<longrightarrow> map_hContext (psContextMap c ! j) \<noteq> map_hContext ?m)"
    using context_unused [OF assms(3)] assms(2) by (simp add: table_ok_def)
  ultimately have "table_ok ((psContextMap c)[i := ?m])" using table_update [OF assms(2) i(1)] by blast
  with assms(1,2) Some i(1) show ?thesis by (auto simp: SCardAddContext_def upd_map_list table_length)
qed

lemma add_handle_ok:
  assumes "table_ok (psContextMap c)" and "i < 16" and "map_hContext (psContextMap c ! i) \<noteq> 0"
  shows "table_ok (psContextMap (snd (SCardAddHandle h i name c)))"
  using table_same_context [OF assms(1,2) add_channel_ok [OF table_nth [OF assms(1,2)] assms(3)]] assms
  by (simp add: SCardAddHandle_def upd_map_list table_length split_beta)

lemma remove_handle_ok:
  assumes "table_ok (psContextMap c)"
  shows "table_ok (psContextMap (snd (SCardRemoveHandle h c)))"
proof (cases "SCardGetIndicesFromHandle h c")
  case None
  with assms show ?thesis by (simp add: SCardRemoveHandle_def)
next
  case (Some ij)
  obtain i j where ij: "ij = (i, j)" by fastforce
  have i: "i < 16" using handle_indices(1) [OF Some [unfolded ij]] assms by (simp add: table_length)
  with table_same_context [OF assms i remove_channel_ok [OF table_nth [OF assms i]]] assms Some ij show ?thesis
    by (simp add: SCardRemoveHandle_def upd_map_list table_length split_beta)
qed

subsection \<open>The connection to the daemon\<close>

lemma clean_contexts_ok:
  assumes "table_ok (psContextMap c)"
  shows "table_ok (psContextMap (clean_contexts sys c))"
proof -
  let ?f = "\<lambda>c i. if map_hContext (psContextMap c ! i) \<noteq> 0 then snd (SCardCleanContext sys i c) else c"
  have "table_ok (psContextMap (foldl ?f c is))" if "\<forall>i \<in> set is. i < 16" "table_ok (psContextMap c)" for "is" c
    using that
  proof (induction "is" arbitrary: c)
    case (Cons i "is")
    have "table_ok (psContextMap (?f c i))" using Cons.prems clean_context_ok [of c i sys] by simp
    with Cons show ?case by simp
  qed simp
  from this [of "[0..<16]", OF _ assms] show ?thesis by (simp add: clean_contexts_def del: upt_Suc)
qed

lemma check_daemon_ok:
  assumes "SCardCheckDaemonAvailability sys c = (rv, c1)" and "table_ok (psContextMap c)"
  shows "table_ok (psContextMap c1)" "rv = SCARD_S_SUCCESS \<Longrightarrow> psContextMap c1 = psContextMap c"
  using assms clean_contexts_ok [OF assms(2), of sys]
  by (auto simp: SCardCheckDaemonAvailability_def split: option.splits if_splits)

lemma ask_same: "ask sys fd req c = (r, c1) \<Longrightarrow> psContextMap c1 = psContextMap c"
  by (auto simp: ask_def Let_def split: prod.splits if_splits)

lemma ask_in_same: "ask_in sys i req c = (r, c1) \<Longrightarrow> psContextMap c1 = psContextMap c"
  by (auto simp: ask_in_def dest: ask_same)

lemma ask_code_same: "ask_code sys i req c = Some (r, c1) \<Longrightarrow> psContextMap c1 = psContextMap c"
  by (auto simp: ask_code_def dest: ask_in_same split: prod.splits sum.splits reply.splits)

lemma states_same: "getReaderStates sys i c = Some (rv, c1) \<Longrightarrow> psContextMap c1 = psContextMap c"
  by (auto simp: getReaderStates_def dest: ask_in_same split: prod.splits sum.splits reply.splits)

lemma synchronize_same: "synchronize sys i j c = Some (r, c1) \<Longrightarrow> psContextMap c1 = psContextMap c"
  by (auto simp: synchronize_def bind_eq_Some_conv dest: states_same)

lemma open_context_ok:
  assumes "open_context sys h c = (r, c1)" and "table_ok (psContextMap c)"
  shows "table_ok (psContextMap c1)" "r = Inr i \<Longrightarrow> psContextMap c1 = psContextMap c \<and> i < 16 \<and> map_hContext (psContextMap c1 ! i) = h \<and> h \<noteq> 0"
proof -
  obtain rv c2 where c: "SCardCheckDaemonAvailability sys c = (rv, c2)" by fastforce
  note c2 = check_daemon_ok [OF c assms(2)]
  show "table_ok (psContextMap c1)" using assms(1) c c2 by (auto simp: open_context_def split: if_splits option.splits)
  show "r = Inr i \<Longrightarrow> psContextMap c1 = psContextMap c \<and> i < 16 \<and> map_hContext (psContextMap c1 ! i) = h \<and> h \<noteq> 0"
    using assms(1) c c2 context_index [of h c2 i] by (auto simp: open_context_def SCardGetContextIndice_def split: if_splits option.splits)
qed

lemma open_handle_ok:
  assumes "open_handle sys h c = (r, c1)" and "table_ok (psContextMap c)"
  shows "table_ok (psContextMap c1)" "r = Inr (i, j) \<Longrightarrow> psContextMap c1 = psContextMap c \<and> SCardGetIndicesFromHandle h c1 = Some (i, j)"
proof -
  obtain rv c2 where c: "SCardCheckDaemonAvailability sys c = (rv, c2)" by fastforce
  note c2 = check_daemon_ok [OF c assms(2)]
  show "table_ok (psContextMap c1)" using assms(1) c c2 by (auto simp: open_handle_def split: if_splits option.splits)
  show "r = Inr (i, j) \<Longrightarrow> psContextMap c1 = psContextMap c \<and> SCardGetIndicesFromHandle h c1 = Some (i, j)"
    using assms(1) c c2 by (auto simp: open_handle_def split: if_splits option.splits)
qed

lemma open_card_ok:
  assumes "open_card sys h c = Some (r, c1)" and "table_ok (psContextMap c)"
  shows "table_ok (psContextMap c1)"
proof -
  obtain r0 c0 where o: "open_handle sys h c = (r0, c0)" by fastforce
  show ?thesis
  proof (cases r0)
    case (Inl e)
    with assms(1) o open_handle_ok(1) [OF o assms(2)] show ?thesis by (simp add: open_card_def)
  next
    case (Inr ij)
    with assms(1) o obtain r2 where "synchronize sys (fst ij) (snd ij) c0 = Some (r2, c1)"
      by (auto simp: open_card_def bind_eq_Some_conv split: prod.splits)
    then show ?thesis using open_handle_ok(1) [OF o assms(2)] synchronize_same by metis
  qed
qed

subsection \<open>Calls that only ask\<close>

lemma reconnect_loop_same:
  assumes "reconnect_loop sys i req act c = Some y"
  shows "psContextMap (snd (snd y)) = psContextMap c"
proof (rule reconnect_loop.raw_induct [OF _ assms, where P = "\<lambda>sys i req act c y. psContextMap (snd (snd y)) = psContextMap c"])
  fix loop sys i req act y and c :: "'a clnt"
  assume IH: "\<And>sys i req act c y. loop sys i req act c = Some y \<Longrightarrow> psContextMap (snd (snd y)) = psContextMap (c :: 'a clnt)"
    and run: "(case ask_in sys i req c of
       (Inl e, c1) \<Rightarrow> Some (e, act, c1)
     | (Inr r, c1) \<Rightarrow>
        (case r of
           Reconnect_Reply rv act1 \<Rightarrow> if rv = SCARD_E_SHARING_VIOLATION then loop sys i req act c1 else Some (rv, act1, c1)
         | _ \<Rightarrow> None)) = Some y"
  then show "psContextMap (snd (snd y)) = psContextMap c"
    by (auto dest!: ask_in_same IH split: prod.splits sum.splits reply.splits if_splits)
qed

lemma begin_loop_same:
  assumes "begin_loop sys i h rv0 c = Some y"
  shows "psContextMap (snd y) = psContextMap c"
proof (rule begin_loop.raw_induct [OF _ assms, where P = "\<lambda>sys i h rv0 c y. psContextMap (snd y) = psContextMap c"])
  fix loop sys i h rv0 y and c :: "'a clnt"
  assume IH: "\<And>sys i h rv0 c y. loop sys i h rv0 c = Some y \<Longrightarrow> psContextMap (snd y) = psContextMap (c :: 'a clnt)"
    and run: "do {
     (r, c1) \<leftarrow> ask_code sys i (Begin_Transaction h rv0) c;
     (case r of
        Inl e \<Rightarrow> Some (e, c1)
      | Inr rv \<Rightarrow> if rv = SCARD_E_SHARING_VIOLATION then loop sys i h rv c1 else Some (rv, c1))
   } = Some y"
  obtain r c1 where a: "ask_code sys i (Begin_Transaction h rv0) c = Some (r, c1)" using run by (auto simp: bind_eq_Some_conv)
  show "psContextMap (snd y) = psContextMap c"
    using run a ask_code_same [OF a] IH [of sys i h _ c1 y] by (cases r) (auto split: if_splits)
qed

lemma establish_again_ok:
  assumes "establish_again sys dwScope fd c = Some y" and "table_ok (psContextMap c)"
  shows "table_ok (psContextMap (snd (snd y)))"
proof (rule establish_again.raw_induct [OF _ assms(1), where P = "\<lambda>sys s fd c y. table_ok (psContextMap c) \<longrightarrow> table_ok (psContextMap (snd (snd y)))", rule_format])
  show "table_ok (psContextMap c)" by fact
next
  fix loop sys s fd y and c :: "'a clnt"
  assume IH: "\<And>sys s fd c y. loop sys s fd c = Some y \<Longrightarrow> table_ok (psContextMap (c :: 'a clnt)) \<Longrightarrow> table_ok (psContextMap (snd (snd y)))"
    and run: "(case ask sys fd (Establish_Context s) c of
       (Inl e, c1) \<Rightarrow> Some (e, 0, c1)
     | (Inr r, c1) \<Rightarrow>
        (case r of
           Context_Reply rv hContext \<Rightarrow>
             if rv \<noteq> SCARD_S_SUCCESS then Some (rv, 0, c1)
             else if SCardGetContextIndiceTH hContext c1 \<noteq> None then loop sys s fd c1
             else let (rv1, c2) = SCardAddContext hContext fd c1 in Some (rv1, hContext, c2)
         | _ \<Rightarrow> None)) = Some y"
    and ok: "table_ok (psContextMap c)"
  obtain r c1 where a: "ask sys fd (Establish_Context s) c = (r, c1)" by fastforce
  have ok1: "table_ok (psContextMap c1)" using ask_same [OF a] ok by simp
  show "table_ok (psContextMap (snd (snd y)))"
    using run a ok1 IH [OF _ ok1] by (auto dest: add_context_ok split: prod.splits sum.splits reply.splits if_splits)
qed

subsection \<open>Waiting\<close>

lemma wait_reply_ok:
  assumes "wait_reply sys i dwTime c = Some (r, c1)" and "table_ok (psContextMap c)" and "i < 16"
  shows "table_ok (psContextMap c1)"
  using assms by (auto simp: wait_reply_def Let_def split: prod.splits option.splits reply.splits if_splits)

lemma wait_change_ok:
  assumes "wait_change sys i dwTimeout dwTime c = Some (r, c1)" and "table_ok (psContextMap c)" and "i < 16"
  shows "table_ok (psContextMap c1)"
proof -
  obtain r0 c0 where w: "wait_reply sys i dwTime c = Some (r0, c0)" using assms(1) by (auto simp: wait_change_def bind_eq_Some_conv)
  note ok = wait_reply_ok [OF w assms(2,3)]
  show ?thesis
  proof (cases "\<exists>rv. r0 = Inr rv \<and> rv = SCARD_S_SUCCESS")
    case True
    with assms(1) w obtain rv c2 where "getReaderStates sys i c0 = Some (rv, c2)" "c1 = c2"
      by (auto simp: wait_change_def bind_eq_Some_conv Let_def split: if_splits)
    with ok states_same show ?thesis by metis
  next
    case False
    with assms(1) w ok show ?thesis by (auto simp: wait_change_def split: sum.splits if_splits)
  qed
qed

lemma status_pass_ok:
  assumes "status_pass sys rs known c = Some (e, rs1, known1, b, c1)" and "table_ok (psContextMap c)"
  shows "table_ok (psContextMap c1)"
  using assms
proof (induction rs arbitrary: known c e rs1 known1 b c1)
  case (Cons r rs)
  obtain rv c2 where k: "SCardCheckDaemonAvailability sys c = (rv, c2)" by fastforce
  show ?case
  proof (cases "rv = SCARD_S_SUCCESS")
    case True
    with Cons.prems(1) k obtain known2 e3 rs3 known3 b3 where "status_pass sys rs known2 c2 = Some (e3, rs3, known3, b3, c1)"
      by (clarsimp simp: bind_eq_Some_conv)
    from Cons.IH [OF this check_daemon_ok(1) [OF k Cons.prems(2)]] show ?thesis .
  next
    case False
    with Cons.prems k check_daemon_ok(1) [OF k] show ?thesis by simp
  qed
qed simp

lemma status_loop_ok:
  assumes "status_loop sys i dwTimeout dwTime rs known c = Some y" and "table_ok (psContextMap c)" and "i < 16"
  shows "table_ok (psContextMap (snd (snd y)))"
proof (rule status_loop.raw_induct [OF _ assms(1), where P = "\<lambda>sys i t d rs k c y. i < 16 \<longrightarrow> table_ok (psContextMap c) \<longrightarrow> table_ok (psContextMap (snd (snd y)))", rule_format])
  show "table_ok (psContextMap c)" "i < 16" by fact+
next
  fix loop sys i t d rs k y and c :: "'a clnt"
  assume IH: "\<And>sys i t d rs k c y. loop sys i t d rs k c = Some y \<Longrightarrow> i < 16 \<Longrightarrow> table_ok (psContextMap (c :: 'a clnt)) \<Longrightarrow> table_ok (psContextMap (snd (snd y)))"
    and run: "do {
     (e, rs1, known1, b, c1) \<leftarrow> status_pass sys rs k c;
     (case e of
        Some rv \<Rightarrow> Some (rv, rs1, c1)
      | None \<Rightarrow>
         if contextBlockStatus (psContextMap c1 ! i) = BLOCK_STATUS_RESUME then Some (SCARD_E_CANCELLED, rs1, c1)
         else if b then Some (SCARD_S_SUCCESS, rs1, c1)
         else do {
           (r, c2) \<leftarrow> wait_change sys i t d c1;
           (case r of Inl rv \<Rightarrow> Some (rv, rs1, c2) | Inr left \<Rightarrow> loop sys i t left rs1 known1 c2)
         })
   } = Some y"
    and ok: "i < 16" "table_ok (psContextMap c)"
  obtain e rs1 known1 b c1 where p: "status_pass sys rs k c = Some (e, rs1, known1, b, c1)" using run by (auto simp: bind_eq_Some_conv)
  note ok1 = status_pass_ok [OF p ok(2)]
  show "table_ok (psContextMap (snd (snd y)))"
  proof (cases "wait_change sys i t d c1")
    case None
    with run p ok1 show ?thesis by (auto split: option.splits if_splits)
  next
    case (Some rc)
    obtain r c2 where rc: "rc = (r, c2)" by fastforce
    note ok2 = wait_change_ok [OF Some [unfolded rc] ok1 ok(1)]
    show ?thesis using run p ok1 ok2 Some rc IH [OF _ ok(1) ok2] by (cases r) (auto split: option.splits if_splits)
  qed
qed

subsection \<open>The calls\<close>

lemma establish_ok:
  assumes "SCardEstablishContext_clnt sys dwScope p c = Some (rv, h, c1)" and "table_ok (psContextMap c)"
  shows "table_ok (psContextMap c1)"
proof -
  obtain rv2 c2 where k: "SCardCheckDaemonAvailability sys c = (rv2, c2)" by fastforce
  obtain rv3 c3 where k3: "(if rv2 = SCARD_E_INVALID_HANDLE then SCardCheckDaemonAvailability sys c2 else (rv2, c2)) = (rv3, c3)" by fastforce
  have ok3: "table_ok (psContextMap c3)" using check_daemon_ok(1) [OF k assms(2)] k3 check_daemon_ok(1) [of sys c2 rv3 c3] by (auto split: if_splits)
  define c0 where "c0 = (if isExecuted c3 then c3 else c3\<lparr>psContextMap := replicate PCSCLITE_MAX_APPLICATION_CONTEXTS empty_map\<rparr>)"
  have ok0: "table_ok (psContextMap c0)" using ok3 by (simp add: c0_def)
  show ?thesis
  proof (cases "rv3 = SCARD_S_SUCCESS")
    case True
    then have th: "SCardEstablishContextTH sys dwScope p c3 = Some (rv, h, c1)"
      using assms(1) k k3 by (simp add: SCardEstablishContext_clnt_def)
    obtain fd s where s: "SHMClientSetupSession sys (outside c0) = (fd, s)" by fastforce
    obtain r c4 where a: "ask sys (the fd) (Version PROTOCOL_VERSION_MAJOR PROTOCOL_VERSION_MINOR) (c0\<lparr>outside := s\<rparr>) = (r, c4)" by fastforce
    have ok4: "table_ok (psContextMap c4)" using ask_same [OF a] ok0 by simp
    show ?thesis
      using th s a ok0 ok3 ok4 establish_again_ok [of sys dwScope "the fd" "c4\<lparr>isExecuted := True\<rparr>" "(rv, h, c1)"]
      unfolding SCardEstablishContextTH_def c0_def [symmetric] Let_def
      by (auto split: if_splits option.splits prod.splits sum.splits reply.splits simp del: first_index_None_iff)
  next
    case False
    with assms(1) k k3 ok3 show ?thesis by (simp add: SCardEstablishContext_clnt_def)
  qed
qed

lemma release_ok:
  assumes "SCardReleaseContext_clnt sys h c = Some (rv, c1)" and "table_ok (psContextMap c)"
  shows "table_ok (psContextMap c1)"
proof -
  obtain rv2 c2 where k: "SCardCheckDaemonAvailability sys c = (rv2, c2)" by fastforce
  note ok2 = check_daemon_ok(1) [OF k assms(2)]
  show ?thesis
  proof (cases "SCardGetContextIndice h c = None \<or> rv2 \<noteq> SCARD_S_SUCCESS \<or> SCardGetContextIndice h c2 = None")
    case True
    with assms k ok2 remove_context_ok [OF ok2] show ?thesis by (auto simp: SCardReleaseContext_clnt_def split: option.splits if_splits)
  next
    case False
    then obtain i where i: "SCardGetContextIndice h c2 = Some i" "SCardGetContextIndice h c \<noteq> None" by blast
    with assms(1) k False obtain r c3 where a: "ask_code sys i (Release_Context h) c2 = Some (r, c3)"
      by (auto simp: SCardReleaseContext_clnt_def bind_eq_Some_conv)
    have ok3: "table_ok (psContextMap c3)" using ask_code_same [OF a] ok2 by simp
    show ?thesis using assms(1) k False i a ok3 remove_context_ok [OF ok3] by (cases r) (auto simp: SCardReleaseContext_clnt_def)
  qed
qed

lemma cancel_ok:
  assumes "SCardCancel_clnt sys h c = Some (rv, c1)" and "table_ok (psContextMap c)"
  shows "table_ok (psContextMap c1)"
proof (cases "SCardGetContextIndice h c")
  case None
  with assms show ?thesis by (simp add: SCardCancel_clnt_def)
next
  case (Some i)
  define c2 where "c2 = upd_map i (\<lambda>m. m\<lparr>contextBlockStatus := BLOCK_STATUS_RESUME\<rparr>) c"
  have ok: "table_ok (psContextMap c2)"
    unfolding c2_def using assms(2) context_index(1) [OF Some [unfolded SCardGetContextIndice_def] assms(2)] by simp
  obtain fd s where s: "SHMClientSetupSession sys (outside c2) = (fd, s)" by fastforce
  obtain r c4 where a: "ask sys (the fd) (Cancel h) (c2\<lparr>outside := s\<rparr>) = (r, c4)" by fastforce
  have "psContextMap c4 = psContextMap c2" using ask_same [OF a] by simp
  with ok assms(1) Some s a show ?thesis
    unfolding SCardCancel_clnt_def c2_def [symmetric] Let_def
    by (auto simp: c2_def [symmetric] split: option.splits sum.splits reply.splits)
qed

lemma connect_ok:
  assumes "SCardConnect_clnt sys h name m p ptrs act c = Some (rv, hc, act1, c1)" and "table_ok (psContextMap c)"
  shows "table_ok (psContextMap c1)"
proof -
  obtain r c2 where o: "open_context sys h c = (r, c2)" by fastforce
  note ok2 = open_context_ok [OF o assms(2)]
  show ?thesis
  proof (cases "\<not> ptrs \<or> name = None \<or> length (the name) > MAX_READERNAME \<or> isl r")
    case True
    with assms o ok2(1) show ?thesis by (cases name; cases r) (auto simp: SCardConnect_clnt_def split: if_splits)
  next
    case False
    then obtain n i where n: "name = Some n" "r = Inr i" by (cases r) auto
    obtain r3 c3 where a: "ask_in sys i (Connect h n m p 0) c2 = (r3, c3)" by fastforce
    have ok3: "table_ok (psContextMap c3)" "i < 16" "map_hContext (psContextMap c3 ! i) \<noteq> 0"
      using ask_in_same [OF a] ok2(1) ok2(2) [OF n(2)] by auto
    have "c1 = c3 \<or> c1 = snd (SCardAddHandle hc i n c3)"
      using False assms(1) o n a by (auto simp: SCardConnect_clnt_def split_beta Let_def split: sum.splits reply.splits if_splits)
    then show ?thesis using add_handle_ok [OF ok3] ok3(1) by auto
  qed
qed

lemma disconnect_ok:
  assumes "SCardDisconnect_clnt sys h d c = Some (rv, c1)" and "table_ok (psContextMap c)"
  shows "table_ok (psContextMap c1)"
proof -
  obtain r c2 where o: "open_handle sys h c = (r, c2)" by fastforce
  note ok2 = open_handle_ok(1) [OF o assms(2)]
  show ?thesis
  proof (cases r)
    case (Inl e)
    with assms o ok2 show ?thesis by (simp add: SCardDisconnect_clnt_def)
  next
    case (Inr ij)
    with assms(1) o obtain r3 c3 where a: "ask_code sys (fst ij) (Disconnect h d SCARD_S_SUCCESS) c2 = Some (r3, c3)"
      by (auto simp: SCardDisconnect_clnt_def bind_eq_Some_conv split: prod.splits)
    have ok3: "table_ok (psContextMap c3)" using ask_code_same [OF a] ok2 by simp
    with remove_handle_ok [OF ok3] assms(1) o Inr a show ?thesis
      by (cases r3) (auto simp: SCardDisconnect_clnt_def split: prod.splits)
  qed
qed

lemma context_only_ok:
  assumes "table_ok (psContextMap c)"
  shows "SCardIsValidContext_clnt sys h c = (rv, c1) \<Longrightarrow> table_ok (psContextMap c1)"
    and "SCardFreeMemory_clnt sys h c = (rv, c1) \<Longrightarrow> table_ok (psContextMap c1)"
  using open_context_ok(1) [OF _ assms, of sys h]
  by (auto simp: SCardIsValidContext_clnt_def SCardFreeMemory_clnt_def split: prod.splits sum.splits)

lemma reconnect_ok:
  assumes "SCardReconnect_clnt sys h m p d act c = Some (rv, act1, c1)" and "table_ok (psContextMap c)"
  shows "table_ok (psContextMap c1)"
proof (cases act)
  case None
  with assms show ?thesis by (simp add: SCardReconnect_clnt_def)
next
  case (Some a)
  with assms(1) obtain r c2 where o: "open_card sys h c = Some (r, c2)" by (auto simp: SCardReconnect_clnt_def bind_eq_Some_conv)
  note ok2 = open_card_ok [OF o assms(2)]
  show ?thesis using assms(1) Some o ok2
    by (cases r) (auto simp: SCardReconnect_clnt_def bind_eq_Some_conv dest!: reconnect_loop_same)
qed

lemma transaction_ok:
  assumes "table_ok (psContextMap c)"
  shows "SCardBeginTransaction_clnt sys h c = Some (rv, c1) \<Longrightarrow> table_ok (psContextMap c1)"
    and "SCardEndTransaction_clnt sys h d c = Some (rv, c1) \<Longrightarrow> table_ok (psContextMap c1)"
    and "SCardCancelTransaction_clnt sys h c = Some (rv, c1) \<Longrightarrow> table_ok (psContextMap c1)"
proof -
  have ok: "table_ok (psContextMap c2)" if "open_card sys h c = Some (r, c2)" for r c2 using open_card_ok [OF that assms] .
  show "table_ok (psContextMap c1)" if run: "SCardBeginTransaction_clnt sys h c = Some (rv, c1)"
  proof -
    from run obtain r c2 where o: "open_card sys h c = Some (r, c2)" by (auto simp: SCardBeginTransaction_clnt_def bind_eq_Some_conv)
    show ?thesis using run o ok [OF o] by (cases r) (auto simp: SCardBeginTransaction_clnt_def dest!: begin_loop_same)
  qed
  show "table_ok (psContextMap c1)" if run: "SCardEndTransaction_clnt sys h d c = Some (rv, c1)"
  proof -
    from run obtain r c2 where o: "open_card sys h c = Some (r, c2)" by (auto simp: SCardEndTransaction_clnt_def bind_eq_Some_conv)
    show ?thesis using run o ok [OF o] by (cases r) (auto simp: SCardEndTransaction_clnt_def dest!: ask_code_same)
  qed
  show "table_ok (psContextMap c1)" if run: "SCardCancelTransaction_clnt sys h c = Some (rv, c1)"
  proof -
    from run obtain r c2 where o: "open_card sys h c = Some (r, c2)" by (auto simp: SCardCancelTransaction_clnt_def bind_eq_Some_conv)
    show ?thesis using run o ok [OF o] by (cases r) (auto simp: SCardCancelTransaction_clnt_def dest!: ask_code_same)
  qed
qed

lemma status_ok:
  assumes "SCardStatus_clnt sys h a c = Some (rv, a1, c1)" and "table_ok (psContextMap c)"
  shows "table_ok (psContextMap c1)"
proof -
  from assms(1) obtain r c2 where o: "open_card sys h c = Some (r, c2)" by (auto simp: SCardStatus_clnt_def Let_def bind_eq_Some_conv)
  note ok2 = open_card_ok [OF o assms(2)]
  show ?thesis
  proof (cases r)
    case (Inl e)
    with assms(1) o ok2 show ?thesis by (simp add: SCardStatus_clnt_def Let_def)
  next
    case (Inr ijk)
    obtain i j k where ijk: "ijk = (i, j, k)" by (rule prod_cases3)
    let ?req = "Status h [] (word_of_nat MAX_READERNAME) 0 0 (replicate MAX_ATR_SIZE 0) (word_of_nat MAX_ATR_SIZE) 0"
    obtain r3 c3 where q: "ask_in sys i ?req c2 = (r3, c3)" by fastforce
    have "c1 = c3" using assms(1) o Inr ijk q
      by (auto simp: SCardStatus_clnt_def Let_def bind_eq_Some_conv split: sum.splits reply.splits if_splits)
    with ask_in_same [OF q] ok2 show ?thesis by simp
  qed
qed

lemma control_ok:
  assumes "SCardControl_clnt sys h code tx m rx n ret c = Some (rv, rx1, ret1, c1)" and "table_ok (psContextMap c)"
  shows "table_ok (psContextMap c1)"
proof -
  from assms(1) obtain r c2 where o: "open_card sys h c = Some (r, c2)" by (auto simp: SCardControl_clnt_def Let_def bind_eq_Some_conv)
  note ok2 = open_card_ok [OF o assms(2)]
  show ?thesis
  proof (cases r)
    case (Inl e)
    with assms(1) o ok2 show ?thesis by (simp add: SCardControl_clnt_def Let_def)
  next
    case (Inr ijk)
    obtain i j k where ijk: "ijk = (i, j, k)" by (rule prod_cases3)
    obtain r3 c3 where q: "ask_in sys i (Control h code m n (Some (take (unat m) tx))) c2 = (r3, c3)" by fastforce
    have "psContextMap c1 = psContextMap c2" using assms(1) o Inr ijk q ask_in_same [OF q]
      by (auto simp: SCardControl_clnt_def Let_def bind_eq_Some_conv split: prod.splits sum.splits reply.splits if_splits)
    with ok2 show ?thesis by simp
  qed
qed

lemma attrib_ok:
  assumes "SCardGetSetAttrib sys h wr attr b len c = Some (rv, b1, len1, c1)" and "table_ok (psContextMap c)"
  shows "table_ok (psContextMap c1)"
proof -
  from assms(1) obtain r c2 where o: "open_card sys h c = Some (r, c2)" by (auto simp: SCardGetSetAttrib_def bind_eq_Some_conv)
  note ok2 = open_card_ok [OF o assms(2)]
  show ?thesis
  proof (cases "isl r \<or> unat len > MAX_BUFFER_SIZE")
    case True
    with assms(1) o ok2 show ?thesis by (cases r) (auto simp: SCardGetSetAttrib_def)
  next
    case False
    then obtain i j k where r: "r = Inr (i, j, k)" by (cases r) auto
    from assms(1) o r False obtain req where req: "attrib_request wr h attr b len = Some req"
      by (auto simp: SCardGetSetAttrib_def bind_eq_Some_conv)
    obtain r3 c3 where q: "ask_in sys i req c2 = (r3, c3)" by fastforce
    have "c1 = c3" using assms(1) False o r req q
      by (auto simp: SCardGetSetAttrib_def bind_eq_Some_conv split: sum.splits reply.splits if_splits)
    with ask_in_same [OF q] ok2 show ?thesis by simp
  qed
qed

lemma get_attrib_ok:
  assumes "SCardGetAttrib_clnt sys h attr b len c = Some (rv, b1, len1, c1)" and "table_ok (psContextMap c)"
  shows "table_ok (psContextMap c1)"
  using assms by (auto simp: SCardGetAttrib_clnt_def Let_def dest: attrib_ok split: option.splits if_splits)

lemma set_attrib_ok:
  assumes "SCardSetAttrib_clnt sys h attr b len c = Some (rv, c1)" and "table_ok (psContextMap c)"
  shows "table_ok (psContextMap c1)"
  using assms by (auto simp: SCardSetAttrib_clnt_def dest: attrib_ok split: option.splits if_splits)

lemma transmit_card_same:
  assumes "transmit_card sys i h pci tx m pioRecvPci rx len c = Some (rv, p, rx1, n, c1)"
  shows "psContextMap c1 = psContextMap c"
proof (cases "unat m > MAX_BUFFER_SIZE_EXTENDED \<or> unat len > MAX_BUFFER_SIZE_EXTENDED")
  case True
  with assms show ?thesis by (auto simp: transmit_card_def)
next
  case False
  define pci1 where "pci1 = (case pioRecvPci of Some p \<Rightarrow> p | None \<Rightarrow> \<lparr>Protocol = SCARD_PROTOCOL_T0 OR SCARD_PROTOCOL_T1, PciLength = 8\<rparr>)"
  obtain r3 c3 where q: "ask_in sys i (Transmit h pci pci1 m len (Some (take (unat m) tx))) c = (r3, c3)" by fastforce
  show ?thesis using assms False q ask_in_same [OF q] unfolding transmit_card_def pci1_def [symmetric] Let_def
    by (auto simp: bind_eq_Some_conv split_beta split: sum.splits reply.splits if_splits)
qed

lemma transmit_ok:
  assumes "SCardTransmit_clnt sys h sp tx m rp rx n c = Some (rv, rp1, rx1, n1, c1)" and "table_ok (psContextMap c)"
  shows "table_ok (psContextMap c1)"
proof -
  obtain rv2 c2 where k: "SCardCheckDaemonAvailability sys c = (rv2, c2)" by fastforce
  note ok2 = check_daemon_ok(1) [OF k assms(2)]
  show ?thesis
  proof (cases "sp = None \<or> tx = None \<or> rx = None \<or> n = None \<or> rv2 \<noteq> SCARD_S_SUCCESS \<or> SCardGetIndicesFromHandle h c2 = None")
    case True
    with assms k ok2 show ?thesis by (cases sp; cases tx; cases rx; cases n) (auto simp: SCardTransmit_clnt_def split: if_splits)
  next
    case False
    then obtain a b d e i j where some: "sp = Some a" "tx = Some b" "rx = Some d" "n = Some e" "SCardGetIndicesFromHandle h c2 = Some (i, j)" by auto
    with assms(1) k False obtain r3 c3 where s: "synchronize sys i j c2 = Some (r3, c3)" by (auto simp: SCardTransmit_clnt_def bind_eq_Some_conv)
    have "table_ok (psContextMap c3)" using synchronize_same [OF s] ok2 by simp
    then show ?thesis using assms(1) k False some s
      by (cases r3) (auto simp: SCardTransmit_clnt_def dest!: transmit_card_same)
  qed
qed

lemma list_readers_ok:
  assumes "SCardListReaders_clnt sys h b len c = Some (rv, b1, len1, c1)" and "table_ok (psContextMap c)"
  shows "table_ok (psContextMap c1)"
proof -
  obtain r c2 where o: "open_context sys h c = (r, c2)" by fastforce
  note ok2 = open_context_ok(1) [OF o assms(2)]
  show ?thesis
  proof (cases "len = None \<or> isl r")
    case True
    with assms o ok2 show ?thesis by (cases len; cases r) (auto simp: SCardListReaders_clnt_def)
  next
    case False
    then obtain n i where some: "len = Some n" "r = Inr i" by (cases r) auto
    with assms(1) o obtain rv3 c3 where s: "getReaderStates sys i c2 = Some (rv3, c3)" by (auto simp: SCardListReaders_clnt_def bind_eq_Some_conv)
    have "c1 = c3" using assms(1) o some s by (auto simp: SCardListReaders_clnt_def Let_def split: sum.splits if_splits)
    with states_same [OF s] ok2 show ?thesis by simp
  qed
qed

lemma list_groups_ok:
  assumes "SCardListReaderGroups_clnt sys h b len c = Some (rv, b1, len1, c1)" and "table_ok (psContextMap c)"
  shows "table_ok (psContextMap c1)"
proof -
  obtain r c2 where o: "open_context sys h c = (r, c2)" by fastforce
  have "c1 = c2" using assms(1) o
    by (cases r; cases len) (auto simp: SCardListReaderGroups_clnt_def Let_def split: sum.splits if_splits)
  with open_context_ok(1) [OF o assms(2)] show ?thesis by simp
qed

lemma status_change_ok:
  assumes "SCardGetStatusChange_clnt sys h t rs n c = Some (rv, rs1, c1)" and "table_ok (psContextMap c)"
  shows "table_ok (psContextMap c1)"
proof (cases rs)
  case None
  with assms show ?thesis by (auto simp: SCardGetStatusChange_clnt_def split: if_splits)
next
  case (Some xs)
  obtain r c2 where o: "open_context sys h c = (r, c2)" by fastforce
  note ok2 = open_context_ok [OF o assms(2)]
  show ?thesis
  proof (cases "isl r \<or> c1 = c")
    case True
    with assms Some o ok2 show ?thesis by (cases r) (auto simp: SCardGetStatusChange_clnt_def split: if_splits)
  next
    case False
    then obtain i where r: "r = Inr i" by (cases r) auto
    from assms(1) Some o r False obtain rv3 c3 where s: "getReaderStates sys i c2 = Some (rv3, c3)"
      by (auto simp: SCardGetStatusChange_clnt_def bind_eq_Some_conv split: if_splits)
    have ok3: "table_ok (psContextMap (upd_map i (\<lambda>m. m\<lparr>contextBlockStatus := BLOCK_STATUS_BLOCKING\<rparr>) c3))"
      using states_same [OF s] ok2(1) ok2(2) [OF r] by simp
    from assms(1) Some o r False s consider "c1 = c3"
      | y where "status_loop sys i t (if t = INFINITE then 60000 else sint t) (map (\<lambda>r. r\<lparr>dwEventState := 0\<rparr>) xs) (count_readers (clnt_states c3))
            (upd_map i (\<lambda>m. m\<lparr>contextBlockStatus := BLOCK_STATUS_BLOCKING\<rparr>) c3) = Some y" "c1 = snd (snd y)"
      by (fastforce simp: SCardGetStatusChange_clnt_def split: if_splits)
    then show ?thesis
    proof cases
      case 1
      with states_same [OF s] ok2(1) show ?thesis by simp
    next
      case 2
      with status_loop_ok [OF 2(1) ok3] ok2(2) [OF r] show ?thesis by simp
    qed
  qed
qed

subsection \<open>The library as a transition system\<close>

text \<open>Between the calls everything outside may change: the daemon works for others, is restarted, or the process has forked.\<close>

inductive client_call :: "'s clnt_system \<Rightarrow> 's clnt \<Rightarrow> 's clnt \<Rightarrow> bool" for sys where
  establish: "SCardEstablishContext_clnt sys dwScope p c = Some (rv, h, c') \<Longrightarrow> client_call sys c c'"
| release: "SCardReleaseContext_clnt sys h c = Some (rv, c') \<Longrightarrow> client_call sys c c'"
| valid: "SCardIsValidContext_clnt sys h c = (rv, c') \<Longrightarrow> client_call sys c c'"
| cancel: "SCardCancel_clnt sys h c = Some (rv, c') \<Longrightarrow> client_call sys c c'"
| connect: "SCardConnect_clnt sys h name m p ptrs act c = Some (rv, hc, act1, c') \<Longrightarrow> client_call sys c c'"
| reconnect: "SCardReconnect_clnt sys hc m p d actp c = Some (rv, actp1, c') \<Longrightarrow> client_call sys c c'"
| disconnect: "SCardDisconnect_clnt sys hc d c = Some (rv, c') \<Longrightarrow> client_call sys c c'"
| begin_transaction: "SCardBeginTransaction_clnt sys hc c = Some (rv, c') \<Longrightarrow> client_call sys c c'"
| end_transaction: "SCardEndTransaction_clnt sys hc d c = Some (rv, c') \<Longrightarrow> client_call sys c c'"
| cancel_transaction: "SCardCancelTransaction_clnt sys hc c = Some (rv, c') \<Longrightarrow> client_call sys c c'"
| status: "SCardStatus_clnt sys hc a c = Some (rv, a1, c') \<Longrightarrow> client_call sys c c'"
| control: "SCardControl_clnt sys hc code tx k rx n ret c = Some (rv, rx1, ret1, c') \<Longrightarrow> client_call sys c c'"
| get_attrib: "SCardGetAttrib_clnt sys hc attr b len c = Some (rv, b1, len1, c') \<Longrightarrow> client_call sys c c'"
| set_attrib: "SCardSetAttrib_clnt sys hc attr at alen c = Some (rv, c') \<Longrightarrow> client_call sys c c'"
| transmit: "SCardTransmit_clnt sys hc sp tp k rp rxp np c = Some (rv, rp1, rxp1, np1, c') \<Longrightarrow> client_call sys c c'"
| list_readers: "SCardListReaders_clnt sys h names len c = Some (rv, names1, len1, c') \<Longrightarrow> client_call sys c c'"
| list_groups: "SCardListReaderGroups_clnt sys h names len c = Some (rv, names1, len1, c') \<Longrightarrow> client_call sys c c'"
| status_change: "SCardGetStatusChange_clnt sys h t rs n c = Some (rv, rs1, c') \<Longrightarrow> client_call sys c c'"
| free_memory: "SCardFreeMemory_clnt sys h c = (rv, c') \<Longrightarrow> client_call sys c c'"
| world: "client_call sys c (c\<lparr>outside := s\<rparr>)"

lemma client_call_ok: "client_call sys c c' \<Longrightarrow> table_ok (psContextMap c) \<Longrightarrow> table_ok (psContextMap c')"
  by (induction rule: client_call.induct)
     (auto intro: establish_ok release_ok context_only_ok cancel_ok connect_ok reconnect_ok disconnect_ok transaction_ok status_ok control_ok
       get_attrib_ok set_attrib_ok transmit_ok list_readers_ok list_groups_ok status_change_ok)

interpretation client_library: guarded_system "client_call sys" "\<lambda>c. table_ok (psContextMap c)" for sys :: "'s clnt_system"
  by unfold_locales (rule client_call_ok)

subsection \<open>Handles that are not known\<close>

lemma unknown_handle:
  assumes "\<forall>m \<in> set (psContextMap c). map_hContext m \<noteq> 0 \<longrightarrow> h \<notin> set (map_handles m)"
  shows "SCardGetIndicesFromHandle h c = None"
proof -
  have "first_index (\<lambda>m. map_hContext m \<noteq> 0 \<and> (\<exists>x \<in> set (psChannelMap m). chan_hCard x = h)) (psContextMap c) = None"
    using assms by (auto simp: map_handles_def)
  then show ?thesis by (simp add: SCardGetIndicesFromHandle_def SCardGetIndicesFromHandleTH_def del: first_index_None_iff)
qed



subsection \<open>Restart of the daemon and fork\<close>

lemma clean_context_other:
  assumes "i < length (psContextMap c)"
  shows "j \<noteq> i \<Longrightarrow> psContextMap (snd (SCardCleanContext sys i c)) ! j = psContextMap c ! j" "length (psContextMap (snd (SCardCleanContext sys i c))) = length (psContextMap c)"
    "map_hContext (psContextMap (snd (SCardCleanContext sys i c)) ! i) = 0"
  using assms by (simp_all add: SCardCleanContext_def upd_map_list empty_map_def)

lemma clean_contexts_closed:
  assumes "length (psContextMap c) = 16" and "i < 16"
  shows "map_hContext (psContextMap (clean_contexts sys c) ! i) = 0"
proof -
  let ?f = "\<lambda>c i. if map_hContext (psContextMap c ! i) \<noteq> 0 then snd (SCardCleanContext sys i c) else c"
  have "length (psContextMap (foldl ?f c [0..<n])) = 16 \<and> (\<forall>i<n. map_hContext (psContextMap (foldl ?f c [0..<n]) ! i) = 0)" if "n \<le> 16" for n
    using that
  proof (induction n)
    case (Suc n)
    let ?c = "foldl ?f c [0..<n]"
    have "length (psContextMap ?c) = 16" "\<forall>i<n. map_hContext (psContextMap ?c ! i) = 0" "n < 16" using Suc by auto
    with clean_context_other(2,3) [of n ?c sys] clean_context_other(1) [of n ?c _ sys] show ?case by (auto simp: less_Suc_eq)
  qed (use assms in simp)
  from this [of 16] assms show ?thesis by (simp add: clean_contexts_def del: upt_Suc)
qed

text \<open>In a child process after a fork, and after a restart of the daemon, the next call to check the daemon closes every context: no context
  and no handle is known any more.\<close>

theorem stale_client_starts_over:
  assumes "stat_socket sys (outside c) = Some ctime" and "table_ok (psContextMap c)"
    and "client_pid c \<noteq> 0 \<and> client_pid c \<noteq> getpid sys (outside c)
      \<or> daemon_ctime c \<noteq> 0 \<and> ctime > daemon_ctime c \<and> GetDaemonPid sys (outside c) \<noteq> daemon_pid c"
  shows "\<exists>c1. SCardCheckDaemonAvailability sys c = (SCARD_E_INVALID_HANDLE, c1) \<and> table_ok (psContextMap c1)
    \<and> (\<forall>h. SCardGetContextIndice h c1 = None \<and> SCardGetIndicesFromHandle h c1 = None)"
proof -
  let ?c = "(clean_contexts sys c)\<lparr>daemon_ctime := 0, client_pid := 0\<rparr>"
  have k: "SCardCheckDaemonAvailability sys c = (SCARD_E_INVALID_HANDLE, ?c)" using assms(1,3) by (auto simp: SCardCheckDaemonAvailability_def)
  have ok: "table_ok (psContextMap ?c)" using check_daemon_ok(1) [OF k assms(2)] .
  have closed: "map_hContext m = 0" if "m \<in> set (psContextMap ?c)" for m
  proof -
    have "length (psContextMap ?c) = 16" by (rule table_length [OF ok])
    with that obtain i where "i < 16" "m = psContextMap ?c ! i" by (auto simp: in_set_conv_nth)
    then show ?thesis using clean_contexts_closed [OF table_length [OF assms(2)]] by simp
  qed
  then have "SCardGetContextIndice h ?c = None" for h by (auto simp: SCardGetContextIndice_def SCardGetContextIndiceTH_def)
  moreover have "SCardGetIndicesFromHandle h ?c = None" for h
    by (rule unknown_handle) (use closed in blast)
  ultimately show ?thesis using k ok by blast
qed

end
