(* ===== verification/Clnt_Daemon.thy ===== *)
theory Clnt_Daemon
  imports Clnt_Inv
begin

section \<open>Client library and daemon together\<close>

text \<open>
  The system of the client library instantiated by the model of the daemon: a session is a slot of \<^verbatim>\<open>psContext\<close>, sending a request runs one turn
  of its \<^verbatim>\<open>ContextThread\<close>, and the reply is what is received next. Both sides keep a table of the handles of a context; this theory shows when the
  two agree.
\<close>

record 'd link =
  daemon :: "'d pcscd"
  answer :: "reply option"

text \<open>The file descriptor of a session, and the slot that serves it.\<close>

definition slot_of :: "DWORD \<Rightarrow> 'd pcscd \<Rightarrow> nat option" where
  "slot_of fd w = first_index (\<lambda>c. ctx_dwClientID c = fd) (psContext w)"

definition link_setup :: "'d link \<Rightarrow> DWORD option \<times> 'd link" where
  "link_setup s =
    (case first_index (\<lambda>c. ctx_dwClientID c = 0) (psContext (daemon s)) of
       None \<Rightarrow> (None, s)
     | Some k \<Rightarrow> let fd = word_of_nat (k + 5); (rv, fd1, w) = CreateContextThread fd 0 (daemon s) in (Some fd, s\<lparr>daemon := w\<rparr>))"

definition link_send :: "DWORD \<Rightarrow> request \<Rightarrow> 'd link \<Rightarrow> bool \<times> 'd link" where
  "link_send fd req s =
    (case slot_of fd (daemon s) of
       None \<Rightarrow> (False, s)
     | Some k \<Rightarrow>
        (case ContextThread k req True (daemon s) of
           None \<Rightarrow> (True, s\<lparr>answer := None\<rparr>)
         | Some (goes_on, Exit, w) \<Rightarrow> (True, \<lparr>daemon = w, answer = None\<rparr>)
         | Some (goes_on, Reply r, w) \<Rightarrow> (True, \<lparr>daemon = w, answer = (if r = No_Reply then None else Some r)\<rparr>)))"

definition link_close :: "DWORD \<Rightarrow> 'd link \<Rightarrow> 'd link" where
  "link_close fd s = snd (link_send fd Client_Died s)"

definition link_system :: "('d link) clnt_system" where
  "link_system = \<lparr>stat_socket = \<lambda>_. Some 1, GetDaemonPid = \<lambda>_. 7, getpid = \<lambda>_. 42, SHMClientSetupSession = link_setup,
     SHMClientCloseSession = link_close, SHMMessageSendWithHeader = link_send, SHMMessageReceive = \<lambda>_ _ s. (answer s, s\<lparr>answer := None\<rparr>),
     receive_data = \<lambda>_ s. (True, s), malloc = \<lambda>_ _. Some (\<lambda>_. 0), gettimeofday = \<lambda>_. 0, cancelled = \<lambda>_ _. False, garbage = \<lambda>_. 0\<rparr>"

text \<open>Context \<open>i\<close> of the library is served by slot \<open>k\<close> of the daemon.\<close>

definition served_by :: "nat \<Rightarrow> nat \<Rightarrow> 'd link clnt \<Rightarrow> bool" where
  "served_by i k c \<longleftrightarrow> i < length (psContextMap c) \<and> k < length (psContext (daemon (outside c)))
     \<and> slot_of (map_dwClientID (psContextMap c ! i)) (daemon (outside c)) = Some k
     \<and> length (psChannelMap (psContextMap c ! i)) = length (ctx_hCard (pctx (daemon (outside c)) k))
     \<and> ctx_hContext (pctx (daemon (outside c)) k) = map_hContext (psContextMap c ! i)
     \<and> daemon_ctime c \<in> {0, 1} \<and> client_pid c \<in> {0, 42}"

definition client_side :: "nat \<Rightarrow> 'd link clnt \<Rightarrow> SCARDHANDLE multiset" where
  "client_side i c = live (map_handles (psContextMap c ! i))"

definition daemon_side :: "nat \<Rightarrow> 'd link clnt \<Rightarrow> SCARDHANDLE multiset" where
  "daemon_side k c = live (ctx_hCard (pctx (daemon (outside c)) k))"

lemma link_fields [simp]:
  "SHMMessageSendWithHeader link_system = link_send" "SHMMessageReceive link_system fd t s = (answer s, s\<lparr>answer := None\<rparr>)"
  "SHMClientSetupSession link_system = link_setup" "stat_socket link_system s = Some 1" "GetDaemonPid link_system s = 7" "getpid link_system s = 42"
  by (simp_all add: link_system_def)

lemma served_check:
  "served_by i k c \<Longrightarrow> SCardCheckDaemonAvailability link_system c = (SCARD_S_SUCCESS, c\<lparr>daemon_ctime := 1, daemon_pid := 7, client_pid := 42\<rparr>)"
  by (auto simp: served_by_def SCardCheckDaemonAvailability_def)

lemma served_ask:
  assumes "served_by i k c" and "serve k req (daemon (outside c)) = Some (Reply r, w)" and "r \<noteq> No_Reply"
  shows "ask_in link_system i req c = (Inr r, c\<lparr>outside := \<lparr>daemon = w, answer = None\<rparr>\<rparr>)"
  using assms by (simp add: ask_in_def ask_def link_send_def served_by_def ContextThread_def)

lemma client_side_fields [simp]:
  "client_side i (c\<lparr>outside := s\<rparr>) = client_side i c" "client_side i (c\<lparr>daemon_ctime := a, daemon_pid := b, client_pid := p\<rparr>) = client_side i c"
  "daemon_side k (c\<lparr>daemon_ctime := a, daemon_pid := b, client_pid := p\<rparr>) = daemon_side k c"
  "daemon_side k (c\<lparr>outside := s\<rparr>) = live (ctx_hCard (pctx (daemon s) k))"
  by (simp_all add: client_side_def daemon_side_def)

lemma indices_same:
  assumes "psContextMap c1 = psContextMap c"
  shows "SCardGetIndicesFromHandle h c1 = SCardGetIndicesFromHandle h c"
  unfolding SCardGetIndicesFromHandle_def SCardGetIndicesFromHandleTH_def assms by (rule refl)

lemma context_same: "psContextMap c1 = psContextMap c \<Longrightarrow> SCardGetContextIndice h c1 = SCardGetContextIndice h c"
  by (simp add: SCardGetContextIndice_def SCardGetContextIndiceTH_def)

subsection \<open>Disconnecting\<close>

lemma serve_disconnect_handles:
  assumes "SCardDisconnect h d w = Some (rv, w1)" and "h \<in> set (ctx_hCard (pctx w k))" and "h \<noteq> 0" and "k < length (psContext w)"
  shows "\<exists>w2. serve k (Disconnect h d rv0) w = Some (Reply (Code_Reply rv), w2)
    \<and> live (ctx_hCard (pctx w2 k)) = live (ctx_hCard (pctx w k)) - (if rv = SCARD_S_SUCCESS then {#h#} else {#})"
proof -
  have p: "psContext w1 = psContext w" by (rule SCardDisconnect_psContext [OF assms(1)])
  then have q: "pctx w1 k = pctx w k" by (simp add: pctx_def)
  have "fst (remove_card (pctx w k) h) = SCARD_S_SUCCESS" using assms(2) by (simp add: client_handles.remove_ok_iff)
  then show ?thesis using assms p q client_handles.remove_live [OF assms(3), of "pctx w k"]
    by (auto simp: serve_disconnect_def MSGCheckHandleAssociation_def MSGRemoveHandle_def split_beta Let_def)
qed

lemma remove_handle_client:
  assumes "SCardGetIndicesFromHandle h c = Some (i, j)"
  shows "client_side i (snd (SCardRemoveHandle h c)) = client_side i c - {#h#}" "outside (snd (SCardRemoveHandle h c)) = outside c"
  using assms handle_indices [OF assms] channels.remove_live [of h "psContextMap c ! i"]
  by (simp_all add: SCardRemoveHandle_def split_beta client_side_def upd_map_list) (simp add: upd_map_def)

text \<open>C21: Disconnecting makes the client forget the handle whatever the daemon replies, while the daemon removes it only on success: a refused
  disconnect leaves a connection in the daemon that the application can no longer name.\<close>

theorem refused_disconnect_leaks:
  assumes "served_by i k c" and "client_side i c = daemon_side k c" and "SCardGetIndicesFromHandle h c = Some (i, j)"
    and "SCardDisconnect h d (daemon (outside c)) = Some (rv, w1)"
  shows "\<exists>c1. SCardDisconnect_clnt link_system h d c = Some (rv, c1) \<and> client_side i c1 = client_side i c - {#h#}
    \<and> daemon_side k c1 = daemon_side k c - (if rv = SCARD_S_SUCCESS then {#h#} else {#})"
proof -
  let ?c = "c\<lparr>daemon_ctime := 1, daemon_pid := 7, client_pid := 42\<rparr>"
  have idx: "SCardGetIndicesFromHandle h ?c = Some (i, j)" using assms(3) indices_same [of ?c c] by simp
  have o: "open_handle link_system h c = (Inr (i, j), ?c)" using served_check [OF assms(1)] idx by (simp add: open_handle_def)
  have s: "served_by i k ?c" using assms(1) by (simp add: served_by_def)
  have "h \<in># client_side i c" using handle_indices [OF assms(3)] first_index_SomeD [OF handle_indices(4) [OF assms(3)]]
    by (auto simp: client_side_def map_handles_def)
  then have h: "h \<in> set (ctx_hCard (pctx (daemon (outside c)) k))" "h \<noteq> 0" using assms(2) by (simp_all add: daemon_side_def)
  from serve_disconnect_handles [OF assms(4) h, of SCARD_S_SUCCESS] assms(1) obtain w2
    where w2: "serve k (Disconnect h d SCARD_S_SUCCESS) (daemon (outside c)) = Some (Reply (Code_Reply rv), w2)"
      and l: "live (ctx_hCard (pctx w2 k)) = daemon_side k c - (if rv = SCARD_S_SUCCESS then {#h#} else {#})"
    by (auto simp: served_by_def daemon_side_def)
  let ?c2 = "?c\<lparr>outside := \<lparr>daemon = w2, answer = None\<rparr>\<rparr>"
  have a: "ask_code link_system i (Disconnect h d SCARD_S_SUCCESS) ?c = Some (Inr rv, ?c2)"
    unfolding ask_code_def using served_ask [OF s, of "Disconnect h d SCARD_S_SUCCESS" "Code_Reply rv" w2] w2 by simp
  have idx2: "SCardGetIndicesFromHandle h ?c2 = Some (i, j)" using idx indices_same [of ?c2 ?c] by simp
  note rm = remove_handle_client [OF idx2]
  show ?thesis
    using o a rm l by (intro exI [of _ "snd (SCardRemoveHandle h ?c2)"]) (simp add: SCardDisconnect_clnt_def daemon_side_def)
qed

subsection \<open>Connecting\<close>

lemma serve_connect_handles:
  assumes "SCardConnect (Some name) True m p act w = Some (rv, h, act1, w1)" and "daemon_inv w" and "k < length (psContext w)"
    and "ctx_hContext (pctx w k) = hContext"
  shows "\<exists>rv1 w2. serve k (Connect hContext name m p act) w = Some (Reply (Connect_Reply rv1 h act1), w2)
    \<and> length (ctx_hCard (pctx w2 k)) = length (ctx_hCard (pctx w k))
    \<and> (if rv1 = SCARD_S_SUCCESS then h \<noteq> 0 \<and> live (ctx_hCard (pctx w2 k)) = add_mset h (live (ctx_hCard (pctx w k)))
         \<and> size (live (ctx_hCard (pctx w k))) < length (ctx_hCard (pctx w k))
       else ctx_hCard (pctx w2 k) = ctx_hCard (pctx w k))"
proof -
  have p: "psContext w1 = psContext w" by (rule SCardConnect_psContext [OF assms(1,2)])
  then have q: "pctx w1 k = pctx w k" by (simp add: pctx_def)
  show ?thesis
  proof (cases "rv = SCARD_S_SUCCESS")
    case False
    with assms(1) q show ?thesis by (simp add: serve_connected_def)
  next
    case True
    from SCardConnect_effect [OF assms(1) [unfolded True] assms(2)] have h: "h \<noteq> 0" by blast
    obtain rv1 x where a: "add_card (pctx w k) h = (rv1, x)" by fastforce
    have l: "rv1 = SCARD_S_SUCCESS \<Longrightarrow> live (ctx_hCard x) = add_mset h (live (ctx_hCard (pctx w k)))"
      using client_handles.add_live [of "pctx w k" h, OF _ h] a by simp
    have s: "rv1 = SCARD_S_SUCCESS \<longleftrightarrow> size (live (ctx_hCard (pctx w k))) < length (ctx_hCard (pctx w k))"
      using client_handles.add_ok_capacity [of "pctx w k" h] a by simp
    have f: "rv1 \<noteq> SCARD_S_SUCCESS \<Longrightarrow> x = pctx w k" using client_handles.add_fails [of "pctx w k" h] a by simp
    have n: "length (ctx_hCard x) = length (ctx_hCard (pctx w k))" using client_handles.slots_length(1) [of "pctx w k" h] a by simp
    show ?thesis using assms(1,3,4) True a l s f n h p q by (auto simp: serve_connected_def MSGAddHandle_def)
  qed
qed

lemma add_handle_client:
  assumes "i < length (psContextMap c)" and "size (client_side i c) < length (psChannelMap (psContextMap c ! i))" and "h \<noteq> 0"
  shows "fst (SCardAddHandle h i name c) = SCARD_S_SUCCESS" "client_side i (snd (SCardAddHandle h i name c)) = add_mset h (client_side i c)"
    "outside (snd (SCardAddHandle h i name c)) = outside c"
proof -
  have ok: "fst (add_channel name (psContextMap c ! i) h) = SCARD_S_SUCCESS"
    using assms(2) by (simp add: channels.add_ok_capacity client_side_def map_handles_def)
  then show "fst (SCardAddHandle h i name c) = SCARD_S_SUCCESS" by (simp add: SCardAddHandle_def split_beta)
  show "client_side i (snd (SCardAddHandle h i name c)) = add_mset h (client_side i c)"
    using channels.add_live [OF ok assms(3)] assms(1) by (simp add: SCardAddHandle_def split_beta client_side_def upd_map_list)
  show "outside (snd (SCardAddHandle h i name c)) = outside c" by (simp add: SCardAddHandle_def split_beta upd_map_def)
qed

text \<open>C7: Connecting keeps the handle tables of client and daemon equal: whatever the daemon decides, both contain the new handle when the
  application gets success, and neither does otherwise.\<close>

theorem connect_keeps_tables_equal:
  assumes "served_by i k c" and "client_side i c = daemon_side k c" and "SCardGetContextIndice hContext c = Some i"
    and "map_hContext (psContextMap c ! i) = hContext" and "length name \<le> MAX_READERNAME" and "daemon_inv (daemon (outside c))"
    and "SCardConnect (Some name) True m p 0 (daemon (outside c)) = Some (rv, h, act1, w1)"
  shows "\<exists>rv1 c1. SCardConnect_clnt link_system hContext (Some name) m p True act c = Some (rv1, h, act1, c1)
    \<and> client_side i c1 = daemon_side k c1 \<and> client_side i c1 = (if rv1 = SCARD_S_SUCCESS then {#h#} else {#}) + client_side i c"
proof -
  let ?c = "c\<lparr>daemon_ctime := 1, daemon_pid := 7, client_pid := 42\<rparr>"
  have o: "open_context link_system hContext c = (Inr i, ?c)"
    using served_check [OF assms(1)] context_same [of ?c c hContext] assms(3) by (simp add: open_context_def)
  have s: "served_by i k ?c" using assms(1) by (simp add: served_by_def)
  have len: "k < length (psContext (daemon (outside c)))" "ctx_hContext (pctx (daemon (outside c)) k) = hContext"
    "i < length (psContextMap c)" "length (psChannelMap (psContextMap c ! i)) = length (ctx_hCard (pctx (daemon (outside c)) k))"
    using assms(1,4) by (simp_all add: served_by_def)
  from serve_connect_handles [OF assms(7,6) len(1,2)] obtain rv1 w2
    where w2: "serve k (Connect hContext name m p 0) (daemon (outside c)) = Some (Reply (Connect_Reply rv1 h act1), w2)"
      and yes: "rv1 = SCARD_S_SUCCESS \<Longrightarrow> h \<noteq> 0 \<and> live (ctx_hCard (pctx w2 k)) = add_mset h (daemon_side k c)
         \<and> size (daemon_side k c) < length (ctx_hCard (pctx (daemon (outside c)) k))"
      and no: "rv1 \<noteq> SCARD_S_SUCCESS \<Longrightarrow> ctx_hCard (pctx w2 k) = ctx_hCard (pctx (daemon (outside c)) k)"
    by (auto simp: daemon_side_def split: if_splits)
  let ?c2 = "?c\<lparr>outside := \<lparr>daemon = w2, answer = None\<rparr>\<rparr>"
  have a: "ask_in link_system i (Connect hContext name m p 0) ?c = (Inr (Connect_Reply rv1 h act1), ?c2)"
    using served_ask [OF s, of "Connect hContext name m p 0" "Connect_Reply rv1 h act1" w2] w2 by simp
  show ?thesis
  proof (cases "rv1 = SCARD_S_SUCCESS")
    case False
    with o a assms(2,5) no show ?thesis by (simp add: SCardConnect_clnt_def daemon_side_def)
  next
    case True
    have "i < length (psContextMap ?c2)" "size (client_side i ?c2) < length (psChannelMap (psContextMap ?c2 ! i))" "h \<noteq> 0"
      using yes [OF True] assms(2) len by simp_all
    note add = add_handle_client [OF this, of name]
    show ?thesis using o a assms(2,5) yes [OF True] True add
      by (simp add: SCardConnect_clnt_def split_beta daemon_side_def)
  qed
qed

text \<open>A client with the context \<open>0x1030001\<close> that is served by the first slot of the daemon.\<close>

definition linked_client :: "SCARDHANDLE list \<Rightarrow> 'd pcscd \<Rightarrow> 'd link clnt" where
  "linked_client hs w = \<lparr>psContextMap = \<lparr>map_dwClientID = 5, map_hContext = 0x1030001, contextBlockStatus = BLOCK_STATUS_RESUME,
       psChannelMap = map (\<lambda>h. \<lparr>chan_hCard = h, chan_readerName = Some ''R 00 00''\<rparr>) hs
         @ replicate (16 - length hs) \<lparr>chan_hCard = 0, chan_readerName = None\<rparr>\<rparr> # replicate 15 empty_map,
     isExecuted = True, daemon_ctime = 1, daemon_pid = 7, client_pid = 42, clnt_states = [], outside = \<lparr>daemon = w, answer = None\<rparr>\<rparr>"

lemma linked_facts [simp]:
  "served_by 0 0 (linked_client [0x1FDE8] (served w))" "client_side 0 (linked_client [0x1FDE8] (served w)) = {#0x1FDE8#}"
  "daemon_side 0 (linked_client [0x1FDE8] (served w)) = {#0x1FDE8#}" "SCardGetContextIndice 0x1030001 (linked_client hs w) = Some 0"
  "SCardGetIndicesFromHandle 0x1FDE8 (linked_client [0x1FDE8] w) = Some (0, 0)"
  "map_hContext (psContextMap (linked_client hs w) ! 0) = 0x1030001" "daemon (outside (linked_client hs w)) = w"
  by (simp_all add: linked_client_def served_by_def slot_of_def client_side_def daemon_side_def map_handles_def live_def
      SCardGetContextIndice_def SCardGetContextIndiceTH_def SCardGetIndicesFromHandle_def SCardGetIndicesFromHandleTH_def)

lemma served_refuses:
  "SCardDisconnect 0x1FDE8 SCARD_LEAVE_CARD (served (session two SCARD_PROTOCOL_T0 0 2 2 0x1000A 1)) =
     Some (SCARD_E_SHARING_VIOLATION, served (session two SCARD_PROTOCOL_T0 0 2 2 0x1000A 1))"
  by (simp add: SCardDisconnect_def disconnect_enter_def disconnect_waits_def disconnect_finish_def RFUnlockAllSharing_eq disposition_ok_def)

theorem refused_disconnect_leaks_witness:
  "\<exists>c1. SCardDisconnect_clnt link_system 0x1FDE8 SCARD_LEAVE_CARD (linked_client [0x1FDE8] (served (session two SCARD_PROTOCOL_T0 0 2 2 0x1000A 1)))
      = Some (SCARD_E_SHARING_VIOLATION, c1) \<and> client_side 0 c1 = {#} \<and> daemon_side 0 c1 = {#0x1FDE8#}"
proof -
  let ?w = "served (session two SCARD_PROTOCOL_T0 0 2 2 0x1000A 1)"
  have "SCardDisconnect 0x1FDE8 SCARD_LEAVE_CARD (daemon (outside (linked_client [0x1FDE8] ?w))) = Some (SCARD_E_SHARING_VIOLATION, ?w)"
    by (simp add: served_refuses)
  from refused_disconnect_leaks [OF linked_facts(1) _ linked_facts(5) this] show ?thesis by simp
qed

lemma served_lookup [simp]: "RFReaderInfo (served w) nm = RFReaderInfo w nm" "RFCheckReaderStatus (served w) i = RFCheckReaderStatus w i"
  by (cases nm; simp add: RFReaderInfo_def RFCheckReaderStatus_def)+

theorem connect_keeps_tables_equal_witness:
  "\<exists>rv1 c1. SCardConnect_clnt link_system 0x1030001 (Some ''R 00 00'') SCARD_SHARE_SHARED SCARD_PROTOCOL_T0 True 0
      (linked_client [0x1FDE8] (served (session one SCARD_PROTOCOL_T0 0 (-1) (-1) 0 0))) = Some (rv1, 0, 0, c1)
      \<and> client_side 0 c1 = daemon_side 0 c1"
proof -
  let ?w = "served (session one SCARD_PROTOCOL_T0 0 (-1) (-1) 0 0)"
  have c: "SCardConnect (Some ''R 00 00'') True SCARD_SHARE_SHARED SCARD_PROTOCOL_T0 0 (daemon (outside (linked_client [0x1FDE8] ?w)))
     = Some (SCARD_E_SHARING_VIOLATION, 0, 0, ?w)"
    by (simp add: SCardConnect_def connect_enter_def named_T0)
  have "daemon_inv (daemon (outside (linked_client [0x1FDE8] ?w)))" by (simp add: served_inv session_inv)
  from connect_keeps_tables_equal [OF linked_facts(1) _ linked_facts(4) linked_facts(6) _ this c, of 0] show ?thesis by auto
qed

subsection \<open>The table of the library\<close>

text \<open>The static variables when the library is loaded.\<close>

definition loaded_clnt :: "'s \<Rightarrow> 's clnt" where
  "loaded_clnt s = \<lparr>psContextMap = replicate PCSCLITE_MAX_APPLICATION_CONTEXTS (empty_map\<lparr>contextBlockStatus := 0\<rparr>), isExecuted = False,
     daemon_ctime = 0, daemon_pid = 0, client_pid = 0, clnt_states = [], outside = s\<rparr>"

text \<open>C6: Whatever the application calls, the daemon answers and the world does between the calls (restarts of the daemon and forks included), the
  table of the client library stays well formed: only open contexts have handles, no context number occurs twice, and a handle that is found leads to
  an open context and to the name of its reader.\<close>

theorem client_table_well_formed:
  assumes "(client_call sys)\<^sup>*\<^sup>* (loaded_clnt s) c"
  shows "table_ok (psContextMap c) \<and> (\<forall>h i j. SCardGetIndicesFromHandle h c = Some (i, j) \<longrightarrow>
    map_hContext (psContextMap c ! i) \<noteq> 0 \<and> chan_readerName (psChannelMap (psContextMap c ! i) ! j) \<noteq> None)"
proof -
  have "table_ok (psContextMap (loaded_clnt s))" by (auto simp: loaded_clnt_def table_ok_def map_ok_def empty_map_def)
  with client_library.run_good assms have ok: "table_ok (psContextMap c)" by blast
  moreover have "map_hContext (psContextMap c ! i) \<noteq> 0 \<and> chan_readerName (psChannelMap (psContextMap c ! i) ! j) \<noteq> None"
    if f: "SCardGetIndicesFromHandle h c = Some (i, j)" for h i j
  proof -
    have i: "i < 16" using handle_indices(1) [OF f] ok by (simp add: table_length)
    have x: "j < length (psChannelMap (psContextMap c ! i))" "chan_hCard (psChannelMap (psContextMap c ! i) ! j) = h"
      using first_index_SomeD [OF handle_indices(4) [OF f]] by auto
    show ?thesis using table_nth [OF ok i] handle_indices(2,3) [OF f] x by (auto simp: map_ok_def)
  qed
  ultimately show ?thesis by blast
qed

text \<open>An application opens a context with the daemon of the samples.\<close>

theorem client_table_well_formed_witness:
  "\<exists>rv h c. SCardEstablishContext_clnt link_system SCARD_SCOPE_SYSTEM True (loaded_clnt \<lparr>daemon = sample_daemon\<lparr>psContext := [empty_context]\<rparr>, answer = None\<rparr>)
      = Some (rv, h, c) \<and> rv = SCARD_S_SUCCESS \<and> h \<noteq> 0 \<and> table_ok (psContextMap c)"
proof -
  let ?c = "loaded_clnt \<lparr>daemon = sample_daemon\<lparr>psContext := [empty_context]\<rparr>, answer = None\<rparr>"
  have nth0: "replicate 16 x = x # replicate 15 x" for x :: context_map by (simp add: numeral_eq_Suc)
  obtain h c where run: "SCardEstablishContext_clnt link_system SCARD_SCOPE_SYSTEM True ?c = Some (SCARD_S_SUCCESS, h, c)" "h \<noteq> 0"
    unfolding SCardEstablishContext_clnt_def SCardEstablishContextTH_def loaded_clnt_def SCardCheckDaemonAvailability_def
    by (simp add: establish_again.simps link_setup_def nth0 empty_map_def ask_def link_send_def slot_of_def CreateContextThread_def
        SCardGetContextIndiceTH_def SCardAddContext_def ContextThread_def serve_version_def serve_establish_def SCardEstablishContext_def MSGAddContext_def
        upd_pctx_def pctx_def sample_daemon_def empty_context_def SYS_RandomInt_def upd_at_def)
  have "(client_call link_system)\<^sup>*\<^sup>* ?c c" using client_call.establish [OF run(1)] by (rule r_into_rtranclp)
  from client_table_well_formed [OF this] run show ?thesis by blast
qed

subsection \<open>Unknown handles and stale clients, in a session\<close>


theorem stale_client_starts_over_witness:
  "\<exists>c1. SCardCheckDaemonAvailability link_system (linked_client [0x1FDE8] sample_daemon\<lparr>client_pid := 41\<rparr>) = (SCARD_E_INVALID_HANDLE, c1)
     \<and> SCardGetIndicesFromHandle 0x1FDE8 c1 = None"
proof -
  let ?c = "linked_client [0x1FDE8] sample_daemon\<lparr>client_pid := 41\<rparr>"
  have "table_ok (psContextMap ?c)"
    by (auto simp: linked_client_def table_ok_def map_ok_def empty_map_def nth_Cons' split: if_splits)
  moreover have "stat_socket link_system (outside ?c) = Some 1" "client_pid ?c \<noteq> 0 \<and> client_pid ?c \<noteq> getpid link_system (outside ?c)"
    by (simp_all add: linked_client_def)
  ultimately show ?thesis using stale_client_starts_over [of link_system ?c 1] by blast
qed

end
