(* ===== verification/T1_Blocks.thy ===== *)
theory T1_Blocks
  imports T1
begin

section \<open>The blocks of the T=1 protocol\<close>

text \<open>
  What \<^verbatim>\<open>t1_build\<close> puts into a block, in closed form, and that \<^verbatim>\<open>t1_verify_checksum\<close>, \<^verbatim>\<open>t1_block_type\<close> and
  \<^verbatim>\<open>t1_seq\<close> recover it. With the error detection of the checksums this gives that no block with a single wrong byte
  is accepted.
\<close>

subsection \<open>Blocks built and verified\<close>

lemma take_store_0: "length xs \<le> length m \<Longrightarrow> take (length xs) (store 0 xs m) = xs"
  by (simp add: store_def)

lemma store_append: "length xs + length ys \<le> length m \<Longrightarrow> store (length xs) ys (store 0 xs m) = store 0 (xs @ ys) m"
  by (simp add: store_def add.commute)

lemma store_data: "length xs \<le> length m \<Longrightarrow> k + n \<le> length xs \<Longrightarrow> take n (drop k (store 0 xs m)) = take n (drop k xs)"
  by (simp add: store_def)

text \<open>The protocol state names a checksum and its size; the sequence numbers are bits.\<close>

definition t1_ok :: "t1_state \<Rightarrow> bool" where
  "t1_ok t \<longleftrightarrow> (t1_checksum t = csum_lrc_compute \<and> t1_rc_bytes t = 1 \<or> t1_checksum t = csum_crc_compute \<and> t1_rc_bytes t = 2)
    \<and> t1_ns t \<in> {0, 1} \<and> t1_nr t \<in> {0, 1}"

lemma length_checksum: "t1_ok t \<Longrightarrow> length (t1_checksum t xs) = unat (t1_rc_bytes t)"
  by (auto simp: t1_ok_def csum_lrc_compute_def csum_crc_compute_def Let_def)

lemma rc_bytes_le: "t1_ok t \<Longrightarrow> unat (t1_rc_bytes t) \<le> 2"
  by (auto simp: t1_ok_def)

text \<open>The bytes of a block.\<close>

definition block_bytes :: "t1_state \<Rightarrow> UCHAR \<Rightarrow> UCHAR \<Rightarrow> UCHAR list \<Rightarrow> UCHAR list" where
  "block_bytes t nad pcb data =
    (let body = [nad, pcb, word_of_nat (length data)] @ data in body @ t1_checksum t body)"

lemma length_block_bytes: "t1_ok t \<Longrightarrow> length (block_bytes t nad pcb data) = 3 + length data + unat (t1_rc_bytes t)"
  by (simp add: block_bytes_def Let_def length_checksum)

lemma block_bytes_cong: "t1_checksum t' = t1_checksum t \<Longrightarrow> block_bytes t' nad pcb data = block_bytes t nad pcb data"
  by (simp add: block_bytes_def)

lemma block_bytes_nth:
  "block_bytes t nad pcb data ! 0 = nad" "block_bytes t nad pcb data ! Suc 0 = pcb" "block_bytes t nad pcb data ! 2 = word_of_nat (length data)"
  by (simp_all add: block_bytes_def Let_def numeral_2_eq_2)

lemma block_bytes_data: "take (length data) (drop 3 (block_bytes t nad pcb data)) = data"
  by (simp add: block_bytes_def Let_def)

lemma verify_block:
  assumes "t1_ok t" and "length xs = n" and "length (xs @ rc) \<le> length rbuf" and "length rc = unat (t1_rc_bytes t)"
    and "take (length (xs @ rc)) rbuf = xs @ rc"
  shows "t1_verify_checksum t rbuf (int (n + length rc)) = Some (rc = t1_checksum t xs)"
proof -
  have u: "uint (t1_rc_bytes t) = int (length rc)" using assms(4) by simp
  have "take n rbuf = xs" using assms(2,5) by (metis append_eq_conv_conj length_append min.absorb1 le_add1 take_take)
  moreover have "take (length rc) (drop n rbuf) = rc"
    using assms(2,5) by (metis append_eq_conv_conj drop_take length_append add_diff_cancel_left')
  moreover have "\<not> int (length rbuf) < int (n + length rc)" using assms(2,3) by simp
  moreover have "length (t1_checksum t xs) = length rc" using length_checksum [OF assms(1)] assms(4) by simp
  ultimately show ?thesis unfolding t1_verify_checksum_def Let_def u assms(4) [symmetric] by simp
qed

text \<open>The data a block takes from a buffer: what is there, at most \<^verbatim>\<open>ifsc\<close> bytes.\<close>

definition block_data :: "t1_state \<Rightarrow> ct_buf option \<Rightarrow> UCHAR list" where
  "block_data t bp = (case bp of None \<Rightarrow> [] | Some b \<Rightarrow> take (unat (t1_ifsc t)) (buf_contents b))"

definition block_more :: "t1_state \<Rightarrow> ct_buf option \<Rightarrow> bool" where
  "block_more t bp = (case bp of None \<Rightarrow> False | Some b \<Rightarrow> unat (t1_ifsc t) < length (buf_contents b))"

definition block_pcb :: "t1_state \<Rightarrow> UCHAR \<Rightarrow> bool \<Rightarrow> UCHAR" where
  "block_pcb t pcb chained =
    (let pcb1 = (if chained then pcb OR T1_MORE_BLOCKS else pcb) in
     if t1_block_type pcb1 = T1_R_BLOCK then pcb1 OR push_bit 4 (t1_nr t)
     else if t1_block_type pcb1 = T1_I_BLOCK then pcb1 OR push_bit 6 (t1_ns t) else pcb1)"

definition buf_arg_ok :: "ct_buf option \<Rightarrow> bool" where
  "buf_arg_ok bp \<longleftrightarrow> (case bp of None \<Rightarrow> True | Some b \<Rightarrow> buf_ok b)"

lemma block_data_len:
  assumes "buf_arg_ok bp"
  defines "avail \<equiv> (case bp of None \<Rightarrow> 0 | Some b \<Rightarrow> ct_buf_avail b)"
  shows "block_more t bp = (t1_ifsc t < avail)"
    and "unat (if t1_ifsc t < avail then t1_ifsc t else avail) = length (block_data t bp)"
    and "(case bp of None \<Rightarrow> [] | Some b \<Rightarrow> take (unat (if t1_ifsc t < avail then t1_ifsc t else avail)) (ct_buf_head b)) = block_data t bp"
proof -
  show 1: "block_more t bp = (t1_ifsc t < avail)"
    using assms by (auto simp: block_more_def buf_arg_ok_def length_buf_contents word_less_nat_alt split: option.splits)
  show "unat (if t1_ifsc t < avail then t1_ifsc t else avail) = length (block_data t bp)"
    using assms by (auto simp: block_data_def buf_arg_ok_def length_buf_contents word_less_nat_alt split: option.splits)
  show "(case bp of None \<Rightarrow> [] | Some b \<Rightarrow> take (unat (if t1_ifsc t < avail then t1_ifsc t else avail)) (ct_buf_head b)) = block_data t bp"
    using assms by (auto simp: block_data_def buf_contents_def word_less_nat_alt min_def split: option.splits)
qed

lemma byte_eq_iff: "(a :: UCHAR) = b \<longleftrightarrow> (bit a 0 = bit b 0 \<and> bit a 1 = bit b 1 \<and> bit a 2 = bit b 2 \<and> bit a 3 = bit b 3
    \<and> bit a 4 = bit b 4 \<and> bit a 5 = bit b 5 \<and> bit a 6 = bit b 6 \<and> bit a 7 = bit b 7)"
proof -
  have bits: "n = 0 \<or> n = 1 \<or> n = 2 \<or> n = 3 \<or> n = 4 \<or> n = 5 \<or> n = 6 \<or> n = 7" if "n < 8" for n :: nat
    using that by linarith
  show ?thesis (is "_ \<longleftrightarrow> ?R")
  proof
    assume r: ?R
    show "a = b"
    proof (rule bit_word_eqI)
      fix n assume "n < LENGTH(8)"
      then have "n < 8" by simp
      from bits [OF this] r show "bit a n = bit b n" by (elim disjE) simp_all
    qed
  qed simp
qed

lemma and_C0: "(pcb :: UCHAR) AND 0xC0 = 0x80 \<longleftrightarrow> bit pcb 7 \<and> \<not> bit pcb 6" "pcb AND 0xC0 = 0xC0 \<longleftrightarrow> bit pcb 7 \<and> bit pcb 6"
  by (auto simp: byte_eq_iff bit_and_iff)

lemma block_type_iff [simp]:
  "t1_block_type pcb = T1_R_BLOCK \<longleftrightarrow> bit pcb 7 \<and> \<not> bit pcb 6"
  "t1_block_type pcb = T1_S_BLOCK \<longleftrightarrow> bit pcb 7 \<and> bit pcb 6"
  "t1_block_type pcb = T1_I_BLOCK \<longleftrightarrow> \<not> bit pcb 7"
  by (auto simp: t1_block_type_def and_C0)

lemma seq_bit: "x \<in> {0, 1} \<Longrightarrow> bit (push_bit k x) n \<longleftrightarrow> x = 1 \<and> n = k" if "k < 8" for x :: UCHAR
  using that by (auto simp: bit_simps bit_1_iff)

lemma block_pcb_type: "t1_ok t \<Longrightarrow> \<not> bit (block_pcb t pcb chained) 7 \<longleftrightarrow> \<not> bit pcb 7"
  by (auto simp: block_pcb_def Let_def bit_or_iff t1_ok_def seq_bit)

lemma t1_build_eq:
  fixes pcb :: UCHAR
  assumes "t1_ok t" and "buf_arg_ok bp"
  shows "t1_build t block dad pcb bp =
    (let data = block_data t bp; pcb' = block_pcb t pcb (block_more t bp) in
     if length block < 3 + length data + unat (t1_rc_bytes t) then None
     else Some ((if bit pcb 7 then t else t\<lparr>t1_more := block_more t bp\<rparr>)
         \<lparr>t1_previous_block := take 4 (block_bytes t dad pcb' data)\<rparr>,
       store 0 (block_bytes t dad pcb' data) block, word_of_nat (3 + length data + unat (t1_rc_bytes t)), word_of_nat (length data)))"
proof -
  let ?avail = "case bp of None \<Rightarrow> 0 | Some b \<Rightarrow> ct_buf_avail b"
  let ?len = "if t1_ifsc t < ?avail then t1_ifsc t else ?avail"
  define data where "data = block_data t bp"
  define pcb' where "pcb' = block_pcb t pcb (block_more t bp)"
  note d = block_data_len [OF assms(2), of t]
  have len: "unat ?len = length data" and u: "ucast ?len = (word_of_nat (length data) :: UCHAR)" "?len = word_of_nat (length data)"
    using d(2) by (simp_all add: data_def flip: d(2))
  let ?body = "[dad, pcb', word_of_nat (length data)] @ data"
  have ch: "t1_compute_checksum t (store 0 ?body block) (length data + 3) =
     (if length block < 3 + length data + unat (t1_rc_bytes t) then None
      else Some (3 + length data + unat (t1_rc_bytes t), store 0 (block_bytes t dad pcb' data) block))"
    if "3 + length data \<le> length block"
  proof -
    have "take (length data + 3) (store 0 ?body block) = ?body" using take_store_0 [of ?body block] that by (simp add: numeral_3_eq_3)
    moreover have "store (length data + 3) (t1_checksum t ?body) (store 0 ?body block) = store 0 (block_bytes t dad pcb' data) block"
      if "3 + length data + unat (t1_rc_bytes t) \<le> length block"
      using store_append [of ?body "t1_checksum t ?body" block] that length_checksum [OF assms(1), of ?body]
      by (simp add: block_bytes_def Let_def numeral_3_eq_3)
    ultimately show ?thesis
      using that length_checksum [OF assms(1), of ?body] by (auto simp: t1_compute_checksum_def Let_def not_less)
  qed
  have p: "(if t1_block_type (if block_more t bp then pcb OR T1_MORE_BLOCKS else pcb) = T1_R_BLOCK
       then (if block_more t bp then pcb OR T1_MORE_BLOCKS else pcb) OR push_bit 4 (t1_nr t)
       else if t1_block_type (if block_more t bp then pcb OR T1_MORE_BLOCKS else pcb) = T1_I_BLOCK
       then (if block_more t bp then pcb OR T1_MORE_BLOCKS else pcb) OR push_bit 6 (t1_ns t)
       else (if block_more t bp then pcb OR T1_MORE_BLOCKS else pcb)) = pcb'"
    by (simp add: pcb'_def block_pcb_def Let_def)
  have k: "t1_block_type (if block_more t bp then pcb OR T1_MORE_BLOCKS else pcb) = T1_I_BLOCK \<longleftrightarrow> \<not> bit pcb 7"
    by (simp add: bit_or_iff)
  have f: "t1_build t block dad pcb bp =
    (if length block < 3 + length data then None
     else do {
       (slen, block1) \<leftarrow> t1_compute_checksum t (store 0 ([dad, pcb', word_of_nat (length data)] @ data) block) (length data + 3);
       Some ((if bit pcb 7 then t else t\<lparr>t1_more := block_more t bp\<rparr>)\<lparr>t1_previous_block := take 4 block1\<rparr>, block1,
         word_of_nat slen, word_of_nat (length data))
     })"
    unfolding t1_build_def Let_def unfolding d(3) unfolding u(1) len unfolding u(2) unfolding d(1) [symmetric] unfolding p unfolding k data_def [symmetric]
    by simp
  have "take 4 (store 0 (block_bytes t dad pcb' data) block) = take 4 (block_bytes t dad pcb' data)"
    using assms(1) by (auto simp: store_def length_block_bytes t1_ok_def)
  then show ?thesis
    unfolding f data_def [symmetric] pcb'_def [symmetric] Let_def using ch by (auto simp: not_less)
qed

lemma checksum_detects: "t1_ok t \<Longrightarrow> i < length xs \<Longrightarrow> x \<noteq> xs ! i \<Longrightarrow> t1_checksum t (xs[i := x]) \<noteq> t1_checksum t xs"
proof -
  assume t: "t1_ok t" and i: "i < length xs" and x: "x \<noteq> xs ! i"
  have "xs[i := x] = take i xs @ x # drop (Suc i) xs" and "xs = take i xs @ xs ! i # drop (Suc i) xs"
    using i by (simp_all add: upd_conv_take_nth_drop id_take_nth_drop)
  with t x show ?thesis
    by (metis t1_ok_def lrc_detects crc_detects_one)
qed

lemma verify_corrupt:
  assumes "t1_ok t" and "length (xs @ rc) \<le> length rbuf" and "rc = t1_checksum t xs" and "take (length (xs @ rc)) rbuf = xs @ rc"
    and "i < length (xs @ rc)" and "x \<noteq> rbuf ! i"
  shows "t1_verify_checksum t (rbuf[i := x]) (int (length xs + length rc)) = Some False"
proof -
  have k: "length rc = unat (t1_rc_bytes t)" using length_checksum [OF assms(1)] assms(3) by simp
  have ri: "rbuf ! i = (xs @ rc) ! i" using assms(4,5) by (metis nth_take)
  have tk: "take (length (xs @ rc)) (rbuf[i := x]) = (xs @ rc)[i := x]" using assms(4) by (simp add: take_update_swap)
  show ?thesis
  proof (cases "i < length xs")
    case True
    with tk have "take (length (xs[i := x] @ rc)) (rbuf[i := x]) = xs[i := x] @ rc" by (simp add: list_update_append)
    from verify_block [OF assms(1) _ _ k this, of "length xs"] assms(2,3,6) checksum_detects [OF assms(1) True, of x] ri True
    show ?thesis by (simp add: nth_append)
  next
    case False
    let ?rc = "rc[i - length xs := x]"
    from False tk have "take (length (xs @ ?rc)) (rbuf[i := x]) = xs @ ?rc" by (simp add: list_update_append)
    moreover have "?rc \<noteq> rc" using False assms(5,6) ri by (metis add_less_cancel_left le_add_diff_inverse length_append not_less nth_append nth_list_update_eq)
    ultimately show ?thesis
      using verify_block [OF assms(1) refl, of xs ?rc "rbuf[i := x]"] assms(2,3) k by simp
  qed
qed

lemma seq_of_pcb:
  assumes "t1_ok t"
  shows "t1_seq (block_pcb t 0 chained) = t1_ns t" and "flag (block_pcb t 0 chained) T1_MORE_BLOCKS = chained"
    and "t1_block_type (block_pcb t 0 chained) = T1_I_BLOCK"
  using assms by (auto simp: t1_ok_def block_pcb_def t1_seq_def Let_def flag_def)

lemma block_checks:
  assumes "t1_ok t" and "length (block_bytes t nad pcb data) \<le> length rbuf"
    and "take (length (block_bytes t nad pcb data)) rbuf = block_bytes t nad pcb data"
  shows "t1_verify_checksum t rbuf (int (length (block_bytes t nad pcb data))) = Some True"
    and "i < length (block_bytes t nad pcb data) \<Longrightarrow> x \<noteq> rbuf ! i \<Longrightarrow>
      t1_verify_checksum t (rbuf[i := x]) (int (length (block_bytes t nad pcb data))) = Some False"
proof -
  let ?body = "[nad, pcb, word_of_nat (length data)] @ data"
  have b: "block_bytes t nad pcb data = ?body @ t1_checksum t ?body" by (simp add: block_bytes_def Let_def)
  from verify_block [OF assms(1) refl, of ?body "t1_checksum t ?body" rbuf] assms(2,3) length_checksum [OF assms(1), of ?body]
  show "t1_verify_checksum t rbuf (int (length (block_bytes t nad pcb data))) = Some True" unfolding b by simp
  from verify_corrupt [OF assms(1) _ refl, of ?body rbuf i x] assms(2,3)
  show "i < length (block_bytes t nad pcb data) \<Longrightarrow> x \<noteq> rbuf ! i \<Longrightarrow>
      t1_verify_checksum t (rbuf[i := x]) (int (length (block_bytes t nad pcb data))) = Some False" unfolding b by simp
qed

text \<open>What a block has to carry, and how \<^verbatim>\<open>t1_build\<close> is called: with the control byte of an I-block, which may leave part of the buffer for later blocks; with that of an
  R-block without sequence number; or with that of an S-block. The data of the last two fit in one block.\<close>

definition to_send :: "ct_buf option \<Rightarrow> UCHAR list" where
  "to_send bp = (case bp of None \<Rightarrow> [] | Some b \<Rightarrow> buf_contents b)"

definition block_call :: "t1_state \<Rightarrow> UCHAR \<Rightarrow> ct_buf option \<Rightarrow> bool" where
  "block_call t pcb bp \<longleftrightarrow> pcb = T1_I_BLOCK
     \<or> (t1_block_type pcb = T1_R_BLOCK \<and> t1_seq pcb = 0 \<or> t1_block_type pcb = T1_S_BLOCK) \<and> length (to_send bp) \<le> unat (t1_ifsc t)"

definition seq_of_block :: "t1_state \<Rightarrow> UCHAR \<Rightarrow> UCHAR" where
  "seq_of_block t kind = (if kind = T1_I_BLOCK then t1_ns t else if kind = T1_R_BLOCK then t1_nr t else 0)"

lemma block_data_to_send: "block_data t bp = take (unat (t1_ifsc t)) (to_send bp)" "block_more t bp = (unat (t1_ifsc t) < length (to_send bp))"
  by (simp_all add: block_data_def block_more_def to_send_def split: option.split)

lemma seq_bits: "bit pcb 7 \<Longrightarrow> \<not> bit pcb 6 \<Longrightarrow> t1_seq pcb = (if bit pcb 4 then 1 else 0)"
  by (simp add: t1_seq_def and_C0 byte_eq_iff bit_simps bit_1_iff)

lemma pcb_of_block:
  assumes "t1_ok t" and "block_call t pcb bp"
  defines "p \<equiv> block_pcb t pcb (block_more t bp)"
  shows "t1_block_type p = t1_block_type pcb" and "t1_seq p = seq_of_block t (t1_block_type pcb)"
    and "p AND 0x0F = pcb AND 0x0F"
    and "flag p T1_MORE_BLOCKS = (if t1_block_type pcb = T1_I_BLOCK then unat (t1_ifsc t) < length (to_send bp) else flag pcb T1_MORE_BLOCKS)"
proof -
  consider (I) "pcb = T1_I_BLOCK" | (R) "bit pcb 7" "\<not> bit pcb 6" "\<not> bit pcb 4" "\<not> block_more t bp" | (S) "bit pcb 7" "bit pcb 6" "\<not> block_more t bp"
    using assms(2) seq_bits [of pcb] by (auto simp: block_call_def block_data_to_send split: if_splits)
  note kinds = this
  have "t1_block_type p = t1_block_type pcb \<and> t1_seq p = seq_of_block t (t1_block_type pcb) \<and> p AND 0x0F = pcb AND 0x0F
    \<and> flag p T1_MORE_BLOCKS = (if t1_block_type pcb = T1_I_BLOCK then block_more t bp else flag pcb T1_MORE_BLOCKS)"
  proof (cases rule: kinds)
    case I
    with seq_of_pcb [OF assms(1), of "block_more t bp"] assms(1) show ?thesis
      by (auto simp: p_def seq_of_block_def t1_block_type_def block_pcb_def t1_ok_def Let_def flag_def)
  next
    case R
    then have p: "p = pcb OR push_bit 4 (t1_nr t)" by (simp add: p_def block_pcb_def Let_def)
    have nr: "t1_nr t = 0 \<or> t1_nr t = 1" using assms(1) by (auto simp: t1_ok_def)
    have b: "bit p n = (bit pcb n \<or> t1_nr t = 1 \<and> n = 4)" for n using nr by (auto simp: p bit_or_iff seq_bit)
    have k: "t1_block_type p = T1_R_BLOCK" "t1_block_type pcb = T1_R_BLOCK" using R b by auto
    have q: "t1_seq p = t1_nr t" using seq_bits [of p] R b nr by auto
    have "p AND 0x0F = pcb AND 0x0F" "p AND 0x20 = pcb AND 0x20" by (simp_all add: byte_eq_iff bit_and_iff b)
    then show ?thesis unfolding k q seq_of_block_def flag_def by simp
  next
    case S
    then have "p = pcb" "t1_block_type pcb = T1_S_BLOCK" by (simp_all add: p_def block_pcb_def Let_def)
    moreover have "t1_seq pcb = 0" using S and_C0 [of pcb] by (simp add: t1_seq_def)
    ultimately show ?thesis by (simp add: seq_of_block_def)
  qed
  then show "t1_block_type p = t1_block_type pcb" and "t1_seq p = seq_of_block t (t1_block_type pcb)" and "p AND 0x0F = pcb AND 0x0F"
    and "flag p T1_MORE_BLOCKS = (if t1_block_type pcb = T1_I_BLOCK then unat (t1_ifsc t) < length (to_send bp) else flag pcb T1_MORE_BLOCKS)"
    by (simp_all only: block_data_to_send)
qed

text \<open>C28: Every block built for sending is what the receiving side takes apart: called for an I-block, an R-block or an S-block, with or without a buffer, \<^verbatim>\<open>t1_build\<close>
  makes a block that fits the array and has a right checksum; its control byte gives back the kind of block, the sequence number (to send for an I-block, expected for an
  R-block), the error code or the type of the request, and the more-data bit (for an I-block set exactly when the buffer holds more than \<^verbatim>\<open>ifsc\<close>
  bytes); its data are the next bytes of the buffer; and no change of a single byte of the block passes the verification.\<close>

theorem t1_block_roundtrip:
  assumes "t1_ok t" and "buf_arg_ok bp" and "t1_ifsc t \<le> 254" and "length block = T1_BUFFER_SIZE" and "block_call t pcb bp"
  shows "\<exists>t' b slen n. t1_build t block dad pcb bp = Some (t', b, slen, n)
    \<and> unat n = min (unat (t1_ifsc t)) (length (to_send bp)) \<and> unat slen = 3 + unat n + unat (t1_rc_bytes t) \<and> unat slen \<le> T1_BUFFER_SIZE
    \<and> t1_verify_checksum t' b (uint slen) = Some True
    \<and> b ! 0 = dad \<and> t1_block_type (b ! 1) = t1_block_type pcb \<and> t1_seq (b ! 1) = seq_of_block t (t1_block_type pcb)
    \<and> (b ! 1) AND 0x0F = pcb AND 0x0F
    \<and> flag (b ! 1) T1_MORE_BLOCKS = (if t1_block_type pcb = T1_I_BLOCK then unat (t1_ifsc t) < length (to_send bp) else flag pcb T1_MORE_BLOCKS)
    \<and> take (unat (b ! 2)) (drop 3 b) = take (unat n) (to_send bp)
    \<and> (\<forall>i x. i < unat slen \<and> x \<noteq> b ! i \<longrightarrow> t1_verify_checksum t' (b[i := x]) (uint slen) = Some False)"
proof -
  define data where "data = take (unat (t1_ifsc t)) (to_send bp)"
  define p where "p = block_pcb t pcb (block_more t bp)"
  define B where "B = block_bytes t dad p data"
  define t' where "t' = (if bit pcb 7 then t else t\<lparr>t1_more := block_more t bp\<rparr>)\<lparr>t1_previous_block := take 4 B\<rparr>"
  have ifsc: "unat (t1_ifsc t) \<le> 254" using assms(3) by (simp add: word_le_nat_alt)
  then have d: "length data \<le> 254" by (simp add: data_def)
  have lB: "length B = 3 + length data + unat (t1_rc_bytes t)" by (simp add: B_def length_block_bytes assms(1))
  then have lB': "length B \<le> 259" using d rc_bytes_le [OF assms(1)] by simp
  have build: "t1_build t block dad pcb bp = Some (t', store 0 B block, word_of_nat (length B), word_of_nat (length data))"
    using t1_build_eq [OF assms(1,2), of block dad pcb] assms(4) lB lB'
    by (simp add: block_data_to_send(1) Let_def flip: p_def data_def B_def t'_def)
  have u: "unat (word_of_nat (length B) :: DWORD) = length B" "unat (word_of_nat (length data) :: DWORD) = length data"
    "unat (word_of_nat (length data) :: UCHAR) = length data"
    using lB' d by (simp_all add: unat_of_nat)
  have ok': "t1_ok t'" "t1_checksum t' = t1_checksum t" using assms(1) by (simp_all add: t1_ok_def t'_def)
  have B': "B = block_bytes t' dad p data" using block_bytes_cong [OF ok'(2)] by (simp add: B_def)
  have tk: "take (length B) (store 0 B block) = B" "length (store 0 B block) = 259" using lB' assms(4) take_store_0 [of B block] by simp_all
  have nth: "store 0 B block ! i = B ! i" if "i < length B" for i using that tk(1) by (metis nth_take)
  have data': "take (length data) (drop 3 (store 0 B block)) = data"
    using store_data [of B block 3 "length data"] lB lB' assms(4) by (simp add: B_def block_bytes_data)
  note ch = block_checks [OF ok'(1), of dad p data "store 0 B block", folded B']
  have l3: "2 < length B" using lB assms(1) by (auto simp: t1_ok_def)
  have B3: "B ! 0 = dad" "B ! 1 = p" "B ! 2 = word_of_nat (length data)" unfolding B_def by (simp_all add: block_bytes_nth)
  have b3: "store 0 B block ! 0 = dad" "store 0 B block ! 1 = p" "store 0 B block ! 2 = word_of_nat (length data)"
    using nth [of 0] nth [of 1] nth [of 2] l3 B3 by force+
  have us: "uint (word_of_nat (length B) :: DWORD) = int (length B)" using u(1) by (metis uint_nat)
  have n: "length data = min (unat (t1_ifsc t)) (length (to_send bp))" by (simp add: data_def min.commute)
  have c: "take (length data) (to_send bp) = data" by (simp add: data_def min_def)
  note s = pcb_of_block [OF assms(1,5), folded p_def]
  show ?thesis
  proof (intro exI conjI allI impI)
    show "t1_build t block dad pcb bp = Some (t', store 0 B block, word_of_nat (length B), word_of_nat (length data))"
      by (rule build)
    show "unat (word_of_nat (length data) :: DWORD) = min (unat (t1_ifsc t)) (length (to_send bp))" unfolding u(2) by (rule n)
    show "unat (word_of_nat (length B) :: DWORD) = 3 + unat (word_of_nat (length data) :: DWORD) + unat (t1_rc_bytes t)"
      unfolding u by (rule lB)
    show "unat (word_of_nat (length B) :: DWORD) \<le> T1_BUFFER_SIZE" unfolding u by (rule lB')
    show "t1_verify_checksum t' (store 0 B block) (uint (word_of_nat (length B) :: DWORD)) = Some True"
      unfolding us by (rule ch(1)) (use tk lB' in auto)
    show "store 0 B block ! 0 = dad" by (rule b3)
    show "t1_block_type (store 0 B block ! 1) = t1_block_type pcb" "t1_seq (store 0 B block ! 1) = seq_of_block t (t1_block_type pcb)"
      "(store 0 B block ! 1) AND 0x0F = pcb AND 0x0F" "flag (store 0 B block ! 1) T1_MORE_BLOCKS =
        (if t1_block_type pcb = T1_I_BLOCK then unat (t1_ifsc t) < length (to_send bp) else flag pcb T1_MORE_BLOCKS)"
      by (simp_all only: b3 s)
    show "take (unat (store 0 B block ! 2)) (drop 3 (store 0 B block)) = take (unat (word_of_nat (length data) :: DWORD)) (to_send bp)"
      by (simp only: b3 u data' c)
    fix i x assume "i < unat (word_of_nat (length B) :: DWORD) \<and> x \<noteq> store 0 B block ! i"
    then show "t1_verify_checksum t' ((store 0 B block)[i := x]) (uint (word_of_nat (length B) :: DWORD)) = Some False"
      unfolding us u by (intro ch(2)) (use tk lB' in auto)
  qed
qed

text \<open>The property on a state after a reset and a command of five bytes.\<close>

definition sample_t1 :: t1_state where
  "sample_t1 = t1_init \<lparr>t1_lun = 0, t1_st = DEAD, t1_ns = 1, t1_nr = 1, t1_ifsc = 0, t1_ifsd = 0, t1_wtx = 0, t1_retries = 0,
    t1_rc_bytes = 0, t1_checksum = (\<lambda>xs. []), t1_more = True, t1_previous_block = [0, 0, 0, 0]\<rparr> 0"

lemma sample_t1_simps: "t1_ok sample_t1" "t1_ifsc sample_t1 = 32" "t1_ns sample_t1 = 0" "t1_nr sample_t1 = 0" "t1_st sample_t1 = SENDING"
  "t1_retries sample_t1 = 3" "t1_wtx sample_t1 = 0" "t1_rc_bytes sample_t1 = 1" "t1_checksum sample_t1 = csum_lrc_compute"
  by (simp_all add: sample_t1_def t1_init_def t1_set_defaults_def t1_set_param_def t1_set_checksum_def t1_ok_def Let_def)

theorem t1_block_roundtrip_witness:
  "(\<exists>t' b slen n. t1_build sample_t1 (replicate 259 0) 0 T1_I_BLOCK (Some (ct_buf_set [0, 0xA4, 0, 0, 0] 5)) = Some (t', b, slen, n)
    \<and> t1_verify_checksum t' b (uint slen) = Some True \<and> t1_verify_checksum t' (b[3 := 1]) (uint slen) = Some False
    \<and> take 5 (drop 3 b) = [0, 0xA4, 0, 0, 0])
   \<and> (\<exists>t' b slen n. t1_build (sample_t1\<lparr>t1_nr := 1\<rparr>) (replicate 259 0) 0 (T1_R_BLOCK OR 1) None = Some (t', b, slen, n)
    \<and> t1_block_type (b ! 1) = T1_R_BLOCK \<and> t1_seq (b ! 1) = 1 \<and> (b ! 1) AND 0x0F = 1)"
proof -
  let ?bp = "ct_buf_set [0, 0xA4, 0, 0, 0] 5"
  have b: "buf_arg_ok (Some ?bp)" "to_send (Some ?bp) = [0, 0xA4, 0, 0, 0]" using buf_set_ok [of 5 "[0, 0xA4, 0, 0, 0]"] by (simp_all add: buf_arg_ok_def to_send_def)
  have "t1_ifsc sample_t1 \<le> 254" by (simp add: sample_t1_simps)
  from t1_block_roundtrip [OF sample_t1_simps(1) b(1) this, of "replicate 259 0" T1_I_BLOCK 0]
  obtain t' bl slen n where r: "t1_build sample_t1 (replicate 259 0) 0 T1_I_BLOCK (Some ?bp) = Some (t', bl, slen, n)"
    "unat n = 5" "unat slen = 9" "t1_verify_checksum t' bl (uint slen) = Some True" "take (unat (bl ! 2)) (drop 3 bl) = [0, 0xA4, 0, 0, 0]"
    and bad: "\<And>i x. i < unat slen \<Longrightarrow> x \<noteq> bl ! i \<Longrightarrow> t1_verify_checksum t' (bl[i := x]) (uint slen) = Some False"
    using b(2) by (auto simp: sample_t1_simps block_call_def)
  have "length (take (unat (bl ! 2)) (drop 3 bl)) = 5" using r(5) by simp
  then have "take 5 (drop 3 bl) = take 5 (take (unat (bl ! 2)) (drop 3 bl))" by (simp add: min_def split: if_splits)
  then have t5: "take 5 (drop 3 bl) = [0, 0xA4, 0, 0, 0]" using r(5) by simp
  then have "take 5 (drop 3 bl) ! 0 = 0" by simp
  then have "bl ! 3 = 0" using \<open>length _ = 5\<close> by simp
  then have bad3: "t1_verify_checksum t' (bl[3 := 1]) (uint slen) = Some False" using bad [of 3 1] r(3) by simp
  let ?t = "sample_t1\<lparr>t1_nr := 1\<rparr>"
  have k: "t1_block_type (T1_R_BLOCK OR 1) = T1_R_BLOCK" by (simp add: t1_block_type_def)
  have "t1_ok ?t" "t1_ifsc ?t \<le> 254" using sample_t1_simps by (simp_all add: t1_ok_def)
  moreover have "block_call ?t (T1_R_BLOCK OR 1) None" using k by (simp add: block_call_def to_send_def t1_seq_def)
  ultimately obtain t1 b1 slen1 n1 where r1: "t1_build ?t (replicate 259 0) 0 (T1_R_BLOCK OR 1) None = Some (t1, b1, slen1, n1)"
    "t1_block_type (b1 ! 1) = T1_R_BLOCK" "t1_seq (b1 ! 1) = seq_of_block ?t T1_R_BLOCK" "(b1 ! 1) AND 0x0F = (T1_R_BLOCK OR 1) AND 0x0F"
    using t1_block_roundtrip [of ?t None "replicate 259 0" "T1_R_BLOCK OR 1" 0] unfolding k by (auto simp: buf_arg_ok_def)
  have "seq_of_block ?t T1_R_BLOCK = 1" "((T1_R_BLOCK OR 1) AND 0x0F :: UCHAR) = 1" by (simp_all add: seq_of_block_def)
  with r t5 bad3 r1 show ?thesis by metis
qed

end
