(* ===== verification/T1_Card.thy ===== *)
theory T1_Card
  imports T1_Blocks
begin

section \<open>Commands and responses over T=1\<close>

text \<open>
  The purpose of the protocol: the bytes of a command reach the card and the bytes of its response come back,
  however both have to be cut into blocks. The specification side is a card that follows the protocol
  (\<open>card_step\<close>): it collects the data of I blocks, asks for the next one with an R block while the more-data bit is set,
  then computes its response and sends it in blocks of at most \<open>k\<close> bytes, one for each R block.

  The locale \<open>t1_link\<close> states what \<^verbatim>\<open>t1_xcv\<close> promises to the state machine: it hands a block to the card and returns the
  block of the card. The run of \<^verbatim>\<open>t1_transceive\<close> is analysed once on top of it; the interpretation shows that the
  USB port with the CCID messages around the blocks keeps the promise.
\<close>

subsection \<open>A card\<close>

record card =
  k_cmd :: "UCHAR list"
  k_vr :: UCHAR
  k_vs :: UCHAR
  k_resp :: "UCHAR list"

definition seq_bit_of :: "UCHAR \<Rightarrow> UCHAR" where
  "seq_bit_of x = (if x = 0 then 0 else 1)"

definition card_chunk :: "t1_state \<Rightarrow> nat \<Rightarrow> card \<Rightarrow> UCHAR list \<times> card" where
  "card_chunk t k d =
    (block_bytes t 0 ((if k_vs d = 0 then 0 else 0x40) OR (if k < length (k_resp d) then 0x20 else 0)) (take k (k_resp d)),
     d\<lparr>k_vs := k_vs d XOR 1, k_resp := drop k (k_resp d)\<rparr>)"

definition card_step :: "t1_state \<Rightarrow> nat \<Rightarrow> (UCHAR list \<Rightarrow> UCHAR list) \<Rightarrow> UCHAR list \<Rightarrow> card \<Rightarrow> UCHAR list \<times> card" where
  "card_step t k f p d =
    (let pcb = p ! 1; cmd = k_cmd d @ take (unat (p ! 2)) (drop 3 p) in
     if bit pcb 7 then card_chunk t k d
     else if bit pcb 5 then
       (block_bytes t 0 (0x80 OR (if k_vr d = 0 then 0x10 else 0)) [], d\<lparr>k_cmd := cmd, k_vr := k_vr d XOR 1\<rparr>)
     else card_chunk t k (d\<lparr>k_cmd := [], k_vr := k_vr d XOR 1, k_resp := f cmd\<rparr>))"

subsection \<open>The run of the state machine\<close>

text \<open>A block stands in \<^verbatim>\<open>sdata\<close>.\<close>

definition holds_block :: "UCHAR list \<Rightarrow> t1_run \<Rightarrow> bool" where
  "holds_block blk s \<longleftrightarrow> length (r_sdata s) = T1_BUFFER_SIZE \<and> length blk \<le> T1_BUFFER_SIZE \<and> take (length blk) (r_sdata s) = blk"

lemma holds_block_nth: "holds_block blk s \<Longrightarrow> i < length blk \<Longrightarrow> r_sdata s ! i = blk ! i"
  unfolding holds_block_def by (metis nth_take)

lemma holds_block_data:
  assumes "holds_block (block_bytes t nad pcb data) s" and "t1_ok t" and "length data \<le> 254"
  shows "r_sdata s ! 0 = nad" and "r_sdata s ! 1 = pcb" and "r_sdata s ! 2 = word_of_nat (length data)"
    and "unat (r_sdata s ! 2) = length data" and "take (length data) (drop 3 (r_sdata s)) = data"
    and "t1_verify_checksum t (r_sdata s) (int (length (block_bytes t nad pcb data))) = Some True"
proof -
  let ?b = "block_bytes t nad pcb data"
  have l: "length ?b = 3 + length data + unat (t1_rc_bytes t)" by (rule length_block_bytes [OF assms(2)])
  show "r_sdata s ! 0 = nad" "r_sdata s ! 1 = pcb" and 2: "r_sdata s ! 2 = word_of_nat (length data)"
    using holds_block_nth [OF assms(1), of 0] holds_block_nth [OF assms(1), of 1] holds_block_nth [OF assms(1), of 2] l
    by (simp_all add: block_bytes_nth)
  show "unat (r_sdata s ! 2) = length data" unfolding 2 using assms(3) by (simp add: unat_of_nat)
  have "take (length data) (drop 3 (r_sdata s)) = take (length data) (drop 3 (take (length ?b) (r_sdata s)))"
    using l by (simp add: drop_take min_def)
  also have "\<dots> = data" using assms(1) by (simp add: holds_block_def block_bytes_data)
  finally show "take (length data) (drop 3 (r_sdata s)) = data" .
  show "t1_verify_checksum t (r_sdata s) (int (length ?b)) = Some True"
    using block_checks(1) [OF assms(2)] assms(1) by (simp add: holds_block_def)
qed

lemma verify_cong: "t1_checksum t' = t1_checksum t \<Longrightarrow> t1_rc_bytes t' = t1_rc_bytes t \<Longrightarrow> t1_verify_checksum t' = t1_verify_checksum t"
  by (intro ext) (simp add: t1_verify_checksum_def Let_def)

text \<open>The same checksum: all states of a run.\<close>

definition same_checksum :: "t1_state \<Rightarrow> t1_state \<Rightarrow> bool" where
  "same_checksum t t' \<longleftrightarrow> t1_checksum t' = t1_checksum t \<and> t1_rc_bytes t' = t1_rc_bytes t"

text \<open>A valid block reaches the branch for its kind.\<close>

lemma react_valid:
  assumes "holds_block (block_bytes t 0 pcb data) s" and "t1_ok t" and "same_checksum t (r_t1 s)" and "length data \<le> 254"
  shows "t1_react 0 rcv_len (int (length (block_bytes t 0 pcb data))) s =
    (if t1_block_type pcb = T1_R_BLOCK then react_R 0 pcb s
     else if t1_block_type pcb = T1_I_BLOCK then react_I 0 pcb s else react_S 0 pcb rcv_len s)"
proof -
  note h = holds_block_data [OF assms(1,2,4)]
  have v: "t1_verify_checksum (r_t1 s) (r_sdata s) (int (length (block_bytes t 0 pcb data))) = Some True"
    using h(6) verify_cong [of "r_t1 s" t] assms(3) by (simp add: same_checksum_def)
  have "r_sdata s ! 2 \<noteq> 0xFF"
  proof
    assume "r_sdata s ! 2 = 0xFF"
    then have "unat (r_sdata s ! 2) = 255" by simp
    with h(4) assms(4) show False by simp
  qed
  then show ?thesis using h(1,2) v by (simp add: t1_react_def swap_nibbles_def Let_def)
qed

lemma chunk_pcb:
  fixes v :: UCHAR and m :: bool
  assumes "v \<in> {0, 1}"
  defines "pcb \<equiv> (if v = 0 then 0 else 0x40) OR (if m then 0x20 else 0) :: UCHAR"
  shows "t1_seq pcb = v" and "t1_block_type pcb = T1_I_BLOCK" and "flag pcb T1_MORE_BLOCKS = m"
  using assms by (auto simp: t1_seq_def t1_block_type_def flag_def)

lemma ask_pcb:
  fixes v :: UCHAR
  assumes "v \<in> {0, 1}"
  defines "pcb \<equiv> 0x80 OR (if v = 0 then 0x10 else 0) :: UCHAR"
  shows "t1_seq pcb = v XOR 1" and "t1_block_type pcb = T1_R_BLOCK" and "\<not> flag pcb 0x20"
  using assms by (auto simp: t1_seq_def t1_block_type_def flag_def)

lemma R_pcb: "t1_ok t \<Longrightarrow> bit (block_pcb t T1_R_BLOCK False) 7"
  by (auto simp: block_pcb_def Let_def t1_ok_def)

text \<open>An R block is built into \<^verbatim>\<open>sdata\<close>.\<close>

lemma build_R:
  assumes "t1_ok (r_t1 s)" and "length (r_sdata s) = T1_BUFFER_SIZE"
  defines "B \<equiv> block_bytes (r_t1 s) 0 (block_pcb (r_t1 s) T1_R_BLOCK False) []"
  shows "build_in 0 T1_R_BLOCK None s = Some (s\<lparr>r_t1 := (r_t1 s)\<lparr>t1_previous_block := take 4 B\<rparr>,
     r_sdata := store 0 B (r_sdata s), r_slen := word_of_nat (length B)\<rparr>)"
    and "length B \<le> T1_BUFFER_SIZE"
proof -
  have l: "length B = 3 + unat (t1_rc_bytes (r_t1 s))" by (simp add: B_def length_block_bytes assms(1))
  then show "length B \<le> T1_BUFFER_SIZE" using rc_bytes_le [OF assms(1)] by simp
  show "build_in 0 T1_R_BLOCK None s = Some (s\<lparr>r_t1 := (r_t1 s)\<lparr>t1_previous_block := take 4 B\<rparr>,
     r_sdata := store 0 B (r_sdata s), r_slen := word_of_nat (length B)\<rparr>)"
    using t1_build_eq [OF assms(1), of None "r_sdata s" 0 T1_R_BLOCK] assms(2) l rc_bytes_le [OF assms(1)]
    by (simp add: build_in_def buf_arg_ok_def block_data_def block_more_def Let_def B_def length_block_bytes)
qed

text \<open>The state in which the reader waits for the next part of the response.\<close>

definition receiving :: "t1_state \<Rightarrow> UCHAR list \<Rightarrow> nat \<Rightarrow> t1_run \<Rightarrow> bool" where
  "receiving t got room s \<longleftrightarrow> t1_ok (r_t1 s) \<and> same_checksum t (r_t1 s) \<and> t1_st (r_t1 s) = RECEIVING \<and> t1_wtx (r_t1 s) = 0
    \<and> length (r_sdata s) = T1_BUFFER_SIZE \<and> buf_ok (r_rbuf s) \<and> buf_contents (r_rbuf s) = got \<and> buf_room (r_rbuf s) = room"

definition holds_R :: "t1_run \<Rightarrow> bool" where
  "holds_R s \<longleftrightarrow> (\<exists>pcb. bit pcb 7 \<and> holds_block (block_bytes (r_t1 s) 0 pcb []) s
    \<and> unat (r_slen s) = length (block_bytes (r_t1 s) 0 pcb []))"

lemma xor_1: "v \<in> {0, 1} \<Longrightarrow> v XOR 1 \<in> {0, 1 :: UCHAR}"
  by auto

lemma xor_1_neq: "v XOR 1 \<noteq> (v :: UCHAR)"
  by (metis xor.right_neutral xor_left_cancel zero_neq_one)

lemma take_chunk:
  assumes "holds_block (block_bytes t 0 pcb data) s" and "t1_ok t" and "length data \<le> 254" and "t1_seq pcb = t1_nr (r_t1 s)"
    and "receiving t got room s" and "length data \<le> room" and "length (got @ data) < 2 ^ 31"
  shows "\<exists>s'. take_data 0 pcb s = Some (if flag pcb T1_MORE_BLOCKS then Again s' else Return (int (length (got @ data))) s')
    \<and> receiving t (got @ data) (room - length data) s' \<and> t1_nr (r_t1 s') = t1_nr (r_t1 s) XOR 1 \<and> t1_ns (r_t1 s') = t1_ns (r_t1 s)
    \<and> t1_ifsc (r_t1 s') = t1_ifsc (r_t1 s) \<and> t1_retries (r_t1 s') = t1_retries (r_t1 s)
    \<and> (flag pcb T1_MORE_BLOCKS \<longrightarrow> holds_R s') \<and> length (ct_base (r_rbuf s')) = length (ct_base (r_rbuf s)) \<and> ct_head (r_rbuf s') = ct_head (r_rbuf s)"
proof -
  note h = holds_block_data [OF assms(1-3)]
  have r: "t1_ok (r_t1 s)" "length (r_sdata s) = 259" "buf_ok (r_rbuf s)" "buf_contents (r_rbuf s) = got" "buf_room (r_rbuf s) = room"
    using assms(5) by (auto simp: receiving_def)
  define b where "b = snd (ct_buf_put (r_rbuf s) data)"
  have p: "ct_buf_put (r_rbuf s) data = (int (length data), b)" "buf_ok b" "buf_contents b = got @ data" "buf_room b = room - length data"
    using buf.put_fits [OF r(3), of data] assms(6,7) r(4,5) by (auto simp: b_def prod_eq_iff)
  have pb: "length (ct_base b) = length (ct_base (r_rbuf s))" "ct_head b = ct_head (r_rbuf s)"
    using put_step [OF r(3), of data] assms(6,7) r(5) buf_okD [OF r(3)] by (auto simp: b_def)
  define s2 where "s2 = s\<lparr>r_t1 := (r_t1 s)\<lparr>t1_nr := t1_nr (r_t1 s) XOR 1\<rparr>, r_rbuf := b\<rparr>"
  have ok2: "t1_ok (r_t1 s2)" using r(1) by (auto simp: s2_def t1_ok_def)
  have rec2: "receiving t (got @ data) (room - length data) s2" using assms(5) p ok2 by (auto simp: receiving_def s2_def same_checksum_def)
  have av: "sint (ct_buf_avail b) = int (length (got @ data))"
    using length_buf_contents [OF p(2)] p(3) assms(7) by (metis sint_small)
  have td: "take_data 0 pcb s = (if flag pcb T1_MORE_BLOCKS then splendid (build_in 0 T1_R_BLOCK None s2) else Some (Return (int (length (got @ data))) s2))"
    using h(4,5) r(2) p(1) assms(3,4) av by (simp add: take_data_def Let_def s2_def)
  have len2: "length (r_sdata s2) = 259" using r(2) by (simp add: s2_def)
  show ?thesis
  proof (cases "flag pcb T1_MORE_BLOCKS")
    case False
    with td rec2 pb show ?thesis by (auto simp: s2_def)
  next
    case True
    note bR = build_R [OF ok2 len2]
    define B where "B = block_bytes (r_t1 s2) 0 (block_pcb (r_t1 s2) T1_R_BLOCK False) []"
    define s3 where "s3 = s2\<lparr>r_t1 := (r_t1 s2)\<lparr>t1_previous_block := take 4 B\<rparr>, r_sdata := store 0 B (r_sdata s2), r_slen := word_of_nat (length B),
       r_retries := t1_retries (r_t1 s2)\<rparr>"
    have lB: "length B \<le> 259" using bR(2) by (simp add: B_def)
    have td3: "take_data 0 pcb s = Some (Again s3)" using td True bR(1) by (simp add: splendid_def s3_def B_def)
    have "t1_ok (r_t1 s3)" using ok2 by (simp add: s3_def t1_ok_def)
    then have rec3: "receiving t (got @ data) (room - length data) s3"
      using rec2 lB by (simp add: receiving_def s3_def same_checksum_def)
    have B3: "B = block_bytes (r_t1 s3) 0 (block_pcb (r_t1 s2) T1_R_BLOCK False) []"
      unfolding B_def by (rule block_bytes_cong [symmetric]) (simp add: s3_def)
    have "holds_block B s3" "unat (r_slen s3) = length B"
      using lB len2 take_store_0 [of B "r_sdata s2"] by (simp_all add: holds_block_def s3_def unat_of_nat)
    then have "holds_R s3" unfolding holds_R_def using R_pcb [OF ok2] B3 by metis
    with td3 True rec3 pb show ?thesis by (auto simp: s3_def s2_def)
  qed
qed

subsection \<open>The link to the card\<close>

text \<open>The card and the reader agree on the sequence numbers, and the card waits for a command.\<close>

definition synced :: "card \<Rightarrow> t1_state \<Rightarrow> bool" where
  "synced d t \<longleftrightarrow> k_vs d = t1_nr t \<and> k_vr d = t1_ns t"

locale t1_link =
  fixes lib :: "'u libusb"
    and ready :: "'u ccid \<Rightarrow> bool"
    and card_of :: "'u \<Rightarrow> card"
    and t :: t1_state
    and k :: nat
    and f :: "UCHAR list \<Rightarrow> UCHAR list"
  assumes checksum_ok: "t1_ok t"
    and chunk_size: "0 < k" "k \<le> 254"
    and exchange: "ready c \<Longrightarrow> t1_ok t' \<Longrightarrow> same_checksum t t' \<Longrightarrow> t1_wtx t' = 0 \<Longrightarrow> length sdata = T1_BUFFER_SIZE
      \<Longrightarrow> unat slen \<le> T1_BUFFER_SIZE \<Longrightarrow> card_step t k f (take (unat slen) sdata) (card_of (usb c)) = (blk, d)
      \<Longrightarrow> blk = block_bytes t 0 pcb data \<Longrightarrow> length data \<le> 254
      \<Longrightarrow> \<exists>c'. t1_xcv lib t' sdata slen 259 c = Some (int (length blk), t', store 0 blk sdata, c') \<and> ready c' \<and> card_of (usb c') = d"
begin

text \<open>One turn of the loop: the answer of the card is in the array, and the loop goes on as \<open>t1_react\<close> says.\<close>

lemma turn:
  assumes "ready c" and "t1_ok (r_t1 s)" and "same_checksum t (r_t1 s)" and "t1_wtx (r_t1 s) = 0" and "holds_block out s"
    and "unat (r_slen s) = length out" and "card_step t k f out (card_of (usb c)) = (block_bytes t 0 pcb data, d)"
    and "length data \<le> 254"
  defines "s0 \<equiv> s\<lparr>r_retries := r_retries s - 1, r_sdata := store 0 (block_bytes t 0 pcb data) (r_sdata s)\<rparr>"
  shows "\<exists>c'. ready c' \<and> card_of (usb c') = d \<and> holds_block (block_bytes t 0 pcb data) s0
    \<and> t1_loop lib 0 rcv_len s c =
      (case t1_react 0 rcv_len (int (length (block_bytes t 0 pcb data))) s0 of
         None \<Rightarrow> None | Some (Return r s1) \<Rightarrow> Some (r, s1, c') | Some (Again s1) \<Rightarrow> t1_loop lib 0 rcv_len s1 c')"
proof -
  let ?blk = "block_bytes t 0 pcb data"
  have sd: "length (r_sdata s) = 259" "take (length out) (r_sdata s) = out" "length out \<le> 259" using assms(5) by (auto simp: holds_block_def)
  have lb: "length ?blk \<le> 259" using length_block_bytes [OF checksum_ok] rc_bytes_le [OF checksum_ok] assms(8) by simp
  from exchange [OF assms(1-4) sd(1) _ _ refl assms(8), of "r_slen s" pcb d] assms(6,7) sd
  obtain c' where c': "t1_xcv lib (r_t1 s) (r_sdata s) (r_slen s) 259 c = Some (int (length ?blk), r_t1 s, store 0 ?blk (r_sdata s), c')"
    "ready c'" "card_of (usb c') = d" by auto
  have "holds_block ?blk s0" using sd(1) lb take_store_0 [of ?blk "r_sdata s"] by (simp add: holds_block_def s0_def)
  moreover have "s\<lparr>r_retries := r_retries s - 1, r_t1 := r_t1 s, r_sdata := store 0 ?blk (r_sdata s)\<rparr> = s0" by (simp add: s0_def)
  ultimately show ?thesis
    using c' by (intro exI [of _ c']) (simp add: t1_loop.simps [of lib 0 rcv_len s c] split: option.splits turn.splits)
qed

text \<open>The rest of the response is fetched.\<close>

lemma receive_run:
  assumes "ready c" and "receiving t got room s" and "holds_R s" and "synced (card_of (usb c)) (r_t1 s)" and "k_cmd (card_of (usb c)) = []"
    and "length (k_resp (card_of (usb c))) \<le> room" and "length (got @ k_resp (card_of (usb c))) < 2 ^ 31"
  shows "\<exists>s' c'. t1_loop lib 0 rcv_len s c = Some (int (length (got @ k_resp (card_of (usb c)))), s', c')
    \<and> receiving t (got @ k_resp (card_of (usb c))) (room - length (k_resp (card_of (usb c)))) s'
    \<and> ready c' \<and> synced (card_of (usb c')) (r_t1 s') \<and> k_cmd (card_of (usb c')) = [] \<and> t1_ifsc (r_t1 s') = t1_ifsc (r_t1 s)
    \<and> length (ct_base (r_rbuf s')) = length (ct_base (r_rbuf s)) \<and> ct_head (r_rbuf s') = ct_head (r_rbuf s)"
  using assms
proof (induction "length (k_resp (card_of (usb c)))" arbitrary: got room s c rule: less_induct)
  case less
  define d where "d = card_of (usb c)"
  define data where "data = take k (k_resp d)"
  define m where "m = (k < length (k_resp d))"
  define pcb where "pcb = (if k_vs d = 0 then 0 else 0x40) OR (if m then 0x20 else 0 :: UCHAR)"
  define d' where "d' = d\<lparr>k_vs := k_vs d XOR 1, k_resp := drop k (k_resp d)\<rparr>"
  from less.prems(2) have r: "t1_ok (r_t1 s)" "same_checksum t (r_t1 s)" "t1_st (r_t1 s) = RECEIVING" "t1_wtx (r_t1 s) = 0"
    by (auto simp: receiving_def)
  from less.prems(3) obtain p where p: "bit p 7" "holds_block (block_bytes (r_t1 s) 0 p []) s"
    "unat (r_slen s) = length (block_bytes (r_t1 s) 0 p [])" by (auto simp: holds_R_def)
  have dl: "length data \<le> 254" using chunk_size by (simp add: data_def)
  have step: "card_step t k f (block_bytes (r_t1 s) 0 p []) (card_of (usb c)) = (block_bytes t 0 pcb data, d')"
    using p(1) by (simp add: card_step_def card_chunk_def block_bytes_nth d_def [symmetric] data_def pcb_def m_def d'_def)
  from turn [OF less.prems(1) r(1,2,4) p(2,3) step dl, of rcv_len] obtain c1 s0 where c1: "ready c1" "card_of (usb c1) = d'"
    "holds_block (block_bytes t 0 pcb data) s0" "s0 = s\<lparr>r_retries := r_retries s - 1, r_sdata := store 0 (block_bytes t 0 pcb data) (r_sdata s)\<rparr>"
    and loop: "t1_loop lib 0 rcv_len s c =
      (case t1_react 0 rcv_len (int (length (block_bytes t 0 pcb data))) s0 of
         None \<Rightarrow> None | Some (Return r s1) \<Rightarrow> Some (r, s1, c1) | Some (Again s1) \<Rightarrow> t1_loop lib 0 rcv_len s1 c1)" by blast
  have vs: "k_vs d = t1_nr (r_t1 s)" "k_vr d = t1_ns (r_t1 s)" using less.prems(4) by (auto simp: synced_def d_def)
  then have v01: "k_vs d \<in> {0, 1}" using r(1) by (auto simp: t1_ok_def)
  note cp = chunk_pcb [OF v01, of m, folded pcb_def]
  have s0: "r_t1 s0 = r_t1 s" "r_rbuf s0 = r_rbuf s" using c1(4) by simp_all
  have rec0: "receiving t got room s0" using less.prems(2) c1(3) s0 by (simp add: receiving_def holds_block_def)
  have "(r_t1 s)\<lparr>t1_st := t1_st (r_t1 s)\<rparr> = r_t1 s" "s0\<lparr>r_t1 := r_t1 s0\<rparr> = s0" by simp_all
  then have idle: "s0\<lparr>r_t1 := (r_t1 s)\<lparr>t1_st := RECEIVING\<rparr>\<rparr> = s0" using r(3) s0(1) by metis
  have re: "t1_react 0 rcv_len (int (length (block_bytes t 0 pcb data))) s0 = take_data 0 pcb s0"
    using react_valid [OF c1(3) checksum_ok _ dl] r s0 cp(2) idle by (simp add: react_I_def)
  have dr: "data @ drop k (k_resp d) = k_resp d" by (simp add: data_def)
  then have lr: "length data + length (drop k (k_resp d)) = length (k_resp d)" by (metis length_append)
  have room: "length data \<le> room" "length (got @ data) < 2 ^ 31" using less.prems(6,7) lr by (simp_all add: d_def [symmetric])
  from take_chunk [OF c1(3) checksum_ok dl _ rec0 room] cp vs s0 obtain s1 where s1:
    "take_data 0 pcb s0 = Some (if m then Again s1 else Return (int (length (got @ data))) s1)"
    "receiving t (got @ data) (room - length data) s1" "t1_nr (r_t1 s1) = t1_nr (r_t1 s) XOR 1" "t1_ns (r_t1 s1) = t1_ns (r_t1 s)"
    "t1_ifsc (r_t1 s1) = t1_ifsc (r_t1 s)" "m \<longrightarrow> holds_R s1" "length (ct_base (r_rbuf s1)) = length (ct_base (r_rbuf s))"
    "ct_head (r_rbuf s1) = ct_head (r_rbuf s)" by auto
  have sy: "synced (card_of (usb c1)) (r_t1 s1)" "k_cmd (card_of (usb c1)) = []" "k_resp (card_of (usb c1)) = drop k (k_resp d)"
    using c1(2) s1(3,4) vs less.prems(5) by (auto simp: synced_def d'_def d_def)
  show ?case
  proof (cases m)
    case True
    then have "length (k_resp (card_of (usb c1))) < length (k_resp (card_of (usb c)))"
      using chunk_size sy(3) by (simp add: m_def d_def)
    moreover have "length (k_resp (card_of (usb c1))) \<le> room - length data" "length ((got @ data) @ k_resp (card_of (usb c1))) < 2 ^ 31"
      using less.prems(6,7) lr by (simp_all add: sy(3) d_def [symmetric])
    ultimately have "\<exists>s' c'. t1_loop lib 0 rcv_len s1 c1 = Some (int (length (got @ data @ drop k (k_resp d))), s', c')
      \<and> receiving t (got @ data @ drop k (k_resp d)) (room - length data - length (drop k (k_resp d))) s' \<and> ready c'
      \<and> synced (card_of (usb c')) (r_t1 s') \<and> k_cmd (card_of (usb c')) = [] \<and> t1_ifsc (r_t1 s') = t1_ifsc (r_t1 s1)
      \<and> length (ct_base (r_rbuf s')) = length (ct_base (r_rbuf s1)) \<and> ct_head (r_rbuf s') = ct_head (r_rbuf s1)"
      using less.hyps [OF _ c1(1) s1(2) _ sy(1,2)] True s1(6) by (simp only: sy(3) append_assoc simp_thms)
    then obtain s' c' where "t1_loop lib 0 rcv_len s1 c1 = Some (int (length (got @ data @ drop k (k_resp d))), s', c')"
      "receiving t (got @ data @ drop k (k_resp d)) (room - length data - length (drop k (k_resp d))) s'" "ready c'"
      "synced (card_of (usb c')) (r_t1 s')" "k_cmd (card_of (usb c')) = []" "t1_ifsc (r_t1 s') = t1_ifsc (r_t1 s1)"
      "length (ct_base (r_rbuf s')) = length (ct_base (r_rbuf s1))" "ct_head (r_rbuf s') = ct_head (r_rbuf s1)"
      by blast
    with loop re s1 True dr lr show ?thesis by (auto simp: d_def [symmetric])
  next
    case False
    then have "data = k_resp d" by (simp add: data_def m_def)
    with loop re s1 False sy c1(1) show ?thesis by (auto simp: d_def [symmetric])
  qed
qed

end

subsection \<open>Sending the command\<close>

lemma command_block:
  assumes "t1_ok (r_t1 s)" and "length (r_sdata s) = T1_BUFFER_SIZE" and "buf_ok (r_sbuf s)" and "unat (t1_ifsc (r_t1 s)) \<le> 254"
  defines "data \<equiv> take (unat (t1_ifsc (r_t1 s))) (buf_contents (r_sbuf s))"
    and "m \<equiv> unat (t1_ifsc (r_t1 s)) < length (buf_contents (r_sbuf s))"
  shows "build_command 0 s = (let B = block_bytes (r_t1 s) 0 (block_pcb (r_t1 s) 0 m) data in
     Some (s\<lparr>r_t1 := (r_t1 s)\<lparr>t1_more := m, t1_previous_block := take 4 B\<rparr>,
     r_sdata := store 0 B (r_sdata s), r_slen := word_of_nat (length B), r_last_send := word_of_nat (length data)\<rparr>))"
    and "length (block_bytes (r_t1 s) 0 (block_pcb (r_t1 s) 0 m) data) \<le> T1_BUFFER_SIZE" and "length data \<le> 254"
proof -
  show d: "length data \<le> 254" using assms(4) by (simp add: data_def)
  let ?B = "block_bytes (r_t1 s) 0 (block_pcb (r_t1 s) 0 m) data"
  have l: "length ?B = 3 + length data + unat (t1_rc_bytes (r_t1 s))" by (rule length_block_bytes [OF assms(1)])
  then show lB: "length ?B \<le> T1_BUFFER_SIZE" using rc_bytes_le [OF assms(1)] d by simp
  show "build_command 0 s = (let B = ?B in
     Some (s\<lparr>r_t1 := (r_t1 s)\<lparr>t1_more := m, t1_previous_block := take 4 B\<rparr>,
     r_sdata := store 0 B (r_sdata s), r_slen := word_of_nat (length B), r_last_send := word_of_nat (length data)\<rparr>))"
    using t1_build_eq [OF assms(1), of "Some (r_sbuf s)" "r_sdata s" 0 T1_I_BLOCK] assms(2,3) l lB
    by (simp add: build_command_def buf_arg_ok_def block_data_def block_more_def Let_def data_def [symmetric] m_def [symmetric])
qed

text \<open>The state in which the next block of the command is in \<^verbatim>\<open>sdata\<close>.\<close>

definition sending :: "t1_state \<Rightarrow> UCHAR list \<Rightarrow> nat \<Rightarrow> t1_run \<Rightarrow> bool" where
  "sending t rest room s \<longleftrightarrow> t1_ok (r_t1 s) \<and> same_checksum t (r_t1 s) \<and> t1_st (r_t1 s) = SENDING \<and> t1_wtx (r_t1 s) = 0
    \<and> t1_ifsc (r_t1 s) = t1_ifsc t \<and> buf_ok (r_sbuf s) \<and> buf_contents (r_sbuf s) = rest
    \<and> buf_ok (r_rbuf s) \<and> buf_contents (r_rbuf s) = [] \<and> buf_room (r_rbuf s) = room"

definition holds_I :: "t1_state \<Rightarrow> UCHAR list \<Rightarrow> t1_run \<Rightarrow> bool" where
  "holds_I t rest s \<longleftrightarrow> t1_more (r_t1 s) = (unat (t1_ifsc t) < length rest) \<and> unat (r_last_send s) = length (take (unat (t1_ifsc t)) rest)
    \<and> (\<exists>pcb. bit pcb 7 = False \<and> bit pcb 5 = (unat (t1_ifsc t) < length rest)
        \<and> holds_block (block_bytes t 0 pcb (take (unat (t1_ifsc t)) rest)) s
        \<and> unat (r_slen s) = length (block_bytes t 0 pcb (take (unat (t1_ifsc t)) rest)))"

lemma flag_bit5: "flag pcb 0x20 = bit (pcb :: UCHAR) 5"
  using flag_two_power [of 5 pcb] by simp

lemma build_sending:
  assumes "sending t rest room s" and "length (r_sdata s) = T1_BUFFER_SIZE" and "unat (t1_ifsc t) \<le> 254"
  shows "\<exists>s'. build_command 0 s = Some s' \<and> sending t rest room s' \<and> holds_I t rest s' \<and> t1_ns (r_t1 s') = t1_ns (r_t1 s)
    \<and> t1_nr (r_t1 s') = t1_nr (r_t1 s) \<and> r_rbuf s' = r_rbuf s"
proof -
  from assms(1) have a: "t1_ok (r_t1 s)" "same_checksum t (r_t1 s)" "t1_ifsc (r_t1 s) = t1_ifsc t" "buf_ok (r_sbuf s)" "buf_contents (r_sbuf s) = rest"
    by (auto simp: sending_def)
  define m where "m = (unat (t1_ifsc t) < length rest)"
  define data where "data = take (unat (t1_ifsc t)) rest"
  define pcb where "pcb = block_pcb (r_t1 s) 0 m"
  define B where "B = block_bytes t 0 pcb data"
  have Bs: "block_bytes (r_t1 s) 0 pcb data = B" using block_bytes_cong [of "r_t1 s" t] a(2) by (simp add: same_checksum_def B_def)
  define s' where "s' = s\<lparr>r_t1 := (r_t1 s)\<lparr>t1_more := m, t1_previous_block := take 4 B\<rparr>,
     r_sdata := store 0 B (r_sdata s), r_slen := word_of_nat (length B), r_last_send := word_of_nat (length data)\<rparr>"
  note c = command_block [OF a(1) assms(2) a(4), unfolded a(3,5), OF assms(3), folded m_def data_def, folded pcb_def, unfolded Bs]
  have b: "build_command 0 s = Some s'" using c(1) by (simp add: s'_def)
  have "holds_block B s'" using c(2) assms(2) take_store_0 [of B "r_sdata s"] by (simp add: holds_block_def s'_def)
  moreover have "unat (r_slen s') = length B" "unat (r_last_send s') = length data" using c(2,3) by (simp_all add: s'_def unat_of_nat)
  moreover have "\<not> bit pcb 7" "bit pcb 5 = m" using seq_of_pcb [OF a(1), of m] by (auto simp: pcb_def flag_bit5)
  ultimately have "holds_I t rest s'" unfolding holds_I_def m_def [symmetric] data_def [symmetric] B_def
    by (auto simp: s'_def)
  moreover have "sending t rest room s'" using assms(1) by (auto simp: sending_def s'_def same_checksum_def t1_ok_def)
  ultimately show ?thesis using b by (auto simp: s'_def)
qed

lemma ack_sending:
  assumes "sending t rest room s" and "unat (r_last_send s) = n" and "n \<le> length rest"
  shows "sending t (drop n rest) room (acknowledged s) \<and> t1_ns (r_t1 (acknowledged s)) = t1_ns (r_t1 s) XOR 1
    \<and> t1_nr (r_t1 (acknowledged s)) = t1_nr (r_t1 s) \<and> r_sdata (acknowledged s) = r_sdata s \<and> r_rbuf (acknowledged s) = r_rbuf s"
proof -
  have "buf_ok (r_sbuf s)" "unat (r_last_send s) \<le> length (buf_contents (r_sbuf s))" using assms by (auto simp: sending_def)
  from buf.get_some [OF this] obtain r q where g: "ct_buf_get (r_sbuf s) (r_last_send s) = (r, take n (buf_contents (r_sbuf s)), q)"
    "buf_ok q" "buf_contents q = drop n (buf_contents (r_sbuf s))" using assms(2) by auto
  have "t1_ns (r_t1 s) XOR 1 \<in> {0, 1}" using assms(1) xor_1 by (auto simp: sending_def t1_ok_def)
  with g assms(1) show ?thesis by (auto simp: acknowledged_def toggle_ns_def sending_def t1_ok_def same_checksum_def)
qed

context t1_link
begin

text \<open>The first part of the response arrives and the last block of the command is acknowledged by it.\<close>

lemma first_chunk:
  assumes "sending t rest room s0" and "holds_block (block_bytes t 0 pcb data) s0" and "length data \<le> 254"
    and "unat (r_last_send s0) = length rest" and "t1_block_type pcb = T1_I_BLOCK" and "t1_seq pcb = t1_nr (r_t1 s0)"
    and "length data \<le> room"
  shows "\<exists>s1. t1_react 0 rcv_len (int (length (block_bytes t 0 pcb data))) s0 =
      Some (if flag pcb T1_MORE_BLOCKS then Again s1 else Return (int (length data)) s1)
    \<and> receiving t data (room - length data) s1 \<and> t1_nr (r_t1 s1) = t1_nr (r_t1 s0) XOR 1 \<and> t1_ns (r_t1 s1) = t1_ns (r_t1 s0) XOR 1
    \<and> t1_ifsc (r_t1 s1) = t1_ifsc t \<and> (flag pcb T1_MORE_BLOCKS \<longrightarrow> holds_R s1)
    \<and> length (ct_base (r_rbuf s1)) = length (ct_base (r_rbuf s0)) \<and> ct_head (r_rbuf s1) = ct_head (r_rbuf s0)"
proof -
  define a where "a = acknowledged s0"
  define s2 where "s2 = a\<lparr>r_t1 := (r_t1 a)\<lparr>t1_st := RECEIVING\<rparr>\<rparr>"
  note ack = ack_sending [OF assms(1,4) order_refl, folded a_def]
  have r: "same_checksum t (r_t1 s0)" "t1_st (r_t1 s0) = SENDING" using assms(1) by (auto simp: sending_def)
  have react: "t1_react 0 rcv_len (int (length (block_bytes t 0 pcb data))) s0 = take_data 0 pcb s2"
    using react_valid [OF assms(2) checksum_ok r(1) assms(3), of rcv_len] assms(5) r(2) by (simp add: react_I_def s2_def a_def Let_def)
  have "holds_block (block_bytes t 0 pcb data) s2" using assms(2) ack by (simp add: holds_block_def s2_def)
  moreover have "receiving t [] room s2"
    using ack assms(2) by (auto simp: sending_def receiving_def s2_def t1_ok_def same_checksum_def holds_block_def)
  moreover have "t1_seq pcb = t1_nr (r_t1 s2)" using assms(6) ack by (simp add: s2_def)
  ultimately obtain s1 where "take_data 0 pcb s2 = Some (if flag pcb T1_MORE_BLOCKS then Again s1 else Return (int (length data)) s1)"
    "receiving t data (room - length data) s1" "t1_nr (r_t1 s1) = t1_nr (r_t1 s2) XOR 1" "t1_ns (r_t1 s1) = t1_ns (r_t1 s2)"
    "t1_ifsc (r_t1 s1) = t1_ifsc (r_t1 s2)" "flag pcb T1_MORE_BLOCKS \<longrightarrow> holds_R s1"
    "length (ct_base (r_rbuf s1)) = length (ct_base (r_rbuf s2))" "ct_head (r_rbuf s1) = ct_head (r_rbuf s2)"
    using take_chunk [OF _ checksum_ok assms(3), of pcb s2 "[]" room] assms(3,7) by auto
  with react ack show ?thesis by (auto simp: s2_def sending_def)
qed

text \<open>The card asks for the next block of the command.\<close>

lemma next_block:
  assumes "sending t rest room s0" and "t1_more (r_t1 s0)" and "unat (r_last_send s0) = n" and "n < length rest" and "unat (t1_ifsc t) \<le> 254"
    and "holds_block (block_bytes t 0 pcb []) s0" and "t1_block_type pcb = T1_R_BLOCK" and "t1_seq pcb = t1_ns (r_t1 s0) XOR 1" and "\<not> flag pcb 0x20"
  shows "\<exists>s1. t1_react 0 rcv_len (int (length (block_bytes t 0 pcb []))) s0 = Some (Again s1)
    \<and> sending t (drop n rest) room s1 \<and> holds_I t (drop n rest) s1 \<and> t1_ns (r_t1 s1) = t1_ns (r_t1 s0) XOR 1
    \<and> t1_nr (r_t1 s1) = t1_nr (r_t1 s0) \<and> r_rbuf s1 = r_rbuf s0"
proof -
  define a where "a = acknowledged s0"
  note ack = ack_sending [OF assms(1,3), folded a_def] and h = holds_block_data [OF assms(6) checksum_ok]
  have r: "same_checksum t (r_t1 s0)" "t1_st (r_t1 s0) = SENDING" using assms(1) by (auto simp: sending_def)
  have sa: "sending t (drop n rest) room a" "length (r_sdata a) = 259" using ack assms(4,6) by (auto simp: holds_block_def)
  from build_sending [OF sa assms(5)] obtain s' where s': "build_command 0 a = Some s'" "sending t (drop n rest) room s'" "holds_I t (drop n rest) s'"
    "t1_ns (r_t1 s') = t1_ns (r_t1 a)" "t1_nr (r_t1 s') = t1_nr (r_t1 a)" "r_rbuf s' = r_rbuf a" by blast
  have "ct_buf_avail (r_sbuf a) \<noteq> 0"
  proof
    assume z: "ct_buf_avail (r_sbuf a) = 0"
    have "length (buf_contents (r_sbuf a)) = 0" using length_buf_contents [of "r_sbuf a"] sa(1) z by (simp add: sending_def)
    then show False using sa(1) assms(4) by (simp add: sending_def)
  qed
  then have R: "react_R 0 pcb s0 = splendid (build_command 0 a)"
    using h(3) assms(2,8,9) r(2) xor_1_neq [of "t1_ns (r_t1 s0)"] by (simp add: react_R_def Let_def a_def)
  have "t1_react 0 rcv_len (int (length (block_bytes t 0 pcb []))) s0 = Some (Again (s'\<lparr>r_retries := t1_retries (r_t1 s')\<rparr>))"
    using react_valid [OF assms(6) checksum_ok r(1)] assms(7) R s'(1) by (simp add: splendid_def)
  moreover have "sending t (drop n rest) room (s'\<lparr>r_retries := t1_retries (r_t1 s')\<rparr>)" "holds_I t (drop n rest) (s'\<lparr>r_retries := t1_retries (r_t1 s')\<rparr>)"
    using s'(2,3) by (simp_all add: sending_def holds_I_def holds_block_def)
  ultimately show ?thesis using s'(4-6) ack assms(4) by auto
qed

lemma send_run:
  assumes "ready c" and "sending t rest room s" and "holds_I t rest s" and "synced (card_of (usb c)) (r_t1 s)"
    and "k_cmd (card_of (usb c)) @ rest = cmd" and "0 < unat (t1_ifsc t)" and "unat (t1_ifsc t) \<le> 254"
    and "length (f cmd) \<le> room" and "length (f cmd) < 2 ^ 31"
  shows "\<exists>s' c'. t1_loop lib 0 rcv_len s c = Some (int (length (f cmd)), s', c') \<and> receiving t (f cmd) (room - length (f cmd)) s'
    \<and> ready c' \<and> synced (card_of (usb c')) (r_t1 s') \<and> k_cmd (card_of (usb c')) = [] \<and> t1_ifsc (r_t1 s') = t1_ifsc t
    \<and> length (ct_base (r_rbuf s')) = length (ct_base (r_rbuf s)) \<and> ct_head (r_rbuf s') = ct_head (r_rbuf s)"
  using assms
proof (induction "length rest" arbitrary: rest s c rule: less_induct)
  case less
  define d where "d = card_of (usb c)"
  define chunk where "chunk = take (unat (t1_ifsc t)) rest"
  from less.prems(3) obtain pcb where p: "\<not> bit pcb 7" "bit pcb 5 = (unat (t1_ifsc t) < length rest)" "holds_block (block_bytes t 0 pcb chunk) s"
    "unat (r_slen s) = length (block_bytes t 0 pcb chunk)" and more: "t1_more (r_t1 s) = (unat (t1_ifsc t) < length rest)"
    and last: "unat (r_last_send s) = length chunk" by (auto simp: holds_I_def chunk_def)
  from less.prems(2) have r: "t1_ok (r_t1 s)" "same_checksum t (r_t1 s)" "t1_wtx (r_t1 s) = 0" by (auto simp: sending_def)
  have sy: "k_vs d = t1_nr (r_t1 s)" "k_vr d = t1_ns (r_t1 s)" using less.prems(4) by (auto simp: synced_def d_def)
  then have v01: "k_vs d \<in> {0, 1}" "k_vr d \<in> {0, 1}" using r(1) by (auto simp: t1_ok_def)
  have cl: "length chunk \<le> 254" using less.prems(7) by (simp add: chunk_def)
  then have ch: "take (unat (block_bytes t 0 pcb chunk ! 2)) (drop 3 (block_bytes t 0 pcb chunk)) = chunk"
    by (simp add: block_bytes_nth unat_of_nat block_bytes_data)
  show ?case
  proof (cases "unat (t1_ifsc t) < length rest")
    case True
    define q where "q = 0x80 OR (if k_vr d = 0 then 0x10 else 0 :: UCHAR)"
    have step: "card_step t k f (block_bytes t 0 pcb chunk) (card_of (usb c)) = (block_bytes t 0 q [], d\<lparr>k_cmd := k_cmd d @ chunk, k_vr := k_vr d XOR 1\<rparr>)"
      using p(1,2) True ch by (simp add: card_step_def block_bytes_nth(2) Let_def q_def d_def)
    from turn [OF less.prems(1) r p(3,4) step, of rcv_len] obtain c1 s0 where c1: "ready c1" "card_of (usb c1) = d\<lparr>k_cmd := k_cmd d @ chunk, k_vr := k_vr d XOR 1\<rparr>"
      "holds_block (block_bytes t 0 q []) s0" "s0 = s\<lparr>r_retries := r_retries s - 1, r_sdata := store 0 (block_bytes t 0 q []) (r_sdata s)\<rparr>"
      and loop: "t1_loop lib 0 rcv_len s c = (case t1_react 0 rcv_len (int (length (block_bytes t 0 q []))) s0 of
         None \<Rightarrow> None | Some (Return r s1) \<Rightarrow> Some (r, s1, c1) | Some (Again s1) \<Rightarrow> t1_loop lib 0 rcv_len s1 c1)" by auto
    have n: "length chunk = unat (t1_ifsc t)" using True by (simp add: chunk_def)
    have s0: "sending t rest room s0" "r_t1 s0 = r_t1 s" "r_last_send s0 = r_last_send s" "r_rbuf s0 = r_rbuf s"
      using less.prems(2) c1(4) by (simp_all add: sending_def)
    note ap = ask_pcb [OF v01(2), folded q_def]
    from next_block [OF s0(1), of "length chunk" q rcv_len] s0(2,3) more True last n less.prems(7) c1(3) ap sy
    obtain s1 where s1: "t1_react 0 rcv_len (int (length (block_bytes t 0 q []))) s0 = Some (Again s1)" "sending t (drop (length chunk) rest) room s1"
      "holds_I t (drop (length chunk) rest) s1" "t1_ns (r_t1 s1) = t1_ns (r_t1 s) XOR 1" "t1_nr (r_t1 s1) = t1_nr (r_t1 s)" "r_rbuf s1 = r_rbuf s"
      using s0(4) by auto
    have "synced (card_of (usb c1)) (r_t1 s1)" using c1(2) s1(4,5) sy by (simp add: synced_def)
    moreover have "k_cmd (card_of (usb c1)) @ drop (length chunk) rest = cmd" using c1(2) less.prems(5) n by (simp add: d_def chunk_def)
    moreover have "length (drop (length chunk) rest) < length rest" using True less.prems(6) n by simp
    ultimately show ?thesis
      using less.hyps [OF _ c1(1) s1(2,3)] less.prems(6-9) loop s1(1,6) by simp
  next
    case False
    define d1 where "d1 = d\<lparr>k_cmd := [], k_vr := k_vr d XOR 1, k_resp := f cmd\<rparr>"
    define m where "m = (k < length (f cmd))"
    define q where "q = (if k_vs d = 0 then 0 else 0x40) OR (if m then 0x20 else 0 :: UCHAR)"
    define data where "data = take k (f cmd)"
    have rest: "chunk = rest" using False by (simp add: chunk_def)
    have step: "card_step t k f (block_bytes t 0 pcb chunk) (card_of (usb c)) = (block_bytes t 0 q data, d1\<lparr>k_vs := k_vs d XOR 1, k_resp := drop k (f cmd)\<rparr>)"
      using p(1,2) False ch less.prems(5) rest
      by (simp add: card_step_def card_chunk_def block_bytes_nth(2) Let_def q_def d_def [symmetric] d1_def data_def m_def)
    have dl: "length data \<le> 254" using chunk_size by (simp add: data_def)
    from turn [OF less.prems(1) r p(3,4) step dl, of rcv_len] obtain c1 s0 where c1: "ready c1" "card_of (usb c1) = d1\<lparr>k_vs := k_vs d XOR 1, k_resp := drop k (f cmd)\<rparr>"
      "holds_block (block_bytes t 0 q data) s0" "s0 = s\<lparr>r_retries := r_retries s - 1, r_sdata := store 0 (block_bytes t 0 q data) (r_sdata s)\<rparr>"
      and loop: "t1_loop lib 0 rcv_len s c = (case t1_react 0 rcv_len (int (length (block_bytes t 0 q data))) s0 of
         None \<Rightarrow> None | Some (Return r s1) \<Rightarrow> Some (r, s1, c1) | Some (Again s1) \<Rightarrow> t1_loop lib 0 rcv_len s1 c1)" by auto
    have s0: "sending t rest room s0" "r_t1 s0 = r_t1 s" "r_last_send s0 = r_last_send s" "r_rbuf s0 = r_rbuf s"
      using less.prems(2) c1(4) by (simp_all add: sending_def)
    note cp = chunk_pcb [OF v01(1), of m, folded q_def]
    have dr: "data @ drop k (f cmd) = f cmd" by (simp add: data_def)
    have ld: "length data + length (drop k (f cmd)) = length (f cmd)" by (metis dr length_append)
    from first_chunk [OF s0(1) c1(3) dl _ cp(2), of rcv_len] last rest s0(2,3) cp(1,3) sy ld less.prems(8)
    obtain s1 where s1: "t1_react 0 rcv_len (int (length (block_bytes t 0 q data))) s0 = Some (if m then Again s1 else Return (int (length data)) s1)"
      "receiving t data (room - length data) s1" "t1_nr (r_t1 s1) = t1_nr (r_t1 s) XOR 1" "t1_ns (r_t1 s1) = t1_ns (r_t1 s) XOR 1"
      "t1_ifsc (r_t1 s1) = t1_ifsc t" "m \<longrightarrow> holds_R s1" "length (ct_base (r_rbuf s1)) = length (ct_base (r_rbuf s))" "ct_head (r_rbuf s1) = ct_head (r_rbuf s)"
      using s0(4) by auto
    have d1: "synced (card_of (usb c1)) (r_t1 s1)" "k_cmd (card_of (usb c1)) = []" "k_resp (card_of (usb c1)) = drop k (f cmd)"
      using c1(2) s1(3,4) sy by (simp_all add: synced_def d1_def)
    show ?thesis
    proof (cases m)
      case True
      have "length (k_resp (card_of (usb c1))) \<le> room - length data" "length (data @ k_resp (card_of (usb c1))) < 2 ^ 31"
        using ld less.prems(8,9) by (simp_all add: d1(3))
      from receive_run [OF c1(1) s1(2) _ d1(1,2) this, of rcv_len] True s1(6)
      obtain s' c' where "t1_loop lib 0 rcv_len s1 c1 = Some (int (length (f cmd)), s', c')"
        "receiving t (f cmd) (room - length data - length (drop k (f cmd))) s'" "ready c'"
        "synced (card_of (usb c')) (r_t1 s')" "k_cmd (card_of (usb c')) = []" "t1_ifsc (r_t1 s') = t1_ifsc (r_t1 s1)"
        "length (ct_base (r_rbuf s')) = length (ct_base (r_rbuf s1))" "ct_head (r_rbuf s') = ct_head (r_rbuf s1)"
        unfolding d1(3) dr by blast
      with loop s1 True ld show ?thesis by auto
    next
      case False
      then have "data = f cmd" by (simp add: data_def m_def)
      with False s1 loop d1 c1(1) show ?thesis by auto
    qed
  qed
qed

end

context t1_link
begin

text \<open>The state between two commands.\<close>

definition linked :: "t1_state \<Rightarrow> 'u ccid \<Rightarrow> bool" where
  "linked t0 c \<longleftrightarrow> ready c \<and> t1_ok t0 \<and> same_checksum t t0 \<and> t1_ifsc t0 = t1_ifsc t \<and> t1_wtx t0 = 0 \<and> t1_st t0 \<noteq> DEAD
    \<and> synced (card_of (usb c)) t0 \<and> k_cmd (card_of (usb c)) = []"

lemma transceive_answers:
  assumes "linked t0 c" and "0 < unat (t1_ifsc t)" and "unat (t1_ifsc t) \<le> 254" and "cmd \<noteq> []" and "length cmd < 2 ^ 32"
    and "unat rcv_len \<le> length rcv" and "length (f cmd) \<le> unat rcv_len" and "length (f cmd) < 2 ^ 31"
  shows "\<exists>t' rcv' c'. t1_transceive lib t0 0 cmd rcv rcv_len c = Some (int (length (f cmd)), t', rcv', c')
    \<and> take (length (f cmd)) rcv' = f cmd \<and> length rcv' = length rcv \<and> linked t' c'"
proof -
  note l = assms(1) [unfolded linked_def]
  define s0 where "s0 = \<lparr>r_t1 = t0\<lparr>t1_st := SENDING\<rparr>, r_sbuf = ct_buf_set cmd (word_of_nat (length cmd)),
          r_rbuf = ct_buf_init rcv rcv_len, r_sdata = fresh_array T1_BUFFER_SIZE c, r_slen = 0,
          r_retries = t1_retries t0, r_resyncs = 3, r_last_send = 0\<rparr>"
  have u: "unat (word_of_nat (length cmd) :: DWORD) = length cmd" using assms(5) by (rule unat_small)
  have bs: "buf_ok (r_sbuf s0)" "buf_contents (r_sbuf s0) = cmd" using buf_set_ok [of "word_of_nat (length cmd)" cmd] u by (simp_all add: s0_def)
  have br: "buf_ok (r_rbuf s0)" "buf_contents (r_rbuf s0) = []" "buf_room (r_rbuf s0) = unat rcv_len"
    using buf_init_ok [OF assms(6)] by (simp_all add: s0_def)
  have "t1_ok t0" "same_checksum t t0" "t1_ifsc t0 = t1_ifsc t" "t1_wtx t0 = 0" using l by simp_all
  then have ts: "t1_ok (r_t1 s0)" "same_checksum t (r_t1 s0)" "t1_st (r_t1 s0) = SENDING" "t1_wtx (r_t1 s0) = 0" "t1_ifsc (r_t1 s0) = t1_ifsc t"
    by (simp_all add: s0_def t1_ok_def same_checksum_def)
  have snd0: "sending t cmd (unat rcv_len) s0" "length (r_sdata s0) = 259"
    using ts bs br by (simp_all add: sending_def) (simp add: s0_def)
  from build_sending [OF snd0 assms(3)] obtain s where s: "build_command 0 s0 = Some s" "sending t cmd (unat rcv_len) s" "holds_I t cmd s"
    "t1_ns (r_t1 s) = t1_ns (r_t1 s0)" "t1_nr (r_t1 s) = t1_nr (r_t1 s0)" "r_rbuf s = r_rbuf s0" by blast
  have sy: "synced (card_of (usb c)) (r_t1 s)" using l s(4,5) by (simp add: synced_def s0_def)
  from send_run [OF _ s(2,3) sy _ assms(2,3,7,8), of rcv_len] l
  obtain s' c' where r: "t1_loop lib 0 rcv_len s c = Some (int (length (f cmd)), s', c')" "receiving t (f cmd) (unat rcv_len - length (f cmd)) s'"
    "ready c'" "synced (card_of (usb c')) (r_t1 s')" "k_cmd (card_of (usb c')) = []" "t1_ifsc (r_t1 s') = t1_ifsc t"
    "length (ct_base (r_rbuf s')) = length (ct_base (r_rbuf s))" "ct_head (r_rbuf s') = ct_head (r_rbuf s)" by auto
  have "t1_transceive lib t0 0 cmd rcv rcv_len c = Some (int (length (f cmd)), r_t1 s', ct_base (r_rbuf s'), c')"
    using assms(4) l s(1) r(1) by (simp add: t1_transceive_def s0_def [symmetric])
  moreover have "linked (r_t1 s') c'" using r by (auto simp: linked_def receiving_def)
  moreover have "length (ct_base (r_rbuf s')) = length rcv" using r(7) s(6) by (simp add: s0_def ct_buf_init_def)
  moreover have "take (length (f cmd)) (ct_base (r_rbuf s')) = f cmd"
  proof -
    have h: "ct_head (r_rbuf s') = 0" using r(8) s(6) by (simp add: s0_def ct_buf_init_def)
    have b: "buf_ok (r_rbuf s')" "buf_contents (r_rbuf s') = f cmd" using r(2) by (auto simp: receiving_def)
    then have "unat (ct_buf_avail (r_rbuf s')) = length (f cmd)" using length_buf_contents by metis
    then show ?thesis using b(2) h by (simp add: buf_contents_def ct_buf_head_def)
  qed
  ultimately show ?thesis by blast
qed

end

subsection \<open>A card behind a USB reader\<close>

text \<open>The device is the card and the message the reader will deliver next.\<close>

definition card_reader :: "t1_state \<Rightarrow> nat \<Rightarrow> (UCHAR list \<Rightarrow> UCHAR list) \<Rightarrow> (card \<times> UCHAR list) libusb" where
  "card_reader t k f = \<lparr>
     usb_bulk_write = (\<lambda>frame u. (case card_step t k f (drop 10 frame) (fst u) of (blk, d) \<Rightarrow>
        (None, (d, rdr_frame 0x80 (frame ! 5) (frame ! 6) 0 0 0 blk)))),
     usb_bulk_read = (\<lambda>n timeout u. (Inr (snd u), u)),
     usb_control_msg = (\<lambda>rt r v bs n timeout u. (Inl Other_errno, u)),
     usb_interrupt_read = (\<lambda>timeout u. (Inl Other_errno, u))\<rparr>"

definition tpdu_reader :: "'u ccid \<Rightarrow> bool" where
  "tpdu_reader c \<longleftrightarrow> bInterfaceProtocol c = 0 \<and> \<not> isCharLevel c"

lemma message_nth:
  "drop 10 (ccid_message kind a b e n c @ xs) = xs" "(ccid_message kind a b e n c @ xs) ! 6 = bSeq c"
  by (simp_all add: ccid_message_def i2dw_def)

lemma card_exchange:
  assumes "tpdu_reader c" and "t1_ok t" and "same_checksum t t'" and "t1_wtx t' = 0" and "length sdata = T1_BUFFER_SIZE"
    and "unat slen \<le> T1_BUFFER_SIZE" and "card_step t k f (take (unat slen) sdata) (fst (usb c)) = (blk, d)"
    and "blk = block_bytes t 0 pcb data" and "length data \<le> 254"
  shows "\<exists>c'. t1_xcv (card_reader t k f) t' sdata slen 259 c = Some (int (length blk), t', store 0 blk sdata, c')
    \<and> tpdu_reader c' \<and> fst (usb c') = d"
proof -
  let ?lib = "card_reader t k f"
  have i: "bInterfaceProtocol c = 0" "\<not> isCharLevel c" using assms(1) by (auto simp: tpdu_reader_def)
  have rc: "uint (t1_rc_bytes t') = int (unat (t1_rc_bytes t))" using assms(3) by (simp add: same_checksum_def)
  have lb: "length blk = 3 + length data + unat (t1_rc_bytes t)" unfolding assms(8) by (rule length_block_bytes [OF assms(2)])
  then have lb': "length blk \<le> 259" using rc_bytes_le [OF assms(2)] assms(9) by simp
  define frame where "frame = ccid_message 0x6F 0 (ucast (0 AND 0xFF :: 16 word)) (ucast (drop_bit 8 0 AND 0xFF :: 16 word)) slen c @ take (unat slen) sdata"
  have f10: "drop 10 frame = take (unat slen) sdata" "frame ! 6 = bSeq c" unfolding frame_def by (simp_all only: message_nth)
  define c1 where "c1 = (next_seq c)\<lparr>usb := (d, rdr_frame 0x80 (frame ! 5) (bSeq c) 0 0 0 blk)\<rparr>"
  have w: "WriteUSB ?lib frame (next_seq c) = (STATUS_SUCCESS, c1)"
    using assms(7) by (simp add: WriteUSB_def card_reader_def c1_def f10)
  then have tr: "CCID_Transmit ?lib slen (Some sdata) 0 0 c = Some (IFD_SUCCESS, c1)"
    using transmit_frame [of c slen sdata ?lib 0 0] i(1) assms(5,6) by (simp add: Let_def frame_def)
  have r: "usb_bulk_read ?lib 272 (readTimeout c1 * 1000) (usb c1) = (Inr (rdr_frame 0x80 (frame ! 5) (bSeq c) 0 0 0 blk), usb c1)"
    by (simp add: card_reader_def c1_def)
  have re: "CCID_Receive ?lib 259 (Some sdata) c1 = Some (IFD_SUCCESS, word_of_nat (length blk), Some (store 0 blk sdata), Some 0, c1\<lparr>usb := usb c1\<rparr>)"
    by (rule receive_frame [OF r]) (use lb' i assms(5) in \<open>simp_all add: c1_def\<close>)
  have n: "sint (word_of_nat (length blk) :: DWORD) = int (length blk)"
    using lb' sint_small [of "word_of_nat (length blk)"] unat_small [of "length blk"] by simp
  have b2: "store 0 blk sdata ! 2 = word_of_nat (length data)"
    using nth_store [of 0 blk sdata 2] lb lb' assms(5) by (simp add: assms(8) block_bytes_nth)
  have u2: "unat (store 0 blk sdata ! 2) = length data" unfolding b2 using assms(9) by (simp add: unat_of_nat)
  have wtx: "t'\<lparr>t1_wtx := 0\<rparr> = t'" using assms(4) by (metis t1_state.surjective t1_state.update_convs(7))
  have fin: "t1_xcv_finish (int (length blk)) t' (store 0 blk sdata) (readTimeout c) c1 = (int (length blk), t', store 0 blk sdata, c1\<lparr>readTimeout := readTimeout c\<rparr>)"
    using u2 lb rc by (simp add: t1_xcv_finish_def)
  have "t1_xcv_finish (int (length blk)) (t'\<lparr>t1_wtx := 0\<rparr>) (store 0 blk sdata) (readTimeout c) c1
      = (int (length blk), t', store 0 blk sdata, c1\<lparr>readTimeout := readTimeout c\<rparr>)"
    by (subst wtx) (rule fin)
  then have "t1_xcv ?lib t' sdata slen 259 c = Some (int (length blk), t', store 0 blk sdata, c1\<lparr>readTimeout := readTimeout c\<rparr>)"
    using i(2) tr re n assms(4) by (simp add: t1_xcv_def Let_def)
  moreover have "tpdu_reader (c1\<lparr>readTimeout := readTimeout c\<rparr>)" using i by (simp add: tpdu_reader_def isCharLevel_def c1_def)
  ultimately show ?thesis by (auto simp: c1_def)
qed

text \<open>The protocol state after a reset, with the checksum and the block size of the card set.\<close>

definition fresh_t1 :: "bool \<Rightarrow> DWORD \<Rightarrow> t1_state" where
  "fresh_t1 crc ifsc =
    (let t = snd (t1_set_param sample_t1 (if crc then IFD_PROTOCOL_T1_CHECKSUM_CRC else IFD_PROTOCOL_T1_CHECKSUM_LRC) 0) in
     snd (t1_set_param t IFD_PROTOCOL_T1_IFSC (uint ifsc)))"

lemma fresh_t1_simps [simp]: "t1_ok (fresh_t1 crc ifsc)" "t1_ifsc (fresh_t1 crc ifsc) = ifsc" "t1_wtx (fresh_t1 crc ifsc) = 0"
  "t1_st (fresh_t1 crc ifsc) = SENDING" "t1_ns (fresh_t1 crc ifsc) = 0" "t1_nr (fresh_t1 crc ifsc) = 0"
  by (auto simp: fresh_t1_def t1_set_param_def t1_set_checksum_def t1_ok_def Let_def sample_t1_simps)

definition block_size :: "nat \<Rightarrow> nat" where
  "block_size k = max 1 (min k 254)"

interpretation usb_card: t1_link "card_reader (fresh_t1 crc ifsc) (block_size k) f" tpdu_reader fst "fresh_t1 crc ifsc" "block_size k" f
  for crc ifsc k f
  by unfold_locales (auto simp: block_size_def intro: card_exchange)

text \<open>The state between two commands of the driver and the card in the reader.\<close>

definition in_step :: "bool \<Rightarrow> DWORD \<Rightarrow> t1_state \<Rightarrow> (card \<times> UCHAR list) ccid \<Rightarrow> bool" where
  "in_step crc ifsc t0 c \<longleftrightarrow> tpdu_reader c \<and> t1_ok t0 \<and> same_checksum (fresh_t1 crc ifsc) t0 \<and> t1_ifsc t0 = ifsc \<and> t1_wtx t0 = 0
    \<and> t1_st t0 \<noteq> DEAD \<and> synced (fst (usb c)) t0 \<and> k_cmd (fst (usb c)) = []"

text \<open>C3: A command sent over T=1 gets its response. For every card that follows the protocol without errors, whatever it
  computes (\<open>f\<close>) and in blocks of whatever size \<open>k\<close> it answers, for both checksums and every block size \<open>ifsc\<close> of the card,
  \<^verbatim>\<open>t1_transceive\<close> returns: it delivers the whole command to the card, its result is the length of the response, the buffer
  of the caller starts with the response, and reader and card are ready for the next command.\<close>

theorem t1_transceive_answers:
  assumes "in_step crc ifsc t0 c" and "0 < k" and "k \<le> 254" and "0 < unat ifsc" and "unat ifsc \<le> 254"
    and "cmd \<noteq> []" and "length cmd < 2 ^ 32" and "unat rcv_len \<le> length rcv" and "length (f cmd) \<le> unat rcv_len" and "length (f cmd) < 2 ^ 31"
  shows "\<exists>t' rcv' c'. t1_transceive (card_reader (fresh_t1 crc ifsc) k f) t0 0 cmd rcv rcv_len c = Some (int (length (f cmd)), t', rcv', c')
    \<and> take (length (f cmd)) rcv' = f cmd \<and> length rcv' = length rcv \<and> in_step crc ifsc t' c'"
proof -
  have k: "block_size k = k" using assms(2,3) by (simp add: block_size_def)
  have l: "usb_card.linked crc ifsc t c = in_step crc ifsc t c" for t c
    by (simp add: usb_card.linked_def in_step_def)
  from usb_card.transceive_answers [of crc ifsc t0 c cmd rcv_len rcv f k] assms(1,4-10) show ?thesis by (simp add: k l)
qed

text \<open>A card that answers every command with its bytes in reverse order and 90 00, in blocks of three bytes, and a command of five
  bytes that is sent in blocks of two.\<close>

definition sample_ccid :: "'u \<Rightarrow> 'u ccid" where
  "sample_ccid u = \<lparr>bSeq = 0, readerID = 0x08E63437, dwMaxCCIDMessageLength = 271, dwMaxIFSD = 254, dwFeatures = 0x10230, bPINSupport = 0,
     wLcdLayout = 0, dwDefaultClock = 4000, dwMaxDataRate = 344086, bMaxSlotIndex = 0, bCurrentSlotIndex = 0,
     arrayOfSupportedDataRates = None, readTimeout = 2,
     ccid_cardProtocol = 2, bInterfaceProtocol = 0, bNumEndpoints = 3, dwSlotStatus = 0, bVoltageSupport = 7,
     uninit = (\<lambda>i. 0xAA), usb = u\<rparr>"

theorem t1_transceive_answers_witness:
  "\<exists>t' rcv' c'. t1_transceive (card_reader (fresh_t1 True 2) 3 (\<lambda>cmd. rev cmd @ [0x90, 0])) (fresh_t1 True 2) 0 [0, 0xA4, 0, 1, 2] (replicate 16 0) 16
      (sample_ccid (\<lparr>k_cmd = [], k_vr = 0, k_vs = 0, k_resp = []\<rparr>, [])) = Some (7, t', rcv', c')
    \<and> take 7 rcv' = [2, 1, 0, 0xA4, 0, 0x90, 0]"
proof -
  let ?c = "sample_ccid (\<lparr>k_cmd = [], k_vr = 0, k_vs = 0, k_resp = []\<rparr>, []) :: (card \<times> UCHAR list) ccid"
  have "in_step True 2 (fresh_t1 True 2) ?c"
    by (simp add: in_step_def same_checksum_def synced_def tpdu_reader_def isCharLevel_def sample_ccid_def)
  from t1_transceive_answers [OF this, of 3 "[0, 0xA4, 0, 1, 2]" 16 "replicate 16 0" "\<lambda>cmd. rev cmd @ [0x90, 0]"]
  obtain t' rcv' c' where r: "t1_transceive (card_reader (fresh_t1 True 2) 3 (\<lambda>cmd. rev cmd @ [0x90, 0])) (fresh_t1 True 2) 0 [0, 0xA4, 0, 1, 2]
      (replicate 16 0) 16 ?c = Some (7, t', rcv', c')"
    and x: "take (Suc (Suc (Suc (Suc (Suc (Suc (Suc 0))))))) rcv' = [2, 1, 0, 0xA4, 0, 0x90, 0]" by auto
  have "(7 :: nat) = Suc (Suc (Suc (Suc (Suc (Suc (Suc 0))))))" by simp
  with x have "take 7 rcv' = [2, 1, 0, 0xA4, 0, 0x90, 0]" by (simp only:)
  with r show ?thesis by blast
qed

end
