(* ===== verification/Token_Factory.thy ===== *)
theory Token_Factory
  imports Clnt Ccid_Device
begin

section \<open>Services for tokens (libmusclecard: mscdefines.h, musclecard.h, tokenfactory.c)\<close>

text \<open>
  The MUSCLE card library offers objects, keys and PINs on cards. A service for a card is a shared library, found by the ATR in the files Info.plist of a
  directory. The library is linked with the client library of theory \<open>Clnt\<close>: the functions of a service and of the library work on its state \<open>'s clnt\<close>.

  What lies outside of the sources is the record \<open>'s msc_env\<close>: the directory of services, the dynamic linker and the functions of a service.
  A pointer to such a function is the handle of the service it belongs to, \<open>None\<close> is NULL; a call through a pointer into a service that is not loaded has no
  result. Strings have no terminating null byte, a null pointer is \<open>None\<close>. \<^verbatim>\<open>MSC_RV\<close> is \<open>LONG\<close>.
\<close>

abbreviation (input) SCARD_E_CARD_UNSUPPORTED :: LONG where "SCARD_E_CARD_UNSUPPORTED \<equiv> 0x8010001C"
abbreviation (input) SCARD_E_UNKNOWN_CARD :: LONG where "SCARD_E_UNKNOWN_CARD \<equiv> 0x8010000D"
abbreviation (input) SCARD_W_UNSUPPORTED_CARD :: LONG where "SCARD_W_UNSUPPORTED_CARD \<equiv> 0x80100065"
abbreviation (input) SCARD_W_INSERTED_CARD :: LONG where "SCARD_W_INSERTED_CARD \<equiv> 0x8010006A"
abbreviation (input) MSC_SUCCESS :: LONG where "MSC_SUCCESS \<equiv> 0x9000"
abbreviation (input) MSC_INCONSISTENT_STATUS :: LONG where "MSC_INCONSISTENT_STATUS \<equiv> 0x9C04"
abbreviation (input) MSC_UNSUPPORTED_FEATURE :: LONG where "MSC_UNSUPPORTED_FEATURE \<equiv> 0x9C05"
abbreviation (input) MSC_OBJECT_NOT_FOUND :: LONG where "MSC_OBJECT_NOT_FOUND \<equiv> 0x9C07"
abbreviation (input) MSC_UNSPECIFIED_ERROR :: LONG where "MSC_UNSPECIFIED_ERROR \<equiv> 0x9C0D"
abbreviation (input) MSC_INVALID_PARAMETER :: LONG where "MSC_INVALID_PARAMETER \<equiv> 0x9C0F"
abbreviation (input) MSC_SEQUENCE_END :: LONG where "MSC_SEQUENCE_END \<equiv> 0x9C12"
abbreviation (input) MSC_INTERNAL_ERROR :: LONG where "MSC_INTERNAL_ERROR \<equiv> 0x9CFF"
abbreviation (input) MSC_CANCELLED :: LONG where "MSC_CANCELLED \<equiv> 0x9C50"
abbreviation (input) MSC_INSUFFICIENT_BUFFER :: LONG where "MSC_INSUFFICIENT_BUFFER \<equiv> 0x9C51"
abbreviation (input) MSC_UNRECOGNIZED_TOKEN :: LONG where "MSC_UNRECOGNIZED_TOKEN \<equiv> 0x9C52"
abbreviation (input) MSC_SERVICE_UNRESPONSIVE :: LONG where "MSC_SERVICE_UNRESPONSIVE \<equiv> 0x9C53"
abbreviation (input) MSC_TIMEOUT_OCCURRED :: LONG where "MSC_TIMEOUT_OCCURRED \<equiv> 0x9C54"
abbreviation (input) MSC_TOKEN_REMOVED :: LONG where "MSC_TOKEN_REMOVED \<equiv> 0x9C55"
abbreviation (input) MSC_TOKEN_RESET :: LONG where "MSC_TOKEN_RESET \<equiv> 0x9C56"
abbreviation (input) MSC_TOKEN_INSERTED :: LONG where "MSC_TOKEN_INSERTED \<equiv> 0x9C57"
abbreviation (input) MSC_INVALID_HANDLE :: LONG where "MSC_INVALID_HANDLE \<equiv> 0x9C59"
abbreviation (input) MSC_SHARING_VIOLATION :: LONG where "MSC_SHARING_VIOLATION \<equiv> 0x9C60"
abbreviation (input) MSC_MAXSIZE_TOKENAME :: nat where "MSC_MAXSIZE_TOKENAME \<equiv> 150"
abbreviation (input) MSC_MAXSIZE_SVCPROV :: nat where "MSC_MAXSIZE_SVCPROV \<equiv> 200"
abbreviation (input) MSC_MAXSIZE_OBJID :: nat where "MSC_MAXSIZE_OBJID \<equiv> 16"
abbreviation (input) MSC_MAXSIZE_AID :: nat where "MSC_MAXSIZE_AID \<equiv> 64"

subsection \<open>Data of the library\<close>

record MSCKeyPolicy =
  cipherMode :: "16 word"
  cipherDirection :: "16 word"

record MSCKeyACL =
  key_readPermission :: "16 word"
  key_writePermission :: "16 word"
  key_usePermission :: "16 word"

record MSCObjectACL =
  readPermission :: "16 word"
  writePermission :: "16 word"
  deletePermission :: "16 word"

record MSCGenKeyParams =
  algoType :: UCHAR
  gen_keySize :: "16 word"
  privateKeyACL :: MSCKeyACL
  publicKeyACL :: MSCKeyACL
  privateKeyPolicy :: MSCKeyPolicy
  publicKeyPolicy :: MSCKeyPolicy
  keyGenOptions :: UCHAR
  pOptParams :: "UCHAR list option"

record MSCKeyInfo =
  keyNum :: UCHAR
  keyType :: UCHAR
  keyPartner :: UCHAR
  keyMapping :: UCHAR
  keySize :: "16 word"
  keyPolicy :: MSCKeyPolicy
  keyACL :: MSCKeyACL

record MSCCryptInit =
  crypt_keyNum :: UCHAR
  crypt_cipherMode :: UCHAR
  crypt_cipherDirection :: UCHAR
  optParams :: "UCHAR list option"

record MSCStatusInfo =
  appVersion :: "16 word"
  swVersion :: "16 word"
  freeMemory :: DWORD
  totalMemory :: DWORD
  usedPINs :: UCHAR
  usedKeys :: UCHAR
  loggedID :: "16 word"

record MSCObjectInfo =
  objectID :: string
  objectSize :: DWORD
  objectACL :: MSCObjectACL

record MSCInitTokenParams =
  transportKey :: "UCHAR list"
  transportBehavior :: UCHAR
  objectMemory :: DWORD
  newTransportKey :: "UCHAR list"
  defaultCHV :: "UCHAR list"
  defaultCHVTries :: UCHAR
  defaultCHVUnblock :: "UCHAR list"
  defaultCHVUnblockTries :: UCHAR
  createObjectACL :: "16 word"
  createKeysACL :: "16 word"
  createPINsACL :: "16 word"
  maxNumberKeys :: UCHAR
  maxNumberPINs :: UCHAR
  maxNumberObjects :: "16 word"

record MSCTokenInfo =
  tokenName :: string
  slotName :: string
  svProvider :: string
  tokenId :: "UCHAR list"
  tokenApp :: "UCHAR list"
  tokenAppLen :: DWORD
  tokenIdLength :: DWORD
  tokenState :: DWORD
  tokenType :: DWORD
  addParams :: "UCHAR list option"
  addParamsSize :: DWORD

text \<open>The function pointers of \<^verbatim>\<open>CFDyLibPointers\<close>.\<close>

datatype msc_function = WriteFramework | InitializePlugin | IdentifyToken | FinalizePlugin | GetStatus | GetCapabilities | ExtendedFeature
  | GenerateKeys | ImportKey | ExportKey | ComputeCrypt | ExtAuthenticate | ListKeys | CreatePIN | VerifyPIN | ChangePIN | UnblockPIN | ListPINs
  | CreateObject | DeleteObject | WriteObject | ReadObject | ListObjects | LogoutAll | GetChallenge

datatype io_type = PCI_T0 | PCI_T1 | PCI_RAW

text \<open>The fields for message authentication and the registered callback are never used.\<close>

record MSCTokenConnection =
  mc_hContext :: SCARDCONTEXT
  mc_hCard :: SCARDHANDLE
  mc_ioType :: io_type
  tokenLibHandle :: "nat option"
  libPointers :: "msc_function \<Rightarrow> nat option"
  mc_tokenInfo :: MSCTokenInfo
  mc_shareMode :: DWORD

text \<open>The functions of a service: they get the connection and what the library hands over, and may change the connection and the world. What a pointer for
  results points to is handed over with its old contents, and the second result is what it points to afterwards: a list keeps its length, since the function
  has no result (\<open>None\<close>) when it writes beyond the end. Structures with an array and its length have a list.\<close>

type_synonym ('s, 'a) plugin_call = "MSCTokenConnection \<Rightarrow> 's clnt \<Rightarrow> (LONG \<times> 'a \<times> MSCTokenConnection \<times> 's clnt) option"

record 's plugin =
  PL_MSCWriteFramework :: "MSCInitTokenParams \<Rightarrow> ('s, unit) plugin_call"
  PL_MSCInitializePlugin :: "('s, unit) plugin_call"
  PL_MSCIdentifyToken :: "('s, unit) plugin_call"
  PL_MSCFinalizePlugin :: "('s, unit) plugin_call"
  PL_MSCGetStatus :: "MSCStatusInfo \<Rightarrow> ('s, MSCStatusInfo) plugin_call"
  PL_MSCGetCapabilities :: "DWORD \<Rightarrow> UCHAR list \<Rightarrow> DWORD \<Rightarrow> ('s, UCHAR list \<times> DWORD) plugin_call"
  PL_MSCExtendedFeature :: "DWORD \<Rightarrow> UCHAR list \<Rightarrow> DWORD \<Rightarrow> UCHAR list \<Rightarrow> DWORD \<Rightarrow> ('s, UCHAR list \<times> DWORD) plugin_call"
  PL_MSCGenerateKeys :: "UCHAR \<Rightarrow> UCHAR \<Rightarrow> MSCGenKeyParams \<Rightarrow> ('s, unit) plugin_call"
  PL_MSCImportKey :: "UCHAR \<Rightarrow> MSCKeyACL \<Rightarrow> UCHAR list \<Rightarrow> DWORD \<Rightarrow> MSCKeyPolicy \<Rightarrow> UCHAR list option \<Rightarrow> UCHAR \<Rightarrow> ('s, unit) plugin_call"
  PL_MSCExportKey :: "UCHAR \<Rightarrow> UCHAR list \<Rightarrow> DWORD \<Rightarrow> UCHAR list option \<Rightarrow> UCHAR \<Rightarrow> ('s, UCHAR list \<times> DWORD) plugin_call"
  PL_MSCComputeCrypt :: "MSCCryptInit \<Rightarrow> UCHAR list \<Rightarrow> DWORD \<Rightarrow> UCHAR list \<Rightarrow> DWORD \<Rightarrow> ('s, UCHAR list \<times> DWORD) plugin_call"
  PL_MSCExtAuthenticate :: "UCHAR \<Rightarrow> UCHAR \<Rightarrow> UCHAR \<Rightarrow> UCHAR list \<Rightarrow> DWORD \<Rightarrow> ('s, unit) plugin_call"
  PL_MSCListKeys :: "UCHAR \<Rightarrow> MSCKeyInfo \<Rightarrow> ('s, MSCKeyInfo) plugin_call"
  PL_MSCCreatePIN :: "UCHAR \<Rightarrow> UCHAR \<Rightarrow> UCHAR list \<Rightarrow> DWORD \<Rightarrow> UCHAR list \<Rightarrow> UCHAR \<Rightarrow> ('s, unit) plugin_call"
  PL_MSCVerifyPIN :: "UCHAR \<Rightarrow> UCHAR list \<Rightarrow> DWORD \<Rightarrow> ('s, unit) plugin_call"
  PL_MSCChangePIN :: "UCHAR \<Rightarrow> UCHAR list \<Rightarrow> UCHAR \<Rightarrow> UCHAR list \<Rightarrow> UCHAR \<Rightarrow> ('s, unit) plugin_call"
  PL_MSCUnblockPIN :: "UCHAR \<Rightarrow> UCHAR list \<Rightarrow> DWORD \<Rightarrow> ('s, unit) plugin_call"
  PL_MSCListPINs :: "16 word \<Rightarrow> ('s, 16 word) plugin_call"
  PL_MSCCreateObject :: "string \<Rightarrow> DWORD \<Rightarrow> MSCObjectACL \<Rightarrow> ('s, unit) plugin_call"
  PL_MSCDeleteObject :: "string \<Rightarrow> UCHAR \<Rightarrow> ('s, unit) plugin_call"
  PL_MSCWriteObject :: "string \<Rightarrow> DWORD \<Rightarrow> UCHAR list \<Rightarrow> UCHAR \<Rightarrow> ('s, unit) plugin_call"
  PL_MSCReadObject :: "string \<Rightarrow> DWORD \<Rightarrow> UCHAR list \<Rightarrow> UCHAR \<Rightarrow> ('s, UCHAR list) plugin_call"
  PL_MSCListObjects :: "UCHAR \<Rightarrow> MSCObjectInfo \<Rightarrow> ('s, MSCObjectInfo) plugin_call"
  PL_MSCLogoutAll :: "('s, unit) plugin_call"
  PL_MSCGetChallenge :: "UCHAR list \<Rightarrow> 16 word \<Rightarrow> UCHAR list \<Rightarrow> 16 word \<Rightarrow> ('s, UCHAR list) plugin_call"

text \<open>\<open>services\<close> is the directory (\<open>None\<close>: it cannot be opened): names with the contents of Info.plist. \<open>dl_open\<close>, \<open>dl_close\<close> and \<open>dl_sym\<close> are
  the dynamic linker; \<open>msc_uninit\<close> and \<open>msc_fresh\<close> are what local variables contain.\<close>

record 's msc_env =
  msc_pcsc :: "'s clnt_system"
  dropdir :: string
  msc_arch :: string
  services :: "'s clnt \<Rightarrow> (string \<times> plist) list option"
  dl_open :: "string \<Rightarrow> 's clnt \<Rightarrow> nat option \<times> 's clnt"
  dl_close :: "nat \<Rightarrow> 's clnt \<Rightarrow> bool \<times> 's clnt"
  dl_loaded :: "nat \<Rightarrow> 's clnt \<Rightarrow> bool"
  dl_sym :: "nat \<Rightarrow> msc_function \<Rightarrow> bool"
  service :: "nat \<Rightarrow> 's plugin"
  msc_uninit :: MSCTokenInfo
  msc_uninit_key :: MSCKeyInfo
  msc_uninit_object :: MSCObjectInfo
  msc_fresh :: "nat \<Rightarrow> UCHAR"
  msc_cancelling :: "'s \<Rightarrow> bool"
  SYS_ThreadCreate :: "'s \<Rightarrow> int"
  token_bytes :: "MSCTokenInfo \<Rightarrow> UCHAR list"

definition memcpy :: "nat \<Rightarrow> 'a list \<Rightarrow> 'a list \<Rightarrow> 'a list option" where
  "memcpy n source target = (if n \<le> length source \<and> n \<le> length target then Some (take n source @ drop n target) else None)"

definition c_string :: "string \<Rightarrow> string option" where
  "c_string s = (if CHR 0x00 \<in> set s then Some (takeWhile (\<lambda>c. c \<noteq> CHR 0x00) s) else None)"

definition strlcpy :: "nat \<Rightarrow> string \<Rightarrow> string" where
  "strlcpy n s = take (n - 1) s"

subsection \<open>Names and ATRs (tokenfactory.c)\<close>

definition atr_digit :: "UCHAR \<Rightarrow> char" where
  "atr_digit n = (if n > 9 then char_of (unat n - 10 + 65) else char_of (unat n + 48))"

definition atrToString :: "UCHAR list \<Rightarrow> string" where
  "atrToString Atr = concat (map (\<lambda>b. [atr_digit (b div 16), atr_digit (b mod 16)]) Atr)"

definition hex_value :: "char \<Rightarrow> UCHAR option" where
  "hex_value c =
    (let n = (of_char c :: nat) in
     if 48 \<le> n \<and> n \<le> 57 then Some (word_of_nat (n - 48)) else if 65 \<le> n \<and> n \<le> 70 then Some (word_of_nat (n - 65 + 10)) else None)"

text \<open>One byte of the buffer: a character that is no digit changes nothing.\<close>

definition hex_byte :: "char \<Rightarrow> char \<Rightarrow> UCHAR \<Rightarrow> UCHAR" where
  "hex_byte a b old =
    (let high = (case hex_value a of Some v \<Rightarrow> v * 16 | None \<Rightarrow> old) in (case hex_value b of Some v \<Rightarrow> high + v | None \<Rightarrow> high))"

text \<open>The second character of an odd string is its terminator.\<close>

fun hex_bytes :: "string \<Rightarrow> UCHAR list \<Rightarrow> UCHAR list" where
  "hex_bytes (a # b # s) (x # xs) = hex_byte a b x # hex_bytes s xs"
| "hex_bytes [a] (x # xs) = hex_byte a (CHR 0x00) x # xs"
| "hex_bytes _ xs = xs"

definition stringToBytes :: "string \<Rightarrow> UCHAR list \<Rightarrow> (UCHAR list \<times> nat) option" where
  "stringToBytes s buffer = (if MSC_MAXSIZE_AID < length s then None else Some (hex_bytes s buffer, (length s + 1) div 2))"

subsection \<open>Looking for the service of a card\<close>

text \<open>A value of the special or the first entry.\<close>

definition bundle_value :: "plist \<Rightarrow> string \<Rightarrow> nat \<Rightarrow> string option" where
  "bundle_value info key i = (case LTPBundleFindValueWithKey info key (int i) of Some v \<Rightarrow> Some v | None \<Rightarrow> LTPBundleFindValueWithKey info key 0)"

text \<open>The bundle whose alias \<open>i\<close> matches: the result of the search and the description of the token, \<open>None\<close> when a path is too long for its array.\<close>

definition use_bundle :: "'s msc_env \<Rightarrow> string \<Rightarrow> plist \<Rightarrow> nat \<Rightarrow> MSCTokenInfo \<Rightarrow> (LONG \<times> MSCTokenInfo) option" where
  "use_bundle env name info i t =
    (case bundle_value info ''spProductName'' i of
       None \<Rightarrow> Some (-1, t)
     | Some product \<Rightarrow>
        let t1 = t\<lparr>tokenName := strlcpy MSC_MAXSIZE_TOKENAME product\<rparr> in
        (case bundle_value info ''CFBundleExecutable'' i of
           None \<Rightarrow> Some (-1, t1)
         | Some executable \<Rightarrow>
            let path = dropdir env @ ''/'' @ name @ ''/Contents/'' @ msc_arch env @ ''/'' @ executable;
                t2 = t1\<lparr>svProvider := strlcpy MSC_MAXSIZE_SVCPROV path\<rparr> in
            if 250 \<le> length path then None
            else (case bundle_value info ''spDefaultApplication'' i of
                None \<Rightarrow> Some (0, t2\<lparr>tokenAppLen := 0\<rparr>)
              | Some aid \<Rightarrow>
                 (case stringToBytes aid (tokenApp t2) of
                    None \<Rightarrow> Some (-1, t2)
                  | Some (app, n) \<Rightarrow> Some (0, t2\<lparr>tokenApp := app, tokenAppLen := word_of_nat n\<rparr>)))))"

fun search_bundles :: "'s msc_env \<Rightarrow> string \<Rightarrow> (string \<times> plist) list \<Rightarrow> MSCTokenInfo \<Rightarrow> (LONG \<times> MSCTokenInfo) option" where
  "search_bundles env atr [] t = Some (-1, t)"
| "search_bundles env atr ((name, info) # rest) t =
    (if strstr ''.bundle'' name = None then search_bundles env atr rest t
     else if 200 \<le> length (dropdir env @ ''/'' @ name @ ''/Contents/Info.plist'') then None
     else (case first_index (\<lambda>v. v = atr) (info ''spAtrValue'') of
         None \<Rightarrow> search_bundles env atr rest t
       | Some i \<Rightarrow> use_bundle env name info i t))"

definition TPSearchBundlesForAtr :: "'s msc_env \<Rightarrow> UCHAR list \<Rightarrow> DWORD \<Rightarrow> MSCTokenInfo \<Rightarrow> 's clnt \<Rightarrow> (LONG \<times> MSCTokenInfo) option" where
  "TPSearchBundlesForAtr env Atr len t c =
    (if MAX_ATR_SIZE < unat len \<or> length Atr < unat len then None
     else (case services env c of None \<Rightarrow> Some (-1, t) | Some bundles \<Rightarrow> search_bundles env (atrToString (take (unat len) Atr)) bundles t))"

subsection \<open>Loading a service\<close>

text \<open>\<^verbatim>\<open>pvfIdentifyToken\<close> is missing in the list of pointers that are cleared.\<close>

definition clear_pointers :: "MSCTokenConnection \<Rightarrow> MSCTokenConnection" where
  "clear_pointers k = k\<lparr>libPointers := \<lambda>f. if f = IdentifyToken then libPointers k f else None\<rparr>"

text \<open>The functions in the order in which they are looked up, with whether the service may lack them.\<close>

definition bindings :: "(msc_function \<times> bool) list" where
  "bindings = [(WriteFramework, True), (IdentifyToken, False), (InitializePlugin, False), (FinalizePlugin, False), (GetStatus, False),
     (GetCapabilities, False), (ExtendedFeature, True), (GenerateKeys, False), (ImportKey, False), (ExportKey, False), (ComputeCrypt, False),
     (ExtAuthenticate, False), (ListKeys, False), (CreatePIN, False), (VerifyPIN, False), (ChangePIN, False), (UnblockPIN, False), (ListPINs, False),
     (CreateObject, False), (DeleteObject, False), (WriteObject, False), (ReadObject, False), (ListObjects, False), (LogoutAll, False), (GetChallenge, False)]"

fun bind_functions :: "(msc_function \<Rightarrow> bool) \<Rightarrow> nat \<Rightarrow> (msc_function \<times> bool) list \<Rightarrow> MSCTokenConnection \<Rightarrow> LONG \<times> MSCTokenConnection" where
  "bind_functions resolves lib [] k = (SCARD_S_SUCCESS, k)"
| "bind_functions resolves lib ((f, optional) # fs) k =
    (let k1 = k\<lparr>libPointers := (libPointers k)(f := if resolves f then Some lib else None)\<rparr> in
     if resolves f \<or> optional then bind_functions resolves lib fs k1 else (SCARD_F_INTERNAL_ERROR, k1))"

definition TPBindFunctions :: "'s msc_env \<Rightarrow> MSCTokenConnection \<Rightarrow> LONG \<times> MSCTokenConnection" where
  "TPBindFunctions env k =
    (case tokenLibHandle k of None \<Rightarrow> (SCARD_E_INVALID_TARGET, k) | Some lib \<Rightarrow> bind_functions (dl_sym env lib) lib bindings k)"

definition TPUnbindFunctions :: "MSCTokenConnection \<Rightarrow> LONG \<times> MSCTokenConnection" where
  "TPUnbindFunctions k = (SCARD_S_SUCCESS, clear_pointers k)"

definition TPLoadToken :: "'s msc_env \<Rightarrow> MSCTokenConnection \<Rightarrow> 's clnt \<Rightarrow> (LONG \<times> MSCTokenConnection \<times> 's clnt) option" where
  "TPLoadToken env k c = do {
     let k0 = clear_pointers k;
     (rv, t) \<leftarrow> TPSearchBundlesForAtr env (tokenId (mc_tokenInfo k0)) (tokenIdLength (mc_tokenInfo k0)) (mc_tokenInfo k0) c;
     let k1 = k0\<lparr>mc_tokenInfo := t\<rparr>;
     if rv \<noteq> 0 then Some (SCARD_E_CARD_UNSUPPORTED, k1, c)
     else
       let (lib, c1) = dl_open env (svProvider t) c; k2 = k1\<lparr>tokenLibHandle := lib\<rparr> in
       if lib = None then Some (SCARD_E_INVALID_TARGET, k2, c1)
       else let (rv, k3) = TPBindFunctions env k2 in Some (rv, k3, c1)
   }"

definition TPUnloadToken :: "'s msc_env \<Rightarrow> MSCTokenConnection \<Rightarrow> 's clnt \<Rightarrow> LONG \<times> MSCTokenConnection \<times> 's clnt" where
  "TPUnloadToken env k c =
    (case tokenLibHandle k of
       None \<Rightarrow> (SCARD_E_INVALID_VALUE, k, c)
     | Some lib \<Rightarrow>
        let (ok, c1) = dl_close env lib c; k1 = k\<lparr>tokenLibHandle := None\<rparr> in
        if \<not> ok then (SCARD_F_UNKNOWN_ERROR, k1, c1) else let (rv, k2) = TPUnbindFunctions k1 in (rv, k2, c1))"

end
