(* ===== verification/Musclecard.thy ===== *)
theory Musclecard
  imports Token_Factory
begin

section \<open>The MUSCLE card library (libmusclecard: musclecard.c)\<close>

text \<open>
  The interface for applications: tokens (cards with a service) are listed and waited for, a connection is opened to one, and the calls for objects, keys
  and PINs go to the functions of its service. The state has the static variables with the state of the client library, whose calls are those of
  theory \<open>Clnt\<close>. A pointer argument that the code tests for NULL is an option. The log messages are left out.
\<close>

abbreviation (input) MSC_NO_MEMORY_LEFT :: LONG where "MSC_NO_MEMORY_LEFT \<equiv> 0x9C01"
abbreviation (input) MSC_TOKEN_EMPTY_STR :: string where "MSC_TOKEN_EMPTY_STR \<equiv> ''Token Removed''"
abbreviation (input) MSC_TOKEN_UNKNOWN_STR :: string where "MSC_TOKEN_UNKNOWN_STR \<equiv> ''Token Unknown''"
abbreviation (input) MSC_TOKEN_TYPE_REMOVED :: DWORD where "MSC_TOKEN_TYPE_REMOVED \<equiv> 1"
abbreviation (input) MSC_TOKEN_TYPE_UNKNOWN :: DWORD where "MSC_TOKEN_TYPE_UNKNOWN \<equiv> 2"
abbreviation (input) MSC_TOKEN_TYPE_KNOWN :: DWORD where "MSC_TOKEN_TYPE_KNOWN \<equiv> 4"
abbreviation (input) MSC_TOKEN_TYPE_RESET :: DWORD where "MSC_TOKEN_TYPE_RESET \<equiv> 8"
abbreviation (input) MSC_LIST_KNOWN :: DWORD where "MSC_LIST_KNOWN \<equiv> 1"
abbreviation (input) MSC_LIST_SLOTS :: DWORD where "MSC_LIST_SLOTS \<equiv> 2"
abbreviation (input) MSC_LIST_ALL :: DWORD where "MSC_LIST_ALL \<equiv> 3"
abbreviation (input) MSC_STATE_UNAWARE :: DWORD where "MSC_STATE_UNAWARE \<equiv> 0x4000"
abbreviation (input) MSC_MAXSIZE_TOKENARRAY :: nat where "MSC_MAXSIZE_TOKENARRAY \<equiv> 255"
abbreviation (input) MSC_SIZEOF_KEYPACKET :: nat where "MSC_SIZEOF_KEYPACKET \<equiv> 200"
abbreviation (input) MSC_PERCENT_STEPSIZE :: int where "MSC_PERCENT_STEPSIZE \<equiv> 1000"
abbreviation (input) MSC_BLOCKSTATUS_RESUME :: DWORD where "MSC_BLOCKSTATUS_RESUME \<equiv> 0"
abbreviation (input) MSC_BLOCKSTATUS_BLOCKING :: DWORD where "MSC_BLOCKSTATUS_BLOCKING \<equiv> 1"
abbreviation (input) MSC_BLOCKSTATUS_CANCELLING :: DWORD where "MSC_BLOCKSTATUS_CANCELLING \<equiv> 2"
abbreviation (input) MSC_SEQUENCE_RESET :: UCHAR where "MSC_SEQUENCE_RESET \<equiv> 0"
abbreviation (input) MSC_SEQUENCE_NEXT :: UCHAR where "MSC_SEQUENCE_NEXT \<equiv> 1"

record 's msc =
  localHContext :: SCARDCONTEXT
  blockingContext :: DWORD
  pcsc_client :: "'s clnt"

definition pcscToMSC :: "LONG \<Rightarrow> LONG" where
  "pcscToMSC rv =
    (if rv = SCARD_S_SUCCESS then MSC_SUCCESS
     else if rv = SCARD_E_INVALID_HANDLE then MSC_INVALID_HANDLE
     else if rv = SCARD_E_SHARING_VIOLATION then MSC_SHARING_VIOLATION
     else if rv = SCARD_W_REMOVED_CARD \<or> rv = SCARD_E_NO_SMARTCARD then MSC_TOKEN_REMOVED
     else if rv = SCARD_W_RESET_CARD then MSC_TOKEN_RESET
     else if rv = SCARD_W_INSERTED_CARD then MSC_TOKEN_INSERTED
     else if rv = SCARD_E_NO_SERVICE then MSC_SERVICE_UNRESPONSIVE
     else if rv \<in> {SCARD_E_UNKNOWN_CARD, SCARD_W_UNSUPPORTED_CARD, SCARD_E_CARD_UNSUPPORTED} then MSC_UNRECOGNIZED_TOKEN
     else if rv \<in> {SCARD_E_INVALID_PARAMETER, SCARD_E_INVALID_VALUE, SCARD_E_UNKNOWN_READER, SCARD_E_PROTO_MISMATCH, SCARD_E_READER_UNAVAILABLE}
     then MSC_INVALID_PARAMETER
     else if rv = SCARD_E_CANCELLED then MSC_CANCELLED
     else if rv = SCARD_E_TIMEOUT then MSC_TIMEOUT_OCCURRED
     else MSC_INTERNAL_ERROR)"

text \<open>A call of the client library that returns a code only.\<close>

definition on_client :: "('s clnt \<Rightarrow> (LONG \<times> 's clnt) option) \<Rightarrow> 's msc \<Rightarrow> (LONG \<times> 's msc) option" where
  "on_client f s = map_option (\<lambda>(rv, c). (rv, s\<lparr>pcsc_client := c\<rparr>)) (f (pcsc_client s))"

text \<open>The destructor of the library.\<close>

definition musclecard_fini :: "'s msc_env \<Rightarrow> 's msc \<Rightarrow> 's msc option" where
  "musclecard_fini env s =
    (if localHContext s \<noteq> 0
     then map_option (\<lambda>(rv, s1). s1\<lparr>localHContext := 0\<rparr>) (on_client (SCardReleaseContext_clnt (msc_pcsc env) (localHContext s)) s)
     else Some s)"

text \<open>The context is opened by the first call that needs it.\<close>

definition ensure_context :: "'s msc_env \<Rightarrow> 's msc \<Rightarrow> (LONG \<times> 's msc) option" where
  "ensure_context env s =
    (if localHContext s \<noteq> 0 then Some (MSC_SUCCESS, s)
     else map_option
       (\<lambda>(rv, h, c). (pcscToMSC rv, s\<lparr>localHContext := if pcscToMSC rv \<noteq> MSC_SUCCESS then 0 else h, pcsc_client := c\<rparr>))
       (SCardEstablishContext_clnt (msc_pcsc env) SCARD_SCOPE_SYSTEM True (pcsc_client s)))"

subsection \<open>Listing the tokens\<close>

text \<open>What the loop of \<^verbatim>\<open>MSCListTokens\<close> works on: the structure for the reader, the local description, the number of tokens and the array.\<close>

record token_scan =
  scan_reader :: READERSTATE
  scan_info :: MSCTokenInfo
  tokensFound :: DWORD
  scan_array :: "MSCTokenInfo list option"

text \<open>One element of the array; \<open>rv\<close> is the result of the last call.\<close>

definition token_name :: "READERSTATE \<Rightarrow> LONG \<Rightarrow> MSCTokenInfo \<Rightarrow> MSCTokenInfo \<Rightarrow> MSCTokenInfo" where
  "token_name r rv info t =
    (let t1 = t\<lparr>addParams := None, addParamsSize := 0\<rparr>; named = (\<lambda>ty nm. t1\<lparr>tokenType := ty, tokenName := strlcpy MSC_MAXSIZE_TOKENAME nm\<rparr>) in
     if flag (dwEventState r) SCARD_STATE_EMPTY then named MSC_TOKEN_TYPE_REMOVED MSC_TOKEN_EMPTY_STR
     else if rv = 0 then named MSC_TOKEN_TYPE_KNOWN (tokenName info)
     else named MSC_TOKEN_TYPE_UNKNOWN MSC_TOKEN_UNKNOWN_STR)"

definition token_entry :: "READERSTATE \<Rightarrow> string \<Rightarrow> LONG \<Rightarrow> MSCTokenInfo \<Rightarrow> MSCTokenInfo \<Rightarrow> MSCTokenInfo option" where
  "token_entry r name rv info t =
    (let t1 = (token_name r rv info t)\<lparr>slotName := strlcpy MAX_READERNAME name\<rparr> in
     if flag (dwEventState r) SCARD_STATE_PRESENT then do {
       ident \<leftarrow> memcpy (unat (cbAtr r)) (rgbAtr r) (tokenId t1);
       let t2 = t1\<lparr>tokenId := ident, tokenIdLength := cbAtr r\<rparr>;
       t3 \<leftarrow> (if rv = -1 then Some t2
         else map_option (\<lambda>app. t2\<lparr>tokenApp := app, tokenAppLen := tokenAppLen info\<rparr>) (memcpy (unat (tokenAppLen info)) (tokenApp info) (tokenApp t2)));
       Some (t3\<lparr>svProvider := strlcpy MSC_MAXSIZE_SVCPROV (svProvider info), tokenState := dwEventState r\<rparr>)
     } else Some (t1\<lparr>tokenId := replicate MAX_ATR_SIZE 0, tokenIdLength := 0, tokenApp := replicate MSC_MAXSIZE_AID 0, tokenAppLen := 0,
         svProvider := [], tokenState := dwEventState r\<rparr>))"

definition add_token :: "string \<Rightarrow> LONG \<Rightarrow> DWORD \<Rightarrow> token_scan \<Rightarrow> token_scan option" where
  "add_token name rv len k =
    (let n = tokensFound k + 1; k1 = k\<lparr>tokensFound := n\<rparr> in
     (case scan_array k of
        None \<Rightarrow> Some k1
      | Some ts \<Rightarrow>
         if len < n then Some k1
         else if length ts \<le> unat (n - 1) then None
         else map_option (\<lambda>t. k1\<lparr>scan_array := Some (ts[unat (n - 1) := t])\<rparr>)
           (token_entry (scan_reader k) name rv (scan_info k) (ts ! unat (n - 1)))))"

text \<open>One turn of the loop: the reader \<open>name\<close>.\<close>

definition list_slot :: "'s msc_env \<Rightarrow> DWORD \<Rightarrow> DWORD \<Rightarrow> string \<Rightarrow> token_scan \<Rightarrow> 's msc \<Rightarrow> (LONG \<times> token_scan \<times> 's msc) option" where
  "list_slot env listScope len name k s = do {
     (rv, rs, c) \<leftarrow> SCardGetStatusChange_clnt (msc_pcsc env) (localHContext s) INFINITE
       (Some [(scan_reader k)\<lparr>szReader := Some name, dwCurrentState := SCARD_STATE_UNAWARE\<rparr>]) 1 (pcsc_client s);
     let s1 = s\<lparr>pcsc_client := c\<rparr>;
     let r = hd (the rs);
     let k1 = k\<lparr>scan_reader := r\<rparr>;
     let there = flag (dwEventState r) SCARD_STATE_PRESENT;
     if pcscToMSC rv \<noteq> MSC_SUCCESS then Some (pcscToMSC rv, k1, s1)
     else if \<not> there \<and> listScope \<noteq> MSC_LIST_SLOTS then Some (MSC_SUCCESS, k1, s1)
     else do {
       (rv1, info) \<leftarrow> (if there then TPSearchBundlesForAtr env (rgbAtr r) (cbAtr r) (scan_info k1) c else Some (rv, scan_info k1));
       let k2 = k1\<lparr>scan_info := info\<rparr>;
       k3 \<leftarrow> (if rv1 = 0 \<or> listScope = MSC_LIST_SLOTS \<or> listScope = MSC_LIST_ALL then add_token name rv1 len k2 else Some k2);
       Some (MSC_SUCCESS, k3, s1)
     }
   }"

text \<open>The loop over the multi-string: \<open>n\<close> bytes are left to look at, \<open>rest\<close> is the buffer from the current place on. Reading beyond it has no result.\<close>

partial_function (option) list_slots :: "'s msc_env \<Rightarrow> DWORD \<Rightarrow> DWORD \<Rightarrow> nat \<Rightarrow> string \<Rightarrow> token_scan \<Rightarrow> 's msc \<Rightarrow> (LONG \<times> token_scan \<times> 's msc) option" where
  "list_slots env listScope len n rest k s =
    (if n = 0 then Some (MSC_SUCCESS, k, s)
     else do {
       name \<leftarrow> c_string rest;
       (rv, k1, s1) \<leftarrow> list_slot env listScope len name k s;
       if rv \<noteq> MSC_SUCCESS then Some (rv, k1, s1)
       else do {
         j \<leftarrow> first_index (\<lambda>c. c = CHR 0x00) (tl rest);
         list_slots env listScope len (n - (j + 2)) (drop (j + 2) rest) k1 s1
       }
     })"

text \<open>The result of the second \<^verbatim>\<open>SCardListReaders\<close> is not looked at, the length it stores is used.\<close>

definition MSCListTokens :: "'s msc_env \<Rightarrow> DWORD \<Rightarrow> MSCTokenInfo list option \<Rightarrow> DWORD option \<Rightarrow> 's msc
    \<Rightarrow> (LONG \<times> MSCTokenInfo list option \<times> DWORD option \<times> 's msc) option" where
  "MSCListTokens env listScope tokenArray arrayLength s =
    (case arrayLength of
       None \<Rightarrow> Some (MSC_INVALID_PARAMETER, tokenArray, None, s)
     | Some len \<Rightarrow>
        if listScope \<noteq> MSC_LIST_KNOWN \<and> listScope \<noteq> MSC_LIST_ALL \<and> listScope \<noteq> MSC_LIST_SLOTS then Some (MSC_INVALID_PARAMETER, tokenArray, Some len, s)
        else do {
          (rv, s1) \<leftarrow> ensure_context env s;
          if rv \<noteq> MSC_SUCCESS then Some (rv, tokenArray, Some len, s1)
          else do {
            (rv, b, size1, c) \<leftarrow> SCardListReaders_clnt (msc_pcsc env) (localHContext s1) Null (Some 0) (pcsc_client s1);
            let s2 = s1\<lparr>pcsc_client := c\<rparr>;
            if pcscToMSC rv \<noteq> MSC_SUCCESS then Some (pcscToMSC rv, tokenArray, Some len, s2)
            else (case malloc (msc_pcsc env) (unat (the size1)) (outside c) of
                None \<Rightarrow> Some (MSC_INTERNAL_ERROR, tokenArray, Some len, s2)
              | Some content \<Rightarrow> do {
                  (rv, b, size2, c) \<leftarrow> SCardListReaders_clnt (msc_pcsc env) (localHContext s2)
                    (Mem (map (\<lambda>i. char_of (unat (content i))) [0..<unat (the size1)])) size1 c;
                  buffer \<leftarrow> (case b of Mem bs \<Rightarrow> Some bs | _ \<Rightarrow> None);
                  (rv, k, s3) \<leftarrow> list_slots env listScope len (unat (the size2 - 1)) buffer
                    \<lparr>scan_reader = \<lparr>szReader = None, dwCurrentState = 0, dwEventState = 0, cbAtr = 0, rgbAtr = map (msc_fresh env) [0..<MAX_ATR_SIZE]\<rparr>,
                      scan_info = msc_uninit env, tokensFound = 0, scan_array = tokenArray\<rparr> (s2\<lparr>pcsc_client := c\<rparr>);
                  if rv \<noteq> MSC_SUCCESS then Some (rv, scan_array k, Some len, s3)
                  else Some (if tokenArray \<noteq> None \<and> len < tokensFound k then MSC_INSUFFICIENT_BUFFER else MSC_SUCCESS, scan_array k, Some (tokensFound k), s3)
                })
          }
        })"

subsection \<open>Opening and closing a connection\<close>

text \<open>A call through the pointer to a function of the service \<open>lib\<close>.\<close>

definition invoke :: "'s msc_env \<Rightarrow> nat \<Rightarrow> ('s plugin \<Rightarrow> ('s, 'a) plugin_call) \<Rightarrow> MSCTokenConnection \<Rightarrow> 's msc
    \<Rightarrow> (LONG \<times> 'a \<times> MSCTokenConnection \<times> 's msc) option" where
  "invoke env lib f k s =
    (if \<not> dl_loaded env lib (pcsc_client s) then None
     else map_option (\<lambda>(rv, x, k1, c). (rv, x, k1, s\<lparr>pcsc_client := c\<rparr>)) (f (service env lib) k (pcsc_client s)))"

text \<open>The way out of \<^verbatim>\<open>MSCEstablishConnection\<close> after an error, without and with unloading the service.\<close>

definition drop_card :: "'s msc_env \<Rightarrow> LONG \<Rightarrow> MSCTokenConnection \<Rightarrow> 's msc \<Rightarrow> (LONG \<times> MSCTokenConnection \<times> 's msc) option" where
  "drop_card env rv k s =
    map_option (\<lambda>(_, s1). (rv, k\<lparr>mc_hCard := 0\<rparr>, s1)) (on_client (SCardDisconnect_clnt (msc_pcsc env) (mc_hCard k) SCARD_LEAVE_CARD) s)"

definition drop_service :: "'s msc_env \<Rightarrow> LONG \<Rightarrow> MSCTokenConnection \<Rightarrow> 's msc \<Rightarrow> (LONG \<times> MSCTokenConnection \<times> 's msc) option" where
  "drop_service env rv k s =
    map_option (\<lambda>(_, s1).
        if tokenLibHandle k \<noteq> None then let (_, k1, c) = TPUnloadToken env k (pcsc_client s1) in
          (rv, k1\<lparr>tokenLibHandle := None, mc_hCard := 0\<rparr>, s1\<lparr>pcsc_client := c\<rparr>)
        else (rv, k\<lparr>mc_hCard := 0\<rparr>, s1))
      (on_client (SCardDisconnect_clnt (msc_pcsc env) (mc_hCard k) SCARD_LEAVE_CARD) s)"

text \<open>The part after the service was loaded. \<open>nameSize\<close> is not more than \<^verbatim>\<open>MSC_MAXSIZE_AID\<close>.\<close>

definition start_service :: "'s msc_env \<Rightarrow> DWORD \<Rightarrow> UCHAR list option \<Rightarrow> DWORD \<Rightarrow> MSCTokenConnection \<Rightarrow> 's msc
    \<Rightarrow> (LONG \<times> MSCTokenConnection \<times> 's msc) option" where
  "start_service env sharingMode applicationName nameSize k s =
    (case (libPointers k InitializePlugin, libPointers k IdentifyToken) of
       (Some init, Some ident) \<Rightarrow> do {
         (rv, _, k1, s1) \<leftarrow> invoke env init PL_MSCInitializePlugin k s;
         if rv \<noteq> MSC_SUCCESS then drop_service env rv k1 s1
         else if sharingMode = SCARD_SHARE_DIRECT then Some (MSC_SUCCESS, k1, s1)
         else do {
           k2 \<leftarrow> (case applicationName of
               None \<Rightarrow> Some k1
             | Some name \<Rightarrow>
                if nameSize = 0 then Some k1
                else map_option (\<lambda>app. k1\<lparr>mc_tokenInfo := (mc_tokenInfo k1)\<lparr>tokenAppLen := nameSize, tokenApp := app\<rparr>\<rparr>)
                  (memcpy (unat nameSize) name (tokenApp (mc_tokenInfo k1))));
           (rv, _, k3, s2) \<leftarrow> invoke env ident PL_MSCIdentifyToken k2 s1;
           if rv \<noteq> MSC_SUCCESS then drop_service env (if rv = MSC_SHARING_VIOLATION then rv else MSC_UNRECOGNIZED_TOKEN) k3 s2
           else Some (MSC_SUCCESS, k3, s2)
         }
       }
     | _ \<Rightarrow> drop_card env MSC_UNSUPPORTED_FEATURE k s)"

text \<open>\<^verbatim>\<open>SCardStatus\<close> with local variables for all results.\<close>

definition card_status :: "'s msc_env \<Rightarrow> SCARDHANDLE \<Rightarrow> 's msc \<Rightarrow> (LONG \<times> status_call \<times> 's msc) option" where
  "card_status env h s =
    map_option (\<lambda>(rv, a, c). (rv, a, s\<lparr>pcsc_client := c\<rparr>))
      (SCardStatus_clnt (msc_pcsc env) h
        \<lparr>st_name = Mem (map (\<lambda>i. char_of (unat (msc_fresh env i))) [0..<MAX_READERNAME]), st_nameLen = Some (word_of_nat MAX_READERNAME),
         st_state = Some 0, st_protocol = Some 0, st_atr = Mem (map (msc_fresh env) [0..<MAX_ATR_SIZE]), st_atrLen = Some (word_of_nat MAX_ATR_SIZE)\<rparr>
        (pcsc_client s))"

text \<open>The token is the one that the application has chosen: the same ATR in the same reader.\<close>

definition same_token :: "status_call \<Rightarrow> MSCTokenInfo \<Rightarrow> bool option" where
  "same_token a t =
    (case (st_name a, st_atr a, st_atrLen a) of
       (Mem name, Mem atr, Some len) \<Rightarrow>
         if len \<noteq> tokenIdLength t then Some False
         else do {
           slot \<leftarrow> c_string name;
           if slot \<noteq> slotName t then Some False
           else if length atr < unat len \<or> length (tokenId t) < unat len then None
           else Some (take (unat len) atr = take (unat len) (tokenId t))
         }
     | _ \<Rightarrow> None)"

text \<open>The part after the card was connected: the check of the token, then its service.\<close>

definition attach_token :: "'s msc_env \<Rightarrow> MSCTokenInfo \<Rightarrow> DWORD \<Rightarrow> UCHAR list option \<Rightarrow> DWORD \<Rightarrow> MSCTokenConnection \<Rightarrow> 's msc
    \<Rightarrow> (LONG \<times> MSCTokenConnection \<times> 's msc) option" where
  "attach_token env t sharingMode applicationName nameSize k s = do {
     (rv, a, s1) \<leftarrow> card_status env (mc_hCard k) s;
     if pcscToMSC rv \<noteq> MSC_SUCCESS then drop_card env (pcscToMSC rv) k s1
     else if sharingMode = SCARD_SHARE_DIRECT \<and> flag (the (st_state a)) SCARD_ABSENT then Some (MSC_SUCCESS, k, s1)
     else do {
       same \<leftarrow> same_token a t;
       if \<not> same then drop_card env MSC_INCONSISTENT_STATUS k s1
       else do {
         let n = the (st_atrLen a);
         ident \<leftarrow> memcpy (unat n) (tokenId t) (tokenId (mc_tokenInfo k));
         let k1 = k\<lparr>mc_tokenInfo := (mc_tokenInfo k)\<lparr>tokenId := ident, tokenIdLength := n, slotName := strlcpy MAX_READERNAME (slotName t),
           tokenName := strlcpy MSC_MAXSIZE_TOKENAME (tokenName t)\<rparr>\<rparr>;
         (rv, k2, c) \<leftarrow> TPLoadToken env k1 (pcsc_client s1);
         let s2 = s1\<lparr>pcsc_client := c\<rparr>;
         if rv \<noteq> SCARD_S_SUCCESS then drop_card env (pcscToMSC rv) k2 s2 else start_service env sharingMode applicationName nameSize k2 s2
       }
     }
   }"

definition MSCEstablishConnection :: "'s msc_env \<Rightarrow> MSCTokenInfo option \<Rightarrow> DWORD \<Rightarrow> UCHAR list option \<Rightarrow> DWORD \<Rightarrow> MSCTokenConnection option \<Rightarrow> 's msc
    \<Rightarrow> (LONG \<times> MSCTokenConnection option \<times> 's msc) option" where
  "MSCEstablishConnection env tokenStruct sharingMode applicationName nameSize pConnection s =
    (case (pConnection, tokenStruct) of
       (Some p, Some t) \<Rightarrow>
         if unat nameSize > MSC_MAXSIZE_AID then Some (MSC_INVALID_PARAMETER, pConnection, s)
         else
           let k = p\<lparr>tokenLibHandle := None, mc_hContext := 0, mc_tokenInfo := (mc_tokenInfo p)\<lparr>tokenIdLength := 0\<rparr>, mc_shareMode := 0\<rparr> in
           if sharingMode \<noteq> SCARD_SHARE_DIRECT \<and> tokenName t = MSC_TOKEN_EMPTY_STR then Some (MSC_TOKEN_REMOVED, Some k, s)
           else if sharingMode \<noteq> SCARD_SHARE_DIRECT \<and> tokenName t = MSC_TOKEN_UNKNOWN_STR then Some (MSC_UNRECOGNIZED_TOKEN, Some k, s)
           else do {
             (rv, s1) \<leftarrow> ensure_context env s;
             if rv \<noteq> MSC_SUCCESS then Some (rv, Some k, s1)
             else do {
               let k1 = k\<lparr>mc_hContext := localHContext s1\<rparr>;
               (rv, h, act, c) \<leftarrow> SCardConnect_clnt (msc_pcsc env) (mc_hContext k1) (Some (slotName t)) sharingMode (SCARD_PROTOCOL_T0 OR SCARD_PROTOCOL_T1)
                 True (garbage (msc_pcsc env) (outside (pcsc_client s1))) (pcsc_client s1);
               let k2 = k1\<lparr>mc_hCard := h\<rparr>;
               let s2 = s1\<lparr>pcsc_client := c\<rparr>;
               if pcscToMSC rv \<noteq> MSC_SUCCESS then Some (pcscToMSC rv, Some k2, s2)
               else
                 let k3 = k2\<lparr>mc_shareMode := sharingMode,
                   mc_ioType := if act = SCARD_PROTOCOL_T0 then PCI_T0 else if act = SCARD_PROTOCOL_T1 then PCI_T1 else PCI_RAW\<rparr> in
                 map_option (\<lambda>(rv, k4, s3). (rv, Some k4, s3)) (attach_token env t sharingMode applicationName nameSize k3 s2)
             }
           }
     | _ \<Rightarrow> Some (MSC_INVALID_PARAMETER, pConnection, s))"

text \<open>The result of the finalization is lost.\<close>

definition MSCReleaseConnection :: "'s msc_env \<Rightarrow> MSCTokenConnection option \<Rightarrow> DWORD \<Rightarrow> 's msc \<Rightarrow> (LONG \<times> MSCTokenConnection option \<times> 's msc) option" where
  "MSCReleaseConnection env pConnection endAction s =
    (case pConnection of
       None \<Rightarrow> Some (MSC_INVALID_PARAMETER, None, s)
     | Some k \<Rightarrow>
        if tokenLibHandle k = None \<or> mc_hContext k = 0 \<or> mc_hCard k = 0 then Some (MSC_INVALID_HANDLE, Some k, s)
        else (case libPointers k FinalizePlugin of
            None \<Rightarrow> Some (MSC_INTERNAL_ERROR, Some k, s)
          | Some lib \<Rightarrow> do {
              (_, _, k1, s1) \<leftarrow> invoke env lib PL_MSCFinalizePlugin k s;
              (rv, s2) \<leftarrow> (if mc_hCard k1 \<noteq> 0 then on_client (SCardDisconnect_clnt (msc_pcsc env) (mc_hCard k1) endAction) s1 else Some (SCARD_S_SUCCESS, s1));
              if mc_hCard k1 \<noteq> 0 \<and> pcscToMSC rv \<noteq> MSC_SUCCESS then Some (pcscToMSC rv, Some k1, s2)
              else
                let (k2, c) = (if tokenLibHandle k1 \<noteq> None then snd (TPUnloadToken env k1 (pcsc_client s2)) else (k1, pcsc_client s2)) in
                Some (MSC_SUCCESS, Some (k2\<lparr>tokenLibHandle := None, mc_hCard := 0, mc_hContext := 0, mc_shareMode := 0\<rparr>), s2\<lparr>pcsc_client := c\<rparr>)
            }))"

subsection \<open>Waiting for events\<close>

definition current_state :: "MSCTokenInfo \<Rightarrow> READERSTATE \<Rightarrow> READERSTATE" where
  "current_state t r =
    r\<lparr>dwCurrentState := if tokenState t = 0 then dwEventState r else if tokenState t = MSC_STATE_UNAWARE then SCARD_STATE_UNAWARE else tokenState t,
      dwEventState := 0\<rparr>"

text \<open>One token after the wait. The local description of the search is used only when the search was successful, so that its old contents do not matter.\<close>

definition update_token :: "'s msc_env \<Rightarrow> 's clnt \<Rightarrow> MSCTokenInfo \<Rightarrow> READERSTATE \<Rightarrow> MSCTokenInfo option" where
  "update_token env c t r =
    (let e = dwEventState r; t1 = t\<lparr>tokenState := e\<rparr>; named = (\<lambda>ty nm t. t\<lparr>tokenType := ty, tokenName := strlcpy MSC_MAXSIZE_TOKENAME nm\<rparr>) in
     if \<not> flag e SCARD_STATE_CHANGED then Some t1
     else if flag e SCARD_STATE_EMPTY then
       Some (named MSC_TOKEN_TYPE_REMOVED MSC_TOKEN_EMPTY_STR (t1\<lparr>tokenId := replicate MAX_ATR_SIZE 0, tokenIdLength := 0\<rparr>))
     else if flag e SCARD_STATE_PRESENT then do {
       ident \<leftarrow> memcpy (unat (cbAtr r)) (rgbAtr r) (tokenId t1);
       let t2 = t1\<lparr>tokenId := ident, tokenIdLength := cbAtr r\<rparr>;
       (rt, info) \<leftarrow> TPSearchBundlesForAtr env (rgbAtr r) (cbAtr r) (msc_uninit env) c;
       Some (if rt = 0 then named MSC_TOKEN_TYPE_KNOWN (tokenName info) t2 else named MSC_TOKEN_TYPE_UNKNOWN MSC_TOKEN_UNKNOWN_STR t2)
     } else Some t1)"

fun update_tokens :: "'s msc_env \<Rightarrow> 's clnt \<Rightarrow> MSCTokenInfo list \<Rightarrow> READERSTATE list \<Rightarrow> MSCTokenInfo list option" where
  "update_tokens env c (t # ts) (r # rs) = do { t1 \<leftarrow> update_token env c t r; ts1 \<leftarrow> update_tokens env c ts rs; Some (t1 # ts1) }"
| "update_tokens env c ts rs = Some ts"

text \<open>\<open>tokens\<close> has \<^verbatim>\<open>arraySize\<close> elements; a structure of the array that is allocated has 56 bytes. The result of the second wait is returned after all tokens
  were updated.\<close>

definition MSCWaitForTokenEvent :: "'s msc_env \<Rightarrow> MSCTokenInfo list \<Rightarrow> DWORD \<Rightarrow> 's msc \<Rightarrow> (LONG \<times> MSCTokenInfo list \<times> 's msc) option" where
  "MSCWaitForTokenEvent env tokens timeoutValue s =
    (if length tokens = 0 then Some (MSC_SUCCESS, tokens, s)
     else if length tokens > MSC_MAXSIZE_TOKENARRAY then Some (MSC_INSUFFICIENT_BUFFER, tokens, s)
     else do {
       (rv, s1) \<leftarrow> ensure_context env s;
       if rv \<noteq> MSC_SUCCESS then Some (rv, tokens, s1)
       else if malloc (msc_pcsc env) (56 * length tokens) (outside (pcsc_client s1)) = None then Some (MSC_INTERNAL_ERROR, tokens, s1)
       else if \<exists>t \<in> set tokens. slotName t = [] then Some (MSC_INVALID_PARAMETER, tokens, s1)
       else do {
         let wait = SCardGetStatusChange_clnt (msc_pcsc env) (localHContext s1) timeoutValue;
         (rv, rs, c) \<leftarrow> wait (Some (map (\<lambda>t. \<lparr>szReader = Some (slotName t), dwCurrentState = SCARD_STATE_UNAWARE, dwEventState = 0,
           cbAtr = garbage (msc_pcsc env) (outside (pcsc_client s1)), rgbAtr = map (msc_fresh env) [0..<MAX_ATR_SIZE]\<rparr>) tokens)) (length tokens) (pcsc_client s1);
         if rv \<noteq> SCARD_S_SUCCESS then Some (pcscToMSC rv, tokens, s1\<lparr>pcsc_client := c\<rparr>)
         else do {
           (rv, rs, c) \<leftarrow> wait (Some (map2 current_state tokens (the rs))) (length tokens) c;
           tokens1 \<leftarrow> update_tokens env c tokens (the rs);
           Some (pcscToMSC rv, tokens1, s1\<lparr>pcsc_client := c\<rparr>)
         }
       }
     })"

definition MSCCancelEventWait :: "'s msc_env \<Rightarrow> 's msc \<Rightarrow> (LONG \<times> 's msc) option" where
  "MSCCancelEventWait env s =
    map_option (\<lambda>(rv, s1). (pcscToMSC rv, s1)) (on_client (SCardCancel_clnt (msc_pcsc env) (localHContext s)) s)"

text \<open>The thread of the callbacks: the function of the application, with its data, works on the array and the world. Another thread may set
  \<open>blockingContext\<close> meanwhile. The thread frees its array at the end.\<close>

type_synonym 's token_callback = "MSCTokenInfo list \<Rightarrow> 's clnt \<Rightarrow> MSCTokenInfo list \<times> 's clnt"

partial_function (option) event_loop :: "'s msc_env \<Rightarrow> 's token_callback \<Rightarrow> MSCTokenInfo list \<Rightarrow> 's msc \<Rightarrow> (LONG \<times> 's msc) option" where
  "event_loop env callBack tokens s = do {
     (rv, tokens1, s1) \<leftarrow> MSCWaitForTokenEvent env tokens INFINITE s;
     if rv \<noteq> MSC_SUCCESS then Some (rv, s1)
     else
       let r = callBack tokens1 (pcsc_client s1);
           s2 = s1\<lparr>pcsc_client := snd r, blockingContext := if msc_cancelling env (outside (snd r)) then MSC_BLOCKSTATUS_CANCELLING else blockingContext s1\<rparr> in
       if blockingContext s2 = MSC_BLOCKSTATUS_CANCELLING then Some (rv, s2) else event_loop env callBack (fst r) s2
   }"

definition MSCEventThread :: "'s msc_env \<Rightarrow> ('s token_callback \<times> MSCTokenInfo list) option \<Rightarrow> 's msc \<Rightarrow> 's msc option" where
  "MSCEventThread env arg s =
    (case arg of
       None \<Rightarrow> Some s
     | Some (callBack, tokens) \<Rightarrow> do {
         (rv, s1) \<leftarrow> event_loop env callBack tokens (s\<lparr>blockingContext := MSC_BLOCKSTATUS_BLOCKING\<rparr>);
         Some (s1\<lparr>blockingContext := MSC_BLOCKSTATUS_RESUME\<rparr>)
       })"

text \<open>The copy of the additional data: the bytes of the structure instead of those it points to.\<close>

fun copy_params :: "'s msc_env \<Rightarrow> 's clnt \<Rightarrow> MSCTokenInfo list \<Rightarrow> MSCTokenInfo list option" where
  "copy_params env c [] = Some []"
| "copy_params env c (t # ts) = do {
     t1 \<leftarrow> (case addParams t of
         None \<Rightarrow> Some t
       | Some ps \<Rightarrow> do {
           content \<leftarrow> malloc (msc_pcsc env) (unat (addParamsSize t)) (outside c);
           p \<leftarrow> memcpy (unat (addParamsSize t)) (concat (map (token_bytes env) (t # ts))) (map content [0..<unat (addParamsSize t)]);
           Some (t\<lparr>addParams := Some p\<rparr>)
         });
     ts1 \<leftarrow> copy_params env c ts;
     Some (t1 # ts1)
   }"

text \<open>The second result is the argument of the new thread, when one was created.\<close>

definition MSCCallbackForTokenEvent :: "'s msc_env \<Rightarrow> MSCTokenInfo list \<Rightarrow> 's token_callback \<Rightarrow> 's msc
    \<Rightarrow> (LONG \<times> ('s token_callback \<times> MSCTokenInfo list) option \<times> 's msc) option" where
  "MSCCallbackForTokenEvent env tokens callBack s =
    (let w = outside (pcsc_client s) in
     if malloc (msc_pcsc env) 16 w = None \<or> malloc (msc_pcsc env) (572 * length tokens) w = None then Some (MSC_INTERNAL_ERROR, None, s)
     else do {
       tokens1 \<leftarrow> copy_params env (pcsc_client s) tokens;
       let rv = SYS_ThreadCreate env w;
       Some (if rv = 0 then MSC_INTERNAL_ERROR else MSC_SUCCESS, if rv = 0 then Some (callBack, tokens1) else None, s)
     })"

text \<open>The second result tells whether the call then waits for the end of the thread.\<close>

definition MSCCallbackCancelEvent :: "'s msc_env \<Rightarrow> 's msc \<Rightarrow> (LONG \<times> bool \<times> 's msc) option" where
  "MSCCallbackCancelEvent env s =
    (if blockingContext s = MSC_BLOCKSTATUS_BLOCKING
     then map_option (\<lambda>(rv, s1). (MSC_SUCCESS, True, s1)) (MSCCancelEventWait env (s\<lparr>blockingContext := MSC_BLOCKSTATUS_CANCELLING\<rparr>))
     else Some (MSC_SUCCESS, False, s))"

subsection \<open>Transactions\<close>

text \<open>The results of finalization and initialization are lost.\<close>

definition MSCReEstablishConnection :: "'s msc_env \<Rightarrow> MSCTokenConnection \<Rightarrow> 's msc \<Rightarrow> (LONG \<times> MSCTokenConnection \<times> 's msc) option" where
  "MSCReEstablishConnection env k s =
    (case (libPointers k InitializePlugin, libPointers k FinalizePlugin, libPointers k IdentifyToken) of
       (Some init, Some fin, Some ident) \<Rightarrow> do {
         (rv, act, c) \<leftarrow> SCardReconnect_clnt (msc_pcsc env) (mc_hCard k) (mc_shareMode k) (SCARD_PROTOCOL_T0 OR SCARD_PROTOCOL_T1) SCARD_LEAVE_CARD
           (Some (garbage (msc_pcsc env) (outside (pcsc_client s)))) (pcsc_client s);
         let s1 = s\<lparr>pcsc_client := c\<rparr>;
         if rv \<noteq> SCARD_S_SUCCESS then Some (pcscToMSC rv, k, s1)
         else do {
           (_, _, k1, s2) \<leftarrow> invoke env fin PL_MSCFinalizePlugin k s1;
           (_, _, k2, s3) \<leftarrow> invoke env init PL_MSCInitializePlugin k1 s2;
           (rv, _, k3, s4) \<leftarrow> invoke env ident PL_MSCIdentifyToken k2 s3;
           Some (rv, k3, s4)
         }
       }
     | _ \<Rightarrow> Some (MSC_INTERNAL_ERROR, k, s))"

text \<open>The loop of both transaction calls: \<open>call\<close> is the call of the client library. After a reset the connection is established again and the call repeated.\<close>

definition set_tokenType :: "(DWORD \<Rightarrow> DWORD) \<Rightarrow> MSCTokenConnection \<Rightarrow> MSCTokenConnection" where
  "set_tokenType f k = k\<lparr>mc_tokenInfo := (mc_tokenInfo k)\<lparr>tokenType := f (tokenType (mc_tokenInfo k))\<rparr>\<rparr>"

partial_function (option) transaction_loop :: "'s msc_env \<Rightarrow> (SCARDHANDLE \<Rightarrow> 's clnt \<Rightarrow> (LONG \<times> 's clnt) option) \<Rightarrow> MSCTokenConnection \<Rightarrow> 's msc
    \<Rightarrow> (LONG \<times> MSCTokenConnection \<times> 's msc) option" where
  "transaction_loop env call k s = do {
     (rv, s1) \<leftarrow> on_client (call (mc_hCard k)) s;
     if pcscToMSC rv = MSC_TOKEN_RESET then do {
       (ret, k1, s2) \<leftarrow> MSCReEstablishConnection env (set_tokenType (bset MSC_TOKEN_TYPE_RESET) k) s1;
       if ret \<noteq> MSC_SUCCESS then Some (ret, k1, s2) else transaction_loop env call k1 s2
     }
     else if pcscToMSC rv = MSC_TOKEN_REMOVED then Some (pcscToMSC rv, set_tokenType (\<lambda>_. MSC_TOKEN_TYPE_REMOVED) k, s1)
     else Some (pcscToMSC rv, k, s1)
   }"

definition MSCBeginTransaction :: "'s msc_env \<Rightarrow> MSCTokenConnection \<Rightarrow> 's msc \<Rightarrow> (LONG \<times> MSCTokenConnection \<times> 's msc) option" where
  "MSCBeginTransaction env k s =
    (if localHContext s = 0 then Some (MSC_INTERNAL_ERROR, k, s) else transaction_loop env (SCardBeginTransaction_clnt (msc_pcsc env)) k s)"

definition MSCEndTransaction :: "'s msc_env \<Rightarrow> MSCTokenConnection \<Rightarrow> DWORD \<Rightarrow> 's msc \<Rightarrow> (LONG \<times> MSCTokenConnection \<times> 's msc) option" where
  "MSCEndTransaction env k endAction s =
    (if localHContext s = 0 then Some (MSC_INTERNAL_ERROR, k, s)
     else transaction_loop env (\<lambda>h. SCardEndTransaction_clnt (msc_pcsc env) h endAction) k s)"

subsection \<open>The state of the token\<close>

definition MSCIsTokenReset :: "'s msc_env \<Rightarrow> MSCTokenConnection \<Rightarrow> 's msc \<Rightarrow> (bool \<times> 's msc) option" where
  "MSCIsTokenReset env k s =
    map_option (\<lambda>(rv, a, s1). (rv = SCARD_W_RESET_CARD \<or> flag (tokenType (mc_tokenInfo k)) MSC_TOKEN_TYPE_RESET, s1)) (card_status env (mc_hCard k) s)"

definition MSCClearReset :: "MSCTokenConnection \<Rightarrow> MSCTokenConnection" where
  "MSCClearReset k = set_tokenType (bclr MSC_TOKEN_TYPE_RESET) k"

definition MSCIsTokenMoved :: "'s msc_env \<Rightarrow> MSCTokenConnection \<Rightarrow> 's msc \<Rightarrow> (bool \<times> 's msc) option" where
  "MSCIsTokenMoved env k s =
    (if flag (tokenType (mc_tokenInfo k)) MSC_TOKEN_TYPE_REMOVED then Some (True, s)
     else map_option (\<lambda>(rv, a, s1). (rv \<noteq> SCARD_S_SUCCESS \<or> flag (the (st_state a)) SCARD_ABSENT, s1)) (card_status env (mc_hCard k) s))"

definition MSCIsTokenChanged :: "'s msc_env \<Rightarrow> MSCTokenConnection \<Rightarrow> 's msc \<Rightarrow> (bool \<times> 's msc) option" where
  "MSCIsTokenChanged env k s = do {
     (moved, s1) \<leftarrow> MSCIsTokenMoved env k s;
     if moved then Some (True, s1) else MSCIsTokenReset env k s1
   }"

definition MSCIsTokenKnown :: "MSCTokenConnection \<Rightarrow> bool" where
  "MSCIsTokenKnown k = flag (tokenType (mc_tokenInfo k)) MSC_TOKEN_TYPE_KNOWN"

end
