(* ===== verification/Muscle_Services.thy ===== *)
theory Muscle_Services
  imports Musclecard
begin

section \<open>The calls for the service of a token (libmusclecard: musclecard.c)\<close>

text \<open>
  Most of the calls hand their arguments over to the function of the service; objects are written and read in packets of 200 bytes, and the attributes of
  a key or an object are looked for in the lists of the service. Pointers other than the connection are not tested and therefore not NULL, arrays have the
  size that is given with them.
\<close>

text \<open>The common shape of the calls: \<open>f\<close> names the pointer, \<open>call\<close> is the call through it, \<open>old\<close> what the results contain before.\<close>

definition call_service :: "'s msc_env \<Rightarrow> msc_function \<Rightarrow> ('s plugin \<Rightarrow> ('s, 'a) plugin_call) \<Rightarrow> 'a \<Rightarrow> MSCTokenConnection option \<Rightarrow> 's msc
    \<Rightarrow> (LONG \<times> 'a \<times> MSCTokenConnection option \<times> 's msc) option" where
  "call_service env f call old pConnection s =
    (case pConnection of
       None \<Rightarrow> Some (MSC_INVALID_PARAMETER, old, None, s)
     | Some k \<Rightarrow>
        if localHContext s = 0 then Some (MSC_INTERNAL_ERROR, old, Some k, s)
        else (case libPointers k f of
            None \<Rightarrow> Some (MSC_UNSUPPORTED_FEATURE, old, Some k, s)
          | Some lib \<Rightarrow> map_option (\<lambda>(rv, x, k1, s1). (rv, x, Some k1, s1)) (invoke env lib call k s)))"

definition MSCWriteFramework :: "'s msc_env \<Rightarrow> MSCTokenConnection option \<Rightarrow> MSCInitTokenParams \<Rightarrow> 's msc
    \<Rightarrow> (LONG \<times> unit \<times> MSCTokenConnection option \<times> 's msc) option" where
  "MSCWriteFramework env pConnection pInitParams s = call_service env WriteFramework (\<lambda>p. PL_MSCWriteFramework p pInitParams) () pConnection s"

definition MSCGetStatus :: "'s msc_env \<Rightarrow> MSCTokenConnection option \<Rightarrow> MSCStatusInfo \<Rightarrow> 's msc
    \<Rightarrow> (LONG \<times> MSCStatusInfo \<times> MSCTokenConnection option \<times> 's msc) option" where
  "MSCGetStatus env pConnection pStatusInfo s = call_service env GetStatus (\<lambda>p. PL_MSCGetStatus p pStatusInfo) pStatusInfo pConnection s"

definition MSCGetCapabilities :: "'s msc_env \<Rightarrow> MSCTokenConnection option \<Rightarrow> DWORD \<Rightarrow> UCHAR list \<Rightarrow> DWORD \<Rightarrow> 's msc
    \<Rightarrow> (LONG \<times> (UCHAR list \<times> DWORD) \<times> MSCTokenConnection option \<times> 's msc) option" where
  "MSCGetCapabilities env pConnection Tag Value Length s = call_service env GetCapabilities (\<lambda>p. PL_MSCGetCapabilities p Tag Value Length) (Value, Length) pConnection s"

definition MSCExtendedFeature :: "'s msc_env \<Rightarrow> MSCTokenConnection option \<Rightarrow> DWORD \<Rightarrow> UCHAR list \<Rightarrow> DWORD \<Rightarrow> UCHAR list \<Rightarrow> DWORD \<Rightarrow> 's msc
    \<Rightarrow> (LONG \<times> (UCHAR list \<times> DWORD) \<times> MSCTokenConnection option \<times> 's msc) option" where
  "MSCExtendedFeature env pConnection extFeature outData outLength inData inLength s = call_service env ExtendedFeature (\<lambda>p. PL_MSCExtendedFeature p extFeature outData outLength inData inLength) (inData, inLength) pConnection s"

definition MSCGenerateKeys :: "'s msc_env \<Rightarrow> MSCTokenConnection option \<Rightarrow> UCHAR \<Rightarrow> UCHAR \<Rightarrow> MSCGenKeyParams \<Rightarrow> 's msc
    \<Rightarrow> (LONG \<times> unit \<times> MSCTokenConnection option \<times> 's msc) option" where
  "MSCGenerateKeys env pConnection prvKeyNum pubKeyNum pParams s = call_service env GenerateKeys (\<lambda>p. PL_MSCGenerateKeys p prvKeyNum pubKeyNum pParams) () pConnection s"

definition MSCImportKey :: "'s msc_env \<Rightarrow> MSCTokenConnection option \<Rightarrow> UCHAR \<Rightarrow> MSCKeyACL \<Rightarrow> UCHAR list \<Rightarrow> DWORD \<Rightarrow> MSCKeyPolicy \<Rightarrow> UCHAR list option \<Rightarrow> UCHAR \<Rightarrow> 's msc
    \<Rightarrow> (LONG \<times> unit \<times> MSCTokenConnection option \<times> 's msc) option" where
  "MSCImportKey env pConnection keyNumber pKeyACL pKeyBlob keyBlobSize policy pAddParams addParamsLen s = call_service env ImportKey (\<lambda>p. PL_MSCImportKey p keyNumber pKeyACL pKeyBlob keyBlobSize policy pAddParams addParamsLen) () pConnection s"

definition MSCExportKey :: "'s msc_env \<Rightarrow> MSCTokenConnection option \<Rightarrow> UCHAR \<Rightarrow> UCHAR list \<Rightarrow> DWORD \<Rightarrow> UCHAR list option \<Rightarrow> UCHAR \<Rightarrow> 's msc
    \<Rightarrow> (LONG \<times> (UCHAR list \<times> DWORD) \<times> MSCTokenConnection option \<times> 's msc) option" where
  "MSCExportKey env pConnection keyNumber pKeyBlob keyBlobSize pAddParams addParamsLen s = call_service env ExportKey (\<lambda>p. PL_MSCExportKey p keyNumber pKeyBlob keyBlobSize pAddParams addParamsLen) (pKeyBlob, keyBlobSize) pConnection s"

definition MSCComputeCrypt :: "'s msc_env \<Rightarrow> MSCTokenConnection option \<Rightarrow> MSCCryptInit \<Rightarrow> UCHAR list \<Rightarrow> DWORD \<Rightarrow> UCHAR list \<Rightarrow> DWORD \<Rightarrow> 's msc
    \<Rightarrow> (LONG \<times> (UCHAR list \<times> DWORD) \<times> MSCTokenConnection option \<times> 's msc) option" where
  "MSCComputeCrypt env pConnection cryptInit pInputData inputDataSize pOutputData outputDataSize s = call_service env ComputeCrypt (\<lambda>p. PL_MSCComputeCrypt p cryptInit pInputData inputDataSize pOutputData outputDataSize) (pOutputData, outputDataSize) pConnection s"

definition MSCExtAuthenticate :: "'s msc_env \<Rightarrow> MSCTokenConnection option \<Rightarrow> UCHAR \<Rightarrow> UCHAR \<Rightarrow> UCHAR \<Rightarrow> UCHAR list \<Rightarrow> DWORD \<Rightarrow> 's msc
    \<Rightarrow> (LONG \<times> unit \<times> MSCTokenConnection option \<times> 's msc) option" where
  "MSCExtAuthenticate env pConnection keyNumber mode direction pData dataSize s = call_service env ExtAuthenticate (\<lambda>p. PL_MSCExtAuthenticate p keyNumber mode direction pData dataSize) () pConnection s"

definition MSCListKeys :: "'s msc_env \<Rightarrow> MSCTokenConnection option \<Rightarrow> UCHAR \<Rightarrow> MSCKeyInfo \<Rightarrow> 's msc
    \<Rightarrow> (LONG \<times> MSCKeyInfo \<times> MSCTokenConnection option \<times> 's msc) option" where
  "MSCListKeys env pConnection seqOption pKeyInfo s = call_service env ListKeys (\<lambda>p. PL_MSCListKeys p seqOption pKeyInfo) pKeyInfo pConnection s"

definition MSCCreatePIN :: "'s msc_env \<Rightarrow> MSCTokenConnection option \<Rightarrow> UCHAR \<Rightarrow> UCHAR \<Rightarrow> UCHAR list \<Rightarrow> DWORD \<Rightarrow> UCHAR list \<Rightarrow> UCHAR \<Rightarrow> 's msc
    \<Rightarrow> (LONG \<times> unit \<times> MSCTokenConnection option \<times> 's msc) option" where
  "MSCCreatePIN env pConnection pinNum pinAttempts pPinCode pinCodeSize pUnblockCode unblockCodeSize s = call_service env CreatePIN (\<lambda>p. PL_MSCCreatePIN p pinNum pinAttempts pPinCode pinCodeSize pUnblockCode unblockCodeSize) () pConnection s"

definition MSCVerifyPIN :: "'s msc_env \<Rightarrow> MSCTokenConnection option \<Rightarrow> UCHAR \<Rightarrow> UCHAR list \<Rightarrow> DWORD \<Rightarrow> 's msc
    \<Rightarrow> (LONG \<times> unit \<times> MSCTokenConnection option \<times> 's msc) option" where
  "MSCVerifyPIN env pConnection pinNum pPinCode pinCodeSize s = call_service env VerifyPIN (\<lambda>p. PL_MSCVerifyPIN p pinNum pPinCode pinCodeSize) () pConnection s"

definition MSCChangePIN :: "'s msc_env \<Rightarrow> MSCTokenConnection option \<Rightarrow> UCHAR \<Rightarrow> UCHAR list \<Rightarrow> UCHAR \<Rightarrow> UCHAR list \<Rightarrow> UCHAR \<Rightarrow> 's msc
    \<Rightarrow> (LONG \<times> unit \<times> MSCTokenConnection option \<times> 's msc) option" where
  "MSCChangePIN env pConnection pinNum pOldPinCode oldPinCodeSize pNewPinCode newPinCodeSize s = call_service env ChangePIN (\<lambda>p. PL_MSCChangePIN p pinNum pOldPinCode oldPinCodeSize pNewPinCode newPinCodeSize) () pConnection s"

definition MSCUnblockPIN :: "'s msc_env \<Rightarrow> MSCTokenConnection option \<Rightarrow> UCHAR \<Rightarrow> UCHAR list \<Rightarrow> DWORD \<Rightarrow> 's msc
    \<Rightarrow> (LONG \<times> unit \<times> MSCTokenConnection option \<times> 's msc) option" where
  "MSCUnblockPIN env pConnection pinNum pUnblockCode unblockCodeSize s = call_service env UnblockPIN (\<lambda>p. PL_MSCUnblockPIN p pinNum pUnblockCode unblockCodeSize) () pConnection s"

definition MSCListPINs :: "'s msc_env \<Rightarrow> MSCTokenConnection option \<Rightarrow> 16 word \<Rightarrow> 's msc
    \<Rightarrow> (LONG \<times> 16 word \<times> MSCTokenConnection option \<times> 's msc) option" where
  "MSCListPINs env pConnection pPinBitMask s = call_service env ListPINs (\<lambda>p. PL_MSCListPINs p pPinBitMask) pPinBitMask pConnection s"

definition MSCCreateObject :: "'s msc_env \<Rightarrow> MSCTokenConnection option \<Rightarrow> string \<Rightarrow> DWORD \<Rightarrow> MSCObjectACL \<Rightarrow> 's msc
    \<Rightarrow> (LONG \<times> unit \<times> MSCTokenConnection option \<times> 's msc) option" where
  "MSCCreateObject env pConnection ident objSize pObjectACL s = call_service env CreateObject (\<lambda>p. PL_MSCCreateObject p ident objSize pObjectACL) () pConnection s"

definition MSCDeleteObject :: "'s msc_env \<Rightarrow> MSCTokenConnection option \<Rightarrow> string \<Rightarrow> UCHAR \<Rightarrow> 's msc
    \<Rightarrow> (LONG \<times> unit \<times> MSCTokenConnection option \<times> 's msc) option" where
  "MSCDeleteObject env pConnection ident zeroFlag s = call_service env DeleteObject (\<lambda>p. PL_MSCDeleteObject p ident zeroFlag) () pConnection s"

definition MSCListObjects :: "'s msc_env \<Rightarrow> MSCTokenConnection option \<Rightarrow> UCHAR \<Rightarrow> MSCObjectInfo \<Rightarrow> 's msc
    \<Rightarrow> (LONG \<times> MSCObjectInfo \<times> MSCTokenConnection option \<times> 's msc) option" where
  "MSCListObjects env pConnection seqOption pObjectInfo s = call_service env ListObjects (\<lambda>p. PL_MSCListObjects p seqOption pObjectInfo) pObjectInfo pConnection s"

definition MSCLogoutAll :: "'s msc_env \<Rightarrow> MSCTokenConnection option \<Rightarrow> 's msc
    \<Rightarrow> (LONG \<times> unit \<times> MSCTokenConnection option \<times> 's msc) option" where
  "MSCLogoutAll env pConnection s = call_service env LogoutAll PL_MSCLogoutAll () pConnection s"

definition MSCGetChallenge :: "'s msc_env \<Rightarrow> MSCTokenConnection option \<Rightarrow> UCHAR list \<Rightarrow> 16 word \<Rightarrow> UCHAR list \<Rightarrow> 16 word \<Rightarrow> 's msc
    \<Rightarrow> (LONG \<times> UCHAR list \<times> MSCTokenConnection option \<times> 's msc) option" where
  "MSCGetChallenge env pConnection pSeed seedSize pRandomData randomDataSize s = call_service env GetChallenge (\<lambda>p. PL_MSCGetChallenge p pSeed seedSize pRandomData randomDataSize) pRandomData pConnection s"

subsection \<open>Objects\<close>

text \<open>The function that reports the progress, with its data. It may ask for an end.\<close>

type_synonym 's progress = "(int \<Rightarrow> 's clnt \<Rightarrow> LONG \<times> 's clnt) option"

definition report_progress :: "'s progress \<Rightarrow> int \<Rightarrow> 's msc \<Rightarrow> LONG \<times> 's msc" where
  "report_progress cb percent s =
    (case cb of None \<Rightarrow> (0, s) | Some f \<Rightarrow> let (rv, c) = f percent (pcsc_client s) in (rv, s\<lparr>pcsc_client := c\<rparr>))"

text \<open>One packet: \<open>n\<close> bytes from \<open>pos\<close> on. The data is the array of the caller, which reading changes.\<close>

type_synonym 's packet_call = "nat \<Rightarrow> nat \<Rightarrow> UCHAR list \<Rightarrow> MSCTokenConnection \<Rightarrow> 's msc \<Rightarrow> (LONG \<times> UCHAR list \<times> MSCTokenConnection \<times> 's msc) option"

definition write_packet :: "'s msc_env \<Rightarrow> nat \<Rightarrow> string \<Rightarrow> DWORD \<Rightarrow> 's packet_call" where
  "write_packet env lib ident offSet pos n data k s =
    (if 2 ^ 31 \<le> pos \<or> length data < pos + n then None
     else map_option (\<lambda>(rv, _, k1, s1). (rv, data, k1, s1))
       (invoke env lib (\<lambda>p. PL_MSCWriteObject p ident (word_of_nat pos + offSet) (take n (drop pos data)) (word_of_nat n)) k s))"

definition read_packet :: "'s msc_env \<Rightarrow> nat \<Rightarrow> string \<Rightarrow> DWORD \<Rightarrow> 's packet_call" where
  "read_packet env lib ident offSet pos n data k s =
    (if 2 ^ 31 \<le> pos \<or> length data < pos + n then None
     else map_option (\<lambda>(rv, x, k1, s1). (rv, take pos data @ x @ drop (pos + n) data, k1, s1))
       (invoke env lib (\<lambda>p. PL_MSCReadObject p ident (word_of_nat pos + offSet) (take n (drop pos data)) (word_of_nat n)) k s))"

text \<open>The loop over the full packets, from the packet \<open>i\<close> on; \<open>Inl\<close> is the value to return at once.\<close>

fun packet_loop :: "'s packet_call \<Rightarrow> 's progress \<Rightarrow> int \<Rightarrow> nat \<Rightarrow> nat \<Rightarrow> LONG \<Rightarrow> UCHAR list \<Rightarrow> MSCTokenConnection \<Rightarrow> 's msc
    \<Rightarrow> ((LONG + LONG) \<times> UCHAR list \<times> MSCTokenConnection \<times> 's msc) option" where
  "packet_loop call cb stepInterval 0 i rv data k s = Some (Inr rv, data, k, s)"
| "packet_loop call cb stepInterval (Suc m) i rv0 data k s = do {
     (rv, data1, k1, s1) \<leftarrow> call (i * MSC_SIZEOF_KEYPACKET) MSC_SIZEOF_KEYPACKET data k s;
     if rv \<noteq> MSC_SUCCESS then Some (Inl rv, data1, k1, s1)
     else
       let (answer, s2) = report_progress cb (stepInterval * int i) s1 in
       if answer = MSC_CANCELLED then Some (Inl MSC_CANCELLED, data1, k1, s2) else packet_loop call cb stepInterval m (i + 1) rv data1 k1 s2
   }"

definition transfer_object :: "'s packet_call \<Rightarrow> DWORD \<Rightarrow> 's progress \<Rightarrow> UCHAR list \<Rightarrow> MSCTokenConnection \<Rightarrow> 's msc
    \<Rightarrow> (LONG \<times> UCHAR list \<times> MSCTokenConnection \<times> 's msc) option" where
  "transfer_object call dataSize cb data k s =
    (let m = unat dataSize div MSC_SIZEOF_KEYPACKET; r = unat dataSize mod MSC_SIZEOF_KEYPACKET;
         stepInterval = MSC_PERCENT_STEPSIZE div (int m + 1);
         finish = (\<lambda>rv data1 k1 s1. Some (rv, data1, k1, snd (report_progress cb MSC_PERCENT_STEPSIZE s1))) in do {
       (e, data1, k1, s1) \<leftarrow> packet_loop call cb stepInterval m 0 MSC_UNSPECIFIED_ERROR data k s;
       (case e of
          Inl rv \<Rightarrow> Some (rv, data1, k1, s1)
        | Inr rv \<Rightarrow>
           if r = 0 then finish rv data1 k1 s1
           else do {
             (rv, data2, k2, s2) \<leftarrow> call (m * MSC_SIZEOF_KEYPACKET) r data1 k1 s1;
             if rv \<noteq> MSC_SUCCESS then Some (rv, data2, k2, s2) else finish rv data2 k2 s2
           })
     })"

definition object_call :: "msc_function \<Rightarrow> (nat \<Rightarrow> 's packet_call) \<Rightarrow> MSCTokenConnection option \<Rightarrow> UCHAR list \<Rightarrow> DWORD \<Rightarrow> 's progress \<Rightarrow> 's msc
    \<Rightarrow> (LONG \<times> UCHAR list \<times> MSCTokenConnection option \<times> 's msc) option" where
  "object_call f call pConnection data dataSize cb s =
    (case pConnection of
       None \<Rightarrow> Some (MSC_INVALID_PARAMETER, data, None, s)
     | Some k \<Rightarrow>
        if localHContext s = 0 then Some (MSC_INTERNAL_ERROR, data, Some k, s)
        else (case libPointers k f of
            None \<Rightarrow> Some (MSC_UNSUPPORTED_FEATURE, data, Some k, s)
          | Some lib \<Rightarrow> map_option (\<lambda>(rv, x, k1, s1). (rv, x, Some k1, s1)) (transfer_object (call lib) dataSize cb data k s)))"

definition MSCWriteObject :: "'s msc_env \<Rightarrow> MSCTokenConnection option \<Rightarrow> string \<Rightarrow> DWORD \<Rightarrow> UCHAR list \<Rightarrow> DWORD \<Rightarrow> 's progress \<Rightarrow> 's msc
    \<Rightarrow> (LONG \<times> MSCTokenConnection option \<times> 's msc) option" where
  "MSCWriteObject env pConnection ident offSet pInputData dataSize rwCallback s =
    map_option (\<lambda>(rv, _, k, s1). (rv, k, s1))
      (object_call WriteObject (\<lambda>lib. write_packet env lib ident offSet) pConnection pInputData dataSize rwCallback s)"

definition MSCReadObject :: "'s msc_env \<Rightarrow> MSCTokenConnection option \<Rightarrow> string \<Rightarrow> DWORD \<Rightarrow> UCHAR list \<Rightarrow> DWORD \<Rightarrow> 's progress \<Rightarrow> 's msc
    \<Rightarrow> (LONG \<times> UCHAR list \<times> MSCTokenConnection option \<times> 's msc) option" where
  "MSCReadObject env pConnection ident offSet pOutputData dataSize rwCallback s =
    object_call ReadObject (\<lambda>lib. read_packet env lib ident offSet) pConnection pOutputData dataSize rwCallback s"

subsection \<open>Attributes\<close>

text \<open>The search in a list of the service: \<open>next\<close> stores the next element, \<open>test\<close> is the comparison with what is looked for, which comes first.\<close>

partial_function (option) search_list :: "('a \<Rightarrow> MSCTokenConnection option \<Rightarrow> 's msc \<Rightarrow> (LONG \<times> 'a \<times> MSCTokenConnection option \<times> 's msc) option) \<Rightarrow> ('a \<Rightarrow> bool)
    \<Rightarrow> 'a \<Rightarrow> MSCTokenConnection option \<Rightarrow> 's msc \<Rightarrow> (LONG \<times> 'a \<times> MSCTokenConnection option \<times> 's msc) option" where
  "search_list next_item test x k s = do {
     (rv, x1, k1, s1) \<leftarrow> next_item x k s;
     if test x1 \<or> rv \<noteq> MSC_SUCCESS then Some (rv, x1, k1, s1) else search_list next_item test x1 k1 s1
   }"

text \<open>Both calls for attributes: \<open>items\<close> is the list call, \<open>missing\<close> the error at the end of the list.\<close>

definition find_item :: "(UCHAR \<Rightarrow> 'a \<Rightarrow> MSCTokenConnection option \<Rightarrow> 's msc \<Rightarrow> (LONG \<times> 'a \<times> MSCTokenConnection option \<times> 's msc) option) \<Rightarrow> ('a \<Rightarrow> bool)
    \<Rightarrow> LONG \<Rightarrow> 'a \<Rightarrow> MSCTokenConnection option \<Rightarrow> 's msc \<Rightarrow> (LONG \<times> 'a \<times> MSCTokenConnection option \<times> 's msc) option" where
  "find_item items test missing x k s = do {
     (rv, x1, k1, s1) \<leftarrow> items MSC_SEQUENCE_RESET x k s;
     if rv \<noteq> MSC_SUCCESS then Some (if rv = MSC_SEQUENCE_END then missing else rv, x1, k1, s1)
     else if test x1 then Some (MSC_SUCCESS, x1, k1, s1)
     else do {
       (rv, x2, k2, s2) \<leftarrow> search_list (items MSC_SEQUENCE_NEXT) test x1 k1 s1;
       Some (if rv = MSC_SEQUENCE_END then missing else rv, x2, k2, s2)
     }
   }"

text \<open>The deprecated fields of the key are not copied.\<close>

definition MSCGetKeyAttributes :: "'s msc_env \<Rightarrow> MSCTokenConnection option \<Rightarrow> UCHAR \<Rightarrow> MSCKeyInfo \<Rightarrow> 's msc
    \<Rightarrow> (LONG \<times> MSCKeyInfo \<times> MSCTokenConnection option \<times> 's msc) option" where
  "MSCGetKeyAttributes env pConnection keyNumber pKeyInfo s =
    (if pConnection = None then Some (MSC_INVALID_PARAMETER, pKeyInfo, None, s)
     else if localHContext s = 0 then Some (MSC_INTERNAL_ERROR, pKeyInfo, pConnection, s)
     else do {
       (rv, x, k, s1) \<leftarrow> find_item (\<lambda>seqOption x k. MSCListKeys env k seqOption x) (\<lambda>x. keyNumber = keyNum x) MSC_INVALID_PARAMETER
         (msc_uninit_key env) pConnection s;
       Some (rv, if rv = MSC_SUCCESS then pKeyInfo\<lparr>keyNum := keyNum x, keyType := keyType x, keySize := keySize x, keyPolicy := keyPolicy x, keyACL := keyACL x\<rparr>
         else pKeyInfo, k, s1)
     })"

definition same_object :: "string \<Rightarrow> MSCObjectInfo \<Rightarrow> bool" where
  "same_object ident x \<longleftrightarrow> take MSC_MAXSIZE_OBJID ident = take MSC_MAXSIZE_OBJID (objectID x)"

definition MSCGetObjectAttributes :: "'s msc_env \<Rightarrow> MSCTokenConnection option \<Rightarrow> string \<Rightarrow> MSCObjectInfo \<Rightarrow> 's msc
    \<Rightarrow> (LONG \<times> MSCObjectInfo \<times> MSCTokenConnection option \<times> 's msc) option" where
  "MSCGetObjectAttributes env pConnection ident pObjectInfo s =
    (if pConnection = None then Some (MSC_INVALID_PARAMETER, pObjectInfo, None, s)
     else if localHContext s = 0 then Some (MSC_INTERNAL_ERROR, pObjectInfo, pConnection, s)
     else do {
       (rv, x, k, s1) \<leftarrow> find_item (\<lambda>seqOption x k. MSCListObjects env k seqOption x) (same_object ident) MSC_OBJECT_NOT_FOUND
         (msc_uninit_object env) pConnection s;
       Some (rv, if rv = MSC_SUCCESS then \<lparr>objectID = strlcpy MSC_MAXSIZE_OBJID ident, objectSize = objectSize x, objectACL = objectACL x\<rparr>
         else pObjectInfo, k, s1)
     })"

text \<open>\<open>outputs\<close>: \<^verbatim>\<open>pOutputData\<close> is not NULL. The second result is what is stored in \<^verbatim>\<open>*dataSize\<close> and
  \<^verbatim>\<open>*pOutputData\<close>, if the call comes to that. When there is no memory the call is successful without data.\<close>

definition MSCReadAllocateObject :: "'s msc_env \<Rightarrow> MSCTokenConnection option \<Rightarrow> string \<Rightarrow> bool \<Rightarrow> 's progress \<Rightarrow> 's msc
    \<Rightarrow> (LONG \<times> (DWORD \<times> UCHAR list option) option \<times> MSCTokenConnection option \<times> 's msc) option" where
  "MSCReadAllocateObject env pConnection ident outputs rwCallback s =
    (if pConnection = None then Some (MSC_INVALID_PARAMETER, None, None, s)
     else if localHContext s = 0 then Some (MSC_INTERNAL_ERROR, None, pConnection, s)
     else if \<not> outputs then Some (MSC_INVALID_PARAMETER, None, pConnection, s)
     else do {
       (rv, info, k, s1) \<leftarrow> MSCGetObjectAttributes env pConnection ident (msc_uninit_object env) s;
       if rv \<noteq> MSC_SUCCESS then Some (rv, Some (0, None), k, s1)
       else (case malloc (msc_pcsc env) (unat (objectSize info)) (outside (pcsc_client s1)) of
           None \<Rightarrow> Some (rv, Some (0, None), k, s1)
         | Some content \<Rightarrow> do {
             (rv, data, k1, s2) \<leftarrow> MSCReadObject env k ident 0 (map content [0..<unat (objectSize info)]) (objectSize info) rwCallback s1;
             Some (if rv = MSC_SUCCESS then (rv, Some (objectSize info, Some data), k1, s2) else (MSC_INTERNAL_ERROR, Some (0, None), k1, s2))
           })
     })"

subsection \<open>Messages\<close>

text \<open>The conversion \<^verbatim>\<open>%04lX\<close>.\<close>

definition print_04lX :: "DWORD \<Rightarrow> string" where
  "print_04lX w =
    (let ds = map (\<lambda>i. atr_digit (ucast (drop_bit (4 * i) w AND 0xF))) [7, 6, 5, 4, 3, 2, 1, 0] in
     (let lead = takeWhile (\<lambda>d. d = CHR ''0'') (take 4 ds) in drop (length lead) ds))"

definition msc_error :: "LONG \<Rightarrow> string" where
  "msc_error rv =
    (case map_of [(0x9000, ''Successful''), (0x9C01, ''No more memory''), (0x9C02, ''Authentication failed''), (0x9C03, ''Operation not allowed''),
        (0x9C04, ''Inconsistent status''), (0x9C05, ''Feature unsupported''), (0x9C06, ''Unauthorized usage''), (0x9C07, ''Object not found''),
        (0x9C08, ''Object already exists''), (0x9C09, ''Incorrect algorithm''), (0x9C0B, ''Invalid signature''), (0x9C0C, ''Identity is blocked''),
        (0x9C0D, ''Unspecified error''), (0x9C0E, ''Transport error''), (0x9C0F, ''Invalid parameter''), (0x9C10, ''Incorrect P1 parameter''),
        (0x9C11, ''Incorrect P2 parameter''), (0x9C12, ''End of sequence''), (0x9CFF, ''Internal Error''), (0x9C50, ''Operation Cancelled''),
        (0x9C51, ''Buffer is too small''), (0x9C52, ''Token is unsupported''), (0x9C53, ''Service is not running''), (0x9C54, ''Timeout has occurred''),
        (0x9C55, ''Token was removed''), (0x9C56, ''Token was reset''), (0x9C57, ''Token was inserted''), (0x9C58, ''Token is unresponsive''),
        (0x9C59, ''Handle is invalid''), (0x9C60, ''Sharing violation'')] rv of
       Some message \<Rightarrow> message
     | None \<Rightarrow> ''Unknown SW: '' @ print_04lX (word_of_int rv))"

end
