(* ===== verification/Muscle_Objects.thy ===== *)
theory Muscle_Objects
  imports Muscle_Services
begin

section \<open>Objects and keys of a token\<close>

text \<open>
  What the calls of theory \<open>Muscle_Services\<close> give an application when the service of the token does what musclecard.h asks for: it stores objects
  under their names and lists keys and objects one after the other. The demands on the service are predicates, since its code is not part of the sources.
\<close>

subsection \<open>Demands on the service\<close>

text \<open>\<open>obj\<close> is what the service stores: for every name the bytes of the object.\<close>

definition put_bytes :: "nat \<Rightarrow> UCHAR list \<Rightarrow> UCHAR list \<Rightarrow> UCHAR list" where
  "put_bytes off bs m = take off m @ bs @ drop (off + length bs) m"

definition stores_objects :: "'s msc_env \<Rightarrow> nat \<Rightarrow> ('s clnt \<Rightarrow> string \<Rightarrow> UCHAR list option) \<Rightarrow> bool" where
  "stores_objects env lib obj \<longleftrightarrow> (\<forall>c k ident m off bs.
     dl_loaded env lib c \<longrightarrow> obj c ident = Some m \<longrightarrow> unat off + length bs \<le> length m \<longrightarrow> length bs \<le> 255 \<longrightarrow>
     (\<exists>c1. PL_MSCWriteObject (service env lib) ident off bs (word_of_nat (length bs)) k c = Some (MSC_SUCCESS, (), k, c1)
        \<and> dl_loaded env lib c1 \<and> obj c1 = (obj c)(ident \<mapsto> put_bytes (unat off) bs m)) \<and>
     (\<exists>c1. PL_MSCReadObject (service env lib) ident off bs (word_of_nat (length bs)) k c = Some (MSC_SUCCESS, take (length bs) (drop (unat off) m), k, c1)
        \<and> dl_loaded env lib c1 \<and> obj c1 = obj c))"

text \<open>The application's function for the progress goes on and leaves service and objects alone.\<close>

definition quiet_progress :: "'s msc_env \<Rightarrow> nat \<Rightarrow> ('s clnt \<Rightarrow> string \<Rightarrow> UCHAR list option) \<Rightarrow> 's progress \<Rightarrow> bool" where
  "quiet_progress env lib obj cb \<longleftrightarrow> (\<forall>f v c. cb = Some f \<longrightarrow> dl_loaded env lib c \<longrightarrow>
     fst (f v c) \<noteq> MSC_CANCELLED \<and> dl_loaded env lib (snd (f v c)) \<and> obj (snd (f v c)) = obj c)"


lemma stored_read:
  assumes "stores_objects env lib obj" "dl_loaded env lib (pcsc_client s)" "obj (pcsc_client s) ident = Some m" "unat off + length bs \<le> length m" "length bs \<le> 255"
  obtains s1 where "invoke env lib (\<lambda>p. PL_MSCReadObject p ident off bs (word_of_nat (length bs))) k s = Some (MSC_SUCCESS, take (length bs) (drop (unat off) m), k, s1)"
    and "dl_loaded env lib (pcsc_client s1)" and "obj (pcsc_client s1) = obj (pcsc_client s)" and "localHContext s1 = localHContext s"
proof -
  obtain c1 where "PL_MSCReadObject (service env lib) ident off bs (word_of_nat (length bs)) k (pcsc_client s)
      = Some (MSC_SUCCESS, take (length bs) (drop (unat off) m), k, c1)" "dl_loaded env lib c1" "obj c1 = obj (pcsc_client s)"
    using assms unfolding stores_objects_def by blast
  then show ?thesis using assms(2) that [of "s\<lparr>pcsc_client := c1\<rparr>"] by (simp add: invoke_def)
qed

lemma quiet_report:
  assumes "quiet_progress env lib obj cb" "dl_loaded env lib (pcsc_client s)"
  shows "fst (report_progress cb v s) \<noteq> MSC_CANCELLED" "dl_loaded env lib (pcsc_client (snd (report_progress cb v s)))"
    "obj (pcsc_client (snd (report_progress cb v s))) = obj (pcsc_client s)" "localHContext (snd (report_progress cb v s)) = localHContext s"
  using assms by (cases cb; simp add: quiet_progress_def report_progress_def case_prod_beta)+

subsection \<open>The packets\<close>

text \<open>The transfer of an object in packets, for any property \<open>P pos\<close> that holds when \<open>pos\<close> bytes are done.\<close>

lemma packet_loop_run:
  assumes step: "\<And>pos n data s. P pos data s \<Longrightarrow> pos + n \<le> N \<Longrightarrow> n \<le> 200 \<Longrightarrow>
      \<exists>data1 s1. call pos n data k s = Some (MSC_SUCCESS, data1, k, s1) \<and> P (pos + n) data1 s1"
    and progress: "\<And>v pos data s. P pos data s \<Longrightarrow> fst (report_progress cb v s) \<noteq> MSC_CANCELLED \<and> P pos data (snd (report_progress cb v s))"
  shows "P (i * 200) data s \<Longrightarrow> (i + m) * 200 \<le> N \<Longrightarrow>
    \<exists>data1 s1. packet_loop call cb st m i rv data k s = Some (Inr (if m = 0 then rv else MSC_SUCCESS), data1, k, s1) \<and> P ((i + m) * 200) data1 s1"
proof (induction m arbitrary: i rv data s)
  case (Suc m)
  obtain data1 s1 where c: "call (i * 200) 200 data k s = Some (MSC_SUCCESS, data1, k, s1)" "P (i * 200 + 200) data1 s1"
    using step [OF Suc.prems(1), of 200] Suc.prems(2) by auto
  let ?r = "report_progress cb (st * int i) s1"
  have r: "fst ?r \<noteq> MSC_CANCELLED" "P ((i + 1) * 200) data1 (snd ?r)" using progress [OF c(2)] by (auto simp: add.commute)
  obtain data2 s2 where "packet_loop call cb st m (i + 1) MSC_SUCCESS data1 k (snd ?r) = Some (Inr MSC_SUCCESS, data2, k, s2)" "P ((i + 1 + m) * 200) data2 s2"
    using Suc.IH [OF r(2), of MSC_SUCCESS] Suc.prems(2) by auto
  then show ?case using c(1) r(1) by (cases ?r) simp
qed simp

lemma transfer_complete:
  assumes step: "\<And>pos n data s. P pos data s \<Longrightarrow> pos + n \<le> N \<Longrightarrow> n \<le> 200 \<Longrightarrow>
      \<exists>data1 s1. call pos n data k s = Some (MSC_SUCCESS, data1, k, s1) \<and> P (pos + n) data1 s1"
    and progress: "\<And>v pos data s. P pos data s \<Longrightarrow> fst (report_progress cb v s) \<noteq> MSC_CANCELLED \<and> P pos data (snd (report_progress cb v s))"
    and start: "P 0 data s" and N: "unat dataSize = N" "0 < N"
  shows "\<exists>data1 s1. transfer_object call dataSize cb data k s = Some (MSC_SUCCESS, data1, k, s1) \<and> P N data1 s1"
proof -
  let ?m = "N div 200" and ?r = "N mod 200"
  have bound: "(0 + ?m) * 200 \<le> N" and sum: "?m * 200 + ?r = N" by simp_all
  obtain data1 s1 where l: "packet_loop call cb (MSC_PERCENT_STEPSIZE div (int ?m + 1)) ?m 0 MSC_UNSPECIFIED_ERROR data k s
      = Some (Inr (if ?m = 0 then MSC_UNSPECIFIED_ERROR else MSC_SUCCESS), data1, k, s1)" "P (?m * 200) data1 s1"
    using packet_loop_run [of P N call k cb 0 data s ?m "MSC_PERCENT_STEPSIZE div (int ?m + 1)" MSC_UNSPECIFIED_ERROR, OF step progress _ bound] start
    by auto
  show ?thesis
  proof (cases "?r = 0")
    case True
    then have "?m \<noteq> 0" "?m * 200 = N" using N(2) sum by auto
    then show ?thesis using l progress [OF l(2), of 1000] True by (simp add: transfer_object_def N(1))
  next
    case False
    have "?m * 200 + ?r \<le> N" "?r \<le> 200" using sum mod_less_divisor [of 200 N] by linarith+
    from step [OF l(2) this] obtain data2 s2 where "call (?m * 200) ?r data1 k s1 = Some (MSC_SUCCESS, data2, k, s2)" "P N data2 s2"
      unfolding sum by blast
    then show ?thesis using l(1) progress [of N data2 s2 1000] False by (simp add: transfer_object_def N(1))
  qed
qed

lemma put_bytes_length [simp]: "off + length bs \<le> length m \<Longrightarrow> length (put_bytes off bs m) = length m"
  by (simp add: put_bytes_def)

lemma put_bytes_empty [simp]: "put_bytes off [] m = m"
  by (simp add: put_bytes_def)



lemma unat_offset: "unat (off :: DWORD) + pos < 2 ^ 32 \<Longrightarrow> unat (word_of_nat pos + off) = unat off + pos"
proof -
  assume "unat off + pos < 2 ^ 32"
  moreover have "word_of_nat pos + off = word_of_nat (unat off + pos)" by (simp add: add.commute)
  ultimately show ?thesis by (simp only: unat_of_nat) (simp add: take_bit_nat_eq_self)
qed


lemma object_read:
  fixes env :: "'s msc_env"
  assumes "stores_objects env lib obj" "quiet_progress env lib obj cb" "libPointers k ReadObject = Some lib"
    and s: "dl_loaded env lib (pcsc_client s)" "obj (pcsc_client s) ident = Some m" "localHContext s \<noteq> 0"
    and len: "unat off + length old \<le> length m" "unat off + length old < 2 ^ 32" "old \<noteq> []" "length old < 2 ^ 31"
  shows "\<exists>s1. MSCReadObject env (Some k) ident off old (word_of_nat (length old)) cb s
      = Some (MSC_SUCCESS, take (length old) (drop (unat off) m), Some k, s1)
    \<and> dl_loaded env lib (pcsc_client s1) \<and> localHContext s1 = localHContext s \<and> obj (pcsc_client s1) = obj (pcsc_client s)"
proof -
  define P where "P pos d s1 \<longleftrightarrow> d = take pos (drop (unat off) m) @ drop pos old \<and> pos \<le> length old \<and> dl_loaded env lib (pcsc_client s1)
    \<and> localHContext s1 = localHContext s \<and> obj (pcsc_client s1) = obj (pcsc_client s)" for pos d and s1 :: "'s msc"
  have step: "\<exists>data1 s1. read_packet env lib ident off pos n d k s0 = Some (MSC_SUCCESS, data1, k, s1) \<and> P (pos + n) data1 s1"
    if P: "P pos d s0" and n: "pos + n \<le> length old" "n \<le> 200" for pos n d s0
  proof -
    have o: "unat (word_of_nat pos + off) = unat off + pos" using n len by (intro unat_offset) linarith
    let ?bs = "take n (drop pos d)"
    have d: "length d = length old" using P len by (auto simp: P_def min_def)
    have bs: "length ?bs = n" using n d by simp
    obtain s1 where s1: "invoke env lib (\<lambda>p. PL_MSCReadObject p ident (word_of_nat pos + off) ?bs (word_of_nat (length ?bs))) k s0
        = Some (MSC_SUCCESS, take (length ?bs) (drop (unat (word_of_nat pos + off)) m), k, s1)"
      "dl_loaded env lib (pcsc_client s1)" "obj (pcsc_client s1) = obj (pcsc_client s0)" "localHContext s1 = localHContext s0"
    proof (rule stored_read [OF assms(1), of s0 ident m "word_of_nat pos + off" ?bs])
      show "dl_loaded env lib (pcsc_client s0)" "obj (pcsc_client s0) ident = Some m" using P s by (simp_all add: P_def)
      show "unat (word_of_nat pos + off) + length ?bs \<le> length m" "length ?bs \<le> 255" using o n len bs by simp_all
    qed
    have "take (pos + n) (drop (unat off) m) = take pos (drop (unat off) m) @ take n (drop (unat off + pos) m)"
      unfolding take_add drop_drop by (simp add: add.commute)
    moreover have "take pos d = take pos (drop (unat off) m)" "drop (pos + n) d = drop (pos + n) old" using P n len by (auto simp: P_def min_def)
    ultimately have "take pos d @ take n (drop (unat off + pos) m) @ drop (pos + n) d = take (pos + n) (drop (unat off) m) @ drop (pos + n) old"
      by simp
    then have "read_packet env lib ident off pos n d k s0 = Some (MSC_SUCCESS, take (pos + n) (drop (unat off) m) @ drop (pos + n) old, k, s1)"
      using s1(1) n len d unfolding bs o by (simp add: read_packet_def)
    then show ?thesis using s1 P n by (simp add: P_def)
  qed
  have progress: "fst (report_progress cb v s0) \<noteq> MSC_CANCELLED \<and> P pos d (snd (report_progress cb v s0))" if "P pos d s0" for v pos d s0
    using that quiet_report [OF assms(2), of s0 v] by (auto simp: P_def)
  have "unat (word_of_nat (length old) :: DWORD) = length old" "0 < length old" using len
    by (simp_all add: unat_of_nat take_bit_nat_eq_self_iff)
  moreover have "P 0 old s" using s by (auto simp: P_def)
  ultimately obtain d s1 where "transfer_object (read_packet env lib ident off) (word_of_nat (length old)) cb old k s = Some (MSC_SUCCESS, d, k, s1)"
    "P (length old) d s1"
    using transfer_complete [of P "length old" "read_packet env lib ident off" k cb old s, OF step progress] by blast
  then show ?thesis using s assms(3) by (simp add: MSCReadObject_def object_call_def P_def)
qed


subsection \<open>Lists of the service\<close>

text \<open>\<open>f\<close> is the list function of the service: it stores the elements of \<open>xs\<close> one after the other, \<open>cur\<close> is the place where it goes on. \<open>I\<close> is what it
  keeps.\<close>

definition lists_items :: "'s msc_env \<Rightarrow> nat \<Rightarrow> ('s plugin \<Rightarrow> UCHAR \<Rightarrow> 'a \<Rightarrow> ('s, 'a) plugin_call) \<Rightarrow> 'a list \<Rightarrow> ('s clnt \<Rightarrow> nat) \<Rightarrow> ('s clnt \<Rightarrow> bool) \<Rightarrow> bool" where
  "lists_items env lib f xs cur I \<longleftrightarrow> (\<forall>c k seqOption old n. dl_loaded env lib c \<longrightarrow> I c \<longrightarrow> n = (if seqOption = MSC_SEQUENCE_RESET then 0 else cur c) \<longrightarrow>
     (\<exists>c1. f (service env lib) seqOption old k c
          = Some (if n < length xs then MSC_SUCCESS else MSC_SEQUENCE_END, if n < length xs then xs ! n else old, k, c1)
        \<and> dl_loaded env lib c1 \<and> I c1 \<and> (n < length xs \<longrightarrow> cur c1 = Suc n)))"

lemma list_step:
  assumes "lists_items env lib f xs cur I" "libPointers k fn = Some lib" "dl_loaded env lib (pcsc_client s)" "I (pcsc_client s)" "localHContext s \<noteq> 0"
    and "n = (if seqOption = MSC_SEQUENCE_RESET then 0 else cur (pcsc_client s))"
  shows "\<exists>s1. call_service env fn (\<lambda>p. f p seqOption x) x (Some k) s
      = Some (if n < length xs then MSC_SUCCESS else MSC_SEQUENCE_END, if n < length xs then xs ! n else x, Some k, s1)
    \<and> dl_loaded env lib (pcsc_client s1) \<and> I (pcsc_client s1) \<and> localHContext s1 = localHContext s \<and> (n < length xs \<longrightarrow> cur (pcsc_client s1) = Suc n)"
proof -
  obtain c1 where "f (service env lib) seqOption x k (pcsc_client s)
      = Some (if n < length xs then MSC_SUCCESS else MSC_SEQUENCE_END, if n < length xs then xs ! n else x, k, c1)"
    "dl_loaded env lib c1 \<and> I c1 \<and> (n < length xs \<longrightarrow> cur c1 = Suc n)"
    using assms unfolding lists_items_def by blast
  then show ?thesis using assms(2,3,5) by (intro exI [of _ "s\<lparr>pcsc_client := c1\<rparr>"]) (simp add: call_service_def invoke_def)
qed

lemma search_list_find:
  assumes "lists_items env lib f xs cur I" "libPointers k fn = Some lib"
  shows "dl_loaded env lib (pcsc_client s) \<Longrightarrow> I (pcsc_client s) \<Longrightarrow> localHContext s \<noteq> 0 \<Longrightarrow> \<not> test x \<Longrightarrow>
    \<exists>rv x1 s1. search_list (\<lambda>x k. call_service env fn (\<lambda>p. f p MSC_SEQUENCE_NEXT x) x k) test x (Some k) s = Some (rv, x1, Some k, s1)
      \<and> dl_loaded env lib (pcsc_client s1) \<and> I (pcsc_client s1) \<and> localHContext s1 = localHContext s
      \<and> (case find test (drop (cur (pcsc_client s)) xs) of None \<Rightarrow> rv = MSC_SEQUENCE_END | Some y \<Rightarrow> rv = MSC_SUCCESS \<and> x1 = y)"
proof (induction "length xs - cur (pcsc_client s)" arbitrary: s x rule: less_induct)
  case less
  let ?n = "cur (pcsc_client s)"
  obtain s1 where s1: "call_service env fn (\<lambda>p. f p MSC_SEQUENCE_NEXT x) x (Some k) s
      = Some (if ?n < length xs then MSC_SUCCESS else MSC_SEQUENCE_END, if ?n < length xs then xs ! ?n else x, Some k, s1)"
    "dl_loaded env lib (pcsc_client s1)" "I (pcsc_client s1)" "localHContext s1 = localHContext s" "?n < length xs \<longrightarrow> cur (pcsc_client s1) = Suc ?n"
    using list_step [OF assms less.prems(1-3), of ?n MSC_SEQUENCE_NEXT x] by auto
  show ?case
  proof (cases "?n < length xs")
    case False
    then show ?thesis using s1 by (simp add: search_list.simps)
  next
    case True
    then have d: "drop ?n xs = xs ! ?n # drop (Suc ?n) xs" by (simp add: Cons_nth_drop_Suc)
    show ?thesis
    proof (cases "test (xs ! ?n)")
      case True
      then show ?thesis using s1 \<open>?n < length xs\<close> d by (simp add: search_list.simps)
    next
      case False
      have "length xs - cur (pcsc_client s1) < length xs - ?n" using s1(5) \<open>?n < length xs\<close> by auto
      from less.hyps [OF this s1(2,3) _ False] show ?thesis using s1 \<open>?n < length xs\<close> d False less.prems(3) by (simp add: search_list.simps)
    qed
  qed
qed

lemma find_item_find:
  assumes "lists_items env lib f xs cur I" "libPointers k fn = Some lib"
    and "dl_loaded env lib (pcsc_client s)" "I (pcsc_client s)" "localHContext s \<noteq> 0"
  shows "\<exists>rv x1 s1. find_item (\<lambda>seqOption x k. call_service env fn (\<lambda>p. f p seqOption x) x k) test missing x (Some k) s = Some (rv, x1, Some k, s1)
    \<and> dl_loaded env lib (pcsc_client s1) \<and> I (pcsc_client s1) \<and> localHContext s1 = localHContext s
    \<and> (case find test xs of None \<Rightarrow> rv = missing | Some y \<Rightarrow> rv = MSC_SUCCESS \<and> x1 = y)"
proof -
  obtain s1 where s1: "call_service env fn (\<lambda>p. f p MSC_SEQUENCE_RESET x) x (Some k) s
      = Some (if 0 < length xs then MSC_SUCCESS else MSC_SEQUENCE_END, if 0 < length xs then xs ! 0 else x, Some k, s1)"
    "dl_loaded env lib (pcsc_client s1)" "I (pcsc_client s1)" "localHContext s1 = localHContext s" "0 < length xs \<longrightarrow> cur (pcsc_client s1) = Suc 0"
    using list_step [OF assms, of 0 MSC_SEQUENCE_RESET x] by auto
  show ?thesis
  proof (cases xs)
    case Nil
    then show ?thesis using s1 by (simp add: find_item_def)
  next
    case (Cons y ys)
    show ?thesis
    proof (cases "test y")
      case True
      then show ?thesis using s1 Cons by (simp add: find_item_def)
    next
      case False
      then obtain rv x1 s2 where "search_list (\<lambda>x k. call_service env fn (\<lambda>p. f p MSC_SEQUENCE_NEXT x) x k) test y (Some k) s1 = Some (rv, x1, Some k, s2)"
        "dl_loaded env lib (pcsc_client s2)" "I (pcsc_client s2)" "localHContext s2 = localHContext s1"
        "case find test (drop (cur (pcsc_client s1)) xs) of None \<Rightarrow> rv = MSC_SEQUENCE_END | Some y \<Rightarrow> rv = MSC_SUCCESS \<and> x1 = y"
        using search_list_find [OF assms(1,2) s1(2,3), of test y] s1(4) assms(5) by auto
      then show ?thesis using s1 Cons False by (cases "find test ys") (simp_all add: find_item_def)
    qed
  qed
qed

text \<open>\<^verbatim>\<open>MSCGetKeyAttributes\<close> returns the first key of the service with the number, and an error when there is none.\<close>

theorem key_attributes_found:
  assumes "lists_items env lib PL_MSCListKeys xs cur I" and "libPointers k ListKeys = Some lib"
    and "dl_loaded env lib (pcsc_client s)" and "I (pcsc_client s)" and "localHContext s \<noteq> 0"
  shows "\<exists>s1. MSCGetKeyAttributes env (Some k) keyNumber old s = Some
    (case find (\<lambda>x. keyNumber = keyNum x) xs of
       None \<Rightarrow> (MSC_INVALID_PARAMETER, old, Some k, s1)
     | Some x \<Rightarrow> (MSC_SUCCESS, old\<lparr>keyNum := keyNumber, keyType := keyType x, keySize := keySize x, keyPolicy := keyPolicy x, keyACL := keyACL x\<rparr>, Some k, s1))"
proof -
  obtain rv x1 s1 where r: "find_item (\<lambda>seqOption x k. MSCListKeys env k seqOption x) (\<lambda>x. keyNumber = keyNum x) MSC_INVALID_PARAMETER (msc_uninit_key env) (Some k) s
      = Some (rv, x1, Some k, s1)"
    "case find (\<lambda>x. keyNumber = keyNum x) xs of None \<Rightarrow> rv = MSC_INVALID_PARAMETER | Some y \<Rightarrow> rv = MSC_SUCCESS \<and> x1 = y"
    using find_item_find [OF assms, of "\<lambda>x. keyNumber = keyNum x" MSC_INVALID_PARAMETER "msc_uninit_key env"] unfolding MSCListKeys_def by blast
  show ?thesis
  proof (cases "find (\<lambda>x. keyNumber = keyNum x) xs")
    case (Some x)
    then have "keyNumber = keyNum x" by (simp add: find_Some_iff) blast
    then show ?thesis using r Some assms(5) by (simp add: MSCGetKeyAttributes_def)
  qed (use r assms(5) in \<open>simp add: MSCGetKeyAttributes_def\<close>)
qed

text \<open>\<^verbatim>\<open>MSCReadAllocateObject\<close> finds an object in the list of the service and returns all of its bytes.\<close>

theorem allocated_object_read:
  fixes env :: "'s msc_env"
  assumes "stores_objects env lib obj" and "quiet_progress env lib obj cb"
    and "lists_items env lib PL_MSCListObjects xs cur (\<lambda>c. obj c ident = Some m)"
    and "libPointers k ListObjects = Some lib" and "libPointers k ReadObject = Some lib"
    and "dl_loaded env lib (pcsc_client s)" and "localHContext s \<noteq> 0" and "obj (pcsc_client s) ident = Some m"
    and "find (same_object ident) xs = Some x" and "unat (objectSize x) = length m" and "m \<noteq> []" and "length m < 2 ^ 31"
    and memory: "\<And>w. malloc (msc_pcsc env) (length m) w \<noteq> None"
  shows "\<exists>s1. MSCReadAllocateObject env (Some k) ident True cb s = Some (MSC_SUCCESS, Some (objectSize x, Some m), Some k, s1)
    \<and> obj (pcsc_client s1) ident = Some m"
proof -
  obtain rv x1 s1 where r: "find_item (\<lambda>seqOption x k. MSCListObjects env k seqOption x) (same_object ident) MSC_OBJECT_NOT_FOUND (msc_uninit_object env) (Some k) s
      = Some (rv, x1, Some k, s1)" "dl_loaded env lib (pcsc_client s1)" "obj (pcsc_client s1) ident = Some m" "localHContext s1 = localHContext s"
    "rv = MSC_SUCCESS \<and> x1 = x"
    using find_item_find [OF assms(3,4,6,8,7), of "same_object ident" MSC_OBJECT_NOT_FOUND "msc_uninit_object env"] assms(9)
    unfolding MSCListObjects_def by auto
  obtain content where c: "malloc (msc_pcsc env) (length m) (outside (pcsc_client s1)) = Some content" using memory by blast
  have "word_of_nat (length m) = objectSize x" unfolding assms(10) [symmetric] by simp
  moreover have "localHContext s1 \<noteq> 0" "map content [0..<length m] \<noteq> []" using r(4) assms(7,11) by simp_all
  ultimately obtain s2 where "MSCReadObject env (Some k) ident 0 (map content [0..<length m]) (objectSize x) cb s1 = Some (MSC_SUCCESS, m, Some k, s2)"
    "obj (pcsc_client s2) = obj (pcsc_client s1)"
    using object_read [OF assms(1,2,5) r(2,3), of 0 "map content [0..<length m]"] assms(12) by auto
  then show ?thesis using r c assms(7,10) by (simp add: MSCReadAllocateObject_def MSCGetObjectAttributes_def)
qed

end
