(* ===== verification/Muscle_Session.thy ===== *)
theory Muscle_Session
  imports Muscle_Objects Clnt_Inv
begin

section \<open>Services and contexts of the MUSCLE card library\<close>

text \<open>
  The name of a service's application and the pointers to its functions, what becomes of a direct connection to an empty reader, and what the library does
  when the client library has closed its context.
\<close>

subsection \<open>Hexadecimal strings\<close>

lemma hex_value_digit: "v < 16 \<Longrightarrow> hex_value (atr_digit v) = Some v"
proof -
  assume v: "v < 16"
  then have u: "unat v < 16" by (simp add: word_less_nat_alt)
  show ?thesis
  proof (cases "v > 9")
    case True
    then have "9 < unat v" by (simp add: word_less_nat_alt)
    then show ?thesis using u True by (auto simp: atr_digit_def hex_value_def Let_def)
  next
    case False
    then have "unat v \<le> 9" by (simp add: word_less_nat_alt)
    then show ?thesis using False by (auto simp: atr_digit_def hex_value_def Let_def)
  qed
qed

lemma hex_byte_digits: "hex_byte (atr_digit (b div 16)) (atr_digit (b mod 16)) old = b"
proof -
  have "b div 16 < 16" "b mod 16 < 16"
    using unsigned_less [of b, where ?'a = nat] by (auto simp: word_less_nat_alt unat_div unat_mod)
  moreover have "b div 16 * 16 + b mod 16 = b" by (rule div_mult_mod_eq)
  ultimately show ?thesis by (simp add: hex_byte_def hex_value_digit)
qed

lemma hex_bytes_string: "length xs \<le> length buffer \<Longrightarrow> hex_bytes (atrToString xs) buffer = xs @ drop (length xs) buffer"
proof (induction xs arbitrary: buffer)
  case Nil
  then show ?case by (cases buffer) (simp_all add: atrToString_def)
next
  case (Cons b xs)
  then obtain y ys where "buffer = y # ys" by (cases buffer) auto
  then show ?case using Cons by (simp add: atrToString_def hex_byte_digits)
qed

lemma atrToString_length [simp]: "length (atrToString xs) = 2 * length xs"
  by (induction xs) (simp_all add: atrToString_def)

text \<open>An application identifier written in hexadecimal digits, as in the description of a service, is read back byte by byte if it has at most 32
  bytes; the longer ones are refused, though the array has 64 bytes and up to 64 may be given as an argument.\<close>

theorem identifier_roundtrip:
  assumes "length buffer = MSC_MAXSIZE_AID"
  shows "stringToBytes (atrToString aid) buffer = (if length aid \<le> 32 then Some (aid @ drop (length aid) buffer, length aid) else None)"
  using assms by (auto simp: stringToBytes_def hex_bytes_string)

lemma atrToString_inj: "atrToString xs = atrToString ys \<Longrightarrow> xs = ys"
proof -
  assume s: "atrToString xs = atrToString ys"
  then have n: "length xs = length ys" by (metis atrToString_length mult_cancel1 zero_neq_numeral)
  have "xs = hex_bytes (atrToString xs) (replicate (length xs) 0)" using hex_bytes_string [of xs "replicate (length xs) 0"] by simp
  also have "\<dots> = ys" using hex_bytes_string [of ys "replicate (length xs) 0"] s n by simp
  finally show ?thesis .
qed

subsection \<open>The pointers to the functions of a service\<close>

lemma bind_functions_result:
  assumes "bind_functions resolves lib fs k = (rv, k1)" "distinct (map fst fs)"
  shows "tokenLibHandle k1 = tokenLibHandle k" "rv \<in> {SCARD_S_SUCCESS, SCARD_F_INTERNAL_ERROR}"
    and "rv = SCARD_S_SUCCESS \<Longrightarrow> (\<forall>f. libPointers k1 f = (if f \<in> fst ` set fs then if resolves f then Some lib else None else libPointers k f))
      \<and> (\<forall>(f, optional) \<in> set fs. resolves f \<or> optional)"
  using assms
proof (induction fs arbitrary: k)
  case (Cons x fs)
  obtain f optional where x: "x = (f, optional)" by fastforce
  let ?k = "\<lambda>k :: MSCTokenConnection. k\<lparr>libPointers := (libPointers k)(f := if resolves f then Some lib else None)\<rparr>"
  {
    case 1
    show ?case
    proof (cases "resolves f \<or> optional")
      case True
      then have b: "bind_functions resolves lib fs (?k k) = (rv, k1)" using 1 x by (simp add: Let_def split del: if_split)
      show ?thesis using Cons.IH(1) [OF b] 1 by simp
    qed (use 1 x in \<open>auto simp: Let_def\<close>)
  next
    case 2
    show ?case
    proof (cases "resolves f \<or> optional")
      case True
      then have b: "bind_functions resolves lib fs (?k k) = (rv, k1)" using 2 x by (simp add: Let_def split del: if_split)
      show ?thesis using Cons.IH(2) [OF b] 2 by simp
    qed (use 2 x in \<open>auto simp: Let_def\<close>)
  next
    case 3
    then have r: "resolves f \<or> optional" and b: "bind_functions resolves lib fs (?k k) = (rv, k1)" using x by (auto simp: Let_def split: if_splits)
    note i = Cons.IH(3) [OF 3(1) b]
    have d: "distinct (map fst fs)" "f \<notin> fst ` set fs" using 3(3) x by auto
    show ?case using i [OF d(1)] d(2) r x by auto
  }
qed simp_all

lemma bindings_all: "distinct (map fst bindings)" "fst ` set bindings = UNIV"
proof -
  show "distinct (map fst bindings)" by (simp add: bindings_def)
  have "f \<in> fst ` set bindings" for f by (cases f) (simp_all add: bindings_def)
  then show "fst ` set bindings = UNIV" by blast
qed

text \<open>After a successful \<^verbatim>\<open>TPLoadToken\<close> every function pointer leads into the service that was loaded, and only the two optional
  functions may be missing; after \<^verbatim>\<open>TPUnloadToken\<close> the pointer to \<^verbatim>\<open>PL_MSCIdentifyToken\<close> still leads into the service that
  was unloaded.\<close>

theorem unloaded_service_pointer:
  assumes "TPLoadToken env k c = Some (SCARD_S_SUCCESS, k1, c1)"
  shows "\<exists>lib. tokenLibHandle k1 = Some lib \<and> (\<forall>f. libPointers k1 f \<in> {None, Some lib} \<and> (f \<notin> {WriteFramework, ExtendedFeature} \<longrightarrow> libPointers k1 f = Some lib))
    \<and> (\<forall>c2 k2 c3. TPUnloadToken env k1 c2 = (SCARD_S_SUCCESS, k2, c3) \<longrightarrow>
        tokenLibHandle k2 = None \<and> (\<forall>f. libPointers k2 f = (if f = IdentifyToken then Some lib else None)))"
proof -
  obtain info lib where b: "bind_functions (dl_sym env lib) lib bindings (clear_pointers k\<lparr>mc_tokenInfo := info, tokenLibHandle := Some lib\<rparr>) = (SCARD_S_SUCCESS, k1)"
    using assms by (auto simp: TPLoadToken_def TPBindFunctions_def bind_eq_Some_conv Let_def split: if_splits prod.splits option.splits)
  note r = bind_functions_result [OF b bindings_all(1)]
  have h: "tokenLibHandle k1 = Some lib" using r(1) by simp
  have p: "libPointers k1 f = (if dl_sym env lib f then Some lib else None)" for f using r(3) bindings_all(2) by auto
  have q: "dl_sym env lib f" if "f \<notin> {WriteFramework, ExtendedFeature}" for f
    using that r(3) by (cases f) (simp_all add: bindings_def)
  have u: "tokenLibHandle k2 = None \<and> (\<forall>f. libPointers k2 f = (if f = IdentifyToken then Some lib else None))"
    if "TPUnloadToken env k1 c2 = (SCARD_S_SUCCESS, k2, c3)" for c2 k2 c3
    using that h p [of IdentifyToken] q [of IdentifyToken]
    by (auto simp: TPUnloadToken_def TPUnbindFunctions_def clear_pointers_def Let_def split: prod.splits if_splits)
  show ?thesis using h p q u by auto
qed

subsection \<open>Direct connections\<close>

text \<open>A direct connection to a reader without a card is opened successfully, but \<^verbatim>\<open>MSCReleaseConnection\<close> refuses to close it, so that the handle
  stays open; and its function pointers are what the structure contained before.\<close>

theorem direct_connection_not_released:
  assumes "localHContext s \<noteq> 0" and "unat nameSize \<le> MSC_MAXSIZE_AID"
    and "SCardConnect_clnt (msc_pcsc env) (localHContext s) (Some (slotName t)) SCARD_SHARE_DIRECT (SCARD_PROTOCOL_T0 OR SCARD_PROTOCOL_T1) True
      (garbage (msc_pcsc env) (outside (pcsc_client s))) (pcsc_client s) = Some (SCARD_S_SUCCESS, h, act, c)"
    and "card_status env h (s\<lparr>pcsc_client := c\<rparr>) = Some (SCARD_S_SUCCESS, a, s1)" and "flag (the (st_state a)) SCARD_ABSENT"
  shows "\<exists>k. MSCEstablishConnection env (Some t) SCARD_SHARE_DIRECT applicationName nameSize (Some p) s = Some (MSC_SUCCESS, Some k, s1)
    \<and> mc_hCard k = h \<and> libPointers k = libPointers p
    \<and> (\<forall>endAction s2. MSCReleaseConnection env (Some k) endAction s2 = Some (MSC_INVALID_HANDLE, Some k, s2))"
proof -
  define io where "io = (if act = SCARD_PROTOCOL_T0 then PCI_T0 else if act = SCARD_PROTOCOL_T1 then PCI_T1 else PCI_RAW)"
  let ?k = "p\<lparr>tokenLibHandle := None, mc_tokenInfo := (mc_tokenInfo p)\<lparr>tokenIdLength := 0\<rparr>, mc_hContext := localHContext s, mc_hCard := h,
    mc_shareMode := SCARD_SHARE_DIRECT, mc_ioType := io\<rparr>"
  have "attach_token env t SCARD_SHARE_DIRECT applicationName nameSize ?k (s\<lparr>pcsc_client := c\<rparr>) = Some (MSC_SUCCESS, ?k, s1)"
    using assms(4,5) by (simp add: attach_token_def pcscToMSC_def)
  then have "MSCEstablishConnection env (Some t) SCARD_SHARE_DIRECT applicationName nameSize (Some p) s = Some (MSC_SUCCESS, Some ?k, s1)"
    using assms(1-3) unfolding io_def by (simp add: MSCEstablishConnection_def ensure_context_def pcscToMSC_def del: if_split split del: if_split)
  then show ?thesis by (intro exI [of _ ?k]) (simp add: MSCReleaseConnection_def)
qed

subsection \<open>A context that is closed\<close>

lemma clean_contexts_maps: "set (psContextMap (clean_contexts sys c)) \<subseteq> insert empty_map (set (psContextMap c))"
proof -
  let ?f = "\<lambda>c i. if map_hContext (psContextMap c ! i) \<noteq> 0 then snd (SCardCleanContext sys i c) else c"
  have one: "set (psContextMap (?f c i)) \<subseteq> insert empty_map (set (psContextMap c))" for c i
    by (auto simp: SCardCleanContext_def upd_map_def upd_at_def dest: set_update_subset_insert [THEN subsetD])
  have "set (psContextMap (foldl ?f c is)) \<subseteq> insert empty_map (set (psContextMap c))" for "is"
  proof (induction "is" rule: rev_induct)
    case (snoc i "is")
    then show ?case using one [of "foldl ?f c is" i] by auto
  qed auto
  then show ?thesis by (simp add: clean_contexts_def)
qed

lemma closed_context_stays:
  assumes "SCardGetContextIndice h c = None" "SCardCheckDaemonAvailability sys c = (rv, c1)"
  shows "SCardGetContextIndice h c1 = None"
proof -
  have "set (psContextMap c1) \<subseteq> insert empty_map (set (psContextMap c))"
    using assms(2) clean_contexts_maps [of sys c] by (auto simp: SCardCheckDaemonAvailability_def split: option.splits if_splits)
  moreover have "map_hContext empty_map = 0" by (simp add: empty_map_def)
  ultimately show ?thesis using assms(1) by (auto simp: SCardGetContextIndice_def SCardGetContextIndiceTH_def)
qed

lemma open_closed_context:
  assumes "SCardGetContextIndice h c = None"
  shows "\<exists>e c1. open_context sys h c = (Inl e, c1) \<and> e \<in> {SCARD_E_INVALID_HANDLE, SCARD_E_NO_SERVICE} \<and> SCardGetContextIndice h c1 = None"
proof -
  obtain rv c1 where c: "SCardCheckDaemonAvailability sys c = (rv, c1)" by fastforce
  have n: "SCardGetContextIndice h c1 = None" by (rule closed_context_stays [OF assms c])
  have "rv \<in> {SCARD_S_SUCCESS, SCARD_E_INVALID_HANDLE, SCARD_E_NO_SERVICE}"
    using c by (auto simp: SCardCheckDaemonAvailability_def split: option.splits if_splits)
  then show ?thesis using c n by (auto simp: open_context_def)
qed

lemma closed_context_calls:
  assumes "localHContext s \<noteq> 0" and "SCardGetContextIndice (localHContext s) (pcsc_client s) = None"
  shows "MSCListTokens env listScope tokenArray arrayLength s = Some (rv1, ts1, n1, s1) \<Longrightarrow>
      rv1 \<noteq> MSC_SUCCESS \<and> localHContext s1 = localHContext s \<and> SCardGetContextIndice (localHContext s1) (pcsc_client s1) = None"
    and "MSCWaitForTokenEvent env tokens timeout s = Some (rv2, ts2, s2) \<Longrightarrow> tokens \<noteq> [] \<Longrightarrow>
      rv2 \<noteq> MSC_SUCCESS \<and> localHContext s2 = localHContext s \<and> SCardGetContextIndice (localHContext s2) (pcsc_client s2) = None"
    and "MSCEstablishConnection env token mode name nameSize k s = Some (rv3, k3, s3) \<Longrightarrow>
      rv3 \<noteq> MSC_SUCCESS \<and> localHContext s3 = localHContext s \<and> SCardGetContextIndice (localHContext s3) (pcsc_client s3) = None"
proof -
  let ?h = "localHContext s"
  obtain e c1 where o: "open_context (msc_pcsc env) ?h (pcsc_client s) = (Inl e, c1)" "e \<in> {SCARD_E_INVALID_HANDLE, SCARD_E_NO_SERVICE}"
    "SCardGetContextIndice ?h c1 = None"
    using open_closed_context [OF assms(2)] by blast
  have e: "pcscToMSC e \<noteq> MSC_SUCCESS" "e \<noteq> SCARD_S_SUCCESS" using o(2) by (auto simp: pcscToMSC_def)
  have ens: "ensure_context env s = Some (MSC_SUCCESS, s)" using assms(1) by (simp add: ensure_context_def)
  have codes: "pcscToMSC SCARD_E_UNKNOWN_READER \<noteq> MSC_SUCCESS" "pcscToMSC SCARD_E_INVALID_VALUE \<noteq> MSC_SUCCESS" "pcscToMSC SCARD_E_INVALID_PARAMETER \<noteq> MSC_SUCCESS"
    by (simp_all add: pcscToMSC_def)
  have readers: "SCardListReaders_clnt (msc_pcsc env) ?h Null (Some 0) (pcsc_client s) = Some (e, Null, Some 0, c1)"
    using o(1) by (simp add: SCardListReaders_clnt_def)
  show "rv1 \<noteq> MSC_SUCCESS \<and> localHContext s1 = ?h \<and> SCardGetContextIndice (localHContext s1) (pcsc_client s1) = None"
    if "MSCListTokens env listScope tokenArray arrayLength s = Some (rv1, ts1, n1, s1)"
    using that assms o(3) e(1) ens readers by (auto simp: MSCListTokens_def split: option.splits if_splits)
  show "rv2 \<noteq> MSC_SUCCESS \<and> localHContext s2 = ?h \<and> SCardGetContextIndice (localHContext s2) (pcsc_client s2) = None"
    if run: "MSCWaitForTokenEvent env tokens timeout s = Some (rv2, ts2, s2)" and ne: "tokens \<noteq> []"
  proof -
    have w: "\<exists>rv c2. SCardGetStatusChange_clnt (msc_pcsc env) ?h timeout (Some rs) (length rs) (pcsc_client s) = Some (rv, Some rs, c2)
        \<and> rv \<noteq> SCARD_S_SUCCESS \<and> pcscToMSC rv \<noteq> MSC_SUCCESS \<and> SCardGetContextIndice ?h c2 = None"
      if "rs = map f tokens" "\<And>t. szReader (f t) \<noteq> None \<and> dwCurrentState (f t) = SCARD_STATE_UNAWARE" for rs f
      using that o e assms(2) ne codes by (auto simp: SCardGetStatusChange_clnt_def)
    from w [OF refl, of "\<lambda>t. \<lparr>szReader = Some (slotName t), dwCurrentState = SCARD_STATE_UNAWARE, dwEventState = 0,
        cbAtr = garbage (msc_pcsc env) (outside (pcsc_client s)), rgbAtr = map (msc_fresh env) [0..<MAX_ATR_SIZE]\<rparr>"]
    show ?thesis using run ne ens assms by (auto simp: MSCWaitForTokenEvent_def split: if_splits)
  qed
  show "rv3 \<noteq> MSC_SUCCESS \<and> localHContext s3 = ?h \<and> SCardGetContextIndice (localHContext s3) (pcsc_client s3) = None"
    if "MSCEstablishConnection env token mode name nameSize k s = Some (rv3, k3, s3)"
  proof -
    have c: "\<exists>rv c2. SCardConnect_clnt (msc_pcsc env) ?h (Some n) m p True act (pcsc_client s) = Some (rv, 0, act, c2) \<and> pcscToMSC rv \<noteq> MSC_SUCCESS
        \<and> SCardGetContextIndice ?h c2 = None" for n m p act
      using o e assms(2) codes by (auto simp: SCardConnect_clnt_def)
    show ?thesis
    proof (cases "k = None \<or> token = None")
      case False
      then obtain p t where kt: "k = Some p" "token = Some t" by auto
      obtain rv c2 where "SCardConnect_clnt (msc_pcsc env) ?h (Some (slotName t)) mode (SCARD_PROTOCOL_T0 OR SCARD_PROTOCOL_T1) True
          (garbage (msc_pcsc env) (outside (pcsc_client s))) (pcsc_client s) = Some (rv, 0, garbage (msc_pcsc env) (outside (pcsc_client s)), c2)"
        "pcscToMSC rv \<noteq> MSC_SUCCESS" "SCardGetContextIndice ?h c2 = None"
        using c by blast
      then show ?thesis using that ens kt assms by (auto simp: MSCEstablishConnection_def Let_def split: if_splits)
    qed (use that assms in \<open>auto simp: MSCEstablishConnection_def split: option.splits\<close>)
  qed
qed

text \<open>C40: When the client library has closed the context of the library (after a restart of the daemon or a fork), no call that lists tokens, waits for an
  event or opens a connection is successful any more: the library never opens another context.\<close>

theorem closed_context_never_renewed:
  assumes "localHContext s \<noteq> 0" and "SCardGetContextIndice (localHContext s) (pcsc_client s) = None"
  shows "(\<forall>listScope tokenArray arrayLength rv ts n s1. MSCListTokens env listScope tokenArray arrayLength s = Some (rv, ts, n, s1) \<longrightarrow>
      rv \<noteq> MSC_SUCCESS \<and> localHContext s1 = localHContext s \<and> SCardGetContextIndice (localHContext s1) (pcsc_client s1) = None)
    \<and> (\<forall>tokens timeout rv ts s1. MSCWaitForTokenEvent env tokens timeout s = Some (rv, ts, s1) \<longrightarrow> tokens \<noteq> [] \<longrightarrow>
      rv \<noteq> MSC_SUCCESS \<and> localHContext s1 = localHContext s \<and> SCardGetContextIndice (localHContext s1) (pcsc_client s1) = None)
    \<and> (\<forall>token mode name nameSize k rv k1 s1. MSCEstablishConnection env token mode name nameSize k s = Some (rv, k1, s1) \<longrightarrow>
      rv \<noteq> MSC_SUCCESS \<and> localHContext s1 = localHContext s \<and> SCardGetContextIndice (localHContext s1) (pcsc_client s1) = None)"
  by (intro conjI; intro allI impI; ((rule closed_context_calls(1) [OF assms]; assumption) | (rule closed_context_calls(2) [OF assms]; assumption)
      | (rule closed_context_calls(3) [OF assms]; assumption)))

end
