(* ===== verification/Muscle_Samples.thy ===== *)
theory Muscle_Samples
  imports Muscle_Session
begin

section \<open>A sample service\<close>

text \<open>
  A service that stores objects and lists keys and objects as the theory \<open>Muscle_Objects\<close> demands, in a world where the daemon gives the replies of a script.
\<close>

record sample_world =
  script :: "reply list"
  files :: "string \<Rightarrow> UCHAR list option"
  place :: nat

definition scripted_system :: "sample_world clnt_system" where
  "scripted_system = \<lparr>stat_socket = \<lambda>_. Some 1, GetDaemonPid = \<lambda>_. 7, getpid = \<lambda>_. 42, SHMClientSetupSession = \<lambda>w. (Some 3, w),
     SHMClientCloseSession = \<lambda>_ w. w, SHMMessageSendWithHeader = \<lambda>_ _ w. (True, w),
     SHMMessageReceive = \<lambda>_ _ w. (case script w of [] \<Rightarrow> (None, w) | r # rs \<Rightarrow> (Some r, w\<lparr>script := rs\<rparr>)),
     receive_data = \<lambda>_ w. (True, w), malloc = \<lambda>n w. Some (\<lambda>_. 0), gettimeofday = \<lambda>_. 0, cancelled = \<lambda>_ _. False, garbage = \<lambda>_. 0\<rparr>"

subsection \<open>The functions of the service\<close>

definition refuse :: "'a \<Rightarrow> (sample_world, 'a) plugin_call" where
  "refuse old = (\<lambda>k c. Some (MSC_UNSUPPORTED_FEATURE, old, k, c))"

definition accept :: "(sample_world, unit) plugin_call" where
  "accept = (\<lambda>k c. Some (MSC_SUCCESS, (), k, c))"

definition next_element :: "'a list \<Rightarrow> UCHAR \<Rightarrow> 'a \<Rightarrow> (sample_world, 'a) plugin_call" where
  "next_element xs seqOption old k c =
    (let n = (if seqOption = MSC_SEQUENCE_RESET then 0 else place (outside c)) in
     if n < length xs then Some (MSC_SUCCESS, xs ! n, k, c\<lparr>outside := (outside c)\<lparr>place := Suc n\<rparr>\<rparr>) else Some (MSC_SEQUENCE_END, old, k, c))"

definition write_file :: "string \<Rightarrow> DWORD \<Rightarrow> UCHAR list \<Rightarrow> UCHAR \<Rightarrow> (sample_world, unit) plugin_call" where
  "write_file ident off bs n k c =
    (case files (outside c) ident of
       None \<Rightarrow> Some (MSC_OBJECT_NOT_FOUND, (), k, c)
     | Some m \<Rightarrow>
        if unat off + length bs \<le> length m
        then Some (MSC_SUCCESS, (), k, c\<lparr>outside := (outside c)\<lparr>files := (files (outside c))(ident \<mapsto> put_bytes (unat off) bs m)\<rparr>\<rparr>)
        else Some (MSC_INVALID_PARAMETER, (), k, c))"

definition read_file :: "string \<Rightarrow> DWORD \<Rightarrow> UCHAR list \<Rightarrow> UCHAR \<Rightarrow> (sample_world, UCHAR list) plugin_call" where
  "read_file ident off bs n k c =
    (case files (outside c) ident of
       None \<Rightarrow> Some (MSC_OBJECT_NOT_FOUND, bs, k, c)
     | Some m \<Rightarrow>
        if unat off + length bs \<le> length m then Some (MSC_SUCCESS, take (length bs) (drop (unat off) m), k, c) else Some (MSC_INVALID_PARAMETER, bs, k, c))"

definition sample_key :: "UCHAR \<Rightarrow> MSCKeyInfo" where
  "sample_key n = \<lparr>keyNum = n, keyType = 1, keyPartner = 0, keyMapping = 0, keySize = 1024, keyPolicy = \<lparr>cipherMode = 1, cipherDirection = 0x100\<rparr>,
     keyACL = \<lparr>key_readPermission = 0, key_writePermission = 1, key_usePermission = 1\<rparr>\<rparr>"

definition sample_object :: "string \<Rightarrow> DWORD \<Rightarrow> MSCObjectInfo" where
  "sample_object ident n = \<lparr>objectID = ident, objectSize = n, objectACL = \<lparr>readPermission = 0, writePermission = 1, deletePermission = 1\<rparr>\<rparr>"

definition sample_plugin :: "sample_world plugin" where
  "sample_plugin = \<lparr>PL_MSCWriteFramework = \<lambda>_. refuse (), PL_MSCInitializePlugin = accept, PL_MSCIdentifyToken = accept, PL_MSCFinalizePlugin = accept,
     PL_MSCGetStatus = refuse, PL_MSCGetCapabilities = \<lambda>_ v n. refuse (v, n), PL_MSCExtendedFeature = \<lambda>_ _ _ v n. refuse (v, n),
     PL_MSCGenerateKeys = \<lambda>_ _ _. refuse (), PL_MSCImportKey = \<lambda>_ _ _ _ _ _ _. refuse (), PL_MSCExportKey = \<lambda>_ v n _ _. refuse (v, n),
     PL_MSCComputeCrypt = \<lambda>_ _ _ v n. refuse (v, n), PL_MSCExtAuthenticate = \<lambda>_ _ _ _ _. refuse (),
     PL_MSCListKeys = next_element [sample_key 0, sample_key 3], PL_MSCCreatePIN = \<lambda>_ _ _ _ _ _. refuse (), PL_MSCVerifyPIN = \<lambda>_ _ _. accept,
     PL_MSCChangePIN = \<lambda>_ _ _ _ _. refuse (), PL_MSCUnblockPIN = \<lambda>_ _ _. refuse (), PL_MSCListPINs = refuse, PL_MSCCreateObject = \<lambda>_ _ _. refuse (),
     PL_MSCDeleteObject = \<lambda>_ _. refuse (), PL_MSCWriteObject = write_file, PL_MSCReadObject = read_file,
     PL_MSCListObjects = next_element [sample_object ''o1'' 2, sample_object ''c1'' 300], PL_MSCLogoutAll = accept,
     PL_MSCGetChallenge = \<lambda>_ _ v _. refuse v\<rparr>"

definition sample_token :: MSCTokenInfo where
  "sample_token = \<lparr>tokenName = ''Card'', slotName = ''R 00 00'', svProvider = [], tokenId = [0x3B, 0x00] @ replicate 31 0, tokenApp = replicate 64 0, tokenAppLen = 0,
     tokenIdLength = 2, tokenState = 0, tokenType = 0, addParams = None, addParamsSize = 0\<rparr>"

definition sample_bundle :: plist where
  "sample_bundle key =
    (if key = ''spAtrValue'' then [''3B9F'', ''3B00''] else if key = ''spProductName'' then [''Card''] else if key = ''CFBundleExecutable'' then [''libcard.so'']
     else if key = ''spDefaultApplication'' then [''A000000001''] else [])"

definition sample_env :: "sample_world msc_env" where
  "sample_env = \<lparr>msc_pcsc = scripted_system, dropdir = ''/services'', msc_arch = ''Linux'', services = \<lambda>_. Some [(''card.bundle'', sample_bundle)],
     dl_open = \<lambda>_ c. (Some 5, c), dl_close = \<lambda>_ c. (True, c), dl_loaded = \<lambda>lib _. lib = 5, dl_sym = \<lambda>_ f. f \<noteq> ExtendedFeature, service = \<lambda>_. sample_plugin,
     msc_uninit = sample_token, msc_uninit_key = sample_key 0xFF, msc_uninit_object = sample_object [] 0, msc_fresh = \<lambda>_. 0, msc_cancelling = \<lambda>_. False,
     SYS_ThreadCreate = \<lambda>_. 0, token_bytes = \<lambda>_. replicate 572 0\<rparr>"

definition sample_connection :: MSCTokenConnection where
  "sample_connection = \<lparr>mc_hContext = 9, mc_hCard = 0x4711, mc_ioType = PCI_T1, tokenLibHandle = Some 5, libPointers = \<lambda>_. Some 5,
     mc_tokenInfo = sample_token, mc_shareMode = SCARD_SHARE_SHARED\<rparr>"

text \<open>The state: the context 9 is open, with the objects \<open>fs\<close> on the token and the replies \<open>rs\<close> to come.\<close>

definition sample_client :: "reply list \<Rightarrow> (string \<Rightarrow> UCHAR list option) \<Rightarrow> sample_world clnt" where
  "sample_client rs fs = \<lparr>psContextMap = empty_map\<lparr>map_hContext := 9, map_dwClientID := 3\<rparr> # replicate 15 empty_map, isExecuted = True,
     daemon_ctime = 1, daemon_pid = 7, client_pid = 42, clnt_states = [], outside = \<lparr>script = rs, files = fs, place = 0\<rparr>\<rparr>"

definition sample_msc :: "reply list \<Rightarrow> (string \<Rightarrow> UCHAR list option) \<Rightarrow> sample_world msc" where
  "sample_msc rs fs = \<lparr>localHContext = 9, blockingContext = 0, pcsc_client = sample_client rs fs\<rparr>"

lemma sample_fields [simp]:
  "msc_pcsc sample_env = scripted_system" "dl_loaded sample_env lib c \<longleftrightarrow> lib = 5" "service sample_env lib = sample_plugin" "localHContext (sample_msc rs fs) = 9"
  "files (outside (pcsc_client (sample_msc rs fs))) = fs" "libPointers sample_connection f = Some 5" "malloc scripted_system n w \<noteq> None"
  "PL_MSCWriteObject sample_plugin = write_file" "PL_MSCReadObject sample_plugin = read_file"
  "PL_MSCListKeys sample_plugin = next_element [sample_key 0, sample_key 3]"
  "PL_MSCListObjects sample_plugin = next_element [sample_object ''o1'' 2, sample_object ''c1'' 300]"
  by (simp_all add: sample_env_def scripted_system_def sample_msc_def sample_client_def sample_connection_def sample_plugin_def)

lemma sample_stores: "stores_objects sample_env 5 (\<lambda>c. files (outside c))"
  unfolding stores_objects_def by (auto simp: write_file_def read_file_def)

lemma sample_quiet: "quiet_progress sample_env 5 obj None"
  by (simp add: quiet_progress_def)

lemma sample_lists:
  assumes "f sample_plugin = next_element xs"
  shows "lists_items sample_env 5 f xs (\<lambda>c. place (outside c)) (\<lambda>c. P (files (outside c)))"
  using assms unfolding lists_items_def by (auto simp: next_element_def Let_def)

subsection \<open>Witnesses\<close>


theorem key_attributes_found_witness:
  "\<exists>s1. MSCGetKeyAttributes sample_env (Some sample_connection) 3 (sample_key 0xFF) (sample_msc [] Map.empty) = Some (MSC_SUCCESS, sample_key 3, Some sample_connection, s1)"
  using key_attributes_found [OF sample_lists [where P = "\<lambda>_. True" and f = PL_MSCListKeys and xs = "[sample_key 0, sample_key 3]"],
      where k = sample_connection and s = "sample_msc [] Map.empty" and keyNumber = 3 and old = "sample_key 0xFF"]
  by (simp add: sample_key_def)

theorem allocated_object_read_witness:
  "\<exists>s1. MSCReadAllocateObject sample_env (Some sample_connection) ''c1'' True None (sample_msc [] [''c1'' \<mapsto> replicate 300 7])
    = Some (MSC_SUCCESS, Some (300, Some (replicate 300 7)), Some sample_connection, s1)"
  using allocated_object_read [OF sample_stores sample_quiet sample_lists [where P = "\<lambda>fs. fs ''c1'' = Some (replicate 300 7)" and f = PL_MSCListObjects
        and xs = "[sample_object ''o1'' 2, sample_object ''c1'' 300]"],
      where k = sample_connection and s = "sample_msc [] [''c1'' \<mapsto> replicate 300 7]" and x = "sample_object ''c1'' 300"]
  by (simp add: sample_object_def same_object_def del: replicate.simps) blast

theorem identifier_roundtrip_witness:
  "stringToBytes (atrToString (replicate 33 0)) (replicate 64 0) = None"
  using identifier_roundtrip [of "replicate 64 0" "replicate 33 0"] by simp

text \<open>A connection without a service is loaded for the card with the ATR 3B 00.\<close>

definition fresh_connection :: MSCTokenConnection where
  "fresh_connection = sample_connection\<lparr>tokenLibHandle := None, libPointers := \<lambda>_. None\<rparr>"

lemma sample_bundle_search:
  "TPSearchBundlesForAtr sample_env (tokenId sample_token) 2 sample_token c
    = Some (0, sample_token\<lparr>svProvider := ''/services/card.bundle/Contents/Linux/libcard.so'', tokenApp := [0xA0, 0, 0, 0, 1] @ replicate 59 0, tokenAppLen := 5\<rparr>)"
  by code_simp

theorem unloaded_service_pointer_witness:
  "\<exists>k c k1 c1. TPLoadToken sample_env fresh_connection (sample_client [] Map.empty) = Some (SCARD_S_SUCCESS, k, c)
    \<and> TPUnloadToken sample_env k c = (SCARD_S_SUCCESS, k1, c1) \<and> libPointers k1 IdentifyToken = Some 5"
proof -
  let ?c = "sample_client [] Map.empty"
  have s: "tokenIdLength sample_token = 2" "mc_tokenInfo fresh_connection = sample_token" by (simp_all add: sample_token_def fresh_connection_def sample_connection_def)
  obtain k where k: "TPLoadToken sample_env fresh_connection ?c = Some (SCARD_S_SUCCESS, k, ?c)" "tokenLibHandle k = Some 5"
    using sample_bundle_search [of ?c] s by (simp add: TPLoadToken_def clear_pointers_def TPBindFunctions_def bindings_def sample_env_def)
  moreover obtain k1 where "TPUnloadToken sample_env k ?c = (SCARD_S_SUCCESS, k1, ?c)"
    using k(2) by (simp add: TPUnloadToken_def TPUnbindFunctions_def sample_env_def)
  moreover from unloaded_service_pointer [OF k(1)] k(2) have "TPUnloadToken sample_env k c2 = (SCARD_S_SUCCESS, k2, c3) \<Longrightarrow> libPointers k2 IdentifyToken = Some 5" for c2 k2 c3
    by (metis option.inject)
  ultimately show ?thesis by blast
qed

lemma sample_check:
  "SCardCheckDaemonAvailability scripted_system (sample_client rs fs) = (SCARD_S_SUCCESS, sample_client rs fs)"
  by (simp add: SCardCheckDaemonAvailability_def scripted_system_def sample_client_def)

lemma r16: "replicate 16 x = x # replicate 15 x"
  by (simp add: numeral_eq_Suc)

lemma sample_index: "SCardGetContextIndice 9 (sample_client rs fs) = Some 0" "SCardGetContextIndice 8 (sample_client rs fs) = None"
  by (auto simp: sample_client_def SCardGetContextIndice_def SCardGetContextIndiceTH_def empty_map_def)

text \<open>The reader is empty: the daemon connects, tells the states of the readers, and the status.\<close>

definition absent_reader :: READER_STATE where
  "absent_reader = empty_state\<lparr>readerName := ''R 00 00'', readerState := SCARD_ABSENT\<rparr>"

definition absent_script :: "status_args \<Rightarrow> reply list" where
  "absent_script a = [Connect_Reply SCARD_S_SUCCESS 0x4711 0, States_Reply [absent_reader], Status_Reply SCARD_S_SUCCESS a]"

theorem direct_connection_not_released_witness:
  "\<exists>k s1. MSCEstablishConnection sample_env (Some sample_token) SCARD_SHARE_DIRECT None 0 (Some fresh_connection) (sample_msc (absent_script a) Map.empty)
      = Some (MSC_SUCCESS, Some k, s1) \<and> mc_hCard k = 0x4711 \<and> MSCReleaseConnection sample_env (Some k) SCARD_LEAVE_CARD s1 = Some (MSC_INVALID_HANDLE, Some k, s1)"
proof -
  let ?s = "sample_msc (absent_script a) Map.empty"
  define c where "c = (sample_client [States_Reply [absent_reader], Status_Reply SCARD_S_SUCCESS a] Map.empty)\<lparr>psContextMap :=
     empty_map\<lparr>map_hContext := 9, map_dwClientID := 3, psChannelMap := \<lparr>chan_hCard = 0x4711, chan_readerName = Some ''R 00 00''\<rparr> # replicate 15 \<lparr>chan_hCard = 0, chan_readerName = None\<rparr>\<rparr>
     # replicate 15 empty_map\<rparr>"
  have connect: "SCardConnect_clnt scripted_system 9 (Some ''R 00 00'') SCARD_SHARE_DIRECT (SCARD_PROTOCOL_T0 OR SCARD_PROTOCOL_T1) True 0 (pcsc_client ?s)
      = Some (SCARD_S_SUCCESS, 0x4711, 0, c)"
    unfolding sample_msc_def absent_script_def
    by (simp add: SCardConnect_clnt_def open_context_def sample_check sample_index ask_in_def ask_def)
       (simp add: scripted_system_def sample_client_def c_def SCardAddHandle_def add_channel_def upd_map_def upd_at_def empty_map_def r16)
  have check: "SCardCheckDaemonAvailability scripted_system c = (SCARD_S_SUCCESS, c)" "SCardGetIndicesFromHandle 0x4711 c = Some (0, 0)"
    by (simp_all add: SCardCheckDaemonAvailability_def scripted_system_def sample_client_def c_def SCardGetIndicesFromHandle_def SCardGetIndicesFromHandleTH_def)
  define c1 where "c1 = c\<lparr>clnt_states := [absent_reader], outside := \<lparr>script = [Status_Reply SCARD_S_SUCCESS a], files = Map.empty, place = 0\<rparr>\<rparr>"
  have opened: "open_card scripted_system 0x4711 c = Some (Inr (0, 0, 0), c1)"
    by (simp add: open_card_def open_handle_def check synchronize_def getReaderStates_def ask_in_def ask_def)
       (simp add: scripted_system_def c_def c1_def sample_client_def find_state_def absent_reader_def)
  obtain st s1 where status: "card_status sample_env 0x4711 (?s\<lparr>pcsc_client := c\<rparr>) = Some (SCARD_S_SUCCESS, st, s1)" "st_state st = Some SCARD_ABSENT"
    by (simp add: card_status_def SCardStatus_clnt_def opened ask_in_def ask_def)
       (simp add: scripted_system_def c_def c1_def sample_client_def absent_reader_def empty_state_def status_out_def get_buffer_def put_def strncpy_bytes_def)
  have "garbage (msc_pcsc sample_env) (outside (pcsc_client ?s)) = 0" "slotName sample_token = ''R 00 00''" by (simp_all add: scripted_system_def sample_token_def)
  then show ?thesis using direct_connection_not_released [of ?s 0 sample_env sample_token "0x4711" 0 c st s1 None fresh_connection] connect status
    by (simp add: flag_def) blast
qed

text \<open>The client library has lost the context: it is not in its table.\<close>

theorem closed_context_never_renewed_witness:
  "\<exists>rv s1. MSCWaitForTokenEvent sample_env [sample_token] 0 (sample_msc [] Map.empty\<lparr>localHContext := 8\<rparr>) = Some (rv, [sample_token], s1) \<and> rv \<noteq> MSC_SUCCESS"
proof -
  let ?s = "sample_msc [] Map.empty\<lparr>localHContext := 8\<rparr>"
  have closed: "localHContext ?s \<noteq> 0" "SCardGetContextIndice (localHContext ?s) (pcsc_client ?s) = None" by (simp_all add: sample_msc_def sample_index)
  obtain rv s1 where run: "MSCWaitForTokenEvent sample_env [sample_token] 0 ?s = Some (rv, [sample_token], s1)"
    by (simp add: MSCWaitForTokenEvent_def ensure_context_def SCardGetStatusChange_clnt_def open_context_def Let_def)
       (simp add: sample_msc_def sample_check sample_index sample_token_def flag_def SCardGetStatusChange_clnt_def open_context_def Let_def)
  from closed_context_never_renewed [OF closed, THEN conjunct2, THEN conjunct1, rule_format, OF run] run show ?thesis by auto
qed

end
