(* ===== verification/Spec2Isabelle.thy ===== *)
theory Spec2Isabelle
  imports Towitoko Hotplug Wire Serial_Frames Clnt_Events Clnt_Daemon Reader_Admin T1_Card Ccid_Xfr Muscle_Samples
begin

text \<open>
  \<^bold>\<open>A verification development for pcsc-lite\<close>

  \<^bold>\<open>The program.\<close> The daemon \<^verbatim>\<open>pcscd\<close> gives applications access to smart card readers. A client library talks to it over a
  socket; the daemon keeps a thread per client (winscard\_svc.c), which calls the card operations (winscard.c); these work
  on a table of readers (readerfactory.c), call the driver of a reader through a wrapper (ifdwrapper.c) and negotiate the
  protocol from the answer to reset of the card (prothandler.c, atrhandler.c). A thread per reader polls for cards and
  tells clients about changes (eventhandler.c), another one looks for USB readers (hotplug\_libusb.c). The driver for CCID readers in Drivers/ccid
  implements the driver interface (ifdhandler.c), translates the calls into
  USB messages (commands.c, ccid\_usb.c) and implements the block protocol T=1 (openct/proto-t1.c, buffer.c, checksum.c). On top of the client library
  the MUSCLE card library offers objects and keys of cards for which a service is installed (libmusclecard).

  \<^bold>\<open>The theories.\<close> Paths are relative to src/PCSC/src, src/Drivers/ccid/src and src/libmusclecard/src.

  \<^item> \<open>Prelude\<close>: machine types, constants of the headers, lemmas on searches in arrays and on flags.
  \<^item> \<open>Interfaces\<close>: the locales \<open>handle_table\<close>, \<open>reentrant_lock\<close> and \<open>guarded_system\<close>. They are interpreted on the handles of a
    reader and its sharing lock (in \<open>Reader_Factory\<close>), on the handles of a client in the daemon (in \<open>Svc\<close>) and in the
    client library (\<open>Clnt_Inv\<close>), on the CCID driver, the client library and the daemon (below).
  \<^item> \<open>Atr\<close>: atrhandler.c. The decoder ends, its result is consistent and depends only on the bytes it reports.
  \<^item> \<open>Ifd\<close>: ifdwrapper.c and the structures of readerfactory.h and eventhandler.h. The record of a driver is a parameter.
  \<^item> \<open>Prot\<close>: prothandler.c. The protocol chosen is one that the card offers and the client wants.
  \<^item> \<open>Reader_Factory\<close>: the daemon state \<open>'d pcscd\<close>, lookups, sharing lock, handles and events of a reader (readerfactory.c). The lock
    refines a reentrant lock, handles and readers correspond.
  \<^item> \<open>Reader_Admin\<close>: the rest of readerfactory.c: names, drivers, adding, removing, suspending readers, the configuration. Removal is
    complete and leaves other readers alone, an added reader is found, both keep the invariants.
  \<^item> \<open>Event_Handler\<close>: eventhandler.c. The published status is always one of unknown, absent, present; a removed card
    reaches every handle and waiting client; a thread that is not killable ends on request, with one exception.
  \<^item> \<open>Winscard\<close>: every function of winscard.c and the invariants \<open>daemon_inv\<close> and \<open>sharing_inv\<close>; \<open>Card_Sharing\<close>: what clients may rely
    on: exclusive connections and transactions exclude others, connect and disconnect are inverse, resets are notified.
  \<^item> \<open>Svc\<close>: winscard\_svc.c: contexts, every command of \<^verbatim>\<open>ContextThread\<close>, the cleanup after a client. Requests for handles of other clients
    have no effect.
  \<^item> \<open>Clnt\<close>: winscard\_clnt.c, every call of the client library on its table of contexts; the daemon, sockets and memory are a parameter, the
    record \<open>'s clnt_system\<close>. \<open>Clnt_Inv\<close>: the table stays well formed under all calls (interpretations of \<open>handle_table\<close> and \<open>guarded_system\<close>), unknown
    handles are refused without a message. \<open>Clnt_Events\<close>: the event words of \<^verbatim>\<open>SCardGetStatusChange\<close> report every change once.
    \<open>Clnt_Daemon\<close>: the parameter instantiated by the daemon of \<open>Svc\<close>: connecting keeps the handle tables of both sides equal, a refused
    disconnect does not.
  \<^item> \<open>Transport\<close>: winscard\_msg.c and winscard\_msg\_srv.c over the calls of the system on sockets, the record \<open>'s fd_system\<close>. Sending and
    receiving end; what arrives is what was sent, in whatever pieces. \<open>Wire\<close>: the structures of winscard\_msg.h as bytes; every request of the
    client library arrives in the daemon as it was sent.
  \<^item> \<open>Checksum\<close>, \<open>Ct_Buffer\<close>: openct/checksum.c and openct/buffer.c. The table driven CRC is the bitwise one; buffers are byte queues
    (locale \<open>byte_queue\<close>, interpreted on the functions of the source).
  \<^item> \<open>Ccid_Usb\<close>, \<open>Ccid_Commands\<close>, \<open>Ccid_Xfr\<close>: the transfers of ccid\_usb.c and the functions of commands.c, with ICCD devices, T=0
    in character mode, extended APDUs and PIN entry.
  \<^item> \<open>T1\<close>, \<open>T1_Blocks\<close>, \<open>T1_Card\<close>: openct/proto-t1.c; blocks are read back as they were built; \<open>T1_Card\<close> specifies a card by the rules of
    T=1 (locale \<open>t1_link\<close>, interpreted on that card behind a USB reader) and shows that every exchange ends with the answer.
  \<^item> \<open>Towitoko\<close>: towitoko/atr.c and towitoko/pps.c, the second ATR decoder of the repository. It stores every byte that it reports and
    agrees with the protocol selection of the daemon except for answers in specific mode, which the daemon overlooks.
  \<^item> \<open>C_Strings\<close>: the functions of the C library on strings that the sources use.
  \<^item> \<open>Ccid_Device\<close>: utils.c and the rest of ccid\_usb.c: the table of logical units, finding, opening and closing a device. \<open>Ccid_Ifd\<close>:
    ifdhandler.c and ccid.c, the functions that the daemon calls. Their state is the record \<open>'u ccid_driver\<close>.
  \<^item> \<open>Ccid_Inv\<close>: the tables of the driver stay consistent under all calls (interpretation of \<open>guarded_system\<close>). \<open>Ccid_Calls\<close>: the ATR is remembered, an
    exchanged card is noticed, errors return no data, vendor commands need permission, timeouts follow what an ATR announces.
  \<^item> \<open>Ccid_Serial\<close>: ccid\_serial.c, the port of the serial build, over the calls of the system (record \<open>'s serial_port\<close>). \<open>Ccid_Serial_Inv\<close>: its
    tables stay well formed (interpretation of \<open>guarded_system\<close>). \<open>Serial_Frames\<close>: messages arrive behind echoes and notifications; checksums are not
    checked; closing the slots of a reader in the wrong order leaves a freed name in the table.
  \<^item> \<open>Hotplug\<close>: hotplug\_libusb.c. A scan brings the table of readers in step with the busses; the driver understands the names of the devices but
    ignores their places.
  \<^item> \<open>Token_Factory\<close>, \<open>Musclecard\<close>, \<open>Muscle_Services\<close>: tokenfactory.c and musclecard.c, every function, over the client library of \<open>Clnt\<close>; the services (shared
    libraries for cards), the dynamic linker and the directory of services are a parameter, the record \<open>'s msc_env\<close>. \<open>Muscle_Objects\<close>: what is written into an object is read
    back, keys and objects are found in the lists of a service. \<open>Muscle_Session\<close>: pointers to a service that was unloaded, connections that cannot be closed, a
    context that is never opened again. \<open>Muscle_Samples\<close>: a service that fulfils the demands, for the witnesses.
  \<^item> This theory: the daemon as a step relation over all of its operations, with the calls that wait for a lock, and its invariant.

  \<^bold>\<open>Conventions.\<close> \<^verbatim>\<open>DWORD\<close> is \<open>32 word\<close> (ILP32), bytes are \<open>8 word\<close>; results passed through pointers are components of a
  tuple; a call that does not return, uses a null pointer or accesses memory outside of an array is \<open>None\<close>, so that a result
  \<open>Some\<close> in a theorem says that the call returns and is memory safe. Loops without a bound are \<open>partial_function (option)\<close> (the polling
  loop \<open>poll_run\<close>, \<open>protocol_number\<close>, \<open>remove_readers\<close>, \<open>time_request\<close>, \<open>t1_loop\<close> and others), there is no fuel.
  Code outside of the sources is a parameter: drivers, \<open>'d system\<close> (dlopen and threads), the results of sending messages, \<^verbatim>\<open>rand\<close>,
  \<open>'u libusb\<close>; uninitialised memory is a parameter too.

  \<^bold>\<open>Interleaving.\<close> A step of the daemon is one turn of a client thread, one iteration of a polling thread or one operation on the reader table. \<^verbatim>\<open>SCardConnect\<close> and
  \<^verbatim>\<open>SCardDisconnect\<close> wait for the sharing lock in the middle of the call (winscard.c, lines 323 and 848): \<open>Winscard\<close> cuts them there, and below the
  part before the wait and the part after it are steps of their own, with any steps of the other threads in between. What the first part has checked
  may then be wrong, and the count of a reader can lose its meaning (property \<open>connect_after_wait_breaks_exclusivity\<close> in \<open>Card_Sharing\<close>); the invariant
  says what holds all the same. Finer interleavings of unlocked accesses, inside a handler, are not modelled. The threads that \<open>joins_sound\<close> describes do while they
  are joined what the polling loop does.

  \<^bold>\<open>Not modelled.\<close> Signals, command line, logging, dynamic loading (I/O or thin wrappers of the system); the other
  libraries, drivers and tools of the repository; of the CCID driver the
  functions that are only compiled with USE\_USB\_INTERRUPT; of the hotplug thread the pipe that requests a scan.
\<close>

section \<open>The daemon as a whole\<close>

subsection \<open>Steps\<close>

text \<open>What happens beside the requests of clients: a connection is accepted, a polling thread starts or does one iteration, or a
  reader is added, removed, suspended or woken up. The operations on readers are used with threads that do what the polling loop does.\<close>

inductive background_step :: "'d pcscd \<Rightarrow> 'd pcscd \<Rightarrow> bool" where
  new_client: "CreateContextThread fd create w = (rv, fd', w') \<Longrightarrow> background_step w w'"
| poll_start: "EHStatusHandlerThread_start i w = Some (t, w') \<Longrightarrow> background_step w w'"
| poll_turn: "i < 16 \<Longrightarrow> EHStatusHandlerThread_loop i t w = Some (exited, t', w') \<Longrightarrow> background_step w w'"
| plug_in: "joins_sound sys \<Longrightarrow> RFAddReader sys name port_no lib dev w = Some (rv, w') \<Longrightarrow> background_step w w'"
| unplug: "joins_sound sys \<Longrightarrow> RFRemoveReader sys name port_no w = Some (rv, w') \<Longrightarrow> background_step w w'"
| start_serial: "joins_sound sys \<Longrightarrow> RFStartSerialReaders sys conf crc w = Some (rv, crc', w') \<Longrightarrow> background_step w w'"
| recheck: "joins_sound sys \<Longrightarrow> RFReCheckReaderConf sys entries crc w = Some w' \<Longrightarrow> background_step w w'"
| suspend: "joins_sound sys \<Longrightarrow> RFSuspendAllReaders sys w = Some w' \<Longrightarrow> background_step w w'"
| awake: "RFAwakeAllReaders sys w = Some w' \<Longrightarrow> background_step w w'"
| cleanup: "joins_sound sys \<Longrightarrow> RFCleanupReaders sys exits w = Some (e, w') \<Longrightarrow> background_step w w'"

text \<open>A call of \<^verbatim>\<open>SCardConnect\<close> or \<^verbatim>\<open>SCardDisconnect\<close> that has entered the loop in which it waits for the sharing lock (winscard.c, lines 323 and 848), with what
  its thread needs afterwards: the slot of the reader and the fields of the request.\<close>

datatype waiting_call =
    Waiting_Connect nat SCARDCONTEXT DWORD DWORD DWORD
  | Waiting_Disconnect nat SCARDHANDLE DWORD

fun waits_for :: "waiting_call \<Rightarrow> nat" where
  "waits_for (Waiting_Connect i _ _ _ _) = i"
| "waits_for (Waiting_Disconnect i _ _) = i"

text \<open>Whether the thread of client \<open>k\<close> comes to wait when it serves a request.\<close>

fun call_waits :: "nat \<Rightarrow> request \<Rightarrow> 'd pcscd \<Rightarrow> waiting_call option" where
  "call_waits k (Connect hContext name m p act) w =
     (case connect_enter (Some name) True m p w of
        Inl _ \<Rightarrow> None
      | Inr i \<Rightarrow> if dwLockId (rctx w i) \<noteq> 0 then Some (Waiting_Connect i hContext m p act) else None)"
| "call_waits k (Disconnect h d rv) w =
     (if MSGCheckHandleAssociation h k w = 0
      then case disconnect_enter h d w of
             Inl _ \<Rightarrow> None
           | Inr i \<Rightarrow> if disconnect_waits i h d w then Some (Waiting_Disconnect i h d) else None
      else None)"
| "call_waits k _ w = None"

text \<open>The rest of the call and of the handler once the lock has been seen free.\<close>

fun finish_call :: "nat \<Rightarrow> waiting_call \<Rightarrow> 'd pcscd \<Rightarrow> (outcome \<times> 'd pcscd) option" where
  "finish_call k (Waiting_Connect i hContext m p act) w = map_option (serve_connected k hContext) (connect_finish i m p act w)"
| "finish_call k (Waiting_Disconnect i h d) w =
     do { (rv, w1) \<leftarrow> disconnect_finish i h d w;
          if rv = SCARD_S_SUCCESS
          then let (rv1, w2) = MSGRemoveHandle h k w1 in Some (Reply (Code_Reply rv1), w2)
          else Some (Reply (Code_Reply rv), w1) }"

text \<open>The end of a turn of \<^verbatim>\<open>ContextThread\<close>: the reply is sent, or the client is cleaned up.\<close>

definition end_of_turn :: "nat \<Rightarrow> bool \<Rightarrow> outcome \<Rightarrow> 'd pcscd \<Rightarrow> (bool \<times> outcome \<times> 'd pcscd) option" where
  "end_of_turn k sent res w =
     (if res = Exit \<or> res \<noteq> Reply No_Reply \<and> \<not> sent then do { w1 \<leftarrow> MSGCleanupClient k w; Some (False, res, w1) }
      else Some (True, res, w))"

lemma ContextThread_turn: "ContextThread k req sent w = do { (res, w1) \<leftarrow> serve k req w; end_of_turn k sent res w1 }"
  by (simp add: ContextThread_def end_of_turn_def)

text \<open>The functions of \<open>Winscard\<close> have no result where the calls wait, and otherwise do the two halves one after the other.\<close>

lemma serve_waits: "call_waits k req w = Some c \<Longrightarrow> serve k req w = None"
  by (cases req) (auto simp: SCardConnect_def serve_disconnect_def SCardDisconnect_def split: sum.splits if_splits)

text \<open>What is decided before a wait need not hold after it: another client may have made its connection exclusive, or the reader may
  have been removed and its slot used again.\<close>

fun too_late :: "waiting_call \<Rightarrow> 'd pcscd \<Rightarrow> bool" where
  "too_late (Waiting_Connect i _ _ _ _) w \<longleftrightarrow> dwContexts (rctx w i) = SCARD_EXCLUSIVE_CONTEXT"
| "too_late (Waiting_Disconnect i h _) w \<longleftrightarrow> h \<notin> hCard ` set (psHandles (rctx w i))"

text \<open>The state of a run: the daemon, the call each client waits in, and whether a call has ever gone on too late.\<close>

record 'd daemon_run =
  world :: "'d pcscd"
  waiting :: "nat \<Rightarrow> waiting_call option"
  late :: bool

text \<open>A step: something in the background, a turn of a client whose call does not wait, the start of a wait, or the end of one when the lock is
  free. In between the other threads go on.\<close>

inductive daemon_step :: "'d daemon_run \<Rightarrow> 'd daemon_run \<Rightarrow> bool" where
  background: "background_step (world s) w' \<Longrightarrow> daemon_step s (s\<lparr>world := w'\<rparr>)"
| client_turn: "waiting s k = None \<Longrightarrow> ContextThread k req sent (world s) = Some (goes_on, res, w')
    \<Longrightarrow> daemon_step s (s\<lparr>world := w'\<rparr>)"
| client_waits: "waiting s k = None \<Longrightarrow> call_waits k req (world s) = Some c
    \<Longrightarrow> daemon_step s (s\<lparr>waiting := (waiting s)(k \<mapsto> c)\<rparr>)"
| client_resumes: "waiting s k = Some c \<Longrightarrow> dwLockId (rctx (world s) (waits_for c)) = 0 \<Longrightarrow> finish_call k c (world s) = Some (res, w1)
    \<Longrightarrow> end_of_turn k sent res w1 = Some (goes_on, res, w')
    \<Longrightarrow> daemon_step s (s\<lparr>world := w', waiting := (waiting s)(k := None), late := late s \<or> too_late c (world s)\<rparr>)"

subsection \<open>The invariant\<close>

text \<open>What every state of a run satisfies: the tables are well formed, the count is exact as long as no call went on too late, and a waiting call
  names a slot of the table, with the handle of a disconnect belonging to that slot.\<close>

fun call_ok :: "waiting_call \<Rightarrow> bool" where
  "call_ok (Waiting_Connect i _ _ _ _) \<longleftrightarrow> i < 16"
| "call_ok (Waiting_Disconnect i h _) \<longleftrightarrow> i < 16 \<and> h \<noteq> 0 \<and> identity_part h = slot_identity i"

definition consistent :: "'d daemon_run \<Rightarrow> bool" where
  "consistent s \<longleftrightarrow> daemon_inv (world s) \<and> (\<not> late s \<longrightarrow> sharing_inv (world s)) \<and> (\<forall>k c. waiting s k = Some c \<longrightarrow> call_ok c)"

text \<open>Most operations keep the tables well formed, and the count exact where it was.\<close>

abbreviation (input) keeps_inv :: "'d pcscd \<Rightarrow> 'd pcscd \<Rightarrow> bool" where
  "keeps_inv w w' \<equiv> daemon_inv w' \<and> (sharing_inv w \<longrightarrow> sharing_inv w')"

lemma CreateContextThread_tables: "CreateContextThread fd create w = (rv, fd', w') \<Longrightarrow> sReadersContexts w' = sReadersContexts w"
  by (auto simp: CreateContextThread_def split: option.splits if_splits)

lemma poll_start_tables: "EHStatusHandlerThread_start i w = Some (t, w') \<Longrightarrow> sReadersContexts w' = sReadersContexts w"
proof -
  assume "EHStatusHandlerThread_start i w = Some (t, w')"
  then obtain rv st w1 w2 w3 f where p: "poll_icc i w = Some (rv, st, w1)"
    and c: "(\<exists>rv. power_up_card i w1 = Some (rv, w2)) \<or> (\<exists>g. upd_rstate i g w1 = Some w2)"
    and u: "upd_rstate i f w2 = Some w3" and w': "sReadersContexts w' = sReadersContexts w3"
    unfolding EHStatusHandlerThread_start_def by (fastforce simp: bind_eq_Some_conv split: if_splits)
  have "same_tables w w1" by (rule same_tables_poll_icc [OF p])
  moreover have "same_tables w1 w2" using c same_tables_power_up same_tables_upd_rstate by blast
  moreover have "same_tables w2 w3" by (rule same_tables_upd_rstate [OF u])
  ultimately show ?thesis using w' by (simp add: same_tables_def)
qed

lemma poll_keeps_inv:
  assumes "EHStatusHandlerThread_loop i t w = Some (exited, t', w')" and "i < 16" and "daemon_inv w"
  shows "keeps_inv w w'"
proof -
  have "i < length (sReadersContexts w)" using assms(2,3) by (simp add: daemon_inv_def)
  from thread_effect_clients [OF loop_effect [OF assms(1) this]] same_clients_inv assms(2,3) show ?thesis by blast
qed

lemma plug_keeps_inv:
  assumes "RFAddReader sys name port_no lib dev w = Some (rv, w')" and "joins_sound sys" and "daemon_inv w"
  shows "keeps_inv w w'"
proof -
  from assms(1) have "w' = w \<or> (\<exists>n l d. add_reader sys n port_no l d w = Some (rv, w'))"
    by (auto simp: RFAddReader_def split: option.splits)
  with add_reader_inv [OF _ assms(2,3)] assms(3) show ?thesis by metis
qed

lemma background_keeps_inv: "background_step w w' \<Longrightarrow> daemon_inv w \<Longrightarrow> keeps_inv w w'"
proof (induction rule: background_step.induct)
  case (new_client fd create w rv fd' w')
  with world_inv [OF CreateContextThread_tables] show ?case by blast
next
  case (poll_start i w t w')
  with world_inv [OF poll_start_tables] show ?case by blast
next
  case (poll_turn i t w exited t' w')
  with poll_keeps_inv show ?case by blast
next
  case (plug_in sys name port_no lib dev w rv w')
  with plug_keeps_inv show ?case by blast
next
  case (unplug sys name port_no w rv w')
  from RFRemoveReader_inv [OF unplug(2,1,3)] show ?case .
next
  case (start_serial sys conf crc w rv crc' w')
  from RFStartSerialReaders_inv [OF start_serial(2,1,3)] show ?case .
next
  case (recheck sys entries crc w w')
  from RFReCheckReaderConf_inv [OF recheck(2,1,3)] show ?case .
next
  case (suspend sys w w')
  from RFSuspendAllReaders_inv [OF suspend(2,1,3)] show ?case .
next
  case (awake sys w w')
  from RFAwakeAllReaders_inv [OF awake(1,2)] show ?case .
next
  case (cleanup sys exits w e w')
  from RFCleanupReaders_inv [OF cleanup(2,1,3)] show ?case .
qed

lemma end_of_turn_inv: "end_of_turn k sent res w1 = Some (goes_on, res', w') \<Longrightarrow> daemon_inv w1 \<Longrightarrow> keeps_inv w1 w'"
  using MSGCleanupClient_inv by (auto simp: end_of_turn_def bind_eq_Some_conv split: if_splits)

lemma turn_keeps_inv:
  assumes "ContextThread k req sent w = Some (goes_on, res, w')" and "daemon_inv w"
  shows "keeps_inv w w'"
proof -
  from assms(1) obtain res1 w1 where s: "serve k req w = Some (res1, w1)" and e: "end_of_turn k sent res1 w1 = Some (goes_on, res, w')"
    by (auto simp: ContextThread_turn bind_eq_Some_conv)
  from serve_inv [OF s assms(2)] end_of_turn_inv [OF e] show ?thesis by blast
qed

subsection \<open>Calls that waited\<close>

lemma connect_resumes:
  assumes "connect_finish i m p act w = Some (rv, h, act', w')" and "daemon_inv w" and "i < 16"
  shows "daemon_inv w' \<and> (dwContexts (rctx w i) \<noteq> SCARD_EXCLUSIVE_CONTEXT \<longrightarrow> sharing_inv w \<longrightarrow> sharing_inv w')"
proof (cases "rstate w i")
  case None
  with assms show ?thesis by (simp add: connect_finish_def)
next
  case (Some s)
  then have "stateRef (rctx w i) \<noteq> None" by (auto simp: rstate_def split: option.splits)
  with assms(2,3) have id: "dwIdentity (rctx w i) = slot_identity i" by (simp add: daemon_inv_def reader_inv_def)
  note c = connect_finish_inv [OF assms(1-3) id]
  then have "daemon_inv w'" "touches i w w'" by blast+
  moreover have "sharing_inv w \<Longrightarrow> share_ok (rctx w i)" using assms(3) by (simp add: sharing_inv_def)
  ultimately show ?thesis using c sharing_inv_touches by blast
qed

lemma drop_without_handle:
  assumes "reader_inv i r" and "h \<notin> hCard ` set (psHandles r)"
  shows "reader_inv i (drop_connection (snd (RFRemoveReaderHandle r h)))"
proof -
  have "first_index (\<lambda>c. hCard c = h) (psHandles r) = None" using assms(2) by auto
  then have "snd (RFRemoveReaderHandle r h) = r" by (simp add: RFRemoveReaderHandle_def del: first_index_None_iff)
  moreover have "SCARD_EXCLUSIVE_CONTEXT \<le> dwContexts (drop_connection r) \<and> dwContexts (drop_connection r) \<le> int (Winscard.connected r)"
    using assms(1) by (auto simp: reader_inv_def drop_connection_def)
  ultimately show ?thesis using assms(1) by (simp add: reader_inv_def)
qed

lemma disconnect_resumes:
  assumes "disconnect_finish i h d w = Some (rv, w')" and "daemon_inv w" and "i < 16" and "h \<noteq> 0" and "identity_part h = slot_identity i"
  shows "daemon_inv w' \<and> (h \<in> hCard ` set (psHandles (rctx w i)) \<longrightarrow> sharing_inv w \<longrightarrow> sharing_inv w')"
proof (cases "RFReaderInfoById w h")
  case (Inl e)
  moreover have "e \<noteq> SCARD_S_SUCCESS" using Inl by (auto simp: RFReaderInfoById_def split: option.splits)
  ultimately have "w' = w" using assms(1) by (simp add: disconnect_finish_def RFUnlockAllSharing_def split: if_splits)
  with assms(2) show ?thesis by simp
next
  case (Inr j)
  from RFReaderInfoById_Inr [OF Inr] assms(2,5) have j: "j < 16" "dwIdentity (rctx w j) = slot_identity i" by (simp_all add: daemon_inv_def)
  with assms(2,3) have "slot_identity j = slot_identity i" by (auto simp: daemon_inv_def reader_inv_def)
  with j assms(3) slot_identity_inj have "j = i" by blast
  with Inr have find: "RFReaderInfoById w h = Inr i" by simp
  have len: "i < length (sReadersContexts w)" using assms(2,3) by (simp add: daemon_inv_def)
  show ?thesis
  proof (cases "h \<in> hCard ` set (psHandles (rctx w i))")
    case True
    from disconnect_finish_inv [OF assms(1-3) find True assms(4)] have c: "daemon_inv w'" "touches i w w'" "share_ok (rctx w i) \<longrightarrow> share_ok (rctx w' i)"
      by blast+
    moreover have "sharing_inv w \<Longrightarrow> share_ok (rctx w i)" using assms(3) by (simp add: sharing_inv_def)
    ultimately show ?thesis using sharing_inv_touches by blast
  next
    case False
    from assms(1) len find have "daemon_inv w'"
    proof (cases rule: disconnect_finish_cases)
      case refused
      with assms(2) show ?thesis by simp
    next
      case (finished r)
      have m: "map hCard (psHandles r) = map hCard (psHandles (rctx w i))"
        and f: "dwIdentity r = dwIdentity (rctx w i)" "vHandle r = vHandle (rctx w i)" "dwContexts r = dwContexts (rctx w i)"
          "stateRef r = stateRef (rctx w i)" using finished(4) by auto
      have "reader_inv i r" using reader_inv_cong [OF m f(1,2,4,3)] assms(2,3) by (simp add: daemon_inv_def)
      then have "reader_inv i (rctx w' i)" using drop_without_handle [of i r h] False hCard_set_eq [OF m] finished(6) by metis
      with finished(2) daemon_inv_touches [OF assms(2)] show ?thesis by blast
    qed
    with False show ?thesis by blast
  qed
qed

lemma finish_call_inv:
  assumes "finish_call k c w = Some (res, w1)" and "daemon_inv w" and "call_ok c"
  shows "daemon_inv w1 \<and> (\<not> too_late c w \<longrightarrow> sharing_inv w \<longrightarrow> sharing_inv w1)"
proof (cases c)
  case (Waiting_Connect i hc m p act)
  with assms(1) obtain rv h act' w2 where f: "connect_finish i m p act w = Some (rv, h, act', w2)"
    and s: "serve_connected k hc (rv, h, act', w2) = (res, w1)" by auto
  from connect_resumes [OF f assms(2)] serve_connected_inv [OF s] assms(3) Waiting_Connect show ?thesis by simp
next
  case (Waiting_Disconnect i h d)
  with assms(1) obtain rv w2 where f: "disconnect_finish i h d w = Some (rv, w2)" and s: "w1 = w2 \<or> w1 = snd (MSGRemoveHandle h k w2)"
    by (auto simp: bind_eq_Some_conv split: if_splits prod.splits)
  have "daemon_inv w1 = daemon_inv w2" "sharing_inv w1 = sharing_inv w2" using s by (auto simp: MSGRemoveHandle_def split: prod.splits)
  with disconnect_resumes [OF f assms(2)] assms(3) Waiting_Disconnect show ?thesis by simp
qed

lemma call_waits_ok: "call_waits k req w = Some c \<Longrightarrow> daemon_inv w \<Longrightarrow> call_ok c"
proof (induction k req w rule: call_waits.induct)
  case (1 k hContext name m p act w)
  then obtain i where e: "connect_enter (Some name) True m p w = Inr i" and c: "c = Waiting_Connect i hContext m p act"
    by (auto split: sum.splits if_splits)
  with connect_enter_Inr [OF e 1(2)] show ?case by simp
next
  case (2 k h d rv w)
  then obtain i where e: "disconnect_enter h d w = Inr i" and c: "c = Waiting_Disconnect i h d"
    by (auto split: sum.splits if_splits)
  from disconnect_enter_Inr [OF e 2(2)] have "i < 16" "h \<noteq> 0" "h \<in> hCard ` set (psHandles (rctx w i))" by blast+
  with 2(2) c show ?case by (auto simp: daemon_inv_def reader_inv_def)
qed simp_all

lemma step_consistent: "daemon_step s s' \<Longrightarrow> consistent s \<Longrightarrow> consistent s'"
proof (induction rule: daemon_step.induct)
  case (background s w')
  with background_keeps_inv [OF background(1)] show ?case by (auto simp: consistent_def)
next
  case (client_turn s k req sent goes_on res w')
  with turn_keeps_inv [OF client_turn(2)] show ?case by (auto simp: consistent_def)
next
  case (client_waits s k req c)
  with call_waits_ok [OF client_waits(2)] show ?case by (auto simp: consistent_def)
next
  case (client_resumes s k c res w1 sent goes_on w')
  then have "call_ok c" "daemon_inv (world s)" by (auto simp: consistent_def)
  from finish_call_inv [OF client_resumes(3) this(2,1)] end_of_turn_inv [OF client_resumes(4)] client_resumes(5)
  show ?case by (auto simp: consistent_def)
qed

interpretation daemon: guarded_system daemon_step consistent
  by unfold_locales (rule step_consistent)

text \<open>C1: The daemon stays consistent in every run: whatever requests clients send, in any interleaving with the polling threads, with readers
  being plugged in and out, and with the rest of calls that waited for the lock of a reader meanwhile, in every state reached the handles of a reader lead back to that
  reader, and its sharing count is -1 or at most the number of its handles. As long as no call went on too late after a wait (a connect with the reader
  exclusively connected, a disconnect of a handle the reader has lost), the count is exact: it is the number of the handles, or it is -1 and there is exactly one.\<close>

theorem daemon_run_consistent:
  assumes "daemon_step\<^sup>*\<^sup>* s s'" and "daemon_inv (world s)" and "sharing_inv (world s)" and "\<forall>k. waiting s k = None" and "i < 16"
  shows "daemon_inv (world s')
    \<and> SCARD_EXCLUSIVE_CONTEXT \<le> dwContexts (rctx (world s') i) \<and> dwContexts (rctx (world s') i) \<le> int (connected (rctx (world s') i))
    \<and> (\<not> late s' \<longrightarrow> dwContexts (rctx (world s') i) = int (connected (rctx (world s') i))
        \<or> dwContexts (rctx (world s') i) = SCARD_EXCLUSIVE_CONTEXT \<and> connected (rctx (world s') i) = 1)
    \<and> (\<forall>h. h \<noteq> 0 \<and> h \<in> hCard ` set (psHandles (rctx (world s') i)) \<and> vHandle (rctx (world s') i) \<noteq> 0 \<longrightarrow> RFReaderInfoById (world s') h = Inr i)"
proof -
  have c: "consistent s'" by (rule daemon.run_good [OF assms(1)]) (simp add: consistent_def assms)
  then have d: "daemon_inv (world s')" by (simp add: consistent_def)
  have s: "\<not> late s' \<longrightarrow> share_ok (rctx (world s') i)" using c assms(5) by (simp add: consistent_def sharing_inv_def)
  have r: "reader_inv i (rctx (world s') i)" using d assms(5) by (simp add: daemon_inv_def)
  have "RFReaderInfoById (world s') h = Inr i"
    if "h \<noteq> 0" "h \<in> hCard ` set (psHandles (rctx (world s') i))" "vHandle (rctx (world s') i) \<noteq> 0" for h
    using RFReaderInfoById_handle [OF daemon_inv_identities [OF d] assms(5)] r that by (auto simp: reader_inv_def)
  with d s r show ?thesis by (auto simp: share_ok_def reader_inv_def)
qed

text \<open>A run in which a wait matters. The second client is in a transaction; the first enters \<^verbatim>\<open>SCardConnect\<close> and waits; the second makes its connection exclusive and
  releases its two locks; the first goes on, too late, and gets a connection: the count is 0 with two handles.\<close>

lemma session_turns:
  "ContextThread 1 (Reconnect 0x1000A SCARD_SHARE_EXCLUSIVE SCARD_PROTOCOL_T0 SCARD_LEAVE_CARD) True (session one SCARD_PROTOCOL_T0 0 1 1 0x1000A 1)
     = Some (True, Reply (Reconnect_Reply SCARD_S_SUCCESS SCARD_PROTOCOL_T0), session one SCARD_PROTOCOL_T0 0 (-1) (-1) 0x1000A 2)"
  "ContextThread 1 (End_Transaction 0x1000A SCARD_LEAVE_CARD 0) True (session one SCARD_PROTOCOL_T0 0 (-1) (-1) 0x1000A 2)
     = Some (True, Reply (Code_Reply SCARD_S_SUCCESS), session one SCARD_PROTOCOL_T0 0 (-1) (-1) 0x1000A 1)"
  "ContextThread 1 (End_Transaction 0x1000A SCARD_LEAVE_CARD 0) True (session one SCARD_PROTOCOL_T0 0 (-1) (-1) 0x1000A 1)
     = Some (True, Reply (Code_Reply SCARD_S_SUCCESS), session one SCARD_PROTOCOL_T0 0 (-1) (-1) 0 0)"
proof -
  have own: "MSGCheckHandleAssociation 0x1000A (Suc 0) (session one SCARD_PROTOCOL_T0 0 c q l n) = 0" for c q l n
    by (simp add: MSGCheckHandleAssociation_def pctx_def session_def session_clients_def)
  have junk: "uninit_dword (session one SCARD_PROTOCOL_T0 0 1 1 0x1000A 1) = 0"
    by (simp add: uninit_dword_def session_def sample_daemon_def)
  show "ContextThread 1 (Reconnect 0x1000A SCARD_SHARE_EXCLUSIVE SCARD_PROTOCOL_T0 SCARD_LEAVE_CARD) True (session one SCARD_PROTOCOL_T0 0 1 1 0x1000A 1)
     = Some (True, Reply (Reconnect_Reply SCARD_S_SUCCESS SCARD_PROTOCOL_T0), session one SCARD_PROTOCOL_T0 0 (-1) (-1) 0x1000A 2)"
    by (simp add: ContextThread_def own junk race_schedule(2))
  show "ContextThread 1 (End_Transaction 0x1000A SCARD_LEAVE_CARD 0) True (session one SCARD_PROTOCOL_T0 0 (-1) (-1) 0x1000A 2)
     = Some (True, Reply (Code_Reply SCARD_S_SUCCESS), session one SCARD_PROTOCOL_T0 0 (-1) (-1) 0x1000A 1)"
    by (simp add: ContextThread_def own race_schedule(3))
  show "ContextThread 1 (End_Transaction 0x1000A SCARD_LEAVE_CARD 0) True (session one SCARD_PROTOCOL_T0 0 (-1) (-1) 0x1000A 1)
     = Some (True, Reply (Code_Reply SCARD_S_SUCCESS), session one SCARD_PROTOCOL_T0 0 (-1) (-1) 0 0)"
    by (simp add: ContextThread_def own race_schedule(4))
qed

definition run_start :: "unit daemon_run" where
  "run_start = \<lparr>world = session one SCARD_PROTOCOL_T0 0 1 1 0x1000A 1, waiting = (\<lambda>_. None), late = False\<rparr>"

theorem daemon_run_consistent_witness:
  "\<exists>s'. daemon_step\<^sup>*\<^sup>* run_start s' \<and> daemon_inv (world s') \<and> late s' \<and> dwContexts (rctx (world s') 0) = 0 \<and> connected (rctx (world s') 0) = 2
     \<and> RFReaderInfoById (world s') 0x1FDE8 = Inr 0"
proof -
  let ?c = "Waiting_Connect 0 0x1030001 SCARD_SHARE_SHARED SCARD_PROTOCOL_T0 0"
  let ?s1 = "run_start\<lparr>waiting := [0 \<mapsto> ?c]\<rparr>"
  let ?s2 = "?s1\<lparr>world := session one SCARD_PROTOCOL_T0 0 (-1) (-1) 0x1000A 2\<rparr>"
  let ?s3 = "?s2\<lparr>world := session one SCARD_PROTOCOL_T0 0 (-1) (-1) 0x1000A 1\<rparr>"
  let ?s4 = "?s3\<lparr>world := session one SCARD_PROTOCOL_T0 0 (-1) (-1) 0 0\<rparr>"
  let ?w = "session two SCARD_PROTOCOL_T0 1 0 0 0 0"
  obtain rv w' where m: "MSGAddHandle 0x1030001 0x1FDE8 0 ?w = (rv, w')" by fastforce
  have w': "rctx w' i = rctx ?w i" for i using m by (auto simp: MSGAddHandle_def split: if_splits prod.splits)
  have "call_waits 0 (Connect 0x1030001 ''R 00 00'' SCARD_SHARE_SHARED SCARD_PROTOCOL_T0 0) (world run_start) = Some ?c"
    using race_schedule(1) by (simp add: run_start_def)
  from daemon_step.client_waits [OF _ this] have 1: "daemon_step run_start ?s1" by (simp add: run_start_def)
  have 2: "daemon_step ?s1 ?s2"
    by (rule daemon_step.client_turn [where k = 1]) (simp add: run_start_def, simp only: run_start_def daemon_run.simps, rule session_turns(1))
  have 3: "daemon_step ?s2 ?s3"
    by (rule daemon_step.client_turn [where k = 1]) (simp add: run_start_def, simp only: run_start_def daemon_run.simps, rule session_turns(2))
  have 4: "daemon_step ?s3 ?s4"
    by (rule daemon_step.client_turn [where k = 1]) (simp add: run_start_def, simp only: run_start_def daemon_run.simps, rule session_turns(3))
  let ?s5 = "?s4\<lparr>world := w', waiting := (waiting ?s4)(0 := None), late := late ?s4 \<or> too_late ?c (world ?s4)\<rparr>"
  have f: "finish_call 0 ?c (world ?s4) = Some (Reply (Connect_Reply rv 0x1FDE8 SCARD_PROTOCOL_T0), w')"
    using session_finish(1) [of 0 0 "-1" "-1" 0 0] m by (simp add: serve_connected_def)
  have 5: "daemon_step ?s4 ?s5"
    by (rule daemon_step.client_resumes [OF _ _ f, where sent = True and goes_on = True]) (simp_all add: end_of_turn_def)
  have run: "daemon_step\<^sup>*\<^sup>* run_start ?s5"
    using 1 2 3 4 5 by (meson r_into_rtranclp rtranclp_trans)
  have start: "daemon_inv (world run_start)" "sharing_inv (world run_start)" "\<forall>k. waiting run_start k = None"
    by (simp_all add: run_start_def session_inv session_sharing)
  have "hCard ` set (psHandles (rctx w' 0)) = {0x1000A, 0x1FDE8, 0}" "vHandle (rctx w' 0) \<noteq> 0" "dwContexts (rctx w' 0) = 0"
    by (auto simp: w' handle_array_def)
  moreover have "connected (rctx w' 0) = 2" by (simp add: w')
  ultimately show ?thesis
    using daemon_run_consistent [OF run start, of 0] run by (intro exI [of _ ?s5]) auto
qed

end
